(* ===== verification/Regex.thy ===== *)
theory Regex
  imports Prelude
begin

text \<open>
  Anchored regular expressions (\<open>/^...$/.test(s)\<close>): syntax, the language they denote, an
  executable matcher by derivatives, and its correctness. A bounded repetition of one
  character class (\<open>[...]{m,n}\<close>, \<open>+\<close>, \<open>*\<close>, \<open>?\<close>) is a constructor of its own, as nearly
  every pattern of the code is built from those. \<open>alphabet\<close> over-approximates the characters
  of a matched word; it turns a successful test into a fact about every character of the
  input, which is what the guards are for.
\<close>

datatype rx =
    Empty
  | Eps
  | Rng "char \<Rightarrow> bool" nat "nat option"
  | Seq rx rx
  | Alt rx rx
  | Star rx

abbreviation cls :: "(char \<Rightarrow> bool) \<Rightarrow> rx" where
  "cls P \<equiv> Rng P 1 (Some 1)"

abbreviation cls_plus :: "(char \<Rightarrow> bool) \<Rightarrow> rx" where
  "cls_plus P \<equiv> Rng P 1 None"

abbreviation cls_star :: "(char \<Rightarrow> bool) \<Rightarrow> rx" where
  "cls_star P \<equiv> Rng P 0 None"

abbreviation cls_between :: "(char \<Rightarrow> bool) \<Rightarrow> nat \<Rightarrow> nat \<Rightarrow> rx" where
  "cls_between P m n \<equiv> Rng P m (Some n)"

abbreviation chr :: "char \<Rightarrow> rx" where
  "chr c \<equiv> Rng (\<lambda>x. x = c) 1 (Some 1)"

abbreviation chr_opt :: "char \<Rightarrow> rx" where
  "chr_opt c \<equiv> Rng (\<lambda>x. x = c) 0 (Some 1)"

abbreviation opt :: "rx \<Rightarrow> rx" where
  "opt r \<equiv> Alt r Eps"

abbreviation plus :: "rx \<Rightarrow> rx" where
  "plus r \<equiv> Seq r (Star r)"

fun lit :: "string \<Rightarrow> rx" where
  "lit [] = Eps"
| "lit (c # cs) = Seq (chr c) (lit cs)"

section \<open>The language of an expression\<close>

fun lang :: "rx \<Rightarrow> string set" where
  "lang Empty = {}"
| "lang Eps = {[]}"
| "lang (Rng P m n) =
     {s. list_all P s \<and> m \<le> length s \<and> (case n of None \<Rightarrow> True | Some k \<Rightarrow> length s \<le> k)}"
| "lang (Seq r t) = {u @ v | u v. u \<in> lang r \<and> v \<in> lang t}"
| "lang (Alt r t) = lang r \<union> lang t"
| "lang (Star r) = {concat ws | ws. set ws \<subseteq> lang r}"

section \<open>Matching by derivatives\<close>

fun nullable :: "rx \<Rightarrow> bool" where
  "nullable Empty \<longleftrightarrow> False"
| "nullable Eps \<longleftrightarrow> True"
| "nullable (Rng P m n) \<longleftrightarrow> m = 0"
| "nullable (Seq r t) \<longleftrightarrow> nullable r \<and> nullable t"
| "nullable (Alt r t) \<longleftrightarrow> nullable r \<or> nullable t"
| "nullable (Star r) \<longleftrightarrow> True"

text \<open>Smart constructors keep derivatives small.\<close>

fun mk_seq :: "rx \<Rightarrow> rx \<Rightarrow> rx" where
  "mk_seq Empty t = Empty"
| "mk_seq Eps t = t"
| "mk_seq r t = Seq r t"

fun mk_alt :: "rx \<Rightarrow> rx \<Rightarrow> rx" where
  "mk_alt Empty t = t"
| "mk_alt r Empty = r"
| "mk_alt r t = Alt r t"

fun deriv :: "char \<Rightarrow> rx \<Rightarrow> rx" where
  "deriv c Empty = Empty"
| "deriv c Eps = Empty"
| "deriv c (Rng P m n) =
     (if P c \<and> n \<noteq> Some 0 then
        (if n = Some 1 then Eps else Rng P (m - 1) (map_option (\<lambda>k. k - 1) n))
      else Empty)"
| "deriv c (Seq r t) =
     (if nullable r then mk_alt (mk_seq (deriv c r) t) (deriv c t) else mk_seq (deriv c r) t)"
| "deriv c (Alt r t) = mk_alt (deriv c r) (deriv c t)"
| "deriv c (Star r) = mk_seq (deriv c r) (Star r)"

fun rx_test :: "rx \<Rightarrow> string \<Rightarrow> bool" where
  "rx_test r [] \<longleftrightarrow> nullable r"
| "rx_test r (c # s) \<longleftrightarrow> rx_test (deriv c r) s"

text \<open>A repetition is well formed when its bounds are in order; every pattern of the code
  is (\<open>\<open>wf_rx\<close>\<close> computes to \<open>True\<close> on each).\<close>

fun wf_rx :: "rx \<Rightarrow> bool" where
  "wf_rx (Rng P m n) \<longleftrightarrow> (case n of None \<Rightarrow> True | Some k \<Rightarrow> m \<le> k)"
| "wf_rx (Seq r t) \<longleftrightarrow> wf_rx r \<and> wf_rx t"
| "wf_rx (Alt r t) \<longleftrightarrow> wf_rx r \<and> wf_rx t"
| "wf_rx (Star r) \<longleftrightarrow> wf_rx r"
| "wf_rx _ \<longleftrightarrow> True"

lemma nullable_iff: "wf_rx r \<Longrightarrow> nullable r \<longleftrightarrow> [] \<in> lang r"
  by (induction r) (auto split: option.splits intro: exI [of _ "[]"])

lemma lang_mk_seq [simp]: "lang (mk_seq r t) = lang (Seq r t)"
  by (cases r) auto

lemma lang_mk_alt [simp]: "lang (mk_alt r t) = lang (Alt r t)"
  by (cases r; cases t) auto

lemma wf_mk_seq: "wf_rx r \<Longrightarrow> wf_rx t \<Longrightarrow> wf_rx (mk_seq r t)"
  by (cases r) auto

lemma wf_mk_alt: "wf_rx r \<Longrightarrow> wf_rx t \<Longrightarrow> wf_rx (mk_alt r t)"
  by (cases r; cases t) auto

lemma wf_deriv: "wf_rx r \<Longrightarrow> wf_rx (deriv c r)"
  by (induction r) (auto simp: wf_mk_seq wf_mk_alt split: option.splits)

lemma Cons_in_star:
  "c # s \<in> {concat ws | ws. set ws \<subseteq> L} \<longleftrightarrow>
   (\<exists>u v. s = u @ v \<and> c # u \<in> L \<and> v \<in> {concat ws | ws. set ws \<subseteq> L})"
proof
  assume "c # s \<in> {concat ws | ws. set ws \<subseteq> L}"
  then obtain ws where eq: "concat ws = c # s" and sub: "set ws \<subseteq> L" by auto
  let ?ws = "filter (\<lambda>w. w \<noteq> []) ws"
  have "concat ?ws = concat ws" by (induction ws) auto
  with eq have "concat ?ws = c # s" by simp
  moreover have "set ?ws \<subseteq> L" "[] \<notin> set ?ws" using sub by auto
  ultimately obtain w ws' where "?ws = w # ws'" "w \<in> L" "w \<noteq> []" "set ws' \<subseteq> L"
      "w @ concat ws' = c # s"
    by (cases ?ws) auto
  then show "\<exists>u v. s = u @ v \<and> c # u \<in> L \<and> v \<in> {concat ws | ws. set ws \<subseteq> L}"
    by (cases w) auto
next
  assume "\<exists>u v. s = u @ v \<and> c # u \<in> L \<and> v \<in> {concat ws | ws. set ws \<subseteq> L}"
  then obtain u ws where "s = u @ concat ws" "c # u \<in> L" "set ws \<subseteq> L" by auto
  then have "concat ((c # u) # ws) = c # s" and "set ((c # u) # ws) \<subseteq> L" by auto
  then show "c # s \<in> {concat ws | ws. set ws \<subseteq> L}" by (metis (mono_tags, lifting) mem_Collect_eq)
qed

lemma deriv_Rng: "wf_rx (Rng P m n) \<Longrightarrow> s \<in> lang (deriv c (Rng P m n)) \<longleftrightarrow> c # s \<in> lang (Rng P m n)"
  by (cases n) auto

lemma Cons_in_Seq:
  "c # s \<in> {u @ v | u v. u \<in> A \<and> v \<in> B} \<longleftrightarrow>
   (\<exists>u v. s = u @ v \<and> c # u \<in> A \<and> v \<in> B) \<or> ([] \<in> A \<and> c # s \<in> B)"
  by (auto simp: Cons_eq_append_conv)

lemma lang_deriv: "wf_rx r \<Longrightarrow> s \<in> lang (deriv c r) \<longleftrightarrow> c # s \<in> lang r"
proof (induction r arbitrary: s)
  case (Rng P m n)
  then show ?case by (rule deriv_Rng)
next
  case (Seq r t)
  then have n: "nullable r \<longleftrightarrow> [] \<in> lang r" by (simp add: nullable_iff)
  from Seq show ?case
    unfolding lang.simps(4) Cons_in_Seq by (auto simp: n)
next
  case (Star r)
  then show ?case
    unfolding lang.simps(6) Cons_in_star by auto
qed auto

lemma rx_test_correct: "wf_rx r \<Longrightarrow> rx_test r s \<longleftrightarrow> s \<in> lang r"
  by (induction s arbitrary: r) (simp_all add: nullable_iff lang_deriv wf_deriv)

section \<open>The characters of a matched word\<close>

fun alphabet :: "rx \<Rightarrow> char \<Rightarrow> bool" where
  "alphabet Empty c \<longleftrightarrow> False"
| "alphabet Eps c \<longleftrightarrow> False"
| "alphabet (Rng P m n) c \<longleftrightarrow> P c"
| "alphabet (Seq r t) c \<longleftrightarrow> alphabet r c \<or> alphabet t c"
| "alphabet (Alt r t) c \<longleftrightarrow> alphabet r c \<or> alphabet t c"
| "alphabet (Star r) c \<longleftrightarrow> alphabet r c"

lemma lang_alphabet: "s \<in> lang r \<Longrightarrow> c \<in> set s \<Longrightarrow> alphabet r c"
proof (induction r arbitrary: s)
  case (Star r)
  then show ?case by (force simp: subset_iff)
next
  case (Seq r t)
  then show ?case by fastforce
qed (auto simp: list_all_iff)

lemma rx_test_alphabet: "rx_test r s \<Longrightarrow> wf_rx r \<Longrightarrow> c \<in> set s \<Longrightarrow> alphabet r c"
  using lang_alphabet rx_test_correct by blast

lemma rx_test_nonempty: "rx_test r s \<Longrightarrow> \<not> nullable r \<Longrightarrow> s \<noteq> []"
  by (cases s) auto

text \<open>The test of a single repetition in closed form.\<close>

lemma rx_test_Rng:
  "wf_rx (Rng P m n) \<Longrightarrow> rx_test (Rng P m n) s \<longleftrightarrow>
     list_all P s \<and> m \<le> length s \<and> (case n of None \<Rightarrow> True | Some k \<Rightarrow> length s \<le> k)"
  by (simp add: rx_test_correct)

lemma rx_test_plus: "rx_test (cls_plus P) s \<longleftrightarrow> list_all P s \<and> s \<noteq> []"
  by (subst rx_test_Rng) (auto simp: Suc_le_eq)

lemmas rx_test_plus_Suc = rx_test_plus [unfolded One_nat_def]

lemma rx_test_between: "m \<le> n \<Longrightarrow>
  rx_test (cls_between P m n) s \<longleftrightarrow> list_all P s \<and> m \<le> length s \<and> length s \<le> n"
  by (subst rx_test_Rng) auto

lemma rx_testI: "wf_rx r \<Longrightarrow> s \<in> lang r \<Longrightarrow> rx_test r s"
  by (simp add: rx_test_correct)

lemma lang_SeqI: "u \<in> lang r \<Longrightarrow> v \<in> lang t \<Longrightarrow> u @ v \<in> lang (Seq r t)"
  by auto

lemma lang_lit: "lang (lit s) = {s}"
proof (induction s)
  case (Cons a s)
  have "lang (chr a) = {[a]}" by (auto simp: length_Suc_conv list_all_iff le_antisym dest!: le_antisym [of _ "Suc 0"])
  with Cons show ?case by auto
qed simp

lemma alphabet_lit: "alphabet (lit s) c \<longleftrightarrow> c \<in> set s"
  by (induction s) auto

lemma wf_lit [simp]: "wf_rx (lit s)"
  by (induction s) auto

section \<open>Decimals\<close>

lemma show_nat_rx: "n < 10 ^ m \<Longrightarrow> 0 < m \<Longrightarrow> rx_test (cls_between is_digit 1 m) (show_nat n)"
proof (induction m arbitrary: n)
  case (Suc m)
  show ?case
  proof (cases "n < 10")
    case True
    then show ?thesis by (simp add: rx_test_between show_nat.simps [of n])
  next
    case False
    with Suc.prems have "m > 0" by (cases m) auto
    moreover have "n div 10 < 10 ^ m" using Suc.prems by (simp add: less_mult_imp_div_less mult.commute)
    ultimately show ?thesis using Suc.IH [of "n div 10"] False
      by (simp add: rx_test_between show_nat.simps [of n])
  qed
qed simp

lemma show_int_rx: "0 \<le> i \<Longrightarrow> i < 10 ^ m \<Longrightarrow> 0 < m \<Longrightarrow> rx_test (cls_between is_digit 1 m) (show_int i)"
  using show_nat_rx [of "nat i" m] by (simp add: show_int_def nat_less_iff)

lemma show_int_nonneg: "0 \<le> p \<Longrightarrow> list_all is_digit (show_int p)"
  by (simp add: show_int_def show_nat_digits)

end
