(* ===== verification/Json.thy ===== *)
theory Json
  imports Prelude
begin

text \<open>
  JavaScript values as the guards and builders see them: the result of \<open>JSON.parse\<close> (or a
  value built from object literals), plus \<open>undefined\<close> for a missing property.

  A number is \<open>NInt i\<close> when it is a safe integer and \<open>NOther s\<close> otherwise (a fraction, an
  infinity, \<open>NaN\<close>, an integer beyond \<open>2^53\<close>), \<open>s\<close> being what \<open>String(n)\<close> prints for it:
  the code only compares such a number with small constants, tests it with
  \<open>Number.isInteger\<close> and a range, or prints it.

  An object is its list of own properties in insertion order. \<open>jget\<close> reads a property
  (\<open>undefined\<close> when it is absent), \<open>jset\<close> is the assignment \<open>o.k = v\<close> (in place when the key
  exists, at the end otherwise), \<open>spread\<close> the copy \<open>{...o}\<close>.
\<close>

datatype jnum = NInt int | NOther string

datatype js =
    JUndef
  | JNull
  | JBool bool
  | JNum jnum
  | JStr string
  | JArr "js list"
  | JObj "(string \<times> js) list"

fun fields :: "js \<Rightarrow> (string \<times> js) list" where
  "fields (JObj fs) = fs"
| "fields (JArr xs) = zip (map show_nat [0..<length xs]) xs"
| "fields _ = []"

fun jget :: "string \<Rightarrow> js \<Rightarrow> js" where
  "jget k (JObj fs) = (case map_of fs k of None \<Rightarrow> JUndef | Some v \<Rightarrow> v)"
| "jget k _ = JUndef"

fun has_key :: "string \<Rightarrow> js \<Rightarrow> bool" where
  "has_key k (JObj fs) \<longleftrightarrow> k \<in> fst ` set fs"
| "has_key k _ \<longleftrightarrow> False"

fun put :: "string \<Rightarrow> js \<Rightarrow> (string \<times> js) list \<Rightarrow> (string \<times> js) list" where
  "put k v [] = [(k, v)]"
| "put k v ((k', v') # fs) = (if k' = k then (k, v) # fs else (k', v') # put k v fs)"

fun jset :: "string \<Rightarrow> js \<Rightarrow> js \<Rightarrow> js" where
  "jset k v (JObj fs) = JObj (put k v fs)"
| "jset k v x = x"

definition spread :: "js \<Rightarrow> js" where
  "spread x = JObj (fields x)"

text \<open>\<open>typeof x === 'object' && x !== null\<close>: objects and arrays.\<close>

fun is_object :: "js \<Rightarrow> bool" where
  "is_object (JObj _) \<longleftrightarrow> True"
| "is_object (JArr _) \<longleftrightarrow> True"
| "is_object _ \<longleftrightarrow> False"

fun is_array :: "js \<Rightarrow> bool" where
  "is_array (JArr _) \<longleftrightarrow> True"
| "is_array _ \<longleftrightarrow> False"

fun elems :: "js \<Rightarrow> js list" where
  "elems (JArr xs) = xs"
| "elems _ = []"

fun as_string :: "js \<Rightarrow> string option" where
  "as_string (JStr s) = Some s"
| "as_string _ = None"

text \<open>Truthiness.\<close>

fun truthy :: "js \<Rightarrow> bool" where
  "truthy JUndef \<longleftrightarrow> False"
| "truthy JNull \<longleftrightarrow> False"
| "truthy (JBool b) \<longleftrightarrow> b"
| "truthy (JNum (NInt i)) \<longleftrightarrow> i \<noteq> 0"
| "truthy (JNum (NOther s)) \<longleftrightarrow> s \<noteq> ''NaN''"
| "truthy (JStr s) \<longleftrightarrow> s \<noteq> []"
| "truthy (JArr _) \<longleftrightarrow> True"
| "truthy (JObj _) \<longleftrightarrow> True"

text \<open>\<open>String(n)\<close>, \<open>parseInt(String(n), 10)\<close>.\<close>

fun show_num :: "jnum \<Rightarrow> string" where
  "show_num (NInt i) = show_int i"
| "show_num (NOther s) = s"

text \<open>\<open>String(v)\<close>: null and undefined entries of an array print as nothing, an object as the
  default tag.\<close>

fun to_string :: "js \<Rightarrow> string" where
  "to_string JUndef = ''undefined''"
| "to_string JNull = ''null''"
| "to_string (JBool b) = (if b then ''true'' else ''false'')"
| "to_string (JNum n) = show_num n"
| "to_string (JStr s) = s"
| "to_string (JArr xs) =
     join '','' (map (\<lambda>x. case x of JUndef \<Rightarrow> [] | JNull \<Rightarrow> [] | _ \<Rightarrow> to_string x) xs)"
| "to_string (JObj fs) = ''[object Object]''"

fun as_int :: "js \<Rightarrow> int option" where
  "as_int (JNum (NInt i)) = Some i"
| "as_int _ = None"

lemma map_of_put [simp]: "map_of (put k v fs) = (map_of fs)(k \<mapsto> v)"
  by (induction fs) (auto simp: fun_eq_iff)

lemma fst_put [simp]: "fst ` set (put k v fs) = insert k (fst ` set fs)"
  by (simp add: dom_map_of_conv_image_fst [symmetric])

lemma jget_put_same [simp]: "jget k (JObj (put k v fs)) = v"
  by simp

lemma jget_jset_same: "x = JObj fs \<Longrightarrow> jget k (jset k v x) = v"
  by simp

lemma jget_jset_other [simp]: "k \<noteq> k' \<Longrightarrow> jget k (jset k' v x) = jget k x"
  by (cases x) auto

lemma has_key_jset [simp]: "has_key k (jset k' v (JObj fs)) \<longleftrightarrow> k = k' \<or> has_key k (JObj fs)"
  by simp

lemma spread_JObj [simp]: "spread (JObj fs) = JObj fs"
  by (simp add: spread_def)

lemma jset_spread [simp]: "jset k v (spread x) = JObj (put k v (fields x))"
  by (simp add: spread_def)

lemma jget_JUndef_has_key: "\<not> has_key k x \<Longrightarrow> jget k x = JUndef"
  by (cases x) (auto simp: dom_map_of_conv_image_fst [symmetric] split: option.splits)

lemma put_put [simp]: "put k v (put k w fs) = put k v fs"
  by (induction fs) auto

end
