(* ===== verification/NetGuard.thy ===== *)
theory NetGuard
  imports Regex Json "HOL-Library.Word"
begin

unbundle bit_operations_syntax

text \<open>
  Addresses, ports and routes (\<open>src/main/config-guard.ts\<close>): the IPv4 and SOCKS-address tests,
  the interface-name test, the split-tunnel route filter and the DNS-resolver allow-list.
  A route is read as a network on 32-bit words, which is what \<open>ip route\<close> does with it.
\<close>

section \<open>Definitions\<close>

definition octet_rx :: rx where
  "octet_rx = cls_between is_digit 1 3"

text \<open>The captures of \<open>/^(\d{1,3})\.(\d{1,3})\.(\d{1,3})\.(\d{1,3})$/\<close>.\<close>

definition octet_groups :: "string \<Rightarrow> string list option" where
  "octet_groups s =
     (let gs = split_on CHR ''.'' s
      in if length gs = 4 \<and> list_all (rx_test octet_rx) gs then Some gs else None)"

definition isIPv4 :: "string \<Rightarrow> bool" where
  "isIPv4 s =
     (case octet_groups s of
        None \<Rightarrow> False
      | Some gs \<Rightarrow> list_all (\<lambda>g. read_nat g \<le> 255) gs)"

definition interface_name_rx :: rx where
  "interface_name_rx = cls_between (\<lambda>c. is_alnum c \<or> c = CHR ''_'' \<or> c = CHR ''-'') 1 15"

definition isValidInterfaceName :: "string \<Rightarrow> bool" where
  "isValidInterfaceName s = rx_test interface_name_rx s"

text \<open>The captures of \<open>/^(\d{1,3}\.\d{1,3}\.\d{1,3}\.\d{1,3}):(\d+)$/\<close>.\<close>

definition isValidSocksAddr :: "string \<Rightarrow> bool" where
  "isValidSocksAddr s =
     (case split_on CHR '':'' s of
        [host, digits] \<Rightarrow>
          (if octet_groups host \<noteq> None \<and> rx_test (cls_plus is_digit) digits
           then (let port = read_nat digits in isIPv4 host \<and> port > 0 \<and> port \<le> 65535)
           else False)
      | _ \<Rightarrow> False)"

definition MAX_BYPASS_ROUTES :: nat where
  "MAX_BYPASS_ROUTES = 64"

text \<open>The captures of \<open>/^(\d{1,3})\.(\d{1,3})\.(\d{1,3})\.(\d{1,3})\/(\d{1,2})$/\<close>: the four
  octets and the prefix length.\<close>

definition cidr_groups :: "string \<Rightarrow> (string list \<times> string) option" where
  "cidr_groups s =
     (case split_on CHR ''/'' s of
        [addr, pfx] \<Rightarrow>
          (case octet_groups addr of
             None \<Rightarrow> None
           | Some gs \<Rightarrow> if rx_test (cls_between is_digit 1 2) pfx then Some (gs, pfx) else None)
      | _ \<Rightarrow> None)"

definition isAllowedBypassCidr :: "string \<Rightarrow> bool" where
  "isAllowedBypassCidr cidr =
     (case cidr_groups (trim cidr) of
        None \<Rightarrow> False
      | Some (gs, pfx) \<Rightarrow>
          (let octets = map read_nat gs; prefix = read_nat pfx
           in if list_ex (\<lambda>q. q > 255) octets then False
              else if prefix < 1 \<or> prefix > 32 then False
              else if list_all (\<lambda>q. q = 0) octets then False
              else True))"

definition sanitizeBypassRoutes :: "js \<Rightarrow> string list" where
  "sanitizeBypassRoutes routes =
     (case routes of
        JArr rs \<Rightarrow>
          take MAX_BYPASS_ROUTES
            (filter isAllowedBypassCidr
              (map (\<lambda>r. case as_string r of Some s \<Rightarrow> trim s | None \<Rightarrow> '''') rs))
      | _ \<Rightarrow> [])"

definition ALLOWED_DNS_RESOLVERS :: "string list" where
  "ALLOWED_DNS_RESOLVERS =
     [''1.1.1.1'', ''1.0.0.1'', ''8.8.8.8'', ''9.9.9.9'', ''45.90.28.0'']"

definition isAllowedDnsResolver :: "string \<Rightarrow> bool" where
  "isAllowedDnsResolver ip \<longleftrightarrow> ip \<in> set ALLOWED_DNS_RESOLVERS"

section \<open>Addresses and networks\<close>

text \<open>The 32-bit value of four octets, most significant first, and the network a
  \<open>address/prefix\<close> pair denotes.\<close>

definition addr_word :: "nat list \<Rightarrow> 32 word" where
  "addr_word qs = word_of_nat (foldl (\<lambda>a q. a * 256 + q) 0 qs)"

definition netmask :: "nat \<Rightarrow> 32 word" where
  "netmask p = push_bit (32 - p) (mask p)"

definition in_network :: "32 word \<Rightarrow> nat \<Rightarrow> 32 word \<Rightarrow> bool" where
  "in_network a p w \<longleftrightarrow> w AND netmask p = a AND netmask p"

section \<open>Shapes\<close>

lemma octet_groups_Some:
  "octet_groups s = Some gs \<longleftrightarrow>
     length gs = 4 \<and> s = join ''.'' gs \<and> (\<forall>g \<in> set gs. list_all is_digit g \<and> 1 \<le> length g \<and> length g \<le> 3)"
proof
  assume "octet_groups s = Some gs"
  then show "length gs = 4 \<and> s = join ''.'' gs \<and>
      (\<forall>g \<in> set gs. list_all is_digit g \<and> 1 \<le> length g \<and> length g \<le> 3)"
    by (auto simp: octet_groups_def Let_def join_split_on octet_rx_def rx_test_between list_all_iff
        split: if_splits)
next
  assume r: "length gs = 4 \<and> s = join ''.'' gs \<and>
      (\<forall>g \<in> set gs. list_all is_digit g \<and> 1 \<le> length g \<and> length g \<le> 3)"
  have "CHR ''.'' \<notin> set g" if "g \<in> set gs" for g
    using r that by (fastforce simp: list_all_iff is_digit_def char_le_iff)
  with r have "split_on CHR ''.'' s = gs"
    by (metis split_on_join list.size(3) zero_neq_numeral)
  with r show "octet_groups s = Some gs"
    by (simp add: octet_groups_def octet_rx_def rx_test_between list_all_iff)
qed

lemma isIPv4_groups:
  "isIPv4 s \<longleftrightarrow> (\<exists>gs. octet_groups s = Some gs \<and> (\<forall>g \<in> set gs. read_nat g \<le> 255))"
  by (auto simp: isIPv4_def list_all_iff split: option.splits)

lemma set_octets: "octet_groups s = Some gs \<Longrightarrow> c \<in> set s \<Longrightarrow> is_digit c \<or> c = CHR ''.''"
  using set_join_subset [of "''.''" gs]
  by (fastforce simp: octet_groups_Some list_all_iff)

lemma isIPv4_chars: "isIPv4 s \<Longrightarrow> c \<in> set s \<Longrightarrow> is_digit c \<or> c = CHR ''.''"
  by (auto simp: isIPv4_groups dest: set_octets)

lemma isIPv4_no_ws: "isIPv4 s \<Longrightarrow> c \<in> set s \<Longrightarrow> \<not> is_ws c"
  by (drule (1) isIPv4_chars) (auto simp: class_defs char_le_iff)

lemma isIPv4_nonempty: "isIPv4 s \<Longrightarrow> s \<noteq> []"
  by (auto simp: isIPv4_groups octet_groups_def Let_def split: if_splits)

lemma cidr_groups_Some:
  "cidr_groups s = Some (gs, pfx) \<Longrightarrow>
     s = join ''.'' gs @ ''/'' @ pfx \<and> length gs = 4 \<and> length pfx \<le> 2 \<and> list_all is_digit pfx"
  using join_split_on [of "CHR ''/''" s]
  by (auto simp: cidr_groups_def octet_groups_Some rx_test_between split: list.splits option.splits if_splits)

lemma isAllowedBypassCidr_iff:
  "isAllowedBypassCidr cidr \<longleftrightarrow>
     (\<exists>gs pfx. cidr_groups (trim cidr) = Some (gs, pfx) \<and> (\<forall>g \<in> set gs. read_nat g \<le> 255) \<and>
        1 \<le> read_nat pfx \<and> read_nat pfx \<le> 32 \<and> (\<exists>g \<in> set gs. read_nat g \<noteq> 0))"
  by (auto simp: isAllowedBypassCidr_def Let_def list_ex_iff list_all_iff not_less
      split: option.splits)

lemma isAllowedBypassCidr_trim [simp]: "isAllowedBypassCidr (trim s) = isAllowedBypassCidr s"
  by (simp add: isAllowedBypassCidr_def)

section \<open>Networks on words\<close>

lemma foldl_octets_bound:
  "\<forall>q \<in> set qs. q \<le> 255 \<Longrightarrow> foldl (\<lambda>a q. a * 256 + q) 0 qs < (256::nat) ^ length qs"
proof (induction qs rule: rev_induct)
  case (snoc q qs)
  then have "foldl (\<lambda>a q. a * 256 + q) 0 qs < (256::nat) ^ length qs" "q \<le> 255" by auto
  then show ?case by simp
qed simp

lemma foldl_octets_zero:
  "foldl (\<lambda>a q. a * 256 + q) 0 qs = (0::nat) \<longleftrightarrow> (\<forall>q \<in> set qs. q = 0)"
  by (induction qs rule: rev_induct) auto

lemma unat_addr_word:
  assumes "length qs = 4" and "\<forall>q \<in> set qs. q \<le> 255"
  shows "unat (addr_word qs) = foldl (\<lambda>a q. a * 256 + q) 0 qs"
proof -
  have "foldl (\<lambda>a q. a * 256 + q) 0 qs < (256::nat) ^ 4"
    using foldl_octets_bound [OF assms(2)] assms(1) by simp
  then show ?thesis
    by (simp add: addr_word_def unat_of_nat take_bit_eq_mod)
qed

lemma addr_word_zero_iff:
  "length qs = 4 \<Longrightarrow> \<forall>q \<in> set qs. q \<le> 255 \<Longrightarrow> addr_word qs = 0 \<longleftrightarrow> (\<forall>q \<in> set qs. q = 0)"
  by (metis unat_addr_word foldl_octets_zero unat_eq_zero)

lemma netmask_top_bit: "1 \<le> p \<Longrightarrow> p \<le> 32 \<Longrightarrow> bit (netmask p) 31"
  by (auto simp: netmask_def bit_push_bit_iff bit_mask_iff)

lemma network_misses_half:
  assumes "1 \<le> p" and "p \<le> 32"
  shows "\<not> in_network a p (a XOR push_bit 31 1)"
proof
  assume "in_network a p (a XOR push_bit 31 1)"
  then have "bit ((a XOR push_bit 31 1) AND netmask p) 31 = bit (a AND netmask p) 31"
    by (simp add: in_network_def)
  with netmask_top_bit [OF assms] show False
    by (simp add: bit_and_iff bit_xor_iff bit_push_bit_iff)
qed

end
