(* ===== verification/WgGuard.thy ===== *)
theory WgGuard
  imports NetGuard
begin

text \<open>
  The WireGuard and AmneziaWG config guards of \<open>src/main/config-guard.ts\<close> (what stands between
  a node's config text and \<open>wg-quick\<close> running as root), the endpoint extraction and pinning on
  the same texts, and the DNS-line rewriting of \<open>src/main/vpn/connect-decisions.ts\<close>.

  Both guards scan a config line by line with the current section as their state. What they
  promise is stated once, in the locale \<open>ini_guard\<close>; both scanners interpret it.
\<close>

section \<open>Allow-lists and value shapes\<close>

definition WG_INTERFACE_KEYS :: "string list" where
  "WG_INTERFACE_KEYS = [''privatekey'', ''address'', ''dns'', ''mtu'', ''listenport'']"

definition WG_PEER_KEYS :: "string list" where
  "WG_PEER_KEYS =
     [''publickey'', ''presharedkey'', ''allowedips'', ''endpoint'', ''persistentkeepalive'']"

definition host_char :: "char \<Rightarrow> bool" where
  "host_char c \<longleftrightarrow> is_alnum c \<or> c \<in> set ''.:_-''"

definition base64_char :: "char \<Rightarrow> bool" where
  "base64_char c \<longleftrightarrow> is_alnum c \<or> c = CHR ''+'' \<or> c = CHR ''/''"

definition host_rx :: rx where
  "host_rx = Seq (chr_opt CHR 0x5B) (Seq (cls_plus host_char) (chr_opt CHR 0x5D))"

definition WG_HOST_OR_CIDR :: rx where
  "WG_HOST_OR_CIDR =
     Seq host_rx (opt (Seq (chr CHR ''/'') (cls_between is_digit 1 3)))"

definition WG_ENDPOINT :: rx where
  "WG_ENDPOINT = Seq host_rx (Seq (chr CHR '':'') (cls_between is_digit 1 5))"

definition WG_KEY :: rx where
  "WG_KEY = Seq (cls_plus base64_char) (Rng (\<lambda>c. c = CHR ''='') 0 (Some 2))"

definition WG_UINT :: rx where
  "WG_UINT = cls_between is_digit 1 7"

definition quoted :: "string \<Rightarrow> string" where
  "quoted s = [CHR 0x22] @ s @ [CHR 0x22]"

definition assertWgListValue :: "string \<Rightarrow> string \<Rightarrow> unit result" where
  "assertWgListValue key value =
     each (\<lambda>raw.
        let item = trim raw
        in if item = '''' then ok ()
           else if \<not> rx_test WG_HOST_OR_CIDR item
             then throw (''WireGuard config: '' @ quoted key @ '' entry '' @ quoted item @ '' is malformed'')
           else ok ())
       (split_on CHR '','' value)"

definition assertSafeWireguardValue :: "string \<Rightarrow> string \<Rightarrow> unit result" where
  "assertSafeWireguardValue key value =
     (let v = trim value
      in if key \<in> set [''mtu'', ''listenport'', ''persistentkeepalive''] then
           (if \<not> rx_test WG_UINT v
            then throw (''WireGuard config: '' @ quoted key @ '' must be a number'') else ok ())
         else if key \<in> set [''privatekey'', ''publickey'', ''presharedkey''] then
           (if \<not> rx_test WG_KEY v
            then throw (''WireGuard config: '' @ quoted key @ '' is not a valid key'') else ok ())
         else if key = ''endpoint'' then
           (if \<not> rx_test WG_ENDPOINT v
            then throw (''WireGuard config: '' @ quoted key @ '' must be host:port'') else ok ())
         else if key \<in> set [''address'', ''allowedips'', ''dns''] then assertWgListValue key value
         else ok ())"

section \<open>The line scanners\<close>

datatype wg_section = Interface | Peer

definition section_name :: "wg_section \<Rightarrow> string" where
  "section_name s = (case s of Interface \<Rightarrow> ''interface'' | Peer \<Rightarrow> ''peer'')"

definition skippable :: "string \<Rightarrow> bool" where
  "skippable line \<longleftrightarrow>
     line = '''' \<or> starts_with ''#'' line \<or> starts_with '';'' line"

text \<open>The capture of \<open>/^\[(.+)\]$/\<close>; \<open>.\<close> matches no line terminator.\<close>

definition section_match :: "string \<Rightarrow> string option" where
  "section_match line =
     (let inner = butlast (tl line)
      in if 3 \<le> length line \<and> hd line = CHR 0x5B \<and> last line = CHR 0x5D \<and>
            list_all (\<lambda>c. c \<noteq> CHR 0x0A \<and> c \<noteq> CHR 0x0D) inner
         then Some inner else None)"

text \<open>The loop of \<open>assertSafeWireguardConfig\<close>, over the remaining lines.\<close>

fun wg_scan :: "wg_section option \<Rightarrow> string list \<Rightarrow> unit result" where
  "wg_scan sec [] = ok ()"
| "wg_scan sec (raw # rest) =
     (let line = trim raw
      in if skippable line then wg_scan sec rest
         else (case section_match line of
           Some inner \<Rightarrow>
             (let name = to_lower (trim inner)
              in if name = ''interface'' then wg_scan (Some Interface) rest
                 else if name = ''peer'' then wg_scan (Some Peer) rest
                 else throw (''WireGuard config: section ['' @ inner @ ''] is not allowed''))
         | None \<Rightarrow>
             (case index_of CHR ''='' line of
                None \<Rightarrow> throw (''WireGuard config: malformed line is not allowed: '' @ line)
              | Some eq \<Rightarrow>
                  (let key = to_lower (trim (take eq line))
                   in case sec of
                        None \<Rightarrow> throw (''WireGuard config: key '' @ quoted key @
                                  '' outside any section is not allowed'')
                      | Some s \<Rightarrow>
                          (let allowed = (if s = Interface then WG_INTERFACE_KEYS else WG_PEER_KEYS)
                           in if key \<notin> set allowed
                              then throw (''WireGuard config: key '' @ quoted key @ '' in ['' @
                                     section_name s @ ''] is not allowed'')
                              else and_then (assertSafeWireguardValue key (trim (drop (Suc eq) line)))
                                     (\<lambda>_. wg_scan sec rest))))))"

definition assertSafeWireguardConfig :: "string \<Rightarrow> unit result" where
  "assertSafeWireguardConfig config = wg_scan None (split_on CHR 0x0A config)"

subsection \<open>AmneziaWG\<close>

definition AWG_INTERFACE_KEYS :: "string list" where
  "AWG_INTERFACE_KEYS = WG_INTERFACE_KEYS @
     [''jc'', ''jmin'', ''jmax'', ''s1'', ''s2'', ''s3'', ''s4'', ''h1'', ''h2'', ''h3'', ''h4'',
      ''i1'', ''i2'', ''i3'', ''i4'', ''i5'',
      ''headerprotectionkey'', ''randomtrailers'', ''contentpaddingaddition'']"

definition AWG_UINT16_KEYS :: "string list" where
  "AWG_UINT16_KEYS = [''jc'', ''jmin'', ''jmax'', ''s1'', ''s2'', ''s3'', ''s4'']"

definition AWG_UINT32_KEYS :: "string list" where
  "AWG_UINT32_KEYS = [''h1'', ''h2'', ''h3'', ''h4'']"

definition AWG_I_KEYS :: "string list" where
  "AWG_I_KEYS = [''i1'', ''i2'', ''i3'', ''i4'', ''i5'']"

definition AWG_I_TAGS :: rx where
  "AWG_I_TAGS = plus
     (Alt (Seq (lit ''<b 0x'') (Seq (cls_plus is_hex) (chr CHR ''>'')))
     (Alt (Seq (lit ''<r '') (Seq (cls_between is_digit 1 5) (chr CHR ''>'')))
     (Alt (Seq (lit ''<rd '') (Seq (cls_between is_digit 1 5) (chr CHR ''>'')))
     (Alt (Seq (lit ''<rc '') (Seq (cls_between is_digit 1 5) (chr CHR ''>'')))
          (lit ''<t>'')))))"

definition AWG_I_MAX_LENGTH :: nat where
  "AWG_I_MAX_LENGTH = 4096"

text \<open>The number of bytes \<open>Buffer.from(v, 'base64')\<close> yields for \<open>v\<close> of the form
  \<open>[A-Za-z0-9+/]+={0,2}\<close>: every four characters give three bytes, two or three left over
  give one or two, a single one gives none.\<close>

definition base64_length :: "string \<Rightarrow> nat" where
  "base64_length v =
     (let n = length (filter base64_char v)
      in 3 * (n div 4) + (if n mod 4 = 0 then 0 else n mod 4 - 1))"

definition content_padding_rx :: rx where
  "content_padding_rx =
     Seq (cls_between is_digit 1 5) (opt (Seq (chr CHR ''-'') (cls_between is_digit 1 5)))"

definition assertSafeAmneziaWgValue :: "string \<Rightarrow> string \<Rightarrow> unit result" where
  "assertSafeAmneziaWgValue key value =
     (let v = trim value
      in if key \<in> set AWG_UINT16_KEYS then
           (if \<not> rx_test (cls_between is_digit 1 5) v \<or> read_nat v > 65535
            then throw (''AmneziaWG config: '' @ quoted key @ '' must be a uint16'') else ok ())
         else if key \<in> set AWG_UINT32_KEYS then
           (if \<not> rx_test (cls_between is_digit 1 10) v \<or> read_nat v > 4294967295
            then throw (''AmneziaWG config: '' @ quoted key @ '' must be a uint32'') else ok ())
         else if key \<in> set AWG_I_KEYS then
           (if length v > AWG_I_MAX_LENGTH \<or> \<not> rx_test AWG_I_TAGS v
            then throw (''AmneziaWG config: '' @ quoted key @ '' signature packet is malformed'')
            else ok ())
         else if key = ''headerprotectionkey'' then
           (if \<not> rx_test WG_KEY v \<or> base64_length v \<noteq> 32
            then throw (''AmneziaWG config: '' @ quoted key @ '' must be a 32-byte base64 key'')
            else ok ())
         else if key = ''randomtrailers'' then
           (if v \<noteq> ''on'' \<and> v \<noteq> ''off''
            then throw (''AmneziaWG config: '' @ quoted key @ '' must be on or off'') else ok ())
         else if key = ''contentpaddingaddition'' then
           (if \<not> rx_test content_padding_rx v
            then throw (''AmneziaWG config: '' @ quoted key @ '' must be a min-max range'') else ok ())
         else assertSafeWireguardValue key value)"

fun awg_scan :: "wg_section option \<Rightarrow> string list \<Rightarrow> unit result" where
  "awg_scan sec [] = ok ()"
| "awg_scan sec (raw # rest) =
     (let line = trim raw
      in if skippable line then awg_scan sec rest
         else (case section_match line of
           Some inner \<Rightarrow>
             (let name = to_lower (trim inner)
              in if name = ''interface'' then awg_scan (Some Interface) rest
                 else if name = ''peer'' then awg_scan (Some Peer) rest
                 else throw (''AmneziaWG config: section ['' @ inner @ ''] is not allowed''))
         | None \<Rightarrow>
             (case index_of CHR ''='' line of
                None \<Rightarrow> throw (''AmneziaWG config: malformed line is not allowed: '' @ line)
              | Some eq \<Rightarrow>
                  (let key = to_lower (trim (take eq line))
                   in case sec of
                        None \<Rightarrow> throw (''AmneziaWG config: key '' @ quoted key @
                                  '' outside any section is not allowed'')
                      | Some s \<Rightarrow>
                          (let allowed = (if s = Interface then AWG_INTERFACE_KEYS else WG_PEER_KEYS)
                           in if key \<notin> set allowed
                              then throw (''AmneziaWG config: key '' @ quoted key @ '' in ['' @
                                     section_name s @ ''] is not allowed'')
                              else and_then (assertSafeAmneziaWgValue key (trim (drop (Suc eq) line)))
                                     (\<lambda>_. awg_scan sec rest))))))"

definition assertSafeAmneziaWgConfig :: "string \<Rightarrow> unit result" where
  "assertSafeAmneziaWgConfig config = awg_scan None (split_on CHR 0x0A config)"

section \<open>The contract of a section-based guard\<close>

text \<open>What one line does to the current section, and when a line is acceptable in it, for a
  per-section allow-list and a predicate on values.\<close>

definition header_of :: "string \<Rightarrow> wg_section option" where
  "header_of raw =
     (let line = trim raw
      in if skippable line then None
         else (case section_match line of
             None \<Rightarrow> None
           | Some inner \<Rightarrow>
               (if to_lower (trim inner) = ''interface'' then Some Interface
                else if to_lower (trim inner) = ''peer'' then Some Peer else None)))"

definition section_step :: "wg_section option \<Rightarrow> string \<Rightarrow> wg_section option" where
  "section_step sec raw = (case header_of raw of None \<Rightarrow> sec | Some s \<Rightarrow> Some s)"

definition section_after :: "wg_section option \<Rightarrow> string list \<Rightarrow> wg_section option" where
  "section_after sec raws = foldl section_step sec raws"

definition key_of :: "string \<Rightarrow> string option" where
  "key_of raw = map_option (\<lambda>eq. to_lower (trim (take eq (trim raw)))) (index_of CHR ''='' (trim raw))"

definition value_of :: "string \<Rightarrow> string" where
  "value_of raw =
     (case index_of CHR ''='' (trim raw) of
        None \<Rightarrow> '''' | Some eq \<Rightarrow> trim (drop (Suc eq) (trim raw)))"

definition line_ok ::
  "(wg_section \<Rightarrow> string list) \<Rightarrow> (string \<Rightarrow> string \<Rightarrow> bool) \<Rightarrow> wg_section option \<Rightarrow> string \<Rightarrow> bool" where
  "line_ok allow value_ok sec raw \<longleftrightarrow>
     skippable (trim raw) \<or> header_of raw \<noteq> None \<or>
     (section_match (trim raw) = None \<and>
      (\<exists>s k. sec = Some s \<and> key_of raw = Some k \<and> k \<in> set (allow s) \<and> value_ok k (value_of raw)))"

locale ini_guard =
  fixes scan :: "wg_section option \<Rightarrow> string list \<Rightarrow> unit result"
    and allow :: "wg_section \<Rightarrow> string list"
    and value_ok :: "string \<Rightarrow> string \<Rightarrow> bool"
  assumes scan_Nil: "accepts (scan sec [])"
    and scan_Cons: "accepts (scan sec (raw # rest)) \<longleftrightarrow>
          line_ok allow value_ok sec raw \<and> accepts (scan (section_step sec raw) rest)"
begin

lemma scan_append:
  "accepts (scan sec (xs @ ys)) \<longleftrightarrow>
     accepts (scan sec xs) \<and> accepts (scan (section_after sec xs) ys)"
  by (induction xs arbitrary: sec) (auto simp: scan_Nil scan_Cons section_after_def)

lemma scan_lines:
  "accepts (scan sec xs) \<Longrightarrow> raw \<in> set xs \<Longrightarrow> \<exists>sec'. line_ok allow value_ok sec' raw"
  by (induction xs arbitrary: sec) (auto simp: scan_Cons)

text \<open>An accepted text has no directive outside the allow-lists.\<close>

lemma accepted_key:
  assumes "accepts (scan sec xs)" and "raw \<in> set xs" and "\<not> skippable (trim raw)"
    and "header_of raw = None"
  shows "\<exists>s k. key_of raw = Some k \<and> k \<in> set (allow s) \<and> value_ok k (value_of raw)"
  using scan_lines [OF assms(1,2)] assms(3,4) by (auto simp: line_ok_def)

text \<open>Dropping lines that are not section headers keeps a text acceptable.\<close>

lemma scan_filter:
  assumes "\<And>raw. raw \<in> set xs \<Longrightarrow> \<not> P raw \<Longrightarrow> header_of raw = None"
  shows "accepts (scan sec xs) \<Longrightarrow> accepts (scan sec (filter P xs))"
  using assms
proof (induction xs arbitrary: sec)
  case (Cons x xs)
  then show ?case by (cases "P x") (auto simp: scan_Cons section_step_def)
qed simp

text \<open>Rewriting a line to one that is acceptable wherever the old one was, and opens the
  same section, keeps a text acceptable.\<close>

lemma scan_map:
  assumes "\<And>raw s. raw \<in> set xs \<Longrightarrow> line_ok allow value_ok s raw \<Longrightarrow>
             line_ok allow value_ok s (f raw) \<and> header_of (f raw) = header_of raw"
  shows "accepts (scan sec xs) \<Longrightarrow> accepts (scan sec (map f xs))"
  using assms by (induction xs arbitrary: sec) (auto simp: scan_Nil scan_Cons section_step_def)

end

definition wg_allow :: "wg_section \<Rightarrow> string list" where
  "wg_allow s = (if s = Interface then WG_INTERFACE_KEYS else WG_PEER_KEYS)"

definition awg_allow :: "wg_section \<Rightarrow> string list" where
  "awg_allow s = (if s = Interface then AWG_INTERFACE_KEYS else WG_PEER_KEYS)"

definition wg_value_ok :: "string \<Rightarrow> string \<Rightarrow> bool" where
  "wg_value_ok k v = accepts (assertSafeWireguardValue k v)"

definition awg_value_ok :: "string \<Rightarrow> string \<Rightarrow> bool" where
  "awg_value_ok k v = accepts (assertSafeAmneziaWgValue k v)"

interpretation wg: ini_guard wg_scan wg_allow wg_value_ok
proof
  show "accepts (wg_scan sec [])" for sec by simp
  show "accepts (wg_scan sec (raw # rest)) \<longleftrightarrow>
      line_ok wg_allow wg_value_ok sec raw \<and> accepts (wg_scan (section_step sec raw) rest)"
    for sec raw rest
    by (auto simp: line_ok_def section_step_def header_of_def key_of_def value_of_def wg_allow_def
        wg_value_ok_def Let_def accepts_unit and_then_eq_ok split: option.splits if_splits)
qed

interpretation awg: ini_guard awg_scan awg_allow awg_value_ok
proof
  show "accepts (awg_scan sec [])" for sec by simp
  show "accepts (awg_scan sec (raw # rest)) \<longleftrightarrow>
      line_ok awg_allow awg_value_ok sec raw \<and> accepts (awg_scan (section_step sec raw) rest)"
    for sec raw rest
    by (auto simp: line_ok_def section_step_def header_of_def key_of_def value_of_def awg_allow_def
        awg_value_ok_def Let_def accepts_unit and_then_eq_ok split: option.splits if_splits)
qed

end
