(* ===== verification/WgConfig.thy ===== *)
theory WgConfig
  imports WgGuard
begin

text \<open>
  Operations on an accepted WireGuard/AmneziaWG text: reading the endpoint host, pinning it to
  an IPv4 (\<open>src/main/config-guard.ts\<close>), dropping and replacing its DNS lines
  (\<open>src/main/vpn/connect-decisions.ts\<close>). Each operation keeps a text acceptable to the guard.
\<close>

section \<open>Characters an accepted value can hold\<close>

definition shell_safe :: "char \<Rightarrow> bool" where
  "shell_safe c \<longleftrightarrow> is_alnum c \<or> is_ws c \<or> c \<in> set ''.:_-+/=,'' \<or> c = CHR 0x5B \<or> c = CHR 0x5D"

definition tag_safe :: "char \<Rightarrow> bool" where
  "tag_safe c \<longleftrightarrow> shell_safe c \<or> c = CHR ''<'' \<or> c = CHR ''>''"

lemmas value_rx_defs = WG_HOST_OR_CIDR_def WG_ENDPOINT_def WG_KEY_def WG_UINT_def host_rx_def
  AWG_I_TAGS_def content_padding_rx_def

lemmas value_class_defs = shell_safe_def host_char_def base64_char_def is_alnum_def is_alpha_def
  is_hex_def is_upper_def is_lower_def is_digit_def char_le_iff

lemma wf_value_rx [simp]:
  "wf_rx WG_HOST_OR_CIDR" "wf_rx WG_ENDPOINT" "wf_rx WG_KEY" "wf_rx WG_UINT"
  "wf_rx AWG_I_TAGS" "wf_rx content_padding_rx"
  by (simp_all add: value_rx_defs)

lemma class_shell_safe:
  "is_digit c \<Longrightarrow> shell_safe c" "host_char c \<Longrightarrow> shell_safe c" "base64_char c \<Longrightarrow> shell_safe c"
  "is_alnum c \<Longrightarrow> shell_safe c" "is_hex c \<Longrightarrow> shell_safe c" "is_ws c \<Longrightarrow> shell_safe c"
  by (auto simp: shell_safe_def host_char_def base64_char_def is_alnum_def is_hex_def is_alpha_def
      is_upper_def is_lower_def char_le_iff)

lemma shell_safe_literals [simp]:
  "shell_safe CHR ''/''" "shell_safe CHR '':''" "shell_safe CHR ''=''" "shell_safe CHR 0x5B"
  "shell_safe CHR 0x5D" "shell_safe CHR ''-''" "shell_safe CHR ''b''" "shell_safe CHR '' ''"
  "shell_safe CHR ''0''" "shell_safe CHR ''x''" "shell_safe CHR ''r''" "shell_safe CHR ''d''"
  "shell_safe CHR ''c''" "shell_safe CHR ''t''" "shell_safe CHR '',''"
  "shell_safe CHR ''o''" "shell_safe CHR ''n''" "shell_safe CHR ''f''"
  by (simp_all add: shell_safe_def class_defs)

lemma alphabet_shell_safe:
  "alphabet WG_HOST_OR_CIDR c \<Longrightarrow> shell_safe c" "alphabet WG_ENDPOINT c \<Longrightarrow> shell_safe c"
  "alphabet WG_KEY c \<Longrightarrow> shell_safe c" "alphabet WG_UINT c \<Longrightarrow> shell_safe c"
  "alphabet content_padding_rx c \<Longrightarrow> shell_safe c"
  by (auto simp: value_rx_defs intro: class_shell_safe)

lemma alphabet_tag_safe: "alphabet AWG_I_TAGS c \<Longrightarrow> tag_safe c"
  by (auto simp: AWG_I_TAGS_def alphabet_lit tag_safe_def intro: class_shell_safe)

lemma trim_parts: "\<exists>a b. s = a @ trim s @ b \<and> (\<forall>c \<in> set a. is_ws c) \<and> (\<forall>c \<in> set b. is_ws c)"
proof -
  have "s = takeWhile is_ws s @ trim_start s" by (simp add: trim_start_def)
  moreover have "trim_start s = trim s @ rev (takeWhile is_ws (rev (trim_start s)))"
    unfolding trim_def trim_end_def by (metis rev_append rev_rev_ident takeWhile_dropWhile_id)
  ultimately show ?thesis
    by (metis set_rev set_takeWhileD)
qed

lemma in_trim_or_ws: "c \<in> set s \<Longrightarrow> is_ws c \<or> c \<in> set (trim s)"
  using trim_parts [of s] by (metis Un_iff set_append)

lemma dropWhile_ws_append: "\<forall>c \<in> set a. is_ws c \<Longrightarrow> dropWhile is_ws (a @ s) = dropWhile is_ws s"
  by (induction a) auto

lemma trim_ws_left: "\<forall>c \<in> set a. is_ws c \<Longrightarrow> trim (a @ s) = trim s"
  by (simp add: trim_def trim_start_def dropWhile_ws_append)

lemma trim_ws_right:
  assumes "\<forall>c \<in> set b. is_ws c"
  shows "trim (s @ b) = trim s"
proof (cases "\<forall>c \<in> set s. is_ws c")
  case True
  then have "trim (s @ b) = trim ([] :: string)" "trim s = trim ([] :: string)"
    using assms trim_ws_left [of "s @ b" "[]"] trim_ws_left [of s "[]"] by auto
  then show ?thesis by simp
next
  case False
  then have "trim_start (s @ b) = trim_start s @ b"
    by (auto simp: trim_start_def dropWhile_append)
  then show ?thesis
    using assms by (simp add: trim_def trim_end_def dropWhile_ws_append)
qed

lemma wg_list_value_chars:
  assumes "assertWgListValue k v = Inr ()" and "c \<in> set v"
  shows "shell_safe c"
proof -
  have "set v \<subseteq> set '','' \<union> (\<Union>w \<in> set (split_on CHR '','' v). set w)"
    using set_join_subset [of "'',''" "split_on CHR '','' v"] by (simp add: join_split_on)
  with assms(2) consider "c = CHR '',''" | w where "w \<in> set (split_on CHR '','' v)" "c \<in> set w"
    by auto
  then show ?thesis
  proof cases
    case 1
    then show ?thesis by (simp add: shell_safe_def)
  next
    case (2 w)
    with assms(1) have "trim w = [] \<or> rx_test WG_HOST_OR_CIDR (trim w)"
      by (auto simp: assertWgListValue_def each_ok Let_def split: if_splits)
    with in_trim_or_ws [OF 2(2)] show ?thesis
      using rx_test_alphabet [OF _ wf_value_rx(1)] alphabet_shell_safe(1) class_shell_safe(6) by fastforce
  qed
qed

lemma trim_chars_safe:
  assumes "\<And>c. c \<in> set (trim v) \<Longrightarrow> tag_safe c" and "c \<in> set v"
  shows "tag_safe c"
  using assms in_trim_or_ws [of c v] class_shell_safe(6) by (auto simp: tag_safe_def)

lemma wg_value_cases:
  assumes "k \<in> set (WG_INTERFACE_KEYS @ WG_PEER_KEYS)" and "wg_value_ok k v"
  shows "assertWgListValue k v = Inr () \<or> rx_test WG_UINT (trim v) \<or> rx_test WG_KEY (trim v) \<or>
    rx_test WG_ENDPOINT (trim v)"
  using assms
  by (simp add: wg_value_ok_def accepts_unit assertSafeWireguardValue_def Let_def
      WG_INTERFACE_KEYS_def WG_PEER_KEYS_def split: if_splits)

lemma wg_value_chars:
  assumes "k \<in> set (WG_INTERFACE_KEYS @ WG_PEER_KEYS)" and "wg_value_ok k v" and "c \<in> set v"
  shows "shell_safe c"
proof -
  have "rx_test r (trim v) \<Longrightarrow> wf_rx r \<Longrightarrow> (\<And>c. alphabet r c \<Longrightarrow> shell_safe c) \<Longrightarrow> shell_safe c" for r
    using in_trim_or_ws [OF assms(3)] class_shell_safe(6) rx_test_alphabet by blast
  with wg_value_cases [OF assms(1,2)] wg_list_value_chars [OF _ assms(3)] alphabet_shell_safe
    wf_value_rx show ?thesis by metis
qed

lemma awg_value_wg:
  "k \<in> set (WG_INTERFACE_KEYS @ WG_PEER_KEYS) \<Longrightarrow> awg_value_ok k v = wg_value_ok k v"
  unfolding WG_INTERFACE_KEYS_def WG_PEER_KEYS_def
  by (auto simp: awg_value_ok_def wg_value_ok_def assertSafeAmneziaWgValue_def AWG_UINT16_KEYS_def
      AWG_UINT32_KEYS_def AWG_I_KEYS_def)

lemma awg_value_cases:
  assumes "k \<in> set (AWG_INTERFACE_KEYS @ WG_PEER_KEYS)" and "awg_value_ok k v"
  shows "wg_value_ok k v \<and> k \<in> set (WG_INTERFACE_KEYS @ WG_PEER_KEYS) \<or>
    rx_test (cls_plus is_digit) (trim v) \<or> rx_test AWG_I_TAGS (trim v) \<or> rx_test WG_KEY (trim v) \<or>
    trim v \<in> {''on'', ''off''} \<or> rx_test content_padding_rx (trim v)"
proof (cases "k \<in> set (WG_INTERFACE_KEYS @ WG_PEER_KEYS)")
  case True
  then show ?thesis using assms(2) by (simp add: awg_value_wg)
next
  case False
  have digits: "rx_test (cls_between is_digit 1 n) u \<Longrightarrow> 1 \<le> n \<Longrightarrow> rx_test (cls_plus is_digit) u" for n u
    by (auto simp: rx_test_between rx_test_plus_Suc)
  from False assms(1) have "k \<in> set (AWG_UINT16_KEYS @ AWG_UINT32_KEYS @ AWG_I_KEYS @
      [''headerprotectionkey'', ''randomtrailers'', ''contentpaddingaddition''])"
    by (auto simp: AWG_INTERFACE_KEYS_def AWG_UINT16_KEYS_def AWG_UINT32_KEYS_def AWG_I_KEYS_def)
  with assms(2) digits show ?thesis
    by (auto simp: awg_value_ok_def accepts_unit assertSafeAmneziaWgValue_def Let_def split: if_splits)
qed

lemma awg_value_chars:
  assumes "k \<in> set (AWG_INTERFACE_KEYS @ WG_PEER_KEYS)" and "awg_value_ok k v" and "c \<in> set v"
  shows "tag_safe c"
proof -
  have rx: "rx_test r (trim v) \<Longrightarrow> wf_rx r \<Longrightarrow> (\<And>c. alphabet r c \<Longrightarrow> tag_safe c) \<Longrightarrow> tag_safe c" for r
    using trim_chars_safe [OF _ assms(3)] rx_test_alphabet by blast
  have lits: "trim v \<in> {''on'', ''off''} \<Longrightarrow> tag_safe c"
    by (rule trim_chars_safe [OF _ assms(3)]) (auto simp: tag_safe_def)
  have safe: "shell_safe d \<Longrightarrow> tag_safe d" for d by (simp add: tag_safe_def)
  have digit: "is_digit d \<Longrightarrow> tag_safe d" for d by (simp add: safe class_shell_safe)
  from awg_value_cases [OF assms(1,2)] show ?thesis
  proof (elim disjE conjE)
    assume "wg_value_ok k v" and "k \<in> set (WG_INTERFACE_KEYS @ WG_PEER_KEYS)"
    then show ?thesis by (intro safe wg_value_chars [OF _ _ assms(3)])
  next
    assume "rx_test (cls_plus is_digit) (trim v)"
    then show ?thesis by (rule rx) (simp_all add: digit)
  next
    assume "rx_test AWG_I_TAGS (trim v)"
    then show ?thesis by (rule rx) (simp_all add: alphabet_tag_safe)
  next
    assume "rx_test WG_KEY (trim v)"
    then show ?thesis by (rule rx) (simp_all add: safe alphabet_shell_safe)
  next
    assume "trim v \<in> {''on'', ''off''}"
    then show ?thesis by (rule lits)
  next
    assume "rx_test content_padding_rx (trim v)"
    then show ?thesis by (rule rx) (simp_all add: safe alphabet_shell_safe)
  qed
qed

section \<open>The endpoint line\<close>

text \<open>The loop of \<open>extractWireguardEndpointHost\<close>.\<close>

fun endpoint_host :: "string list \<Rightarrow> string option" where
  "endpoint_host [] = None"
| "endpoint_host (raw # rest) =
     (let line = trim raw
      in case index_of CHR ''='' line of
           None \<Rightarrow> endpoint_host rest
         | Some eq \<Rightarrow>
             (if to_lower (trim (take eq line)) \<noteq> ''endpoint'' then endpoint_host rest
              else
                (let v = trim (drop (Suc eq) line)
                 in if starts_with [CHR 0x5B] v
                    then (case index_of CHR 0x5D v of
                            Some close \<Rightarrow> if close > 0 then Some (drop 1 (take close v)) else None
                          | None \<Rightarrow> None)
                    else (case last_index_of CHR '':'' v of
                            Some colon \<Rightarrow>
                              if colon > 0 then Some (take colon v)
                              else if v = '''' then None else Some v
                          | None \<Rightarrow> if v = '''' then None else Some v))))"

definition extractWireguardEndpointHost :: "string \<Rightarrow> string option" where
  "extractWireguardEndpointHost config = endpoint_host (split_on CHR 0x0A config)"

text \<open>The map step of \<open>pinWireguardEndpoint\<close>; \<open>resolve\<close> is the caller's DNS lookup.\<close>

definition pin_line :: "(string \<Rightarrow> string option) \<Rightarrow> string \<Rightarrow> string" where
  "pin_line resolve raw =
     (case index_of CHR ''='' raw of
        None \<Rightarrow> raw
      | Some eq \<Rightarrow>
          (if to_lower (trim (take eq raw)) \<noteq> ''endpoint'' then raw
           else
             (let v = trim (drop (Suc eq) raw)
              in if starts_with [CHR 0x5B] v then raw
                 else (case last_index_of CHR '':'' v of
                         None \<Rightarrow> raw
                       | Some colon \<Rightarrow>
                           (if colon = 0 then raw
                            else
                              (let host = take colon v; port = drop (Suc colon) v
                               in if isIPv4 host then raw
                                  else (case resolve host of
                                          None \<Rightarrow> raw
                                        | Some ip \<Rightarrow>
                                            (if \<not> isIPv4 ip then raw
                                             else take eq raw @ ''= '' @ ip @ '':'' @ port))))))))"

definition pinWireguardEndpoint :: "string \<Rightarrow> (string \<Rightarrow> string option) \<Rightarrow> string" where
  "pinWireguardEndpoint config resolve =
     join [CHR 0x0A] (map (pin_line resolve) (split_on CHR 0x0A config))"

section \<open>The DNS lines\<close>

text \<open>\<open>/^\s*DNS\s*=/i.test(line)\<close>.\<close>

definition is_dns_line :: "string \<Rightarrow> bool" where
  "is_dns_line line \<longleftrightarrow>
     (let t = dropWhile is_ws line
      in lower_ascii (take 3 t) = ''dns'' \<and> starts_with ''='' (dropWhile is_ws (drop 3 t)))"

definition stripDnsLines :: "string \<Rightarrow> string" where
  "stripDnsLines config =
     join [CHR 0x0A] (filter (\<lambda>line. \<not> is_dns_line line) (split_on CHR 0x0A config))"

fun find_index :: "('a \<Rightarrow> bool) \<Rightarrow> 'a list \<Rightarrow> nat option" where
  "find_index P [] = None"
| "find_index P (x # xs) = (if P x then Some 0 else map_option Suc (find_index P xs))"

text \<open>The two loops that place a new DNS line: forward to the next section header (or the
  end), then back over the blank lines before it.\<close>

definition next_header :: "string list \<Rightarrow> nat \<Rightarrow> nat" where
  "next_header ls start =
     (case find_index (\<lambda>line. starts_with [CHR 0x5B] (dropWhile is_ws line)) (drop (Suc start) ls) of
        None \<Rightarrow> length ls
      | Some i \<Rightarrow> Suc start + i)"

fun step_back :: "string list \<Rightarrow> nat \<Rightarrow> nat \<Rightarrow> nat" where
  "step_back ls start e =
     (if e > start + 1 \<and> trim (ls ! (e - 1)) = '''' then step_back ls start (e - 1) else e)"

declare step_back.simps [simp del]

definition new_dns_line :: "string \<Rightarrow> string" where
  "new_dns_line ip = ''DNS = '' @ ip"

definition replaceDnsLines :: "string \<Rightarrow> string \<Rightarrow> string" where
  "replaceDnsLines config resolverIp =
     (let ls = split_on CHR 0x0A config
      in case find_index is_dns_line ls of
           Some first \<Rightarrow>
             join [CHR 0x0A]
               (map snd (filter (\<lambda>(i, line). i = first \<or> \<not> is_dns_line line)
                  (enumerate 0 (ls[first := new_dns_line resolverIp]))))
         | None \<Rightarrow>
             (case find_index (\<lambda>line. to_lower (trim line) = ''[interface]'') ls of
                None \<Rightarrow> config
              | Some start \<Rightarrow>
                  (let e = step_back ls start (next_header ls start)
                   in join [CHR 0x0A] (take e ls @ (new_dns_line resolverIp) # drop e ls))))"

section \<open>Lemmas on lines\<close>

lemma find_index_None: "find_index P xs = None \<longleftrightarrow> (\<forall>x \<in> set xs. \<not> P x)"
  by (induction xs) auto

lemma find_index_Some:
  "find_index P xs = Some i \<Longrightarrow> i < length xs \<and> P (xs ! i) \<and> (\<forall>x \<in> set (take i xs). \<not> P x)"
proof (induction xs arbitrary: i)
  case (Cons x xs)
  then show ?case by (cases i) (auto split: if_splits)
qed simp

lemma trim_end_keep: "\<not> is_ws c \<Longrightarrow> trim_end (p @ c # r) = p @ c # trim_end r"
  by (simp add: trim_end_def dropWhile_append)

lemma trim_start_keep: "p \<noteq> [] \<Longrightarrow> \<not> is_ws (hd p) \<Longrightarrow> trim_start (p @ r) = p @ r"
  by (cases p) (simp_all add: trim_start_def)

lemma key_line:
  assumes "k \<noteq> []" and "\<not> is_ws (hd k)" and "\<not> is_ws (last k)" and "CHR ''='' \<notin> set k"
    and "\<forall>c \<in> set g. is_ws c"
  shows "index_of CHR ''='' (trim (k @ g @ CHR ''='' # v)) = Some (length (k @ g))"
    and "trim (take (length (k @ g)) (trim (k @ g @ CHR ''='' # v))) = k"
    and "trim (drop (Suc (length (k @ g))) (trim (k @ g @ CHR ''='' # v))) = trim v"
    and "hd (trim (k @ g @ CHR ''='' # v)) = hd k"
proof -
  have eq: "trim (k @ g @ CHR ''='' # v) = (k @ g) @ CHR ''='' # trim_end v"
    using assms(1,2) trim_start_keep [of k "g @ CHR ''='' # v"] trim_end_keep [of "CHR ''=''" "k @ g" v]
    by (simp add: trim_def is_ws_def)
  have "CHR ''='' \<notin> set g" using assms(5) by (auto simp: is_ws_def)
  with assms(4) show "index_of CHR ''='' (trim (k @ g @ CHR ''='' # v)) = Some (length (k @ g))"
    unfolding eq by (intro index_of_append) auto
  show "trim (take (length (k @ g)) (trim (k @ g @ CHR ''='' # v))) = k"
    unfolding eq using assms trim_ws_right [of g k] trim_edges [of k] by simp
  have "trim (trim_end v) = trim v"
    using trim_parts [of v]
    by (metis trim_end_def trim_def trim_ws_right in_set_conv_decomp set_rev set_takeWhileD
        takeWhile_dropWhile_id rev_append rev_rev_ident)
  then show "trim (drop (Suc (length (k @ g))) (trim (k @ g @ CHR ''='' # v))) = trim v"
    unfolding eq by simp
  show "hd (trim (k @ g @ CHR ''='' # v)) = hd k"
    unfolding eq using assms(1) by simp
qed

lemma lower_ascii_char:
  "(if is_upper c then lower_char c else c) = d \<Longrightarrow> is_lower d \<Longrightarrow> is_alpha c \<and> lower_char c = d"
proof (cases "is_upper c")
  case False
  assume "(if is_upper c then lower_char c else c) = d" and "is_lower d"
  with False have "is_lower c" "c = d" by simp_all
  then show "is_alpha c \<and> lower_char c = d"
    by (auto simp: lower_char_def class_defs char_le_iff)
qed (auto simp: is_alpha_def)

lemma lower_ascii_word:
  "lower_ascii k = w \<Longrightarrow> list_all is_lower w \<Longrightarrow> list_all is_alpha k \<and> to_lower k = w"
proof (induction k arbitrary: w)
  case Nil
  then show ?case by (simp add: lower_ascii_def to_lower_def)
next
  case (Cons c k)
  then obtain d w' where w: "w = d # w'" and d: "(if is_upper c then lower_char c else c) = d"
      and "is_lower d" and "lower_ascii k = w'" and "list_all is_lower w'"
    by (cases w) (auto simp: lower_ascii_def)
  with Cons.IH [of w'] lower_ascii_char [OF d] show ?case by (simp add: to_lower_def)
qed

lemma alpha_key_char: "is_alnum c \<Longrightarrow> \<not> is_ws c \<and> c \<noteq> CHR ''='' \<and> c \<notin> set ''#;'' \<and> c \<noteq> CHR 0x5B"
  by (auto simp: class_defs char_le_iff)

lemma is_dns_line_parts:
  "is_dns_line raw \<Longrightarrow> \<exists>a k g v. raw = a @ k @ g @ CHR ''='' # v \<and> (\<forall>c \<in> set a. is_ws c) \<and>
     lower_ascii k = ''dns'' \<and> (\<forall>c \<in> set g. is_ws c)"
proof -
  assume d: "is_dns_line raw"
  define t where "t = dropWhile is_ws raw"
  define u where "u = dropWhile is_ws (drop 3 t)"
  from d have k: "lower_ascii (take 3 t) = ''dns''" and "starts_with ''='' u"
    by (simp_all add: is_dns_line_def t_def u_def Let_def)
  then obtain v where v: "u = CHR ''='' # v" by (cases u) (auto simp: starts_with_def)
  have "raw = takeWhile is_ws raw @ t" by (simp add: t_def)
  also have "t = take 3 t @ takeWhile is_ws (drop 3 t) @ CHR ''='' # v"
    using takeWhile_dropWhile_id [of is_ws "drop 3 t"] v unfolding u_def
    by (metis append_take_drop_id)
  finally have "raw = takeWhile is_ws raw @ take 3 t @ takeWhile is_ws (drop 3 t) @ CHR ''='' # v" .
  with k show ?thesis by (metis set_takeWhileD)
qed

text \<open>A line whose key is a word of letters: its key, its value, and that it is neither blank,
  a comment nor a header.\<close>

lemma word_key_line:
  assumes "raw = a @ k @ g @ CHR ''='' # v" and "\<forall>c \<in> set a. is_ws c" and "\<forall>c \<in> set g. is_ws c"
    and "k \<noteq> []" and "list_all is_alnum k"
  shows "key_of raw = Some (to_lower k)" and "value_of raw = trim v"
    and "\<not> skippable (trim raw)" and "header_of raw = None" and "section_match (trim raw) = None"
proof -
  have k: "\<not> is_ws (hd k)" "\<not> is_ws (last k)" "CHR ''='' \<notin> set k"
    using assms(4,5) alpha_key_char by (auto simp: list_all_iff)
  note kl = key_line [OF assms(4) k assms(3), of v]
  have t: "trim raw = trim (k @ g @ CHR ''='' # v)"
    using assms(1,2) by (simp add: trim_ws_left)
  show "key_of raw = Some (to_lower k)" "value_of raw = trim v"
    unfolding key_of_def value_of_def t using kl by simp_all
  have ne: "trim raw \<noteq> []" using kl(1) t by auto
  have "hd (trim raw) = hd k" using kl(4) t by simp
  then have h: "hd (trim raw) \<notin> set ''#;''" "hd (trim raw) \<noteq> CHR 0x5B"
    using alpha_key_char [of "hd k"] assms(4,5) by (simp_all add: list_all_iff)
  with ne show "\<not> skippable (trim raw)"
    by (cases "trim raw") (auto simp: skippable_def starts_with_def)
  from h show "section_match (trim raw) = None" by (simp add: section_match_def Let_def)
  then show "header_of raw = None" by (simp add: header_of_def Let_def)
qed

lemma dns_line_key:
  assumes "is_dns_line raw"
  shows "key_of raw = Some ''dns''" and "\<not> skippable (trim raw)" and "header_of raw = None"
    and "section_match (trim raw) = None"
proof -
  obtain a k g v where raw: "raw = a @ k @ g @ CHR ''='' # v" "\<forall>c \<in> set a. is_ws c"
      "\<forall>c \<in> set g. is_ws c" and "lower_ascii k = ''dns''"
    using is_dns_line_parts [OF assms] by blast
  then have w: "list_all is_alpha k \<and> to_lower k = ''dns''" "k \<noteq> []"
    by (auto intro!: lower_ascii_word simp: class_defs lower_ascii_def)
  then have "list_all is_alnum k" by (auto simp: list_all_iff is_alnum_def)
  with w show "key_of raw = Some ''dns''" "\<not> skippable (trim raw)" "header_of raw = None"
    "section_match (trim raw) = None"
    using word_key_line [OF raw] by simp_all
qed

lemma new_dns_line:
  shows "is_dns_line (new_dns_line ip)" and "value_of (new_dns_line ip) = trim ip"
proof -
  show "is_dns_line (new_dns_line ip)"
    by (simp add: new_dns_line_def is_dns_line_def is_ws_def lower_ascii_def class_defs
        lower_char_def starts_with_def char_of_def bit_0)
  have "value_of (new_dns_line ip) = trim ('' '' @ ip)"
    by (rule word_key_line(2) [of _ "[]" "''DNS''" "'' ''"])
       (simp_all add: new_dns_line_def class_defs)
  then show "value_of (new_dns_line ip) = trim ip"
    using trim_ws_left [of "'' ''" ip] by (simp add: is_ws_def)
qed

section \<open>Replacing and dropping DNS lines\<close>

lemma replace_first_eq:
  assumes "find_index is_dns_line ls = Some i"
  shows "map snd (filter (\<lambda>(j, line). j = i \<or> \<not> is_dns_line line) (enumerate 0 (ls[i := x])))
       = take i ls @ x # filter (\<lambda>line. \<not> is_dns_line line) (drop (Suc i) ls)"
proof -
  have i: "i < length ls" "\<forall>l \<in> set (take i ls). \<not> is_dns_line l"
    using find_index_Some [OF assms] by auto
  have upd: "ls[i := x] = take i ls @ x # drop (Suc i) ls"
    using i(1) by (simp add: upd_conv_take_nth_drop)
  have before: "filter (\<lambda>(j, line). j = i \<or> \<not> is_dns_line line) (enumerate n ys) = enumerate n ys"
    if "\<forall>l \<in> set ys. \<not> is_dns_line l" for n ys
    using that by (induction ys arbitrary: n) auto
  have after: "map snd (filter (\<lambda>(j, line). j = i \<or> \<not> is_dns_line line) (enumerate n ys))
       = filter (\<lambda>line. \<not> is_dns_line line) ys" if "i < n" for n ys
    using that by (induction ys arbitrary: n) auto
  have len: "length (take i ls) = i" using i(1) by simp
  show ?thesis
    unfolding upd enumerate_append_eq filter_append map_append before [OF i(2)] len
    by (simp add: after)
qed

lemma step_back_bounds: "start + 1 \<le> e \<Longrightarrow> start + 1 \<le> step_back ls start e \<and> step_back ls start e \<le> e"
proof (induction ls start e rule: step_back.induct)
  case (1 ls start e)
  show ?case
  proof (cases "e > start + 1 \<and> trim (ls ! (e - 1)) = []")
    case True
    then have "step_back ls start e = step_back ls start (e - 1)" by (simp add: step_back.simps [of ls start e])
    moreover have "start + 1 \<le> step_back ls start (e - 1) \<and> step_back ls start (e - 1) \<le> e - 1"
      using 1 True by auto
    ultimately show ?thesis by linarith
  next
    case False
    then have "step_back ls start e = e" by (subst step_back.simps) auto
    with 1(2) show ?thesis by simp
  qed
qed

text \<open>Where the new line goes when there is none: after \<open>pre\<close>, which ends inside the
  interface section.\<close>

lemma insert_position:
  assumes "find_index (\<lambda>line. to_lower (trim line) = ''[interface]'') ls = Some start"
    and "e = step_back ls start (next_header ls start)"
  shows "e \<le> length ls"
    and "\<exists>pre mid. take e ls = pre @ ls ! start # mid \<and> to_lower (trim (ls ! start)) = ''[interface]'' \<and>
           (\<forall>l \<in> set mid. \<not> starts_with [CHR 0x5B] (dropWhile is_ws l))"
proof -
  note st = find_index_Some [OF assms(1)]
  let ?hdr = "\<lambda>line. starts_with [CHR 0x5B] (dropWhile is_ws line)"
  have nh: "start + 1 \<le> next_header ls start \<and> next_header ls start \<le> length ls \<and>
      (\<forall>l \<in> set (take (next_header ls start - Suc start) (drop (Suc start) ls)). \<not> ?hdr l)"
  proof (cases "find_index ?hdr (drop (Suc start) ls)")
    case None
    then have "next_header ls start = length ls" by (simp add: next_header_def)
    with None st show ?thesis by (auto simp: find_index_None)
  next
    case (Some i)
    then have "next_header ls start = Suc start + i" by (simp add: next_header_def)
    with find_index_Some [OF Some] show ?thesis by auto
  qed
  then have e: "start + 1 \<le> e \<and> e \<le> next_header ls start"
    using step_back_bounds assms(2) by simp
  with nh show "e \<le> length ls" by simp
  let ?mid = "take (e - Suc start) (drop (Suc start) ls)"
  have "take e ls = take (Suc start) ls @ ?mid"
    using e by (metis Suc_eq_plus1 le_add_diff_inverse take_add)
  then have "take e ls = take start ls @ ls ! start # ?mid"
    using st by (simp add: take_Suc_conv_app_nth)
  moreover have "set ?mid \<subseteq> set (take (next_header ls start - Suc start) (drop (Suc start) ls))"
    using e by (intro set_take_subset_set_take diff_le_mono) simp
  ultimately show "\<exists>pre mid. take e ls = pre @ ls ! start # mid \<and>
      to_lower (trim (ls ! start)) = ''[interface]'' \<and> (\<forall>l \<in> set mid. \<not> ?hdr l)"
    using nh st by blast
qed

text \<open>The lines of the result: the old lines with the DNS lines taken out and one put in.\<close>

lemma replace_lines:
  assumes "CHR 0x0A \<notin> set ip"
    and "replaceDnsLines config ip \<noteq> config \<or> (\<exists>l \<in> set (split_on CHR 0x0A config). is_dns_line l)"
  shows "\<exists>pre post. split_on CHR 0x0A (replaceDnsLines config ip) =
           pre @ new_dns_line ip # filter (\<lambda>line. \<not> is_dns_line line) post \<and>
           (\<forall>l \<in> set pre. \<not> is_dns_line l) \<and>
           (\<exists>mid. split_on CHR 0x0A config = pre @ mid @ post \<and> (\<forall>l \<in> set mid. is_dns_line l))"
proof -
  let ?ls = "split_on CHR 0x0A config"
  let ?nd = "\<lambda>line. \<not> is_dns_line line"
  have no_nl: "CHR 0x0A \<notin> set l" if "l \<in> set ?ls" for l
    using that by (rule split_on_no_sep)
  have nl: "CHR 0x0A \<notin> set (new_dns_line ip)" using assms(1) by (simp add: new_dns_line_def)
  show ?thesis
  proof (cases "find_index is_dns_line ?ls")
    case (Some i)
    note fi = find_index_Some [OF Some]
    have "split_on CHR 0x0A (replaceDnsLines config ip) =
        take i ?ls @ new_dns_line ip # filter ?nd (drop (Suc i) ?ls)"
      unfolding replaceDnsLines_def Let_def Some option.case replace_first_eq [OF Some]
      using no_nl nl by (intro split_on_join) (auto dest: in_set_takeD in_set_dropD)
    moreover have "?ls = take i ?ls @ [?ls ! i] @ drop (Suc i) ?ls"
      using fi by (simp add: id_take_nth_drop)
    ultimately show ?thesis using fi by (metis empty_iff empty_set set_ConsD)
  next
    case None
    then have nd: "\<forall>l \<in> set ?ls. \<not> is_dns_line l" by (simp add: find_index_None)
    with assms(2) have ne: "replaceDnsLines config ip \<noteq> config" by blast
    then obtain start where start: "find_index (\<lambda>line. to_lower (trim line) = ''[interface]'') ?ls = Some start"
      by (auto simp: replaceDnsLines_def None Let_def split: option.splits)
    define e where "e = step_back ?ls start (next_header ?ls start)"
    have "split_on CHR 0x0A (replaceDnsLines config ip) = take e ?ls @ new_dns_line ip # drop e ?ls"
      unfolding replaceDnsLines_def Let_def None start option.case e_def [symmetric]
      using no_nl nl by (intro split_on_join) (auto dest: in_set_takeD in_set_dropD)
    moreover have "filter ?nd (drop e ?ls) = drop e ?ls"
      using nd by (auto dest: in_set_dropD simp: filter_id_conv)
    moreover have "?ls = take e ?ls @ [] @ drop e ?ls" by simp
    ultimately show ?thesis using nd by (metis empty_iff empty_set in_set_takeD)
  qed
qed

lemma section_after_append: "section_after s (xs @ ys) = section_after (section_after s xs) ys"
  by (simp add: section_after_def)

lemma section_after_no_header:
  "(\<And>l. l \<in> set xs \<Longrightarrow> header_of l = None) \<Longrightarrow> section_after s xs = s"
  by (induction xs arbitrary: s) (auto simp: section_after_def section_step_def)

lemma header_bracket: "header_of l \<noteq> None \<Longrightarrow> starts_with [CHR 0x5B] (dropWhile is_ws l)"
proof -
  assume "header_of l \<noteq> None"
  then have t: "trim l \<noteq> []" "hd (trim l) = CHR 0x5B"
    by (auto simp: header_of_def section_match_def Let_def skippable_def split: if_splits option.splits)
  obtain b where "dropWhile is_ws l = trim l @ b"
    unfolding trim_def trim_start_def trim_end_def
    by (metis rev_append rev_rev_ident takeWhile_dropWhile_id)
  with t show ?thesis by (cases "trim l") (auto simp: starts_with_def)
qed

lemma to_lower_bracket: "lower_char c = CHR 0x5B \<Longrightarrow> c = CHR 0x5B"
  "lower_char c = CHR 0x5D \<Longrightarrow> c = CHR 0x5D"
proof -
  have "lower_char c = d \<Longrightarrow> (of_char d :: nat) < 97 \<Longrightarrow> c = d" for d
    by (auto simp: lower_char_def class_defs char_le_iff split: if_splits)
  then show "lower_char c = CHR 0x5B \<Longrightarrow> c = CHR 0x5B" "lower_char c = CHR 0x5D \<Longrightarrow> c = CHR 0x5D"
    by simp_all
qed

lemma interface_header:
  assumes "to_lower (trim l) = ''[interface]''"
  shows "header_of l = Some Interface"
proof -
  obtain w where t: "trim l = CHR 0x5B # w @ [CHR 0x5D]" and w: "to_lower w = ''interface''"
  proof -
    from assms obtain c v where v: "trim l = c # v" "lower_char c = CHR 0x5B"
        "to_lower v = ''interface]''"
      by (auto simp: to_lower_def map_eq_Cons_conv)
    then have "v \<noteq> []" "to_lower (butlast v) = butlast ''interface]''" "lower_char (last v) = last ''interface]''"
      by (auto simp: to_lower_def simp flip: map_butlast last_map)
    with v to_lower_bracket show ?thesis
      by (intro that [of "butlast v"]) (simp_all, metis append_butlast_last_id)
  qed
  have len: "length w = 9" using arg_cong [OF w, of length] by (simp add: to_lower_def)
  have "list_all is_alpha w" by (rule to_lower_alpha) (simp add: w class_defs)
  then have nw: "\<forall>c \<in> set w. \<not> is_ws c"
    using alpha_key_char by (auto simp: list_all_iff is_alnum_def)
  then have "trim w = w" by (rule trim_no_ws)
  have "is_ws CHR 0x0A" "is_ws CHR 0x0D" by (simp_all add: is_ws_def)
  with nw have "list_all (\<lambda>c. c \<noteq> CHR 0x0A \<and> c \<noteq> CHR 0x0D) w"
    by (auto simp: list_all_iff)
  then have "section_match (trim l) = Some w"
    using len by (simp add: section_match_def t Let_def)
  moreover have "\<not> skippable (trim l)" by (simp add: t skippable_def starts_with_def)
  ultimately show ?thesis using w \<open>trim w = w\<close> by (simp add: header_of_def Let_def)
qed

context ini_guard
begin

lemma filter_no_dns:
  "accepts (scan sec ls) \<Longrightarrow> accepts (scan sec (filter (\<lambda>line. \<not> is_dns_line line) ls))"
  by (rule scan_filter) (auto simp: dns_line_key)

lemma dns_line_accepted:
  assumes "''dns'' \<in> set (allow Interface)" and "value_ok ''dns'' (trim ip)"
  shows "line_ok allow value_ok (Some Interface) (new_dns_line ip)"
  using assms dns_line_key [OF new_dns_line(1)] new_dns_line(2) [of ip] by (auto simp: line_ok_def)

text \<open>One DNS line may be put where the interface section is open, with every other DNS line
  taken out.\<close>

lemma replace_dns_accepted:
  assumes acc: "accepts (scan None (split_on CHR 0x0A config))"
    and dns: "''dns'' \<in> set (allow Interface)" "''dns'' \<notin> set (allow Peer)"
    and ip: "value_ok ''dns'' (trim ip)" "CHR 0x0A \<notin> set ip"
  shows "accepts (scan None (split_on CHR 0x0A (replaceDnsLines config ip)))"
proof -
  let ?ls = "split_on CHR 0x0A config"
  let ?nd = "\<lambda>line. \<not> is_dns_line line"
  have build: "accepts (scan None (pre @ new_dns_line ip # filter ?nd post))"
    if "accepts (scan None pre)" "section_after None pre = Some Interface"
      "accepts (scan (Some Interface) post)" for pre post
    using that dns_line_accepted [OF dns(1) ip(1)] dns_line_key(3) [OF new_dns_line(1)]
    by (simp add: scan_append scan_Cons section_step_def filter_no_dns)
  have nl: "CHR 0x0A \<notin> set (new_dns_line ip)" using ip(2) by (simp add: new_dns_line_def)
  have no_nl: "l \<in> set ?ls \<Longrightarrow> CHR 0x0A \<notin> set l" for l by (rule split_on_no_sep)
  show ?thesis
  proof (cases "find_index is_dns_line ?ls")
    case (Some i)
    note fi = find_index_Some [OF Some]
    then have ls: "?ls = take i ?ls @ ?ls ! i # drop (Suc i) ?ls"
      by (simp add: id_take_nth_drop)
    have d: "key_of (?ls ! i) = Some ''dns''" "\<not> skippable (trim (?ls ! i))" "header_of (?ls ! i) = None"
      using fi dns_line_key by blast+
    from acc have "accepts (scan None (take i ?ls @ ?ls ! i # drop (Suc i) ?ls))"
      using ls by simp
    then have a: "accepts (scan None (take i ?ls))"
      "line_ok allow value_ok (section_after None (take i ?ls)) (?ls ! i)"
      "accepts (scan (section_after None (take i ?ls)) (drop (Suc i) ?ls))"
      using d(3) by (simp_all add: scan_append scan_Cons section_step_def)
    from a(2) d dns(2) have "section_after None (take i ?ls) = Some Interface"
      by (auto simp: line_ok_def) (metis wg_section.exhaust)
    moreover have "split_on CHR 0x0A (replaceDnsLines config ip) =
        take i ?ls @ new_dns_line ip # filter ?nd (drop (Suc i) ?ls)"
      unfolding replaceDnsLines_def Let_def Some option.case replace_first_eq [OF Some]
      using no_nl nl by (intro split_on_join) (auto dest: in_set_takeD in_set_dropD)
    ultimately show ?thesis using build a by simp
  next
    case None
    show ?thesis
    proof (cases "find_index (\<lambda>line. to_lower (trim line) = ''[interface]'') ?ls")
      case None': None
      then show ?thesis using acc by (simp add: replaceDnsLines_def None Let_def)
    next
      case (Some start)
      define e where "e = step_back ?ls start (next_header ?ls start)"
      obtain pre mid where pm: "take e ?ls = pre @ ?ls ! start # mid"
          "to_lower (trim (?ls ! start)) = ''[interface]''"
          "\<forall>l \<in> set mid. \<not> starts_with [CHR 0x5B] (dropWhile is_ws l)"
        using insert_position(2) [OF Some e_def] by blast
      have hm: "\<And>l. l \<in> set mid \<Longrightarrow> header_of l = None" using pm(3) header_bracket by blast
      have sec: "section_after None (take e ?ls) = Some Interface"
        unfolding pm(1) section_after_append
        using section_after_no_header [OF hm] interface_header [OF pm(2)]
        by (simp add: section_after_append [of _ "[_]", simplified] section_after_def section_step_def)
      have "accepts (scan None (take e ?ls @ drop e ?ls))" using acc by simp
      then have a: "accepts (scan None (take e ?ls))" "accepts (scan (Some Interface) (drop e ?ls))"
        using sec by (simp_all add: scan_append del: append_take_drop_id)
      have "filter ?nd (drop e ?ls) = drop e ?ls"
        using None by (auto simp: find_index_None filter_id_conv dest: in_set_dropD)
      moreover have "split_on CHR 0x0A (replaceDnsLines config ip) =
          take e ?ls @ new_dns_line ip # drop e ?ls"
        unfolding replaceDnsLines_def Let_def None Some option.case e_def [symmetric]
        using no_nl nl by (intro split_on_join) (auto dest: in_set_takeD in_set_dropD)
      ultimately show ?thesis using build [OF a(1) sec a(2)] by simp
    qed
  qed
qed

end

section \<open>Pinning the endpoint\<close>

lemma index_of_skip: "x \<notin> set a \<Longrightarrow> index_of x (a @ s) = map_option (\<lambda>i. length a + i) (index_of x s)"
proof (induction a)
  case Nil
  then show ?case by (cases "index_of x s") simp_all
next
  case (Cons c a)
  then show ?case by (cases "index_of x s") auto
qed

lemma index_of_left: "index_of x s = Some i \<Longrightarrow> index_of x (s @ b) = Some i"
  by (induction s arbitrary: i) (auto split: if_splits)

text \<open>Key and value of a line may be read off the untrimmed line.\<close>

lemma untrimmed_line:
  "key_of raw = map_option (\<lambda>eq. to_lower (trim (take eq raw))) (index_of CHR ''='' raw)"
  "value_of raw = (case index_of CHR ''='' raw of None \<Rightarrow> '''' | Some eq \<Rightarrow> trim (drop (Suc eq) raw))"
proof -
  obtain a b where raw: "raw = a @ trim raw @ b" and ws: "\<forall>c \<in> set a. is_ws c" "\<forall>c \<in> set b. is_ws c"
    using trim_parts by blast
  have "\<not> is_ws CHR ''=''" by (simp add: is_ws_def)
  with ws have eq: "CHR ''='' \<notin> set a" "CHR ''='' \<notin> set b" by auto
  have "key_of raw = map_option (\<lambda>eq. to_lower (trim (take eq raw))) (index_of CHR ''='' raw) \<and>
    value_of raw = (case index_of CHR ''='' raw of None \<Rightarrow> '''' | Some eq \<Rightarrow> trim (drop (Suc eq) raw))"
  proof (cases "index_of CHR ''='' (trim raw)")
    case None
    then have "CHR ''='' \<notin> set raw" by (subst raw) (simp add: eq index_of_None)
    then have "index_of CHR ''='' raw = None" by (simp add: index_of_None)
    with None show ?thesis by (simp add: key_of_def value_of_def)
  next
    case (Some i)
    then have i: "i < length (trim raw)" using index_of_Some by blast
    have idx: "index_of CHR ''='' raw = Some (length a + i)"
      by (subst raw) (simp add: index_of_skip eq index_of_left [OF Some])
    have "take (length a + i) raw = a @ take i (trim raw)"
      by (subst raw) (use i in simp)
    moreover have "drop (Suc (length a + i)) raw = drop (Suc i) (trim raw) @ b"
      by (subst raw) (use i in simp)
    ultimately show ?thesis
      using Some idx ws by (simp add: key_of_def value_of_def trim_ws_left trim_ws_right)
  qed
  then show "key_of raw = map_option (\<lambda>eq. to_lower (trim (take eq raw))) (index_of CHR ''='' raw)"
    "value_of raw = (case index_of CHR ''='' raw of None \<Rightarrow> '''' | Some eq \<Rightarrow> trim (drop (Suc eq) raw))"
    by simp_all
qed

lemma trim_hd: "trim s \<noteq> [] \<Longrightarrow> \<not> is_ws (hd (trim s))"
  using hd_dropWhile [of is_ws "trim s"] trim_start_trim_end [of s]
  by (metis trim_def trim_start_def)

lemma trim_Cons: "\<not> is_ws c \<Longrightarrow> trim (c # t) = c # trim_end t"
  using trim_end_keep [of c "[]" t] by (simp add: trim_def trim_start_def)

lemma trim_last: "trim s \<noteq> [] \<Longrightarrow> \<not> is_ws (last (trim s))"
  using hd_dropWhile [of is_ws "rev (trim_start s)"]
  by (simp add: trim_def trim_end_def last_rev)

text \<open>A line with a key that starts like a word is neither blank, a comment nor a header.\<close>

lemma plain_key_line:
  assumes "key_of raw = Some k" and "k \<noteq> []" and "hd k \<notin> set [CHR ''#'', CHR '';'', CHR 0x5B]"
  shows "\<not> skippable (trim raw)" and "section_match (trim raw) = None" and "header_of raw = None"
proof -
  obtain eq where eq: "index_of CHR ''='' (trim raw) = Some eq"
      and k: "k = to_lower (trim (take eq (trim raw)))"
    using assms(1) by (auto simp: key_of_def)
  have "trim [] = []" by (simp add: trim_no_ws)
  then have ne: "trim raw \<noteq> []" and pos: "eq > 0"
    using eq k assms(2) by (auto simp: to_lower_def intro: gr0I)
  then obtain t where t: "take eq (trim raw) = hd (trim raw) # t"
    by (cases "trim raw"; cases eq) auto
  have "hd (trim (take eq (trim raw))) = hd (trim raw)"
    using trim_hd [OF ne] by (simp add: t trim_Cons)
  then have h: "lower_char (hd (trim raw)) = hd k"
    using k assms(2) by (simp add: to_lower_def hd_map)
  have "hd (trim raw) \<notin> set [CHR ''#'', CHR '';'', CHR 0x5B]"
    using h assms(3) by (auto simp: lower_char_def class_defs char_le_iff)
  with ne show "\<not> skippable (trim raw)" "section_match (trim raw) = None"
    by (cases "trim raw"; simp add: skippable_def starts_with_def section_match_def Let_def)+
  then show "header_of raw = None" by (simp add: header_of_def Let_def)
qed

text \<open>The line \<open>pinWireguardEndpoint\<close> writes has the same key and the pinned value.\<close>

lemma pinned_line:
  assumes "index_of CHR ''='' raw = Some eq" and "isIPv4 ip" and "\<not> is_ws (last (CHR '':'' # port))"
  shows "key_of (take eq raw @ ''= '' @ ip @ '':'' @ port) = Some (to_lower (trim (take eq raw)))"
    and "value_of (take eq raw @ ''= '' @ ip @ '':'' @ port) = ip @ CHR '':'' # port"
proof -
  let ?new = "take eq raw @ CHR ''='' # '' '' @ ip @ CHR '':'' # port"
  have "CHR ''='' \<notin> set (take eq raw)" and len: "length (take eq raw) = eq"
    using index_of_Some [OF assms(1)] by simp_all
  then have idx: "index_of CHR ''='' ?new = Some eq"
    using index_of_append len by metis
  have "\<not> is_ws (last (ip @ CHR '':'' # port))" using assms(3) by simp
  moreover have "\<not> is_ws (hd ip)" "ip \<noteq> []"
    using isIPv4_nonempty [OF assms(2)] isIPv4_no_ws [OF assms(2)] by simp_all
  ultimately have "trim (ip @ CHR '':'' # port) = ip @ CHR '':'' # port"
    by (intro trim_edges) simp_all
  then have "value_of ?new = ip @ CHR '':'' # port"
    using len trim_ws_left [of "'' ''" "ip @ CHR '':'' # port"]
    by (simp only: untrimmed_line idx option.case) (simp add: is_ws_def)
  then show "value_of (take eq raw @ ''= '' @ ip @ '':'' @ port) = ip @ CHR '':'' # port" by simp
  have "key_of ?new = Some (to_lower (trim (take eq raw)))"
    using len by (simp only: untrimmed_line idx) simp
  then show "key_of (take eq raw @ ''= '' @ ip @ '':'' @ port) = Some (to_lower (trim (take eq raw)))"
    by simp
qed

text \<open>A line with an endpoint \<open>h:port\<close> gets the host \<open>pinned_host resolve h\<close>.\<close>

definition pinned_host :: "(string \<Rightarrow> string option) \<Rightarrow> string \<Rightarrow> string" where
  "pinned_host resolve h =
     (if isIPv4 h then h
      else (case resolve h of None \<Rightarrow> h | Some ip \<Rightarrow> if isIPv4 ip then ip else h))"

lemma endpoint_value_last:
  "value_of raw = h @ CHR '':'' # port \<Longrightarrow> \<not> is_ws (last (CHR '':'' # port))"
proof -
  assume v: "value_of raw = h @ CHR '':'' # port"
  then obtain w where "trim w = h @ CHR '':'' # port"
    by (auto simp: value_of_def split: option.splits)
  then show ?thesis using trim_last [of w] by simp
qed

lemma pin_line_value:
  assumes "key_of raw = Some ''endpoint''" and "value_of raw = h @ CHR '':'' # port"
    and "CHR '':'' \<notin> set port" and "h \<noteq> []" and "\<not> starts_with [CHR 0x5B] (value_of raw)"
  shows "key_of (pin_line resolve raw) = Some ''endpoint''"
    and "value_of (pin_line resolve raw) = pinned_host resolve h @ CHR '':'' # port"
proof -
  obtain eq where eq: "index_of CHR ''='' raw = Some eq" "to_lower (trim (take eq raw)) = ''endpoint''"
      and v: "trim (drop (Suc eq) raw) = h @ CHR '':'' # port"
    using assms(1,2) by (auto simp: untrimmed_line)
  have nb: "\<not> starts_with [CHR 0x5B] (h @ CHR '':'' # port)" using assms(2,5) by simp
  have new: "pin_line resolve raw =
      (if isIPv4 h then raw
       else (case resolve h of None \<Rightarrow> raw
         | Some ip \<Rightarrow> if isIPv4 ip then take eq raw @ ''= '' @ ip @ '':'' @ port else raw))"
    using eq v nb assms(3,4) by (simp add: pin_line_def last_index_of_append split: option.splits)
  note pl = pinned_line [OF eq(1) _ endpoint_value_last [OF assms(2)]]
  show "key_of (pin_line resolve raw) = Some ''endpoint''"
    using new assms(1) pl(1) eq(2) by (auto split: option.splits)
  show "value_of (pin_line resolve raw) = pinned_host resolve h @ CHR '':'' # port"
    using new assms(2) pl(2) by (auto simp: pinned_host_def split: option.splits)
qed

lemma pin_line_cases:
  obtains "pin_line resolve raw = raw"
  | h port ip where "key_of raw = Some ''endpoint''" "value_of raw = h @ CHR '':'' # port"
      "CHR '':'' \<notin> set port" "h \<noteq> []" "\<not> starts_with [CHR 0x5B] (value_of raw)"
      "\<not> isIPv4 h" "resolve h = Some ip" "isIPv4 ip"
      "key_of (pin_line resolve raw) = Some ''endpoint''"
      "value_of (pin_line resolve raw) = ip @ CHR '':'' # port"
proof (cases "pin_line resolve raw = raw")
  case True
  then show ?thesis by (rule that(1))
next
  case False
  then obtain eq colon ip where eq: "index_of CHR ''='' raw = Some eq"
      "to_lower (trim (take eq raw)) = ''endpoint''"
      and nb: "\<not> starts_with [CHR 0x5B] (trim (drop (Suc eq) raw))"
      and colon: "last_index_of CHR '':'' (trim (drop (Suc eq) raw)) = Some colon" "colon \<noteq> 0"
      and ip: "\<not> isIPv4 (take colon (trim (drop (Suc eq) raw)))"
        "resolve (take colon (trim (drop (Suc eq) raw))) = Some ip" "isIPv4 ip"
      and new: "pin_line resolve raw = take eq raw @ ''= '' @ ip @ '':'' @ drop (Suc colon) (trim (drop (Suc eq) raw))"
    by (auto simp: pin_line_def Let_def split: option.splits if_splits)
  define h where "h = take colon (trim (drop (Suc eq) raw))"
  define port where "port = drop (Suc colon) (trim (drop (Suc eq) raw))"
  have key: "key_of raw = Some ''endpoint''" "value_of raw = trim (drop (Suc eq) raw)"
    using eq by (simp_all add: untrimmed_line)
  have c: "colon < length (value_of raw)" "value_of raw ! colon = CHR '':''" "CHR '':'' \<notin> set port"
    using last_index_of_Some [OF colon(1)] key(2) by (simp_all add: port_def)
  then have v: "value_of raw = h @ CHR '':'' # port"
    unfolding port_def h_def key(2) by (metis id_take_nth_drop)
  have "h \<noteq> []" using c(1) colon(2) v by (metis h_def key(2) length_0_conv length_take min.absorb4)
  moreover have "\<not> starts_with [CHR 0x5B] (value_of raw)" using nb key(2) by simp
  moreover have "\<not> isIPv4 h" "resolve h = Some ip" using ip by (simp_all add: h_def)
  ultimately show ?thesis
    using that(2) [OF key(1) v c(3) _ _ _ _ ip(3)] ip(3)
      pin_line_value [OF key(1) v c(3), of resolve] by (simp add: pinned_host_def)
qed

lemma isIPv4_host_chars: "isIPv4 ip \<Longrightarrow> list_all host_char ip"
  using isIPv4_chars by (fastforce simp: list_all_iff host_char_def is_alnum_def)

lemma host_lang: "list_all host_char h \<Longrightarrow> h \<noteq> [] \<Longrightarrow> h \<in> lang host_rx"
proof -
  assume "list_all host_char h" "h \<noteq> []"
  then have "[] @ h @ [] \<in> lang host_rx"
    unfolding host_rx_def by (intro lang_SeqI) (auto simp: Suc_le_eq)
  then show ?thesis by simp
qed

lemma endpoint_lang:
  "v \<in> lang WG_ENDPOINT \<longleftrightarrow>
     (\<exists>h d. v = h @ CHR '':'' # d \<and> h \<in> lang host_rx \<and> list_all is_digit d \<and> 1 \<le> length d \<and> length d \<le> 5)"
proof
  assume "v \<in> lang WG_ENDPOINT"
  then obtain h c d where "v = h @ c @ d" "h \<in> lang host_rx" "c \<in> lang (chr CHR '':'')"
      "list_all is_digit d" "1 \<le> length d" "length d \<le> 5"
    unfolding WG_ENDPOINT_def by auto
  moreover from this have "c = [CHR '':'']" by (cases c) auto
  ultimately show "\<exists>h d. v = h @ CHR '':'' # d \<and> h \<in> lang host_rx \<and> list_all is_digit d \<and>
      1 \<le> length d \<and> length d \<le> 5" by auto
next
  assume "\<exists>h d. v = h @ CHR '':'' # d \<and> h \<in> lang host_rx \<and> list_all is_digit d \<and>
      1 \<le> length d \<and> length d \<le> 5"
  then obtain h d where v: "v = h @ [CHR '':''] @ d" and hd: "h \<in> lang host_rx" "list_all is_digit d"
      "1 \<le> length d" "length d \<le> 5" by auto
  have "[CHR '':''] @ d \<in> lang (Seq (chr CHR '':'') (cls_between is_digit 1 5))"
    using hd by (intro lang_SeqI) simp_all
  with hd(1) show "v \<in> lang WG_ENDPOINT" unfolding WG_ENDPOINT_def v by (rule lang_SeqI)
qed

lemma last_colon_unique:
  "h @ (c :: char) # p = h' @ c # d \<Longrightarrow> c \<notin> set p \<Longrightarrow> c \<notin> set d \<Longrightarrow> p = d"
proof -
  assume eq: "h @ c # p = h' @ c # d" and c: "c \<notin> set p" "c \<notin> set d"
  have "Some (length h) = Some (length h')"
    using last_index_of_append [OF c(1), of h] last_index_of_append [OF c(2), of h'] eq by simp
  with eq show "p = d" by simp
qed

lemma isIPv4_no_newline: "isIPv4 ip \<Longrightarrow> CHR 0x0A \<notin> set ip"
  using isIPv4_no_ws [of ip "CHR 0x0A"] by (auto simp: is_ws_def)

lemma pin_line_shape:
  "pin_line resolve raw = raw \<or>
   (\<exists>eq ip port. pin_line resolve raw = take eq raw @ ''= '' @ ip @ '':'' @ port \<and> isIPv4 ip \<and>
      set port \<subseteq> set raw)"
proof -
  have "set (drop n (trim (drop m raw))) \<subseteq> set raw" for n m
    using set_drop_subset set_trim by (meson subset_trans)
  then show ?thesis by (simp add: pin_line_def Let_def split: option.splits) blast
qed

lemma pin_line_no_newline: "CHR 0x0A \<notin> set raw \<Longrightarrow> CHR 0x0A \<notin> set (pin_line resolve raw)"
  using pin_line_shape [of resolve raw] isIPv4_no_newline by (auto dest: in_set_takeD)

lemma pin_lines:
  "split_on CHR 0x0A (pinWireguardEndpoint config resolve) =
     map (pin_line resolve) (split_on CHR 0x0A config)"
  unfolding pinWireguardEndpoint_def
  by (rule split_on_join) (auto simp: split_on_no_sep pin_line_no_newline)

lemma pinned_endpoint_value:
  assumes "rx_test WG_ENDPOINT (trim (h @ CHR '':'' # p))" and "trim (h @ CHR '':'' # p) = h @ CHR '':'' # p"
    and "CHR '':'' \<notin> set p" and "isIPv4 ip"
  shows "rx_test WG_ENDPOINT (ip @ CHR '':'' # p)"
proof -
  obtain h' d where eq: "h @ CHR '':'' # p = h' @ CHR '':'' # d" and d: "list_all is_digit d"
      "1 \<le> length d" "length d \<le> 5"
    using assms(1,2) by (auto simp: rx_test_correct endpoint_lang)
  then have "CHR '':'' \<notin> set d" by (auto simp: list_all_iff is_digit_def char_le_iff)
  with eq assms(3) have "p = d" by (rule last_colon_unique)
  with d host_lang [OF isIPv4_host_chars [OF assms(4)] isIPv4_nonempty [OF assms(4)]] show ?thesis
    by (auto simp: rx_test_correct endpoint_lang)
qed

text \<open>\<open>extractWireguardEndpointHost\<close> reads the first endpoint line.\<close>

lemma endpoint_host_skip: "key_of raw \<noteq> Some ''endpoint'' \<Longrightarrow> endpoint_host (raw # rest) = endpoint_host rest"
  by (auto simp: key_of_def Let_def split: option.splits)

lemma endpoint_host_line:
  assumes "key_of raw = Some ''endpoint''" and "value_of raw = h @ CHR '':'' # port"
    and "CHR '':'' \<notin> set port" and "h \<noteq> []" and "\<not> starts_with [CHR 0x5B] (value_of raw)"
  shows "endpoint_host (raw # rest) = Some h"
proof -
  obtain eq where "index_of CHR ''='' (trim raw) = Some eq"
      "to_lower (trim (take eq (trim raw))) = ''endpoint''"
      "trim (drop (Suc eq) (trim raw)) = h @ CHR '':'' # port"
    using assms(1,2) by (auto simp: key_of_def value_of_def)
  moreover have "\<not> starts_with [CHR 0x5B] (h @ CHR '':'' # port)" using assms(2,5) by simp
  ultimately show ?thesis
    using assms(3,4) by (simp add: Let_def last_index_of_append)
qed

lemma pin_line_other:
  assumes "key_of raw \<noteq> Some ''endpoint''"
  shows "pin_line resolve raw = raw"
  using assms by (rule_tac pin_line_cases [of resolve raw]) auto

lemma digits_no_colon: "list_all is_digit d \<Longrightarrow> CHR '':'' \<notin> set d"
  by (auto simp: list_all_iff is_digit_def char_le_iff)

text \<open>What the operations of this theory rely on in a guard: how it treats the endpoint and
  the DNS key.\<close>

locale tunnel_guard = ini_guard +
  assumes endpoint_value: "value_ok ''endpoint'' v \<longleftrightarrow> rx_test WG_ENDPOINT (trim v)"
    and dns_value: "value_ok ''dns'' v \<longleftrightarrow> accepts (assertWgListValue ''dns'' v)"
    and dns_interface: "''dns'' \<in> set (allow Interface)"
    and dns_peer: "''dns'' \<notin> set (allow Peer)"
begin

lemma pin_line_ok:
  assumes "line_ok allow value_ok s raw"
  shows "line_ok allow value_ok s (pin_line resolve raw) \<and> header_of (pin_line resolve raw) = header_of raw"
proof (rule pin_line_cases [of resolve raw])
  fix h port ip
  assume a: "key_of raw = Some ''endpoint''" "value_of raw = h @ CHR '':'' # port" "CHR '':'' \<notin> set port"
    "isIPv4 ip" "key_of (pin_line resolve raw) = Some ''endpoint''"
    "value_of (pin_line resolve raw) = ip @ CHR '':'' # port"
  note old = plain_key_line [OF a(1), simplified] and new = plain_key_line [OF a(5), simplified]
  have t: "trim (value_of r) = value_of r" for r
    using trim_no_ws [of "[]"] by (auto simp: value_of_def split: option.splits)
  have "value_ok ''endpoint'' (value_of raw) \<Longrightarrow> value_ok ''endpoint'' (value_of (pin_line resolve raw))"
    using pinned_endpoint_value [OF _ _ a(3,4), of h] t [of raw] t [of "pin_line resolve raw"] a(2,6)
    by (simp add: endpoint_value)
  with assms a(1,5) old new show ?thesis by (auto simp: line_ok_def)
qed (use assms in simp)

lemma endpoint_parts:
  assumes "line_ok allow value_ok s raw" and "key_of raw = Some ''endpoint''"
  obtains h d where "value_of raw = h @ CHR '':'' # d" "CHR '':'' \<notin> set d" "h \<noteq> []"
proof -
  note p = plain_key_line [OF assms(2), simplified]
  have t: "trim (value_of raw) = value_of raw"
    using trim_no_ws [of "[]"] by (auto simp: value_of_def split: option.splits)
  from assms p have "rx_test WG_ENDPOINT (value_of raw)"
    by (auto simp: line_ok_def endpoint_value t)
  then obtain h d where "value_of raw = h @ CHR '':'' # d" "h \<in> lang host_rx" "list_all is_digit d"
    by (auto simp: rx_test_correct endpoint_lang)
  moreover from this have "h \<noteq> []"
    by (auto simp: host_rx_def)
  ultimately show ?thesis using that digits_no_colon by blast
qed

text \<open>In an accepted text, pinning replaces the endpoint host the config names by the pinned one.\<close>

lemma pinned_endpoint_host:
  assumes "accepts (scan sec ls)"
    and "\<And>raw. raw \<in> set ls \<Longrightarrow> key_of raw = Some ''endpoint'' \<Longrightarrow> \<not> starts_with [CHR 0x5B] (value_of raw)"
  shows "endpoint_host (map (pin_line resolve) ls) = map_option (pinned_host resolve) (endpoint_host ls)"
  using assms
proof (induction ls arbitrary: sec)
  case (Cons raw ls)
  show ?case
  proof (cases "key_of raw = Some ''endpoint''")
    case False
    have "accepts (scan (section_step sec raw) ls)" using Cons.prems(1) by (simp add: scan_Cons)
    then have "endpoint_host (map (pin_line resolve) ls) = map_option (pinned_host resolve) (endpoint_host ls)"
      by (rule Cons.IH) (use Cons.prems(2) in auto)
    with False show ?thesis by (simp only: list.map pin_line_other endpoint_host_skip not_False_eq_True)
  next
    case True
    then obtain h d where v: "value_of raw = h @ CHR '':'' # d" "CHR '':'' \<notin> set d" "h \<noteq> []"
      using Cons.prems(1) endpoint_parts scan_Cons by metis
    have nb: "\<not> starts_with [CHR 0x5B] (value_of raw)" using Cons.prems(2) True by simp
    note pv = pin_line_value [OF True v nb, of resolve]
    have "pinned_host resolve h \<noteq> []"
      using v(3) isIPv4_nonempty by (auto simp: pinned_host_def split: option.splits)
    moreover have "\<not> starts_with [CHR 0x5B] (value_of (pin_line resolve raw))"
    proof (cases "pinned_host resolve h = h")
      case False
      then have "isIPv4 (pinned_host resolve h)" by (auto simp: pinned_host_def split: option.splits if_splits)
      then have "pinned_host resolve h \<noteq> []" "is_digit (hd (pinned_host resolve h)) \<or> hd (pinned_host resolve h) = CHR ''.''"
        using isIPv4_nonempty isIPv4_chars by simp_all
      then show ?thesis by (cases "pinned_host resolve h") (auto simp: pv(2) starts_with_def is_digit_def char_le_iff)
    qed (use pv nb v in simp)
    ultimately have "endpoint_host (pin_line resolve raw # map (pin_line resolve) ls) = Some (pinned_host resolve h)"
      by (intro endpoint_host_line [OF pv(1,2) v(2)])
    then show ?thesis using endpoint_host_line [OF True v nb, of ls] by simp
  qed
qed simp

lemma pin_accepted:
  assumes "accepts (scan None (split_on CHR 0x0A config))"
  shows "accepts (scan None (split_on CHR 0x0A (pinWireguardEndpoint config resolve)))"
  unfolding pin_lines using assms by (rule scan_map [rotated]) (rule pin_line_ok)

lemma ip_dns_value: "isIPv4 ip \<Longrightarrow> value_ok ''dns'' (trim ip)"
proof -
  assume ip: "isIPv4 ip"
  then have t: "trim ip = ip" using isIPv4_no_ws by (intro trim_no_ws) blast
  have "CHR '','' \<notin> set ip" using isIPv4_chars [OF ip, of "CHR '',''"] by (auto simp: class_defs)
  moreover have "ip @ [] \<in> lang WG_HOST_OR_CIDR"
    unfolding WG_HOST_OR_CIDR_def
    using host_lang [OF isIPv4_host_chars [OF ip] isIPv4_nonempty [OF ip]] by (intro lang_SeqI) simp_all
  ultimately show ?thesis
    by (simp add: dns_value t assertWgListValue_def split_on_absent rx_test_correct Let_def)
qed

lemma replace_accepted:
  assumes "accepts (scan None (split_on CHR 0x0A config))" and "isIPv4 ip"
  shows "accepts (scan None (split_on CHR 0x0A (replaceDnsLines config ip)))"
  using assms by (intro replace_dns_accepted ip_dns_value dns_interface dns_peer isIPv4_no_newline)

lemma strip_accepted:
  assumes "accepts (scan None (split_on CHR 0x0A config))"
  shows "accepts (scan None (split_on CHR 0x0A (stripDnsLines config)))"
proof (cases "filter (\<lambda>line. \<not> is_dns_line line) (split_on CHR 0x0A config) = []")
  case True
  have "line_ok allow value_ok s []" for s by (simp add: line_ok_def skippable_def trim_no_ws)
  with True show ?thesis by (simp add: stripDnsLines_def scan_Cons scan_Nil)
next
  case False
  then have "split_on CHR 0x0A (stripDnsLines config) =
      filter (\<lambda>line. \<not> is_dns_line line) (split_on CHR 0x0A config)"
    unfolding stripDnsLines_def by (rule split_on_join) (auto dest: split_on_no_sep)
  then show ?thesis using filter_no_dns [OF assms] by simp
qed

end

interpretation wgt: tunnel_guard wg_scan wg_allow wg_value_ok
  by unfold_locales (auto simp: wg_value_ok_def assertSafeWireguardValue_def wg_allow_def
      WG_INTERFACE_KEYS_def WG_PEER_KEYS_def Let_def)

interpretation awgt: tunnel_guard awg_scan awg_allow awg_value_ok
  by unfold_locales (auto simp: awg_value_wg wg_value_ok_def assertSafeWireguardValue_def awg_allow_def
      AWG_INTERFACE_KEYS_def WG_INTERFACE_KEYS_def WG_PEER_KEYS_def Let_def)

end
