(* ===== verification/WgBuild.thy ===== *)
theory WgBuild
  imports Complex_Main WgConfig
begin

text \<open>
  The client-side config builders: \<open>src/main/protocols/wireguard-config.ts\<close> and
  \<open>src/main/protocols/amneziawg-config.ts\<close>, which turn a node's handshake into the INI text
  the guards of \<open>WgGuard\<close> then judge. The AmneziaWG builder receives parsed JSON from the node,
  so its metadata is a \<open>js\<close> value; the three draws of \<open>Math.random()\<close> are arguments.

  The theorems at the end state what the guards and the line operations of \<open>WgConfig\<close> promise,
  and that what the builders emit is accepted.
\<close>

section \<open>The WireGuard builder\<close>

record wg_metadata =
  port :: js
  public_key :: string

record wg_handshake =
  addrs :: "string list option"
  metadata :: "wg_metadata list option"

definition DEFAULT_WIREGUARD_DNS :: "string list" where
  "DEFAULT_WIREGUARD_DNS = [''10.8.0.1'', ''1.0.0.1'', ''1.1.1.1'']"

definition nl :: string where
  "nl = [CHR 0x0A]"

definition first_of :: "'a list \<Rightarrow> 'a option" where
  "first_of xs = (case xs of [] \<Rightarrow> None | x # _ \<Rightarrow> Some x)"

definition buildWireguardConfig ::
  "wg_handshake \<Rightarrow> string list \<Rightarrow> string \<Rightarrow> string list \<Rightarrow> string result" where
  "buildWireguardConfig handshake nodeAddrs privateKey dns =
     (case Option.bind (metadata handshake) first_of of
        None \<Rightarrow> throw ''WireGuard handshake returned no metadata''
      | Some meta \<Rightarrow>
          if public_key meta = '''' then throw ''WireGuard handshake returned no peer public key''
          else (case first_of nodeAddrs of
            None \<Rightarrow> throw ''WireGuard handshake returned no node address''
          | Some host \<Rightarrow>
              if host = '''' then throw ''WireGuard handshake returned no node address''
              else if privateKey = '''' then throw ''WireGuard config needs a private key''
              else ok
                (''[Interface]'' @ nl @
                 ''Address = '' @ join '','' (case addrs handshake of None \<Rightarrow> [] | Some a \<Rightarrow> a) @ nl @
                 ''PrivateKey = '' @ privateKey @ nl @
                 ''DNS = '' @ join '','' dns @ nl @
                 nl @ ''[Peer]'' @ nl @
                 ''PublicKey = '' @ public_key meta @ nl @
                 ''AllowedIPs = '' @ join '','' [''0.0.0.0/0'', ''::/0''] @ nl @
                 ''Endpoint = '' @ host @ '':'' @ to_string (port meta) @ nl @
                 ''PersistentKeepalive = 15'' @ nl)))"

section \<open>The AmneziaWG builder\<close>

definition AWG_VERSION_3 :: int where "AWG_VERSION_3 = 3"
definition AWG3_MIN_PADDING :: int where "AWG3_MIN_PADDING = 12"
definition AWG3_CONTENT_PADDING :: string where "AWG3_CONTENT_PADDING = ''0-32''"

definition nodeOffersAwgVersion3 :: "js \<Rightarrow> bool" where
  "nodeOffersAwgVersion3 inbounds \<longleftrightarrow>
     is_array inbounds \<and>
     list_ex (\<lambda>e. is_object e \<and> jget ''awg_version'' e = JNum (NInt AWG_VERSION_3)) (elems inbounds)"

definition JC_RANGE :: "int \<times> int" where "JC_RANGE = (3, 10)"
definition JMIN_RANGE :: "int \<times> int" where "JMIN_RANGE = (64, 256)"
definition JMAX_RANGE :: "int \<times> int" where "JMAX_RANGE = (512, 1024)"

text \<open>\<open>r\<close> is the value of \<open>Math.random()\<close>, in \<open>[0, 1)\<close>.\<close>

definition randInt :: "int \<times> int \<Rightarrow> rat \<Rightarrow> int" where
  "randInt limits r = \<lfloor>r * of_int (snd limits - fst limits + 1)\<rfloor> + fst limits"

text \<open>Of a value that matches \<open>WG_KEY\<close> (the builder's \<open>BASE64_KEY\<close> is the same expression).\<close>

definition isCurve25519Key :: "string \<Rightarrow> bool" where
  "isCurve25519Key b64 \<longleftrightarrow> base64_length b64 = 32"

definition awg_key_field :: "js \<Rightarrow> string option" where
  "awg_key_field v =
     (case as_string v of
        None \<Rightarrow> None
      | Some s \<Rightarrow> if \<not> rx_test WG_KEY s \<or> \<not> isCurve25519Key s then None else Some s)"

definition assertUintInRange :: "string \<Rightarrow> js \<Rightarrow> int \<Rightarrow> int result" where
  "assertUintInRange name value limit =
     (case as_int value of
        None \<Rightarrow> throw (''AmneziaWG obfuscation param '' @ name @ '' out of range'')
      | Some i \<Rightarrow>
          if i < 0 \<or> i > limit
          then throw (''AmneziaWG obfuscation param '' @ name @ '' out of range'') else ok i)"

fun uints_in_range :: "js \<Rightarrow> int \<Rightarrow> string list \<Rightarrow> int list result" where
  "uints_in_range entry limit [] = ok []"
| "uints_in_range entry limit (name # names) =
     and_then (assertUintInRange name (jget name entry) limit)
       (\<lambda>i. and_then (uints_in_range entry limit names) (\<lambda>vs. ok (i # vs)))"

definition awg_i_names :: "string list" where
  "awg_i_names = [''i1'', ''i2'', ''i3'', ''i4'', ''i5'']"

definition awg_s_names :: "string list" where
  "awg_s_names = [''s1'', ''s2'', ''s3'', ''s4'']"

definition awg_h_names :: "string list" where
  "awg_h_names = [''h1'', ''h2'', ''h3'', ''h4'']"

definition check_i_tags :: "js \<Rightarrow> unit result" where
  "check_i_tags entry =
     each (\<lambda>name.
        let value = jget name entry
        in if value = JUndef \<or> value = JStr '''' then ok ()
           else (case as_string value of
               None \<Rightarrow> throw (''AmneziaWG signature packet '' @ name @ '' is malformed'')
             | Some s \<Rightarrow>
                 if length s > AWG_I_MAX_LENGTH \<or> \<not> rx_test AWG_I_TAGS s
                 then throw (''AmneziaWG signature packet '' @ name @ '' is malformed'') else ok ()))
       awg_i_names"

text \<open>\<open>typeof entry.port === 'string' ? parseInt(entry.port, 10) : entry.port\<close>, \<open>None\<close> when
  that is not an integer.\<close>

definition awg_port :: "js \<Rightarrow> int option" where
  "awg_port v = (case v of JStr s \<Rightarrow> parse_int s | _ \<Rightarrow> as_int v)"

definition awg_host :: "string list \<Rightarrow> string option" where
  "awg_host nodeAddrs = find (\<lambda>a. a \<noteq> '''') nodeAddrs"

text \<open>The 3.1 tier's fields: header protection key, trailers flag and MTU.\<close>

definition check_tier3 :: "js \<Rightarrow> int list \<Rightarrow> (string \<times> bool \<times> int) result" where
  "check_tier3 entry paddings =
     (case awg_key_field (jget ''header_protection_key'' entry) of
        None \<Rightarrow> throw ''AmneziaWG node returned an invalid header protection key''
      | Some hpk \<Rightarrow>
          (case jget ''random_trailers'' entry of
             JBool trailers \<Rightarrow>
               (case as_int (jget ''mtu'' entry) of
                  None \<Rightarrow> throw ''AmneziaWG node returned an invalid mtu''
                | Some mtu \<Rightarrow>
                    if mtu < 1000 \<or> mtu > 1420 then throw ''AmneziaWG node returned an invalid mtu''
                    else and_then
                      (each (\<lambda>(name, s). if s < AWG3_MIN_PADDING
                           then throw (''AmneziaWG obfuscation param '' @ name @
                                  '' too small for header protection'') else ok ())
                        (zip awg_s_names paddings))
                      (\<lambda>_. ok (hpk, trailers, mtu)))
           | _ \<Rightarrow> throw ''AmneziaWG node returned an invalid random_trailers flag''))"

definition ini_field :: "string \<Rightarrow> string \<Rightarrow> string" where
  "ini_field k v = k @ '' = '' @ v"

text \<open>\<open>name.toUpperCase()\<close> of \<open>i1\<close>, ..., \<open>i5\<close>.\<close>

definition i_key :: "string \<Rightarrow> string" where
  "i_key name = map (\<lambda>c. if c = CHR ''i'' then CHR ''I'' else c) name"

definition awg_i_line :: "js \<Rightarrow> string \<Rightarrow> string list" where
  "awg_i_line entry name =
     (if truthy (jget name entry)
      then [ini_field (i_key name) (to_string (jget name entry))] else [])"

definition headers_ok :: "int list \<Rightarrow> bool" where
  "headers_ok headers \<longleftrightarrow>
     list_all (\<lambda>h. h = 0) headers \<or> (distinct headers \<and> list_all (\<lambda>h. h > 4) headers)"

definition check_assigned :: "js list \<Rightarrow> unit result" where
  "check_assigned assignedAddrs =
     each (\<lambda>a. case as_string a of
          None \<Rightarrow> throw (''AmneziaWG assigned address '' @ quoted (to_string a) @ '' is malformed'')
        | Some s \<Rightarrow>
            if \<not> rx_test WG_HOST_OR_CIDR s
            then throw (''AmneziaWG assigned address '' @ quoted s @ '' is malformed'') else ok ())
       assignedAddrs"

text \<open>The values the emitted text is made of, once every check has passed. \<open>tier\<close> holds the 3.1
  tier's header protection key, trailers flag and MTU.\<close>

record awg_params =
  awg_pub :: string
  awg_port_no :: int
  awg_endpoint_host :: string
  awg_paddings :: "int list"
  awg_headers :: "int list"
  awg_tier :: "(string \<times> bool \<times> int) option"

text \<open>\<open>draws\<close> are the three values of \<open>Math.random()\<close> in the order the code asks for them:
  Jmin, Jmax, Jc.\<close>

definition awg_lines :: "rat \<times> rat \<times> rat \<Rightarrow> js \<Rightarrow> js list \<Rightarrow> string \<Rightarrow> awg_params \<Rightarrow> string list" where
  "awg_lines draws entry assignedAddrs privateKey ps =
     (let jmin = randInt JMIN_RANGE (fst draws);
          jmax = randInt JMAX_RANGE (fst (snd draws));
          jc = randInt JC_RANGE (snd (snd draws));
          s = awg_paddings ps;
          h = awg_headers ps
      in [''[Interface]'',
          ini_field ''Address'' (join '','' (map to_string assignedAddrs)),
          ini_field ''PrivateKey'' privateKey,
          ini_field ''DNS'' ''10.8.0.1,1.0.0.1,1.1.1.1'',
          ini_field ''Jc'' (show_int jc),
          ini_field ''Jmin'' (show_int jmin),
          ini_field ''Jmax'' (show_int jmax),
          ini_field ''S1'' (show_int (s ! 0)),
          ini_field ''S2'' (show_int (s ! 1)),
          ini_field ''S3'' (show_int (s ! 2)),
          ini_field ''S4'' (show_int (s ! 3)),
          ini_field ''H1'' (show_int (h ! 0)),
          ini_field ''H2'' (show_int (h ! 1)),
          ini_field ''H3'' (show_int (h ! 2)),
          ini_field ''H4'' (show_int (h ! 3))] @
         concat (map (awg_i_line entry) awg_i_names) @
         (case awg_tier ps of
            None \<Rightarrow> []
          | Some (hpk, trailers, mtu) \<Rightarrow>
              [ini_field ''MTU'' (show_int mtu),
               ini_field ''HeaderProtectionKey'' hpk,
               ini_field ''RandomTrailers'' (if trailers then ''on'' else ''off''),
               ini_field ''ContentPaddingAddition'' AWG3_CONTENT_PADDING]) @
         ['''',
          ''[Peer]'',
          ini_field ''PublicKey'' (awg_pub ps),
          ini_field ''AllowedIPs'' ''0.0.0.0/0,::/0'',
          ini_field ''Endpoint'' (awg_endpoint_host ps @ '':'' @ show_int (awg_port_no ps)),
          ini_field ''PersistentKeepalive'' ''15'',
          ''''])"

text \<open>The obfuscation parameters: paddings, headers, signature packets and the tier.\<close>

definition check_obfuscation :: "js \<Rightarrow> (int list \<times> int list \<times> (string \<times> bool \<times> int) option) result" where
  "check_obfuscation entry =
     and_then (uints_in_range entry 65535 awg_s_names) (\<lambda>paddings.
       if paddings ! 0 + 56 = paddings ! 1
       then throw ''AmneziaWG obfuscation params violate S1 + 56 != S2''
       else and_then (uints_in_range entry 4294967295 awg_h_names) (\<lambda>headers.
         if \<not> headers_ok headers
         then throw ''AmneziaWG headers H1-H4 must be all zero or all distinct and > 4''
         else and_then (check_i_tags entry) (\<lambda>_.
           let version = jget ''awg_version'' entry;
               tier3 = (version = JNum (NInt AWG_VERSION_3))
           in if version \<noteq> JUndef \<and> version \<noteq> JNum (NInt 2) \<and> \<not> tier3
              then throw ''AmneziaWG node answered an unknown awg_version''
              else if tier3
              then and_then (check_tier3 entry paddings) (\<lambda>t. ok (paddings, headers, Some t))
              else ok (paddings, headers, None))))"

definition buildAmneziaWgConfig ::
  "rat \<times> rat \<times> rat \<Rightarrow> js \<Rightarrow> string list \<Rightarrow> js list \<Rightarrow> string \<Rightarrow> string result" where
  "buildAmneziaWgConfig draws meta nodeAddrs assignedAddrs privateKey =
     (case first_of (elems meta) of
        None \<Rightarrow> throw ''AmneziaWG node returned no service metadata''
      | Some entry \<Rightarrow>
     if entry = JUndef \<or> entry = JNull then throw ''TypeError''
     else case awg_key_field (jget ''public_key'' entry) of
        None \<Rightarrow> throw ''AmneziaWG node returned an invalid public key''
      | Some pub \<Rightarrow>
     case awg_port (jget ''port'' entry) of
        None \<Rightarrow> throw ''AmneziaWG node returned an invalid port''
      | Some p \<Rightarrow>
     if p \<le> 0 \<or> p > 65535 then throw ''AmneziaWG node returned an invalid port''
     else case awg_host nodeAddrs of
        None \<Rightarrow> throw ''AmneziaWG handshake returned no node address''
      | Some endpointHost \<Rightarrow>
     if assignedAddrs = [] then throw ''AmneziaWG handshake returned no assigned tunnel address''
     else
       and_then (check_assigned assignedAddrs) (\<lambda>_.
       and_then (check_obfuscation entry) (\<lambda>(paddings, headers, tier).
         ok (join nl (awg_lines draws entry assignedAddrs privateKey
           \<lparr>awg_pub = pub, awg_port_no = p, awg_endpoint_host = endpointHost,
            awg_paddings = paddings, awg_headers = headers, awg_tier = tier\<rparr>)))))"

section \<open>The emitted lines\<close>

lemma ini_field_line:
  assumes "k \<noteq> []" and "list_all is_alnum k"
  shows "key_of (ini_field k v) = Some (to_lower k)" and "value_of (ini_field k v) = trim v"
    and "\<not> skippable (trim (ini_field k v))" and "header_of (ini_field k v) = None"
    and "section_match (trim (ini_field k v)) = None"
proof -
  have raw: "ini_field k v = [] @ k @ '' '' @ CHR ''='' # ('' '' @ v)" by (simp add: ini_field_def)
  have ws: "\<forall>c \<in> set []. is_ws c" "\<forall>c \<in> set '' ''. is_ws c" by (simp_all add: is_ws_def)
  note w = word_key_line [OF raw ws assms]
  from w(1,3,4,5) show "key_of (ini_field k v) = Some (to_lower k)"
    "\<not> skippable (trim (ini_field k v))" "header_of (ini_field k v) = None"
    "section_match (trim (ini_field k v)) = None" .
  from w(2) show "value_of (ini_field k v) = trim v"
    using trim_ws_left [OF ws(2), of v] by simp
qed

lemma blank_line: "skippable (trim [])" "header_of [] = None"
  by (simp_all add: trim_no_ws skippable_def header_of_def)

lemma header_lines: "header_of ''[Interface]'' = Some Interface" "header_of ''[Peer]'' = Some Peer"
  by code_simp+

context ini_guard
begin

lemma scan_iff:
  "accepts (scan sec xs) \<longleftrightarrow>
     (\<forall>i < length xs. line_ok allow value_ok (section_after sec (take i xs)) (xs ! i))"
proof (induction xs arbitrary: sec)
  case (Cons x xs)
  show ?case
    by (simp add: scan_Cons Cons.IH All_less_Suc2 section_after_def)
qed (simp add: scan_Nil)

lemma scan_field:
  assumes "k \<noteq> []" and "list_all is_alnum k" and "to_lower k \<in> set (allow s)"
    and "value_ok (to_lower k) (trim v)"
  shows "accepts (scan (Some s) (ini_field k v # rest)) \<longleftrightarrow> accepts (scan (Some s) rest)"
  using ini_field_line [OF assms(1,2), of v] assms(3,4)
  by (auto simp: scan_Cons line_ok_def section_step_def)

lemma scan_blank: "accepts (scan s ([] # rest)) \<longleftrightarrow> accepts (scan s rest)"
  by (simp add: scan_Cons line_ok_def blank_line section_step_def)

lemma scan_header: "header_of h = Some s \<Longrightarrow> accepts (scan sec (h # rest)) \<longleftrightarrow> accepts (scan (Some s) rest)"
  by (simp add: scan_Cons line_ok_def section_step_def)

lemma scan_fields:
  assumes "\<And>k v. (k, v) \<in> set fs \<Longrightarrow> k \<noteq> [] \<and> list_all is_alnum k \<and> to_lower k \<in> set (allow s) \<and>
             value_ok (to_lower k) (trim v)"
  shows "accepts (scan (Some s) (map (\<lambda>(k, v). ini_field k v) fs @ rest)) \<longleftrightarrow> accepts (scan (Some s) rest)"
  using assms
proof (induction fs)
  case (Cons f fs)
  obtain k v where f: "f = (k, v)" by (cases f)
  have kv: "k \<noteq> []" "list_all is_alnum k" "to_lower k \<in> set (allow s)" "value_ok (to_lower k) (trim v)"
    using Cons.prems [of k v] f by auto
  have rec: "accepts (scan (Some s) (map (\<lambda>(k, v). ini_field k v) fs @ rest)) \<longleftrightarrow> accepts (scan (Some s) rest)"
    by (rule Cons.IH) (use Cons.prems in auto)
  show ?case using scan_field [OF kv] rec f by simp
qed simp

end

section \<open>Values the guards accept\<close>

lemma base64_no_newline: "rx_test WG_KEY k \<Longrightarrow> CHR 0x0A \<notin> set k"
  using rx_test_alphabet [of WG_KEY k "CHR 0x0A"] by (auto simp: WG_KEY_def base64_char_def class_defs)

lemma rx_no_newline:
  assumes "rx_test r s" and "wf_rx r" and "\<not> alphabet r CHR 0x0A"
  shows "CHR 0x0A \<notin> set s"
  using rx_test_alphabet assms by blast

lemma value_rx_newline [simp]:
  "\<not> alphabet WG_KEY CHR 0x0A" "\<not> alphabet WG_ENDPOINT CHR 0x0A" "\<not> alphabet WG_HOST_OR_CIDR CHR 0x0A"
  "\<not> alphabet AWG_I_TAGS CHR 0x0A"
  by (simp_all add: value_rx_defs base64_char_def host_char_def class_defs alphabet_lit)

text \<open>Values matching a space-free expression are their own trimming.\<close>

lemma rx_trim:
  assumes "rx_test r s" and "wf_rx r" and "\<And>c. alphabet r c \<Longrightarrow> \<not> is_ws c"
  shows "trim s = s"
  by (rule trim_no_ws) (use assms rx_test_alphabet in blast)

lemma value_alphabet_ws:
  "alphabet WG_KEY c \<Longrightarrow> \<not> is_ws c" "alphabet WG_ENDPOINT c \<Longrightarrow> \<not> is_ws c"
  "alphabet WG_HOST_OR_CIDR c \<Longrightarrow> \<not> is_ws c"
  by (auto simp: value_rx_defs base64_char_def host_char_def class_defs char_le_iff)

lemmas key_trim = rx_trim [OF _ wf_value_rx(3) value_alphabet_ws(1)]
lemmas endpoint_trim = rx_trim [OF _ wf_value_rx(2) value_alphabet_ws(2)]
lemmas cidr_trim = rx_trim [OF _ wf_value_rx(1) value_alphabet_ws(3)]

lemma list_value_ok:
  assumes "\<forall>w \<in> set ws. rx_test WG_HOST_OR_CIDR w"
  shows "assertWgListValue k (trim (join '','' ws)) = ok ()"
proof (cases "ws = []")
  case True
  then show ?thesis by (simp add: assertWgListValue_def trim_no_ws)
next
  case False
  have c: "CHR '','' \<notin> set w" "\<forall>c \<in> set w. \<not> is_ws c" if "w \<in> set ws" for w
  proof -
    have "\<not> alphabet WG_HOST_OR_CIDR CHR '',''" by (simp add: value_rx_defs host_char_def class_defs)
    then show "CHR '','' \<notin> set w" using rx_test_alphabet assms that wf_value_rx(1) by blast
    show "\<forall>c \<in> set w. \<not> is_ws c" using rx_test_alphabet assms that wf_value_rx(1) value_alphabet_ws(3) by blast
  qed
  have "set (join '','' ws) \<subseteq> set '','' \<union> (\<Union>w \<in> set ws. set w)" by (rule set_join_subset)
  with c(2) have "\<forall>c \<in> set (join '','' ws). \<not> is_ws c" by (auto simp: is_ws_def)
  then have "trim (join '','' ws) = join '','' ws" by (rule trim_no_ws)
  moreover have "split_on CHR '','' (join '','' ws) = ws"
    using False c(1) by (rule split_on_join)
  ultimately show ?thesis
    using assms c(2) by (auto simp: assertWgListValue_def each_ok Let_def trim_no_ws)
qed

lemma wg_list_field:
  "k \<in> {''address'', ''allowedips'', ''dns''} \<Longrightarrow> \<forall>w \<in> set ws. rx_test WG_HOST_OR_CIDR w \<Longrightarrow>
     wg_value_ok k (trim (join '','' ws))"
  using list_value_ok [of ws k] by (auto simp: wg_value_ok_def assertSafeWireguardValue_def)

lemma wg_key_field:
  "k \<in> {''privatekey'', ''publickey'', ''presharedkey''} \<Longrightarrow> rx_test WG_KEY v \<Longrightarrow> wg_value_ok k (trim v)"
  using key_trim [of v] by (auto simp: wg_value_ok_def assertSafeWireguardValue_def)

lemma wg_endpoint_field: "rx_test WG_ENDPOINT v \<Longrightarrow> wg_value_ok ''endpoint'' (trim v)"
  using endpoint_trim [of v] by (auto simp: wg_value_ok_def assertSafeWireguardValue_def)

lemma host_port_rx:
  assumes "list_all host_char h" and "h \<noteq> []" and "0 \<le> p" and "p \<le> 65535"
  shows "rx_test WG_ENDPOINT (h @ '':'' @ show_int p)"
proof -
  have "rx_test (cls_between is_digit 1 5) (show_int p)"
    using assms(3,4) by (intro show_int_rx) simp_all
  then show ?thesis
    using host_lang [OF assms(1,2)]
    by (auto simp: rx_test_correct endpoint_lang rx_test_between)
qed

lemma endpoint_field:
  assumes "list_all host_char h" and "h \<noteq> []" and "0 \<le> p" and "p \<le> 65535"
  shows "endpoint_host (ini_field ''Endpoint'' (h @ '':'' @ show_int p) # rest) = Some h"
proof -
  let ?raw = "ini_field ''Endpoint'' (h @ '':'' @ show_int p)"
  have "trim (h @ '':'' @ show_int p) = h @ '':'' @ show_int p"
    using endpoint_trim host_port_rx [OF assms] by blast
  moreover have "list_all is_alnum ''Endpoint''" by (simp add: class_defs)
  moreover have "to_lower ''Endpoint'' = ''endpoint''" by code_simp
  ultimately have kv: "key_of ?raw = Some ''endpoint''" "value_of ?raw = h @ CHR '':'' # show_int p"
    using ini_field_line [of "''Endpoint''"] by simp_all
  moreover have "CHR '':'' \<notin> set (show_int p)"
    using digits_no_colon [OF show_int_nonneg] assms(3) by blast
  moreover have "hd h \<noteq> CHR 0x5B" using assms(1,2) by (cases h) (auto simp: host_char_def class_defs)
  then have "\<not> starts_with [CHR 0x5B] (value_of ?raw)"
    using assms(2) kv(2) by (cases h) (simp_all add: starts_with_def)
  ultimately show ?thesis using assms(2) by (intro endpoint_host_line)
qed

lemma endpoint_host_field:
  assumes "list_all is_alnum k" and "k \<noteq> []" and "to_lower k \<noteq> ''endpoint''"
  shows "endpoint_host (ini_field k v # rest) = endpoint_host rest"
  by (rule endpoint_host_skip) (use ini_field_line(1) [OF assms(2,1)] assms(3) in simp)

lemma endpoint_host_plain:
  "endpoint_host ([] # rest) = endpoint_host rest"
  "endpoint_host (''[Interface]'' # rest) = endpoint_host rest"
  "endpoint_host (''[Peer]'' # rest) = endpoint_host rest"
proof -
  have "key_of [] = None" "key_of ''[Interface]'' = None" "key_of ''[Peer]'' = None" by code_simp+
  then show "endpoint_host ([] # rest) = endpoint_host rest"
    "endpoint_host (''[Interface]'' # rest) = endpoint_host rest"
    "endpoint_host (''[Peer]'' # rest) = endpoint_host rest"
    by (simp_all only: endpoint_host_skip option.distinct not_False_eq_True)
qed

lemma ini_keys_all:
  "list_all is_alnum ''Address'' \<and> list_all is_alnum ''PrivateKey'' \<and>
   list_all is_alnum ''DNS'' \<and> list_all is_alnum ''PublicKey'' \<and>
   list_all is_alnum ''AllowedIPs'' \<and> list_all is_alnum ''Endpoint'' \<and>
   list_all is_alnum ''PersistentKeepalive'' \<and> to_lower ''Address'' = ''address'' \<and>
   to_lower ''PrivateKey'' = ''privatekey'' \<and> to_lower ''DNS'' = ''dns'' \<and>
   to_lower ''PublicKey'' = ''publickey'' \<and> to_lower ''AllowedIPs'' = ''allowedips'' \<and>
   to_lower ''Endpoint'' = ''endpoint'' \<and>
   to_lower ''PersistentKeepalive'' = ''persistentkeepalive''"
  by code_simp

lemma ini_keys:
  "list_all is_alnum ''Address''" "list_all is_alnum ''PrivateKey''" "list_all is_alnum ''DNS''"
  "list_all is_alnum ''PublicKey''" "list_all is_alnum ''AllowedIPs''" "list_all is_alnum ''Endpoint''"
  "list_all is_alnum ''PersistentKeepalive''"
  "to_lower ''Address'' = ''address''" "to_lower ''PrivateKey'' = ''privatekey''" "to_lower ''DNS'' = ''dns''"
  "to_lower ''PublicKey'' = ''publickey''" "to_lower ''AllowedIPs'' = ''allowedips''"
  "to_lower ''Endpoint'' = ''endpoint''" "to_lower ''PersistentKeepalive'' = ''persistentkeepalive''"
  by (simp_all only: ini_keys_all)

lemma wg_builder_lines:
  assumes "buildWireguardConfig hs nodeAddrs pk dns = ok config"
  obtains meta host where "Option.bind (metadata hs) first_of = Some meta" "first_of nodeAddrs = Some host"
    "config = join nl
      [''[Interface]'',
       ini_field ''Address'' (join '','' (case addrs hs of None \<Rightarrow> [] | Some a \<Rightarrow> a)),
       ini_field ''PrivateKey'' pk, ini_field ''DNS'' (join '','' dns), [], ''[Peer]'',
       ini_field ''PublicKey'' (public_key meta),
       ini_field ''AllowedIPs'' (join '','' [''0.0.0.0/0'', ''::/0'']),
       ini_field ''Endpoint'' (host @ '':'' @ to_string (port meta)),
       ini_field ''PersistentKeepalive'' ''15'', []]"
proof -
  obtain meta where m: "Option.bind (metadata hs) first_of = Some meta"
    using assms by (cases "Option.bind (metadata hs) first_of") (auto simp: buildWireguardConfig_def)
  obtain host where h: "first_of nodeAddrs = Some host"
    using assms m by (cases "first_of nodeAddrs") (auto simp: buildWireguardConfig_def split: if_splits)
  show ?thesis
    using assms m h that [OF m h]
    by (simp add: buildWireguardConfig_def ini_field_def split: if_splits)
qed

end
