(* ===== verification/WgAccept.thy ===== *)
theory WgAccept
  imports WgBuild
begin

text \<open>
  What \<open>buildAmneziaWgConfig\<close> (\<open>src/main/protocols/amneziawg-config.ts\<close>) emits, line by line, and
  that the guard accepts each line. The property this leads to is in \<open>WgProps\<close>.
\<close>

section \<open>What a returned config was built from\<close>

lemma randInt_bounds:
  assumes "fst r \<le> snd r" and "0 \<le> x" and "x < 1"
  shows "fst r \<le> randInt r x \<and> randInt r x \<le> snd r"
proof -
  let ?n = "of_int (snd r - fst r + 1) :: rat"
  have n: "0 < ?n" using assms(1) by simp
  then have "0 \<le> x * ?n" "x * ?n < ?n" using assms(2,3) by (simp_all add: mult_less_cancel_right1)
  then have "0 \<le> \<lfloor>x * ?n\<rfloor>" "\<lfloor>x * ?n\<rfloor> < snd r - fst r + 1" by (simp_all only: floor_less_iff zero_le_floor)
  then show ?thesis unfolding randInt_def by linarith
qed

lemma uints_in_range_ok:
  "uints_in_range entry limit names = Inr vs \<Longrightarrow>
     length vs = length names \<and> (\<forall>v \<in> set vs. 0 \<le> v \<and> v \<le> limit)"
proof (induction names arbitrary: vs)
  case (Cons name names)
  then show ?case
    by (auto simp: and_then_eq_ok assertUintInRange_def split: option.splits if_splits)
qed simp

lemma check_assigned_ok:
  "check_assigned as = Inr () \<Longrightarrow> \<exists>ss. as = map JStr ss \<and> (\<forall>s \<in> set ss. rx_test WG_HOST_OR_CIDR s)"
proof (induction as)
  case (Cons a as)
  then obtain ss where "as = map JStr ss" "\<forall>s \<in> set ss. rx_test WG_HOST_OR_CIDR s"
    by (auto simp: check_assigned_def and_then_eq_ok)
  moreover obtain s where "a = JStr s" "rx_test WG_HOST_OR_CIDR s"
    using Cons.prems by (cases a) (auto simp: check_assigned_def and_then_eq_ok split: if_splits)
  ultimately show ?case by (intro exI [of _ "s # ss"]) simp
qed simp

lemma check_tier3_ok:
  "check_tier3 entry paddings = Inr (hpk, t, mtu) \<Longrightarrow>
     rx_test WG_KEY hpk \<and> base64_length hpk = 32 \<and> 1000 \<le> mtu \<and> mtu \<le> 1420"
  by (auto simp: check_tier3_def awg_key_field_def isCurve25519Key_def and_then_eq_ok
      split: option.splits js.splits if_splits)

lemma check_obfuscation_ok:
  assumes "check_obfuscation entry = Inr (paddings, headers, tier)"
  shows "uints_in_range entry 65535 awg_s_names = Inr paddings" and "paddings ! 0 + 56 \<noteq> paddings ! 1"
    and "uints_in_range entry 4294967295 awg_h_names = Inr headers" and "headers_ok headers"
    and "check_i_tags entry = Inr ()"
    and "\<And>hpk t mtu. tier = Some (hpk, t, mtu) \<Longrightarrow> check_tier3 entry paddings = Inr (hpk, t, mtu)"
  using assms by (auto simp: check_obfuscation_def and_then_eq_ok Let_def split: if_splits)

lemma awg_builder_cases:
  assumes "buildAmneziaWgConfig draws meta nodeAddrs assigned pk = ok config"
  obtains entry ps where "first_of (elems meta) = Some entry"
    "rx_test WG_KEY (awg_pub ps)" "0 < awg_port_no ps" "awg_port_no ps \<le> 65535"
    "awg_host nodeAddrs = Some (awg_endpoint_host ps)" "check_assigned assigned = Inr ()"
    "check_obfuscation entry = Inr (awg_paddings ps, awg_headers ps, awg_tier ps)"
    "config = join nl (awg_lines draws entry assigned pk ps)"
proof -
  obtain entry where e: "first_of (elems meta) = Some entry" "entry \<noteq> JUndef" "entry \<noteq> JNull"
    using assms by (cases "first_of (elems meta)") (auto simp: buildAmneziaWgConfig_def split: if_splits)
  obtain pub where pub: "awg_key_field (jget ''public_key'' entry) = Some pub"
    using assms e by (cases "awg_key_field (jget ''public_key'' entry)") (auto simp: buildAmneziaWgConfig_def)
  obtain p where p: "awg_port (jget ''port'' entry) = Some p" "0 < p" "p \<le> 65535"
    using assms e pub by (cases "awg_port (jget ''port'' entry)") (auto simp: buildAmneziaWgConfig_def split: if_splits)
  obtain host where host: "awg_host nodeAddrs = Some host"
    using assms e pub p by (cases "awg_host nodeAddrs") (auto simp: buildAmneziaWgConfig_def split: if_splits)
  obtain paddings headers tier where
    r: "check_assigned assigned = Inr ()" "check_obfuscation entry = Inr (paddings, headers, tier)"
    and c: "config = join nl (awg_lines draws entry assigned pk
           \<lparr>awg_pub = pub, awg_port_no = p, awg_endpoint_host = host,
            awg_paddings = paddings, awg_headers = headers, awg_tier = tier\<rparr>)"
    using assms e pub p host by (auto simp: buildAmneziaWgConfig_def and_then_eq_ok split: if_splits)
  from pub have "rx_test WG_KEY pub" by (auto simp: awg_key_field_def split: option.splits if_splits)
  with e p host r c show ?thesis
    by (intro that [of entry "\<lparr>awg_pub = pub, awg_port_no = p, awg_endpoint_host = host,
            awg_paddings = paddings, awg_headers = headers, awg_tier = tier\<rparr>"]) simp_all
qed

section \<open>Its values, as the guard sees them\<close>

lemma awg_field_wg:
  "k \<in> set (WG_INTERFACE_KEYS @ WG_PEER_KEYS) \<Longrightarrow> wg_value_ok k v \<Longrightarrow> awg_value_ok k v"
  by (simp only: awg_value_wg)

lemma digits_trim: "list_all is_digit s \<Longrightarrow> trim s = s"
  using is_digit_not_ws by (intro trim_no_ws) (auto simp: list_all_iff)

lemma show_int_trim: "0 \<le> i \<Longrightarrow> trim (show_int i) = show_int i"
  by (simp add: digits_trim show_int_nonneg)

lemma read_show_int: "0 \<le> i \<Longrightarrow> read_nat (show_int i) = nat i"
  by (simp add: show_int_def)

lemma awg_uint16_field:
  "k \<in> set AWG_UINT16_KEYS \<Longrightarrow> 0 \<le> i \<Longrightarrow> i \<le> 65535 \<Longrightarrow> awg_value_ok k (trim (show_int i))"
  using show_int_rx [of i 5]
  by (simp add: awg_value_ok_def assertSafeAmneziaWgValue_def show_int_trim read_show_int nat_le_iff)

lemma awg_uint32_field:
  "k \<in> set AWG_UINT32_KEYS \<Longrightarrow> 0 \<le> i \<Longrightarrow> i \<le> 4294967295 \<Longrightarrow> awg_value_ok k (trim (show_int i))"
  using show_int_rx [of i 10]
  by (auto simp add: awg_value_ok_def assertSafeAmneziaWgValue_def show_int_trim read_show_int nat_le_iff
      AWG_UINT16_KEYS_def AWG_UINT32_KEYS_def)

definition tag_word :: "string \<Rightarrow> bool" where
  "tag_word w \<longleftrightarrow> (\<exists>x. w = CHR ''<'' # x @ [CHR ''>''])"

lemma tag_words_edges:
  "ws \<noteq> [] \<Longrightarrow> \<forall>w \<in> set ws. tag_word w \<Longrightarrow>
     concat ws \<noteq> [] \<and> hd (concat ws) = CHR ''<'' \<and> last (concat ws) = CHR ''>''"
proof (induction ws)
  case (Cons w ws)
  then obtain x where "w = CHR ''<'' # x @ [CHR ''>'']" by (auto simp: tag_word_def)
  with Cons show ?case by (cases "ws = []") auto
qed simp

lemma tag_word_intro:
  "w \<in> lang (Seq (lit (CHR ''<'' # p)) (Seq r (chr CHR ''>''))) \<Longrightarrow> tag_word w"
proof -
  assume "w \<in> lang (Seq (lit (CHR ''<'' # p)) (Seq r (chr CHR ''>'')))"
  then obtain u v where w: "w = (CHR ''<'' # p) @ u @ v" and v: "v \<in> lang (chr CHR ''>'')"
    by (auto simp: lang_lit simp del: lit.simps lang.simps(3))
  from v have "v = [CHR ''>'']" by (cases v) auto
  with w show ?thesis by (auto simp: tag_word_def)
qed

lemma lang_plus: "s \<in> lang (plus r) \<Longrightarrow> \<exists>ws. ws \<noteq> [] \<and> s = concat ws \<and> set ws \<subseteq> lang r"
proof -
  assume "s \<in> lang (plus r)"
  then obtain u ws where "u \<in> lang r" "s = u @ concat ws" "set ws \<subseteq> lang r" by auto
  then show ?thesis by (intro exI [of _ "u # ws"]) simp
qed

lemma i_tag_edges: "rx_test AWG_I_TAGS s \<Longrightarrow> trim s = s"
proof -
  assume "rx_test AWG_I_TAGS s"
  then have "s \<in> lang AWG_I_TAGS" using rx_test_correct wf_value_rx(5) by blast
  then obtain ws where ws: "ws \<noteq> []" "s = concat ws" and sub: "set ws \<subseteq> lang
     (Alt (Seq (lit ''<b 0x'') (Seq (cls_plus is_hex) (chr CHR ''>'')))
     (Alt (Seq (lit ''<r '') (Seq (cls_between is_digit 1 5) (chr CHR ''>'')))
     (Alt (Seq (lit ''<rd '') (Seq (cls_between is_digit 1 5) (chr CHR ''>'')))
     (Alt (Seq (lit ''<rc '') (Seq (cls_between is_digit 1 5) (chr CHR ''>'')))
          (lit ''<t>'')))))"
    unfolding AWG_I_TAGS_def using lang_plus by blast
  have "tag_word ''<t>''" by (simp add: tag_word_def exI [of _ "''t''"])
  then have "\<forall>w \<in> lang (lit ''<t>''). tag_word w" by (simp only: lang_lit) blast
  then have "lang (lit ''<t>'') \<subseteq> Collect tag_word" by blast
  moreover have "lang (Seq (lit (CHR ''<'' # p)) (Seq r (chr CHR ''>''))) \<subseteq> Collect tag_word" for p r
    using tag_word_intro by blast
  ultimately have "set ws \<subseteq> Collect tag_word"
    by (intro order_trans [OF sub]) (simp only: lang.simps(5) Un_least)
  then have "\<forall>w \<in> set ws. tag_word w" by blast
  with ws have "s \<noteq> [] \<and> hd s = CHR ''<'' \<and> last s = CHR ''>''"
    using tag_words_edges by simp
  then show "trim s = s" by (intro trim_edges) (simp_all add: is_ws_def)
qed

lemma awg_i_field:
  assumes "k \<in> set AWG_I_KEYS" and "rx_test AWG_I_TAGS v" and "length v \<le> AWG_I_MAX_LENGTH"
  shows "awg_value_ok k (trim v)"
proof -
  have "k \<notin> set AWG_UINT16_KEYS" "k \<notin> set AWG_UINT32_KEYS"
    using assms(1) by (auto simp: AWG_I_KEYS_def AWG_UINT16_KEYS_def AWG_UINT32_KEYS_def)
  with assms i_tag_edges [OF assms(2)] show ?thesis
    by (simp add: awg_value_ok_def assertSafeAmneziaWgValue_def)
qed

lemma i_keys:
  "list_all is_alnum ''I1''" "list_all is_alnum ''I2''" "list_all is_alnum ''I3''"
  "list_all is_alnum ''I4''" "list_all is_alnum ''I5''"
  "to_lower ''I1'' = ''i1''" "to_lower ''I2'' = ''i2''" "to_lower ''I3'' = ''i3''"
  "to_lower ''I4'' = ''i4''" "to_lower ''I5'' = ''i5''"
  by (simp_all add: to_lower_def lower_char_def class_defs char_of_def bit_0)

lemma i_key_cases:
  assumes "name \<in> set awg_i_names"
  shows "i_key name \<noteq> []" "list_all is_alnum (i_key name)" "to_lower (i_key name) \<in> set (awg_allow Interface)"
    "to_lower (i_key name) \<in> set AWG_I_KEYS" "to_lower (i_key name) \<noteq> ''endpoint''"
    "CHR 0x0A \<notin> set (i_key name)"
proof -
  from assms consider "i_key name = ''I1''" | "i_key name = ''I2''" | "i_key name = ''I3''" |
      "i_key name = ''I4''" | "i_key name = ''I5''"
    by (auto simp: awg_i_names_def i_key_def)
  note * = this
  from * show "i_key name \<noteq> []" by cases simp_all
  from * show "list_all is_alnum (i_key name)" by cases (simp_all only: i_keys)
  from * show "to_lower (i_key name) \<in> set AWG_I_KEYS" by cases (simp_all only: i_keys, simp_all add: AWG_I_KEYS_def)
  then show "to_lower (i_key name) \<in> set (awg_allow Interface)"
    by (auto simp: awg_allow_def AWG_INTERFACE_KEYS_def AWG_I_KEYS_def)
  from * show "to_lower (i_key name) \<noteq> ''endpoint''" by cases (simp_all only: i_keys, simp_all)
  from * show "CHR 0x0A \<notin> set (i_key name)" by cases simp_all
qed

lemma awg_i_line_scan:
  assumes "check_i_tags entry = Inr ()" and "name \<in> set awg_i_names"
  shows "accepts (awg_scan (Some Interface) (awg_i_line entry name @ rest)) \<longleftrightarrow>
           accepts (awg_scan (Some Interface) rest)"
    and "w \<in> set (awg_i_line entry name) \<Longrightarrow> CHR 0x0A \<notin> set w"
    and "endpoint_host (awg_i_line entry name @ rest) = endpoint_host rest"
proof -
  let ?k = "i_key name"
  let ?v = "to_string (jget name entry)"
  note k = i_key_cases [OF assms(2)]
  have v: "rx_test AWG_I_TAGS ?v \<and> length ?v \<le> AWG_I_MAX_LENGTH" if "truthy (jget name entry)"
  proof -
    from assms have "jget name entry = JUndef \<or> jget name entry = JStr [] \<or>
        (\<exists>s. jget name entry = JStr s \<and> rx_test AWG_I_TAGS s \<and> length s \<le> AWG_I_MAX_LENGTH)"
      by (cases "jget name entry") (auto simp: check_i_tags_def each_ok Let_def split: if_splits)
    with that show ?thesis by auto
  qed
  show "accepts (awg_scan (Some Interface) (awg_i_line entry name @ rest)) \<longleftrightarrow>
      accepts (awg_scan (Some Interface) rest)"
    using awg.scan_field [OF k(1,2,3) awg_i_field [OF k(4)]] v by (simp add: awg_i_line_def)
  show "CHR 0x0A \<notin> set w" if "w \<in> set (awg_i_line entry name)"
    using that v k(6) rx_no_newline [of AWG_I_TAGS ?v] by (auto simp: awg_i_line_def ini_field_def split: if_splits)
  show "endpoint_host (awg_i_line entry name @ rest) = endpoint_host rest"
    using endpoint_host_field [OF k(2,1,5)] by (simp add: awg_i_line_def)
qed


lemma awg_keys_all:
  "list_all is_alnum ''Jc'' \<and> list_all is_alnum ''Jmin'' \<and>
   list_all is_alnum ''Jmax'' \<and> list_all is_alnum ''S1'' \<and>
   list_all is_alnum ''S2'' \<and> list_all is_alnum ''S3'' \<and>
   list_all is_alnum ''S4'' \<and> list_all is_alnum ''H1'' \<and>
   list_all is_alnum ''H2'' \<and> list_all is_alnum ''H3'' \<and>
   list_all is_alnum ''H4'' \<and> list_all is_alnum ''MTU'' \<and>
   list_all is_alnum ''HeaderProtectionKey'' \<and> list_all is_alnum ''RandomTrailers'' \<and>
   list_all is_alnum ''ContentPaddingAddition'' \<and> to_lower ''Jc'' = ''jc'' \<and>
   to_lower ''Jmin'' = ''jmin'' \<and> to_lower ''Jmax'' = ''jmax'' \<and>
   to_lower ''S1'' = ''s1'' \<and> to_lower ''S2'' = ''s2'' \<and>
   to_lower ''S3'' = ''s3'' \<and> to_lower ''S4'' = ''s4'' \<and>
   to_lower ''H1'' = ''h1'' \<and> to_lower ''H2'' = ''h2'' \<and>
   to_lower ''H3'' = ''h3'' \<and> to_lower ''H4'' = ''h4'' \<and>
   to_lower ''MTU'' = ''mtu'' \<and>
   to_lower ''HeaderProtectionKey'' = ''headerprotectionkey'' \<and>
   to_lower ''RandomTrailers'' = ''randomtrailers'' \<and>
   to_lower ''ContentPaddingAddition'' = ''contentpaddingaddition''"
  by code_simp

lemma awg_keys:
  "list_all is_alnum ''Jc''" "list_all is_alnum ''Jmin''" "list_all is_alnum ''Jmax''"
  "list_all is_alnum ''S1''" "list_all is_alnum ''S2''" "list_all is_alnum ''S3''" "list_all is_alnum ''S4''"
  "list_all is_alnum ''H1''" "list_all is_alnum ''H2''" "list_all is_alnum ''H3''" "list_all is_alnum ''H4''"
  "list_all is_alnum ''MTU''" "list_all is_alnum ''HeaderProtectionKey''"
  "list_all is_alnum ''RandomTrailers''" "list_all is_alnum ''ContentPaddingAddition''"
  "to_lower ''Jc'' = ''jc''" "to_lower ''Jmin'' = ''jmin''" "to_lower ''Jmax'' = ''jmax''"
  "to_lower ''S1'' = ''s1''" "to_lower ''S2'' = ''s2''" "to_lower ''S3'' = ''s3''" "to_lower ''S4'' = ''s4''"
  "to_lower ''H1'' = ''h1''" "to_lower ''H2'' = ''h2''" "to_lower ''H3'' = ''h3''" "to_lower ''H4'' = ''h4''"
  "to_lower ''MTU'' = ''mtu''" "to_lower ''HeaderProtectionKey'' = ''headerprotectionkey''"
  "to_lower ''RandomTrailers'' = ''randomtrailers''"
  "to_lower ''ContentPaddingAddition'' = ''contentpaddingaddition''"
  by (simp_all only: awg_keys_all)

lemma awg_list_field:
  "k \<in> {''address'', ''allowedips'', ''dns''} \<Longrightarrow> \<forall>w \<in> set ws. rx_test WG_HOST_OR_CIDR w \<Longrightarrow>
     awg_value_ok k (trim (join '','' ws))"
  by (rule awg_field_wg [OF _ wg_list_field]) (auto simp: WG_INTERFACE_KEYS_def WG_PEER_KEYS_def)

lemma awg_key_ok:
  "k \<in> {''privatekey'', ''publickey'', ''presharedkey''} \<Longrightarrow> rx_test WG_KEY v \<Longrightarrow> awg_value_ok k (trim v)"
  by (rule awg_field_wg [OF _ wg_key_field]) (auto simp: WG_INTERFACE_KEYS_def WG_PEER_KEYS_def)

lemma awg_endpoint_ok: "rx_test WG_ENDPOINT v \<Longrightarrow> awg_value_ok ''endpoint'' (trim v)"
  by (rule awg_field_wg [OF _ wg_endpoint_field]) (auto simp: WG_PEER_KEYS_def)

lemma awg_tier_ok:
  assumes "rx_test WG_KEY hpk" and "base64_length hpk = 32" and "1000 \<le> mtu" and "mtu \<le> 1420"
  shows "awg_value_ok ''mtu'' (trim (show_int mtu))"
    and "awg_value_ok ''headerprotectionkey'' (trim hpk)"
    and "awg_value_ok ''randomtrailers'' (trim ''on'')"
    and "awg_value_ok ''randomtrailers'' (trim ''off'')"
    and "awg_value_ok ''contentpaddingaddition'' (trim AWG3_CONTENT_PADDING)"
proof -
  show "awg_value_ok ''mtu'' (trim (show_int mtu))"
    using show_int_rx [of mtu 7] assms(3,4)
    by (intro awg_field_wg) (simp_all add: wg_value_ok_def assertSafeWireguardValue_def WG_UINT_def
        WG_INTERFACE_KEYS_def show_int_trim)
  show "awg_value_ok ''headerprotectionkey'' (trim hpk)"
    using assms(1,2) key_trim [OF assms(1)]
    by (simp add: awg_value_ok_def assertSafeAmneziaWgValue_def AWG_UINT16_KEYS_def AWG_UINT32_KEYS_def AWG_I_KEYS_def)
  show "awg_value_ok ''randomtrailers'' (trim ''on'')" "awg_value_ok ''randomtrailers'' (trim ''off'')"
    by code_simp+
  show "awg_value_ok ''contentpaddingaddition'' (trim AWG3_CONTENT_PADDING)" by code_simp
qed

text \<open>The junk packet counts come from disjoint ranges.\<close>

lemma junk_ranges:
  assumes "0 \<le> x \<and> x < 1" and "0 \<le> y \<and> y < 1" and "0 \<le> z \<and> z < 1"
  shows "3 \<le> randInt JC_RANGE z \<and> randInt JC_RANGE z \<le> 10 \<and> 64 \<le> randInt JMIN_RANGE x \<and>
    randInt JMIN_RANGE x < randInt JMAX_RANGE y \<and> randInt JMAX_RANGE y \<le> 1024"
  using randInt_bounds [of JC_RANGE z] randInt_bounds [of JMIN_RANGE x] randInt_bounds [of JMAX_RANGE y] assms
  by (simp add: JC_RANGE_def JMIN_RANGE_def JMAX_RANGE_def)

text \<open>The three parts of the emitted text.\<close>

definition awg_obf_fields :: "rat \<times> rat \<times> rat \<Rightarrow> awg_params \<Rightarrow> (string \<times> string) list" where
  "awg_obf_fields draws ps =
     [(''Jc'', show_int (randInt JC_RANGE (snd (snd draws)))),
      (''Jmin'', show_int (randInt JMIN_RANGE (fst draws))),
      (''Jmax'', show_int (randInt JMAX_RANGE (fst (snd draws)))),
      (''S1'', show_int (awg_paddings ps ! 0)), (''S2'', show_int (awg_paddings ps ! 1)),
      (''S3'', show_int (awg_paddings ps ! 2)), (''S4'', show_int (awg_paddings ps ! 3)),
      (''H1'', show_int (awg_headers ps ! 0)), (''H2'', show_int (awg_headers ps ! 1)),
      (''H3'', show_int (awg_headers ps ! 2)), (''H4'', show_int (awg_headers ps ! 3))]"

definition awg_tier_fields :: "awg_params \<Rightarrow> (string \<times> string) list" where
  "awg_tier_fields ps = (case awg_tier ps of None \<Rightarrow> [] | Some (hpk, trailers, mtu) \<Rightarrow>
     [(''MTU'', show_int mtu), (''HeaderProtectionKey'', hpk),
      (''RandomTrailers'', if trailers then ''on'' else ''off''),
      (''ContentPaddingAddition'', AWG3_CONTENT_PADDING)])"

lemma awg_lines_split:
  "awg_lines draws entry assigned pk ps =
     ''[Interface]'' # ini_field ''Address'' (join '','' (map to_string assigned)) #
     ini_field ''PrivateKey'' pk # ini_field ''DNS'' ''10.8.0.1,1.0.0.1,1.1.1.1'' #
     map (\<lambda>(k, v). ini_field k v) (awg_obf_fields draws ps) @
     concat (map (awg_i_line entry) awg_i_names) @
     map (\<lambda>(k, v). ini_field k v) (awg_tier_fields ps) @
     [[], ''[Peer]'', ini_field ''PublicKey'' (awg_pub ps), ini_field ''AllowedIPs'' ''0.0.0.0/0,::/0'',
      ini_field ''Endpoint'' (awg_endpoint_host ps @ '':'' @ show_int (awg_port_no ps)),
      ini_field ''PersistentKeepalive'' ''15'', []]"
  by (simp add: awg_lines_def awg_obf_fields_def awg_tier_fields_def Let_def split: option.splits)

lemma awg_obf_fields_ok:
  assumes "check_obfuscation entry = Inr (awg_paddings ps, awg_headers ps, awg_tier ps)"
    and "0 \<le> x \<and> x < 1" and "0 \<le> y \<and> y < 1" and "0 \<le> z \<and> z < 1"
    and "(k, v) \<in> set (awg_obf_fields (x, y, z) ps)"
  shows "k \<noteq> [] \<and> list_all is_alnum k \<and> to_lower k \<in> set (awg_allow Interface) \<and>
    awg_value_ok (to_lower k) (trim v) \<and> to_lower k \<noteq> ''endpoint'' \<and> list_all is_digit v"
proof -
  note c = check_obfuscation_ok [OF assms(1)]
  have s: "length (awg_paddings ps) = 4" "\<forall>v \<in> set (awg_paddings ps). 0 \<le> v \<and> v \<le> 65535"
    using uints_in_range_ok [OF c(1)] by (simp_all add: awg_s_names_def)
  have h: "length (awg_headers ps) = 4" "\<forall>v \<in> set (awg_headers ps). 0 \<le> v \<and> v \<le> 4294967295"
    using uints_in_range_ok [OF c(3)] by (simp_all add: awg_h_names_def)
  have sv: "0 \<le> awg_paddings ps ! i" "awg_paddings ps ! i \<le> 65535" if "i < 4" for i using s that by auto
  have hv: "0 \<le> awg_headers ps ! i" "awg_headers ps ! i \<le> 4294967295" if "i < 4" for i using h that by auto
  note j = junk_ranges [OF assms(2-4)]
  have "awg_value_ok (to_lower k) (trim v) \<and> list_all is_digit v"
    using assms(5) sv hv j unfolding awg_obf_fields_def
    by (auto simp: awg_keys AWG_UINT16_KEYS_def AWG_UINT32_KEYS_def show_int_nonneg
        awg_uint16_field awg_uint32_field)
  moreover have "k \<noteq> [] \<and> list_all is_alnum k \<and> to_lower k \<in> set (awg_allow Interface) \<and> to_lower k \<noteq> ''endpoint''"
    using assms(5) unfolding awg_obf_fields_def
    by (auto simp: awg_keys awg_allow_def AWG_INTERFACE_KEYS_def simp del: list.pred_inject)
  ultimately show ?thesis by blast
qed

lemma awg_tier_fields_ok:
  assumes "check_obfuscation entry = Inr (awg_paddings ps, awg_headers ps, awg_tier ps)"
    and "(k, v) \<in> set (awg_tier_fields ps)"
  shows "k \<noteq> [] \<and> list_all is_alnum k \<and> to_lower k \<in> set (awg_allow Interface) \<and>
    awg_value_ok (to_lower k) (trim v) \<and> to_lower k \<noteq> ''endpoint'' \<and> CHR 0x0A \<notin> set v"
proof -
  obtain hpk t mtu where t: "awg_tier ps = Some (hpk, t, mtu)"
    using assms(2) by (cases "awg_tier ps") (auto simp: awg_tier_fields_def)
  note c = check_tier3_ok [OF check_obfuscation_ok(6) [OF assms(1) t]]
  have "CHR 0x0A \<notin> set (show_int mtu)"
    using c show_int_nonneg [of mtu] by (auto simp: list_all_iff is_digit_def)
  moreover have "CHR 0x0A \<notin> set hpk" using c base64_no_newline by blast
  ultimately show ?thesis
    using assms(2) awg_tier_ok [of hpk mtu] c unfolding awg_tier_fields_def t
    by (auto simp: awg_keys awg_allow_def AWG_INTERFACE_KEYS_def WG_INTERFACE_KEYS_def AWG3_CONTENT_PADDING_def
        simp del: list.pred_inject split: if_splits)
qed


context ini_guard
begin

lemma scan_concat:
  assumes "\<And>x rest. x \<in> set xs \<Longrightarrow> accepts (scan (Some s) (f x @ rest)) \<longleftrightarrow> accepts (scan (Some s) rest)"
  shows "accepts (scan (Some s) (concat (map f xs) @ rest)) \<longleftrightarrow> accepts (scan (Some s) rest)"
  using assms by (induction xs) simp_all

end

lemma endpoint_host_fields:
  assumes "\<And>k v. (k, v) \<in> set fs \<Longrightarrow> k \<noteq> [] \<and> list_all is_alnum k \<and> to_lower k \<noteq> ''endpoint''"
  shows "endpoint_host (map (\<lambda>(k, v). ini_field k v) fs @ rest) = endpoint_host rest"
  using assms
proof (induction fs)
  case (Cons f fs)
  obtain k v where f: "f = (k, v)" by (cases f)
  have kv: "k \<noteq> []" "list_all is_alnum k" "to_lower k \<noteq> ''endpoint''"
    using Cons.prems [of k v] f by auto
  have "endpoint_host (map (\<lambda>(k, v). ini_field k v) fs @ rest) = endpoint_host rest"
    by (rule Cons.IH) (use Cons.prems in auto)
  then show ?case using endpoint_host_field [OF kv(2,1,3)] f by simp
qed simp

lemma endpoint_host_concat:
  assumes "\<And>x rest. x \<in> set xs \<Longrightarrow> endpoint_host (f x @ rest) = endpoint_host rest"
  shows "endpoint_host (concat (map f xs) @ rest) = endpoint_host rest"
  using assms by (induction xs) simp_all

definition awg_host_ok :: "awg_params \<Rightarrow> bool" where
  "awg_host_ok ps \<longleftrightarrow> awg_endpoint_host ps \<noteq> [] \<and> list_all host_char (awg_endpoint_host ps) \<and>
     rx_test WG_KEY (awg_pub ps) \<and> 0 \<le> awg_port_no ps \<and> awg_port_no ps \<le> 65535"

lemma awg_lines_ok:
  assumes "check_obfuscation entry = Inr (awg_paddings ps, awg_headers ps, awg_tier ps)"
    and "check_assigned assigned = Inr ()" and "rx_test WG_KEY pk" and "awg_host_ok ps"
    and "0 \<le> x \<and> x < 1" and "0 \<le> y \<and> y < 1" and "0 \<le> z \<and> z < 1"
  shows "accepts (awg_scan None (awg_lines (x, y, z) entry assigned pk ps))"
    and "endpoint_host (awg_lines (x, y, z) entry assigned pk ps) = Some (awg_endpoint_host ps)"
    and "w \<in> set (awg_lines (x, y, z) entry assigned pk ps) \<Longrightarrow> CHR 0x0A \<notin> set w"
proof -
  note h = assms(4) [unfolded awg_host_ok_def]
  note tags = awg_i_line_scan [OF check_obfuscation_ok(5) [OF assms(1)]]
  obtain ss where ss: "assigned = map JStr ss" "\<forall>s \<in> set ss. rx_test WG_HOST_OR_CIDR s"
    using check_assigned_ok [OF assms(2)] by blast
  have addr: "map to_string assigned = ss" by (simp add: ss(1) o_def)
  have ep: "rx_test WG_ENDPOINT (awg_endpoint_host ps @ '':'' @ show_int (awg_port_no ps))"
    using h host_port_rx by blast
  note obf = awg_obf_fields_ok [OF assms(1,5-7)]
  note tier = awg_tier_fields_ok [OF assms(1)]
  have fixed: "awg_value_ok ''dns'' (trim ''10.8.0.1,1.0.0.1,1.1.1.1'') \<and>
      awg_value_ok ''allowedips'' (trim ''0.0.0.0/0,::/0'') \<and>
      awg_value_ok ''persistentkeepalive'' (trim ''15'')" by code_simp
  note vs = awg_list_field [of "''address''", OF _ ss(2)] awg_key_ok [of "''privatekey''", OF _ assms(3)]
    awg_key_ok [of "''publickey''" "awg_pub ps"] awg_endpoint_ok [OF ep, simplified] fixed h
  have allow: "''address'' \<in> set (awg_allow Interface)" "''privatekey'' \<in> set (awg_allow Interface)"
      "''dns'' \<in> set (awg_allow Interface)" "''publickey'' \<in> set (awg_allow Peer)"
      "''allowedips'' \<in> set (awg_allow Peer)" "''endpoint'' \<in> set (awg_allow Peer)"
      "''persistentkeepalive'' \<in> set (awg_allow Peer)"
    by (simp_all add: awg_allow_def AWG_INTERFACE_KEYS_def WG_INTERFACE_KEYS_def WG_PEER_KEYS_def)
  have parts: "accepts (awg_scan (Some Interface) (map (\<lambda>(k, v). ini_field k v) (awg_obf_fields (x, y, z) ps) @ r)) =
        accepts (awg_scan (Some Interface) r)"
      "accepts (awg_scan (Some Interface) (concat (map (awg_i_line entry) awg_i_names) @ r)) =
        accepts (awg_scan (Some Interface) r)"
      "accepts (awg_scan (Some Interface) (map (\<lambda>(k, v). ini_field k v) (awg_tier_fields ps) @ r)) =
        accepts (awg_scan (Some Interface) r)" for r
    by (rule awg.scan_fields, use obf in blast) (rule awg.scan_concat, use tags(1) in blast,
      rule awg.scan_fields, use tier in blast)
  show "accepts (awg_scan None (awg_lines (x, y, z) entry assigned pk ps))"
    unfolding awg_lines_split addr
    by (simp add: vs parts allow awg.scan_header [OF header_lines(1)] awg.scan_header [OF header_lines(2)]
        awg.scan_blank awg.scan_field ini_keys awg.scan_Nil del: awg_scan.simps join.simps list.pred_inject)
  have hosts: "endpoint_host (map (\<lambda>(k, v). ini_field k v) (awg_obf_fields (x, y, z) ps) @ r) = endpoint_host r"
      "endpoint_host (concat (map (awg_i_line entry) awg_i_names) @ r) = endpoint_host r"
      "endpoint_host (map (\<lambda>(k, v). ini_field k v) (awg_tier_fields ps) @ r) = endpoint_host r" for r
    by (rule endpoint_host_fields, use obf in blast) (rule endpoint_host_concat, use tags(3) in blast,
      rule endpoint_host_fields, use tier in blast)
  show "endpoint_host (awg_lines (x, y, z) entry assigned pk ps) = Some (awg_endpoint_host ps)"
    unfolding awg_lines_split addr using h
    by (simp add: hosts endpoint_host_field endpoint_host_plain endpoint_field [unfolded append.simps]
        ini_keys del: endpoint_host.simps join.simps list.pred_inject)
  have nl: "CHR 0x0A \<notin> set (join '','' ss)"
    using set_join_subset [of "'',''" ss] rx_no_newline [of WG_HOST_OR_CIDR] ss(2) by fastforce
  have obf_nl: "CHR 0x0A \<notin> set (ini_field k v)" if "(k, v) \<in> set (awg_obf_fields (x, y, z) ps)" for k v
    using obf [OF that] by (auto simp: ini_field_def list_all_iff class_defs)
  have tier_nl: "CHR 0x0A \<notin> set (ini_field k v)" if "(k, v) \<in> set (awg_tier_fields ps)" for k v
    using tier [OF that] by (auto simp: ini_field_def list_all_iff class_defs)
  show "CHR 0x0A \<notin> set w" if "w \<in> set (awg_lines (x, y, z) entry assigned pk ps)"
    using that nl obf_nl tier_nl tags(2) base64_no_newline [OF assms(3)] base64_no_newline [of "awg_pub ps"] h
      rx_no_newline [OF ep] unfolding awg_lines_split addr
    by (auto simp: ini_field_def)
qed

end
