(* ===== verification/WgProps.thy ===== *)
theory WgProps
  imports WgAccept
begin

text \<open>
  The properties of the WireGuard and AmneziaWG path: what the guards accept
  (\<open>src/main/config-guard.ts\<close>), what the line operations keep, and that the builders' output is
  accepted and carries the node's endpoint.
\<close>

section \<open>Samples\<close>

text \<open>Concrete configs and metadata, for the witnesses.\<close>

definition sample_wg_lines :: "string list" where
  "sample_wg_lines =
     [''[Interface]'', ''PrivateKey = AAAA'', ''DNS = 10.8.0.1'', ''MTU = 1420'', ''[Peer]'',
      ''PublicKey = BBBB='', ''Endpoint = n.example:51820'']"

definition sample_wg :: string where
  "sample_wg = join nl sample_wg_lines"

definition sample_awg_lines :: "string list" where
  "sample_awg_lines =
     [''[Interface]'', ''PrivateKey = AAAA'', ''Jc = 4'', ''I1 = <b 0x01><r 12>'', ''[Peer]'',
      ''PublicKey = BBBB='', ''Endpoint = n.example:51820'']"

definition sample_awg :: string where
  "sample_awg = join nl sample_awg_lines"

lemma sample_wg_ok: "assertSafeWireguardConfig sample_wg = ok ()"
  by code_simp

lemma sample_wg_split: "split_on CHR 0x0A sample_wg = sample_wg_lines"
  by code_simp

lemma sample_awg_split: "split_on CHR 0x0A sample_awg = sample_awg_lines"
  by code_simp

lemma sample_awg_ok: "assertSafeAmneziaWgConfig sample_awg = ok ()"
proof -
  have "show_int 4 = ''4''" by code_simp
  then have ls: "sample_awg_lines = [''[Interface]'', ini_field ''PrivateKey'' ''AAAA'',
      ini_field ''Jc'' (show_int 4), ini_field ''I1'' ''<b 0x01><r 12>'', ''[Peer]'',
      ini_field ''PublicKey'' ''BBBB='', ini_field ''Endpoint'' ''n.example:51820'']"
    by (simp add: sample_awg_lines_def ini_field_def)
  have "rx_test WG_KEY ''AAAA'' \<and> rx_test WG_KEY ''BBBB='' \<and> rx_test AWG_I_TAGS ''<b 0x01><r 12>'' \<and>
      rx_test WG_ENDPOINT ''n.example:51820''" by code_simp
  then have "awg_value_ok ''privatekey'' (trim ''AAAA'')" "awg_value_ok ''publickey'' (trim ''BBBB='')"
      "awg_value_ok ''i1'' (trim ''<b 0x01><r 12>'')" "awg_value_ok ''endpoint'' (trim ''n.example:51820'')"
      "awg_value_ok ''jc'' (trim (show_int 4))"
    by (simp_all only: awg_key_ok awg_endpoint_ok insert_iff simp_thms,
        simp_all add: awg_i_field AWG_I_KEYS_def AWG_I_MAX_LENGTH_def awg_uint16_field AWG_UINT16_KEYS_def)
  then have "accepts (awg_scan None sample_awg_lines)"
    unfolding ls
    by (simp add: awg.scan_header [OF header_lines(1)] awg.scan_header [OF header_lines(2)]
        awg.scan_field ini_keys awg_keys i_keys awg_allow_def AWG_INTERFACE_KEYS_def WG_INTERFACE_KEYS_def
        WG_PEER_KEYS_def awg.scan_Nil del: awg_scan.simps list.pred_inject)
  then show ?thesis by (simp add: assertSafeAmneziaWgConfig_def sample_awg_split accepts_unit)
qed

definition sample_handshake :: wg_handshake where
  "sample_handshake = \<lparr>addrs = Some [''10.8.0.2/32''],
     metadata = Some [\<lparr>port = JNum (NInt 51820), public_key = ''BBBB''\<rparr>]\<rparr>"

definition sample_awg_metadata :: js where
  "sample_awg_metadata = JArr [JObj
     [(''public_key'', JStr ''AAAAAAAAAAAAAAAAAAAAAAAAAAAAAAAAAAAAAAAAAAA=''), (''port'', JNum (NInt 51820)),
      (''s1'', JNum (NInt 20)), (''s2'', JNum (NInt 30)), (''s3'', JNum (NInt 0)), (''s4'', JNum (NInt 0)),
      (''h1'', JNum (NInt 5)), (''h2'', JNum (NInt 6)), (''h3'', JNum (NInt 7)), (''h4'', JNum (NInt 8)),
      (''i1'', JStr ''<b 0x01>'')]]"

section \<open>Properties\<close>

text \<open>The WireGuard guard accepts a config exactly when every line is acceptable in the
  section in force there (the last header above it): blank, a comment, an Interface or Peer
  header, or a key of that section's allow-list with a well-formed value.\<close>

theorem wg_guard_iff:
  "assertSafeWireguardConfig config = ok () \<longleftrightarrow>
     (let ls = split_on CHR 0x0A config
      in \<forall>i < length ls. line_ok wg_allow wg_value_ok (section_after None (take i ls)) (ls ! i))"
  using wg.scan_iff [of None "split_on CHR 0x0A config"]
  by (simp add: assertSafeWireguardConfig_def accepts_unit Let_def)

lemma wg_guard_iff_witness:
  "line_ok wg_allow wg_value_ok (Some Interface) ''MTU = 1420''"
proof -
  have "let ls = split_on CHR 0x0A sample_wg
        in \<forall>i < length ls. line_ok wg_allow wg_value_ok (section_after None (take i ls)) (ls ! i)"
    using wg_guard_iff [of sample_wg] sample_wg_ok by blast
  then have "\<forall>i < length sample_wg_lines.
      line_ok wg_allow wg_value_ok (section_after None (take i sample_wg_lines)) (sample_wg_lines ! i)"
    by (simp add: Let_def sample_wg_split)
  moreover have "3 < length sample_wg_lines" by (simp add: sample_wg_lines_def)
  ultimately have "line_ok wg_allow wg_value_ok (section_after None (take 3 sample_wg_lines)) (sample_wg_lines ! 3)"
    by blast
  moreover have "section_after None (take 3 sample_wg_lines) = Some Interface" by code_simp
  ultimately show ?thesis by (simp add: sample_wg_lines_def)
qed

text \<open>Nothing that could run a command gets past the WireGuard guard: every effective line of an
  accepted config sets one of the allow-listed keys (so no PostUp, PreUp, Table, ...), and its
  value holds only letters, digits, white space and \<open>.:_-+/=,[]\<close>, never a shell metacharacter.\<close>

theorem wg_guard_sound:
  assumes "assertSafeWireguardConfig config = ok ()" and "raw \<in> set (split_on CHR 0x0A config)"
    and "\<not> skippable (trim raw)" and "header_of raw = None"
  shows "\<exists>k. key_of raw = Some k \<and> k \<in> set (WG_INTERFACE_KEYS @ WG_PEER_KEYS) \<and>
           (\<forall>c \<in> set (value_of raw). shell_safe c)"
proof -
  have "accepts (wg_scan None (split_on CHR 0x0A config))"
    using assms(1) by (simp add: assertSafeWireguardConfig_def)
  then obtain s k where k: "key_of raw = Some k" "k \<in> set (wg_allow s)" "wg_value_ok k (value_of raw)"
    using wg.accepted_key assms(2-4) by blast
  then have "k \<in> set (WG_INTERFACE_KEYS @ WG_PEER_KEYS)" by (auto simp: wg_allow_def split: if_splits)
  with k wg_value_chars show ?thesis by blast
qed

lemma wg_guard_sound_witness:
  "\<exists>k. key_of ''MTU = 1420'' = Some k \<and> k \<in> set (WG_INTERFACE_KEYS @ WG_PEER_KEYS)"
proof -
  have "''MTU = 1420'' \<in> set (split_on CHR 0x0A sample_wg)"
    by (simp add: sample_wg_split) (simp add: sample_wg_lines_def)
  moreover have "\<not> skippable (trim ''MTU = 1420'')" "header_of ''MTU = 1420'' = None" by code_simp+
  ultimately show ?thesis using wg_guard_sound [OF sample_wg_ok] by blast
qed

text \<open>The same for the AmneziaWG guard: only allow-listed keys, and values that add nothing but
  the \<open><\<close> and \<open>>\<close> of the signature-packet tags to the WireGuard characters.\<close>

theorem awg_guard_sound:
  assumes "assertSafeAmneziaWgConfig config = ok ()" and "raw \<in> set (split_on CHR 0x0A config)"
    and "\<not> skippable (trim raw)" and "header_of raw = None"
  shows "\<exists>k. key_of raw = Some k \<and> k \<in> set (AWG_INTERFACE_KEYS @ WG_PEER_KEYS) \<and>
           (\<forall>c \<in> set (value_of raw). tag_safe c)"
proof -
  have "accepts (awg_scan None (split_on CHR 0x0A config))"
    using assms(1) by (simp add: assertSafeAmneziaWgConfig_def)
  then obtain s k where k: "key_of raw = Some k" "k \<in> set (awg_allow s)" "awg_value_ok k (value_of raw)"
    using awg.accepted_key assms(2-4) by blast
  then have "k \<in> set (AWG_INTERFACE_KEYS @ WG_PEER_KEYS)" by (auto simp: awg_allow_def split: if_splits)
  with k awg_value_chars show ?thesis by blast
qed

lemma awg_guard_sound_witness:
  "\<exists>k. key_of ''Jc = 4'' = Some k \<and> k \<in> set (AWG_INTERFACE_KEYS @ WG_PEER_KEYS)"
proof -
  have "''Jc = 4'' \<in> set (split_on CHR 0x0A sample_awg)"
    by (simp add: sample_awg_split) (simp add: sample_awg_lines_def)
  moreover have "\<not> skippable (trim ''Jc = 4'')" "header_of ''Jc = 4'' = None" by code_simp+
  ultimately show ?thesis using awg_guard_sound [OF sample_awg_ok] by blast
qed

text \<open>The AmneziaWG guard is a conservative extension: every config the WireGuard guard accepts
  it accepts as well.\<close>

theorem wg_accepted_awg:
  assumes "assertSafeWireguardConfig config = ok ()"
  shows "assertSafeAmneziaWgConfig config = ok ()"
proof -
  have l: "line_ok wg_allow wg_value_ok s r \<Longrightarrow> line_ok awg_allow awg_value_ok s r" for s r
    by (auto simp: line_ok_def wg_allow_def awg_allow_def AWG_INTERFACE_KEYS_def awg_value_wg
        split: if_splits)
  show ?thesis
    using assms wg.scan_iff [of None "split_on CHR 0x0A config"] awg.scan_iff [of None "split_on CHR 0x0A config"] l
    by (simp add: assertSafeWireguardConfig_def assertSafeAmneziaWgConfig_def accepts_unit)
qed

lemma wg_accepted_awg_witness: "assertSafeAmneziaWgConfig sample_wg = ok ()"
  by (rule wg_accepted_awg [OF sample_wg_ok])

text \<open>Pinning the endpoint to the resolved address never makes an accepted config unacceptable,
  whatever the resolver answers, for either guard.\<close>

theorem pin_keeps_guards:
  "(assertSafeWireguardConfig config = ok () \<longrightarrow>
      assertSafeWireguardConfig (pinWireguardEndpoint config resolve) = ok ()) \<and>
   (assertSafeAmneziaWgConfig config = ok () \<longrightarrow>
      assertSafeAmneziaWgConfig (pinWireguardEndpoint config resolve) = ok ())"
  using wgt.pin_accepted [of config resolve] awgt.pin_accepted [of config resolve]
  by (simp add: assertSafeWireguardConfig_def assertSafeAmneziaWgConfig_def accepts_unit)

lemma pin_keeps_guards_witness:
  "assertSafeWireguardConfig (pinWireguardEndpoint sample_wg (\<lambda>_. Some ''5.6.7.8'')) = ok () \<and>
   assertSafeAmneziaWgConfig (pinWireguardEndpoint sample_awg (\<lambda>_. Some ''5.6.7.8'')) = ok ()"
  using pin_keeps_guards [of sample_wg "\<lambda>_. Some ''5.6.7.8''"]
    pin_keeps_guards [of sample_awg "\<lambda>_. Some ''5.6.7.8''"] sample_wg_ok sample_awg_ok by blast

text \<open>In an accepted config without bracketed endpoints, pinning replaces the host that
  \<open>extractWireguardEndpointHost\<close> reads by the resolver's IPv4 address, and leaves it alone when
  it is an IPv4 already or the resolver gives no IPv4: the address the kill switch lets through
  is the address the tunnel dials.\<close>

theorem pin_endpoint_host:
  assumes "assertSafeAmneziaWgConfig config = ok ()"
    and "\<And>raw. raw \<in> set (split_on CHR 0x0A config) \<Longrightarrow> key_of raw = Some ''endpoint'' \<Longrightarrow>
           \<not> starts_with [CHR 0x5B] (value_of raw)"
  shows "extractWireguardEndpointHost (pinWireguardEndpoint config resolve) =
           map_option (pinned_host resolve) (extractWireguardEndpointHost config)"
  using assms awgt.pinned_endpoint_host [of None "split_on CHR 0x0A config" resolve]
  by (simp add: extractWireguardEndpointHost_def pin_lines assertSafeAmneziaWgConfig_def)

lemma pin_endpoint_host_witness:
  "extractWireguardEndpointHost (pinWireguardEndpoint sample_awg (\<lambda>_. Some ''5.6.7.8'')) = Some ''5.6.7.8''"
proof -
  have "list_all (\<lambda>raw. key_of raw = Some ''endpoint'' \<longrightarrow> \<not> starts_with [CHR 0x5B] (value_of raw)) sample_awg_lines"
    by code_simp
  then have "extractWireguardEndpointHost (pinWireguardEndpoint sample_awg (\<lambda>_. Some ''5.6.7.8'')) =
      map_option (pinned_host (\<lambda>_. Some ''5.6.7.8'')) (extractWireguardEndpointHost sample_awg)"
    by (intro pin_endpoint_host [OF sample_awg_ok]) (simp add: sample_awg_split list_all_iff)
  also have "extractWireguardEndpointHost sample_awg = Some ''n.example''" by code_simp
  also have "map_option (pinned_host (\<lambda>_. Some ''5.6.7.8'')) (Some ''n.example'') = Some ''5.6.7.8''" by code_simp
  finally show ?thesis .
qed

text \<open>After \<open>replaceDnsLines\<close> the config has exactly one DNS line, the one asked for, and all its
  other lines are the old ones in their order, whenever there was a DNS line or an interface
  section to put it in.\<close>

theorem replace_dns_lines:
  assumes "CHR 0x0A \<notin> set ip"
    and "replaceDnsLines config ip \<noteq> config \<or> (\<exists>l \<in> set (split_on CHR 0x0A config). is_dns_line l)"
  shows "filter is_dns_line (split_on CHR 0x0A (replaceDnsLines config ip)) = [new_dns_line ip] \<and>
         filter (\<lambda>l. \<not> is_dns_line l) (split_on CHR 0x0A (replaceDnsLines config ip)) =
           filter (\<lambda>l. \<not> is_dns_line l) (split_on CHR 0x0A config)"
proof -
  obtain pre mid post where r: "split_on CHR 0x0A (replaceDnsLines config ip) =
        pre @ new_dns_line ip # filter (\<lambda>line. \<not> is_dns_line line) post"
      "\<forall>l \<in> set pre. \<not> is_dns_line l" "split_on CHR 0x0A config = pre @ mid @ post"
      "\<forall>l \<in> set mid. is_dns_line l"
    using replace_lines [OF assms] by blast
  have "filter is_dns_line pre = []" "filter (\<lambda>l. \<not> is_dns_line l) pre = pre"
    "filter (\<lambda>l. \<not> is_dns_line l) mid = []"
    using r(2,4) by (simp_all add: filter_id_conv)
  then show ?thesis using r(1,3) new_dns_line(1) [of ip] by simp
qed

lemma replace_dns_lines_witness:
  "filter is_dns_line (split_on CHR 0x0A (replaceDnsLines sample_wg ''9.9.9.9'')) = [''DNS = 9.9.9.9'']"
proof -
  have "list_ex is_dns_line (split_on CHR 0x0A sample_wg)" by code_simp
  then have "\<exists>l \<in> set (split_on CHR 0x0A sample_wg). is_dns_line l" by (simp add: list_ex_iff)
  then show ?thesis using replace_dns_lines [of "''9.9.9.9''" sample_wg] by (simp add: new_dns_line_def)
qed

text \<open>Swapping the DNS lines for an IPv4 resolver keeps a config acceptable to both guards: the
  new line always lands inside the interface section.\<close>

theorem replaced_dns_accepted:
  assumes "isIPv4 ip"
  shows "(assertSafeWireguardConfig config = ok () \<longrightarrow>
            assertSafeWireguardConfig (replaceDnsLines config ip) = ok ()) \<and>
         (assertSafeAmneziaWgConfig config = ok () \<longrightarrow>
            assertSafeAmneziaWgConfig (replaceDnsLines config ip) = ok ())"
  using assms wgt.replace_accepted [of config ip] awgt.replace_accepted [of config ip]
  by (simp add: assertSafeWireguardConfig_def assertSafeAmneziaWgConfig_def accepts_unit)

lemma replaced_dns_accepted_witness:
  "assertSafeWireguardConfig (replaceDnsLines sample_wg ''9.9.9.9'') = ok ()"
proof -
  have "isIPv4 ''9.9.9.9''" by code_simp
  then show ?thesis using replaced_dns_accepted [of "''9.9.9.9''" sample_wg] sample_wg_ok by blast
qed

text \<open>\<open>stripDnsLines\<close> leaves no DNS line behind, and running it again changes nothing.\<close>

theorem strip_dns_lines:
  "(\<forall>l \<in> set (split_on CHR 0x0A (stripDnsLines config)). \<not> is_dns_line l) \<and>
   stripDnsLines (stripDnsLines config) = stripDnsLines config"
proof -
  let ?f = "filter (\<lambda>line. \<not> is_dns_line line)"
  have empty: "\<not> is_dns_line []" by code_simp
  have nodns: "\<forall>l \<in> set (split_on CHR 0x0A (stripDnsLines config)). \<not> is_dns_line l"
  proof (cases "?f (split_on CHR 0x0A config) = []")
    case True
    then show ?thesis by (simp add: stripDnsLines_def empty)
  next
    case False
    then have "split_on CHR 0x0A (stripDnsLines config) = ?f (split_on CHR 0x0A config)"
      unfolding stripDnsLines_def by (rule split_on_join) (auto dest: split_on_no_sep)
    then show ?thesis by simp
  qed
  then have "?f (split_on CHR 0x0A (stripDnsLines config)) = split_on CHR 0x0A (stripDnsLines config)"
    by (simp add: filter_id_conv)
  then have "stripDnsLines (stripDnsLines config) = stripDnsLines config"
    by (simp add: stripDnsLines_def [of "stripDnsLines config"] join_split_on)
  with nodns show ?thesis by simp
qed

lemma strip_dns_lines_witness:
  "\<not> is_dns_line (hd (split_on CHR 0x0A (stripDnsLines sample_wg)))"
  using strip_dns_lines [of sample_wg] by (meson hd_in_set split_on_not_Nil)

text \<open>The split-tunnel route filter, whatever the renderer sends: at most 64 routes, each an
  IPv4 network that misses one address of every pair differing in the top bit, so no single
  bypass route can take more than half the address space out of the tunnel.\<close>

theorem bypass_routes_bounded:
  "length (sanitizeBypassRoutes routes) \<le> MAX_BYPASS_ROUTES \<and>
   (\<forall>r \<in> set (sanitizeBypassRoutes routes). \<exists>gs pfx. cidr_groups r = Some (gs, pfx) \<and>
      (\<forall>a. in_network (addr_word (map read_nat gs)) (read_nat pfx) a \<longrightarrow>
           \<not> in_network (addr_word (map read_nat gs)) (read_nat pfx) (a XOR push_bit 31 1)))"
proof (intro conjI ballI)
  show "length (sanitizeBypassRoutes routes) \<le> MAX_BYPASS_ROUTES"
    by (cases routes) (simp_all add: sanitizeBypassRoutes_def)
  fix r assume "r \<in> set (sanitizeBypassRoutes routes)"
  then obtain x where "r = trim x \<or> r = []" and a: "isAllowedBypassCidr r"
    by (cases routes) (fastforce simp: sanitizeBypassRoutes_def dest!: in_set_takeD split: option.splits)+
  then have "trim r = r" using trim_no_ws [of "[]"] by auto
  with a obtain gs pfx where g: "cidr_groups r = Some (gs, pfx)" "1 \<le> read_nat pfx" "read_nat pfx \<le> 32"
    by (metis isAllowedBypassCidr_iff)
  have "\<not> in_network n (read_nat pfx) (a XOR push_bit 31 1)" if "in_network n (read_nat pfx) a" for n a
    using network_misses_half [OF g(2,3), of a] that by (simp add: in_network_def)
  with g(1) show "\<exists>gs pfx. cidr_groups r = Some (gs, pfx) \<and>
      (\<forall>a. in_network (addr_word (map read_nat gs)) (read_nat pfx) a \<longrightarrow>
           \<not> in_network (addr_word (map read_nat gs)) (read_nat pfx) (a XOR push_bit 31 1))"
    by blast
qed

lemma bypass_routes_bounded_witness:
  "\<exists>gs pfx. cidr_groups ''10.0.0.0/8'' = Some (gs, pfx) \<and>
     \<not> in_network (addr_word (map read_nat gs)) (read_nat pfx)
         (addr_word (map read_nat gs) XOR push_bit 31 1)"
proof -
  have "''10.0.0.0/8'' \<in> set (sanitizeBypassRoutes (JArr [JStr ''10.0.0.0/8'', JStr ''0.0.0.0/1'']))"
    by code_simp
  then obtain gs pfx where "cidr_groups ''10.0.0.0/8'' = Some (gs, pfx)"
      "\<forall>a. in_network (addr_word (map read_nat gs)) (read_nat pfx) a \<longrightarrow>
           \<not> in_network (addr_word (map read_nat gs)) (read_nat pfx) (a XOR push_bit 31 1)"
    using bypass_routes_bounded [of "JArr [JStr ''10.0.0.0/8'', JStr ''0.0.0.0/1'']"] by blast
  then show ?thesis by (auto simp: in_network_def)
qed

text \<open>\<open>buildWireguardConfig\<close> and the guard agree: a config built from well-shaped fields is
  accepted, and the endpoint host read back from it is the node's address.\<close>

theorem wg_build_accepted:
  assumes "buildWireguardConfig hs (host # rest) privateKey dns = ok config"
    and "metadata hs = Some (m # ms)" and "port m = JNum (NInt p)" and "0 \<le> p" and "p \<le> 65535"
    and "list_all host_char host" and "rx_test WG_KEY privateKey" and "rx_test WG_KEY (public_key m)"
    and "\<forall>a \<in> set (case addrs hs of None \<Rightarrow> [] | Some a \<Rightarrow> a). rx_test WG_HOST_OR_CIDR a"
    and "\<forall>d \<in> set dns. rx_test WG_HOST_OR_CIDR d"
  shows "assertSafeWireguardConfig config = ok () \<and> extractWireguardEndpointHost config = Some host"
proof -
  let ?lines = "[''[Interface]'',
       ini_field ''Address'' (join '','' (case addrs hs of None \<Rightarrow> [] | Some a \<Rightarrow> a)),
       ini_field ''PrivateKey'' privateKey, ini_field ''DNS'' (join '','' dns), [], ''[Peer]'',
       ini_field ''PublicKey'' (public_key m),
       ini_field ''AllowedIPs'' (join '','' [''0.0.0.0/0'', ''::/0'']),
       ini_field ''Endpoint'' (host @ '':'' @ show_int p),
       ini_field ''PersistentKeepalive'' ''15'', []]"
  have ne: "host \<noteq> []" using assms(1,2) by (auto simp: buildWireguardConfig_def first_of_def split: if_splits)
  have c: "config = join nl ?lines"
    using assms(1,2,3) by (elim wg_builder_lines) (simp add: first_of_def)
  have ep: "rx_test WG_ENDPOINT (host @ '':'' @ show_int p)"
    using host_port_rx assms(4-6) ne by blast
  have jn: "CHR 0x0A \<notin> set (join '','' ws)" if "\<forall>w \<in> set ws. rx_test WG_HOST_OR_CIDR w" for ws
    using set_join_subset [of "'',''" ws] rx_no_newline [of WG_HOST_OR_CIDR] that by fastforce
  have any: "\<forall>w \<in> set [''0.0.0.0/0'', ''::/0'']. rx_test WG_HOST_OR_CIDR w" by code_simp
  have nlk: "CHR 0x0A \<notin> set w" if "w \<in> set ?lines" for w
    using that jn [OF assms(9)] jn [OF assms(10)] jn [OF any] base64_no_newline assms(7,8)
      rx_no_newline [OF ep] by (auto simp: ini_field_def)
  have ls: "split_on CHR 0x0A config = ?lines"
    unfolding c nl_def by (rule split_on_join) (use nlk in auto)
  have ka: "wg_value_ok ''persistentkeepalive'' (trim ''15'')" by code_simp
  note vs = wg_list_field [OF _ assms(9), of "''address''"]
    wg_list_field [OF _ assms(10), of "''dns''"]
    wg_list_field [OF _ any, of "''allowedips''"] wg_key_field [OF _ assms(7), of "''privatekey''"]
    wg_key_field [OF _ assms(8), of "''publickey''"] wg_endpoint_field [OF ep, simplified] ka
  have "accepts (wg_scan None ?lines)"
    by (simp add: vs add: wg.scan_header [OF header_lines(1)] wg.scan_header [OF header_lines(2)] wg.scan_blank
        wg.scan_field ini_keys wg_allow_def WG_INTERFACE_KEYS_def WG_PEER_KEYS_def wg.scan_Nil
        del: wg_scan.simps join.simps list.pred_inject)
  moreover have "endpoint_host ?lines = Some host"
    using assms(4-6) ne
    by (simp add: endpoint_host_field endpoint_host_plain endpoint_field [unfolded append.simps] ini_keys
        del: endpoint_host.simps join.simps list.pred_inject)
  ultimately show ?thesis
    by (simp add: assertSafeWireguardConfig_def extractWireguardEndpointHost_def ls accepts_unit)
qed

lemma wg_build_accepted_witness:
  "\<exists>config. buildWireguardConfig sample_handshake [''n.example''] ''AAAA'' [''1.1.1.1''] = ok config \<and>
     assertSafeWireguardConfig config = ok () \<and> extractWireguardEndpointHost config = Some ''n.example''"
proof -
  obtain config where c: "buildWireguardConfig sample_handshake [''n.example''] ''AAAA'' [''1.1.1.1''] = ok config"
    by (simp add: buildWireguardConfig_def sample_handshake_def first_of_def)
  have "rx_test WG_KEY ''AAAA'' \<and> rx_test WG_KEY ''BBBB'' \<and> rx_test WG_HOST_OR_CIDR ''1.1.1.1'' \<and>
      rx_test WG_HOST_OR_CIDR ''10.8.0.2/32'' \<and> list_all host_char ''n.example''" by code_simp
  then have "assertSafeWireguardConfig config = ok () \<and> extractWireguardEndpointHost config = Some ''n.example''"
    by (intro wg_build_accepted [OF c, of "\<lparr>port = JNum (NInt 51820), public_key = ''BBBB''\<rparr>" "[]" 51820])
       (simp_all add: sample_handshake_def)
  with c show ?thesis by blast
qed

text \<open>C34. \<open>buildAmneziaWgConfig\<close> and the guard agree for every metadata the node may send: when the
  builder returns, the guard accepts the result, the endpoint host read back is the node's
  address, and the junk parameters are in range with Jmin < Jmax. Only the user's own private
  key and the host's characters are assumed.\<close>

theorem awg_build_accepted:
  assumes "buildAmneziaWgConfig (x, y, z) meta nodeAddrs assigned privateKey = ok config"
    and "rx_test WG_KEY privateKey" and "awg_host nodeAddrs = Some host" and "list_all host_char host"
    and "0 \<le> x \<and> x < 1" and "0 \<le> y \<and> y < 1" and "0 \<le> z \<and> z < 1"
  shows "assertSafeAmneziaWgConfig config = ok () \<and> extractWireguardEndpointHost config = Some host \<and>
    (\<exists>jc jmin jmax. {ini_field ''Jc'' (show_int jc), ini_field ''Jmin'' (show_int jmin),
         ini_field ''Jmax'' (show_int jmax)} \<subseteq> set (split_on CHR 0x0A config) \<and>
       3 \<le> jc \<and> jc \<le> 10 \<and> 64 \<le> jmin \<and> jmin < jmax \<and> jmax \<le> 1024)"
  using assms(1)
proof (rule awg_builder_cases)
  fix entry ps
  assume b: "rx_test WG_KEY (awg_pub ps)" "0 < awg_port_no ps" "awg_port_no ps \<le> 65535"
    "awg_host nodeAddrs = Some (awg_endpoint_host ps)" "check_assigned assigned = Inr ()"
    "check_obfuscation entry = Inr (awg_paddings ps, awg_headers ps, awg_tier ps)"
    and config: "config = join nl (awg_lines (x, y, z) entry assigned privateKey ps)"
  have host: "awg_endpoint_host ps = host" using b(4) assms(3) by simp
  have "host \<noteq> []" using assms(3) by (auto simp: awg_host_def find_Some_iff)
  then have "awg_host_ok ps" using b assms(4) host by (simp add: awg_host_ok_def)
  note l = awg_lines_ok [OF b(6,5) assms(2) this assms(5-7)]
  have ls: "split_on CHR 0x0A config = awg_lines (x, y, z) entry assigned privateKey ps"
    unfolding config nl_def by (rule split_on_join) (use l(3) in \<open>auto simp: awg_lines_split\<close>)
  show ?thesis
  proof (intro conjI exI)
    show "assertSafeAmneziaWgConfig config = ok ()" "extractWireguardEndpointHost config = Some host"
      using l(1,2) host by (simp_all add: assertSafeAmneziaWgConfig_def extractWireguardEndpointHost_def
          ls accepts_unit)
    show "{ini_field ''Jc'' (show_int (randInt JC_RANGE z)), ini_field ''Jmin'' (show_int (randInt JMIN_RANGE x)),
        ini_field ''Jmax'' (show_int (randInt JMAX_RANGE y))} \<subseteq> set (split_on CHR 0x0A config)"
      unfolding ls by (simp add: awg_lines_split awg_obf_fields_def)
  qed (use junk_ranges [OF assms(5-7)] in simp_all)
qed

lemma awg_build_accepted_witness:
  "\<exists>config. buildAmneziaWgConfig (1/2, 1/3, 0) sample_awg_metadata [''n.example''] [JStr ''10.8.0.2/32''] ''AAAA'' = ok config \<and>
     assertSafeAmneziaWgConfig config = ok ()"
proof -
  let ?e = "hd (elems sample_awg_metadata)"
  have "accepts (check_assigned [JStr ''10.8.0.2/32''])" "accepts (check_obfuscation ?e)"
    by code_simp+
  then obtain u ps hs t where ob: "check_assigned [JStr ''10.8.0.2/32''] = Inr u"
      "check_obfuscation ?e = Inr (ps, hs, t)"
    by (auto simp: accepts_iff)
  have e: "first_of (elems sample_awg_metadata) = Some ?e" "?e \<noteq> JUndef" "?e \<noteq> JNull"
    by (simp_all add: sample_awg_metadata_def first_of_def)
  have f: "awg_key_field (jget ''public_key'' ?e) = Some ''AAAAAAAAAAAAAAAAAAAAAAAAAAAAAAAAAAAAAAAAAAA=''"
      "awg_port (jget ''port'' ?e) = Some 51820"
    by code_simp (simp add: sample_awg_metadata_def awg_port_def)
  have h: "awg_host [''n.example''] = Some ''n.example''" "rx_test WG_KEY ''AAAA''" "list_all host_char ''n.example''"
    by code_simp+
  obtain config where c:
    "buildAmneziaWgConfig (1/2, 1/3, 0) sample_awg_metadata [''n.example''] [JStr ''10.8.0.2/32''] ''AAAA'' = ok config"
    by (simp add: buildAmneziaWgConfig_def ob e f h(1))
  have "assertSafeAmneziaWgConfig config = ok ()"
    using awg_build_accepted [OF c h(2,1,3)] by simp
  with c show ?thesis by blast
qed

end
