(* ===== verification/Decisions.thy ===== *)
theory Decisions
  imports Complex_Main Json
begin

text \<open>
  The decisions of the connect, refund and reconnect paths
  (\<open>src/main/vpn/connect-decisions.ts\<close>, \<open>src/main/vpn/vpn-parse.ts\<close>): each is a pure function of
  what the caller measured, so it is modelled as one definition per function. Byte and second
  counters are integers; the quota percentages are exact rationals where the code computes them
  in doubles.
\<close>

section \<open>Refunds and their messages\<close>

definition REFUND_FAILED_TAIL :: string where
  "REFUND_FAILED_TAIL = ''Could not auto-cancel the session''"

text \<open>\<open>reason.replace(/\s*\.+\s*$/, '')\<close>: the longest suffix of white space, full stops and white
  space, when it has a full stop.\<close>

definition trimTrailingStop :: "string \<Rightarrow> string" where
  "trimTrailingStop reason =
     (let t = trim_end reason
      in if t \<noteq> '''' \<and> last t = CHR ''.''
         then trim_end (rev (dropWhile (\<lambda>c. c = CHR ''.'') (rev t))) else reason)"

record failure_opts =
  fo_refunded :: bool
  fo_isDeposit :: bool
  fo_sessionId :: string
  fo_nodeMoniker :: string
  fo_reason :: string
  fo_policyRejected :: bool

definition dquote :: string where "dquote = [CHR 0x22]"

definition sessionFailureMessage :: "failure_opts \<Rightarrow> string" where
  "sessionFailureMessage opts =
     (let preamble =
        (if fo_policyRejected opts
         then ''Node '' @ dquote @ fo_nodeMoniker opts @ dquote @
              '' only offers unencrypted (VLess-none) inbounds, not connecting''
         else ''Could not establish the tunnel to '' @ dquote @ fo_nodeMoniker opts @ dquote @ '': '' @
              trimTrailingStop (fo_reason opts));
      tl =
        (if fo_refunded opts
         then ''The session was cancelled'' @
              (if fo_isDeposit opts then '' and your deposit refunded'' else '''') @ ''.''
         else REFUND_FAILED_TAIL @ ''. Open the Session tab and cancel session #'' @
              fo_sessionId opts @ '' manually.'')
      in preamble @ ''. '' @ tl)"

text \<open>\<open>refundEachInTurn\<close>: \<open>cancel\<close> is the injected transaction; it takes the state it changes
  (the account on chain) and returns the new one, with \<open>False\<close> when it rejects. One call starts
  only after the previous one has settled.\<close>

record refund =
  refund_session :: string
  refund_done :: bool

fun refundEachInTurn :: "('s \<Rightarrow> string \<Rightarrow> 's \<times> bool) \<Rightarrow> 's \<Rightarrow> string list \<Rightarrow> 's \<times> refund list" where
  "refundEachInTurn cancel s [] = (s, [])"
| "refundEachInTurn cancel s (sessionId # rest) =
     (let (s1, done) = cancel s sessionId;
          (s2, results) = refundEachInTurn cancel s1 rest
      in (s2, \<lparr>refund_session = sessionId, refund_done = done\<rparr> # results))"

datatype hop_role = Entry | Exit

definition role_name :: "hop_role \<Rightarrow> string" where
  "role_name r = (case r of Entry \<Rightarrow> ''entry'' | Exit \<Rightarrow> ''exit'')"

record chain_failure =
  cf_reason :: string
  cf_policyRejected :: bool
  cf_failedRole :: "hop_role option"
  cf_nodeMoniker :: string
  cf_refunds :: "refund list"

definition chainFailureMessage :: "chain_failure \<Rightarrow> string" where
  "chainFailureMessage opts =
     (let hop = (case cf_failedRole opts of None \<Rightarrow> '''' | Some r \<Rightarrow> '' ('' @ role_name r @ '' hop)'');
          preamble =
            (if cf_policyRejected opts
             then ''Node '' @ dquote @ cf_nodeMoniker opts @ dquote @
                  '' only offers unencrypted (VLess-none) inbounds, not connecting'' @ hop
             else ''Could not establish the two-hop chain'' @ hop @ '': '' @ trimTrailingStop (cf_reason opts));
          stranded = map (\<lambda>r. ''#'' @ refund_session r) (filter (\<lambda>r. \<not> refund_done r) (cf_refunds opts))
      in if cf_refunds opts = [] then preamble @ ''. No sessions were created.''
         else if stranded = [] then
           preamble @ ''. '' @
             (if length (cf_refunds opts) = 1 then ''The session was'' else ''Both sessions were'') @
             '' cancelled and your deposit'' @ (if length (cf_refunds opts) = 1 then '''' else ''s'') @
             '' refunded.''
         else
           preamble @ ''. Could not auto-cancel '' @
             (if length stranded = 1 then ''session'' else ''sessions'') @ '' '' @
             join '' and '' stranded @ ''. Open the Session tab and cancel '' @
             (if length stranded = 1 then ''it'' else ''them'') @ '' manually.'')"

section \<open>Reconnecting\<close>

datatype abort_reason = NoSession | Intentional | AutoReconnectOff

datatype reconnect_decision =
    Abort abort_reason
  | GiveUp
  | Retry nat nat \<comment> \<open>the attempt and the delay in ms\<close>

record reconnect_opts =
  ro_attempt :: nat
  ro_maxAttempts :: nat
  ro_autoReconnect :: bool
  ro_intentional :: bool
  ro_hasSession :: bool

definition backoffDelayMs :: "nat \<Rightarrow> nat" where
  "backoffDelayMs attempt = min (2 ^ attempt * 1000) 60000"

definition decideReconnect :: "reconnect_opts \<Rightarrow> reconnect_decision" where
  "decideReconnect opts =
     (if \<not> ro_hasSession opts then Abort NoSession
      else if ro_intentional opts then Abort Intentional
      else if \<not> ro_autoReconnect opts then Abort AutoReconnectOff
      else (let next_attempt = ro_attempt opts + 1
            in if next_attempt > ro_maxAttempts opts then GiveUp
               else Retry next_attempt (backoffDelayMs next_attempt)))"

section \<open>Quota\<close>

record quota_input =
  q_maxDurationSeconds :: "rat option"
  q_baselineDurationSeconds :: rat
  q_connectedSeconds :: rat
  q_maxBytes :: rat
  q_baselineBytes :: rat
  q_liveRxBytes :: rat

datatype quota_reason = Time | Data

datatype quota_verdict =
    QuotaOk rat
  | QuotaWarn rat quota_reason rat
  | QuotaExpired quota_reason

definition QUOTA_WARN_PCT :: rat where "QUOTA_WARN_PCT = 90"

definition or_else :: "'a option \<Rightarrow> 'a \<Rightarrow> 'a" where
  "or_else x d = (case x of None \<Rightarrow> d | Some v \<Rightarrow> v)"

definition usedSeconds :: "quota_input \<Rightarrow> rat" where
  "usedSeconds q = q_baselineDurationSeconds q + q_connectedSeconds q"

definition usedBytes :: "quota_input \<Rightarrow> rat" where
  "usedBytes q = q_baselineBytes q + q_liveRxBytes q"

definition timePct :: "quota_input \<Rightarrow> rat option" where
  "timePct q =
     (case q_maxDurationSeconds q of
        None \<Rightarrow> None
      | Some m \<Rightarrow> if m > 0 then Some (usedSeconds q / m * 100) else None)"

definition dataPct :: "quota_input \<Rightarrow> rat option" where
  "dataPct q = (if q_maxBytes q > 0 then Some (usedBytes q / q_maxBytes q * 100) else None)"

definition evaluateQuota :: "quota_input \<Rightarrow> quota_verdict" where
  "evaluateQuota q =
     (if timePct q = None \<and> dataPct q = None then QuotaOk 0
      else
        (let reason = (if or_else (dataPct q) (-1) > or_else (timePct q) (-1) then Data else Time);
             pct = max (or_else (timePct q) 0) (or_else (dataPct q) 0)
         in if pct \<ge> 100 then QuotaExpired reason
            else if pct \<ge> QUOTA_WARN_PCT then
              QuotaWarn pct reason
                (if reason = Time then max 0 (or_else (q_maxDurationSeconds q) 0 - usedSeconds q)
                 else max 0 (q_maxBytes q - usedBytes q))
            else QuotaOk pct))"

section \<open>Node protocol tags\<close>

definition SERVICE_TYPE_ALIASES :: "(string \<times> int) list" where
  "SERVICE_TYPE_ALIASES =
     [(''wireguard'', 1), (''v2ray'', 2), (''openvpn'', 3), (''xray'', 4), (''amneziawg'', 5),
      (''awg'', 5), (''hysteria2'', 6), (''hy2'', 6)]"

text \<open>\<open>SERVICE_TYPE_ALIASES[key] ?? null\<close> looks the key up in an object literal, so a key of
  \<open>Object.prototype\<close> finds the inherited member, which is not a number. Of its members only
  \<open>constructor\<close> survives the lower-casing and the removal of underscores.\<close>

datatype service_tag = NoTag | Tag int | InheritedMember string

definition serviceTypeToNodeType :: "js \<Rightarrow> service_tag" where
  "serviceTypeToNodeType value =
     (case value of
        JNum (NInt i) \<Rightarrow> if 1 \<le> i \<and> i \<le> 6 then Tag i else NoTag
      | JStr s \<Rightarrow>
          (let key = filter (\<lambda>c. \<not> (is_ws c \<or> c = CHR ''_'' \<or> c = CHR ''-'')) (to_lower s)
           in if key \<noteq> '''' \<and> list_all is_digit key
              then (if 1 \<le> read_nat key \<and> read_nat key \<le> 6 then Tag (int (read_nat key)) else NoTag)
              else (case map_of SERVICE_TYPE_ALIASES key of
                      Some t \<Rightarrow> Tag t
                    | None \<Rightarrow> if key = ''constructor'' then InheritedMember key else NoTag))
      | _ \<Rightarrow> NoTag)"

definition isDnsProvisionError :: "string \<Rightarrow> bool" where
  "isDnsProvisionError msg \<longleftrightarrow> contains_ci ''resolvconf'' msg"

section \<open>Dead tunnels\<close>

definition ONE_WAY_TX_FLOOR_BYTES :: int where "ONE_WAY_TX_FLOOR_BYTES = 64 * 1024"
definition ONE_WAY_SILENCE_MS :: int where "ONE_WAY_SILENCE_MS = 90000"

definition isTunnelOneWay :: "int \<Rightarrow> int \<Rightarrow> bool" where
  "isTunnelOneWay txSinceLastRx msSinceLastRx \<longleftrightarrow>
     txSinceLastRx \<ge> ONE_WAY_TX_FLOOR_BYTES \<and> msSinceLastRx \<ge> ONE_WAY_SILENCE_MS"

definition WG_HANDSHAKE_DEAD_SECONDS :: int where "WG_HANDSHAKE_DEAD_SECONDS = 180"

definition isWireGuardPeerGone :: "int option \<Rightarrow> bool" where
  "isWireGuardPeerGone ageSeconds =
     (case ageSeconds of None \<Rightarrow> False | Some a \<Rightarrow> a \<ge> WG_HANDSHAKE_DEAD_SECONDS)"

definition WG_HANDSHAKE_STALE_SAMPLES :: nat where "WG_HANDSHAKE_STALE_SAMPLES = 3"

definition latestProofOfLifeMs :: "int \<Rightarrow> int \<Rightarrow> int" where
  "latestProofOfLifeMs handshakeCompletedAtMs lastRxMovedAtMs = max handshakeCompletedAtMs lastRxMovedAtMs"

datatype tunnel_mode = Tunnel | Proxy

definition usageAccruesWithoutTunnelInterface :: "tunnel_mode \<Rightarrow> bool" where
  "usageAccruesWithoutTunnelInterface mode \<longleftrightarrow> mode = Proxy"

definition prunableUsageIds :: "string list \<Rightarrow> string list \<Rightarrow> string option \<Rightarrow> string list" where
  "prunableUsageIds remembered liveSessionIds activeSessionId =
     (if liveSessionIds = [] then []
      else filter (\<lambda>i. i \<notin> set liveSessionIds \<and> Some i \<noteq> activeSessionId) remembered)"

definition para :: string where "para = [CHR 0x0A, CHR 0x0A]"

definition deadTunnelMessage :: "bool \<Rightarrow> bool \<Rightarrow> string" where
  "deadTunnelMessage nodeIssuedFreshPeer isChain =
     (if isChain then
        ''The chain came up but no traffic is getting through.'' @ para @
        ''Both hops are paid for and still open, so retry the connection first. If it fails '' @
        ''again, the exit hop is the more likely one at fault: the entry is dialled directly '' @
        ''and would have failed earlier, while an exit that accepts the connection and forwards '' @
        ''nothing looks exactly like this. End the chain and build a new one with a different exit.''
      else if nodeIssuedFreshPeer then
        ''The tunnel came up but no traffic is getting through. The node is not carrying '' @
        ''traffic for the peer it just issued.'' @ para @
        ''Your session is still open and paid for, so retry the connection. If it fails again, '' @
        ''end the session and pick a different node.''
      else
        ''The tunnel came up but no traffic is getting through. The node has dropped this '' @
        ''session'' @ [CHR 0x27] @ ''s tunnel peer.'' @ para @
        ''It will not issue a replacement: the node still holds its own record of the session, and '' @
        ''it only clears that once the session is gone from the chain. This session cannot be '' @
        ''reconnected. Every attempt rebuilds the same dead tunnel. End it from the Sessions tab '' @
        ''and start a new session.'')"

section \<open>Node API errors and the handshake retry\<close>

text \<open>\<open>err\<close> as a plain value: \<open>String(err)\<close> of an object is the default tag.\<close>

definition describeNodeApiError :: "js \<Rightarrow> jnum option \<times> string" where
  "describeNodeApiError err =
     (let response = jget ''response'' err;
          status = (case jget ''status'' response of JNum n \<Rightarrow> Some n | _ \<Rightarrow> None);
          nodeMessage = jget ''message'' (jget ''error'' (jget ''data'' response))
      in case as_string nodeMessage of
           Some m \<Rightarrow> if m \<noteq> '''' then (status, m)
             else (status, case as_string (jget ''message'' err) of Some t \<Rightarrow> t | None \<Rightarrow> to_string err)
         | None \<Rightarrow> (status, case as_string (jget ''message'' err) of Some t \<Rightarrow> t | None \<Rightarrow> to_string err))"

definition HANDSHAKE_RETRY_MAX_RETRIES :: nat where "HANDSHAKE_RETRY_MAX_RETRIES = 2"

definition shouldRetrySessionHandshake :: "jnum option \<Rightarrow> nat \<Rightarrow> bool" where
  "shouldRetrySessionHandshake status attempt \<longleftrightarrow>
     status = Some (NInt 404) \<and> attempt < HANDSHAKE_RETRY_MAX_RETRIES"

section \<open>The firewall and the proxy children\<close>

datatype firewall_action = Arm | Disarm | Rearm | NoChange

record firewall_input =
  fi_killSwitch :: bool
  fi_lanSharing :: bool
  fi_armed :: bool
  fi_armedLanSharing :: bool
  fi_tunnelActive :: bool

definition decideFirewallAction :: "firewall_input \<Rightarrow> firewall_action" where
  "decideFirewallAction i =
     (if fi_armed i \<and> \<not> fi_killSwitch i then Disarm
      else if fi_armed i \<and> fi_lanSharing i \<noteq> fi_armedLanSharing i then Rearm
      else if \<not> fi_armed i \<and> fi_killSwitch i \<and> fi_tunnelActive i then Arm
      else NoChange)"

definition isChildProxyCarryingTraffic :: "bool \<Rightarrow> bool \<Rightarrow> bool \<Rightarrow> bool" where
  "isChildProxyCarryingTraffic childAlive proxyMode tunUp =
     (if \<not> childAlive then False else proxyMode \<or> tunUp)"

section \<open>Parsing command output\<close>

definition token :: "string \<Rightarrow> string" where
  "token s = takeWhile (\<lambda>c. \<not> is_ws c) s"

text \<open>The capture of \<open>/p(\S+)/\<close>: leftmost occurrence of \<open>p\<close> followed by a non-empty token.\<close>

fun capture_after :: "string \<Rightarrow> string \<Rightarrow> string option" where
  "capture_after p [] = None"
| "capture_after p (c # cs) =
     (let rest = drop (length p) (c # cs)
      in if starts_with p (c # cs) \<and> token rest \<noteq> '''' then Some (token rest) else capture_after p cs)"

definition parseDefaultRoute :: "string \<Rightarrow> (string \<times> string) option" where
  "parseDefaultRoute output =
     (case (capture_after ''default via '' output, capture_after ''dev '' output) of
        (Some gateway, Some iface) \<Rightarrow> Some (gateway, iface)
      | _ \<Rightarrow> None)"

definition v2rayRunArgs :: "nat \<Rightarrow> string \<Rightarrow> string list" where
  "v2rayRunArgs major configFile =
     (if major \<ge> 5 then [''run'', ''-config'', configFile] else [''-config'', configFile])"

definition dotted_digits :: "string \<Rightarrow> bool" where
  "dotted_digits s =
     (let gs = split_on CHR ''.'' s in length gs = 4 \<and> list_all (\<lambda>g. g \<noteq> '''' \<and> list_all is_digit g) gs)"

definition firstIPv4FromGetent :: "string \<Rightarrow> string option" where
  "firstIPv4FromGetent output =
     find (\<lambda>ip. ip \<noteq> '''' \<and> dotted_digits ip)
       (map (\<lambda>line. token (trim line)) (split_on CHR 0x0A output))"

section \<open>Lemmas\<close>

lemma contains_append: "contains p s \<Longrightarrow> contains p (t @ s)"
  by (induction t) (auto)

lemma contains_Nil [simp]: "contains [] s"
  by (cases s) (simp_all add: starts_with_def)

lemma contains_prefix: "contains p (p @ s)"
  by (cases p) (simp_all add: starts_with_def)

lemma contains_append_left: "contains p s \<Longrightarrow> contains p (s @ t)"
proof (induction s)
  case Nil
  then show ?case by simp
next
  case (Cons c s)
  then show ?case by (auto simp: starts_with_def) (metis append_Cons append_eq_conv_conj length_append take_append take_take append_take_drop_id)
qed

lemma contains_join: "w \<in> set ws \<Longrightarrow> contains w (join sep ws)"
proof (induction ws)
  case (Cons v ws)
  show ?case
  proof (cases "ws = []")
    case True
    with Cons.prems show ?thesis using contains_prefix [of w "[]"] by simp
  next
    case False
    then have j: "join sep (v # ws) = v @ sep @ join sep ws" by (rule join_Cons)
    from Cons.prems consider "w = v" | "w \<in> set ws" by auto
    then show ?thesis
    proof cases
      case 1
      then show ?thesis unfolding j by (simp add: contains_prefix)
    next
      case 2
      then show ?thesis unfolding j using Cons.IH contains_append by blast
    qed
  qed
qed simp

lemma refunds_sessions: "map refund_session (snd (refundEachInTurn cancel s ids)) = ids"
  by (induction ids arbitrary: s) (auto simp: case_prod_beta Let_def)

lemma refunds_outcome:
  "k < length ids \<Longrightarrow> refund_done (snd (refundEachInTurn cancel s ids) ! k) =
     snd (cancel (foldl (\<lambda>s i. fst (cancel s i)) s (take k ids)) (ids ! k))"
proof (induction ids arbitrary: s k)
  case (Cons i ids)
  then show ?case by (cases k) (auto simp: case_prod_beta Let_def)
qed simp

lemma refunds_length: "length (snd (refundEachInTurn cancel s ids)) = length ids"
  using refunds_sessions [of cancel s ids] by (metis length_map)

lemma message_names_stranded:
  assumes "r \<in> set (cf_refunds opts)" and "\<not> refund_done r"
  shows "contains (''#'' @ refund_session r) (chainFailureMessage opts)"
proof -
  let ?st = "map (\<lambda>r. ''#'' @ refund_session r) (filter (\<lambda>r. \<not> refund_done r) (cf_refunds opts))"
  have "''#'' @ refund_session r \<in> set ?st" using assms by auto
  then have "contains (''#'' @ refund_session r) (join '' and '' ?st)" "?st \<noteq> []"
    using contains_join by (blast, force)
  moreover have "cf_refunds opts \<noteq> []" using assms(1) by auto
  ultimately show ?thesis
    unfolding chainFailureMessage_def Let_def
    by - (subst if_not_P, assumption, subst if_not_P, assumption,
      rule contains_append, rule contains_append, rule contains_append, rule contains_append,
      rule contains_append_left)
qed

lemma pct_iff:
  "0 < m \<Longrightarrow> 100 \<le> u * 100 / m \<longleftrightarrow> m \<le> (u :: rat)" "0 < m \<Longrightarrow> u * 100 / m < 100 \<longleftrightarrow> u < (m :: rat)"
  by (simp_all add: field_simps)

lemma pct_reached:
  "100 \<le> or_else (timePct q) 0 \<longleftrightarrow> (\<exists>m. q_maxDurationSeconds q = Some m \<and> 0 < m \<and> m \<le> usedSeconds q)"
  "100 \<le> or_else (dataPct q) 0 \<longleftrightarrow> 0 < q_maxBytes q \<and> q_maxBytes q \<le> usedBytes q"
  by (auto simp: timePct_def dataPct_def or_else_def pct_iff split: option.splits)

lemma quota_expired:
  "(\<exists>r. evaluateQuota q = QuotaExpired r) \<longleftrightarrow>
     100 \<le> or_else (timePct q) 0 \<or> 100 \<le> or_else (dataPct q) 0"
  by (auto simp: evaluateQuota_def Let_def le_max_iff_disj or_else_def)

lemma quota_warn_time:
  assumes "timePct q = Some t" and "t < 100"
  shows "0 < or_else (q_maxDurationSeconds q) 0 - usedSeconds q"
  using assms by (auto simp: timePct_def or_else_def pct_iff split: option.splits if_splits)

lemma quota_warn_data:
  assumes "dataPct q = Some d" and "d < 100"
  shows "0 < q_maxBytes q - usedBytes q"
  using assms by (auto simp: dataPct_def pct_iff split: if_splits)

lemma quota_warn:
  assumes "evaluateQuota q = QuotaWarn pct r rest"
  shows "0 < rest \<and> 90 \<le> pct \<and> pct < 100"
proof -
  let ?t = "or_else (timePct q) 0" and ?d = "or_else (dataPct q) 0"
  have p: "pct = max ?t ?d" "90 \<le> pct" "pct < 100"
    and r: "r = (if or_else (timePct q) (-1) < or_else (dataPct q) (-1) then Data else Time)"
    and rest: "rest = (if r = Time then max 0 (or_else (q_maxDurationSeconds q) 0 - usedSeconds q)
                       else max 0 (q_maxBytes q - usedBytes q))"
    using assms by (auto simp: evaluateQuota_def Let_def QUOTA_WARN_PCT_def not_le split: if_splits)
  show ?thesis
  proof (cases "or_else (timePct q) (-1) < or_else (dataPct q) (-1)")
    case True
    show ?thesis
    proof (cases "dataPct q")
      case None
      with True p show ?thesis by (cases "timePct q") (simp_all add: or_else_def)
    next
      case (Some d)
      with p have "d < 100" by (simp add: or_else_def)
      with quota_warn_data [OF Some] True p r rest show ?thesis by simp
    qed
  next
    case False
    show ?thesis
    proof (cases "timePct q")
      case None
      with False have "dataPct q = None \<or> ?d \<le> -1" by (auto simp: or_else_def split: option.splits)
      with None p show ?thesis by (cases "dataPct q") (simp_all add: or_else_def)
    next
      case (Some t)
      with p have "t < 100" by (simp add: or_else_def)
      with quota_warn_time [OF Some] False p r rest show ?thesis by simp
    qed
  qed
qed

section \<open>Properties\<close>

text \<open>A failed chain tells the user about every session still open: the refunds are attempted
  one at a time in order, each against the account state the previous one left, one rejection
  stops none of the rest, and the session of every rejected cancel is named in the message.\<close>

theorem chain_failure_names_stranded:
  assumes "cf_refunds opts = snd (refundEachInTurn cancel s ids)" and "k < length ids"
    and "\<not> snd (cancel (foldl (\<lambda>s i. fst (cancel s i)) s (take k ids)) (ids ! k))"
  shows "map refund_session (cf_refunds opts) = ids \<and>
         contains (''#'' @ ids ! k) (chainFailureMessage opts)"
proof -
  let ?r = "cf_refunds opts ! k"
  have k: "k < length (cf_refunds opts)" using assms(1,2) by (simp add: refunds_length)
  then have "refund_session ?r = ids ! k"
    using assms(1) refunds_sessions [of cancel s ids] by (metis nth_map)
  moreover have "\<not> refund_done ?r" using assms refunds_outcome by metis
  ultimately show ?thesis
    using message_names_stranded [of ?r opts] k assms(1) by (simp add: refunds_sessions)
qed

lemma chain_failure_names_stranded_witness:
  "contains ''#12'' (chainFailureMessage \<lparr>cf_reason = ''x'', cf_policyRejected = False, cf_failedRole = Some Exit,
     cf_nodeMoniker = ''n'', cf_refunds = snd (refundEachInTurn (\<lambda>s i. (Suc s, i \<noteq> ''12'')) (0::nat) [''11'', ''12''])\<rparr>)"
  using chain_failure_names_stranded [of _ "\<lambda>s i. (Suc s, i \<noteq> ''12'')" 0 "[''11'', ''12'']" 1] by simp

text \<open>The quota verdict is \<open>expired\<close> exactly when a cap that exists is used up (a session with
  no cap is never torn down), and a warning always has something left of the cap it names.\<close>

theorem quota_verdict:
  "((\<exists>r. evaluateQuota q = QuotaExpired r) \<longleftrightarrow>
      (\<exists>m. q_maxDurationSeconds q = Some m \<and> 0 < m \<and> m \<le> usedSeconds q) \<or>
      (0 < q_maxBytes q \<and> q_maxBytes q \<le> usedBytes q)) \<and>
   (\<forall>pct r rest. evaluateQuota q = QuotaWarn pct r rest \<longrightarrow> 0 < rest \<and> 90 \<le> pct \<and> pct < 100)"
  using quota_expired [of q] pct_reached [of q] quota_warn [of q] by blast

lemma quota_verdict_witness:
  "\<exists>r. evaluateQuota \<lparr>q_maxDurationSeconds = Some 3600, q_baselineDurationSeconds = 3000, q_connectedSeconds = 700,
     q_maxBytes = 0, q_baselineBytes = 0, q_liveRxBytes = 5\<rparr> = QuotaExpired r"
  using quota_verdict [of "\<lparr>q_maxDurationSeconds = Some 3600, q_baselineDurationSeconds = 3000,
     q_connectedSeconds = 700, q_maxBytes = 0, q_baselineBytes = 0, q_liveRxBytes = 5\<rparr>"]
  by (simp add: usedSeconds_def usedBytes_def)

text \<open>A self-reported service type is a protocol tag from 1 to 6, nothing, or (the defect
  noted in the findings) an inherited member of the alias table, which only the word
  \<open>constructor\<close> reaches.\<close>

theorem service_type_range:
  "(case serviceTypeToNodeType value of
      Tag t \<Rightarrow> 1 \<le> t \<and> t \<le> 6
    | NoTag \<Rightarrow> True
    | InheritedMember k \<Rightarrow> k = ''constructor'') \<and>
   serviceTypeToNodeType (JStr ''Con-structor'') = InheritedMember ''constructor'' \<and>
   serviceTypeToNodeType (JStr ''Amnezia_WG'') = Tag 5"
proof -
  have "map_of SERVICE_TYPE_ALIASES k = Some t \<Longrightarrow> 1 \<le> t \<and> t \<le> 6" for k t
    by (auto simp: SERVICE_TYPE_ALIASES_def split: if_splits)
  then have "case serviceTypeToNodeType value of
      Tag t \<Rightarrow> 1 \<le> t \<and> t \<le> 6 | NoTag \<Rightarrow> True | InheritedMember k \<Rightarrow> k = ''constructor''"
    by (auto simp: serviceTypeToNodeType_def Let_def split: js.splits jnum.splits option.splits)
  moreover have "serviceTypeToNodeType (JStr ''Con-structor'') = InheritedMember ''constructor''"
    "serviceTypeToNodeType (JStr ''Amnezia_WG'') = Tag 5" by code_simp+
  ultimately show ?thesis by blast
qed

text \<open>Forgetting remembered usage never drops a session the chain still lists or the one in
  use, and drops nothing when the chain answered with no session at all.\<close>

theorem prune_keeps_live:
  assumes "i \<in> set (prunableUsageIds remembered live active)"
  shows "i \<in> set remembered \<and> i \<notin> set live \<and> active \<noteq> Some i \<and> live \<noteq> []"
  using assms by (auto simp: prunableUsageIds_def split: if_splits)

lemma prune_keeps_live_witness: "''1'' \<notin> set [''2''] \<and> Some ''3'' \<noteq> Some ''1''"
  using prune_keeps_live [of "''1''" "[''1'', ''2'']" "[''2'']" "Some ''3''"]
  by (simp add: prunableUsageIds_def)

end
