(* ===== verification/Firewall.thy ===== *)
theory Firewall
  imports Decisions WgConfig
begin

text \<open>
  The kill switch and the DNS override: \<open>src/main/vpn/kill-switch.ts\<close>, the firewall handlers of
  \<open>src/main/ipc-handlers.ts\<close> and the endpoint lookup of \<open>src/main/vpn/vpn-manager.ts\<close>.

  The state holds the two marker files, \<open>armedWith\<close> and the two failure flags of the process,
  and ghost fields: what the privileged helper may have left in the system (\<open>chain\<close>, a DROP-all
  chain, and \<open>resolv\<close>, an overridden resolver), the helper calls made with their outcome, the
  marker writes that failed, and \<open>instants\<close>, the markers and the system as they stood after each
  single write, unlink and helper call, so that a process that dies inside a handler is an element
  of that list. The environment says which helper calls succeed, which marker writes and which
  unlinks. A rejected \<open>killswitch-on\<close> or \<open>dns-set\<close> may have taken effect in part, so the ghost field
  is set in either case; a rejected \<open>killswitch-off\<close> or \<open>dns-restore\<close> may have left everything in place.
  A marker write that fails is swallowed, and what follows it goes on without the marker.
\<close>

section \<open>State\<close>

datatype protocol = WireGuard | AmneziaWg | V2Ray | XRay | Hysteria2 | OpenVpn

record fw_settings =
  killSwitch :: bool
  lanSharing :: bool
  dnsResolver :: string

record armed_with =
  arm_iface :: string
  arm_remoteHost :: string
  arm_dnsIp :: "string option"
  arm_lanSharing :: bool

text \<open>Armed marker, resolver marker, chain, resolver override.\<close>

type_synonym instant = "bool \<times> bool \<times> bool \<times> bool"

record fw =
  armedMarker :: bool
  dnsMarker :: bool
  armedWith :: "armed_with option"
  killSwitchFailed :: bool
  killSwitchTeardownFailed :: bool
  chain :: bool
  resolv :: bool
  calls :: "(string list \<times> bool) list"
  failedWrites :: "string list"
  instants :: "instant list"

record fw_env =
  fe_run :: "string list \<Rightarrow> bool"
  fe_write :: "string \<Rightarrow> bool"
  fe_unlink :: "string \<Rightarrow> bool"

definition KILLSWITCH_MARKER :: string where "KILLSWITCH_MARKER = ''killswitch-armed.state''"
definition DNS_MARKER :: string where "DNS_MARKER = ''dns-override.state''"

lemma markers_differ [simp]: "KILLSWITCH_MARKER \<noteq> DNS_MARKER" "DNS_MARKER \<noteq> KILLSWITCH_MARKER"
  by (simp_all add: KILLSWITCH_MARKER_def DNS_MARKER_def)

section \<open>Single writes, unlinks and helper calls\<close>

definition instant_of :: "fw \<Rightarrow> instant" where
  "instant_of s = (armedMarker s, dnsMarker s, chain s, resolv s)"

definition passed :: "fw \<Rightarrow> fw" where
  "passed s = s\<lparr>instants := instants s @ [instant_of s]\<rparr>"

definition markKillSwitchArmed :: "fw_env \<Rightarrow> fw \<Rightarrow> fw" where
  "markKillSwitchArmed e s =
     passed (if fe_write e KILLSWITCH_MARKER then s\<lparr>armedMarker := True\<rparr>
             else s\<lparr>failedWrites := failedWrites s @ [KILLSWITCH_MARKER]\<rparr>)"

definition clearKillSwitchArmed :: "fw_env \<Rightarrow> fw \<Rightarrow> fw" where
  "clearKillSwitchArmed e s = passed (if fe_unlink e KILLSWITCH_MARKER then s\<lparr>armedMarker := False\<rparr> else s)"

definition markDnsOverridden :: "fw_env \<Rightarrow> fw \<Rightarrow> fw" where
  "markDnsOverridden e s =
     passed (if fe_write e DNS_MARKER then s\<lparr>dnsMarker := True\<rparr>
             else s\<lparr>failedWrites := failedWrites s @ [DNS_MARKER]\<rparr>)"

definition clearDnsOverridden :: "fw_env \<Rightarrow> fw \<Rightarrow> fw" where
  "clearDnsOverridden e s = passed (if fe_unlink e DNS_MARKER then s\<lparr>dnsMarker := False\<rparr> else s)"

text \<open>A helper call, with what it may have left in the system.\<close>

definition privileged :: "fw_env \<Rightarrow> string list \<Rightarrow> fw \<Rightarrow> fw" where
  "privileged e args s =
     (let done' = fe_run e args; verb = hd args
      in passed (s\<lparr>calls := calls s @ [(args, done')],
           chain := (verb = ''killswitch-on'' \<or> chain s \<and> \<not> (verb = ''killswitch-off'' \<and> done')),
           resolv := (verb = ''dns-set'' \<or> resolv s \<and> \<not> (verb = ''dns-restore'' \<and> done'))\<rparr>))"

section \<open>\<open>kill-switch.ts\<close>\<close>

definition LAN_SHARING_ARG :: string where "LAN_SHARING_ARG = ''lan-sharing''"

definition killswitch_args :: "string \<Rightarrow> string \<Rightarrow> string option \<Rightarrow> bool \<Rightarrow> string list" where
  "killswitch_args vpnInterface remoteHost dnsIp lan =
     [''killswitch-on'', vpnInterface, remoteHost] @
     (case dnsIp of None \<Rightarrow> [] | Some d \<Rightarrow> if d \<noteq> '''' \<and> d \<noteq> ''system'' then [d] else []) @
     (if lan then [LAN_SHARING_ARG] else [])"

text \<open>The Boolean is \<open>False\<close> when the call throws.\<close>

definition enableKillSwitch ::
  "fw_env \<Rightarrow> string \<Rightarrow> string \<Rightarrow> string option \<Rightarrow> bool \<Rightarrow> fw \<Rightarrow> fw \<times> bool" where
  "enableKillSwitch e vpnInterface remoteHost dnsIp lan s =
     (let args = killswitch_args vpnInterface remoteHost dnsIp lan;
          s1 = markKillSwitchArmed e s
      in (privileged e args s1, fe_run e args))"

definition disableKillSwitch :: "fw_env \<Rightarrow> fw \<Rightarrow> fw \<times> bool" where
  "disableKillSwitch e s =
     (let s1 = privileged e [''killswitch-off''] s
      in if fe_run e [''killswitch-off''] then (clearKillSwitchArmed e s1, True) else (s1, False))"

section \<open>DNS override\<close>

definition DEFAULT_KILLSWITCH_DNS :: string where "DEFAULT_KILLSWITCH_DNS = ''1.1.1.1''"

definition effectiveV2RayResolverIp :: "fw_settings \<Rightarrow> string option" where
  "effectiveV2RayResolverIp settings =
     (if dnsResolver settings \<noteq> ''system'' then Some (dnsResolver settings)
      else if killSwitch settings then Some DEFAULT_KILLSWITCH_DNS else None)"

definition wireguardResolverIp :: "fw_settings \<Rightarrow> string option" where
  "wireguardResolverIp settings =
     (if dnsResolver settings = ''system'' then None else Some (dnsResolver settings))"

text \<open>The error of a rejected \<open>dns-set\<close> is logged and dropped.\<close>

definition setDnsOverride :: "fw_env \<Rightarrow> string \<Rightarrow> fw \<Rightarrow> fw" where
  "setDnsOverride e ip s = privileged e [''dns-set'', ip] (markDnsOverridden e s)"

definition restoreDnsOverride :: "fw_env \<Rightarrow> fw \<Rightarrow> fw" where
  "restoreDnsOverride e s =
     (if dnsMarker s then
        (let s1 = privileged e [''dns-restore''] s
         in if fe_run e [''dns-restore''] then clearDnsOverridden e s1 else s1)
      else s)"

section \<open>The endpoint to let through\<close>

text \<open>\<open>getWireGuardRemoteHost\<close>, from the text of the active config file if there is one.\<close>

definition getWireGuardRemoteHost :: "string option \<Rightarrow> string option" where
  "getWireGuardRemoteHost file =
     (case file of
        None \<Rightarrow> None
      | Some config \<Rightarrow>
          (case extractWireguardEndpointHost config of
             None \<Rightarrow> None
           | Some host \<Rightarrow> if host \<noteq> '''' \<and> dotted_digits host then Some host else None))"

definition isWgLike :: "protocol \<Rightarrow> bool" where
  "isWgLike p \<longleftrightarrow> p = WireGuard \<or> p = AmneziaWg"

definition tunnel_iface :: "protocol \<Rightarrow> string" where
  "tunnel_iface p =
     (if isWgLike p then ''sntl0'' else if p = OpenVpn then ''sntl-ovpn'' else ''sntl-tun'')"

text \<open>\<open>remote p\<close> is the endpoint lookup for the live tunnel. The second component is \<open>None\<close> when
  \<open>enableKillSwitch\<close> throws.\<close>

definition armKillSwitch ::
  "fw_env \<Rightarrow> (protocol \<Rightarrow> string option) \<Rightarrow> protocol \<Rightarrow> string option \<Rightarrow> bool \<Rightarrow> fw \<Rightarrow>
     fw \<times> bool option" where
  "armKillSwitch e remote p dnsIp lan s =
     (case remote p of
        None \<Rightarrow> (s, Some False)
      | Some host \<Rightarrow>
          (case enableKillSwitch e (tunnel_iface p) host dnsIp lan s of
             (s1, False) \<Rightarrow> (s1, None)
           | (s1, True) \<Rightarrow>
               (s1\<lparr>armedWith := Some \<lparr>arm_iface = tunnel_iface p, arm_remoteHost = host,
                   arm_dnsIp = dnsIp, arm_lanSharing = lan\<rparr>\<rparr>, Some True)))"

section \<open>The handlers\<close>

definition needs_dns_set :: "protocol \<Rightarrow> bool" where
  "needs_dns_set p \<longleftrightarrow> p = V2Ray \<or> p = XRay \<or> p = Hysteria2 \<or> p = OpenVpn"

definition applyPostConnectSettings ::
  "fw_env \<Rightarrow> (protocol \<Rightarrow> string option) \<Rightarrow> fw_settings \<Rightarrow> protocol \<Rightarrow> fw \<Rightarrow> fw" where
  "applyPostConnectSettings e remote settings p s0 =
     (let s = s0\<lparr>killSwitchFailed := False, killSwitchTeardownFailed := False\<rparr>;
          dnsIp = (if needs_dns_set p then effectiveV2RayResolverIp settings else None);
          s1 = (case dnsIp of None \<Rightarrow> s | Some ip \<Rightarrow> if ip = '''' then s else setDnsOverride e ip s)
      in if killSwitch settings then
           (case armKillSwitch e remote p dnsIp (lanSharing settings) s1 of
              (s2, Some True) \<Rightarrow> s2
            | (s2, _) \<Rightarrow> s2\<lparr>killSwitchFailed := True\<rparr>)
         else s1)"

definition revertPostConnectSettings :: "fw_env \<Rightarrow> fw \<Rightarrow> fw" where
  "revertPostConnectSettings e s0 =
     (let s = s0\<lparr>killSwitchFailed := False\<rparr>;
          s1 = (if armedMarker s then
                  (let (s2, teardownOk) = disableKillSwitch e s;
                       s3 = s2\<lparr>killSwitchTeardownFailed := \<not> teardownOk\<rparr>
                   in if teardownOk then s3\<lparr>armedWith := None\<rparr> else s3)
                else s\<lparr>killSwitchTeardownFailed := False, armedWith := None\<rparr>)
      in restoreDnsOverride e s1)"

text \<open>\<open>tunnelActive\<close> is \<open>isVpnActive()\<close>, \<open>desired\<close> the protocol of the session.\<close>

definition fw_input_of :: "fw_settings \<Rightarrow> bool \<Rightarrow> fw \<Rightarrow> firewall_input" where
  "fw_input_of settings tunnelActive s =
     \<lparr>fi_killSwitch = killSwitch settings, fi_lanSharing = lanSharing settings, fi_armed = armedMarker s,
      fi_armedLanSharing = (case armedWith s of None \<Rightarrow> False | Some a \<Rightarrow> arm_lanSharing a),
      fi_tunnelActive = tunnelActive\<rparr>"

definition reapplyFirewall ::
  "fw_env \<Rightarrow> (protocol \<Rightarrow> string option) \<Rightarrow> fw_settings \<Rightarrow> bool \<Rightarrow> protocol option \<Rightarrow> fw \<Rightarrow> fw" where
  "reapplyFirewall e remote settings tunnelActive desired s =
     (case decideFirewallAction (fw_input_of settings tunnelActive s) of
        NoChange \<Rightarrow> s
      | Disarm \<Rightarrow>
          (let (s1, teardown) = disableKillSwitch e s;
               s2 = s1\<lparr>killSwitchTeardownFailed := \<not> teardown\<rparr>
           in if teardown then s2\<lparr>armedWith := None, killSwitchFailed := False\<rparr> else s2)
      | Rearm \<Rightarrow>
          (case armedWith s of
             None \<Rightarrow> s
           | Some a \<Rightarrow>
               (case enableKillSwitch e (arm_iface a) (arm_remoteHost a) (arm_dnsIp a) (lanSharing settings) s of
                  (s1, False) \<Rightarrow> s1\<lparr>killSwitchFailed := True\<rparr>
                | (s1, True) \<Rightarrow> s1\<lparr>armedWith := Some (a\<lparr>arm_lanSharing := lanSharing settings\<rparr>),
                                 killSwitchFailed := False\<rparr>))
      | Arm \<Rightarrow>
          (case desired of
             None \<Rightarrow> s\<lparr>killSwitchFailed := True\<rparr>
           | Some p \<Rightarrow>
               (let dnsIp = (if needs_dns_set p then effectiveV2RayResolverIp settings else None);
                    s1 = (case dnsIp of None \<Rightarrow> s
                          | Some ip \<Rightarrow> if ip \<noteq> '''' \<and> \<not> dnsMarker s then setDnsOverride e ip s else s)
                in case armKillSwitch e remote p dnsIp (lanSharing settings) s1 of
                     (s2, None) \<Rightarrow> s2\<lparr>killSwitchFailed := True\<rparr>
                   | (s2, Some armed) \<Rightarrow> s2\<lparr>killSwitchFailed := \<not> armed\<rparr>)))"

text \<open>\<open>live\<close> is \<open>getConnectionStatus().connected\<close>.\<close>

definition healStrandedKillSwitch :: "fw_env \<Rightarrow> bool \<Rightarrow> fw \<Rightarrow> fw" where
  "healStrandedKillSwitch e live s =
     (if armedMarker s \<and> \<not> live then revertPostConnectSettings e s else s)"

section \<open>Steps and the marker invariant\<close>

text \<open>Any order of the handlers, whatever the helper and the disk answer. A process that starts
  again has forgotten its own state and finds the marker files and whatever is installed; one that
  died inside a handler left them as they were after one of its single writes, unlinks and calls.\<close>

definition start_again :: "instant \<Rightarrow> fw \<Rightarrow> fw" where
  "start_again i s =
     (case i of (a, d, c, r) \<Rightarrow>
        s\<lparr>armedMarker := a, dnsMarker := d, chain := c, resolv := r, armedWith := None, killSwitchFailed := False,
          killSwitchTeardownFailed := False\<rparr>)"

inductive fw_handler :: "fw \<Rightarrow> fw \<Rightarrow> bool" where
  connect: "fw_handler s (applyPostConnectSettings e remote settings p s)"
| revert: "fw_handler s (revertPostConnectSettings e s)"
| restore_dns: "fw_handler s (restoreDnsOverride e s)"
| reapply: "fw_handler s (reapplyFirewall e remote settings active desired s)"
| heal: "fw_handler s (healStrandedKillSwitch e live s)"

inductive fw_step :: "fw \<Rightarrow> fw \<Rightarrow> bool" where
  handled: "fw_handler s t \<Longrightarrow> fw_step s t"
| restart: "fw_step s (start_again (instant_of s) s)"
| died: "fw_handler s t \<Longrightarrow> i \<in> set (drop (length (instants s)) (instants t)) \<Longrightarrow> fw_step s (start_again i t)"

definition fw_init :: fw where
  "fw_init = \<lparr>armedMarker = False, dnsMarker = False, armedWith = None, killSwitchFailed = False,
     killSwitchTeardownFailed = False, chain = False, resolv = False, calls = [], failedWrites = [], instants = []\<rparr>"

text \<open>Whatever may be installed has its marker, now and at every instant passed, unless a write of
  that marker has failed.\<close>

definition marked :: "fw \<Rightarrow> bool" where
  "marked s \<longleftrightarrow>
     (KILLSWITCH_MARKER \<notin> set (failedWrites s) \<longrightarrow>
        list_all (\<lambda>(a, d, c, r). c \<longrightarrow> a) (instant_of s # instants s)) \<and>
     (DNS_MARKER \<notin> set (failedWrites s) \<longrightarrow>
        list_all (\<lambda>(a, d, c, r). r \<longrightarrow> d) (instant_of s # instants s))"

lemma marked_init: "marked fw_init"
  by (simp add: marked_def fw_init_def instant_of_def)

lemma marked_fields [simp]:
  "marked (s\<lparr>killSwitchFailed := b\<rparr>) = marked s" "marked (s\<lparr>killSwitchTeardownFailed := b\<rparr>) = marked s"
  "marked (s\<lparr>armedWith := w\<rparr>) = marked s"
  by (simp_all add: marked_def instant_of_def)

lemma marked_markKillSwitch: "marked s \<Longrightarrow> marked (markKillSwitchArmed e s)"
  by (auto simp: marked_def markKillSwitchArmed_def passed_def instant_of_def)

lemma marked_markDns: "marked s \<Longrightarrow> marked (markDnsOverridden e s)"
  by (auto simp: marked_def markDnsOverridden_def passed_def instant_of_def)

lemma mark_before_arm: "armedMarker (markKillSwitchArmed e s) \<or> KILLSWITCH_MARKER \<in> set (failedWrites (markKillSwitchArmed e s))"
  by (simp add: markKillSwitchArmed_def passed_def)

lemma mark_before_override: "dnsMarker (markDnsOverridden e s) \<or> DNS_MARKER \<in> set (failedWrites (markDnsOverridden e s))"
  by (simp add: markDnsOverridden_def passed_def)

lemma marked_privileged:
  assumes "marked s" and "hd args = ''killswitch-on'' \<Longrightarrow> armedMarker s \<or> KILLSWITCH_MARKER \<in> set (failedWrites s)"
    and "hd args = ''dns-set'' \<Longrightarrow> dnsMarker s \<or> DNS_MARKER \<in> set (failedWrites s)"
  shows "marked (privileged e args s)"
  using assms by (auto simp: marked_def privileged_def passed_def instant_of_def Let_def)

lemma marked_clearKillSwitch: "marked s \<Longrightarrow> \<not> chain s \<Longrightarrow> marked (clearKillSwitchArmed e s)"
  by (auto simp: marked_def clearKillSwitchArmed_def passed_def instant_of_def)

lemma marked_clearDns: "marked s \<Longrightarrow> \<not> resolv s \<Longrightarrow> marked (clearDnsOverridden e s)"
  by (auto simp: marked_def clearDnsOverridden_def passed_def instant_of_def)

lemma marked_enable: "marked s \<Longrightarrow> marked (fst (enableKillSwitch e i h d l s))"
  unfolding enableKillSwitch_def Let_def fst_conv
  by (rule marked_privileged) (use mark_before_arm in \<open>auto simp: marked_markKillSwitch killswitch_args_def\<close>)

lemma marked_disable: "marked s \<Longrightarrow> marked (fst (disableKillSwitch e s))"
  using marked_privileged [of s "[''killswitch-off'']" e]
  by (auto simp: disableKillSwitch_def Let_def intro!: marked_clearKillSwitch) (simp add: privileged_def passed_def Let_def)

lemma marked_set_dns: "marked s \<Longrightarrow> marked (setDnsOverride e ip s)"
  unfolding setDnsOverride_def
  by (rule marked_privileged) (use mark_before_override in \<open>auto simp: marked_markDns\<close>)

lemma marked_restore: "marked s \<Longrightarrow> marked (restoreDnsOverride e s)"
  using marked_privileged [of s "[''dns-restore'']" e]
  by (auto simp: restoreDnsOverride_def Let_def intro!: marked_clearDns) (simp add: privileged_def passed_def Let_def)

lemma marked_arm: "marked s \<Longrightarrow> marked (fst (armKillSwitch e remote p d l s))"
  using marked_enable [of s e] by (auto simp: armKillSwitch_def split: option.splits prod.splits bool.splits) (metis fst_conv)+

lemma marked_revert: "marked s \<Longrightarrow> marked (revertPostConnectSettings e s)"
  using marked_disable [of "s\<lparr>killSwitchFailed := False\<rparr>" e]
  by (auto simp: revertPostConnectSettings_def Let_def split: prod.splits intro!: marked_restore)

lemma marked_apply: "marked s \<Longrightarrow> marked (applyPostConnectSettings e remote settings p s)"
proof -
  assume m: "marked s"
  define s1 where "s1 = (case (if needs_dns_set p then effectiveV2RayResolverIp settings else None) of
      None \<Rightarrow> s\<lparr>killSwitchFailed := False, killSwitchTeardownFailed := False\<rparr>
    | Some ip \<Rightarrow> if ip = [] then s\<lparr>killSwitchFailed := False, killSwitchTeardownFailed := False\<rparr>
        else setDnsOverride e ip (s\<lparr>killSwitchFailed := False, killSwitchTeardownFailed := False\<rparr>))"
  have "marked s1" using m by (auto simp: s1_def marked_set_dns split: option.splits)
  then show ?thesis
    using marked_arm [of s1 e remote p _ "lanSharing settings"]
    unfolding applyPostConnectSettings_def Let_def s1_def [symmetric]
    by (auto split: prod.splits option.splits bool.splits) (metis fst_conv)+
qed

lemma marked_reapply: "marked s \<Longrightarrow> marked (reapplyFirewall e remote settings active desired s)"
proof (cases "decideFirewallAction (fw_input_of settings active s)")
  case Arm
  assume m: "marked s"
  show ?thesis
  proof (cases desired)
    case (Some p)
    define d where "d = (if needs_dns_set p then effectiveV2RayResolverIp settings else None)"
    define s1 where "s1 = (case d of None \<Rightarrow> s
      | Some ip \<Rightarrow> if ip \<noteq> [] \<and> \<not> dnsMarker s then setDnsOverride e ip s else s)"
    have "marked s1" using m by (auto simp: s1_def marked_set_dns split: option.splits)
    then have "marked (fst (armKillSwitch e remote p d (lanSharing settings) s1))" by (rule marked_arm)
    then show ?thesis
      by (auto simp: reapplyFirewall_def Arm Some Let_def d_def [symmetric] s1_def [symmetric]
          split: prod.splits option.splits)
  qed (use m Arm in \<open>simp add: reapplyFirewall_def\<close>)
next
  case Rearm
  then show "marked s \<Longrightarrow> ?thesis" using marked_enable [of s e]
    by (auto simp: reapplyFirewall_def split: option.splits prod.splits bool.splits) (metis fst_conv)+
next
  case Disarm
  then show "marked s \<Longrightarrow> ?thesis" using marked_disable [of s e]
    by (auto simp: reapplyFirewall_def Let_def split: prod.splits)
qed (simp add: reapplyFirewall_def)

lemma marked_handler: "fw_handler s t \<Longrightarrow> marked s \<Longrightarrow> marked t"
  by (cases rule: fw_handler.cases)
     (auto simp: marked_revert marked_restore marked_apply marked_reapply healStrandedKillSwitch_def)

lemma marked_at:
  assumes "marked s" and "(a, d, c, r) \<in> set (instant_of s # instants s)"
  shows "(c \<longrightarrow> a \<or> KILLSWITCH_MARKER \<in> set (failedWrites s)) \<and> (r \<longrightarrow> d \<or> DNS_MARKER \<in> set (failedWrites s))"
  using assms(1) [unfolded marked_def list_all_iff] assms(2) by blast

lemma marked_start_again: "marked s \<Longrightarrow> i \<in> set (instant_of s # instants s) \<Longrightarrow> marked (start_again i s)"
  using marked_at [of s] by (cases i) (simp add: marked_def start_again_def instant_of_def, blast)

lemma marked_step: "fw_step s t \<Longrightarrow> marked s \<Longrightarrow> marked t"
  by (cases rule: fw_step.cases) (auto intro: marked_handler intro!: marked_start_again dest: in_set_dropD)

lemma marked_reachable: "fw_step\<^sup>*\<^sup>* fw_init s \<Longrightarrow> marked s"
  by (induction rule: rtranclp_induct) (auto simp: marked_init marked_step)

section \<open>Properties\<close>

text \<open>C35. However connects, disconnects, toggles, helper failures, restarts and deaths in the middle of a
  handler interleave, a DROP-all chain that may be installed has its marker file at every instant (after each
  single write, unlink and helper call), unless a write of that marker has failed, and so has a resolver
  override; so whenever the process dies, the next teardown or the startup heal looks for it.\<close>

theorem stranded_state_is_marked:
  assumes "fw_step\<^sup>*\<^sup>* fw_init s" and "(a, d, c, r) \<in> set (instant_of s # instants s)"
  shows "(c \<longrightarrow> a \<or> KILLSWITCH_MARKER \<in> set (failedWrites s)) \<and> (r \<longrightarrow> d \<or> DNS_MARKER \<in> set (failedWrites s))"
  by (rule marked_at [OF marked_reachable [OF assms(1)] assms(2)])

definition wg_settings :: fw_settings where
  "wg_settings = \<lparr>killSwitch = True, lanSharing = False, dnsResolver = ''system''\<rparr>"

definition fw_fine :: fw_env where
  "fw_fine = \<lparr>fe_run = (\<lambda>_. True), fe_write = (\<lambda>_. True), fe_unlink = (\<lambda>_. True)\<rparr>"

text \<open>A process that dies right after the chain went up.\<close>

lemma stranded_state_is_marked_witness:
  "let t = applyPostConnectSettings fw_fine (\<lambda>_. Some ''1.2.3.4'') wg_settings V2Ray fw_init;
       s = start_again (last (instants t)) t
   in fw_step\<^sup>*\<^sup>* fw_init s \<and> chain s \<and> armedMarker s \<and> resolv s \<and> dnsMarker s"
proof -
  let ?t = "applyPostConnectSettings fw_fine (\<lambda>_. Some ''1.2.3.4'') wg_settings V2Ray fw_init"
  let ?s = "start_again (last (instants ?t)) ?t"
  have t: "instants ?t = [(False, True, False, False), (False, True, False, True), (True, True, False, True), (True, True, True, True)]"
    "failedWrites ?t = []" by code_simp+
  then have reach: "fw_step\<^sup>*\<^sup>* fw_init ?s"
    by (intro r_into_rtranclp died connect) (simp add: fw_init_def)
  have s: "instant_of ?s = (armedMarker ?s, dnsMarker ?s, True, True)" "failedWrites ?s = []"
    by (simp_all add: t start_again_def instant_of_def)
  have "(armedMarker ?s, dnsMarker ?s, True, True) \<in> set (instant_of ?s # instants ?s)" by (simp add: s(1))
  from stranded_state_is_marked [OF reach this] show ?thesis
    using reach s by (simp add: Let_def instant_of_def)
qed

text \<open>When the helper and the disk answer, a disconnect takes everything out: from any reachable state
  whose marker writes all succeeded, nothing is left installed, no marker and no failure flag remains.\<close>

theorem revert_clears:
  assumes "fw_step\<^sup>*\<^sup>* fw_init s" and "failedWrites s = []"
    and "fe_run e [''killswitch-off'']" and "fe_run e [''dns-restore'']" and "\<And>m. fe_unlink e m"
  shows "let t = revertPostConnectSettings e s
         in \<not> chain t \<and> \<not> resolv t \<and> \<not> armedMarker t \<and> \<not> dnsMarker t \<and> armedWith t = None \<and>
            \<not> killSwitchFailed t \<and> \<not> killSwitchTeardownFailed t"
  using marked_reachable [OF assms(1)] assms(2-)
  by (auto simp: revertPostConnectSettings_def restoreDnsOverride_def disableKillSwitch_def marked_def Let_def
      privileged_def passed_def instant_of_def clearKillSwitchArmed_def clearDnsOverridden_def)

lemma revert_clears_witness: "\<not> chain (revertPostConnectSettings fw_fine fw_init)"
  using revert_clears [of fw_init fw_fine] by (simp add: Let_def fw_fine_def fw_init_def)

text \<open>What a disconnect does about the kill switch and the resolver, from any state: a marker makes it call the
  helper, and what it leaves installed was there, without its marker or against a helper that refused.\<close>

lemma reverted:
  "armedMarker s \<Longrightarrow> ([''killswitch-off''], fe_run e [''killswitch-off'']) \<in>
     set (drop (length (calls s)) (calls (revertPostConnectSettings e s)))"
  "chain (revertPostConnectSettings e s) \<Longrightarrow> chain s \<and> \<not> (armedMarker s \<and> fe_run e [''killswitch-off''])"
  "resolv (revertPostConnectSettings e s) \<Longrightarrow> resolv s \<and> \<not> (dnsMarker s \<and> fe_run e [''dns-restore''])"
  by (auto simp: revertPostConnectSettings_def restoreDnsOverride_def disableKillSwitch_def Let_def privileged_def passed_def
      clearKillSwitchArmed_def clearDnsOverridden_def split: if_splits)

text \<open>A marker that could not be written is not only a hint lost: the chain goes up without it, and a disconnect,
  which asks the marker, leaves the chain in place and reports no failed teardown.\<close>

lemma unmarked_kill_switch_survives_disconnect:
  "let e = fw_fine\<lparr>fe_write := (\<lambda>_. False)\<rparr>;
       s = applyPostConnectSettings e (\<lambda>_. Some ''1.2.3.4'') wg_settings WireGuard fw_init;
       t = revertPostConnectSettings fw_fine s
   in \<not> killSwitchFailed s \<and> chain t \<and> \<not> killSwitchTeardownFailed t \<and> calls t = calls s"
  by code_simp

lemma setDnsOverride_calls: "calls (setDnsOverride e ip s) = calls s @ [([''dns-set'', ip], fe_run e [''dns-set'', ip])]"
  by (simp add: setDnsOverride_def privileged_def passed_def markDnsOverridden_def Let_def)

lemma armed_calls:
  "armKillSwitch e remote p d lan s = (t, armed) \<Longrightarrow> armed = Some True \<Longrightarrow>
     \<exists>a. armedWith t = Some a \<and> remote p = Some (arm_remoteHost a) \<and> arm_iface a = tunnel_iface p \<and> arm_dnsIp a = d \<and> chain t \<and>
       (armedMarker t \<or> \<not> fe_write e KILLSWITCH_MARKER) \<and>
       calls t = calls s @ [(killswitch_args (tunnel_iface p) (arm_remoteHost a) d lan, True)]"
  by (auto simp: armKillSwitch_def enableKillSwitch_def Let_def privileged_def passed_def markKillSwitchArmed_def
      killswitch_args_def split: option.splits prod.splits bool.splits if_splits)



text \<open>Toggling the kill switch or local sharing mid-session takes effect at once and only
  once: if the helper and the disk answer and the live tunnel's protocol and endpoint are known, one call of
  \<open>reapplyFirewall\<close> arms exactly when the setting asks for it on an armed or live tunnel, with the
  sharing the settings ask for, and a second call finds nothing to do.\<close>

theorem reapply_converges:
  assumes "\<And>args. fe_run e args" and "\<And>m. fe_write e m" and "\<And>m. fe_unlink e m"
    and "remote p \<noteq> None" and "armedMarker s \<Longrightarrow> armedWith s \<noteq> None"
  shows "let t = reapplyFirewall e remote settings active (Some p) s
         in (armedMarker t \<longleftrightarrow> killSwitch settings \<and> (armedMarker s \<or> active)) \<and>
            (armedMarker t \<longrightarrow> (\<exists>a. armedWith t = Some a \<and> arm_lanSharing a = lanSharing settings)) \<and>
            decideFirewallAction (fw_input_of settings active t) = NoChange"
proof -
  have run: "fe_run e args = True" "fe_write e m = True" "fe_unlink e m = True" for args m using assms(1-3) by simp_all
  obtain h where h: "remote p = Some h" using assms(4) by blast
  have marker: "armedMarker (setDnsOverride e ip s) = armedMarker s" for ip
    by (simp add: setDnsOverride_def privileged_def passed_def markDnsOverridden_def Let_def)
  note prims = disableKillSwitch_def enableKillSwitch_def privileged_def passed_def markKillSwitchArmed_def
    clearKillSwitchArmed_def
  show ?thesis
  proof (cases "armedMarker s")
    case True
    then obtain a where a: "armedWith s = Some a" using assms(5) by blast
    with True show ?thesis
      by (auto simp: reapplyFirewall_def decideFirewallAction_def fw_input_of_def prims run Let_def split: option.splits)
  next
    case False
    then show ?thesis
      by (auto simp: reapplyFirewall_def decideFirewallAction_def fw_input_of_def armKillSwitch_def
          prims run h marker Let_def split: option.splits)
  qed
qed

lemma reapply_converges_witness:
  "armedMarker (reapplyFirewall fw_fine (\<lambda>_. Some ''1.2.3.4'') wg_settings True (Some WireGuard) fw_init)"
  using reapply_converges [of fw_fine "\<lambda>_. Some ''1.2.3.4''" WireGuard fw_init wg_settings True]
  by (simp add: Let_def wg_settings_def fw_init_def fw_fine_def)

end
