(* ===== verification/Lifecycle.thy ===== *)
theory Lifecycle
  imports Decisions
begin

text \<open>
  The connection lifecycle of \<open>src/main/ipc-handlers.ts\<close> as a state machine: disconnects,
  stand-downs, the reconnect ladder with its timer, and the promise chain that serialises tunnel
  operations (\<open>withConnectionLock\<close>).

  The handlers are asynchronous, so a step is what runs between two awaits. A job holding the lock
  is at one of its awaits (\<open>phase\<close>); the jobs queued behind it wait in order. The code that runs
  before a handler takes the lock (the epoch bump of \<open>performDisconnect\<close>, the session a reconnect
  request records) is a step of its own, possible at any time. \<open>tunnel\<close> is a ghost field: a tunnel
  interface or a proxy core may be up. \<open>status\<close> is what \<open>getConnectionStatus().connected\<close> reports.
  \<open>failed\<close> records that a teardown threw. \<open>strays\<close> counts runs of \<open>teardownToIdle\<close> started outside
  the lock (by \<open>attemptReconnect\<close> giving up).
\<close>

section \<open>State\<close>

datatype job =
    DisconnectBody
  | StandDownBody
  | ReconnectBody nat \<comment> \<open>the epoch the timer captured\<close>
  | ConnectBody

datatype phase =
    DisconnectWait
  | StandDownWait
  | BringUp nat
  | PostConnect nat
  | CleanUp
  | IdleWait
  | ConnectWait

record lc =
  session :: "string option"
  epoch :: nat
  intentional :: bool
  attempt :: nat
  timer :: "nat option"
  waiting :: "job list"
  running :: "phase option"
  tunnel :: bool
  status :: bool
  strays :: nat
  failed :: bool

definition RECONNECT_MAX_ATTEMPTS :: nat where "RECONNECT_MAX_ATTEMPTS = 5"

section \<open>The synchronous parts\<close>

text \<open>The head of \<open>performDisconnect\<close> and of \<open>standDownSession\<close>: everything before the lock.\<close>

definition stand_machinery_down :: "job \<Rightarrow> lc \<Rightarrow> lc" where
  "stand_machinery_down j s =
     s\<lparr>intentional := True, epoch := epoch s + 1, timer := None, attempt := 0,
       waiting := waiting s @ [j]\<rparr>"

definition performDisconnect :: "lc \<Rightarrow> lc" where
  "performDisconnect s = stand_machinery_down DisconnectBody s"

definition standDownSession :: "lc \<Rightarrow> lc" where
  "standDownSession s = (if session s = None then s else stand_machinery_down StandDownBody s)"

text \<open>The tail of both, after the teardown resolved.\<close>

definition teardown_done :: "lc \<Rightarrow> lc" where
  "teardown_done s =
     s\<lparr>tunnel := False, status := False, session := None, intentional := False, running := None\<rparr>"

text \<open>\<open>attemptReconnect\<close> up to its first await: \<open>autoReconnect\<close> is the setting, \<open>spent\<close> says that
  the quota verdict is (nearly) expired. Giving up starts \<open>teardownToIdle\<close>, which resets the
  attempt counter at once and tears down later.\<close>

definition attemptReconnect :: "bool \<Rightarrow> bool \<Rightarrow> lc \<Rightarrow> lc" where
  "attemptReconnect autoReconnect spent s =
     (case decideReconnect \<lparr>ro_attempt = attempt s, ro_maxAttempts = RECONNECT_MAX_ATTEMPTS,
             ro_autoReconnect = autoReconnect, ro_intentional = intentional s,
             ro_hasSession = session s \<noteq> None\<rparr> of
        Abort AutoReconnectOff \<Rightarrow> standDownSession s
      | Abort _ \<Rightarrow> s
      | GiveUp \<Rightarrow> if spent then standDownSession s else s\<lparr>attempt := 0, strays := strays s + 1\<rparr>
      | Retry n delay \<Rightarrow> s\<lparr>attempt := n, timer := Some (epoch s)\<rparr>)"

text \<open>What a job does when it gets the lock, up to its first await. \<open>saved\<close> says that the session
  has a saved config to replay.\<close>

definition start_job :: "bool \<Rightarrow> job \<Rightarrow> lc \<Rightarrow> lc" where
  "start_job saved j s =
     (case j of
        DisconnectBody \<Rightarrow> s\<lparr>running := Some DisconnectWait\<rparr>
      | StandDownBody \<Rightarrow> s\<lparr>running := Some StandDownWait\<rparr>
      | ReconnectBody e \<Rightarrow>
          (if epoch s \<noteq> e then s
           else if session s = None then s
           else if \<not> saved then s\<lparr>attempt := 0, running := Some IdleWait\<rparr>
           else s\<lparr>running := Some (BringUp e), tunnel := True\<rparr>)
      | ConnectBody \<Rightarrow>
          (if attempt s > 0 \<or> status s then s
           else s\<lparr>running := Some ConnectWait, tunnel := True\<rparr>))"

section \<open>The step relation\<close>

datatype event =
    EvUser      \<comment> \<open>a disconnect\<close>
  | EvWatchdog  \<comment> \<open>the quota loop stands the session down\<close>
  | EvDrop      \<comment> \<open>the interface monitor or the core's exit handler\<close>
  | EvTimer
  | EvLock      \<comment> \<open>the next job gets the lock\<close>
  | EvJob       \<comment> \<open>the job holding the lock goes on\<close>
  | EvStray     \<comment> \<open>a teardown outside the lock\<close>
  | EvRequest   \<comment> \<open>a purchase or reconnect request records its session and asks to connect\<close>

inductive lc_step :: "event \<Rightarrow> lc \<Rightarrow> lc \<Rightarrow> bool" where
  disconnect: "lc_step EvUser s (performDisconnect s)"
| watchdog: "\<not> intentional s \<Longrightarrow> attempt s = 0 \<Longrightarrow> session s \<noteq> None \<Longrightarrow>
    lc_step EvWatchdog s (standDownSession s)"
| monitor: "\<not> intentional s \<Longrightarrow> attempt s = 0 \<Longrightarrow> session s \<noteq> None \<Longrightarrow>
    lc_step EvDrop s (attemptReconnect auto spent (s\<lparr>status := False\<rparr>))"
| child_exit: "\<not> intentional s \<Longrightarrow> session s \<noteq> None \<Longrightarrow>
    lc_step EvDrop s (attemptReconnect auto spent (s\<lparr>status := False\<rparr>))"
| timer_fires: "timer s = Some e \<Longrightarrow>
    lc_step EvTimer s (s\<lparr>timer := None, waiting := waiting s @ [ReconnectBody e]\<rparr>)"
| take_lock: "running s = None \<Longrightarrow> waiting s = j # rest \<Longrightarrow>
    lc_step EvLock s (start_job saved j (s\<lparr>waiting := rest\<rparr>))"
| disconnect_done: "running s = Some DisconnectWait \<Longrightarrow> lc_step EvJob s (teardown_done s)"
| stand_down_done: "running s = Some StandDownWait \<Longrightarrow> lc_step EvJob s (teardown_done s)"
| teardown_gone: "running s \<in> {Some DisconnectWait, Some StandDownWait} \<Longrightarrow> tunnel s \<or> status s \<Longrightarrow>
    lc_step EvJob s (s\<lparr>tunnel := False, status := False\<rparr>)"
| teardown_throws: "running s \<in> {Some DisconnectWait, Some StandDownWait, Some IdleWait} \<Longrightarrow>
    lc_step EvJob s (s\<lparr>running := None, failed := True\<rparr>)"
| up_current: "running s = Some (BringUp e) \<Longrightarrow> epoch s = e \<Longrightarrow>
    lc_step EvJob s (s\<lparr>running := Some (PostConnect e)\<rparr>)"
| up_stale: "running s = Some (BringUp e) \<Longrightarrow> epoch s \<noteq> e \<Longrightarrow>
    lc_step EvJob s (s\<lparr>running := Some IdleWait, attempt := 0\<rparr>)"
| up_fails: "running s = Some (BringUp e) \<or> running s = Some (PostConnect e) \<Longrightarrow>
    lc_step EvJob s (s\<lparr>running := Some CleanUp\<rparr>)"
| reconnected: "running s = Some (PostConnect e) \<Longrightarrow>
    lc_step EvJob s (s\<lparr>running := None, attempt := 0, status := tunnel s\<rparr>)"
| cleaned_up: "running s = Some CleanUp \<Longrightarrow>
    lc_step EvJob s (attemptReconnect auto spent (s\<lparr>running := None, tunnel := False, status := False\<rparr>))"
| cleanup_throws: "running s = Some CleanUp \<Longrightarrow>
    lc_step EvJob s (attemptReconnect auto spent (s\<lparr>running := None, failed := True\<rparr>))"
| idle_done: "running s = Some IdleWait \<Longrightarrow>
    lc_step EvJob s (s\<lparr>running := None, tunnel := False, status := False\<rparr>)"
| stray_done: "strays s = Suc n \<Longrightarrow>
    lc_step EvStray s (s\<lparr>strays := n, tunnel := False, status := False\<rparr>)"
| stray_throws: "strays s = Suc n \<Longrightarrow> lc_step EvStray s (s\<lparr>strays := n, failed := True\<rparr>)"
| request: "attempt s = 0 \<Longrightarrow> \<not> status s \<Longrightarrow>
    lc_step EvRequest s (s\<lparr>session := Some sid, waiting := waiting s @ [ConnectBody]\<rparr>)"
| connect_up: "running s = Some ConnectWait \<Longrightarrow>
    lc_step EvJob s (s\<lparr>running := None, status := tunnel s\<rparr>)"
| connect_fails: "running s = Some ConnectWait \<Longrightarrow> lc_step EvJob s (s\<lparr>running := None\<rparr>)"

text \<open>The runs that use only the events of \<open>E\<close>, from a state with an established session.\<close>

definition lc_up :: "string \<Rightarrow> lc" where
  "lc_up sid = \<lparr>session = Some sid, epoch = 0, intentional = False, attempt = 0, timer = None,
     waiting = [], running = None, tunnel = True, status = True, strays = 0, failed = False\<rparr>"

inductive lc_reach :: "event set \<Rightarrow> lc \<Rightarrow> bool" for E where
  init: "lc_reach E (lc_up sid)"
| step: "lc_reach E s \<Longrightarrow> ev \<in> E \<Longrightarrow> lc_step ev s t \<Longrightarrow> lc_reach E t"

inductive_cases lc_stepE: "lc_step ev s t"

section \<open>Invariants\<close>

lemma stand_machinery_down_simps [simp]:
  "session (stand_machinery_down j s) = session s" "epoch (stand_machinery_down j s) = Suc (epoch s)"
  "intentional (stand_machinery_down j s)" "attempt (stand_machinery_down j s) = 0"
  "timer (stand_machinery_down j s) = None" "waiting (stand_machinery_down j s) = waiting s @ [j]"
  "running (stand_machinery_down j s) = running s" "tunnel (stand_machinery_down j s) = tunnel s"
  "status (stand_machinery_down j s) = status s" "strays (stand_machinery_down j s) = strays s"
  "failed (stand_machinery_down j s) = failed s"
  by (simp_all add: stand_machinery_down_def)

lemma attemptReconnect_eq:
  "attemptReconnect auto spent s =
     (if session s = None \<or> intentional s then s
      else if \<not> auto then stand_machinery_down StandDownBody s
      else if attempt s + 1 > RECONNECT_MAX_ATTEMPTS then
        (if spent then stand_machinery_down StandDownBody s else s\<lparr>attempt := 0, strays := strays s + 1\<rparr>)
      else s\<lparr>attempt := attempt s + 1, timer := Some (epoch s)\<rparr>)"
  by (simp add: attemptReconnect_def decideReconnect_def standDownSession_def Let_def)

text \<open>\<open>attemptReconnect\<close> does one of four things.\<close>

lemma attemptReconnect_cases:
  obtains "attemptReconnect auto spent s = s"
  | "session s \<noteq> None" "attemptReconnect auto spent s = stand_machinery_down StandDownBody s"
  | "session s \<noteq> None" "attemptReconnect auto spent s = s\<lparr>attempt := 0, strays := strays s + 1\<rparr>"
  | n where "session s \<noteq> None" "\<not> intentional s" "n = attempt s + 1" "n \<le> RECONNECT_MAX_ATTEMPTS"
      "attemptReconnect auto spent s = s\<lparr>attempt := n, timer := Some (epoch s)\<rparr>"
  unfolding attemptReconnect_eq by (metis not_le)

text \<open>Epochs captured by a timer or a queued body are never ahead of the current one, and the
  attempt counter never passes the limit.\<close>

definition epochs_ok :: "lc \<Rightarrow> bool" where
  "epochs_ok s \<longleftrightarrow> (\<forall>e. timer s = Some e \<longrightarrow> e \<le> epoch s) \<and>
     (\<forall>e. ReconnectBody e \<in> set (waiting s) \<longrightarrow> e \<le> epoch s) \<and>
     (\<forall>e. running s = Some (BringUp e) \<or> running s = Some (PostConnect e) \<longrightarrow> e \<le> epoch s) \<and>
     attempt s \<le> RECONNECT_MAX_ATTEMPTS"

lemma epochs_ok_down: "epochs_ok s \<Longrightarrow> (\<And>e. j \<noteq> ReconnectBody e) \<Longrightarrow> epochs_ok (stand_machinery_down j s)"
  by (auto simp: epochs_ok_def le_SucI)

lemma epochs_ok_attempt: "epochs_ok s \<Longrightarrow> epochs_ok (attemptReconnect auto spent s)"
  by (rule attemptReconnect_cases [of auto spent s])
     (simp_all add: epochs_ok_down, auto simp: epochs_ok_def)

lemma epochs_ok_fields:
  "epochs_ok (s\<lparr>status := b\<rparr>) = epochs_ok s" "epochs_ok (s\<lparr>tunnel := b\<rparr>) = epochs_ok s"
  "epochs_ok (s\<lparr>failed := b\<rparr>) = epochs_ok s" "epochs_ok (s\<lparr>session := x\<rparr>) = epochs_ok s"
  by (simp_all add: epochs_ok_def)

lemma epochs_ok_step: "lc_step ev s t \<Longrightarrow> epochs_ok s \<Longrightarrow> epochs_ok t"
proof (induction rule: lc_step.induct)
  case (take_lock s j rest saved)
  then show ?case by (cases j) (auto simp: start_job_def epochs_ok_def)
next
  case (cleaned_up s auto spent)
  then show ?case by (intro epochs_ok_attempt) (auto simp: epochs_ok_def)
next
  case (cleanup_throws s auto spent)
  then show ?case by (intro epochs_ok_attempt) (auto simp: epochs_ok_def)
qed (auto simp: performDisconnect_def standDownSession_def epochs_ok_down epochs_ok_attempt
    epochs_ok_fields teardown_done_def, auto simp: epochs_ok_def)

lemma epochs_ok_reach: "lc_reach E s \<Longrightarrow> epochs_ok s"
  by (induction rule: lc_reach.induct) (auto simp: lc_up_def epochs_ok_step, auto simp: epochs_ok_def)

text \<open>Without new connect requests, a session that is gone leaves no tunnel and no bring-up behind.\<close>

definition gone_ok :: "lc \<Rightarrow> bool" where
  "gone_ok s \<longleftrightarrow> ConnectBody \<notin> set (waiting s) \<and> running s \<noteq> Some ConnectWait \<and>
     (session s = None \<longrightarrow> \<not> tunnel s \<and> \<not> status s \<and>
        running s \<in> {None, Some DisconnectWait, Some StandDownWait})"

lemma gone_ok_down: "gone_ok s \<Longrightarrow> j \<noteq> ConnectBody \<Longrightarrow> gone_ok (stand_machinery_down j s)"
  by (auto simp: gone_ok_def)

lemma gone_ok_attempt:
  assumes "session s \<noteq> None \<Longrightarrow> ConnectBody \<notin> set (waiting s) \<and> running s \<noteq> Some ConnectWait"
    and "session s = None \<Longrightarrow> gone_ok s"
  shows "gone_ok (attemptReconnect auto spent s)"
  using assms by (cases "session s = None") (auto simp: attemptReconnect_eq gone_ok_def)

lemma gone_ok_step: "lc_step ev s t \<Longrightarrow> ev \<noteq> EvRequest \<Longrightarrow> gone_ok s \<Longrightarrow> gone_ok t"
proof (induction rule: lc_step.induct)
  case (take_lock s j rest saved)
  then show ?case by (cases j) (auto simp: start_job_def gone_ok_def)
next
  case (cleaned_up s auto spent)
  then show ?case by (intro gone_ok_attempt) (auto simp: gone_ok_def)
next
  case (cleanup_throws s auto spent)
  then show ?case by (intro gone_ok_attempt) (auto simp: gone_ok_def)
next
  case (monitor s auto spent)
  then show ?case by (intro gone_ok_attempt) (auto simp: gone_ok_def)
next
  case (child_exit s auto spent)
  then show ?case by (intro gone_ok_attempt) (auto simp: gone_ok_def)
qed (auto simp: performDisconnect_def standDownSession_def gone_ok_down teardown_done_def,
     auto simp: gone_ok_def)

lemma gone_ok_reach: "lc_reach (UNIV - {EvRequest}) s \<Longrightarrow> gone_ok s"
  by (induction rule: lc_reach.induct) (auto simp: gone_ok_step, auto simp: lc_up_def gone_ok_def)

section \<open>The lock is handed on\<close>

text \<open>A run: the events in order, each with any of its outcomes.\<close>

inductive lc_run :: "lc \<Rightarrow> event list \<Rightarrow> lc \<Rightarrow> bool" where
  stop: "lc_run s [] s"
| go: "lc_step ev s t \<Longrightarrow> lc_run t evs u \<Longrightarrow> lc_run s (ev # evs) u"

text \<open>The events of the jobs themselves: one gets the lock, or the one that holds it goes on.\<close>

fun of_jobs :: "event \<Rightarrow> bool" where
  "of_jobs EvLock \<longleftrightarrow> True"
| "of_jobs EvJob \<longleftrightarrow> True"
| "of_jobs _ \<longleftrightarrow> False"

text \<open>How many more steps the job holding the lock can take.\<close>

definition steps_left :: "lc \<Rightarrow> nat" where
  "steps_left s =
     (case running s of
        None \<Rightarrow> 0
      | Some DisconnectWait \<Rightarrow> if tunnel s \<or> status s then 2 else 1
      | Some StandDownWait \<Rightarrow> if tunnel s \<or> status s then 2 else 1
      | Some (BringUp e) \<Rightarrow> 4
      | Some (PostConnect e) \<Rightarrow> 3
      | Some CleanUp \<Rightarrow> 2
      | Some IdleWait \<Rightarrow> 1
      | Some ConnectWait \<Rightarrow> 1)"

lemma attempt_fields:
  "running (attemptReconnect auto spent s) = running s" "tunnel (attemptReconnect auto spent s) = tunnel s"
  "status (attemptReconnect auto spent s) = status s"
  by (simp_all add: attemptReconnect_eq)

lemma attempt_waiting: "waiting s = w \<Longrightarrow> \<exists>xs. waiting (attemptReconnect auto spent s) = w @ xs"
  by (auto simp: attemptReconnect_eq)

lemma attempt_steps: "steps_left (attemptReconnect auto spent s) = steps_left s"
  by (simp add: steps_left_def attempt_fields)

lemma outside_step:
  assumes "lc_step ev s t" and "\<not> of_jobs ev"
  shows "running t = running s" and "steps_left t \<le> steps_left s" and "\<exists>xs. waiting t = waiting s @ xs"
proof -
  show "running t = running s"
    using assms by (cases rule: lc_step.cases) (auto simp: performDisconnect_def standDownSession_def attempt_fields)
  show "steps_left t \<le> steps_left s"
    using assms
    by (cases rule: lc_step.cases)
       (auto simp: performDisconnect_def standDownSession_def attempt_steps, auto simp: steps_left_def split: option.split phase.split)
  show "\<exists>xs. waiting t = waiting s @ xs"
    using assms by (cases rule: lc_step.cases) (auto simp: performDisconnect_def standDownSession_def intro!: attempt_waiting)
qed

lemma job_step:
  assumes "lc_step EvJob s t"
  shows "steps_left t < steps_left s" and "\<exists>xs. waiting t = waiting s @ xs"
proof -
  show "steps_left t < steps_left s"
    using assms by (cases rule: lc_step.cases) (auto simp: teardown_done_def attempt_steps, auto simp: steps_left_def)
  show "\<exists>xs. waiting t = waiting s @ xs"
    using assms by (cases rule: lc_step.cases) (auto simp: teardown_done_def intro!: attempt_waiting)
qed

lemma lock_free: "lc_step EvLock s t \<Longrightarrow> running s = None"
  by (cases rule: lc_step.cases) auto

lemma of_jobs_iff: "of_jobs ev \<longleftrightarrow> ev = EvLock \<or> ev = EvJob"
  by (cases ev) simp_all

lemma step_measure:
  "lc_step ev s t \<Longrightarrow> ev \<noteq> EvLock \<Longrightarrow>
     steps_left t + (if of_jobs ev then 1 else 0) \<le> steps_left s \<and> (\<exists>xs. waiting t = waiting s @ xs)"
  using job_step [of s t] outside_step [of ev s t] by (auto simp: of_jobs_iff)

lemma idle_stuck: "lc_step ev s t \<Longrightarrow> of_jobs ev \<Longrightarrow> running s \<noteq> None \<or> waiting s \<noteq> []"
  by (cases rule: lc_step.cases) auto

lemma lock_step:
  assumes "lc_step EvLock s t" and "waiting s = j # rest"
  shows "running s = None \<and> waiting t = rest \<and> steps_left t \<le> 4 \<and>
    (j = DisconnectBody \<longrightarrow> running t = Some DisconnectWait \<and> steps_left t \<le> 2)"
  using assms
  by (cases rule: lc_step.cases) (auto simp: start_job_def steps_left_def split: job.split)

lemma disconnect_job_step:
  "lc_step EvJob s t \<Longrightarrow> running s = Some DisconnectWait \<Longrightarrow>
     t = teardown_done s \<or> t = s\<lparr>running := None, failed := True\<rparr> \<or> running t = Some DisconnectWait"
  by (cases rule: lc_step.cases) auto

text \<open>There is always one more step for the job that holds the lock, or the lock is free.\<close>

lemma job_enabled: "running s \<noteq> None \<Longrightarrow> \<exists>t. lc_step EvJob s t"
proof -
  assume "running s \<noteq> None"
  then obtain p where p: "running s = Some p" by blast
  show ?thesis
    using lc_step.disconnect_done [of s] lc_step.stand_down_done [of s] up_fails [of s] reconnected [of s] cleaned_up [of s]
      idle_done [of s] connect_up [of s] p
    by (cases p) blast+
qed

lemma step_enabled: "running s \<noteq> None \<or> waiting s \<noteq> [] \<Longrightarrow> \<exists>ev t. of_jobs ev \<and> lc_step ev s t"
proof (cases "running s = None")
  case True
  moreover assume "running s \<noteq> None \<or> waiting s \<noteq> []"
  ultimately obtain j rest where "waiting s = j # rest" by (cases "waiting s") auto
  then show ?thesis using take_lock [OF True] of_jobs.simps(1) by blast
next
  case False
  then show ?thesis using job_enabled of_jobs.simps(2) by blast
qed

text \<open>The job queued behind \<open>n\<close> others was a disconnect that got the lock, and it has ended: it cleared the session and
  the tunnel, or its teardown threw; either way the lock is free again.\<close>

definition carried_out :: "lc \<Rightarrow> nat \<Rightarrow> event list \<Rightarrow> lc \<Rightarrow> bool" where
  "carried_out s n evs t \<longleftrightarrow>
     (\<exists>evs1 u evs2 v. evs = evs1 @ EvJob # evs2 \<and> lc_run s evs1 u \<and> count_list evs1 EvLock = Suc n \<and>
        running u = Some DisconnectWait \<and> (v = teardown_done u \<or> v = u\<lparr>running := None, failed := True\<rparr>) \<and> lc_run v evs2 t)"

lemma carried_out_go:
  assumes "lc_step ev s s'" and "carried_out s' n evs t"
  shows "carried_out s (if ev = EvLock then Suc n else n) (ev # evs) t"
proof -
  obtain evs1 u evs2 v where c: "evs = evs1 @ EvJob # evs2" "lc_run s' evs1 u" "count_list evs1 EvLock = Suc n"
    "running u = Some DisconnectWait" "v = teardown_done u \<or> v = u\<lparr>running := None, failed := True\<rparr>" "lc_run v evs2 t"
    using assms(2) unfolding carried_out_def by blast
  have "lc_run s (ev # evs1) u" using assms(1) c(2) by (rule lc_run.go)
  moreover have "count_list (ev # evs1) EvLock = Suc (if ev = EvLock then Suc n else n)" using c(3) by simp
  ultimately show ?thesis unfolding carried_out_def using c(1,4,5,6) by (intro exI [of _ "ev # evs1"]) auto
qed

lemma disconnect_holds:
  assumes "lc_run s evs t" and "running s = Some DisconnectWait"
  shows "(\<exists>evs1 u evs2 v. evs = evs1 @ EvJob # evs2 \<and> lc_run s evs1 u \<and> count_list evs1 EvLock = 0 \<and>
        running u = Some DisconnectWait \<and> (v = teardown_done u \<or> v = u\<lparr>running := None, failed := True\<rparr>) \<and> lc_run v evs2 t) \<or>
      running t = Some DisconnectWait \<and> length (filter of_jobs evs) + steps_left t \<le> steps_left s"
    (is "?ended s evs t \<or> ?goes s evs t")
  using assms
proof (induction rule: lc_run.induct)
  case (go ev s t evs u)
  show ?case
  proof (cases "running t = Some DisconnectWait")
    case True
    have ev: "ev \<noteq> EvLock" using go.hyps(1) go.prems lock_free [of s t] by auto
    have m: "steps_left t + (if of_jobs ev then 1 else 0) \<le> steps_left s"
      using step_measure [OF go.hyps(1) ev] by simp
    from go.IH [OF True] show ?thesis
    proof
      assume "?ended t evs u"
      then obtain evs1 w evs2 v where c: "evs = evs1 @ EvJob # evs2" "lc_run t evs1 w" "count_list evs1 EvLock = 0"
        "running w = Some DisconnectWait" "v = teardown_done w \<or> v = w\<lparr>running := None, failed := True\<rparr>" "lc_run v evs2 u"
        by blast
      have "lc_run s (ev # evs1) w" "count_list (ev # evs1) EvLock = 0" using lc_run.go [OF go.hyps(1) c(2)] c(3) ev by simp_all
      then have "?ended s (ev # evs) u" using c(1,4,5,6) by (intro exI [of _ "ev # evs1"]) auto
      then show ?thesis ..
    qed (use m in auto)
  next
    case False
    then have "of_jobs ev" using go.prems outside_step(1) [OF go.hyps(1)] by auto
    moreover have "ev \<noteq> EvLock" using go.hyps(1) go.prems lock_free [of s t] by auto
    ultimately have ev: "ev = EvJob" by (simp add: of_jobs_iff)
    with False have "t = teardown_done s \<or> t = s\<lparr>running := None, failed := True\<rparr>"
      using disconnect_job_step go.hyps(1) go.prems by blast
    then have "?ended s (ev # evs) u"
      using go.hyps(2) go.prems ev lc_run.stop [of s] by (intro exI [of _ "[]"] exI [of _ s] exI [of _ evs] exI [of _ t]) auto
    then show ?thesis ..
  qed
qed simp

lemma queue_moves:
  assumes "lc_run s evs t" and "waiting s = pre @ DisconnectBody # post"
  shows "carried_out s (length pre) evs t \<or>
    length (filter of_jobs evs) < 6 * length pre + steps_left s + 3 \<and> (\<exists>ev t'. of_jobs ev \<and> lc_step ev t t')"
  using assms
proof (induction arbitrary: pre post rule: lc_run.induct)
  case (stop s)
  then show ?case using step_enabled [of s] by simp
next
  case (go ev s t evs u)
  show ?case
  proof (cases "ev = EvLock")
    case False
    then have m: "steps_left t + (if of_jobs ev then 1 else 0) \<le> steps_left s \<and> (\<exists>xs. waiting t = waiting s @ xs)"
      using step_measure [OF go.hyps(1)] by simp
    then obtain xs where "waiting t = pre @ DisconnectBody # (post @ xs)" using go.prems by auto
    from go.IH [OF this] show ?thesis
      using carried_out_go [OF go.hyps(1), of "length pre" evs u] False m by auto
  next
    case lock: True
    show ?thesis
    proof (cases pre)
      case (Cons j pre')
      then have t: "running s = None" "waiting t = pre' @ DisconnectBody # post" "steps_left t \<le> 4"
        using lock_step [of s t j] go.hyps(1) go.prems lock by auto
      from go.IH [OF t(2)] show ?thesis
        using carried_out_go [OF go.hyps(1), of "length pre'" evs u] lock Cons t by auto
    next
      case Nil
      then have t: "running s = None" "running t = Some DisconnectWait" "steps_left t \<le> 2"
        using lock_step [of s t DisconnectBody] go.hyps(1) go.prems lock by auto
      from disconnect_holds [OF go.hyps(2) t(2)] show ?thesis
      proof
        assume "\<exists>evs1 w evs2 v. evs = evs1 @ EvJob # evs2 \<and> lc_run t evs1 w \<and> count_list evs1 EvLock = 0 \<and>
          running w = Some DisconnectWait \<and> (v = teardown_done w \<or> v = w\<lparr>running := None, failed := True\<rparr>) \<and> lc_run v evs2 u"
        then obtain evs1 w evs2 v where c: "evs = evs1 @ EvJob # evs2" "lc_run t evs1 w" "count_list evs1 EvLock = 0"
          "running w = Some DisconnectWait" "v = teardown_done w \<or> v = w\<lparr>running := None, failed := True\<rparr>" "lc_run v evs2 u"
          by blast
        have "lc_run s (ev # evs1) w" "count_list (ev # evs1) EvLock = Suc 0"
          using lc_run.go [OF go.hyps(1) c(2)] c(3) lock by simp_all
        then have "carried_out s 0 (ev # evs) u" unfolding carried_out_def
          using c(1,4,5,6) by (intro exI [of _ "ev # evs1"]) auto
        then show ?thesis by (simp add: Nil)
      next
        assume "running u = Some DisconnectWait \<and> length (filter of_jobs evs) + steps_left u \<le> steps_left t"
        moreover from this have "0 < steps_left u" by (simp add: steps_left_def)
        ultimately show ?thesis using t lock Nil step_enabled [of u] by auto
      qed
    qed
  qed
qed

section \<open>Properties\<close>

text \<open>C37. A disconnect is final: in any interleaving of disconnects, watchdog stand-downs, tunnel
  drops, reconnect timers, queued reconnects and failed teardowns after a session is up, once the
  session is cleared no tunnel is up and none is reported, so no reconnect that was in flight or
  queued brings it back.\<close>

theorem disconnect_is_final:
  assumes "lc_reach (UNIV - {EvRequest}) s" and "session s = None"
  shows "\<not> tunnel s \<and> \<not> status s"
  using gone_ok_reach [OF assms(1)] assms(2) by (simp add: gone_ok_def)

lemma disconnect_is_final_witness:
  "\<exists>s. lc_reach (UNIV - {EvRequest}) s \<and> session s = None \<and> \<not> tunnel s"
proof -
  let ?a = "performDisconnect (lc_up ''1'')"
  let ?b = "start_job True DisconnectBody (?a\<lparr>waiting := []\<rparr>)"
  let ?E = "UNIV - {EvRequest}"
  have a: "lc_reach ?E ?a" by (rule lc_reach.step [OF lc_reach.init _ disconnect]) simp
  have b: "lc_reach ?E ?b"
    by (rule lc_reach.step [OF a _ take_lock]) (simp_all add: performDisconnect_def lc_up_def)
  have "lc_reach ?E (teardown_done ?b)"
    by (rule lc_reach.step [OF b _ disconnect_done]) (simp_all add: start_job_def)
  moreover have s: "session (teardown_done ?b) = None" by (simp add: teardown_done_def)
  ultimately show ?thesis using disconnect_is_final by blast
qed

text \<open>C38. A disconnect is never lost and never waits for good. On every run after it, whatever holds the lock, whatever is
  queued and whatever else arrives, and whether the jobs ahead succeed or throw: either the disconnect has had its
  turn, right after the jobs that were queued before it, and has ended (the session and the tunnel cleared, or its
  teardown thrown) with the lock free again; or the jobs have taken fewer than six steps for each job ahead and
  seven more, and a job can take its next one.\<close>

theorem disconnect_completes:
  assumes "lc_run (performDisconnect s) evs t"
  shows "carried_out (performDisconnect s) (length (waiting s)) evs t \<or>
    length (filter of_jobs evs) < 6 * length (waiting s) + 7 \<and> (\<exists>ev t'. of_jobs ev \<and> lc_step ev t t')"
proof -
  have "steps_left (performDisconnect s) \<le> 4" by (simp add: steps_left_def split: option.split phase.split)
  moreover have "waiting (performDisconnect s) = waiting s @ DisconnectBody # []" by (simp add: performDisconnect_def)
  ultimately show ?thesis using queue_moves [OF assms] by fastforce
qed

text \<open>A stand-down that throws holds the lock when the disconnect comes.\<close>

lemma disconnect_completes_witness:
  "\<exists>s t. running s = Some StandDownWait \<and> carried_out (performDisconnect s) 0 [EvJob, EvLock, EvJob] t"
proof -
  let ?s = "(lc_up ''1'')\<lparr>running := Some StandDownWait\<rparr>"
  let ?a = "performDisconnect ?s"
  let ?b = "?a\<lparr>running := None, failed := True\<rparr>"
  let ?c = "start_job True DisconnectBody (?b\<lparr>waiting := []\<rparr>)"
  note defs = performDisconnect_def lc_up_def start_job_def
  have "lc_step EvJob ?a ?b" by (rule teardown_throws) (simp add: defs)
  moreover have "lc_step EvLock ?b ?c" by (rule take_lock) (simp_all add: defs)
  moreover have "lc_step EvJob ?c (teardown_done ?c)" by (rule lc_step.disconnect_done) (simp add: defs)
  ultimately have "lc_run ?a [EvJob, EvLock, EvJob] (teardown_done ?c)" by (blast intro: lc_run.intros)
  from disconnect_completes [OF this] have "carried_out ?a 0 [EvJob, EvLock, EvJob] (teardown_done ?c)"
    using idle_stuck [of _ "teardown_done ?c"] by (auto simp: defs teardown_done_def)
  then show ?thesis by (intro exI [of _ ?s] exI [of _ "teardown_done ?c"]) simp
qed

text \<open>The ladder is bounded: no state reached passes the attempt limit, and no timer or queued
  reconnect carries an epoch from the future, so the epoch test cannot be fooled.\<close>

theorem ladder_bounded:
  assumes "lc_reach E s"
  shows "attempt s \<le> RECONNECT_MAX_ATTEMPTS \<and> (\<forall>e. timer s = Some e \<longrightarrow> e \<le> epoch s) \<and>
         (\<forall>e. ReconnectBody e \<in> set (waiting s) \<longrightarrow> e \<le> epoch s)"
  using epochs_ok_reach [OF assms] by (simp add: epochs_ok_def)

lemma ladder_bounded_witness: "attempt (lc_up ''1'') \<le> RECONNECT_MAX_ATTEMPTS"
  using ladder_bounded [OF lc_reach.init [of UNIV "''1''"]] by blast

text \<open>The defect noted in the findings: with a reconnect in flight, a disconnect followed by a
  new connect request before the disconnect gets the lock ends with the new tunnel up and
  reported as connected, nothing queued, and no session behind it, so no watchdog runs.\<close>

theorem unsupervised_tunnel_reachable:
  "\<exists>s. lc_reach UNIV s \<and> session s = None \<and> tunnel s \<and> status s \<and> running s = None \<and>
       waiting s = [] \<and> timer s = None \<and> \<not> failed s"
proof -
  let ?s1 = "attemptReconnect True False ((lc_up ''1'')\<lparr>status := False\<rparr>)"
  let ?s2 = "?s1\<lparr>timer := None, waiting := waiting ?s1 @ [ReconnectBody 0]\<rparr>"
  let ?s3 = "start_job True (ReconnectBody 0) (?s2\<lparr>waiting := []\<rparr>)"
  let ?s4 = "performDisconnect ?s3"
  let ?s5 = "?s4\<lparr>session := Some ''2'', waiting := waiting ?s4 @ [ConnectBody]\<rparr>"
  let ?s6 = "?s5\<lparr>running := Some IdleWait, attempt := 0\<rparr>"
  let ?s7 = "?s6\<lparr>running := None, tunnel := False, status := False\<rparr>"
  let ?s8 = "start_job True DisconnectBody (?s7\<lparr>waiting := [ConnectBody]\<rparr>)"
  let ?s9 = "teardown_done ?s8"
  let ?s10 = "start_job True ConnectBody (?s9\<lparr>waiting := []\<rparr>)"
  let ?s11 = "?s10\<lparr>running := None, status := tunnel ?s10\<rparr>"
  note defs = attemptReconnect_eq lc_up_def performDisconnect_def start_job_def teardown_done_def
    RECONNECT_MAX_ATTEMPTS_def
  note go = lc_reach.step [where E = UNIV, OF _ UNIV_I]
  have 1: "lc_reach UNIV ?s1" by (rule go [OF lc_reach.init child_exit]) (simp_all add: lc_up_def)
  have 2: "lc_reach UNIV ?s2" by (rule go [OF 1 timer_fires]) (simp add: defs)
  have 3: "lc_reach UNIV ?s3" by (rule go [OF 2 take_lock]) (simp_all add: defs)
  have 4: "lc_reach UNIV ?s4" by (rule go [OF 3 disconnect])
  have 5: "lc_reach UNIV ?s5" by (rule go [OF 4 request]) (simp_all add: defs)
  have 6: "lc_reach UNIV ?s6" by (rule go [OF 5 up_stale [of _ 0]]) (simp_all add: defs)
  have 7: "lc_reach UNIV ?s7" by (rule go [OF 6 idle_done]) simp
  have 8: "lc_reach UNIV ?s8" by (rule go [OF 7 take_lock]) (simp_all add: defs)
  have 9: "lc_reach UNIV ?s9" by (rule go [OF 8 disconnect_done]) (simp add: start_job_def)
  have 10: "lc_reach UNIV ?s10" by (rule go [OF 9 take_lock]) (simp_all add: defs)
  have 11: "lc_reach UNIV ?s11" by (rule go [OF 10 connect_up]) (simp add: defs)
  then show ?thesis by (intro exI [of _ ?s11]) (simp add: defs)
qed

end
