(* ===== verification/Watchdog.thy ===== *)
theory Watchdog
  imports Decisions
begin

text \<open>
  What the app measures while a tunnel is up: interface counters and speeds
  (\<open>src/main/vpn/traffic-stats.ts\<close>), the paid quota of one or both hops, the dead-tunnel checks and
  the usage that is remembered for a session (the watchdog of \<open>src/main/ipc-handlers.ts\<close>). Times are
  \<open>Date.now()\<close> in ms, counters are bytes; both are integers. The clock and the counters are
  arguments of each operation.
\<close>

section \<open>Interface counters\<close>

text \<open>\<open>s.split(/\s+/)\<close> of a trimmed string.\<close>

fun ws_words :: "string \<Rightarrow> string \<Rightarrow> string list" where
  "ws_words acc [] = [rev acc]"
| "ws_words acc (c # cs) =
     (if is_ws c then
        (case cs of
           [] \<Rightarrow> [rev acc, []]
         | d # _ \<Rightarrow> if is_ws d then ws_words acc cs else rev acc # ws_words [] cs)
      else ws_words (c # acc) cs)"

definition split_ws :: "string \<Rightarrow> string list" where
  "split_ws s = ws_words [] s"

definition part_int :: "string list \<Rightarrow> nat \<Rightarrow> int option" where
  "part_int parts i = (if i < length parts then parse_int (parts ! i) else None)"

definition line_counters :: "string \<Rightarrow> string \<Rightarrow> (int \<times> int) option" where
  "line_counters iface line =
     (let trimmed = trim line
      in if starts_with (iface @ '':'') trimmed
         then (let parts = split_ws trimmed
               in case (part_int parts 1, part_int parts 9) of
                    (Some rx, Some tx) \<Rightarrow> Some (rx, tx)
                  | _ \<Rightarrow> None)
         else None)"

fun first_some :: "('a \<Rightarrow> 'b option) \<Rightarrow> 'a list \<Rightarrow> 'b option" where
  "first_some f [] = None"
| "first_some f (x # xs) = (case f x of Some y \<Rightarrow> Some y | None \<Rightarrow> first_some f xs)"

definition parseProcNetDev :: "string \<Rightarrow> string \<Rightarrow> (int \<times> int) option" where
  "parseProcNetDev content iface = first_some (line_counters iface) (split_on CHR 0x0A content)"

text \<open>\<open>dev\<close> is the content of \<open>/proc/net/dev\<close>, \<open>None\<close> when it cannot be read.\<close>

definition readTunnelBytes :: "string option \<Rightarrow> (int \<times> int) option" where
  "readTunnelBytes dev =
     (case dev of
        None \<Rightarrow> None
      | Some content \<Rightarrow> first_some (parseProcNetDev content) [''sntl0'', ''sntl-tun'', ''sntl-ovpn''])"

record speed_state =
  prevRx :: int
  prevTx :: int
  prevTimestamp :: int

definition resetTrafficStats :: "speed_state \<Rightarrow> speed_state" where
  "resetTrafficStats s = \<lparr>prevRx = 0, prevTx = 0, prevTimestamp = 0\<rparr>"

record traffic_stats =
  rxBytes :: int
  txBytes :: int
  rxSpeed :: rat
  txSpeed :: rat

definition getTrafficStats :: "int \<Rightarrow> string option \<Rightarrow> speed_state \<Rightarrow> speed_state \<times> traffic_stats" where
  "getTrafficStats now dev s =
     (case readTunnelBytes dev of
        None \<Rightarrow> (s, \<lparr>rxBytes = 0, txBytes = 0, rxSpeed = 0, txSpeed = 0\<rparr>)
      | Some (rx, tx) \<Rightarrow>
          (let elapsed = of_int (now - prevTimestamp s) / 1000 :: rat;
               usable = prevTimestamp s > 0 \<and> now > prevTimestamp s \<and> elapsed > 0 \<and> elapsed < 10
           in (\<lparr>prevRx = rx, prevTx = tx, prevTimestamp = now\<rparr>,
               \<lparr>rxBytes = rx, txBytes = tx,
                rxSpeed = (if usable then max 0 (of_int (rx - prevRx s) / elapsed) else 0),
                txSpeed = (if usable then max 0 (of_int (tx - prevTx s) / elapsed) else 0)\<rparr>)))"

definition int_or_zero :: "string \<Rightarrow> int" where
  "int_or_zero s = (case parse_int s of None \<Rightarrow> 0 | Some i \<Rightarrow> i)"

definition maxUsageBytes :: "string \<Rightarrow> string \<Rightarrow> string" where
  "maxUsageBytes a b = show_int (max (int_or_zero a) (int_or_zero b))"

section \<open>The paid quota\<close>

record session_row =
  sr_id :: string
  sr_downloadBytes :: string
  sr_uploadBytes :: string
  sr_maxBytes :: string
  sr_durationSeconds :: "rat option"
  sr_maxDurationSeconds :: "rat option"

record active_quota =
  aq_sessionId :: string
  aq_maxDurationSeconds :: "rat option"
  aq_baselineDurationSeconds :: rat
  aq_maxBytes :: int
  aq_baselineBytes :: int

definition quotaFromSessionRow :: "session_row \<Rightarrow> active_quota option" where
  "quotaFromSessionRow row =
     (let maxBytes = int_or_zero (sr_maxBytes row);
          hasTimeCap = (case sr_maxDurationSeconds row of None \<Rightarrow> False | Some m \<Rightarrow> m > 0)
      in if maxBytes \<le> 0 \<and> \<not> hasTimeCap then None
         else Some \<lparr>aq_sessionId = sr_id row,
           aq_maxDurationSeconds = (if hasTimeCap then sr_maxDurationSeconds row else None),
           aq_baselineDurationSeconds = or_else (sr_durationSeconds row) 0,
           aq_maxBytes = maxBytes,
           aq_baselineBytes = int_or_zero (sr_downloadBytes row)\<rparr>)"

definition verdictFor :: "active_quota \<Rightarrow> rat \<Rightarrow> int \<Rightarrow> quota_verdict" where
  "verdictFor q secondsAlive liveRx = evaluateQuota
     \<lparr>q_maxDurationSeconds = aq_maxDurationSeconds q,
      q_baselineDurationSeconds = aq_baselineDurationSeconds q, q_connectedSeconds = secondsAlive,
      q_maxBytes = of_int (aq_maxBytes q), q_baselineBytes = of_int (aq_baselineBytes q),
      q_liveRxBytes = of_int liveRx\<rparr>"

fun quota_level_rank :: "quota_verdict \<Rightarrow> nat" where
  "quota_level_rank (QuotaOk _) = 0"
| "quota_level_rank (QuotaWarn _ _ _) = 1"
| "quota_level_rank (QuotaExpired _) = 2"

fun quotaPct :: "quota_verdict \<Rightarrow> rat" where
  "quotaPct (QuotaOk pct) = pct"
| "quotaPct (QuotaWarn pct _ _) = pct"
| "quotaPct (QuotaExpired _) = 100"

definition worse :: "quota_verdict \<times> string \<Rightarrow> quota_verdict \<times> string \<Rightarrow> quota_verdict \<times> string" where
  "worse worst s =
     (if quota_level_rank (fst s) > quota_level_rank (fst worst) \<or>
         (quota_level_rank (fst s) = quota_level_rank (fst worst) \<and> quotaPct (fst s) > quotaPct (fst worst))
      then s else worst)"

definition currentQuotaVerdict ::
  "active_quota option \<Rightarrow> active_quota option \<Rightarrow> rat \<Rightarrow> int \<Rightarrow> (quota_verdict \<times> string) option" where
  "currentQuotaVerdict activeQuota activeExitQuota secondsAlive liveRx =
     (case map (\<lambda>q. (verdictFor q secondsAlive liveRx, aq_sessionId q))
             (map the (filter (\<lambda>q. q \<noteq> None) [activeQuota, activeExitQuota])) of
        [] \<Rightarrow> None
      | v # vs \<Rightarrow> Some (foldl worse v vs))"

section \<open>The dead-tunnel checks\<close>

record watch =
  connectedAtMs :: "int option"
  aliveUntilMs :: int
  lastRxBytes :: int
  lastTxAtRx :: int
  lastRxMovedAtMs :: int
  aliveRx :: int
  aliveTx :: int
  staleHandshakeTicks :: nat

definition resetOneWayTracking :: "watch \<Rightarrow> watch" where
  "resetOneWayTracking w =
     w\<lparr>lastRxBytes := 0, lastTxAtRx := 0, lastRxMovedAtMs := 0, aliveRx := 0, aliveTx := 0,
       staleHandshakeTicks := 0\<rparr>"

text \<open>The clock part of \<open>startQuotaWatchdog\<close>, and \<open>stopQuotaWatchdog\<close>.\<close>

definition startQuotaWatchdog :: "int \<Rightarrow> watch \<Rightarrow> watch" where
  "startQuotaWatchdog now w =
     (let connectedAt = (case connectedAtMs w of None \<Rightarrow> now | Some t \<Rightarrow> t)
      in resetOneWayTracking (w\<lparr>connectedAtMs := Some connectedAt,
           aliveUntilMs := max (aliveUntilMs w) connectedAt\<rparr>))"

definition stopQuotaWatchdog :: "watch \<Rightarrow> watch" where
  "stopQuotaWatchdog w = resetOneWayTracking (w\<lparr>connectedAtMs := None\<rparr>)"

datatype stall = Stalled | Dropped

definition checkTunnelStalled ::
  "int \<Rightarrow> (int \<times> int) option \<Rightarrow> tunnel_mode \<Rightarrow> watch \<Rightarrow> watch \<times> stall option" where
  "checkTunnelStalled now bytes mode w =
     (case bytes of
        None \<Rightarrow>
          if usageAccruesWithoutTunnelInterface mode then (w\<lparr>aliveUntilMs := now\<rparr>, None)
          else (w, Some Dropped)
      | Some (rx, tx) \<Rightarrow>
          (let w1 = w\<lparr>aliveRx := rx, aliveTx := tx\<rparr>;
               w2 = (if lastRxMovedAtMs w1 = 0 \<or> rx > lastRxBytes w1
                     then w1\<lparr>lastRxBytes := rx, lastTxAtRx := tx, lastRxMovedAtMs := now\<rparr> else w1)
           in if \<not> isTunnelOneWay (tx - lastTxAtRx w2) (now - lastRxMovedAtMs w2)
              then (w2\<lparr>aliveUntilMs := now\<rparr>, None)
              else (w2\<lparr>aliveUntilMs := lastRxMovedAtMs w2\<rparr>, Some Stalled)))"

text \<open>\<open>checkWireGuardHandshake\<close> after the daemon's answer, for a tunnel that is still the one asked
  about: \<open>True\<close> stands the session down.\<close>

definition handshakeAnswer :: "int \<Rightarrow> int option \<Rightarrow> watch \<Rightarrow> watch \<times> bool" where
  "handshakeAnswer now age w =
     (case age of
        None \<Rightarrow> (w\<lparr>staleHandshakeTicks := 0\<rparr>, False)
      | Some a \<Rightarrow>
          if \<not> isWireGuardPeerGone (Some a) then (w\<lparr>staleHandshakeTicks := 0\<rparr>, False)
          else
            (let w1 = w\<lparr>staleHandshakeTicks := staleHandshakeTicks w + 1\<rparr>
             in if staleHandshakeTicks w1 < WG_HANDSHAKE_STALE_SAMPLES then (w1, False)
                else (w1\<lparr>aliveUntilMs := min (aliveUntilMs w1)
                        (latestProofOfLifeMs (now - a * 1000) (lastRxMovedAtMs w1))\<rparr>, True)))"

definition connectedSecondsAlive :: "int \<Rightarrow> watch \<Rightarrow> rat" where
  "connectedSecondsAlive now w =
     (case connectedAtMs w of
        None \<Rightarrow> 0
      | Some t \<Rightarrow>
          if t = 0 then 0
          else max 0 (of_int (min now (max (aliveUntilMs w) t) - t) / 1000))"

section \<open>Remembered usage\<close>

record remembered_usage =
  ru_downloadBytes :: string
  ru_uploadBytes :: string
  ru_durationSeconds :: rat

text \<open>\<open>rows\<close> is \<open>lastKnownSessions\<close>, \<open>live\<close> the counters now (\<open>None\<close> when the interface has gone).\<close>

definition rememberUsageFor ::
  "int \<Rightarrow> (int \<times> int) option \<Rightarrow> session_row list \<Rightarrow> watch \<Rightarrow> string \<Rightarrow> (string \<rightharpoonup> remembered_usage) \<Rightarrow>
     (string \<rightharpoonup> remembered_usage)" where
  "rememberUsageFor now live rows w sessionId store =
     (let (rx, tx) = (case live of None \<Rightarrow> (aliveRx w, aliveTx w) | Some l \<Rightarrow> l);
          baseline = find (\<lambda>r. sr_id r = sessionId) rows;
          baseDown = (case baseline of None \<Rightarrow> 0 | Some r \<Rightarrow> int_or_zero (sr_downloadBytes r));
          baseUp = (case baseline of None \<Rightarrow> 0 | Some r \<Rightarrow> int_or_zero (sr_uploadBytes r));
          baseSecs = (case baseline of None \<Rightarrow> 0 | Some r \<Rightarrow> or_else (sr_durationSeconds r) 0)
      in store(sessionId \<mapsto> \<lparr>ru_downloadBytes = show_int (baseDown + rx),
           ru_uploadBytes = show_int (baseUp + tx),
           ru_durationSeconds = baseSecs + connectedSecondsAlive now w\<rparr>))"

definition floored_row ::
  "(string \<rightharpoonup> remembered_usage) \<Rightarrow> 'a session_row_scheme \<Rightarrow> 'a session_row_scheme" where
  "floored_row store s =
     (case store (sr_id s) of
        None \<Rightarrow> s
      | Some r \<Rightarrow>
          s\<lparr>sr_downloadBytes := maxUsageBytes (sr_downloadBytes s) (ru_downloadBytes r),
            sr_uploadBytes := maxUsageBytes (sr_uploadBytes s) (ru_uploadBytes r),
            sr_durationSeconds := Some (max (or_else (sr_durationSeconds s) 0) (ru_durationSeconds r))\<rparr>)"

definition primeSessionsCache ::
  "(string \<rightharpoonup> remembered_usage) \<Rightarrow> 'a session_row_scheme list \<Rightarrow> 'a session_row_scheme list" where
  "primeSessionsCache store sessions = map (floored_row store) sessions"

section \<open>Lemmas\<close>

text \<open>The ticks of the quota loop up to the first one that stands the session down.\<close>

fun run_ticks ::
  "tunnel_mode \<Rightarrow> watch \<Rightarrow> (int \<times> (int \<times> int) option) list \<Rightarrow> watch \<times> stall option" where
  "run_ticks mode w [] = (w, None)"
| "run_ticks mode w ((now, bytes) # ts) =
     (case checkTunnelStalled now bytes mode w of
        (w1, None) \<Rightarrow> run_ticks mode w1 ts
      | (w1, Some r) \<Rightarrow> (w1, Some r))"

definition watch_ok :: "int \<Rightarrow> int \<Rightarrow> watch \<Rightarrow> bool" where
  "watch_ok t0 now w \<longleftrightarrow> connectedAtMs w = Some t0 \<and> aliveUntilMs w \<le> now \<and>
     (lastRxMovedAtMs w = 0 \<or> (t0 \<le> lastRxMovedAtMs w \<and> lastRxMovedAtMs w \<le> now))"

lemma watch_ok_later: "watch_ok t0 now w \<Longrightarrow> now \<le> now' \<Longrightarrow> watch_ok t0 now' w"
  by (auto simp: watch_ok_def)

lemma watch_ok_tick:
  assumes "checkTunnelStalled now bytes mode w = (w', r)" and "watch_ok t0 prev w"
    and "prev \<le> now" and "t0 \<le> now" and "0 < t0"
  shows "watch_ok t0 now w' \<and> (r = Some Stalled \<longrightarrow> aliveUntilMs w' + ONE_WAY_SILENCE_MS \<le> now) \<and>
    (r = Some Dropped \<longrightarrow> aliveUntilMs w' \<le> prev)"
  using assms
  by (auto simp: checkTunnelStalled_def watch_ok_def isTunnelOneWay_def ONE_WAY_SILENCE_MS_def Let_def
      split: option.splits prod.splits if_splits)

lemma run_ticks_ok:
  assumes "run_ticks mode w ts = (w', r)" and "watch_ok t0 prev w" and "0 < t0" and "t0 \<le> prev"
    and "sorted (prev # map fst ts @ [now])"
  shows "watch_ok t0 now w' \<and> (r = Some Stalled \<longrightarrow> aliveUntilMs w' + ONE_WAY_SILENCE_MS \<le> now)"
  using assms
proof (induction ts arbitrary: w prev)
  case Nil
  then show ?case using watch_ok_later by auto
next
  case (Cons x ts)
  obtain n b where x: "x = (n, b)" by (cases x)
  obtain w1 r1 where t: "checkTunnelStalled n b mode w = (w1, r1)" by fastforce
  have n: "prev \<le> n" "sorted (n # map fst ts @ [now])" "t0 \<le> n" "n \<le> now"
    using Cons.prems(4,5) x by auto
  note k = watch_ok_tick [OF t Cons.prems(2) n(1,3) Cons.prems(3)]
  show ?case
  proof (cases r1)
    case None
    with t x Cons.prems(1) have "run_ticks mode w1 ts = (w', r)" by simp
    then show ?thesis using Cons.IH k n(2,3) Cons.prems(3) by blast
  next
    case (Some q)
    with t x Cons.prems(1) have "w' = w1" "r = Some q" by simp_all
    with Some k n(4) show ?thesis using watch_ok_later by auto
  qed
qed

lemma alive_seconds_le:
  assumes "watch_ok t0 now w" and "0 < t0" and "t0 \<le> now"
  shows "connectedSecondsAlive now w * 1000 \<le> of_int (now - t0)"
    and "aliveUntilMs w \<le> u \<Longrightarrow> t0 \<le> u \<Longrightarrow> connectedSecondsAlive now w * 1000 \<le> of_int (u - t0)"
proof -
  have "of_int (min now (max (aliveUntilMs w) t0) - t0) \<le> (of_int (now - t0) :: rat)"
    unfolding of_int_le_iff using assms by simp
  then show "connectedSecondsAlive now w * 1000 \<le> of_int (now - t0)"
    using assms by (auto simp: connectedSecondsAlive_def watch_ok_def)
  assume u: "aliveUntilMs w \<le> u" "t0 \<le> u"
  have "of_int (min now (max (aliveUntilMs w) t0) - t0) \<le> (of_int (u - t0) :: rat)"
    unfolding of_int_le_iff using u by auto
  then show "connectedSecondsAlive now w * 1000 \<le> of_int (u - t0)"
    using assms u by (auto simp: connectedSecondsAlive_def watch_ok_def)
qed

lemma worse_rank:
  "quota_level_rank (fst a) \<le> quota_level_rank (fst (worse a b))"
  "quota_level_rank (fst b) \<le> quota_level_rank (fst (worse a b))"
  by (auto simp: worse_def)

section \<open>Properties\<close>

text \<open>Usage stops at the last proof of life: over any ticks of the quota loop after a bring-up at
  \<open>t0\<close>, the session time recorded never exceeds the time since the bring-up, and when the loop
  ends because the tunnel is one-way, at least the last 90 seconds are not recorded.\<close>

theorem usage_stops_at_proof_of_life:
  assumes "0 < t0" and "connectedAtMs w0 = None" and "aliveUntilMs w0 \<le> t0"
    and "sorted (t0 # map fst ts @ [now])"
    and "run_ticks mode (startQuotaWatchdog t0 w0) ts = (w, r)"
  shows "connectedSecondsAlive now w * 1000 \<le> of_int (now - t0) \<and>
         (r = Some Stalled \<longrightarrow> t0 \<le> now - ONE_WAY_SILENCE_MS \<longrightarrow>
            connectedSecondsAlive now w * 1000 \<le> of_int (now - ONE_WAY_SILENCE_MS - t0))"
proof -
  have "watch_ok t0 t0 (startQuotaWatchdog t0 w0)"
    using assms(2,3) by (simp add: watch_ok_def startQuotaWatchdog_def resetOneWayTracking_def)
  note ok = run_ticks_ok [OF assms(5) this assms(1) order_refl assms(4)]
  have "t0 \<le> now" using assms(4) by simp
  with ok assms(1) alive_seconds_le(1) [of t0 now w]
    alive_seconds_le(2) [of t0 now w "now - ONE_WAY_SILENCE_MS"]
  show ?thesis by (auto simp: algebra_simps)
qed

lemma usage_stops_at_proof_of_life_witness:
  "connectedSecondsAlive 200000 (fst (run_ticks Tunnel (startQuotaWatchdog 1000
     \<lparr>connectedAtMs = None, aliveUntilMs = 0, lastRxBytes = 0, lastTxAtRx = 0, lastRxMovedAtMs = 0,
      aliveRx = 0, aliveTx = 0, staleHandshakeTicks = 0\<rparr>) [(16000, Some (10, 0)), (200000, Some (10, 70000))])) * 1000
   \<le> 109000"
proof -
  let ?w = "\<lparr>connectedAtMs = None, aliveUntilMs = 0, lastRxBytes = 0, lastTxAtRx = 0, lastRxMovedAtMs = 0,
      aliveRx = 0, aliveTx = 0, staleHandshakeTicks = 0\<rparr>"
  let ?ts = "[(16000, Some (10, 0)), (200000, Some (10, 70000))]"
  obtain w r where run: "run_ticks Tunnel (startQuotaWatchdog 1000 ?w) ?ts = (w, r)" by fastforce
  then have "r = Some Stalled"
    by (simp add: startQuotaWatchdog_def resetOneWayTracking_def checkTunnelStalled_def isTunnelOneWay_def
        ONE_WAY_TX_FLOOR_BYTES_def ONE_WAY_SILENCE_MS_def)
  then have "connectedSecondsAlive 200000 w * 1000 \<le> of_int (200000 - ONE_WAY_SILENCE_MS - 1000)"
    using usage_stops_at_proof_of_life [of 1000 ?w ?ts 200000 Tunnel w r] run
    by (simp add: ONE_WAY_SILENCE_MS_def)
  then show ?thesis using run by (simp add: ONE_WAY_SILENCE_MS_def)
qed

text \<open>The verdict that decides belongs to one of the sessions in use, names that session, and is
  at least as severe as every session's own verdict: an exhausted exit hop is never hidden behind a
  healthy entry.\<close>

theorem worst_verdict_wins:
  assumes "currentQuotaVerdict a b secs rx = Some (v, sid)"
  shows "(\<exists>q. (a = Some q \<or> b = Some q) \<and> sid = aq_sessionId q \<and> v = verdictFor q secs rx) \<and>
         (\<forall>q. a = Some q \<or> b = Some q \<longrightarrow> quota_level_rank (verdictFor q secs rx) \<le> quota_level_rank v)"
proof (cases a; cases b)
  fix x y assume ab: "a = Some x" "b = Some y"
  let ?x = "(verdictFor x secs rx, aq_sessionId x)" and ?y = "(verdictFor y secs rx, aq_sessionId y)"
  have w: "worse ?x ?y = (v, sid)" using assms ab by (simp add: currentQuotaVerdict_def)
  then have "(v, sid) = ?x \<or> (v, sid) = ?y" by (auto simp: worse_def split: if_splits)
  moreover have "quota_level_rank (fst ?x) \<le> quota_level_rank v" "quota_level_rank (fst ?y) \<le> quota_level_rank v"
    using worse_rank(1) [of ?x ?y] worse_rank(2) [of ?y ?x] w by simp_all
  ultimately show ?thesis using ab by auto
qed (use assms in \<open>auto simp: currentQuotaVerdict_def\<close>)

lemma worst_verdict_wins_witness:
  "\<exists>v sid. currentQuotaVerdict
     (Some \<lparr>aq_sessionId = ''1'', aq_maxDurationSeconds = None, aq_baselineDurationSeconds = 0, aq_maxBytes = 100, aq_baselineBytes = 0\<rparr>)
     (Some \<lparr>aq_sessionId = ''2'', aq_maxDurationSeconds = None, aq_baselineDurationSeconds = 0, aq_maxBytes = 10, aq_baselineBytes = 0\<rparr>)
     0 20 = Some (v, sid) \<and> quota_level_rank v = 2"
proof -
  let ?a = "\<lparr>aq_sessionId = ''1'', aq_maxDurationSeconds = None, aq_baselineDurationSeconds = 0, aq_maxBytes = 100, aq_baselineBytes = 0\<rparr>"
  let ?b = "\<lparr>aq_sessionId = ''2'', aq_maxDurationSeconds = None, aq_baselineDurationSeconds = 0, aq_maxBytes = 10, aq_baselineBytes = 0\<rparr>"
  have "currentQuotaVerdict (Some ?a) (Some ?b) 0 20 \<noteq> None" by (simp add: currentQuotaVerdict_def)
  then obtain v sid where v: "currentQuotaVerdict (Some ?a) (Some ?b) 0 20 = Some (v, sid)" by force
  have "quota_level_rank (verdictFor ?b 0 20) = 2"
    by (simp add: verdictFor_def evaluateQuota_def timePct_def dataPct_def usedBytes_def or_else_def)
  then have "2 \<le> quota_level_rank v" using worst_verdict_wins [OF v] by fastforce
  moreover have "quota_level_rank v \<le> 2" by (cases v) simp_all
  ultimately show ?thesis using v by auto
qed

end
