(* ===== verification/JsonText.thy ===== *)
theory JsonText
  imports Json "HOL-Library.Word"
begin

text \<open>
  \<open>JSON.stringify(value, null, n)\<close>, the text every JSON body and config is sent or saved as, and
  the bytes of a string (\<open>Buffer.from(s, 'utf8')\<close>). An object drops its undefined properties, an
  array prints them as null; a number that is no safe integer prints as itself unless it is
  \<open>NaN\<close> or an infinity.
\<close>

section \<open>Text\<close>

definition json_hex :: "nat \<Rightarrow> char" where
  "json_hex d = (if d < 10 then char_of (48 + d) else char_of (87 + d))"

definition json_escape :: "char \<Rightarrow> string" where
  "json_escape c =
     (if c = CHR 0x22 then [CHR 0x5C, CHR 0x22]
      else if c = CHR 0x5C then [CHR 0x5C, CHR 0x5C]
      else if c = CHR 0x08 then [CHR 0x5C, CHR ''b'']
      else if c = CHR 0x09 then [CHR 0x5C, CHR ''t'']
      else if c = CHR 0x0A then [CHR 0x5C, CHR ''n'']
      else if c = CHR 0x0C then [CHR 0x5C, CHR ''f'']
      else if c = CHR 0x0D then [CHR 0x5C, CHR ''r'']
      else if (of_char c :: nat) < 32
        then [CHR 0x5C, CHR ''u'', CHR ''0'', CHR ''0'', json_hex (of_char c div 16), json_hex (of_char c mod 16)]
      else [c])"

definition json_quote :: "string \<Rightarrow> string" where
  "json_quote s = CHR 0x22 # concat (map json_escape s) @ [CHR 0x22]"

text \<open>A line break followed by the indentation of \<open>depth\<close> levels of \<open>step\<close> spaces.\<close>

definition line_break :: "nat \<Rightarrow> nat \<Rightarrow> string" where
  "line_break step depth = (if step = 0 then [] else CHR 0x0A # replicate (step * depth) CHR '' '')"

definition enclose :: "char \<Rightarrow> char \<Rightarrow> nat \<Rightarrow> nat \<Rightarrow> string list \<Rightarrow> string" where
  "enclose l r step depth parts =
     (if parts = [] then [l, r]
      else [l] @ line_break step (Suc depth) @
        join (CHR '','' # line_break step (Suc depth)) parts @ line_break step depth @ [r])"

fun num_text :: "jnum \<Rightarrow> string" where
  "num_text (NInt i) = show_int i"
| "num_text (NOther s) = (if s = ''NaN'' \<or> s = ''Infinity'' \<or> s = ''-Infinity'' then ''null'' else s)"

fun json_text :: "nat \<Rightarrow> nat \<Rightarrow> js \<Rightarrow> string" where
  "json_text step depth JUndef = ''null''"
| "json_text step depth JNull = ''null''"
| "json_text step depth (JBool b) = (if b then ''true'' else ''false'')"
| "json_text step depth (JNum n) = num_text n"
| "json_text step depth (JStr s) = json_quote s"
| "json_text step depth (JArr xs) =
     enclose CHR ''['' CHR 0x5D step depth (map (json_text step (Suc depth)) xs)"
| "json_text step depth (JObj fs) =
     enclose CHR ''{'' CHR ''}'' step depth
       (concat (map (\<lambda>kv. if snd kv = JUndef then []
                  else [json_quote (fst kv) @ (if step = 0 then '':'' else '': '') @ json_text step (Suc depth) (snd kv)]) fs))"

definition stringify :: "nat \<Rightarrow> js \<Rightarrow> string" where
  "stringify step v = json_text step 0 v"

section \<open>Bytes\<close>

text \<open>UTF-8 of code units below 256.\<close>

definition utf8_char :: "char \<Rightarrow> 8 word list" where
  "utf8_char c =
     (if (of_char c :: nat) < 128 then [word_of_nat (of_char c)]
      else [word_of_nat (192 + of_char c div 64), word_of_nat (128 + of_char c mod 64)])"

definition utf8 :: "string \<Rightarrow> 8 word list" where
  "utf8 s = concat (map utf8_char s)"

lemma of_char_256: "(of_char (c :: char) :: nat) < 256"
proof -
  have "(of_char c :: nat) mod 256 = of_char c" by (rule of_char_mod_256)
  then show ?thesis by (metis mod_less_divisor zero_less_numeral)
qed

lemma of_nat_byte_eq: "a < 256 \<Longrightarrow> b < 256 \<Longrightarrow> (word_of_nat a :: 8 word) = word_of_nat b \<longleftrightarrow> a = b"
  by (simp add: word_of_nat_eq_iff take_bit_eq_mod)

text \<open>The first byte of a character tells how many it has, so the encoding can be undone.\<close>

lemma utf8_char_append:
  assumes "utf8_char c @ xs = utf8_char d @ ys"
  shows "c = d \<and> xs = ys"
proof -
  define m n where "m = (of_char c :: nat)" and "n = (of_char d :: nat)"
  have b: "m < 256" "n < 256" unfolding m_def n_def by (rule of_char_256)+
  then have q: "m div 64 < 4" "n div 64 < 4" "m mod 64 < 64" "n mod 64 < 64" by simp_all
  have e: "m = n \<longleftrightarrow> c = d" unfolding m_def n_def by simp
  consider "m < 128" "n < 128" | "m < 128" "\<not> n < 128" | "\<not> m < 128" "n < 128" | "\<not> m < 128" "\<not> n < 128" by blast
  then show ?thesis
  proof cases
    case 1
    with assms b show ?thesis
      by (simp add: utf8_char_def of_nat_byte_eq flip: m_def n_def) (simp add: m_def n_def)
  next
    case 2
    then have "(word_of_nat m :: 8 word) = word_of_nat (192 + n div 64)"
      using assms by (simp add: utf8_char_def flip: m_def n_def)
    then have "m = 192 + n div 64" using b q by (subst (asm) of_nat_byte_eq) simp_all
    with 2 show ?thesis by simp
  next
    case 3
    then have "(word_of_nat (192 + m div 64) :: 8 word) = word_of_nat n"
      using assms by (simp add: utf8_char_def flip: m_def n_def)
    then have "192 + m div 64 = n" using b q by (subst (asm) of_nat_byte_eq) simp_all
    with 3 show ?thesis by simp
  next
    case 4
    then have h: "(word_of_nat (192 + m div 64) :: 8 word) = word_of_nat (192 + n div 64)"
        "(word_of_nat (128 + m mod 64) :: 8 word) = word_of_nat (128 + n mod 64)" and t: "xs = ys"
      using assms by (simp_all add: utf8_char_def flip: m_def n_def)
    from h(1) q have "m div 64 = n div 64" by (subst (asm) of_nat_byte_eq) simp_all
    moreover from h(2) q have "m mod 64 = n mod 64" by (subst (asm) of_nat_byte_eq) simp_all
    ultimately have "m = n" by (metis div_mult_mod_eq)
    with e t show ?thesis by simp
  qed
qed

lemma utf8_char_not_Nil: "utf8_char c \<noteq> []"
  by (simp add: utf8_char_def)

lemma utf8_eq [simp]: "utf8 s = utf8 t \<longleftrightarrow> s = t"
proof
  show "utf8 s = utf8 t \<Longrightarrow> s = t"
  proof (induction s arbitrary: t)
    case Nil
    then show ?case by (cases t) (simp_all add: utf8_def utf8_char_not_Nil)
  next
    case (Cons c s)
    show ?case
    proof (cases t)
      case Nil
      with Cons.prems show ?thesis by (simp add: utf8_def utf8_char_not_Nil)
    next
      case (Cons d u)
      with Cons.prems have "utf8_char c @ utf8 s = utf8_char d @ utf8 u" by (simp add: utf8_def)
      then have "c = d" "utf8 s = utf8 u" using utf8_char_append by blast+
      with Cons.IH Cons show ?thesis by simp
    qed
  qed
qed simp

end
