(* ===== verification/Base64.thy ===== *)
theory Base64
  imports WgGuard "HOL-Library.Word"
begin

text \<open>
  Bytes and their two text encodings, as the config builders use them: \<open>Buffer.from(s, 'base64')\<close>
  on strings over the standard alphabet with trailing padding, \<open>toString('base64')\<close> and
  \<open>toString('hex')\<close>. The theorems are the round trips and the lengths.
\<close>

type_synonym byte = "8 word"

section \<open>The alphabet\<close>

definition b64_chr :: "nat \<Rightarrow> char" where
  "b64_chr n =
     (if n < 26 then char_of (65 + n)
      else if n < 52 then char_of (71 + n)
      else if n < 62 then char_of (n - 4)
      else if n = 62 then CHR ''+'' else CHR ''/'')"

definition b64_val :: "char \<Rightarrow> nat" where
  "b64_val c =
     (if is_upper c then of_char c - 65
      else if is_lower c then of_char c - 71
      else if is_digit c then of_char c + 4
      else if c = CHR ''+'' then 62 else 63)"

lemma char_range_conv:
  "is_upper c \<longleftrightarrow> 65 \<le> (of_char c :: nat) \<and> (of_char c :: nat) \<le> 90"
  "is_lower c \<longleftrightarrow> 97 \<le> (of_char c :: nat) \<and> (of_char c :: nat) \<le> 122"
  by (simp_all add: is_upper_def is_lower_def char_le_iff)

lemma char_eq_conv: "c = d \<longleftrightarrow> (of_char c :: nat) = of_char d"
  by simp

lemma of_char_b64_chr:
  "n < 64 \<Longrightarrow> (of_char (b64_chr n) :: nat) =
     (if n < 26 then 65 + n else if n < 52 then 71 + n else if n < 62 then n - 4
      else if n = 62 then 43 else 47)"
  by (simp add: b64_chr_def)

lemma b64_val_chr [simp]: "n < 64 \<Longrightarrow> b64_val (b64_chr n) = n"
  unfolding b64_val_def char_range_conv is_digit_code char_eq_conv [of _ "CHR ''+''"]
  by (simp add: of_char_b64_chr) linarith

lemma base64_char_chr [simp]: "n < 64 \<Longrightarrow> base64_char (b64_chr n)"
  unfolding base64_char_def is_alnum_def is_alpha_def char_range_conv is_digit_code
    char_eq_conv [of _ "CHR ''+''"] char_eq_conv [of _ "CHR ''/''"]
  by (simp add: of_char_b64_chr) linarith

lemma b64_chr_val:
  assumes "base64_char c"
  shows "b64_chr (b64_val c) = c" "b64_val c < 64"
proof -
  show "b64_val c < 64"
    using assms unfolding base64_char_def is_alnum_def is_alpha_def char_range_conv is_digit_code b64_val_def
    by auto
  show "b64_chr (b64_val c) = c"
    using assms unfolding base64_char_def is_alnum_def is_alpha_def char_range_conv is_digit_code b64_val_def
      b64_chr_def by auto
qed

section \<open>Encoding and decoding\<close>

fun b64_enc :: "byte list \<Rightarrow> string" where
  "b64_enc [] = []"
| "b64_enc [x] = [b64_chr (unat x div 4), b64_chr (unat x mod 4 * 16), CHR ''='', CHR ''='']"
| "b64_enc [x, y] =
     [b64_chr (unat x div 4), b64_chr (unat x mod 4 * 16 + unat y div 16),
      b64_chr (unat y mod 16 * 4), CHR ''='']"
| "b64_enc (x # y # z # bs) =
     b64_chr (unat x div 4) # b64_chr (unat x mod 4 * 16 + unat y div 16) #
     b64_chr (unat y mod 16 * 4 + unat z div 64) # b64_chr (unat z mod 64) # b64_enc bs"

text \<open>The bits left over at the end of a value are dropped, as Node's decoder does.\<close>

fun from_sextets :: "nat list \<Rightarrow> byte list" where
  "from_sextets (a # b # c # d # ss) =
     word_of_nat (a * 4 + b div 16) # word_of_nat (b mod 16 * 16 + c div 4) #
     word_of_nat (c mod 4 * 64 + d) # from_sextets ss"
| "from_sextets [a, b, c] = [word_of_nat (a * 4 + b div 16), word_of_nat (b mod 16 * 16 + c div 4)]"
| "from_sextets [a, b] = [word_of_nat (a * 4 + b div 16)]"
| "from_sextets _ = []"

definition b64_dec :: "string \<Rightarrow> byte list" where
  "b64_dec s = from_sextets (map b64_val (filter base64_char s))"

definition hex_digit :: "nat \<Rightarrow> char" where
  "hex_digit n = (if n < 10 then char_of (48 + n) else char_of (87 + n))"

definition hex_enc :: "byte list \<Rightarrow> string" where
  "hex_enc bs = concat (map (\<lambda>b. [hex_digit (unat b div 16), hex_digit (unat b mod 16)]) bs)"

section \<open>Round trips and lengths\<close>

lemma unat_byte: "unat (x :: byte) < 256"
  using unsigned_less [of x, where 'a = nat] by simp

lemma byte_of_nat: "n = unat (x :: byte) \<Longrightarrow> word_of_nat n = x"
  by simp

lemma base64_char_eq [simp]: "\<not> base64_char CHR ''=''"
  by (simp add: base64_char_def class_defs char_le_iff)

lemma sextet_bounds:
  "unat (x :: byte) div 4 < 64" "unat x mod 4 * 16 < 64" "unat x mod 16 * 4 < 64" "unat x mod 64 < 64"
  "unat x mod 4 * 16 + unat (y :: byte) div 16 < 64" "unat x mod 16 * 4 + unat y div 64 < 64"
  using unat_byte [of x] unat_byte [of y] by linarith+

lemma byte_arith:
  fixes x y z :: nat
  assumes "x < 256" "y < 256" "z < 256"
  shows "x div 4 * 4 + (x mod 4 * 16 + y div 16) div 16 = x"
    and "(x mod 4 * 16 + y div 16) mod 16 * 16 + (y mod 16 * 4 + z div 64) div 4 = y"
    and "(y mod 16 * 4 + z div 64) mod 4 * 64 + z mod 64 = z"
proof -
  have "(x mod 4 * 16 + y div 16) div 16 = x mod 4" "(x mod 4 * 16 + y div 16) mod 16 = y div 16"
    "(y mod 16 * 4 + z div 64) div 4 = y mod 16" "(y mod 16 * 4 + z div 64) mod 4 = z div 64"
    using assms by auto
  then show "x div 4 * 4 + (x mod 4 * 16 + y div 16) div 16 = x"
    "(x mod 4 * 16 + y div 16) mod 16 * 16 + (y mod 16 * 4 + z div 64) div 4 = y"
    "(y mod 16 * 4 + z div 64) mod 4 * 64 + z mod 64 = z"
    by simp_all
qed

lemma byte_parts:
  fixes x y z :: byte
  shows "word_of_nat (unat x div 4 * 4 + (unat x mod 4 * 16 + unat y div 16) div 16) = x"
    and "word_of_nat ((unat x mod 4 * 16 + unat y div 16) mod 16 * 16 + (unat y mod 16 * 4 + unat z div 64) div 4) = y"
    and "word_of_nat ((unat y mod 16 * 4 + unat z div 64) mod 4 * 64 + unat z mod 64) = z"
    and "word_of_nat (unat x div 4 * 4 + (unat x mod 4 * 16) div 16) = x"
    and "word_of_nat ((unat x mod 4 * 16 + unat y div 16) mod 16 * 16 + (unat y mod 16 * 4) div 4) = y"
  using byte_arith [of "unat x" "unat y" "unat z"] byte_arith [of "unat x" 0 0]
    byte_arith [of "unat x" "unat y" 0] unat_byte [of x] unat_byte [of y] unat_byte [of z]
  by simp_all

lemma from_sextets_enc:
  "from_sextets (unat x div 4 # (unat x mod 4 * 16 + unat y div 16) #
     (unat y mod 16 * 4 + unat z div 64) # (unat z mod 64) # ss) = x # y # z # from_sextets ss"
  "from_sextets [unat x div 4, unat x mod 4 * 16 + unat y div 16, unat y mod 16 * 4] = [x, y]"
  "from_sextets [unat x div 4, unat x mod 4 * 16] = [x]"
  by (simp_all only: from_sextets.simps byte_parts)

theorem b64_dec_enc [simp]: "b64_dec (b64_enc bs) = bs"
  unfolding b64_dec_def
  by (induction bs rule: b64_enc.induct)
    (simp_all add: sextet_bounds from_sextets_enc del: from_sextets.simps(1-3))

lemma length_from_sextets: "length (from_sextets ss) = 3 * (length ss div 4) + (length ss mod 4 - 1)"
proof (induction ss rule: from_sextets.induct)
  case (1 a b c d ss)
  have "(4 + length ss) div 4 = 1 + length ss div 4" "(4 + length ss) mod 4 = length ss mod 4" by simp_all
  with 1 show ?case by (simp del: add_2_eq_Suc add_2_eq_Suc')
qed simp_all

theorem length_b64_dec: "length (b64_dec s) = base64_length s"
  by (simp add: b64_dec_def length_from_sextets base64_length_def Let_def)

lemma length_b64_enc: "length (b64_enc bs) = 4 * ((length bs + 2) div 3)"
proof (induction bs rule: b64_enc.induct)
  case (4 x y z bs)
  have "(3 + (length bs + 2)) div 3 = 1 + (length bs + 2) div 3" by simp
  with 4 show ?case by (simp del: add_2_eq_Suc add_2_eq_Suc')
qed simp_all

lemma hex_digit_char: "n < 16 \<Longrightarrow> is_hex (hex_digit n) \<and> \<not> is_upper (hex_digit n)"
  by (auto simp: is_hex_def is_digit_def is_upper_def hex_digit_def char_le_iff)

lemma hex_enc_chars: "list_all (\<lambda>c. is_hex c \<and> \<not> is_upper c) (hex_enc bs)"
proof (induction bs)
  case (Cons b bs)
  then show ?case
    using hex_digit_char [of "unat b div 16"] hex_digit_char [of "unat b mod 16"] unat_byte [of b]
    by (simp add: hex_enc_def)
qed (simp add: hex_enc_def)

lemma length_hex_enc [simp]: "length (hex_enc bs) = 2 * length bs"
  by (induction bs) (simp_all add: hex_enc_def)

end
