(* ===== verification/V2RayGuard.thy ===== *)
theory V2RayGuard
  imports NetGuard Decisions WgGuard
begin

text \<open>
  The trust boundary of the proxy cores (\<open>src/main/config-guard.ts\<close>): the checks and transforms a
  parsed V2Ray, Xray or Hysteria2 config goes through before it is written and spawned, the
  inbound encryption policy, and the two functions of \<open>src/main/vpn/vpn-manager.ts\<close> that read the
  dialled endpoint back out of the config (\<open>extractV2RayRemoteHost\<close>, \<open>resolveHostToIPv4\<close>).

  A config is a \<open>js\<close> value. The resolver (getent and its cache) is an argument \<open>resolve\<close>.
\<close>

section \<open>Transforms\<close>

definition withV2RayDiagnosticLog :: "js \<Rightarrow> js" where
  "withV2RayDiagnosticLog config =
     jset ''log'' (JObj [(''access'', JStr ''none''), (''error'', JStr ''''), (''loglevel'', JStr ''warning'')])
       (if is_object config then spread config else JObj [])"

text \<open>The inner loops of \<open>pinV2RayNodeAddresses\<close>: one \<open>vnext\<close> entry, one outbound.\<close>

definition pin_vnext :: "(string \<Rightarrow> string option) \<Rightarrow> js \<Rightarrow> js" where
  "pin_vnext resolve v =
     (if \<not> is_object v then v
      else case jget ''address'' v of
             JStr addr \<Rightarrow>
               if isIPv4 addr then v
               else (case resolve addr of
                   None \<Rightarrow> v
                 | Some ip \<Rightarrow> if ip = '''' then v else jset ''address'' (JStr ip) (spread v))
           | _ \<Rightarrow> v)"

definition pin_outbound :: "(string \<Rightarrow> string option) \<Rightarrow> js \<Rightarrow> js" where
  "pin_outbound resolve ob =
     (if \<not> is_object ob then ob
      else let settings = jget ''settings'' ob in
        if \<not> is_object settings then ob
        else case jget ''vnext'' settings of
               JArr vs \<Rightarrow>
                 jset ''settings'' (jset ''vnext'' (JArr (map (pin_vnext resolve) vs)) (spread settings)) (spread ob)
             | _ \<Rightarrow> ob)"

definition pinV2RayNodeAddresses :: "(string \<Rightarrow> string option) \<Rightarrow> js \<Rightarrow> js" where
  "pinV2RayNodeAddresses resolve config =
     (if \<not> is_object config then config
      else let cfg = spread config in
        case jget ''outbounds'' cfg of
          JArr obs \<Rightarrow> jset ''outbounds'' (JArr (map (pin_outbound resolve) obs)) cfg
        | _ \<Rightarrow> cfg)"

section \<open>The guards\<close>

definition V2RAY_LOOPBACK :: "string list" where
  "V2RAY_LOOPBACK = [''127.0.0.1'', ''localhost'', ''::1'']"

definition check_log :: "js \<Rightarrow> unit result" where
  "check_log lg =
     (if truthy lg \<and> is_object lg then
        each (\<lambda>field.
          case jget field lg of
            JStr v \<Rightarrow> if v \<noteq> '''' \<and> v \<noteq> ''none''
                        then throw (''V2Ray config: log.'' @ field @ '' file path is not allowed'') else ok ()
          | _ \<Rightarrow> ok ()) [''access'', ''error'']
      else ok ())"

definition check_inbound :: "js \<Rightarrow> unit result" where
  "check_inbound inbound =
     (case (if is_object inbound then jget ''listen'' inbound else JUndef) of
        JStr listen \<Rightarrow>
          if listen \<notin> set V2RAY_LOOPBACK
          then throw (''V2Ray config: inbound listen '' @ quoted listen @ '' must be loopback'') else ok ()
      | _ \<Rightarrow> ok ())"

definition assertSafeV2RayConfig :: "js \<Rightarrow> unit result" where
  "assertSafeV2RayConfig config =
     (if \<not> is_object config \<or> is_array config then throw ''V2Ray config is invalid: expected an object''
      else if \<not> is_array (jget ''outbounds'' config) \<or> elems (jget ''outbounds'' config) = []
        then throw ''V2Ray config is invalid: missing outbounds''
      else and_then (check_log (jget ''log'' config)) (\<lambda>_.
        (case jget ''inbounds'' config of
           JArr ibs \<Rightarrow> each check_inbound ibs
         | _ \<Rightarrow> ok ())))"

definition hex64_rx :: rx where
  "hex64_rx = cls_between is_hex 64 64"

definition isHexCertPin :: "string \<Rightarrow> bool" where
  "isHexCertPin pin \<longleftrightarrow> rx_test hex64_rx (remove_char CHR '':'' pin)"

definition hostOfListen :: "string \<Rightarrow> string" where
  "hostOfListen listen =
     (if starts_with ''['' listen then
        (case index_of CHR 0x5D listen of
           None \<Rightarrow> listen
         | Some close \<Rightarrow> if close > 0 then drop 1 (take close listen) else listen)
      else
        (case last_index_of CHR '':'' listen of
           None \<Rightarrow> listen
         | Some colon \<Rightarrow> if colon > 0 then take colon listen else listen))"

definition hy_host_char :: "char \<Rightarrow> bool" where
  "hy_host_char c \<longleftrightarrow> is_alnum c \<or> c = CHR ''.'' \<or> c = CHR ''-''"

definition hy_server_rx :: rx where
  "hy_server_rx = Seq (cls_plus hy_host_char) (Seq (chr CHR '':'') (cls_between is_digit 1 5))"

definition assertSafeHysteria2Config :: "js \<Rightarrow> unit result" where
  "assertSafeHysteria2Config config =
     (if \<not> is_object config \<or> is_array config then throw ''Hysteria2 config is invalid: expected an object''
      else if \<not> (case jget ''server'' config of JStr s \<Rightarrow> rx_test hy_server_rx s | _ \<Rightarrow> False)
        then throw ''Hysteria2 config: server must be host:port''
      else (case jget ''listen'' (jget ''socks5'' config) of
          JStr listen \<Rightarrow>
            if hostOfListen listen \<notin> set V2RAY_LOOPBACK
            then throw (''Hysteria2 config: socks5.listen '' @ quoted listen @ '' must be loopback'')
            else if \<not> (case jget ''pinSHA256'' (jget ''tls'' config) of JStr pin \<Rightarrow> isHexCertPin pin | _ \<Rightarrow> False)
              then throw ''Hysteria2 config: tls.pinSHA256 must be a valid cert pin (an unpinned tunnel is MITM-able)''
            else each (\<lambda>key. if has_key key config
                then throw (''Hysteria2 config: '' @ quoted key @ '' is not allowed'') else ok ())
              [''acl'', ''outbounds'']
        | _ \<Rightarrow> throw ''Hysteria2 config: missing socks5.listen''))"

section \<open>DNS over HTTPS\<close>

record doh_endpoint =
  doh_url :: string
  doh_host :: string
  doh_ips :: "string list"

text \<open>The code's table is an object literal; its keys here are the own ones, which are the only
  ones the allow-listed resolver setting can name.\<close>

definition DOH_ENDPOINTS :: "(string \<times> doh_endpoint) list" where
  "DOH_ENDPOINTS =
     [(''1.1.1.1'', \<lparr>doh_url = ''https://cloudflare-dns.com/dns-query'', doh_host = ''cloudflare-dns.com'', doh_ips = [''1.1.1.1'', ''1.0.0.1'']\<rparr>),
      (''1.0.0.1'', \<lparr>doh_url = ''https://cloudflare-dns.com/dns-query'', doh_host = ''cloudflare-dns.com'', doh_ips = [''1.1.1.1'', ''1.0.0.1'']\<rparr>),
      (''8.8.8.8'', \<lparr>doh_url = ''https://dns.google/dns-query'', doh_host = ''dns.google'', doh_ips = [''8.8.8.8'', ''8.8.4.4'']\<rparr>),
      (''9.9.9.9'', \<lparr>doh_url = ''https://dns.quad9.net/dns-query'', doh_host = ''dns.quad9.net'', doh_ips = [''9.9.9.9'', ''149.112.112.112'']\<rparr>),
      (''45.90.28.0'', \<lparr>doh_url = ''https://dns.nextdns.io/dns-query'', doh_host = ''dns.nextdns.io'', doh_ips = [''45.90.28.0'', ''45.90.30.0'']\<rparr>)]"

definition tagOf :: "js \<Rightarrow> string option" where
  "tagOf x = (if is_object x then as_string (jget ''tag'' x) else None)"

definition nonempty :: "string option \<Rightarrow> string option" where
  "nonempty s = (case s of Some t \<Rightarrow> if t = '''' then None else Some t | None \<Rightarrow> None)"

definition head_elem :: "js \<Rightarrow> js" where
  "head_elem x = (case elems x of [] \<Rightarrow> JUndef | y # _ \<Rightarrow> y)"

definition interceptTags :: "js \<Rightarrow> string list" where
  "interceptTags cfg =
     (let inboundTags = map the (filter (\<lambda>t. t \<noteq> None)
            (map tagOf (filter (\<lambda>i. is_object i \<and> jget ''protocol'' i = JStr ''socks'')
              (elems (jget ''inbounds'' cfg)))))
      in if inboundTags \<noteq> [] then inboundTags else [''proxy''])"

text \<open>The rule that carries user traffic to a balancer.\<close>

definition is_proxy_rule :: "string list \<Rightarrow> js \<Rightarrow> bool" where
  "is_proxy_rule tags r \<longleftrightarrow>
     is_object r \<and> is_array (jget ''inboundTag'' r) \<and>
     list_ex (\<lambda>t. case t of JStr s \<Rightarrow> s \<in> set tags | _ \<Rightarrow> False) (elems (jget ''inboundTag'' r)) \<and>
     as_string (jget ''balancerTag'' r) \<noteq> None"

definition doh_egress :: "js \<Rightarrow> js \<Rightarrow> js list \<Rightarrow> string list \<Rightarrow> (string \<times> js) list option" where
  "doh_egress cfg routing rules tags =
     (case find (is_proxy_rule tags) rules of
        Some r \<Rightarrow> Some [(''balancerTag'', jget ''balancerTag'' r)]
      | None \<Rightarrow>
          (case nonempty (tagOf (head_elem (jget ''balancers'' routing))) of
             Some t \<Rightarrow> Some [(''balancerTag'', JStr t)]
           | None \<Rightarrow> map_option (\<lambda>t. [(''outboundTag'', JStr t)])
               (nonempty (tagOf (head_elem (jget ''outbounds'' cfg))))))"

definition routing_of :: "js \<Rightarrow> js" where
  "routing_of config =
     (let r = jget ''routing'' config
      in if truthy r \<and> is_object r \<and> \<not> is_array r then spread r else JObj [])"

definition withV2RayDoH :: "js \<Rightarrow> string \<Rightarrow> js" where
  "withV2RayDoH config resolverIp =
     (if \<not> is_object config then config
      else case map_of DOH_ENDPOINTS resolverIp of
        None \<Rightarrow> config
      | Some endpoint \<Rightarrow>
          (let cfg = spread config;
               routing = routing_of cfg;
               rules = elems (jget ''rules'' routing);
               tags = interceptTags cfg;
               egress = doh_egress cfg routing rules tags;
               cfg1 = jset ''dns'' (JObj
                 [(''hosts'', JObj [(doh_host endpoint, JArr (map JStr (doh_ips endpoint)))]),
                  (''servers'', JArr [JStr (doh_url endpoint)]),
                  (''queryStrategy'', JStr ''UseIPv4''),
                  (''tag'', JStr ''dns-module'')]) cfg;
               outbounds = elems (jget ''outbounds'' cfg1);
               cfg2 = jset ''outbounds'' (JArr (outbounds @
                 [JObj [(''protocol'', JStr ''dns''), (''tag'', JStr ''dns-out'')]])) cfg1;
               newRules = JObj [(''type'', JStr ''field''), (''inboundTag'', JArr (map JStr tags)),
                   (''port'', JNum (NInt 53)), (''outboundTag'', JStr ''dns-out'')] #
                 (case egress of
                    None \<Rightarrow> []
                  | Some e \<Rightarrow> [JObj ([(''type'', JStr ''field''), (''inboundTag'', JArr [JStr ''dns-module''])] @ e)])
           in jset ''routing'' (jset ''rules'' (JArr (newRules @ rules)) routing) cfg2))"

section \<open>The inbound encryption policy\<close>

record inbound_meta =
  im_proxy_protocol :: int
  im_transport_security :: int

datatype inbound_class = Acceptable | Cleartext

definition PROXY_VLESS :: int where "PROXY_VLESS = 1"
definition PROXY_VMESS :: int where "PROXY_VMESS = 2"
definition SECURITY_NONE :: int where "SECURITY_NONE = 1"
definition SECURITY_TLS :: int where "SECURITY_TLS = 2"

lemmas enum_defs = PROXY_VLESS_def PROXY_VMESS_def SECURITY_NONE_def SECURITY_TLS_def

definition classifyV2RayInbound :: "'a inbound_meta_scheme \<Rightarrow> inbound_class" where
  "classifyV2RayInbound m =
     (if im_proxy_protocol m = PROXY_VMESS then Acceptable
      else if im_transport_security m = SECURITY_TLS then Acceptable
      else if im_proxy_protocol m = PROXY_VLESS \<and> im_transport_security m = SECURITY_NONE then Cleartext
      else Acceptable)"

definition filterV2RayMetadata :: "'a inbound_meta_scheme list \<Rightarrow> 'a inbound_meta_scheme list" where
  "filterV2RayMetadata metadata =
     (let acceptable = filter (\<lambda>m. classifyV2RayInbound m = Acceptable) metadata
      in if length acceptable > 0 then acceptable else [])"

definition isAllCleartext :: "'a inbound_meta_scheme list \<Rightarrow> bool" where
  "isAllCleartext metadata \<longleftrightarrow>
     length metadata > 0 \<and> list_all (\<lambda>m. classifyV2RayInbound m = Cleartext) metadata"

datatype badge = Unknown | VLessWarning | Badge string

definition v2raySecurityBadge :: "'a inbound_meta_scheme list \<Rightarrow> badge" where
  "v2raySecurityBadge metadata =
     (if metadata = [] then Unknown
      else if isAllCleartext metadata then VLessWarning
      else let hasVMess = list_ex (\<lambda>m. im_proxy_protocol m = PROXY_VMESS) metadata;
               hasTLS = list_ex (\<lambda>m. im_transport_security m = SECURITY_TLS) metadata;
               proto = (if hasVMess then ''VMess'' else ''VLess'')
           in Badge (if hasTLS then proto @ ''+TLS'' else proto))"

section \<open>Node API addresses\<close>

text \<open>\<open>parse_url\<close> is the URL constructor (\<open>None\<close> when it throws), read down to the three fields
  used here.\<close>

record url =
  url_protocol :: string
  url_username :: string
  url_password :: string

definition has_scheme :: "string \<Rightarrow> bool" where
  "has_scheme s =
     (case s of
        [] \<Rightarrow> False
      | c # cs \<Rightarrow> is_alpha c \<and>
          starts_with ''://'' (dropWhile (\<lambda>x. is_alnum x \<or> x \<in> set ''+.-'') cs))"

definition http_scheme :: "string \<Rightarrow> bool" where
  "http_scheme s \<longleftrightarrow> starts_with ''http://'' (lower_ascii s) \<or> starts_with ''https://'' (lower_ascii s)"

definition isSafeNodeApiUrl :: "(string \<Rightarrow> url option) \<Rightarrow> js \<Rightarrow> bool" where
  "isSafeNodeApiUrl parse_url remoteUrl =
     (case remoteUrl of
        JStr u \<Rightarrow>
          (let s = trim u
           in if s = [] then False
              else if has_scheme s \<and> \<not> http_scheme s then False
              else (case parse_url (if has_scheme s then s else ''https://'' @ s) of
                  None \<Rightarrow> False
                | Some parsed \<Rightarrow>
                    if url_protocol parsed \<noteq> ''https:'' \<and> url_protocol parsed \<noteq> ''http:'' then False
                    else if url_username parsed \<noteq> [] \<or> url_password parsed \<noteq> [] then False
                    else True))
      | _ \<Rightarrow> False)"

section \<open>The endpoint of a config\<close>

text \<open>\<open>getent host\<close> is \<open>None\<close> when the call throws. The cache keeps the last answer per host.\<close>

definition host_name_rx :: rx where
  "host_name_rx = cls_plus (\<lambda>c. is_alnum c \<or> c = CHR ''.'' \<or> c = CHR ''_'' \<or> c = CHR ''-'')"

definition resolveHostToIPv4 ::
  "(string \<Rightarrow> string option) \<Rightarrow> string \<Rightarrow> (string \<rightharpoonup> string) \<Rightarrow> string option \<times> (string \<rightharpoonup> string)" where
  "resolveHostToIPv4 getent host cache =
     (if dotted_digits host then (Some host, cache)
      else if \<not> rx_test host_name_rx host then (None, cache)
      else (case Option.bind (getent host) firstIPv4FromGetent of
          Some ip \<Rightarrow> (Some ip, cache(host \<mapsto> ip))
        | None \<Rightarrow> (cache host, cache)))"

definition addressOf :: "js \<Rightarrow> string option" where
  "addressOf ob =
     (case jget ''address'' (head_elem (jget ''vnext'' (jget ''settings'' ob))) of
        JStr addr \<Rightarrow> if addr \<noteq> '''' \<and> addr \<noteq> ''127.0.0.1'' then Some addr else None
      | _ \<Rightarrow> None)"

definition server_host :: "string \<Rightarrow> string" where
  "server_host server =
     (if starts_with ''['' server
      then drop 1 (case index_of CHR 0x5D server of Some i \<Rightarrow> take i server | None \<Rightarrow> butlast server)
      else (case last_index_of CHR '':'' server of Some i \<Rightarrow> take i server | None \<Rightarrow> butlast server))"

fun first_address :: "js list \<Rightarrow> string option" where
  "first_address [] = None"
| "first_address (ob # obs) = (case addressOf ob of Some a \<Rightarrow> Some a | None \<Rightarrow> first_address obs)"

definition extractV2RayRemoteHost :: "(string \<Rightarrow> string option) \<Rightarrow> js \<Rightarrow> string option" where
  "extractV2RayRemoteHost resolve config =
     (let from_outbounds =
            (let outbounds = elems (jget ''outbounds'' config);
                 direct = filter (\<lambda>ob. \<not> truthy (jget ''proxySettings'' ob)) outbounds
             in Option.bind (first_address (direct @ outbounds)) resolve)
      in case jget ''server'' config of
           JStr server \<Rightarrow>
             (let host = server_host server
              in if host \<noteq> '''' \<and> host \<noteq> ''127.0.0.1'' then resolve host else from_outbounds)
         | _ \<Rightarrow> from_outbounds)"

text \<open>What \<open>connectV2RayFromConfig\<close>, \<open>connectXRayFromConfig\<close> and \<open>connectHysteria2FromConfig\<close>
  write to disk for a parsed config.\<close>

definition prepareV2Ray ::
  "(string \<Rightarrow> string option) \<Rightarrow> string option \<Rightarrow> js \<Rightarrow> js result" where
  "prepareV2Ray resolve dohResolverIp parsed =
     (let cfg = pinV2RayNodeAddresses resolve (withV2RayDiagnosticLog parsed)
      in and_then (assertSafeV2RayConfig cfg) (\<lambda>_.
           ok (case dohResolverIp of
                 Some ip \<Rightarrow> if ip = '''' then cfg else withV2RayDoH cfg ip
               | None \<Rightarrow> cfg)))"

definition prepareHysteria2 :: "(string \<Rightarrow> string option) \<Rightarrow> js \<Rightarrow> js result" where
  "prepareHysteria2 resolve parsed =
     (let cfg = (case jget ''server'' parsed of
            JStr server \<Rightarrow>
              (case last_index_of CHR '':'' server of
                 None \<Rightarrow> parsed
               | Some colon \<Rightarrow>
                   if colon > 0 then
                     (case resolve (take colon server) of
                        None \<Rightarrow> parsed
                      | Some ip \<Rightarrow> if ip = '''' then parsed
                          else jset ''server'' (JStr (ip @ '':'' @ drop (Suc colon) server)) parsed)
                   else parsed)
          | _ \<Rightarrow> parsed)
      in and_then (assertSafeHysteria2Config cfg) (\<lambda>_. ok cfg))"

section \<open>Lemmas\<close>

lemma is_object_cases: "is_object x \<Longrightarrow> \<not> is_array x \<Longrightarrow> \<exists>fs. x = JObj fs"
  by (cases x) auto

lemma is_array_elems: "is_array x \<Longrightarrow> x = JArr (elems x)"
  by (cases x) auto

lemma not_object_jget: "\<not> is_object x \<Longrightarrow> jget k x = JUndef"
  by (cases x) auto

lemma check_log_diag [simp]:
  "check_log (JObj [(''access'', JStr ''none''), (''error'', JStr ''''), (''loglevel'', JStr ''warning'')]) = ok ()"
  by (simp add: check_log_def)

text \<open>The guard reads three fields.\<close>

lemma guard_cong:
  assumes "is_object c" "\<not> is_array c" "is_object d" "\<not> is_array d"
    and "jget ''log'' d = jget ''log'' c" "jget ''inbounds'' d = jget ''inbounds'' c"
    and "is_array (jget ''outbounds'' d) \<longleftrightarrow> is_array (jget ''outbounds'' c)"
    and "elems (jget ''outbounds'' d) = [] \<longleftrightarrow> elems (jget ''outbounds'' c) = []"
  shows "assertSafeV2RayConfig d = assertSafeV2RayConfig c"
  using assms by (simp add: assertSafeV2RayConfig_def)

lemma guard_object: "assertSafeV2RayConfig c = ok () \<Longrightarrow> \<exists>fs. c = JObj fs"
  by (cases c) (auto simp: assertSafeV2RayConfig_def)

lemma guard_ok_iff:
  "assertSafeV2RayConfig (JObj fs) = ok () \<longleftrightarrow>
     (let c = JObj fs in is_array (jget ''outbounds'' c) \<and> elems (jget ''outbounds'' c) \<noteq> [] \<and>
        check_log (jget ''log'' c) = ok () \<and>
        (\<forall>ib \<in> set (elems (jget ''inbounds'' c)). check_inbound ib = ok ()))"
  by (cases "jget ''inbounds'' (JObj fs)")
    (auto simp: assertSafeV2RayConfig_def Let_def and_then_eq_ok each_ok simp del: jget.simps)

lemma jget_pin:
  "k \<noteq> ''outbounds'' \<Longrightarrow> jget k (pinV2RayNodeAddresses resolve (JObj fs)) = jget k (JObj fs)"
  by (simp add: pinV2RayNodeAddresses_def Let_def split: js.splits)

lemma jget_pin_outbounds:
  "jget ''outbounds'' (pinV2RayNodeAddresses resolve (JObj fs)) =
     (case jget ''outbounds'' (JObj fs) of JArr obs \<Rightarrow> JArr (map (pin_outbound resolve) obs) | x \<Rightarrow> x)"
  by (cases "jget ''outbounds'' (JObj fs)") (auto simp: pinV2RayNodeAddresses_def Let_def)

lemma pin_object: "\<exists>gs. pinV2RayNodeAddresses resolve (JObj fs) = JObj gs"
  by (cases "jget ''outbounds'' (JObj fs)") (auto simp: pinV2RayNodeAddresses_def Let_def)

lemma guard_pin:
  "assertSafeV2RayConfig (pinV2RayNodeAddresses resolve (JObj fs)) = assertSafeV2RayConfig (JObj fs)"
proof -
  obtain gs where gs: "pinV2RayNodeAddresses resolve (JObj fs) = JObj gs" using pin_object by blast
  have "is_array (jget ''outbounds'' (JObj gs)) \<longleftrightarrow> is_array (jget ''outbounds'' (JObj fs))"
    "elems (jget ''outbounds'' (JObj gs)) = [] \<longleftrightarrow> elems (jget ''outbounds'' (JObj fs)) = []"
    unfolding gs [symmetric] jget_pin_outbounds by (auto split: js.splits)
  moreover have "jget ''log'' (JObj gs) = jget ''log'' (JObj fs)"
    "jget ''inbounds'' (JObj gs) = jget ''inbounds'' (JObj fs)"
    unfolding gs [symmetric] by (rule jget_pin, simp)+
  ultimately show ?thesis unfolding gs by (intro guard_cong) simp_all
qed

definition known_doh :: "string \<Rightarrow> bool" where
  "known_doh ip \<longleftrightarrow> map_of DOH_ENDPOINTS ip \<noteq> None"

lemma doh_unknown: "\<not> known_doh ip \<Longrightarrow> withV2RayDoH cfg ip = cfg"
  by (simp add: withV2RayDoH_def known_doh_def)

lemma jget_doh_other:
  "k \<notin> {''dns'', ''outbounds'', ''routing''} \<Longrightarrow> jget k (withV2RayDoH (JObj fs) ip) = jget k (JObj fs)"
  by (simp add: withV2RayDoH_def Let_def split: option.splits)

lemma jget_doh_outbounds:
  "known_doh ip \<Longrightarrow> jget ''outbounds'' (withV2RayDoH (JObj fs) ip) =
     JArr (elems (jget ''outbounds'' (JObj fs)) @ [JObj [(''protocol'', JStr ''dns''), (''tag'', JStr ''dns-out'')]])"
  by (auto simp: withV2RayDoH_def Let_def known_doh_def)

lemma doh_object: "\<exists>gs. withV2RayDoH (JObj fs) ip = JObj gs"
  by (simp add: withV2RayDoH_def Let_def split: option.splits)

lemma guard_doh:
  assumes "assertSafeV2RayConfig (JObj fs) = ok ()"
  shows "assertSafeV2RayConfig (withV2RayDoH (JObj fs) ip) = ok ()"
proof (cases "known_doh ip")
  case True
  obtain gs where gs: "withV2RayDoH (JObj fs) ip = JObj gs" using doh_object by blast
  have "jget ''log'' (JObj gs) = jget ''log'' (JObj fs)" "jget ''inbounds'' (JObj gs) = jget ''inbounds'' (JObj fs)"
    unfolding gs [symmetric] by (rule jget_doh_other, simp)+
  moreover have "jget ''outbounds'' (JObj gs) = JArr (elems (jget ''outbounds'' (JObj fs)) @
      [JObj [(''protocol'', JStr ''dns''), (''tag'', JStr ''dns-out'')]])"
    unfolding gs [symmetric] by (rule jget_doh_outbounds [OF True])
  ultimately show ?thesis
    using assms unfolding gs guard_ok_iff by (simp add: Let_def del: jget.simps)
qed (use assms in \<open>simp add: doh_unknown\<close>)

section \<open>Pinned addresses\<close>

text \<open>The addresses a config dials.\<close>

definition dialled :: "js \<Rightarrow> string list" where
  "dialled config =
     concat (map (\<lambda>ob. concat (map (\<lambda>v. case jget ''address'' v of JStr a \<Rightarrow> [a] | _ \<Rightarrow> [])
       (elems (jget ''vnext'' (jget ''settings'' ob))))) (elems (jget ''outbounds'' config)))"

definition pinned_to :: "(string \<Rightarrow> string option) \<Rightarrow> string \<Rightarrow> string" where
  "pinned_to resolve a =
     (if isIPv4 a then a else case resolve a of Some ip \<Rightarrow> if ip = '''' then a else ip | None \<Rightarrow> a)"

lemma address_pin_vnext:
  "jget ''address'' (pin_vnext resolve v) =
     (case jget ''address'' v of JStr a \<Rightarrow> JStr (pinned_to resolve a) | x \<Rightarrow> x)"
  by (auto simp: pin_vnext_def pinned_to_def not_object_jget Let_def split: js.splits option.splits)

lemma vnext_pin_outbound:
  "elems (jget ''vnext'' (jget ''settings'' (pin_outbound resolve ob))) =
     map (pin_vnext resolve) (elems (jget ''vnext'' (jget ''settings'' ob)))"
  by (cases "jget ''vnext'' (jget ''settings'' ob)")
    (auto simp: pin_outbound_def not_object_jget Let_def)

lemma dialled_pin:
  "dialled (pinV2RayNodeAddresses resolve (JObj fs)) = map (pinned_to resolve) (dialled (JObj fs))"
proof -
  have "elems (jget ''outbounds'' (pinV2RayNodeAddresses resolve (JObj fs))) =
      map (pin_outbound resolve) (elems (jget ''outbounds'' (JObj fs)))"
    unfolding jget_pin_outbounds by (simp split: js.splits)
  moreover have "(\<lambda>v. case jget ''address'' (pin_vnext resolve v) of JStr a \<Rightarrow> [a] | _ \<Rightarrow> []) =
      (\<lambda>v. map (pinned_to resolve) (case jget ''address'' v of JStr a \<Rightarrow> [a] | _ \<Rightarrow> []))"
    by (auto simp: fun_eq_iff address_pin_vnext split: js.splits)
  ultimately show ?thesis
    unfolding dialled_def by (simp add: vnext_pin_outbound map_concat comp_def del: jget.simps)
qed

lemma dialled_doh: "dialled (withV2RayDoH (JObj fs) ip) = dialled (JObj fs)"
  by (cases "known_doh ip") (simp_all add: dialled_def jget_doh_outbounds doh_unknown del: jget.simps(1), simp)

lemma diag_object: "\<exists>fs. withV2RayDiagnosticLog parsed = JObj fs"
  by (simp add: withV2RayDiagnosticLog_def spread_def)

lemma jget_diag:
  "k \<noteq> ''log'' \<Longrightarrow> jget k (withV2RayDiagnosticLog parsed) = jget k (if is_object parsed then spread parsed else JObj [])"
  by (simp add: withV2RayDiagnosticLog_def)

lemma diag_log:
  "jget ''log'' (withV2RayDiagnosticLog parsed) =
     JObj [(''access'', JStr ''none''), (''error'', JStr ''''), (''loglevel'', JStr ''warning'')]"
  by (simp add: withV2RayDiagnosticLog_def spread_def)

lemma dialled_diag: "dialled (withV2RayDiagnosticLog (JObj fs)) = dialled (JObj fs)"
  by (simp add: dialled_def jget_diag del: jget.simps(1))

lemma prepareV2Ray_ok:
  "prepareV2Ray resolve doh parsed = ok cfg \<Longrightarrow> \<exists>fs.
     withV2RayDiagnosticLog parsed = JObj fs \<and> assertSafeV2RayConfig (JObj fs) = ok () \<and>
     (\<exists>gs. pinV2RayNodeAddresses resolve (JObj fs) = JObj gs \<and> assertSafeV2RayConfig (JObj gs) = ok () \<and>
        (cfg = JObj gs \<or> (\<exists>ip. doh = Some ip \<and> cfg = withV2RayDoH (JObj gs) ip)))"
  using diag_object [of parsed] pin_object [of resolve] guard_pin [of resolve]
  by (fastforce simp: prepareV2Ray_def Let_def and_then_eq_ok split: option.splits if_splits)

text \<open>What the code promises of a resolver: its answers are dotted addresses.\<close>

definition resolver_ok :: "(string \<Rightarrow> string option) \<Rightarrow> bool" where
  "resolver_ok resolve \<longleftrightarrow> (\<forall>h ip. resolve h = Some ip \<longrightarrow> dotted_digits ip)"

lemma not_dotted_Nil [simp]: "\<not> dotted_digits []"
  by (simp add: dotted_digits_def)

lemma resolver_okD: "resolver_ok resolve \<Longrightarrow> resolve h = Some ip \<Longrightarrow> dotted_digits ip \<and> ip \<noteq> []"
  using not_dotted_Nil by (auto simp: resolver_ok_def simp del: not_dotted_Nil)

lemma pinned_to_cases:
  "resolver_ok resolve \<Longrightarrow> dotted_digits (pinned_to resolve a) \<or> resolve a = None \<or> isIPv4 (pinned_to resolve a)"
  by (auto simp: pinned_to_def dest: resolver_okD split: option.splits)

lemma spawned_config_parts:
  assumes "prepareV2Ray resolve doh parsed = ok cfg" and "resolver_ok resolve"
  shows "assertSafeV2RayConfig cfg = ok ()"
    and "jget ''access'' (jget ''log'' cfg) = JStr ''none''" and "jget ''error'' (jget ''log'' cfg) = JStr ''''"
    and "\<forall>ib \<in> set (elems (jget ''inbounds'' cfg)). \<forall>l. jget ''listen'' ib = JStr l \<longrightarrow> l \<in> set V2RAY_LOOPBACK"
    and "\<forall>a \<in> set (dialled cfg). isIPv4 a \<or> dotted_digits a \<or> resolve a = None"
proof -
  obtain fs gs where fs: "withV2RayDiagnosticLog parsed = JObj fs"
    and gs: "pinV2RayNodeAddresses resolve (JObj fs) = JObj gs"
    and safe: "assertSafeV2RayConfig (JObj gs) = ok ()"
    and cfg: "cfg = JObj gs \<or> (\<exists>ip. doh = Some ip \<and> cfg = withV2RayDoH (JObj gs) ip)"
    using prepareV2Ray_ok [OF assms(1)] by blast
  from cfg safe show g: "assertSafeV2RayConfig cfg = ok ()" by (auto simp: guard_doh)
  have keep: "jget k cfg = jget k (JObj gs)" if "k \<in> {''log'', ''inbounds''}" for k
    using cfg that jget_doh_other [of k gs] by auto
  have "jget ''log'' cfg = jget ''log'' (JObj fs)"
    using keep [of "''log''"] jget_pin [of "''log''" resolve fs] gs by simp
  with diag_log [of parsed] fs show "jget ''access'' (jget ''log'' cfg) = JStr ''none''"
    "jget ''error'' (jget ''log'' cfg) = JStr ''''" by simp_all
  obtain hs where "cfg = JObj hs" using g guard_object by blast
  with g have "\<forall>ib \<in> set (elems (jget ''inbounds'' cfg)). check_inbound ib = ok ()"
    by (simp add: guard_ok_iff Let_def del: jget.simps)
  then show "\<forall>ib \<in> set (elems (jget ''inbounds'' cfg)). \<forall>l. jget ''listen'' ib = JStr l \<longrightarrow> l \<in> set V2RAY_LOOPBACK"
    by (fastforce simp: check_inbound_def not_object_jget split: if_splits)
  have "dialled cfg = map (pinned_to resolve) (dialled (JObj fs))"
    using cfg dialled_doh [of gs] dialled_pin [of resolve fs] gs by auto
  moreover have "isIPv4 b \<or> dotted_digits b \<or> resolve b = None" if "b = pinned_to resolve a" for a b
    using that assms(2) by (auto simp: pinned_to_def dest: resolver_okD split: option.splits if_splits)
  ultimately show "\<forall>a \<in> set (dialled cfg). isIPv4 a \<or> dotted_digits a \<or> resolve a = None" by auto
qed

text \<open>
  A V2Ray or Xray config that is written to disk and spawned (\<open>connectV2RayFromConfig\<close>,
  \<open>connectXRayFromConfig\<close>), whatever JSON it came from: it still passes the guard after the
  address pinning and the DNS-over-HTTPS injection, it logs to no file, it listens on loopback
  only, and every endpoint it dials is a literal address unless the host could not be resolved.
\<close>

theorem spawned_config_safe:
  assumes "prepareV2Ray resolve doh parsed = ok cfg" and "resolver_ok resolve"
  shows "assertSafeV2RayConfig cfg = ok () \<and>
    jget ''access'' (jget ''log'' cfg) = JStr ''none'' \<and> jget ''error'' (jget ''log'' cfg) = JStr [] \<and>
    (\<forall>ib \<in> set (elems (jget ''inbounds'' cfg)). \<forall>l. jget ''listen'' ib = JStr l \<longrightarrow> l \<in> set V2RAY_LOOPBACK) \<and>
    (\<forall>a \<in> set (dialled cfg). isIPv4 a \<or> dotted_digits a \<or> resolve a = None)"
  using spawned_config_parts [OF assms] by blast

section \<open>What the injected DNS rules do\<close>

text \<open>The router of the proxy cores on the two conditions the rules use: the first rule whose inbound
  tags and port match gives the target.\<close>

definition rule_applies :: "string \<Rightarrow> int \<Rightarrow> js \<Rightarrow> bool" where
  "rule_applies tag p rule \<longleftrightarrow>
     (case jget ''inboundTag'' rule of JArr ts \<Rightarrow> JStr tag \<in> set ts | _ \<Rightarrow> True) \<and>
     (case jget ''port'' rule of JNum (NInt q) \<Rightarrow> p = q | _ \<Rightarrow> True)"

definition target :: "js \<Rightarrow> js \<times> js" where
  "target rule = (jget ''outboundTag'' rule, jget ''balancerTag'' rule)"

definition route :: "js \<Rightarrow> string \<Rightarrow> int \<Rightarrow> (js \<times> js) option" where
  "route config tag p =
     map_option target (find (rule_applies tag p) (elems (jget ''rules'' (jget ''routing'' config))))"

lemma routing_of_rules:
  "elems (jget ''rules'' (routing_of config)) = elems (jget ''rules'' (jget ''routing'' config))"
  by (cases "jget ''routing'' config") (auto simp: routing_of_def)

lemma routing_of_object: "\<exists>rs. routing_of config = JObj rs"
  by (simp add: routing_of_def Let_def spread_def)

lemma doh_rules:
  assumes "known_doh ip"
  shows "elems (jget ''rules'' (jget ''routing'' (withV2RayDoH (JObj fs) ip))) =
    JObj [(''type'', JStr ''field''), (''inboundTag'', JArr (map JStr (interceptTags (JObj fs)))),
      (''port'', JNum (NInt 53)), (''outboundTag'', JStr ''dns-out'')] #
    (case doh_egress (JObj fs) (routing_of (JObj fs)) (elems (jget ''rules'' (routing_of (JObj fs))))
        (interceptTags (JObj fs)) of
       None \<Rightarrow> []
     | Some e \<Rightarrow> [JObj ([(''type'', JStr ''field''), (''inboundTag'', JArr [JStr ''dns-module''])] @ e)]) @
    elems (jget ''rules'' (routing_of (JObj fs)))"
proof -
  obtain ep where ep: "map_of DOH_ENDPOINTS ip = Some ep" using assms by (auto simp: known_doh_def)
  obtain rs where "routing_of (JObj fs) = JObj rs" using routing_of_object by blast
  then show ?thesis
    by (simp add: withV2RayDoH_def ep Let_def)
qed

lemma doh_route_parts:
  assumes "known_doh ip" and "tag \<in> set (interceptTags (JObj fs))" and "''dns-module'' \<notin> set (interceptTags (JObj fs))"
  shows "route (withV2RayDoH (JObj fs) ip) tag 53 = Some (JStr ''dns-out'', JUndef)"
    and "JObj [(''protocol'', JStr ''dns''), (''tag'', JStr ''dns-out'')]
           \<in> set (elems (jget ''outbounds'' (withV2RayDoH (JObj fs) ip)))"
    and "doh_egress (JObj fs) (routing_of (JObj fs)) (elems (jget ''rules'' (routing_of (JObj fs))))
           (interceptTags (JObj fs)) = Some e \<Longrightarrow>
         route (withV2RayDoH (JObj fs) ip) ''dns-module'' p = Some (target (JObj e))"
    and "t \<noteq> ''dns-module'' \<Longrightarrow> p \<noteq> 53 \<or> t \<notin> set (interceptTags (JObj fs)) \<Longrightarrow>
         route (withV2RayDoH (JObj fs) ip) t p = route (JObj fs) t p"
proof -
  show "route (withV2RayDoH (JObj fs) ip) tag 53 = Some (JStr ''dns-out'', JUndef)"
    using assms(2) by (simp add: route_def doh_rules [OF assms(1)] rule_applies_def target_def image_iff)
  show "JObj [(''protocol'', JStr ''dns''), (''tag'', JStr ''dns-out'')]
      \<in> set (elems (jget ''outbounds'' (withV2RayDoH (JObj fs) ip)))"
    by (simp add: jget_doh_outbounds [OF assms(1)])
next
  assume e: "doh_egress (JObj fs) (routing_of (JObj fs)) (elems (jget ''rules'' (routing_of (JObj fs))))
      (interceptTags (JObj fs)) = Some e"
  then have "\<forall>k \<in> fst ` set e. k = ''balancerTag'' \<or> k = ''outboundTag''"
    by (auto simp: doh_egress_def split: option.splits)
  then have "map_of e ''port'' = None" by (force simp: map_of_eq_None_iff)
  with e assms(3) show "route (withV2RayDoH (JObj fs) ip) ''dns-module'' p = Some (target (JObj e))"
    by (auto simp: route_def doh_rules [OF assms(1)] rule_applies_def target_def)
next
  assume "t \<noteq> ''dns-module''" "p \<noteq> 53 \<or> t \<notin> set (interceptTags (JObj fs))"
  then show "route (withV2RayDoH (JObj fs) ip) t p = route (JObj fs) t p"
    by (auto simp: route_def doh_rules [OF assms(1)] rule_applies_def routing_of_rules
        split: option.splits)
qed

text \<open>
  DNS over HTTPS (\<open>withV2RayDoH\<close>) for an allow-listed resolver: port-53 traffic of every inbound
  that carries user traffic is answered by the DNS module's own outbound, which the config then has;
  the module's queries leave the way user traffic does; and every other connection is routed exactly
  as before.
\<close>

theorem doh_routes:
  assumes "known_doh ip" and "tag \<in> set (interceptTags (JObj fs))" and "''dns-module'' \<notin> set (interceptTags (JObj fs))"
  shows "route (withV2RayDoH (JObj fs) ip) tag 53 = Some (JStr ''dns-out'', JUndef) \<and>
    JObj [(''protocol'', JStr ''dns''), (''tag'', JStr ''dns-out'')]
      \<in> set (elems (jget ''outbounds'' (withV2RayDoH (JObj fs) ip))) \<and>
    (\<forall>e p. doh_egress (JObj fs) (routing_of (JObj fs)) (elems (jget ''rules'' (routing_of (JObj fs))))
        (interceptTags (JObj fs)) = Some e \<longrightarrow>
      route (withV2RayDoH (JObj fs) ip) ''dns-module'' p = Some (target (JObj e))) \<and>
    (\<forall>t p. t \<noteq> ''dns-module'' \<longrightarrow> p \<noteq> 53 \<or> t \<notin> set (interceptTags (JObj fs)) \<longrightarrow>
      route (withV2RayDoH (JObj fs) ip) t p = route (JObj fs) t p)"
  using doh_route_parts [OF assms] by blast

text \<open>Two configs to evaluate the theorems on.\<close>

definition sample_v2ray :: js where
  "sample_v2ray = JObj
     [(''inbounds'', JArr [JObj [(''tag'', JStr ''socks''), (''listen'', JStr ''127.0.0.1''),
         (''protocol'', JStr ''socks'')]]),
      (''outbounds'', JArr [JObj [(''tag'', JStr ''proxy''), (''settings'', JObj [(''vnext'',
         JArr [JObj [(''address'', JStr ''node.example'')]])])]])]"

definition sample_resolve :: "string \<Rightarrow> string option" where
  "sample_resolve h = (if h = ''node.example'' then Some ''5.6.7.8'' else None)"

lemma sample_resolver_ok: "resolver_ok sample_resolve"
  unfolding resolver_ok_def sample_resolve_def by (auto split: if_splits) code_simp

lemma sample_prepared:
  "prepareV2Ray sample_resolve (Some ''9.9.9.9'') sample_v2ray = ok (withV2RayDoH
     (pinV2RayNodeAddresses sample_resolve (withV2RayDiagnosticLog sample_v2ray)) ''9.9.9.9'')"
  by code_simp

lemma spawned_config_safe_witness:
  "assertSafeV2RayConfig (withV2RayDoH
     (pinV2RayNodeAddresses sample_resolve (withV2RayDiagnosticLog sample_v2ray)) ''9.9.9.9'') = ok ()"
  using spawned_config_safe [OF sample_prepared sample_resolver_ok] by blast

lemma doh_routes_witness:
  "route (withV2RayDoH sample_v2ray ''9.9.9.9'') ''socks'' 53 = Some (JStr ''dns-out'', JUndef)"
proof -
  have "known_doh ''9.9.9.9'' \<and> ''socks'' \<in> set (interceptTags sample_v2ray) \<and>
      ''dns-module'' \<notin> set (interceptTags sample_v2ray)"
    by code_simp
  then show ?thesis
    using doh_routes [of "''9.9.9.9''" "''socks''" "Json.fields sample_v2ray"] by (simp add: sample_v2ray_def)
qed

section \<open>The resolver\<close>

lemma getent_dotted: "firstIPv4FromGetent out = Some ip \<Longrightarrow> dotted_digits ip"
  by (auto simp: firstIPv4FromGetent_def find_Some_iff)

definition cache_ok :: "(string \<rightharpoonup> string) \<Rightarrow> bool" where
  "cache_ok cache \<longleftrightarrow> (\<forall>h ip. cache h = Some ip \<longrightarrow> dotted_digits ip)"

text \<open>
  The resolver with its cache (\<open>resolveHostToIPv4\<close>): every answer is a dotted address; a host
  that is not one is answered from a live lookup of that very host when there is one, and otherwise
  by the last live answer for the same host; no other entry of the cache changes; and a name with
  any character outside letters, digits, dot, dash and underscore is never looked up.
\<close>

theorem resolver_sound:
  assumes "cache_ok cache" and "resolveHostToIPv4 getent host cache = (answer, cache')"
  shows "cache_ok cache' \<and> (\<forall>ip. answer = Some ip \<longrightarrow> dotted_digits ip) \<and>
    (\<forall>h. h \<noteq> host \<longrightarrow> cache' h = cache h) \<and>
    (\<not> dotted_digits host \<longrightarrow>
       (\<forall>ip. answer = Some ip \<longrightarrow>
          rx_test host_name_rx host \<and>
          (Option.bind (getent host) firstIPv4FromGetent = Some ip \<and> cache' host = Some ip \<or>
           Option.bind (getent host) firstIPv4FromGetent = None \<and> cache host = Some ip)))"
  using assms by (auto simp: resolveHostToIPv4_def cache_ok_def bind_eq_Some_conv
      dest: getent_dotted split: if_splits option.splits)

lemma resolver_sound_witness:
  "fst (resolveHostToIPv4 (\<lambda>_. None) ''n.example'' [''n.example'' \<mapsto> ''5.6.7.8'']) = Some ''5.6.7.8'' \<and>
   cache_ok (snd (resolveHostToIPv4 (\<lambda>_. None) ''n.example'' [''n.example'' \<mapsto> ''5.6.7.8'']))"
proof -
  have d: "dotted_digits ''5.6.7.8''" by code_simp
  have n: "\<not> dotted_digits ''n.example''" "rx_test host_name_rx ''n.example''" by code_simp+
  have c: "cache_ok [''n.example'' \<mapsto> ''5.6.7.8'']" using d by (auto simp: cache_ok_def split: if_splits)
  have r: "resolveHostToIPv4 (\<lambda>_. None) ''n.example'' [''n.example'' \<mapsto> ''5.6.7.8''] =
      (Some ''5.6.7.8'', [''n.example'' \<mapsto> ''5.6.7.8''])"
    using n by (simp add: resolveHostToIPv4_def)
  from resolver_sound [OF c r] r show ?thesis by simp
qed

section \<open>The resolver as an interface\<close>

text \<open>What address pinning and the endpoint lookup rely on: literal addresses resolve to themselves
  and every answer is one.\<close>

locale host_resolver =
  fixes resolve :: "string \<Rightarrow> string option"
  assumes literal: "dotted_digits h \<Longrightarrow> resolve h = Some h"
    and answers_dotted: "resolve h = Some ip \<Longrightarrow> dotted_digits ip"
begin

lemma ok: "resolver_ok resolve"
  by (simp add: resolver_ok_def answers_dotted)

lemma pinned_resolves_alike: "resolve (pinned_to resolve a) = resolve a"
  by (auto simp: pinned_to_def dest!: answers_dotted intro: literal split: option.splits)

lemma pinned_dotted: "resolve a = Some ip \<Longrightarrow> \<not> isIPv4 a \<Longrightarrow> pinned_to resolve a = ip"
  by (auto simp: pinned_to_def dest: answers_dotted)

end

text \<open>The cache after a sequence of earlier lookups, each with what getent answered at the time.\<close>

fun cache_after :: "((string \<Rightarrow> string option) \<times> string) list \<Rightarrow> (string \<rightharpoonup> string)" where
  "cache_after [] = Map.empty"
| "cache_after ((getent, host) # earlier) = snd (resolveHostToIPv4 getent host (cache_after earlier))"

lemma cache_ok_step:
  "cache_ok cache \<Longrightarrow> cache_ok (snd (resolveHostToIPv4 getent host cache)) \<and>
     (\<forall>ip. fst (resolveHostToIPv4 getent host cache) = Some ip \<longrightarrow> dotted_digits ip)"
  by (auto simp: resolveHostToIPv4_def cache_ok_def bind_eq_Some_conv
      dest: getent_dotted split: if_splits option.splits)

lemma cache_after_ok: "cache_ok (cache_after earlier)"
proof (induction earlier rule: cache_after.induct)
  case 1
  show ?case by (simp add: cache_ok_def)
next
  case (2 getent host earlier)
  then show ?case using cache_ok_step by simp
qed

definition resolve_now :: "(string \<Rightarrow> string option) \<Rightarrow> ((string \<Rightarrow> string option) \<times> string) list \<Rightarrow> string \<Rightarrow> string option" where
  "resolve_now getent earlier host = fst (resolveHostToIPv4 getent host (cache_after earlier))"

interpretation live: host_resolver "resolve_now getent earlier" for getent earlier
proof
  fix h assume "dotted_digits h"
  then show "resolve_now getent earlier h = Some h" by (simp add: resolve_now_def resolveHostToIPv4_def)
next
  fix h ip assume "resolve_now getent earlier h = Some ip"
  then show "dotted_digits ip"
    using cache_ok_step [OF cache_after_ok] by (auto simp: resolve_now_def)
qed

section \<open>The inbound policy\<close>

text \<open>
  The encryption policy for V2Ray inbounds: what \<open>filterV2RayMetadata\<close> keeps is never a VLess
  inbound without transport security, nothing else is dropped, the result is empty exactly when the
  node offered nothing or only such inbounds (the case \<open>isAllCleartext\<close> reports), and the badge warns
  exactly then.
\<close>

theorem inbound_policy:
  "set (filterV2RayMetadata ms) =
     {m \<in> set ms. \<not> (im_proxy_protocol m = PROXY_VLESS \<and> im_transport_security m = SECURITY_NONE)} \<and>
   (filterV2RayMetadata ms = [] \<longleftrightarrow> ms = [] \<or> isAllCleartext ms) \<and>
   (v2raySecurityBadge ms = VLessWarning \<longleftrightarrow> isAllCleartext ms)"
proof -
  have c: "classifyV2RayInbound m = Acceptable \<longleftrightarrow>
      \<not> (im_proxy_protocol m = PROXY_VLESS \<and> im_transport_security m = SECURITY_NONE)" for m
    by (simp add: classifyV2RayInbound_def enum_defs)
  have f: "filterV2RayMetadata ms = filter (\<lambda>m. classifyV2RayInbound m = Acceptable) ms"
    by (simp add: filterV2RayMetadata_def Let_def)
  have e: "filterV2RayMetadata ms = [] \<longleftrightarrow> ms = [] \<or> isAllCleartext ms"
    unfolding f by (auto simp: filter_empty_conv isAllCleartext_def list_all_iff intro: inbound_class.exhaust)
  show ?thesis
    using e by (auto simp: f c v2raySecurityBadge_def isAllCleartext_def Let_def)
qed

lemma inbound_policy_witness:
  "filterV2RayMetadata [\<lparr>im_proxy_protocol = 1, im_transport_security = 1\<rparr>] = []"
  using inbound_policy [of "[\<lparr>im_proxy_protocol = 1, im_transport_security = 1\<rparr>]"]
  by (auto simp: isAllCleartext_def classifyV2RayInbound_def enum_defs)

section \<open>The Hysteria2 guard\<close>

lemma hysteria_guard_ok_iff:
  "assertSafeHysteria2Config (JObj fs) = ok () \<longleftrightarrow>
     (\<exists>s l p. jget ''server'' (JObj fs) = JStr s \<and> rx_test hy_server_rx s \<and>
        jget ''listen'' (jget ''socks5'' (JObj fs)) = JStr l \<and> hostOfListen l \<in> set V2RAY_LOOPBACK \<and>
        jget ''pinSHA256'' (jget ''tls'' (JObj fs)) = JStr p \<and> isHexCertPin p \<and>
        \<not> has_key ''acl'' (JObj fs) \<and> \<not> has_key ''outbounds'' (JObj fs))"
  by (simp add: assertSafeHysteria2Config_def and_then_eq_ok del: jget.simps has_key.simps split: js.splits)
     blast?

lemma hysteria_guard_object: "assertSafeHysteria2Config c = ok () \<Longrightarrow> \<exists>fs. c = JObj fs"
  by (cases c) (auto simp: assertSafeHysteria2Config_def)

end
