(* ===== verification/TlsPin.thy ===== *)
theory TlsPin
  imports Base64 V2RayGuard
begin

text \<open>
  What the Xray and the multihop builders share (\<open>xray-config.ts\<close>, \<open>multihop-config.ts\<close> of
  \<open>src/main/protocols\<close>): a node's metadata entry, the certificate-pin normaliser, the Reality key
  check, and the fragments of the emitted JSON.

  An entry has the fields its TypeScript interface declares, an absent optional field being \<open>None\<close>;
  its port is a \<open>js\<close> value, a string or a number. The pin and key checks are duplicated in the
  code, once per builder; so they are here, and both copies implement the locale \<open>pin_normaliser\<close>.
\<close>

record hop_meta =
  hm_port :: js
  hm_proxy_protocol :: int
  hm_transport_protocol :: int
  hm_transport_security :: int
  hm_tls_pin :: "string option"
  hm_flow :: "int option"
  hm_reality_server_name :: "string option"
  hm_reality_short_id :: "string option"
  hm_reality_public_key :: "string option"
  hm_reality_fingerprint :: "string option"

section \<open>Certificate pins and Reality keys\<close>

definition b64_pin_rx :: rx where
  "b64_pin_rx = Seq (cls_between base64_char 42 44) (Rng (\<lambda>c. c = CHR ''='') 0 (Some 2))"

definition b64url_char :: "char \<Rightarrow> bool" where
  "b64url_char c \<longleftrightarrow> base64_char c \<or> c = CHR ''_'' \<or> c = CHR ''-''"

definition b64url_key_rx :: rx where
  "b64url_key_rx = Seq (cls_between b64url_char 42 44) (Rng (\<lambda>c. c = CHR ''='') 0 (Some 2))"

text \<open>\<open>s.replace(/=+$/, '')\<close>.\<close>

definition strip_padding :: "string \<Rightarrow> string" where
  "strip_padding s = rev (dropWhile (\<lambda>c. c = CHR ''='') (rev s))"

definition normalizeTlsPin :: "string option \<Rightarrow> string option" where
  "normalizeTlsPin pin =
     (case pin of
        None \<Rightarrow> None
      | Some p \<Rightarrow>
          if length p = 0 then None
          else let trimmed = trim p in
            if rx_test hex64_rx trimmed then Some (to_lower trimmed)
            else if \<not> rx_test b64_pin_rx trimmed then None
            else let buf = b64_dec trimmed in
              if length buf \<noteq> 32 \<or> strip_padding (b64_enc buf) \<noteq> strip_padding trimmed then None
              else Some (hex_enc buf))"

definition normalizeXRayTlsPin :: "string option \<Rightarrow> string option" where
  "normalizeXRayTlsPin pin =
     (case pin of
        None \<Rightarrow> None
      | Some p \<Rightarrow>
          if length p = 0 then None
          else let trimmed = trim p in
            if rx_test hex64_rx trimmed then Some (to_lower trimmed)
            else if \<not> rx_test b64_pin_rx trimmed then None
            else let buf = b64_dec trimmed in
              if length buf \<noteq> 32 \<or> strip_padding (b64_enc buf) \<noteq> strip_padding trimmed then None
              else Some (hex_enc buf))"

definition from_url_alphabet :: "string \<Rightarrow> string" where
  "from_url_alphabet s =
     map (\<lambda>c. if c = CHR ''-'' then CHR ''+'' else if c = CHR ''_'' then CHR ''/'' else c) s"

definition isUsableReality :: "hop_meta \<Rightarrow> bool" where
  "isUsableReality entry =
     (case hm_reality_server_name entry of
        None \<Rightarrow> False
      | Some name \<Rightarrow>
          if trim name = '''' then False
          else (case hm_reality_public_key entry of
              None \<Rightarrow> False
            | Some key \<Rightarrow>
                let trimmed = trim key in
                  if \<not> rx_test b64url_key_rx trimmed then False
                  else length (b64_dec (from_url_alphabet trimmed)) = 32))"

definition isUsableXRayReality :: "hop_meta \<Rightarrow> bool" where
  "isUsableXRayReality entry =
     (case hm_reality_server_name entry of
        None \<Rightarrow> False
      | Some name \<Rightarrow>
          if trim name = '''' then False
          else (case hm_reality_public_key entry of
              None \<Rightarrow> False
            | Some key \<Rightarrow>
                let trimmed = trim key in
                  if \<not> rx_test b64url_key_rx trimmed then False
                  else length (b64_dec (from_url_alphabet trimmed)) = 32))"

section \<open>Fragments of the emitted configs\<close>

definition SECURITY_REALITY :: int where "SECURITY_REALITY = 3"
definition FLOW_VISION :: int where "FLOW_VISION = 2"
definition SOCKS_LISTEN :: string where "SOCKS_LISTEN = ''127.0.0.1''"
definition SOCKS_PORT :: int where "SOCKS_PORT = 1080"

definition js_or_empty :: "string option \<Rightarrow> js" where
  "js_or_empty s = JStr (case s of None \<Rightarrow> '''' | Some t \<Rightarrow> t)"

definition fingerprint_of :: "hop_meta \<Rightarrow> js" where
  "fingerprint_of entry =
     JStr (case hm_reality_fingerprint entry of None \<Rightarrow> ''chrome'' | Some t \<Rightarrow> if t = '''' then ''chrome'' else t)"

definition js_or_null :: "string option \<Rightarrow> js" where
  "js_or_null s = (case s of None \<Rightarrow> JNull | Some t \<Rightarrow> JStr t)"

definition raw_port :: "js \<Rightarrow> js" where
  "raw_port p =
     (case p of
        JStr s \<Rightarrow> (case parse_int s of Some i \<Rightarrow> JNum (NInt i) | None \<Rightarrow> JNum (NOther ''NaN''))
      | _ \<Rightarrow> p)"

definition parsePort :: "js \<Rightarrow> int option" where
  "parsePort raw =
     (case as_int (raw_port raw) of
        None \<Rightarrow> None
      | Some port \<Rightarrow> if port \<le> 0 \<or> port > 65535 then None else Some port)"

definition reality_settings :: "hop_meta \<Rightarrow> js" where
  "reality_settings entry = JObj
     [(''serverName'', js_or_empty (hm_reality_server_name entry)),
      (''fingerprint'', fingerprint_of entry),
      (''publicKey'', js_or_empty (hm_reality_public_key entry)),
      (''shortId'', js_or_empty (hm_reality_short_id entry)),
      (''spiderX'', JStr '''')]"

definition tls_settings :: "hop_meta \<Rightarrow> string option \<Rightarrow> js" where
  "tls_settings entry pin = JObj
     [(''fingerprint'', fingerprint_of entry), (''pinnedPeerCertSha256'', js_or_null pin)]"

definition flow_of :: "hop_meta \<Rightarrow> js" where
  "flow_of entry = JStr (if hm_flow entry = Some FLOW_VISION then ''xtls-rprx-vision'' else '''')"

definition socks_inbound :: "string \<Rightarrow> int \<Rightarrow> bool \<Rightarrow> js" where
  "socks_inbound tag port udp = JObj
     [(''tag'', JStr tag), (''listen'', JStr SOCKS_LISTEN), (''port'', JNum (NInt port)),
      (''protocol'', JStr ''socks''), (''settings'', JObj [(''udp'', JBool udp)])]"

definition first_nonempty :: "string list \<Rightarrow> string option" where
  "first_nonempty addrs = find (\<lambda>a. length a > 0) addrs"

section \<open>Lemmas on pins\<close>

lemma is_hex_props: "is_hex c \<Longrightarrow> \<not> is_ws c \<and> base64_char c \<and> c \<noteq> CHR ''=''"
  by (auto simp: class_defs base64_char_def char_le_iff)

lemma lower_hex: "is_hex c \<Longrightarrow> is_hex (lower_char c) \<and> \<not> is_upper (lower_char c)"
  unfolding is_hex_def is_upper_def is_digit_def char_le_iff of_char_lower
  by (auto simp: is_upper_def char_le_iff)

lemma lower_char_id: "is_hex c \<Longrightarrow> \<not> is_upper c \<Longrightarrow> lower_char c = c"
  by (auto simp: lower_char_def class_defs char_le_iff)

lemma hex64: "rx_test hex64_rx s \<longleftrightarrow> list_all is_hex s \<and> length s = 64"
  unfolding hex64_rx_def by (subst rx_test_between) auto

definition lower_hex64 :: "string \<Rightarrow> bool" where
  "lower_hex64 s \<longleftrightarrow> list_all (\<lambda>c. is_hex c \<and> \<not> is_upper c) s \<and> length s = 64"

lemma lower_hex64_enc: "length bs = 32 \<Longrightarrow> lower_hex64 (hex_enc bs)"
  by (simp add: lower_hex64_def hex_enc_chars)

lemma lower_hex64_trim: "lower_hex64 s \<Longrightarrow> trim s = s \<and> to_lower s = s \<and> rx_test hex64_rx s"
proof -
  assume s: "lower_hex64 s"
  then have "\<forall>c \<in> set s. is_hex c \<and> \<not> is_upper c" by (simp add: lower_hex64_def list_all_iff)
  then have "\<forall>c \<in> set s. \<not> is_ws c" "\<forall>c \<in> set s. lower_char c = c"
    by (blast dest: is_hex_props, metis lower_char_id)
  then have "trim s = s" "map lower_char s = s" by (simp_all add: trim_no_ws map_idI)
  with s show ?thesis by (auto simp: to_lower_def hex64 lower_hex64_def list_all_iff)
qed

lemma b64_enc_shape:
  "\<exists>w k. b64_enc bs = w @ replicate k CHR ''='' \<and> list_all base64_char w \<and> k \<le> 2 \<and>
     length w = (length bs * 4 + 2) div 3"
proof (induction bs rule: b64_enc.induct)
  case 1
  show ?case by (rule exI [of _ "[]"]) (rule exI [of _ 0], simp)
next
  case (2 x)
  show ?case
    by (rule exI [of _ "[b64_chr (unat x div 4), b64_chr (unat x mod 4 * 16)]"])
      (rule exI [of _ 2], simp add: sextet_bounds numeral_2_eq_2)
next
  case (3 x y)
  show ?case
    by (rule exI [of _ "[b64_chr (unat x div 4), b64_chr (unat x mod 4 * 16 + unat y div 16),
        b64_chr (unat y mod 16 * 4)]"])
      (rule exI [of _ 1], simp add: sextet_bounds)
next
  case (4 x y z bs)
  then obtain w k where "b64_enc bs = w @ replicate k CHR ''=''" "list_all base64_char w" "k \<le> 2"
    "length w = (length bs * 4 + 2) div 3" by blast
  then show ?case
    by (intro exI [of _ "b64_chr (unat x div 4) # b64_chr (unat x mod 4 * 16 + unat y div 16) #
        b64_chr (unat y mod 16 * 4 + unat z div 64) # b64_chr (unat z mod 64) # w"] exI [of _ k])
      (simp add: sextet_bounds)
qed

lemma not_ws_b64: "base64_char c \<Longrightarrow> \<not> is_ws c"
  by (auto simp: class_defs base64_char_def char_le_iff)

lemma b64_pin_enc:
  assumes "length bs = 32"
  shows "trim (b64_enc bs) = b64_enc bs" and "rx_test b64_pin_rx (b64_enc bs)"
    and "\<not> rx_test hex64_rx (b64_enc bs)"
proof -
  obtain w k where w: "b64_enc bs = w @ replicate k CHR ''=''" "list_all base64_char w" "k \<le> 2"
    "length w = (length bs * 4 + 2) div 3"
    using b64_enc_shape by blast
  have "\<not> is_ws CHR ''=''" by (simp add: class_defs char_le_iff)
  with w(1,2) show "trim (b64_enc bs) = b64_enc bs"
    by (auto intro!: trim_no_ws simp: list_all_iff not_ws_b64)
  have "length w = 43" using w(4) assms by simp
  then have "w \<in> lang (cls_between base64_char 42 44)" using w(2) by simp
  moreover have "replicate k CHR ''='' \<in> lang (Rng (\<lambda>c. c = CHR ''='') 0 (Some 2))"
    using w(3) by (simp add: list_all_iff)
  ultimately have "w @ replicate k CHR ''='' \<in> lang b64_pin_rx"
    unfolding b64_pin_rx_def by (rule lang_SeqI)
  then show "rx_test b64_pin_rx (b64_enc bs)"
    using w(1) by (intro rx_testI) (simp_all add: b64_pin_rx_def)
  show "\<not> rx_test hex64_rx (b64_enc bs)"
    using assms by (simp add: hex64 length_b64_enc)
qed

section \<open>The interface\<close>

text \<open>A certificate-pin normaliser: it yields 64 lower-case hex digits or nothing, keeps such a
  string, and reads both encodings a node may send as the same digest.\<close>

locale pin_normaliser =
  fixes norm_pin :: "string option \<Rightarrow> string option"
  assumes sound: "norm_pin pin = Some h \<Longrightarrow> lower_hex64 h"
    and keeps: "lower_hex64 h \<Longrightarrow> norm_pin (Some h) = Some h"
    and base64: "length bs = 32 \<Longrightarrow> norm_pin (Some (b64_enc bs)) = Some (hex_enc bs)"
    and needs_pin: "norm_pin None = None"
begin

lemma hex: "length bs = 32 \<Longrightarrow> norm_pin (Some (hex_enc bs)) = Some (hex_enc bs)"
  by (simp add: keeps lower_hex64_enc)

lemma idempotent: "norm_pin pin = Some h \<Longrightarrow> norm_pin (Some h) = Some h"
  by (simp add: keeps sound)

lemma both_encodings: "length bs = 32 \<Longrightarrow> norm_pin (Some (b64_enc bs)) = norm_pin (Some (hex_enc bs))"
  by (simp add: base64 hex)

end

lemma normalizeTlsPin_eq: "normalizeXRayTlsPin = normalizeTlsPin"
  by (simp add: fun_eq_iff normalizeXRayTlsPin_def normalizeTlsPin_def)

lemma isUsableReality_eq: "isUsableXRayReality = isUsableReality"
  by (simp add: fun_eq_iff isUsableXRayReality_def isUsableReality_def)

interpretation hop_pin: pin_normaliser normalizeTlsPin
proof
  fix pin h assume "normalizeTlsPin pin = Some h"
  then show "lower_hex64 h"
    by (auto simp: normalizeTlsPin_def Let_def hex64 lower_hex64_def to_lower_def list_all_iff
        lower_hex lower_hex64_enc [unfolded lower_hex64_def list_all_iff] split: option.splits if_splits)
next
  fix h assume "lower_hex64 h"
  with lower_hex64_trim [OF this] show "normalizeTlsPin (Some h) = Some h"
    by (auto simp: normalizeTlsPin_def Let_def lower_hex64_def)
next
  fix bs :: "byte list" assume l: "length bs = 32"
  then have "b64_enc bs \<noteq> []" by (cases bs rule: b64_enc.cases) simp_all
  with b64_pin_enc [OF l] l show "normalizeTlsPin (Some (b64_enc bs)) = Some (hex_enc bs)"
    by (simp add: normalizeTlsPin_def Let_def)
qed (simp add: normalizeTlsPin_def)

interpretation xray_pin: pin_normaliser normalizeXRayTlsPin
  unfolding normalizeTlsPin_eq by (rule hop_pin.pin_normaliser_axioms)

text \<open>
  The two copies of the certificate-pin normaliser (\<open>normalizeTlsPin\<close>, \<open>normalizeXRayTlsPin\<close>)
  agree on every input; a 32-byte digest gives the same pin whether the node sent it in base64 or in
  hex; and whatever is returned is 64 lower-case hex digits, so a malformed pin is never passed on.
\<close>

theorem pin_encodings_agree:
  "normalizeXRayTlsPin pin = normalizeTlsPin pin \<and>
   (length bs = 32 \<longrightarrow> normalizeTlsPin (Some (b64_enc bs)) = Some (hex_enc bs) \<and>
      normalizeTlsPin (Some (hex_enc bs)) = Some (hex_enc bs)) \<and>
   (normalizeTlsPin pin = Some h \<longrightarrow> lower_hex64 h)"
  using hop_pin.base64 hop_pin.hex hop_pin.sound by (auto simp: normalizeTlsPin_eq)

lemma pin_encodings_agree_witness:
  "normalizeTlsPin (Some (b64_enc (replicate 32 7))) = normalizeTlsPin (Some (hex_enc (replicate 32 7)))"
  using pin_encodings_agree [of None "replicate 32 7"] by simp

lemma usable_reality_key:
  "isUsableReality m \<Longrightarrow> \<exists>key name. hm_reality_public_key m = Some key \<and> hm_reality_server_name m = Some name \<and>
     trim name \<noteq> '''' \<and> length (b64_dec (from_url_alphabet (trim key))) = 32"
  by (auto simp: isUsableReality_def Let_def split: option.splits if_splits)

lemma first_nonempty_Some: "first_nonempty as = Some a \<Longrightarrow> a \<in> set as \<and> a \<noteq> []"
  by (auto simp: first_nonempty_def find_Some_iff)

section \<open>Choosing an entry\<close>

text \<open>The contract of the three entry selectors: they pick a usable entry whenever there is one, and
  one of the best kind whenever a usable one of that kind is offered.\<close>

locale entry_selector =
  fixes select_entry :: "'m list \<Rightarrow> 'm option"
    and usable :: "'m \<Rightarrow> bool"
    and best :: "'m \<Rightarrow> bool"
  assumes picks_usable: "select_entry ms = Some m \<Longrightarrow> m \<in> set ms \<and> usable m"
    and picks_some: "m \<in> set ms \<Longrightarrow> usable m \<Longrightarrow> select_entry ms \<noteq> None"
    and picks_best: "select_entry ms = Some m \<Longrightarrow> n \<in> set ms \<Longrightarrow> usable n \<Longrightarrow> best n \<Longrightarrow> best m"
begin

lemma none_iff: "select_entry ms = None \<longleftrightarrow> (\<forall>m \<in> set ms. \<not> usable m)"
  using picks_usable picks_some by (metis option.exhaust)

text \<open>A node cannot lower the grade of the entry by listing more entries, wherever it puts them.\<close>

lemma not_downgraded:
  assumes "select_entry ms = Some m" "best m" "set ms \<subseteq> set ns"
  shows "\<exists>n. select_entry ns = Some n \<and> best n"
proof -
  have m: "m \<in> set ns" "usable m" using assms picks_usable by blast+
  then obtain n where "select_entry ns = Some n" using picks_some by blast
  with m assms(2) picks_best show ?thesis by blast
qed

end

lemma find_Some_set: "find P xs = Some x \<Longrightarrow> x \<in> set xs \<and> P x"
  by (auto simp: find_Some_iff)

lemma find_None_set: "find P xs = None \<longleftrightarrow> (\<forall>x \<in> set xs. \<not> P x)"
  by (auto simp: find_None_iff)

section \<open>Facts about the emitted fragments\<close>

definition is_reality :: "hop_meta \<Rightarrow> bool" where
  "is_reality m \<longleftrightarrow> hm_transport_security m = SECURITY_REALITY"

lemma guard_socks_inbound: "check_inbound (socks_inbound tag port udp) = ok ()"
  by (simp add: socks_inbound_def check_inbound_def SOCKS_LISTEN_def V2RAY_LOOPBACK_def)

lemma guard_no_log_path: "check_log (JObj [(''loglevel'', JStr ''warning'')]) = ok ()"
  by (simp add: check_log_def)

text \<open>How the connection of an outbound is authenticated: the node's certificate is pinned to a
  digest, or the Reality handshake has a 32-byte public key and a server name.\<close>

definition authenticated :: "js \<Rightarrow> bool" where
  "authenticated ob \<longleftrightarrow>
     (let ss = jget ''streamSettings'' ob in
       (jget ''security'' ss = JStr ''tls'' \<and>
          (\<exists>h. jget ''pinnedPeerCertSha256'' (jget ''tlsSettings'' ss) = JStr h \<and> lower_hex64 h)) \<or>
       (jget ''security'' ss = JStr ''reality'' \<and>
          (\<exists>key name. jget ''publicKey'' (jget ''realitySettings'' ss) = JStr key \<and>
             jget ''serverName'' (jget ''realitySettings'' ss) = JStr name \<and> trim name \<noteq> '''' \<and>
             length (b64_dec (from_url_alphabet (trim key))) = 32)))"

end
