(* ===== verification/ReplySignature.thy ===== *)
theory ReplySignature
  imports JsonText TlsPin
begin

text \<open>
  The signed handshake request and the node's signature over its reply
  (\<open>protocols/node-handshake.ts\<close>, \<open>protocols/reply-signature.ts\<close>), the version hint of the node
  directory (\<open>shared/node-signing.ts\<close>). The cryptography is that of the libraries the code
  imports (\<open>@cosmjs/crypto\<close>, \<open>amino\<close>, \<open>encoding\<close>) and is a parameter, the record \<open>crypto\<close>;
  nothing is assumed of it except, where a property says so, that a digest has 32 bytes.
\<close>

section \<open>The request\<close>

record crypto =
  c_sha256 :: "byte list \<Rightarrow> byte list"
  c_verify :: "byte list \<Rightarrow> byte list \<Rightarrow> byte list \<Rightarrow> bool result"
  c_sign :: "byte list \<Rightarrow> byte list \<Rightarrow> byte list"
  c_pubkey :: "byte list \<Rightarrow> byte list"
  c_rawAddress :: "byte list \<Rightarrow> byte list"
  c_fromBech32 :: "string \<Rightarrow> byte list result"
  c_toBech32 :: "string \<Rightarrow> byte list \<Rightarrow> string"

text \<open>\<open>writeBigUInt64BE(BigInt(sessionId))\<close> for a decimal id: an error from \<open>2^64\<close> on. (Other
  spellings \<open>BigInt\<close> reads, such as hexadecimal, are refused by \<open>buildHandshakeBody\<close>, the
  first step of every handshake.)\<close>

fun be_bytes :: "nat \<Rightarrow> nat \<Rightarrow> byte list" where
  "be_bytes 0 n = []"
| "be_bytes (Suc k) n = be_bytes k (n div 256) @ [word_of_nat n]"

definition be64 :: "nat \<Rightarrow> byte list" where
  "be64 n = be_bytes 8 n"

definition decimal_id :: "string \<Rightarrow> bool" where
  "decimal_id s \<longleftrightarrow> s \<noteq> '''' \<and> list_all is_digit s"

definition session_bytes :: "string \<Rightarrow> byte list result" where
  "session_bytes sessionId =
     (if \<not> decimal_id sessionId then throw (''Cannot convert '' @ sessionId @ '' to a BigInt'')
      else if read_nat sessionId < 2 ^ 64 then ok (be64 (read_nat sessionId))
      else throw ''The value of value is out of range'')"

definition buildHandshakeMessage :: "string \<Rightarrow> js \<Rightarrow> byte list result" where
  "buildHandshakeMessage sessionId data =
     and_then (session_bytes sessionId) (\<lambda>i. ok (i @ utf8 (stringify 0 data)))"

record handshake_body =
  hb_data :: string
  hb_id :: nat
  hb_pub_key :: string
  hb_signature :: string

definition buildHandshakeBody :: "crypto \<Rightarrow> string \<Rightarrow> js \<Rightarrow> byte list \<Rightarrow> handshake_body result" where
  "buildHandshakeBody c sessionId data privKey =
     (if \<not> decimal_id sessionId
      then throw (''Invalid session id '' @ [CHR 0x22] @ sessionId @ [CHR 0x22])
      else and_then (buildHandshakeMessage sessionId data) (\<lambda>msg.
        ok \<lparr>hb_data = b64_enc (utf8 (stringify 0 data)), hb_id = read_nat sessionId,
            hb_pub_key = ''secp256k1:'' @ b64_enc (c_pubkey c privKey),
            hb_signature = b64_enc (c_sign c (c_sha256 c msg) privKey)\<rparr>))"

section \<open>The reply of the POST\<close>

text \<open>An error as the connect path reads it: a JavaScript value with the properties it looks at
  (\<open>message\<close>, \<open>response\<close>), whether it is a \<open>V2RayPolicyError\<close>, and the chain hop it was tagged with.\<close>

record failure =
  f_value :: js
  f_policy :: bool
  f_role :: "hop_role option"

definition failed :: "string \<Rightarrow> failure" where
  "failed msg = \<lparr>f_value = JObj [(''message'', JStr msg)], f_policy = False, f_role = None\<rparr>"

record handshake_reply =
  hr_result :: js
  hr_signature :: "string option"

definition REPLY_SIGNATURE_HEADER :: string where
  "REPLY_SIGNATURE_HEADER = ''x-dvpnd-signature''"

text \<open>What \<open>postHandshake\<close> makes of an answer: \<open>parsed\<close> is \<open>JSON.parse(raw)\<close>, \<open>None\<close> when it throws;
  \<open>header\<close> is the reply signature header (\<open>undefined\<close>, a string or an array of strings).\<close>

definition handshakeAnswered :: "int \<Rightarrow> string \<Rightarrow> js option \<Rightarrow> js \<Rightarrow> failure + handshake_reply" where
  "handshakeAnswered status raw parsed header =
     (if status < 200 \<or> status \<ge> 300 then
        Inl \<lparr>f_value = JObj [(''message'', JStr (''Request failed with status code '' @ show_int status)),
               (''response'', JObj [(''status'', JNum (NInt status)),
                  (''data'', case parsed of None \<Rightarrow> JStr raw
                     | Some v \<Rightarrow> if v = JNull \<or> v = JUndef then JStr raw else v)])],
             f_policy = False, f_role = None\<rparr>
      else (case parsed of
          None \<Rightarrow> Inl (failed ''Node returned an invalid handshake response'')
        | Some v \<Rightarrow>
            if \<not> truthy v \<or> jget ''result'' v = JUndef
            then Inl (failed ''Node returned an invalid handshake response'')
            else Inr \<lparr>hr_result = jget ''result'' v, hr_signature = as_string header\<rparr>))"

section \<open>The reply signature\<close>

definition REPLY_SIGNING_SCHEME :: string where
  "REPLY_SIGNING_SCHEME = ''dvpnd/handshake-reply/v1''"

datatype reply_signer = SignedByNode | SignedByHotKey | Unsigned

definition reply_preimage :: "crypto \<Rightarrow> byte list \<Rightarrow> byte list \<Rightarrow> byte list \<Rightarrow> string list \<Rightarrow> byte list" where
  "reply_preimage c i request reply addrs =
     utf8 REPLY_SIGNING_SCHEME @ i @ c_sha256 c request @ c_sha256 c reply @ utf8 (join [CHR 0x0A] addrs)"

definition replyDigest :: "crypto \<Rightarrow> string \<Rightarrow> byte list \<Rightarrow> byte list \<Rightarrow> string list \<Rightarrow> byte list result" where
  "replyDigest c sessionId request reply addrs =
     and_then (session_bytes sessionId) (\<lambda>i. ok (c_sha256 c (reply_preimage c i request reply addrs)))"

text \<open>The match of \<open>/^secp256k1:([A-Za-z0-9+/=]+);([A-Za-z0-9+/=]+)$/\<close>: the separator is in neither class.\<close>

definition b64_group :: "string \<Rightarrow> bool" where
  "b64_group s \<longleftrightarrow> s \<noteq> '''' \<and> list_all (\<lambda>c. base64_char c \<or> c = CHR ''='') s"

definition signature_groups :: "string \<Rightarrow> (string \<times> string) option" where
  "signature_groups header =
     (if \<not> starts_with ''secp256k1:'' header then None
      else (case split_on CHR '';'' (drop 10 header) of
          [pk, sig] \<Rightarrow> if b64_group pk \<and> b64_group sig then Some (pk, sig) else None
        | _ \<Rightarrow> None))"

definition string_list :: "js \<Rightarrow> string list option" where
  "string_list v =
     (case v of JUndef \<Rightarrow> Some []
      | JArr xs \<Rightarrow> if list_all (\<lambda>x. as_string x \<noteq> None) xs then Some (map (the \<circ> as_string) xs) else None
      | _ \<Rightarrow> None)"

definition MALFORMED_SIGNATURE :: string where
  "MALFORMED_SIGNATURE = ''The node sent a malformed reply signature.''"

definition IN_ITS_PLACE :: string where
  "IN_ITS_PLACE = '' Someone on the network may be answering in the node'' @ [CHR 0x27] @ ''s place.''"

definition checkReplySignature ::
  "crypto \<Rightarrow> string option \<Rightarrow> string \<Rightarrow> byte list \<Rightarrow> js \<Rightarrow> string \<Rightarrow> (string \<Rightarrow> string \<Rightarrow> bool result) \<Rightarrow> reply_signer result" where
  "checkReplySignature c header sessionId request reply nodeAddress hasGrant =
     (case header of
        None \<Rightarrow> ok Unsigned
      | Some h \<Rightarrow>
        if h = '''' then ok Unsigned else
        (case signature_groups (trim h) of
           None \<Rightarrow> throw MALFORMED_SIGNATURE
         | Some (pk, sg) \<Rightarrow>
           let pubkey = b64_dec pk; signature = b64_dec sg in
           if length pubkey \<noteq> 33 \<or> length signature \<noteq> 64 then throw MALFORMED_SIGNATURE else
           (case jget ''data'' reply of
              JStr data \<Rightarrow>
                (case string_list (jget ''addrs'' reply) of
                   None \<Rightarrow> throw ''The node signed a reply with malformed addresses.''
                 | Some addrs \<Rightarrow>
                   and_then (replyDigest c sessionId request (b64_dec (from_url_alphabet data)) addrs) (\<lambda>digest.
                   and_then (c_verify c signature (c_sha256 c digest) pubkey) (\<lambda>valid.
                     if \<not> valid
                     then throw (''The node'' @ [CHR 0x27] @ ''s reply signature does not match its reply.'' @ IN_ITS_PLACE)
                     else and_then (c_fromBech32 c nodeAddress) (\<lambda>node.
                       let signer = c_rawAddress c pubkey in
                       if signer = node then ok SignedByNode
                       else and_then (hasGrant (c_toBech32 c ''sent'' node) (c_toBech32 c ''sent'' signer)) (\<lambda>granted.
                         if granted then ok SignedByHotKey
                         else throw (''The reply was signed by '' @ c_toBech32 c ''sent'' signer @
                           '', a key the node account has not authorised.'' @ IN_ITS_PLACE))))))
            | _ \<Rightarrow> throw ''The node signed a reply without data.'')))"

text \<open>\<open>hasNodeStatusGrant\<close>: the chain's grants with their expiry in seconds, or its error.\<close>

definition hasNodeStatusGrant :: "int \<Rightarrow> (int option list) result \<Rightarrow> bool result" where
  "hasNodeStatusGrant now answer =
     (case answer of
        Inl e \<Rightarrow> if contains ''authorization not found'' e then ok False else throw e
      | Inr grants \<Rightarrow> ok (\<exists>g \<in> set grants. case g of None \<Rightarrow> True | Some seconds \<Rightarrow> seconds * 1000 > now))"

section \<open>Chains of two replies, and the version hint\<close>

definition chainSigner :: "reply_signer \<Rightarrow> reply_signer \<Rightarrow> reply_signer" where
  "chainSigner entry exit =
     (if entry = Unsigned \<or> exit = Unsigned then Unsigned
      else if entry = SignedByHotKey \<or> exit = SignedByHotKey then SignedByHotKey else SignedByNode)"

definition FIRST_SIGNING_VERSION :: "nat list" where
  "FIRST_SIGNING_VERSION = [9, 4, 0]"

text \<open>\<open>/^v?(\d+)\.(\d+)\.(\d+)/\<close>: each run of digits is taken whole, as a full stop must follow.\<close>

definition version_numbers :: "string \<Rightarrow> (nat \<times> nat \<times> nat) option" where
  "version_numbers s =
     (let u = (case s of c # cs \<Rightarrow> if c = CHR ''v'' then cs else s | [] \<Rightarrow> s);
          a = takeWhile is_digit u; u1 = dropWhile is_digit u;
          b = takeWhile is_digit (tl u1); u2 = dropWhile is_digit (tl u1);
          d = takeWhile is_digit (tl u2)
      in if a \<noteq> '''' \<and> starts_with ''.'' u1 \<and> b \<noteq> '''' \<and> starts_with ''.'' u2 \<and> d \<noteq> ''''
         then Some (read_nat a, read_nat b, read_nat d) else None)"

fun version_at_least :: "nat list \<Rightarrow> nat list \<Rightarrow> bool" where
  "version_at_least (v # vs) (f # fs) \<longleftrightarrow> (if v \<noteq> f then v > f else version_at_least vs fs)"
| "version_at_least _ _ \<longleftrightarrow> True"

definition versionSignsReplies :: "string \<Rightarrow> bool" where
  "versionSignsReplies version =
     (case version_numbers (trim version) of
        None \<Rightarrow> False
      | Some (a, b, d) \<Rightarrow> version_at_least [a, b, d] FIRST_SIGNING_VERSION)"

section \<open>The bytes that are signed\<close>

lemma length_be_bytes [simp]: "length (be_bytes k n) = k"
  by (induction k arbitrary: n) simp_all

lemma be_bytes_inj: "be_bytes k m = be_bytes k n \<Longrightarrow> m < 256 ^ k \<Longrightarrow> n < 256 ^ k \<Longrightarrow> m = n"
proof (induction k arbitrary: m n)
  case 0
  then show ?case by simp
next
  case (Suc k)
  then have d: "be_bytes k (m div 256) = be_bytes k (n div 256)" by simp
  have "m div 256 < 256 ^ k" "n div 256 < 256 ^ k"
    using Suc.prems(2,3) by (simp_all add: less_mult_imp_div_less mult.commute)
  from Suc.IH [OF d this] have q: "m div 256 = n div 256" .
  have "(word_of_nat m :: byte) = word_of_nat n" using Suc.prems(1) by simp
  then have "m mod 256 = n mod 256" by (simp add: word_of_nat_eq_iff take_bit_eq_mod)
  with q show ?case by (metis div_mult_mod_eq)
qed

lemma be64_inj: "be64 m = be64 n \<Longrightarrow> m < 2 ^ 64 \<Longrightarrow> n < 2 ^ 64 \<Longrightarrow> m = n"
proof -
  assume a: "be64 m = be64 n" "m < 2 ^ 64" "n < 2 ^ 64"
  have "(2 :: nat) ^ 64 = (2 ^ 8) ^ 8" by (simp only: power_mult [symmetric]) simp
  also have "(2 :: nat) ^ 8 = 256" by simp
  finally have w: "(2 :: nat) ^ 64 = 256 ^ 8" .
  show "m = n" by (rule be_bytes_inj [OF a(1) [unfolded be64_def] a(2,3) [unfolded w]])
qed

lemma length_be64 [simp]: "length (be64 n) = 8"
  by (simp add: be64_def)

text \<open>Every part before the addresses has a fixed width, so the signed bytes can be read back.\<close>

lemma preimage_parts:
  assumes "reply_preimage c i rq rp as = reply_preimage c j rq' rp' bs"
    and "length i = length j" and "\<And>x. length (c_sha256 c x) = 32"
  shows "i = j \<and> c_sha256 c rq = c_sha256 c rq' \<and> c_sha256 c rp = c_sha256 c rp' \<and>
    join [CHR 0x0A] as = join [CHR 0x0A] bs"
  using assms unfolding reply_preimage_def by simp

lemma signature_groups_Some:
  "signature_groups h = Some (pk, sg) \<longleftrightarrow>
     h = ''secp256k1:'' @ pk @ '';'' @ sg \<and> b64_group pk \<and> b64_group sg"
proof
  assume a: "signature_groups h = Some (pk, sg)"
  then have p: "starts_with ''secp256k1:'' h" and sp: "split_on CHR '';'' (drop 10 h) = [pk, sg]"
    and g: "b64_group pk" "b64_group sg"
    by (auto simp: signature_groups_def split: if_splits list.splits)
  have "length ''secp256k1:'' = 10" by simp
  with p have "take 10 h = ''secp256k1:''" by (simp only: starts_with_def)
  then have "h = ''secp256k1:'' @ drop 10 h" using append_take_drop_id [of 10 h] by (simp only:)
  moreover have "drop 10 h = pk @ '';'' @ sg" using join_split_on [of "CHR '';''" "drop 10 h"] sp by simp
  ultimately show "h = ''secp256k1:'' @ pk @ '';'' @ sg \<and> b64_group pk \<and> b64_group sg" using g by (intro conjI) (simp_all only: append.assoc)
next
  assume a: "h = ''secp256k1:'' @ pk @ '';'' @ sg \<and> b64_group pk \<and> b64_group sg"
  have "\<And>s. b64_group s \<Longrightarrow> CHR '';'' \<notin> set s"
    by (auto simp: b64_group_def list_all_iff base64_char_def class_defs char_le_iff)
  with a have "split_on CHR '';'' (pk @ CHR '';'' # sg) = [pk, sg]"
    by (simp add: split_on_append split_on_absent)
  with a show "signature_groups h = Some (pk, sg)"
    by (simp add: signature_groups_def starts_with_def)
qed

lemma check_accepts:
  assumes "checkReplySignature c header sid req reply node hasGrant = ok who" and "who \<noteq> Unsigned"
  shows "\<exists>h pk sg data addrs digest acct.
    header = Some h \<and> signature_groups (trim h) = Some (pk, sg) \<and>
    jget ''data'' reply = JStr data \<and> string_list (jget ''addrs'' reply) = Some addrs \<and>
    replyDigest c sid req (b64_dec (from_url_alphabet data)) addrs = ok digest \<and>
    c_verify c (b64_dec sg) (c_sha256 c digest) (b64_dec pk) = ok True \<and>
    c_fromBech32 c node = ok acct \<and>
    (if c_rawAddress c (b64_dec pk) = acct then who = SignedByNode
     else who = SignedByHotKey \<and>
       hasGrant (c_toBech32 c ''sent'' acct) (c_toBech32 c ''sent'' (c_rawAddress c (b64_dec pk))) = ok True)"
  using assms unfolding checkReplySignature_def
  by (auto simp: and_then_eq_ok Let_def split: option.splits if_splits js.splits prod.splits)

text \<open>The inputs of the hash function in the signature of one reply.\<close>

definition hashed :: "crypto \<Rightarrow> nat \<times> byte list \<times> byte list \<times> string list \<Rightarrow> byte list set" where
  "hashed c r = (case r of (i, rq, rp, as) \<Rightarrow>
     {rq, rp, reply_preimage c (be64 i) rq rp as, c_sha256 c (reply_preimage c (be64 i) rq rp as)})"

text \<open>
  C33. What a reply that checks as signed by the node proves (\<open>checkReplySignature\<close>,
  \<open>replyDigest\<close>). Let \<open>made\<close> be the replies the node's key has signed, each for a session, a
  request, its data and its addresses, and let no signature verify under that key for anything
  else (the signature scheme) and no two of the hashed inputs collide. Then an accepted reply is
  one the node made for this very session and this very request, with the same data and the same
  addresses up to how line breaks divide them: answers for another session, another request or
  with altered keys are refused.
\<close>

theorem signed_reply_is_the_nodes:
  assumes accepted: "checkReplySignature c header sid req reply node hasGrant = ok SignedByNode"
    and account: "c_fromBech32 c node = ok acct"
    and scheme: "\<forall>sg x pk. c_verify c sg x pk = ok True \<longrightarrow> c_rawAddress c pk = acct \<longrightarrow>
      (\<exists>(i, rq, rp, as) \<in> made. i < 2 ^ 64 \<and> x = c_sha256 c (c_sha256 c (reply_preimage c (be64 i) rq rp as)))"
    and width: "\<forall>x. length (c_sha256 c x) = 32"
    and collision_free: "\<forall>data addrs. jget ''data'' reply = JStr data \<longrightarrow> string_list (jget ''addrs'' reply) = Some addrs \<longrightarrow>
      inj_on (c_sha256 c)
        (hashed c (read_nat sid, req, b64_dec (from_url_alphabet data), addrs) \<union> (\<Union>r \<in> made. hashed c r))"
  shows "\<exists>data addrs as. jget ''data'' reply = JStr data \<and> string_list (jget ''addrs'' reply) = Some addrs \<and>
    (read_nat sid, req, b64_dec (from_url_alphabet data), as) \<in> made \<and>
    join [CHR 0x0A] as = join [CHR 0x0A] addrs"
proof -
  obtain pk sg data addrs digest where
    d: "jget ''data'' reply = JStr data" and a: "string_list (jget ''addrs'' reply) = Some addrs"
    and g: "replyDigest c sid req (b64_dec (from_url_alphabet data)) addrs = ok digest"
    and v: "c_verify c (b64_dec sg) (c_sha256 c digest) (b64_dec pk) = ok True"
    and k: "c_rawAddress c (b64_dec pk) = acct"
    using check_accepts [OF accepted] account by (auto split: if_splits)
  define rp where "rp = b64_dec (from_url_alphabet data)"
  from g have i: "read_nat sid < 2 ^ 64"
    and dig: "digest = c_sha256 c (reply_preimage c (be64 (read_nat sid)) req rp addrs)"
    by (auto simp: replyDigest_def session_bytes_def rp_def and_then_eq_ok split: if_splits)
  from scheme v k obtain j rq rp' as where m: "(j, rq, rp', as) \<in> made" "j < 2 ^ 64"
    and x: "c_sha256 c digest = c_sha256 c (c_sha256 c (reply_preimage c (be64 j) rq rp' as))"
    by fastforce
  from collision_free d a have inj: "inj_on (c_sha256 c) (hashed c (read_nat sid, req, rp, addrs) \<union> (\<Union>r \<in> made. hashed c r))"
    by (simp add: rp_def)
  have mem: "y \<in> hashed c (j, rq, rp', as) \<Longrightarrow> y \<in> hashed c (read_nat sid, req, rp, addrs) \<union> (\<Union>r \<in> made. hashed c r)" for y
    using m(1) by blast
  have inj2: "u \<in> hashed c (read_nat sid, req, rp, addrs) \<Longrightarrow> w \<in> hashed c (j, rq, rp', as) \<Longrightarrow>
      c_sha256 c u = c_sha256 c w \<Longrightarrow> u = w" for u w
    using inj_onD [OF inj, of u w] mem [of w] by blast
  have "digest = c_sha256 c (reply_preimage c (be64 j) rq rp' as)"
    by (rule inj2 [OF _ _ x]) (simp_all add: hashed_def dig)
  then have "reply_preimage c (be64 (read_nat sid)) req rp addrs = reply_preimage c (be64 j) rq rp' as"
    unfolding dig by (rule inj2 [rotated 2]) (simp_all add: hashed_def)
  from preimage_parts [OF this] width
  have p: "be64 (read_nat sid) = be64 j" "c_sha256 c req = c_sha256 c rq" "c_sha256 c rp = c_sha256 c rp'"
    "join [CHR 0x0A] addrs = join [CHR 0x0A] as" by simp_all
  from p(1) i m(2) have "read_nat sid = j" by (rule be64_inj)
  moreover have "req = rq" by (rule inj2 [OF _ _ p(2)]) (simp_all add: hashed_def)
  moreover have "rp = rp'" by (rule inj2 [OF _ _ p(3)]) (simp_all add: hashed_def)
  ultimately show ?thesis using m(1) d a p(4) unfolding rp_def by auto
qed

definition sample_hash :: "byte list \<Rightarrow> byte list" where
  "sample_hash x = replicate 31 (word_of_nat (length x)) @ [1]"

definition sample_crypto :: crypto where
  "sample_crypto = \<lparr>c_sha256 = sample_hash, c_verify = (\<lambda>sg x pk. ok (x = replicate 31 32 @ [1])),
     c_sign = (\<lambda>h k. h), c_pubkey = (\<lambda>k. k), c_rawAddress = (\<lambda>_. [1]), c_fromBech32 = (\<lambda>_. ok [1]),
     c_toBech32 = (\<lambda>p d. p)\<rparr>"

definition sample_header :: string where
  "sample_header = ''secp256k1:'' @ replicate 44 CHR ''A'' @ '';'' @ replicate 86 CHR ''A''"

definition sample_reply :: js where
  "sample_reply = JObj [(''data'', JStr ''AAAA''), (''addrs'', JArr [JStr ''1.1.1.1''])]"

lemma sample_accepted:
  "checkReplySignature sample_crypto (Some sample_header) ''5'' [7] sample_reply ''sentnode1'' (\<lambda>_ _. ok False) = ok SignedByNode"
proof -
  have t: "sample_header \<noteq> ''''" "trim sample_header = sample_header" by code_simp+
  have g: "signature_groups sample_header = Some (replicate 44 CHR ''A'', replicate 86 CHR ''A'')"
    unfolding signature_groups_Some sample_header_def by code_simp
  have l: "length (b64_dec (replicate 44 CHR ''A'')) = 33" "length (b64_dec (replicate 86 CHR ''A'')) = 64" by code_simp+
  have sid: "session_bytes ''5'' = ok (be64 5)"
    by (simp add: session_bytes_def decimal_id_def is_digit_code read_nat_def digit_val_def)
  have len: "length (sample_hash x) = 32" for x by (simp add: sample_hash_def)
  have dig: "sample_hash (sample_hash x) = replicate 31 32 @ [1]" for x
    by (simp add: sample_hash_def [of "sample_hash x"] len)
  show ?thesis
    unfolding checkReplySignature_def replyDigest_def option.case t(2) g
    by (simp add: t(1) l sid sample_reply_def string_list_def sample_crypto_def dig)
qed

lemma signed_reply_is_the_nodes_witness:
  "\<exists>as. (5, [7], b64_dec ''AAAA'', as) \<in> {(5 :: nat, [7 :: byte], b64_dec ''AAAA'', [''1.1.1.1''])}"
proof -
  let ?rp = "b64_dec ''AAAA''"
  let ?made = "{(5 :: nat, [7 :: byte], ?rp, [''1.1.1.1''])}"
  have u: "from_url_alphabet ''AAAA'' = ''AAAA''" by (simp add: from_url_alphabet_def)
  have rp: "length ?rp = 3" by code_simp
  have sid: "read_nat ''5'' = 5" by code_simp
  have len: "length (sample_hash x) = 32" for x by (simp add: sample_hash_def)
  have pre: "length (reply_preimage sample_crypto (be64 5) [7] ?rp [''1.1.1.1'']) = 103"
  proof -
    have "length (utf8 REPLY_SIGNING_SCHEME) = 24" "length (utf8 (join [CHR 0x0A] [''1.1.1.1''])) = 7" by code_simp+
    then show ?thesis by (simp add: reply_preimage_def sample_crypto_def len del: join.simps)
  qed
  have digest: "c_sha256 sample_crypto (c_sha256 sample_crypto x) = replicate 31 32 @ [1]" for x
    by (simp add: sample_crypto_def sample_hash_def [of "sample_hash x"] len)
  have differ: "word_of_nat a \<noteq> (word_of_nat b :: byte)" if "a < 256" "b < 256" "a \<noteq> b" for a b
    using that by (simp add: of_nat_byte_eq)
  have inj: "inj_on (c_sha256 sample_crypto) (hashed sample_crypto (5, [7], ?rp, [''1.1.1.1'']))"
  proof (rule inj_onI)
    fix x y
    assume m: "x \<in> hashed sample_crypto (5, [7], ?rp, [''1.1.1.1''])" "y \<in> hashed sample_crypto (5, [7], ?rp, [''1.1.1.1''])"
      and e: "c_sha256 sample_crypto x = c_sha256 sample_crypto y"
    have small: "z \<in> hashed sample_crypto (5, [7], ?rp, [''1.1.1.1'']) \<Longrightarrow> length z < 256" for z
      using rp pre by (auto simp: hashed_def sample_crypto_def len)
    from e have "hd (sample_hash x) = hd (sample_hash y)" by (simp add: sample_crypto_def)
    then have "(word_of_nat (length x) :: byte) = word_of_nat (length y)"
      by (simp add: sample_hash_def hd_append)
    with small [OF m(1)] small [OF m(2)] have l: "length x = length y" by (simp add: of_nat_byte_eq)
    have "length (c_sha256 sample_crypto z) = 32" for z by (simp add: sample_crypto_def len)
    with m l rp pre show "x = y" unfolding hashed_def by auto
  qed
  have "\<exists>data addrs as. jget ''data'' sample_reply = JStr data \<and>
      string_list (jget ''addrs'' sample_reply) = Some addrs \<and>
      (read_nat ''5'', [7], b64_dec (from_url_alphabet data), as) \<in> ?made \<and>
      join [CHR 0x0A] as = join [CHR 0x0A] addrs"
  proof (rule signed_reply_is_the_nodes [OF sample_accepted])
    show "c_fromBech32 sample_crypto ''sentnode1'' = ok [1]" by (simp add: sample_crypto_def)
    show "\<forall>x. length (c_sha256 sample_crypto x) = 32" by (simp add: sample_crypto_def len)
    show "\<forall>sg x pk. c_verify sample_crypto sg x pk = ok True \<longrightarrow> c_rawAddress sample_crypto pk = [1] \<longrightarrow>
        (\<exists>(i, rq, rp, as) \<in> ?made. i < 2 ^ 64 \<and>
           x = c_sha256 sample_crypto (c_sha256 sample_crypto (reply_preimage sample_crypto (be64 i) rq rp as)))"
      unfolding digest by (simp add: sample_crypto_def)
    show "\<forall>data addrs. jget ''data'' sample_reply = JStr data \<longrightarrow> string_list (jget ''addrs'' sample_reply) = Some addrs \<longrightarrow>
        inj_on (c_sha256 sample_crypto)
          (hashed sample_crypto (read_nat ''5'', [7], b64_dec (from_url_alphabet data), addrs) \<union> (\<Union>r \<in> ?made. hashed sample_crypto r))"
      using inj by (simp add: sample_reply_def string_list_def sid u)
  qed
  then show ?thesis by (auto simp: sample_reply_def sid u)
qed

end
