(* ===== verification/Economics.thy ===== *)
theory Economics
  imports ReplySignature
begin

text \<open>
  What a provider's leases cost and its plans bring in (\<open>src/shared/provider-economics.ts\<close>), when a
  lease may be renewed (\<open>src/shared/renewal-policy.ts\<close>), and the provider's record
  (\<open>src/shared/provider-details.ts\<close>). Money is a decimal string that the code computes on as a
  BigInt: a natural number here. A JavaScript number is a rational, \<open>None\<close> when it is not finite.
\<close>

definition whole :: "rat option \<Rightarrow> int option" where
  "whole n = (case n of None \<Rightarrow> None | Some x \<Rightarrow> if x = of_int \<lfloor>x\<rfloor> then Some \<lfloor>x\<rfloor> else None)"

lemma whole_Some [simp]: "whole (Some (of_int i)) = Some i"
  by (simp add: whole_def)

lemma whole_eq_Some: "whole n = Some i \<longleftrightarrow> n = Some (of_int i)"
  by (cases n) (auto simp: whole_def)

definition MAX_SAFE_INTEGER :: int where "MAX_SAFE_INTEGER = 2 ^ 53 - 1"

section \<open>Burn\<close>

record lease_cost =
  lc_hourlyPrice :: string
  lc_hours :: int
  lc_maxHours :: int

record burn =
  bn_hourly :: string
  bn_daily :: string
  bn_active :: nat

definition HOURS_PER_DAY :: nat where "HOURS_PER_DAY = 24"

definition DEC_ONE :: nat where "DEC_ONE = 10 ^ 18"

definition assertUdvpn :: "string \<Rightarrow> string \<Rightarrow> nat result" where
  "assertUdvpn v what =
     (if \<not> decimal_id v
      then throw (what @ '' is not a whole number of udvpn: '' @ [CHR 0x22] @ v @ [CHR 0x22])
      else ok (read_nat v))"

definition parseDecShare :: "string \<Rightarrow> nat result" where
  "parseDecShare raw =
     (if \<not> decimal_id raw then throw (''Staking share is not a LegacyDec integer: '' @ [CHR 0x22] @ raw @ [CHR 0x22])
      else if read_nat raw > DEC_ONE then throw (''Staking share exceeds 100%: '' @ [CHR 0x22] @ raw @ [CHR 0x22])
      else ok (read_nat raw))"

definition isActiveLease :: "('a) lease_cost_scheme \<Rightarrow> bool" where
  "isActiveLease l \<longleftrightarrow> lc_hours l < lc_maxHours l"

text \<open>The \<open>reduce\<close> of both sums: \<open>weight\<close> is what a lease's hourly price is multiplied by.\<close>

fun sum_prices :: "('a lease_cost_scheme \<Rightarrow> nat) \<Rightarrow> 'a lease_cost_scheme list \<Rightarrow> nat result" where
  "sum_prices weight [] = ok 0"
| "sum_prices weight (l # ls) =
     and_then (assertUdvpn (lc_hourlyPrice l) ''Lease hourly price'') (\<lambda>p.
     and_then (sum_prices weight ls) (\<lambda>s. ok (p * weight l + s)))"

definition computeBurn :: "'a lease_cost_scheme list \<Rightarrow> burn result" where
  "computeBurn leases =
     (let active = filter isActiveLease leases in
      and_then (sum_prices (\<lambda>_. 1) active) (\<lambda>hourly.
      ok \<lparr>bn_hourly = show_nat hourly, bn_daily = show_nat (hourly * HOURS_PER_DAY), bn_active = length active\<rparr>))"

definition computeCommitted :: "'a lease_cost_scheme list \<Rightarrow> string result" where
  "computeCommitted leases =
     and_then (sum_prices (\<lambda>l. nat (lc_maxHours l - lc_hours l)) (filter isActiveLease leases))
       (\<lambda>total. ok (show_nat total))"

section \<open>Revenue\<close>

definition netOfStakingShare :: "string \<Rightarrow> nat \<Rightarrow> string result" where
  "netOfStakingShare priceUdvpn share =
     and_then (assertUdvpn priceUdvpn ''Plan price'') (\<lambda>price.
     ok (show_nat ((price * (DEC_ONE - share)) div DEC_ONE)))"

datatype break_even = Subscribers nat | NoBurn | Never

definition computeBreakEven :: "string \<Rightarrow> string \<Rightarrow> rat option \<Rightarrow> break_even result" where
  "computeBreakEven dailyBurn netPrice durationDays =
     and_then (assertUdvpn dailyBurn ''Daily burn'') (\<lambda>burn.
     and_then (assertUdvpn netPrice ''Net plan price'') (\<lambda>net.
       if burn = 0 then ok NoBurn
       else if net = 0 then ok Never
       else case whole durationDays of
           None \<Rightarrow> throw ''Plan duration must be a whole number of days greater than zero''
         | Some d \<Rightarrow>
             if d \<le> 0 then throw ''Plan duration must be a whole number of days greater than zero''
             else ok (Subscribers ((burn * nat d + net - 1) div net))))"

definition computeEstimatedRevenue :: "rat option \<Rightarrow> string \<Rightarrow> string result" where
  "computeEstimatedRevenue subscriptions netPrice =
     (case whole subscriptions of
        None \<Rightarrow> throw ''Subscription count must be a whole, non-negative number''
      | Some n \<Rightarrow>
          if n < 0 then throw ''Subscription count must be a whole, non-negative number''
          else and_then (assertUdvpn netPrice ''Net plan price'') (\<lambda>net. ok (show_nat (net * nat n))))"

section \<open>Renewal policies\<close>

definition UNSPECIFIED :: int where "UNSPECIFIED = 0"

definition renewalPolicyLabel :: "int \<Rightarrow> string" where
  "renewalPolicyLabel policy =
     (case map_of [(7, ''Renew automatically''), (2, ''Renew if the price has not risen''),
                   (1, ''Renew only if the price has dropped''), (UNSPECIFIED, ''Never renew'')] policy of
        Some l \<Rightarrow> l
      | None \<Rightarrow> ''Policy '' @ show_int policy)"

definition renewalPolicyAllows :: "int \<Rightarrow> string \<Rightarrow> string \<Rightarrow> bool" where
  "renewalPolicyAllows policy currentQuoteValue storedQuoteValue \<longleftrightarrow>
     (if \<not> decimal_id currentQuoteValue \<or> \<not> decimal_id storedQuoteValue then False
      else let current = read_nat currentQuoteValue; stored = read_nat storedQuoteValue in
        if policy = 1 then current < stored
        else if policy = 2 then current \<le> stored
        else if policy = 3 then current = stored
        else if policy = 4 then current \<noteq> stored
        else if policy = 5 then current > stored
        else if policy = 6 then current \<ge> stored
        else policy = 7)"

text \<open>\<open>p2p\<close> is \<open>asP2p\<close>, the price as it is written for the user.\<close>

definition renewalPolicyRefusal :: "(string \<Rightarrow> string) \<Rightarrow> int \<Rightarrow> string \<Rightarrow> string \<Rightarrow> string option" where
  "renewalPolicyRefusal p2p policy currentQuoteValue storedQuoteValue =
     (if renewalPolicyAllows policy currentQuoteValue storedQuoteValue then None
      else if policy = UNSPECIFIED then
        Some (''This lease was bought as '' @ [CHR 0x22] @ ''never renew'' @ [CHR 0x22] @
          '', so the chain refuses to extend it. Change its renewal policy first.'')
      else if \<not> decimal_id currentQuoteValue \<or> \<not> decimal_id storedQuoteValue then
        Some ''The node does not publish a comparable hourly price, so the renewal policy cannot be checked.''
      else Some (''The node now charges '' @ p2p currentQuoteValue @ '' an hour against the '' @ p2p storedQuoteValue @
          '' this lease was bought at, which its renewal policy ('' @ [CHR 0x22] @ renewalPolicyLabel policy @ [CHR 0x22] @
          '') does not allow. Change the policy or end the lease and buy a new one.''))"

section \<open>The provider's record\<close>

record provider_details =
  pd_name :: string
  pd_identity :: string
  pd_website :: string
  pd_description :: string

definition byteLength :: "string \<Rightarrow> nat" where
  "byteLength v = length (utf8 v)"

text \<open>\<open>is_url\<close> says that \<open>new URL(website)\<close> does not throw.\<close>

definition isRequestUri :: "(string \<Rightarrow> bool) \<Rightarrow> string \<Rightarrow> bool" where
  "isRequestUri is_url website \<longleftrightarrow>
     (if starts_with ''/'' website then True
      else (case website of
          [] \<Rightarrow> False
        | c # cs \<Rightarrow>
            is_alpha c \<and>
            starts_with '':'' (dropWhile (\<lambda>x. is_alnum x \<or> x \<in> {CHR ''+'', CHR ''.'', CHR ''-''}) cs) \<and>
            is_url website))"

definition PROVIDER_LIMITS :: "(string \<times> nat \<times> (provider_details \<Rightarrow> string)) list" where
  "PROVIDER_LIMITS = [(''name'', 64, pd_name), (''identity'', 64, pd_identity), (''website'', 64, pd_website),
     (''description'', 256, pd_description)]"

definition providerDetailsProblem :: "(string \<Rightarrow> bool) \<Rightarrow> provider_details \<Rightarrow> bool \<Rightarrow> string option" where
  "providerDetailsProblem is_url details requireName =
     (if requireName \<and> trim (pd_name details) = '''' then
        Some ''Give your provider a name: it is what subscribers see next to your plans.''
      else case find (\<lambda>(f, cap, get). byteLength (get details) > cap) PROVIDER_LIMITS of
          Some (f, cap, get) \<Rightarrow> Some (''Provider '' @ f @ '' is too long: the chain allows '' @ show_nat cap @ '' bytes.'')
        | None \<Rightarrow>
            if pd_website details \<noteq> '''' \<and> \<not> isRequestUri is_url (pd_website details) then
              Some ''Provider website must be a full address including the scheme, for example https://example.com''
            else None)"

definition assertValidProviderDetails :: "(string \<Rightarrow> bool) \<Rightarrow> provider_details \<Rightarrow> bool \<Rightarrow> unit result" where
  "assertValidProviderDetails is_url details requireName =
     (case providerDetailsProblem is_url details requireName of Some problem \<Rightarrow> throw problem | None \<Rightarrow> ok ())"

section \<open>What they promise\<close>

lemma decimal_show_nat [simp]: "decimal_id (show_nat n)"
  by (simp add: decimal_id_def show_nat_digits)

lemma digit_chars:
  "digit_char 0 = CHR ''0''" "digit_char 1 = CHR ''1''" "digit_char 2 = CHR ''2''" "digit_char 3 = CHR ''3''"
  "digit_char 4 = CHR ''4''" "digit_char 5 = CHR ''5''" "digit_char 6 = CHR ''6''" "digit_char 7 = CHR ''7''"
  "digit_char 8 = CHR ''8''" "digit_char 9 = CHR ''9''"
  by code_simp+

lemma assertUdvpn_ok: "assertUdvpn v what = Inr n \<longleftrightarrow> decimal_id v \<and> n = read_nat v"
  by (auto simp: assertUdvpn_def)

lemma assertUdvpn_show [simp]: "assertUdvpn (show_nat n) what = Inr n"
  by (simp add: assertUdvpn_def)

lemma ceiling_least:
  fixes a n :: nat
  assumes "0 < n"
  shows "a \<le> (a + n - 1) div n * n" and "0 < a \<Longrightarrow> ((a + n - 1) div n - 1) * n < a"
proof -
  let ?q = "(a + n - 1) div n"
  have q: "?q * n + (a + n - 1) mod n = a + n - 1" by simp
  have m: "(a + n - 1) mod n < n" using assms by simp
  show "a \<le> ?q * n" using q m assms by linarith
  assume "0 < a"
  have "(?q - 1) * n = ?q * n - n" by (simp add: diff_mult_distrib)
  moreover have "?q * n \<le> a + n - 1" using q by linarith
  ultimately show "(?q - 1) * n < a" using assms \<open>0 < a\<close> by linarith
qed

lemma sum_prices_ok:
  "sum_prices weight ls = Inr t \<longleftrightarrow>
     (\<forall>l \<in> set ls. decimal_id (lc_hourlyPrice l)) \<and>
     t = sum_list (map (\<lambda>l. read_nat (lc_hourlyPrice l) * weight l) ls)"
  by (induction ls arbitrary: t) (auto simp: and_then_eq_ok assertUdvpn_ok)

lemma find_limit_None:
  "find (\<lambda>(f, cap, get). byteLength (get d) > cap) PROVIDER_LIMITS = None \<longleftrightarrow>
     byteLength (pd_name d) \<le> 64 \<and> byteLength (pd_identity d) \<le> 64 \<and> byteLength (pd_website d) \<le> 64 \<and>
     byteLength (pd_description d) \<le> 256"
  by (auto simp: PROVIDER_LIMITS_def)

lemma provider_details_accepted:
  "assertValidProviderDetails is_url d r = Inr () \<longleftrightarrow>
     (r \<longrightarrow> trim (pd_name d) \<noteq> '''') \<and>
     byteLength (pd_name d) \<le> 64 \<and> byteLength (pd_identity d) \<le> 64 \<and> byteLength (pd_website d) \<le> 64 \<and>
     byteLength (pd_description d) \<le> 256 \<and>
     (pd_website d \<noteq> '''' \<longrightarrow> isRequestUri is_url (pd_website d))"
proof (cases "find (\<lambda>(f, cap, get). byteLength (get d) > cap) PROVIDER_LIMITS")
  case None
  with find_limit_None [of d] show ?thesis
    by (simp add: assertValidProviderDetails_def providerDetailsProblem_def split: option.splits)
next
  case (Some x)
  then have "\<not> (byteLength (pd_name d) \<le> 64 \<and> byteLength (pd_identity d) \<le> 64 \<and> byteLength (pd_website d) \<le> 64 \<and>
     byteLength (pd_description d) \<le> 256)"
    unfolding find_limit_None [symmetric] by simp
  moreover have "assertValidProviderDetails is_url d r \<noteq> Inr ()"
    using Some by (auto simp: assertValidProviderDetails_def providerDetailsProblem_def split: prod.splits)
  ultimately show ?thesis by blast
qed

lemma refusal_iff: "renewalPolicyRefusal p2p policy cur stored = None \<longleftrightarrow> renewalPolicyAllows policy cur stored"
  by (simp add: renewalPolicyRefusal_def)

lemma renewal_unspecified: "\<not> renewalPolicyAllows UNSPECIFIED cur stored"
  by (auto simp: renewalPolicyAllows_def UNSPECIFIED_def Let_def)

text \<open>The break-even figure (computeBreakEven) is the least number of subscribers that covers the
  burn over one plan period, counted with what is left of the price after the hub's share
  (netOfStakingShare), which is never more than the exact share: that many pay for it and one fewer
  do not; ``nothing to cover'' is said exactly when no lease bills, ``never'' exactly when a
  subscription nets nothing. The burn is that of the leases that still bill.\<close>

theorem break_even_least:
  assumes burn: "computeBurn leases = Inr b"
    and share: "parseDecShare raw = Inr sh" and net: "netOfStakingShare price sh = Inr n"
    and days: "0 < d"
    and be: "computeBreakEven (bn_daily b) n (Some (of_int d)) = Inr r"
  shows "(let cost = (\<Sum>l \<leftarrow> filter isActiveLease leases. 24 * read_nat (lc_hourlyPrice l)) * nat d in
      read_nat n * 10 ^ 18 \<le> read_nat price * (10 ^ 18 - read_nat raw) \<and>
      read_nat price * (10 ^ 18 - read_nat raw) < (read_nat n + 1) * 10 ^ 18 \<and>
      (case r of
         Subscribers k \<Rightarrow> cost \<le> k * read_nat n \<and> (k - 1) * read_nat n < cost
       | NoBurn \<Rightarrow> cost = 0
       | Never \<Rightarrow> 0 < cost \<and> read_nat n = 0))"
proof -
  let ?s = "\<Sum>l \<leftarrow> filter isActiveLease leases. 24 * read_nat (lc_hourlyPrice l)"
  have s: "bn_daily b = show_nat ?s"
    using burn by (auto simp: computeBurn_def Let_def and_then_eq_ok sum_prices_ok HOURS_PER_DAY_def
        sum_list_const_mult mult.commute [of _ "24 :: nat"])
  have sh: "sh = read_nat raw" using share by (auto simp: parseDecShare_def split: if_splits)
  obtain p where p: "p = read_nat price" and n: "read_nat n = p * (10 ^ 18 - sh) div 10 ^ 18" "decimal_id n"
    using net by (auto simp: netOfStakingShare_def and_then_eq_ok assertUdvpn_ok DEC_ONE_def)
  have n1: "read_nat n * 10 ^ 18 \<le> p * (10 ^ 18 - sh)" and n2: "p * (10 ^ 18 - sh) < (read_nat n + 1) * 10 ^ 18"
    unfolding n(1) by (rule div_times_less_eq_dividend, simp add: dividend_less_div_times)
  obtain S where S: "?s = S" by blast
  have "case r of
         Subscribers k \<Rightarrow> S * nat d \<le> k * read_nat n \<and> (k - 1) * read_nat n < S * nat d
       | NoBurn \<Rightarrow> S * nat d = 0
       | Never \<Rightarrow> 0 < S * nat d \<and> read_nat n = 0"
    using be days n(2) ceiling_least [of "read_nat n" "S * nat d"]
    unfolding s S computeBreakEven_def by (auto simp: and_then_eq_ok assertUdvpn_ok split: if_splits)
  with n1 n2 p sh show ?thesis unfolding Let_def S by simp
qed

theorem break_even_least_witness:
  "let l = (\<lambda>p h. \<lparr>lc_hourlyPrice = p, lc_hours = h, lc_maxHours = 24\<rparr>);
       b = \<lparr>bn_hourly = ''3000'', bn_daily = ''72000'', bn_active = 2\<rparr> in
   computeBurn [l ''1000'' 5, l ''2000'' 0, l ''9999'' 24] = Inr b \<and>
   parseDecShare ''200000000000000000'' = Inr (2 * 10 ^ 17) \<and> netOfStakingShare ''1000'' (2 * 10 ^ 17) = Inr ''800'' \<and>
   computeBreakEven ''72000'' ''800'' (Some 1) = Inr (Subscribers 90) \<and> (90 - 1) * 800 < (72000 :: nat)"
proof -
  let ?l = "\<lambda>p h. \<lparr>lc_hourlyPrice = p, lc_hours = h, lc_maxHours = 24\<rparr>"
  let ?ls = "[?l ''1000'' 5, ?l ''2000'' 0, ?l ''9999'' 24]"
  note ev = decimal_id_def read_nat_def digit_val_def class_defs char_le_iff assertUdvpn_def show_nat.simps digit_chars digit_chars [unfolded One_nat_def]
  have b: "computeBurn ?ls = Inr \<lparr>bn_hourly = ''3000'', bn_daily = ''72000'', bn_active = 2\<rparr>"
    by (simp add: computeBurn_def isActiveLease_def HOURS_PER_DAY_def ev)
  have s: "parseDecShare ''200000000000000000'' = Inr (2 * 10 ^ 17)"
    by (simp add: parseDecShare_def DEC_ONE_def ev)
  have n: "netOfStakingShare ''1000'' (2 * 10 ^ 17) = Inr ''800''"
    by (simp add: netOfStakingShare_def DEC_ONE_def ev)
  have e: "computeBreakEven ''72000'' ''800'' (Some (of_int 1)) = Inr (Subscribers 90)"
    by (simp add: computeBreakEven_def whole_def ev)
  have "read_nat ''800'' = 800" "(\<Sum>l \<leftarrow> filter isActiveLease ?ls. 24 * read_nat (lc_hourlyPrice l)) = 72000"
    by (simp_all add: isActiveLease_def ev)
  with break_even_least [OF b s n _, of 1 "Subscribers 90"] b s n e show ?thesis by (simp add: Let_def)
qed

end
