(* ===== verification/ProviderMsgs.thy ===== *)
theory ProviderMsgs
  imports Economics
begin

text \<open>
  The messages a provider signs, \<open>src/main/provider/provider-msgs.ts\<close>: one constructor per message type,
  its arguments the fields of the message in the order the code writes them. Ids are the
  64-bit integers of the wire; \<open>Long.fromString\<close> and the bech32 codec are third-party and arguments
  here. The ellipsis in a message is written as its three UTF-8 bytes.
\<close>

datatype provider_msg =
    RegisterProvider string provider_details
  | UpdateProviderDetails string provider_details
  | UpdateProviderStatus string int
  | CreatePlan string string int "(string \<times> string \<times> string) list" bool
      \<comment> \<open>provider, bytes, seconds, the prices as denomination, base and quote value, and whether private\<close>
  | UpdatePlanStatus string "64 word" int
  | UpdatePlanDetails string "64 word" bool
  | LinkNode string "64 word" string
  | UnlinkNode string "64 word" string
  | StartLease string string int "string \<times> string \<times> string" int
      \<comment> \<open>provider, node, hours, the maximal price, and the renewal policy\<close>
  | UpdateLease string "64 word" int
  | RenewLease string "64 word" int "string \<times> string \<times> string"
  | EndLease string "64 word"

definition PLAN_DENOM :: string where "PLAN_DENOM = ''udvpn''"

definition BYTES_PER_GB :: nat where "BYTES_PER_GB = 10 ^ 9"

definition SECONDS_PER_DAY :: int where "SECONDS_PER_DAY = 86400"

definition status_number :: "bool \<Rightarrow> int" where
  "status_number active = (if active then 1 else 3)"

section \<open>Addresses\<close>

definition toProviderAddress ::
  "(string \<Rightarrow> (string \<times> byte list) result) \<Rightarrow> (string \<Rightarrow> byte list \<Rightarrow> string) \<Rightarrow> string \<Rightarrow> string result" where
  "toProviderAddress fromBech32 toBech32 accountAddress =
     and_then (fromBech32 accountAddress) (\<lambda>(prefix, bytes).
       if prefix \<noteq> ''sent''
       then throw (''Expected a sent1'' @ [CHR 0xE2, CHR 0x80, CHR 0xA6] @ '' account address, got prefix '' @ [CHR 0x22] @ prefix @ [CHR 0x22])
       else ok (toBech32 ''sentprov'' bytes))"

section \<open>Plans\<close>

record plan_input =
  pi_gigabytes :: "rat option"
  pi_days :: "rat option"
  pi_priceUdvpn :: "rat option"
  pi_private :: bool

definition assertValidPlanInput :: "plan_input \<Rightarrow> unit result" where
  "assertValidPlanInput i =
     (if (case whole (pi_gigabytes i) of None \<Rightarrow> True | Some g \<Rightarrow> g \<le> 0)
      then throw ''Plan size must be a whole number of GB greater than zero''
      else if (case whole (pi_days i) of None \<Rightarrow> True | Some d \<Rightarrow> d \<le> 0)
      then throw ''Plan duration must be a whole number of days greater than zero''
      else if (case whole (pi_priceUdvpn i) of None \<Rightarrow> True | Some p \<Rightarrow> p < 0)
      then throw ''Plan price must be a whole, non-negative number of udvpn''
      else ok ())"

definition whole_nat :: "rat option \<Rightarrow> nat" where
  "whole_nat n = (case whole n of None \<Rightarrow> 0 | Some i \<Rightarrow> nat i)"

definition gigabytesToBytes :: "nat \<Rightarrow> string" where
  "gigabytesToBytes gigabytes = show_nat (gigabytes * BYTES_PER_GB)"

definition daysToDuration :: "nat \<Rightarrow> int" where
  "daysToDuration days = int days * SECONDS_PER_DAY"

definition buildPrices :: "nat \<Rightarrow> (string \<times> string \<times> string) list" where
  "buildPrices priceUdvpn = [(PLAN_DENOM, ''0'', show_nat priceUdvpn)]"

definition buildCreatePlanMsg :: "string \<Rightarrow> plan_input \<Rightarrow> provider_msg result" where
  "buildCreatePlanMsg provAddress i =
     and_then (assertValidPlanInput i) (\<lambda>_.
     ok (CreatePlan provAddress (gigabytesToBytes (whole_nat (pi_gigabytes i)))
           (daysToDuration (whole_nat (pi_days i))) (buildPrices (whole_nat (pi_priceUdvpn i))) (pi_private i)))"

section \<open>The other messages\<close>

definition buildRegisterProviderMsg :: "string \<Rightarrow> provider_details \<Rightarrow> provider_msg" where
  "buildRegisterProviderMsg accountAddress details = RegisterProvider accountAddress details"

definition buildProviderDetailsMsg :: "string \<Rightarrow> provider_details \<Rightarrow> provider_msg" where
  "buildProviderDetailsMsg provAddress details = UpdateProviderDetails provAddress details"

definition buildProviderStatusMsg :: "string \<Rightarrow> bool \<Rightarrow> provider_msg" where
  "buildProviderStatusMsg provAddress active = UpdateProviderStatus provAddress (status_number active)"

definition buildPlanStatusMsg :: "(string \<Rightarrow> 64 word) \<Rightarrow> string \<Rightarrow> string \<Rightarrow> bool \<Rightarrow> provider_msg" where
  "buildPlanStatusMsg long provAddress planId active = UpdatePlanStatus provAddress (long planId) (status_number active)"

definition buildUpdatePlanDetailsMsg :: "(string \<Rightarrow> 64 word) \<Rightarrow> string \<Rightarrow> string \<Rightarrow> bool \<Rightarrow> provider_msg" where
  "buildUpdatePlanDetailsMsg long provAddress planId isPrivate = UpdatePlanDetails provAddress (long planId) isPrivate"

definition buildLinkNodeMsg :: "(string \<Rightarrow> 64 word) \<Rightarrow> string \<Rightarrow> string \<Rightarrow> string \<Rightarrow> provider_msg" where
  "buildLinkNodeMsg long provAddress planId nodeAddress = LinkNode provAddress (long planId) nodeAddress"

definition buildUnlinkNodeMsg :: "(string \<Rightarrow> 64 word) \<Rightarrow> string \<Rightarrow> string \<Rightarrow> string \<Rightarrow> provider_msg" where
  "buildUnlinkNodeMsg long provAddress planId nodeAddress = UnlinkNode provAddress (long planId) nodeAddress"

section \<open>Leases\<close>

definition leaseDepositUdvpn :: "string \<Rightarrow> nat \<Rightarrow> string result" where
  "leaseDepositUdvpn hourlyQuoteValue hours =
     (if \<not> decimal_id hourlyQuoteValue
      then throw (''Node hourly price is not a whole number: '' @ [CHR 0x22] @ hourlyQuoteValue @ [CHR 0x22])
      else ok (show_nat (read_nat hourlyQuoteValue * hours)))"

definition leaseDepositNumber :: "string \<Rightarrow> nat \<Rightarrow> int result" where
  "leaseDepositNumber hourlyQuoteValue hours =
     and_then (leaseDepositUdvpn hourlyQuoteValue hours) (\<lambda>total.
       if int (read_nat total) > MAX_SAFE_INTEGER then throw ''Lease cost is too large to price''
       else ok (int (read_nat total)))"

definition assertValidLeaseHours :: "rat option \<Rightarrow> int \<Rightarrow> int \<Rightarrow> unit result" where
  "assertValidLeaseHours hours minHours maxHours =
     (if (case whole hours of None \<Rightarrow> True | Some h \<Rightarrow> h < minHours \<or> h > maxHours)
      then throw (''Lease length must be a whole number of hours between '' @ show_int minHours @ '' and '' @ show_int maxHours)
      else ok ())"

definition max_price :: "string \<Rightarrow> string \<times> string \<times> string" where
  "max_price hourlyQuoteValue = (PLAN_DENOM, ''0'', hourlyQuoteValue)"

definition buildStartLeaseMsg :: "string \<Rightarrow> string \<Rightarrow> int \<Rightarrow> string \<Rightarrow> int \<Rightarrow> provider_msg" where
  "buildStartLeaseMsg provAddress nodeAddress hours hourlyQuoteValue renewalPricePolicy =
     StartLease provAddress nodeAddress hours (max_price hourlyQuoteValue) renewalPricePolicy"

definition buildUpdateLeaseMsg :: "(string \<Rightarrow> 64 word) \<Rightarrow> string \<Rightarrow> string \<Rightarrow> int \<Rightarrow> provider_msg" where
  "buildUpdateLeaseMsg long provAddress leaseId renewalPricePolicy =
     UpdateLease provAddress (long leaseId) renewalPricePolicy"

definition buildRenewLeaseMsg :: "(string \<Rightarrow> 64 word) \<Rightarrow> string \<Rightarrow> string \<Rightarrow> int \<Rightarrow> string \<Rightarrow> provider_msg" where
  "buildRenewLeaseMsg long provAddress leaseId hours hourlyQuoteValue =
     RenewLease provAddress (long leaseId) hours (max_price hourlyQuoteValue)"

definition buildEndLeaseMsg :: "(string \<Rightarrow> 64 word) \<Rightarrow> string \<Rightarrow> string \<Rightarrow> provider_msg" where
  "buildEndLeaseMsg long provAddress leaseId = EndLease provAddress (long leaseId)"

section \<open>What they hold\<close>

lemma whole_nat_of [simp]: "whole_nat (Some (of_int i)) = nat i"
  by (simp add: whole_nat_def)

lemma plan_input_ok:
  "assertValidPlanInput i = Inr u \<longleftrightarrow>
     (\<exists>g d p. pi_gigabytes i = Some (of_int g) \<and> pi_days i = Some (of_int d) \<and> pi_priceUdvpn i = Some (of_int p) \<and>
        0 < g \<and> 0 < d \<and> 0 \<le> p)"
  unfolding assertValidPlanInput_def
  by (auto simp: whole_eq_Some not_le not_less split: if_splits option.splits)

lemma lease_hours_ok:
  "assertValidLeaseHours hours lo hi = Inr u \<longleftrightarrow> (\<exists>h. hours = Some (of_int h) \<and> lo \<le> h \<and> h \<le> hi)"
  unfolding assertValidLeaseHours_def
  by (auto simp: whole_eq_Some not_less split: if_splits option.splits)

lemma lease_deposit_ok:
  "leaseDepositNumber q hours = Inr n \<longleftrightarrow>
     decimal_id q \<and> n = int (read_nat q * hours) \<and> n \<le> MAX_SAFE_INTEGER"
  by (auto simp: leaseDepositNumber_def leaseDepositUdvpn_def split: if_splits)

end
