(* ===== verification/Services.thy ===== *)
theory Services
  imports ProviderMsgs
begin

text \<open>
  The effects of the purchase and handshake paths. A run takes the history of what the app has
  done to the outside world so far and returns its result (or the error it throws) with the
  longer history. Every answer of the outside world (nodes, the chain, the directory, the local
  set-up, random draws) is a function of that history held in the record \<open>env\<close>; a property is
  proved for every such record, that is, for every behaviour of the environment.

  The rules at the end are the small program logic the later theories use: \<open>adds F m\<close> says that a
  run only appends to the history, and only events satisfying \<open>F\<close>.
\<close>

section \<open>Events and the environment\<close>

text \<open>Whether a node is asked directly or through the proxy that runs over the entry hop
  (the \<open>agent\<close> argument of the code).\<close>

datatype dial = Direct | ViaEntry

record saved_config =
  sc_sessionId :: string
  sc_protocol :: string
  sc_configString :: string
  sc_nodeAddress :: string
  sc_nodeMoniker :: "string option"
  sc_nodeCountry :: "string option"
  sc_chainPeer :: "string option"
  sc_chainRole :: "hop_role option"
  sc_walletId :: "string option"
  sc_nodeType :: "int option"

text \<open>The transactions the app signs, as the message they carry.\<close>

datatype chain_msg =
    StartNodeSession string int bool string string string
      \<comment> \<open>node, amount, whether in gigabytes, and the price as denomination, base and quote value\<close>
  | CancelSession string
  | StartPlanSession string string string int  \<comment> \<open>plan, denomination, node, renewal policy\<close>
  | StartSubscriptionSession string string     \<comment> \<open>subscription, node\<close>
  | CancelSubscription string
  | RenewSubscription string string
  | UpdateSubscription string int
  | ProviderTx provider_msg

text \<open>What a purchase that failed left at the chain: no transaction, one the client stopped waiting for, or one that
  was included.\<close>

datatype left_over = NoTx | TxPending | TxLanded

text \<open>\<open>Posted\<close> is a handshake POST to a node and \<open>Asked\<close> a read of the document its API serves; \<open>ReadRow\<close> has what
  the chain answered about a node, its addresses (\<open>None\<close> when the query throws); \<open>Bought\<close> and \<open>Cancelled\<close> are sessions that were opened and cancelled, with the account that signed for it.
  \<open>Landed\<close> is a transaction that was included with code 0, \<open>Unconfirmed\<close> one the client stopped waiting
  for. \<open>Forgot\<close> drops the remembered node list of one plan, or of all of them.\<close>

datatype event =
    Posted dial string string
  | Asked dial string
  | ReadRow string "string list option"
  | LookedUp string string
  | Bought string string string
  | NotBought string string left_over
  | Cancelled string string
  | NotCancelled string string
  | ProxyUp js
  | ProxyDown
  | Saved saved_config
  | SessionsChanged
  | Waited
  | Landed string chain_msg
  | Unconfirmed string chain_msg
  | Forgot "string option"

type_synonym history = "event list"

record env =
  e_crypto :: crypto
  e_isCert :: "byte list \<Rightarrow> bool"
  e_parsesKey :: "string \<Rightarrow> byte list \<Rightarrow> bool"
  e_parse :: "byte list \<Rightarrow> js option"
  e_wire :: "history \<Rightarrow> dial \<Rightarrow> string \<Rightarrow> handshake_body \<Rightarrow> failure + (int \<times> string \<times> js option \<times> js)"
  e_now :: "history \<Rightarrow> int"
  e_grants :: "history \<Rightarrow> string \<Rightarrow> string \<Rightarrow> (int option list) result"
  e_serviceType :: "history \<Rightarrow> dial \<Rightarrow> string \<Rightarrow> js result"
  e_signsReplies :: "history \<Rightarrow> dial \<Rightarrow> string \<Rightarrow> bool result"
  e_inbounds :: "history \<Rightarrow> dial \<Rightarrow> string \<Rightarrow> js result"
  e_nodeRow :: "history \<Rightarrow> string \<Rightarrow> (string list) option"
  e_safeUrl :: "string \<Rightarrow> bool"
  e_buy :: "history \<Rightarrow> string \<Rightarrow> string \<Rightarrow> (failure \<times> left_over) + string"
  e_cancel :: "history \<Rightarrow> string \<Rightarrow> string \<Rightarrow> bool"
  e_resolve :: "history \<Rightarrow> string \<Rightarrow> string option"
  e_proxy :: "history \<Rightarrow> js \<Rightarrow> unit result"
  e_doh :: "history \<Rightarrow> string \<Rightarrow> string \<Rightarrow> js option"
  e_uuid :: "history \<Rightarrow> string"
  e_keypair :: "history \<Rightarrow> string \<times> string"
  e_draws :: "history \<Rightarrow> rat \<times> rat \<times> rat"
  e_freePort :: "history \<Rightarrow> int result"
  e_signedOnly :: "history \<Rightarrow> bool"
  e_dnsResolver :: "history \<Rightarrow> string"
  e_secureStorage :: bool
  e_systemReady :: "string \<Rightarrow> bool \<Rightarrow> unit result"
  e_runtimeError :: "string \<Rightarrow> string option"
  e_missingOp :: "string \<Rightarrow> bool"

section \<open>Runs\<close>

type_synonym 'a run = "history \<Rightarrow> (failure + 'a) \<times> history"

definition ret :: "'a \<Rightarrow> 'a run" where
  "ret v h = (Inr v, h)"

definition raise :: "failure \<Rightarrow> 'a run" where
  "raise e h = (Inl e, h)"

definition seq :: "'a run \<Rightarrow> ('a \<Rightarrow> 'b run) \<Rightarrow> 'b run" where
  "seq m k h = (case m h of (Inl e, h') \<Rightarrow> (Inl e, h') | (Inr v, h') \<Rightarrow> k v h')"

definition tell :: "event \<Rightarrow> unit run" where
  "tell ev h = (Inr (), h @ [ev])"

text \<open>An answer that depends on the history but leaves no trace of its own.\<close>

definition look :: "(history \<Rightarrow> 'a) \<Rightarrow> 'a run" where
  "look f h = (Inr (f h), h)"

definition lift :: "'a result \<Rightarrow> 'a run" where
  "lift r = (case r of Inl msg \<Rightarrow> raise (failed msg) | Inr v \<Rightarrow> ret v)"

text \<open>\<open>try ... catch\<close> and \<open>try ... finally\<close>.\<close>

definition catching :: "'a run \<Rightarrow> (failure \<Rightarrow> 'a run) \<Rightarrow> 'a run" where
  "catching m k h = (case m h of (Inl e, h') \<Rightarrow> k e h' | (Inr v, h') \<Rightarrow> (Inr v, h'))"

definition outcome :: "'a run \<Rightarrow> (failure + 'a) run" where
  "outcome m h = (case m h of (r, h') \<Rightarrow> (Inr r, h'))"

definition settle :: "failure + 'a \<Rightarrow> 'a run" where
  "settle r h = (r, h)"

section \<open>Rules\<close>

named_theorems run \<open>evaluation of runs\<close>

lemma run_simps [run]:
  "ret v h = (Inr v, h)" "raise e h = (Inl e, h)" "tell ev h = (Inr (), h @ [ev])"
  "look f h = (Inr (f h), h)" "settle r h = (r, h)"
  by (simp_all add: ret_def raise_def tell_def look_def settle_def)

lemma lift_simps [simp]: "lift (Inr v) = ret v" "lift (Inl msg) = raise (failed msg)"
  by (simp_all add: lift_def)

lemma seq_simps [run]:
  "m h = (Inl e, h') \<Longrightarrow> seq m k h = (Inl e, h')"
  "m h = (Inr v, h') \<Longrightarrow> seq m k h = k v h'"
  by (simp_all add: seq_def)

lemma seq_ret [simp]: "seq (ret v) k = k v"
  by (simp add: seq_def ret_def fun_eq_iff)

lemma seq_raise [simp]: "seq (raise e) k = raise e"
  by (simp add: seq_def raise_def fun_eq_iff)

lemma seq_ok: "seq m k h = (Inr w, h2) \<longleftrightarrow> (\<exists>v h1. m h = (Inr v, h1) \<and> k v h1 = (Inr w, h2))"
  by (auto simp: seq_def split: prod.splits sum.splits)

lemma seq_err: "seq m k h = (Inl e, h2) \<longleftrightarrow>
    m h = (Inl e, h2) \<or> (\<exists>v h1. m h = (Inr v, h1) \<and> k v h1 = (Inl e, h2))"
  by (auto simp: seq_def split: prod.splits sum.splits)

lemma lift_ok: "lift r h = (Inr v, h') \<longleftrightarrow> r = Inr v \<and> h' = h"
  by (cases r) (auto simp: run)

definition adds :: "(event \<Rightarrow> bool) \<Rightarrow> 'a run \<Rightarrow> bool" where
  "adds F m \<longleftrightarrow> (\<forall>h. \<exists>es. snd (m h) = h @ es \<and> list_all F es)"

named_theorems adds_intro \<open>what a run adds to the history\<close>

lemma addsD: "adds F m \<Longrightarrow> m h = (r, h') \<Longrightarrow> \<exists>es. h' = h @ es \<and> list_all F es"
  unfolding adds_def by (metis snd_conv)

lemma addsI: "(\<And>h r h'. m h = (r, h') \<Longrightarrow> \<exists>es. h' = h @ es \<and> list_all F es) \<Longrightarrow> adds F m"
  unfolding adds_def by (metis prod.collapse)

lemma adds_silent [adds_intro]: "adds F (ret v)" "adds F (raise e)" "adds F (look f)" "adds F (lift r)" "adds F (settle s)"
  by (auto simp: adds_def run lift_def split: sum.splits)

lemma adds_tell [adds_intro]: "F ev \<Longrightarrow> adds F (tell ev)"
  by (auto simp: adds_def run)

lemma adds_seq [adds_intro]:
  assumes "adds F m" and "\<And>v. adds F (k v)"
  shows "adds F (seq m k)"
proof (rule addsI)
  fix h r h' assume a: "seq m k h = (r, h')"
  obtain s h1 where m: "m h = (s, h1)" by (metis prod.exhaust)
  obtain es where es: "h1 = h @ es" "list_all F es" using addsD [OF assms(1) m] by blast
  show "\<exists>es. h' = h @ es \<and> list_all F es"
  proof (cases s)
    case (Inl e)
    with a m es show ?thesis by (auto simp: seq_def)
  next
    case (Inr v)
    with a m have "k v h1 = (r, h')" by (simp add: seq_def)
    then obtain es2 where "h' = h1 @ es2" "list_all F es2" using addsD [OF assms(2)] by blast
    with es show ?thesis by auto
  qed
qed

lemma adds_catching [adds_intro]:
  assumes "adds F m" and "\<And>e. adds F (k e)"
  shows "adds F (catching m k)"
proof (rule addsI)
  fix h r h' assume a: "catching m k h = (r, h')"
  obtain s h1 where m: "m h = (s, h1)" by (metis prod.exhaust)
  obtain es where es: "h1 = h @ es" "list_all F es" using addsD [OF assms(1) m] by blast
  show "\<exists>es. h' = h @ es \<and> list_all F es"
  proof (cases s)
    case (Inl e)
    with a m have "k e h1 = (r, h')" by (simp add: catching_def)
    then obtain es2 where "h' = h1 @ es2" "list_all F es2" using addsD [OF assms(2)] by blast
    with es show ?thesis by auto
  next
    case (Inr v)
    with a m es show ?thesis by (auto simp: catching_def)
  qed
qed

lemma adds_outcome [adds_intro]: "adds F m \<Longrightarrow> adds F (outcome m)"
  by (rule addsI) (auto simp: outcome_def split: prod.splits dest: addsD)

lemma adds_if [adds_intro]: "(b \<Longrightarrow> adds F m) \<Longrightarrow> (\<not> b \<Longrightarrow> adds F n) \<Longrightarrow> adds F (if b then m else n)"
  by simp

lemma adds_option [adds_intro]:
  "adds F m \<Longrightarrow> (\<And>v. adds F (k v)) \<Longrightarrow> adds F (case x of None \<Rightarrow> m | Some v \<Rightarrow> k v)"
  by (cases x) simp_all

lemma adds_sum [adds_intro]:
  "(\<And>e. adds F (m e)) \<Longrightarrow> (\<And>v. adds F (k v)) \<Longrightarrow> adds F (case x of Inl e \<Rightarrow> m e | Inr v \<Rightarrow> k v)"
  by (cases x) simp_all

lemma adds_prod [adds_intro]: "(\<And>a b. adds F (k a b)) \<Longrightarrow> adds F (case x of (a, b) \<Rightarrow> k a b)"
  by (cases x) simp_all

lemma adds_weaken: "adds F m \<Longrightarrow> (\<And>e. F e \<Longrightarrow> G e) \<Longrightarrow> adds G m"
  unfolding adds_def by (metis list_all_iff)

section \<open>The services of the network and the chain\<close>

definition postHandshake :: "env \<Rightarrow> dial \<Rightarrow> string \<Rightarrow> string \<Rightarrow> handshake_body \<Rightarrow> handshake_reply run" where
  "postHandshake env via url sessionId body =
     seq (look (\<lambda>h. e_wire env h via url body)) (\<lambda>answer.
     seq (tell (Posted via url sessionId)) (\<lambda>_.
       settle (case answer of Inl e \<Rightarrow> Inl e
         | Inr (status, raw, parsed, header) \<Rightarrow> handshakeAnswered status raw parsed header)))"

text \<open>\<open>nodeFetch\<close> of \<open>node-tester.ts\<close> hands the agent on for an \<open>https\<close> address only: a node whose address is a plain
  \<open>http\<close> one is asked directly.\<close>

definition plain_http :: "string \<Rightarrow> bool" where
  "plain_http api \<longleftrightarrow> starts_with ''http'' api \<and> \<not> starts_with ''https'' api"

definition dial_used :: "dial \<Rightarrow> string \<Rightarrow> dial" where
  "dial_used via api = (if plain_http api then Direct else via)"

lemma dial_used_direct [simp]: "dial_used Direct api = Direct"
  by (simp add: dial_used_def)

definition askNode :: "(history \<Rightarrow> dial \<Rightarrow> string \<Rightarrow> 'a result) \<Rightarrow> dial \<Rightarrow> string \<Rightarrow> 'a run" where
  "askNode f via api =
     (let used = dial_used via api in
      seq (look (\<lambda>h. f h used api)) (\<lambda>answer. seq (tell (Asked used api)) (\<lambda>_. lift answer)))"

definition saveSessionConfig :: "env \<Rightarrow> saved_config \<Rightarrow> unit run" where
  "saveSessionConfig env config = (if e_secureStorage env then tell (Saved config) else ret ())"

text \<open>\<open>remoteUrlFromNode\<close>, \<open>resolveNodeRemoteUrl\<close>: the addresses of the node's row on chain first
  (\<open>None\<close> when the query throws), then the directory's API address.\<close>

definition remoteUrlFromNode :: "env \<Rightarrow> string list option \<Rightarrow> string \<Rightarrow> string result" where
  "remoteUrlFromNode env row apiField =
     (case row of
        Some (url # _) \<Rightarrow> ok url
      | _ \<Rightarrow> if apiField \<noteq> '''' then
               (if \<not> e_safeUrl env apiField then throw ''Invalid node API endpoint''
                else ok (if starts_with ''http'' apiField then apiField else ''https://'' @ apiField))
             else throw ''Cannot resolve node remote address'')"

definition resolveNodeRemoteUrl :: "env \<Rightarrow> string \<Rightarrow> string \<Rightarrow> string run" where
  "resolveNodeRemoteUrl env nodeAddress apiField =
     seq (look (\<lambda>h. e_nodeRow env h nodeAddress)) (\<lambda>row.
     seq (tell (ReadRow nodeAddress row)) (\<lambda>_. lift (remoteUrlFromNode env row apiField)))"

lemma adds_services [adds_intro]:
  "F (Posted via url sid) \<Longrightarrow> adds F (postHandshake env via url sid body)"
  "F (Asked (dial_used via api) api) \<Longrightarrow> adds F (askNode f via api)"
  "F (Saved cfg) \<Longrightarrow> adds F (saveSessionConfig env cfg)"
  "(\<And>row. F (ReadRow node row)) \<Longrightarrow> adds F (resolveNodeRemoteUrl env node api)"
  unfolding postHandshake_def askNode_def saveSessionConfig_def resolveNodeRemoteUrl_def Let_def
  by (intro adds_intro; simp)+

end
