(* ===== verification/OvpnGuard.thy ===== *)
theory OvpnGuard
  imports WgGuard
begin

text \<open>
  The OpenVPN config guard and the endpoint lookup of \<open>src/main/config-guard.ts\<close>
  (\<open>assertSafeOpenVpnConfig\<close>, \<open>extractOpenVpnRemoteHost\<close>). The guard's loop is a step function on
  its three variables; \<open>ovpn_read\<close> is what OpenVPN itself reads: the directives outside inline blocks.
\<close>

section \<open>The allow-list\<close>

definition OVPN_IFACE_NAME :: string where "OVPN_IFACE_NAME = ''sntl-ovpn''"

definition blank :: "char \<Rightarrow> bool" where
  "blank c \<longleftrightarrow> c = CHR '' '' \<or> c = CHR 0x09"

definition name_char :: "char \<Rightarrow> bool" where
  "name_char c \<longleftrightarrow> is_alnum c \<or> c = CHR ''-''"

definition cipher_char :: "char \<Rightarrow> bool" where
  "cipher_char c \<longleftrightarrow> is_alnum c \<or> c = CHR '':'' \<or> c = CHR ''-''"

definition remote_rx :: rx where
  "remote_rx = Seq host_rx (Seq (cls_plus blank) (cls_between is_digit 1 5))"

definition OVPN_DIRECTIVES :: "(string \<times> rx) list" where
  "OVPN_DIRECTIVES =
     [(''client'', Eps),
      (''dev'', lit OVPN_IFACE_NAME),
      (''dev-type'', lit ''tun''),
      (''proto'', Alt (lit ''tcp'') (lit ''udp'')),
      (''remote'', remote_rx),
      (''nobind'', Eps),
      (''auth-nocache'', Eps),
      (''auth'', cls_between name_char 1 32),
      (''data-ciphers'', cls_between cipher_char 1 128),
      (''data-ciphers-fallback'', cls_between name_char 1 64),
      (''tls-cipher'', cls_between cipher_char 1 128),
      (''tls-client'', Eps),
      (''tls-version-min'', Seq (lit ''1.'') (cls (\<lambda>c. c = CHR ''2'' \<or> c = CHR ''3''))),
      (''remote-cert-tls'', lit ''server''),
      (''redirect-gateway'', cls_between (\<lambda>c. is_alnum c \<or> blank c \<or> c = CHR ''-'') 0 64),
      (''topology'', lit ''subnet''),
      (''explicit-exit-notify'', cls (\<lambda>c. CHR ''1'' \<le> c \<and> c \<le> CHR ''3'')),
      (''persist-key'', Eps),
      (''persist-tun'', Eps)]"

definition OVPN_INLINE_TAGS :: "string list" where
  "OVPN_INLINE_TAGS = [''ca'', ''cert'', ''key'', ''tls-crypt'']"

definition pem_armor_rx :: rx where
  "pem_armor_rx = Seq (lit ''-----'') (Seq (Alt (lit ''BEGIN'') (lit ''END''))
     (Seq (chr CHR '' '') (Seq (cls_between (\<lambda>c. is_alnum c \<or> c = CHR '' '') 1 48) (lit ''-----''))))"

definition OVPN_PEM_LINE :: rx where
  "OVPN_PEM_LINE = Alt pem_armor_rx WG_KEY"

definition OVPN_REQUIRED :: "string list" where
  "OVPN_REQUIRED = [''client'', ''dev'', ''proto'', ''remote'']"

section \<open>The guard\<close>

record ovpn_state =
  openBlock :: "string option"
  seenBlocks :: "string list"
  seenDirectives :: "string list"

definition close_tag :: "string \<Rightarrow> string" where
  "close_tag t = ''</'' @ t @ ''>''"

text \<open>The capture of \<open>/^<([A-Za-z0-9-]+)>$/\<close>.\<close>

definition tag_opening :: "string \<Rightarrow> string option" where
  "tag_opening line =
     (case line of
        [] \<Rightarrow> None
      | c # cs \<Rightarrow>
          if c = CHR ''<'' \<and> cs \<noteq> [] \<and> last cs = CHR ''>'' \<and> rx_test (cls_plus name_char) (butlast cs)
          then Some (butlast cs) else None)"

definition search_blank :: "string \<Rightarrow> nat option" where
  "search_blank line =
     (let w = takeWhile (\<lambda>c. \<not> blank c) line in if length w = length line then None else Some (length w))"

definition directive_of :: "string \<Rightarrow> string" where
  "directive_of line = to_lower (case search_blank line of None \<Rightarrow> line | Some i \<Rightarrow> take i line)"

definition value_of :: "string \<Rightarrow> string" where
  "value_of line = (case search_blank line of None \<Rightarrow> [] | Some i \<Rightarrow> trim (drop (i + 1) line))"

definition ovpn_step :: "string \<Rightarrow> ovpn_state \<Rightarrow> ovpn_state result" where
  "ovpn_step raw st =
     (let line = trim raw in
      case openBlock st of
        Some t \<Rightarrow>
          if line = close_tag t then ok (st\<lparr>openBlock := None\<rparr>)
          else if line = [] then ok st
          else if \<not> rx_test OVPN_PEM_LINE line then throw ''OpenVPN config: inline block contains a non-PEM line''
          else ok st
      | None \<Rightarrow>
          if skippable line then ok st
          else (case tag_opening line of
              Some t0 \<Rightarrow>
                (let tag = to_lower t0 in
                  if tag \<notin> set OVPN_INLINE_TAGS
                  then throw (''OpenVPN config: inline block <'' @ tag @ ''> is not allowed'')
                  else if tag \<in> set (seenBlocks st)
                  then throw (''OpenVPN config: inline block <'' @ tag @ ''> is repeated'')
                  else ok (st\<lparr>seenBlocks := seenBlocks st @ [tag], openBlock := Some tag\<rparr>))
            | None \<Rightarrow>
                if starts_with ''<'' line then throw (''OpenVPN config: stray tag is not allowed: '' @ line)
                else let directive = directive_of line; value = value_of line in
                  (case map_of OVPN_DIRECTIVES directive of
                     None \<Rightarrow> throw (''OpenVPN config: directive '' @ quoted directive @ '' is not allowed'')
                   | Some validator \<Rightarrow>
                       if directive \<in> set (seenDirectives st)
                       then throw (''OpenVPN config: directive '' @ quoted directive @ '' is repeated'')
                       else if \<not> rx_test validator value
                       then throw (''OpenVPN config: directive '' @ quoted directive @ '' has a malformed value'')
                       else ok (st\<lparr>seenDirectives := seenDirectives st @ [directive]\<rparr>))))"

fun ovpn_scan :: "string list \<Rightarrow> ovpn_state \<Rightarrow> ovpn_state result" where
  "ovpn_scan [] st = ok st"
| "ovpn_scan (raw # rest) st = and_then (ovpn_step raw st) (ovpn_scan rest)"

definition ovpn_start :: ovpn_state where
  "ovpn_start = \<lparr>openBlock = None, seenBlocks = [], seenDirectives = []\<rparr>"

definition ovpn_finish :: "ovpn_state \<Rightarrow> unit result" where
  "ovpn_finish st =
     (case openBlock st of
        Some t \<Rightarrow> throw (''OpenVPN config: inline block <'' @ t @ ''> is unterminated'')
      | None \<Rightarrow>
          and_then (each (\<lambda>tag. if tag \<notin> set (seenBlocks st)
              then throw (''OpenVPN config: inline block <'' @ tag @ ''> is missing'') else ok ()) OVPN_INLINE_TAGS)
            (\<lambda>_. each (\<lambda>d. if d \<notin> set (seenDirectives st)
              then throw (''OpenVPN config: directive '' @ quoted d @ '' is missing'') else ok ()) OVPN_REQUIRED))"

definition assertSafeOpenVpnConfig :: "string \<Rightarrow> unit result" where
  "assertSafeOpenVpnConfig config = and_then (ovpn_scan (split_on CHR 0x0A config) ovpn_start) ovpn_finish"

section \<open>The endpoint\<close>

text \<open>The first word of a \<open>remote\<close> value, without its brackets.\<close>

definition remote_host :: "string \<Rightarrow> string option" where
  "remote_host v =
     (let host = takeWhile (\<lambda>c. \<not> blank c) v
      in if host = [] then None
         else if starts_with ''['' host then
           (case index_of CHR 0x5D host of
              None \<Rightarrow> None
            | Some close \<Rightarrow> if close > 0 then Some (drop 1 (take close host)) else None)
         else Some host)"

fun scan_remote :: "string list \<Rightarrow> string option" where
  "scan_remote [] = None"
| "scan_remote (raw # rest) =
     (let line = trim raw in
      case search_blank line of
        None \<Rightarrow> scan_remote rest
      | Some i \<Rightarrow>
          if to_lower (take i line) \<noteq> ''remote'' then scan_remote rest
          else remote_host (trim (drop (i + 1) line)))"

definition extractOpenVpnRemoteHost :: "string \<Rightarrow> string option" where
  "extractOpenVpnRemoteHost config = scan_remote (split_on CHR 0x0A config)"

section \<open>What OpenVPN reads\<close>

fun ovpn_read :: "string option \<Rightarrow> string list \<Rightarrow> (string \<times> string) list" where
  "ovpn_read b [] = []"
| "ovpn_read (Some t) (raw # rest) =
     (if trim raw = close_tag t then ovpn_read None rest else ovpn_read (Some t) rest)"
| "ovpn_read None (raw # rest) =
     (if skippable (trim raw) then ovpn_read None rest
      else (case tag_opening (trim raw) of
          Some t \<Rightarrow> ovpn_read (Some (to_lower t)) rest
        | None \<Rightarrow> (directive_of (trim raw), value_of (trim raw)) # ovpn_read None rest))"

fun ovpn_blocks :: "string option \<Rightarrow> string list \<Rightarrow> string list" where
  "ovpn_blocks b [] = []"
| "ovpn_blocks (Some t) (raw # rest) =
     (if trim raw = close_tag t then ovpn_blocks None rest else trim raw # ovpn_blocks (Some t) rest)"
| "ovpn_blocks None (raw # rest) =
     (if skippable (trim raw) then ovpn_blocks None rest
      else (case tag_opening (trim raw) of
          Some t \<Rightarrow> ovpn_blocks (Some (to_lower t)) rest
        | None \<Rightarrow> ovpn_blocks None rest))"

definition directive_ok :: "string \<times> string \<Rightarrow> bool" where
  "directive_ok dv = (case map_of OVPN_DIRECTIVES (fst dv) of None \<Rightarrow> False | Some r \<Rightarrow> rx_test r (snd dv))"

section \<open>Lemmas\<close>

lemma ovpn_scan_append: "ovpn_scan (xs @ ys) st = and_then (ovpn_scan xs st) (ovpn_scan ys)"
proof (induction xs arbitrary: st)
  case (Cons x xs)
  then show ?case by (cases "ovpn_step x st") simp_all
qed simp

text \<open>A line accepted outside a block, and inside one.\<close>

lemma step_outside:
  assumes "ovpn_step raw st = ok st'" and "openBlock st = None" and "\<not> skippable (trim raw)"
  shows "tag_opening (trim raw) = Some t \<Longrightarrow>
      to_lower t \<in> set OVPN_INLINE_TAGS \<and> to_lower t \<notin> set (seenBlocks st) \<and>
      st' = st\<lparr>seenBlocks := seenBlocks st @ [to_lower t], openBlock := Some (to_lower t)\<rparr>"
    and "tag_opening (trim raw) = None \<Longrightarrow>
      directive_ok (directive_of (trim raw), value_of (trim raw)) \<and>
      directive_of (trim raw) \<notin> set (seenDirectives st) \<and>
      st' = st\<lparr>seenDirectives := seenDirectives st @ [directive_of (trim raw)]\<rparr>"
  using assms by (auto simp: ovpn_step_def Let_def directive_ok_def split: if_splits option.splits)

lemma step_inside:
  assumes "ovpn_step raw st = ok st'" and "openBlock st = Some t"
  shows "trim raw = close_tag t \<Longrightarrow> st' = st\<lparr>openBlock := None\<rparr>"
    and "trim raw \<noteq> close_tag t \<Longrightarrow> st' = st \<and> (trim raw = [] \<or> rx_test OVPN_PEM_LINE (trim raw))"
  using assms by (auto simp: ovpn_step_def Let_def split: if_splits)

lemma step_skip: "openBlock st = None \<Longrightarrow> skippable (trim raw) \<Longrightarrow> ovpn_step raw st = ok st"
  by (simp add: ovpn_step_def)

lemma scan_sound:
  assumes "ovpn_scan ls st = ok st'"
  shows "seenDirectives st' = seenDirectives st @ map fst (ovpn_read (openBlock st) ls) \<and>
    list_all directive_ok (ovpn_read (openBlock st) ls) \<and>
    list_all (\<lambda>l. l = [] \<or> rx_test OVPN_PEM_LINE l) (ovpn_blocks (openBlock st) ls)"
  using assms
proof (induction ls arbitrary: st)
  case (Cons raw ls)
  then obtain st1 where st1: "ovpn_step raw st = ok st1" "ovpn_scan ls st1 = ok st'"
    by (auto simp: and_then_eq_ok)
  note IH = Cons.IH [OF st1(2)]
  show ?case
  proof (cases "openBlock st")
    case (Some t)
    with IH step_inside [OF st1(1) Some] show ?thesis by (cases "trim raw = close_tag t") auto
  next
    case None
    show ?thesis
    proof (cases "skippable (trim raw)")
      case True
      with IH st1(1) None step_skip [OF None True] show ?thesis by simp
    next
      case False
      with IH None step_outside [OF st1(1) None False] show ?thesis
        by (cases "tag_opening (trim raw)") auto
    qed
  qed
qed simp

lemma step_distinct:
  "ovpn_step raw st = ok st' \<Longrightarrow> distinct (seenDirectives st) \<Longrightarrow> distinct (seenDirectives st')"
  by (auto simp: ovpn_step_def Let_def split: if_splits option.splits)

lemma scan_distinct: "ovpn_scan ls st = ok st' \<Longrightarrow> distinct (seenDirectives st) \<Longrightarrow> distinct (seenDirectives st')"
  by (induction ls arbitrary: st) (auto simp: and_then_eq_ok dest: step_distinct)

text \<open>No other line than the directive can be taken for a \<open>remote\<close> line.\<close>

lemma search_blank_Cons: "search_blank (c # cs) = Some i \<Longrightarrow> i = 0 \<or> (\<exists>k. i = Suc k)"
  by (cases i) auto

lemma not_remote:
  assumes "c \<in> {CHR ''-'', CHR ''<'', CHR ''#'', CHR '';''}"
  shows "to_lower (take i (c # cs)) \<noteq> ''remote''"
  using assms by (cases i) (auto simp: to_lower_def lower_char_def class_defs char_le_iff)

lemma pem_line_head:
  assumes "rx_test OVPN_PEM_LINE line"
  shows "(\<exists>cs. line = CHR ''-'' # cs) \<or> search_blank line = None"
proof -
  have w: "wf_rx OVPN_PEM_LINE" by (simp add: OVPN_PEM_LINE_def pem_armor_rx_def WG_KEY_def)
  have "line \<in> lang pem_armor_rx \<or> line \<in> lang WG_KEY"
    using assms rx_test_correct [OF w] by (simp add: OVPN_PEM_LINE_def)
  then show ?thesis
  proof
    assume "line \<in> lang pem_armor_rx"
    then show ?thesis by (auto simp: pem_armor_rx_def lang_lit simp del: lit.simps)
  next
    assume "line \<in> lang WG_KEY"
    then have "\<forall>c \<in> set line. alphabet WG_KEY c" using lang_alphabet by blast
    then have "\<forall>c \<in> set line. \<not> blank c"
      by (auto simp: WG_KEY_def base64_char_def blank_def class_defs char_le_iff)
    then have "length (takeWhile (\<lambda>c. \<not> blank c) line) = length line" by (metis takeWhile_eq_all_conv)
    then show ?thesis by (simp add: search_blank_def Let_def)
  qed
qed

lemma opening_head: "tag_opening line = Some t \<Longrightarrow> \<exists>cs. line = CHR ''<'' # cs"
  by (auto simp: tag_opening_def split: list.splits if_splits)

lemma skippable_head: "skippable line \<Longrightarrow> line = [] \<or> (\<exists>c cs. line = c # cs \<and> c \<in> {CHR ''#'', CHR '';''})"
  by (cases line) (auto simp: skippable_def starts_with_def)

lemma scan_remote_skip:
  assumes "trim raw = [] \<or> search_blank (trim raw) = None \<or>
    (\<exists>c cs. trim raw = c # cs \<and> c \<in> {CHR ''-'', CHR ''<'', CHR ''#'', CHR '';''})"
  shows "scan_remote (raw # ls) = scan_remote ls"
proof -
  have "search_blank [] = None" by (simp add: search_blank_def)
  with assms not_remote show ?thesis by (auto simp: Let_def split: option.splits)
qed

lemma remote_needs_value: "directive_ok (''remote'', v) \<Longrightarrow> v \<noteq> []"
  by (auto simp: directive_ok_def OVPN_DIRECTIVES_def remote_rx_def host_rx_def)

lemma scan_remote_directive:
  assumes "directive_ok (directive_of (trim raw), value_of (trim raw))"
  shows "scan_remote (raw # ls) =
    (if directive_of (trim raw) = ''remote'' then remote_host (value_of (trim raw)) else scan_remote ls)"
  using assms remote_needs_value [of "[]"]
  by (cases "search_blank (trim raw)") (auto simp: directive_of_def value_of_def Let_def)

lemma scan_remote_read:
  assumes "ovpn_scan ls st = ok st'"
  shows "scan_remote ls = Option.bind (map_of (ovpn_read (openBlock st) ls) ''remote'') remote_host"
  using assms
proof (induction ls arbitrary: st)
  case (Cons raw ls)
  then obtain st1 where st1: "ovpn_step raw st = ok st1" "ovpn_scan ls st1 = ok st'"
    by (auto simp: and_then_eq_ok)
  note IH = Cons.IH [OF st1(2)]
  show ?case
  proof (cases "openBlock st")
    case (Some t)
    show ?thesis
    proof (cases "trim raw = close_tag t")
      case True
      then have "scan_remote (raw # ls) = scan_remote ls" by (intro scan_remote_skip) (simp add: close_tag_def)
      with True Some IH step_inside [OF st1(1) Some] show ?thesis by simp
    next
      case False
      then have "scan_remote (raw # ls) = scan_remote ls"
        using step_inside(2) [OF st1(1) Some] pem_line_head by (intro scan_remote_skip) blast
      with False Some IH step_inside(2) [OF st1(1) Some] show ?thesis by simp
    qed
  next
    case None
    show ?thesis
    proof (cases "skippable (trim raw)")
      case True
      then have "scan_remote (raw # ls) = scan_remote ls" using skippable_head by (intro scan_remote_skip) blast
      with IH st1(1) None step_skip [OF None True] True show ?thesis by simp
    next
      case False
      note s = step_outside [OF st1(1) None False]
      show ?thesis
      proof (cases "tag_opening (trim raw)")
        case (Some t)
        then have "scan_remote (raw # ls) = scan_remote ls" using opening_head by (intro scan_remote_skip) blast
        with IH None s(1) [OF Some] Some False show ?thesis by simp
      next
        case tn: None
        with IH None s(2) [OF tn] False show ?thesis by (simp add: scan_remote_directive del: scan_remote.simps)
      qed
    qed
  qed
qed simp

section \<open>Properties\<close>

lemma openvpn_guard_ok:
  "assertSafeOpenVpnConfig config = ok () \<longleftrightarrow>
     (\<exists>st. ovpn_scan (split_on CHR 0x0A config) ovpn_start = ok st \<and> openBlock st = None \<and>
        set OVPN_INLINE_TAGS \<subseteq> set (seenBlocks st) \<and> set OVPN_REQUIRED \<subseteq> set (seenDirectives st))"
  by (auto simp: assertSafeOpenVpnConfig_def and_then_eq_ok ovpn_finish_def each_ok split: option.splits if_splits)

definition directives_of :: "string \<Rightarrow> (string \<times> string) list" where
  "directives_of config = ovpn_read None (split_on CHR 0x0A config)"

lemma guard_directives:
  assumes "assertSafeOpenVpnConfig config = ok ()"
  shows "list_all directive_ok (directives_of config)"
    and "distinct (map fst (directives_of config))"
    and "set OVPN_REQUIRED \<subseteq> fst ` set (directives_of config)"
    and "list_all (\<lambda>l. l = [] \<or> rx_test OVPN_PEM_LINE l) (ovpn_blocks None (split_on CHR 0x0A config))"
    and "extractOpenVpnRemoteHost config = Option.bind (map_of (directives_of config) ''remote'') remote_host"
proof -
  obtain st where st: "ovpn_scan (split_on CHR 0x0A config) ovpn_start = ok st" "set OVPN_REQUIRED \<subseteq> set (seenDirectives st)"
    using assms openvpn_guard_ok by blast
  have n: "openBlock ovpn_start = None" "seenDirectives ovpn_start = []" by (simp_all add: ovpn_start_def)
  have s: "seenDirectives st = map fst (directives_of config)"
    using scan_sound [OF st(1)] n by (simp add: directives_of_def)
  show "list_all directive_ok (directives_of config)"
    "list_all (\<lambda>l. l = [] \<or> rx_test OVPN_PEM_LINE l) (ovpn_blocks None (split_on CHR 0x0A config))"
    using scan_sound [OF st(1)] n by (simp_all add: directives_of_def)
  show "distinct (map fst (directives_of config))" using scan_distinct [OF st(1)] n s by simp
  show "set OVPN_REQUIRED \<subseteq> fst ` set (directives_of config)" using st(2) s by simp
  show "extractOpenVpnRemoteHost config = Option.bind (map_of (directives_of config) ''remote'') remote_host"
    using scan_remote_read [OF st(1)] n by (simp add: extractOpenVpnRemoteHost_def directives_of_def)
qed

text \<open>Directives that run a program or load one, none of which a node may send.\<close>

definition OVPN_EXEC :: "string list" where
  "OVPN_EXEC =
     [''up'', ''down'', ''route-up'', ''route-pre-down'', ''ipchange'', ''client-connect'', ''client-disconnect'',
      ''tls-verify'', ''auth-user-pass-verify'', ''learn-address'', ''plugin'', ''script-security'', ''iproute'',
      ''config'', ''daemon'', ''writepid'', ''log'', ''log-append'', ''status'', ''management'', ''cd'', ''chroot'']"

text \<open>
  The OpenVPN guard (\<open>assertSafeOpenVpnConfig\<close>) against what OpenVPN reads from an accepted
  config: every directive outside an inline block is on the allow-list with a value of the listed
  shape, none occurs twice, client, dev, proto and remote all occur, no directive that executes or
  loads anything does, and an inline block holds nothing but PEM lines.
\<close>

theorem openvpn_guard_sound:
  assumes "assertSafeOpenVpnConfig config = ok ()"
  shows "list_all directive_ok (directives_of config) \<and> distinct (map fst (directives_of config)) \<and>
    set OVPN_REQUIRED \<subseteq> fst ` set (directives_of config) \<and>
    set OVPN_EXEC \<inter> fst ` set (directives_of config) = {} \<and>
    list_all (\<lambda>l. l = [] \<or> rx_test OVPN_PEM_LINE l) (ovpn_blocks None (split_on CHR 0x0A config))"
proof -
  have "list_all (\<lambda>d. map_of OVPN_DIRECTIVES d = None) OVPN_EXEC"
    by (simp add: OVPN_EXEC_def OVPN_DIRECTIVES_def)
  then have "\<forall>d \<in> set OVPN_EXEC. \<not> directive_ok (d, v)" for v
    by (simp add: directive_ok_def list_all_iff)
  then have "set OVPN_EXEC \<inter> fst ` set (directives_of config) = {}"
    using guard_directives(1) [OF assms] by (fastforce simp: list_all_iff)
  with guard_directives [OF assms] show ?thesis by blast
qed

text \<open>
  The endpoint the kill switch lets through is the one OpenVPN dials
  (\<open>extractOpenVpnRemoteHost\<close>): in an accepted config exactly one \<open>remote\<close> directive is read, and
  the lookup returns the host of that directive and of no other line, so a comment, an inline block or
  a second endpoint cannot divert it.
\<close>

theorem openvpn_endpoint_unique:
  assumes "assertSafeOpenVpnConfig config = ok ()"
  shows "\<exists>v. filter (\<lambda>dv. fst dv = ''remote'') (directives_of config) = [(''remote'', v)] \<and>
    rx_test remote_rx v \<and> extractOpenVpnRemoteHost config = remote_host v"
proof -
  note g = guard_directives [OF assms]
  obtain v where v: "(''remote'', v) \<in> set (directives_of config)"
    using g(3) by (fastforce simp: OVPN_REQUIRED_def)
  then have m: "map_of (directives_of config) ''remote'' = Some v" using g(2) by (rule map_of_is_SomeI [rotated])
  have "filter (\<lambda>dv. fst dv = ''remote'') xs = [(''remote'', v)]"
    if "(''remote'', v) \<in> set xs" "distinct (map fst xs)" for xs :: "(string \<times> string) list"
    using that by (induction xs) (force simp: filter_empty_conv)+
  moreover have "rx_test remote_rx v"
    using g(1) v by (auto simp: list_all_iff directive_ok_def OVPN_DIRECTIVES_def dest!: bspec)
  ultimately show ?thesis using g(2,5) v m by auto
qed

end
