(* ===== verification/OvpnConfig.thy ===== *)
theory OvpnConfig
  imports OvpnGuard TlsPin
begin

text \<open>
  The OpenVPN client config builder, \<open>src/main/protocols/openvpn-config.ts\<close>. The certificate and key
  parsers of the crypto library are arguments: \<open>is_cert\<close> says that bytes are an X.509 certificate,
  \<open>parses_key\<close> that they are a private key of the given encoding.
\<close>

section \<open>Definitions\<close>

definition newline :: string where "newline = [CHR 0x0A]"

definition OVPN_IFACE :: string where "OVPN_IFACE = ''sntl-ovpn''"
definition TLS_CRYPT_KEY_BYTES :: nat where "TLS_CRYPT_KEY_BYTES = 256"

definition decodeGoBytes :: "js \<Rightarrow> string \<Rightarrow> byte list result" where
  "decodeGoBytes v field =
     (case v of
        JStr s \<Rightarrow>
          if length s = 0 then throw (''OpenVPN node returned an empty '' @ field)
          else if \<not> rx_test WG_KEY s \<or> length s mod 4 \<noteq> 0
            then throw (''OpenVPN node returned a malformed '' @ field)
          else let decoded = b64_dec s in
            if length decoded = 0 \<or> b64_enc decoded \<noteq> s
            then throw (''OpenVPN node returned a malformed '' @ field) else ok decoded
      | _ \<Rightarrow> throw (''OpenVPN node returned an empty '' @ field))"

definition assertCertificate :: "(byte list \<Rightarrow> bool) \<Rightarrow> byte list \<Rightarrow> string \<Rightarrow> unit result" where
  "assertCertificate is_cert der field =
     (if is_cert der then ok () else throw (''OpenVPN node returned an invalid '' @ field))"

definition key_candidates :: "(string \<times> string) list" where
  "key_candidates = [(''pkcs8'', ''PRIVATE KEY''), (''sec1'', ''EC PRIVATE KEY''), (''pkcs1'', ''RSA PRIVATE KEY'')]"

definition privateKeyLabel :: "(string \<Rightarrow> byte list \<Rightarrow> bool) \<Rightarrow> byte list \<Rightarrow> string result" where
  "privateKeyLabel parses_key der =
     (case find (\<lambda>c. parses_key (fst c) der) key_candidates of
        Some c \<Rightarrow> ok (snd c)
      | None \<Rightarrow> throw ''OpenVPN node returned an invalid client key'')"

text \<open>\<open>s.match(/.{1,n}/g)\<close> for \<open>n > 0\<close> and a string without line ends.\<close>

function chunks :: "nat \<Rightarrow> string \<Rightarrow> string list" where
  "chunks n s = (if s = [] \<or> n = 0 then [] else take n s # chunks n (drop n s))"
  by auto
termination by (relation "measure (\<lambda>(n, s). length s)") auto

declare chunks.simps [simp del]

definition armor :: "string \<Rightarrow> string \<Rightarrow> string \<Rightarrow> string" where
  "armor kind label dashes = dashes @ kind @ '' '' @ label @ dashes"

definition pem_lines :: "nat \<Rightarrow> string \<Rightarrow> string \<Rightarrow> string list" where
  "pem_lines n body label =
     [armor ''BEGIN'' label ''-----''] @ [join newline (chunks n body)] @ [armor ''END'' label ''-----'']"

definition pemBase64 :: "byte list \<Rightarrow> string \<Rightarrow> string" where
  "pemBase64 bs label = join newline (pem_lines 64 (b64_enc bs) label)"

definition pemHex :: "byte list \<Rightarrow> string \<Rightarrow> string" where
  "pemHex bs label = join newline (pem_lines 32 (hex_enc bs) label)"

text \<open>\<open>isIP(a) === 4\<close>: four decimal octets without leading zeros.\<close>

definition is_ip4 :: "string \<Rightarrow> bool" where
  "is_ip4 s =
     (let gs = split_on CHR ''.'' s
      in length gs = 4 \<and> list_all (\<lambda>g. rx_test (cls_between is_digit 1 3) g \<and> read_nat g \<le> 255 \<and>
           (length g = 1 \<or> hd g \<noteq> CHR ''0'')) gs)"

definition pick_host :: "js \<Rightarrow> string option" where
  "pick_host nodeAddrs =
     (let usable = filter (\<lambda>a. length a > 0) (map the (filter (\<lambda>a. a \<noteq> None) (map as_string (elems nodeAddrs))))
      in case find is_ip4 usable of
           Some a \<Rightarrow> Some a
         | None \<Rightarrow> (case usable of [] \<Rightarrow> None | a # _ \<Rightarrow> Some a))"

definition ovpn_lines :: "string \<Rightarrow> string \<Rightarrow> int \<Rightarrow> string list" where
  "ovpn_lines proto host port =
     [''client'', ''dev '' @ OVPN_IFACE, ''dev-type tun'', ''proto '' @ proto,
      ''remote '' @ host @ '' '' @ show_int port, ''nobind'', ''auth-nocache'', ''auth SHA256'',
      ''data-ciphers AES-256-GCM:AES-128-GCM'', ''data-ciphers-fallback AES-256-GCM'',
      ''tls-cipher TLS-ECDHE-ECDSA-WITH-AES-256-GCM-SHA384'', ''tls-client'', ''tls-version-min 1.2'',
      ''remote-cert-tls server'', ''redirect-gateway def1 ipv6 bypass-dhcp'', ''topology subnet''] @
     (if proto = ''udp'' then [''explicit-exit-notify 1''] else []) @
     [''persist-key'', ''persist-tun'', '''']"

definition ovpn_pki :: "byte list \<Rightarrow> byte list \<Rightarrow> byte list \<Rightarrow> byte list \<Rightarrow> string \<Rightarrow> string list" where
  "ovpn_pki ca cert key tls keyLabel =
     [''<ca>'', pemBase64 ca ''CERTIFICATE'', ''</ca>'',
      ''<cert>'', pemBase64 cert ''CERTIFICATE'', ''</cert>'',
      ''<key>'', pemBase64 key keyLabel, ''</key>'',
      ''<tls-crypt>'', pemHex tls ''OpenVPN Static key V1'', ''</tls-crypt>'', '''']"

definition buildOpenVpnConfig ::
  "(byte list \<Rightarrow> bool) \<Rightarrow> (string \<Rightarrow> byte list \<Rightarrow> bool) \<Rightarrow> js \<Rightarrow> js \<Rightarrow> string result" where
  "buildOpenVpnConfig is_cert parses_key handshake nodeAddrs =
     (if \<not> truthy handshake \<or> \<not> is_array (jget ''metadata'' handshake) \<or> elems (jget ''metadata'' handshake) = []
      then throw ''OpenVPN node returned no service metadata''
      else let entry = hd (elems (jget ''metadata'' handshake)) in
      case parsePort (jget ''port'' entry) of
        None \<Rightarrow> throw ''OpenVPN node returned an invalid port''
      | Some port \<Rightarrow>
      (case (if jget ''protocol'' entry \<in> {JStr ''tcp'', JStr ''udp''} then as_string (jget ''protocol'' entry) else None) of
        None \<Rightarrow> throw ''OpenVPN node returned an unsupported transport protocol''
      | Some proto \<Rightarrow>
      (case pick_host nodeAddrs of
        None \<Rightarrow> throw ''OpenVPN handshake returned no node address''
      | Some host \<Rightarrow>
      if \<not> rx_test host_rx host then throw (''OpenVPN node address '' @ quoted host @ '' is malformed'')
      else
      and_then (decodeGoBytes (jget ''ca'' entry) ''CA certificate'') (\<lambda>ca.
      and_then (decodeGoBytes (jget ''cert'' handshake) ''client certificate'') (\<lambda>cert.
      and_then (decodeGoBytes (jget ''key'' handshake) ''client key'') (\<lambda>key.
      and_then (decodeGoBytes (jget ''tls'' entry) ''tls-crypt key'') (\<lambda>tls.
      and_then (assertCertificate is_cert ca ''CA certificate'') (\<lambda>_.
      and_then (assertCertificate is_cert cert ''client certificate'') (\<lambda>_.
      and_then (privateKeyLabel parses_key key) (\<lambda>keyLabel.
      if length tls \<noteq> TLS_CRYPT_KEY_BYTES then throw ''OpenVPN node returned a tls-crypt key of the wrong length''
      else ok (join newline (ovpn_lines proto host port @ ovpn_pki ca cert key tls keyLabel))))))))))))"

section \<open>Lines\<close>

lemma split_on_sep: "split_on c (w @ c # s) = split_on c w @ split_on c s"
proof (induction w)
  case (Cons a w)
  then show ?case by (cases "split_on c w") (auto split: list.splits)
qed simp

lemma split_on_join_gen: "ws \<noteq> [] \<Longrightarrow> split_on c (join [c] ws) = concat (map (split_on c) ws)"
  by (induction "[c]" ws rule: join.induct) (simp_all add: split_on_sep)

lemma split_on_none: "c \<notin> set w \<Longrightarrow> split_on c w = [w]"
  by (induction w) auto

lemma split_on_lines: "\<forall>w \<in> set ws. c \<notin> set w \<Longrightarrow> concat (map (split_on c) ws) = ws"
  by (induction ws) (simp_all add: split_on_none)

lemma set_chunks: "w \<in> set (chunks n s) \<Longrightarrow> set w \<subseteq> set s \<and> w \<noteq> []"
proof (induction n s rule: chunks.induct)
  case (1 n s)
  then show ?case
    by (subst (asm) chunks.simps) (auto split: if_splits dest: in_set_takeD in_set_dropD)
qed

lemma chunks_not_Nil: "s \<noteq> [] \<Longrightarrow> n \<noteq> 0 \<Longrightarrow> chunks n s \<noteq> []"
  by (subst chunks.simps) simp

lemma WG_KEY_word:
  assumes "w \<noteq> []" "list_all base64_char w" "k \<le> 2"
  shows "rx_test WG_KEY (w @ replicate k CHR ''='')"
proof -
  have "w \<in> lang (cls_plus base64_char)" using assms(1,2) by (auto simp: Suc_le_eq)
  moreover have "replicate k CHR ''='' \<in> lang (Rng (\<lambda>c. c = CHR ''='') 0 (Some 2))"
    using assms(3) by (simp add: list_all_iff)
  ultimately have "w @ replicate k CHR ''='' \<in> lang WG_KEY" unfolding WG_KEY_def by (rule lang_SeqI)
  then show ?thesis by (intro rx_testI) (simp_all add: WG_KEY_def)
qed

text \<open>Cutting padded base64 into pieces whose length is a multiple of four never splits the padding
  off from its characters.\<close>

lemma chunks_base64:
  assumes "list_all base64_char w" "k \<le> 2" "length (w @ replicate k CHR ''='') mod 4 = 0" "4 dvd n"
    and "c \<in> set (chunks n (w @ replicate k CHR ''=''))"
  shows "rx_test WG_KEY c"
  using assms
proof (induction n "w @ replicate k CHR ''=''" arbitrary: w rule: chunks.induct)
  case (1 n w)
  let ?s = "w @ replicate k CHR ''=''"
  have ne: "?s \<noteq> []" "n \<noteq> 0" using 1(6) by (auto simp: chunks.simps [of n ?s] split: if_splits)
  then have "4 \<le> length ?s" using 1(4) by (cases "length ?s < 4") auto
  then have w: "w \<noteq> []" using 1(3) by auto
  have "chunks n ?s = take n ?s # chunks n (drop n ?s)" using ne by (subst chunks.simps) (simp only: if_False simp_thms)
  with 1(6) have c: "c = take n ?s \<or> c \<in> set (chunks n (drop n ?s))" by (simp only: list.set insert_iff)
  show ?case
  proof (cases "length ?s \<le> n")
    case True
    with c have "c = ?s" by (auto simp: chunks.simps [of n "[]"])
    with WG_KEY_word [OF w 1(2,3)] show ?thesis by simp
  next
    case False
    then have "n + 4 \<le> length ?s" using 1(4,5) by (auto elim!: dvdE simp: mod_eq_0_iff_dvd)
    then have n: "n + 2 \<le> length w" using 1(3) by simp
    have d: "drop n ?s = drop n w @ replicate k CHR ''=''" "take n ?s = take n w" using n by simp_all
    from c show ?thesis
    proof
      assume "c = take n ?s"
      moreover have "take n w \<noteq> []" "list_all base64_char (take n w)"
        using ne w 1(2) by (auto simp: list_all_iff dest: in_set_takeD)
      ultimately show ?thesis using WG_KEY_word [of "take n w" 0] d by simp
    next
      assume "c \<in> set (chunks n (drop n ?s))"
      moreover have "4 dvd length ?s - n" using 1(4,5) by (intro dvd_diff_nat) (simp_all only: mod_eq_0_iff_dvd)
      then have "length (drop n ?s) mod 4 = 0" by (simp only: length_drop mod_eq_0_iff_dvd)
      moreover have "list_all base64_char (drop n w)" using 1(2) by (auto simp: list_all_iff dest: in_set_dropD)
      ultimately show ?thesis
        using 1(1) [of "drop n w"] ne 1(3,5) unfolding d by simp
    qed
  qed
qed

definition pem_line :: "string \<Rightarrow> bool" where
  "pem_line l \<longleftrightarrow> trim l = l \<and> rx_test OVPN_PEM_LINE l \<and> CHR 0x0A \<notin> set l \<and> CHR ''<'' \<notin> set l"

lemma WG_KEY_pem_line: "rx_test WG_KEY l \<Longrightarrow> pem_line l"
proof -
  assume l: "rx_test WG_KEY l"
  have w: "wf_rx WG_KEY" by (simp add: WG_KEY_def)
  have "\<forall>c \<in> set l. alphabet WG_KEY c" using rx_test_alphabet [OF l w] by blast
  then have "\<forall>c \<in> set l. \<not> is_ws c \<and> c \<noteq> CHR 0x0A \<and> c \<noteq> CHR ''<''"
    by (auto simp: WG_KEY_def base64_char_def class_defs char_le_iff)
  moreover have "rx_test OVPN_PEM_LINE l"
    using l rx_test_correct [OF w] by (intro rx_testI) (simp_all add: OVPN_PEM_LINE_def pem_armor_rx_def w)
  ultimately show ?thesis by (auto simp: pem_line_def intro: trim_no_ws)
qed

section \<open>What the guard makes of the built lines\<close>

definition plain_line :: "string \<Rightarrow> bool" where
  "plain_line l \<longleftrightarrow> trim l = l \<and> (case l of [] \<Rightarrow> False | c # _ \<Rightarrow> c \<notin> {CHR ''#'', CHR '';'', CHR ''<''}) \<and>
     directive_ok (directive_of l, value_of l)"

lemma step_plain:
  assumes "plain_line l" and "openBlock st = None" and "directive_of l \<notin> set (seenDirectives st)"
  shows "ovpn_step l st = ok (st\<lparr>seenDirectives := seenDirectives st @ [directive_of l]\<rparr>)"
proof -
  obtain c cs where l: "l = c # cs" "c \<notin> {CHR ''#'', CHR '';'', CHR ''<''}" and t: "trim l = l"
    and d: "directive_ok (directive_of l, value_of l)"
    using assms(1) by (auto simp: plain_line_def split: list.splits)
  have "\<not> skippable l" "tag_opening l = None" "\<not> starts_with ''<'' l"
    using l by (auto simp: skippable_def starts_with_def tag_opening_def)
  with t d assms(2,3) show ?thesis by (auto simp: ovpn_step_def directive_ok_def split: option.splits)
qed

lemma scan_plain:
  assumes "list_all plain_line ls" and "openBlock st = None" and "distinct (seenDirectives st @ map directive_of ls)"
  shows "ovpn_scan ls st = ok (st\<lparr>seenDirectives := seenDirectives st @ map directive_of ls\<rparr>)"
  using assms by (induction ls arbitrary: st) (simp_all add: step_plain)

lemma scan_pem:
  assumes "list_all pem_line ls" and "openBlock st = Some t"
  shows "ovpn_scan ls st = ok st"
proof -
  have "ovpn_step l st = ok st" if "pem_line l" for l
  proof -
    have "CHR ''<'' \<in> set (close_tag t)" by (simp add: close_tag_def)
    with that have "l \<noteq> close_tag t" by (auto simp: pem_line_def)
    with that assms(2) show ?thesis by (auto simp: ovpn_step_def Let_def pem_line_def)
  qed
  with assms(1) show ?thesis by (induction ls) simp_all
qed

lemma scan_block:
  assumes "t \<in> set OVPN_INLINE_TAGS" and "t \<notin> set (seenBlocks st)" and "openBlock st = None" and "list_all pem_line ls"
  shows "ovpn_scan ([''<'' @ t @ ''>''] @ ls @ [close_tag t]) st = ok (st\<lparr>seenBlocks := seenBlocks st @ [t]\<rparr>)"
proof -
  have tags: "list_all (\<lambda>t. trim (''<'' @ t @ ''>'') = ''<'' @ t @ ''>'' \<and> tag_opening (''<'' @ t @ ''>'') = Some t \<and>
      \<not> skippable (''<'' @ t @ ''>'') \<and> to_lower t = t \<and> trim (close_tag t) = close_tag t) OVPN_INLINE_TAGS"
    by code_simp
  then have t: "trim (''<'' @ t @ ''>'') = ''<'' @ t @ ''>''" "tag_opening (''<'' @ t @ ''>'') = Some t"
    "\<not> skippable (''<'' @ t @ ''>'')" "to_lower t = t" "trim (close_tag t) = close_tag t"
    using bspec [OF tags [unfolded list_all_iff] assms(1)] by blast+
  have 1: "ovpn_step (''<'' @ t @ ''>'') st = ok (st\<lparr>seenBlocks := seenBlocks st @ [t], openBlock := Some t\<rparr>)"
    unfolding ovpn_step_def t(1) using assms(1-3) t(2-4) by (simp add: Let_def del: append.simps)
  have 2: "ovpn_step (close_tag t) (st\<lparr>seenBlocks := bs, openBlock := Some t\<rparr>) = ok (st\<lparr>seenBlocks := bs\<rparr>)" for bs
    using assms(3) t(5) by (cases st) (simp add: ovpn_step_def)
  have "ovpn_scan ((''<'' @ t @ ''>'') # (ls @ [close_tag t])) st = ok (st\<lparr>seenBlocks := seenBlocks st @ [t]\<rparr>)"
    unfolding ovpn_scan.simps 1 ovpn_scan_append by (simp add: scan_pem [OF assms(4)] 2)
  then show ?thesis by simp
qed

lemma static_lines:
  "list_all plain_line [''client'', ''dev '' @ OVPN_IFACE, ''dev-type tun'', ''proto tcp'', ''proto udp'', ''nobind'',
     ''auth-nocache'', ''auth SHA256'', ''tls-client'', ''tls-version-min 1.2'', ''remote-cert-tls server'',
     ''topology subnet'', ''explicit-exit-notify 1'', ''persist-key'', ''persist-tun'']"
  by code_simp

lemma static_words:
  "map (\<lambda>l. (trim l = l, directive_of l, value_of l))
     [''data-ciphers AES-256-GCM:AES-128-GCM'', ''data-ciphers-fallback AES-256-GCM'',
      ''tls-cipher TLS-ECDHE-ECDSA-WITH-AES-256-GCM-SHA384'', ''redirect-gateway def1 ipv6 bypass-dhcp''] =
   [(True, ''data-ciphers'', ''AES-256-GCM:AES-128-GCM''), (True, ''data-ciphers-fallback'', ''AES-256-GCM''),
    (True, ''tls-cipher'', ''TLS-ECDHE-ECDSA-WITH-AES-256-GCM-SHA384''),
    (True, ''redirect-gateway'', ''def1 ipv6 bypass-dhcp'')]"
  by code_simp

lemma long_lines:
  "list_all plain_line [''data-ciphers AES-256-GCM:AES-128-GCM'', ''data-ciphers-fallback AES-256-GCM'',
      ''tls-cipher TLS-ECDHE-ECDSA-WITH-AES-256-GCM-SHA384'', ''redirect-gateway def1 ipv6 bypass-dhcp'']"
proof -
  have "list_all cipher_char ''AES-256-GCM:AES-128-GCM''" "list_all name_char ''AES-256-GCM''"
    "list_all cipher_char ''TLS-ECDHE-ECDSA-WITH-AES-256-GCM-SHA384''"
    "list_all (\<lambda>c. is_alnum c \<or> blank c \<or> c = CHR ''-'') ''def1 ipv6 bypass-dhcp''"
    by code_simp+
  then show ?thesis
    using static_words by (simp add: plain_line_def directive_ok_def OVPN_DIRECTIVES_def rx_test_between)
qed

section \<open>The built config\<close>

lemma digits_no_blank: "list_all is_digit d \<Longrightarrow> \<forall>c \<in> set d. \<not> blank c \<and> \<not> is_ws c"
  by (auto simp: list_all_iff blank_def class_defs char_le_iff)

lemma blank_ws: "blank c \<Longrightarrow> is_ws c"
  by (auto simp: blank_def is_ws_def char_le_iff)

lemma host_char_not_ws: "host_char c \<or> c = CHR 0x5B \<or> c = CHR 0x5D \<Longrightarrow> \<not> is_ws c"
  using is_alnum_not_ws by (auto simp: host_char_def is_ws_def char_le_iff)

lemma host_no_blank:
  assumes "rx_test host_rx h"
  shows "\<forall>c \<in> set h. \<not> blank c \<and> \<not> is_ws c \<and> c \<noteq> CHR 0x0A" and "h \<noteq> []"
proof -
  have w: "wf_rx host_rx" by (simp add: host_rx_def)
  have n: "is_ws CHR 0x0A" by (simp add: is_ws_def char_le_iff)
  have "\<not> is_ws c" if "c \<in> set h" for c
    using rx_test_alphabet [OF assms w that] by (intro host_char_not_ws) (auto simp: host_rx_def)
  with n show "\<forall>c \<in> set h. \<not> blank c \<and> \<not> is_ws c \<and> c \<noteq> CHR 0x0A" using blank_ws by blast
  show "h \<noteq> []" using assms by (intro rx_test_nonempty [OF assms]) (simp add: host_rx_def)
qed

lemma remote_words:
  assumes h: "rx_test host_rx h" and d: "rx_test (cls_between is_digit 1 5) d"
  shows "trim (''remote '' @ h @ '' '' @ d) = ''remote '' @ h @ '' '' @ d"
    and "search_blank (''remote '' @ h @ '' '' @ d) = Some 6"
    and "directive_of (''remote '' @ h @ '' '' @ d) = ''remote''"
    and "value_of (''remote '' @ h @ '' '' @ d) = h @ '' '' @ d"
    and "rx_test remote_rx (h @ '' '' @ d)"
    and "takeWhile (\<lambda>c. \<not> blank c) (h @ '' '' @ d) = h"
proof -
  have d': "d \<noteq> []" "list_all is_digit d" using d by (auto simp: rx_test_between)
  then have last: "\<not> is_ws (last d)" using digits_no_blank last_in_set by blast
  have h': "h \<noteq> []" "\<not> is_ws (hd h)" using host_no_blank [OF h] hd_in_set [of h] by blast+
  show "trim (''remote '' @ h @ '' '' @ d) = ''remote '' @ h @ '' '' @ d"
    using d'(1) last by (intro trim_edges) (simp_all add: class_defs char_le_iff)
  show s: "search_blank (''remote '' @ h @ '' '' @ d) = Some 6"
    by (simp add: search_blank_def blank_def)
  have "to_lower ''remote'' = ''remote''" by code_simp
  then show "directive_of (''remote '' @ h @ '' '' @ d) = ''remote''" by (simp add: directive_of_def s [simplified])
  have "trim (h @ '' '' @ d) = h @ '' '' @ d" using h' d'(1) last by (intro trim_edges) simp_all
  then show "value_of (''remote '' @ h @ '' '' @ d) = h @ '' '' @ d" by (simp add: value_of_def s [simplified])
  have "h @ ('' '' @ d) \<in> lang remote_rx"
    unfolding remote_rx_def
  proof (intro lang_SeqI)
    show "h \<in> lang host_rx" using h rx_test_correct by (simp add: host_rx_def)
    show "'' '' \<in> lang (cls_plus blank)" by (simp add: blank_def)
    show "d \<in> lang (cls_between is_digit 1 5)" using d by (simp add: rx_test_correct)
  qed
  then show "rx_test remote_rx (h @ '' '' @ d)"
    by (intro rx_testI) (simp_all add: remote_rx_def host_rx_def)
  have "takeWhile (\<lambda>c. \<not> blank c) h = h" using host_no_blank [OF h] by (simp add: takeWhile_eq_all_conv)
  then show "takeWhile (\<lambda>c. \<not> blank c) (h @ '' '' @ d) = h"
    using host_no_blank [OF h] by (simp add: takeWhile_append2 blank_def)
qed

lemma remote_plain:
  assumes "rx_test host_rx h" "rx_test (cls_between is_digit 1 5) d"
  shows "plain_line (''remote '' @ h @ '' '' @ d)"
  using remote_words [OF assms]
  by (simp add: plain_line_def directive_ok_def OVPN_DIRECTIVES_def)

lemma blank_step: "openBlock st = None \<Longrightarrow> ovpn_step [] st = ok st"
  by (simp add: ovpn_step_def skippable_def trim_def trim_start_def trim_end_def)

definition ovpn_directive_lines :: "string \<Rightarrow> string \<Rightarrow> string \<Rightarrow> string list" where
  "ovpn_directive_lines proto h d =
     [''client'', ''dev '' @ OVPN_IFACE, ''dev-type tun'', ''proto '' @ proto,
      ''remote '' @ h @ '' '' @ d, ''nobind'', ''auth-nocache'', ''auth SHA256'',
      ''data-ciphers AES-256-GCM:AES-128-GCM'', ''data-ciphers-fallback AES-256-GCM'',
      ''tls-cipher TLS-ECDHE-ECDSA-WITH-AES-256-GCM-SHA384'', ''tls-client'', ''tls-version-min 1.2'',
      ''remote-cert-tls server'', ''redirect-gateway def1 ipv6 bypass-dhcp'', ''topology subnet''] @
     (if proto = ''udp'' then [''explicit-exit-notify 1''] else []) @ [''persist-key'', ''persist-tun'']"

lemma ovpn_lines_eq: "ovpn_lines proto h p = ovpn_directive_lines proto h (show_int p) @ [[]]"
  by (simp add: ovpn_lines_def ovpn_directive_lines_def)

lemma static_directives:
  "map directive_of [''client'', ''dev '' @ OVPN_IFACE, ''dev-type tun'', ''proto tcp''] =
     [''client'', ''dev'', ''dev-type'', ''proto'']"
  "directive_of ''proto udp'' = ''proto''"
  "map directive_of [''nobind'', ''auth-nocache'', ''auth SHA256'',
      ''data-ciphers AES-256-GCM:AES-128-GCM'', ''data-ciphers-fallback AES-256-GCM'',
      ''tls-cipher TLS-ECDHE-ECDSA-WITH-AES-256-GCM-SHA384'', ''tls-client'', ''tls-version-min 1.2'',
      ''remote-cert-tls server'', ''redirect-gateway def1 ipv6 bypass-dhcp'', ''topology subnet'',
      ''explicit-exit-notify 1'', ''persist-key'', ''persist-tun''] =
    [''nobind'', ''auth-nocache'', ''auth'', ''data-ciphers'', ''data-ciphers-fallback'', ''tls-cipher'', ''tls-client'',
     ''tls-version-min'', ''remote-cert-tls'', ''redirect-gateway'', ''topology'', ''explicit-exit-notify'',
     ''persist-key'', ''persist-tun'']"
  by code_simp+

lemma scan_directive_lines:
  assumes h: "rx_test host_rx h" and d: "rx_test (cls_between is_digit 1 5) d" and p: "proto \<in> {''tcp'', ''udp''}"
  shows "list_all plain_line (ovpn_directive_lines proto h d) \<and> distinct (map directive_of (ovpn_directive_lines proto h d)) \<and>
    set OVPN_REQUIRED \<subseteq> set (map directive_of (ovpn_directive_lines proto h d))"
proof -
  let ?words = "[''client'', ''dev'', ''dev-type'', ''proto'', ''remote'', ''nobind'', ''auth-nocache'', ''auth'',
     ''data-ciphers'', ''data-ciphers-fallback'', ''tls-cipher'', ''tls-client'',
     ''tls-version-min'', ''remote-cert-tls'', ''redirect-gateway'', ''topology'']"
  let ?words2 = "(if proto = ''udp'' then [''explicit-exit-notify''] else []) @ [''persist-key'', ''persist-tun'']"
  have m: "map directive_of (ovpn_directive_lines proto h d) = ?words @ ?words2"
    using p static_directives remote_words(3) [OF h d] by (elim insertE) (simp_all add: ovpn_directive_lines_def)
  have "list_all plain_line (ovpn_directive_lines proto h d)"
    using p static_lines long_lines remote_plain [OF h d] by (elim insertE) (simp_all add: ovpn_directive_lines_def)
  moreover have "distinct (?words @ ?words2)" by (cases "proto = ''udp''"; simp)
  moreover have "set OVPN_REQUIRED \<subseteq> set (?words @ ?words2)" by (simp add: OVPN_REQUIRED_def)
  ultimately show ?thesis unfolding m by blast
qed

text \<open>The blocks.\<close>

definition pem_labels :: "string list" where
  "pem_labels = [''CERTIFICATE'', ''PRIVATE KEY'', ''EC PRIVATE KEY'', ''RSA PRIVATE KEY'', ''OpenVPN Static key V1'']"

lemma armor_lines:
  "list_all (\<lambda>l. pem_line (armor ''BEGIN'' l ''-----'') \<and> pem_line (armor ''END'' l ''-----'')) pem_labels"
  by code_simp

lemma armor_pem_line:
  "label \<in> set pem_labels \<Longrightarrow> pem_line (armor ''BEGIN'' label ''-----'') \<and> pem_line (armor ''END'' label ''-----'')"
  using armor_lines unfolding list_all_iff by blast

lemma split_pem:
  assumes "body \<noteq> []" and "n \<noteq> 0" and "list_all pem_line (chunks n body)"
    and "pem_line (armor ''BEGIN'' label ''-----'')" "pem_line (armor ''END'' label ''-----'')"
  shows "split_on CHR 0x0A (join newline (pem_lines n body label)) =
    [armor ''BEGIN'' label ''-----''] @ chunks n body @ [armor ''END'' label ''-----'']"
proof -
  have "split_on CHR 0x0A (join [CHR 0x0A] (chunks n body)) = chunks n body"
    using assms(3) chunks_not_Nil [OF assms(1,2)]
    by (simp add: split_on_join_gen split_on_lines pem_line_def list_all_iff)
  then show ?thesis
    using assms(4,5) by (simp add: newline_def pem_lines_def split_on_sep split_on_none pem_line_def)
qed

lemma base64_block:
  assumes "bs \<noteq> []" and "label \<in> set pem_labels"
  shows "list_all pem_line (split_on CHR 0x0A (pemBase64 bs label))"
proof -
  obtain w k where w: "b64_enc bs = w @ replicate k CHR ''=''" "list_all base64_char w" "k \<le> 2"
    using b64_enc_shape by blast
  have ne: "b64_enc bs \<noteq> []" using assms(1) by (cases bs rule: b64_enc.cases) simp_all
  have "length (b64_enc bs) mod 4 = 0" by (simp add: length_b64_enc)
  then have "list_all pem_line (chunks 64 (b64_enc bs))"
    using w chunks_base64 [of w k 64] by (auto simp: list_all_iff intro!: WG_KEY_pem_line)
  then show ?thesis using ne armor_pem_line [OF assms(2)] by (simp add: pemBase64_def split_pem)
qed

lemma hex_block:
  assumes "length bs = 256"
  shows "list_all pem_line (split_on CHR 0x0A (pemHex bs ''OpenVPN Static key V1''))"
proof -
  have w: "list_all base64_char (hex_enc bs)"
    using hex_enc_chars [of bs] is_hex_props by (auto simp: list_all_iff)
  have "list_all pem_line (chunks 32 (hex_enc bs))"
    using w chunks_base64 [of "hex_enc bs" 0 32] assms by (auto simp: list_all_iff intro!: WG_KEY_pem_line)
  moreover have "pem_line (armor ''BEGIN'' ''OpenVPN Static key V1'' ''-----'') \<and>
      pem_line (armor ''END'' ''OpenVPN Static key V1'' ''-----'')"
    by (rule armor_pem_line) (simp add: pem_labels_def)
  moreover have "hex_enc bs \<noteq> []" using assms length_hex_enc [of bs] by (cases "hex_enc bs") auto
  ultimately show ?thesis by (simp add: pemHex_def split_pem)
qed

lemma decodeGoBytes_ok: "decodeGoBytes v field = ok bs \<Longrightarrow> v = JStr (b64_enc bs) \<and> bs \<noteq> []"
  by (auto simp: decodeGoBytes_def Let_def split: js.splits if_splits)

lemma privateKeyLabel_ok:
  "privateKeyLabel parses_key der = ok label \<Longrightarrow>
     label \<in> set pem_labels \<and> (\<exists>kind. parses_key kind der)"
  by (auto simp: pem_labels_def privateKeyLabel_def key_candidates_def split: option.splits if_splits)

lemma static_no_newline:
  "list_all (\<lambda>l. CHR 0x0A \<notin> set l) [''client'', ''dev '' @ OVPN_IFACE, ''dev-type tun'', ''proto tcp'', ''proto udp'', ''nobind'',
      ''auth-nocache'', ''auth SHA256'', ''data-ciphers AES-256-GCM:AES-128-GCM'', ''data-ciphers-fallback AES-256-GCM'',
      ''tls-cipher TLS-ECDHE-ECDSA-WITH-AES-256-GCM-SHA384'', ''tls-client'', ''tls-version-min 1.2'',
      ''remote-cert-tls server'', ''redirect-gateway def1 ipv6 bypass-dhcp'', ''topology subnet'',
      ''explicit-exit-notify 1'', ''persist-key'', ''persist-tun'']"
  by code_simp

lemma directive_lines_no_newline:
  assumes "rx_test host_rx h" "rx_test (cls_between is_digit 1 5) d" "proto \<in> {''tcp'', ''udp''}"
  shows "\<forall>l \<in> set (ovpn_directive_lines proto h d). CHR 0x0A \<notin> set l"
proof -
  have "CHR 0x0A \<notin> set h" using host_no_blank [OF assms(1)] by blast
  moreover have "CHR 0x0A \<notin> set d"
    using assms(2) by (auto simp: rx_test_between list_all_iff is_digit_def char_le_iff)
  ultimately have "CHR 0x0A \<notin> set (''remote '' @ h @ '' '' @ d)" by simp
  then show ?thesis
    using static_no_newline assms(3) by (elim insertE) (simp_all add: ovpn_directive_lines_def)
qed

text \<open>The lines the guard splits a built config into.\<close>

lemma built_lines:
  assumes h: "rx_test host_rx h" and d: "rx_test (cls_between is_digit 1 5) (show_int p)" and pr: "proto \<in> {''tcp'', ''udp''}"
  shows "split_on CHR 0x0A (join newline (ovpn_lines proto h p @ ovpn_pki ca cert key tls label)) =
    ovpn_directive_lines proto h (show_int p) @ [[]] @
    ([''<'' @ ''ca'' @ ''>''] @ split_on CHR 0x0A (pemBase64 ca ''CERTIFICATE'') @ [close_tag ''ca'']) @
    ([''<'' @ ''cert'' @ ''>''] @ split_on CHR 0x0A (pemBase64 cert ''CERTIFICATE'') @ [close_tag ''cert'']) @
    ([''<'' @ ''key'' @ ''>''] @ split_on CHR 0x0A (pemBase64 key label) @ [close_tag ''key'']) @
    ([''<'' @ ''tls-crypt'' @ ''>''] @ split_on CHR 0x0A (pemHex tls ''OpenVPN Static key V1'') @ [close_tag ''tls-crypt'']) @ [[]]"
proof -
  have "concat (map (split_on CHR 0x0A) (ovpn_directive_lines proto h (show_int p))) = ovpn_directive_lines proto h (show_int p)"
    by (rule split_on_lines [OF directive_lines_no_newline [OF h d pr]])
  then show ?thesis
    by (simp add: newline_def split_on_join_gen ovpn_lines_eq ovpn_pki_def close_tag_def)
qed

lemma scan_remote_plain:
  "list_all plain_line ls \<Longrightarrow> ''remote'' \<notin> directive_of ` set ls \<Longrightarrow> scan_remote (ls @ rest) = scan_remote rest"
  by (induction ls) (auto simp: plain_line_def scan_remote_directive simp del: scan_remote.simps(2))

lemma remote_host_word: "takeWhile (\<lambda>c. \<not> blank c) v = takeWhile (\<lambda>c. \<not> blank c) u \<Longrightarrow> remote_host v = remote_host u"
  by (simp add: remote_host_def)

lemma scan_remote_built:
  assumes "rx_test host_rx h" and "rx_test (cls_between is_digit 1 5) d" and "proto \<in> {''tcp'', ''udp''}"
  shows "scan_remote (ovpn_directive_lines proto h d @ rest) = remote_host h"
proof -
  let ?pre = "[''client'', ''dev '' @ OVPN_IFACE, ''dev-type tun'', ''proto '' @ proto]"
  obtain post where lines: "ovpn_directive_lines proto h d = ?pre @ (''remote '' @ h @ '' '' @ d) # post"
    by (simp add: ovpn_directive_lines_def)
  have "list_all plain_line ?pre" "''remote'' \<notin> directive_of ` set ?pre"
    using scan_directive_lines [OF assms] remote_words(3) [OF assms(1,2)] unfolding lines by auto
  then have "scan_remote (ovpn_directive_lines proto h d @ rest) = scan_remote ((''remote '' @ h @ '' '' @ d) # post @ rest)"
    unfolding lines using scan_remote_plain [of ?pre] by simp
  also have "\<dots> = remote_host (h @ '' '' @ d)"
    using remote_plain [OF assms(1,2)] remote_words [OF assms(1,2)]
    by (subst scan_remote_directive) (simp_all add: plain_line_def)
  also have "\<dots> = remote_host h"
    using remote_words(6) [OF assms(1,2)] host_no_blank [OF assms(1)]
    by (intro remote_host_word) (metis takeWhile_eq_all_conv)
  finally show ?thesis .
qed

lemma scan_built:
  assumes h: "rx_test host_rx h" and d: "rx_test (cls_between is_digit 1 5) (show_int p)" and pr: "proto \<in> {''tcp'', ''udp''}"
    and bs: "ca \<noteq> []" "cert \<noteq> []" "key \<noteq> []" "length tls = 256" and label: "label \<in> set pem_labels"
  shows "assertSafeOpenVpnConfig (join newline (ovpn_lines proto h p @ ovpn_pki ca cert key tls label)) = ok ()"
proof -
  let ?ds = "ovpn_directive_lines proto h (show_int p)"
  let ?st = "\<lambda>bs. \<lparr>openBlock = None, seenBlocks = bs, seenDirectives = map directive_of ?ds\<rparr>"
  note dl = scan_directive_lines [OF h d pr]
  have 1: "ovpn_scan ?ds ovpn_start = ok (?st [])"
    using dl scan_plain [of ?ds ovpn_start] by (simp add: ovpn_start_def)
  have 2: "ovpn_scan [[]] (?st bs) = ok (?st bs)" for bs by (simp add: blank_step)
  have c: "''CERTIFICATE'' \<in> set pem_labels" by (simp add: pem_labels_def)
  have block: "ovpn_scan ([''<'' @ t @ ''>''] @ ls @ [close_tag t]) (?st bs) = ok (?st bs')"
    if "list_all pem_line ls" "t \<in> set OVPN_INLINE_TAGS" "t \<notin> set bs" "bs' = bs @ [t]" for t bs bs' ls
    using scan_block [OF that(2), of "?st bs" ls] that by simp
  have seq: "ovpn_scan (xs @ ys) st = ovpn_scan ys s1" if "ovpn_scan xs st = ok s1" for xs ys st s1
    using that by (simp add: ovpn_scan_append)
  note b = block [OF base64_block [OF bs(1) c], of "''ca''" "[]" "[''ca'']"]
    block [OF base64_block [OF bs(2) c], of "''cert''" "[''ca'']" "[''ca'', ''cert'']"]
    block [OF base64_block [OF bs(3) label], of "''key''" "[''ca'', ''cert'']" "[''ca'', ''cert'', ''key'']"]
    block [OF hex_block [OF bs(4)], of "''tls-crypt''" "[''ca'', ''cert'', ''key'']" "[''ca'', ''cert'', ''key'', ''tls-crypt'']"]
  have t: "''ca'' \<in> set OVPN_INLINE_TAGS" "''cert'' \<in> set OVPN_INLINE_TAGS" "''key'' \<in> set OVPN_INLINE_TAGS"
    "''tls-crypt'' \<in> set OVPN_INLINE_TAGS" by (simp_all add: OVPN_INLINE_TAGS_def)
  have n: "''ca'' \<notin> set []" "''cert'' \<notin> set [''ca'']" "''key'' \<notin> set [''ca'', ''cert'']"
    "''tls-crypt'' \<notin> set [''ca'', ''cert'', ''key'']" by simp_all
  have e: "[''ca''] = [] @ [''ca'']" "[''ca'', ''cert''] = [''ca''] @ [''cert'']"
    "[''ca'', ''cert'', ''key''] = [''ca'', ''cert''] @ [''key'']"
    "[''ca'', ''cert'', ''key'', ''tls-crypt''] = [''ca'', ''cert'', ''key''] @ [''tls-crypt'']" by simp_all
  have "ovpn_scan (split_on CHR 0x0A (join newline (ovpn_lines proto h p @ ovpn_pki ca cert key tls label))) ovpn_start =
      ok (?st [''ca'', ''cert'', ''key'', ''tls-crypt''])"
    unfolding built_lines [OF h d pr] seq [OF 1] seq [OF 2] seq [OF b(1) [OF t(1) n(1) e(1)]]
      seq [OF b(2) [OF t(2) n(2) e(2)]] seq [OF b(3) [OF t(3) n(3) e(3)]] seq [OF b(4) [OF t(4) n(4) e(4)]] by (rule 2)
  then show ?thesis
    using dl by (auto simp: openvpn_guard_ok OVPN_INLINE_TAGS_def)
qed

text \<open>
  An OpenVPN config that is built (\<open>buildOpenVpnConfig\<close>) passes the guard that every config meets
  again on the privileged side, for any node data and any certificate and key parser; its endpoint, as
  the kill switch reads it back, is the host chosen from the node's addresses, and the certificates,
  the key and the transport key were checked first, so that bad node data fails before the session is
  kept.
\<close>

theorem openvpn_build_accepted:
  assumes "buildOpenVpnConfig is_cert parses_key handshake nodeAddrs = ok cfg"
  shows "assertSafeOpenVpnConfig cfg = ok () \<and>
    (\<exists>host. pick_host nodeAddrs = Some host \<and> extractOpenVpnRemoteHost cfg = remote_host host) \<and>
    (\<exists>entry ca cert key kind tls. entry \<in> set (elems (jget ''metadata'' handshake)) \<and>
       jget ''ca'' entry = JStr (b64_enc ca) \<and> is_cert ca \<and>
       jget ''cert'' handshake = JStr (b64_enc cert) \<and> is_cert cert \<and>
       jget ''key'' handshake = JStr (b64_enc key) \<and> parses_key kind key \<and>
       jget ''tls'' entry = JStr (b64_enc tls) \<and> length tls = TLS_CRYPT_KEY_BYTES)"
proof -
  define entry where "entry = hd (elems (jget ''metadata'' handshake))"
  obtain port proto host ca cert key tls label where
    e: "elems (jget ''metadata'' handshake) \<noteq> []" and port: "parsePort (jget ''port'' entry) = Some port"
    and pr: "proto \<in> {''tcp'', ''udp''}" and host: "pick_host nodeAddrs = Some host" "rx_test host_rx host"
    and ca: "decodeGoBytes (jget ''ca'' entry) ''CA certificate'' = ok ca" "is_cert ca"
    and cert: "decodeGoBytes (jget ''cert'' handshake) ''client certificate'' = ok cert" "is_cert cert"
    and key: "decodeGoBytes (jget ''key'' handshake) ''client key'' = ok key"
    and tls: "decodeGoBytes (jget ''tls'' entry) ''tls-crypt key'' = ok tls" "length tls = TLS_CRYPT_KEY_BYTES"
    and label: "privateKeyLabel parses_key key = ok label"
    and cfg: "cfg = join newline (ovpn_lines proto host port @ ovpn_pki ca cert key tls label)"
    using assms
    by (auto simp: buildOpenVpnConfig_def Let_def entry_def and_then_eq_ok assertCertificate_def
        split: if_splits option.splits) blast+
  have d: "rx_test (cls_between is_digit 1 5) (show_int port)"
    using port show_int_rx [of port 5] by (auto simp: parsePort_def split: option.splits if_splits)
  have "entry \<in> set (elems (jget ''metadata'' handshake))" using e by (simp add: entry_def)
  moreover have "assertSafeOpenVpnConfig cfg = ok ()"
    unfolding cfg using tls(2) privateKeyLabel_ok [OF label]
    by (intro scan_built [OF host(2) d pr]) (simp_all add: decodeGoBytes_ok [OF ca(1)] decodeGoBytes_ok [OF cert(1)]
        decodeGoBytes_ok [OF key] TLS_CRYPT_KEY_BYTES_def)
  moreover have "extractOpenVpnRemoteHost cfg = remote_host host"
    unfolding cfg extractOpenVpnRemoteHost_def built_lines [OF host(2) d pr]
    by (rule scan_remote_built [OF host(2) d pr])
  ultimately show ?thesis
    using host(1) decodeGoBytes_ok [OF ca(1)] decodeGoBytes_ok [OF cert(1)] decodeGoBytes_ok [OF key]
      decodeGoBytes_ok [OF tls(1)] ca(2) cert(2) tls(2) privateKeyLabel_ok [OF label] by blast
qed

section \<open>A node to evaluate the theorems on\<close>

lemma decode_encoded:
  assumes "bs \<noteq> []"
  shows "decodeGoBytes (JStr (b64_enc bs)) field = ok bs"
proof -
  obtain w k where w: "b64_enc bs = w @ replicate k CHR ''=''" "list_all base64_char w" "k \<le> 2"
    and l: "length w = (length bs * 4 + 2) div 3"
    using b64_enc_shape by blast
  have "length w \<noteq> 0" using l assms by (cases bs) simp_all
  then have "rx_test WG_KEY (b64_enc bs)" using WG_KEY_word [of w k] w by simp
  moreover have "b64_enc bs \<noteq> []" using w(1) \<open>length w \<noteq> 0\<close> by auto
  moreover have "length (b64_enc bs) mod 4 = 0" by (simp add: length_b64_enc)
  ultimately show ?thesis using assms by (simp add: decodeGoBytes_def Let_def)
qed

definition sample_ovpn :: js where
  "sample_ovpn = JObj
     [(''metadata'', JArr [JObj [(''port'', JNum (NInt 1194)), (''protocol'', JStr ''udp''),
        (''ca'', JStr (b64_enc [1])), (''tls'', JStr (b64_enc (replicate 256 7)))]]),
      (''cert'', JStr (b64_enc [2])), (''key'', JStr (b64_enc [3]))]"

lemma sample_ovpn_built:
  "\<exists>cfg. buildOpenVpnConfig (\<lambda>_. True) (\<lambda>_ _. True) sample_ovpn (JArr [JStr ''5.6.7.8'']) = ok cfg"
proof -
  have "pick_host (JArr [JStr ''5.6.7.8'']) = Some ''5.6.7.8'' \<and> rx_test host_rx ''5.6.7.8''" by code_simp
  moreover have "replicate 256 (7 :: byte) \<noteq> []" by simp
  ultimately show ?thesis
    by (simp add: buildOpenVpnConfig_def sample_ovpn_def Let_def decode_encoded assertCertificate_def
        privateKeyLabel_def key_candidates_def parsePort_def raw_port_def TLS_CRYPT_KEY_BYTES_def
        del: b64_enc.simps rx_test.simps)
qed

lemma openvpn_build_accepted_witness:
  "\<exists>cfg. buildOpenVpnConfig (\<lambda>_. True) (\<lambda>_ _. True) sample_ovpn (JArr [JStr ''5.6.7.8'']) = ok cfg \<and>
     assertSafeOpenVpnConfig cfg = ok ()"
  using sample_ovpn_built openvpn_build_accepted by blast

lemma sample_ovpn_accepted: "\<exists>cfg. assertSafeOpenVpnConfig cfg = ok ()"
proof -
  have "rx_test host_rx ''5.6.7.8'' \<and> rx_test (cls_between is_digit 1 5) (show_int 1194)" by code_simp
  then show ?thesis
    using scan_built [of "''5.6.7.8''" 1194 "''udp''" "[1]" "[2]" "[3]" "replicate 256 7" "''PRIVATE KEY''"]
    by (auto simp: pem_labels_def)
qed

lemma openvpn_guard_sound_witness: "\<exists>cfg. assertSafeOpenVpnConfig cfg = ok () \<and> distinct (map fst (directives_of cfg))"
  using sample_ovpn_accepted openvpn_guard_sound by blast

lemma openvpn_endpoint_unique_witness:
  "\<exists>cfg v. assertSafeOpenVpnConfig cfg = ok () \<and> extractOpenVpnRemoteHost cfg = remote_host v"
  using sample_ovpn_accepted openvpn_endpoint_unique by blast

end
