(* ===== verification/XrayConfig.thy ===== *)
theory XrayConfig
  imports TlsPin
begin

text \<open>
  The Xray client config builder, \<open>src/main/protocols/xray-config.ts\<close>: entry selection (Reality
  first, then pinned TLS, never cleartext) and the config of one VLESS outbound behind a loopback
  SOCKS listener.
\<close>

section \<open>Definitions\<close>

definition TRANSPORT_NETWORK :: "(int \<times> string) list" where
  "TRANSPORT_NETWORK = [(1, ''tcp'')]"

definition selectXRayEntry :: "hop_meta list \<Rightarrow> hop_meta option" where
  "selectXRayEntry metadata =
     (let usable = filter (\<lambda>m. hm_proxy_protocol m = PROXY_VLESS \<and>
            map_of TRANSPORT_NETWORK (hm_transport_protocol m) \<noteq> None) metadata
      in case find (\<lambda>m. hm_transport_security m = SECURITY_REALITY \<and> isUsableXRayReality m) usable of
           Some reality \<Rightarrow> Some reality
         | None \<Rightarrow> find (\<lambda>m. hm_transport_security m = SECURITY_TLS \<and>
             normalizeXRayTlsPin (hm_tls_pin m) \<noteq> None) usable)"

definition buildXRayOutbound :: "hop_meta \<Rightarrow> string \<Rightarrow> string \<Rightarrow> js" where
  "buildXRayOutbound entry address uuid =
     (let network = (case map_of TRANSPORT_NETWORK (hm_transport_protocol entry) of
            Some n \<Rightarrow> JStr n | None \<Rightarrow> JUndef);
          streamSettings =
            (if hm_transport_security entry = SECURITY_REALITY
             then [(''network'', network), (''security'', JStr ''reality''),
                   (''realitySettings'', reality_settings entry)]
             else [(''network'', network), (''security'', JStr ''tls''),
                   (''tlsSettings'', tls_settings entry (normalizeXRayTlsPin (hm_tls_pin entry)))])
      in JObj
        [(''tag'', JStr ''proxy''), (''protocol'', JStr ''vless''),
         (''settings'', JObj [(''vnext'', JArr [JObj
            [(''address'', JStr address), (''port'', raw_port (hm_port entry)),
             (''users'', JArr [JObj [(''id'', JStr uuid), (''encryption'', JStr ''none''),
                (''flow'', flow_of entry)]])]])]),
         (''streamSettings'', JObj streamSettings)])"

definition buildXRayConfig :: "hop_meta list \<Rightarrow> string list \<Rightarrow> string \<Rightarrow> js result" where
  "buildXRayConfig metadata nodeAddrs uuid =
     (if metadata = [] then throw ''Xray node returned no service metadata''
      else (case selectXRayEntry metadata of
          None \<Rightarrow> throw ''Xray node offers no supported VLESS config (need VLESS + reality/tls over TCP)''
        | Some entry \<Rightarrow>
            (case first_nonempty nodeAddrs of
               None \<Rightarrow> throw ''Xray handshake returned no node address''
             | Some address \<Rightarrow> ok (JObj
                 [(''log'', JObj [(''loglevel'', JStr ''warning'')]),
                  (''inbounds'', JArr [socks_inbound ''socks'' SOCKS_PORT True]),
                  (''outbounds'', JArr [buildXRayOutbound entry address uuid])]))))"

section \<open>Selection\<close>

definition xray_usable :: "hop_meta \<Rightarrow> bool" where
  "xray_usable m \<longleftrightarrow>
     hm_proxy_protocol m = PROXY_VLESS \<and> map_of TRANSPORT_NETWORK (hm_transport_protocol m) \<noteq> None \<and>
     (hm_transport_security m = SECURITY_REALITY \<and> isUsableXRayReality m \<or>
      hm_transport_security m = SECURITY_TLS \<and> normalizeXRayTlsPin (hm_tls_pin m) \<noteq> None)"

interpretation xray_sel: entry_selector selectXRayEntry xray_usable is_reality
proof
  fix ms m assume "selectXRayEntry ms = Some m"
  then show "m \<in> set ms \<and> xray_usable m"
    by (auto simp: selectXRayEntry_def Let_def xray_usable_def dest!: find_Some_set split: option.splits)
next
  fix ms m assume "m \<in> set ms" "xray_usable m"
  then show "selectXRayEntry ms \<noteq> None"
    by (auto simp: selectXRayEntry_def Let_def xray_usable_def find_None_set simp del: not_None_eq split: option.splits)
next
  fix ms m n assume "selectXRayEntry ms = Some m" "n \<in> set ms" "xray_usable n" "is_reality n"
  then show "is_reality m"
    by (auto simp: selectXRayEntry_def Let_def xray_usable_def is_reality_def find_None_set
        SECURITY_REALITY_def SECURITY_TLS_def dest!: find_Some_set split: option.splits)
qed

lemmas xray_defs = buildXRayOutbound_def socks_inbound_def SOCKS_LISTEN_def Let_def

lemma buildXRayConfig_ok:
  "buildXRayConfig ms addrs uuid = ok cfg \<longleftrightarrow>
     (\<exists>m a. selectXRayEntry ms = Some m \<and> first_nonempty addrs = Some a \<and>
        cfg = JObj
          [(''log'', JObj [(''loglevel'', JStr ''warning'')]),
           (''inbounds'', JArr [socks_inbound ''socks'' SOCKS_PORT True]),
           (''outbounds'', JArr [buildXRayOutbound m a uuid])])"
proof -
  have "selectXRayEntry [] = None" by (simp add: xray_sel.none_iff)
  then show ?thesis by (auto simp: buildXRayConfig_def split: option.splits)
qed

lemma xray_outbound_authenticated:
  assumes "xray_usable m"
  shows "authenticated (buildXRayOutbound m a uuid)"
proof (cases "hm_transport_security m = SECURITY_REALITY")
  case True
  with assms obtain key name where "hm_reality_public_key m = Some key" "hm_reality_server_name m = Some name"
    "trim name \<noteq> ''''" "length (b64_dec (from_url_alphabet (trim key))) = 32"
    using usable_reality_key [of m]
    by (auto simp: xray_usable_def isUsableReality_eq SECURITY_REALITY_def SECURITY_TLS_def)
  with True show ?thesis
    by (auto simp: authenticated_def xray_defs reality_settings_def js_or_empty_def)
next
  case False
  with assms obtain h where "normalizeXRayTlsPin (hm_tls_pin m) = Some h"
    by (auto simp: xray_usable_def)
  with False xray_pin.sound show ?thesis
    by (auto simp: authenticated_def xray_defs tls_settings_def js_or_null_def)
qed

text \<open>
  An Xray config is built only from a node entry that authenticates the node
  (\<open>buildXRayConfig\<close>): the config has one outbound, to an address the node returned, whose
  certificate is pinned to a SHA-256 digest or whose Reality handshake has a usable key and server
  name; it is taken from an entry the node offered, a Reality one when a usable one is offered; and
  the config guard accepts it.
\<close>

theorem xray_build_safe:
  assumes "buildXRayConfig ms addrs uuid = ok cfg"
  shows "assertSafeV2RayConfig cfg = ok () \<and>
    (\<exists>m a. m \<in> set ms \<and> a \<in> set addrs \<and> a \<noteq> [] \<and> jget ''outbounds'' cfg = JArr [buildXRayOutbound m a uuid] \<and>
       dialled cfg = [a] \<and> authenticated (buildXRayOutbound m a uuid) \<and>
       ((\<exists>n \<in> set ms. xray_usable n \<and> is_reality n) \<longrightarrow> is_reality m))"
proof -
  obtain m a where m: "selectXRayEntry ms = Some m" and a: "first_nonempty addrs = Some a" and
    cfg: "cfg = JObj
      [(''log'', JObj [(''loglevel'', JStr ''warning'')]),
       (''inbounds'', JArr [socks_inbound ''socks'' SOCKS_PORT True]),
       (''outbounds'', JArr [buildXRayOutbound m a uuid])]"
    using assms buildXRayConfig_ok by blast
  have "assertSafeV2RayConfig cfg = ok ()"
    by (simp add: cfg guard_ok_iff Let_def guard_no_log_path guard_socks_inbound)
  moreover have "dialled cfg = [a]" by (simp add: cfg dialled_def xray_defs)
  moreover have "m \<in> set ms" "xray_usable m" using xray_sel.picks_usable [OF m] by blast+
  ultimately show ?thesis
    using xray_outbound_authenticated [of m a uuid] xray_sel.picks_best [OF m] first_nonempty_Some [OF a] cfg
    by auto
qed

text \<open>
  An Xray node that offers nothing authenticable is refused (\<open>selectXRayEntry\<close>,
  \<open>buildXRayConfig\<close>): a config is built if and only if some entry is VLESS over a known transport with
  a usable Reality key or a usable certificate pin, and the node returned an address.
\<close>

theorem xray_build_iff:
  "(\<exists>cfg. buildXRayConfig ms addrs uuid = ok cfg) =
   ((\<exists>m \<in> set ms. xray_usable m) \<and> (\<exists>a \<in> set addrs. a \<noteq> []))"
proof -
  have "(\<exists>m. selectXRayEntry ms = Some m) \<longleftrightarrow> (\<exists>m \<in> set ms. xray_usable m)"
    using xray_sel.none_iff [of ms] by (metis not_None_eq)
  moreover have "(\<exists>a. first_nonempty addrs = Some a) \<longleftrightarrow> (\<exists>a \<in> set addrs. a \<noteq> [])"
    by (metis (mono_tags, lifting) find_None_set first_nonempty_def length_0_conv length_greater_0_conv not_None_eq)
  ultimately show ?thesis by (auto simp: buildXRayConfig_ok)
qed

definition sample_pinned :: hop_meta where
  "sample_pinned = \<lparr>hm_port = JNum (NInt 443), hm_proxy_protocol = 1, hm_transport_protocol = 1,
     hm_transport_security = 2, hm_tls_pin = Some (hex_enc (replicate 32 7)), hm_flow = None,
     hm_reality_server_name = None, hm_reality_short_id = None, hm_reality_public_key = None,
     hm_reality_fingerprint = None\<rparr>"

lemma sample_pinned_usable: "xray_usable sample_pinned"
  by (simp add: xray_usable_def sample_pinned_def enum_defs TRANSPORT_NETWORK_def xray_pin.hex)

lemma xray_build_safe_witness:
  "\<exists>cfg. buildXRayConfig [sample_pinned] [''5.6.7.8''] ''u'' = ok cfg \<and> dialled cfg = [''5.6.7.8'']"
proof -
  obtain m where m: "selectXRayEntry [sample_pinned] = Some m"
    using xray_sel.picks_some [of sample_pinned "[sample_pinned]"] sample_pinned_usable by auto
  have "first_nonempty [''5.6.7.8''] = Some ''5.6.7.8''" by (simp add: first_nonempty_def)
  with m obtain cfg where "buildXRayConfig [sample_pinned] [''5.6.7.8''] ''u'' = ok cfg"
    using buildXRayConfig_ok by blast
  with xray_build_safe [OF this] show ?thesis by auto
qed

lemma xray_build_iff_witness: "\<exists>cfg. buildXRayConfig [sample_pinned] [''5.6.7.8''] ''u'' = ok cfg"
  unfolding xray_build_iff using sample_pinned_usable by simp

end
