(* ===== verification/MultihopConfig.thy ===== *)
theory MultihopConfig
  imports TlsPin
begin

text \<open>
  The two-hop client config, \<open>src/main/protocols/multihop-config.ts\<close>: grading of a node for each
  end of a chain, entry selection, the outbounds, and the chained config whose exit outbound dials
  through the entry.
\<close>

section \<open>Definitions\<close>

datatype hop_protocol = HopV2Ray | HopXray

record hop_spec =
  hs_protocol :: hop_protocol
  hs_metadata :: "hop_meta list"
  hs_addrs :: "string list"
  hs_uuid :: string

definition ENTRY_TAG :: string where "ENTRY_TAG = ''entry-out''"
definition EXIT_TAG :: string where "EXIT_TAG = ''exit-out''"
definition SOCKS_TAG :: string where "SOCKS_TAG = ''socks''"

definition V2RAY_TRANSPORT :: "(int \<times> string) list" where
  "V2RAY_TRANSPORT =
     [(2, ''gun''), (3, ''grpc''), (4, ''http''), (5, ''mkcp''), (6, ''quic''), (7, ''tcp''), (8, ''websocket'')]"

definition XRAY_TRANSPORT :: "(int \<times> string) list" where
  "XRAY_TRANSPORT = [(1, ''tcp''), (2, ''websocket''), (3, ''grpc''), (4, ''httpupgrade''), (5, ''xhttp'')]"

definition NETWORK_BY_TRANSPORT :: "(string \<times> string) list" where
  "NETWORK_BY_TRANSPORT = [(''tcp'', ''tcp''), (''websocket'', ''ws''), (''grpc'', ''grpc'')]"

definition EXIT_TRANSPORTS :: "string list" where "EXIT_TRANSPORTS = [''tcp'']"

definition isChainGradeSecurity :: "hop_meta \<Rightarrow> bool" where
  "isChainGradeSecurity entry \<longleftrightarrow>
     hm_transport_security entry = SECURITY_TLS \<or> hm_transport_security entry = SECURITY_REALITY"

definition transportName :: "hop_protocol \<Rightarrow> int \<Rightarrow> string option" where
  "transportName protocol v =
     map_of (if protocol = HopXray then XRAY_TRANSPORT else V2RAY_TRANSPORT) v"

definition isCleartextEntry :: "hop_meta \<Rightarrow> bool" where
  "isCleartextEntry entry =
     (if hm_proxy_protocol entry = PROXY_VMESS then False
      else if hm_transport_security entry = SECURITY_TLS then False
      else if hm_transport_security entry = SECURITY_REALITY then False
      else hm_proxy_protocol entry = PROXY_VLESS \<and> hm_transport_security entry = SECURITY_NONE)"

definition isShapeUsable :: "hop_spec \<Rightarrow> hop_role \<Rightarrow> hop_meta \<Rightarrow> bool" where
  "isShapeUsable spec role m =
     (case transportName (hs_protocol spec) (hm_transport_protocol m) of
        None \<Rightarrow> False
      | Some name \<Rightarrow>
          if role = Exit \<and> name \<notin> set EXIT_TRANSPORTS then False
          else if map_of NETWORK_BY_TRANSPORT name = None then False
          else if parsePort (hm_port m) = None then False
          else isChainGradeSecurity m)"

definition hop_usable :: "hop_spec \<Rightarrow> hop_role \<Rightarrow> hop_meta \<Rightarrow> bool" where
  "hop_usable spec role m =
     (if \<not> isShapeUsable spec role m then False
      else if hm_transport_security m = SECURITY_TLS \<and> normalizeTlsPin (hm_tls_pin m) = None then False
      else if hm_transport_security m = SECURITY_REALITY \<and> \<not> isUsableReality m then False
      else True)"

definition prefer_wrapped :: "hop_meta list \<Rightarrow> hop_meta option" where
  "prefer_wrapped usable =
     (case find (\<lambda>m. hm_transport_security m = SECURITY_REALITY) usable of
        Some m \<Rightarrow> Some m
      | None \<Rightarrow>
          (case find (\<lambda>m. hm_transport_security m = SECURITY_TLS) usable of
             Some m \<Rightarrow> Some m
           | None \<Rightarrow> (case usable of [] \<Rightarrow> None | m # _ \<Rightarrow> Some m)))"

definition selectHopEntry :: "hop_spec \<Rightarrow> hop_role \<Rightarrow> hop_meta option" where
  "selectHopEntry spec role =
     (let usable = filter (hop_usable spec role) (hs_metadata spec)
      in if length usable = 0 then None else prefer_wrapped usable)"

datatype wrapping = WrapReality | WrapTls

record hop_eligibility =
  he_transports :: "string list"
  he_entry :: bool
  he_exit :: bool
  he_entrySecurity :: "wrapping option"
  he_exitSecurity :: "wrapping option"

text \<open>\<open>[...new Set(xs)]\<close>: first occurrences, in order.\<close>

definition unique :: "'a list \<Rightarrow> 'a list" where
  "unique xs = rev (remdups (rev xs))"

definition classifyHopEligibility :: "hop_protocol \<Rightarrow> hop_meta list \<Rightarrow> hop_eligibility" where
  "classifyHopEligibility protocol metadata =
     (let name = (\<lambda>m. transportName protocol (hm_transport_protocol m));
          usable = filter (\<lambda>m. (case name m of None \<Rightarrow> False
              | Some n \<Rightarrow> map_of NETWORK_BY_TRANSPORT n \<noteq> None) \<and> isChainGradeSecurity m) metadata;
          exits = filter (\<lambda>m. case name m of None \<Rightarrow> False | Some n \<Rightarrow> n \<in> set EXIT_TRANSPORTS) usable;
          label = map_option (\<lambda>m. if hm_transport_security m = SECURITY_REALITY then WrapReality else WrapTls)
      in \<lparr>he_transports = unique (map the (filter (\<lambda>n. n \<noteq> None) (map name metadata))),
          he_entry = length usable > 0, he_exit = length exits > 0,
          he_entrySecurity = label (prefer_wrapped usable), he_exitSecurity = label (prefer_wrapped exits)\<rparr>)"

definition buildHopOutbound :: "hop_spec \<Rightarrow> hop_meta \<Rightarrow> string \<Rightarrow> string \<Rightarrow> string option \<Rightarrow> js" where
  "buildHopOutbound spec entry address tag dialThrough =
     (let network = (case transportName (hs_protocol spec) (hm_transport_protocol entry) of
            None \<Rightarrow> ''tcp''
          | Some name \<Rightarrow> (case map_of NETWORK_BY_TRANSPORT name of None \<Rightarrow> ''tcp'' | Some n \<Rightarrow> n));
          port = (case parsePort (hm_port entry) of None \<Rightarrow> JNull | Some i \<Rightarrow> JNum (NInt i));
          isVless = (hm_proxy_protocol entry = PROXY_VLESS);
          streamSettings = [(''network'', JStr network)] @
            (if hm_transport_security entry = SECURITY_REALITY
             then [(''security'', JStr ''reality''), (''realitySettings'', reality_settings entry)]
             else if hm_transport_security entry = SECURITY_TLS
             then [(''security'', JStr ''tls''),
                   (''tlsSettings'', tls_settings entry (normalizeTlsPin (hm_tls_pin entry)))]
             else []) @
            (if network = ''grpc'' then [(''grpcSettings'', JObj [])] else []) @
            (if network = ''ws'' then [(''wsSettings'', JObj [])] else []);
          user = (if isVless
            then JObj [(''id'', JStr (hs_uuid spec)), (''encryption'', JStr ''none''), (''flow'', flow_of entry)]
            else JObj [(''id'', JStr (hs_uuid spec)), (''alterId'', JNum (NInt 0))])
      in JObj
        ([(''tag'', JStr tag), (''protocol'', JStr (if isVless then ''vless'' else ''vmess'')),
          (''settings'', JObj [(''vnext'', JArr [JObj
             [(''address'', JStr address), (''port'', port), (''users'', JArr [user])]])]),
          (''streamSettings'', JObj streamSettings)] @
         (case dialThrough of
            None \<Rightarrow> []
          | Some t \<Rightarrow> if t = '''' then [] else [(''proxySettings'', JObj [(''tag'', JStr t)])])))"

definition firstAddress :: "hop_spec \<Rightarrow> hop_role \<Rightarrow> string result" where
  "firstAddress spec role =
     (case first_nonempty (hs_addrs spec) of
        None \<Rightarrow> throw (''Multihop '' @ role_name role @ '' node returned no address'')
      | Some address \<Rightarrow> ok address)"

definition requireEntry :: "hop_spec \<Rightarrow> hop_role \<Rightarrow> hop_meta result" where
  "requireEntry spec role =
     (let node = ''Multihop '' @ role_name role @ '' node ''; ms = hs_metadata spec
      in if ms = [] then throw (node @ ''returned no service metadata'')
         else (case selectHopEntry spec role of
             Some picked \<Rightarrow> ok picked
           | None \<Rightarrow>
               if \<not> list_ex isChainGradeSecurity ms then
                 throw (if list_all isCleartextEntry ms
                   then node @ ''offers only cleartext (VLess without TLS) inbounds''
                   else node @ ''offers no TLS or Reality inbound. Both hops of a chain must be '' @
                     ''wrapped, so neither the connection to the entry nor the one to the exit is recognisable '' @
                     ''as a proxy. This node is still usable for an ordinary single-hop connection.'')
               else if list_ex (\<lambda>m. hm_transport_security m = SECURITY_TLS \<and>
                       normalizeTlsPin (hm_tls_pin m) = None) ms \<and>
                     \<not> list_ex (\<lambda>m. normalizeTlsPin (hm_tls_pin m) \<noteq> None) ms then
                 throw (node @ ''offered a TLS inbound but no usable certificate pin '' @
                   ''(tls_pin), so its self-signed certificate cannot be verified. Pick a different node.'')
               else if list_ex (\<lambda>m. isShapeUsable spec role m \<and>
                       hm_transport_security m = SECURITY_REALITY \<and> \<not> isUsableReality m) ms then
                 throw (node @ ''offered a Reality inbound with no usable public key or '' @
                   ''server name, so there is nothing to authenticate it with. Pick a different node.'')
               else throw (if role = Exit
                 then ''Multihop exit node offers no plain-TCP inbound. Only TCP can be carried through '' @
                   ''the entry hop: grpc and websocket bring their own dialer and fail when chained. '' @
                   ''Pick a different exit node (the entry may use any transport).''
                 else ''Multihop entry node offers no supported transport (tcp, websocket or grpc)'')))"

definition chain_config :: "int \<Rightarrow> bool \<Rightarrow> js list \<Rightarrow> js" where
  "chain_config port udp outbounds = JObj
     [(''log'', JObj [(''loglevel'', JStr ''warning'')]),
      (''inbounds'', JArr [socks_inbound SOCKS_TAG port udp]),
      (''outbounds'', JArr outbounds)]"

definition buildEntryOnlyConfig :: "hop_spec \<Rightarrow> js \<Rightarrow> js result" where
  "buildEntryOnlyConfig entryHop socksPort =
     (case as_int socksPort of
        None \<Rightarrow> throw (''Multihop provisioning proxy: invalid port '' @ to_string socksPort)
      | Some port \<Rightarrow>
          if port \<le> 0 \<or> port > 65535
          then throw (''Multihop provisioning proxy: invalid port '' @ to_string socksPort)
          else and_then (requireEntry entryHop Entry) (\<lambda>entryMeta.
               and_then (firstAddress entryHop Entry) (\<lambda>entryAddress.
               ok (chain_config port False
                 [buildHopOutbound entryHop entryMeta entryAddress ENTRY_TAG None]))))"

definition buildMultihopConfig :: "hop_spec \<Rightarrow> hop_spec \<Rightarrow> js result" where
  "buildMultihopConfig entryHop exitHop =
     and_then (requireEntry entryHop Entry) (\<lambda>entryMeta.
     and_then (requireEntry exitHop Exit) (\<lambda>exitMeta.
     and_then (firstAddress entryHop Entry) (\<lambda>entryAddress.
     and_then (firstAddress exitHop Exit) (\<lambda>exitAddress.
     ok (chain_config SOCKS_PORT True
       [buildHopOutbound exitHop exitMeta exitAddress EXIT_TAG (Some ENTRY_TAG),
        buildHopOutbound entryHop entryMeta entryAddress ENTRY_TAG None])))))"

section \<open>Selection\<close>

lemma prefer_wrapped_None: "prefer_wrapped ms = None \<longleftrightarrow> ms = []"
  by (auto simp: prefer_wrapped_def split: option.splits list.splits)

lemma prefer_wrapped_set: "prefer_wrapped ms = Some m \<Longrightarrow> m \<in> set ms"
  by (auto simp: prefer_wrapped_def dest: find_Some_set split: option.splits list.splits)

lemma prefer_wrapped_best:
  "prefer_wrapped ms = Some m \<Longrightarrow> n \<in> set ms \<Longrightarrow> is_reality n \<Longrightarrow> is_reality m"
  by (auto simp: prefer_wrapped_def is_reality_def find_None_set dest: find_Some_set
      split: option.splits list.splits)

lemma hop_usable_metadata: "hop_usable (spec\<lparr>hs_metadata := ms\<rparr>) role = hop_usable spec role"
  by (simp add: fun_eq_iff hop_usable_def isShapeUsable_def)

lemma selectHopEntry_eq: "selectHopEntry spec role = prefer_wrapped (filter (hop_usable spec role) (hs_metadata spec))"
  by (auto simp: selectHopEntry_def Let_def prefer_wrapped_None [THEN iffD2])

interpretation hop_sel: entry_selector
  "\<lambda>ms. selectHopEntry (spec\<lparr>hs_metadata := ms\<rparr>) role" "hop_usable spec role" is_reality for spec role
proof
  fix ms m assume "selectHopEntry (spec\<lparr>hs_metadata := ms\<rparr>) role = Some m"
  then show "m \<in> set ms \<and> hop_usable spec role m"
    by (auto simp: selectHopEntry_eq hop_usable_metadata dest!: prefer_wrapped_set)
next
  fix ms m assume "m \<in> set ms" "hop_usable spec role m"
  then show "selectHopEntry (spec\<lparr>hs_metadata := ms\<rparr>) role \<noteq> None"
    by (auto simp: selectHopEntry_eq hop_usable_metadata prefer_wrapped_None filter_empty_conv simp del: not_None_eq)
next
  fix ms m n assume "selectHopEntry (spec\<lparr>hs_metadata := ms\<rparr>) role = Some m" "n \<in> set ms"
    "hop_usable spec role n" "is_reality n"
  then show "is_reality m"
    by (auto simp: selectHopEntry_eq hop_usable_metadata elim!: prefer_wrapped_best)
qed

lemma selectHopEntry_usable:
  "selectHopEntry spec role = Some m \<Longrightarrow> m \<in> set (hs_metadata spec) \<and> hop_usable spec role m"
  using hop_sel.picks_usable [where spec = spec and ms = "hs_metadata spec" and role = role and m = m] by simp

lemma requireEntry_ok: "requireEntry spec role = ok m \<longleftrightarrow> selectHopEntry spec role = Some m"
proof -
  have "hs_metadata spec = [] \<Longrightarrow> selectHopEntry spec role = None"
    by (simp add: selectHopEntry_eq prefer_wrapped_None)
  then show ?thesis by (auto simp: requireEntry_def Let_def split: option.splits)
qed

lemma firstAddress_ok: "firstAddress spec role = ok a \<longleftrightarrow> first_nonempty (hs_addrs spec) = Some a"
  by (auto simp: firstAddress_def split: option.splits)

section \<open>The outbounds\<close>

definition hop_network :: "js \<Rightarrow> js" where
  "hop_network ob = jget ''network'' (jget ''streamSettings'' ob)"

lemma hop_outbound_fields:
  "jget ''tag'' (buildHopOutbound spec m a tag d) = JStr tag"
  "jget ''proxySettings'' (buildHopOutbound spec m a tag None) = JUndef"
  "t \<noteq> [] \<Longrightarrow> jget ''tag'' (jget ''proxySettings'' (buildHopOutbound spec m a tag (Some t))) = JStr t"
  "jget ''vnext'' (jget ''settings'' (buildHopOutbound spec m a tag d)) =
     JArr [JObj [(''address'', JStr a), (''port'', case parsePort (hm_port m) of None \<Rightarrow> JNull | Some i \<Rightarrow> JNum (NInt i)),
       (''users'', JArr [if hm_proxy_protocol m = PROXY_VLESS
          then JObj [(''id'', JStr (hs_uuid spec)), (''encryption'', JStr ''none''), (''flow'', flow_of m)]
          else JObj [(''id'', JStr (hs_uuid spec)), (''alterId'', JNum (NInt 0))]])]]"
  by (simp_all add: buildHopOutbound_def Let_def split: option.splits)

lemma hop_outbound_security:
  "hm_transport_security m = SECURITY_REALITY \<Longrightarrow>
     jget ''security'' (jget ''streamSettings'' (buildHopOutbound spec m a tag d)) = JStr ''reality'' \<and>
     jget ''realitySettings'' (jget ''streamSettings'' (buildHopOutbound spec m a tag d)) = reality_settings m"
  "hm_transport_security m = SECURITY_TLS \<Longrightarrow>
     jget ''security'' (jget ''streamSettings'' (buildHopOutbound spec m a tag d)) = JStr ''tls'' \<and>
     jget ''tlsSettings'' (jget ''streamSettings'' (buildHopOutbound spec m a tag d)) =
       tls_settings m (normalizeTlsPin (hm_tls_pin m))"
  by (simp_all add: buildHopOutbound_def Let_def SECURITY_REALITY_def SECURITY_TLS_def)

lemma hop_outbound_authenticated:
  assumes "hop_usable spec role m"
  shows "authenticated (buildHopOutbound spec m a tag d)"
proof (cases "hm_transport_security m = SECURITY_REALITY")
  case True
  then have "hm_transport_security m \<noteq> SECURITY_TLS" by (simp add: SECURITY_REALITY_def SECURITY_TLS_def)
  with True assms obtain key name where "hm_reality_public_key m = Some key" "hm_reality_server_name m = Some name"
    "trim name \<noteq> ''''" "length (b64_dec (from_url_alphabet (trim key))) = 32"
    using usable_reality_key [of m] by (auto simp: hop_usable_def split: if_splits)
  with True show ?thesis
    by (auto simp: authenticated_def Let_def hop_outbound_security reality_settings_def js_or_empty_def)
next
  case False
  with assms have tls: "hm_transport_security m = SECURITY_TLS"
    by (auto simp: hop_usable_def isShapeUsable_def isChainGradeSecurity_def split: if_splits option.splits)
  with assms obtain h where "normalizeTlsPin (hm_tls_pin m) = Some h"
    by (auto simp: hop_usable_def split: if_splits)
  with tls hop_pin.sound show ?thesis
    by (auto simp: authenticated_def Let_def hop_outbound_security tls_settings_def js_or_null_def)
qed

lemma exit_network:
  "hop_usable spec Exit m \<Longrightarrow> hop_network (buildHopOutbound spec m a tag d) = JStr ''tcp''"
  by (auto simp: hop_usable_def isShapeUsable_def hop_network_def buildHopOutbound_def Let_def
      EXIT_TRANSPORTS_def NETWORK_BY_TRANSPORT_def split: if_splits option.splits)

lemma buildMultihopConfig_ok:
  "buildMultihopConfig e x = ok cfg \<longleftrightarrow>
     (\<exists>em xm ea xa. selectHopEntry e Entry = Some em \<and> selectHopEntry x Exit = Some xm \<and>
        first_nonempty (hs_addrs e) = Some ea \<and> first_nonempty (hs_addrs x) = Some xa \<and>
        cfg = chain_config SOCKS_PORT True
          [buildHopOutbound x xm xa EXIT_TAG (Some ENTRY_TAG), buildHopOutbound e em ea ENTRY_TAG None])"
  by (auto simp: buildMultihopConfig_def and_then_eq_ok requireEntry_ok firstAddress_ok)

lemma chain_config_fields:
  "jget ''outbounds'' (chain_config p u obs) = JArr obs"
  "jget ''inbounds'' (chain_config p u obs) = JArr [socks_inbound SOCKS_TAG p u]"
  "jget ''log'' (chain_config p u obs) = JObj [(''loglevel'', JStr ''warning'')]"
  "jget ''server'' (chain_config p u obs) = JUndef"
  "jget ''routing'' (chain_config p u obs) = JUndef"
  by (simp_all add: chain_config_def)

lemma chain_config_guard: "obs \<noteq> [] \<Longrightarrow> assertSafeV2RayConfig (chain_config p u obs) = ok ()"
  using chain_config_fields [of p u obs]
  by (simp add: chain_config_def guard_ok_iff Let_def guard_no_log_path guard_socks_inbound del: jget.simps)

text \<open>
  A chained config (\<open>buildMultihopConfig\<close>) has exactly two outbounds, the exit first, so that the
  core's default egress is the exit: the exit dials through the entry, the entry dials directly, both
  authenticate their node by a pinned certificate or a usable Reality key, and the exit uses plain
  TCP. The config guard accepts it.
\<close>

theorem multihop_build_safe:
  assumes "buildMultihopConfig e x = ok cfg"
  shows "assertSafeV2RayConfig cfg = ok () \<and>
    (\<exists>exit_ob entry_ob ea xa. jget ''outbounds'' cfg = JArr [exit_ob, entry_ob] \<and>
       dialled cfg = [xa, ea] \<and> ea \<in> set (hs_addrs e) \<and> xa \<in> set (hs_addrs x) \<and>
       jget ''tag'' (jget ''proxySettings'' exit_ob) = jget ''tag'' entry_ob \<and>
       jget ''proxySettings'' entry_ob = JUndef \<and>
       authenticated exit_ob \<and> authenticated entry_ob \<and> hop_network exit_ob = JStr ''tcp'')"
proof -
  obtain em xm ea xa where s: "selectHopEntry e Entry = Some em" "selectHopEntry x Exit = Some xm"
    "first_nonempty (hs_addrs e) = Some ea" "first_nonempty (hs_addrs x) = Some xa"
    and cfg: "cfg = chain_config SOCKS_PORT True
      [buildHopOutbound x xm xa EXIT_TAG (Some ENTRY_TAG), buildHopOutbound e em ea ENTRY_TAG None]"
    using assms unfolding buildMultihopConfig_ok by blast
  have u: "hop_usable e Entry em" "hop_usable x Exit xm"
    using selectHopEntry_usable s by blast+
  have "assertSafeV2RayConfig cfg = ok ()" unfolding cfg by (rule chain_config_guard) simp
  moreover have "dialled cfg = [xa, ea]"
    by (simp add: cfg dialled_def chain_config_fields hop_outbound_fields)
  moreover have "ENTRY_TAG \<noteq> []" by (simp add: ENTRY_TAG_def)
  ultimately show ?thesis
    using hop_outbound_authenticated [OF u(1)] hop_outbound_authenticated [OF u(2)] exit_network [OF u(2)]
      first_nonempty_Some [OF s(3)] first_nonempty_Some [OF s(4)] cfg
    by (auto simp: chain_config_fields hop_outbound_fields)
qed

section \<open>The endpoint and the DNS egress of a chain\<close>

lemma extract_outbounds:
  assumes "jget ''server'' cfg = JUndef" and "elems (jget ''outbounds'' cfg) = ob1 # ob2 # rest"
    and "truthy (jget ''proxySettings'' ob1)" and "\<not> truthy (jget ''proxySettings'' ob2)"
    and "addressOf ob2 = Some a"
  shows "extractV2RayRemoteHost resolve cfg = resolve a"
  using assms by (simp add: extractV2RayRemoteHost_def Let_def)

lemma jget_pin_outbound_other:
  "k \<noteq> ''settings'' \<Longrightarrow> is_object ob \<Longrightarrow> \<not> is_array ob \<Longrightarrow> jget k (pin_outbound resolve ob) = jget k ob"
  by (cases ob) (auto simp: pin_outbound_def Let_def split: js.splits)

lemma addressOf_pinned:
  assumes "jget ''vnext'' (jget ''settings'' ob) = JArr (JObj fs # vs)" and "jget ''address'' (JObj fs) = JStr a"
  shows "addressOf (pin_outbound resolve ob) =
    (if pinned_to resolve a \<notin> {[], ''127.0.0.1''} then Some (pinned_to resolve a) else None)"
proof -
  have "head_elem (jget ''vnext'' (jget ''settings'' (pin_outbound resolve ob))) = pin_vnext resolve (JObj fs)"
    using vnext_pin_outbound [of resolve ob] assms(1) by (simp add: head_elem_def)
  then show ?thesis
    using address_pin_vnext [of resolve "JObj fs"] assms(2) by (simp add: addressOf_def)
qed

lemma hop_outbound_object: "is_object (buildHopOutbound s m a t d) \<and> \<not> is_array (buildHopOutbound s m a t d)"
  by (simp add: buildHopOutbound_def Let_def)

text \<open>The outbounds of a chained config after the transforms of \<open>prepareV2Ray\<close>.\<close>

lemma prepared_chain:
  assumes "prepareV2Ray resolve doh (chain_config p u obs) = ok fin"
  shows "jget ''server'' fin = JUndef"
    and "\<exists>rest. elems (jget ''outbounds'' fin) = map (pin_outbound resolve) obs @ rest"
proof -
  let ?c = "withV2RayDiagnosticLog (chain_config p u obs)"
  obtain fs gs where fs: "?c = JObj fs" and gs: "pinV2RayNodeAddresses resolve (JObj fs) = JObj gs"
    and fin: "fin = JObj gs \<or> (\<exists>ip. doh = Some ip \<and> fin = withV2RayDoH (JObj gs) ip)"
    using prepareV2Ray_ok [OF assms] by blast
  have c: "jget k (JObj fs) = jget k (chain_config p u obs)" if "k \<noteq> ''log''" for k
    using jget_diag [OF that, of "chain_config p u obs"] fs by (simp add: chain_config_def)
  have o: "jget ''outbounds'' (JObj gs) = JArr (map (pin_outbound resolve) obs)"
    using jget_pin_outbounds [of resolve fs] gs c [of "''outbounds''"] by (simp add: chain_config_fields)
  have "jget ''server'' (JObj gs) = JUndef"
    using jget_pin [of "''server''" resolve fs] gs c [of "''server''"] by (simp add: chain_config_fields)
  then show "jget ''server'' fin = JUndef"
    using fin jget_doh_other [of "''server''" gs] by auto
  show "\<exists>rest. elems (jget ''outbounds'' fin) = map (pin_outbound resolve) obs @ rest"
    using fin
  proof
    assume "\<exists>ip. doh = Some ip \<and> fin = withV2RayDoH (JObj gs) ip"
    then obtain ip where "fin = withV2RayDoH (JObj gs) ip" by blast
    then show ?thesis
      using o by (cases "known_doh ip") (simp_all add: jget_doh_outbounds doh_unknown del: jget.simps)
  qed (use o in simp)
qed

lemma prepare_chain_ok:
  assumes "obs \<noteq> []"
  shows "\<exists>fin. prepareV2Ray resolve doh (chain_config p u obs) = ok fin"
proof -
  obtain fs where fs: "withV2RayDiagnosticLog (chain_config p u obs) = JObj fs" using diag_object by blast
  have c: "jget k (JObj fs) = jget k (chain_config p u obs)" if "k \<noteq> ''log''" for k
    using jget_diag [OF that, of "chain_config p u obs"] fs by (simp add: chain_config_def)
  have "assertSafeV2RayConfig (JObj fs) = ok ()"
    using assms diag_log [of "chain_config p u obs"] c [of "''outbounds''"] c [of "''inbounds''"]
    by (simp add: fs guard_ok_iff Let_def chain_config_fields guard_socks_inbound del: jget.simps)
  then have "assertSafeV2RayConfig (pinV2RayNodeAddresses resolve (JObj fs)) = ok ()" by (simp add: guard_pin)
  then show ?thesis by (simp add: prepareV2Ray_def Let_def fs)
qed

text \<open>
  Of a running chain, the only address the host reveals is the entry's: the endpoint that the
  bypass route and the kill switch let through (\<open>extractV2RayRemoteHost\<close> on the file that was
  written) is the entry node's address as the resolver pinned it, never the exit's, whatever DNS
  answered before and whichever resolver is injected.
\<close>

theorem multihop_endpoint_is_entry:
  assumes "buildMultihopConfig e x = ok cfg"
    and "prepareV2Ray (resolve_now getent earlier) doh cfg = ok fin"
    and "first_nonempty (hs_addrs e) = Some ea" and "pinned_to (resolve_now getent earlier) ea \<noteq> ''127.0.0.1''"
  shows "extractV2RayRemoteHost (resolve_now getent earlier) fin = resolve_now getent earlier ea"
proof -
  let ?r = "resolve_now getent earlier"
  obtain em xm xa where cfg: "cfg = chain_config SOCKS_PORT True
      [buildHopOutbound x xm xa EXIT_TAG (Some ENTRY_TAG), buildHopOutbound e em ea ENTRY_TAG None]"
    using assms(1,3) unfolding buildMultihopConfig_ok by auto
  let ?xo = "buildHopOutbound x xm xa EXIT_TAG (Some ENTRY_TAG)" and ?eo = "buildHopOutbound e em ea ENTRY_TAG None"
  obtain rest where server: "jget ''server'' fin = JUndef"
    and outs: "elems (jget ''outbounds'' fin) = pin_outbound ?r ?xo # pin_outbound ?r ?eo # rest"
    using prepared_chain [OF assms(2) [unfolded cfg]] by auto
  have "jget ''proxySettings'' (pin_outbound ?r ?xo) = JObj [(''tag'', JStr ENTRY_TAG)]"
    using jget_pin_outbound_other [of "''proxySettings''" ?xo ?r] hop_outbound_object [of x xm xa EXIT_TAG]
    by (simp add: buildHopOutbound_def Let_def ENTRY_TAG_def)
  then have px: "truthy (jget ''proxySettings'' (pin_outbound ?r ?xo))" by simp
  have pe: "\<not> truthy (jget ''proxySettings'' (pin_outbound ?r ?eo))"
    using jget_pin_outbound_other [of "''proxySettings''" ?eo ?r] hop_outbound_object [of e em ea ENTRY_TAG]
    by (simp add: hop_outbound_fields)
  have "ea \<noteq> []" using first_nonempty_Some [OF assms(3)] by simp
  then have "pinned_to ?r ea \<noteq> []" by (auto simp: pinned_to_def split: option.splits)
  then have a: "addressOf (pin_outbound ?r ?eo) = Some (pinned_to ?r ea)"
    using addressOf_pinned [OF hop_outbound_fields(4)] assms(4) by simp
  show ?thesis
    using extract_outbounds [OF server outs px pe a] live.pinned_resolves_alike by simp
qed

text \<open>
  DNS of a chain leaves through the exit: with DNS over HTTPS injected into a chained config, the
  lookups of the user's programs go to the DNS module and the module's own queries go to the exit
  outbound.
\<close>

theorem multihop_dns_via_exit:
  assumes "buildMultihopConfig e x = ok cfg" and "known_doh ip"
  shows "route (withV2RayDoH cfg ip) SOCKS_TAG 53 = Some (JStr ''dns-out'', JUndef) \<and>
    route (withV2RayDoH cfg ip) ''dns-module'' p = Some (JStr EXIT_TAG, JUndef)"
proof -
  obtain em xm ea xa where cfg: "cfg = chain_config SOCKS_PORT True
      [buildHopOutbound x xm xa EXIT_TAG (Some ENTRY_TAG), buildHopOutbound e em ea ENTRY_TAG None]"
    using assms(1) unfolding buildMultihopConfig_ok by blast
  obtain fs where fs: "cfg = JObj fs" by (simp add: cfg chain_config_def)
  have tags: "interceptTags (JObj fs) = [SOCKS_TAG]"
    unfolding fs [symmetric] cfg
    by (simp add: interceptTags_def chain_config_fields socks_inbound_def tagOf_def Let_def)
  have r: "routing_of (JObj fs) = JObj []"
    unfolding fs [symmetric] cfg by (simp add: routing_of_def chain_config_fields)
  have "tagOf (head_elem (jget ''outbounds'' (JObj fs))) = Some EXIT_TAG"
    unfolding fs [symmetric] cfg
    using hop_outbound_object [of x xm xa EXIT_TAG "Some ENTRY_TAG"]
    by (simp add: chain_config_fields head_elem_def tagOf_def hop_outbound_fields)
  then have "doh_egress (JObj fs) (JObj []) [] [SOCKS_TAG] = Some [(''outboundTag'', JStr EXIT_TAG)]"
    by (simp add: doh_egress_def head_elem_def tagOf_def nonempty_def EXIT_TAG_def)
  then show ?thesis
    using doh_route_parts(1) [OF assms(2), of SOCKS_TAG fs]
      doh_route_parts(3) [OF assms(2), of SOCKS_TAG fs "[(''outboundTag'', JStr EXIT_TAG)]" p] tags r
    by (simp add: fs SOCKS_TAG_def target_def)
qed

section \<open>Grading before the purchase\<close>

text \<open>The part of an entry's check that the public listing cannot answer: the port and the key material.\<close>

definition hop_keys_ok :: "hop_meta \<Rightarrow> bool" where
  "hop_keys_ok m \<longleftrightarrow>
     parsePort (hm_port m) \<noteq> None \<and>
     (hm_transport_security m = SECURITY_TLS \<longrightarrow> normalizeTlsPin (hm_tls_pin m) \<noteq> None) \<and>
     (hm_transport_security m = SECURITY_REALITY \<longrightarrow> isUsableReality m)"

definition gradeable :: "hop_protocol \<Rightarrow> hop_role \<Rightarrow> hop_meta \<Rightarrow> bool" where
  "gradeable protocol role m \<longleftrightarrow>
     (case transportName protocol (hm_transport_protocol m) of
        None \<Rightarrow> False
      | Some n \<Rightarrow> map_of NETWORK_BY_TRANSPORT n \<noteq> None \<and> (role = Exit \<longrightarrow> n \<in> set EXIT_TRANSPORTS)) \<and>
     isChainGradeSecurity m"

lemma hop_usable_split: "hop_usable spec role m \<longleftrightarrow> gradeable (hs_protocol spec) role m \<and> hop_keys_ok m"
  by (auto simp: hop_usable_def isShapeUsable_def gradeable_def hop_keys_ok_def split: option.splits)

definition grade_of :: "hop_role \<Rightarrow> hop_eligibility \<Rightarrow> bool" where
  "grade_of role g = (if role = Exit then he_exit g else he_entry g)"

definition wrapping_of :: "hop_role \<Rightarrow> hop_eligibility \<Rightarrow> wrapping option" where
  "wrapping_of role g = (if role = Exit then he_exitSecurity g else he_entrySecurity g)"

lemma classify_eq:
  "grade_of role (classifyHopEligibility p ms) \<longleftrightarrow> (\<exists>m \<in> set ms. gradeable p role m)"
  "wrapping_of role (classifyHopEligibility p ms) =
     map_option (\<lambda>m. if is_reality m then WrapReality else WrapTls) (prefer_wrapped (filter (gradeable p role) ms))"
proof -
  let ?u = "filter (\<lambda>m. (case transportName p (hm_transport_protocol m) of None \<Rightarrow> False
              | Some n \<Rightarrow> map_of NETWORK_BY_TRANSPORT n \<noteq> None) \<and> isChainGradeSecurity m) ms"
  have e: "?u = filter (gradeable p Entry) ms"
    by (rule filter_cong) (auto simp: gradeable_def split: option.splits)
  have x: "filter (\<lambda>m. case transportName p (hm_transport_protocol m) of None \<Rightarrow> False
              | Some n \<Rightarrow> n \<in> set EXIT_TRANSPORTS) ?u = filter (gradeable p Exit) ms"
    unfolding filter_filter by (rule filter_cong) (auto simp: gradeable_def split: option.splits)
  show "grade_of role (classifyHopEligibility p ms) \<longleftrightarrow> (\<exists>m \<in> set ms. gradeable p role m)"
    "wrapping_of role (classifyHopEligibility p ms) =
       map_option (\<lambda>m. if is_reality m then WrapReality else WrapTls) (prefer_wrapped (filter (gradeable p role) ms))"
    unfolding classifyHopEligibility_def Let_def x unfolding e
    by (cases role; auto simp: grade_of_def wrapping_of_def is_reality_def filter_empty_conv)+
qed

text \<open>
  The grade shown before a purchase (\<open>classifyHopEligibility\<close>) against the builder's own choice
  (\<open>selectHopEntry\<close>), for either end of a chain: a node the builder can use is never graded unusable;
  and when the ports and keys minted in the paid handshake are in order, the grade is exactly what the
  builder finds and the wrapping shown is the wrapping built.
\<close>

theorem grade_predicts_builder:
  "(selectHopEntry spec role = Some m \<longrightarrow> grade_of role (classifyHopEligibility (hs_protocol spec) (hs_metadata spec))) \<and>
   ((\<forall>n \<in> set (hs_metadata spec). hop_keys_ok n) \<longrightarrow>
      (grade_of role (classifyHopEligibility (hs_protocol spec) (hs_metadata spec)) \<longleftrightarrow> selectHopEntry spec role \<noteq> None) \<and>
      wrapping_of role (classifyHopEligibility (hs_protocol spec) (hs_metadata spec)) =
        map_option (\<lambda>m. if is_reality m then WrapReality else WrapTls) (selectHopEntry spec role))"
proof -
  have "filter (hop_usable spec role) (hs_metadata spec) = filter (gradeable (hs_protocol spec) role) (hs_metadata spec)"
    if "\<forall>n \<in> set (hs_metadata spec). hop_keys_ok n"
    by (rule filter_cong) (use that in \<open>auto simp: hop_usable_split\<close>)
  then show ?thesis
    using selectHopEntry_usable [of spec role m]
    by (auto simp: classify_eq selectHopEntry_eq hop_usable_split prefer_wrapped_None filter_empty_conv
        simp del: not_None_eq)
qed

text \<open>
  The provisioning proxy (\<open>buildEntryOnlyConfig\<close>) on a valid port dials the entry exactly as the
  chain will: whenever the chain can be built, the proxy's config can, its only outbound is the
  chain's entry outbound, and the config guard accepts it; and on an invalid port it is refused.
\<close>

theorem entry_only_matches_chain:
  assumes "buildMultihopConfig e x = ok cfg"
  shows "(0 < port \<and> port \<le> 65535 \<longrightarrow>
      (\<exists>cfg1 exit_ob entry_ob. buildEntryOnlyConfig e (JNum (NInt port)) = ok cfg1 \<and>
         jget ''outbounds'' cfg = JArr [exit_ob, entry_ob] \<and> jget ''outbounds'' cfg1 = JArr [entry_ob] \<and>
         assertSafeV2RayConfig cfg1 = ok ())) \<and>
    (\<not> (0 < port \<and> port \<le> 65535) \<longrightarrow> \<not> accepts (buildEntryOnlyConfig e (JNum (NInt port))))"
proof -
  obtain em xm ea xa where "selectHopEntry e Entry = Some em" "first_nonempty (hs_addrs e) = Some ea"
    and cfg: "cfg = chain_config SOCKS_PORT True
      [buildHopOutbound x xm xa EXIT_TAG (Some ENTRY_TAG), buildHopOutbound e em ea ENTRY_TAG None]"
    using assms unfolding buildMultihopConfig_ok by blast
  then have "requireEntry e Entry = ok em" "firstAddress e Entry = ok ea"
    by (simp_all add: requireEntry_ok firstAddress_ok)
  then show ?thesis
    by (auto simp: buildEntryOnlyConfig_def cfg chain_config_fields chain_config_guard)
qed

section \<open>A chain to evaluate the theorems on\<close>

definition sample_hop :: "string \<Rightarrow> hop_spec" where
  "sample_hop address = \<lparr>hs_protocol = HopXray, hs_metadata =
     [\<lparr>hm_port = JNum (NInt 443), hm_proxy_protocol = 1, hm_transport_protocol = 1,
       hm_transport_security = 2, hm_tls_pin = Some (hex_enc (replicate 32 7)), hm_flow = None,
       hm_reality_server_name = None, hm_reality_short_id = None, hm_reality_public_key = None,
       hm_reality_fingerprint = None\<rparr>], hs_addrs = [address], hs_uuid = ''u''\<rparr>"

lemma sample_hop_selected: "\<exists>m. selectHopEntry (sample_hop a) role = Some m"
proof -
  have "list_all (hop_usable (sample_hop a) role) (hs_metadata (sample_hop a))"
    by (cases role; simp add: sample_hop_def hop_usable_def isShapeUsable_def transportName_def XRAY_TRANSPORT_def
        EXIT_TRANSPORTS_def NETWORK_BY_TRANSPORT_def parsePort_def raw_port_def isChainGradeSecurity_def
        enum_defs SECURITY_REALITY_def hop_pin.hex)
  then show ?thesis
    using hop_sel.none_iff [of "hs_metadata (sample_hop a)" "sample_hop a" role]
    by (cases "selectHopEntry (sample_hop a) role") (auto simp: sample_hop_def)
qed

lemma sample_chain: "\<exists>cfg. buildMultihopConfig (sample_hop ''5.6.7.8'') (sample_hop ''9.9.9.9'') = ok cfg"
  using sample_hop_selected [of "''5.6.7.8''" Entry] sample_hop_selected [of "''9.9.9.9''" Exit]
  by (auto simp: buildMultihopConfig_ok sample_hop_def first_nonempty_def)

lemma multihop_build_safe_witness:
  "\<exists>cfg. buildMultihopConfig (sample_hop ''5.6.7.8'') (sample_hop ''9.9.9.9'') = ok cfg \<and> assertSafeV2RayConfig cfg = ok ()"
  using sample_chain multihop_build_safe by blast

lemma multihop_dns_via_exit_witness:
  "\<exists>cfg. buildMultihopConfig (sample_hop ''5.6.7.8'') (sample_hop ''9.9.9.9'') = ok cfg \<and>
     route (withV2RayDoH cfg ''9.9.9.9'') ''dns-module'' 443 = Some (JStr EXIT_TAG, JUndef)"
proof -
  have "known_doh ''9.9.9.9''" by code_simp
  then show ?thesis using sample_chain multihop_dns_via_exit by blast
qed

lemma entry_only_matches_chain_witness:
  "\<exists>cfg. buildEntryOnlyConfig (sample_hop ''5.6.7.8'') (JNum (NInt 1081)) = ok cfg"
proof -
  obtain cfg where "buildMultihopConfig (sample_hop ''5.6.7.8'') (sample_hop ''9.9.9.9'') = ok cfg"
    using sample_chain by blast
  from entry_only_matches_chain [OF this, of 1081] show ?thesis by auto
qed

lemma grade_predicts_builder_witness:
  "grade_of Exit (classifyHopEligibility HopXray (hs_metadata (sample_hop ''5.6.7.8'')))"
  using sample_hop_selected [of "''5.6.7.8''" Exit] grade_predicts_builder [of "sample_hop ''5.6.7.8''" Exit]
  by (auto simp: sample_hop_def)

lemma multihop_endpoint_is_entry_witness:
  "\<exists>cfg fin. buildMultihopConfig (sample_hop ''5.6.7.8'') (sample_hop ''9.9.9.9'') = ok cfg \<and>
     prepareV2Ray (resolve_now (\<lambda>_. None) []) None cfg = ok fin \<and>
     extractV2RayRemoteHost (resolve_now (\<lambda>_. None) []) fin = resolve_now (\<lambda>_. None) [] ''5.6.7.8''"
proof -
  obtain cfg where cfg: "buildMultihopConfig (sample_hop ''5.6.7.8'') (sample_hop ''9.9.9.9'') = ok cfg"
    using sample_chain by blast
  then obtain obs where "obs \<noteq> []" "cfg = chain_config SOCKS_PORT True obs"
    unfolding buildMultihopConfig_ok by blast
  then obtain fin where fin: "prepareV2Ray (resolve_now (\<lambda>_. None) []) None cfg = ok fin"
    using prepare_chain_ok by blast
  have "isIPv4 ''5.6.7.8''" by code_simp
  then have p: "pinned_to (resolve_now (\<lambda>_. None) []) ''5.6.7.8'' \<noteq> ''127.0.0.1''" by (simp add: pinned_to_def)
  have a: "first_nonempty (hs_addrs (sample_hop ''5.6.7.8'')) = Some ''5.6.7.8''"
    by (simp add: sample_hop_def first_nonempty_def)
  show ?thesis using cfg fin multihop_endpoint_is_entry [OF cfg fin a p] by blast
qed

end
