(* ===== verification/HysteriaConfig.thy ===== *)
theory HysteriaConfig
  imports TlsPin
begin

text \<open>
  The Hysteria2 client config builder, \<open>src/main/protocols/hysteria-config.ts\<close>: a config is built
  only from a metadata entry that carries a certificate pin.
\<close>

section \<open>Definitions\<close>

record hysteria_meta =
  hy_port :: js
  hy_tls_pin :: "string option"
  hy_obfs_password :: "string option"

definition isValidTlsPin :: "string \<Rightarrow> bool" where
  "isValidTlsPin pin \<longleftrightarrow> rx_test hex64_rx (remove_char CHR '':'' pin)"

definition pinned_entry :: "hysteria_meta \<Rightarrow> bool" where
  "pinned_entry m \<longleftrightarrow> (case hy_tls_pin m of None \<Rightarrow> False | Some pin \<Rightarrow> isValidTlsPin pin)"

definition selectHysteria2Entry :: "hysteria_meta list \<Rightarrow> hysteria_meta option" where
  "selectHysteria2Entry metadata = find pinned_entry metadata"

definition buildHysteria2Config :: "hysteria_meta list \<Rightarrow> string list \<Rightarrow> string \<Rightarrow> js result" where
  "buildHysteria2Config metadata nodeAddrs uuid =
     (if metadata = [] then throw ''Hysteria2 node returned no service metadata''
      else (case selectHysteria2Entry metadata of
          None \<Rightarrow> throw ''Hysteria2 node offers no TLS-pinned config (an unpinned tunnel would be MITM-able)''
        | Some entry \<Rightarrow>
            (case first_nonempty nodeAddrs of
               None \<Rightarrow> throw ''Hysteria2 handshake returned no node address''
             | Some address \<Rightarrow>
                 (case as_int (raw_port (hy_port entry)) of
                    None \<Rightarrow> throw ''Hysteria2 node returned an invalid port''
                  | Some port \<Rightarrow>
                      if port \<le> 0 \<or> port > 65535 then throw ''Hysteria2 node returned an invalid port''
                      else ok (JObj
                        ([(''server'', JStr (address @ '':'' @ show_int port)),
                          (''auth'', JStr uuid),
                          (''tls'', JObj [(''insecure'', JBool True), (''pinSHA256'', js_or_null (hy_tls_pin entry))]),
                          (''socks5'', JObj [(''listen'', JStr (SOCKS_LISTEN @ '':'' @ show_int SOCKS_PORT))]),
                          (''lazy'', JBool True)] @
                         (case hy_obfs_password entry of
                            None \<Rightarrow> []
                          | Some pw \<Rightarrow>
                              if length pw > 0
                              then [(''obfs'', JObj [(''type'', JStr ''salamander''),
                                (''salamander'', JObj [(''password'', JStr pw)])])]
                              else [])))))))"

section \<open>Lemmas\<close>

interpretation hysteria_sel: entry_selector selectHysteria2Entry pinned_entry "\<lambda>_. True"
proof
  fix ms m assume "selectHysteria2Entry ms = Some m"
  then show "m \<in> set ms \<and> pinned_entry m" by (auto simp: selectHysteria2Entry_def dest: find_Some_set)
next
  fix ms m assume "m \<in> set ms" "pinned_entry m"
  then show "selectHysteria2Entry ms \<noteq> None"
    by (auto simp: selectHysteria2Entry_def find_None_set simp del: not_None_eq)
qed simp

lemma valid_pin_same: "isValidTlsPin = isHexCertPin"
  by (simp add: fun_eq_iff isValidTlsPin_def isHexCertPin_def)

text \<open>The config built for the server \<open>s\<close>; \<open>fs\<close> is the obfuscation block, if any.\<close>

definition hysteria_json :: "string \<Rightarrow> string \<Rightarrow> string \<Rightarrow> (string \<times> js) list \<Rightarrow> js" where
  "hysteria_json s uuid pin fs = JObj
     ([(''server'', JStr s), (''auth'', JStr uuid),
       (''tls'', JObj [(''insecure'', JBool True), (''pinSHA256'', JStr pin)]),
       (''socks5'', JObj [(''listen'', JStr (SOCKS_LISTEN @ '':'' @ show_int SOCKS_PORT))]),
       (''lazy'', JBool True)] @ fs)"

lemma buildHysteria2Config_ok:
  "buildHysteria2Config ms addrs uuid = ok cfg \<Longrightarrow>
     \<exists>m pin a port fs. selectHysteria2Entry ms = Some m \<and> hy_tls_pin m = Some pin \<and> isValidTlsPin pin \<and>
       first_nonempty addrs = Some a \<and> parsePort (hy_port m) = Some port \<and>
       cfg = hysteria_json (a @ '':'' @ show_int port) uuid pin fs \<and> fst ` set fs \<subseteq> {''obfs''}"
  using hysteria_sel.picks_usable [of ms]
  by (auto simp: buildHysteria2Config_def js_or_null_def pinned_entry_def parsePort_def hysteria_json_def
      split: if_splits option.splits)

lemma port_rx:
  assumes "parsePort p = Some port"
  shows "rx_test (cls_between is_digit 1 5) (show_int port) \<and> CHR '':'' \<notin> set (show_int port)"
proof -
  have port: "0 < port" "port \<le> 65535"
    using assms by (auto simp: parsePort_def split: option.splits if_splits)
  then have "list_all is_digit (show_int port)" by (simp add: show_int_nonneg)
  then show ?thesis
    using port show_int_rx [of port 5] by (auto simp: list_all_iff is_digit_def char_le_iff)
qed

lemma server_rx_iff:
  assumes "rx_test (cls_between is_digit 1 5) d" and "CHR '':'' \<notin> set d"
  shows "rx_test hy_server_rx (a @ '':'' @ d) \<longleftrightarrow> a \<noteq> [] \<and> list_all hy_host_char a"
proof
  assume "rx_test hy_server_rx (a @ '':'' @ d)"
  then obtain u v where e: "a @ CHR '':'' # d = u @ CHR '':'' # v"
    and u: "u \<in> lang (cls_plus hy_host_char)" and v: "v \<in> lang (cls_between is_digit 1 5)"
    by (auto simp: hy_server_rx_def rx_test_correct Suc_length_conv)
  have "CHR '':'' \<notin> set v" using v by (auto simp: list_all_iff is_digit_def char_le_iff)
  then have "length a = length u"
    using e assms(2) last_index_of_append [of "CHR '':''" d a] last_index_of_append [of "CHR '':''" v u] by simp
  with e u show "a \<noteq> [] \<and> list_all hy_host_char a" by auto
next
  assume a: "a \<noteq> [] \<and> list_all hy_host_char a"
  then have "a \<in> lang (cls_plus hy_host_char)" by (auto simp: Suc_le_eq)
  moreover have "[CHR '':''] \<in> lang (chr CHR '':'')" by simp
  moreover have "d \<in> lang (cls_between is_digit 1 5)" using assms(1) by (simp add: rx_test_correct)
  ultimately have "a @ [CHR '':''] @ d \<in> lang hy_server_rx"
    unfolding hy_server_rx_def by (intro lang_SeqI)
  then show "rx_test hy_server_rx (a @ '':'' @ d)"
    by (intro rx_testI) (simp_all add: hy_server_rx_def)
qed

lemma dotted_digits_chars:
  assumes "dotted_digits s" and "c \<in> set s"
  shows "is_digit c \<or> c = CHR ''.''"
proof -
  have "c \<in> set (join ''.'' (split_on CHR ''.'' s))" using assms(2) by (simp add: join_split_on)
  then have "c = CHR ''.'' \<or> (\<exists>g \<in> set (split_on CHR ''.'' s). c \<in> set g)"
    using set_join_subset [of "''.''" "split_on CHR ''.'' s"] by auto
  with assms(1) show ?thesis by (auto simp: dotted_digits_def Let_def list_all_iff)
qed

section \<open>Properties\<close>

lemma hysteria_guard_built:
  assumes "cfg = hysteria_json s uuid pin fs"
    and "fst ` set fs \<subseteq> {''obfs''}" and "isValidTlsPin pin"
  shows "assertSafeHysteria2Config cfg = ok () \<longleftrightarrow> rx_test hy_server_rx s"
proof -
  have k: "''acl'' \<notin> fst ` set fs" "''outbounds'' \<notin> fst ` set fs" using assms(2) by auto
  have "CHR '':'' \<notin> set (show_int SOCKS_PORT)" and "SOCKS_LISTEN \<noteq> []"
    using show_int_nonneg [of SOCKS_PORT]
    by (auto simp: SOCKS_PORT_def SOCKS_LISTEN_def list_all_iff is_digit_def char_le_iff)
  then have "hostOfListen (SOCKS_LISTEN @ '':'' @ show_int SOCKS_PORT) = SOCKS_LISTEN"
    using last_index_of_append [of "CHR '':''" "show_int SOCKS_PORT" SOCKS_LISTEN]
    by (simp add: hostOfListen_def starts_with_def SOCKS_LISTEN_def)
  with k assms(3) show ?thesis
    by (simp add: assms(1) hysteria_json_def hysteria_guard_ok_iff valid_pin_same SOCKS_LISTEN_def V2RAY_LOOPBACK_def)
qed

text \<open>
  A Hysteria2 config is built only from an entry with a certificate pin, for the first address the
  node returned (\<open>buildHysteria2Config\<close>); and the guard that runs before the core is spawned
  (\<open>assertSafeHysteria2Config\<close>) accepts it exactly when that address consists of letters, digits,
  dots and dashes, so that a node reached by an IPv6 literal is built for and then refused.
\<close>

theorem hysteria_build_guarded:
  assumes "buildHysteria2Config ms addrs uuid = ok cfg"
  shows "\<exists>m pin a. m \<in> set ms \<and> hy_tls_pin m = Some pin \<and> isHexCertPin pin \<and>
    jget ''pinSHA256'' (jget ''tls'' cfg) = JStr pin \<and> first_nonempty addrs = Some a \<and>
    (assertSafeHysteria2Config cfg = ok () \<longleftrightarrow> list_all hy_host_char a)"
proof -
  obtain m pin a port fs where m: "selectHysteria2Entry ms = Some m" and pin: "hy_tls_pin m = Some pin"
    "isValidTlsPin pin" and a: "first_nonempty addrs = Some a" and port: "parsePort (hy_port m) = Some port"
    and cfg: "cfg = hysteria_json (a @ '':'' @ show_int port) uuid pin fs" and fs: "fst ` set fs \<subseteq> {''obfs''}"
    using buildHysteria2Config_ok [OF assms] by blast
  have "assertSafeHysteria2Config cfg = ok () \<longleftrightarrow> a \<noteq> [] \<and> list_all hy_host_char a"
    using hysteria_guard_built [OF cfg fs pin(2)] port_rx [OF port] server_rx_iff by simp
  moreover have "jget ''pinSHA256'' (jget ''tls'' cfg) = JStr pin" by (simp add: cfg hysteria_json_def)
  ultimately show ?thesis
    using m hysteria_sel.picks_usable pin a first_nonempty_Some [OF a] by (auto simp: valid_pin_same)
qed

text \<open>
  The endpoint of a running Hysteria2 tunnel (\<open>extractV2RayRemoteHost\<close> on what
  \<open>connectHysteria2FromConfig\<close> wrote) is the node's address as resolved for the pinning, so the
  bypass route and the kill switch name the host the core dials.
\<close>

theorem hysteria_endpoint:
  assumes "buildHysteria2Config ms addrs uuid = ok cfg"
    and "prepareHysteria2 (resolve_now getent earlier) cfg = ok fin"
    and "first_nonempty addrs = Some a" and "resolve_now getent earlier a = Some ip" and "ip \<noteq> ''127.0.0.1''"
  shows "extractV2RayRemoteHost (resolve_now getent earlier) fin = Some ip \<and>
    (\<exists>port. jget ''server'' fin = JStr (ip @ '':'' @ port))"
proof -
  let ?r = "resolve_now getent earlier"
  obtain m :: hysteria_meta and pin a' port fs where a: "first_nonempty addrs = Some a'" and port: "parsePort (hy_port m) = Some port"
    and "cfg = hysteria_json (a' @ '':'' @ show_int port) uuid pin fs"
    using buildHysteria2Config_ok [OF assms(1)] by blast
  moreover from a assms(3) have "a' = a" by simp
  ultimately have cfg: "cfg = hysteria_json (a @ '':'' @ show_int port) uuid pin fs"
    by simp
  have p: "CHR '':'' \<notin> set (show_int port)" using port_rx [OF port] by blast
  have "last_index_of CHR '':'' (a @ '':'' @ show_int port) = Some (length a)"
    using last_index_of_append [OF p] by simp
  moreover have "a \<noteq> []" using first_nonempty_Some [OF assms(3)] by simp
  moreover have ip: "dotted_digits ip" using live.answers_dotted [OF assms(4)] .
  then have "ip \<noteq> []" by auto
  ultimately have fin: "fin = jset ''server'' (JStr (ip @ '':'' @ show_int port)) cfg"
    using assms(2,4) by (simp add: prepareHysteria2_def Let_def and_then_eq_ok cfg hysteria_json_def)
  have "CHR ''['' \<notin> set ip" using dotted_digits_chars [OF ip, of "CHR ''[''"] by (auto simp: is_digit_def char_le_iff)
  then have "\<not> starts_with ''['' ip" by (cases ip) (auto simp: starts_with_def)
  then have "server_host (ip @ '':'' @ show_int port) = ip"
    using last_index_of_append [OF p, of ip] \<open>ip \<noteq> []\<close>
    by (cases ip) (simp_all add: server_host_def starts_with_def)
  then show ?thesis
    using fin \<open>ip \<noteq> []\<close> assms(5) live.literal [OF ip] by (simp add: extractV2RayRemoteHost_def Let_def cfg hysteria_json_def)
qed

definition sample_hysteria :: hysteria_meta where
  "sample_hysteria = \<lparr>hy_port = JStr ''443'', hy_tls_pin = Some (hex_enc (replicate 32 7)), hy_obfs_password = None\<rparr>"

lemma sample_hysteria_built:
  "\<exists>cfg. buildHysteria2Config [sample_hysteria] [''5.6.7.8''] ''u'' = ok cfg"
proof -
  have h: "lower_hex64 (hex_enc (replicate 32 7))" by (rule lower_hex64_enc) simp
  then have "\<forall>c \<in> set (hex_enc (replicate 32 7)). is_hex c" by (simp add: lower_hex64_def list_all_iff)
  then have "remove_char CHR '':'' (hex_enc (replicate 32 7)) = hex_enc (replicate 32 7)"
    unfolding remove_char_def by (intro filter_True) (auto simp: class_defs char_le_iff)
  then have "isValidTlsPin (hex_enc (replicate 32 7))"
    using lower_hex64_trim [OF h] by (simp add: isValidTlsPin_def)
  moreover have "parse_int ''443'' = Some 443" by code_simp
  ultimately show ?thesis
    by (simp add: buildHysteria2Config_def selectHysteria2Entry_def pinned_entry_def sample_hysteria_def
        first_nonempty_def raw_port_def)
qed

lemma hysteria_build_guarded_witness:
  "\<exists>cfg. buildHysteria2Config [sample_hysteria] [''5.6.7.8''] ''u'' = ok cfg \<and> assertSafeHysteria2Config cfg = ok ()"
proof -
  obtain cfg where cfg: "buildHysteria2Config [sample_hysteria] [''5.6.7.8''] ''u'' = ok cfg"
    using sample_hysteria_built by blast
  have "list_all hy_host_char ''5.6.7.8''" by code_simp
  with hysteria_build_guarded [OF cfg] cfg show ?thesis by (auto simp: first_nonempty_def)
qed

lemma hysteria_endpoint_witness:
  "\<exists>cfg fin. buildHysteria2Config [sample_hysteria] [''5.6.7.8''] ''u'' = ok cfg \<and>
     prepareHysteria2 (resolve_now (\<lambda>_. None) []) cfg = ok fin \<and>
     extractV2RayRemoteHost (resolve_now (\<lambda>_. None) []) fin = Some ''5.6.7.8''"
proof -
  let ?r = "resolve_now (\<lambda>_. None) []"
  obtain cfg where cfg: "buildHysteria2Config [sample_hysteria] [''5.6.7.8''] ''u'' = ok cfg"
    using sample_hysteria_built by blast
  have d: "dotted_digits ''5.6.7.8''" by code_simp
  have r: "?r ''5.6.7.8'' = Some ''5.6.7.8''" by (rule live.literal [OF d])
  obtain m :: hysteria_meta and pin a port fs where "first_nonempty [''5.6.7.8''] = Some a" and pin: "isValidTlsPin pin"
    and port: "parsePort (hy_port m) = Some port" and fs: "fst ` set fs \<subseteq> {''obfs''}"
    and c: "cfg = hysteria_json (a @ '':'' @ show_int port) ''u'' pin fs"
    using buildHysteria2Config_ok [OF cfg] by blast
  then have a: "a = ''5.6.7.8''" by (simp add: first_nonempty_def)
  have p: "CHR '':'' \<notin> set (show_int port)" using port_rx [OF port] by blast
  have "list_all hy_host_char ''5.6.7.8''" by code_simp
  then have "assertSafeHysteria2Config cfg = ok ()"
    using hysteria_guard_built [OF c fs pin] server_rx_iff [of "show_int port" a] port_rx [OF port] a by simp
  then have "prepareHysteria2 ?r cfg = ok cfg"
    using last_index_of_append [OF p, of a] r
    by (simp add: prepareHysteria2_def Let_def c a hysteria_json_def)
  with hysteria_endpoint [OF cfg this _ r] cfg show ?thesis by (auto simp: first_nonempty_def)
qed

end
