(* ===== verification/V2RayConfig.thy ===== *)
theory V2RayConfig
  imports TlsPin
begin

text \<open>
  The V2Ray client config builder, \<open>src/main/protocols/v2ray-config.ts\<close>: one outbound per inbound of
  the node, balanced by least ping, behind a loopback SOCKS listener.
\<close>

section \<open>Definitions\<close>

record v2_meta = inbound_meta +
  v2_port :: js
  v2_transport_protocol :: int

definition V2_NETWORK_BY_TRANSPORT :: "(int \<times> string) list" where
  "V2_NETWORK_BY_TRANSPORT =
     [(0, ''tcp''), (1, ''domainsocket''), (2, ''gun''), (3, ''grpc''), (4, ''http''), (5, ''kcp''),
      (6, ''quic''), (7, ''tcp''), (8, ''ws'')]"

definition V2RAY_SOCKS_PORT :: int where "V2RAY_SOCKS_PORT = 1080"

definition v2_protocol :: "'a inbound_meta_scheme \<Rightarrow> string" where
  "v2_protocol m = (if im_proxy_protocol m = PROXY_VMESS then ''vmess'' else ''vless'')"

definition v2_security :: "'a inbound_meta_scheme \<Rightarrow> string" where
  "v2_security m = (if im_transport_security m = SECURITY_TLS then ''tls'' else ''none'')"

definition v2_network :: "v2_meta \<Rightarrow> string" where
  "v2_network m =
     (case map_of V2_NETWORK_BY_TRANSPORT (v2_transport_protocol m) of None \<Rightarrow> ''tcp'' | Some n \<Rightarrow> n)"

definition v2_port_num :: "v2_meta \<Rightarrow> js" where
  "v2_port_num m = raw_port (JStr (to_string (v2_port m)))"

definition v2_tag :: "string \<Rightarrow> v2_meta \<Rightarrow> string" where
  "v2_tag address m =
     address @ ''_'' @ to_string (v2_port_num m) @ ''_'' @ v2_protocol m @ ''_'' @ v2_network m @ ''_'' @ v2_security m"

definition v2_outbound :: "string \<Rightarrow> string \<Rightarrow> v2_meta \<Rightarrow> js" where
  "v2_outbound address uuid m =
     (let userEntry = (if v2_protocol m = ''vmess''
            then JObj [(''id'', JStr uuid), (''alterId'', JNum (NInt 0))]
            else JObj [(''id'', JStr uuid), (''encryption'', JStr ''none'')]);
          streamSettings = [(''network'', JStr (v2_network m)), (''security'', JStr (v2_security m))] @
            (if v2_security m = ''tls'' then [(''tlsSettings'', JObj [(''allowInsecure'', JBool True)])] else [])
      in JObj
        [(''protocol'', JStr (v2_protocol m)),
         (''settings'', JObj [(''vnext'', JArr [JObj
            [(''address'', JStr address), (''port'', v2_port_num m), (''users'', JArr [userEntry])]])]),
         (''streamSettings'', JObj streamSettings),
         (''tag'', JStr (v2_tag address m))])"

definition v2_config :: "string \<Rightarrow> string \<Rightarrow> int \<Rightarrow> v2_meta list \<Rightarrow> js" where
  "v2_config address uuid apiPort metadata =
     (let outbounds = map (v2_outbound address uuid) metadata;
          outboundTags = map (v2_tag address) metadata
      in JObj
          [(''api'', JObj [(''services'', JArr [JStr ''StatsService'']), (''tag'', JStr ''api'')]),
           (''inbounds'', JArr
             [JObj [(''listen'', JStr ''127.0.0.1''), (''port'', JNum (NInt apiPort)),
                (''protocol'', JStr ''dokodemo-door''),
                (''settings'', JObj [(''address'', JStr ''127.0.0.1'')]), (''tag'', JStr ''api'')],
              JObj [(''listen'', JStr ''127.0.0.1''), (''port'', JNum (NInt V2RAY_SOCKS_PORT)),
                (''protocol'', JStr ''socks''),
                (''settings'', JObj [(''ip'', JStr ''127.0.0.1''), (''udp'', JBool True)]),
                (''sniffing'', JObj [(''destOverride'', JArr [JStr ''http'', JStr ''tls'']), (''enabled'', JBool True)]),
                (''tag'', JStr ''proxy'')]]),
           (''log'', JObj [(''access'', JStr ''none''), (''error'', JStr ''none''), (''loglevel'', JStr ''none'')]),
           (''outbounds'', JArr outbounds),
           (''policy'', JObj
             [(''levels'', JObj [(''0'', JObj [(''downlinkOnly'', JNum (NInt 0)), (''uplinkOnly'', JNum (NInt 0))])]),
              (''system'', JObj [(''statsOutboundDownlink'', JBool True), (''statsOutboundUplink'', JBool True)])]),
           (''routing'', JObj
             [(''domainStrategy'', JStr ''IPIfNonMatch''),
              (''rules'', JArr
                [JObj [(''inboundTag'', JArr [JStr ''api'']), (''outboundTag'', JStr ''api''), (''type'', JStr ''field'')],
                 JObj [(''inboundTag'', JArr [JStr ''proxy'']), (''balancerTag'', JStr ''balancer''), (''type'', JStr ''field'')]]),
              (''balancers'', JArr [JObj
                [(''selector'', JArr (map JStr outboundTags)),
                 (''strategy'', JObj [(''type'', JStr ''leastping'')]), (''tag'', JStr ''balancer'')]])]),
           (''transport'', JObj
             [(''dsSettings'', JObj []), (''grpcSettings'', JObj []), (''gunSettings'', JObj []),
              (''httpSettings'', JObj []), (''kcpSettings'', JObj []),
              (''quicSettings'', JObj [(''security'', JStr ''chacha20-poly1305'')]),
              (''tcpSettings'', JObj []), (''wsSettings'', JObj [])]),
           (''stats'', JObj [])])"

definition buildV2RayConfig ::
  "v2_meta list option \<Rightarrow> string list option \<Rightarrow> string \<Rightarrow> int \<Rightarrow> js result" where
  "buildV2RayConfig handshake_metadata nodeAddrs uuid apiPort =
     (case nodeAddrs of
        None \<Rightarrow> throw ''V2Ray handshake returned no node address''
      | Some addrs \<Rightarrow>
        (case addrs of
           [] \<Rightarrow> throw ''V2Ray handshake returned no node address''
         | address # _ \<Rightarrow>
        if address = '''' then throw ''V2Ray handshake returned no node address''
        else let metadata = (case handshake_metadata of None \<Rightarrow> [] | Some ms \<Rightarrow> ms) in
        if length metadata = 0 then throw ''V2Ray handshake returned no inbounds''
        else ok (v2_config address uuid apiPort metadata)))"

section \<open>Properties\<close>

lemma v2_outbound_fields:
  "jget ''tag'' (v2_outbound a u m) = JStr (v2_tag a m)"
  "jget ''proxySettings'' (v2_outbound a u m) = JUndef"
  "jget ''protocol'' (v2_outbound a u m) = JStr (v2_protocol m)"
  "jget ''security'' (jget ''streamSettings'' (v2_outbound a u m)) = JStr (v2_security m)"
  "elems (jget ''vnext'' (jget ''settings'' (v2_outbound a u m))) =
     [JObj [(''address'', JStr a), (''port'', v2_port_num m), (''users'', JArr
       [if v2_protocol m = ''vmess'' then JObj [(''id'', JStr u), (''alterId'', JNum (NInt 0))]
        else JObj [(''id'', JStr u), (''encryption'', JStr ''none'')]])]]"
  by (simp_all add: v2_outbound_def Let_def)

definition v2_fields :: "js \<Rightarrow> string \<Rightarrow> string \<Rightarrow> v2_meta list \<Rightarrow> bool" where
  "v2_fields cfg a uuid ms \<longleftrightarrow>
     jget ''outbounds'' cfg = JArr (map (v2_outbound a uuid) ms) \<and>
     check_log (jget ''log'' cfg) = ok () \<and>
     (\<forall>ib \<in> set (elems (jget ''inbounds'' cfg)). check_inbound ib = ok ()) \<and>
     interceptTags cfg = [''proxy''] \<and>
     elems (jget ''rules'' (routing_of cfg)) =
       [JObj [(''inboundTag'', JArr [JStr ''api'']), (''outboundTag'', JStr ''api''), (''type'', JStr ''field'')],
        JObj [(''inboundTag'', JArr [JStr ''proxy'']), (''balancerTag'', JStr ''balancer''), (''type'', JStr ''field'')]] \<and>
     (\<exists>fs. cfg = JObj fs)"

lemma v2_config_jget:
  "jget ''outbounds'' (v2_config a uuid p ms) = JArr (map (v2_outbound a uuid) ms)"
  "jget ''log'' (v2_config a uuid p ms) =
     JObj [(''access'', JStr ''none''), (''error'', JStr ''none''), (''loglevel'', JStr ''none'')]"
  "jget ''inbounds'' (v2_config a uuid p ms) = JArr
     [JObj [(''listen'', JStr ''127.0.0.1''), (''port'', JNum (NInt p)), (''protocol'', JStr ''dokodemo-door''),
        (''settings'', JObj [(''address'', JStr ''127.0.0.1'')]), (''tag'', JStr ''api'')],
      JObj [(''listen'', JStr ''127.0.0.1''), (''port'', JNum (NInt V2RAY_SOCKS_PORT)), (''protocol'', JStr ''socks''),
        (''settings'', JObj [(''ip'', JStr ''127.0.0.1''), (''udp'', JBool True)]),
        (''sniffing'', JObj [(''destOverride'', JArr [JStr ''http'', JStr ''tls'']), (''enabled'', JBool True)]),
        (''tag'', JStr ''proxy'')]]"
  "\<exists>bs. jget ''routing'' (v2_config a uuid p ms) = JObj [(''domainStrategy'', JStr ''IPIfNonMatch''),
     (''rules'', JArr
       [JObj [(''inboundTag'', JArr [JStr ''api'']), (''outboundTag'', JStr ''api''), (''type'', JStr ''field'')],
        JObj [(''inboundTag'', JArr [JStr ''proxy'']), (''balancerTag'', JStr ''balancer''), (''type'', JStr ''field'')]]),
     (''balancers'', bs)]"
  "\<exists>fs. v2_config a uuid p ms = JObj fs"
  by (simp_all add: v2_config_def Let_def)

lemma v2_config_fields: "v2_fields (v2_config a uuid p ms) a uuid ms"
proof -
  obtain bs where r: "jget ''routing'' (v2_config a uuid p ms) = JObj [(''domainStrategy'', JStr ''IPIfNonMatch''),
     (''rules'', JArr
       [JObj [(''inboundTag'', JArr [JStr ''api'']), (''outboundTag'', JStr ''api''), (''type'', JStr ''field'')],
        JObj [(''inboundTag'', JArr [JStr ''proxy'']), (''balancerTag'', JStr ''balancer''), (''type'', JStr ''field'')]]),
     (''balancers'', bs)]"
    using v2_config_jget(4) by blast
  have "interceptTags (v2_config a uuid p ms) = [''proxy'']"
    by (simp add: interceptTags_def v2_config_jget tagOf_def Let_def)
  moreover have "\<forall>ib \<in> set (elems (jget ''inbounds'' (v2_config a uuid p ms))). check_inbound ib = ok ()"
    by (simp add: v2_config_jget check_inbound_def V2RAY_LOOPBACK_def)
  ultimately show ?thesis
    unfolding v2_fields_def by (simp add: v2_config_jget check_log_def routing_of_def r)
qed

lemma buildV2RayConfig_ok:
  assumes "buildV2RayConfig metadata nodeAddrs uuid apiPort = ok cfg"
  shows "\<exists>a as ms. nodeAddrs = Some (a # as) \<and> a \<noteq> [] \<and> metadata = Some ms \<and> ms \<noteq> [] \<and> v2_fields cfg a uuid ms"
  using assms v2_config_fields by (auto simp: buildV2RayConfig_def Let_def split: option.splits list.splits if_splits)

text \<open>
  A V2Ray config (\<open>buildV2RayConfig\<close>) passes the guard, dials the node's first address once per
  inbound it was given and nothing else, and sends both the user's traffic and, with DNS over HTTPS
  injected, the DNS module's queries to the balancer over those inbounds, while port-53 traffic goes
  to the DNS module.
\<close>

theorem v2ray_build_safe:
  assumes "buildV2RayConfig metadata nodeAddrs uuid apiPort = ok cfg"
  shows "assertSafeV2RayConfig cfg = ok () \<and>
    (\<exists>a ms. metadata = Some ms \<and> dialled cfg = replicate (length ms) a \<and> a \<noteq> [] \<and>
       jget ''outbounds'' cfg = JArr (map (v2_outbound a uuid) ms)) \<and>
    route cfg ''proxy'' p = Some (JUndef, JStr ''balancer'') \<and>
    (known_doh ip \<longrightarrow>
       route (withV2RayDoH cfg ip) ''proxy'' 53 = Some (JStr ''dns-out'', JUndef) \<and>
       route (withV2RayDoH cfg ip) ''dns-module'' p = Some (JUndef, JStr ''balancer''))"
proof -
  obtain a ms where ms: "metadata = Some ms" "ms \<noteq> []" "a \<noteq> []" and f: "v2_fields cfg a uuid ms"
    using buildV2RayConfig_ok [OF assms] by blast
  obtain fs where fs: "cfg = JObj fs" using f by (auto simp: v2_fields_def)
  have safe: "assertSafeV2RayConfig cfg = ok ()"
    using f ms(2) unfolding fs guard_ok_iff Let_def v2_fields_def by (simp del: jget.simps)
  have "concat (map (\<lambda>m. [a]) xs) = replicate (length xs) a" for xs :: "v2_meta list" by (induction xs) auto
  then have d: "dialled cfg = replicate (length ms) a"
    using f by (simp add: dialled_def v2_fields_def v2_outbound_fields comp_def)
  have r: "route cfg ''proxy'' p = Some (JUndef, JStr ''balancer'')"
    using f by (simp add: route_def v2_fields_def routing_of_rules rule_applies_def target_def)
  have "doh_egress (JObj fs) (routing_of (JObj fs)) (elems (jget ''rules'' (routing_of (JObj fs))))
      (interceptTags (JObj fs)) = Some [(''balancerTag'', JStr ''balancer'')]"
    using f unfolding fs v2_fields_def by (simp add: doh_egress_def is_proxy_rule_def del: jget.simps(1), simp)
  then have "known_doh ip \<Longrightarrow> route (withV2RayDoH cfg ip) ''proxy'' 53 = Some (JStr ''dns-out'', JUndef) \<and>
      route (withV2RayDoH cfg ip) ''dns-module'' p = Some (JUndef, JStr ''balancer'')"
    using doh_route_parts(1) [of ip "''proxy''" fs]
      doh_route_parts(3) [of ip "''proxy''" fs "[(''balancerTag'', JStr ''balancer'')]" p] f
    by (simp add: fs v2_fields_def target_def del: jget.simps(1), simp)
  with safe d r ms f show ?thesis by (auto simp: v2_fields_def)
qed

text \<open>The values the SDK declares for the two enumerations the inbound policy reads.\<close>

definition declared :: "'a inbound_meta_scheme \<Rightarrow> bool" where
  "declared m \<longleftrightarrow> im_proxy_protocol m \<in> {1, 2} \<and> im_transport_security m \<in> {1, 2}"

definition cleartext_outbound :: "js \<Rightarrow> bool" where
  "cleartext_outbound ob \<longleftrightarrow>
     jget ''protocol'' ob = JStr ''vless'' \<and> jget ''security'' (jget ''streamSettings'' ob) = JStr ''none''"

text \<open>
  Policy and builder together, on metadata whose enumerations have declared values: the config
  built from what \<open>filterV2RayMetadata\<close> keeps has no outbound that is VLess without TLS, and a node
  that offered anything else is not refused.
\<close>

theorem filtered_build_encrypted:
  assumes "\<forall>m \<in> set ms. declared m" and "ms \<noteq> []" and "a \<noteq> []"
  shows "(isAllCleartext ms \<longrightarrow> \<not> accepts (buildV2RayConfig (Some (filterV2RayMetadata ms)) (Some (a # as)) uuid apiPort)) \<and>
    (\<not> isAllCleartext ms \<longrightarrow> (\<exists>cfg. buildV2RayConfig (Some (filterV2RayMetadata ms)) (Some (a # as)) uuid apiPort = ok cfg \<and>
       (\<forall>ob \<in> set (elems (jget ''outbounds'' cfg)). \<not> cleartext_outbound ob)))"
proof -
  have empty: "filterV2RayMetadata ms = [] \<longleftrightarrow> isAllCleartext ms"
    using assms(2) by (auto simp: filterV2RayMetadata_def Let_def filter_empty_conv isAllCleartext_def list_all_iff
        intro: inbound_class.exhaust)
  have safe: "\<not> cleartext_outbound (v2_outbound a uuid m)" if "m \<in> set (filterV2RayMetadata ms)" for m
  proof -
    have "m \<in> set ms" "classifyV2RayInbound m = Acceptable"
      using that by (auto simp: filterV2RayMetadata_def Let_def split: if_splits)
    then show ?thesis
      using assms(1) by (auto simp: declared_def cleartext_outbound_def v2_outbound_fields v2_protocol_def v2_security_def
          classifyV2RayInbound_def enum_defs split: if_splits)
  qed
  have "\<exists>cfg. buildV2RayConfig (Some (filterV2RayMetadata ms)) (Some (a # as)) uuid apiPort = ok cfg"
    if "\<not> isAllCleartext ms"
    using that empty assms(3) by (simp add: buildV2RayConfig_def Let_def)
  moreover have "\<forall>ob \<in> set (elems (jget ''outbounds'' cfg)). \<not> cleartext_outbound ob"
    if "buildV2RayConfig (Some (filterV2RayMetadata ms)) (Some (a # as)) uuid apiPort = ok cfg" for cfg
    using buildV2RayConfig_ok [OF that] safe by (auto simp: v2_fields_def)
  ultimately show ?thesis
    using empty assms(3) by (auto simp: buildV2RayConfig_def Let_def)
qed

text \<open>
  The policy does not cover undeclared values: an inbound announced as VLess with transport
  security 0 (unspecified) is not cleartext for \<open>classifyV2RayInbound\<close>, so \<open>filterV2RayMetadata\<close> keeps
  it, and \<open>buildV2RayConfig\<close> emits a VLess outbound without transport security for it.
\<close>

theorem undeclared_security_is_cleartext:
  "\<exists>ms cfg. filterV2RayMetadata ms = ms \<and> \<not> isAllCleartext ms \<and>
     buildV2RayConfig (Some ms) (Some [''5.6.7.8'']) ''u'' 10085 = ok cfg \<and>
     (\<forall>ob \<in> set (elems (jget ''outbounds'' cfg)). cleartext_outbound ob) \<and> elems (jget ''outbounds'' cfg) \<noteq> []"
proof -
  let ?m = "\<lparr>im_proxy_protocol = 1, im_transport_security = 0, v2_port = JNum (NInt 443), v2_transport_protocol = 7\<rparr> :: v2_meta"
  have f: "filterV2RayMetadata [?m] = [?m]" "\<not> isAllCleartext [?m]"
    by (simp_all add: filterV2RayMetadata_def isAllCleartext_def classifyV2RayInbound_def enum_defs)
  obtain cfg where cfg: "buildV2RayConfig (Some [?m]) (Some [''5.6.7.8'']) ''u'' 10085 = ok cfg"
    by (simp add: buildV2RayConfig_def Let_def)
  then have "jget ''outbounds'' cfg = JArr [v2_outbound ''5.6.7.8'' ''u'' ?m]"
    using buildV2RayConfig_ok [OF cfg] by (auto simp: v2_fields_def)
  then have "\<forall>ob \<in> set (elems (jget ''outbounds'' cfg)). cleartext_outbound ob" "elems (jget ''outbounds'' cfg) \<noteq> []"
    by (simp_all add: cleartext_outbound_def v2_outbound_fields v2_protocol_def v2_security_def enum_defs)
  with f cfg show ?thesis by blast
qed

definition sample_inbound :: v2_meta where
  "sample_inbound = \<lparr>im_proxy_protocol = 2, im_transport_security = 1, v2_port = JNum (NInt 443), v2_transport_protocol = 7\<rparr>"

lemma v2ray_build_safe_witness:
  "\<exists>cfg. buildV2RayConfig (Some [sample_inbound]) (Some [''5.6.7.8'']) ''u'' 10085 = ok cfg \<and>
     assertSafeV2RayConfig cfg = ok ()"
proof -
  obtain cfg where "buildV2RayConfig (Some [sample_inbound]) (Some [''5.6.7.8'']) ''u'' 10085 = ok cfg"
    by (simp add: buildV2RayConfig_def Let_def)
  with v2ray_build_safe [OF this] show ?thesis by blast
qed

lemma filtered_build_encrypted_witness:
  "\<exists>cfg. buildV2RayConfig (Some (filterV2RayMetadata [sample_inbound])) (Some [''5.6.7.8'']) ''u'' 10085 = ok cfg"
proof -
  have "\<not> isAllCleartext [sample_inbound]" "\<forall>m \<in> set [sample_inbound]. declared m"
    by (simp_all add: isAllCleartext_def classifyV2RayInbound_def enum_defs declared_def sample_inbound_def)
  with filtered_build_encrypted [of "[sample_inbound]" "''5.6.7.8''" "[]" "''u''" 10085] show ?thesis by auto
qed

end
