(* ===== verification/Handshake.thy ===== *)
theory Handshake
  imports Services WgAccept OvpnConfig XrayConfig MultihopConfig HysteriaConfig V2RayConfig
begin

text \<open>
  From a paid session to a tunnel config, \<open>src/main/chain/chain-service.ts\<close>: the signed handshake,
  one branch per protocol (\<open>performHandshake\<close>), one hop of a chain (\<open>handshakeChainHop\<close>) and the
  chained config saved under both session ids (\<open>finalizeChain\<close>).

  A node's JSON is an arbitrary \<open>js\<close> value. The typed entries the builders take are read from it
  field by field; a number field that holds no safe integer reads as \<open>-1\<close>, a string field that
  holds no string as absent, an address that is no string as the empty one.
\<close>

section \<open>The signed handshake\<close>

definition parseHandshakeData :: "env \<Rightarrow> js \<Rightarrow> js result" where
  "parseHandshakeData env data =
     (case data of
        JStr s \<Rightarrow> (case e_parse env (b64_dec (from_url_alphabet s)) of
            None \<Rightarrow> throw ''Node returned an unparseable handshake response''
          | Some v \<Rightarrow> ok v)
      | _ \<Rightarrow> throw ''Node returned an invalid handshake response'')"

definition strings_of :: "js \<Rightarrow> string list" where
  "strings_of v = map (\<lambda>a. case as_string a of None \<Rightarrow> '''' | Some s \<Rightarrow> s) (elems v)"

record signed_result =
  sr_data :: js
  sr_addrs :: "string list"
  sr_signer :: reply_signer

definition signedHandshake ::
  "env \<Rightarrow> string \<Rightarrow> string \<Rightarrow> js \<Rightarrow> byte list \<Rightarrow> string \<Rightarrow> dial \<Rightarrow> signed_result run" where
  "signedHandshake env sessionId nodeAddress peerRequest privKey remoteUrl via =
     seq (lift (buildHandshakeBody (e_crypto env) sessionId peerRequest privKey)) (\<lambda>body.
     seq (postHandshake env via remoteUrl sessionId body) (\<lambda>reply.
     seq (look (\<lambda>h. checkReplySignature (e_crypto env) (hr_signature reply) sessionId (b64_dec (hb_data body))
            (hr_result reply) nodeAddress (\<lambda>granter grantee. hasNodeStatusGrant (e_now env h) (e_grants env h granter grantee)))) (\<lambda>checked.
     seq (lift checked) (\<lambda>signer.
     seq (look (e_signedOnly env)) (\<lambda>signedNodesOnly.
       if signer = Unsigned \<and> signedNodesOnly
       then raise (failed (''This node does not sign its handshake reply, and '' @ [CHR 0x22] @ ''Signed nodes only'' @
         [CHR 0x22] @ '' is on in Settings.''))
       else ret \<lparr>sr_data = jget ''data'' (hr_result reply), sr_addrs = strings_of (jget ''addrs'' (hr_result reply)),
                 sr_signer = signer\<rparr>)))))"

section \<open>Reading the node's metadata\<close>

definition num :: "js \<Rightarrow> int" where
  "num v = (case as_int v of None \<Rightarrow> -1 | Some i \<Rightarrow> i)"

definition wg_of_js :: "js \<Rightarrow> wg_handshake" where
  "wg_of_js v = \<lparr>addrs = (if is_array (jget ''addrs'' v) then Some (strings_of (jget ''addrs'' v)) else None),
     metadata = (if is_array (jget ''metadata'' v)
       then Some (map (\<lambda>m. \<lparr>port = jget ''port'' m,
                public_key = (case as_string (jget ''public_key'' m) of None \<Rightarrow> '''' | Some s \<Rightarrow> s)\<rparr>)
              (elems (jget ''metadata'' v)))
       else None)\<rparr>"

definition hop_of_js :: "js \<Rightarrow> hop_meta" where
  "hop_of_js v = \<lparr>hm_port = jget ''port'' v, hm_proxy_protocol = num (jget ''proxy_protocol'' v),
     hm_transport_protocol = num (jget ''transport_protocol'' v),
     hm_transport_security = num (jget ''transport_security'' v),
     hm_tls_pin = as_string (jget ''tls_pin'' v), hm_flow = as_int (jget ''flow'' v),
     hm_reality_server_name = as_string (jget ''reality_server_name'' v),
     hm_reality_short_id = as_string (jget ''reality_short_id'' v),
     hm_reality_public_key = as_string (jget ''reality_public_key'' v),
     hm_reality_fingerprint = as_string (jget ''reality_fingerprint'' v)\<rparr>"

definition hysteria_of_js :: "js \<Rightarrow> hysteria_meta" where
  "hysteria_of_js v = \<lparr>hy_port = jget ''port'' v, hy_tls_pin = as_string (jget ''tls_pin'' v),
     hy_obfs_password = as_string (jget ''obfs_password'' v)\<rparr>"

definition v2_of_js :: "js \<Rightarrow> v2_meta" where
  "v2_of_js v = \<lparr>im_proxy_protocol = num (jget ''proxy_protocol'' v),
     im_transport_security = num (jget ''transport_security'' v), v2_port = jget ''port'' v,
     v2_transport_protocol = num (jget ''transport_protocol'' v)\<rparr>"

text \<open>\<open>uuidToBytes\<close>: the hexadecimal digits two by two, up to the first pair that is none.\<close>

definition hex_digit_val :: "char \<Rightarrow> nat" where
  "hex_digit_val ch = (if is_digit ch then of_char ch - 48
     else if CHR ''a'' \<le> ch \<and> ch \<le> CHR ''f'' then of_char ch - 87 else of_char ch - 55)"

fun hex_pairs :: "string \<Rightarrow> int list" where
  "hex_pairs (a # b # s) =
     (if is_hex a \<and> is_hex b then int (16 * hex_digit_val a + hex_digit_val b) # hex_pairs s else [])"
| "hex_pairs _ = []"

definition uuidToBytes :: "string \<Rightarrow> js" where
  "uuidToBytes uuid = JArr (map (\<lambda>i. JNum (NInt i)) (hex_pairs (remove_char CHR ''-'' uuid)))"

section \<open>One branch per protocol\<close>

record handshake_input =
  hi_sessionId :: string
  hi_nodeAddress :: string
  hi_nodeType :: int
  hi_remoteUrl :: string
  hi_privKey :: "byte list"
  hi_nodeMoniker :: "string option"
  hi_nodeCountry :: "string option"

record handshake_output =
  ho_protocol :: string
  ho_configString :: string
  ho_v2raySummary :: "badge option"
  ho_signer :: reply_signer

definition policyError :: "string \<Rightarrow> failure" where
  "policyError label =
     \<lparr>f_value = JObj [(''message'', JStr (''Node '' @ [CHR 0x22] @ label @ [CHR 0x22] @
        '' only offers unencrypted (VLess-none) inbounds''))], f_policy = True, f_role = None\<rparr>"

definition node_label :: "string option \<Rightarrow> string \<Rightarrow> string" where
  "node_label moniker address = (case moniker of None \<Rightarrow> address | Some m \<Rightarrow> if m = '''' then address else m)"

text \<open>The shake of a branch (\<open>signedHandshake\<close>, then the parsed data), and its tail: the config is
  saved, then returned.\<close>

definition shake :: "env \<Rightarrow> handshake_input \<Rightarrow> js \<Rightarrow> (js \<times> signed_result) run" where
  "shake env p peerRequest =
     seq (signedHandshake env (hi_sessionId p) (hi_nodeAddress p) peerRequest (hi_privKey p) (hi_remoteUrl p) Direct) (\<lambda>r.
     seq (lift (parseHandshakeData env (sr_data r))) (\<lambda>v. ret (v, r)))"

definition finish :: "env \<Rightarrow> handshake_input \<Rightarrow> string \<Rightarrow> string \<Rightarrow> badge option \<Rightarrow> reply_signer \<Rightarrow> handshake_output run" where
  "finish env p protocol configString summary signer =
     seq (saveSessionConfig env \<lparr>sc_sessionId = hi_sessionId p, sc_protocol = protocol, sc_configString = configString,
            sc_nodeAddress = hi_nodeAddress p, sc_nodeMoniker = hi_nodeMoniker p, sc_nodeCountry = hi_nodeCountry p,
            sc_chainPeer = None, sc_chainRole = None, sc_walletId = None, sc_nodeType = None\<rparr>) (\<lambda>_.
     ret \<lparr>ho_protocol = protocol, ho_configString = configString, ho_v2raySummary = summary, ho_signer = signer\<rparr>)"

definition shake_wireguard :: "env \<Rightarrow> handshake_input \<Rightarrow> handshake_output run" where
  "shake_wireguard env p =
     seq (look (e_keypair env)) (\<lambda>(pub, priv).
     seq (shake env p (JObj [(''public_key'', JStr pub)])) (\<lambda>(v, r).
     seq (lift (buildWireguardConfig (wg_of_js v) (sr_addrs r) priv DEFAULT_WIREGUARD_DNS)) (\<lambda>config.
     finish env p ''wireguard'' config None (sr_signer r))))"

definition shake_xray :: "env \<Rightarrow> handshake_input \<Rightarrow> handshake_output run" where
  "shake_xray env p =
     seq (look (e_uuid env)) (\<lambda>uuid.
     seq (shake env p (JObj [(''uuid'', uuidToBytes uuid)])) (\<lambda>(v, r).
     seq (lift (buildXRayConfig (map hop_of_js (elems (jget ''metadata'' v))) (sr_addrs r) uuid)) (\<lambda>config.
     finish env p ''xray'' (stringify 2 config) None (sr_signer r))))"

definition shake_hysteria2 :: "env \<Rightarrow> handshake_input \<Rightarrow> handshake_output run" where
  "shake_hysteria2 env p =
     seq (look (e_uuid env)) (\<lambda>uuid.
     seq (shake env p (JObj [(''uuid'', JStr uuid)])) (\<lambda>(v, r).
     seq (lift (buildHysteria2Config (map hysteria_of_js (elems (jget ''metadata'' v))) (sr_addrs r) uuid)) (\<lambda>config.
     finish env p ''hysteria2'' (stringify 2 config) None (sr_signer r))))"

text \<open>The AmneziaWG tier is asked for only when the node lists it; an unreadable list is no error.\<close>

definition shake_amneziawg :: "env \<Rightarrow> handshake_input \<Rightarrow> handshake_output run" where
  "shake_amneziawg env p =
     seq (look (e_keypair env)) (\<lambda>(pub, priv).
     seq (catching (seq (askNode (e_inbounds env) Direct (hi_remoteUrl p)) (\<lambda>inbounds. ret (nodeOffersAwgVersion3 inbounds)))
            (\<lambda>_. ret False)) (\<lambda>v3.
     seq (shake env p (JObj ([(''public_key'', JStr pub)] @
            (if v3 then [(''awg_version'', JNum (NInt AWG_VERSION_3))] else [])))) (\<lambda>(v, r).
     seq (look (e_draws env)) (\<lambda>draws.
     seq (lift (buildAmneziaWgConfig draws (JArr (elems (jget ''metadata'' v))) (sr_addrs r) (elems (jget ''addrs'' v)) priv)) (\<lambda>config.
     finish env p ''amneziawg'' config None (sr_signer r))))))"

definition shake_openvpn :: "env \<Rightarrow> handshake_input \<Rightarrow> handshake_output run" where
  "shake_openvpn env p =
     seq (look (e_uuid env)) (\<lambda>uuid.
     seq (shake env p (JObj [(''uuid'', uuidToBytes uuid)])) (\<lambda>(v, r).
     seq (lift (buildOpenVpnConfig (e_isCert env) (e_parsesKey env) v (JArr (map JStr (sr_addrs r))))) (\<lambda>config.
     finish env p ''openvpn'' config None (sr_signer r))))"

definition shake_v2ray :: "env \<Rightarrow> handshake_input \<Rightarrow> handshake_output run" where
  "shake_v2ray env p =
     seq (look (e_uuid env)) (\<lambda>uuid.
     seq (shake env p (JObj [(''uuid'', uuidToBytes uuid)])) (\<lambda>(v, r).
     let offered = (if is_array (jget ''metadata'' v) then Some (map v2_of_js (elems (jget ''metadata'' v))) else None) in
     seq (case offered of
            None \<Rightarrow> ret (None, None)
          | Some ms \<Rightarrow>
              if isAllCleartext ms then raise (policyError (node_label (hi_nodeMoniker p) (hi_nodeAddress p)))
              else ret (Some (filterV2RayMetadata ms), Some (v2raySecurityBadge (filterV2RayMetadata ms)))) (\<lambda>(kept, summary).
     seq (look (e_freePort env)) (\<lambda>found.
     seq (lift found) (\<lambda>apiPort.
     seq (lift (buildV2RayConfig kept (Some (sr_addrs r)) uuid apiPort)) (\<lambda>config.
     finish env p ''v2ray'' (stringify 4 config) summary (sr_signer r)))))))"

definition performHandshake :: "env \<Rightarrow> handshake_input \<Rightarrow> handshake_output run" where
  "performHandshake env p =
     (if hi_nodeType p = 1 then shake_wireguard env p
      else if hi_nodeType p = 4 then shake_xray env p
      else if hi_nodeType p = 6 then shake_hysteria2 env p
      else if hi_nodeType p = 5 then shake_amneziawg env p
      else if hi_nodeType p = 3 then shake_openvpn env p
      else shake_v2ray env p)"

section \<open>Chains\<close>

record chain_hop =
  ch_sessionId :: string
  ch_nodeAddress :: string
  ch_nodeType :: int
  ch_remoteUrl :: string
  ch_nodeMoniker :: "string option"
  ch_nodeCountry :: "string option"
  ch_walletId :: "string option"

record signed_hop =
  sh_spec :: hop_spec
  sh_signer :: reply_signer

text \<open>Every error of a hop's handshake is tagged with the hop it came from.\<close>

definition handshakeChainHop :: "env \<Rightarrow> chain_hop \<Rightarrow> byte list \<Rightarrow> hop_role \<Rightarrow> dial \<Rightarrow> signed_hop run" where
  "handshakeChainHop env hop privKey role via =
     catching
       (seq (look (e_uuid env)) (\<lambda>uuid.
        seq (signedHandshake env (ch_sessionId hop) (ch_nodeAddress hop) (JObj [(''uuid'', uuidToBytes uuid)]) privKey
               (ch_remoteUrl hop) via) (\<lambda>r.
        seq (lift (parseHandshakeData env (sr_data r))) (\<lambda>v.
        let offered = elems (jget ''metadata'' v) in
        if offered \<noteq> [] \<and> isAllCleartext (map v2_of_js offered)
        then raise (policyError (node_label (ch_nodeMoniker hop) (ch_nodeAddress hop)))
        else ret \<lparr>sh_spec = \<lparr>hs_protocol = (if ch_nodeType hop = 4 then HopXray else HopV2Ray),
                    hs_metadata = map hop_of_js offered, hs_addrs = sr_addrs r, hs_uuid = uuid\<rparr>,
                  sh_signer = sr_signer r\<rparr>))))
       (\<lambda>e. raise (e\<lparr>f_role := Some role\<rparr>))"

definition handshakeChainEntry :: "env \<Rightarrow> chain_hop \<Rightarrow> byte list \<Rightarrow> signed_hop run" where
  "handshakeChainEntry env entry privKey = handshakeChainHop env entry privKey Entry Direct"

text \<open>The exit's agent is required, not optional.\<close>

definition handshakeChainExit :: "env \<Rightarrow> chain_hop \<Rightarrow> byte list \<Rightarrow> signed_hop run" where
  "handshakeChainExit env exit exitPrivKey = handshakeChainHop env exit exitPrivKey Exit ViaEntry"

definition bare_host_rx :: rx where
  "bare_host_rx = Seq (cls is_alnum)
     (opt (Seq (cls_star (\<lambda>c. is_alnum c \<or> c = CHR ''.'' \<or> c = CHR ''-'')) (cls is_alnum)))"

definition exit_doh_url :: "string \<Rightarrow> string" where
  "exit_doh_url resolver =
     (case map_of DOH_ENDPOINTS resolver of
        Some endpoint \<Rightarrow> doh_url endpoint
      | None \<Rightarrow> (case map_of DOH_ENDPOINTS ''1.1.1.1'' of Some endpoint \<Rightarrow> doh_url endpoint | None \<Rightarrow> ''''))"

definition doh_answer :: "js \<Rightarrow> string option" where
  "doh_answer body =
     Option.bind (find (\<lambda>a. jget ''type'' a = JNum (NInt 1) \<and>
         (case jget ''data'' a of JStr s \<Rightarrow> dotted_digits s | _ \<Rightarrow> False)) (elems (jget ''Answer'' body)))
       (\<lambda>a. as_string (jget ''data'' a))"

definition resolveExitHostPrivately :: "env \<Rightarrow> string \<Rightarrow> string option run" where
  "resolveExitHostPrivately env host =
     (if dotted_digits host then ret (Some host)
      else if \<not> rx_test bare_host_rx host then ret None
      else seq (look (e_dnsResolver env)) (\<lambda>resolver.
           let url = exit_doh_url resolver in
           seq (look (\<lambda>h. e_doh env h url host)) (\<lambda>body.
           seq (tell (LookedUp url host)) (\<lambda>_.
             ret (Option.bind body doh_answer)))))"

fun withPrivatelyResolvedAddrs :: "env \<Rightarrow> string list \<Rightarrow> string list run" where
  "withPrivatelyResolvedAddrs env [] = ret []"
| "withPrivatelyResolvedAddrs env (a # hosts) =
     seq (if a = '''' then ret (Some a) else resolveExitHostPrivately env a) (\<lambda>ip.
     seq (withPrivatelyResolvedAddrs env hosts) (\<lambda>rest.
       ret ((case ip of None \<Rightarrow> a | Some i \<Rightarrow> i) # rest)))"

definition chain_record :: "chain_hop \<Rightarrow> chain_hop \<Rightarrow> hop_role \<Rightarrow> string \<Rightarrow> saved_config" where
  "chain_record hop peer role configString =
     \<lparr>sc_sessionId = ch_sessionId hop, sc_protocol = ''xray'', sc_configString = configString,
      sc_nodeAddress = ch_nodeAddress hop, sc_nodeMoniker = ch_nodeMoniker hop, sc_nodeCountry = ch_nodeCountry hop,
      sc_chainPeer = Some (ch_sessionId peer), sc_chainRole = Some role, sc_walletId = ch_walletId hop,
      sc_nodeType = Some (ch_nodeType hop)\<rparr>"

definition finalizeChain :: "env \<Rightarrow> chain_hop \<Rightarrow> chain_hop \<Rightarrow> hop_spec \<Rightarrow> hop_spec \<Rightarrow> string run" where
  "finalizeChain env entry exit entrySpec exitSpec =
     seq (withPrivatelyResolvedAddrs env (hs_addrs exitSpec)) (\<lambda>pinned.
     seq (lift (buildMultihopConfig entrySpec (exitSpec\<lparr>hs_addrs := pinned\<rparr>))) (\<lambda>config.
     let configString = stringify 2 config in
     seq (saveSessionConfig env (chain_record entry exit Entry configString)) (\<lambda>_.
     seq (saveSessionConfig env (chain_record exit entry Exit configString)) (\<lambda>_.
       ret configString))))"

section \<open>What a handshake contacts\<close>

lemma adds_signedHandshake [adds_intro]:
  "F (Posted via url sid) \<Longrightarrow> adds F (signedHandshake env sid node req key url via)"
  unfolding signedHandshake_def by (intro adds_intro)

lemma adds_shake [adds_intro]:
  "F (Posted Direct (hi_remoteUrl p) (hi_sessionId p)) \<Longrightarrow> adds F (shake env p req)"
  unfolding shake_def by (intro adds_intro)

lemma adds_chain_hop [adds_intro]:
  "F (Posted via (ch_remoteUrl hop) (ch_sessionId hop)) \<Longrightarrow> adds F (handshakeChainHop env hop key role via)"
  unfolding handshakeChainHop_def Let_def by (intro adds_intro)

lemma adds_resolveExit [adds_intro]:
  "(\<And>resolver. F (LookedUp (exit_doh_url resolver) host)) \<Longrightarrow> adds F (resolveExitHostPrivately env host)"
  unfolding resolveExitHostPrivately_def Let_def by (intro adds_intro)

lemma adds_resolved [adds_intro]:
  "(\<And>resolver a. a \<in> set hosts \<Longrightarrow> F (LookedUp (exit_doh_url resolver) a)) \<Longrightarrow> adds F (withPrivatelyResolvedAddrs env hosts)"
  by (induction hosts) (auto intro!: adds_intro)

lemma adds_finalize:
  assumes "\<And>resolver a. a \<in> set (hs_addrs exitSpec) \<Longrightarrow> F (LookedUp (exit_doh_url resolver) a)" and "\<And>c. F (Saved c)"
  shows "adds F (finalizeChain env entry exit entrySpec exitSpec)"
  unfolding finalizeChain_def Let_def by (intro adds_intro assms)

text \<open>The exit's name is only ever asked of the HTTPS resolvers of the table.\<close>

lemma exit_doh_url_known: "\<exists>ip endpoint. (ip, endpoint) \<in> set DOH_ENDPOINTS \<and> exit_doh_url resolver = doh_url endpoint"
proof (cases "map_of DOH_ENDPOINTS resolver")
  case None
  have "map_of DOH_ENDPOINTS ''1.1.1.1'' \<noteq> None" by code_simp
  then obtain e where "map_of DOH_ENDPOINTS ''1.1.1.1'' = Some e" by blast
  with None show ?thesis using map_of_SomeD by (fastforce simp: exit_doh_url_def)
next
  case (Some e)
  then show ?thesis using map_of_SomeD by (fastforce simp: exit_doh_url_def)
qed

end
