(* ===== verification/Purchase.thy ===== *)
theory Purchase
  imports Handshake
begin

text \<open>
  Buying a session or a two-hop chain (\<open>preflightConnect\<close> to \<open>establishChainOrRefund\<close> of
  \<open>src/main/ipc-handlers.ts\<close>, \<open>startProvisioningProxy\<close> of \<open>vpn-manager.ts\<close>): the checks made before
  paying, the handshake with its bounded retries, and the refunds. What these paths promise about
  money and about who contacts the exit node is proved in \<open>PurchaseProps\<close>.
\<close>

section \<open>Describing a failure\<close>

definition nullish :: "js \<Rightarrow> bool" where
  "nullish v \<longleftrightarrow> v = JUndef \<or> v = JNull"

definition error_message :: "js \<Rightarrow> string" where
  "error_message err = (case as_string (jget ''message'' err) of Some m \<Rightarrow> m | None \<Rightarrow> to_string err)"

definition describeHandshakeError :: "js \<Rightarrow> string" where
  "describeHandshakeError err =
     (let response = jget ''response'' err in
      if truthy response \<and> (jget ''status'' response \<noteq> JUndef \<or> jget ''data'' response \<noteq> JUndef) then
        let raw = jget ''data'' response;
            detail = (if is_object raw then
                let m = jget ''message'' (jget ''error'' raw) in
                if \<not> nullish m then m
                else if \<not> nullish (jget ''error'' raw) then jget ''error'' raw
                else if \<not> nullish (jget ''message'' raw) then jget ''message'' raw
                else JStr (stringify 0 raw)
              else raw);
            detailStr = (case as_string detail of Some d \<Rightarrow> take 300 (trim d) | None \<Rightarrow> '''');
            status = jget ''status'' response
        in ''node returned HTTP '' @ (if nullish status then ''?'' else to_string status) @
           (if detailStr \<noteq> '''' then '': '' @ detailStr else '''')
      else error_message err)"

section \<open>Checks before paying\<close>

definition NODE_TYPE_TO_PROTOCOL :: "(int \<times> string) list" where
  "NODE_TYPE_TO_PROTOCOL =
     [(1, ''wireguard''), (2, ''v2ray''), (3, ''openvpn''), (4, ''xray''), (5, ''amneziawg''), (6, ''hysteria2'')]"

definition root_label :: "string \<Rightarrow> (string \<times> string) option" where
  "root_label protocol =
     (if protocol = ''wireguard'' then Some (''WireGuard'', ''wireguard_up'')
      else if protocol = ''amneziawg'' then Some (''AmneziaWG'', ''amneziawg_up'')
      else if protocol = ''openvpn'' then Some (''OpenVPN'', ''openvpn_up'')
      else None)"

definition check_runtime :: "env \<Rightarrow> string \<Rightarrow> bool \<Rightarrow> unit run" where
  "check_runtime env protocol tunnel =
     seq (lift (e_systemReady env protocol tunnel)) (\<lambda>_.
     (case e_runtimeError env protocol of
        Some err \<Rightarrow> raise (failed (''Can'' @ [CHR 0x27] @ ''t connect, not charged. '' @ err))
      | None \<Rightarrow>
         (case root_label protocol of
            None \<Rightarrow> ret ()
          | Some (label, op) \<Rightarrow>
              if e_missingOp env op
              then raise (failed (''Can'' @ [CHR 0x27] @ ''t connect, not charged. The Katacomb privileged service is out of date and can'' @
                [CHR 0x27] @ ''t bring up '' @ label @
                ''. Restart it (sudo systemctl restart katacomb-vpn-daemon) or reboot, then try again.''))
              else ret ())))"

text \<open>The node's answer is awaited inside a \<open>try\<close>, with the question whether it signs replies.\<close>

definition node_reports :: "env \<Rightarrow> string \<Rightarrow> dial \<Rightarrow> (js \<times> bool) run" where
  "node_reports env apiField via =
     catching
       (seq (askNode (e_serviceType env) via apiField) (\<lambda>reported.
        seq (look (e_signedOnly env)) (\<lambda>signedNodesOnly.
        if signedNodesOnly then seq (askNode (e_signsReplies env) via apiField) (\<lambda>signs. ret (reported, signs))
        else ret (reported, True))))
       (\<lambda>err. raise (failed (''Node is unreachable, not charged ('' @ error_message (f_value err) @ ''). Pick another node.'')))"

definition preflightConnect :: "env \<Rightarrow> int \<Rightarrow> string \<Rightarrow> bool \<Rightarrow> dial \<Rightarrow> unit run" where
  "preflightConnect env nodeType apiField tunnel via =
     (case map_of NODE_TYPE_TO_PROTOCOL nodeType of
        None \<Rightarrow> raise (failed (''Unsupported nodeType '' @ show_int nodeType))
      | Some protocol \<Rightarrow>
         seq (check_runtime env protocol tunnel) (\<lambda>_.
         seq (node_reports env apiField via) (\<lambda>(reported, signs).
         if serviceTypeToNodeType reported \<noteq> Tag nodeType
         then raise (failed (''Node protocol mismatch, not charged. The node reports '' @ [CHR 0x22] @ to_string reported @
           [CHR 0x22] @ '' but the node list says '' @ protocol @ ''. Refresh the node list and pick another node.''))
         else if \<not> signs
         then raise (failed (''This node does not sign its handshake replies, not charged. '' @ [CHR 0x22] @
           ''Signed nodes only'' @ [CHR 0x22] @ '' is on in Settings: '' @
           ''pick a node that signs (dvpnd 9.4 or later), or turn the setting off.''))
         else ret ())))"

text \<open>One hop of a purchase, before it has a session, and the account that pays for it.\<close>

record hop_input =
  hp_nodeAddress :: string
  hp_nodeType :: int
  hp_apiField :: string
  hp_nodeMoniker :: string
  hp_nodeCountry :: string

record chain_signer =
  cg_account :: string
  cg_privKey :: "byte list"
  cg_walletId :: "string option"

definition hop_name :: "hop_input \<Rightarrow> string" where
  "hop_name hop = (if hp_nodeMoniker hop = '''' then hp_nodeAddress hop else hp_nodeMoniker hop)"

definition hop_kind :: "hop_input \<Rightarrow> hop_protocol" where
  "hop_kind hop = (if hp_nodeType hop = 4 then HopXray else HopV2Ray)"

definition assertChainEligible :: "env \<Rightarrow> hop_input \<Rightarrow> hop_role \<Rightarrow> dial \<Rightarrow> unit run" where
  "assertChainEligible env hop role via =
     seq (catching (askNode (e_inbounds env) via (hp_apiField hop))
            (\<lambda>err. raise (failed (''Can'' @ [CHR 0x27] @ ''t build the chain, not charged. The '' @ role_name role @ '' node '' @
               [CHR 0x22] @ hop_name hop @ [CHR 0x22] @ '' did not publish the inbound list needed to check it ('' @
               error_message (f_value err) @ ''), so there is no way to confirm it can be '' @
               ''wrapped in TLS before paying for it. Pick a node running 9.0.0 or later.'')))) (\<lambda>inbounds.
     let graded = classifyHopEligibility (hop_kind hop) (map hop_of_js (elems inbounds)) in
     if (if role = Exit then he_exit graded else he_entry graded) then ret ()
     else raise (failed (''Can'' @ [CHR 0x27] @ ''t build the chain, not charged. The '' @ role_name role @ '' node '' @
       [CHR 0x22] @ hop_name hop @ [CHR 0x22] @ '' serves '' @
       (if he_transports graded = [] then ''nothing usable'' else join '', '' (he_transports graded)) @
       '', which does not meet the rule for a chain '' @ role_name role @ '': '' @
       (if role = Exit then ''a plain-TCP inbound wrapped in TLS or Reality''
        else ''an inbound wrapped in TLS or Reality'') @
       ''. This node is still fine for an ordinary single-hop connection. Pick a different one.'')))"

record plan_price =
  pp_denom :: string
  pp_quoteValue :: string

text \<open>\<open>cachedPlanCost\<close>: the plan cache as a list of ids with their prices.\<close>

definition cachedPlanCost :: "(string \<times> plan_price list) list \<Rightarrow> string \<Rightarrow> string \<Rightarrow> int" where
  "cachedPlanCost plans planId denom =
     (case map_of plans planId of
        None \<Rightarrow> 0
      | Some prices \<Rightarrow>
         (case find (\<lambda>p. pp_denom p = denom) prices of
            None \<Rightarrow> 0
          | Some price \<Rightarrow>
             (case parse_int (pp_quoteValue price) of
                None \<Rightarrow> 0
              | Some parsed \<Rightarrow> if parsed > 0 then parsed else 0)))"

section \<open>One session\<close>

definition startSession :: "env \<Rightarrow> string \<Rightarrow> string \<Rightarrow> string run" where
  "startSession env node account =
     seq (look (\<lambda>h. e_buy env h node account)) (\<lambda>answer.
     (case answer of
        Inl (e, left) \<Rightarrow> seq (tell (NotBought node account left)) (\<lambda>_. raise e)
      | Inr sessionId \<Rightarrow> seq (tell (Bought node account sessionId)) (\<lambda>_. ret sessionId)))"

text \<open>One cancel (\<open>endSession\<close> under its timeout) and the note to the renderer.\<close>

definition cancelSession :: "env \<Rightarrow> string \<Rightarrow> history \<Rightarrow> string \<Rightarrow> history \<times> bool" where
  "cancelSession env account h sessionId =
     (if e_cancel env h account sessionId then (h @ [Cancelled account sessionId, SessionsChanged], True)
      else (h @ [NotCancelled account sessionId], False))"

text \<open>The retries of a handshake the node cannot check yet. \<open>shouldRetrySessionHandshake\<close> allows
  two of them, which is what makes the loop end.\<close>

function attempt_handshake :: "env \<Rightarrow> handshake_input \<Rightarrow> nat \<Rightarrow> handshake_output run" where
  "attempt_handshake env p attempt h =
     (case performHandshake env p h of
        (Inr r, h') \<Rightarrow> (Inr r, h')
      | (Inl err, h') \<Rightarrow>
          if \<not> shouldRetrySessionHandshake (fst (describeNodeApiError (f_value err))) attempt then (Inl err, h')
          else attempt_handshake env p (Suc attempt) (h' @ [Waited]))"
  by pat_completeness auto
termination
  by (relation "measure (\<lambda>(env, p, attempt, h). HANDSHAKE_RETRY_MAX_RETRIES - attempt)")
    (auto simp: shouldRetrySessionHandshake_def)

record session_purchase =
  sp_sessionId :: string
  sp_nodeAddress :: string
  sp_nodeType :: int
  sp_apiField :: string
  sp_nodeMoniker :: string
  sp_nodeCountry :: string
  sp_account :: string
  sp_privKey :: "byte list"
  sp_isDeposit :: bool
  sp_remoteUrl :: "string option"

definition establishSessionOrRefund :: "env \<Rightarrow> session_purchase \<Rightarrow> handshake_output run" where
  "establishSessionOrRefund env q =
     catching
       (seq (case sp_remoteUrl q of Some u \<Rightarrow> ret u | None \<Rightarrow> resolveNodeRemoteUrl env (sp_nodeAddress q) (sp_apiField q)) (\<lambda>remoteUrl.
          attempt_handshake env
            \<lparr>hi_sessionId = sp_sessionId q, hi_nodeAddress = sp_nodeAddress q, hi_nodeType = sp_nodeType q,
             hi_remoteUrl = remoteUrl, hi_privKey = sp_privKey q, hi_nodeMoniker = Some (sp_nodeMoniker q),
             hi_nodeCountry = Some (sp_nodeCountry q)\<rparr> 0))
       (\<lambda>err h. let (h', refunded) = cancelSession env (sp_account q) h (sp_sessionId q) in
          (Inl (failed (sessionFailureMessage
             \<lparr>fo_refunded = refunded, fo_isDeposit = sp_isDeposit q, fo_sessionId = sp_sessionId q,
              fo_nodeMoniker = sp_nodeMoniker q, fo_reason = describeHandshakeError (f_value err),
              fo_policyRejected = f_policy err\<rparr>)), h'))"

section \<open>Two sessions\<close>

text \<open>The provisioning proxy: the entry config, pinned and checked, run until it is stopped. A core
  that never listens is stopped before the error is thrown.\<close>

definition PROVISION_SOCKS_PORT :: int where "PROVISION_SOCKS_PORT = 1081"

definition startProvisioningProxy :: "env \<Rightarrow> js \<Rightarrow> unit run" where
  "startProvisioningProxy env config =
     seq (look (e_resolve env)) (\<lambda>resolve.
     let cfg = pinV2RayNodeAddresses resolve (withV2RayDiagnosticLog config) in
     seq (lift (assertSafeV2RayConfig cfg)) (\<lambda>_.
     seq (look (\<lambda>h. e_proxy env h cfg)) (\<lambda>started.
     seq (tell (ProxyUp cfg)) (\<lambda>_.
     (case started of
        Inr _ \<Rightarrow> ret ()
      | Inl reason \<Rightarrow> seq (tell ProxyDown) (\<lambda>_.
          raise (failed (''Could not start the entry hop for provisioning: '' @ reason))))))))"

definition refundSessions :: "env \<Rightarrow> (string \<times> chain_signer) list \<Rightarrow> history \<Rightarrow> history \<times> refund list" where
  "refundSessions env paid h =
     refundEachInTurn
       (\<lambda>s sessionId. (case map_of (rev paid) sessionId of
            Some signer \<Rightarrow> cancelSession env (cg_account signer) s sessionId
          | None \<Rightarrow> (s, False)))
       h (map fst paid)"

text \<open>The local variables of \<open>establishChainOrRefund\<close>.\<close>

record chain_locals =
  cl_paid :: "(string \<times> chain_signer) list"
  cl_failedRole :: "hop_role option"
  cl_proxy :: bool

type_synonym 'a act = "chain_locals \<Rightarrow> history \<Rightarrow> (failure + 'a) \<times> chain_locals \<times> history"

definition doing :: "'a run \<Rightarrow> 'a act" where
  "doing m s h = (case m h of (r, h') \<Rightarrow> (r, s, h'))"

definition assign :: "(chain_locals \<Rightarrow> chain_locals) \<Rightarrow> unit act" where
  "assign f s h = (Inr (), f s, h)"

definition next_act :: "'a act \<Rightarrow> ('a \<Rightarrow> 'b act) \<Rightarrow> 'b act" where
  "next_act m k s h = (case m s h of (Inl e, s', h') \<Rightarrow> (Inl e, s', h') | (Inr v, s', h') \<Rightarrow> k v s' h')"

definition chain_hop_of :: "hop_input \<Rightarrow> string \<Rightarrow> string \<Rightarrow> chain_signer \<Rightarrow> chain_hop" where
  "chain_hop_of hop sessionId url signer =
     \<lparr>ch_sessionId = sessionId, ch_nodeAddress = hp_nodeAddress hop, ch_nodeType = hp_nodeType hop, ch_remoteUrl = url,
      ch_nodeMoniker = Some (hp_nodeMoniker hop), ch_nodeCountry = Some (hp_nodeCountry hop), ch_walletId = cg_walletId signer\<rparr>"

record chain_result =
  cr_configString :: string
  cr_entrySessionId :: string
  cr_exitSessionId :: string
  cr_signer :: reply_signer

definition chain_entry :: "env \<Rightarrow> hop_input \<Rightarrow> chain_signer \<Rightarrow> (chain_hop \<times> signed_hop) act" where
  "chain_entry env entry entrySigner =
     next_act (assign (\<lambda>s. s\<lparr>cl_failedRole := Some Entry\<rparr>)) (\<lambda>_.
     next_act (doing (startSession env (hp_nodeAddress entry) (cg_account entrySigner))) (\<lambda>entrySessionId.
     next_act (assign (\<lambda>s. s\<lparr>cl_paid := cl_paid s @ [(entrySessionId, entrySigner)]\<rparr>)) (\<lambda>_.
     next_act (doing (resolveNodeRemoteUrl env (hp_nodeAddress entry) (hp_apiField entry))) (\<lambda>entryUrl.
     let entryHop = chain_hop_of entry entrySessionId entryUrl entrySigner in
     next_act (doing (handshakeChainEntry env entryHop (cg_privKey entrySigner))) (\<lambda>entrySpec.
     \<lambda>s h. (Inr (entryHop, entrySpec), s, h))))))"

definition chain_proxy :: "env \<Rightarrow> signed_hop \<Rightarrow> unit act" where
  "chain_proxy env entrySpec =
     next_act (assign (\<lambda>s. s\<lparr>cl_failedRole := None\<rparr>)) (\<lambda>_.
     next_act (doing (lift (buildEntryOnlyConfig (sh_spec entrySpec) (JNum (NInt PROVISION_SOCKS_PORT))))) (\<lambda>config.
     next_act (doing (startProvisioningProxy env config)) (\<lambda>_.
     assign (\<lambda>s. s\<lparr>cl_proxy := True\<rparr>))))"

definition chain_exit :: "env \<Rightarrow> hop_input \<Rightarrow> chain_signer \<Rightarrow> (chain_hop \<times> signed_hop) act" where
  "chain_exit env exit exitSigner =
     next_act (assign (\<lambda>s. s\<lparr>cl_failedRole := Some Exit\<rparr>)) (\<lambda>_.
     next_act (doing (preflightConnect env (hp_nodeType exit) (hp_apiField exit) False ViaEntry)) (\<lambda>_.
     next_act (doing (assertChainEligible env exit Exit ViaEntry)) (\<lambda>_.
     next_act (doing (startSession env (hp_nodeAddress exit) (cg_account exitSigner))) (\<lambda>exitSessionId.
     next_act (assign (\<lambda>s. s\<lparr>cl_paid := cl_paid s @ [(exitSessionId, exitSigner)]\<rparr>)) (\<lambda>_.
     next_act (doing (resolveNodeRemoteUrl env (hp_nodeAddress exit) (hp_apiField exit))) (\<lambda>exitUrl.
     let exitHop = chain_hop_of exit exitSessionId exitUrl exitSigner in
     next_act (doing (handshakeChainExit env exitHop (cg_privKey exitSigner))) (\<lambda>exitSpec.
     \<lambda>s h. (Inr (exitHop, exitSpec), s, h))))))))"

definition chain_body :: "env \<Rightarrow> hop_input \<Rightarrow> hop_input \<Rightarrow> chain_signer \<Rightarrow> chain_signer \<Rightarrow> chain_result act" where
  "chain_body env entry exit entrySigner exitSigner =
     next_act (chain_entry env entry entrySigner) (\<lambda>(entryHop, entrySpec).
     next_act (chain_proxy env entrySpec) (\<lambda>_.
     next_act (chain_exit env exit exitSigner) (\<lambda>(exitHop, exitSpec).
     next_act (assign (\<lambda>s. s\<lparr>cl_failedRole := None\<rparr>)) (\<lambda>_.
     next_act (doing (finalizeChain env entryHop exitHop (sh_spec entrySpec) (sh_spec exitSpec))) (\<lambda>configString.
     \<lambda>s h. (Inr \<lparr>cr_configString = configString, cr_entrySessionId = ch_sessionId entryHop,
        cr_exitSessionId = ch_sessionId exitHop, cr_signer = chainSigner (sh_signer entrySpec) (sh_signer exitSpec)\<rparr>, s, h))))))"

definition stop_proxy :: "chain_locals \<Rightarrow> history \<Rightarrow> history" where
  "stop_proxy s h = (if cl_proxy s then h @ [ProxyDown] else h)"

definition establishChainOrRefund ::
  "env \<Rightarrow> hop_input \<Rightarrow> hop_input \<Rightarrow> chain_signer \<Rightarrow> chain_signer \<Rightarrow> chain_result run" where
  "establishChainOrRefund env entry exit entrySigner exitSigner h =
     (case chain_body env entry exit entrySigner exitSigner \<lparr>cl_paid = [], cl_failedRole = None, cl_proxy = False\<rparr> h of
        (Inr result, s, h1) \<Rightarrow> (Inr result, stop_proxy s h1)
      | (Inl err, s, h1) \<Rightarrow>
          let (h2, refunds) = refundSessions env (cl_paid s) h1;
              brokenRole = (case f_role err of Some r \<Rightarrow> Some r | None \<Rightarrow> cl_failedRole s);
              moniker = (if brokenRole = Some Exit then hp_nodeMoniker exit else hp_nodeMoniker entry)
          in (Inl (failed (chainFailureMessage
                \<lparr>cf_reason = describeHandshakeError (f_value err), cf_policyRejected = f_policy err,
                 cf_failedRole = brokenRole, cf_nodeMoniker = moniker, cf_refunds = refunds\<rparr>)),
              stop_proxy s h2))"

end
