(* ===== verification/PurchaseProps.thy ===== *)
theory PurchaseProps
  imports Purchase
begin

text \<open>
  What the purchase paths promise: every session paid for is either returned or its cancel
  attempted by the account that paid, the error names what could not be cancelled, the exit node of
  a chain hears only from the entry, and the provisioning proxy is stopped on every path.
\<close>

declare attempt_handshake.simps [simp del]

section \<open>Reading a history\<close>

definition evs :: "(event \<Rightarrow> 'a list) \<Rightarrow> history \<Rightarrow> 'a list" where
  "evs f h = concat (map f h)"

lemma evs_simps [simp]: "evs f [] = []" "evs f (h @ h') = evs f h @ evs f h'" "evs f (e # h) = f e @ evs f h"
  by (simp_all add: evs_def)

lemma evs_quiet: "list_all (\<lambda>e. f e = []) es \<Longrightarrow> evs f es = []"
  by (induction es) simp_all

definition buys :: "event \<Rightarrow> (string \<times> string) list" where
  "buys e = (case e of Bought node account sessionId \<Rightarrow> [(account, sessionId)] | _ \<Rightarrow> [])"

definition cancels :: "event \<Rightarrow> (string \<times> string) list" where
  "cancels e = (case e of Cancelled account sessionId \<Rightarrow> [(account, sessionId)]
     | NotCancelled account sessionId \<Rightarrow> [(account, sessionId)] | _ \<Rightarrow> [])"

lemma money_simps [simp]:
  "buys (Bought n a i) = [(a, i)]" "buys (Cancelled a i) = []" "buys (NotCancelled a i) = []"
  "buys (NotBought n a left) = []" "buys SessionsChanged = []" "buys (ProxyUp cfg) = []" "buys ProxyDown = []"
  "cancels (Bought n a i) = []" "cancels (Cancelled a i) = [(a, i)]" "cancels (NotCancelled a i) = [(a, i)]"
  "cancels (NotBought n a left) = []" "cancels SessionsChanged = []" "cancels (ProxyUp cfg) = []" "cancels ProxyDown = []"
  by (simp_all add: buys_def cancels_def)

text \<open>The purchases that failed, with what they left.\<close>

definition misses :: "event \<Rightarrow> (string \<times> string \<times> left_over) list" where
  "misses e = (case e of NotBought node account left \<Rightarrow> [(node, account, left)] | _ \<Rightarrow> [])"

lemma misses_simps [simp]:
  "misses (Bought n a i) = []" "misses (Cancelled a i) = []" "misses (NotCancelled a i) = []"
  "misses (NotBought n a left) = [(n, a, left)]" "misses SessionsChanged = []" "misses (ProxyUp cfg) = []" "misses ProxyDown = []"
  by (simp_all add: misses_def)

text \<open>Whether the proxy over the entry hop is running, and whether it ran at every request sent
  through it.\<close>

fun proxy_step :: "bool \<times> bool \<Rightarrow> event \<Rightarrow> bool \<times> bool" where
  "proxy_step (up, good) (ProxyUp cfg) = (True, good)"
| "proxy_step (up, good) ProxyDown = (False, good)"
| "proxy_step (up, good) (Posted ViaEntry url i) = (up, good \<and> up)"
| "proxy_step (up, good) (Asked ViaEntry api) = (up, good \<and> up)"
| "proxy_step (up, good) e = (up, good)"

definition proxy_use :: "history \<Rightarrow> bool \<times> bool" where
  "proxy_use h = foldl proxy_step (False, True) h"

lemma proxy_use_append: "proxy_use (h @ es) = foldl proxy_step (proxy_use h) es"
  by (simp add: proxy_use_def)

text \<open>Events that neither move money nor start or stop the proxy; those that do not go through it.\<close>

definition quiet :: "event \<Rightarrow> bool" where
  "quiet e \<longleftrightarrow> buys e = [] \<and> cancels e = [] \<and> misses e = [] \<and> (case e of ProxyUp _ \<Rightarrow> False | ProxyDown \<Rightarrow> False | _ \<Rightarrow> True)"

definition not_proxied :: "event \<Rightarrow> bool" where
  "not_proxied e \<longleftrightarrow> (case e of Posted via _ _ \<Rightarrow> via = Direct | Asked via _ \<Rightarrow> via = Direct | _ \<Rightarrow> True)"

lemma quiet_simps [simp]:
  "quiet (Posted via url i)" "quiet (Asked via api)" "quiet (ReadRow n row)" "quiet (LookedUp u a)" "quiet (Saved c)"
  "quiet Waited" "quiet SessionsChanged"
  "not_proxied (Posted via url i) \<longleftrightarrow> via = Direct" "not_proxied (Asked via api) \<longleftrightarrow> via = Direct"
  "not_proxied (ReadRow n row)" "not_proxied (LookedUp u a)" "not_proxied (Saved c)" "not_proxied Waited"
  "not_proxied (NotBought n a left)" "not_proxied (Bought n a i)" "not_proxied SessionsChanged"
  "not_proxied (Cancelled a i)" "not_proxied (NotCancelled a i)"
  by (simp_all add: quiet_def buys_def cancels_def misses_def not_proxied_def)

lemma quiet_money: "list_all quiet es \<Longrightarrow> evs buys es = [] \<and> evs cancels es = [] \<and> evs misses es = []"
  by (induction es) (auto simp: quiet_def)

lemma quiet_proxy: "list_all quiet es \<Longrightarrow> foldl proxy_step (True, True) es = (True, True)"
proof (induction es)
  case (Cons e es)
  then have "proxy_step (True, True) e = (True, True)"
    by (cases "((True, True), e)" rule: proxy_step.cases) (simp_all add: quiet_def)
  with Cons show ?case by simp
qed simp

lemma direct_proxy:
  assumes "list_all (\<lambda>e. not_proxied e \<and> (case e of ProxyUp _ \<Rightarrow> False | ProxyDown \<Rightarrow> False | _ \<Rightarrow> True)) es"
  shows "foldl proxy_step (up, good) es = (up, good)"
  using assms
proof (induction es)
  case (Cons e es)
  then have "proxy_step (up, good) e = (up, good)"
    by (cases "((up, good), e)" rule: proxy_step.cases) simp_all
  with Cons show ?case by simp
qed simp

section \<open>Specifications of the steps of a chain purchase\<close>

definition act_spec ::
  "(chain_locals \<Rightarrow> history \<Rightarrow> bool) \<Rightarrow> 'a act \<Rightarrow> ('a \<Rightarrow> chain_locals \<Rightarrow> history \<Rightarrow> bool) \<Rightarrow> (failure \<Rightarrow> chain_locals \<Rightarrow> history \<Rightarrow> bool) \<Rightarrow> bool" where
  "act_spec P m Q R \<longleftrightarrow> (\<forall>s h. P s h \<longrightarrow>
     (case m s h of (Inr v, s', h') \<Rightarrow> Q v s' h' | (Inl e, s', h') \<Rightarrow> R e s' h'))"

lemma act_specD:
  "act_spec P m Q R \<Longrightarrow> P s h \<Longrightarrow> m s h = (Inr v, s', h') \<Longrightarrow> Q v s' h'"
  "act_spec P m Q R \<Longrightarrow> P s h \<Longrightarrow> m s h = (Inl e, s', h') \<Longrightarrow> R e s' h'"
  by (force simp: act_spec_def)+

lemma act_next:
  "act_spec P m M R \<Longrightarrow> (\<And>v. act_spec (M v) (k v) Q R) \<Longrightarrow> act_spec P (next_act m k) Q R"
  unfolding act_spec_def next_act_def by (fastforce split: prod.splits sum.splits)

lemma act_assign: "(\<And>s h. P s h \<Longrightarrow> Q () (f s) h) \<Longrightarrow> act_spec P (assign f) Q R"
  by (simp add: act_spec_def assign_def)

lemma act_return: "(\<And>s h. P s h \<Longrightarrow> Q v s h) \<Longrightarrow> act_spec P (\<lambda>s h. (Inr v, s, h)) Q R"
  by (simp add: act_spec_def)

lemma act_doing:
  assumes "\<And>s h v h'. P s h \<Longrightarrow> m h = (Inr v, h') \<Longrightarrow> Q v s h'"
    and "\<And>s h e h'. P s h \<Longrightarrow> m h = (Inl e, h') \<Longrightarrow> R e s h'"
  shows "act_spec P (doing m) Q R"
  using assms by (auto simp: act_spec_def doing_def split: prod.splits sum.splits)

lemma act_case_prod:
  "(\<And>a b. act_spec (M (a, b)) (k a b) Q R) \<Longrightarrow> act_spec (M x) (case x of (a, b) \<Rightarrow> k a b) Q R"
  by (cases x) simp

section \<open>The invariant of a chain purchase\<close>

text \<open>A request made directly goes to the entry, at an address that follows from what the chain answered about it in
  this purchase, for the session bought there; or it is a read of a node whose address is a plain \<open>http\<close> one.
  Names are only looked up over HTTPS.\<close>

definition contact_ok :: "env \<Rightarrow> hop_input \<Rightarrow> event set \<Rightarrow> event \<Rightarrow> bool" where
  "contact_ok env entry H e \<longleftrightarrow>
     (case e of
        Posted via url i \<Rightarrow> via = ViaEntry \<or>
          (\<exists>row. ReadRow (hp_nodeAddress entry) row \<in> H \<and> remoteUrlFromNode env row (hp_apiField entry) = ok url) \<and>
       (\<exists>a. Bought (hp_nodeAddress entry) a i \<in> H)
      | Asked via api \<Rightarrow> via = ViaEntry \<or> plain_http api
      | LookedUp url host \<Rightarrow> \<exists>ip endpoint. (ip, endpoint) \<in> set DOH_ENDPOINTS \<and> url = doh_url endpoint
      | _ \<Rightarrow> True)"

lemma contact_ok_simps [simp]:
  "contact_ok env entry H (Posted via url i) \<longleftrightarrow> via = ViaEntry \<or>
     (\<exists>row. ReadRow (hp_nodeAddress entry) row \<in> H \<and> remoteUrlFromNode env row (hp_apiField entry) = ok url) \<and>
       (\<exists>a. Bought (hp_nodeAddress entry) a i \<in> H)"
  "contact_ok env entry H (Asked via api) \<longleftrightarrow> via = ViaEntry \<or> plain_http api"
  "contact_ok env entry H (ReadRow n row)" "contact_ok env entry H (Saved c)" "contact_ok env entry H Waited"
  "contact_ok env entry H (NotBought n a left)" "contact_ok env entry H (Bought n a i)" "contact_ok env entry H SessionsChanged"
  "contact_ok env entry H (Cancelled a i)" "contact_ok env entry H (NotCancelled a i)"
  "contact_ok env entry H (ProxyUp cfg)" "contact_ok env entry H ProxyDown"
  "contact_ok env entry H (LookedUp (exit_doh_url resolver) host)"
  using exit_doh_url_known [of resolver] by (simp_all add: contact_ok_def)

lemma contact_ok_mono: "contact_ok env entry H e \<Longrightarrow> H \<subseteq> H' \<Longrightarrow> contact_ok env entry H' e"
  unfolding contact_ok_def by (cases e) auto

definition contacts_ok :: "env \<Rightarrow> hop_input \<Rightarrow> history \<Rightarrow> bool" where
  "contacts_ok env entry h \<longleftrightarrow> (\<forall>e \<in> set h. contact_ok env entry (set h) e)"

lemma contacts_ok_append:
  assumes "contacts_ok env entry h" and "list_all (contact_ok env entry (set h)) es"
  shows "contacts_ok env entry (h @ es)"
  using assms contact_ok_mono [of env entry "set h" _ "set (h @ es)"]
  by (auto simp: contacts_ok_def list_all_iff)

definition payments :: "(string \<times> chain_signer) list \<Rightarrow> (string \<times> string) list" where
  "payments paid = map (\<lambda>(i, signer). (cg_account signer, i)) paid"

text \<open>The chain never hands out a session id twice.\<close>

definition fresh_sessions :: "env \<Rightarrow> bool" where
  "fresh_sessions env \<longleftrightarrow> (\<forall>h node account i. e_buy env h node account = Inr i \<longrightarrow> i \<notin> snd ` set (evs buys h))"

definition once :: "env \<Rightarrow> (string \<times> string) list \<Rightarrow> bool" where
  "once env bs \<longleftrightarrow> (fresh_sessions env \<longrightarrow> distinct (map snd bs))"

lemma once_more:
  assumes "once env (evs buys es)" and "e_buy env (base @ es) n a = Inr i"
  shows "once env (evs buys es @ [(a, i)])"
  unfolding once_def
proof
  assume f: "fresh_sessions env"
  then have "i \<notin> snd ` set (evs buys (base @ es))" using assms(2) unfolding fresh_sessions_def by blast
  then show "distinct (map snd (evs buys es @ [(a, i)]))" using assms(1) f by (auto simp: once_def)
qed

text \<open>\<open>base\<close> is what had happened before the purchase; \<open>extra\<close> is a payment not yet entered in the list
  of what was paid; \<open>up\<close> tells whether the proxy runs.\<close>

definition chain_inv :: "env \<Rightarrow> hop_input \<Rightarrow> history \<Rightarrow> (string \<times> string) list \<Rightarrow> bool \<Rightarrow> chain_locals \<Rightarrow> history \<Rightarrow> bool" where
  "chain_inv env entry base extra up s h \<longleftrightarrow>
     (\<exists>es. h = base @ es \<and> evs buys es = payments (cl_paid s) @ extra \<and> evs cancels es = [] \<and> evs misses es = [] \<and>
        proxy_use es = (up, True) \<and> contacts_ok env entry es \<and> once env (evs buys es))"

definition news :: "history \<Rightarrow> history \<Rightarrow> event set" where
  "news base h = set (drop (length base) h)"

lemma news_append [simp]: "news base (base @ es) = set es"
  by (simp add: news_def)

definition step_ok :: "env \<Rightarrow> hop_input \<Rightarrow> bool \<Rightarrow> event set \<Rightarrow> event \<Rightarrow> bool" where
  "step_ok env entry up H e \<longleftrightarrow> quiet e \<and> (up \<or> not_proxied e) \<and> contact_ok env entry H e"

lemma quiet_direct: "quiet e \<Longrightarrow> not_proxied e \<Longrightarrow> not_proxied e \<and> (case e of ProxyUp _ \<Rightarrow> False | ProxyDown \<Rightarrow> False | _ \<Rightarrow> True)"
  by (simp add: quiet_def)

lemma chain_inv_quiet:
  assumes "chain_inv env entry base extra up s h" and "adds (step_ok env entry up (news base h)) m" and "m h = (r, h')"
  shows "chain_inv env entry base extra up s h' \<and> news base h \<subseteq> news base h'"
proof -
  obtain ds where h: "h = base @ ds" using assms(1) by (auto simp: chain_inv_def)
  obtain es where h': "h' = h @ es" and es: "list_all (step_ok env entry up (set ds)) es"
    using addsD [OF assms(2,3)] unfolding h news_append by blast
  have q: "list_all quiet es" "list_all (contact_ok env entry (set ds)) es"
    using es by (simp_all add: list_all_iff step_ok_def)
  have "foldl proxy_step (up, True) es = (up, True)"
  proof (cases up)
    case True
    then show ?thesis using quiet_proxy [OF q(1)] by simp
  next
    case False
    with es show ?thesis
      by (intro direct_proxy) (auto simp: list_all_iff step_ok_def dest: quiet_direct)
  qed
  then show ?thesis
    using assms(1) quiet_money [OF q(1)] contacts_ok_append [OF _ q(2)]
    by (auto simp: chain_inv_def h h' proxy_use_append)
qed

lemma chain_inv_bought:
  assumes "chain_inv env entry base [] up s h" and "e_buy env h n a = Inr i"
  shows "chain_inv env entry base [(a, i)] up s (h @ [Bought n a i]) \<and> Bought n a i \<in> news base (h @ [Bought n a i])"
proof -
  obtain es where es: "h = base @ es" and m: "evs misses es = []" and b: "evs buys es = payments (cl_paid s)" "evs cancels es = []"
    "proxy_use es = (up, True)" "contacts_ok env entry es" "once env (evs buys es)"
    using assms(1) by (auto simp: chain_inv_def)
  have "once env (evs buys es @ [(a, i)])" using once_more [OF b(5)] assms(2) by (simp add: es)
  then show ?thesis
    using b m contacts_ok_append [of env entry es "[Bought n a i]"]
    by (cases up) (auto simp: chain_inv_def es proxy_use_append)
qed

section \<open>The stages\<close>

text \<open>What is known between two steps: the invariant, the local variables and some past events.\<close>

definition state_ok :: "env \<Rightarrow> hop_input \<Rightarrow> history \<Rightarrow> bool \<Rightarrow> (string \<times> chain_signer) list \<Rightarrow> event set \<Rightarrow> chain_locals \<Rightarrow> history \<Rightarrow> bool" where
  "state_ok env entry base up paid B s h \<longleftrightarrow>
     chain_inv env entry base [] up s h \<and> cl_proxy s = up \<and> cl_paid s = paid \<and> B \<subseteq> news base h"

text \<open>Where a purchase stops: at a step that failed, or at a session that was not sold, with the error of that sale.\<close>

definition stopped_ok :: "env \<Rightarrow> hop_input \<Rightarrow> history \<Rightarrow> failure \<Rightarrow> chain_locals \<Rightarrow> history \<Rightarrow> bool" where
  "stopped_ok env entry base e s h \<longleftrightarrow>
     chain_inv env entry base [] (cl_proxy s) s h \<or>
     (\<exists>g n a left. chain_inv env entry base [] (cl_proxy s) s g \<and> e_buy env g n a = Inl (e, left) \<and> h = g @ [NotBought n a left])"

lemma state_stopped: "state_ok env entry base up paid B s h \<Longrightarrow> stopped_ok env entry base e s h"
  by (simp add: state_ok_def stopped_ok_def)

lemma chain_inv_locals [simp]:
  "chain_inv env entry base extra up (s\<lparr>cl_failedRole := r\<rparr>) h \<longleftrightarrow> chain_inv env entry base extra up s h"
  "chain_inv env entry base extra up (s\<lparr>cl_proxy := b\<rparr>) h \<longleftrightarrow> chain_inv env entry base extra up s h"
  by (simp_all add: chain_inv_def)

lemma act_role:
  "act_spec (state_ok env entry base up paid B) (assign (\<lambda>s. s\<lparr>cl_failedRole := r\<rparr>)) (\<lambda>_. state_ok env entry base up paid B) R"
  by (rule act_assign) (simp add: state_ok_def)

lemma act_pure: "(X \<Longrightarrow> act_spec P k Q R) \<Longrightarrow> act_spec (\<lambda>s h. X \<and> P s h) k Q R"
  by (auto simp: act_spec_def)

lemma act_weaken: "act_spec P' m Q R \<Longrightarrow> (\<And>s h. P s h \<Longrightarrow> P' s h) \<Longrightarrow> act_spec P m Q R"
  by (auto simp: act_spec_def)

text \<open>A step that neither buys nor touches the proxy, and what its result is known to be.\<close>

lemma act_result:
  assumes "\<And>H. B \<subseteq> H \<Longrightarrow> adds (step_ok env entry up H) m" and "\<And>h v h'. m h = (Inr v, h') \<Longrightarrow> X v"
  shows "act_spec (state_ok env entry base up paid B) (doing m) (\<lambda>v s h. X v \<and> state_ok env entry base up paid B s h) (stopped_ok env entry base)"
proof (rule act_doing)
  fix s h v h' assume a: "state_ok env entry base up paid B s h" "m h = (Inr v, h')"
  then show "X v \<and> state_ok env entry base up paid B s h'"
    using chain_inv_quiet [of env entry base "[]" up s h m] assms unfolding state_ok_def by blast
next
  fix s h e h' assume "state_ok env entry base up paid B s h" "m h = (Inl e, h')"
  then show "stopped_ok env entry base e s h'"
    using chain_inv_quiet [of env entry base "[]" up s h m] assms unfolding state_ok_def stopped_ok_def by blast
qed

lemma act_still:
  assumes "\<And>H. B \<subseteq> H \<Longrightarrow> adds (step_ok env entry up H) m"
  shows "act_spec (state_ok env entry base up paid B) (doing m) (\<lambda>_. state_ok env entry base up paid B) (stopped_ok env entry base)"
  using act_result [of B env entry up m "\<lambda>_. True" base] assms by simp

lemma act_buy:
  "act_spec (state_ok env entry base up paid B) (doing (startSession env node account))
     (\<lambda>i s h. chain_inv env entry base [(account, i)] up s h \<and> cl_proxy s = up \<and> cl_paid s = paid \<and> Bought node account i \<in> news base h)
     (stopped_ok env entry base)"
proof (rule act_doing)
  fix s h i h' assume a: "state_ok env entry base up paid B s h" "startSession env node account h = (Inr i, h')"
  then have "h' = h @ [Bought node account i] \<and> e_buy env h node account = Inr i"
    by (auto simp: startSession_def run split: sum.splits elim!: seq_ok [THEN iffD1, elim_format])
  with a show "chain_inv env entry base [(account, i)] up s h' \<and> cl_proxy s = up \<and> cl_paid s = paid \<and> Bought node account i \<in> news base h'"
    using chain_inv_bought by (auto simp: state_ok_def)
next
  fix s h e h' assume a: "state_ok env entry base up paid B s h" "startSession env node account h = (Inl e, h')"
  then obtain left where "e_buy env h node account = Inl (e, left)" "h' = h @ [NotBought node account left]"
    by (auto simp: startSession_def seq_err run split: sum.splits)
  with a show "stopped_ok env entry base e s h'"
    by (auto simp: state_ok_def stopped_ok_def)
qed

lemma act_paid:
  "act_spec (\<lambda>s h. chain_inv env entry base [(cg_account signer, i)] up s h \<and> cl_proxy s = up \<and> cl_paid s = paid \<and>
       Bought node (cg_account signer) i \<in> news base h)
     (assign (\<lambda>s. s\<lparr>cl_paid := cl_paid s @ [(i, signer)]\<rparr>))
     (\<lambda>_. state_ok env entry base up (paid @ [(i, signer)]) {Bought node (cg_account signer) i}) R"
  by (rule act_assign) (auto simp: state_ok_def chain_inv_def payments_def)

lemma adds_preflight [adds_intro]: "F (Asked (dial_used via api) api) \<Longrightarrow> adds F (preflightConnect env nodeType api tunnel via)"
  unfolding preflightConnect_def check_runtime_def node_reports_def case_prod_beta by (intro adds_intro; assumption?)

lemma adds_eligible [adds_intro]: "F (Asked (dial_used via (hp_apiField hop)) (hp_apiField hop)) \<Longrightarrow> adds F (assertChainEligible env hop role via)"
  unfolding assertChainEligible_def Let_def by (intro adds_intro; assumption?)

lemma resolved_url:
  "resolveNodeRemoteUrl env node api h = (Inr url, h') \<Longrightarrow>
     \<exists>row. h' = h @ [ReadRow node row] \<and> remoteUrlFromNode env row api = ok url"
  unfolding resolveNodeRemoteUrl_def seq_ok run lift_ok by auto

text \<open>The entry's address, read from the chain.\<close>

definition row_read :: "env \<Rightarrow> hop_input \<Rightarrow> string \<Rightarrow> event set \<Rightarrow> bool" where
  "row_read env entry url H \<longleftrightarrow>
     (\<exists>row. ReadRow (hp_nodeAddress entry) row \<in> H \<and> remoteUrlFromNode env row (hp_apiField entry) = ok url)"

lemma act_resolve:
  "act_spec (state_ok env entry base up paid B) (doing (resolveNodeRemoteUrl env (hp_nodeAddress entry) (hp_apiField entry)))
     (\<lambda>url s h. \<exists>row. remoteUrlFromNode env row (hp_apiField entry) = ok url \<and>
        state_ok env entry base up paid (insert (ReadRow (hp_nodeAddress entry) row) B) s h) (stopped_ok env entry base)"
proof (rule act_doing)
  have adds: "adds (step_ok env entry up H) (resolveNodeRemoteUrl env (hp_nodeAddress entry) (hp_apiField entry))" for H
    by (intro adds_intro) (simp add: step_ok_def)
  fix s h assume st: "state_ok env entry base up paid B s h"
  then have inv: "chain_inv env entry base [] up s h" by (simp add: state_ok_def)
  fix v h' assume m: "resolveNodeRemoteUrl env (hp_nodeAddress entry) (hp_apiField entry) h = (Inr v, h')"
  from inv obtain es where es: "h = base @ es" by (auto simp: chain_inv_def)
  obtain row where "h' = h @ [ReadRow (hp_nodeAddress entry) row]" "remoteUrlFromNode env row (hp_apiField entry) = ok v"
    using resolved_url [OF m] by blast
  then show "\<exists>row. remoteUrlFromNode env row (hp_apiField entry) = ok v \<and>
      state_ok env entry base up paid (insert (ReadRow (hp_nodeAddress entry) row) B) s h'"
    using chain_inv_quiet [OF inv adds m] st by (intro exI [of _ row]) (auto simp: state_ok_def es news_def)
next
  have adds: "adds (step_ok env entry up H) (resolveNodeRemoteUrl env (hp_nodeAddress entry) (hp_apiField entry))" for H
    by (intro adds_intro) (simp add: step_ok_def)
  fix s h e h' assume "state_ok env entry base up paid B s h"
    "resolveNodeRemoteUrl env (hp_nodeAddress entry) (hp_apiField entry) h = (Inl e, h')"
  then show "stopped_ok env entry base e s h'"
    using chain_inv_quiet [OF _ adds, of base "[]" s h "Inl e" h'] by (simp add: state_ok_def stopped_ok_def)
qed

lemma act_ex:
  assumes "\<And>x. act_spec (P x) k Q R"
  shows "act_spec (\<lambda>s h. \<exists>x. P x s h) k Q R"
  unfolding act_spec_def
proof (intro allI impI)
  fix s h assume "\<exists>x. P x s h"
  then obtain x where x: "P x s h" by blast
  show "case k s h of (Inr v, s', h') \<Rightarrow> Q v s' h' | (Inl e, s', h') \<Rightarrow> R e s' h'"
    by (rule assms [of x, unfolded act_spec_def, rule_format, OF x])
qed

lemma chain_hop_of_simps [simp]:
  "ch_sessionId (chain_hop_of hop i url signer) = i" "ch_nodeAddress (chain_hop_of hop i url signer) = hp_nodeAddress hop"
  "ch_remoteUrl (chain_hop_of hop i url signer) = url"
  by (simp_all add: chain_hop_of_def)

lemma entry_stage:
  "act_spec (state_ok env entry base False [] {}) (chain_entry env entry signer)
     (\<lambda>r. state_ok env entry base False [(ch_sessionId (fst r), signer)] {}) (stopped_ok env entry base)"
  unfolding chain_entry_def Let_def
  apply (rule act_next, rule act_role)
  apply (rule act_next, rule act_buy)
  apply (rule act_next, rule act_paid)
  apply (rule act_next, rule act_resolve)
  apply (rule act_ex, rule act_pure)
  apply (rule act_next, rule act_still)
   apply (unfold handshakeChainEntry_def, intro adds_intro, force simp: step_ok_def)
  apply (rule act_return)
  apply (simp add: state_ok_def)
  done

lemma proxy_started:
  assumes "startProvisioningProxy env config h = (r, h')"
  shows "case r of Inr _ \<Rightarrow> (\<exists>cfg. h' = h @ [ProxyUp cfg]) | Inl _ \<Rightarrow> h' = h \<or> (\<exists>cfg. h' = h @ [ProxyUp cfg, ProxyDown])"
proof -
  let ?cfg = "pinV2RayNodeAddresses (e_resolve env h) (withV2RayDiagnosticLog config)"
  show ?thesis
  proof (cases "assertSafeV2RayConfig ?cfg")
    case (Inl msg)
    with assms show ?thesis by (auto simp: startProvisioningProxy_def Let_def run seq_def)
  next
    case (Inr u)
    with assms show ?thesis
      by (cases "e_proxy env h ?cfg") (auto simp: startProvisioningProxy_def Let_def run seq_def)
  qed
qed

lemma chain_inv_proxy:
  assumes "chain_inv env entry base extra False s h"
  shows "chain_inv env entry base extra True s (h @ [ProxyUp cfg])"
    and "chain_inv env entry base extra False s (h @ [ProxyUp cfg, ProxyDown])"
  using assms contacts_ok_append [of env entry _ "[ProxyUp cfg]"] contacts_ok_append [of env entry _ "[ProxyUp cfg, ProxyDown]"]
  by (auto simp: chain_inv_def proxy_use_append)

lemma act_proxy:
  "act_spec (state_ok env entry base False paid {}) (doing (startProvisioningProxy env config))
     (\<lambda>_ s h. chain_inv env entry base [] True s h \<and> \<not> cl_proxy s \<and> cl_paid s = paid) (stopped_ok env entry base)"
proof (rule act_doing)
  fix s h v h' assume "state_ok env entry base False paid {} s h" "startProvisioningProxy env config h = (Inr v, h')"
  then show "chain_inv env entry base [] True s h' \<and> \<not> cl_proxy s \<and> cl_paid s = paid"
    using proxy_started chain_inv_proxy by (fastforce simp: state_ok_def)
next
  fix s h e h' assume "state_ok env entry base False paid {} s h" "startProvisioningProxy env config h = (Inl e, h')"
  then show "stopped_ok env entry base e s h'"
    using proxy_started [of env config h "Inl e" h'] chain_inv_proxy by (auto simp: state_ok_def stopped_ok_def)
qed

lemma proxy_stage:
  "act_spec (state_ok env entry base False paid {}) (chain_proxy env spec)
     (\<lambda>_. state_ok env entry base True paid {}) (stopped_ok env entry base)"
  unfolding chain_proxy_def
  apply (rule act_next, rule act_role)
  apply (rule act_next, rule act_still, intro adds_intro)
  apply (rule act_next, rule act_proxy)
  apply (rule act_assign, simp add: state_ok_def)
  done

lemma exit_stage:
  "act_spec (state_ok env entry base True paid {}) (chain_exit env exit signer)
     (\<lambda>r. state_ok env entry base True (paid @ [(ch_sessionId (fst r), signer)]) {}) (stopped_ok env entry base)"
  unfolding chain_exit_def Let_def
  apply (rule act_next, rule act_role)
  apply (rule act_next, rule act_still, intro adds_intro, simp add: step_ok_def dial_used_def)
  apply (rule act_next, rule act_still, intro adds_intro, simp add: step_ok_def dial_used_def)
  apply (rule act_next, rule act_buy)
  apply (rule act_next, rule act_paid)
  apply (rule act_next, rule act_still, intro adds_intro, simp add: step_ok_def)
  apply (rule act_next, rule act_still)
   apply (unfold handshakeChainExit_def, intro adds_intro, simp add: step_ok_def)
  apply (rule act_return)
  apply (simp add: state_ok_def)
  done

lemma body_spec:
  "act_spec (state_ok env entry base False [] {}) (chain_body env entry exit s1 s2)
     (\<lambda>r. state_ok env entry base True [(cr_entrySessionId r, s1), (cr_exitSessionId r, s2)] {}) (stopped_ok env entry base)"
  unfolding chain_body_def
  apply (rule act_next, rule entry_stage, rule act_case_prod)
  apply (rule act_next, simp only: fst_conv, rule proxy_stage)
  apply (rule act_next, rule exit_stage, rule act_case_prod)
  apply (rule act_next, simp only: fst_conv, rule act_role)
  apply (rule act_next, rule act_still, rule adds_finalize)
    apply (simp_all add: step_ok_def)
  apply (rule act_return, simp)
  done

section \<open>Refunds\<close>

lemma refundEach_cong:
  "(\<And>s i. i \<in> set ids \<Longrightarrow> c s i = c' s i) \<Longrightarrow> refundEachInTurn c s ids = refundEachInTurn c' s ids"
  by (induction ids arbitrary: s) (auto simp: case_prod_beta Let_def)

lemma refund_pairs:
  assumes "distinct (map fst paid)"
  shows "refundSessions env paid h = refundEachInTurn
     (\<lambda>s i. cancelSession env (cg_account (the (map_of paid i))) s i) h (map fst paid)"
  unfolding refundSessions_def
proof (rule refundEach_cong)
  fix s i assume i: "i \<in> set (map fst paid)"
  then obtain signer where "(i, signer) \<in> set paid" by auto
  with assms have "map_of (rev paid) i = Some signer" "map_of paid i = Some signer"
    by (simp_all add: map_of_is_SomeI rev_map [symmetric])
  then show "(case map_of (rev paid) i of Some signer \<Rightarrow> cancelSession env (cg_account signer) s i | None \<Rightarrow> (s, False)) =
      cancelSession env (cg_account (the (map_of paid i))) s i"
    by simp
qed

text \<open>What one cancel adds, and what a sequence of them adds.\<close>

definition cancel_events :: "string \<Rightarrow> string \<Rightarrow> bool \<Rightarrow> history" where
  "cancel_events account i cancelled = (if cancelled then [Cancelled account i, SessionsChanged] else [NotCancelled account i])"

lemma cancelSession_eq:
  "cancelSession env account h i = (h @ cancel_events account i (e_cancel env h account i), e_cancel env h account i)"
  by (simp add: cancelSession_def cancel_events_def)

definition cancelling :: "event \<Rightarrow> bool" where
  "cancelling e \<longleftrightarrow> (case e of Cancelled _ _ \<Rightarrow> True | NotCancelled _ _ \<Rightarrow> True | SessionsChanged \<Rightarrow> True | _ \<Rightarrow> False)"

lemma cancel_events_simps [simp]:
  "list_all cancelling (cancel_events a i c)" "evs cancels (cancel_events a i c) = [(a, i)]"
  "NotCancelled a' j \<in> set (cancel_events a i c) \<longleftrightarrow> \<not> c \<and> a' = a \<and> j = i"
  by (auto simp: cancel_events_def cancelling_def)

lemma cancelling_simps [simp]:
  "cancelling (Cancelled a i)" "cancelling (NotCancelled a i)" "cancelling SessionsChanged"
  by (simp_all add: cancelling_def)

lemma cancelling_inv:
  assumes "list_all cancelling es"
  shows "evs buys es = []" "evs misses es = []" "foldl proxy_step st es = st" "list_all (contact_ok env entry H) es"
proof -
  have "evs buys es = [] \<and> evs misses es = [] \<and> foldl proxy_step st es = st \<and> list_all (contact_ok env entry H) es"
    using assms
  proof (induction es)
    case (Cons e es)
    then have "buys e = [] \<and> misses e = [] \<and> proxy_step st e = st \<and> contact_ok env entry H e"
      by (cases e; cases st) (simp_all add: cancelling_def)
    with Cons show ?case by simp
  qed simp
  then show "evs buys es = []" "evs misses es = []" "foldl proxy_step st es = st" "list_all (contact_ok env entry H) es" by auto
qed

lemma refunds_cancel:
  assumes "\<And>s i. \<exists>es. fst (c s i) = s @ es \<and> list_all cancelling es"
  shows "\<exists>es. fst (refundEachInTurn c s ids) = s @ es \<and> list_all cancelling es"
proof (induction ids arbitrary: s)
  case (Cons i ids)
  obtain es where es: "fst (c s i) = s @ es" "list_all cancelling es" using assms by blast
  obtain es2 where "fst (refundEachInTurn c (s @ es) ids) = (s @ es) @ es2" "list_all cancelling es2" using Cons.IH by blast
  with es show ?case by (simp add: case_prod_beta Let_def)
qed simp

lemma refund_adds: "\<exists>es. fst (refundSessions env paid h) = h @ es \<and> list_all cancelling es"
  unfolding refundSessions_def
  by (rule refunds_cancel) (simp add: cancelSession_eq split: option.split)

lemma refunds_add:
  "\<exists>es. fst (refundEachInTurn (\<lambda>s i. cancelSession env (f i) s i) h ids) = h @ es \<and>
     evs cancels es = map (\<lambda>i. (f i, i)) ids \<and>
     (\<forall>a i. NotCancelled a i \<in> set es \<longrightarrow>
        (\<exists>r \<in> set (snd (refundEachInTurn (\<lambda>s i. cancelSession env (f i) s i) h ids)). refund_session r = i \<and> \<not> refund_done r))"
proof (induction ids arbitrary: h)
  case (Cons i ids)
  let ?c = "e_cancel env h (f i) i"
  obtain es where es: "fst (refundEachInTurn (\<lambda>s i. cancelSession env (f i) s i) (h @ cancel_events (f i) i ?c) ids) =
        (h @ cancel_events (f i) i ?c) @ es" "evs cancels es = map (\<lambda>i. (f i, i)) ids"
      "\<forall>a j. NotCancelled a j \<in> set es \<longrightarrow>
        (\<exists>r \<in> set (snd (refundEachInTurn (\<lambda>s i. cancelSession env (f i) s i) (h @ cancel_events (f i) i ?c) ids)).
           refund_session r = j \<and> \<not> refund_done r)"
    using Cons.IH by blast
  then show ?case
    by (intro exI [where x = "cancel_events (f i) i ?c @ es"]) (auto simp: cancelSession_eq case_prod_beta Let_def)
qed simp

lemma payments_fst: "distinct (map fst paid) \<Longrightarrow>
    map (\<lambda>i. (cg_account (the (map_of paid i)), i)) (map fst paid) = payments paid"
  by (auto simp: payments_def intro: map_of_is_SomeI)

lemma payments_ids [simp]: "map snd (payments paid) = map fst paid"
  by (auto simp: payments_def)

section \<open>What a chain purchase promises\<close>

text \<open>What the history shows when the purchase is over.\<close>

lemma chain_start: "state_ok env entry base False [] {} \<lparr>cl_paid = [], cl_failedRole = None, cl_proxy = False\<rparr> base"
  by (simp add: state_ok_def chain_inv_def payments_def proxy_use_def contacts_ok_def once_def)

abbreviation start_locals :: chain_locals where
  "start_locals \<equiv> \<lparr>cl_paid = [], cl_failedRole = None, cl_proxy = False\<rparr>"

lemma establish_eqs:
  "chain_body env entry exit s1 s2 start_locals h = (Inr r, s, h1) \<Longrightarrow>
     establishChainOrRefund env entry exit s1 s2 h = (Inr r, stop_proxy s h1)"
  "chain_body env entry exit s1 s2 start_locals h = (Inl err, s, h1) \<Longrightarrow>
     \<exists>msg. establishChainOrRefund env entry exit s1 s2 h =
         (Inl (failed (chainFailureMessage msg)), stop_proxy s (fst (refundSessions env (cl_paid s) h1))) \<and>
       cf_refunds msg = snd (refundSessions env (cl_paid s) h1) \<and>
       cf_reason msg = describeHandshakeError (f_value err) \<and> cf_policyRejected msg = f_policy err"
proof -
  show "chain_body env entry exit s1 s2 start_locals h = (Inr r, s, h1) \<Longrightarrow>
      establishChainOrRefund env entry exit s1 s2 h = (Inr r, stop_proxy s h1)"
    by (simp add: establishChainOrRefund_def)
  assume b: "chain_body env entry exit s1 s2 start_locals h = (Inl err, s, h1)"
  obtain h2 rs where r: "refundSessions env (cl_paid s) h1 = (h2, rs)" by (metis prod.exhaust)
  show "\<exists>msg. establishChainOrRefund env entry exit s1 s2 h =
         (Inl (failed (chainFailureMessage msg)), stop_proxy s (fst (refundSessions env (cl_paid s) h1))) \<and>
       cf_refunds msg = snd (refundSessions env (cl_paid s) h1) \<and>
       cf_reason msg = describeHandshakeError (f_value err) \<and> cf_policyRejected msg = f_policy err"
    unfolding establishChainOrRefund_def b r prod.case sum.case Let_def fst_conv snd_conv
    by (rule exI, rule conjI, rule refl) (simp only: chain_failure.select_convs)
qed

text \<open>At most one hop was asked for and not sold: nothing is bought after it, and the reason it was not is in the
  error, unless that error is the policy's.\<close>

definition one_miss :: "env \<Rightarrow> history \<Rightarrow> string \<Rightarrow> history \<Rightarrow> bool" where
  "one_miss env base msg h \<longleftrightarrow>
     evs misses h = [] \<or>
     (\<exists>pre n a left err post. h = pre @ NotBought n a left # post \<and> evs misses (pre @ post) = [] \<and> evs buys post = [] \<and>
        e_buy env (base @ pre) n a = Inl (err, left) \<and>
        (f_policy err \<or> contains (trimTrailingStop (describeHandshakeError (f_value err))) msg))"

lemma message_gives_reason:
  assumes "\<not> cf_policyRejected opts"
  shows "contains (trimTrailingStop (cf_reason opts)) (chainFailureMessage opts)"
proof -
  obtain pre post where "chainFailureMessage opts = pre @ trimTrailingStop (cf_reason opts) @ post"
    using assms unfolding chainFailureMessage_def Let_def by (simp only: if_False split: if_split) (metis append.assoc)
  then show ?thesis by (simp only: contains_append contains_prefix)
qed

text \<open>What a finished purchase shows: it returned both sessions, or it failed and every session that
  it was sold was cancelled by the account that paid, or is named in the error.\<close>

definition settled :: "env \<Rightarrow> history \<Rightarrow> (failure + chain_result) \<Rightarrow> chain_signer \<Rightarrow> chain_signer \<Rightarrow> history \<Rightarrow> bool" where
  "settled env base out s1 s2 h \<longleftrightarrow>
     (case out of
        Inr r \<Rightarrow> evs buys h = [(cg_account s1, cr_entrySessionId r), (cg_account s2, cr_exitSessionId r)] \<and>
          evs cancels h = [] \<and> evs misses h = []
      | Inl e \<Rightarrow> evs cancels h = evs buys h \<and> one_miss env base (error_message (f_value e)) h \<and>
          (\<forall>a i. NotCancelled a i \<in> set h \<longrightarrow> contains (''#'' @ i) (error_message (f_value e))))"

lemma stop_proxy_eq: "stop_proxy s (base @ es) = base @ stop_proxy s es"
  by (simp add: stop_proxy_def)

lemma stop_proxy_simps [simp]:
  "proxy_use h = (cl_proxy s, True) \<Longrightarrow> proxy_use (stop_proxy s h) = (False, True)"
  "contacts_ok env entry h \<Longrightarrow> contacts_ok env entry (stop_proxy s h)"
  "evs buys (stop_proxy s h) = evs buys h" "evs misses (stop_proxy s h) = evs misses h" "evs cancels (stop_proxy s h) = evs cancels h"
  "NotCancelled a i \<in> set (stop_proxy s h) \<longleftrightarrow> NotCancelled a i \<in> set h"
  using contacts_ok_append [of env entry h "[ProxyDown]"]
  by (auto simp: stop_proxy_def proxy_use_append)

lemma uncancelled: "evs cancels h = [] \<Longrightarrow> NotCancelled a i \<notin> set h"
  by (auto simp: evs_def)

lemma error_message_failed [simp]: "error_message (f_value (failed msg)) = msg"
  by (simp add: error_message_def failed_def)

lemma one_miss_stop: "one_miss env base msg h \<Longrightarrow> one_miss env base msg (stop_proxy s h)"
proof (cases "cl_proxy s")
  case True
  assume "one_miss env base msg h"
  then consider "evs misses h = []" | pre n a left err post where "h = pre @ NotBought n a left # post" "evs misses (pre @ post) = []"
      "evs buys post = []" "e_buy env (base @ pre) n a = Inl (err, left)"
      "f_policy err \<or> contains (trimTrailingStop (describeHandshakeError (f_value err))) msg"
    unfolding one_miss_def by blast
  then show ?thesis
  proof cases
    case 2
    then show ?thesis unfolding one_miss_def
      by (intro disjI2 exI [of _ pre] exI [of _ n] exI [of _ a] exI [of _ left] exI [of _ err] exI [of _ "post @ [ProxyDown]"])
        (simp add: stop_proxy_def True)
  qed (simp add: one_miss_def)
qed (simp add: stop_proxy_def)

text \<open>The refunds of what was paid, with the money the purchase had moved before them.\<close>

lemma refunded:
  assumes "distinct (map fst (cl_paid s))" and "evs cancels ds = []" and "evs buys ds = payments (cl_paid s)"
    and es: "fst (refundSessions env (cl_paid s) (base @ ds)) = base @ ds @ es"
  shows "evs cancels (ds @ es) = evs buys ds"
    and "NotCancelled a i \<in> set (ds @ es) \<Longrightarrow>
      cf_refunds msg = snd (refundSessions env (cl_paid s) (base @ ds)) \<Longrightarrow> contains (''#'' @ i) (chainFailureMessage msg)"
proof -
  note d = assms(1) and c = assms(2) and b = assms(3)
  note add = refunds_add [of env "\<lambda>i. cg_account (the (map_of (cl_paid s) i))" "base @ ds" "map fst (cl_paid s)",
      folded refund_pairs [OF d, of env "base @ ds"], unfolded es]
  then have "evs cancels es = payments (cl_paid s)" using payments_fst [OF d] by auto
  then show "evs cancels (ds @ es) = evs buys ds" by (simp add: c b)
  assume "NotCancelled a i \<in> set (ds @ es)" and m: "cf_refunds msg = snd (refundSessions env (cl_paid s) (base @ ds))"
  then have "NotCancelled a i \<in> set es" using uncancelled [OF c] by auto
  then obtain r where "r \<in> set (cf_refunds msg)" "refund_session r = i" "\<not> refund_done r"
    using add unfolding m by auto
  then show "contains (''#'' @ i) (chainFailureMessage msg)" using message_names_stranded by blast
qed

text \<open>Where the purchase stopped, as a list of events.\<close>

lemma stopped_events:
  assumes "stopped_ok env entry base err s h1"
  shows "\<exists>ds. h1 = base @ ds \<and> evs buys ds = payments (cl_paid s) \<and> evs cancels ds = [] \<and> proxy_use ds = (cl_proxy s, True) \<and>
    contacts_ok env entry ds \<and> once env (evs buys ds) \<and>
    (evs misses ds = [] \<or> (\<exists>pre n a left. ds = pre @ [NotBought n a left] \<and> evs misses pre = [] \<and>
       e_buy env (base @ pre) n a = Inl (err, left)))"
proof -
  consider "chain_inv env entry base [] (cl_proxy s) s h1" | g n a left where "chain_inv env entry base [] (cl_proxy s) s g"
      "e_buy env g n a = Inl (err, left)" "h1 = g @ [NotBought n a left]"
    using assms unfolding stopped_ok_def by blast
  then show ?thesis
  proof cases
    case 1
    then show ?thesis by (auto simp: chain_inv_def)
  next
    case 2
    then obtain es where "g = base @ es" "evs buys es = payments (cl_paid s)" "evs cancels es = []" "evs misses es = []"
      "proxy_use es = (cl_proxy s, True)" "contacts_ok env entry es" "once env (evs buys es)"
      by (auto simp: chain_inv_def)
    with 2 contacts_ok_append [of env entry es "[NotBought n a left]"] show ?thesis
      by (intro exI [of _ "es @ [NotBought n a left]"]) (cases "cl_proxy s"; auto simp: proxy_use_append)
  qed
qed

lemma chain_over:
  assumes "establishChainOrRefund env entry exit s1 s2 base = (out, h)"
  shows "\<exists>es. h = base @ es \<and> proxy_use es = (False, True) \<and> contacts_ok env entry es \<and>
    (fresh_sessions env \<longrightarrow> settled env base out s1 s2 es)"
proof -
  obtain b s h1 where b: "chain_body env entry exit s1 s2 start_locals base = (b, s, h1)" by (metis prod_cases3)
  show ?thesis
  proof (cases b)
    case (Inr r)
    then have "state_ok env entry base True [(cr_entrySessionId r, s1), (cr_exitSessionId r, s2)] {} s h1"
      using act_specD(1) [OF body_spec chain_start] b by blast
    then show ?thesis
      using assms establish_eqs(1) [OF b [unfolded Inr]]
      by (auto simp: state_ok_def chain_inv_def payments_def settled_def stop_proxy_eq)
  next
    case (Inl err)
    then have "stopped_ok env entry base err s h1"
      using act_specD(2) [OF body_spec chain_start] b by fastforce
    from stopped_events [OF this] obtain ds where h1: "h1 = base @ ds" and ds: "evs buys ds = payments (cl_paid s)" "evs cancels ds = []"
        "proxy_use ds = (cl_proxy s, True)" "contacts_ok env entry ds" "once env (evs buys ds)"
      and miss: "evs misses ds = [] \<or> (\<exists>pre n a left. ds = pre @ [NotBought n a left] \<and> evs misses pre = [] \<and>
         e_buy env (base @ pre) n a = Inl (err, left))"
      by (elim exE conjE) (rule that, assumption+)
    obtain msg where e: "out = Inl (failed (chainFailureMessage msg))" "h = stop_proxy s (fst (refundSessions env (cl_paid s) h1))"
        "cf_refunds msg = snd (refundSessions env (cl_paid s) h1)"
        "cf_reason msg = describeHandshakeError (f_value err)" "cf_policyRejected msg = f_policy err"
      using assms establish_eqs(2) [OF b [unfolded Inl]] by auto
    obtain es where es: "fst (refundSessions env (cl_paid s) (base @ ds)) = base @ ds @ es" "list_all cancelling es"
      using refund_adds [of env "cl_paid s" "base @ ds"] by auto
    have "proxy_use (ds @ es) = (cl_proxy s, True)" "contacts_ok env entry (ds @ es)" "evs buys (ds @ es) = evs buys ds"
      using ds cancelling_inv [OF es(2)] contacts_ok_append [of env entry ds es]
      by (auto simp: proxy_use_append)
    moreover have "one_miss env base (chainFailureMessage msg) (ds @ es)"
      using miss cancelling_inv(1,2) [OF es(2)] message_gives_reason [of msg] e(4,5)
      unfolding one_miss_def by fastforce
    moreover have "h = base @ stop_proxy s (ds @ es)"
      using e(2) es(1) stop_proxy_eq [of s base "ds @ es"] by (simp add: h1)
    moreover have "distinct (map fst (cl_paid s))" if "fresh_sessions env"
      using ds(1,5) that by (simp add: once_def)
    ultimately show ?thesis
      using refunded [OF _ ds(2,1) es(1)] e
      by (intro exI [where x = "stop_proxy s (ds @ es)"]) (auto simp: settled_def h1 intro: one_miss_stop)
  qed
qed

section \<open>The properties of a chain purchase\<close>

text \<open>
  In a chain purchase (\<open>establishChainOrRefund\<close>), whatever happened before it, whatever the nodes, the
  chain and the resolvers answer and wherever it fails: every request to the exit node goes through the proxy over the entry
  while that proxy runs, the proxy is stopped at the end, the only request made directly is the
  entry's handshake, at an address of the entry's own record for a session bought there, and while
  the chain is built the exit's host names are asked of the HTTPS resolvers alone. An exit whose directory address
  is a plain \<open>http\<close> one is the exception: what it serves is then read directly.
\<close>

theorem exit_hears_only_the_entry:
  "\<exists>es. snd (establishChainOrRefund env entry exit s1 s2 before) = before @ es \<and>
     proxy_use es = (False, True) \<and> contacts_ok env entry es"
  using chain_over [of env entry exit s1 s2 before, OF surjective_pairing] by blast

text \<open>
  A chain purchase accounts for every payment (\<open>establishChainOrRefund\<close>, \<open>refundSessions\<close>):
  it returns both sessions, bought in order by the two accounts and none cancelled, or it fails, and
  then exactly the sessions that were sold have been cancelled, in the order of purchase, each by
  the account that paid for it, and the error names every one whose cancel did not go through; at most one sale
  failed, nothing was bought after it, and the error says why. The chain hands out fresh session ids.
\<close>

theorem chain_sessions_settled:
  assumes "fresh_sessions env"
  shows "\<exists>es. snd (establishChainOrRefund env entry exit s1 s2 before) = before @ es \<and>
    settled env before (fst (establishChainOrRefund env entry exit s1 s2 before)) s1 s2 es"
  using chain_over [of env entry exit s1 s2 before, OF surjective_pairing] assms by blast

text \<open>A world to evaluate the theorems on: the node's address is unknown and no cancel goes through.\<close>

definition sample_env :: env where
  "sample_env = \<lparr>e_crypto = sample_crypto, e_isCert = (\<lambda>_. True), e_parsesKey = (\<lambda>_ _. True), e_parse = (\<lambda>_. None),
     e_wire = (\<lambda>_ _ _ _. Inl (failed ''down'')), e_now = (\<lambda>_. 0), e_grants = (\<lambda>_ _ _. ok []),
     e_serviceType = (\<lambda>_ _ _. ok (JStr ''xray'')), e_signsReplies = (\<lambda>_ _ _. ok True), e_inbounds = (\<lambda>_ _ _. ok (JArr [])),
     e_nodeRow = (\<lambda>_ _. None), e_safeUrl = (\<lambda>_. True), e_buy = (\<lambda>h _ _. Inr (concat (map snd (evs buys h)) @ ''1'')),
     e_cancel = (\<lambda>_ _ _. False), e_resolve = (\<lambda>_ _. None), e_proxy = (\<lambda>_ _. ok ()), e_doh = (\<lambda>_ _ _. None),
     e_uuid = (\<lambda>_. ''ab''), e_keypair = (\<lambda>_. ('''', '''')), e_draws = (\<lambda>_. (0, 0, 0)), e_freePort = (\<lambda>_. ok 1),
     e_signedOnly = (\<lambda>_. True), e_dnsResolver = (\<lambda>_. ''''), e_secureStorage = True, e_systemReady = (\<lambda>_ _. ok ()),
     e_runtimeError = (\<lambda>_. None), e_missingOp = (\<lambda>_. False)\<rparr>"

definition sample_node :: "string \<Rightarrow> hop_input" where
  "sample_node node = \<lparr>hp_nodeAddress = node, hp_nodeType = 4, hp_apiField = '''', hp_nodeMoniker = node, hp_nodeCountry = ''''\<rparr>"

definition sample_signer :: "string \<Rightarrow> chain_signer" where
  "sample_signer account = \<lparr>cg_account = account, cg_privKey = [], cg_walletId = None\<rparr>"

lemma length_concat_ge: "x \<in> set xs \<Longrightarrow> length x \<le> length (concat xs)"
  by (induction xs) auto

lemma sample_fresh: "fresh_sessions sample_env"
  unfolding fresh_sessions_def
proof (intro allI impI)
  fix h node account i assume "e_buy sample_env h node account = Inr i"
  then have "length i = Suc (length (concat (map snd (evs buys h))))" by (auto simp: sample_env_def)
  then show "i \<notin> snd ` set (evs buys h)"
    using length_concat_ge [of i "map snd (evs buys h)"] by auto
qed

lemma sample_unresolved:
  "establishChainOrRefund sample_env (sample_node ''n'') (sample_node ''x'') (sample_signer ''a'') (sample_signer ''b'') [] =
     (Inl (failed (chainFailureMessage \<lparr>cf_reason = ''Cannot resolve node remote address'', cf_policyRejected = False,
        cf_failedRole = Some Entry, cf_nodeMoniker = ''n'', cf_refunds = [\<lparr>refund_session = ''1'', refund_done = False\<rparr>]\<rparr>)),
      [Bought ''n'' ''a'' ''1'', ReadRow ''n'' None, NotCancelled ''a'' ''1''])"
  by (simp add: establishChainOrRefund_def chain_body_def chain_entry_def next_act_def assign_def doing_def startSession_def
    seq_def look_def tell_def ret_def resolveNodeRemoteUrl_def remoteUrlFromNode_def sample_env_def sample_node_def
    sample_signer_def raise_def failed_def refundSessions_def cancelSession_def stop_proxy_def describeHandshakeError_def
    error_message_def Let_def)

lemma chain_sessions_settled_witness:
  "settled sample_env [] (Inl (failed (chainFailureMessage \<lparr>cf_reason = ''Cannot resolve node remote address'', cf_policyRejected = False,
        cf_failedRole = Some Entry, cf_nodeMoniker = ''n'', cf_refunds = [\<lparr>refund_session = ''1'', refund_done = False\<rparr>]\<rparr>)))
     (sample_signer ''a'') (sample_signer ''b'') [Bought ''n'' ''a'' ''1'', ReadRow ''n'' None, NotCancelled ''a'' ''1'']"
  using chain_sessions_settled [OF sample_fresh, of "sample_node ''n''" "sample_node ''x''" "sample_signer ''a''" "sample_signer ''b''" "[]"]
  unfolding sample_unresolved by simp

text \<open>
  A purchase that timed out may have been included, and nothing is cancelled for it: when it is the first of the two, the
  error ends with \<open>No sessions were created\<close> all the same, although its reason says that the transaction may still be
  processing. An exit with a plain \<open>http\<close> address is asked directly by a check that is to go through the entry.
\<close>

lemma denies_sessions:
  assumes "cf_refunds opts = []"
  shows "contains ''No sessions were created.'' (chainFailureMessage opts)"
proof -
  have "contains ''No sessions were created.'' (''. '' @ ''No sessions were created.'' @ [])"
    by (rule contains_append, rule contains_prefix)
  then have "contains ''No sessions were created.'' (pre @ ''. No sessions were created.'')" for pre
    using contains_append by (simp only: append_Cons append_Nil)
  then show ?thesis unfolding chainFailureMessage_def Let_def by - (subst if_P, rule assms)
qed

lemma pending_sale_denied:
  assumes "e_buy env h (hp_nodeAddress entry) (cg_account s1) = Inl (failed reason, TxPending)"
  shows "\<exists>msg. establishChainOrRefund env entry exit s1 s2 h =
      (Inl (failed msg), h @ [NotBought (hp_nodeAddress entry) (cg_account s1) TxPending]) \<and>
    contains ''No sessions were created.'' msg"
proof -
  have b: "chain_body env entry exit s1 s2 start_locals h =
      (Inl (failed reason), start_locals\<lparr>cl_failedRole := Some Entry\<rparr>, h @ [NotBought (hp_nodeAddress entry) (cg_account s1) TxPending])"
    using assms by (simp add: chain_body_def chain_entry_def next_act_def assign_def doing_def startSession_def
      seq_def look_def tell_def raise_def)
  from establish_eqs(2) [OF this] denies_sessions show ?thesis
    by (auto simp: refundSessions_def stop_proxy_def)
qed

lemma plain_http_exit_asked_directly:
  "plain_http api \<Longrightarrow> snd (askNode f ViaEntry api h) = h @ [Asked Direct api]"
  by (cases "f h Direct api") (simp_all add: askNode_def dial_used_def seq_def run lift_def)

end
