(* ===== verification/SessionProps.thy ===== *)
theory SessionProps
  imports PurchaseProps
begin

text \<open>
  What one handshake and one session purchase promise, proved with a small logic of runs:
  \<open>delta m Q E\<close> says what a run appends to the history, with its result when it returns (\<open>Q\<close>) and
  with its error when it throws (\<open>E\<close>).
\<close>

section \<open>The logic of runs\<close>

definition delta :: "'a run \<Rightarrow> ('a \<Rightarrow> history \<Rightarrow> bool) \<Rightarrow> (failure \<Rightarrow> history \<Rightarrow> bool) \<Rightarrow> bool" where
  "delta m Q E \<longleftrightarrow> (\<forall>h. \<exists>es. snd (m h) = h @ es \<and> (case fst (m h) of Inr v \<Rightarrow> Q v es | Inl e \<Rightarrow> E e es))"

named_theorems delta_rule \<open>what a run appends, by its form\<close>

lemma deltaI: "(\<And>h. \<exists>es. snd (m h) = h @ es \<and> (case fst (m h) of Inr v \<Rightarrow> Q v es | Inl e \<Rightarrow> E e es)) \<Longrightarrow> delta m Q E"
  by (simp add: delta_def)

lemma deltaD: "delta m Q E \<Longrightarrow> \<exists>es. snd (m h) = h @ es \<and> (case fst (m h) of Inr v \<Rightarrow> Q v es | Inl e \<Rightarrow> E e es)"
  by (simp add: delta_def)

lemma delta_ret [delta_rule]: "Q v [] \<Longrightarrow> delta (ret v) Q E"
  by (simp add: delta_def run)

lemma delta_raise [delta_rule]: "E e [] \<Longrightarrow> delta (raise e) Q E"
  by (simp add: delta_def run)

lemma delta_tell [delta_rule]: "Q () [ev] \<Longrightarrow> delta (tell ev) Q E"
  by (simp add: delta_def run)

lemma delta_look [delta_rule]: "(\<And>h. Q (f h) []) \<Longrightarrow> delta (look f) Q E"
  by (simp add: delta_def run)

lemma delta_lift [delta_rule]:
  "(\<And>v. r = Inr v \<Longrightarrow> Q v []) \<Longrightarrow> (\<And>msg. r = Inl msg \<Longrightarrow> E (failed msg) []) \<Longrightarrow> delta (lift r) Q E"
  by (cases r) (simp_all add: delta_ret delta_raise)

lemma delta_settle [delta_rule]:
  "(\<And>v. r = Inr v \<Longrightarrow> Q v []) \<Longrightarrow> (\<And>e. r = Inl e \<Longrightarrow> E e []) \<Longrightarrow> delta (settle r) Q E"
  by (cases r) (simp_all add: delta_def run)

lemma delta_seq:
  assumes m: "delta m M E" and k: "\<And>v es. M v es \<Longrightarrow> delta (k v) (\<lambda>w es'. Q w (es @ es')) (\<lambda>e es'. E e (es @ es'))"
  shows "delta (seq m k) Q E"
proof (rule deltaI)
  fix h
  obtain es where es: "snd (m h) = h @ es" "case fst (m h) of Inr v \<Rightarrow> M v es | Inl e \<Rightarrow> E e es" using deltaD [OF m] by blast
  show "\<exists>es. snd (seq m k h) = h @ es \<and> (case fst (seq m k h) of Inr v \<Rightarrow> Q v es | Inl e \<Rightarrow> E e es)"
  proof (cases "fst (m h)")
    case (Inl e)
    with es show ?thesis by (auto simp: seq_def case_prod_beta)
  next
    case (Inr v)
    with es have "M v es" by simp
    from deltaD [OF k [OF this], of "h @ es"] Inr es(1) show ?thesis by (auto simp: seq_def case_prod_beta)
  qed
qed

lemma delta_catching:
  assumes m: "delta m Q M" and k: "\<And>e es. M e es \<Longrightarrow> delta (k e) (\<lambda>w es'. Q w (es @ es')) (\<lambda>e es'. E e (es @ es'))"
  shows "delta (catching m k) Q E"
proof (rule deltaI)
  fix h
  obtain es where es: "snd (m h) = h @ es" "case fst (m h) of Inr v \<Rightarrow> Q v es | Inl e \<Rightarrow> M e es" using deltaD [OF m] by blast
  show "\<exists>es. snd (catching m k h) = h @ es \<and> (case fst (catching m k h) of Inr v \<Rightarrow> Q v es | Inl e \<Rightarrow> E e es)"
  proof (cases "fst (m h)")
    case (Inl e)
    with es have "M e es" by simp
    from deltaD [OF k [OF this], of "h @ es"] Inl es(1) show ?thesis by (auto simp: catching_def case_prod_beta)
  next
    case (Inr v)
    with es show ?thesis by (auto simp: catching_def case_prod_beta)
  qed
qed

lemma delta_weaken:
  assumes m: "delta m M F" and "\<And>v es. M v es \<Longrightarrow> Q v es" and "\<And>e es. F e es \<Longrightarrow> E e es"
  shows "delta m Q E"
proof (rule deltaI)
  fix h
  show "\<exists>es. snd (m h) = h @ es \<and> (case fst (m h) of Inr v \<Rightarrow> Q v es | Inl e \<Rightarrow> E e es)"
    using deltaD [OF m, of h] assms(2,3) by (cases "fst (m h)") auto
qed

text \<open>A look and a lifted result in front of a run.\<close>

lemma delta_look_seq [delta_rule]:
  assumes "\<And>v. delta (k v) Q E"
  shows "delta (seq (look f) k) Q E"
proof (rule deltaI)
  fix h
  have "seq (look f) k h = k (f h) h" by (simp add: seq_def look_def)
  then show "\<exists>es. snd (seq (look f) k h) = h @ es \<and> (case fst (seq (look f) k h) of Inr v \<Rightarrow> Q v es | Inl e \<Rightarrow> E e es)"
    using deltaD [OF assms] by simp
qed

lemma delta_lift_seq [delta_rule]:
  assumes "\<And>v. r = Inr v \<Longrightarrow> delta (k v) Q E" and "\<And>msg. r = Inl msg \<Longrightarrow> E (failed msg) []"
  shows "delta (seq (lift r) k) Q E"
proof (cases r)
  case (Inl msg)
  then show ?thesis using assms(2) delta_raise by simp
next
  case (Inr v)
  then show ?thesis using assms(1) by simp
qed

lemma delta_if [delta_rule]:
  "(b \<Longrightarrow> delta m Q E) \<Longrightarrow> (\<not> b \<Longrightarrow> delta n Q E) \<Longrightarrow> delta (if b then m else n) Q E"
  by simp

lemma delta_pair [delta_rule]:
  "(\<And>a b. x = (a, b) \<Longrightarrow> delta (k a b) Q E) \<Longrightarrow> delta (case x of (a, b) \<Rightarrow> k a b) Q E"
  by (simp split: prod.split)

section \<open>One handshake\<close>

text \<open>What a handshake may do to the outside world: read the inbound list of the node it was
  given and post to it, directly, for its own session.\<close>

definition handshake_contact :: "string \<Rightarrow> string \<Rightarrow> event \<Rightarrow> bool" where
  "handshake_contact url i e \<longleftrightarrow> e = Posted Direct url i \<or> e = Asked Direct url"

definition posts :: "event \<Rightarrow> unit list" where
  "posts e = (case e of Posted _ _ _ \<Rightarrow> [()] | _ \<Rightarrow> [])"

definition waits :: "event \<Rightarrow> unit list" where
  "waits e = (case e of Waited \<Rightarrow> [()] | _ \<Rightarrow> [])"

lemma posts_simps [simp]:
  "posts (Posted via url i) = [()]" "posts (Asked via url) = []" "posts (Saved c) = []" "posts Waited = []"
  "posts (ReadRow n row) = []" "posts (Cancelled a i) = []" "posts (NotCancelled a i) = []" "posts SessionsChanged = []"
  "waits (Posted via url i) = []" "waits (Asked via url) = []" "waits (Saved c) = []" "waits Waited = [()]"
  "waits (ReadRow n row) = []" "waits (Cancelled a i) = []" "waits (NotCancelled a i) = []" "waits SessionsChanged = []"
  "handshake_contact url i (Posted Direct url i)" "handshake_contact url i (Asked Direct url)"
  by (simp_all add: posts_def waits_def handshake_contact_def)

lemma delta_signedHandshake:
  "delta (signedHandshake env i node req key url via)
     (\<lambda>r es. es = [Posted via url i] \<and> (sr_signer r \<noteq> Unsigned \<or> \<not> (\<forall>h. e_signedOnly env h)))
     (\<lambda>_ es. es = [] \<or> es = [Posted via url i])"
  unfolding signedHandshake_def
  apply (rule delta_lift_seq)
   apply (rule delta_seq [where M = "\<lambda>_ es. es = [Posted via url i]"])
    apply (unfold postHandshake_def, rule delta_look_seq)
    apply (rule delta_seq [where M = "\<lambda>_ es. es = [Posted via url i]"], rule delta_tell, simp)
    apply (rule delta_settle, simp, simp)
   apply (rule delta_look_seq, rule delta_lift_seq)
    apply (rule delta_seq [where M = "\<lambda>v es. es = [] \<and> (v \<or> \<not> (\<forall>h. e_signedOnly env h))"])
     apply (rule delta_look, blast)
    apply (rule delta_if, rule delta_raise, simp)
    apply (rule delta_ret, auto)
  done


definition saved_of :: "env \<Rightarrow> handshake_input \<Rightarrow> handshake_output \<Rightarrow> history" where
  "saved_of env p r = (if e_secureStorage env
     then [Saved \<lparr>sc_sessionId = hi_sessionId p, sc_protocol = ho_protocol r, sc_configString = ho_configString r,
            sc_nodeAddress = hi_nodeAddress p, sc_nodeMoniker = hi_nodeMoniker p, sc_nodeCountry = hi_nodeCountry p,
            sc_chainPeer = None, sc_chainRole = None, sc_walletId = None, sc_nodeType = None\<rparr>]
     else [])"

definition contacted :: "handshake_input \<Rightarrow> history \<Rightarrow> bool" where
  "contacted p es \<longleftrightarrow> list_all (handshake_contact (hi_remoteUrl p) (hi_sessionId p)) es"

definition handshake_done :: "env \<Rightarrow> handshake_input \<Rightarrow> handshake_output \<Rightarrow> history \<Rightarrow> bool" where
  "handshake_done env p r es \<longleftrightarrow>
     (\<exists>pre. es = pre @ saved_of env p r \<and> contacted p pre \<and> length (evs posts pre) = 1) \<and>
     (ho_signer r \<noteq> Unsigned \<or> \<not> (\<forall>h. e_signedOnly env h))"

definition handshake_failed :: "handshake_input \<Rightarrow> history \<Rightarrow> bool" where
  "handshake_failed p es \<longleftrightarrow> contacted p es \<and> length (evs posts es) \<le> 1"

lemma contacted_simps [simp]:
  "contacted p []" "contacted p (es @ es') \<longleftrightarrow> contacted p es \<and> contacted p es'"
  "contacted p [Posted Direct (hi_remoteUrl p) (hi_sessionId p)]" "contacted p [Asked Direct (hi_remoteUrl p)]"
  by (simp_all add: contacted_def)

lemma delta_finish:
  assumes "contacted p pre" "length (evs posts pre) = 1" "signer \<noteq> Unsigned \<or> \<not> (\<forall>h. e_signedOnly env h)"
  shows "delta (finish env p protocol config summary signer)
    (\<lambda>r es. handshake_done env p r (pre @ es)) (\<lambda>_ es. handshake_failed p (pre @ es))"
  unfolding finish_def saveSessionConfig_def
  apply (rule delta_seq [where M = "\<lambda>_ es. es = saved_of env p
    \<lparr>ho_protocol = protocol, ho_configString = config, ho_v2raySummary = summary, ho_signer = signer\<rparr>"])
   apply (rule delta_if)
    apply (rule delta_tell, simp add: saved_of_def)
   apply (rule delta_ret, simp add: saved_of_def)
  apply (rule delta_ret)
  using assms by (auto simp: handshake_done_def)

text \<open>A shake after reads of the node; what follows it starts from exactly one post.\<close>

lemma delta_shake_seq:
  assumes "contacted p pre" "evs posts pre = []"
    and "\<And>v r es. contacted p es \<Longrightarrow> length (evs posts es) = 1 \<Longrightarrow> sr_signer r \<noteq> Unsigned \<or> \<not> (\<forall>h. e_signedOnly env h) \<Longrightarrow>
      delta (k (v, r)) (\<lambda>w es'. handshake_done env p w (es @ es')) (\<lambda>_ es'. handshake_failed p (es @ es'))"
  shows "delta (seq (shake env p req) k) (\<lambda>w es. handshake_done env p w (pre @ es)) (\<lambda>_ es. handshake_failed p (pre @ es))"
  unfolding shake_def
  apply (rule delta_seq [where M = "\<lambda>(v, r) es. es = [Posted Direct (hi_remoteUrl p) (hi_sessionId p)] \<and>
      (sr_signer r \<noteq> Unsigned \<or> \<not> (\<forall>h. e_signedOnly env h))"])
   apply (rule delta_seq, rule delta_weaken, rule delta_signedHandshake, assumption)
    apply (use assms(1,2) in \<open>force simp: handshake_failed_def\<close>)
   apply (rule delta_lift_seq, rule delta_ret)
    apply simp
   apply (use assms(1,2) in \<open>force simp: handshake_failed_def\<close>)
  subgoal for x es
    using assms(3) [of "pre @ es" "snd x" "fst x"] assms(1,2) by (cases x) simp
  done

lemma failed_after: "contacted p es \<Longrightarrow> length (evs posts es) = 1 \<Longrightarrow> handshake_failed p (es @ [])"
  by (simp add: handshake_failed_def)

lemma delta_build:
  assumes "contacted p pre" "length (evs posts pre) = 1" "signer \<noteq> Unsigned \<or> \<not> (\<forall>h. e_signedOnly env h)"
  shows "delta (seq (lift built) (\<lambda>config. finish env p protocol (text config) summary signer))
    (\<lambda>r es. handshake_done env p r (pre @ es)) (\<lambda>_ es. handshake_failed p (pre @ es))"
  by (rule delta_lift_seq, rule delta_finish [OF assms], rule failed_after [OF assms(1,2)])

lemma done_start: "delta m (\<lambda>r es. handshake_done env p r ([] @ es)) (\<lambda>_ es. handshake_failed p ([] @ es)) \<Longrightarrow>
    delta m (handshake_done env p) (\<lambda>_. handshake_failed p)"
  by simp

lemma delta_wireguard: "delta (shake_wireguard env p) (handshake_done env p) (\<lambda>_. handshake_failed p)"
  unfolding shake_wireguard_def
  apply (rule done_start, rule delta_look_seq, rule delta_pair, rule delta_shake_seq, simp, simp, simp only: prod.case)
  apply (erule (2) delta_build)
  done


lemma delta_xray: "delta (shake_xray env p) (handshake_done env p) (\<lambda>_. handshake_failed p)"
  unfolding shake_xray_def
  apply (rule done_start, rule delta_look_seq, rule delta_shake_seq, simp, simp, simp only: prod.case)
  apply (erule (2) delta_build)
  done

lemma delta_hysteria2: "delta (shake_hysteria2 env p) (handshake_done env p) (\<lambda>_. handshake_failed p)"
  unfolding shake_hysteria2_def
  apply (rule done_start, rule delta_look_seq, rule delta_shake_seq, simp, simp, simp only: prod.case)
  apply (erule (2) delta_build)
  done

lemma delta_openvpn: "delta (shake_openvpn env p) (handshake_done env p) (\<lambda>_. handshake_failed p)"
  unfolding shake_openvpn_def
  apply (rule done_start, rule delta_look_seq, rule delta_shake_seq, simp, simp, simp only: prod.case)
  apply (erule (2) delta_build)
  done

lemma delta_ask:
  "(\<And>v. Q v [Asked Direct api]) \<Longrightarrow> (\<And>msg. E (failed msg) [Asked Direct api]) \<Longrightarrow> delta (askNode f Direct api) Q E"
  unfolding askNode_def Let_def dial_used_direct
  apply (rule delta_look_seq, rule delta_seq [where M = "\<lambda>_ es. es = [Asked Direct api]"], rule delta_tell, rule refl)
  apply (rule delta_lift, simp_all)
  done

lemma delta_amneziawg: "delta (shake_amneziawg env p) (handshake_done env p) (\<lambda>_. handshake_failed p)"
  unfolding shake_amneziawg_def
  apply (rule done_start, rule delta_look_seq, rule delta_pair)
  apply (rule delta_seq [where M = "\<lambda>_ es. es = [Asked Direct (hi_remoteUrl p)]"])
   apply (rule delta_catching [where M = "\<lambda>_ es. es = [Asked Direct (hi_remoteUrl p)]"])
    apply (rule delta_seq [where M = "\<lambda>_ es. es = [Asked Direct (hi_remoteUrl p)]"])
     apply (rule delta_ask, rule refl, rule refl)
    apply (rule delta_ret, simp)
   apply (rule delta_ret, simp)
  apply (simp only: append_Nil)
  apply (rule delta_shake_seq, simp, simp, simp only: prod.case)
  apply (rule delta_look_seq, erule (2) delta_build)
  done

lemma delta_v2ray: "delta (shake_v2ray env p) (handshake_done env p) (\<lambda>_. handshake_failed p)"
  unfolding shake_v2ray_def Let_def
  apply (rule done_start, rule delta_look_seq, rule delta_shake_seq, simp, simp, simp only: prod.case)
  subgoal for uuid v r es
    apply (rule delta_seq [where M = "\<lambda>_ es. es = []"])
     apply (cases "is_array (jget ''metadata'' v)"; simp only: if_True if_False option.case)
      apply (rule delta_if, rule delta_raise, erule (1) failed_after)
      apply (rule delta_ret, rule refl)
     apply (rule delta_ret, rule refl)
    apply (rule delta_pair, simp only: append_Nil)
    apply (rule delta_look_seq, rule delta_lift_seq)
     apply (erule (2) delta_build)
    apply (erule (1) failed_after)
    done
  done

lemma delta_handshake: "delta (performHandshake env p) (handshake_done env p) (\<lambda>_. handshake_failed p)"
  unfolding performHandshake_def
  by (intro delta_if delta_wireguard delta_xray delta_hysteria2 delta_amneziawg delta_openvpn delta_v2ray)


section \<open>One session\<close>

text \<open>The attempts: requests and pauses, within the number of retries left at attempt \<open>n\<close>.\<close>

definition tried :: "handshake_input \<Rightarrow> nat \<Rightarrow> history \<Rightarrow> bool" where
  "tried p n es \<longleftrightarrow> list_all (\<lambda>e. handshake_contact (hi_remoteUrl p) (hi_sessionId p) e \<or> e = Waited) es \<and>
     length (evs posts es) \<le> Suc (HANDSHAKE_RETRY_MAX_RETRIES - n) \<and> length (evs waits es) \<le> HANDSHAKE_RETRY_MAX_RETRIES - n"

definition attempts_done :: "env \<Rightarrow> handshake_input \<Rightarrow> nat \<Rightarrow> handshake_output \<Rightarrow> history \<Rightarrow> bool" where
  "attempts_done env p n r es \<longleftrightarrow> (\<exists>pre. es = pre @ saved_of env p r \<and> tried p n pre) \<and>
     (ho_signer r \<noteq> Unsigned \<or> \<not> (\<forall>h. e_signedOnly env h))"

lemma contact_waits: "contacted p es \<Longrightarrow> evs waits es = []"
  unfolding contacted_def by (rule evs_quiet) (auto simp: list_all_iff handshake_contact_def)

lemma tried_one: "handshake_failed p es \<Longrightarrow> tried p n es"
  using contact_waits by (auto simp: handshake_failed_def tried_def contacted_def list_all_iff)

lemma tried_more:
  assumes "handshake_failed p es" and "tried p (Suc n) es'" and "n < HANDSHAKE_RETRY_MAX_RETRIES"
  shows "tried p n (es @ Waited # es')"
  using assms contact_waits by (auto simp: handshake_failed_def tried_def contacted_def list_all_iff)

lemma delta_attempts: "delta (attempt_handshake env p n) (attempts_done env p n) (\<lambda>_. tried p n)"
proof (induction "HANDSHAKE_RETRY_MAX_RETRIES - n" arbitrary: n rule: less_induct)
  case less
  show ?case
  proof (rule deltaI)
    fix h
    obtain es where es: "snd (performHandshake env p h) = h @ es"
      "case fst (performHandshake env p h) of Inr v \<Rightarrow> handshake_done env p v es | Inl e \<Rightarrow> handshake_failed p es"
      using deltaD [OF delta_handshake] by blast
    let ?goal = "\<exists>es. snd (attempt_handshake env p n h) = h @ es \<and>
        (case fst (attempt_handshake env p n h) of Inr v \<Rightarrow> attempts_done env p n v es | Inl e \<Rightarrow> tried p n es)"
    show ?goal
    proof (cases "fst (performHandshake env p h)")
      case (Inr r)
      with es have "attempts_done env p n r es"
        by (auto simp: handshake_done_def attempts_done_def handshake_failed_def intro!: tried_one)
      with Inr es(1) show ?thesis
        by (subst (1 2) attempt_handshake.simps) (auto simp: case_prod_beta)
    next
      case (Inl e)
      let ?again = "shouldRetrySessionHandshake (fst (describeNodeApiError (f_value e))) n"
      show ?thesis
      proof (cases ?again)
        case False
        with Inl es show ?thesis
          by (subst (1 2) attempt_handshake.simps) (auto simp: case_prod_beta intro!: tried_one)
      next
        case True
        then have n: "n < HANDSHAKE_RETRY_MAX_RETRIES" by (simp add: shouldRetrySessionHandshake_def)
        then have "HANDSHAKE_RETRY_MAX_RETRIES - Suc n < HANDSHAKE_RETRY_MAX_RETRIES - n" by simp
        from deltaD [OF less [OF this], of "h @ es @ [Waited]"] obtain es' where
          es': "snd (attempt_handshake env p (Suc n) (h @ es @ [Waited])) = (h @ es @ [Waited]) @ es'"
            "case fst (attempt_handshake env p (Suc n) (h @ es @ [Waited])) of
               Inr v \<Rightarrow> attempts_done env p (Suc n) v es' | Inl e \<Rightarrow> tried p (Suc n) es'" by blast
        have eq: "attempt_handshake env p n h = attempt_handshake env p (Suc n) (h @ es @ [Waited])"
          using Inl True es(1) by (subst attempt_handshake.simps) (simp add: case_prod_beta)
        have f: "handshake_failed p es" using es(2) Inl by simp
        show ?thesis
          unfolding eq es'(1)
          using es'(2) tried_more [OF f _ n]
          by (intro exI [of _ "es @ Waited # es'"]) (auto simp: attempts_done_def split: sum.splits)
      qed
    qed
  qed
qed

definition hand_of :: "session_purchase \<Rightarrow> string \<Rightarrow> handshake_input" where
  "hand_of q url = \<lparr>hi_sessionId = sp_sessionId q, hi_nodeAddress = sp_nodeAddress q, hi_nodeType = sp_nodeType q,
     hi_remoteUrl = url, hi_privKey = sp_privKey q, hi_nodeMoniker = Some (sp_nodeMoniker q),
     hi_nodeCountry = Some (sp_nodeCountry q)\<rparr>"

text \<open>Where the session's handshake goes: the address the caller has, or the one read for the node.\<close>

definition session_url :: "env \<Rightarrow> session_purchase \<Rightarrow> string list option \<Rightarrow> string \<Rightarrow> bool" where
  "session_url env q row url \<longleftrightarrow> (case sp_remoteUrl q of Some u \<Rightarrow> url = u
     | None \<Rightarrow> remoteUrlFromNode env row (sp_apiField q) = ok url)"

definition lookup_of :: "session_purchase \<Rightarrow> string list option \<Rightarrow> history" where
  "lookup_of q row = (case sp_remoteUrl q of Some u \<Rightarrow> [] | None \<Rightarrow> [ReadRow (sp_nodeAddress q) row])"

text \<open>The requests and pauses before a purchase succeeds or gives up.\<close>

definition session_work :: "env \<Rightarrow> session_purchase \<Rightarrow> history \<Rightarrow> bool" where
  "session_work env q es \<longleftrightarrow> (\<exists>row. es = lookup_of q row \<or>
     (\<exists>url pre. session_url env q row url \<and> es = lookup_of q row @ pre \<and> tried (hand_of q url) 0 pre))"

lemma message_names_session:
  "contains (CHR ''#'' # i) (sessionFailureMessage \<lparr>fo_refunded = False, fo_isDeposit = d, fo_sessionId = i,
     fo_nodeMoniker = m, fo_reason = r, fo_policyRejected = x\<rparr>)" (is "contains ?i ?msg")
proof -
  obtain pre where "?msg = (pre @ ''. '' @ REFUND_FAILED_TAIL @ ''. Open the Session tab and cancel session '') @ ?i @ '' manually.''"
    by (simp add: sessionFailureMessage_def Let_def)
  then show ?thesis by (simp only: contains_append contains_prefix)
qed

lemma message_names_tail:
  "contains REFUND_FAILED_TAIL (sessionFailureMessage \<lparr>fo_refunded = False, fo_isDeposit = d, fo_sessionId = i,
     fo_nodeMoniker = m, fo_reason = r, fo_policyRejected = x\<rparr>)" (is "contains ?t ?msg")
proof -
  obtain pre where "?msg = (pre @ ''. '') @ ?t @ ''. Open the Session tab and cancel session #'' @ i @ '' manually.''"
    by (simp add: sessionFailureMessage_def Let_def)
  then show ?thesis by (simp only: contains_append contains_prefix)
qed

lemma delta_url:
  "delta (case sp_remoteUrl q of Some u \<Rightarrow> ret u | None \<Rightarrow> resolveNodeRemoteUrl env (sp_nodeAddress q) (sp_apiField q))
     (\<lambda>url es. \<exists>row. es = lookup_of q row \<and> session_url env q row url) (\<lambda>_ es. \<exists>row. es = lookup_of q row)"
proof (cases "sp_remoteUrl q")
  case None
  then show ?thesis
    unfolding resolveNodeRemoteUrl_def None option.case
    apply (intro delta_look_seq)
    subgoal for row
      apply (rule delta_seq [where M = "\<lambda>_ es. es = lookup_of q row"], rule delta_tell, simp add: lookup_of_def None)
      apply (rule delta_lift)
       apply (use None in \<open>auto simp: session_url_def\<close>)
      done
    done
next
  case (Some u)
  then show ?thesis by (simp add: delta_ret lookup_of_def session_url_def)
qed

lemma session_spec:
  "delta (establishSessionOrRefund env q)
     (\<lambda>r es. \<exists>row url pre. session_url env q row url \<and> es = lookup_of q row @ pre @ saved_of env (hand_of q url) r \<and>
        tried (hand_of q url) 0 pre \<and> (ho_signer r \<noteq> Unsigned \<or> \<not> (\<forall>h. e_signedOnly env h)))
     (\<lambda>e es. \<exists>pre cancelled msg. session_work env q pre \<and> es = pre @ cancel_events (sp_account q) (sp_sessionId q) cancelled \<and>
        e = failed msg \<and> (cancelled \<or> contains (''#'' @ sp_sessionId q) msg \<and> contains REFUND_FAILED_TAIL msg))"
  unfolding establishSessionOrRefund_def
  apply (rule delta_catching [where M = "\<lambda>_. session_work env q"])
   apply (rule delta_seq, rule delta_weaken, rule delta_url, assumption, unfold session_work_def, blast)
   apply (fold hand_of_def session_work_def)
   apply (elim exE conjE)
   apply (rule delta_weaken, rule delta_attempts)
    apply (auto simp: attempts_done_def session_work_def)[1]
   apply (auto simp: session_work_def)[1]
  apply (rule deltaI)
  apply (simp add: cancelSession_eq)
  subgoal for e es h
    by (cases "e_cancel env h (sp_account q) (sp_sessionId q)")
      (simp_all, (metis message_names_session message_names_tail)+)
  done


text \<open>Neither the reads, requests and pauses nor the saved config move money.\<close>

lemma tried_money:
  assumes "tried p n es"
  shows "evs buys es = []" "evs cancels es = []"
proof -
  have "list_all quiet es" using assms by (auto simp: tried_def list_all_iff handshake_contact_def)
  then show "evs buys es = []" "evs cancels es = []" using quiet_money by blast+
qed

lemma tried_bounds: "tried p 0 es \<Longrightarrow> length (evs posts es) \<le> 3" "tried p 0 es \<Longrightarrow> length (evs waits es) \<le> 2"
  by (simp_all add: tried_def HANDSHAKE_RETRY_MAX_RETRIES_def)

lemma no_money [simp]:
  "evs buys (lookup_of q row) = []" "evs cancels (lookup_of q row) = []" "evs buys (saved_of env p r) = []"
  "evs cancels (saved_of env p r) = []" "evs posts (lookup_of q row) = []" "evs waits (lookup_of q row) = []"
  "evs posts (saved_of env p r) = []" "evs waits (saved_of env p r) = []"
  "evs posts (cancel_events a i c) = []" "evs waits (cancel_events a i c) = []" "evs buys (cancel_events a i c) = []"
  by (auto simp: lookup_of_def saved_of_def cancel_events_def buys_def cancels_def split: option.split)

lemma session_work_money:
  assumes "session_work env q es"
  shows "evs buys es = []" "evs cancels es = []" "length (evs posts es) \<le> 3" "length (evs waits es) \<le> 2"
  using assms by (auto simp: session_work_def tried_money tried_bounds)

lemma session_history:
  "\<exists>es. snd (establishSessionOrRefund env q h) = h @ es \<and> evs buys es = [] \<and>
     length (evs posts es) \<le> 3 \<and> length (evs waits es) \<le> 2 \<and>
     (case fst (establishSessionOrRefund env q h) of
        Inr r \<Rightarrow> evs cancels es = []
      | Inl e \<Rightarrow> (\<exists>pre cancelled. evs cancels pre = [] \<and> es = pre @ cancel_events (sp_account q) (sp_sessionId q) cancelled \<and>
          (cancelled \<or> contains (''#'' @ sp_sessionId q) (error_message (f_value e)))))"
proof -
  obtain es where es: "snd (establishSessionOrRefund env q h) = h @ es" and
    r: "case fst (establishSessionOrRefund env q h) of
       Inr r \<Rightarrow> \<exists>row url pre. session_url env q row url \<and> es = lookup_of q row @ pre @ saved_of env (hand_of q url) r \<and>
        tried (hand_of q url) 0 pre \<and> (ho_signer r \<noteq> Unsigned \<or> \<not> (\<forall>h. e_signedOnly env h))
     | Inl e \<Rightarrow> \<exists>pre cancelled msg. session_work env q pre \<and> es = pre @ cancel_events (sp_account q) (sp_sessionId q) cancelled \<and>
        e = failed msg \<and> (cancelled \<or> contains (''#'' @ sp_sessionId q) msg \<and> contains REFUND_FAILED_TAIL msg)"
    using deltaD [OF session_spec] by blast
  show ?thesis
  proof (cases "fst (establishSessionOrRefund env q h)")
    case (Inl e)
    then obtain pre c where "session_work env q pre" "es = pre @ cancel_events (sp_account q) (sp_sessionId q) c"
        "c \<or> contains (''#'' @ sp_sessionId q) (error_message (f_value e))" using r by auto
    with Inl es session_work_money [of env q pre] show ?thesis by auto
  next
    case (Inr x)
    then obtain row url pre where "es = lookup_of q row @ pre @ saved_of env (hand_of q url) x" "tried (hand_of q url) 0 pre"
      using r by auto
    with Inr es show ?thesis by (simp add: tried_money tried_bounds)
  qed
qed

section \<open>The properties of a handshake and of a session purchase\<close>

text \<open>
  C32. With \<open>Signed nodes only\<close> on, a handshake (\<open>performHandshake\<close>, every protocol) that returns a
  config has a signed reply, has posted exactly once, directly, to the address it was given and for
  its own session, and has saved that very config under that session (nothing when there is no keyring to
  encrypt it with); one that fails has posted at most once, contacted nobody else and saved nothing.
\<close>

theorem handshake_signed_and_saved:
  assumes "\<forall>h. e_signedOnly env h"
  shows "\<exists>es. snd (performHandshake env p h) = h @ es \<and>
    (case fst (performHandshake env p h) of
       Inr r \<Rightarrow> ho_signer r \<noteq> Unsigned \<and>
         (\<exists>pre saves. es = pre @ saves \<and> contacted p pre \<and> length (evs posts pre) = 1 \<and>
            (if e_secureStorage env
             then \<exists>saved. saves = [Saved saved] \<and> sc_sessionId saved = hi_sessionId p \<and>
               sc_configString saved = ho_configString r \<and> sc_protocol saved = ho_protocol r
             else saves = []))
     | Inl e \<Rightarrow> contacted p es \<and> length (evs posts es) \<le> 1)"
proof -
  obtain es where es: "snd (performHandshake env p h) = h @ es"
    "case fst (performHandshake env p h) of Inr v \<Rightarrow> handshake_done env p v es | Inl e \<Rightarrow> handshake_failed p es"
    using deltaD [OF delta_handshake] by blast
  show ?thesis
  proof (cases "fst (performHandshake env p h)")
    case (Inr r)
    with es(2) obtain pre where pre: "es = pre @ saved_of env p r" "contacted p pre" "length (evs posts pre) = 1" "ho_signer r \<noteq> Unsigned"
      using assms by (auto simp: handshake_done_def)
    then show ?thesis
      using es(1) by (intro exI [of _ es]) (simp add: Inr, intro exI [of _ pre] exI [of _ "saved_of env p r"], simp add: saved_of_def)
  qed (use es in \<open>auto simp: handshake_failed_def\<close>)
qed

lemma handshake_signed_and_saved_witness:
  "\<exists>es. snd (performHandshake sample_env (hand_of
      \<lparr>sp_sessionId = ''5'', sp_nodeAddress = ''n'', sp_nodeType = 1, sp_apiField = '''', sp_nodeMoniker = ''n'',
       sp_nodeCountry = '''', sp_account = ''a'', sp_privKey = [], sp_isDeposit = True, sp_remoteUrl = None\<rparr> ''u'') []) = es \<and>
    length (evs posts es) \<le> 1"
proof -
  have "\<forall>h. e_signedOnly sample_env h" and k: "e_secureStorage sample_env" by (simp_all add: sample_env_def)
  from handshake_signed_and_saved [OF this(1), of "hand_of \<lparr>sp_sessionId = ''5'', sp_nodeAddress = ''n'', sp_nodeType = 1,
      sp_apiField = '''', sp_nodeMoniker = ''n'', sp_nodeCountry = '''', sp_account = ''a'', sp_privKey = [],
      sp_isDeposit = True, sp_remoteUrl = None\<rparr> ''u''" "[]"]
  show ?thesis by (auto simp: k split: sum.splits)
qed

text \<open>
  C31. The purchase of one session (\<open>establishSessionOrRefund\<close>) settles the payment on every path: it
  returns with no cancel attempted, or it fails after exactly one cancel of that session by the
  account that paid, and when that cancel does not go through the error names the session. Nothing is
  bought, and no cancel comes before the handshake has been given up.
\<close>

theorem session_or_refund:
  "\<exists>es. snd (establishSessionOrRefund env q h) = h @ es \<and> evs buys es = [] \<and>
     (case fst (establishSessionOrRefund env q h) of
        Inr r \<Rightarrow> evs cancels es = []
      | Inl e \<Rightarrow> (\<exists>pre. evs cancels pre = [] \<and>
          (es = pre @ [Cancelled (sp_account q) (sp_sessionId q), SessionsChanged] \<or>
           es = pre @ [NotCancelled (sp_account q) (sp_sessionId q)] \<and>
             contains (''#'' @ sp_sessionId q) (error_message (f_value e)))))"
proof -
  obtain es where "snd (establishSessionOrRefund env q h) = h @ es" "evs buys es = []"
    "case fst (establishSessionOrRefund env q h) of
        Inr r \<Rightarrow> evs cancels es = []
      | Inl e \<Rightarrow> (\<exists>pre cancelled. evs cancels pre = [] \<and> es = pre @ cancel_events (sp_account q) (sp_sessionId q) cancelled \<and>
          (cancelled \<or> contains (''#'' @ sp_sessionId q) (error_message (f_value e))))"
    using session_history by blast
  then show ?thesis
    by (intro exI [of _ es]) (auto simp: cancel_events_def split: sum.splits if_splits)
qed

text \<open>
  A session purchase posts its handshake at most three times and pauses at most twice, whatever
  the node answers: the retry loop (\<open>establishSessionOrRefund\<close>, \<open>shouldRetrySessionHandshake\<close>) ends.
\<close>

theorem handshake_attempts_bounded:
  "\<exists>es. snd (establishSessionOrRefund env q h) = h @ es \<and> length (evs posts es) \<le> 3 \<and> length (evs waits es) \<le> 2"
  using session_history by blast


end
