(* ===== verification/SessionBook.thy ===== *)
theory SessionBook
  imports Watchdog SessionProps "HOL-Library.AList"
begin

text \<open>
  What the app remembers about the connection (\<open>src/main/ipc-handlers.ts\<close>): the active session and
  node, the exit hop of a chain, the config of each protocol, the quotas, and the session records on
  disk; with the operations that change it, from a purchase to the end of a session.
\<close>

section \<open>The state\<close>

record node_info =
  ni_address :: string
  ni_moniker :: string
  ni_country :: string
  ni_type :: int
  ni_summary :: "badge option"
  ni_signer :: "reply_signer option"

record exit_info =
  ei_address :: string
  ei_moniker :: string
  ei_country :: string
  ei_type :: int

datatype end_reason = TimeUp | DataUp | WasStalled | WasDropped

record expiry =
  ex_sessionId :: string
  ex_nodeMoniker :: string
  ex_reason :: end_reason
  ex_trafficBlocked :: bool
  ex_chainRole :: "hop_role option"

text \<open>\<open>b_live\<close> is the tunnel or proxy that is up, as the protocol and the config it was brought up with
  (\<open>connectionIsLive\<close>; the reconnect window is the other half of it, \<open>b_reconnecting\<close>). \<open>b_files\<close> are
  the session records on disk by session id, \<open>b_rows\<close> the session cache.\<close>

record book =
  b_session :: "string option"
  b_node :: "node_info option"
  b_exitSession :: "string option"
  b_exitNode :: "exit_info option"
  b_wg :: "string option"
  b_v2ray :: "string option"
  b_xray :: "string option"
  b_hysteria2 :: "string option"
  b_amneziawg :: "string option"
  b_openvpn :: "string option"
  b_quota :: "active_quota option"
  b_exitQuota :: "active_quota option"
  b_quotaWarned :: bool
  b_freshPeer :: bool
  b_expiry :: "expiry option"
  b_desired :: "string option"
  b_proxyMode :: bool
  b_live :: "(string \<times> string) option"
  b_reconnecting :: bool
  b_files :: "(string \<times> saved_config) list"
  b_rows :: "session_row list"
  b_usage :: "string \<rightharpoonup> remembered_usage"

definition empty_book :: book where
  "empty_book = \<lparr>b_session = None, b_node = None, b_exitSession = None, b_exitNode = None, b_wg = None, b_v2ray = None,
     b_xray = None, b_hysteria2 = None, b_amneziawg = None, b_openvpn = None, b_quota = None, b_exitQuota = None,
     b_quotaWarned = False, b_freshPeer = True, b_expiry = None, b_desired = None, b_proxyMode = False, b_live = None,
     b_reconnecting = False, b_files = [], b_rows = [], b_usage = (\<lambda>_. None)\<rparr>"

definition connectionIsLive :: "book \<Rightarrow> bool" where
  "connectionIsLive b \<longleftrightarrow> b_reconnecting b \<or> b_live b \<noteq> None"

definition assertNotConnected :: "string \<Rightarrow> book \<Rightarrow> unit result" where
  "assertNotConnected action b =
     (if connectionIsLive b then
        (let name = (case b_node b of None \<Rightarrow> '''' | Some n \<Rightarrow> if ni_moniker n \<noteq> '''' then ni_moniker n else ni_address n)
         in throw (''Already connected'' @ (if name \<noteq> '''' then '' to '' @ name else '''') @
              ''. Disconnect the current session before '' @ action @ ''.''))
      else ok ())"

section \<open>The session records\<close>

text \<open>The encryption of a record is transparent; a record that cannot be read is absent.\<close>

definition truthy_string :: "string option \<Rightarrow> bool" where
  "truthy_string x = (case x of None \<Rightarrow> False | Some s \<Rightarrow> s \<noteq> '''')"

definition loadSessionConfig :: "(string \<times> saved_config) list \<Rightarrow> string \<Rightarrow> saved_config option" where
  "loadSessionConfig files sessionId = map_of files sessionId"

definition store_record :: "saved_config \<Rightarrow> (string \<times> saved_config) list \<Rightarrow> (string \<times> saved_config) list" where
  "store_record config files = AList.update (sc_sessionId config) config files"

text \<open>The records a run has written.\<close>

fun files_after :: "history \<Rightarrow> (string \<times> saved_config) list \<Rightarrow> (string \<times> saved_config) list" where
  "files_after [] files = files"
| "files_after (Saved c # h) files = files_after h (store_record c files)"
| "files_after (_ # h) files = files_after h files"

definition retireSessionConfig :: "bool \<Rightarrow> string \<Rightarrow> (string \<times> saved_config) list \<Rightarrow> (string \<times> saved_config) list" where
  "retireSessionConfig secureStorage sessionId files =
     (case loadSessionConfig files sessionId of
        Some saved \<Rightarrow>
          if truthy_string (sc_chainPeer saved) \<and> secureStorage
          then store_record (saved\<lparr>sc_configString := ''''\<rparr>) files
          else AList.delete sessionId files
      | None \<Rightarrow> AList.delete sessionId files)"

definition listSessionsOwnedByOtherWallets :: "(string \<times> saved_config) list \<Rightarrow> (string \<times> string) list" where
  "listSessionsOwnedByOtherWallets files =
     concat (map (\<lambda>i. case map_of files i of
        Some saved \<Rightarrow> (case sc_walletId saved of Some w \<Rightarrow> if w \<noteq> '''' then [(i, w)] else [] | None \<Rightarrow> [])
      | None \<Rightarrow> []) (filter decimal_id (remdups (map fst files))))"

section \<open>Recording a purchase\<close>

definition applySession :: "string \<Rightarrow> string \<Rightarrow> string \<Rightarrow> string \<Rightarrow> int \<Rightarrow> handshake_output \<Rightarrow> book \<Rightarrow> book" where
  "applySession sessionId nodeAddress nodeMoniker nodeCountry nodeType result b =
     (let config = (\<lambda>p. if ho_protocol result = p then Some (ho_configString result) else None)
      in b\<lparr>b_session := Some sessionId,
           b_node := Some \<lparr>ni_address = nodeAddress, ni_moniker = nodeMoniker, ni_country = nodeCountry,
             ni_type = nodeType, ni_summary = ho_v2raySummary result, ni_signer = Some (ho_signer result)\<rparr>,
           b_wg := config ''wireguard'', b_v2ray := config ''v2ray'', b_xray := config ''xray'',
           b_hysteria2 := config ''hysteria2'', b_amneziawg := config ''amneziawg'', b_openvpn := config ''openvpn'',
           b_freshPeer := True\<rparr>)"

definition applyChainSession ::
  "hop_input \<Rightarrow> string \<Rightarrow> hop_input \<Rightarrow> string \<Rightarrow> string \<Rightarrow> reply_signer \<Rightarrow> book \<Rightarrow> book" where
  "applyChainSession entry entrySession exit exitSession configString signer b =
     b\<lparr>b_session := Some entrySession,
       b_node := Some \<lparr>ni_address = hp_nodeAddress entry, ni_moniker = hp_nodeMoniker entry,
         ni_country = hp_nodeCountry entry, ni_type = hp_nodeType entry, ni_summary = None, ni_signer = Some signer\<rparr>,
       b_exitSession := Some exitSession,
       b_exitNode := Some \<lparr>ei_address = hp_nodeAddress exit, ei_moniker = hp_nodeMoniker exit,
         ei_country = hp_nodeCountry exit, ei_type = hp_nodeType exit\<rparr>,
       b_wg := None, b_v2ray := None, b_xray := Some configString, b_hysteria2 := None, b_amneziawg := None,
       b_openvpn := None, b_freshPeer := True\<rparr>"

definition row_of :: "string \<Rightarrow> session_row list \<Rightarrow> session_row option" where
  "row_of sessionId rows = find (\<lambda>r. sr_id r = sessionId) rows"

definition setQuota :: "session_row option \<Rightarrow> book \<Rightarrow> book" where
  "setQuota row b = b\<lparr>b_quota := Option.bind row quotaFromSessionRow, b_quotaWarned := False\<rparr>"

datatype unit_kind = Gigabytes | Hours

definition purchasedQuota :: "unit_kind \<Rightarrow> int \<Rightarrow> string \<Rightarrow> active_quota" where
  "purchasedQuota kind amount sessionId =
     \<lparr>aq_sessionId = sessionId, aq_maxDurationSeconds = (if kind = Hours then Some (of_int (amount * 3600)) else None),
      aq_baselineDurationSeconds = 0, aq_maxBytes = (if kind = Gigabytes then amount * 1024 ^ 3 else 0), aq_baselineBytes = 0\<rparr>"

text \<open>The end of \<open>CONNECTION_SUBSCRIBE\<close>: the session is recorded, its quota read from the chain's rows
  when they could be read, and otherwise taken from what was bought.\<close>

definition finish_subscribe ::
  "string \<Rightarrow> hop_input \<Rightarrow> unit_kind \<Rightarrow> int \<Rightarrow> handshake_output \<Rightarrow> session_row list option \<Rightarrow> book \<Rightarrow> book" where
  "finish_subscribe sessionId node kind amount result sessions b =
     (let b1 = applySession sessionId (hp_nodeAddress node) (hp_nodeMoniker node) (hp_nodeCountry node)
            (hp_nodeType node) result b;
          b2 = (case sessions of
              None \<Rightarrow> b1
            | Some rows \<Rightarrow> setQuota (row_of sessionId rows) (b1\<lparr>b_rows := primeSessionsCache (b_usage b1) rows\<rparr>))
      in if b_quota b2 = None
         then b2\<lparr>b_quota := Some (purchasedQuota kind amount sessionId), b_quotaWarned := False\<rparr> else b2)"

text \<open>The end of \<open>CONNECTION_SUBSCRIBE_CHAIN\<close>.\<close>

definition finish_subscribe_chain ::
  "hop_input \<Rightarrow> hop_input \<Rightarrow> unit_kind \<Rightarrow> int \<Rightarrow> chain_result \<Rightarrow> session_row list option \<Rightarrow> book \<Rightarrow> book" where
  "finish_subscribe_chain entry exit kind amount result sessions b =
     (let b1 = applyChainSession entry (cr_entrySessionId result) exit (cr_exitSessionId result)
            (cr_configString result) (cr_signer result) b;
          b2 = (case sessions of
              None \<Rightarrow> b1
            | Some rows \<Rightarrow>
                (setQuota (row_of (cr_entrySessionId result) rows) (b1\<lparr>b_rows := primeSessionsCache (b_usage b1) rows\<rparr>))
                  \<lparr>b_exitQuota := Option.bind (row_of (cr_exitSessionId result) rows) quotaFromSessionRow\<rparr>);
          b3 = (if b_quota b2 = None
            then b2\<lparr>b_quota := Some (purchasedQuota kind amount (cr_entrySessionId result)), b_quotaWarned := False\<rparr>
            else b2)
      in if b_exitQuota b3 = None
         then b3\<lparr>b_exitQuota := Some (purchasedQuota kind amount (cr_exitSessionId result))\<rparr> else b3)"

section \<open>Reconnecting\<close>

record node_meta =
  nm_moniker :: string
  nm_country :: string
  nm_type :: int

definition protocol_type :: "string \<Rightarrow> int" where
  "protocol_type protocol =
     (if protocol = ''wireguard'' then 1 else if protocol = ''openvpn'' then 3 else if protocol = ''xray'' then 4
      else if protocol = ''hysteria2'' then 6 else if protocol = ''amneziawg'' then 5 else 2)"

definition or_meta :: "string option \<Rightarrow> string \<Rightarrow> string" where
  "or_meta saved other = (case saved of None \<Rightarrow> other | Some s \<Rightarrow> if s \<noteq> '''' then s else other)"

definition hopType :: "(string \<Rightarrow> node_meta) \<Rightarrow> saved_config \<Rightarrow> int" where
  "hopType meta saved =
     (case sc_nodeType saved of
        Some t \<Rightarrow> t
      | None \<Rightarrow> if nm_type (meta (sc_nodeAddress saved)) \<noteq> 0 then nm_type (meta (sc_nodeAddress saved)) else 2)"

definition saved_node :: "(string \<Rightarrow> node_meta) \<Rightarrow> saved_config \<Rightarrow> int \<Rightarrow> node_info" where
  "saved_node meta saved nodeType =
     \<lparr>ni_address = sc_nodeAddress saved, ni_moniker = or_meta (sc_nodeMoniker saved) (nm_moniker (meta (sc_nodeAddress saved))),
      ni_country = or_meta (sc_nodeCountry saved) (nm_country (meta (sc_nodeAddress saved))), ni_type = nodeType,
      ni_summary = None, ni_signer = None\<rparr>"

definition saved_exit :: "(string \<Rightarrow> node_meta) \<Rightarrow> saved_config \<Rightarrow> exit_info" where
  "saved_exit meta saved =
     \<lparr>ei_address = sc_nodeAddress saved, ei_moniker = or_meta (sc_nodeMoniker saved) (nm_moniker (meta (sc_nodeAddress saved))),
      ei_country = or_meta (sc_nodeCountry saved) (nm_country (meta (sc_nodeAddress saved))), ei_type = hopType meta saved\<rparr>"

text \<open>What the handler returns: the session id, the protocol and the config to connect with.\<close>

type_synonym reconnected = "string \<times> string \<times> string"

definition reconnect_chain ::
  "(string \<Rightarrow> node_meta) \<Rightarrow> saved_config \<Rightarrow> string \<Rightarrow> book \<Rightarrow> reconnected result \<times> book" where
  "reconnect_chain meta saved peerId b =
     (case loadSessionConfig (b_files b) peerId of
        None \<Rightarrow> (throw (''This session is one hop of a two-hop chain, but the other hop (#'' @ peerId @
          '') has no saved config, so the chain cannot be rebuilt. End both sessions and build a new chain.''), b)
      | Some peer \<Rightarrow>
          let entrySaved = (if sc_chainRole saved = Some Exit then peer else saved);
              exitSaved = (if sc_chainRole saved = Some Exit then saved else peer)
          in (ok (sc_sessionId entrySaved, ''xray'', sc_configString saved),
              b\<lparr>b_session := Some (sc_sessionId entrySaved),
                b_node := Some (saved_node meta entrySaved (hopType meta entrySaved)),
                b_exitSession := Some (sc_sessionId exitSaved), b_exitNode := Some (saved_exit meta exitSaved),
                b_xray := Some (sc_configString saved), b_freshPeer := False\<rparr>))"

text \<open>The renewal of a single-hop session asks the node for a fresh peer; any failure falls back to the
  saved config.\<close>

definition renewal :: "env \<Rightarrow> saved_config \<Rightarrow> int \<Rightarrow> byte list \<Rightarrow> handshake_output run" where
  "renewal env saved nodeType privKey =
     seq (resolveNodeRemoteUrl env (sc_nodeAddress saved) '''') (\<lambda>url.
     performHandshake env
       \<lparr>hi_sessionId = sc_sessionId saved, hi_nodeAddress = sc_nodeAddress saved, hi_nodeType = nodeType,
        hi_remoteUrl = url, hi_privKey = privKey, hi_nodeMoniker = sc_nodeMoniker saved,
        hi_nodeCountry = sc_nodeCountry saved\<rparr>)"

definition reconnect_single ::
  "env \<Rightarrow> byte list option \<Rightarrow> saved_config \<Rightarrow> int \<Rightarrow> history \<Rightarrow> book \<Rightarrow> reconnected result \<times> book" where
  "reconnect_single env key saved nodeType h b =
     (let replay = (\<lambda>b'. (ok (sc_sessionId saved, sc_protocol saved, sc_configString saved), b'\<lparr>b_freshPeer := False\<rparr>))
      in case key of
           None \<Rightarrow> replay b
         | Some privKey \<Rightarrow>
             let (r, h') = renewal env saved nodeType privKey h;
                 b' = b\<lparr>b_files := files_after (drop (length h) h') (b_files b)\<rparr>
             in (case r of
                   Inl _ \<Rightarrow> replay b'
                 | Inr fresh \<Rightarrow>
                     (ok (sc_sessionId saved, ho_protocol fresh, ho_configString fresh),
                      applySession (sc_sessionId saved) (sc_nodeAddress saved) (or_meta (sc_nodeMoniker saved) '''')
                        (or_meta (sc_nodeCountry saved) '''') nodeType fresh b')))"

definition reconnect ::
  "env \<Rightarrow> byte list option \<Rightarrow> (string \<Rightarrow> node_meta) \<Rightarrow> history \<Rightarrow> string \<Rightarrow> book \<Rightarrow> reconnected result \<times> book" where
  "reconnect env key meta h sessionId b =
     (if \<not> decimal_id sessionId then (throw ''Invalid session ID'', b)
      else case assertNotConnected ''starting a new connection'' b of
        Inl e \<Rightarrow> (Inl e, b)
      | Inr _ \<Rightarrow>
        (case loadSessionConfig (b_files b) sessionId of
           None \<Rightarrow> (throw (''No saved config for this session. The handshake config was not preserved, so '' @
             ''this session cannot be reconnected. You will need to create a new subscription.''), b)
         | Some saved \<Rightarrow>
             if sc_configString saved = '''' then
               (throw (''This session has ended and its credentials were cleared, so it cannot be '' @
                  ''reconnected. Buy a new session to connect again.''), b)
             else case e_systemReady env (sc_protocol saved) True of
               Inl e \<Rightarrow> (Inl e, b)
             | Inr _ \<Rightarrow>
                 let nodeType = protocol_type (sc_protocol saved);
                     b1 = b\<lparr>b_session := Some (sc_sessionId saved), b_node := Some (saved_node meta saved nodeType)\<rparr>
                 in if truthy_string (sc_chainPeer saved)
                    then reconnect_chain meta saved (the (sc_chainPeer saved)) b1
                    else reconnect_single env key saved nodeType h b1))"

section \<open>Connecting\<close>

record connect_params =
  cp_protocol :: string
  cp_configString :: "string option"
  cp_dnsFallback :: bool
  cp_mode :: "string option"

definition root_protocol :: "string \<Rightarrow> bool" where
  "root_protocol protocol \<longleftrightarrow> protocol = ''wireguard'' \<or> protocol = ''amneziawg'' \<or> protocol = ''openvpn''"

definition proxyOnly :: "connect_params \<Rightarrow> bool" where
  "proxyOnly p \<longleftrightarrow> cp_mode p = Some ''proxy''"

definition dnsFallback :: "connect_params \<Rightarrow> bool" where
  "dnsFallback p \<longleftrightarrow> cp_dnsFallback p \<and> (cp_protocol p = ''wireguard'' \<or> cp_protocol p = ''amneziawg'')"

definition check_connect :: "connect_params \<Rightarrow> unit result" where
  "check_connect p =
     (if cp_mode p \<noteq> None \<and> cp_mode p \<noteq> Some ''tunnel'' \<and> cp_mode p \<noteq> Some ''proxy''
      then throw ''Invalid mode: must be tunnel or proxy''
      else if proxyOnly p \<and> root_protocol (cp_protocol p)
      then throw ''Local-proxy mode is not available for WireGuard, AmneziaWG or OpenVPN: they route the whole device.''
      else if cp_protocol p \<notin> set [''wireguard'', ''amneziawg'', ''v2ray'', ''xray'', ''hysteria2'', ''openvpn'']
      then throw ''Invalid protocol: must be wireguard, amneziawg, openvpn, v2ray, xray or hysteria2''
      else ok ())"

text \<open>\<open>a ?? b\<close>, and the test of the result: an empty config is refused like an absent one.\<close>

definition nullish_or :: "string option \<Rightarrow> string option \<Rightarrow> string option" where
  "nullish_or a b = (case a of None \<Rightarrow> b | Some x \<Rightarrow> Some x)"

definition present :: "string \<Rightarrow> string option \<Rightarrow> string result" where
  "present label x = (case x of
      None \<Rightarrow> throw (''No '' @ label @ '' config available'')
    | Some c \<Rightarrow> if c = '''' then throw (''No '' @ label @ '' config available'') else ok c)"

definition with_dns :: "bool \<Rightarrow> string option \<Rightarrow> string \<Rightarrow> string" where
  "with_dns fallback dns base =
     (if fallback then stripDnsLines base else case dns of Some ip \<Rightarrow> replaceDnsLines base ip | None \<Rightarrow> base)"

definition chosen_config :: "connect_params \<Rightarrow> string option \<Rightarrow> book \<Rightarrow> string result" where
  "chosen_config p wgDns b =
     (let given = cp_configString p in
      if cp_protocol p = ''wireguard'' then
        (if dnsFallback p \<or> truthy_string wgDns
         then and_then (present ''WireGuard'' (nullish_or given (b_wg b))) (\<lambda>c. ok (with_dns (dnsFallback p) wgDns c))
         else present ''WireGuard'' (nullish_or (b_wg b) given))
      else if cp_protocol p = ''amneziawg'' then
        and_then (present ''AmneziaWG'' (nullish_or given (b_amneziawg b)))
          (\<lambda>c. ok (with_dns (dnsFallback p) (if truthy_string wgDns then wgDns else None) c))
      else if cp_protocol p = ''openvpn'' then present ''OpenVPN'' (nullish_or given (b_openvpn b))
      else if cp_protocol p = ''v2ray'' then present ''V2Ray'' (nullish_or (b_v2ray b) given)
      else if cp_protocol p = ''xray'' then present ''Xray'' (nullish_or given (b_xray b))
      else if cp_protocol p = ''hysteria2'' then present ''Hysteria2'' (nullish_or given (b_hysteria2 b))
      else throw ''No active VPN instance'')"

text \<open>The repair at the head of \<open>startQuotaWatchdog\<close>: a quota that is not the active session's is read
  again from the session cache.\<close>

definition watchdog_quotas :: "book \<Rightarrow> book" where
  "watchdog_quotas b =
     (let b1 = (case b_session b of
            Some i \<Rightarrow> if map_option aq_sessionId (b_quota b) \<noteq> Some i then setQuota (row_of i (b_rows b)) b else b
          | None \<Rightarrow> b)
      in case b_exitSession b1 of
           Some i \<Rightarrow> if map_option aq_sessionId (b_exitQuota b1) \<noteq> Some i
             then b1\<lparr>b_exitQuota := Option.bind (row_of i (b_rows b1)) quotaFromSessionRow\<rparr> else b1
         | None \<Rightarrow> b1)"

definition finalizeTunnelConnect :: "string \<Rightarrow> bool \<Rightarrow> book \<Rightarrow> book" where
  "finalizeTunnelConnect protocol proxy b = watchdog_quotas (b\<lparr>b_desired := Some protocol, b_proxyMode := proxy\<rparr>)"

text \<open>The bring-up of a protocol with a config: it succeeds, or it fails with an error, leaving a tunnel
  up or not.\<close>

datatype bring_up = CameUp | FailedUp string bool

definition connect ::
  "env \<Rightarrow> string option \<Rightarrow> (string \<Rightarrow> string \<Rightarrow> bring_up) \<Rightarrow> connect_params \<Rightarrow> book \<Rightarrow> string result \<times> book" where
  "connect env wgDns bring p b =
     (case check_connect p of Inl e \<Rightarrow> (Inl e, b) | Inr _ \<Rightarrow>
      case assertNotConnected ''starting a new connection'' b of Inl e \<Rightarrow> (Inl e, b) | Inr _ \<Rightarrow>
      case e_systemReady env (cp_protocol p) (\<not> proxyOnly p) of Inl e \<Rightarrow> (Inl e, b) | Inr _ \<Rightarrow>
      let b1 = b\<lparr>b_expiry := None\<rparr> in
      case chosen_config p wgDns b1 of Inl e \<Rightarrow> (Inl e, b1) | Inr config \<Rightarrow>
      case bring (cp_protocol p) config of
        FailedUp e stays \<Rightarrow> (throw e, if stays then b1\<lparr>b_live := Some (cp_protocol p, config)\<rparr> else b1)
      | CameUp \<Rightarrow> (ok (cp_protocol p),
          finalizeTunnelConnect (cp_protocol p) (proxyOnly p) (b1\<lparr>b_live := Some (cp_protocol p, config)\<rparr>)))"

section \<open>Ending a connection\<close>

text \<open>\<open>remember\<close> is \<open>rememberUsageFor\<close> at this moment.\<close>

definition rememberSessionUsage ::
  "(string \<Rightarrow> (string \<rightharpoonup> remembered_usage) \<Rightarrow> (string \<rightharpoonup> remembered_usage)) \<Rightarrow> book \<Rightarrow> book" where
  "rememberSessionUsage remember b =
     b\<lparr>b_usage := fold remember [i. Some i \<leftarrow> [b_session b, b_exitSession b], i \<noteq> ''''] (b_usage b)\<rparr>"

definition clear_book :: "book \<Rightarrow> book" where
  "clear_book b =
     b\<lparr>b_v2ray := None, b_wg := None, b_xray := None, b_hysteria2 := None, b_amneziawg := None, b_openvpn := None,
       b_desired := None, b_proxyMode := False, b_session := None, b_node := None, b_exitSession := None,
       b_exitNode := None, b_quota := None, b_exitQuota := None, b_live := None\<rparr>"

definition disconnected ::
  "(string \<Rightarrow> (string \<rightharpoonup> remembered_usage) \<Rightarrow> (string \<rightharpoonup> remembered_usage)) \<Rightarrow> book \<Rightarrow> book" where
  "disconnected remember b = (clear_book (rememberSessionUsage remember b))\<lparr>b_expiry := None, b_reconnecting := False\<rparr>"

definition standDownReport :: "end_reason \<Rightarrow> string option \<Rightarrow> bool \<Rightarrow> book \<Rightarrow> expiry" where
  "standDownReport reason ended armed b =
     (let isExitHop = (ended \<noteq> None \<and> ended = b_exitSession b)
      in \<lparr>ex_sessionId = (if isExitHop then the ended else the (b_session b)),
          ex_nodeMoniker = (if isExitHop
            then (case b_exitNode b of None \<Rightarrow> '''' | Some n \<Rightarrow> ei_moniker n)
            else (case b_node b of None \<Rightarrow> '''' | Some n \<Rightarrow> ni_moniker n)),
          ex_reason = reason, ex_trafficBlocked = armed,
          ex_chainRole = (if b_exitSession b = None \<or> ended = None then None
            else Some (if isExitHop then Exit else Entry))\<rparr>)"

definition stood_down ::
  "(string \<Rightarrow> (string \<rightharpoonup> remembered_usage) \<Rightarrow> (string \<rightharpoonup> remembered_usage)) \<Rightarrow> end_reason \<Rightarrow> string option \<Rightarrow> bool \<Rightarrow>
     book \<Rightarrow> book" where
  "stood_down remember reason ended armed b =
     (if \<not> truthy_string (b_session b) then b
      else (clear_book (rememberSessionUsage remember b))
        \<lparr>b_expiry := Some (standDownReport reason ended armed b), b_reconnecting := False\<rparr>)"

text \<open>\<open>WALLET_END_SESSION\<close>: the checks, and the wallet that signs the cancel when it is not the active
  one. A cancel that went through retires the record (\<open>endSession\<close>).\<close>

definition end_session_owner ::
  "bool \<Rightarrow> bool \<Rightarrow> string option \<Rightarrow> string \<Rightarrow> book \<Rightarrow> string option result" where
  "end_session_owner walletLoaded vpnActive activeWallet sessionId b =
     (if \<not> decimal_id sessionId then throw ''Invalid session ID''
      else if \<not> walletLoaded then throw ''Wallet not loaded.''
      else if vpnActive then throw (''Disconnect the VPN before ending a session. The chain is unreachable through the tunnel.'')
      else if (b_session b = Some sessionId \<or> b_exitSession b = Some sessionId) \<and> connectionIsLive b
      then throw ''This session is carrying your connection. Disconnect first to end it.''
      else case Option.bind (loadSessionConfig (b_files b) sessionId) sc_walletId of
        None \<Rightarrow> ok None
      | Some w \<Rightarrow> if activeWallet = Some w then ok None else ok (Some w))"

definition session_ended :: "bool \<Rightarrow> string \<Rightarrow> book \<Rightarrow> book" where
  "session_ended secureStorage sessionId b =
     b\<lparr>b_files := retireSessionConfig secureStorage sessionId (b_files b)\<rparr>"

section \<open>The status\<close>

record chain_exit_status =
  xs_sessionId :: "string option"
  xs_node :: exit_info

text \<open>What the other parts of the app contribute: the kill switch, the clock of the watchdog, the proxy
  child, the number of the reconnect attempt, and the subscription of a session row.\<close>

record status_input =
  si_armed :: bool
  si_killSwitchFailed :: bool
  si_teardownFailed :: bool
  si_orphanedTunnelClosed :: bool
  si_subscriptionOf :: "string \<Rightarrow> string option"
  si_connectedAt :: "int option"
  si_proxyMode :: bool
  si_socksAddr :: "string option"
  si_reconnectAttempt :: nat
  si_maxAttempts :: nat

record status =
  st_state :: string
  st_node :: "node_info option"
  st_killSwitchFailed :: bool
  st_teardownFailed :: bool
  st_orphanedTunnelClosed :: bool
  st_sessionId :: "string option"
  st_subscriptionId :: "string option"
  st_chainExit :: "chain_exit_status option"
  st_connectedAt :: "int option"
  st_proxyMode :: bool
  st_socksAddr :: "string option"
  st_reconnectAttempt :: "nat option"
  st_reconnectMaxAttempts :: "nat option"
  st_expired :: "expiry option"

definition connection_status :: "status_input \<Rightarrow> book \<Rightarrow> status" where
  "connection_status i b =
     \<lparr>st_state = (if b_reconnecting b then ''reconnecting'' else if b_live b \<noteq> None then ''connected'' else ''idle''),
      st_node = b_node b,
      st_killSwitchFailed = si_killSwitchFailed i, st_teardownFailed = si_teardownFailed i,
      st_orphanedTunnelClosed = si_orphanedTunnelClosed i,
      st_sessionId = b_session b,
      st_subscriptionId = (if truthy_string (b_session b) then si_subscriptionOf i (the (b_session b)) else None),
      st_chainExit = map_option (\<lambda>n. \<lparr>xs_sessionId = b_exitSession b, xs_node = n\<rparr>) (b_exitNode b),
      st_connectedAt = si_connectedAt i, st_proxyMode = si_proxyMode i, st_socksAddr = si_socksAddr i,
      st_reconnectAttempt = (if b_reconnecting b then Some (si_reconnectAttempt i) else None),
      st_reconnectMaxAttempts = (if b_reconnecting b then Some (si_maxAttempts i) else None),
      st_expired = map_option (\<lambda>x. x\<lparr>ex_trafficBlocked := si_armed i\<rparr>) (b_expiry b)\<rparr>"

end
