(* ===== verification/RpcHealth.thy ===== *)
theory RpcHealth
  imports Purchase
begin

text \<open>
  Health of the RPC endpoint, \<open>src/shared/rpc-health.ts\<close>: how a probe is graded, what the indicator says,
  which endpoint is offered as a replacement and which one an automatic switch may take.
  Latencies, heights and ages are integers; a missing figure (\<open>null\<close>) is \<open>None\<close>.
\<close>

record probe =
  pr_reachable :: bool
  pr_latency :: "int option"
  pr_chainId :: js
  pr_height :: "int option"
  pr_blockAge :: "int option"
  pr_error :: "string option"

datatype rpc_state = RpcOk | Degraded | Down | Suspended | Blocked | Unknown

record health =
  hl_probe :: probe
  hl_state :: rpc_state
  hl_endpoint :: string
  hl_checkedAt :: int

text \<open>\<open>rc_aggregator\<close> is the aggregator's verdict, \<open>None\<close> when it has none.\<close>

record candidate =
  rc_endpoint :: string
  rc_probe :: probe
  rc_aggregator :: "bool option"

definition SLOW_LATENCY_MS :: int where "SLOW_LATENCY_MS = 2500"
definition STALE_BLOCK_AGE_SEC :: int where "STALE_BLOCK_AGE_SEC = 120"
definition EXPECTED_CHAIN_ID :: string where "EXPECTED_CHAIN_ID = ''sentinelhub-2''"

definition above :: "int option \<Rightarrow> int \<Rightarrow> bool" where
  "above x limit = (case x of None \<Rightarrow> False | Some v \<Rightarrow> v > limit)"

definition at_least :: "int option \<Rightarrow> int \<Rightarrow> bool" where
  "at_least x limit = (case x of None \<Rightarrow> False | Some v \<Rightarrow> v \<ge> limit)"

definition classifyRpc :: "probe \<Rightarrow> rpc_state" where
  "classifyRpc p =
     (if \<not> pr_reachable p then Down
      else if pr_chainId p \<noteq> JNull \<and> pr_chainId p \<noteq> JStr EXPECTED_CHAIN_ID then Down
      else if above (pr_blockAge p) STALE_BLOCK_AGE_SEC then Degraded
      else if at_least (pr_latency p) SLOW_LATENCY_MS then Degraded
      else RpcOk)"

datatype degraded_reason = Lagging | Slow

definition degradedReason :: "probe \<Rightarrow> degraded_reason option" where
  "degradedReason p =
     (if above (pr_blockAge p) STALE_BLOCK_AGE_SEC then Some Lagging
      else if at_least (pr_latency p) SLOW_LATENCY_MS then Some Slow else None)"

definition rpcHealthLabel :: "health \<Rightarrow> string" where
  "rpcHealthLabel h = (case hl_state h of
      RpcOk \<Rightarrow> (case pr_latency (hl_probe h) of None \<Rightarrow> ''RPC ok'' | Some l \<Rightarrow> ''RPC '' @ show_int l @ ''ms'')
    | Degraded \<Rightarrow> if degradedReason (hl_probe h) = Some Lagging then ''RPC lagging'' else ''RPC slow''
    | Down \<Rightarrow> ''RPC unreachable''
    | Suspended \<Rightarrow> ''RPC paused (VPN)''
    | Blocked \<Rightarrow> ''RPC blocked (kill switch)''
    | Unknown \<Rightarrow> ''RPC checking'')"

definition isChainUnreachable :: "rpc_state \<Rightarrow> bool" where
  "isChainUnreachable s \<longleftrightarrow> s = Down \<or> s = Blocked"

definition needsConfirmation :: "rpc_state \<Rightarrow> rpc_state \<Rightarrow> bool" where
  "needsConfirmation probed published \<longleftrightarrow> probed \<noteq> RpcOk \<and> published \<noteq> Down \<and> published \<noteq> Degraded"

definition drop_scheme :: "string \<Rightarrow> string" where
  "drop_scheme s = (if starts_with ''http://'' s then drop 7 s else if starts_with ''https://'' s then drop 8 s else s)"

definition rpcHostLabel :: "string \<Rightarrow> string" where
  "rpcHostLabel endpoint =
     (let s = drop_scheme endpoint;
          t = (if ends_with '':443'' s then take (length s - 4) s else s)
      in rev (dropWhile (\<lambda>c. c = CHR ''/'') (rev t)))"

section \<open>Choosing an endpoint\<close>

definition latency_rank :: "candidate \<Rightarrow> int" where
  "latency_rank c = (case pr_latency (rc_probe c) of None \<Rightarrow> MAX_SAFE_INTEGER | Some l \<Rightarrow> l)"

definition by_latency :: "candidate list \<Rightarrow> candidate list" where
  "by_latency cs = sort_key latency_rank cs"

definition healthy_first :: "candidate list \<Rightarrow> candidate list" where
  "healthy_first cs =
     (let healthy = filter (\<lambda>c. classifyRpc (rc_probe c) = RpcOk) cs
      in by_latency (if healthy \<noteq> [] then healthy else cs))"

definition pickBestRpc :: "candidate list \<Rightarrow> string \<Rightarrow> candidate option" where
  "pickBestRpc candidates current =
     (let usable = filter (\<lambda>c. rc_endpoint c \<noteq> current \<and> rc_aggregator c \<noteq> Some False \<and> classifyRpc (rc_probe c) \<noteq> Down) candidates
      in if usable = [] then None else Some (hd (healthy_first usable)))"

definition AUTO_HEIGHT_TOLERANCE_BLOCKS :: int where "AUTO_HEIGHT_TOLERANCE_BLOCKS = 10"
definition AUTO_KEEP_MARGIN_MS :: int where "AUTO_KEEP_MARGIN_MS = 250"

definition qualifiesForAuto :: "candidate \<Rightarrow> int \<Rightarrow> bool" where
  "qualifiesForAuto c minHeight \<longleftrightarrow>
     pr_reachable (rc_probe c) \<and> pr_chainId (rc_probe c) = JStr EXPECTED_CHAIN_ID \<and> rc_aggregator c \<noteq> Some False \<and>
     at_least (pr_height (rc_probe c)) minHeight"

definition heights :: "candidate list \<Rightarrow> int list" where
  "heights cs = [h. Some h \<leftarrow> map (\<lambda>c. pr_height (rc_probe c)) cs]"

definition pickAutoRpc :: "candidate list \<Rightarrow> string \<Rightarrow> string option" where
  "pickAutoRpc candidates current =
     (if heights candidates = [] then None
      else
        let minHeight = Max (set (heights candidates)) - AUTO_HEIGHT_TOLERANCE_BLOCKS;
            others = filter (\<lambda>c. rc_endpoint c \<noteq> current \<and> qualifiesForAuto c minHeight) candidates
        in if others = [] then None
           else
             let best = hd (healthy_first others)
             in case find (\<lambda>c. rc_endpoint c = current) candidates of
                  None \<Rightarrow> Some (rc_endpoint best)
                | Some cur \<Rightarrow>
                    if \<not> qualifiesForAuto cur minHeight then Some (rc_endpoint best)
                    else if classifyRpc (rc_probe cur) = RpcOk then
                      (if classifyRpc (rc_probe best) \<noteq> RpcOk then None
                       else case (pr_latency (rc_probe cur), pr_latency (rc_probe best)) of
                           (Some l, Some m) \<Rightarrow> if m + AUTO_KEEP_MARGIN_MS < l then Some (rc_endpoint best) else None
                         | _ \<Rightarrow> None)
                    else if classifyRpc (rc_probe best) = RpcOk then Some (rc_endpoint best) else None)"

definition isRpcConnectivityError :: "string \<Rightarrow> bool" where
  "isRpcConnectivityError message \<longleftrightarrow>
     list_ex (\<lambda>p. contains_ci p message)
       ([''RPC connect timed out'', ''fetch failed'', ''ECONNREFUSED'', ''ECONNRESET'', ''ENOTFOUND'', ''EAI_AGAIN'',
         ''ETIMEDOUT'', ''socket hang up'', ''network error''] @
        [origin @ '' '' @ code. origin \<leftarrow> [''RPC returned'', ''Bad status on response:''],
           code \<leftarrow> [''502'', ''503'', ''504'', ''429'']])"


section \<open>What the choices promise\<close>

lemma by_latency_hd:
  assumes "cs \<noteq> []"
  shows "hd (by_latency cs) \<in> set cs" "\<forall>c \<in> set cs. latency_rank (hd (by_latency cs)) \<le> latency_rank c"
proof -
  have ne: "by_latency cs \<noteq> []" and s: "set (by_latency cs) = set cs"
    using assms set_sort [of latency_rank cs] by (auto simp: by_latency_def simp del: set_sort)
  then show "hd (by_latency cs) \<in> set cs" using hd_in_set by fastforce
  have "sorted (map latency_rank (by_latency cs))" by (simp add: by_latency_def)
  then show "\<forall>c \<in> set cs. latency_rank (hd (by_latency cs)) \<le> latency_rank c"
    using ne s [symmetric] by (cases "by_latency cs") auto
qed

lemma healthy_first_hd:
  assumes "cs \<noteq> []"
  shows "hd (healthy_first cs) \<in> set cs"
    and "(\<exists>c \<in> set cs. classifyRpc (rc_probe c) = RpcOk) \<Longrightarrow> classifyRpc (rc_probe (hd (healthy_first cs))) = RpcOk"
    and "c \<in> set cs \<Longrightarrow> classifyRpc (rc_probe c) = RpcOk \<Longrightarrow> latency_rank (hd (healthy_first cs)) \<le> latency_rank c"
proof -
  let ?h = "filter (\<lambda>c. classifyRpc (rc_probe c) = RpcOk) cs"
  have "hd (healthy_first cs) \<in> set (if ?h \<noteq> [] then ?h else cs)"
    using by_latency_hd(1) [of ?h] by_latency_hd(1) [of cs] assms by (simp add: healthy_first_def Let_def)
  then show "hd (healthy_first cs) \<in> set cs"
    "(\<exists>c \<in> set cs. classifyRpc (rc_probe c) = RpcOk) \<Longrightarrow> classifyRpc (rc_probe (hd (healthy_first cs))) = RpcOk"
    by (auto split: if_splits simp: filter_empty_conv)
  show "latency_rank (hd (healthy_first cs)) \<le> latency_rank c" if "c \<in> set cs" "classifyRpc (rc_probe c) = RpcOk"
  proof -
    have "c \<in> set ?h" using that by simp
    then have "?h \<noteq> []" by (metis empty_iff empty_set)
    with by_latency_hd(2) [of ?h] \<open>c \<in> set ?h\<close> show ?thesis by (simp add: healthy_first_def Let_def)
  qed
qed

text \<open>The lowest height an automatic switch accepts.\<close>

definition min_height :: "candidate list \<Rightarrow> int" where
  "min_height cs = Max (set (heights cs)) - AUTO_HEIGHT_TOLERANCE_BLOCKS"

lemma heights_mem: "h \<in> set (heights cs) \<longleftrightarrow> (\<exists>c \<in> set cs. pr_height (rc_probe c) = Some h)"
  by (auto simp: heights_def) (metis imageI option.simps)

text \<open>
  What an automatic switch may choose (\<open>pickAutoRpc\<close>): an endpoint other than the current one that
  was probed, was reachable on the right chain, is not flagged by the aggregator, and is within ten
  blocks of every height probed; no healthy candidate that qualifies was faster. A current endpoint
  that qualifies and is healthy is left only for a healthy one faster by more than 250 ms.
\<close>

theorem auto_choice_earned:
  assumes "pickAutoRpc cs current = Some e"
  shows "e \<noteq> current \<and>
    (\<exists>c \<in> set cs. rc_endpoint c = e \<and> pr_reachable (rc_probe c) \<and> pr_chainId (rc_probe c) = JStr ''sentinelhub-2'' \<and>
       rc_aggregator c \<noteq> Some False \<and>
       (\<exists>h. pr_height (rc_probe c) = Some h \<and> (\<forall>d \<in> set cs. \<forall>k. pr_height (rc_probe d) = Some k \<longrightarrow> k \<le> h + 10)) \<and>
       (\<forall>d \<in> set cs. rc_endpoint d \<noteq> current \<longrightarrow> qualifiesForAuto d (min_height cs) \<longrightarrow> classifyRpc (rc_probe d) = RpcOk \<longrightarrow>
          latency_rank c \<le> latency_rank d) \<and>
       (\<forall>cur. find (\<lambda>d. rc_endpoint d = current) cs = Some cur \<longrightarrow> qualifiesForAuto cur (min_height cs) \<longrightarrow>
          classifyRpc (rc_probe c) = RpcOk \<and>
          (classifyRpc (rc_probe cur) = RpcOk \<longrightarrow>
             (\<exists>l m. pr_latency (rc_probe cur) = Some l \<and> pr_latency (rc_probe c) = Some m \<and> m + 250 < l))))"
proof -
  let ?others = "filter (\<lambda>c. rc_endpoint c \<noteq> current \<and> qualifiesForAuto c (min_height cs)) cs"
  let ?best = "hd (healthy_first ?others)"
  have hs: "heights cs \<noteq> []" and ne: "?others \<noteq> []"
    using assms by (auto simp: pickAutoRpc_def min_height_def Let_def split: if_splits)
  have e: "e = rc_endpoint ?best"
    using assms by (auto simp: pickAutoRpc_def min_height_def Let_def split: if_splits option.splits)
  have b: "?best \<in> set cs" "rc_endpoint ?best \<noteq> current" "qualifiesForAuto ?best (min_height cs)"
    using healthy_first_hd(1) [OF ne] by auto
  then obtain h where h: "pr_height (rc_probe ?best) = Some h" "min_height cs \<le> h"
    by (auto simp: qualifiesForAuto_def at_least_def split: option.splits)
  have k: "k \<le> h + 10" if "d \<in> set cs" "pr_height (rc_probe d) = Some k" for d k
  proof -
    have "k \<le> Max (set (heights cs))" using that heights_mem by (intro Max_ge) auto
    with h(2) show ?thesis by (simp add: min_height_def AUTO_HEIGHT_TOLERANCE_BLOCKS_def)
  qed
  have fast: "latency_rank ?best \<le> latency_rank d"
    if "d \<in> set cs" "rc_endpoint d \<noteq> current" "qualifiesForAuto d (min_height cs)" "classifyRpc (rc_probe d) = RpcOk" for d
    using healthy_first_hd(3) [OF ne, of d] that by simp
  have cur: "classifyRpc (rc_probe ?best) = RpcOk \<and>
      (classifyRpc (rc_probe x) = RpcOk \<longrightarrow>
         (\<exists>l m. pr_latency (rc_probe x) = Some l \<and> pr_latency (rc_probe ?best) = Some m \<and> m + 250 < l))"
    if "find (\<lambda>d. rc_endpoint d = current) cs = Some x" "qualifiesForAuto x (min_height cs)" for x
    using assms that hs ne
    by (auto simp: pickAutoRpc_def min_height_def AUTO_KEEP_MARGIN_MS_def Let_def split: if_splits option.splits)
  show ?thesis
    using b h k fast cur unfolding e
    by (intro conjI bexI [of _ ?best]) (simp_all add: qualifiesForAuto_def EXPECTED_CHAIN_ID_def)
qed


text \<open>Three endpoints: the current one is healthy but slower than one of the others by more than the margin.\<close>

definition sample_candidate :: "string \<Rightarrow> int \<Rightarrow> int \<Rightarrow> candidate" where
  "sample_candidate e latency height = \<lparr>rc_endpoint = e, rc_probe = \<lparr>pr_reachable = True, pr_latency = Some latency,
     pr_chainId = JStr ''sentinelhub-2'', pr_height = Some height, pr_blockAge = Some 5, pr_error = None\<rparr>, rc_aggregator = None\<rparr>"

definition sample_candidates :: "candidate list" where
  "sample_candidates = [sample_candidate ''a'' 900 100, sample_candidate ''b'' 300 95, sample_candidate ''c'' 100 80]"

lemma sample_pick: "pickAutoRpc sample_candidates ''a'' = Some ''b''"
  by (simp add: sample_candidates_def pickAutoRpc_def heights_def sample_candidate_def qualifiesForAuto_def at_least_def
    EXPECTED_CHAIN_ID_def AUTO_HEIGHT_TOLERANCE_BLOCKS_def healthy_first_def by_latency_def classifyRpc_def above_def
    STALE_BLOCK_AGE_SEC_def SLOW_LATENCY_MS_def AUTO_KEEP_MARGIN_MS_def)

lemma auto_choice_earned_witness: "pickAutoRpc sample_candidates ''a'' = Some ''b'' \<and> ''b'' \<noteq> ''a''"
  using sample_pick auto_choice_earned by blast

end
