(* ===== verification/ChainTx.thy ===== *)
theory ChainTx
  imports RpcHealth
begin

text \<open>
  Spending money on the chain: the balance check before a transaction (\<open>src/shared/funds.ts\<close>,
  \<open>src/main/chain/chain-guards.ts\<close>), what a broadcast's outcome is turned into
  (\<open>src/main/chain/tx-utils.ts\<close>), and the transactions the app signs (\<open>subscribeToNode\<close> and \<open>endSession\<close> of
  \<open>chain-service.ts\<close>, the plan and subscription transactions of \<open>src/main/plans/plan-service.ts\<close>).

  The chain is the record \<open>chain_io\<close>: balances, rows, heights and the outcome of each broadcast are
  functions of the history, and the event parsers of the SDK are fields of it. Amounts are exact
  integers; how an amount of udvpn is written out in P2P is a field too.
\<close>

section \<open>Funds\<close>

definition FEE_RESERVE_UDVPN :: int where "FEE_RESERVE_UDVPN = 50000"

record coin =
  co_denom :: string
  co_amount :: string

definition udvpnOf :: "coin list \<Rightarrow> int" where
  "udvpnOf balances =
     (case find (\<lambda>b. co_denom b = ''udvpn'') balances of
        None \<Rightarrow> 0
      | Some entry \<Rightarrow> (case parse_int (co_amount entry) of
            None \<Rightarrow> 0
          | Some parsed \<Rightarrow> if parsed > 0 then parsed else 0))"

definition registrationDepositCost :: "coin \<Rightarrow> int result" where
  "registrationDepositCost deposit =
     (let unreadable = throw ''The provider deposit could not be read from the chain. Try again in a moment.'' in
      if \<not> decimal_id (co_amount deposit) then unreadable
      else let amount = int (read_nat (co_amount deposit)) in
        if amount > MAX_SAFE_INTEGER then unreadable
        else if amount > 0 \<and> co_denom deposit \<noteq> ''udvpn'' then
          throw (''The provider deposit is priced in '' @ co_denom deposit @
            '', which this app cannot verify funds for. Registration is refused rather than risking a failed spend.'')
        else ok amount)"

record funds_check =
  fc_ok :: bool
  fc_available :: int
  fc_cost :: int
  fc_required :: int
  fc_shortfall :: int

definition checkFunds :: "int \<Rightarrow> int \<Rightarrow> funds_check" where
  "checkFunds available costUdvpn =
     (let required = costUdvpn + FEE_RESERVE_UDVPN
      in \<lparr>fc_ok = available \<ge> required, fc_available = available, fc_cost = costUdvpn, fc_required = required,
          fc_shortfall = max 0 (required - available)\<rparr>)"

text \<open>\<open>p2p\<close> and \<open>p2pCeil\<close> are \<open>formatP2p\<close> and \<open>formatP2pCeil\<close>.\<close>

definition insufficientFundsMessage :: "(int \<Rightarrow> string) \<Rightarrow> (int \<Rightarrow> string) \<Rightarrow> funds_check \<Rightarrow> string" where
  "insufficientFundsMessage p2p p2pCeil c =
     (if fc_cost c = 0 then
        ''Not enough P2P for the network fee: this needs ~'' @ p2p (fc_required c) @ '' P2P and your wallet has '' @
        p2p (fc_available c) @ ''.''
      else
        ''Not enough P2P: this costs '' @ p2p (fc_cost c) @ '' plus ~'' @ p2p FEE_RESERVE_UDVPN @ '' in network fees ('' @
        p2p (fc_required c) @ '' total), and your wallet has '' @ p2p (fc_available c) @ ''. Add '' @
        p2pCeil (fc_shortfall c) @ '' P2P and try again.'')"

section \<open>The chain\<close>

record chain_event =
  ce_type :: string
  ce_attributes :: "(string \<times> string) list"

record tx =
  tx_code :: int
  tx_rawLog :: "string option"
  tx_events :: "chain_event list"

text \<open>How a broadcast ends: the transaction was included, the client gave up waiting for it
  (\<open>TimeoutError\<close>), or the broadcast threw anything else. That last is taken to mean that no node has the
  transaction: it comes from the connection, the gas simulation or the checks a node makes before it takes
  one. A connection that breaks after a node took the transaction also ends there; the code tells the two apart no
  better, and what it does then is the same.\<close>

datatype broadcast = Included tx | NotConfirmed | Rejected failure

record price =
  pc_denom :: string
  pc_baseValue :: string
  pc_quoteValue :: string

record chain_node =
  cn_gigabytePrices :: "price list"
  cn_hourlyPrices :: "price list"
  cn_remoteAddrs :: "string list"

record chain_io =
  c_env :: env
  c_balances :: "history \<Rightarrow> string \<Rightarrow> coin list option"
  c_p2p :: "int \<Rightarrow> string"
  c_p2pCeil :: "int \<Rightarrow> string"
  c_rpcEndpoint :: "history \<Rightarrow> string"
  c_connect :: "history \<Rightarrow> unit result"
  c_height :: "history \<Rightarrow> int result"
  c_node :: "history \<Rightarrow> string \<Rightarrow> chain_node result"
  c_send :: "history \<Rightarrow> string \<Rightarrow> chain_msg \<Rightarrow> int option \<Rightarrow> broadcast"
  c_nodeSessionType :: string
  c_nodeSession :: "chain_event \<Rightarrow> string option"
  c_subSessionType :: string
  c_subSession :: "chain_event \<Rightarrow> string option \<times> string option"
  c_subCreateType :: string
  c_subCreate :: "chain_event \<Rightarrow> string option"

section \<open>Outcomes\<close>

definition FUNDS_CODES :: "int list" where "FUNDS_CODES = [5, 11, 13]"

definition INSUFFICIENT_FUNDS :: string where "INSUFFICIENT_FUNDS = ''INSUFFICIENT_FUNDS''"

definition RPC_UNREACHABLE :: string where "RPC_UNREACHABLE = ''RPC_UNREACHABLE''"

definition isInsufficientFundsFailure :: "int option \<Rightarrow> string \<Rightarrow> bool" where
  "isInsufficientFundsFailure code logText \<longleftrightarrow>
     (case code of None \<Rightarrow> False | Some c \<Rightarrow> c \<in> set FUNDS_CODES) \<or>
     list_ex (\<lambda>p. contains_ci p logText) [''insufficient funds'', ''insufficient fee'', ''out of gas'']"

definition isChainNotFound :: "string \<Rightarrow> bool" where
  "isChainNotFound message \<longleftrightarrow> contains ''Query failed with (22)'' message \<or> contains ''code = NotFound'' message"

text \<open>\<open>/invalid status \w+ for session/\<close>: after the first literal the longest run of word characters,
  then the second.\<close>

fun status_for_session :: "string \<Rightarrow> bool" where
  "status_for_session [] \<longleftrightarrow> False"
| "status_for_session (c # cs) \<longleftrightarrow>
     (starts_with ''invalid status '' (c # cs) \<and>
      (let rest = drop 15 (c # cs); word = takeWhile (\<lambda>x. is_alnum x \<or> x = CHR ''_'') rest
       in word \<noteq> [] \<and> starts_with '' for session'' (drop (length word) rest))) \<or>
     status_for_session cs"

definition isSessionNotActive :: "string \<Rightarrow> bool" where
  "isSessionNotActive message \<longleftrightarrow> contains ''invalid session status'' message \<or> status_for_session message"

definition FUNDS_MESSAGE :: string where
  "FUNDS_MESSAGE = INSUFFICIENT_FUNDS @ '': The transaction was rejected: your wallet doesn'' @ [CHR 0x27] @
     ''t have enough P2P to cover it plus the network fee. Nothing was charged. Top up your wallet and try again.''"

definition assertTxSucceeded :: "tx \<Rightarrow> string \<Rightarrow> unit result" where
  "assertTxSucceeded t label =
     (if tx_code t = 0 then ok ()
      else if isInsufficientFundsFailure (Some (tx_code t)) (case tx_rawLog t of None \<Rightarrow> '''' | Some l \<Rightarrow> l)
      then throw FUNDS_MESSAGE
      else throw (label @ '' failed with code '' @ show_int (tx_code t) @ '': '' @
        (case tx_rawLog t of None \<Rightarrow> ''undefined'' | Some l \<Rightarrow> l)))"

text \<open>A thrown value is an \<open>Error\<close> when it has a message.\<close>

definition message_of :: "failure \<Rightarrow> string option" where
  "message_of e = as_string (jget ''message'' (f_value e))"

definition broadcastOrTimeout :: "broadcast \<Rightarrow> string \<Rightarrow> failure + tx" where
  "broadcastOrTimeout p timeoutMessage =
     (case p of
        Included t \<Rightarrow> Inr t
      | NotConfirmed \<Rightarrow> Inl (failed timeoutMessage)
      | Rejected e \<Rightarrow>
          (case message_of e of
             Some m \<Rightarrow> if isInsufficientFundsFailure None m then Inl (failed FUNDS_MESSAGE) else Inl e
           | None \<Rightarrow> Inl e))"

text \<open>The two together, and what the outside world has seen: \<open>broadcastOrTimeout\<close> around
  \<open>signAndBroadcast\<close>, then \<open>assertTxSucceeded\<close>.\<close>

definition seen :: "string \<Rightarrow> chain_msg \<Rightarrow> broadcast \<Rightarrow> history" where
  "seen account msg p =
     (case p of
        Included t \<Rightarrow> if tx_code t = 0 then [Landed account msg] else []
      | NotConfirmed \<Rightarrow> [Unconfirmed account msg]
      | Rejected _ \<Rightarrow> [])"

definition send_tx ::
  "chain_io \<Rightarrow> string \<Rightarrow> chain_msg \<Rightarrow> int option \<Rightarrow> string \<Rightarrow> string \<Rightarrow> tx run" where
  "send_tx c account msg timeoutHeight timeoutMessage label h =
     (let p = c_send c h account msg timeoutHeight; h' = h @ seen account msg p
      in case broadcastOrTimeout p timeoutMessage of
           Inl e \<Rightarrow> (Inl e, h')
         | Inr t \<Rightarrow> (case assertTxSucceeded t label of
               Inl msg' \<Rightarrow> (Inl (failed msg'), h')
             | Inr _ \<Rightarrow> (Inr t, h')))"

fun searchEvent :: "string \<Rightarrow> chain_event list \<Rightarrow> chain_event option" where
  "searchEvent t [] = None"
| "searchEvent t (e # es) = (if ce_type e = t then Some e else searchEvent t es)"

section \<open>Guards\<close>

definition assertSufficientFunds :: "chain_io \<Rightarrow> string \<Rightarrow> int \<Rightarrow> unit run" where
  "assertSufficientFunds c account costUdvpn =
     seq (look (\<lambda>h. c_balances c h account)) (\<lambda>balances.
     (case balances of
        None \<Rightarrow> ret ()
      | Some bs \<Rightarrow> let check = checkFunds (udvpnOf bs) costUdvpn in
          if fc_ok check then ret ()
          else raise (failed (INSUFFICIENT_FUNDS @ '': '' @ insufficientFundsMessage (c_p2p c) (c_p2pCeil c) check))))"

definition assertSufficientFundsFor :: "chain_io \<Rightarrow> string \<Rightarrow> int \<Rightarrow> unit run" where
  "assertSufficientFundsFor c address costUdvpn =
     seq (look (\<lambda>h. c_balances c h address)) (\<lambda>balances.
     (case balances of
        None \<Rightarrow> ret ()
      | Some bs \<Rightarrow> let check = checkFunds (udvpnOf bs) costUdvpn in
          if fc_ok check then ret ()
          else raise (failed (INSUFFICIENT_FUNDS @ '': the wallet paying for the exit hop is short. '' @
            insufficientFundsMessage (c_p2p c) (c_p2pCeil c) check))))"

text \<open>The arrow in the message is written as its three UTF-8 bytes.\<close>

definition noteChainError :: "chain_io \<Rightarrow> history \<Rightarrow> failure \<Rightarrow> failure" where
  "noteChainError c h err =
     (let message = (case message_of err of Some m \<Rightarrow> m | None \<Rightarrow> to_string (f_value err)) in
      if isRpcConnectivityError message then
        failed (RPC_UNREACHABLE @ '': Couldn'' @ [CHR 0x27] @ ''t reach the blockchain at '' @
          rpcHostLabel (if c_rpcEndpoint c h = '''' then ''the RPC endpoint'' else c_rpcEndpoint c h) @
          ''. Check your internet connection, or switch to another RPC endpoint in Settings '' @
          [CHR 0xE2, CHR 0x86, CHR 0x92] @ '' Network. ('' @ message @ '')'')
      else err)"

text \<open>\<open>p.catch(noteChainError)\<close>.\<close>

definition noting :: "chain_io \<Rightarrow> 'a run \<Rightarrow> 'a run" where
  "noting c m = catching m (\<lambda>err h. (Inl (noteChainError c h err), h))"

section \<open>Buying and cancelling a session\<close>

definition TX_TIMEOUT_HEIGHT_OFFSET :: int where "TX_TIMEOUT_HEIGHT_OFFSET = 30"

definition SESSION_TX_TIMEOUT_MESSAGE :: string where
  "SESSION_TX_TIMEOUT_MESSAGE = ''The transaction timed out before confirmation. It may still be processing. Check '' @
     ''the Session tab shortly and cancel any unexpected session to reclaim your funds.''"

definition END_SESSION_TX_TIMEOUT_MESSAGE :: string where
  "END_SESSION_TX_TIMEOUT_MESSAGE = ''The cancel transaction timed out before confirmation. It may still be processing. '' @
     ''Refresh the Session tab shortly to see whether the session ended.''"

definition queryNodeOnChain :: "chain_io \<Rightarrow> string \<Rightarrow> chain_node run" where
  "queryNodeOnChain c nodeAddress =
     seq (look (\<lambda>h. c_node c h nodeAddress)) (\<lambda>answer.
       seq (tell (ReadRow nodeAddress (case answer of Inl e \<Rightarrow> None | Inr node \<Rightarrow> Some (cn_remoteAddrs node)))) (\<lambda>_. lift answer))"

text \<open>The height is read on the shared connection of a connect flow (\<open>shared\<close>), or on one opened here.\<close>

definition signing_height :: "chain_io \<Rightarrow> bool \<Rightarrow> int run" where
  "signing_height c shared =
     seq (if shared then ret () else seq (look (c_connect c)) lift) (\<lambda>_.
     seq (look (c_height c)) lift)"

definition node_price :: "chain_node \<Rightarrow> bool \<Rightarrow> string \<Rightarrow> price result" where
  "node_price node gigabytes denom =
     (case find (\<lambda>p. pc_denom p = denom) (if gigabytes then cn_gigabytePrices node else cn_hourlyPrices node) of
        None \<Rightarrow> throw (''Node does not accept '' @ denom @ '' for '' @ (if gigabytes then ''gigabytes'' else ''hours'') @
          '' subscriptions'')
      | Some p \<Rightarrow> ok p)"

definition opened_session :: "chain_io \<Rightarrow> tx \<Rightarrow> string result" where
  "opened_session c t =
     (case searchEvent (c_nodeSessionType c) (tx_events t) of
        None \<Rightarrow> throw ''Could not find session creation event in transaction''
      | Some e \<Rightarrow> (case c_nodeSession c e of
            None \<Rightarrow> throw ''Session ID not found in event''
          | Some sessionId \<Rightarrow> ok sessionId))"

definition subscribeToNode ::
  "chain_io \<Rightarrow> bool \<Rightarrow> string \<Rightarrow> string \<Rightarrow> string \<Rightarrow> bool \<Rightarrow> int \<Rightarrow> string \<Rightarrow> (string \<times> string) run" where
  "subscribeToNode c shared account nodeAddress apiField gigabytes amount denom =
     seq (queryNodeOnChain c nodeAddress) (\<lambda>node.
     seq (signing_height c shared) (\<lambda>height.
     seq (lift (remoteUrlFromNode (c_env c) (Some (cn_remoteAddrs node)) apiField)) (\<lambda>remoteUrl.
     seq (lift (node_price node gigabytes denom)) (\<lambda>p.
     seq (send_tx c account
            (StartNodeSession nodeAddress amount gigabytes (pc_denom p) (pc_baseValue p) (pc_quoteValue p))
            (Some (height + TX_TIMEOUT_HEIGHT_OFFSET)) SESSION_TX_TIMEOUT_MESSAGE ''Transaction'') (\<lambda>t.
     seq (lift (opened_session c t)) (\<lambda>sessionId.
     seq (tell (Bought nodeAddress account sessionId)) (\<lambda>_.
     ret (sessionId, remoteUrl))))))))"

text \<open>A cancel that the chain refuses because the session has ended already counts as done; the record on
  disk is retired (\<open>retireSessionConfig\<close>) when this returns.\<close>

definition endSession :: "chain_io \<Rightarrow> string \<Rightarrow> string \<Rightarrow> unit run" where
  "endSession c account sessionId =
     seq (seq (look (c_connect c)) lift) (\<lambda>_.
     catching
       (seq (send_tx c account (CancelSession sessionId) None END_SESSION_TX_TIMEOUT_MESSAGE ''End session'') (\<lambda>_. ret ()))
       (\<lambda>err. case message_of err of
            Some m \<Rightarrow> if isSessionNotActive m then ret () else raise err
          | None \<Rightarrow> raise err))"

section \<open>Plans and subscriptions\<close>

definition TX_TIMEOUT_MESSAGE :: string where
  "TX_TIMEOUT_MESSAGE = ''The transaction timed out before confirmation. It may still be processing. Check '' @
     ''the Session tab shortly and cancel any unexpected session.''"

text \<open>The common part of the plan transactions, on the shared connection or one opened here.\<close>

definition plan_tx :: "chain_io \<Rightarrow> bool \<Rightarrow> string \<Rightarrow> chain_msg \<Rightarrow> tx run" where
  "plan_tx c shared account msg =
     seq (signing_height c shared) (\<lambda>height.
     send_tx c account msg (Some (height + TX_TIMEOUT_HEIGHT_OFFSET)) TX_TIMEOUT_MESSAGE ''Transaction'')"

definition cancelSubscription :: "chain_io \<Rightarrow> bool \<Rightarrow> string \<Rightarrow> string \<Rightarrow> unit run" where
  "cancelSubscription c shared account subscriptionId =
     seq (plan_tx c shared account (CancelSubscription subscriptionId)) (\<lambda>_. ret ())"

definition renewSubscription :: "chain_io \<Rightarrow> bool \<Rightarrow> string \<Rightarrow> string \<Rightarrow> string \<Rightarrow> unit run" where
  "renewSubscription c shared account subscriptionId denom =
     seq (plan_tx c shared account (RenewSubscription subscriptionId denom)) (\<lambda>_. ret ())"

definition updateSubscriptionPolicy :: "chain_io \<Rightarrow> bool \<Rightarrow> string \<Rightarrow> string \<Rightarrow> int \<Rightarrow> unit run" where
  "updateSubscriptionPolicy c shared account subscriptionId policy =
     seq (plan_tx c shared account (UpdateSubscription subscriptionId policy)) (\<lambda>_. ret ())"

definition or_else :: "string option \<Rightarrow> string \<Rightarrow> string" where
  "or_else x d = (case x of None \<Rightarrow> d | Some s \<Rightarrow> if s = '''' then d else s)"

definition ridden_session :: "chain_io \<Rightarrow> string \<Rightarrow> tx \<Rightarrow> (string \<times> string) result" where
  "ridden_session c subscriptionId t =
     (case searchEvent (c_subSessionType c) (tx_events t) of
        None \<Rightarrow> throw ''Could not find session creation event in subscription transaction''
      | Some e \<Rightarrow> (case c_subSession c e of
            (None, _) \<Rightarrow> throw ''Session ID missing from subscription event''
          | (Some sessionId, sub) \<Rightarrow> ok (sessionId, or_else sub subscriptionId)))"

definition startSessionWithExistingSubscription ::
  "chain_io \<Rightarrow> bool \<Rightarrow> string \<Rightarrow> string \<Rightarrow> string \<Rightarrow> (string \<times> string) run" where
  "startSessionWithExistingSubscription c shared account subscriptionId nodeAddress =
     seq (plan_tx c shared account (StartSubscriptionSession subscriptionId nodeAddress)) (\<lambda>t.
     seq (lift (ridden_session c subscriptionId t)) (\<lambda>(sessionId, sub).
     seq (tell (Bought nodeAddress account sessionId)) (\<lambda>_. ret (sessionId, sub))))"

definition planned_session :: "chain_io \<Rightarrow> tx \<Rightarrow> (string \<times> string) result" where
  "planned_session c t =
     (case searchEvent (c_subSessionType c) (tx_events t) of
        None \<Rightarrow> throw ''Could not find session creation event in plan transaction''
      | Some e \<Rightarrow> (case c_subSession c e of
            (None, _) \<Rightarrow> throw ''Session ID missing from plan event''
          | (Some sessionId, Some sub) \<Rightarrow> ok (sessionId, sub)
          | (Some sessionId, None) \<Rightarrow>
              ok (sessionId, (case searchEvent (c_subCreateType c) (tx_events t) of
                None \<Rightarrow> ''''
              | Some e' \<Rightarrow> or_else (c_subCreate c e') ''''))))"

definition subscribeToPlan ::
  "chain_io \<Rightarrow> bool \<Rightarrow> string \<Rightarrow> string \<Rightarrow> string \<Rightarrow> string \<Rightarrow> int option \<Rightarrow> (string \<times> string) run" where
  "subscribeToPlan c shared account planId denom nodeAddress renewalPricePolicy =
     seq (plan_tx c shared account
            (StartPlanSession planId denom nodeAddress (case renewalPricePolicy of None \<Rightarrow> 7 | Some p \<Rightarrow> p))) (\<lambda>t.
     seq (lift (planned_session c t)) (\<lambda>(sessionId, sub).
     seq (tell (Bought nodeAddress account sessionId)) (\<lambda>_. ret (sessionId, sub))))"

end
