(* ===== verification/PlanConnect.thy ===== *)
theory PlanConnect
  imports ChainTx "HOL-Library.Char_ord" "HOL-Library.List_Lexorder" "HOL-Library.Product_Lexorder"
begin

text \<open>
  Which node of a plan a smart connect may buy, and in what order
  (\<open>src/main/plans/plan-connect.ts\<close>), with what is proved of the ranking. Latencies are rationals. The
  tie-break \<open>localeCompare\<close> on node addresses is the order of their character codes, which is the
  same order on lower-case letters and digits.
\<close>

record plan_candidate =
  pn_address :: string
  pn_moniker :: string
  pn_country :: string
  pn_type :: int
  pn_api :: string
  pn_isActive :: bool
  pn_isHealthy :: bool
  pn_latencyMs :: "rat option"
  pn_probeFailed :: bool
  pn_runtimeOk :: bool
  pn_signsReplies :: bool

definition PROTOCOL_PREFERENCE :: "int list" where "PROTOCOL_PREFERENCE = [1, 5, 4, 2, 6, 3]"
definition LATENCY_BUCKET_MS :: rat where "LATENCY_BUCKET_MS = 25"
definition MAX_TX_ATTEMPTS :: nat where "MAX_TX_ATTEMPTS = 3"
definition PROXY_CAPABLE_TYPES :: "int list" where "PROXY_CAPABLE_TYPES = [2, 4, 6]"
definition CONNECTABLE_TYPES :: "int list" where "CONNECTABLE_TYPES = [1, 2, 3, 4, 5, 6]"

definition exclusionReason :: "plan_candidate \<Rightarrow> bool \<Rightarrow> bool \<Rightarrow> string option" where
  "exclusionReason c requireProxyCapable requireSigned =
     (if pn_api c = '''' then Some ''not listed in the node directory''
      else if pn_type c \<notin> set CONNECTABLE_TYPES then Some ''runs an unknown protocol''
      else if \<not> pn_runtimeOk c then Some ''its protocol cannot run on this machine''
      else if \<not> pn_isActive c then Some ''not active''
      else if \<not> pn_isHealthy c then Some ''reported unhealthy by the node directory''
      else if pn_probeFailed c then Some ''did not answer a probe''
      else if requireProxyCapable \<and> pn_type c \<notin> set PROXY_CAPABLE_TYPES then Some ''cannot run in local proxy mode''
      else if requireSigned \<and> \<not> pn_signsReplies c
      then Some (''does not sign its handshake replies ('' @ dquote @ ''Signed nodes only'' @ dquote @ '' is on)'')
      else None)"

definition latencyBucket :: "plan_candidate \<Rightarrow> int" where
  "latencyBucket c = (case pn_latencyMs c of None \<Rightarrow> MAX_SAFE_INTEGER | Some l \<Rightarrow> \<lfloor>l / LATENCY_BUCKET_MS\<rfloor>)"

definition protocolRank :: "int \<Rightarrow> nat" where
  "protocolRank t = length (takeWhile (\<lambda>p. p \<noteq> t) PROTOCOL_PREFERENCE)"

text \<open>The comparator of the sort as a key; \<open>Array.prototype.sort\<close> is stable, like \<open>sort_key\<close>.\<close>

definition rank_key :: "plan_candidate \<Rightarrow> int \<times> nat \<times> string" where
  "rank_key c = (latencyBucket c, protocolRank (pn_type c), pn_address c)"

definition rankPlanCandidates ::
  "plan_candidate list \<Rightarrow> bool \<Rightarrow> bool \<Rightarrow> plan_candidate list \<times> (string \<times> string) list" where
  "rankPlanCandidates candidates requireProxyCapable requireSigned =
     (let reason = (\<lambda>c. exclusionReason c requireProxyCapable requireSigned)
      in (sort_key rank_key (filter (\<lambda>c. reason c = None) candidates),
          [(pn_address c, r). c \<leftarrow> candidates, Some r \<leftarrow> [reason c]]))"

datatype smart_failure = FPreflight | FHandshake | FPolicy | FEndpoint | FTxTimeout | FFunds | FChain

definition shouldTryNextCandidate :: "smart_failure \<Rightarrow> nat \<Rightarrow> bool" where
  "shouldTryNextCandidate failure txAttemptsSoFar =
     (if failure = FPreflight \<or> failure = FEndpoint then True
      else if failure = FHandshake \<or> failure = FPolicy then txAttemptsSoFar < MAX_TX_ATTEMPTS
      else False)"

datatype ladder_tx = PlanSubscribe | SessionOnly

definition ladderNextTx :: "string option \<Rightarrow> ladder_tx" where
  "ladderNextTx subscriptionId = (if subscriptionId = None then PlanSubscribe else SessionOnly)"

definition smartConnectFailureSummary :: "(string \<times> string) list \<Rightarrow> string" where
  "smartConnectFailureSummary attempts =
     (if attempts = [] then ''No node in this plan was usable right now. Nothing was charged.''
      else ''Could not connect through this plan. Tried '' @ show_nat (length attempts) @ '' node'' @
        (if length attempts = 1 then '''' else ''s'') @ ''. '' @
        join ''; '' (map (\<lambda>(moniker, reason). moniker @ '': '' @ reason) attempts))"

section \<open>What the ranking promises\<close>

lemma exclusionReason_None:
  "exclusionReason c proxy sig = None \<longleftrightarrow>
     pn_api c \<noteq> '''' \<and> pn_type c \<in> set CONNECTABLE_TYPES \<and> pn_runtimeOk c \<and> pn_isActive c \<and> pn_isHealthy c \<and>
     \<not> pn_probeFailed c \<and> (proxy \<longrightarrow> pn_type c \<in> set PROXY_CAPABLE_TYPES) \<and> (sig \<longrightarrow> pn_signsReplies c)"
  by (simp add: exclusionReason_def)

lemma ranked_set:
  "set (fst (rankPlanCandidates cs proxy sig)) = {c \<in> set cs. exclusionReason c proxy sig = None}"
  by (auto simp: rankPlanCandidates_def)

lemma ranked_count:
  "length (fst (rankPlanCandidates cs proxy sig)) + length (snd (rankPlanCandidates cs proxy sig)) = length cs"
  by (simp add: rankPlanCandidates_def Let_def) (induction cs, auto)

lemma ranked_sorted: "sorted (map rank_key (fst (rankPlanCandidates cs proxy sig)))"
  by (simp add: rankPlanCandidates_def)

text \<open>Ranking again what a first ranking kept, with the same measurements, changes nothing.\<close>

lemma ranked_again:
  "rankPlanCandidates (fst (rankPlanCandidates cs proxy sig)) proxy sig =
     (fst (rankPlanCandidates cs proxy sig), [])"
proof -
  let ?r = "fst (rankPlanCandidates cs proxy sig)"
  have n: "exclusionReason c proxy sig = None" if "c \<in> set ?r" for c using that ranked_set by blast
  then have "filter (\<lambda>c. exclusionReason c proxy sig = None) ?r = ?r" by (simp add: filter_id_conv)
  moreover have "sort_key rank_key ?r = ?r" using ranked_sorted by (rule sort_key_id_if_sorted)
  moreover have "[(pn_address c, r). c \<leftarrow> ?r, Some r \<leftarrow> [exclusionReason c proxy sig]] = []"
    using n by simp
  ultimately show ?thesis by (simp add: rankPlanCandidates_def)
qed

end
