(* ===== verification/Validate.thy ===== *)
theory Validate
  imports Json Complex_Main
begin

text \<open>
  The shape checks on values arriving over IPC, \<open>src/main/ipc/validate.ts\<close>. A number that is not a safe
  integer is read back from the text it prints as, which orders it against small integers as the
  number itself.
\<close>

definition pow10 :: "int \<Rightarrow> rat" where
  "pow10 e = (if e \<ge> 0 then 10 ^ nat e else 1 / 10 ^ nat (- e))"

definition unsigned_value :: "string \<Rightarrow> rat" where
  "unsigned_value s =
     (let mantissa = takeWhile (\<lambda>c. c \<noteq> CHR ''e'') s;
          exponent = (case parse_int (drop (length mantissa + 1) s) of None \<Rightarrow> 0 | Some e \<Rightarrow> e);
          whole = takeWhile (\<lambda>c. c \<noteq> CHR ''.'') mantissa;
          fraction = drop (length whole + 1) mantissa
      in of_nat (read_nat (whole @ fraction)) * pow10 (exponent - int (length fraction)))"

definition num_value :: "jnum \<Rightarrow> rat option" where
  "num_value n = (case n of
      NInt i \<Rightarrow> Some (of_int i)
    | NOther s \<Rightarrow>
        if s = ''NaN'' \<or> s = ''Infinity'' \<or> s = ''-Infinity'' then None
        else (case s of
            c # cs \<Rightarrow> Some (if c = CHR ''-'' then - unsigned_value cs else unsigned_value s)
          | [] \<Rightarrow> None))"

definition assertString :: "js \<Rightarrow> string \<Rightarrow> unit result" where
  "assertString v name =
     (case as_string v of
        Some (c # cs) \<Rightarrow> ok ()
      | _ \<Rightarrow> throw (''Invalid '' @ name @ '': expected non-empty string''))"

definition assertOptionalString :: "js \<Rightarrow> string \<Rightarrow> unit result" where
  "assertOptionalString v name =
     (if v \<noteq> JUndef \<and> as_string v = None then throw (''Invalid '' @ name @ '': expected string'') else ok ())"

definition as_number :: "js \<Rightarrow> rat option" where
  "as_number v = (case v of JNum n \<Rightarrow> num_value n | _ \<Rightarrow> None)"

definition assertNumber :: "js \<Rightarrow> string \<Rightarrow> int option \<Rightarrow> int option \<Rightarrow> unit result" where
  "assertNumber v name lo hi =
     (case as_number v of
        None \<Rightarrow> throw (''Invalid '' @ name @ '': expected number'')
      | Some x \<Rightarrow>
          if lo \<noteq> None \<and> x < of_int (the lo) then throw (''Invalid '' @ name @ '': must be >= '' @ show_int (the lo))
          else if hi \<noteq> None \<and> x > of_int (the hi) then throw (''Invalid '' @ name @ '': must be <= '' @ show_int (the hi))
          else ok ())"

text \<open>\<open>/^sent(node|prov)?1[a-z0-9]{38,}$/\<close>.\<close>

definition sent_address :: "string \<Rightarrow> bool" where
  "sent_address s \<longleftrightarrow>
     list_ex (\<lambda>p. starts_with p s \<and> 38 \<le> length (drop (length p) s) \<and>
         list_all (\<lambda>c. is_lower c \<or> is_digit c) (drop (length p) s))
       [''sent1'', ''sentnode1'', ''sentprov1'']"

definition assertSentAddress :: "js \<Rightarrow> string \<Rightarrow> unit result" where
  "assertSentAddress v name =
     and_then (assertString v name) (\<lambda>_.
       if sent_address (case as_string v of Some s \<Rightarrow> s | None \<Rightarrow> []) then ok ()
       else throw (''Invalid '' @ name @ '': not a valid wallet address''))"

definition assertIntRange :: "js \<Rightarrow> string \<Rightarrow> int \<Rightarrow> int \<Rightarrow> unit result" where
  "assertIntRange v name lo hi =
     (case as_number v of
        None \<Rightarrow> throw (''Invalid '' @ name @ '': expected integer'')
      | Some x \<Rightarrow>
          if x \<noteq> of_int \<lfloor>x\<rfloor> then throw (''Invalid '' @ name @ '': expected integer'')
          else if x < of_int lo \<or> x > of_int hi
          then throw (''Invalid '' @ name @ '': must be between '' @ show_int lo @ '' and '' @ show_int hi)
          else ok ())"

lemma assertString_ok: "assertString v name = Inr u \<longleftrightarrow> (\<exists>s. v = JStr s \<and> s \<noteq> [])"
  by (cases v) (auto simp: assertString_def split: list.splits)

lemma assertNumber_ok:
  "assertNumber v name lo hi = Inr u \<longleftrightarrow>
     (\<exists>x. as_number v = Some x \<and> (\<forall>l. lo = Some l \<longrightarrow> of_int l \<le> x) \<and> (\<forall>h. hi = Some h \<longrightarrow> x \<le> of_int h))"
  by (auto simp: assertNumber_def split: option.splits)

lemma assertIntRange_ok:
  "assertIntRange v name lo hi = Inr u \<longleftrightarrow> (\<exists>i. as_number v = Some (of_int i) \<and> lo \<le> i \<and> i \<le> hi)"
proof
  assume a: "assertIntRange v name lo hi = Inr u"
  then obtain x where x: "as_number v = Some x" "x = of_int \<lfloor>x\<rfloor>" "\<not> x < of_int lo" "\<not> x > of_int hi"
    by (auto simp: assertIntRange_def split: option.splits if_splits)
  then have "lo \<le> \<lfloor>x\<rfloor>" "\<lfloor>x\<rfloor> \<le> hi" by (metis of_int_le_iff not_le)+
  with x show "\<exists>i. as_number v = Some (of_int i) \<and> lo \<le> i \<and> i \<le> hi" by metis
next
  assume "\<exists>i. as_number v = Some (of_int i) \<and> lo \<le> i \<and> i \<le> hi"
  then show "assertIntRange v name lo hi = Inr u" by (auto simp: assertIntRange_def)
qed

end
