(* ===== verification/Shop.thy ===== *)
theory Shop
  imports SessionBook PlanConnect Validate
begin

text \<open>
  The handlers that buy a session (\<open>CONNECTION_SUBSCRIBE\<close>, \<open>PLAN_SUBSCRIBE\<close>,
  \<open>PLAN_START_SESSION_FROM_SUB\<close> and \<open>PLAN_SMART_CONNECT\<close> of \<open>src/main/ipc-handlers.ts\<close>), from the check of
  their parameters to the session book: what they ask, what they sign, and when a smart connect goes
  on to the next node of a plan. The parameters are JavaScript values; amounts are whole numbers.
\<close>

section \<open>What the handlers share\<close>

record wallet_keys =
  wk_account :: string
  wk_privKey :: "byte list"

record cached_plan =
  pl_id :: string
  pl_durationSeconds :: "rat option"
  pl_bytes :: string
  pl_prices :: "plan_price list"

definition str_of :: "string \<Rightarrow> js \<Rightarrow> string" where
  "str_of k params = (case as_string (jget k params) of Some s \<Rightarrow> s | None \<Rightarrow> [])"

definition int_of :: "string \<Rightarrow> js \<Rightarrow> int" where
  "int_of k params = (case as_int (jget k params) of Some i \<Rightarrow> i | None \<Rightarrow> 0)"

definition check_decimal :: "string \<Rightarrow> js \<Rightarrow> unit result" where
  "check_decimal k params =
     and_then (assertString (jget k params) k) (\<lambda>_.
       if decimal_id (str_of k params) then ok () else throw (''Invalid '' @ k))"

definition connectable :: "js \<Rightarrow> bool" where
  "connectable v \<longleftrightarrow> (\<exists>t \<in> set CONNECTABLE_TYPES. v = JNum (NInt t))"

text \<open>The node the renderer asks for.\<close>

definition check_node :: "string \<Rightarrow> js \<Rightarrow> unit result" where
  "check_node unsupported params =
     and_then (assertSentAddress (jget ''nodeAddress'' params) ''nodeAddress'') (\<lambda>_.
     and_then (assertString (jget ''nodeMoniker'' params) ''nodeMoniker'') (\<lambda>_.
     and_then (assertString (jget ''nodeCountry'' params) ''nodeCountry'') (\<lambda>_.
     and_then (if connectable (jget ''nodeType'' params) then ok () else throw unsupported) (\<lambda>_.
     assertString (jget ''apiField'' params) ''apiField''))))"

definition node_of :: "js \<Rightarrow> hop_input" where
  "node_of params = \<lparr>hp_nodeAddress = str_of ''nodeAddress'' params, hp_nodeType = int_of ''nodeType'' params,
     hp_apiField = str_of ''apiField'' params, hp_nodeMoniker = str_of ''nodeMoniker'' params,
     hp_nodeCountry = str_of ''nodeCountry'' params\<rparr>"

definition full_tunnel :: "js \<Rightarrow> bool" where
  "full_tunnel params \<longleftrightarrow> jget ''proxyMode'' params \<noteq> JBool True"

text \<open>Checks started together (\<open>Promise.all\<close>): all of them run; \<open>second\<close> says that the second one fails
  first when both fail.\<close>

definition together :: "bool \<Rightarrow> 'a run \<Rightarrow> 'b run \<Rightarrow> ('a \<times> 'b) run" where
  "together second m n =
     seq (outcome m) (\<lambda>r. seq (outcome n) (\<lambda>s.
       case (r, s) of
         (Inr v, Inr w) \<Rightarrow> ret (v, w)
       | (Inl e, Inl f) \<Rightarrow> raise (if second then f else e)
       | (Inl e, _) \<Rightarrow> raise e
       | (_, Inl f) \<Rightarrow> raise f))"

definition with_flow :: "chain_io \<Rightarrow> 'a run \<Rightarrow> 'a run" where
  "with_flow c m = seq (seq (look (c_connect c)) lift) (\<lambda>_. m)"

definition purchase_of :: "hop_input \<Rightarrow> wallet_keys \<Rightarrow> bool \<Rightarrow> string \<Rightarrow> string \<Rightarrow> session_purchase" where
  "purchase_of node w deposit url sessionId =
     \<lparr>sp_sessionId = sessionId, sp_nodeAddress = hp_nodeAddress node, sp_nodeType = hp_nodeType node,
      sp_apiField = hp_apiField node, sp_nodeMoniker = hp_nodeMoniker node, sp_nodeCountry = hp_nodeCountry node,
      sp_account = wk_account w, sp_privKey = wk_privKey w, sp_isDeposit = deposit, sp_remoteUrl = Some url\<rparr>"

text \<open>The records a run wrote, in the book.\<close>

definition recorded :: "history \<Rightarrow> history \<Rightarrow> book \<Rightarrow> book" where
  "recorded h h' b = b\<lparr>b_files := files_after (drop (length h) h') (b_files b)\<rparr>"

section \<open>Buying from a node\<close>

definition check_subscribe :: "js \<Rightarrow> unit result" where
  "check_subscribe params =
     and_then (check_node ''Unsupported nodeType: only WireGuard (1), V2Ray (2), OpenVPN (3), XRAY (4), AmneziaWG (5) and Hysteria2 (6) are connectable'' params) (\<lambda>_.
     and_then (if jget ''type'' params = JStr ''gigabytes'' \<or> jget ''type'' params = JStr ''hours'' then ok () else throw ''Invalid type'') (\<lambda>_.
     and_then (assertNumber (jget ''amount'' params) ''amount'' (Some 1) (Some 1000)) (\<lambda>_.
     and_then (assertString (jget ''denom'' params) ''denom'') (\<lambda>_.
     check_decimal ''quoteValue'' params))))"

definition kind_of :: "js \<Rightarrow> unit_kind" where
  "kind_of params = (if jget ''type'' params = JStr ''gigabytes'' then Gigabytes else Hours)"

definition deposit_cost :: "js \<Rightarrow> int" where
  "deposit_cost params =
     (if str_of ''denom'' params = ''udvpn'' then int (read_nat (str_of ''quoteValue'' params)) * int_of ''amount'' params else 0)"

definition buy_from_node :: "chain_io \<Rightarrow> wallet_keys \<Rightarrow> bool \<Rightarrow> js \<Rightarrow> (string \<times> handshake_output) run" where
  "buy_from_node c w second params =
     (let node = node_of params in
      seq (together second (preflightConnect (c_env c) (hp_nodeType node) (hp_apiField node) (full_tunnel params) Direct)
             (with_flow c (assertSufficientFunds c (wk_account w) (deposit_cost params)))) (\<lambda>_.
      seq (noting c (subscribeToNode c True (wk_account w) (hp_nodeAddress node) (hp_apiField node)
             (kind_of params = Gigabytes) (int_of ''amount'' params) (str_of ''denom'' params))) (\<lambda>(sessionId, remoteUrl).
      seq (establishSessionOrRefund (c_env c) (purchase_of node w True remoteUrl sessionId)) (\<lambda>result.
      ret (sessionId, result)))))"

text \<open>\<open>rows\<close> is the answer of \<open>readAllSessions\<close>, read alongside the handshake.\<close>

definition connection_subscribe ::
  "chain_io \<Rightarrow> wallet_keys option \<Rightarrow> bool \<Rightarrow> (history \<Rightarrow> session_row list option) \<Rightarrow> js \<Rightarrow> book \<Rightarrow> history \<Rightarrow>
     (failure + string \<times> string \<times> string) \<times> book \<times> history" where
  "connection_subscribe c wallet second rows params b h =
     (case check_subscribe params of Inl e \<Rightarrow> (Inl (failed e), b, h) | Inr _ \<Rightarrow>
      case wallet of None \<Rightarrow> (Inl (failed ''Wallet not loaded. Please re-import your mnemonic.''), b, h) | Some w \<Rightarrow>
      case assertNotConnected ''starting a new connection'' b of Inl e \<Rightarrow> (Inl (failed e), b, h) | Inr _ \<Rightarrow>
      case buy_from_node c w second params h of
        (Inl e, h') \<Rightarrow> (Inl e, recorded h h' b, h')
      | (Inr (sessionId, result), h') \<Rightarrow>
          (Inr (sessionId, ho_protocol result, ho_configString result),
           finish_subscribe sessionId (node_of params) (kind_of params) (int_of ''amount'' params) result (rows h')
             (recorded h h' b), h'))"

section \<open>Plans\<close>

definition plan_cost :: "cached_plan list \<Rightarrow> string \<Rightarrow> string \<Rightarrow> int" where
  "plan_cost plans = cachedPlanCost (map (\<lambda>p. (pl_id p, pl_prices p)) plans)"

definition planQuota :: "cached_plan list \<Rightarrow> string \<Rightarrow> string \<Rightarrow> active_quota" where
  "planQuota plans planId sessionId =
     (let plan = find (\<lambda>p. pl_id p = planId) plans in
      \<lparr>aq_sessionId = sessionId, aq_maxDurationSeconds = Option.bind plan pl_durationSeconds,
       aq_baselineDurationSeconds = 0,
       aq_maxBytes = (case plan of None \<Rightarrow> 0
         | Some p \<Rightarrow> (case parse_int (pl_bytes p) of None \<Rightarrow> 0 | Some n \<Rightarrow> n)),
       aq_baselineBytes = 0\<rparr>)"

definition finish_plan ::
  "string \<Rightarrow> hop_input \<Rightarrow> cached_plan list \<Rightarrow> string \<Rightarrow> handshake_output \<Rightarrow> session_row list option \<Rightarrow> book \<Rightarrow> book" where
  "finish_plan sessionId node plans planId result sessions b =
     (let b1 = applySession sessionId (hp_nodeAddress node) (hp_nodeMoniker node) (hp_nodeCountry node)
            (hp_nodeType node) result b;
          b2 = (case sessions of
              None \<Rightarrow> b1
            | Some rows \<Rightarrow> setQuota (row_of sessionId rows) (b1\<lparr>b_rows := primeSessionsCache (b_usage b1) rows\<rparr>))
      in if b_quota b2 = None
         then b2\<lparr>b_quota := Some (planQuota plans planId sessionId), b_quotaWarned := False\<rparr> else b2)"

definition check_policy :: "js \<Rightarrow> unit result" where
  "check_policy params =
     (if jget ''renewalPolicy'' params = JUndef then ok ()
      else assertNumber (jget ''renewalPolicy'' params) ''renewalPolicy'' (Some 0) (Some 7))"

definition check_plan_subscribe :: "js \<Rightarrow> unit result" where
  "check_plan_subscribe params =
     and_then (check_decimal ''planId'' params) (\<lambda>_.
     and_then (assertString (jget ''denom'' params) ''denom'') (\<lambda>_.
     and_then (check_policy params) (\<lambda>_. check_node ''Unsupported nodeType'' params)))"

definition policy_of :: "js \<Rightarrow> int option" where
  "policy_of params = (if jget ''renewalPolicy'' params = JUndef then None else Some (int_of ''renewalPolicy'' params))"

text \<open>The checks before either plan transaction, with the address of the handshake.\<close>

definition plan_checks :: "chain_io \<Rightarrow> wallet_keys \<Rightarrow> bool \<Rightarrow> bool \<Rightarrow> js \<Rightarrow> int \<Rightarrow> string run" where
  "plan_checks c w second third params cost =
     (let node = node_of params in
      seq (together third
             (together second (preflightConnect (c_env c) (hp_nodeType node) (hp_apiField node) (full_tunnel params) Direct)
               (with_flow c (assertSufficientFunds c (wk_account w) cost)))
             (with_flow c (resolveNodeRemoteUrl (c_env c) (hp_nodeAddress node) (hp_apiField node))))
        (\<lambda>(_, remoteUrl). ret remoteUrl))"

definition settle_session ::
  "chain_io \<Rightarrow> hop_input \<Rightarrow> wallet_keys \<Rightarrow> string \<Rightarrow> string \<times> string \<Rightarrow> (string \<times> string \<times> handshake_output) run" where
  "settle_session c node w remoteUrl started =
     seq (establishSessionOrRefund (c_env c) (purchase_of node w False remoteUrl (fst started))) (\<lambda>result.
     seq (tell SessionsChanged) (\<lambda>_. ret (fst started, snd started, result)))"

definition buy_plan ::
  "chain_io \<Rightarrow> cached_plan list \<Rightarrow> wallet_keys \<Rightarrow> bool \<Rightarrow> bool \<Rightarrow> js \<Rightarrow> (string \<times> string \<times> handshake_output) run" where
  "buy_plan c plans w second third params =
     (let node = node_of params in
      seq (plan_checks c w second third params (plan_cost plans (str_of ''planId'' params) (str_of ''denom'' params))) (\<lambda>remoteUrl.
      seq (noting c (subscribeToPlan c True (wk_account w) (str_of ''planId'' params) (str_of ''denom'' params)
             (hp_nodeAddress node) (policy_of params))) (\<lambda>started.
      settle_session c node w remoteUrl started)))"

definition ride_subscription ::
  "chain_io \<Rightarrow> wallet_keys \<Rightarrow> bool \<Rightarrow> bool \<Rightarrow> js \<Rightarrow> (string \<times> string \<times> handshake_output) run" where
  "ride_subscription c w second third params =
     (let node = node_of params in
      seq (plan_checks c w second third params 0) (\<lambda>remoteUrl.
      seq (noting c (startSessionWithExistingSubscription c True (wk_account w) (str_of ''subscriptionId'' params)
             (hp_nodeAddress node))) (\<lambda>started.
      settle_session c node w remoteUrl started)))"

definition check_ride :: "js \<Rightarrow> unit result" where
  "check_ride params =
     and_then (check_decimal ''subscriptionId'' params) (\<lambda>_.
     and_then (check_decimal ''planId'' params) (\<lambda>_. check_node ''Unsupported nodeType'' params))"

text \<open>\<open>PLAN_SUBSCRIBE\<close> and \<open>PLAN_START_SESSION_FROM_SUB\<close> end the same way.\<close>

definition plan_handler ::
  "unit result \<Rightarrow> (wallet_keys \<Rightarrow> (string \<times> string \<times> handshake_output) run) \<Rightarrow> cached_plan list \<Rightarrow> wallet_keys option \<Rightarrow>
     (history \<Rightarrow> session_row list option) \<Rightarrow> js \<Rightarrow> book \<Rightarrow> history \<Rightarrow>
     (failure + string \<times> string \<times> string \<times> string) \<times> book \<times> history" where
  "plan_handler checked buy plans wallet rows params b h =
     (case checked of Inl e \<Rightarrow> (Inl (failed e), b, h) | Inr _ \<Rightarrow>
      case wallet of None \<Rightarrow> (Inl (failed ''Wallet not loaded''), b, h) | Some w \<Rightarrow>
      case assertNotConnected ''starting a new connection'' b of Inl e \<Rightarrow> (Inl (failed e), b, h) | Inr _ \<Rightarrow>
      case buy w h of
        (Inl e, h') \<Rightarrow> (Inl e, recorded h h' b, h')
      | (Inr (sessionId, subscriptionId, result), h') \<Rightarrow>
          (Inr (sessionId, subscriptionId, ho_protocol result, ho_configString result),
           finish_plan sessionId (node_of params) plans (str_of ''planId'' params) result (rows h') (recorded h h' b), h'))"

definition plan_subscribe where
  "plan_subscribe c plans wallet second third rows params =
     plan_handler (check_plan_subscribe params) (\<lambda>w. buy_plan c plans w second third params) plans wallet rows params"

definition plan_start_session_from_sub where
  "plan_start_session_from_sub c plans wallet second third rows params =
     plan_handler (check_ride params) (\<lambda>w. ride_subscription c w second third params) plans wallet rows params"

end
