(* ===== verification/SessionBookProps.thy ===== *)
theory SessionBookProps
  imports Shop
begin

text \<open>
  What the session book promises: a chain comes back whole from either of its records, a live
  connection is not overwritten, the fields of the state stay consistent, a watched quota belongs to
  the session that is connected; and three ways in which a purchase that never connected leaks into
  the next connection.
\<close>

section \<open>Reachable books\<close>

text \<open>One operation of the app on the book. A connection may also be lost, found again or retried at any
  time, and the session cache and the records may change under it.\<close>

inductive book_step :: "env \<Rightarrow> book \<Rightarrow> book \<Rightarrow> bool" for env where
  bought: "book_step env b (finish_subscribe i node kind amount result sessions b)"
| bought_chain: "book_step env b (finish_subscribe_chain entry exit kind amount result sessions b)"
| bought_plan: "book_step env b (finish_plan i node plans planId result sessions b)"
| reconnecting: "book_step env b (snd (reconnect env key meta h i b))"
| connecting: "book_step env b (snd (connect env wgDns bring p b))"
| user_disconnect: "book_step env b (disconnected remember b)"
| stand_down: "book_step env b (stood_down remember reason ended armed b)"
| end_session: "book_step env b (session_ended secure i b)"
| elsewhere: "book_step env b (b\<lparr>b_live := live, b_reconnecting := r, b_rows := rows, b_files := files, b_usage := usage\<rparr>)"

inductive reachable :: "env \<Rightarrow> book \<Rightarrow> bool" for env where
  start: "reachable env empty_book"
| step: "reachable env b \<Longrightarrow> book_step env b b' \<Longrightarrow> reachable env b'"

section \<open>Consistency\<close>

definition consistent :: "book \<Rightarrow> bool" where
  "consistent b \<longleftrightarrow> (b_session b = None \<longleftrightarrow> b_node b = None) \<and> (b_exitSession b = None \<longleftrightarrow> b_exitNode b = None) \<and>
     (b_exitSession b = None \<or> b_session b \<noteq> None) \<and> (b_quota b = None \<or> b_session b \<noteq> None) \<and>
     (b_exitQuota b = None \<or> b_exitSession b \<noteq> None)"

lemma consistent_updates [simp]:
  "consistent (b\<lparr>b_live := live\<rparr>) = consistent b" "consistent (b\<lparr>b_reconnecting := r\<rparr>) = consistent b"
  "consistent (b\<lparr>b_rows := rows\<rparr>) = consistent b" "consistent (b\<lparr>b_files := files\<rparr>) = consistent b"
  "consistent (b\<lparr>b_usage := usage\<rparr>) = consistent b" "consistent (b\<lparr>b_freshPeer := fresh\<rparr>) = consistent b"
  "consistent (b\<lparr>b_expiry := e\<rparr>) = consistent b"
  "consistent (b\<lparr>b_quotaWarned := w\<rparr>) = consistent b" "consistent (b\<lparr>b_desired := d\<rparr>) = consistent b"
  "consistent (b\<lparr>b_proxyMode := m\<rparr>) = consistent b"
  by (auto simp: consistent_def)

lemma consistent_apply: "consistent b \<Longrightarrow> consistent (applySession i a m c t r b)"
  by (auto simp: consistent_def applySession_def Let_def)

lemma consistent_apply_chain: "consistent (applyChainSession en i ex j c s b)"
  by (simp add: consistent_def applyChainSession_def)

lemma consistent_cleared: "consistent (clear_book b)"
  by (simp add: consistent_def clear_book_def)

lemma consistent_watchdog: "consistent b \<Longrightarrow> consistent (watchdog_quotas b)"
  by (auto simp: watchdog_quotas_def setQuota_def consistent_def Let_def split: option.splits)

lemma consistent_chain: "consistent b \<Longrightarrow> consistent (snd (reconnect_chain meta saved p b))"
  by (cases "loadSessionConfig (b_files b) p") (auto simp: reconnect_chain_def consistent_def Let_def)

lemma consistent_single: "consistent b \<Longrightarrow> consistent (snd (reconnect_single env key saved t h b))"
  by (simp add: reconnect_single_def Let_def case_prod_beta consistent_apply split: option.split sum.split)

lemma consistent_reconnect:
  assumes "consistent b"
  shows "consistent (snd (reconnect env key meta h i b))"
proof -
  have "consistent (b\<lparr>b_session := Some j, b_node := Some n\<rparr>)" for j n
    using assms by (auto simp: consistent_def)
  with assms show ?thesis
    unfolding reconnect_def by (simp add: Let_def consistent_chain consistent_single split: option.split sum.split)
qed

lemma consistent_step:
  assumes "book_step env b b'" and "consistent b"
  shows "consistent b'"
  using assms
proof (cases rule: book_step.cases)
  case (bought i node kind amount result sessions)
  then show ?thesis using assms(2)
    by (auto simp: finish_subscribe_def setQuota_def applySession_def consistent_def Let_def split: option.splits)
next
  case (bought_chain entry exit kind amount result sessions)
  show ?thesis unfolding bought_chain finish_subscribe_chain_def Let_def
    using consistent_apply_chain [of entry "cr_entrySessionId result" exit "cr_exitSessionId result" "cr_configString result" "cr_signer result" b]
    by (auto simp: consistent_def setQuota_def applyChainSession_def split: option.splits)
next
  case (bought_plan i node plans planId result sessions)
  then show ?thesis using assms(2)
    by (auto simp: finish_plan_def setQuota_def applySession_def consistent_def Let_def split: option.splits)
next
  case (reconnecting key meta h i)
  then show ?thesis using assms(2) by (simp add: consistent_reconnect)
next
  case (connecting wgDns bring p)
  then show ?thesis using assms(2)
    by (auto simp: connect_def finalizeTunnelConnect_def Let_def intro!: consistent_watchdog
        split: sum.splits bring_up.splits)
next
  case (user_disconnect remember)
  then show ?thesis by (simp add: disconnected_def consistent_cleared)
next
  case (stand_down remember reason ended armed)
  then show ?thesis using assms(2) by (simp add: stood_down_def consistent_cleared)
next
  case (end_session secure i)
  then show ?thesis using assms(2) by (simp add: session_ended_def)
next
  case (elsewhere live r rows files usage)
  then show ?thesis using assms(2) by simp
qed

lemma reachable_consistent: "reachable env b \<Longrightarrow> consistent b"
  by (induction rule: reachable.induct) (simp_all add: consistent_step, simp add: consistent_def empty_book_def)

text \<open>
  C25. In every reachable state of the session book (purchases, reconnects, connects, disconnects,
  stand-downs, in any order and with any answers), the active session and its node are both known or
  both unknown, so are the exit session and its node, an exit is only recorded beside an entry, a quota
  only while a session is recorded, and an exit's quota only while an exit is. Until a connect puts it right
  (\<open>watched_quotas_pinned\<close>) the quota may be an earlier session's.
\<close>

theorem book_consistent:
  assumes "reachable env b"
  shows "(b_session b = None \<longleftrightarrow> b_node b = None) \<and> (b_exitSession b = None \<longleftrightarrow> b_exitNode b = None) \<and>
    (b_exitSession b = None \<or> b_session b \<noteq> None) \<and> (b_quota b = None \<or> b_session b \<noteq> None) \<and>
    (b_exitQuota b = None \<or> b_exitSession b \<noteq> None)"
  using reachable_consistent [OF assms] unfolding consistent_def .


section \<open>Quotas and live connections\<close>

lemma quota_row: "Option.bind (row_of i rows) quotaFromSessionRow = Some q \<Longrightarrow> aq_sessionId q = i"
  by (auto simp: row_of_def quotaFromSessionRow_def Let_def find_Some_iff split: if_splits bind_splits)

lemma watchdog_pinned:
  assumes "consistent b"
  shows "\<forall>q. b_quota (watchdog_quotas b) = Some q \<longrightarrow> b_session b = Some (aq_sessionId q)"
    and "\<forall>q. b_exitQuota (watchdog_quotas b) = Some q \<longrightarrow> b_exitSession b = Some (aq_sessionId q)"
  using assms
  by (auto simp: watchdog_quotas_def setQuota_def consistent_def Let_def dest!: quota_row split: option.splits if_splits)

definition pinned_quota :: "session_row list \<Rightarrow> string option \<Rightarrow> active_quota option \<Rightarrow> active_quota option" where
  "pinned_quota rows i q =
     (case i of
        None \<Rightarrow> None
      | Some i \<Rightarrow>
          if map_option aq_sessionId q = Some i then q
          else (case find (\<lambda>r. sr_id r = i) rows of None \<Rightarrow> None | Some r \<Rightarrow> quotaFromSessionRow r))"

lemma watchdog_exact:
  assumes "consistent b"
  shows "b_quota (watchdog_quotas b) = pinned_quota (b_rows b) (b_session b) (b_quota b)"
    and "b_exitQuota (watchdog_quotas b) = pinned_quota (b_rows b) (b_exitSession b) (b_exitQuota b)"
proof -
  have none: "b_session b = None \<Longrightarrow> b_quota b = None" "b_exitSession b = None \<Longrightarrow> b_exitQuota b = None"
    using assms by (simp_all add: consistent_def)
  have bind: "Option.bind x f = (case x of None \<Rightarrow> None | Some r \<Rightarrow> f r)" for x and f :: "session_row \<Rightarrow> active_quota option"
    by (cases x) simp_all
  have set: "b_rows (setQuota r b) = b_rows b" "b_exitSession (setQuota r b) = b_exitSession b"
      "b_exitQuota (setQuota r b) = b_exitQuota b" "b_quota (setQuota r b) = Option.bind r quotaFromSessionRow" for r
    by (simp_all add: setQuota_def)
  show "b_quota (watchdog_quotas b) = pinned_quota (b_rows b) (b_session b) (b_quota b)"
    using none(1) unfolding watchdog_quotas_def pinned_quota_def Let_def row_of_def [symmetric] bind [symmetric]
    by (cases "b_session b"; cases "b_exitSession b") (auto simp: set)
  show "b_exitQuota (watchdog_quotas b) = pinned_quota (b_rows b) (b_exitSession b) (b_exitQuota b)"
    using none(2) unfolding watchdog_quotas_def pinned_quota_def Let_def row_of_def [symmetric] bind [symmetric]
    by (cases "b_session b"; cases "b_exitSession b") (auto simp: set)
qed

lemma watchdog_sessions [simp]:
  "b_session (watchdog_quotas b) = b_session b" "b_exitSession (watchdog_quotas b) = b_exitSession b"
  by (simp_all add: watchdog_quotas_def setQuota_def Let_def split: option.split)

text \<open>
  C24. When a connect succeeds (\<open>CONNECTION_CONNECT\<close>, \<open>startQuotaWatchdog\<close>), whatever purchases and
  reconnects came before it, the two quotas the watchdog will score have the ids of the session and of the exit
  session the book records. A quota with another id has been replaced by what the rows of the last read give for
  the session, or dropped when they do not list it or give it no cap; one with the right id is kept. The exit the
  book records may still be an abandoned chain's (\<open>chain_leaks_into_next_session\<close>): its quota is then scored too.
\<close>

theorem watched_quotas_pinned:
  assumes "reachable env b" and "connect env wgDns bring p b = (ok protocol, b')"
  shows "(\<forall>q. b_quota b' = Some q \<longrightarrow> b_session b' = Some (aq_sessionId q)) \<and>
    (\<forall>q. b_exitQuota b' = Some q \<longrightarrow> b_exitSession b' = Some (aq_sessionId q)) \<and>
    b_session b' = b_session b \<and> b_exitSession b' = b_exitSession b \<and>
    b_quota b' = pinned_quota (b_rows b) (b_session b) (b_quota b) \<and>
    b_exitQuota b' = pinned_quota (b_rows b) (b_exitSession b) (b_exitQuota b)"
proof -
  from assms(2) obtain config where "b' = watchdog_quotas (b\<lparr>b_expiry := None, b_live := Some (cp_protocol p, config),
      b_desired := Some (cp_protocol p), b_proxyMode := proxyOnly p\<rparr>)"
    by (auto simp: connect_def finalizeTunnelConnect_def Let_def split: sum.splits bring_up.splits)
  moreover have "consistent (b\<lparr>b_expiry := None, b_live := Some (cp_protocol p, config),
      b_desired := Some (cp_protocol p), b_proxyMode := proxyOnly p\<rparr>)" for config
    using reachable_consistent [OF assms(1)] by simp
  ultimately show ?thesis
    using watchdog_pinned [of "b\<lparr>b_expiry := None, b_live := Some (cp_protocol p, config),
        b_desired := Some (cp_protocol p), b_proxyMode := proxyOnly p\<rparr>"]
      watchdog_exact [of "b\<lparr>b_expiry := None, b_live := Some (cp_protocol p, config),
        b_desired := Some (cp_protocol p), b_proxyMode := proxyOnly p\<rparr>"] by simp
qed

text \<open>
  While a connection is live or being retried, neither a reconnect nor a connect changes the book:
  both are refused, and so is ending a session the connection runs on.
\<close>

theorem live_connection_kept:
  assumes "connectionIsLive b"
  shows "snd (reconnect env key meta h i b) = b \<and> snd (connect env wgDns bring p b) = b \<and>
    \<not> accepts (fst (reconnect env key meta h i b)) \<and> \<not> accepts (fst (connect env wgDns bring p b)) \<and>
    (\<forall>j. b_session b = Some j \<or> b_exitSession b = Some j \<longrightarrow> \<not> accepts (end_session_owner loaded active w j b))"
proof -
  have refused: "\<exists>e. assertNotConnected a b = Inl e" for a using assms by (simp add: assertNotConnected_def Let_def)
  then obtain e where e: "assertNotConnected ''starting a new connection'' b = Inl e" by blast
  have "snd (reconnect env key meta h i b) = b \<and> \<not> accepts (fst (reconnect env key meta h i b))"
    by (simp add: reconnect_def e accepts_def)
  moreover have "snd (connect env wgDns bring p b) = b \<and> \<not> accepts (fst (connect env wgDns bring p b))"
    by (simp add: connect_def e accepts_def split: sum.split)
  moreover have "\<forall>j. b_session b = Some j \<or> b_exitSession b = Some j \<longrightarrow> \<not> accepts (end_session_owner loaded active w j b)"
    using assms by (auto simp: end_session_owner_def accepts_def)
  ultimately show ?thesis by blast
qed

section \<open>A chain and its two records\<close>

lemma enclose_nonempty [simp]: "enclose l r step depth parts \<noteq> []"
  by (simp add: enclose_def)

lemma chain_text: "buildMultihopConfig spec1 spec2 = ok cfg \<Longrightarrow> stringify 2 cfg \<noteq> []"
  by (auto simp: buildMultihopConfig_ok chain_config_def stringify_def)

text \<open>Building a chain looks names up and then writes one record per hop, with the same config.\<close>

lemma delta_lookups:
  "delta (withPrivatelyResolvedAddrs env hosts) (\<lambda>_. list_all (\<lambda>e. \<exists>u a. e = LookedUp u a)) (\<lambda>_ _. True)"
proof (rule deltaI)
  fix h
  have "adds (\<lambda>e. \<exists>u a. e = LookedUp u a) (withPrivatelyResolvedAddrs env hosts)" by (intro adds_intro) blast
  then show "\<exists>es. snd (withPrivatelyResolvedAddrs env hosts h) = h @ es \<and>
      (case fst (withPrivatelyResolvedAddrs env hosts h) of Inr v \<Rightarrow> list_all (\<lambda>e. \<exists>u a. e = LookedUp u a) es | Inl e \<Rightarrow> True)"
    using addsD surjective_pairing by (metis (no_types, lifting) sum.case_eq_if)
qed

lemma delta_finalize:
  assumes "e_secureStorage env"
  shows "delta (finalizeChain env entry exit spec1 spec2)
    (\<lambda>cfg es. \<exists>pre. es = pre @ [Saved (chain_record entry exit Entry cfg), Saved (chain_record exit entry Exit cfg)] \<and>
       list_all (\<lambda>e. \<exists>u a. e = LookedUp u a) pre \<and> cfg \<noteq> []) (\<lambda>_ _. True)"
  unfolding finalizeChain_def Let_def saveSessionConfig_def if_P [OF assms]
  apply (rule delta_seq, rule delta_lookups)
  apply (rule delta_lift_seq)
   apply (rule delta_seq [where M = "\<lambda>_ es. es = [Saved (chain_record entry exit Entry (stringify 2 _))]"])
    apply (rule delta_tell, rule refl)
   apply (rule delta_seq [where M = "\<lambda>_ es. es = [Saved (chain_record exit entry Exit (stringify 2 _))]"])
    apply (rule delta_tell, rule refl)
   apply (rule delta_ret, auto simp: chain_text)
  done

lemma files_after_append: "files_after (h @ h') files = files_after h' (files_after h files)"
  by (induction h files rule: files_after.induct) auto

lemma files_after_lookups: "list_all (\<lambda>e. \<exists>u a. e = LookedUp u a) h \<Longrightarrow> files_after h files = files"
  by (induction h files rule: files_after.induct) auto

lemma load_stored [simp]:
  "loadSessionConfig (store_record c files) i = (if i = sc_sessionId c then Some c else loadSessionConfig files i)"
  by (auto simp: loadSessionConfig_def store_record_def update_conv')

lemma chain_records:
  assumes "finalizeChain env entry exit spec1 spec2 h = (Inr cfg, h')" and "e_secureStorage env"
    and "ch_sessionId entry \<noteq> ch_sessionId exit"
  shows "loadSessionConfig (files_after (drop (length h) h') files) (ch_sessionId entry) = Some (chain_record entry exit Entry cfg)"
    and "loadSessionConfig (files_after (drop (length h) h') files) (ch_sessionId exit) = Some (chain_record exit entry Exit cfg)"
    and "cfg \<noteq> []"
proof -
  obtain pre where "h' = h @ pre @ [Saved (chain_record entry exit Entry cfg), Saved (chain_record exit entry Exit cfg)]"
      "list_all (\<lambda>e. \<exists>u a. e = LookedUp u a) pre" "cfg \<noteq> []"
    using deltaD [OF delta_finalize [OF assms(2)], of entry exit spec1 spec2 h] assms(1) by auto
  then show "loadSessionConfig (files_after (drop (length h) h') files) (ch_sessionId entry) = Some (chain_record entry exit Entry cfg)"
    "loadSessionConfig (files_after (drop (length h) h') files) (ch_sessionId exit) = Some (chain_record exit entry Exit cfg)"
    "cfg \<noteq> []"
    using assms(3) by (simp_all add: files_after_append files_after_lookups chain_record_def)
qed

text \<open>
  C22. A chain comes back whole (\<open>finalizeChain\<close>, \<open>CONNECTION_RECONNECT\<close>): once it is built and saved,
  reconnecting by the session id of either hop restores the entry as the active session and the exit
  beside it, with their own addresses and node types, and gives the chained config back unchanged, as
  the config that a connect then runs. It never takes the single-hop renewal, which would drop a hop.
\<close>

theorem saved_chain_reconnects:
  assumes built: "finalizeChain env entry exit spec1 spec2 h = (Inr cfg, h')" and secure: "e_secureStorage env"
    and ids: "decimal_id (ch_sessionId entry)" "decimal_id (ch_sessionId exit)" "ch_sessionId entry \<noteq> ch_sessionId exit"
    and ready: "e_systemReady env ''xray'' True = ok ()"
    and files: "b_files b = files_after (drop (length h) h') files" and idle: "\<not> connectionIsLive b"
    and sid: "sid = ch_sessionId entry \<or> sid = ch_sessionId exit"
  shows "\<exists>b'. reconnect env key meta now sid b = (ok (ch_sessionId entry, ''xray'', cfg), b') \<and>
    b_session b' = Some (ch_sessionId entry) \<and> b_exitSession b' = Some (ch_sessionId exit) \<and>
    map_option (\<lambda>n. (ni_address n, ni_type n)) (b_node b') = Some (ch_nodeAddress entry, ch_nodeType entry) \<and>
    map_option (\<lambda>n. (ei_address n, ei_type n)) (b_exitNode b') = Some (ch_nodeAddress exit, ch_nodeType exit) \<and>
    chosen_config \<lparr>cp_protocol = ''xray'', cp_configString = Some cfg, cp_dnsFallback = False, cp_mode = None\<rparr> dns b' = ok cfg \<and>
    chosen_config \<lparr>cp_protocol = ''xray'', cp_configString = None, cp_dnsFallback = False, cp_mode = None\<rparr> dns b' = ok cfg"
proof -
  note rec = chain_records(1,2) [OF built secure ids(3), where files = files] chain_records(3) [OF built secure ids(3)]
  have ne: "truthy_string (Some (ch_sessionId entry))" "truthy_string (Some (ch_sessionId exit))"
    using ids by (auto simp: truthy_string_def decimal_id_def)
  have free: "assertNotConnected ''starting a new connection'' b = ok ()" using idle by (simp add: assertNotConnected_def)
  have "decimal_id sid" using ids sid by blast
  from sid show ?thesis
  proof
    assume "sid = ch_sessionId entry"
    with rec ne free ready ids show ?thesis
      by (simp add: reconnect_def files reconnect_chain_def chain_record_def Let_def saved_node_def saved_exit_def hopType_def
        chosen_config_def dnsFallback_def present_def nullish_or_def)
  next
    assume "sid = ch_sessionId exit"
    with rec ne free ready ids show ?thesis
      by (simp add: reconnect_def files reconnect_chain_def chain_record_def Let_def saved_node_def saved_exit_def hopType_def
        chosen_config_def dnsFallback_def present_def nullish_or_def)
  qed
qed

definition sample_chain_hop :: "string \<Rightarrow> string \<Rightarrow> chain_hop" where
  "sample_chain_hop i node = \<lparr>ch_sessionId = i, ch_nodeAddress = node, ch_nodeType = 2, ch_remoteUrl = '''',
     ch_nodeMoniker = None, ch_nodeCountry = None, ch_walletId = None\<rparr>"

lemma sample_built:
  "\<exists>cfg h'. finalizeChain sample_env (sample_chain_hop ''1'' ''n'') (sample_chain_hop ''2'' ''x'')
     (MultihopConfig.sample_hop ''5.6.7.8'') (MultihopConfig.sample_hop ''9.9.9.9'') [] = (Inr cfg, h')"
proof -
  obtain cfg where cfg: "buildMultihopConfig (MultihopConfig.sample_hop ''5.6.7.8'') (MultihopConfig.sample_hop ''9.9.9.9'') = ok cfg"
    using sample_chain by blast
  have d: "dotted_digits ''9.9.9.9''" by code_simp
  have a: "hs_addrs (MultihopConfig.sample_hop ''9.9.9.9'') = [''9.9.9.9'']"
    "(MultihopConfig.sample_hop ''9.9.9.9'')\<lparr>hs_addrs := [''9.9.9.9'']\<rparr> = MultihopConfig.sample_hop ''9.9.9.9''"
    by (simp_all add: MultihopConfig.sample_hop_def)
  show ?thesis
    by (simp add: finalizeChain_def a resolveExitHostPrivately_def d cfg Let_def saveSessionConfig_def sample_env_def seq_def
      ret_def tell_def)
qed

lemma saved_chain_reconnects_witness:
  "\<exists>cfg b b'. reconnect sample_env None (\<lambda>_. \<lparr>nm_moniker = '''', nm_country = '''', nm_type = 0\<rparr>) [] ''2'' b =
       (ok (''1'', ''xray'', cfg), b') \<and> b_session b' = Some ''1'' \<and> b_exitSession b' = Some ''2''"
proof -
  obtain cfg h' where built: "finalizeChain sample_env (sample_chain_hop ''1'' ''n'') (sample_chain_hop ''2'' ''x'')
     (MultihopConfig.sample_hop ''5.6.7.8'') (MultihopConfig.sample_hop ''9.9.9.9'') [] = (Inr cfg, h')"
    using sample_built by blast
  let ?b = "empty_book\<lparr>b_files := files_after h' []\<rparr>"
  have d: "decimal_id ''1''" "decimal_id ''2''" by (simp_all add: decimal_id_def is_digit_code)
  have e: "e_secureStorage sample_env" "e_systemReady sample_env ''xray'' True = ok ()" by (simp_all add: sample_env_def)
  have "\<exists>b'. reconnect sample_env None (\<lambda>_. \<lparr>nm_moniker = '''', nm_country = '''', nm_type = 0\<rparr>) [] ''2'' ?b =
       (ok (ch_sessionId (sample_chain_hop ''1'' ''n''), ''xray'', cfg), b') \<and>
       b_session b' = Some (ch_sessionId (sample_chain_hop ''1'' ''n'')) \<and>
       b_exitSession b' = Some (ch_sessionId (sample_chain_hop ''2'' ''x''))"
    using saved_chain_reconnects [OF built e(1), of ?b "[]" "''2''" None "\<lambda>_. \<lparr>nm_moniker = '''', nm_country = '''', nm_type = 0\<rparr>" "[]"] d e(2)
    by (simp add: sample_chain_hop_def connectionIsLive_def empty_book_def) blast
  then show ?thesis by (simp add: sample_chain_hop_def) blast
qed

section \<open>What a purchase that never connected leaves behind\<close>

definition wireguard_result :: "string \<Rightarrow> handshake_output" where
  "wireguard_result config = \<lparr>ho_protocol = ''wireguard'', ho_configString = config, ho_v2raySummary = None, ho_signer = Unsigned\<rparr>"

definition two_hops :: chain_result where
  "two_hops = \<lparr>cr_configString = ''C'', cr_entrySessionId = ''1'', cr_exitSessionId = ''2'', cr_signer = Unsigned\<rparr>"

definition wireguard_connect :: "string option \<Rightarrow> connect_params" where
  "wireguard_connect config = \<lparr>cp_protocol = ''wireguard'', cp_configString = config, cp_dnsFallback = False, cp_mode = None\<rparr>"

definition bought_chain_book :: book where
  "bought_chain_book = finish_subscribe_chain (sample_node ''a'') (sample_node ''b'') Gigabytes 1 two_hops None empty_book"

definition bought_book :: "string \<Rightarrow> string \<Rightarrow> string \<Rightarrow> book \<Rightarrow> book" where
  "bought_book i node config b = finish_subscribe i (sample_node node) Gigabytes 1 (wireguard_result config) None b"

lemma reachable_bought: "reachable env bought_chain_book" "reachable env b \<Longrightarrow> reachable env (bought_book i node config b)"
  unfolding bought_chain_book_def bought_book_def by (blast intro: reachable.intros book_step.intros)+

text \<open>A connect with these parameters that fails changes nothing here, and one that succeeds runs the
  config stashed last.\<close>

lemma wireguard_connected:
  assumes "b_live b = None" "\<not> b_reconnecting b" "b_wg b = Some w" "w \<noteq> []"
  shows "connect sample_env None (\<lambda>_ _. FailedUp e False) (wireguard_connect given) b = (throw e, b\<lparr>b_expiry := None\<rparr>)"
    and "connect sample_env None (\<lambda>_ _. CameUp) (wireguard_connect given) b =
      (ok ''wireguard'', watchdog_quotas (b\<lparr>b_expiry := None, b_live := Some (''wireguard'', w), b_desired := Some ''wireguard'',
         b_proxyMode := False\<rparr>))"
  using assms
  by (simp_all add: connect_def check_connect_def wireguard_connect_def proxyOnly_def assertNotConnected_def connectionIsLive_def
    sample_env_def chosen_config_def dnsFallback_def truthy_string_def present_def nullish_or_def finalizeTunnelConnect_def Let_def)

lemma chain_book_fields:
  "b_session bought_chain_book = Some ''1''" "b_exitSession bought_chain_book = Some ''2''" "b_live bought_chain_book = None"
  "\<not> b_reconnecting bought_chain_book" "b_exitNode bought_chain_book = Some \<lparr>ei_address = ''b'', ei_moniker = ''b'', ei_country = '''', ei_type = 4\<rparr>"
  "b_exitQuota bought_chain_book = Some (purchasedQuota Gigabytes 1 ''2'')" "b_rows bought_chain_book = []"
  by (simp_all add: bought_chain_book_def finish_subscribe_chain_def applyChainSession_def empty_book_def sample_node_def
    two_hops_def Let_def)

lemma bought_fields:
  "b_session (bought_book i node config b) = Some i" "b_exitSession (bought_book i node config b) = b_exitSession b"
  "b_live (bought_book i node config b) = b_live b" "b_reconnecting (bought_book i node config b) = b_reconnecting b"
  "b_exitNode (bought_book i node config b) = b_exitNode b" "b_exitQuota (bought_book i node config b) = b_exitQuota b"
  "b_wg (bought_book i node config b) = Some config" "b_rows (bought_book i node config b) = b_rows b"
  "b_quota (bought_book i node config b) = (if b_quota b = None then Some (purchasedQuota Gigabytes 1 i) else b_quota b)"
  by (simp_all add: bought_book_def finish_subscribe_def applySession_def wireguard_result_def Let_def)

lemma reachable_connected:
  assumes "reachable sample_env b" "b_live b = None" "\<not> b_reconnecting b" "b_wg b = Some w" "w \<noteq> []"
  shows "reachable sample_env (watchdog_quotas (b\<lparr>b_expiry := None, b_live := Some (''wireguard'', w), b_desired := Some ''wireguard'',
         b_proxyMode := False\<rparr>))"
  using reachable.step [OF assms(1) connecting, of None "\<lambda>_ _. CameUp" "wireguard_connect None"]
  by (simp add: wireguard_connected(2) [OF assms(2-5)])

text \<open>
  A chain that was bought but never connected leaks into the next single-hop session
  (\<open>applySession\<close> does not clear the exit fields that \<open>applyChainSession\<close> sets): after buying chain
  1-2, buying session 9 and connecting it, the status reports node b as the exit of a two-hop chain,
  the watchdog scores session 2's quota, and the end of session 9 is reported as the end of an entry hop.
\<close>

theorem chain_leaks_into_next_session:
  "\<exists>b. reachable sample_env b \<and> b_session b = Some ''9'' \<and> b_live b = Some (''wireguard'', ''W'') \<and>
     map_option (\<lambda>x. (xs_sessionId x, ei_address (xs_node x))) (st_chainExit (connection_status inputs b)) = Some (Some ''2'', ''b'') \<and>
     map_option aq_sessionId (b_exitQuota b) = Some ''2'' \<and>
     ex_chainRole (standDownReport TimeUp (Some ''9'') armed b) = Some Entry"
proof -
  let ?b = "bought_book ''9'' ''n'' ''W'' bought_chain_book"
  have r: "reachable sample_env ?b" by (intro reachable_bought)
  show ?thesis
    by (rule exI, rule conjI, rule reachable_connected [OF r, of "''W''"])
      (simp_all add: bought_fields chain_book_fields watchdog_quotas_def setQuota_def connection_status_def standDownReport_def
        purchasedQuota_def Let_def)
qed

text \<open>
  A single-hop purchase whose rows could not be read takes its quota from what was bought, unless a
  quota of an earlier purchase that never connected is still there: then the new session connects with
  no quota watched at all.
\<close>

theorem stale_quota_hides_purchase:
  "b_quota (bought_book i node config empty_book) = Some (purchasedQuota Gigabytes 1 i) \<and>
   (\<exists>b. reachable sample_env b \<and> b_session b = Some ''9'' \<and> b_live b = Some (''wireguard'', ''W'') \<and>
     b_quota b = None)"
proof -
  let ?b = "bought_book ''9'' ''n'' ''W'' (bought_book ''1'' ''n'' ''V'' empty_book)"
  have r: "reachable sample_env ?b" by (intro reachable_bought reachable.start)
  have "\<exists>b. reachable sample_env b \<and> b_session b = Some ''9'' \<and> b_live b = Some (''wireguard'', ''W'') \<and> b_quota b = None"
    by (rule exI, rule conjI, rule reachable_connected [OF r, of "''W''"])
      (simp_all add: bought_fields watchdog_quotas_def setQuota_def row_of_def empty_book_def purchasedQuota_def Let_def)
  then show ?thesis by (simp add: bought_fields empty_book_def)
qed

text \<open>
  After a WireGuard purchase that never connected, reconnecting another session gives its saved
  config back, but the connect that follows with that config brings up the config of the purchase while
  the app reports the reconnected session and node (\<open>activeWgConfig ?? params.configString\<close>).
\<close>

theorem connect_runs_other_config:
  "\<exists>b b1. reachable sample_env b \<and> b_session b = Some ''9'' \<and> map_option ni_address (b_node b) = Some ''m'' \<and>
     reconnect sample_env None meta [] ''9'' b1 = (ok (''9'', ''wireguard'', ''W''), b) \<and>
     b_live (snd (connect sample_env None (\<lambda>_ _. CameUp) (wireguard_connect (Some ''W'')) b)) = Some (''wireguard'', ''V'')"
proof -
  let ?s = "\<lparr>sc_sessionId = ''9'', sc_protocol = ''wireguard'', sc_configString = ''W'', sc_nodeAddress = ''m'', sc_nodeMoniker = None,
    sc_nodeCountry = None, sc_chainPeer = None, sc_chainRole = None, sc_walletId = None, sc_nodeType = None\<rparr>"
  let ?b1 = "(bought_book ''1'' ''n'' ''V'' empty_book)\<lparr>b_live := None, b_reconnecting := False, b_rows := [], b_files := [(''9'', ?s)],
    b_usage := \<lambda>_. None\<rparr>"
  have r1: "reachable sample_env ?b1"
    by (rule reachable.step [OF _ elsewhere]) (intro reachable_bought reachable.start)
  have d: "decimal_id ''9''" by (simp add: decimal_id_def is_digit_code)
  have rec: "reconnect sample_env None meta [] ''9'' ?b1 = (ok (''9'', ''wireguard'', ''W''),
      ?b1\<lparr>b_session := Some ''9'', b_node := Some (saved_node meta ?s 1), b_freshPeer := False\<rparr>)"
    by (simp add: reconnect_def d assertNotConnected_def connectionIsLive_def bought_fields empty_book_def loadSessionConfig_def
      sample_env_def truthy_string_def reconnect_single_def protocol_type_def Let_def)
  let ?b = "?b1\<lparr>b_session := Some ''9'', b_node := Some (saved_node meta ?s 1), b_freshPeer := False\<rparr>"
  have r: "reachable sample_env ?b"
    using reachable.step [OF r1 reconnecting, of None meta "[]" "''9''"] by (simp add: rec)
  have c: "b_live (snd (connect sample_env None (\<lambda>_ _. CameUp) (wireguard_connect (Some ''W'')) ?b)) = Some (''wireguard'', ''V'')"
    by (simp add: wireguard_connected(2) [where w = "''V''"] bought_fields watchdog_quotas_def setQuota_def Let_def split: option.split)
  show ?thesis using r rec c by (intro exI [of _ ?b] exI [of _ ?b1]) (simp add: saved_node_def)
qed

section \<open>The theorems on these books\<close>

lemma book_consistent_witness:
  "b_exitSession bought_chain_book = Some ''2'' \<and> b_exitNode bought_chain_book \<noteq> None"
  using book_consistent [OF reachable_bought(1)] chain_book_fields by simp

lemma live_connection_kept_witness:
  "snd (reconnect sample_env None (\<lambda>_. \<lparr>nm_moniker = ''m'', nm_country = ''c'', nm_type = 1\<rparr>) [] ''9''
      (empty_book\<lparr>b_live := Some (''wireguard'', ''W'')\<rparr>)) = empty_book\<lparr>b_live := Some (''wireguard'', ''W'')\<rparr>"
  using live_connection_kept [of "empty_book\<lparr>b_live := Some (''wireguard'', ''W'')\<rparr>"] by (simp add: connectionIsLive_def)

lemma watched_quotas_pinned_witness:
  "b_session (watchdog_quotas ((bought_book ''9'' ''n'' ''W'' empty_book)\<lparr>b_expiry := None, b_live := Some (''wireguard'', ''W''),
     b_desired := Some ''wireguard'', b_proxyMode := False\<rparr>)) = Some (aq_sessionId (purchasedQuota Gigabytes 1 ''9''))"
proof -
  let ?b = "bought_book ''9'' ''n'' ''W'' empty_book"
  let ?w = "watchdog_quotas (?b\<lparr>b_expiry := None, b_live := Some (''wireguard'', ''W''), b_desired := Some ''wireguard'', b_proxyMode := False\<rparr>)"
  have c: "connect sample_env None (\<lambda>_ _. CameUp) (wireguard_connect None) ?b = (ok ''wireguard'', ?w)"
    by (rule wireguard_connected(2)) (simp_all add: bought_fields empty_book_def)
  have "b_quota ?w = Some (purchasedQuota Gigabytes 1 ''9'')"
    by (simp add: watchdog_quotas_def bought_fields empty_book_def purchasedQuota_def Let_def)
  then show ?thesis
    using watched_quotas_pinned [OF reachable_bought(2) [OF reachable.start] c] by simp
qed

end
