(* ===== verification/RpcMonitor.thy ===== *)
theory RpcMonitor
  imports RpcHealth "HOL-Library.Multiset"
begin

text \<open>
  The monitor of the RPC endpoint, \<open>src/main/chain/rpc-monitor.ts\<close>, as a step relation between awaits:
  the probe in flight, the reading held for confirmation, what is published, and the automatic
  selection. \<open>m_log\<close> is a history variable: the completed probes, the latest first.
\<close>

section \<open>One probe\<close>

text \<open>What one fetch of \<open>/status\<close> saw: it threw (no answer, or a body that is no JSON), or it answered
  after some milliseconds with a status and a body. \<open>age\<close> is the age in seconds of the block time the
  body names, when that parses as a date.\<close>

datatype fetched = FetchFailed string | Fetched int int js "int option"

definition probeRpc :: "fetched \<Rightarrow> probe" where
  "probeRpc f = (case f of
      FetchFailed e \<Rightarrow> \<lparr>pr_reachable = False, pr_latency = None, pr_chainId = JNull, pr_height = None, pr_blockAge = None,
        pr_error = Some e\<rparr>
    | Fetched ms status json age \<Rightarrow>
        if status < 200 \<or> status > 299
        then \<lparr>pr_reachable = False, pr_latency = Some ms, pr_chainId = JNull, pr_height = None, pr_blockAge = None,
          pr_error = Some (''RPC returned '' @ show_int status)\<rparr>
        else
            let sync = jget ''sync_info'' (jget ''result'' json);
                heightRaw = jget ''latest_block_height'' sync;
                network = jget ''network'' (jget ''node_info'' (jget ''result'' json))
            in \<lparr>pr_reachable = True, pr_latency = Some ms, pr_chainId = (if nullish network then JNull else network),
                pr_height = (if heightRaw \<noteq> JUndef \<and> decimal_id (to_string heightRaw)
                  then Some (int (read_nat (to_string heightRaw))) else None),
                pr_blockAge = (if truthy (jget ''latest_block_time'' sync) then map_option (max 0) age else None),
                pr_error = None\<rparr>)"

section \<open>The state\<close>

record mon =
  m_endpoint :: string
  m_auto :: bool
  m_vpn :: bool
  m_armed :: bool
  m_health :: health
  m_probing :: "(string \<times> bool) option"
  m_confirm :: bool
  m_selecting :: "(string \<times> bool) option"
  m_log :: "(string \<times> rpc_state) list"

definition no_probe :: probe where
  "no_probe = \<lparr>pr_reachable = False, pr_latency = None, pr_chainId = JNull, pr_height = None, pr_blockAge = None, pr_error = None\<rparr>"

definition mon_start :: "string \<Rightarrow> bool \<Rightarrow> bool \<Rightarrow> bool \<Rightarrow> mon" where
  "mon_start endpoint auto vpn armed = \<lparr>m_endpoint = endpoint, m_auto = auto, m_vpn = vpn, m_armed = armed,
     m_health = \<lparr>hl_probe = no_probe, hl_state = Unknown, hl_endpoint = '''', hl_checkedAt = 0\<rparr>,
     m_probing = None, m_confirm = False, m_selecting = None, m_log = []\<rparr>"

definition unprobedState :: "mon \<Rightarrow> rpc_state option" where
  "unprobedState m = (if m_vpn m then Some Suspended else if m_armed m then Some Blocked else None)"

definition publishUnprobed :: "rpc_state \<Rightarrow> string \<Rightarrow> int \<Rightarrow> mon \<Rightarrow> mon" where
  "publishUnprobed s endpoint now m =
     m\<lparr>m_health := \<lparr>hl_probe = no_probe, hl_state = s, hl_endpoint = endpoint, hl_checkedAt = now\<rparr>\<rparr>"

definition cancelConfirm :: "mon \<Rightarrow> mon" where
  "cancelConfirm m = m\<lparr>m_confirm := False\<rparr>"

section \<open>Refreshing\<close>

text \<open>\<open>refreshRpcHealth\<close> up to the probe, and from its answer.\<close>

definition refreshRpcHealth :: "bool \<Rightarrow> int \<Rightarrow> mon \<Rightarrow> mon" where
  "refreshRpcHealth confirming now m =
     (if m_probing m \<noteq> None then m
      else case unprobedState m of
        Some s \<Rightarrow> publishUnprobed s (m_endpoint m) now (cancelConfirm m)
      | None \<Rightarrow> m\<lparr>m_probing := Some (m_endpoint m, confirming)\<rparr>)"

definition is_fault :: "rpc_state \<Rightarrow> bool" where
  "is_fault s \<longleftrightarrow> s = Down \<or> s = Degraded"

definition startAutoSelect :: "mon \<Rightarrow> mon" where
  "startAutoSelect m =
     (if m_selecting m = None then m\<lparr>m_selecting := Some (m_endpoint m, m_auto m \<and> unprobedState m = None)\<rparr> else m)"

definition runAutoRpcSelection :: "mon \<Rightarrow> mon" where
  "runAutoRpcSelection m =
     (if m_selecting m = None \<and> (\<not> m_auto m \<or> unprobedState m \<noteq> None) then m else startAutoSelect m)"

definition probe_answered :: "probe \<Rightarrow> int \<Rightarrow> mon \<Rightarrow> mon" where
  "probe_answered p now m =
     (case m_probing m of
        None \<Rightarrow> m
      | Some (endpoint, confirming) \<Rightarrow>
          let m0 = m\<lparr>m_probing := None\<rparr> in
          (case unprobedState m0 of
             Some s \<Rightarrow> publishUnprobed s endpoint now (cancelConfirm m0)
           | None \<Rightarrow>
               let s = classifyRpc p; m1 = m0\<lparr>m_log := (endpoint, s) # m_log m0\<rparr> in
               if \<not> confirming \<and> needsConfirmation s (hl_state (m_health m1)) then m1\<lparr>m_confirm := True\<rparr>
               else
                 let prev = m_health m1;
                     m2 = (cancelConfirm m1)\<lparr>m_health := \<lparr>hl_probe = p, hl_state = s, hl_endpoint = endpoint, hl_checkedAt = now\<rparr>\<rparr>
                 in if is_fault s \<and> \<not> (is_fault (hl_state prev) \<and> hl_endpoint prev = endpoint)
                    then runAutoRpcSelection m2 else m2))"

definition onRpcEndpointChanged :: "int \<Rightarrow> mon \<Rightarrow> mon" where
  "onRpcEndpointChanged now m = refreshRpcHealth False now (cancelConfirm m)"

definition onChainPathChanged :: "int \<Rightarrow> mon \<Rightarrow> mon" where
  "onChainPathChanged now m =
     (let stale = hl_state (m_health m) = Suspended \<or> hl_state (m_health m) = Blocked
      in refreshRpcHealth False now
           (if stale \<and> unprobedState m = None then publishUnprobed Unknown (m_endpoint m) now m else m))"

section \<open>The automatic selection\<close>

record feed_entry =
  fe_address :: string
  fe_status :: bool
  fe_errorReason :: "string option"

text \<open>The endpoint in use and those of the feed, each once.\<close>

definition feed_endpoints :: "string \<Rightarrow> feed_entry list \<Rightarrow> string list" where
  "feed_endpoints current feed = rev (remdups (rev (current # map fe_address feed)))"

text \<open>The aggregator's own verdict on a probed endpoint (of two entries with one address, the later).\<close>

definition with_verdict :: "feed_entry list \<Rightarrow> candidate \<Rightarrow> candidate" where
  "with_verdict feed c = c\<lparr>rc_aggregator :=
     map_option (\<lambda>f. fe_status f \<and> fe_errorReason f = None) (find (\<lambda>f. fe_address f = rc_endpoint c) (rev feed))\<rparr>"

definition autoSelectCore :: "candidate list \<Rightarrow> int \<Rightarrow> mon \<Rightarrow> mon" where
  "autoSelectCore candidates now m =
     (case m_selecting m of
        None \<Rightarrow> m
      | Some (current, canSelect) \<Rightarrow>
          let m0 = m\<lparr>m_selecting := None\<rparr> in
          if \<not> canSelect then m0
          else case pickAutoRpc candidates current of
            None \<Rightarrow> m0
          | Some chosen \<Rightarrow>
              if m_endpoint m0 \<noteq> current \<or> \<not> m_auto m0 \<or> unprobedState m0 \<noteq> None then m0
              else onRpcEndpointChanged now (m0\<lparr>m_endpoint := chosen\<rparr>))"

section \<open>The steps\<close>

inductive mon_step :: "mon \<Rightarrow> mon \<Rightarrow> bool" where
  poll: "mon_step m (refreshRpcHealth False now m)"
| confirm_fires: "m_confirm m \<Longrightarrow> mon_step m (refreshRpcHealth True now (m\<lparr>m_confirm := False\<rparr>))"
| probed: "mon_step m (probe_answered (probeRpc f) now m)"
| user_endpoint: "mon_step m (onRpcEndpointChanged now (m\<lparr>m_endpoint := e\<rparr>))"
| user_mode: "mon_step m ((if auto then runAutoRpcSelection else id) (m\<lparr>m_auto := auto\<rparr>))"
| path: "mon_step m (m\<lparr>m_vpn := vpn, m_armed := armed\<rparr>)"
| path_noticed: "mon_step m (onChainPathChanged now m)"
| selection_wanted: "mon_step m (runAutoRpcSelection m)"
| retest: "mon_step m (startAutoSelect m)"
| selected: "mset (map rc_endpoint probes) = mset (feed_endpoints current feed) \<Longrightarrow>
    mon_step m (autoSelectCore (map (with_verdict feed) probes) now m)"
| selection_failed: "mon_step m (m\<lparr>m_selecting := None\<rparr>)"
| stop: "mon_step m (cancelConfirm m)"

inductive mon_reachable :: "mon \<Rightarrow> bool" where
  start: "mon_reachable (mon_start endpoint auto vpn armed)"
| step: "mon_reachable m \<Longrightarrow> mon_step m m' \<Longrightarrow> mon_reachable m'"

section \<open>A fault is never published on one reading\<close>

text \<open>How many of the latest probes were bad, and what that number is at least.\<close>

definition bad_run :: "(string \<times> rpc_state) list \<Rightarrow> nat" where
  "bad_run readings = length (takeWhile (\<lambda>(e, s). s \<noteq> RpcOk) readings)"

lemma bad_run_simps [simp]: "bad_run [] = 0" "bad_run ((e, s) # l) = (if s = RpcOk then 0 else Suc (bad_run l))"
  by (simp_all add: bad_run_def)

definition confirmed :: "mon \<Rightarrow> bool" where
  "confirmed m \<longleftrightarrow>
     (m_confirm m \<longrightarrow> 1 \<le> bad_run (m_log m)) \<and>
     (\<forall>e. m_probing m = Some (e, True) \<longrightarrow> 1 \<le> bad_run (m_log m)) \<and>
     (is_fault (hl_state (m_health m)) \<longrightarrow> 2 \<le> bad_run (m_log m) \<and>
       hd (m_log m) = (hl_endpoint (m_health m), hl_state (m_health m)))"

lemma unprobed_not_fault: "unprobedState m = Some s \<Longrightarrow> \<not> is_fault s"
  by (auto simp: unprobedState_def is_fault_def split: if_splits)

lemma publish_simps [simp]:
  "hl_state (m_health (publishUnprobed s e now m)) = s" "m_log (publishUnprobed s e now m) = m_log m"
  "m_probing (publishUnprobed s e now m) = m_probing m" "m_confirm (publishUnprobed s e now m) = m_confirm m"
  "m_log (cancelConfirm m) = m_log m" "m_probing (cancelConfirm m) = m_probing m" "m_health (cancelConfirm m) = m_health m"
  "\<not> m_confirm (cancelConfirm m)"
  by (simp_all add: publishUnprobed_def cancelConfirm_def)

lemma select_simps [simp]:
  "m_log (startAutoSelect m) = m_log m" "m_probing (startAutoSelect m) = m_probing m" "m_health (startAutoSelect m) = m_health m"
  "m_confirm (startAutoSelect m) = m_confirm m" "m_log (runAutoRpcSelection m) = m_log m"
  "m_probing (runAutoRpcSelection m) = m_probing m" "m_health (runAutoRpcSelection m) = m_health m"
  "m_confirm (runAutoRpcSelection m) = m_confirm m"
  by (simp_all add: startAutoSelect_def runAutoRpcSelection_def)

lemma confirmed_select: "confirmed (startAutoSelect m) = confirmed m" "confirmed (runAutoRpcSelection m) = confirmed m"
  by (simp_all add: confirmed_def)

lemma confirmed_cancel: "confirmed m \<Longrightarrow> confirmed (cancelConfirm m)"
  by (simp add: confirmed_def)

lemma confirmed_update:
  "confirmed (m\<lparr>m_endpoint := e\<rparr>) = confirmed m" "confirmed (m\<lparr>m_auto := a\<rparr>) = confirmed m"
  "confirmed (m\<lparr>m_vpn := v\<rparr>) = confirmed m" "confirmed (m\<lparr>m_armed := k\<rparr>) = confirmed m"
  "confirmed (m\<lparr>m_selecting := x\<rparr>) = confirmed m"
  by (simp_all add: confirmed_def)

lemma confirmed_refresh:
  assumes "confirmed m" and "confirming \<Longrightarrow> 1 \<le> bad_run (m_log m)"
  shows "confirmed (refreshRpcHealth confirming now m)"
  using assms unprobed_not_fault
  by (auto simp: refreshRpcHealth_def confirmed_def split: option.split)

lemma classified: "classifyRpc p = RpcOk \<or> is_fault (classifyRpc p)"
  by (simp add: classifyRpc_def is_fault_def)

lemma confirmed_answer:
  assumes "confirmed m"
  shows "confirmed (probe_answered p now m)"
proof (cases "m_probing m")
  case None
  with assms show ?thesis by (simp add: probe_answered_def)
next
  case (Some ec)
  obtain e c where ec: "ec = (e, c)" by (cases ec)
  have u: "unprobedState (m\<lparr>m_probing := None\<rparr>) = unprobedState m" by (simp add: unprobedState_def)
  show ?thesis
  proof (cases "unprobedState m")
    case None
    show ?thesis
      using assms Some classified [of p]
      by (auto simp: probe_answered_def ec u None Let_def confirmed_def needsConfirmation_def is_fault_def)
  next
    case (Some s)
    then show ?thesis
      using assms \<open>m_probing m = Some ec\<close> unprobed_not_fault [OF Some]
      by (simp add: probe_answered_def ec u confirmed_def)
  qed
qed

lemma confirmed_step:
  assumes "mon_step m m'" and "confirmed m"
  shows "confirmed m'"
  using assms
proof (cases rule: mon_step.cases)
  case (confirm_fires now)
  with assms(2) have "confirmed (m\<lparr>m_confirm := False\<rparr>)" "1 \<le> bad_run (m_log m)" by (auto simp: confirmed_def)
  with confirm_fires show ?thesis by (simp add: confirmed_refresh)
next
  case (user_endpoint now e)
  then show ?thesis using assms(2)
    by (simp add: onRpcEndpointChanged_def confirmed_refresh confirmed_cancel confirmed_update)
next
  case (path_noticed now)
  have "confirmed (publishUnprobed Unknown (m_endpoint m) now m)"
    using assms(2) by (simp add: confirmed_def is_fault_def)
  with path_noticed assms(2) show ?thesis by (simp add: onChainPathChanged_def Let_def confirmed_refresh)
next
  case (selected probes current feed now)
  then show ?thesis using assms(2)
    by (auto simp: autoSelectCore_def onRpcEndpointChanged_def Let_def confirmed_update
      intro!: confirmed_refresh confirmed_cancel split: option.split)
next
  case stop
  then show ?thesis using assms(2) by (simp add: confirmed_cancel)
qed (use assms(2) in \<open>simp_all add: confirmed_refresh confirmed_answer confirmed_select confirmed_update\<close>)

lemma reachable_confirmed: "mon_reachable m \<Longrightarrow> confirmed m"
  by (induction rule: mon_reachable.induct)
    (simp_all add: confirmed_step, simp add: confirmed_def mon_start_def is_fault_def)

text \<open>
  C23. One bad probe never turns the indicator red or yellow (\<open>refreshRpcHealth\<close>, \<open>needsConfirmation\<close>): in
  every reachable state of the monitor, with any polls, settings changes, tunnels, kill switch and automatic
  switches in between, a published fault gives the endpoint and the verdict of the latest probe, and the probe
  before that one was bad too. That earlier probe may have been of the endpoint used before, as the code does
  not look at whose reading it confirms (\<open>new_endpoint_accused_once\<close>, \<open>unaccused_reading_carried_over\<close>).
\<close>

theorem fault_needs_two_readings:
  assumes "mon_reachable m" and "hl_state (m_health m) = Down \<or> hl_state (m_health m) = Degraded"
  shows "\<exists>e2 s2 earlier. m_log m = (hl_endpoint (m_health m), hl_state (m_health m)) # (e2, s2) # earlier \<and> s2 \<noteq> RpcOk"
proof -
  have "2 \<le> bad_run (m_log m)" and "hd (m_log m) = (hl_endpoint (m_health m), hl_state (m_health m))"
    using reachable_confirmed [OF assms(1)] assms(2) by (auto simp: confirmed_def is_fault_def)
  then show ?thesis
    by (cases "m_log m"; cases "tl (m_log m)") (auto split: if_splits)
qed

text \<open>
  Smart RPC switches the endpoint only when it still may (\<open>autoSelectCore\<close>): in automatic mode, with
  neither tunnel nor kill switch in the way, from the endpoint the selection was started for, and only
  to the choice made from what was probed. Otherwise a finished selection leaves the endpoint alone.
\<close>

theorem auto_switch_guarded:
  assumes "m_endpoint (autoSelectCore candidates now m) \<noteq> m_endpoint m"
  shows "m_auto m \<and> \<not> m_vpn m \<and> \<not> m_armed m \<and> m_selecting m = Some (m_endpoint m, True) \<and>
    pickAutoRpc candidates (m_endpoint m) = Some (m_endpoint (autoSelectCore candidates now m))"
  using assms
  by (auto simp: autoSelectCore_def Let_def onRpcEndpointChanged_def refreshRpcHealth_def cancelConfirm_def publishUnprobed_def
    unprobedState_def split: option.splits if_splits)

section \<open>A run of the monitor\<close>

definition bad_fetch :: fetched where "bad_fetch = FetchFailed ''down''"

definition slow_fetch :: fetched where "slow_fetch = Fetched 3000 200 (JObj []) None"

text \<open>The endpoint \<open>a\<close> is polled, probed, held, probed again; then the user changes to \<open>b\<close>, probed once.\<close>

definition faulty_run :: mon where
  "faulty_run = probe_answered (probeRpc bad_fetch) 4 (refreshRpcHealth True 3
     ((probe_answered (probeRpc bad_fetch) 2 (refreshRpcHealth False 1 (mon_start ''a'' False False False)))\<lparr>m_confirm := False\<rparr>))"

definition switched_run :: mon where
  "switched_run = probe_answered (probeRpc slow_fetch) 6 (onRpcEndpointChanged 5 (faulty_run\<lparr>m_endpoint := ''b''\<rparr>))"

lemmas monitor_defs = probe_answered_def refreshRpcHealth_def mon_start_def unprobedState_def classifyRpc_def probeRpc_def
  bad_fetch_def slow_fetch_def needsConfirmation_def cancelConfirm_def is_fault_def runAutoRpcSelection_def
  onRpcEndpointChanged_def nullish_def above_def at_least_def SLOW_LATENCY_MS_def STALE_BLOCK_AGE_SEC_def Let_def

lemma faulty_run_state:
  "hl_state (m_health faulty_run) = Down" "hl_endpoint (m_health faulty_run) = ''a''" "m_log faulty_run = [(''a'', Down), (''a'', Down)]"
  by (simp_all add: faulty_run_def monitor_defs)

lemma switched_run_state:
  "hl_state (m_health switched_run) = Degraded" "hl_endpoint (m_health switched_run) = ''b''"
  "m_log switched_run = [(''b'', Degraded), (''a'', Down), (''a'', Down)]"
  by (simp_all add: switched_run_def faulty_run_def monitor_defs)

lemma reachable_faulty: "mon_reachable faulty_run"
proof -
  let ?m1 = "refreshRpcHealth False 1 (mon_start ''a'' False False False)"
  let ?m2 = "probe_answered (probeRpc bad_fetch) 2 ?m1"
  have "mon_reachable ?m2" by (rule mon_reachable.step [OF mon_reachable.step [OF mon_reachable.start poll] probed])
  moreover have "m_confirm ?m2" by (simp add: monitor_defs)
  ultimately have "mon_reachable (refreshRpcHealth True 3 (?m2\<lparr>m_confirm := False\<rparr>))"
    using confirm_fires mon_reachable.step by blast
  then show ?thesis unfolding faulty_run_def using probed mon_reachable.step by blast
qed

lemma reachable_switched: "mon_reachable switched_run"
  unfolding switched_run_def
  by (rule mon_reachable.step [OF mon_reachable.step [OF reachable_faulty user_endpoint] probed])

lemma fault_needs_two_readings_witness:
  "\<exists>e2 s2 earlier. m_log faulty_run = (''a'', Down) # (e2, s2) # earlier \<and> s2 \<noteq> RpcOk"
  using fault_needs_two_readings [OF reachable_faulty] faulty_run_state(1,2) by auto

text \<open>
  The confirmation does not look at the endpoint (\<open>needsConfirmation\<close>): once an endpoint is published
  as faulty, the first bad reading of the endpoint the user changes to is published at once, on a
  single probe of it.
\<close>

theorem new_endpoint_accused_once:
  "\<exists>m. mon_reachable m \<and> hl_state (m_health m) = Degraded \<and> hl_endpoint (m_health m) = ''b'' \<and>
     length (filter (\<lambda>(e, s). e = ''b'') (m_log m)) = 1"
  by (intro exI [of _ switched_run]) (simp add: reachable_switched switched_run_state)

text \<open>
  A probe in flight outlives a change of the endpoint, and its bad reading is held for confirmation like any
  other: the second probe is then of the new endpoint, and accuses it although neither had been accused before.
\<close>

definition carried_run :: mon where
  "carried_run = probe_answered (probeRpc slow_fetch) 6 (refreshRpcHealth True 5
     ((probe_answered (probeRpc bad_fetch) 4 (onRpcEndpointChanged 3
        ((refreshRpcHealth False 1 (mon_start ''a'' False False False))\<lparr>m_endpoint := ''b''\<rparr>)))\<lparr>m_confirm := False\<rparr>))"

theorem unaccused_reading_carried_over:
  "mon_reachable carried_run \<and> hl_state (m_health carried_run) = Degraded \<and> hl_endpoint (m_health carried_run) = ''b'' \<and>
     m_log carried_run = [(''b'', Degraded), (''a'', Down)]"
proof -
  let ?m1 = "onRpcEndpointChanged 3 ((refreshRpcHealth False 1 (mon_start ''a'' False False False))\<lparr>m_endpoint := ''b''\<rparr>)"
  let ?m2 = "probe_answered (probeRpc bad_fetch) 4 ?m1"
  have "mon_reachable ?m2"
    by (rule mon_reachable.step [OF mon_reachable.step [OF mon_reachable.step [OF mon_reachable.start poll] user_endpoint] probed])
  moreover have "m_confirm ?m2" by (simp add: monitor_defs)
  ultimately have "mon_reachable (refreshRpcHealth True 5 (?m2\<lparr>m_confirm := False\<rparr>))"
    using confirm_fires mon_reachable.step by blast
  then have "mon_reachable carried_run" unfolding carried_run_def using probed mon_reachable.step by blast
  then show ?thesis by (simp add: carried_run_def monitor_defs)
qed

lemma auto_switch_guarded_witness: "pickAutoRpc sample_candidates ''a'' = Some ''b''"
proof -
  let ?m = "(mon_start ''a'' True False False)\<lparr>m_selecting := Some (''a'', True)\<rparr>"
  have "m_endpoint (autoSelectCore sample_candidates now ?m) = ''b''" for now
    by (simp add: autoSelectCore_def sample_pick mon_start_def unprobedState_def onRpcEndpointChanged_def refreshRpcHealth_def
      cancelConfirm_def)
  then show ?thesis using auto_switch_guarded [of sample_candidates 0 ?m] by (simp add: mon_start_def)
qed

end
