(* ===== verification/SmartConnect.thy ===== *)
theory SmartConnect
  imports Shop
begin

text \<open>
  Smart connect (\<open>PLAN_SMART_CONNECT\<close> of \<open>src/main/ipc-handlers.ts\<close>): the ladder that walks a plan's
  nodes, buying the plan at most once and refunding every session whose handshake fails, and what it
  promises about money. The nodes of a plan, the directory, the probes and the machine's abilities
  are fields of \<open>market\<close>.
\<close>

section \<open>The candidates\<close>

record node_row =
  nr_moniker :: string
  nr_country :: string
  nr_type :: int
  nr_api :: string
  nr_isActive :: bool
  nr_isHealthy :: bool
  nr_version :: string

record cached_probe =
  cb_latencyMs :: "rat option"
  cb_reachable :: bool
  cb_timestamp :: int

record market =
  mk_nodes :: "history \<Rightarrow> string \<Rightarrow> string list result"
  mk_row :: "string \<Rightarrow> node_row option"
  mk_cached :: "string \<Rightarrow> cached_probe option"
  mk_now :: int
  mk_canEscalate :: bool
  mk_probed :: "string \<Rightarrow> (bool \<times> rat option) option"
  mk_systemReady :: "bool \<Rightarrow> unit result"
  mk_plans :: "cached_plan list"

definition SMART_PROBE_TOP_N :: nat where "SMART_PROBE_TOP_N = 6"
definition SMART_LATENCY_FRESH_MS :: int where "SMART_LATENCY_FRESH_MS = 10 * 60 * 1000"

definition toCandidate :: "env \<Rightarrow> market \<Rightarrow> string \<Rightarrow> plan_candidate" where
  "toCandidate env m addr =
     (let row = mk_row m addr;
          fresh = (case mk_cached m addr of
            Some p \<Rightarrow> if mk_now m - cb_timestamp p < SMART_LATENCY_FRESH_MS then Some p else None
          | None \<Rightarrow> None);
          protocol = (case row of None \<Rightarrow> None | Some r \<Rightarrow> map_of NODE_TYPE_TO_PROTOCOL (nr_type r))
      in \<lparr>pn_address = addr,
          pn_moniker = (case row of None \<Rightarrow> addr | Some r \<Rightarrow> if nr_moniker r = '''' then addr else nr_moniker r),
          pn_country = (case row of None \<Rightarrow> '''' | Some r \<Rightarrow> nr_country r),
          pn_type = (case row of None \<Rightarrow> 0 | Some r \<Rightarrow> nr_type r),
          pn_api = (case row of None \<Rightarrow> '''' | Some r \<Rightarrow> nr_api r),
          pn_isActive = (case row of None \<Rightarrow> False | Some r \<Rightarrow> nr_isActive r),
          pn_isHealthy = (case row of None \<Rightarrow> False | Some r \<Rightarrow> nr_isHealthy r),
          pn_latencyMs = Option.bind fresh cb_latencyMs,
          pn_probeFailed = (case fresh of None \<Rightarrow> False | Some p \<Rightarrow> \<not> cb_reachable p),
          pn_runtimeOk = (case protocol of None \<Rightarrow> False
            | Some p \<Rightarrow> e_runtimeError env p = None \<and> (root_protocol p \<longrightarrow> mk_canEscalate m)),
          pn_signsReplies = versionSignsReplies (case row of None \<Rightarrow> '''' | Some r \<Rightarrow> nr_version r)\<rparr>)"

text \<open>The provisional ranking, the probes of its top, and the ranking with what they measured.\<close>

definition with_probe :: "market \<Rightarrow> plan_candidate list \<Rightarrow> plan_candidate \<Rightarrow> plan_candidate" where
  "with_probe m probed c =
     (case (if pn_address c \<in> pn_address ` set probed then mk_probed m (pn_address c) else None) of
        None \<Rightarrow> c
      | Some (reachable, latency) \<Rightarrow> c\<lparr>pn_latencyMs := latency, pn_probeFailed := \<not> reachable\<rparr>)"

definition smart_ranking ::
  "env \<Rightarrow> market \<Rightarrow> bool \<Rightarrow> bool \<Rightarrow> string list \<Rightarrow> plan_candidate list \<times> (string \<times> string) list" where
  "smart_ranking env m proxy sig addresses =
     (let (kept, dropped) = rankPlanCandidates (map (toCandidate env m) addresses) proxy sig;
          probed = take SMART_PROBE_TOP_N kept;
          (ranked, late) = rankPlanCandidates (map (with_probe m probed) kept) proxy sig
      in (ranked, dropped @ late))"

section \<open>The ladder\<close>

record smart_params =
  sm_planId :: string
  sm_subscriptionId :: "string option"
  sm_denom :: string
  sm_policy :: "int option"
  sm_proxy :: bool

record smart_result =
  rs_sessionId :: string
  rs_subscriptionId :: string
  rs_output :: handshake_output
  rs_node :: plan_candidate
  rs_attempts :: "(string \<times> string) list"

definition hop_of :: "plan_candidate \<Rightarrow> hop_input" where
  "hop_of x = \<lparr>hp_nodeAddress = pn_address x, hp_nodeType = pn_type x, hp_apiField = pn_api x,
     hp_nodeMoniker = pn_moniker x, hp_nodeCountry = pn_country x\<rparr>"

definition attempted :: "plan_candidate \<Rightarrow> failure \<Rightarrow> string \<times> string" where
  "attempted x err = (pn_moniker x, case message_of err of Some m \<Rightarrow> m | None \<Rightarrow> ''unknown failure'')"

text \<open>The transaction of one attempt: the session it opened, and the subscription from then on.\<close>

definition ladder_start ::
  "chain_io \<Rightarrow> wallet_keys \<Rightarrow> smart_params \<Rightarrow> plan_candidate \<Rightarrow> string option \<Rightarrow> (string \<times> string option) run" where
  "ladder_start c w p x sub =
     (if ladderNextTx sub = PlanSubscribe then
        seq (noting c (subscribeToPlan c True (wk_account w) (sm_planId p) (sm_denom p) (pn_address x) (sm_policy p)))
          (\<lambda>(sessionId, sub'). ret (sessionId, if sub' \<noteq> '''' then Some sub' else sub))
      else
        seq (noting c (startSessionWithExistingSubscription c True (wk_account w) (the sub) (pn_address x)))
          (\<lambda>(sessionId, _). ret (sessionId, sub)))"

definition exhausted :: "smart_params \<Rightarrow> string option \<Rightarrow> (string \<times> string) list \<Rightarrow> failure" where
  "exhausted p sub attempts =
     failed (smartConnectFailureSummary attempts @
       (if sm_subscriptionId p = None \<and> truthy_string sub
        then '' Your new subscription #'' @ the sub @ '' was created and can be connected from My plans without paying again.''
        else ''''))"

text \<open>The ladder; \<open>retry\<close> is \<open>recordAndDecide\<close> with the two ways on.\<close>

definition retry :: "smart_failure \<Rightarrow> nat \<Rightarrow> 'a run \<Rightarrow> 'a run \<Rightarrow> 'a run" where
  "retry failure n next stop = (if shouldTryNextCandidate failure n then next else stop)"

fun ladder ::
  "chain_io \<Rightarrow> wallet_keys \<Rightarrow> smart_params \<Rightarrow> plan_candidate list \<Rightarrow> string option \<Rightarrow> nat \<Rightarrow> (string \<times> string) list \<Rightarrow>
     smart_result run" where
  "ladder c w p [] sub n attempts = raise (exhausted p sub attempts)"
| "ladder c w p (x # xs) sub n attempts =
     seq (outcome (preflightConnect (c_env c) (pn_type x) (pn_api x) (\<not> sm_proxy p) Direct)) (\<lambda>checked.
     case checked of
       Inl err \<Rightarrow> retry FPreflight n (ladder c w p xs sub n (attempts @ [attempted x err]))
                    (raise (exhausted p sub (attempts @ [attempted x err])))
     | Inr _ \<Rightarrow>
     seq (outcome (resolveNodeRemoteUrl (c_env c) (pn_address x) (pn_api x))) (\<lambda>resolved.
     case resolved of
       Inl err \<Rightarrow> retry FEndpoint n (ladder c w p xs sub n (attempts @ [attempted x err]))
                    (raise (exhausted p sub (attempts @ [attempted x err])))
     | Inr remoteUrl \<Rightarrow>
     seq (outcome (ladder_start c w p x sub)) (\<lambda>started.
     case started of
       Inl err \<Rightarrow> retry (if message_of err = Some TX_TIMEOUT_MESSAGE then FTxTimeout else FChain) n
                    (ladder c w p xs sub n (attempts @ [attempted x err])) (raise err)
     | Inr (sessionId, sub') \<Rightarrow>
     seq (outcome (establishSessionOrRefund (c_env c) (purchase_of (hop_of x) w False remoteUrl sessionId))) (\<lambda>settled.
     case settled of
       Inl err \<Rightarrow>
         if contains REFUND_FAILED_TAIL (case message_of err of Some m \<Rightarrow> m | None \<Rightarrow> []) then raise err
         else retry FHandshake (Suc n) (ladder c w p xs sub' (Suc n) (attempts @ [attempted x err])) (raise err)
     | Inr result \<Rightarrow>
         seq (tell SessionsChanged) (\<lambda>_.
         ret \<lparr>rs_sessionId = sessionId, rs_subscriptionId = (case sub' of None \<Rightarrow> [] | Some s \<Rightarrow> s),
              rs_output = result, rs_node = x, rs_attempts = attempts\<rparr>)))))"

section \<open>The handler\<close>

definition check_smart :: "js \<Rightarrow> unit result" where
  "check_smart params =
     and_then (check_decimal ''planId'' params) (\<lambda>_.
     and_then (if jget ''subscriptionId'' params \<noteq> JUndef then check_decimal ''subscriptionId'' params
               else assertString (jget ''denom'' params) ''denom'') (\<lambda>_.
     check_policy params))"

definition smart_of :: "js \<Rightarrow> smart_params" where
  "smart_of params = \<lparr>sm_planId = str_of ''planId'' params, sm_subscriptionId = as_string (jget ''subscriptionId'' params),
     sm_denom = str_of ''denom'' params, sm_policy = policy_of params,
     sm_proxy = (jget ''requireProxyCapable'' params = JBool True)\<rparr>"

definition unusable :: "market \<Rightarrow> (string \<times> string) list \<Rightarrow> failure" where
  "unusable m excluded =
     failed (''No node in this plan is usable right now. Nothing was purchased. '' @
       join ''; '' (map (\<lambda>(a, reason).
         (case mk_row m a of None \<Rightarrow> a | Some r \<Rightarrow> if nr_moniker r = '''' then a else nr_moniker r) @ '': '' @ reason)
         (take 5 excluded)))"

definition smart_run :: "chain_io \<Rightarrow> market \<Rightarrow> wallet_keys \<Rightarrow> smart_params \<Rightarrow> smart_result run" where
  "smart_run c m w p =
     seq (lift (mk_systemReady m (\<not> sm_proxy p))) (\<lambda>_.
     with_flow c (
       seq (assertSufficientFunds c (wk_account w)
              (if truthy_string (sm_subscriptionId p) then 0 else plan_cost (mk_plans m) (sm_planId p) (sm_denom p))) (\<lambda>_.
       seq (seq (look (\<lambda>h. mk_nodes m h (sm_planId p))) lift) (\<lambda>addresses.
       if addresses = [] then raise (failed ''This plan has no active nodes linked right now. Nothing was purchased.'')
       else seq (look (e_signedOnly (c_env c))) (\<lambda>requireSigned.
         let (ranked, excluded) = smart_ranking (c_env c) m (sm_proxy p) requireSigned addresses
         in if ranked = [] then raise (unusable m excluded)
            else ladder c w p ranked (sm_subscriptionId p) 0 [])))))"

definition plan_smart_connect ::
  "chain_io \<Rightarrow> market \<Rightarrow> wallet_keys option \<Rightarrow> (history \<Rightarrow> session_row list option) \<Rightarrow> js \<Rightarrow> book \<Rightarrow> history \<Rightarrow>
     (failure + smart_result) \<times> book \<times> history" where
  "plan_smart_connect c m wallet rows params b h =
     (case check_smart params of Inl e \<Rightarrow> (Inl (failed e), b, h) | Inr _ \<Rightarrow>
      case wallet of None \<Rightarrow> (Inl (failed ''Wallet not loaded''), b, h) | Some w \<Rightarrow>
      case assertNotConnected ''starting a new connection'' b of Inl e \<Rightarrow> (Inl (failed e), b, h) | Inr _ \<Rightarrow>
      case smart_run c m w (smart_of params) h of
        (Inl e, h') \<Rightarrow> (Inl e, recorded h h' b, h')
      | (Inr r, h') \<Rightarrow>
          (Inr r, finish_plan (rs_sessionId r) (hop_of (rs_node r)) (mk_plans m) (sm_planId (smart_of params)) (rs_output r)
             (rows h') (recorded h h' b), h'))"

end
