(* ===== verification/SmartProps.thy ===== *)
theory SmartProps
  imports SmartConnect
begin

text \<open>
  What a smart connect promises about money: at any moment at most one session is paid for and open,
  the next is bought only when the last one was cancelled, and the price of the plan is paid once.
\<close>

section \<open>More rules\<close>

lemma delta_outcome:
  "delta m Q E \<Longrightarrow> delta (outcome m) (\<lambda>r es. case r of Inr v \<Rightarrow> Q v es | Inl e \<Rightarrow> E e es) F"
  by (auto simp: delta_def outcome_def case_prod_beta)

lemma delta_adds: "adds P m \<Longrightarrow> delta m (\<lambda>_. list_all P) (\<lambda>_. list_all P)"
  by (auto simp: delta_def adds_def split: sum.splits)

lemma delta_noting:
  assumes "delta m Q (\<lambda>_. E)"
  shows "delta (noting c m) Q (\<lambda>_. E)"
  unfolding noting_def
  by (rule delta_catching [OF assms]) (auto simp: delta_def)

section \<open>Money over time\<close>

text \<open>Where the money is: nowhere, charged for a session whose id is not known yet, held by an open
  session, or in a state the app cannot settle (an unconfirmed transaction, a cancel that failed).
  \<open>Wrong\<close> is a payment made behind another one, or a cancel of something else.\<close>

datatype money = Idle | Charged | Held string string | Stuck | Wrong

definition opens_session :: "chain_msg \<Rightarrow> bool" where
  "opens_session m \<longleftrightarrow> (case m of
      StartNodeSession _ _ _ _ _ _ \<Rightarrow> True | StartPlanSession _ _ _ _ \<Rightarrow> True
    | StartSubscriptionSession _ _ \<Rightarrow> True | _ \<Rightarrow> False)"

definition money_step :: "money \<Rightarrow> event \<Rightarrow> money" where
  "money_step s e = (case e of
      Landed a m \<Rightarrow> if opens_session m then (if s = Idle then Charged else Wrong) else s
    | Unconfirmed a m \<Rightarrow> if opens_session m then (if s = Idle then Stuck else Wrong) else s
    | Bought n a i \<Rightarrow> (if s = Charged then Held a i else Wrong)
    | Cancelled a i \<Rightarrow> (if s = Held a i then Idle else Wrong)
    | NotCancelled a i \<Rightarrow> (if s = Held a i then Stuck else Wrong)
    | _ \<Rightarrow> s)"

definition money :: "money \<Rightarrow> history \<Rightarrow> money" where
  "money s es = foldl money_step s es"

definition plan_charges :: "event \<Rightarrow> unit list" where
  "plan_charges e = (case e of Landed _ m \<Rightarrow> (case m of StartPlanSession _ _ _ _ \<Rightarrow> [()] | _ \<Rightarrow> []) | _ \<Rightarrow> [])"

definition openings :: "event \<Rightarrow> unit list" where
  "openings e = (case e of Landed _ m \<Rightarrow> if opens_session m then [()] else [] | _ \<Rightarrow> [])"

definition moneyless :: "event \<Rightarrow> bool" where
  "moneyless e \<longleftrightarrow> (case e of Landed _ _ \<Rightarrow> False | Unconfirmed _ _ \<Rightarrow> False | Bought _ _ _ \<Rightarrow> False
     | Cancelled _ _ \<Rightarrow> False | NotCancelled _ _ \<Rightarrow> False | _ \<Rightarrow> True)"

lemma money_append [simp]: "money s (es @ fs) = money (money s es) fs" "money s [] = s"
  by (simp_all add: money_def)

lemma money_Cons [simp]: "money s (e # es) = money (money_step s e) es"
  by (simp add: money_def)

lemma moneyless_step: "moneyless e \<Longrightarrow> money_step s e = s \<and> plan_charges e = [] \<and> openings e = []"
  by (cases e) (simp_all add: moneyless_def money_step_def plan_charges_def openings_def)

lemma moneyless_money:
  assumes "list_all moneyless es"
  shows "money s es = s" "evs plan_charges es = []" "evs openings es = []" "NotCancelled a i \<notin> set es"
  using assms by (induction es) (auto simp: moneyless_step, auto simp: moneyless_def)

lemma moneyless_simps [simp]:
  "moneyless (Asked via api)" "moneyless (ReadRow n row)" "moneyless (Posted via url i)" "moneyless (Saved cfg)"
  "moneyless Waited" "moneyless SessionsChanged" "\<not> moneyless (NotCancelled a i)"
  by (simp_all add: moneyless_def)

lemma money_events [simp]:
  "opens_session (StartPlanSession pl d n r)" "opens_session (StartSubscriptionSession sb n)"
  "money_step Idle (Landed a m) = (if opens_session m then Charged else Idle)"
  "money_step Idle (Unconfirmed a m) = (if opens_session m then Stuck else Idle)"
  "money_step Charged (Bought n a i) = Held a i" "money_step (Held a i) (Cancelled a i) = Idle"
  "money_step (Held a i) (NotCancelled a i) = Stuck" "money_step s SessionsChanged = s"
  "plan_charges (Landed a (StartPlanSession pl d n r)) = [()]" "plan_charges (Landed a (StartSubscriptionSession sb n)) = []"
  "plan_charges (Bought n a i) = []" "plan_charges (Unconfirmed a m) = []" "plan_charges SessionsChanged = []"
  "openings (Landed a (StartPlanSession pl d n r)) = [()]" "openings (Landed a (StartSubscriptionSession sb n)) = [()]"
  "openings (Bought n a i) = []" "openings (Unconfirmed a m) = []" "openings SessionsChanged = []"
  "plan_charges (Cancelled a i) = []" "plan_charges (NotCancelled a i) = []" "openings (Cancelled a i) = []"
  "openings (NotCancelled a i) = []"
  by (simp_all add: money_step_def plan_charges_def openings_def opens_session_def)

section \<open>One attempt\<close>

lemma delta_send_tx:
  "delta (send_tx c a m t tm label) (\<lambda>_ es. es = [Landed a m]) (\<lambda>_ es. es = [] \<or> es = [Unconfirmed a m])"
  by (rule deltaI)
    (auto simp: send_tx_def Let_def seen_def broadcastOrTimeout_def assertTxSucceeded_def split: broadcast.splits option.splits)

lemma delta_plan_tx:
  "delta (plan_tx c shared a m) (\<lambda>_ es. es = [Landed a m]) (\<lambda>_ es. es = [] \<or> es = [Unconfirmed a m])"
proof -
  have silent: "delta (seq (look f) lift) (\<lambda>_ es. es = []) (\<lambda>_ es. es = [])" for f :: "history \<Rightarrow> 'z result"
    by (intro delta_look_seq delta_lift) simp_all
  have "delta (signing_height c shared) (\<lambda>_ es. es = []) (\<lambda>_ es. es = [])"
    unfolding signing_height_def
    by (rule delta_seq [where M = "\<lambda>_ es. es = []"])
      (auto intro!: delta_if delta_ret silent simp: delta_weaken [OF silent])
  then have "delta (signing_height c shared) (\<lambda>_ es. es = []) (\<lambda>_ es. es = [] \<or> es = [Unconfirmed a m])"
    by (rule delta_weaken) simp_all
  then show ?thesis
    unfolding plan_tx_def by (rule delta_seq) (use delta_send_tx in simp)
qed

text \<open>What one attempt's transaction may leave behind, when it opened a session and when it did not.\<close>

definition opened :: "string \<Rightarrow> string \<Rightarrow> chain_msg \<Rightarrow> string \<Rightarrow> history \<Rightarrow> bool" where
  "opened a n m i es \<longleftrightarrow> es = [Landed a m, Bought n a i]"

definition unopened :: "string \<Rightarrow> chain_msg \<Rightarrow> history \<Rightarrow> bool" where
  "unopened a m es \<longleftrightarrow> es = [] \<or> es = [Unconfirmed a m] \<or> es = [Landed a m]"

lemma delta_opening:
  assumes "delta m (\<lambda>_ es. es = [Landed a msg]) (\<lambda>_ es. es = [] \<or> es = [Unconfirmed a msg])"
  shows "delta (seq m (\<lambda>t. seq (lift (f t)) (\<lambda>(i, sub). seq (tell (Bought n a i)) (\<lambda>_. ret (i, sub)))))
    (\<lambda>(i, sub) es. opened a n msg i es \<and> (\<exists>t. f t = Inr (i, sub))) (\<lambda>_. unopened a msg)"
  apply (rule delta_seq [where M = "\<lambda>_ es. es = [Landed a msg]"])
   apply (rule delta_weaken, rule assms)
    apply (auto simp: unopened_def)[2]
  apply (rule delta_lift_seq)
   apply (clarsimp)
   apply (rule delta_seq [where M = "\<lambda>_ es. es = [Bought n a i]" for i], rule delta_tell, rule refl)
   apply (rule delta_ret)
   apply (auto simp: opened_def unopened_def)
  done

lemma delta_subscribe:
  "delta (subscribeToPlan c shared a pl d n r)
     (\<lambda>(i, sub) es. opened a n (StartPlanSession pl d n (case r of None \<Rightarrow> 7 | Some x \<Rightarrow> x)) i es \<and>
        (\<exists>t. planned_session c t = Inr (i, sub)))
     (\<lambda>_. unopened a (StartPlanSession pl d n (case r of None \<Rightarrow> 7 | Some x \<Rightarrow> x)))"
  unfolding subscribeToPlan_def by (rule delta_opening, rule delta_plan_tx)

lemma delta_ride:
  "delta (startSessionWithExistingSubscription c shared a sb n)
     (\<lambda>(i, sub) es. opened a n (StartSubscriptionSession sb n) i es) (\<lambda>_. unopened a (StartSubscriptionSession sb n))"
  unfolding startSessionWithExistingSubscription_def
  by (rule delta_weaken, rule delta_opening, rule delta_plan_tx) auto

text \<open>A chain whose plan transactions name the subscription they create.\<close>

definition names_subscriptions :: "chain_io \<Rightarrow> bool" where
  "names_subscriptions c \<longleftrightarrow> (\<forall>t i sub. planned_session c t = Inr (i, sub) \<longrightarrow> sub \<noteq> [])"

definition first_message :: "smart_params \<Rightarrow> plan_candidate \<Rightarrow> string option \<Rightarrow> chain_msg" where
  "first_message p x sub = (case sub of
      None \<Rightarrow> StartPlanSession (sm_planId p) (sm_denom p) (pn_address x) (case sm_policy p of None \<Rightarrow> 7 | Some r \<Rightarrow> r)
    | Some s \<Rightarrow> StartSubscriptionSession s (pn_address x))"

lemma delta_start:
  "delta (ladder_start c w p x sub)
     (\<lambda>(i, sub') es. opened (wk_account w) (pn_address x) (first_message p x sub) i es \<and>
        (sub \<noteq> None \<longrightarrow> sub' = sub) \<and> (names_subscriptions c \<longrightarrow> sub' \<noteq> None))
     (\<lambda>_. unopened (wk_account w) (first_message p x sub))"
proof (cases sub)
  case None
  show ?thesis
    unfolding ladder_start_def None ladderNextTx_def first_message_def
    apply simp
    apply (rule delta_seq, rule delta_noting, rule delta_subscribe)
    apply (auto simp: names_subscriptions_def delta_def run)
    done
next
  case (Some s)
  show ?thesis
    unfolding ladder_start_def Some ladderNextTx_def first_message_def
    apply simp
    apply (rule delta_seq, rule delta_noting, rule delta_ride)
    apply clarsimp
    apply (rule delta_ret)
    apply simp
    done
qed

section \<open>The ladder\<close>

definition plan_budget :: "string option \<Rightarrow> nat" where
  "plan_budget sub = (if sub = None then 1 else 0)"

text \<open>What the ladder may spend from a state with subscription \<open>sub\<close> after \<open>n\<close> sessions.\<close>

definition in_budget :: "chain_io \<Rightarrow> string option \<Rightarrow> nat \<Rightarrow> history \<Rightarrow> bool" where
  "in_budget c sub n es \<longleftrightarrow> length (evs openings es) + n \<le> MAX_TX_ATTEMPTS \<and>
     (names_subscriptions c \<longrightarrow> length (evs plan_charges es) \<le> plan_budget sub)"

definition climbed :: "chain_io \<Rightarrow> string \<Rightarrow> string option \<Rightarrow> nat \<Rightarrow> smart_result \<Rightarrow> history \<Rightarrow> bool" where
  "climbed c a sub n r es \<longleftrightarrow> money Idle es = Held a (rs_sessionId r) \<and> in_budget c sub n es"

definition fell :: "chain_io \<Rightarrow> string option \<Rightarrow> nat \<Rightarrow> failure \<Rightarrow> history \<Rightarrow> bool" where
  "fell c sub n e es \<longleftrightarrow> money Idle es \<in> {Idle, Charged, Stuck} \<and> in_budget c sub n es \<and>
     (\<forall>b i. NotCancelled b i \<in> set es \<longrightarrow> contains (''#'' @ i) (error_message (f_value e)))"

text \<open>A part of the ladder that leaves the money where it was.\<close>

definition neutral :: "chain_io \<Rightarrow> string option \<Rightarrow> nat \<Rightarrow> string option \<Rightarrow> nat \<Rightarrow> history \<Rightarrow> bool" where
  "neutral c sub n sub' n' es \<longleftrightarrow> money Idle es = Idle \<and> length (evs openings es) + n \<le> n' \<and>
     (names_subscriptions c \<longrightarrow> length (evs plan_charges es) + plan_budget sub' \<le> plan_budget sub) \<and>
     (\<forall>b i. NotCancelled b i \<notin> set es)"

lemma neutral_moneyless: "list_all moneyless es \<Longrightarrow> neutral c sub n sub n es"
  by (simp add: neutral_def moneyless_money)

lemma neutral_append: "neutral c sub n sub' n' es \<Longrightarrow> neutral c sub' n' sub'' n'' fs \<Longrightarrow> neutral c sub n sub'' n'' (es @ fs)"
  by (auto simp: neutral_def)

lemma neutral_climbed: "neutral c sub n sub' n' es \<Longrightarrow> climbed c a sub' n' r fs \<Longrightarrow> climbed c a sub n r (es @ fs)"
  by (auto simp: neutral_def climbed_def in_budget_def)

lemma neutral_fell: "neutral c sub n sub' n' es \<Longrightarrow> fell c sub' n' e fs \<Longrightarrow> fell c sub n e (es @ fs)"
  by (auto simp: neutral_def fell_def in_budget_def)

lemma fell_quiet: "list_all moneyless es \<Longrightarrow> n \<le> MAX_TX_ATTEMPTS \<Longrightarrow> fell c sub n e es"
  by (simp add: fell_def in_budget_def moneyless_money)

lemma first_message_simps [simp]:
  "opens_session (first_message p x sub)"
  "plan_charges (Landed a (first_message p x sub)) = (if sub = None then [()] else [])"
  "openings (Landed a (first_message p x sub)) = [()]"
  by (simp_all add: first_message_def split: option.split)

lemma fell_unopened: "unopened a (first_message p x sub) es \<Longrightarrow> n < MAX_TX_ATTEMPTS \<Longrightarrow> fell c sub n e es"
  by (auto simp: unopened_def fell_def in_budget_def plan_budget_def)

text \<open>The events of a purchase whose handshake failed or succeeded, around those of the handshake.\<close>

lemma session_moneyless:
  "session_work env q es \<Longrightarrow> list_all moneyless es" "tried p n es \<Longrightarrow> list_all moneyless es"
  "list_all moneyless (saved_of env p r)" "list_all moneyless (lookup_of q row)"
proof -
  show t: "tried p n es \<Longrightarrow> list_all moneyless es" for p n es
    by (auto simp: tried_def list_all_iff handshake_contact_def)
  show l: "list_all moneyless (lookup_of q row)" for q row by (simp add: lookup_of_def split: option.split)
  show "session_work env q es \<Longrightarrow> list_all moneyless es" using t l by (auto simp: session_work_def)
  show "list_all moneyless (saved_of env p r)" by (simp add: saved_of_def)
qed

lemma opened_neutral:
  assumes "opened a nd (first_message p x sub) i es" and "list_all moneyless fs"
    and "sub \<noteq> None \<longrightarrow> sub' = sub" and "names_subscriptions c \<longrightarrow> sub' \<noteq> None"
  shows "neutral c sub n sub' (Suc n) (es @ fs @ cancel_events a i True)"
  using assms by (auto simp: opened_def neutral_def moneyless_money cancel_events_def plan_budget_def)

lemma opened_stuck:
  assumes "opened a nd (first_message p x sub) i es" and "list_all moneyless fs" and "n < MAX_TX_ATTEMPTS"
    and "contains (''#'' @ i) (error_message (f_value e))"
  shows "fell c sub n e (es @ fs @ cancel_events a i False)"
  using assms by (auto simp: opened_def fell_def in_budget_def moneyless_money cancel_events_def plan_budget_def)

lemma opened_climbed:
  assumes "opened a nd (first_message p x sub) (rs_sessionId r) es" and "list_all moneyless fs" and "n < MAX_TX_ATTEMPTS"
  shows "climbed c a sub n r (es @ fs)"
  using assms by (auto simp: opened_def climbed_def in_budget_def moneyless_money plan_budget_def)

text \<open>The money side of one purchase's handshake.\<close>

lemma delta_settle_session:
  "delta (establishSessionOrRefund env q)
     (\<lambda>_. list_all moneyless)
     (\<lambda>e es. \<exists>fs cancelled msg. list_all moneyless fs \<and> e = failed msg \<and>
        es = fs @ cancel_events (sp_account q) (sp_sessionId q) cancelled \<and>
        (cancelled \<or> contains (''#'' @ sp_sessionId q) msg \<and> contains REFUND_FAILED_TAIL msg))"
  apply (rule delta_weaken, rule session_spec)
   apply (auto simp: session_moneyless)[1]
  apply (use session_moneyless(1) in blast)
  done

lemma delta_checks:
  "delta (preflightConnect env t api tunnel via) (\<lambda>_. list_all moneyless) (\<lambda>_. list_all moneyless)"
  "delta (resolveNodeRemoteUrl env node api) (\<lambda>_. list_all moneyless) (\<lambda>_. list_all moneyless)"
  by (rule delta_adds, intro adds_intro, simp)+

lemma message_of_failed [simp]: "message_of (failed m) = Some m"
  by (simp add: message_of_def failed_def)

text \<open>The form of every stage of the ladder: try, and go on one way or the other.\<close>

lemma delta_try:
  assumes "delta m M F"
    and "\<And>e es. F e es \<Longrightarrow> delta (k e) (\<lambda>w es'. Q w (es @ es')) (\<lambda>e es'. E e (es @ es'))"
    and "\<And>v es. M v es \<Longrightarrow> delta (k' v) (\<lambda>w es'. Q w (es @ es')) (\<lambda>e es'. E e (es @ es'))"
  shows "delta (seq (outcome m) (\<lambda>r. case r of Inl e \<Rightarrow> k e | Inr v \<Rightarrow> k' v)) Q E"
  by (rule delta_seq, rule delta_outcome, rule assms(1)) (use assms(2,3) in \<open>auto split: sum.splits\<close>)

text \<open>A recursive call behind a part that left the money where it was.\<close>

lemma delta_behind:
  assumes "delta m (climbed c a sub' n') (fell c sub' n')" and "neutral c sub n sub' n' es"
  shows "delta m (\<lambda>r es'. climbed c a sub n r (es @ es')) (\<lambda>e es'. fell c sub n e (es @ es'))"
  by (rule delta_weaken [OF assms(1)]) (simp_all add: neutral_climbed [OF assms(2)] neutral_fell [OF assms(2)])

lemma delta_retry:
  assumes "shouldTryNextCandidate failure n \<Longrightarrow> delta m Q E" and "delta m' Q E"
  shows "delta (retry failure n m m') Q E"
  using assms by (simp add: retry_def)

lemma delta_ladder:
  "n < MAX_TX_ATTEMPTS \<Longrightarrow>
     delta (ladder c w p xs sub n attempts) (climbed c (wk_account w) sub n) (fell c sub n)"
proof (induction xs arbitrary: sub n attempts)
  case Nil
  then show ?case by (simp add: delta_raise fell_quiet)
next
  case (Cons x xs)
  let ?a = "wk_account w"
  have give_up: "delta (retry f n (ladder c w p xs sub n att) (raise e)) (\<lambda>r es'. climbed c ?a sub n r (es @ es'))
      (\<lambda>e es'. fell c sub n e (es @ es'))" if "list_all moneyless es" for f att e es
    using that Cons.prems
    by (intro delta_retry delta_behind [OF Cons.IH] delta_raise) (simp_all add: neutral_moneyless fell_quiet)
  have settle: "delta (seq (outcome (establishSessionOrRefund (c_env c) (purchase_of (hop_of x) w False url i)))
       (\<lambda>r. case r of
         Inl err \<Rightarrow> if contains REFUND_FAILED_TAIL (case message_of err of Some m \<Rightarrow> m | None \<Rightarrow> []) then raise err
           else retry FHandshake (Suc n) (ladder c w p xs sub' (Suc n) (attempts @ [attempted x err])) (raise err)
       | Inr result \<Rightarrow> seq (tell SessionsChanged) (\<lambda>_. ret \<lparr>rs_sessionId = i,
            rs_subscriptionId = (case sub' of None \<Rightarrow> [] | Some s \<Rightarrow> s), rs_output = result, rs_node = x, rs_attempts = attempts\<rparr>)))
     (\<lambda>r es'. climbed c ?a sub n r (es @ es')) (\<lambda>e es'. fell c sub n e (es @ es'))"
    if o: "opened ?a (pn_address x) (first_message p x sub) i es" and
      s: "sub \<noteq> None \<longrightarrow> sub' = sub" "names_subscriptions c \<longrightarrow> sub' \<noteq> None" for url i sub' es
  proof (rule delta_try [OF delta_settle_session], goal_cases)
    case (1 e fs)
    then obtain gs cancelled msg where fs: "list_all moneyless gs" "e = failed msg" "fs = gs @ cancel_events ?a i cancelled"
        "cancelled \<or> contains (''#'' @ i) msg \<and> contains REFUND_FAILED_TAIL msg"
      by (auto simp: purchase_of_def)
    show ?case
    proof (cases cancelled)
      case True
      have nt: "neutral c sub n sub' (Suc n) (es @ fs)" using opened_neutral [OF o fs(1) s] fs(3) True by simp
      have "fell c sub n e (es @ fs)" if "Suc n \<le> MAX_TX_ATTEMPTS" for e
        using neutral_fell [OF nt fell_quiet [of "[]"]] that by simp
      then show ?thesis
        using Cons.prems delta_behind [OF Cons.IH nt]
        by (auto intro!: delta_raise delta_retry simp: shouldTryNextCandidate_def simp flip: append_assoc)
    next
      case False
      then show ?thesis
        using opened_stuck [OF o fs(1) Cons.prems, of e] fs by (simp add: delta_raise)
    qed
  next
    case (2 r fs)
    then show ?case
      using opened_climbed [OF _ _ Cons.prems, of ?a "pn_address x" p x sub _ es "fs @ [SessionsChanged]"] o
      by (simp add: delta_def run)
  qed
  have start: "delta (seq (outcome (ladder_start c w p x sub)) (\<lambda>r. case r of
       Inl err \<Rightarrow> retry (if message_of err = Some TX_TIMEOUT_MESSAGE then FTxTimeout else FChain) n
                    (ladder c w p xs sub n (attempts @ [attempted x err])) (raise err)
     | Inr v \<Rightarrow> k v)) (climbed c ?a sub n) (fell c sub n)"
    if k: "\<And>i sub' es. opened ?a (pn_address x) (first_message p x sub) i es \<Longrightarrow> sub \<noteq> None \<longrightarrow> sub' = sub \<Longrightarrow>
       names_subscriptions c \<longrightarrow> sub' \<noteq> None \<Longrightarrow>
       delta (k (i, sub')) (\<lambda>r es'. climbed c ?a sub n r (es @ es')) (\<lambda>e es'. fell c sub n e (es @ es'))" for k
  proof (rule delta_try [OF delta_start], goal_cases)
    case (1 e es)
    then show ?case
      by (auto intro!: delta_raise fell_unopened Cons.prems simp: retry_def shouldTryNextCandidate_def)
  next
    case (2 v es)
    then show ?case using k [of "fst v" es "snd v"] by (simp add: case_prod_beta)
  qed
  show ?case
    unfolding ladder.simps
    apply (rule delta_try [OF delta_checks(1)])
     apply (erule give_up)
    apply (rule delta_behind [OF _ neutral_moneyless])
     apply (rule delta_try [OF delta_checks(2)])
      apply (erule give_up)
     apply (rule delta_behind [OF _ neutral_moneyless])
      apply (rule start)
      apply (simp only: prod.case)
      apply (rule settle)
        apply simp_all
    done
qed

section \<open>The handler\<close>

lemma silent_adds: "adds (\<lambda>_. False) m \<Longrightarrow> delta m (\<lambda>_ es. es = []) (\<lambda>_ es. es = [])"
  by (rule delta_weaken, rule delta_adds, assumption) (auto simp: list_all_iff)

lemma adds_guards [adds_intro]:
  "adds F (assertSufficientFunds c a cost)" "adds F (seq (look f) lift)"
  by (auto simp: assertSufficientFunds_def Let_def intro!: adds_intro)

lemma delta_silent:
  assumes "adds (\<lambda>_. False) m" and "\<And>v. delta (k v) Q E" and "\<And>e. E e []"
  shows "delta (seq m k) Q E"
  by (rule delta_seq, rule delta_weaken, rule silent_adds, rule assms) (use assms in auto)

lemma delta_smart_run:
  "delta (smart_run c m w p) (climbed c (wk_account w) (sm_subscriptionId p) 0) (fell c (sm_subscriptionId p) 0)"
proof -
  have f: "fell c (sm_subscriptionId p) 0 e []" for e by (simp add: fell_quiet)
  have l: "delta (ladder c w p xs (sm_subscriptionId p) 0 [])
      (climbed c (wk_account w) (sm_subscriptionId p) 0) (fell c (sm_subscriptionId p) 0)" for xs
    by (rule delta_ladder) (simp add: MAX_TX_ATTEMPTS_def)
  show ?thesis
    unfolding smart_run_def with_flow_def
    apply (rule delta_silent [OF adds_silent(4)])
    apply (rule delta_silent [OF adds_guards(2)])
    apply (rule delta_silent [OF adds_guards(1)])
    apply (rule delta_silent [OF adds_guards(2)])
    apply (intro delta_if delta_raise f delta_look_seq)
    apply (auto simp: case_prod_beta Let_def intro!: delta_raise f l)
    done
qed

definition names_uncancelled :: "failure \<Rightarrow> history \<Rightarrow> bool" where
  "names_uncancelled e es \<longleftrightarrow> (\<forall>a i. NotCancelled a i \<in> set es \<longrightarrow> contains (''#'' @ i) (error_message (f_value e)))"

text \<open>What the handler did, as the run of its ladder.\<close>

lemma smart_connect_history:
  "\<exists>es. snd (snd (plan_smart_connect c m wallet rows params b h)) = h @ es \<and>
     (case fst (plan_smart_connect c m wallet rows params b h) of
        Inr r \<Rightarrow> \<exists>w. wallet = Some w \<and> climbed c (wk_account w) (as_string (jget ''subscriptionId'' params)) 0 r es
      | Inl e \<Rightarrow> fell c (as_string (jget ''subscriptionId'' params)) 0 e es)"
proof (cases "check_smart params = Inr () \<and> wallet \<noteq> None \<and> assertNotConnected ''starting a new connection'' b = Inr ()")
  case True
  then obtain w where w: "wallet = Some w" by auto
  obtain es where "snd (smart_run c m w (smart_of params) h) = h @ es"
    "case fst (smart_run c m w (smart_of params) h) of
       Inr r \<Rightarrow> climbed c (wk_account w) (sm_subscriptionId (smart_of params)) 0 r es
     | Inl e \<Rightarrow> fell c (sm_subscriptionId (smart_of params)) 0 e es"
    using deltaD [OF delta_smart_run] by blast
  with True w show ?thesis
    by (intro exI [of _ es])
      (auto simp: plan_smart_connect_def smart_of_def split: sum.splits prod.splits)
next
  case False
  then have "\<exists>e. plan_smart_connect c m wallet rows params b h = (Inl e, b, h)"
    by (auto simp: plan_smart_connect_def split: sum.splits option.splits)
  then show ?thesis by (auto simp: fell_quiet)
qed

text \<open>
  C1. A smart connect (\<open>PLAN_SMART_CONNECT\<close>) never pays for a session behind another one: it opens at
  most three, one after the other, and buys the next only when the last was cancelled. When it
  returns, the one session it holds is the one it returns; when it fails, nothing is held unless a
  transaction was charged without naming its session, is unconfirmed, or a cancel failed - which also
  ends the ladder - and a session left uncancelled is named in the error. A broadcast that throws anything but
  a timeout counts, as it does for the code, as one that reached no node.
\<close>

theorem smart_connect_settles:
  "\<exists>es. snd (snd (plan_smart_connect c m wallet rows params b h)) = h @ es \<and>
     length (evs openings es) \<le> 3 \<and>
     (case fst (plan_smart_connect c m wallet rows params b h) of
        Inr r \<Rightarrow> \<exists>w. wallet = Some w \<and> money Idle es = Held (wk_account w) (rs_sessionId r)
      | Inl e \<Rightarrow> money Idle es \<in> {Idle, Charged, Stuck} \<and> names_uncancelled e es)"
proof -
  obtain es where "snd (snd (plan_smart_connect c m wallet rows params b h)) = h @ es"
     "case fst (plan_smart_connect c m wallet rows params b h) of
        Inr r \<Rightarrow> \<exists>w. wallet = Some w \<and> climbed c (wk_account w) (as_string (jget ''subscriptionId'' params)) 0 r es
      | Inl e \<Rightarrow> fell c (as_string (jget ''subscriptionId'' params)) 0 e es"
    using smart_connect_history by blast
  then show ?thesis
    by (intro exI [of _ es])
      (auto simp: climbed_def fell_def in_budget_def names_uncancelled_def MAX_TX_ATTEMPTS_def split: sum.splits)
qed

text \<open>
  C5. The price of the plan is spent at most once however many nodes a smart connect tries, and not at
  all when it was given a subscription - provided that the events of a plan transaction name the
  subscription it created. A broadcast that throws anything but a timeout counts as one that reached no node.
\<close>

theorem plan_price_once:
  assumes "names_subscriptions c"
  shows "length (evs plan_charges (drop (length h) (snd (snd (plan_smart_connect c m wallet rows params b h))))) \<le>
    (if as_string (jget ''subscriptionId'' params) = None then 1 else 0)"
proof -
  obtain es where "snd (snd (plan_smart_connect c m wallet rows params b h)) = h @ es"
     "case fst (plan_smart_connect c m wallet rows params b h) of
        Inr r \<Rightarrow> \<exists>w. wallet = Some w \<and> climbed c (wk_account w) (as_string (jget ''subscriptionId'' params)) 0 r es
      | Inl e \<Rightarrow> fell c (as_string (jget ''subscriptionId'' params)) 0 e es"
    using smart_connect_history by blast
  then show ?thesis
    using assms by (auto simp: climbed_def fell_def in_budget_def plan_budget_def split: sum.splits)
qed

section \<open>Which nodes it buys\<close>

definition fit :: "env \<Rightarrow> market \<Rightarrow> bool \<Rightarrow> bool \<Rightarrow> string \<Rightarrow> bool" where
  "fit env m proxy sig n \<longleftrightarrow>
     (case mk_row m n of
        None \<Rightarrow> False
      | Some r \<Rightarrow> nr_api r \<noteq> [] \<and> nr_isActive r \<and> nr_isHealthy r \<and> nr_type r \<in> set CONNECTABLE_TYPES \<and>
          (proxy \<longrightarrow> nr_type r \<in> set PROXY_CAPABLE_TYPES) \<and> (sig \<longrightarrow> versionSignsReplies (nr_version r)) \<and>
          (case map_of NODE_TYPE_TO_PROTOCOL (nr_type r) of
             None \<Rightarrow> False
           | Some p \<Rightarrow> e_runtimeError env p = None \<and> (root_protocol p \<longrightarrow> mk_canEscalate m)))"

lemma candidate_fit:
  assumes "exclusionReason (toCandidate env m a) proxy sig = None"
  shows "fit env m proxy sig a"
  using assms by (auto simp: exclusionReason_None toCandidate_def fit_def Let_def split: option.splits)

lemma with_probe_simps [simp]:
  "pn_address (with_probe m ps x) = pn_address x" "pn_address (toCandidate env m a) = a"
  by (simp_all add: with_probe_def toCandidate_def Let_def split: option.splits prod.splits)

lemma ranking_fit:
  assumes "x \<in> set (fst (smart_ranking env m proxy sig as))"
  shows "fit env m proxy sig (pn_address x) \<and> pn_address x \<in> set as"
proof -
  obtain ps y where y: "x = with_probe m ps y" "y \<in> set (fst (rankPlanCandidates (map (toCandidate env m) as) proxy sig))"
    using assms by (auto simp: smart_ranking_def ranked_set case_prod_beta Let_def)
  then obtain a where "y = toCandidate env m a" "a \<in> set as" "exclusionReason y proxy sig = None"
    by (auto simp: ranked_set)
  with y(1) candidate_fit show ?thesis by simp
qed

definition buys_among :: "string set \<Rightarrow> event \<Rightarrow> bool" where
  "buys_among ns e \<longleftrightarrow> (case e of Bought n a i \<Rightarrow> n \<in> ns | _ \<Rightarrow> True)"

lemma buys_among_simps [simp]:
  "buys_among ns (Bought n a i) \<longleftrightarrow> n \<in> ns" "buys_among ns (Landed a msg)" "buys_among ns (Unconfirmed a msg)"
  "buys_among ns SessionsChanged" "buys_among ns (Asked via api)" "buys_among ns (ReadRow n row)"
  by (simp_all add: buys_among_def)

lemma adds_delta: "delta m (\<lambda>_. list_all P) (\<lambda>_. list_all P) \<Longrightarrow> adds P m"
  unfolding delta_def adds_def by (simp add: sum.case_eq_if)

lemma adds_start:
  assumes "pn_address x \<in> ns"
  shows "adds (buys_among ns) (ladder_start c w p x sub)"
  by (rule adds_delta, rule delta_weaken, rule delta_start) (use assms in \<open>auto simp: opened_def unopened_def\<close>)

lemma no_buys_among: "evs buys es = [] \<Longrightarrow> list_all (buys_among ns) es"
  by (induction es) (auto simp: buys_among_def buys_def split: event.splits)

lemma adds_establish: "adds (buys_among ns) (establishSessionOrRefund env q)"
proof (rule addsI)
  fix h r h' assume "establishSessionOrRefund env q h = (r, h')"
  then show "\<exists>es. h' = h @ es \<and> list_all (buys_among ns) es"
    using session_history [of env q h] no_buys_among by (metis snd_conv)
qed

lemma adds_ladder: "adds (buys_among (pn_address ` set xs)) (ladder c w p xs sub n attempts)"
proof (induction xs arbitrary: sub n attempts)
  case Nil
  show ?case by (simp add: adds_intro)
next
  case (Cons x xs)
  let ?F = "buys_among (pn_address ` set (x # xs))"
  have l: "adds ?F (ladder c w p xs sub' n' att)" for sub' n' att
    by (rule adds_weaken [OF Cons.IH]) (auto simp: buys_among_def split: event.splits)
  show ?case
    unfolding ladder.simps retry_def
    by (intro adds_intro l adds_start adds_establish) auto
qed

text \<open>What a run is told at some moment of the run.\<close>

lemma delta_told:
  assumes "\<And>h. delta (k (f h)) Q E"
  shows "delta (seq (look f) k) Q E"
proof (rule deltaI)
  fix h
  have "seq (look f) k h = k (f h) h" by (simp add: seq_def look_def)
  then show "\<exists>es. snd (seq (look f) k h) = h @ es \<and> (case fst (seq (look f) k h) of Inr v \<Rightarrow> Q v es | Inl e \<Rightarrow> E e es)"
    using deltaD [OF assms] by simp
qed

lemma delta_answered:
  assumes "\<And>h v. f h = ok v \<Longrightarrow> delta (k v) Q E" and "\<And>e. E e []"
  shows "delta (seq (seq (look f) lift) k) Q E"
proof -
  have "seq (seq (look f) lift) k = seq (look f) (\<lambda>v. seq (lift v) k)"
    by (simp add: seq_def look_def fun_eq_iff split: prod.split sum.split)
  then show ?thesis by (simp, intro delta_told delta_lift_seq) (use assms in auto)
qed

definition bought_fit :: "chain_io \<Rightarrow> market \<Rightarrow> string \<Rightarrow> bool \<Rightarrow> history \<Rightarrow> bool" where
  "bought_fit c m planId proxy es \<longleftrightarrow> evs buys es = [] \<or>
      (\<exists>h1 h2 nodes. mk_nodes m h1 planId = ok nodes \<and>
         list_all (buys_among {n \<in> set nodes. fit (c_env c) m proxy (e_signedOnly (c_env c) h2) n}) es)"

lemma smart_run_fit:
  "delta (smart_run c m w p) (\<lambda>_. bought_fit c m (sm_planId p) (sm_proxy p)) (\<lambda>_. bought_fit c m (sm_planId p) (sm_proxy p))"
proof -
  let ?B = "bought_fit c m (sm_planId p) (sm_proxy p)"
  have n: "?B []" by (simp add: bought_fit_def)
  have l: "delta (ladder c w p (fst (smart_ranking (c_env c) m (sm_proxy p) (e_signedOnly (c_env c) h2) nodes))
        (sm_subscriptionId p) 0 []) (\<lambda>_. ?B) (\<lambda>_. ?B)" if "mk_nodes m h1 (sm_planId p) = ok nodes" for h1 h2 nodes
  proof -
    let ?xs = "fst (smart_ranking (c_env c) m (sm_proxy p) (e_signedOnly (c_env c) h2) nodes)"
    let ?N = "{n \<in> set nodes. fit (c_env c) m (sm_proxy p) (e_signedOnly (c_env c) h2) n}"
    have "pn_address ` set ?xs \<subseteq> ?N" using ranking_fit by blast
    then have "adds (buys_among ?N) (ladder c w p ?xs (sm_subscriptionId p) 0 [])"
      by (intro adds_weaken [OF adds_ladder]) (auto simp: buys_among_def split: event.splits)
    then show ?thesis
      by (rule delta_weaken [OF delta_adds]) (use that in \<open>auto simp: bought_fit_def\<close>)
  qed
  show ?thesis
    unfolding smart_run_def with_flow_def
    apply (rule delta_silent [OF adds_silent(4)])
    apply (rule delta_silent [OF adds_guards(2)])
    apply (rule delta_silent [OF adds_guards(1)])
    apply (rule delta_answered)
    apply (intro delta_if delta_raise n delta_told)
    apply (auto simp: case_prod_beta Let_def intro!: delta_raise n l)
    done
qed

text \<open>
  C6. Every session a smart connect opens is at a node of the plan that the directory lists as active
  and healthy with an API address, whose protocol this machine can run (in local-proxy mode, when
  that is asked for), and which signs its replies when only such nodes are allowed.
\<close>

theorem smart_buys_fit_nodes:
  "\<exists>es. snd (snd (plan_smart_connect c m wallet rows params b h)) = h @ es \<and>
     (evs buys es = [] \<or>
      (\<exists>h1 h2 nodes. mk_nodes m h1 (str_of ''planId'' params) = ok nodes \<and>
         list_all (buys_among {n \<in> set nodes. fit (c_env c) m (jget ''requireProxyCapable'' params = JBool True)
            (e_signedOnly (c_env c) h2) n}) es))"
proof (cases "check_smart params = Inr () \<and> wallet \<noteq> None \<and> assertNotConnected ''starting a new connection'' b = Inr ()")
  case True
  then obtain w where w: "wallet = Some w" by auto
  obtain es where "snd (smart_run c m w (smart_of params) h) = h @ es"
    "bought_fit c m (sm_planId (smart_of params)) (sm_proxy (smart_of params)) es"
    using deltaD [OF smart_run_fit] by (metis (mono_tags, lifting) sum.case_eq_if)
  with True w show ?thesis
    by (intro exI [of _ es])
      (auto simp: plan_smart_connect_def smart_of_def bought_fit_def split: sum.splits prod.splits)
next
  case False
  then have "\<exists>e. plan_smart_connect c m wallet rows params b h = (Inl e, b, h)"
    by (auto simp: plan_smart_connect_def split: sum.splits option.splits)
  then show ?thesis by auto
qed

section \<open>A plan to evaluate the theorems on\<close>

text \<open>Two nodes of a plan that answer no handshake; every transaction lands and names its subscription.\<close>

definition sample_chain :: chain_io where
  "sample_chain = \<lparr>c_env = sample_env, c_balances = (\<lambda>_ _. None), c_p2p = show_int, c_p2pCeil = show_int,
     c_rpcEndpoint = (\<lambda>_. []), c_connect = (\<lambda>_. ok ()), c_height = (\<lambda>_. ok 100), c_node = (\<lambda>_ _. throw ''down''),
     c_send = (\<lambda>_ _ _ _. Included \<lparr>tx_code = 0, tx_rawLog = None, tx_events = [\<lparr>ce_type = ''session'', ce_attributes = []\<rparr>]\<rparr>),
     c_nodeSessionType = ''node'', c_nodeSession = (\<lambda>_. Some ''1''), c_subSessionType = ''session'',
     c_subSession = (\<lambda>_. (Some ''1'', Some ''7'')), c_subCreateType = ''create'', c_subCreate = (\<lambda>_. None)\<rparr>"

definition sample_market :: market where
  "sample_market = \<lparr>mk_nodes = (\<lambda>_ _. ok [''n'', ''o'']),
     mk_row = (\<lambda>_. Some \<lparr>nr_moniker = ''n'', nr_country = ''c'', nr_type = 4, nr_api = ''u'', nr_isActive = True,
       nr_isHealthy = True, nr_version = ''9.4.0''\<rparr>),
     mk_cached = (\<lambda>_. None), mk_now = 0, mk_canEscalate = True, mk_probed = (\<lambda>_. None), mk_systemReady = (\<lambda>_. ok ()),
     mk_plans = []\<rparr>"

lemma sample_names: "names_subscriptions sample_chain"
  by (auto simp: names_subscriptions_def planned_session_def sample_chain_def split: option.splits)

lemma plan_price_once_witness:
  "length (evs plan_charges (snd (snd (plan_smart_connect sample_chain sample_market
      (Some \<lparr>wk_account = ''a'', wk_privKey = []\<rparr>) (\<lambda>_. None)
      (JObj [(''planId'', JStr ''3''), (''denom'', JStr ''udvpn'')]) empty_book [])))) \<le> 1"
  using plan_price_once [OF sample_names, of "[]" sample_market "Some \<lparr>wk_account = ''a'', wk_privKey = []\<rparr>" "\<lambda>_. None"
    "JObj [(''planId'', JStr ''3''), (''denom'', JStr ''udvpn'')]" empty_book]
  by simp

end
