(* ===== verification/SeedGroups.thy ===== *)
theory SeedGroups
  imports Prelude
begin

text \<open>
  Which stored wallets share a seed phrase (\<open>src/shared/seed-groups.ts\<close>): \<open>assignSeedGroups\<close> names each
  phrase after the first wallet that holds it, \<open>groupWalletsBySeed\<close> turns the names into display groups.
  The phrase of a wallet is an argument; \<open>None\<close> is one that cannot be decrypted.
\<close>

section \<open>The code\<close>

text \<open>\<open>s.trim().split(/\s+/).join(' ')\<close>.\<close>

function split_ws :: "string \<Rightarrow> string list" where
  "split_ws s =
     (case dropWhile (\<lambda>c. \<not> is_ws c) s of
        [] \<Rightarrow> [s]
      | rest \<Rightarrow> takeWhile (\<lambda>c. \<not> is_ws c) s # split_ws (dropWhile is_ws rest))"
  by pat_completeness auto
termination
proof (relation "measure length", simp)
  fix s :: string and c cs
  assume a: "dropWhile (\<lambda>c. \<not> is_ws c) s = c # cs"
  then have "is_ws c" by (metis dropWhile_eq_Cons_conv)
  then have "length (dropWhile is_ws (c # cs)) \<le> length cs" by (simp add: length_dropWhile_le)
  also have "\<dots> < length s" using a by (metis length_dropWhile_le Suc_le_lessD length_Cons)
  finally show "(dropWhile is_ws (c # cs), s) \<in> measure length" by simp
qed

declare split_ws.simps [simp del]

definition normalizedPhrase :: "(string \<Rightarrow> string option) \<Rightarrow> string \<Rightarrow> string option" where
  "normalizedPhrase readMnemonic i = map_option (\<lambda>m. join '' '' (split_ws (trim m))) (readMnemonic i)"

text \<open>\<open>assignSeedGroups\<close>: each entry with its group, which is \<open>None\<close> exactly when it cannot be unlocked;
  \<open>seen\<close> is the map from phrases to first ids.\<close>

fun assign_from ::
  "(string \<Rightarrow> string option) \<Rightarrow> ('a \<Rightarrow> string) \<Rightarrow> (string \<rightharpoonup> string) \<Rightarrow> 'a list \<Rightarrow> ('a \<times> string option) list" where
  "assign_from phrase ident seen [] = []"
| "assign_from phrase ident seen (e # es) =
     (case phrase (ident e) of
        None \<Rightarrow> (e, None) # assign_from phrase ident seen es
      | Some p \<Rightarrow>
          let g = (case seen p of Some i \<Rightarrow> i | None \<Rightarrow> ident e)
          in (e, Some g) # assign_from phrase ident (seen(p \<mapsto> g)) es)"

definition assignSeedGroups ::
  "(string \<Rightarrow> string option) \<Rightarrow> ('a \<Rightarrow> string) \<Rightarrow> 'a list \<Rightarrow> ('a \<times> string option) list" where
  "assignSeedGroups readMnemonic ident entries = assign_from (normalizedPhrase readMnemonic) ident Map.empty entries"

record 'a seed_group =
  sg_key :: string
  sg_label :: string
  sg_members :: "'a list"

fun add_to_group :: "string \<Rightarrow> 'a \<Rightarrow> 'a seed_group list \<Rightarrow> 'a seed_group list option" where
  "add_to_group g x [] = None"
| "add_to_group g x (s # ss) =
     (if sg_key s = g then Some (s\<lparr>sg_members := sg_members s @ [x]\<rparr> # ss)
      else map_option (\<lambda>t. s # t) (add_to_group g x ss))"

definition group_step ::
  "'a \<times> string option \<Rightarrow> 'a seed_group list \<times> 'a list \<Rightarrow> 'a seed_group list \<times> 'a list" where
  "group_step w st = (case w of
      (x, None) \<Rightarrow> (fst st, snd st @ [x])
    | (x, Some g) \<Rightarrow>
        (case add_to_group g x (fst st) of
           Some groups \<Rightarrow> (groups, snd st)
         | None \<Rightarrow> (fst st @ [\<lparr>sg_key = g, sg_label = ''Seed '' @ show_nat (length (fst st) + 1), sg_members = [x]\<rparr>], snd st)))"

definition groupWalletsBySeed :: "('a \<times> string option) list \<Rightarrow> 'a seed_group list \<times> 'a list" where
  "groupWalletsBySeed wallets = fold group_step wallets ([], [])"

section \<open>Groups are phrases\<close>

text \<open>The first wallet of a list that holds a phrase.\<close>

definition first_with :: "(string \<Rightarrow> string option) \<Rightarrow> ('a \<Rightarrow> string) \<Rightarrow> string \<Rightarrow> 'a list \<Rightarrow> string option" where
  "first_with phrase ident p es = map_option ident (find (\<lambda>e. phrase (ident e) = Some p) es)"

lemma first_with_simps [simp]:
  "first_with phrase ident p [] = None"
  "first_with phrase ident p (e # es) = (if phrase (ident e) = Some p then Some (ident e) else first_with phrase ident p es)"
  by (simp_all add: first_with_def)

lemma assign_from_eq:
  "assign_from phrase ident seen es =
     map (\<lambda>e. (e, Option.bind (phrase (ident e)) (\<lambda>p. case seen p of Some i \<Rightarrow> Some i | None \<Rightarrow> first_with phrase ident p es))) es"
proof (induction es arbitrary: seen)
  case (Cons e es)
  show ?case
  proof (cases "phrase (ident e)")
    case None
    then have "first_with phrase ident q (e # es) = first_with phrase ident q es" for q by simp
    with None show ?thesis by (simp only: assign_from.simps Cons.IH option.case list.map) simp
  next
    case (Some p)
    let ?g = "case seen p of Some i \<Rightarrow> i | None \<Rightarrow> ident e"
    have "(case (seen(p \<mapsto> ?g)) q of Some i \<Rightarrow> Some i | None \<Rightarrow> first_with phrase ident q es) =
        (case seen q of Some i \<Rightarrow> Some i | None \<Rightarrow> first_with phrase ident q (e # es))" for q
      using Some by (auto split: option.splits)
    with Cons.IH Some show ?thesis by (auto simp: Let_def split: option.splits)
  qed
qed simp

lemma assignSeedGroups_eq:
  "assignSeedGroups readMnemonic ident es =
     map (\<lambda>e. (e, Option.bind (normalizedPhrase readMnemonic (ident e))
       (\<lambda>p. first_with (normalizedPhrase readMnemonic) ident p es))) es"
  by (simp add: assignSeedGroups_def assign_from_eq)

lemma first_with_mem: "e \<in> set es \<Longrightarrow> phrase (ident e) = Some p \<Longrightarrow>
    \<exists>e' \<in> set es. first_with phrase ident p es = Some (ident e') \<and> phrase (ident e') = Some p"
  by (induction es) auto

text \<open>Two unlockable wallets are in the same group exactly when they hold the same phrase, and the name of a
  group is the id of its first wallet.\<close>

lemma group_of_entry:
  assumes "(e, g) \<in> set (assignSeedGroups readMnemonic ident es)"
  shows "g = None \<longleftrightarrow> normalizedPhrase readMnemonic (ident e) = None"
    and "g = Some i \<Longrightarrow> \<exists>e' \<in> set es. ident e' = i \<and>
       normalizedPhrase readMnemonic i = normalizedPhrase readMnemonic (ident e) \<and> normalizedPhrase readMnemonic i \<noteq> None"
proof -
  let ?ph = "normalizedPhrase readMnemonic"
  have g: "e \<in> set es" "g = Option.bind (?ph (ident e)) (\<lambda>p. first_with ?ph ident p es)"
    using assms by (auto simp: assignSeedGroups_eq)
  show "g = None \<longleftrightarrow> ?ph (ident e) = None"
  proof (cases "?ph (ident e)")
    case (Some p)
    with first_with_mem [of e es ?ph ident p] g show ?thesis by auto
  qed (use g in simp)
  show "\<exists>e' \<in> set es. ident e' = i \<and> ?ph i = ?ph (ident e) \<and> ?ph i \<noteq> None" if "g = Some i"
  proof (cases "?ph (ident e)")
    case None
    with g that show ?thesis by simp
  next
    case (Some p)
    with first_with_mem [of e es ?ph ident p] g that show ?thesis by auto
  qed
qed

lemma same_group:
  assumes "(e, Some g) \<in> set (assignSeedGroups readMnemonic ident es)"
    and "(e', Some g') \<in> set (assignSeedGroups readMnemonic ident es)"
  shows "g = g' \<longleftrightarrow> normalizedPhrase readMnemonic (ident e) = normalizedPhrase readMnemonic (ident e')"
proof
  assume "g = g'"
  then show "normalizedPhrase readMnemonic (ident e) = normalizedPhrase readMnemonic (ident e')"
    using group_of_entry(2) [OF assms(1) refl] group_of_entry(2) [OF assms(2) refl] by auto
next
  assume "normalizedPhrase readMnemonic (ident e) = normalizedPhrase readMnemonic (ident e')"
  moreover have "Some g = Option.bind (normalizedPhrase readMnemonic (ident e)) (\<lambda>p. first_with (normalizedPhrase readMnemonic) ident p es)"
    "Some g' = Option.bind (normalizedPhrase readMnemonic (ident e')) (\<lambda>p. first_with (normalizedPhrase readMnemonic) ident p es)"
    using assms by (auto simp: assignSeedGroups_eq)
  ultimately have "Some g = Some g'" by metis
  then show "g = g'" by simp
qed

section \<open>The display groups\<close>

lemma add_to_group_None: "add_to_group g x ss = None \<longleftrightarrow> g \<notin> sg_key ` set ss"
  by (induction ss) auto

lemma add_to_group_map:
  assumes "distinct ks" and "\<And>n k. sg_key (F n k) = k"
  shows "add_to_group g x (map (\<lambda>(n, k). F n k) (enumerate m ks)) =
    (if g \<in> set ks then Some (map (\<lambda>(n, k). if k = g then (F n k)\<lparr>sg_members := sg_members (F n k) @ [x]\<rparr> else F n k) (enumerate m ks))
     else None)"
  using assms(1)
proof (induction ks arbitrary: m)
  case (Cons k ks)
  have other: "k' = g \<Longrightarrow> (n, k') \<notin> set (enumerate j ks)" if "g \<notin> set ks" for n k' j
    using that by (metis in_set_zip enumerate_eq_zip nth_mem snd_conv)
  show ?case
  proof (cases "k = g")
    case True
    with Cons.prems have "g \<notin> set ks" by simp
    then have "map (\<lambda>(n, k). if k = g then (F n k)\<lparr>sg_members := sg_members (F n k) @ [x]\<rparr> else F n k) (enumerate (Suc m) ks) =
        map (\<lambda>(n, k). F n k) (enumerate (Suc m) ks)"
      using other by (intro map_cong) auto
    with True show ?thesis by (simp add: assms(2))
  next
    case False
    with Cons show ?thesis by (simp add: assms(2))
  qed
qed simp

definition firsts :: "('a \<times> string option) list \<Rightarrow> string list" where
  "firsts ws = rev (remdups (rev [g. (_, Some g) \<leftarrow> ws]))"

definition members :: "('a \<times> string option) list \<Rightarrow> string \<Rightarrow> 'a list" where
  "members ws g = [x. (x, Some g') \<leftarrow> ws, g' = g]"

definition display_group :: "('a \<times> string option) list \<Rightarrow> nat \<Rightarrow> string \<Rightarrow> 'a seed_group" where
  "display_group ws n g = \<lparr>sg_key = g, sg_label = ''Seed '' @ show_nat (n + 1), sg_members = members ws g\<rparr>"

text \<open>Every group once, in the order of its first wallet, numbered from 1, with its wallets in order.\<close>

lemma groupWalletsBySeed_eq:
  "groupWalletsBySeed ws =
     (map (\<lambda>(n, g). display_group ws n g) (enumerate 0 (firsts ws)), [x. (x, None) \<leftarrow> ws])"
proof (induction ws rule: rev_induct)
  case Nil
  show ?case by (simp add: groupWalletsBySeed_def firsts_def)
next
  case (snoc w ws)
  have ih: "fold group_step ws ([], []) = (map (\<lambda>(n, g). display_group ws n g) (enumerate 0 (firsts ws)), [x. (x, None) \<leftarrow> ws])"
    using snoc.IH by (simp add: groupWalletsBySeed_def)
  obtain x gr where w: "w = (x, gr)" by (cases w)
  show ?case
  proof (cases gr)
    case None
    have "members (ws @ [w]) g = members ws g" for g by (simp add: members_def w None)
    then have "display_group (ws @ [w]) n g = display_group ws n g" for n g by (simp add: display_group_def)
    then show ?thesis by (simp add: groupWalletsBySeed_def ih group_step_def w None firsts_def)
  next
    case (Some g)
    have mem: "members (ws @ [w]) k = (if k = g then members ws k @ [x] else members ws k)" for k
      by (auto simp: members_def w Some)
    have add: "add_to_group g x (map (\<lambda>(n, k). display_group ws n k) (enumerate 0 (firsts ws))) =
      (if g \<in> set (firsts ws) then Some (map (\<lambda>(n, k). display_group (ws @ [w]) n k) (enumerate 0 (firsts ws))) else None)"
      by (subst add_to_group_map) (auto simp: firsts_def display_group_def mem intro!: map_cong)
    show ?thesis
    proof (cases "g \<in> set (firsts ws)")
      case True
      then have "firsts (ws @ [w]) = firsts ws" by (simp add: firsts_def w Some)
      with True show ?thesis by (simp add: groupWalletsBySeed_def ih group_step_def w Some add)
    next
      case False
      have f: "firsts (ws @ [w]) = firsts ws @ [g]" using False by (simp add: firsts_def w Some)
      have none: "members ws g = []" using False by (auto simp: firsts_def members_def split: option.split)
      have same: "map (\<lambda>(n, k). display_group (ws @ [w]) n k) (enumerate 0 (firsts ws)) =
          map (\<lambda>(n, k). display_group ws n k) (enumerate 0 (firsts ws))"
        using False by (intro map_cong) (auto simp: display_group_def mem in_set_enumerate_eq)
      have new: "display_group (ws @ [w]) (length (firsts ws)) g =
          \<lparr>sg_key = g, sg_label = ''Seed '' @ show_nat (length (firsts ws) + 1), sg_members = [x]\<rparr>"
        by (simp add: display_group_def mem none)
      show ?thesis
        using False f same new
        by (simp add: groupWalletsBySeed_def ih group_step_def w Some add enumerate_append_eq)
    qed
  qed
qed

section \<open>The display shows the phrases\<close>

definition group_name :: "(string \<Rightarrow> string option) \<Rightarrow> ('a \<Rightarrow> string) \<Rightarrow> 'a list \<Rightarrow> 'a \<Rightarrow> string option" where
  "group_name readMnemonic ident es e = Option.bind (normalizedPhrase readMnemonic (ident e))
     (\<lambda>p. first_with (normalizedPhrase readMnemonic) ident p es)"

lemma assign_named: "assignSeedGroups readMnemonic ident es = map (\<lambda>e. (e, group_name readMnemonic ident es e)) es"
  by (simp add: assignSeedGroups_eq group_name_def)

lemma members_named:
  "members (assignSeedGroups readMnemonic ident es) g = filter (\<lambda>e. group_name readMnemonic ident es e = Some g) es"
proof -
  have "members (map (\<lambda>e. (e, f e)) xs) g = filter (\<lambda>e. f e = Some g) xs" for f :: "'a \<Rightarrow> string option" and xs
    by (induction xs) (auto simp: members_def split: option.splits)
  then show ?thesis by (simp add: assign_named)
qed

lemma locked_named:
  "[x. (x, None) \<leftarrow> assignSeedGroups readMnemonic ident es] = filter (\<lambda>e. normalizedPhrase readMnemonic (ident e) = None) es"
proof -
  have "[x. (x, None) \<leftarrow> map (\<lambda>e. (e, f e)) xs] = filter (\<lambda>e. f e = None) xs" for f :: "'a \<Rightarrow> string option" and xs
    by (induction xs) (auto split: option.splits)
  moreover have "group_name readMnemonic ident es e = None \<longleftrightarrow> normalizedPhrase readMnemonic (ident e) = None" if "e \<in> set es" for e
    using group_of_entry(1) [of e "group_name readMnemonic ident es e" readMnemonic ident es] that by (auto simp: assign_named)
  ultimately show ?thesis by (simp add: assign_named cong: filter_cong)
qed

lemma group_names_phrase:
  assumes "g \<in> set (firsts (assignSeedGroups readMnemonic ident es))"
  shows "\<exists>p. normalizedPhrase readMnemonic g = Some p \<and> (\<exists>e \<in> set es. normalizedPhrase readMnemonic (ident e) = Some p) \<and>
    (\<forall>e \<in> set es. group_name readMnemonic ident es e = Some g \<longleftrightarrow> normalizedPhrase readMnemonic (ident e) = Some p)"
proof -
  obtain e where e: "e \<in> set es" "group_name readMnemonic ident es e = Some g"
    using assms by (auto simp: firsts_def assign_named split: option.splits)
  let ?ws = "assignSeedGroups readMnemonic ident es"
  have m: "(x, group_name readMnemonic ident es x) \<in> set ?ws" if "x \<in> set es" for x using that by (simp add: assign_named)
  from group_of_entry(2) [OF m [OF e(1)] e(2)] group_of_entry(1) [OF m [OF e(1)]] e(2)
  obtain p where p: "normalizedPhrase readMnemonic g = Some p" "normalizedPhrase readMnemonic (ident e) = Some p"
    by (metis not_None_eq option.distinct(1))
  have "group_name readMnemonic ident es x = Some g \<longleftrightarrow> normalizedPhrase readMnemonic (ident x) = Some p" if x: "x \<in> set es" for x
  proof
    assume "group_name readMnemonic ident es x = Some g"
    then show "normalizedPhrase readMnemonic (ident x) = Some p" using group_of_entry(2) [OF m [OF x]] p by metis
  next
    assume h: "normalizedPhrase readMnemonic (ident x) = Some p"
    then have "group_name readMnemonic ident es x = group_name readMnemonic ident es e" using p by (simp add: group_name_def)
    with e show "group_name readMnemonic ident es x = Some g" by simp
  qed
  with p e show ?thesis by blast
qed

lemma group_phrases_inj:
  "inj_on (\<lambda>g. the (normalizedPhrase readMnemonic g)) (set (firsts (assignSeedGroups readMnemonic ident es)))"
proof (rule inj_onI)
  let ?ph = "normalizedPhrase readMnemonic" and ?gs = "firsts (assignSeedGroups readMnemonic ident es)"
  fix g g' assume g: "g \<in> set ?gs" "g' \<in> set ?gs" "the (?ph g) = the (?ph g')"
  from group_names_phrase [OF g(1)] obtain p e where p: "?ph g = Some p" and e: "e \<in> set es" "?ph (ident e) = Some p"
    and n: "\<forall>e \<in> set es. group_name readMnemonic ident es e = Some g \<longleftrightarrow> ?ph (ident e) = Some p" by blast
  from group_names_phrase [OF g(2)] obtain p' where p': "?ph g' = Some p'"
    and n': "\<forall>e \<in> set es. group_name readMnemonic ident es e = Some g' \<longleftrightarrow> ?ph (ident e) = Some p'" by blast
  have "p = p'" using g(3) p p' by simp
  then have "group_name readMnemonic ident es e = Some g" "group_name readMnemonic ident es e = Some g'"
    using n n' e by blast+
  then show "g = g'" by simp
qed

lemma group_phrases_set:
  "set (map (\<lambda>g. the (normalizedPhrase readMnemonic g)) (firsts (assignSeedGroups readMnemonic ident es))) =
     {p. \<exists>e \<in> set es. normalizedPhrase readMnemonic (ident e) = Some p}"
    (is "set (map ?the (firsts ?ws)) = ?P")
proof (intro equalityI subsetI)
  fix p assume "p \<in> set (map ?the (firsts ?ws))"
  then obtain g where g: "g \<in> set (firsts ?ws)" "p = ?the g" by auto
  from group_names_phrase [OF g(1)] g(2) show "p \<in> ?P" by auto
next
  fix p assume "p \<in> ?P"
  then obtain e where e: "e \<in> set es" "normalizedPhrase readMnemonic (ident e) = Some p" by blast
  have "group_name readMnemonic ident es e \<noteq> None"
    using group_of_entry(1) [of e "group_name readMnemonic ident es e" readMnemonic ident es] e by (auto simp: assign_named)
  then obtain g where g: "group_name readMnemonic ident es e = Some g" by blast
  then have gin: "g \<in> set (firsts ?ws)" using e by (force simp: firsts_def assign_named split: option.splits)
  from group_names_phrase [OF gin] g e have "normalizedPhrase readMnemonic g = Some p" by auto
  then have "p = ?the g" by simp
  with gin show "p \<in> set (map ?the (firsts ?ws))" by (simp add: image_iff) (metis)
qed

lemma members_of_phrase:
  assumes "g \<in> set (firsts (assignSeedGroups readMnemonic ident es))"
  shows "members (assignSeedGroups readMnemonic ident es) g =
    filter (\<lambda>e. normalizedPhrase readMnemonic (ident e) = Some (the (normalizedPhrase readMnemonic g))) es"
proof -
  from group_names_phrase [OF assms] obtain p where "normalizedPhrase readMnemonic g = Some p"
    and "\<forall>e \<in> set es. group_name readMnemonic ident es e = Some g \<longleftrightarrow> normalizedPhrase readMnemonic (ident e) = Some p"
    by blast
  then show ?thesis by (simp add: members_named cong: filter_cong)
qed

lemma display_members: "map sg_members (map (\<lambda>(n, g). display_group ws n g) (enumerate k gs)) = map (members ws) gs"
  by (induction gs arbitrary: k) (auto simp: display_group_def)

lemma display_labels: "map sg_label (map (\<lambda>(n, g). display_group ws n g) (enumerate k gs)) =
    map (\<lambda>n. ''Seed '' @ show_nat n) [Suc k..<Suc (k + length gs)]"
  by (rule nth_equalityI) (simp_all add: nth_enumerate_eq display_group_def del: upt_Suc)

text \<open>
  C40. The wallet list (\<open>assignSeedGroups\<close>, then \<open>groupWalletsBySeed\<close>) shows one group per seed phrase: the
  members of each group are exactly the stored wallets that hold one phrase, compared trimmed and
  single-spaced, in their order; every phrase has one group, numbered from 1; and the wallets whose
  phrase cannot be decrypted are listed apart.
\<close>

theorem seeds_grouped_by_phrase:
  "\<exists>ps. distinct ps \<and> set ps = {p. \<exists>e \<in> set es. normalizedPhrase readMnemonic (ident e) = Some p} \<and>
     map sg_members (fst (groupWalletsBySeed (assignSeedGroups readMnemonic ident es))) =
       map (\<lambda>p. filter (\<lambda>e. normalizedPhrase readMnemonic (ident e) = Some p) es) ps \<and>
     map sg_label (fst (groupWalletsBySeed (assignSeedGroups readMnemonic ident es))) =
       map (\<lambda>n. ''Seed '' @ show_nat n) [1..<Suc (length ps)] \<and>
     snd (groupWalletsBySeed (assignSeedGroups readMnemonic ident es)) =
       filter (\<lambda>e. normalizedPhrase readMnemonic (ident e) = None) es"
proof -
  let ?ws = "assignSeedGroups readMnemonic ident es" and ?ph = "normalizedPhrase readMnemonic"
  let ?ps = "map (\<lambda>g. the (?ph g)) (firsts ?ws)"
  have "distinct (firsts ?ws)" by (simp add: firsts_def)
  then have d: "distinct ?ps" unfolding distinct_map using group_phrases_inj by (rule conjI)
  have groups: "fst (groupWalletsBySeed ?ws) = map (\<lambda>(n, g). display_group ?ws n g) (enumerate 0 (firsts ?ws))"
    and locked: "snd (groupWalletsBySeed ?ws) = filter (\<lambda>e. ?ph (ident e) = None) es"
    by (simp_all add: groupWalletsBySeed_eq locked_named)
  have mem: "map sg_members (fst (groupWalletsBySeed ?ws)) = map (\<lambda>p. filter (\<lambda>e. ?ph (ident e) = Some p) es) ?ps"
    unfolding groups display_members by (simp add: members_of_phrase cong: map_cong)
  have lab: "map sg_label (fst (groupWalletsBySeed ?ws)) = map (\<lambda>n. ''Seed '' @ show_nat n) [1..<Suc (length ?ps)]"
    unfolding groups display_labels by simp
  show ?thesis using d group_phrases_set mem lab locked by blast
qed

end
