(* ===== verification/Vault.thy ===== *)
theory Vault
  imports SessionBook Validate SeedGroups NetGuard
begin

text \<open>
  The wallet store and the settings: \<open>src/main/settings.ts\<close>, the key handling of \<open>src/main/chain/wallet.ts\<close>
  and the wallet and settings handlers of \<open>src/main/ipc-handlers.ts\<close>.

  The files of the profile are a record \<open>disk\<close>; the app holds the current one, the list of the disks it has
  gone through (one per write, so that a crash between two writes is an element of it), the wallet it has
  loaded, and the answers it caches. A write either happens or the process is gone; the keyring, the key
  derivation and the fresh identifiers are arguments.
\<close>

section \<open>The files\<close>

text \<open>A JSON file that may be missing or unreadable (\<open>existsSync\<close>, and \<open>JSON.parse\<close> in a \<open>try\<close>).\<close>

datatype 'a stored = Missing | Unreadable | Holds 'a

record wallet_entry =
  we_id :: string
  we_name :: string
  we_address :: string
  we_account :: "int option"
  we_addressIndex :: "int option"
  we_provider :: "bool option"

text \<open>\<open>d_seeds\<close> are the encrypted phrases \<open>wallets/<id>.enc\<close> by id, \<open>d_legacy\<close> the \<open>wallet.enc\<close> of the
  single-wallet versions.\<close>

record disk =
  d_index :: "wallet_entry list stored"
  d_seeds :: "string \<rightharpoonup> string"
  d_settings :: "js stored"
  d_legacy :: "string option"

text \<open>What the process holds: the loaded wallet with its phrase, path, key and entry, the session book, and
  the cached balance and overviews.\<close>

record loaded =
  l_phrase :: string
  l_path :: string
  l_address :: string
  l_key :: string
  l_wallet :: string

record vault =
  v_disk :: disk
  v_past :: "disk list"
  v_loaded :: "loaded option"
  v_book :: book
  v_balance :: js
  v_planOverview :: js
  v_providerOverview :: js

text \<open>\<open>safeStorage\<close>: whether encryption is available, the backend (\<open>None\<close> where asking throws), and the
  cipher.\<close>

record keyring =
  k_available :: bool
  k_backend :: "string option"
  k_encrypt :: "string \<Rightarrow> string"
  k_decrypt :: "string \<Rightarrow> string option"

text \<open>\<open>DirectSecp256k1HdWallet.fromMnemonic\<close> gives the normalised phrase and the address of a phrase at a
  path, \<open>derivePrivKey\<close> the private key; both may throw.\<close>

record derivation =
  fromMnemonic :: "string \<Rightarrow> string \<Rightarrow> (string \<times> string) result"
  derivePrivKey :: "string \<Rightarrow> string \<Rightarrow> string result"

section \<open>Runs\<close>

type_synonym 'a act = "vault \<Rightarrow> 'a result \<times> vault"

definition give :: "'a \<Rightarrow> 'a act" where
  "give x v = (Inr x, v)"

definition from_result :: "'a result \<Rightarrow> 'a act" where
  "from_result r v = (r, v)"

definition then_act :: "'a act \<Rightarrow> ('a \<Rightarrow> 'b act) \<Rightarrow> 'b act" where
  "then_act m k v = (case m v of (Inl e, v') \<Rightarrow> (Inl e, v') | (Inr x, v') \<Rightarrow> k x v')"

definition read_disk :: "(disk \<Rightarrow> 'a act) \<Rightarrow> 'a act" where
  "read_disk k v = k (v_disk v) v"

definition write_disk :: "(disk \<Rightarrow> disk) \<Rightarrow> unit act" where
  "write_disk f v = (Inr (), v\<lparr>v_disk := f (v_disk v), v_past := v_past v @ [v_disk v]\<rparr>)"

definition in_memory :: "(vault \<Rightarrow> vault) \<Rightarrow> unit act" where
  "in_memory f v = (Inr (), f v)"

text \<open>\<open>try { ... } catch { return d }\<close>.\<close>

definition or_else :: "'a act \<Rightarrow> 'a \<Rightarrow> 'a act" where
  "or_else m d v = (case m v of (Inl e, v') \<Rightarrow> (Inr d, v') | (Inr x, v') \<Rightarrow> (Inr x, v'))"

fun for_each :: "('a \<Rightarrow> unit act) \<Rightarrow> 'a list \<Rightarrow> unit act" where
  "for_each f [] = give ()"
| "for_each f (x # xs) = then_act (f x) (\<lambda>_. for_each f xs)"

named_theorems vault_run \<open>evaluation of wallet store runs\<close>

lemma vault_run_simps [vault_run]:
  "give x v = (Inr x, v)"
  "from_result r v = (r, v)"
  "read_disk k v = k (v_disk v) v"
  "write_disk f v = (Inr (), v\<lparr>v_disk := f (v_disk v), v_past := v_past v @ [v_disk v]\<rparr>)"
  "in_memory g v = (Inr (), g v)"
  by (simp_all add: give_def from_result_def read_disk_def write_disk_def in_memory_def)

lemma then_act_simps [vault_run]:
  "then_act (give x) k v = k x v"
  "then_act (from_result (Inr y)) l v = l y v"
  "then_act (from_result (Inl e)) n v = (Inl e, v)"
  "then_act (write_disk f) u v = u () (v\<lparr>v_disk := f (v_disk v), v_past := v_past v @ [v_disk v]\<rparr>)"
  "then_act (in_memory g) w v = w () (g v)"
  "then_act (read_disk h) z v = then_act (h (v_disk v)) z v"
  by (simp_all add: then_act_def vault_run_simps)

lemma then_act_ok: "then_act m k v = (Inr y, v') \<longleftrightarrow> (\<exists>x v1. m v = (Inr x, v1) \<and> k x v1 = (Inr y, v'))"
  by (auto simp: then_act_def split: prod.splits sum.splits)

lemma vault_ok:
  "from_result r v = (Inr y, v') \<longleftrightarrow> r = Inr y \<and> v' = v" "give x v = (Inr z, v') \<longleftrightarrow> x = z \<and> v' = v"
  "read_disk m v = k \<longleftrightarrow> m (v_disk v) v = k"
  by (auto simp: vault_run_simps)

section \<open>Settings\<close>

definition DEFAULT_SETTINGS :: "(string \<times> js) list" where
  "DEFAULT_SETTINGS =
     [(''rpcEndpoint'', JStr ''https://rpc.sentinel.co:443''), (''rpcMode'', JStr ''auto''),
      (''activeWalletId'', JNull), (''killSwitch'', JBool False), (''lanSharing'', JBool False),
      (''dnsResolver'', JStr ''system''), (''autoReconnect'', JBool False), (''bookmarkedNodes'', JArr []),
      (''splitTunnelRoutes'', JArr [JStr ''10.0.0.0/8'', JStr ''172.16.0.0/12'', JStr ''192.168.0.0/16'']),
      (''signedNodesOnly'', JBool False), (''retainedSeedId'', JNull)]"

text \<open>\<open>{ ...a, ...b }\<close>, and what \<open>JSON.parse(JSON.stringify(x))\<close> keeps of a value.\<close>

definition merged :: "(string \<times> js) list \<Rightarrow> (string \<times> js) list \<Rightarrow> (string \<times> js) list" where
  "merged a b = fold (\<lambda>(k, x). put k x) b a"

fun reread :: "js \<Rightarrow> js" where
  "reread (JNum (NOther s)) =
     (if s = ''NaN'' \<or> s = ''Infinity'' \<or> s = ''-Infinity'' then JNull else JNum (NOther s))"
| "reread (JArr xs) = JArr (map (\<lambda>x. case x of JUndef \<Rightarrow> JNull | _ \<Rightarrow> reread x) xs)"
| "reread (JObj fs) = JObj (map (\<lambda>(k, x). (k, reread x)) (filter (\<lambda>(k, x). x \<noteq> JUndef) fs))"
| "reread x = x"

definition isSecureStorageAvailable :: "keyring \<Rightarrow> bool" where
  "isSecureStorageAvailable k \<longleftrightarrow> k_available k \<and> k_backend k \<noteq> Some ''basic_text''"

definition INSECURE_STORAGE_MESSAGE :: string where
  "INSECURE_STORAGE_MESSAGE =
     ''Secure storage is unavailable: no OS keyring (GNOME Keyring / KWallet) was found, '' @
     ''so the seed phrase can only be stored with reversible encryption. Refusing to save it. '' @
     ''Install and unlock a keyring (e.g. gnome-keyring / libsecret) and try again.''"

definition loadSettings :: "disk \<Rightarrow> (string \<times> js) list" where
  "loadSettings d =
     (case d_settings d of Holds x \<Rightarrow> merged DEFAULT_SETTINGS (Json.fields x) | _ \<Rightarrow> DEFAULT_SETTINGS)"

definition saveSettings :: "(string \<times> js) list \<Rightarrow> js act" where
  "saveSettings settings =
     read_disk (\<lambda>d.
       let m = JObj (merged (loadSettings d) settings) in
       then_act (write_disk (\<lambda>d. d\<lparr>d_settings := Holds (reread m)\<rparr>)) (\<lambda>_. give m))"

definition setting :: "string \<Rightarrow> disk \<Rightarrow> js" where
  "setting key d = jget key (JObj (loadSettings d))"

definition getRpcEndpoint :: "disk \<Rightarrow> js" where
  "getRpcEndpoint d = setting ''rpcEndpoint'' d"

text \<open>The two id settings hold a string or null: nothing else is ever written to them.\<close>

definition id_setting :: "string \<Rightarrow> disk \<Rightarrow> string option" where
  "id_setting key d = (case setting key d of JStr s \<Rightarrow> if s \<noteq> [] then Some s else None | _ \<Rightarrow> None)"

abbreviation active_id :: "disk \<Rightarrow> string option" where
  "active_id \<equiv> id_setting ''activeWalletId''"

abbreviation retained_id :: "disk \<Rightarrow> string option" where
  "retained_id \<equiv> id_setting ''retainedSeedId''"

definition json_id :: "string option \<Rightarrow> js" where
  "json_id i = (case i of None \<Rightarrow> JNull | Some s \<Rightarrow> JStr s)"

section \<open>The wallet index\<close>

definition listWallets :: "disk \<Rightarrow> wallet_entry list" where
  "listWallets d = (case d_index d of Holds ws \<Rightarrow> ws | _ \<Rightarrow> [])"

definition saveWalletIndex :: "wallet_entry list \<Rightarrow> unit act" where
  "saveWalletIndex ws = write_disk (\<lambda>d. d\<lparr>d_index := Holds ws\<rparr>)"

definition write_seed :: "string \<Rightarrow> string \<Rightarrow> unit act" where
  "write_seed i text = write_disk (\<lambda>d. d\<lparr>d_seeds := (d_seeds d)(i \<mapsto> text)\<rparr>)"

text \<open>\<open>if (existsSync(p)) unlinkSync(p)\<close>.\<close>

definition unlink_seed :: "string \<Rightarrow> unit act" where
  "unlink_seed i = read_disk (\<lambda>d.
     if d_seeds d i = None then give () else write_disk (\<lambda>d. d\<lparr>d_seeds := (d_seeds d)(i := None)\<rparr>))"

definition WALLET_EXISTS :: string where
  "WALLET_EXISTS = ''WALLET_EXISTS''"

definition addWalletEntry ::
  "keyring \<Rightarrow> string \<Rightarrow> string \<Rightarrow> string \<Rightarrow> string \<Rightarrow> int \<Rightarrow> int \<Rightarrow> wallet_entry act" where
  "addWalletEntry k uuid name address mnemonic accountIndex addressIndex =
     (if \<not> isSecureStorageAvailable k then from_result (throw INSECURE_STORAGE_MESSAGE)
      else read_disk (\<lambda>d.
        case find (\<lambda>w. we_address w \<noteq> [] \<and> we_address w = address) (listWallets d) of
          Some clash \<Rightarrow> from_result (throw (WALLET_EXISTS @ '':'' @ we_id clash @
            '': That seed is already stored as \"'' @ we_name clash @ ''\".''))
        | None \<Rightarrow>
            let entry = \<lparr>we_id = uuid, we_name = name, we_address = address, we_account = Some accountIndex,
                  we_addressIndex = Some addressIndex, we_provider = None\<rparr>
            in then_act (write_seed uuid (k_encrypt k mnemonic)) (\<lambda>_.
               then_act (read_disk (\<lambda>d. saveWalletIndex (listWallets d @ [entry]))) (\<lambda>_.
               then_act (read_disk (\<lambda>d.
                 if active_id d = None then then_act (saveSettings [(''activeWalletId'', JStr uuid)]) (\<lambda>_. give ())
                 else give ())) (\<lambda>_.
               give entry)))))"

text \<open>\<open>wallets.find\<close> and an assignment to the entry found: the first with the id changes.\<close>

fun update_entry :: "string \<Rightarrow> (wallet_entry \<Rightarrow> wallet_entry) \<Rightarrow> wallet_entry list \<Rightarrow> wallet_entry list option" where
  "update_entry i f [] = None"
| "update_entry i f (w # ws) =
     (if we_id w = i then Some (f w # ws) else map_option (\<lambda>ws'. w # ws') (update_entry i f ws))"

definition updateWalletAddress :: "string \<Rightarrow> string \<Rightarrow> unit act" where
  "updateWalletAddress i address = read_disk (\<lambda>d.
     case update_entry i (\<lambda>w. w\<lparr>we_address := address\<rparr>) (listWallets d) of
       Some ws \<Rightarrow> saveWalletIndex ws
     | None \<Rightarrow> give ())"

definition setWalletProviderMode :: "string \<Rightarrow> bool \<Rightarrow> unit act" where
  "setWalletProviderMode i enabled = read_disk (\<lambda>d.
     case update_entry i (\<lambda>w. w\<lparr>we_provider := Some enabled\<rparr>) (listWallets d) of
       Some ws \<Rightarrow> saveWalletIndex ws
     | None \<Rightarrow> from_result (throw ''Wallet not found''))"

definition renameWallet :: "string \<Rightarrow> string \<Rightarrow> unit act" where
  "renameWallet i newName = read_disk (\<lambda>d.
     case update_entry i (\<lambda>w. w\<lparr>we_name := newName\<rparr>) (listWallets d) of
       Some ws \<Rightarrow> saveWalletIndex ws
     | None \<Rightarrow> from_result (throw ''Wallet not found''))"

definition deleteWalletEntry :: "string \<Rightarrow> bool \<Rightarrow> unit act" where
  "deleteWalletEntry i keepSeed = read_disk (\<lambda>d.
     let filtered = filter (\<lambda>w. we_id w \<noteq> i) (listWallets d) in
     then_act (saveWalletIndex filtered) (\<lambda>_.
     then_act (if keepSeed \<and> filtered = []
               then then_act (saveSettings [(''retainedSeedId'', JStr i)]) (\<lambda>_. give ())
               else unlink_seed i) (\<lambda>_.
     read_disk (\<lambda>d.
       if setting ''activeWalletId'' d = JStr i
       then then_act (saveSettings [(''activeWalletId'',
              case filtered of [] \<Rightarrow> JNull | w # _ \<Rightarrow> JStr (we_id w))]) (\<lambda>_. give ())
       else give ()))))"

definition clearRetainedSeed :: "unit act" where
  "clearRetainedSeed = read_disk (\<lambda>d.
     case retained_id d of
       None \<Rightarrow> give ()
     | Some i \<Rightarrow> then_act (unlink_seed i) (\<lambda>_.
         then_act (saveSettings [(''retainedSeedId'', JNull)]) (\<lambda>_. give ())))"

definition isSeedSource :: "disk \<Rightarrow> string \<Rightarrow> bool" where
  "isSeedSource d i \<longleftrightarrow> list_ex (\<lambda>w. we_id w = i) (listWallets d) \<or> setting ''retainedSeedId'' d = JStr i"

definition LOST_KEY_MESSAGE :: string where
  "LOST_KEY_MESSAGE =
     ''This wallet was saved under the app'' @ [CHR 0x27] @ ''s previous name and can no longer be unlocked. '' @
     ''Remove it and import the same seed phrase again. Your funds are on-chain and unaffected.''"

definition getWalletMnemonic :: "keyring \<Rightarrow> disk \<Rightarrow> string \<Rightarrow> string result" where
  "getWalletMnemonic k d i =
     (if \<not> k_available k then throw ''OS keyring encryption is not available''
      else case d_seeds d i of
        None \<Rightarrow> throw ''Wallet file not found''
      | Some text \<Rightarrow> (case k_decrypt k text of None \<Rightarrow> throw LOST_KEY_MESSAGE | Some m \<Rightarrow> ok m))"

definition canUnlockWallet :: "keyring \<Rightarrow> disk \<Rightarrow> string \<Rightarrow> bool" where
  "canUnlockWallet k d i = accepts (getWalletMnemonic k d i)"

section \<open>Repairs at start-up\<close>

definition of_address :: "string \<Rightarrow> wallet_entry list \<Rightarrow> wallet_entry list" where
  "of_address a ws = filter (\<lambda>w. we_address w = a) ws"

definition survivorId :: "keyring \<Rightarrow> disk \<Rightarrow> wallet_entry list \<Rightarrow> string \<Rightarrow> string" where
  "survivorId k d ws a =
     (case find (\<lambda>w. canUnlockWallet k d (we_id w)) (of_address a ws) of
        Some w \<Rightarrow> we_id w
      | None \<Rightarrow> we_id (hd (of_address a ws)))"

definition kept_entry :: "keyring \<Rightarrow> disk \<Rightarrow> wallet_entry list \<Rightarrow> wallet_entry \<Rightarrow> bool" where
  "kept_entry k d ws w \<longleftrightarrow> we_address w = [] \<or> survivorId k d ws (we_address w) = we_id w"

definition dedupeWalletEntries :: "keyring \<Rightarrow> unit act" where
  "dedupeWalletEntries k = read_disk (\<lambda>d.
     let ws = listWallets d in
     if \<not> list_ex (\<lambda>w. we_address w \<noteq> [] \<and> 1 < length (of_address (we_address w) ws)) ws then give ()
     else
       let kept = filter (kept_entry k d ws) ws;
           dropped = filter (\<lambda>w. \<not> kept_entry k d ws w) ws;
           survivorOf = map_of (rev (map (\<lambda>w. (we_id w, survivorId k d ws (we_address w))) dropped))
       in if dropped = [] then give ()
          else then_act (saveWalletIndex kept) (\<lambda>_.
               then_act (for_each (\<lambda>w. unlink_seed (we_id w)) dropped) (\<lambda>_.
               read_disk (\<lambda>d.
                 case Option.bind (active_id d) survivorOf of
                   Some i \<Rightarrow> then_act (saveSettings [(''activeWalletId'', JStr i)]) (\<lambda>_. give ())
                 | None \<Rightarrow> give ()))))"

definition migrateOldWallet :: "keyring \<Rightarrow> string \<Rightarrow> unit act" where
  "migrateOldWallet k uuid = read_disk (\<lambda>d.
     case d_legacy d of
       None \<Rightarrow> give ()
     | Some text \<Rightarrow>
         if listWallets d \<noteq> [] then write_disk (\<lambda>d. d\<lparr>d_legacy := None\<rparr>)
         else if \<not> isSecureStorageAvailable k then give ()
         else (case k_decrypt k text of
             None \<Rightarrow> give ()
           | Some mnemonic \<Rightarrow>
               then_act (write_seed uuid (k_encrypt k mnemonic)) (\<lambda>_.
               then_act (saveWalletIndex [\<lparr>we_id = uuid, we_name = ''My Wallet'', we_address = [],
                  we_account = None, we_addressIndex = None, we_provider = None\<rparr>]) (\<lambda>_.
               then_act (saveSettings [(''activeWalletId'', JStr uuid)]) (\<lambda>_.
               write_disk (\<lambda>d. d\<lparr>d_legacy := None\<rparr>))))))"

definition quote :: "string \<Rightarrow> string" where
  "quote s = [CHR 0x27] @ s @ [CHR 0x27]"

definition no_in :: "string \<Rightarrow> js \<Rightarrow> 'a result" where
  "no_in key raw = throw (''Cannot use '' @ quote ''in'' @ '' operator to search for '' @ quote key @ '' in '' @ to_string raw)"

definition migrateProviderModeToWallet :: "unit act" where
  "migrateProviderModeToWallet = read_disk (\<lambda>d.
     case d_settings d of
       Holds (JObj fs) \<Rightarrow>
         if \<not> has_key ''providerMode'' (JObj fs) then give ()
         else
           let enabled = (jget ''providerMode'' (JObj fs) = JBool True);
               raw = JObj (filter (\<lambda>(k, x). k \<noteq> ''providerMode'') fs)
           in then_act (write_disk (\<lambda>d. d\<lparr>d_settings := Holds (reread raw)\<rparr>)) (\<lambda>_.
              if \<not> enabled then give ()
              else case as_string (jget ''activeWalletId'' raw) of
                Some i \<Rightarrow> read_disk (\<lambda>d.
                  if i \<noteq> [] \<and> list_ex (\<lambda>w. we_id w = i) (listWallets d) then setWalletProviderMode i True
                  else give ())
              | None \<Rightarrow> give ())
     | Holds (JArr _) \<Rightarrow> give ()
     | Holds raw \<Rightarrow> from_result (no_in ''providerMode'' raw)
     | _ \<Rightarrow> give ())"

definition migrateRpcMode :: "unit act" where
  "migrateRpcMode = read_disk (\<lambda>d.
     case d_settings d of
       Holds (JObj fs) \<Rightarrow>
         if has_key ''rpcMode'' (JObj fs) then give ()
         else (case jget ''rpcEndpoint'' (JObj fs) of
             JStr endpoint \<Rightarrow>
               if JStr endpoint = jget ''rpcEndpoint'' (JObj DEFAULT_SETTINGS) then give ()
               else write_disk (\<lambda>d. d\<lparr>d_settings := Holds (reread (JObj (put ''rpcMode'' (JStr ''manual'') fs)))\<rparr>)
           | _ \<Rightarrow> give ())
     | Holds (JArr _) \<Rightarrow> give ()
     | Holds raw \<Rightarrow> from_result (no_in ''rpcMode'' raw)
     | _ \<Rightarrow> give ())"

text \<open>The profile of the app's previous name. \<open>copied\<close> tells which copies go through: \<open>settings.json\<close>,
  \<open>wallets-index.json\<close>, and each seed file by its id. The session records are not part of the store.\<close>

definition migrateLegacyUserData :: "disk \<Rightarrow> (string \<Rightarrow> bool) \<Rightarrow> unit act" where
  "migrateLegacyUserData old copied = read_disk (\<lambda>d.
     if d_index d \<noteq> Missing \<or> d_index old = Missing then give ()
     else
       then_act (if d_settings old \<noteq> Missing \<and> copied ''settings.json''
                 then write_disk (\<lambda>d. d\<lparr>d_settings := d_settings old\<rparr>) else give ()) (\<lambda>_.
       then_act (if copied ''wallets-index.json'' then write_disk (\<lambda>d. d\<lparr>d_index := d_index old\<rparr>) else give ()) (\<lambda>_.
       write_disk (\<lambda>d. d\<lparr>d_seeds := (\<lambda>i. if d_seeds old i \<noteq> None \<and> copied i then d_seeds old i else d_seeds d i)\<rparr>))))"

section \<open>The loaded wallet\<close>

definition COSMOS_COIN_TYPE :: int where
  "COSMOS_COIN_TYPE = 118"

definition formatHdPath :: "int \<Rightarrow> int \<Rightarrow> string" where
  "formatHdPath accountIndex addressIndex =
     ''m/44'' @ [CHR 0x27] @ ''/'' @ show_int COSMOS_COIN_TYPE @ [CHR 0x27] @ ''/'' @ show_int accountIndex @
     [CHR 0x27] @ ''/0/'' @ show_int addressIndex"

definition entry_path :: "wallet_entry option \<Rightarrow> string" where
  "entry_path e =
     formatHdPath (case Option.bind e we_account of None \<Rightarrow> 0 | Some i \<Rightarrow> i)
       (case Option.bind e we_addressIndex of None \<Rightarrow> 0 | Some i \<Rightarrow> i)"

definition entry_of :: "string \<Rightarrow> disk \<Rightarrow> wallet_entry option" where
  "entry_of i d = find (\<lambda>w. we_id w = i) (listWallets d)"

definition load :: "string \<Rightarrow> string \<Rightarrow> string \<Rightarrow> string \<Rightarrow> string \<Rightarrow> unit act" where
  "load phrase path address key i = in_memory (\<lambda>v. v\<lparr>v_loaded :=
     Some \<lparr>l_phrase = phrase, l_path = path, l_address = address, l_key = key, l_wallet = i\<rparr>\<rparr>)"

definition hasStoredWallet :: "keyring \<Rightarrow> string \<Rightarrow> bool act" where
  "hasStoredWallet k uuid =
     then_act (migrateOldWallet k uuid) (\<lambda>_. read_disk (\<lambda>d.
       case active_id d of None \<Rightarrow> give False | Some i \<Rightarrow> give (list_ex (\<lambda>w. we_id w = i) (listWallets d))))"

definition default_name :: "disk \<Rightarrow> string" where
  "default_name d = ''Wallet '' @ show_nat (length (listWallets d) + 1)"

definition importWallet :: "keyring \<Rightarrow> derivation \<Rightarrow> string \<Rightarrow> string \<Rightarrow> string \<Rightarrow> int \<Rightarrow> string act" where
  "importWallet k dv uuid mnemonic name accountIndex =
     (let path = formatHdPath accountIndex 0 in
      then_act (from_result (fromMnemonic dv mnemonic path)) (\<lambda>(phrase, address).
      then_act (from_result (derivePrivKey dv phrase path)) (\<lambda>key.
      then_act (read_disk (\<lambda>d.
        addWalletEntry k uuid (if name \<noteq> [] then name else default_name d) address phrase accountIndex 0)) (\<lambda>entry.
      then_act (saveSettings [(''activeWalletId'', JStr (we_id entry))]) (\<lambda>_.
      then_act (load phrase path address key (we_id entry)) (\<lambda>_.
      give address))))))"

definition restoreWallet :: "keyring \<Rightarrow> derivation \<Rightarrow> string \<Rightarrow> string option act" where
  "restoreWallet k dv uuid =
     then_act (migrateOldWallet k uuid) (\<lambda>_. read_disk (\<lambda>d.
       case active_id d of
         None \<Rightarrow> give None
       | Some i \<Rightarrow>
           or_else
             (then_act (from_result (getWalletMnemonic k d i)) (\<lambda>mnemonic.
              let path = entry_path (entry_of i d) in
              then_act (from_result (fromMnemonic dv mnemonic path)) (\<lambda>(phrase, address).
              then_act (from_result (derivePrivKey dv phrase path)) (\<lambda>key.
              then_act (load phrase path address key i) (\<lambda>_.
              then_act (if (case entry_of i d of Some w \<Rightarrow> we_address w = [] | None \<Rightarrow> False)
                        then updateWalletAddress i address else give ()) (\<lambda>_.
              give (Some address)))))))
             None))"

definition switchWallet :: "keyring \<Rightarrow> derivation \<Rightarrow> string \<Rightarrow> string option act" where
  "switchWallet k dv walletId = read_disk (\<lambda>d.
     case entry_of walletId d of
       None \<Rightarrow> from_result (throw ''Wallet not found'')
     | Some entry \<Rightarrow>
         then_act (saveSettings [(''activeWalletId'', JStr walletId)]) (\<lambda>_.
         or_else
           (read_disk (\<lambda>d.
            then_act (from_result (getWalletMnemonic k d walletId)) (\<lambda>mnemonic.
            let path = entry_path (Some entry) in
            then_act (from_result (fromMnemonic dv mnemonic path)) (\<lambda>(phrase, address).
            then_act (from_result (derivePrivKey dv phrase path)) (\<lambda>key.
            then_act (load phrase path address key walletId) (\<lambda>_.
            give (Some address)))))))
           None))"

definition deriveSubaccount ::
  "keyring \<Rightarrow> derivation \<Rightarrow> string \<Rightarrow> string \<Rightarrow> int \<Rightarrow> int \<Rightarrow> string \<Rightarrow> string act" where
  "deriveSubaccount k dv uuid sourceWalletId accountIndex addressIndex name = read_disk (\<lambda>d.
     if \<not> isSeedSource d sourceWalletId then from_result (throw ''Source wallet not found'')
     else
       then_act (from_result (getWalletMnemonic k d sourceWalletId)) (\<lambda>mnemonic.
       then_act (from_result (fromMnemonic dv mnemonic (formatHdPath accountIndex addressIndex))) (\<lambda>(phrase, address).
       then_act (read_disk (\<lambda>d. addWalletEntry k uuid (if trim name \<noteq> [] then trim name else default_name d)
           address phrase accountIndex addressIndex)) (\<lambda>_.
       then_act (read_disk (\<lambda>d.
         if setting ''retainedSeedId'' d = JStr sourceWalletId then clearRetainedSeed else give ())) (\<lambda>_.
       give address)))))"

definition logout :: "unit act" where
  "logout =
     then_act (in_memory (\<lambda>v. v\<lparr>v_loaded := None\<rparr>)) (\<lambda>_.
     then_act (saveSettings [(''activeWalletId'', JNull)]) (\<lambda>_. give ()))"

end
