(* ===== verification/WalletHandlers.thy ===== *)
theory WalletHandlers
  imports Vault
begin

text \<open>
  The wallet and settings handlers of \<open>src/main/ipc-handlers.ts\<close> over the wallet store, with the reads of
  \<open>src/main/chain/wallet.ts\<close> they call. Handlers run one at a time; the follow-up work a settings change
  starts is returned as a list.
\<close>

section \<open>Reads\<close>

record derivation_row =
  dr_index :: int
  dr_path :: string
  dr_address :: string
  dr_existing :: "string option"

text \<open>\<open>getAccounts()\<close> of a wallet with several paths is one account per path, in order. The map from
  address to name keeps the last entry of an address.\<close>

definition previewDerivations ::
  "keyring \<Rightarrow> derivation \<Rightarrow> string \<Rightarrow> int \<Rightarrow> int \<Rightarrow> nat \<Rightarrow> disk \<Rightarrow> derivation_row list result" where
  "previewDerivations k dv sourceWalletId accountIndex startIndex count d =
     (if \<not> isSeedSource d sourceWalletId then throw ''Source wallet not found''
      else and_then (getWalletMnemonic k d sourceWalletId) (\<lambda>mnemonic.
        let byAddress = map_of (rev (map (\<lambda>w. (we_address w, we_name w))
              (filter (\<lambda>w. we_address w \<noteq> []) (listWallets d))));
            row = (\<lambda>i. let path = formatHdPath accountIndex i in
              and_then (fromMnemonic dv mnemonic path) (\<lambda>(_, address).
                ok \<lparr>dr_index = i, dr_path = path, dr_address = address, dr_existing = byAddress address\<rparr>))
        in fold (\<lambda>i r. and_then r (\<lambda>rows. and_then (row i) (\<lambda>x. ok (rows @ [x]))))
             (map (\<lambda>n. startIndex + int n) [0..<count]) (ok [])))"

record credentials =
  cr_phrase :: string
  cr_address :: string
  cr_key :: string

definition loadWalletCredentials :: "keyring \<Rightarrow> derivation \<Rightarrow> string \<Rightarrow> disk \<Rightarrow> credentials result" where
  "loadWalletCredentials k dv walletId d =
     (case entry_of walletId d of
        None \<Rightarrow> throw ''Wallet not found''
      | Some entry \<Rightarrow>
          and_then (getWalletMnemonic k d walletId) (\<lambda>mnemonic.
          and_then (fromMnemonic dv mnemonic (entry_path (Some entry))) (\<lambda>(phrase, address).
          and_then (derivePrivKey dv phrase (entry_path (Some entry))) (\<lambda>key.
          ok \<lparr>cr_phrase = phrase, cr_address = address, cr_key = key\<rparr>))))"

text \<open>\<open>findTransferBetween\<close>: \<open>search\<close> is the number of transfers found from one account to the other, or an
  error.\<close>

record link_check =
  lc_checked :: bool
  lc_linked :: bool

definition findTransferBetween :: "(string \<Rightarrow> string \<Rightarrow> nat result) \<Rightarrow> string \<Rightarrow> string \<Rightarrow> link_check" where
  "findTransferBetween search a b =
     (if a = [] \<or> b = [] \<or> a = b then \<lparr>lc_checked = True, lc_linked = False\<rparr>
      else case search a b of
        Inl _ \<Rightarrow> \<lparr>lc_checked = False, lc_linked = False\<rparr>
      | Inr n \<Rightarrow>
          if 0 < n then \<lparr>lc_checked = True, lc_linked = True\<rparr>
          else (case search b a of
            Inl _ \<Rightarrow> \<lparr>lc_checked = False, lc_linked = False\<rparr>
          | Inr m \<Rightarrow> \<lparr>lc_checked = True, lc_linked = 0 < m\<rparr>))"

definition WALLET_LINK_CHECK :: "(string \<Rightarrow> string \<Rightarrow> nat result) \<Rightarrow> js \<Rightarrow> link_check act" where
  "WALLET_LINK_CHECK search walletId =
     then_act (from_result (assertString walletId ''walletId'')) (\<lambda>_. (\<lambda>v.
       let active = map_option l_address (v_loaded v);
           other = map_option we_address (Option.bind (as_string walletId) (\<lambda>i. entry_of i (v_disk v)))
       in give (case (active, other) of
            (Some a, Some x) \<Rightarrow>
              if a = [] \<or> x = [] then \<lparr>lc_checked = False, lc_linked = False\<rparr> else findTransferBetween search a x
          | _ \<Rightarrow> \<lparr>lc_checked = False, lc_linked = False\<rparr>) v))"

section \<open>Wallet handlers\<close>

definition not_connected :: "string \<Rightarrow> unit act" where
  "not_connected action v = from_result (assertNotConnected action (v_book v)) v"

definition WALLET_HAS_STORED :: "keyring \<Rightarrow> string \<Rightarrow> bool act" where
  "WALLET_HAS_STORED k uuid = hasStoredWallet k uuid"

text \<open>\<open>WALLET_GENERATE\<close>: the size of the entropy asked for.\<close>

definition WALLET_GENERATE :: "js \<Rightarrow> int result" where
  "WALLET_GENERATE wordCount =
     (if wordCount \<noteq> JNum (NInt 12) \<and> wordCount \<noteq> JNum (NInt 24) then throw ''Word count must be 12 or 24''
      else ok (if wordCount = JNum (NInt 12) then 128 else 256))"

definition clean_name :: "js \<Rightarrow> string result" where
  "clean_name name =
     (case name of
        JUndef \<Rightarrow> ok []
      | JNull \<Rightarrow> ok []
      | JStr s \<Rightarrow> if 100 < length (trim s) then throw ''Wallet name too long'' else ok (trim s)
      | _ \<Rightarrow> throw ''Invalid name'')"

definition the_string :: "js \<Rightarrow> string" where
  "the_string x = (case x of JStr s \<Rightarrow> s | _ \<Rightarrow> [])"

definition WALLET_IMPORT :: "keyring \<Rightarrow> derivation \<Rightarrow> string \<Rightarrow> js \<Rightarrow> js \<Rightarrow> string act" where
  "WALLET_IMPORT k dv uuid mnemonic name =
     then_act (from_result (assertString mnemonic ''mnemonic'')) (\<lambda>_.
     let words = split_ws (trim (the_string mnemonic)) in
     if length words \<noteq> 12 \<and> length words \<noteq> 24 then from_result (throw ''Mnemonic must be 12 or 24 words'')
     else
       then_act (not_connected ''adding a wallet'') (\<lambda>_.
       then_act (from_result (clean_name name)) (\<lambda>n.
       importWallet k dv uuid (the_string mnemonic) n 0)))"

definition WALLET_GET_ADDRESS :: "keyring \<Rightarrow> derivation \<Rightarrow> string \<Rightarrow> string option act" where
  "WALLET_GET_ADDRESS k dv uuid =
     then_act (hasStoredWallet k uuid) (\<lambda>stored.
     then_act (\<lambda>v. (if stored \<and> (case v_loaded v of None \<Rightarrow> True | Some l \<Rightarrow> l_address l = [])
                    then then_act (restoreWallet k dv uuid) (\<lambda>_. give ()) else give ()) v) (\<lambda>_.
     (\<lambda>v. give (map_option l_address (v_loaded v)) v)))"

text \<open>The balance with whether the endpoint is reported as failing; \<open>reading\<close> is the chain's answer for an
  address.\<close>

definition WALLET_GET_BALANCE :: "bool \<Rightarrow> (string \<Rightarrow> js result) \<Rightarrow> (js \<times> bool) act" where
  "WALLET_GET_BALANCE vpnActive reading = (\<lambda>v.
     if vpnActive then give (v_balance v, False) v
     else case (case v_loaded v of None \<Rightarrow> ok (JArr []) | Some l \<Rightarrow> if l_address l = [] then ok (JArr []) else reading (l_address l)) of
       Inl _ \<Rightarrow> give (v_balance v, True) v
     | Inr balance \<Rightarrow> then_act (in_memory (\<lambda>v. v\<lparr>v_balance := balance\<rparr>)) (\<lambda>_. give (balance, False)) v)"

definition forget_answers :: "unit act" where
  "forget_answers = in_memory (\<lambda>v. v\<lparr>v_planOverview := JNull, v_providerOverview := JNull, v_balance := JNull,
     v_book := (v_book v)\<lparr>b_rows := []\<rparr>\<rparr>)"

definition WALLET_SWITCH :: "keyring \<Rightarrow> derivation \<Rightarrow> js \<Rightarrow> string option act" where
  "WALLET_SWITCH k dv walletId =
     then_act (from_result (assertString walletId ''walletId'')) (\<lambda>_.
     then_act (not_connected ''switching wallets'') (\<lambda>_.
     then_act (switchWallet k dv (the_string walletId)) (\<lambda>address.
     then_act forget_answers (\<lambda>_.
     give address))))"

definition WALLET_DELETE :: "js \<Rightarrow> js \<Rightarrow> unit act" where
  "WALLET_DELETE walletId keepSeed =
     then_act (from_result (assertString walletId ''walletId'')) (\<lambda>_.
     then_act (not_connected ''deleting a wallet'') (\<lambda>_.
     deleteWalletEntry (the_string walletId) (keepSeed = JBool True)))"

definition WALLET_DELETE_ALL :: "unit act" where
  "WALLET_DELETE_ALL =
     then_act (not_connected ''deleting wallets'') (\<lambda>_.
     then_act (read_disk (\<lambda>d. for_each (\<lambda>w. deleteWalletEntry (we_id w) False) (listWallets d))) (\<lambda>_.
     then_act clearRetainedSeed (\<lambda>_.
     logout)))"

text \<open>The stored wallets with the group of their seed (\<open>assignSeedGroups(listWallets(), getWalletMnemonic)\<close>).\<close>

definition read_phrase :: "keyring \<Rightarrow> disk \<Rightarrow> string \<Rightarrow> string option" where
  "read_phrase k d i = (case getWalletMnemonic k d i of Inl _ \<Rightarrow> None | Inr m \<Rightarrow> Some m)"

definition grouped :: "keyring \<Rightarrow> disk \<Rightarrow> (wallet_entry \<times> string option) list" where
  "grouped k d = assignSeedGroups (read_phrase k d) we_id (listWallets d)"

record store_status =
  ss_wallets :: "(wallet_entry \<times> string option) list"
  ss_active :: js
  ss_retained :: js

definition WALLET_STORE_STATUS :: "keyring \<Rightarrow> store_status act" where
  "WALLET_STORE_STATUS k = read_disk (\<lambda>d. give \<lparr>ss_wallets = grouped k d,
     ss_active = setting ''activeWalletId'' d, ss_retained = setting ''retainedSeedId'' d\<rparr>)"

definition delete_members :: "wallet_entry list \<Rightarrow> string option \<Rightarrow> unit act" where
  "delete_members mates retainId =
     then_act (for_each (\<lambda>w. if Some (we_id w) \<noteq> retainId then deleteWalletEntry (we_id w) False else give ()) mates) (\<lambda>_.
     case retainId of None \<Rightarrow> give () | Some i \<Rightarrow> deleteWalletEntry i True)"

definition seed_to_retain :: "js \<Rightarrow> js \<Rightarrow> wallet_entry list \<Rightarrow> string option" where
  "seed_to_retain keepSeed activeId mates =
     (if keepSeed = JBool True
      then Some (we_id (case find (\<lambda>w. JStr (we_id w) = activeId) mates of Some w \<Rightarrow> w | None \<Rightarrow> hd mates))
      else None)"

definition WALLET_DELETE_SEED :: "keyring \<Rightarrow> derivation \<Rightarrow> js \<Rightarrow> js \<Rightarrow> bool act" where
  "WALLET_DELETE_SEED k dv walletId keepSeed =
     then_act (from_result (assertString walletId ''walletId'')) (\<lambda>_.
     then_act (not_connected ''removing a seed'') (\<lambda>_. read_disk (\<lambda>d.
       let wallets = grouped k d in
       case find (\<lambda>(w, g). we_id w = the_string walletId) wallets of
         None \<Rightarrow> from_result (throw ''Wallet not found'')
       | Some (_, None) \<Rightarrow>
           from_result (throw ''This wallet cannot be unlocked, so its seed is unknown. Delete it on its own.'')
       | Some (_, Some g) \<Rightarrow>
           let mates = map fst (filter (\<lambda>(w, g'). g' = Some g) wallets);
               remaining = filter (\<lambda>(w, g'). g' \<noteq> Some g) wallets;
               activeId = setting ''activeWalletId'' d;
               activeInGroup = list_ex (\<lambda>w. JStr (we_id w) = activeId) mates
           in if keepSeed = JBool True \<and> remaining \<noteq> []
              then from_result (throw ''The seed can only be kept when no other wallets are stored.'')
              else
                then_act (delete_members mates (seed_to_retain keepSeed activeId mates)) (\<lambda>_.
                then_act (if \<not> activeInGroup then give ()
                          else case find (\<lambda>(w, g'). g' \<noteq> None) remaining of
                            Some (w, _) \<Rightarrow> then_act (switchWallet k dv (we_id w)) (\<lambda>_. forget_answers)
                          | None \<Rightarrow> logout) (\<lambda>_.
                give activeInGroup)))))"

definition WALLET_RENAME :: "js \<Rightarrow> js \<Rightarrow> unit act" where
  "WALLET_RENAME walletId newName =
     then_act (from_result (assertString walletId ''walletId'')) (\<lambda>_.
     then_act (from_result (assertString newName ''newName'')) (\<lambda>_.
     if 100 < length (the_string newName) then from_result (throw ''Wallet name too long'')
     else renameWallet (the_string walletId) (the_string newName)))"

definition the_index :: "js \<Rightarrow> int" where
  "the_index x = (case as_number x of Some q \<Rightarrow> \<lfloor>q\<rfloor> | None \<Rightarrow> 0)"

definition WALLET_DERIVE_SUBACCOUNT :: "keyring \<Rightarrow> derivation \<Rightarrow> string \<Rightarrow> js \<Rightarrow> string act" where
  "WALLET_DERIVE_SUBACCOUNT k dv uuid params =
     then_act (from_result (assertString (jget ''sourceWalletId'' params) ''sourceWalletId'')) (\<lambda>_.
     then_act (from_result (assertIntRange (jget ''accountIndex'' params) ''accountIndex'' 0 2147483647)) (\<lambda>_.
     then_act (from_result (assertIntRange (jget ''addressIndex'' params) ''addressIndex'' 0 2147483647)) (\<lambda>_.
     then_act (from_result (assertString (jget ''name'' params) ''name'')) (\<lambda>_.
     if 100 < length (the_string (jget ''name'' params)) then from_result (throw ''Wallet name too long'')
     else deriveSubaccount k dv uuid (the_string (jget ''sourceWalletId'' params))
            (the_index (jget ''accountIndex'' params)) (the_index (jget ''addressIndex'' params))
            (the_string (jget ''name'' params))))))"

definition DERIVE_PREVIEW_MAX_COUNT :: int where
  "DERIVE_PREVIEW_MAX_COUNT = 500"

definition WALLET_DERIVE_PREVIEW :: "keyring \<Rightarrow> derivation \<Rightarrow> js \<Rightarrow> derivation_row list act" where
  "WALLET_DERIVE_PREVIEW k dv params =
     then_act (from_result (assertString (jget ''sourceWalletId'' params) ''sourceWalletId'')) (\<lambda>_.
     then_act (from_result (assertIntRange (jget ''accountIndex'' params) ''accountIndex'' 0 2147483647)) (\<lambda>_.
     then_act (from_result (assertIntRange (jget ''startIndex'' params) ''startIndex'' 0 2147483647)) (\<lambda>_.
     then_act (from_result (assertIntRange (jget ''count'' params) ''count'' 1 DERIVE_PREVIEW_MAX_COUNT)) (\<lambda>_.
     read_disk (\<lambda>d. from_result (previewDerivations k dv (the_string (jget ''sourceWalletId'' params))
       (the_index (jget ''accountIndex'' params)) (the_index (jget ''startIndex'' params))
       (nat (the_index (jget ''count'' params))) d))))))"

definition WALLET_REVEAL_MNEMONIC :: "keyring \<Rightarrow> js \<Rightarrow> string act" where
  "WALLET_REVEAL_MNEMONIC k walletId =
     then_act (from_result (assertString walletId ''walletId'')) (\<lambda>_.
     read_disk (\<lambda>d. from_result (getWalletMnemonic k d (the_string walletId))))"

definition PROVIDER_MODE_SET :: "js \<Rightarrow> unit act" where
  "PROVIDER_MODE_SET enabled =
     (case enabled of
        JBool b \<Rightarrow> read_disk (\<lambda>d. case active_id d of
            None \<Rightarrow> from_result (throw ''No active wallet'')
          | Some i \<Rightarrow> setWalletProviderMode i b)
      | _ \<Rightarrow> from_result (throw ''Invalid providerMode: expected boolean''))"

section \<open>Settings handlers\<close>

datatype follow_up = EndpointChanged | SelectEndpoint | ReapplyFirewall

definition SETTINGS_GET :: "js act" where
  "SETTINGS_GET = read_disk (\<lambda>d. give (JObj (loadSettings d)))"

definition allowed_settings :: "string list" where
  "allowed_settings = [''rpcEndpoint'', ''rpcMode'', ''killSwitch'', ''lanSharing'', ''dnsResolver'', ''autoReconnect'',
     ''bookmarkedNodes'', ''splitTunnelRoutes'', ''signedNodesOnly'']"

definition check_flag :: "string \<Rightarrow> js \<Rightarrow> unit result" where
  "check_flag key x = (case x of
      JUndef \<Rightarrow> ok ()
    | JBool _ \<Rightarrow> ok ()
    | _ \<Rightarrow> throw (''Invalid '' @ key @ '': expected boolean''))"

definition check_endpoint :: "(string \<Rightarrow> bool) \<Rightarrow> js \<Rightarrow> unit result" where
  "check_endpoint is_url x =
     (if x = JUndef then ok ()
      else and_then (assertString x ''rpcEndpoint'') (\<lambda>_.
        if is_url (the_string x) then ok () else throw ''Invalid RPC endpoint URL''))"

definition check_mode :: "js \<Rightarrow> unit result" where
  "check_mode x = (if x = JUndef \<or> x = JStr ''auto'' \<or> x = JStr ''manual'' then ok () else throw ''Invalid rpcMode'')"

definition check_resolver :: "js \<Rightarrow> unit result" where
  "check_resolver x =
     (if x = JUndef then ok ()
      else and_then (assertString x ''dnsResolver'') (\<lambda>_.
        if the_string x \<noteq> ''system'' \<and> \<not> isAllowedDnsResolver (the_string x) then throw ''Invalid DNS resolver''
        else ok ()))"

definition check_bookmarks :: "js \<Rightarrow> unit result" where
  "check_bookmarks x =
     (if x = JUndef \<or> is_array x then ok () else throw ''Invalid bookmarkedNodes: expected array'')"

definition check_routes :: "js \<Rightarrow> unit result" where
  "check_routes x =
     (if x = JUndef then ok ()
      else if \<not> is_array x then throw ''Invalid splitTunnelRoutes: expected array''
      else if 64 < length (elems x) then throw ''Too many split-tunnel routes (max 64)''
      else each (\<lambda>r. case r of
          JStr s \<Rightarrow> if isAllowedBypassCidr s then ok () else throw (''Invalid CIDR route: '' @ to_string r)
        | _ \<Rightarrow> throw (''Invalid CIDR route: '' @ to_string r)) (elems x))"

definition check_settings :: "(string \<Rightarrow> bool) \<Rightarrow> js \<Rightarrow> unit result" where
  "check_settings is_url s =
     and_then (check_endpoint is_url (jget ''rpcEndpoint'' s)) (\<lambda>_.
     and_then (check_mode (jget ''rpcMode'' s)) (\<lambda>_.
     and_then (check_flag ''killSwitch'' (jget ''killSwitch'' s)) (\<lambda>_.
     and_then (check_flag ''lanSharing'' (jget ''lanSharing'' s)) (\<lambda>_.
     and_then (check_resolver (jget ''dnsResolver'' s)) (\<lambda>_.
     and_then (check_flag ''autoReconnect'' (jget ''autoReconnect'' s)) (\<lambda>_.
     and_then (check_flag ''signedNodesOnly'' (jget ''signedNodesOnly'' s)) (\<lambda>_.
     and_then (check_bookmarks (jget ''bookmarkedNodes'' s)) (\<lambda>_.
     check_routes (jget ''splitTunnelRoutes'' s)))))))))"

definition SETTINGS_SET :: "(string \<Rightarrow> bool) \<Rightarrow> js \<Rightarrow> (js \<times> follow_up list) act" where
  "SETTINGS_SET is_url settings =
     (if \<not> is_object settings then from_result (throw ''Invalid settings'')
      else
        let filtered = filter (\<lambda>(key, x). key \<in> set allowed_settings) (Json.fields settings);
            s = JObj filtered
        in then_act (from_result (check_settings is_url s)) (\<lambda>_.
           then_act (saveSettings filtered) (\<lambda>saved.
           give (saved,
             (if jget ''rpcEndpoint'' s \<noteq> JUndef then [EndpointChanged] else []) @
             (if jget ''rpcMode'' s = JStr ''auto'' then [SelectEndpoint] else []) @
             (if jget ''killSwitch'' s \<noteq> JUndef \<or> jget ''lanSharing'' s \<noteq> JUndef then [ReapplyFirewall] else [])))))"

end
