(* ===== verification/VaultProps.thy ===== *)
theory VaultProps
  imports WalletHandlers
begin

text \<open>
  What the wallet store keeps through every handler and every crash between two of its writes; what is left
  of a seed after it is removed; and what a loaded wallet comes back as.
\<close>

section \<open>Settings after a write\<close>

lemma merged_keys: "distinct (map fst a) \<Longrightarrow> distinct (map fst (merged a b))"
proof (induction b arbitrary: a)
  case (Cons kx b)
  obtain k x where "kx = (k, x)" by (cases kx)
  moreover have "distinct (map fst (put k x a))" using Cons.prems
    by (induction a) (auto split: if_splits)
  ultimately show ?case using Cons.IH [of "put k x a"] by (simp add: merged_def)
qed (simp add: merged_def)

lemma map_of_merged [simp]: "map_of (merged a b) = map_of a ++ map_of (rev b)"
proof (induction b arbitrary: a)
  case (Cons kx b)
  obtain k x where "kx = (k, x)" by (cases kx)
  with Cons.IH [of "put k x a"] show ?case
    by (auto simp: merged_def fun_eq_iff map_add_def split: option.splits)
qed (simp add: merged_def)

lemma map_of_reread:
  assumes "distinct (map fst fs)"
  shows "map_of (Json.fields (reread (JObj fs))) k =
    (case map_of fs k of None \<Rightarrow> None | Some x \<Rightarrow> if x = JUndef then None else Some (reread x))"
  using assms
proof (induction fs)
  case (Cons kx fs)
  obtain k' x where kx: "kx = (k', x)" by (cases kx)
  have "map_of fs k' = None" using Cons.prems kx by (simp add: map_of_eq_None_iff)
  with Cons kx show ?case by (auto split: option.splits)
qed simp

lemma reread_keys: "distinct (map fst fs) \<Longrightarrow> distinct (map fst (Json.fields (reread (JObj fs))))"
  by (simp add: comp_def case_prod_beta distinct_map_filter)

lemma map_of_rev_distinct: "distinct (map fst xs) \<Longrightarrow> map_of (rev xs) = map_of xs"
proof (induction xs)
  case (Cons x xs)
  then have "map_of xs (fst x) = None" by (auto simp: map_of_eq_None_iff)
  with Cons show ?case by (auto simp: fun_eq_iff map_add_def split: option.splits)
qed simp

lemma default_keys: "distinct (map fst DEFAULT_SETTINGS)"
  by (simp add: DEFAULT_SETTINGS_def)

lemma load_keys: "distinct (map fst (loadSettings d))"
  by (simp add: loadSettings_def merged_keys default_keys split: stored.splits)

abbreviation saved :: "(string \<times> js) list \<Rightarrow> disk \<Rightarrow> disk" where
  "saved s d \<equiv> d\<lparr>d_settings := Holds (reread (JObj (merged (loadSettings d) s)))\<rparr>"

definition default_setting :: "string \<Rightarrow> js" where
  "default_setting key = jget key (JObj DEFAULT_SETTINGS)"

lemma setting_saved:
  "setting key (saved s d) =
     (case map_of (rev s) key of
        Some x \<Rightarrow> if x = JUndef then default_setting key else reread x
      | None \<Rightarrow> if setting key d = JUndef then default_setting key else reread (setting key d))"
proof -
  let ?m = "merged (loadSettings d) s"
  have "distinct (map fst ?m)" by (simp add: merged_keys load_keys)
  note r = map_of_reread [OF this, of key]
  have "map_of (loadSettings (saved s d)) key =
      (case map_of (Json.fields (reread (JObj ?m))) key of None \<Rightarrow> map_of DEFAULT_SETTINGS key | Some x \<Rightarrow> Some x)"
  proof -
    have "distinct (map fst (Json.fields (reread (JObj ?m))))"
      by (rule reread_keys [OF merged_keys [OF load_keys]])
    then have "map_of (rev (Json.fields (reread (JObj ?m)))) = map_of (Json.fields (reread (JObj ?m)))"
      by (simp add: map_of_rev_distinct)
    then show ?thesis by (simp add: loadSettings_def map_add_def del: reread.simps)
  qed
  then show ?thesis
    by (auto simp: setting_def default_setting_def r map_add_def simp del: reread.simps Json.fields.simps split: option.splits)
qed

lemma id_setting_saved:
  assumes "key = ''activeWalletId'' \<or> key = ''retainedSeedId''"
  shows "id_setting key (saved s d) =
    (case map_of (rev s) key of
       Some x \<Rightarrow> (case x of JStr i \<Rightarrow> if i \<noteq> [] then Some i else None | _ \<Rightarrow> None)
     | None \<Rightarrow> id_setting key d)"
proof -
  have dflt: "default_setting key = JNull" using assms by (elim disjE) (simp_all add: default_setting_def DEFAULT_SETTINGS_def)
  have e: "(case reread x of JStr i \<Rightarrow> if i \<noteq> [] then Some i else None | _ \<Rightarrow> None) =
      (case x of JStr i \<Rightarrow> if i \<noteq> [] then Some i else None | _ \<Rightarrow> None)" for x
  proof (cases x)
    case (JNum n)
    then show ?thesis by (cases n) simp_all
  qed simp_all
  show ?thesis
    unfolding id_setting_def setting_saved
    by (cases "map_of (rev s) key") (simp_all add: dflt e)
qed

lemma id_setting_saved_from:
  assumes "key = ''activeWalletId'' \<or> key = ''retainedSeedId''"
  shows "id_setting key (d\<lparr>d_settings := Holds (reread (JObj (merged (loadSettings e) s)))\<rparr>) =
    (case map_of (rev s) key of
       Some x \<Rightarrow> (case x of JStr i \<Rightarrow> if i \<noteq> [] then Some i else None | _ \<Rightarrow> None)
     | None \<Rightarrow> id_setting key e)"
proof -
  have "id_setting key (d\<lparr>d_settings := x\<rparr>) = id_setting key (e\<lparr>d_settings := x\<rparr>)" for x
    by (simp add: id_setting_def setting_def loadSettings_def)
  then show ?thesis using id_setting_saved [OF assms, of e s] by simp
qed

lemma setting_id:
  "i \<noteq> [] \<Longrightarrow> setting key d = JStr i \<longleftrightarrow> id_setting key d = Some i"
  by (auto simp: id_setting_def split: js.splits if_splits)

section \<open>The writes the store may do\<close>

definition ids :: "disk \<Rightarrow> string set" where
  "ids d = we_id ` set (listWallets d)"

definition fresh_id :: "string \<Rightarrow> disk \<Rightarrow> bool" where
  "fresh_id u d \<longleftrightarrow> u \<noteq> [] \<and> u \<notin> ids d \<and> d_seeds d u = None \<and> retained_id d \<noteq> Some u \<and> active_id d \<noteq> Some u"

text \<open>The abstract machine of the profile: one rule per kind of write, with what must hold when it happens.\<close>

inductive permitted :: "keyring \<Rightarrow> (string \<Rightarrow> bool) \<Rightarrow> disk \<Rightarrow> disk \<Rightarrow> bool" for k is_url where
  seal: "permitted k is_url d (d\<lparr>d_seeds := (d_seeds d)(u \<mapsto> k_encrypt k m)\<rparr>)"
    if "fresh_id u d" and "isSecureStorageAvailable k"
| enlist: "permitted k is_url d (d\<lparr>d_index := Holds (listWallets d @ [e])\<rparr>)"
    if "d_seeds d (we_id e) \<noteq> None" and "we_id e \<noteq> []" and "we_id e \<notin> ids d" and "retained_id d \<noteq> Some (we_id e)"
| amend: "permitted k is_url d (d\<lparr>d_index := Holds ws\<rparr>)"
    if "update_entry i f (listWallets d) = Some ws" and "\<And>w. we_id (f w) = we_id w"
| delist: "permitted k is_url d (d\<lparr>d_index := Holds (filter P (listWallets d))\<rparr>)"
| shred: "permitted k is_url d (d\<lparr>d_seeds := (d_seeds d)(i := None)\<rparr>)" if "i \<notin> ids d"
| activate: "permitted k is_url d (saved [(''activeWalletId'', json_id i)] d)"
| retain: "permitted k is_url d (saved [(''retainedSeedId'', JStr i)] d)" if "listWallets d = []"
| release: "permitted k is_url d (saved [(''retainedSeedId'', JNull)] d)"
| configure: "permitted k is_url d (saved s d)"
    if "fst ` set s \<subseteq> set allowed_settings" and "distinct (map fst s)" and "check_settings is_url (JObj s) = Inr ()"
| unprovide: "permitted k is_url d (d\<lparr>d_settings := Holds (reread (JObj (filter (\<lambda>(k, x). k \<noteq> ''providerMode'') fs)))\<rparr>)"
    if "d_settings d = Holds (JObj fs)"
| pin_endpoint: "permitted k is_url d (d\<lparr>d_settings := Holds (reread (JObj (put ''rpcMode'' (JStr ''manual'') fs)))\<rparr>)"
    if "d_settings d = Holds (JObj fs)"
| drop_legacy: "permitted k is_url d (d\<lparr>d_legacy := None\<rparr>)"

inductive path :: "('d \<Rightarrow> 'd \<Rightarrow> bool) \<Rightarrow> 'd \<Rightarrow> 'd list \<Rightarrow> 'd \<Rightarrow> bool" for R where
  stay: "path R d [] d"
| move: "R d d1 \<Longrightarrow> path R d1 ds d2 \<Longrightarrow> path R d (d # ds) d2"

lemma path_append: "path R d ds d1 \<Longrightarrow> path R d1 ds' d2 \<Longrightarrow> path R d (ds @ ds') d2"
  by (induction rule: path.induct) (auto intro: path.intros)

lemma path_one: "R d d1 \<Longrightarrow> path R d [d] d1"
  by (auto intro: path.intros)

lemma path_invariant:
  assumes "path R d ds d'" and "\<And>d d'. R d d' \<Longrightarrow> I d \<Longrightarrow> I d'" and "I d"
  shows "I d'" and "x \<in> set ds \<Longrightarrow> I x"
  using assms by (induction rule: path.induct) auto

definition writes :: "(disk \<Rightarrow> disk \<Rightarrow> bool) \<Rightarrow> 'a act \<Rightarrow> vault \<Rightarrow> bool" where
  "writes R m v \<longleftrightarrow>
     (\<exists>ds. v_past (snd (m v)) = v_past v @ ds \<and> path R (v_disk v) ds (v_disk (snd (m v))))"

lemma writes_idle:
  "writes R (give x) v" "writes R (from_result r) v"
  by (auto simp: writes_def vault_run intro: path.stay)

lemma writes_memory: "v_disk (g v) = v_disk v \<Longrightarrow> v_past (g v) = v_past v \<Longrightarrow> writes R (in_memory g) v"
  by (auto simp: writes_def vault_run intro: path.stay)

lemma writes_write: "R (v_disk v) (f (v_disk v)) \<Longrightarrow> writes R (write_disk f) v"
  by (auto simp: writes_def vault_run intro: path_one)

lemma writes_read: "writes R (k (v_disk v)) v \<Longrightarrow> writes R (read_disk k) v"
  by (simp add: writes_def vault_run)

lemma writes_next:
  assumes "writes R m v" and "\<And>x v'. m v = (Inr x, v') \<Longrightarrow> writes R (k x) v'"
  shows "writes R (then_act m k) v"
proof (cases "m v")
  case (Pair r v')
  show ?thesis
  proof (cases r)
    case (Inl e)
    with assms(1) Pair show ?thesis by (simp add: writes_def then_act_def)
  next
    case (Inr x)
    with assms(2) Pair have "writes R (k x) v'" by simp
    with assms(1) Pair Inr show ?thesis
      by (auto simp: writes_def then_act_def intro: path_append)
  qed
qed

lemma writes_or_else: "writes R m v \<Longrightarrow> writes R (or_else m x) v"
  by (auto simp: writes_def or_else_def split: prod.splits sum.splits)

lemma writes_for_each:
  assumes "\<And>x v. x \<in> set xs \<Longrightarrow> I (v_disk v) \<Longrightarrow> writes R (f x) v \<and> I (v_disk (snd (f x v)))" and "I (v_disk v)"
  shows "writes R (for_each f xs) v"
  using assms
proof (induction xs arbitrary: v)
  case (Cons x xs)
  have w: "writes R (f x) v" "I (v_disk (snd (f x v)))" using Cons.prems by auto
  show ?case
  proof (simp, rule writes_next [OF w(1)])
    fix u v' assume "f x v = (Inr u, v')"
    with w(2) Cons show "writes R (for_each f xs) v'" by simp
  qed
qed (simp add: writes_idle)

section \<open>Soundness of the store\<close>

text \<open>The ids are distinct and not empty, every listed wallet has its seed file, the retained seed is no listed wallet, and
  the settings are an object with distinct keys.\<close>

definition sound_disk :: "disk \<Rightarrow> bool" where
  "sound_disk d \<longleftrightarrow>
     distinct (map we_id (listWallets d)) \<and> [] \<notin> ids d \<and> ids d \<subseteq> dom (d_seeds d) \<and> (\<forall>r. retained_id d = Some r \<longrightarrow> r \<notin> ids d) \<and>
     (\<forall>fs. d_settings d = Holds (JObj fs) \<longrightarrow> distinct (map fst fs))"

lemma listWallets_simps [simp]:
  "listWallets (d\<lparr>d_index := Holds ws\<rparr>) = ws" "listWallets (d\<lparr>d_seeds := s\<rparr>) = listWallets d"
  "listWallets (d\<lparr>d_settings := t\<rparr>) = listWallets d" "listWallets (d\<lparr>d_legacy := l\<rparr>) = listWallets d"
  by (simp_all add: listWallets_def)

lemma id_setting_simps [simp]:
  "id_setting key (d\<lparr>d_index := x\<rparr>) = id_setting key d" "id_setting key (d\<lparr>d_seeds := s\<rparr>) = id_setting key d"
  "id_setting key (d\<lparr>d_legacy := l\<rparr>) = id_setting key d"
  by (simp_all add: id_setting_def setting_def loadSettings_def)

lemma ids_simps [simp]:
  "ids (d\<lparr>d_index := Holds ws\<rparr>) = we_id ` set ws" "ids (d\<lparr>d_seeds := s\<rparr>) = ids d"
  "ids (d\<lparr>d_settings := t\<rparr>) = ids d" "ids (d\<lparr>d_legacy := l\<rparr>) = ids d"
  by (simp_all add: ids_def)

lemma update_entry_ids:
  assumes "update_entry i f ws = Some ws'" and "\<And>w. we_id (f w) = we_id w"
  shows "map we_id ws' = map we_id ws"
  using assms(1) by (induction ws arbitrary: ws') (auto simp: assms(2) split: if_splits)

lemma setting_of_fields:
  assumes "distinct (map fst fs)"
  shows "setting key (d\<lparr>d_settings := Holds (JObj fs)\<rparr>) = (case map_of fs key of Some x \<Rightarrow> x | None \<Rightarrow> default_setting key)"
    and "setting key (d\<lparr>d_settings := Holds (reread (JObj fs))\<rparr>) =
      (case map_of fs key of Some x \<Rightarrow> if x = JUndef then default_setting key else reread x | None \<Rightarrow> default_setting key)"
proof -
  show "setting key (d\<lparr>d_settings := Holds (JObj fs)\<rparr>) = (case map_of fs key of Some x \<Rightarrow> x | None \<Rightarrow> default_setting key)"
    using assms by (simp add: setting_def loadSettings_def default_setting_def map_of_rev_distinct map_add_def split: option.splits)
  have "map_of (rev (Json.fields (reread (JObj fs)))) = map_of (Json.fields (reread (JObj fs)))"
    by (rule map_of_rev_distinct [OF reread_keys [OF assms]])
  then show "setting key (d\<lparr>d_settings := Holds (reread (JObj fs))\<rparr>) =
      (case map_of fs key of Some x \<Rightarrow> if x = JUndef then default_setting key else reread x | None \<Rightarrow> default_setting key)"
    by (auto simp: setting_def loadSettings_def default_setting_def map_add_def map_of_reread [OF assms]
        simp del: reread.simps Json.fields.simps split: option.splits)
qed

lemma default_ids:
  "default_setting ''activeWalletId'' = JNull" "default_setting ''retainedSeedId'' = JNull"
  by (simp_all add: default_setting_def DEFAULT_SETTINGS_def)

lemma id_of_reread:
  "(case reread x of JStr i \<Rightarrow> if i \<noteq> [] then Some i else None | _ \<Rightarrow> None) =
   (case x of JStr i \<Rightarrow> if i \<noteq> [] then Some i else None | _ \<Rightarrow> None)"
proof (cases x)
  case (JNum n)
  then show ?thesis by (cases n) simp_all
qed simp_all

lemma rewritten_ids:
  assumes "d_settings d = Holds (JObj fs)" and "distinct (map fst fs)" and "distinct (map fst fs')"
    and "map_of fs' key = map_of fs key" and "default_setting key = JNull"
  shows "id_setting key (d\<lparr>d_settings := Holds (reread (JObj fs'))\<rparr>) = id_setting key d"
proof -
  have "d\<lparr>d_settings := Holds (JObj fs)\<rparr> = d" using assms(1) by simp
  then have "setting key d = (case map_of fs key of Some x \<Rightarrow> x | None \<Rightarrow> JNull)"
    using setting_of_fields(1) [OF assms(2), of key d] assms(5) by (cases "map_of fs key") simp_all
  then show ?thesis
    by (cases "map_of fs key")
      (simp_all add: id_setting_def setting_of_fields(2) [OF assms(3)] assms(4,5) id_of_reread del: reread.simps)
qed

lemma saved_keys: "Holds (reread (JObj (merged (loadSettings d) s))) = Holds (JObj fs) \<Longrightarrow> distinct (map fst fs)"
  using reread_keys [OF merged_keys [OF load_keys [of d], of s]] by (auto simp del: Json.fields.simps) simp

lemma reread_object_keys: "distinct (map fst fs) \<Longrightarrow> reread (JObj fs) = JObj gs \<Longrightarrow> distinct (map fst gs)"
  using reread_keys [of fs] by (metis Json.fields.simps(1))

lemma put_keys: "distinct (map fst fs) \<Longrightarrow> distinct (map fst (put k x fs))"
  by (induction fs) (auto split: if_splits)

lemma map_of_filter_key: "map_of (filter (\<lambda>(k, x). k \<noteq> k') fs) key = (if key = k' then None else map_of fs key)"
  by (induction fs) auto

lemma allowed_no_id: "fst ` set s \<subseteq> set allowed_settings \<Longrightarrow> map_of (rev s) ''retainedSeedId'' = None"
  "fst ` set s \<subseteq> set allowed_settings \<Longrightarrow> map_of (rev s) ''activeWalletId'' = None"
  by (auto simp: map_of_eq_None_iff allowed_settings_def)

lemma permitted_sound:
  assumes "permitted k is_url d d'" and "sound_disk d"
  shows "sound_disk d'"
  using assms
proof cases
  case (seal u m)
  with assms(2) show ?thesis by (auto simp: sound_disk_def)
next
  case (enlist e)
  with assms(2) show ?thesis by (auto simp: sound_disk_def ids_def)
next
  case (amend i f ws)
  then have m: "map we_id ws = map we_id (listWallets d)" by (simp add: update_entry_ids)
  then have "we_id ` set ws = ids d" by (metis ids_def list.set_map)
  with amend m assms(2) show ?thesis by (simp add: sound_disk_def)
next
  case (delist P)
  with assms(2) show ?thesis by (auto simp: sound_disk_def ids_def distinct_map_filter)
next
  case (shred i)
  with assms(2) show ?thesis by (auto simp: sound_disk_def)
next
  case (activate i)
  with assms(2) show ?thesis
    using saved_keys by (auto simp: sound_disk_def id_setting_saved simp del: reread.simps)
next
  case (retain i)
  with assms(2) show ?thesis
    using saved_keys by (auto simp: sound_disk_def ids_def simp del: reread.simps)
next
  case release
  with assms(2) show ?thesis
    using saved_keys by (auto simp: sound_disk_def id_setting_saved simp del: reread.simps)
next
  case (configure s)
  with assms(2) show ?thesis
    using saved_keys by (auto simp: sound_disk_def id_setting_saved allowed_no_id simp del: reread.simps)
next
  case (unprovide fs)
  with assms(2) have fs: "distinct (map fst fs)" by (simp add: sound_disk_def)
  let ?fs = "filter (\<lambda>(k, x). k \<noteq> ''providerMode'') fs"
  have d: "distinct (map fst ?fs)" using fs by (simp add: distinct_map_filter)
  have "retained_id d' = retained_id d"
    using unprovide fs d by (simp add: rewritten_ids map_of_filter_key default_ids del: reread.simps)
  moreover have "distinct (map fst gs)" if "d_settings d' = Holds (JObj gs)" for gs
    using that unprovide(1) by (intro reread_object_keys [OF d]) simp
  ultimately show ?thesis using assms(2) unprovide(1) by (simp add: sound_disk_def del: reread.simps)
next
  case (pin_endpoint fs)
  with assms(2) have fs: "distinct (map fst fs)" by (simp add: sound_disk_def)
  let ?fs = "put ''rpcMode'' (JStr ''manual'') fs"
  have d: "distinct (map fst ?fs)" using fs by (rule put_keys)
  have "retained_id d' = retained_id d"
    using pin_endpoint fs d by (simp add: rewritten_ids default_ids del: reread.simps)
  moreover have "distinct (map fst gs)" if "d_settings d' = Holds (JObj gs)" for gs
    using that pin_endpoint(1) by (intro reread_object_keys [OF d]) simp
  ultimately show ?thesis using assms(2) pin_endpoint(1) by (simp add: sound_disk_def del: reread.simps)
next
  case drop_legacy
  with assms(2) show ?thesis by (simp add: sound_disk_def)
qed

section \<open>Every run follows the abstract machine\<close>

lemma writes_sound:
  assumes "writes (permitted k is_url) m v" and "sound_disk (v_disk v)"
  shows "sound_disk (v_disk (snd (m v)))"
  using assms path_invariant(1) [of _ _ _ _ sound_disk] permitted_sound unfolding writes_def by blast

lemma writes_then:
  assumes "writes (permitted k is_url) m v" and "sound_disk (v_disk v)"
    and "\<And>x v'. m v = (Inr x, v') \<Longrightarrow> sound_disk (v_disk v') \<Longrightarrow> writes (permitted k is_url) (f x) v'"
  shows "writes (permitted k is_url) (then_act m f) v"
  using assms(1)
proof (rule writes_next)
  fix x v' assume e: "m v = (Inr x, v')"
  then have "sound_disk (v_disk v')" using writes_sound [OF assms(1,2)] by simp
  with e show "writes (permitted k is_url) (f x) v'" by (rule assms(3))
qed

lemma writes_then_from: "(\<And>x. r = Inr x \<Longrightarrow> writes R (k x) v) \<Longrightarrow> writes R (then_act (from_result r) k) v"
  by (cases r) (auto simp: writes_def vault_run intro: path.stay)

lemma writes_then_write:
  assumes "R (v_disk v) (f (v_disk v))" and "\<And>v'. v_disk v' = f (v_disk v) \<Longrightarrow> writes R (k ()) v'"
  shows "writes R (then_act (write_disk f) k) v"
  using assms by (intro writes_next writes_write) (auto simp: vault_run)

lemma writes_then_read: "writes R (then_act (h (v_disk v)) k) v \<Longrightarrow> writes R (then_act (read_disk h) k) v"
  by (simp add: writes_def vault_run)

lemma saveSettings_eq:
  "saveSettings s v = (Inr (JObj (merged (loadSettings (v_disk v)) s)),
     v\<lparr>v_disk := saved s (v_disk v), v_past := v_past v @ [v_disk v]\<rparr>)"
  by (simp add: saveSettings_def vault_run Let_def del: reread.simps)

lemma writes_then_save:
  assumes "R (v_disk v) (saved s (v_disk v))" and "\<And>x v'. v_disk v' = saved s (v_disk v) \<Longrightarrow> writes R (k x) v'"
  shows "writes R (then_act (saveSettings s) k) v"
proof (rule writes_next)
  show "writes R (saveSettings s) v" using assms(1) by (auto simp: writes_def saveSettings_eq intro: path_one simp del: reread.simps)
qed (use assms(2) in \<open>auto simp: saveSettings_eq simp del: reread.simps\<close>)

lemma writes_then_memory:
  assumes "v_disk (g v) = v_disk v" and "v_past (g v) = v_past v" and "writes R (k ()) (g v)"
  shows "writes R (then_act (in_memory g) k) v"
  using assms by (simp add: writes_def vault_run)

lemma writes_then_give: "writes R (k x) v \<Longrightarrow> writes R (then_act (give x) k) v"
  by (simp add: writes_def vault_run)

lemma writes_if: "(b \<Longrightarrow> writes R m v) \<Longrightarrow> (\<not> b \<Longrightarrow> writes R n v) \<Longrightarrow> writes R (if b then m else n) v"
  by simp

lemma then_assoc: "then_act (then_act m f) g = then_act m (\<lambda>x. then_act (f x) g)"
  by (auto simp: then_act_def fun_eq_iff split: prod.splits sum.splits)

lemma writes_then_if:
  "(b \<Longrightarrow> writes R (then_act m k) v) \<Longrightarrow> (\<not> b \<Longrightarrow> writes R (then_act n k) v) \<Longrightarrow>
   writes R (then_act (if b then m else n) k) v"
  by simp

lemmas writes_rules = writes_idle writes_read writes_or_else writes_if writes_then_if writes_then_from writes_then_read
  writes_then_give

lemma permitted_activate:
  "permitted k is_url d (saved [(''activeWalletId'', JNull)] d)"
  "permitted k is_url d (saved [(''activeWalletId'', JStr i)] d)"
  using permitted.activate [of k is_url d None] permitted.activate [of k is_url d "Some i"] by (simp_all add: json_id_def)

lemma permitted_activate_next:
  "permitted k is_url d (saved [(''activeWalletId'', case ws of [] \<Rightarrow> JNull | w # _ \<Rightarrow> JStr (we_id w))] d)"
  by (cases ws) (simp_all add: permitted_activate del: reread.simps)

lemma writes_add:
  assumes "fresh_id u (v_disk v)"
  shows "writes (permitted k is_url) (addWalletEntry k u name address mnemonic a i) v"
proof -
  let ?d = "v_disk v"
  have "writes (permitted k is_url) (addWalletEntry k u name address mnemonic a i) v"
    if s: "isSecureStorageAvailable k" and c: "find (\<lambda>w. we_address w \<noteq> [] \<and> we_address w = address) (listWallets ?d) = None"
  proof -
    have "permitted k is_url ?d (?d\<lparr>d_seeds := (d_seeds ?d)(u \<mapsto> k_encrypt k mnemonic)\<rparr>)"
      using assms s by (rule permitted.seal)
    moreover have "permitted k is_url d (d\<lparr>d_index := Holds (listWallets d @ [e])\<rparr>)"
      if "d = ?d\<lparr>d_seeds := (d_seeds ?d)(u \<mapsto> k_encrypt k mnemonic)\<rparr>" "we_id e = u" for d e
      using assms that by (intro permitted.enlist) (auto simp: fresh_id_def)
    ultimately show ?thesis
      by (auto simp: addWalletEntry_def s c Let_def write_seed_def saveWalletIndex_def then_assoc simp del: reread.simps
          intro!: writes_rules writes_then_write writes_then_save permitted_activate)
  qed
  moreover have "writes (permitted k is_url) (addWalletEntry k u name address mnemonic a i) v"
    if "\<not> (isSecureStorageAvailable k \<and> find (\<lambda>w. we_address w \<noteq> [] \<and> we_address w = address) (listWallets ?d) = None)"
    using that by (auto simp: addWalletEntry_def writes_def vault_run intro: path.stay split: option.splits)
  ultimately show ?thesis by (cases "isSecureStorageAvailable k") auto
qed

lemma writes_amend:
  assumes "\<And>w. we_id (f w) = we_id w"
  shows "writes (permitted k is_url) (read_disk (\<lambda>d. case update_entry i f (listWallets d) of
      Some ws \<Rightarrow> saveWalletIndex ws | None \<Rightarrow> from_result r)) v"
    and "writes (permitted k is_url) (read_disk (\<lambda>d. case update_entry i f (listWallets d) of
      Some ws \<Rightarrow> saveWalletIndex ws | None \<Rightarrow> give ())) v"
  using permitted.amend [of i f "v_disk v"] assms
  by (auto simp: saveWalletIndex_def intro!: writes_rules writes_write split: option.split)

lemma writes_updates:
  "writes (permitted k is_url) (updateWalletAddress i a) v"
  "writes (permitted k is_url) (setWalletProviderMode i b) v"
  "writes (permitted k is_url) (renameWallet i n) v"
  unfolding updateWalletAddress_def setWalletProviderMode_def renameWallet_def
  by (intro writes_amend; simp)+

lemma writes_unlink: "i \<notin> ids (v_disk v) \<Longrightarrow> writes (permitted k is_url) (unlink_seed i) v"
  by (auto simp: unlink_seed_def intro!: writes_rules writes_write permitted.shred)

lemma unlink_disk: "v_disk (snd (unlink_seed i v)) = (v_disk v)\<lparr>d_seeds := (d_seeds (v_disk v))(i := None)\<rparr>"
proof -
  have "d = d\<lparr>d_seeds := (d_seeds d)(i := None)\<rparr>" if "d_seeds d i = None" for d :: disk
    using that by (simp add: fun_upd_idem)
  then show ?thesis by (simp add: unlink_seed_def vault_run)
qed

lemma writes_then_unlink:
  assumes "i \<notin> ids (v_disk v)"
    and "\<And>v'. v_disk v' = (v_disk v)\<lparr>d_seeds := (d_seeds (v_disk v))(i := None)\<rparr> \<Longrightarrow> writes (permitted k is_url) (f ()) v'"
  shows "writes (permitted k is_url) (then_act (unlink_seed i) f) v"
proof (rule writes_next [OF writes_unlink [OF assms(1)]])
  fix x v' assume "unlink_seed i v = (Inr x, v')"
  then show "writes (permitted k is_url) (f x) v'" using assms(2) unlink_disk [of i v] by simp
qed

lemma writes_delete: "writes (permitted k is_url) (deleteWalletEntry i keep) v"
proof -
  let ?ws = "filter (\<lambda>w. we_id w \<noteq> i) (listWallets (v_disk v))"
  have "i \<notin> we_id ` set ?ws" by auto
  then show ?thesis
    by (auto simp: deleteWalletEntry_def Let_def saveWalletIndex_def then_assoc
        intro!: writes_rules writes_then_write writes_then_save writes_then_unlink permitted.delist permitted.retain
          permitted_activate_next simp del: reread.simps)
qed

lemma writes_clear:
  assumes "sound_disk (v_disk v)"
  shows "writes (permitted k is_url) clearRetainedSeed v"
  using assms
  by (auto simp: clearRetainedSeed_def sound_disk_def split: option.split
      intro!: writes_rules writes_then_unlink writes_then_save permitted.release simp del: reread.simps)

lemma writes_logout: "writes (permitted k is_url) logout v"
  by (auto simp: logout_def intro!: writes_rules writes_then_memory writes_then_save permitted_activate simp del: reread.simps)

lemma writes_migrate:
  assumes "fresh_id u (v_disk v)"
  shows "writes (permitted k is_url) (migrateOldWallet k u) v"
proof (cases "d_legacy (v_disk v) = None \<or> listWallets (v_disk v) \<noteq> [] \<or> \<not> isSecureStorageAvailable k")
  case True
  then show ?thesis
    by (auto simp: migrateOldWallet_def intro!: writes_rules writes_write permitted.drop_legacy split: option.split)
next
  case False
  let ?d = "v_disk v"
  let ?e = "\<lparr>we_id = u, we_name = ''My Wallet'', we_address = [],
    we_account = None, we_addressIndex = None, we_provider = None\<rparr>"
  have s: "permitted k is_url ?d (?d\<lparr>d_seeds := (d_seeds ?d)(u \<mapsto> k_encrypt k m)\<rparr>)" for m
    using assms False by (intro permitted.seal) auto
  have e: "permitted k is_url d (d\<lparr>d_index := Holds [?e]\<rparr>)"
    if "d = ?d\<lparr>d_seeds := (d_seeds ?d)(u \<mapsto> k_encrypt k m)\<rparr>" for d m
    using permitted.enlist [of d ?e k is_url] assms False that by (auto simp: fresh_id_def)
  have "writes (permitted k is_url)
      (then_act (write_seed u (k_encrypt k m)) (\<lambda>_. then_act (saveWalletIndex [?e]) (\<lambda>_.
       then_act (saveSettings [(''activeWalletId'', JStr u)]) (\<lambda>_. write_disk (\<lambda>d. d\<lparr>d_legacy := None\<rparr>))))) v" for m
    unfolding write_seed_def saveWalletIndex_def
    by (intro writes_then_write writes_then_save writes_write s e permitted_activate permitted.drop_legacy) simp_all
  with False show ?thesis
    by (auto simp: migrateOldWallet_def intro!: writes_rules split: option.split)
qed

definition may_migrate :: "string \<Rightarrow> disk \<Rightarrow> bool" where
  "may_migrate u d \<longleftrightarrow> fresh_id u d \<or> d_legacy d = None"

lemma writes_may_migrate:
  assumes "may_migrate u (v_disk v)"
  shows "writes (permitted k is_url) (migrateOldWallet k u) v"
proof (cases "d_legacy (v_disk v)")
  case None
  then show ?thesis by (auto simp: migrateOldWallet_def intro!: writes_rules)
next
  case (Some t)
  with assms show ?thesis by (intro writes_migrate) (simp add: may_migrate_def)
qed

lemma migrate_again:
  assumes "may_migrate u (v_disk v)"
  shows "may_migrate u (v_disk (snd (migrateOldWallet k u v)))"
  using assms
  by (auto simp: may_migrate_def migrateOldWallet_def vault_run saveWalletIndex_def write_seed_def then_act_def saveSettings_eq
      simp del: reread.simps split: option.split)

lemma writes_dedupe:
  assumes "sound_disk (v_disk v)"
  shows "writes (permitted k is_url) (dedupeWalletEntries k) v"
proof -
  let ?d = "v_disk v"
  let ?ws = "listWallets ?d"
  let ?kept = "filter (kept_entry k ?d ?ws) ?ws" and ?dropped = "filter (\<lambda>w. \<not> kept_entry k ?d ?ws w) ?ws"
  have dist: "distinct (map we_id ?ws)" using assms by (simp add: sound_disk_def)
  have out: "we_id w \<notin> we_id ` set ?kept" if "w \<in> set ?dropped" for w
    using that dist by (auto simp: distinct_map inj_on_def)
  have shreds: "writes (permitted k is_url) (for_each (\<lambda>w. unlink_seed (we_id w)) ?dropped) v'"
    if "ids (v_disk v') = we_id ` set ?kept" for v'
  proof (rule writes_for_each [where I = "\<lambda>d. ids d = we_id ` set ?kept"])
    fix w and u :: vault assume w: "w \<in> set ?dropped" "ids (v_disk u) = we_id ` set ?kept"
    with out show "writes (permitted k is_url) (unlink_seed (we_id w)) u \<and> ids (v_disk (snd (unlink_seed (we_id w) u))) = we_id ` set ?kept"
      by (simp only: unlink_disk ids_simps) (auto intro: writes_unlink)
  qed (use that in simp)
  show ?thesis
    unfolding dedupeWalletEntries_def saveWalletIndex_def Let_def
    by (intro writes_read writes_if writes_idle writes_then_write permitted.delist writes_next [OF shreds])
      (auto intro!: writes_rules writes_then_save permitted_activate simp del: reread.simps split: option.split)
qed

lemma writes_migrations:
  "writes (permitted k is_url) migrateProviderModeToWallet v"
  "writes (permitted k is_url) migrateRpcMode v"
proof -
  show "writes (permitted k is_url) migrateProviderModeToWallet v"
  proof (cases "d_settings (v_disk v)")
    case (Holds x)
    show ?thesis
    proof (cases x)
      case (JObj fs)
      have "permitted k is_url (v_disk v) ((v_disk v)\<lparr>d_settings := Holds (reread (JObj (filter (\<lambda>(k, x). k \<noteq> ''providerMode'') fs)))\<rparr>)"
        using Holds JObj by (intro permitted.unprovide) simp
      then show ?thesis
        unfolding migrateProviderModeToWallet_def Let_def
        by (auto simp: Holds JObj simp del: reread.simps jget.simps has_key.simps split: option.split
            intro!: writes_rules writes_then_write writes_updates)
    qed (simp_all add: migrateProviderModeToWallet_def Holds writes_rules)
  qed (simp_all add: migrateProviderModeToWallet_def writes_rules)
  show "writes (permitted k is_url) migrateRpcMode v"
  proof (cases "d_settings (v_disk v)")
    case (Holds x)
    show ?thesis
    proof (cases x)
      case (JObj fs)
      have "permitted k is_url (v_disk v) ((v_disk v)\<lparr>d_settings := Holds (reread (JObj (put ''rpcMode'' (JStr ''manual'') fs)))\<rparr>)"
        using Holds JObj by (intro permitted.pin_endpoint) simp
      then show ?thesis
        unfolding migrateRpcMode_def
        by (auto simp: Holds JObj simp del: reread.simps jget.simps has_key.simps split: js.split
            intro!: writes_rules writes_write)
    qed (simp_all add: migrateRpcMode_def Holds writes_rules)
  qed (simp_all add: migrateRpcMode_def writes_rules)
qed

lemma writes_import:
  assumes "fresh_id u (v_disk v)"
  shows "writes (permitted k is_url) (importWallet k dv u m n a) v"
  unfolding importWallet_def Let_def load_def using assms
  by (auto simp: case_prod_beta then_assoc simp del: reread.simps
      intro!: writes_then_from writes_then_read writes_next [OF writes_add] writes_then_save permitted_activate
        writes_then_memory writes_idle)

lemma writes_restore:
  assumes "may_migrate u (v_disk v)"
  shows "writes (permitted k is_url) (restoreWallet k dv u) v"
  unfolding restoreWallet_def Let_def load_def
  by (intro writes_next [OF writes_may_migrate [OF assms]])
    (auto simp: case_prod_beta split: option.split intro!: writes_rules writes_then_memory writes_next [OF writes_updates(1)])

lemma writes_switch: "writes (permitted k is_url) (switchWallet k dv i) v"
  unfolding switchWallet_def Let_def load_def
  by (auto simp: case_prod_beta simp del: reread.simps split: option.split
      intro!: writes_rules writes_then_save permitted_activate writes_then_memory)

lemma writes_derive:
  assumes "fresh_id u (v_disk v)" and "sound_disk (v_disk v)"
  shows "writes (permitted k is_url) (deriveSubaccount k dv u i a x n) v"
  unfolding deriveSubaccount_def using assms
  by (auto simp: case_prod_beta intro!: writes_rules writes_then [OF writes_add] writes_next [OF writes_clear])

section \<open>Reachable stores\<close>

text \<open>The migration a launch begins with, which copies what it can of \<open>old\<close>, the profile of the app's previous
  name; one handler, repair or restore; and what the rest of the app does to the session book. The identifiers
  drawn are fresh, and an object that arrives has distinct keys.\<close>

inductive vault_step ::
  "keyring \<Rightarrow> derivation \<Rightarrow> (string \<Rightarrow> bool) \<Rightarrow> disk \<Rightarrow> vault \<Rightarrow> vault \<Rightarrow> bool" for k dv is_url old where
  legacy: "vault_step k dv is_url old v (snd (migrateLegacyUserData old copied v))"
| dedupe: "vault_step k dv is_url old v (snd (dedupeWalletEntries k v))"
| provider_mode: "vault_step k dv is_url old v (snd (migrateProviderModeToWallet v))"
| rpc_mode: "vault_step k dv is_url old v (snd (migrateRpcMode v))"
| has_stored: "may_migrate u (v_disk v) \<Longrightarrow> vault_step k dv is_url old v (snd (WALLET_HAS_STORED k u v))"
| import_wallet: "fresh_id u (v_disk v) \<Longrightarrow> vault_step k dv is_url old v (snd (WALLET_IMPORT k dv u m n v))"
| get_address: "may_migrate u (v_disk v) \<Longrightarrow> vault_step k dv is_url old v (snd (WALLET_GET_ADDRESS k dv u v))"
| get_balance: "vault_step k dv is_url old v (snd (WALLET_GET_BALANCE up reading v))"
| switch: "vault_step k dv is_url old v (snd (WALLET_SWITCH k dv i v))"
| delete: "vault_step k dv is_url old v (snd (WALLET_DELETE i keep v))"
| delete_all: "vault_step k dv is_url old v (snd (WALLET_DELETE_ALL v))"
| delete_seed: "vault_step k dv is_url old v (snd (WALLET_DELETE_SEED k dv i keep v))"
| rename: "vault_step k dv is_url old v (snd (WALLET_RENAME i n v))"
| derive: "fresh_id u (v_disk v) \<Longrightarrow> vault_step k dv is_url old v (snd (WALLET_DERIVE_SUBACCOUNT k dv u params v))"
| set_provider: "vault_step k dv is_url old v (snd (PROVIDER_MODE_SET x v))"
| settings: "(\<And>fs. x = JObj fs \<Longrightarrow> distinct (map fst fs)) \<Longrightarrow> vault_step k dv is_url old v (snd (SETTINGS_SET is_url x v))"
| session: "vault_step k dv is_url old v (v\<lparr>v_book := b\<rparr>)"

definition boot :: "disk \<Rightarrow> vault" where
  "boot d = \<lparr>v_disk = d, v_past = [], v_loaded = None, v_book = empty_book, v_balance = JNull,
     v_planOverview = JNull, v_providerOverview = JNull\<rparr>"

text \<open>A process starts on a disk, takes steps, and may die in the middle of one: the next process finds the
  disk as it was after any of the writes of that step.\<close>

inductive vault_reachable ::
  "keyring \<Rightarrow> derivation \<Rightarrow> (string \<Rightarrow> bool) \<Rightarrow> disk \<Rightarrow> disk \<Rightarrow> vault \<Rightarrow> bool" for k dv is_url old d0 where
  started: "vault_reachable k dv is_url old d0 (boot d0)"
| stepped: "vault_reachable k dv is_url old d0 v \<Longrightarrow> vault_step k dv is_url old v v' \<Longrightarrow> vault_reachable k dv is_url old d0 v'"
| crashed: "vault_reachable k dv is_url old d0 v \<Longrightarrow> vault_step k dv is_url old v v' \<Longrightarrow>
    d \<in> set (drop (length (v_past v)) (v_past v') @ [v_disk v']) \<Longrightarrow> vault_reachable k dv is_url old d0 (boot d)"

lemma writes_not_connected: "(not_connected a v = (Inr (), v) \<Longrightarrow> writes R (f ()) v) \<Longrightarrow> writes R (then_act (not_connected a) f) v"
  by (rule writes_next) (auto simp: not_connected_def writes_def vault_run intro: path.stay)

lemma writes_forget: "writes R forget_answers v"
  by (simp add: forget_answers_def writes_memory)

lemma writes_deletes:
  "writes (permitted k is_url) (for_each (\<lambda>w. deleteWalletEntry (we_id w) False) ws) v"
  "writes (permitted k is_url) (for_each (\<lambda>w. if P w then deleteWalletEntry (we_id w) False else give ()) ws) v"
  by (rule writes_for_each [where I = "\<lambda>d. True"]; auto intro: writes_delete writes_idle)+

lemma writes_get_address:
  assumes "may_migrate u (v_disk v)"
  shows "writes (permitted k is_url) (WALLET_GET_ADDRESS k dv u) v"
proof -
  let ?r = "\<lambda>stored v. (if stored \<and> (case v_loaded v of None \<Rightarrow> True | Some l \<Rightarrow> l_address l = [])
      then then_act (restoreWallet k dv u) (\<lambda>_. give ()) else give ()) v"
  have stored: "may_migrate u (v_disk v')" if "hasStoredWallet k u v = (Inr x, v')" for x v'
    using migrate_again [OF assms, of k] that
    by (auto simp: hasStoredWallet_def then_act_def vault_run split: prod.splits sum.splits option.splits)
  have "writes (permitted k is_url) (hasStoredWallet k u) v"
    unfolding hasStoredWallet_def
    by (intro writes_next [OF writes_may_migrate [OF assms]]) (auto intro!: writes_rules split: option.split)
  moreover have "writes (permitted k is_url) (?r x) v'" if "may_migrate u (v_disk v')" for x v'
  proof -
    have "writes (permitted k is_url) (then_act (restoreWallet k dv u) (\<lambda>_. give ())) v'"
      by (intro writes_next [OF writes_restore [OF that]] writes_idle)
    then show ?thesis by (auto simp: writes_def vault_run intro: path.stay)
  qed
  moreover have "writes R (\<lambda>v. give (map_option l_address (v_loaded v)) v) v'" for R v'
    by (auto simp: writes_def vault_run intro: path.stay)
  ultimately show ?thesis
    unfolding WALLET_GET_ADDRESS_def by (intro writes_next) (auto dest: stored)
qed

lemma writes_delete_seed: "writes (permitted k is_url) (WALLET_DELETE_SEED k dv i keep) v"
  unfolding WALLET_DELETE_SEED_def delete_members_def Let_def
  by (auto split: option.split prod.split simp: then_assoc
      intro!: writes_rules writes_not_connected writes_next [OF writes_deletes(1)] writes_next [OF writes_deletes(2)] writes_next [OF writes_delete]
        writes_next [OF writes_switch] writes_next [OF writes_forget] writes_next [OF writes_logout])

lemma map_of_allowed: "fst ` set (filter (\<lambda>(key, x). key \<in> A) fs) \<subseteq> A"
  by auto

lemma writes_settings: 
  assumes "\<forall>fs. x = JObj fs \<longrightarrow> distinct (map fst fs)"
  shows "writes (permitted k is_url) (SETTINGS_SET is_url x) v"
proof -
  have d: "distinct (map fst (Json.fields x))"
  proof (cases x)
    case (JArr xs)
    have "inj_on show_nat A" for A by (metis inj_on_def read_show_nat)
    then have "distinct (map show_nat [0..<length xs])" by (simp add: distinct_map)
    then show ?thesis by (simp add: JArr)
  qed (use assms in simp_all)
  let ?s = "filter (\<lambda>(key, x). key \<in> set allowed_settings) (Json.fields x)"
  have "permitted k is_url (v_disk v) (saved ?s (v_disk v))" if "check_settings is_url (JObj ?s) = Inr ()"
    using that d by (intro permitted.configure) (auto simp: distinct_map_filter)
  then show ?thesis
    unfolding SETTINGS_SET_def Let_def
    by (auto simp del: reread.simps intro!: writes_rules writes_then_save)
qed

text \<open>There is nothing, or nothing more, to bring across from the old profile.\<close>

definition settled_profile :: "disk \<Rightarrow> disk \<Rightarrow> bool" where
  "settled_profile old d \<longleftrightarrow> d_index d \<noteq> Missing \<or> d_index old = Missing"

lemma permitted_settled: "permitted k is_url d d' \<Longrightarrow> settled_profile old d \<Longrightarrow> settled_profile old d'"
  by (induction rule: permitted.induct) (simp_all add: settled_profile_def)

text \<open>All but four of the steps make permitted writes whatever the disk is like.\<close>

lemma step_kinds:
  assumes "vault_step k dv is_url old v v'"
  obtains (migrates) copied where "v' = snd (migrateLegacyUserData old copied v)"
    | (repairs) "v' = snd (dedupeWalletEntries k v)"
    | (wipes) "v' = snd (WALLET_DELETE_ALL v)"
    | (derives) u params where "fresh_id u (v_disk v)" and "v' = snd (WALLET_DERIVE_SUBACCOUNT k dv u params v)"
    | (plain) m :: "unit act" where "writes (permitted k is_url) m v" and "snd (m v) = v'"
proof -
  have unit: thesis if "writes (permitted k is_url) m' v" and "v' = snd (m' v)" for m' :: "'x act"
    using that by (intro plain [of "\<lambda>v. (Inr (), snd (m' v))"]) (simp_all add: writes_def)
  note r = writes_rules writes_not_connected
  from assms show ?thesis
  proof cases
    case (legacy copied)
    then show ?thesis by (rule migrates)
  next
    case dedupe
    then show ?thesis by (rule repairs)
  next
    case provider_mode
    then show ?thesis by (rule unit [OF writes_migrations(1)])
  next
    case rpc_mode
    then show ?thesis by (rule unit [OF writes_migrations(2)])
  next
    case (has_stored u)
    have "writes (permitted k is_url) (WALLET_HAS_STORED k u) v"
      unfolding WALLET_HAS_STORED_def hasStoredWallet_def
      by (intro writes_next [OF writes_may_migrate [OF has_stored(2)]]) (auto intro!: r split: option.split)
    from this has_stored(1) show ?thesis by (rule unit)
  next
    case (import_wallet u m n)
    have "writes (permitted k is_url) (WALLET_IMPORT k dv u m n) v"
      unfolding WALLET_IMPORT_def Let_def
      by (intro r writes_import import_wallet(2))
    from this import_wallet(1) show ?thesis by (rule unit)
  next
    case (get_address u)
    then show ?thesis by (intro unit [OF writes_get_address])
  next
    case (get_balance up reading)
    have "writes (permitted k is_url) (WALLET_GET_BALANCE up reading) v"
      unfolding WALLET_GET_BALANCE_def by (auto simp: writes_def vault_run intro: path.stay split: sum.splits option.splits)
    from this get_balance show ?thesis by (rule unit)
  next
    case (switch i)
    have "writes (permitted k is_url) (WALLET_SWITCH k dv i) v"
      unfolding WALLET_SWITCH_def
      by (intro r writes_next [OF writes_switch] writes_next [OF writes_forget])
    from this switch show ?thesis by (rule unit)
  next
    case (delete i keep)
    have "writes (permitted k is_url) (WALLET_DELETE i keep) v"
      unfolding WALLET_DELETE_def by (intro r writes_delete)
    from this delete show ?thesis by (rule unit)
  next
    case delete_all
    then show ?thesis by (rule wipes)
  next
    case (delete_seed i keep)
    then show ?thesis by (rule unit [OF writes_delete_seed])
  next
    case (rename i n)
    have "writes (permitted k is_url) (WALLET_RENAME i n) v"
      unfolding WALLET_RENAME_def by (intro r writes_updates)
    from this rename show ?thesis by (rule unit)
  next
    case (derive u params)
    then show ?thesis by (intro derives)
  next
    case (set_provider x)
    have "writes (permitted k is_url) (PROVIDER_MODE_SET x) v"
      unfolding PROVIDER_MODE_SET_def by (auto intro!: r writes_updates split: js.split option.split)
    from this set_provider show ?thesis by (rule unit)
  next
    case (settings x)
    then show ?thesis by (intro unit [OF writes_settings]) auto
  next
    case (session b)
    then show ?thesis
      by (intro plain [of "\<lambda>v. (Inr (), v\<lparr>v_book := b\<rparr>)"]) (auto simp: writes_def intro: path.stay)
  qed
qed

lemma step_writes:
  assumes "vault_step k dv is_url old v v'" and "sound_disk (v_disk v)" and "settled_profile old (v_disk v)"
  shows "\<exists>m :: unit act. writes (permitted k is_url) m v \<and> snd (m v) = v'"
proof -
  have unit: "\<exists>m :: unit act. writes (permitted k is_url) m v \<and> snd (m v) = snd (m' v)"
    if "writes (permitted k is_url) m' v" for m' :: "'x act"
    using that by (intro exI [of _ "\<lambda>v. (Inr (), snd (m' v))"]) (simp add: writes_def)
  from assms(1) show ?thesis
  proof (cases rule: step_kinds)
    case (migrates copied)
    have "migrateLegacyUserData old copied v = give () v"
      using assms(3) by (auto simp: migrateLegacyUserData_def settled_profile_def vault_run)
    with migrates show ?thesis
      by (intro exI [of _ "give ()"]) (simp add: writes_idle)
  next
    case repairs
    then show ?thesis using unit [OF writes_dedupe [OF assms(2)]] by simp
  next
    case wipes
    have "writes (permitted k is_url) WALLET_DELETE_ALL v"
      unfolding WALLET_DELETE_ALL_def
      by (intro writes_not_connected writes_then [OF _ assms(2)] writes_next [OF writes_clear] writes_read writes_deletes writes_logout)
    then show ?thesis using unit wipes by blast
  next
    case (derives u params)
    have "writes (permitted k is_url) (WALLET_DERIVE_SUBACCOUNT k dv u params) v"
      unfolding WALLET_DERIVE_SUBACCOUNT_def by (intro writes_rules writes_not_connected writes_derive derives(1) assms(2))
    then show ?thesis using unit derives(2) by blast
  next
    case (plain m)
    then show ?thesis by blast
  qed
qed

text \<open>Every disk a process goes through follows from the one it started on by permitted writes.\<close>

definition disks :: "vault \<Rightarrow> disk set" where
  "disks v = insert (v_disk v) (set (v_past v))"

lemma disks_invariant:
  assumes "vault_reachable k dv is_url old d0 v" and "J d0"
    and "\<And>v v'. vault_step k dv is_url old v v' \<Longrightarrow> J (v_disk v) \<Longrightarrow>
      \<exists>m :: unit act. writes R m v \<and> snd (m v) = v'"
    and "\<And>d d'. R d d' \<Longrightarrow> J d \<Longrightarrow> J d'"
  shows "\<forall>d \<in> disks v. J d"
proof -
  have step: "\<forall>d \<in> disks v'. J d" if st: "vault_step k dv is_url old v v'" and ih: "\<forall>d \<in> disks v. J d" for v v'
  proof -
    have s: "J (v_disk v)" using ih by (simp add: disks_def)
    from assms(3) [OF st s] obtain m :: "unit act" where m: "writes R m v" "snd (m v) = v'" by blast
    then obtain ds where ds: "v_past v' = v_past v @ ds" "path R (v_disk v) ds (v_disk v')"
      by (auto simp: writes_def)
    show ?thesis
      using path_invariant [OF ds(2), of J, OF assms(4) s] ih ds(1) by (auto simp: disks_def)
  qed
  show ?thesis
    using assms(1)
  proof induction
    case started
    then show ?case using assms(2) by (simp add: disks_def boot_def)
  next
    case (stepped v v')
    then show ?case using step by blast
  next
    case (crashed v v' d)
    then have "d \<in> disks v'" by (auto simp: disks_def dest: in_set_dropD)
    with step [OF crashed.hyps(2) crashed.IH] have "J d" by blast
    then show ?case by (simp add: disks_def boot_def)
  qed
qed

lemma reachable_invariant:
  assumes "vault_reachable k dv is_url old d0 v" and "sound_disk d0" and "settled_profile old d0" and "I d0"
    and "\<And>d d'. permitted k is_url d d' \<Longrightarrow> sound_disk d \<Longrightarrow> I d \<Longrightarrow> I d'" and "d \<in> disks v"
  shows "sound_disk d \<and> I d"
proof -
  let ?J = "\<lambda>d. sound_disk d \<and> settled_profile old d \<and> I d"
  have J: "permitted k is_url d d' \<Longrightarrow> ?J d \<Longrightarrow> ?J d'" for d d'
    using permitted_sound permitted_settled assms(5) by blast
  have "\<forall>d \<in> disks v. ?J d"
    by (rule disks_invariant [OF assms(1), where R = "permitted k is_url"]) (use assms(2-4) step_writes J in blast)+
  with assms(6) show ?thesis by blast
qed

section \<open>Seeds through any step\<close>

text \<open>Without any assumption on the profile, one whose index names seeds it does not have included: a step may
  remove seed files, bring one from the old profile or seal one; it writes no other.\<close>

definition sealed_under :: "keyring \<Rightarrow> string \<Rightarrow> bool" where
  "sealed_under k t \<longleftrightarrow> k_available k \<and> k_backend k \<noteq> Some ''basic_text'' \<and> t \<in> range (k_encrypt k)"

definition sealing :: "keyring \<Rightarrow> disk \<Rightarrow> disk \<Rightarrow> disk \<Rightarrow> bool" where
  "sealing k old d d' \<longleftrightarrow>
     (\<forall>i t. d_seeds d' i = Some t \<longrightarrow> d_seeds d i = Some t \<or> d_seeds old i = Some t \<or> sealed_under k t)"

lemma writes_mono: "writes R m v \<Longrightarrow> (\<And>d d'. R d d' \<Longrightarrow> S d d') \<Longrightarrow> writes S m v"
proof -
  assume w: "writes R m v" and rs: "\<And>d d'. R d d' \<Longrightarrow> S d d'"
  have "path S d ds d'" if "path R d ds d'" for d ds d'
    using that by (induction rule: path.induct) (auto intro: path.intros rs)
  with w show ?thesis unfolding writes_def by blast
qed

lemma permitted_sealing: "permitted k is_url d d' \<Longrightarrow> sealing k old d d'"
  by (induction rule: permitted.induct) (auto simp: sealing_def sealed_under_def isSecureStorageAvailable_def)

lemma sealing_same: "d_seeds d' = d_seeds d \<Longrightarrow> sealing k old d d'"
  by (simp add: sealing_def)

lemma sealing_unlink: "writes (sealing k old) (unlink_seed i) v"
  by (auto simp: unlink_seed_def sealing_def intro!: writes_rules writes_write)

lemma sealing_unlinks: "writes (sealing k old) (for_each (\<lambda>w. unlink_seed (f w)) ws) v"
  by (rule writes_for_each [where I = "\<lambda>_. True"]) (auto intro: sealing_unlink)

lemma sealing_clear: "writes (sealing k old) clearRetainedSeed v"
  by (auto simp: clearRetainedSeed_def split: option.split
      intro!: writes_rules writes_next [OF sealing_unlink] writes_then_save sealing_same simp del: reread.simps)

lemma sealing_dedupe: "writes (sealing k old) (dedupeWalletEntries k) v"
  unfolding dedupeWalletEntries_def saveWalletIndex_def Let_def
  by (intro writes_read writes_if writes_idle writes_then_write sealing_same writes_next [OF sealing_unlinks])
    (auto intro!: writes_rules writes_then_save sealing_same simp del: reread.simps split: option.split)

lemma sealing_legacy: "writes (sealing k old) (migrateLegacyUserData old copied) v"
  unfolding migrateLegacyUserData_def
  by (intro writes_read writes_if writes_idle writes_then_if writes_then_write writes_then_give writes_write)
    (auto simp: sealing_def)

lemma sealing_delete_all: "writes (sealing k old) WALLET_DELETE_ALL v"
  unfolding WALLET_DELETE_ALL_def
  by (intro writes_not_connected writes_next [OF writes_mono [OF writes_read [OF writes_deletes(1)] permitted_sealing]]
      writes_next [OF sealing_clear] writes_mono [OF writes_logout permitted_sealing])

lemma sealing_derive:
  assumes "fresh_id u (v_disk v)"
  shows "writes (sealing k old) (WALLET_DERIVE_SUBACCOUNT k dv u params) v"
  unfolding WALLET_DERIVE_SUBACCOUNT_def deriveSubaccount_def Let_def
  by (intro writes_rules)
    (auto simp: case_prod_beta intro!: writes_rules writes_next [OF writes_mono [OF writes_add [OF assms] permitted_sealing]]
      writes_next [OF sealing_clear])

lemma step_sealing:
  assumes "vault_step k dv is_url old v v'"
  shows "\<exists>m :: unit act. writes (sealing k old) m v \<and> snd (m v) = v'"
proof -
  have unit: "\<exists>m :: unit act. writes (sealing k old) m v \<and> snd (m v) = snd (m' v)"
    if "writes (sealing k old) m' v" for m' :: "'x act"
    using that by (intro exI [of _ "\<lambda>v. (Inr (), snd (m' v))"]) (simp add: writes_def)
  from assms show ?thesis
  proof (cases rule: step_kinds)
    case migrates
    then show ?thesis using unit [OF sealing_legacy] by blast
  next
    case repairs
    then show ?thesis using unit [OF sealing_dedupe] by blast
  next
    case wipes
    then show ?thesis using unit [OF sealing_delete_all] by blast
  next
    case derives
    then show ?thesis using unit [OF sealing_derive] by blast
  next
    case plain
    then show ?thesis using writes_mono permitted_sealing by blast
  qed
qed

text \<open>Every seed file was there at first, comes from the old profile or was sealed.\<close>

definition sealed_since :: "keyring \<Rightarrow> disk \<Rightarrow> disk \<Rightarrow> disk \<Rightarrow> bool" where
  "sealed_since k old d0 d \<longleftrightarrow>
     (\<forall>i t. d_seeds d i = Some t \<longrightarrow> d_seeds d0 i = Some t \<or> d_seeds old i = Some t \<or> sealed_under k t)"

lemma reachable_sealed:
  assumes "vault_reachable k dv is_url old d0 v"
  shows "\<forall>d \<in> disks v. sealed_since k old d0 d"
  by (rule disks_invariant [OF assms, where R = "sealing k old"])
    (use step_sealing in \<open>blast | auto simp: sealed_since_def sealing_def\<close>)+

end
