(* ===== verification/WalletSafety.thy ===== *)
theory WalletSafety
  imports VaultProps
begin

text \<open>
  The properties of the wallet store: what holds of every disk a process goes through, crashes included, and
  what the deleting handlers and the repairs leave.
\<close>

section \<open>Listed wallets can be unlocked\<close>

definition keyring_opens :: "keyring \<Rightarrow> bool" where
  "keyring_opens k \<longleftrightarrow> k_available k \<and> (\<forall>m. k_decrypt k (k_encrypt k m) = Some m)"

definition readable :: "keyring \<Rightarrow> disk \<Rightarrow> bool" where
  "readable k d \<longleftrightarrow> (\<forall>i t. d_seeds d i = Some t \<longrightarrow> k_decrypt k t \<noteq> None)"

lemma permitted_readable:
  assumes "permitted k is_url d d'" and "keyring_opens k" and "readable k d"
  shows "readable k d'"
  using assms by cases (auto simp: readable_def keyring_opens_def)

lemma unlock_cong: "d_seeds d' i = d_seeds d i \<Longrightarrow> canUnlockWallet k d' i = canUnlockWallet k d i"
  by (simp add: canUnlockWallet_def getWalletMnemonic_def)

lemma readable_unlocks: "k_available k \<Longrightarrow> readable k d \<Longrightarrow> d_seeds d i \<noteq> None \<Longrightarrow> canUnlockWallet k d i"
  by (force simp: canUnlockWallet_def getWalletMnemonic_def readable_def split: option.split)

text \<open>
  C27. From a profile whose listed wallets all have their seed file, whose seed files all decrypt, and which has
  nothing left to bring across from the profile of the app's previous name (it has a wallet index, or there is no
  old one), on a keyring that opens what it sealed: every disk the app goes through (between any two writes of
  any handler, and across crashes there and launches) has distinct wallet ids, lists no wallet whose seed
  cannot be unlocked, and does not list the retained seed. What the migration itself brings across is not
  covered: its wallets are listed and may not unlock (\<open>migrated_wallets_locked\<close>).
\<close>

theorem listed_wallets_unlock:
  assumes "vault_reachable k dv is_url old d0 v" and "d \<in> disks v"
    and "sound_disk d0" and "keyring_opens k" and "readable k d0" and "settled_profile old d0"
  shows "distinct (map we_id (listWallets d)) \<and> list_all (\<lambda>w. canUnlockWallet k d (we_id w)) (listWallets d) \<and>
    (case retained_id d of None \<Rightarrow> True | Some r \<Rightarrow> r \<notin> we_id ` set (listWallets d))"
proof -
  have "sound_disk d \<and> readable k d"
    using reachable_invariant [of k dv is_url old d0 v "readable k" d] permitted_readable assms by blast
  then have s: "sound_disk d" and r: "readable k d" by simp_all
  have "canUnlockWallet k d (we_id w)" if "w \<in> set (listWallets d)" for w
    using that s r assms(4) by (intro readable_unlocks) (auto simp: sound_disk_def ids_def keyring_opens_def)
  with s show ?thesis by (auto simp: sound_disk_def ids_def list_all_iff split: option.split)
qed

text \<open>The keyring looks its key up by the app's name, so the seeds the launch migration copies do not decrypt:
  their wallets are listed, by name and address, and none of them can be unlocked.\<close>

lemma migrated_wallets_locked:
  assumes "d_index (v_disk v) = Missing" and "d_index old = Holds ws" and "\<And>i. copied i"
    and "\<And>i t. d_seeds old i = Some t \<Longrightarrow> k_decrypt k t = None" and "w \<in> set ws"
    and "d_seeds old (we_id w) \<noteq> None"
  shows "let d = v_disk (snd (migrateLegacyUserData old copied v)) in
    listWallets d = ws \<and> \<not> canUnlockWallet k d (we_id w)"
proof -
  obtain t where t: "d_seeds old (we_id w) = Some t" using assms(6) by blast
  with assms(4) have "k_decrypt k t = None" by blast
  with t assms(1-3) show ?thesis
    by (auto simp: migrateLegacyUserData_def vault_run listWallets_def canUnlockWallet_def getWalletMnemonic_def Let_def)
qed

section \<open>Seeds are written only under a real keyring\<close>

text \<open>
  C26. Whatever the app does, and wherever it dies, the migration of the profile of its previous name that a
  launch begins with included, and whatever the profile was like, each seed file on the disk is one the profile
  started with, one copied unchanged from the old profile, or one encrypted by the keyring while its backend was
  not the reversible \<open>basic_text\<close>.
\<close>

theorem seeds_sealed:
  assumes "vault_reachable k dv is_url old d0 v" and "d \<in> disks v" and "d_seeds d i = Some t"
  shows "d_seeds d0 i = Some t \<or> d_seeds old i = Some t \<or>
    k_available k \<and> k_backend k \<noteq> Some ''basic_text'' \<and> (\<exists>m. t = k_encrypt k m)"
  using reachable_sealed [OF assms(1)] assms(2,3) unfolding sealed_since_def sealed_under_def by blast

section \<open>Settings stay valid\<close>

definition valid_setting :: "(string \<Rightarrow> bool) \<Rightarrow> string \<Rightarrow> js \<Rightarrow> bool" where
  "valid_setting is_url key x =
     (if key = ''rpcEndpoint'' then (\<exists>u. x = JStr u \<and> u \<noteq> [] \<and> is_url u)
      else if key = ''rpcMode'' then x = JStr ''auto'' \<or> x = JStr ''manual''
      else if key = ''dnsResolver'' then (\<exists>s. x = JStr s \<and> (s = ''system'' \<or> s \<in> set ALLOWED_DNS_RESOLVERS))
      else if key = ''bookmarkedNodes'' then is_array x
      else if key = ''splitTunnelRoutes'' then
        (\<exists>rs. x = JArr (map JStr rs) \<and> length rs \<le> 64 \<and> list_all isAllowedBypassCidr rs)
      else (\<exists>b. x = JBool b))"

definition valid_settings :: "(string \<Rightarrow> bool) \<Rightarrow> disk \<Rightarrow> bool" where
  "valid_settings is_url d \<longleftrightarrow> list_all (\<lambda>key. valid_setting is_url key (setting key d)) allowed_settings"

lemma routes_strings:
  assumes "each (\<lambda>r. case r of
      JStr s \<Rightarrow> if isAllowedBypassCidr s then ok () else throw (''Invalid CIDR route: '' @ to_string r)
    | _ \<Rightarrow> throw (''Invalid CIDR route: '' @ to_string r)) xs = Inr ()"
  shows "\<exists>rs. xs = map JStr rs \<and> list_all isAllowedBypassCidr rs"
  using assms
proof (induction xs)
  case (Cons x xs)
  then obtain rs where "xs = map JStr rs" "list_all isAllowedBypassCidr rs" by (auto simp: and_then_eq_ok)
  moreover obtain s where "x = JStr s" "isAllowedBypassCidr s"
    using Cons.prems by (cases x) (auto simp: and_then_eq_ok split: if_splits)
  ultimately show ?case by (intro exI [of _ "s # rs"]) simp
qed simp

lemma checked_setting:
  assumes "check_settings is_url s = Inr ()" and "key \<in> set allowed_settings" and "jget key s \<noteq> JUndef"
  shows "valid_setting is_url key (jget key s)"
proof -
  have flag: "check_flag n x = Inr () \<Longrightarrow> x \<noteq> JUndef \<Longrightarrow> \<exists>b. x = JBool b" for n x
    by (cases x) (auto simp: check_flag_def)
  have c: "check_endpoint is_url (jget ''rpcEndpoint'' s) = Inr ()" "check_mode (jget ''rpcMode'' s) = Inr ()"
    "check_flag ''killSwitch'' (jget ''killSwitch'' s) = Inr ()" "check_flag ''lanSharing'' (jget ''lanSharing'' s) = Inr ()"
    "check_resolver (jget ''dnsResolver'' s) = Inr ()" "check_flag ''autoReconnect'' (jget ''autoReconnect'' s) = Inr ()"
    "check_flag ''signedNodesOnly'' (jget ''signedNodesOnly'' s) = Inr ()" "check_bookmarks (jget ''bookmarkedNodes'' s) = Inr ()"
    "check_routes (jget ''splitTunnelRoutes'' s) = Inr ()"
    using assms(1) by (auto simp: check_settings_def and_then_eq_ok)
  have e: "valid_setting is_url ''rpcEndpoint'' x" if "check_endpoint is_url x = Inr ()" "x \<noteq> JUndef" for x
    using that by (auto simp: check_endpoint_def and_then_eq_ok assertString_ok valid_setting_def the_string_def split: if_splits)
  have m: "valid_setting is_url ''rpcMode'' x" if "check_mode x = Inr ()" "x \<noteq> JUndef" for x
    using that by (auto simp: check_mode_def valid_setting_def split: if_splits)
  have r: "valid_setting is_url ''dnsResolver'' x" if "check_resolver x = Inr ()" "x \<noteq> JUndef" for x
    using that by (auto simp: check_resolver_def and_then_eq_ok assertString_ok valid_setting_def the_string_def
        isAllowedDnsResolver_def split: if_splits)
  have b: "valid_setting is_url ''bookmarkedNodes'' x" if "check_bookmarks x = Inr ()" "x \<noteq> JUndef" for x
    using that by (auto simp: check_bookmarks_def valid_setting_def split: if_splits)
  have t: "valid_setting is_url ''splitTunnelRoutes'' x" if "check_routes x = Inr ()" "x \<noteq> JUndef" for x
  proof (cases x)
    case (JArr xs)
    with that obtain rs where "xs = map JStr rs" "list_all isAllowedBypassCidr rs"
      using routes_strings [of xs] by (auto simp: check_routes_def split: if_splits)
    with that JArr show ?thesis by (auto simp: valid_setting_def check_routes_def split: if_splits)
  qed (use that in \<open>simp_all add: check_routes_def\<close>)
  have f: "valid_setting is_url n x" if "check_flag n x = Inr ()" "x \<noteq> JUndef"
    "n = ''killSwitch'' \<or> n = ''lanSharing'' \<or> n = ''autoReconnect'' \<or> n = ''signedNodesOnly''" for n x
    using flag [OF that(1,2)] that(3) unfolding valid_setting_def by (elim disjE) simp_all
  have "list_all (\<lambda>key. jget key s \<noteq> JUndef \<longrightarrow> valid_setting is_url key (jget key s)) allowed_settings"
    unfolding allowed_settings_def list.pred_inject
    using e [OF c(1)] m [OF c(2)] f [OF c(3)] f [OF c(4)] r [OF c(5)] f [OF c(6)] f [OF c(7)] b [OF c(8)] t [OF c(9)]
    by simp
  with assms(2,3) show ?thesis by (simp add: list_all_iff)
qed

lemma valid_not_undefined: "\<not> valid_setting is_url key JUndef"
  by (simp add: valid_setting_def)

lemma valid_reread: "valid_setting is_url key x \<Longrightarrow> valid_setting is_url key (reread x)"
  unfolding valid_setting_def by (cases x) (auto simp: comp_def split: if_splits)

lemma default_routes: "list_all isAllowedBypassCidr [''10.0.0.0/8'', ''172.16.0.0/12'', ''192.168.0.0/16'']"
  by code_simp

lemma valid_default:
  assumes "is_url ''https://rpc.sentinel.co:443''"
  shows "list_all (\<lambda>key. valid_setting is_url key (default_setting key)) allowed_settings"
proof -
  have r: "default_setting ''splitTunnelRoutes'' = JArr (map JStr [''10.0.0.0/8'', ''172.16.0.0/12'', ''192.168.0.0/16''])"
    by (simp add: default_setting_def DEFAULT_SETTINGS_def)
  have "valid_setting is_url ''splitTunnelRoutes'' (default_setting ''splitTunnelRoutes'')"
    unfolding valid_setting_def r using default_routes
    by (auto simp del: list.map intro!: exI [of _ "[''10.0.0.0/8'', ''172.16.0.0/12'', ''192.168.0.0/16'']"])
  then show ?thesis
    using assms unfolding allowed_settings_def list.pred_inject
    by (auto simp: valid_setting_def default_setting_def DEFAULT_SETTINGS_def)
qed


lemma valid_settingsD:
  "valid_settings is_url d \<Longrightarrow> key \<in> set allowed_settings \<Longrightarrow> valid_setting is_url key (setting key d)"
  by (simp add: valid_settings_def list_all_iff)

lemma valid_defaultD:
  "is_url ''https://rpc.sentinel.co:443'' \<Longrightarrow> key \<in> set allowed_settings \<Longrightarrow>
   valid_setting is_url key (default_setting key)"
  using valid_default [of is_url] by (simp add: list_all_iff)

lemma valid_after_save:
  assumes "valid_settings is_url d" and "is_url ''https://rpc.sentinel.co:443''"
    and "\<And>key x. key \<in> set allowed_settings \<Longrightarrow> map_of (rev s) key = Some x \<Longrightarrow> x \<noteq> JUndef \<Longrightarrow> valid_setting is_url key x"
  shows "valid_settings is_url (saved s d)"
proof -
  have "valid_setting is_url key (setting key (saved s d))" if k: "key \<in> set allowed_settings" for key
    unfolding setting_saved
    using assms(3) [OF k] valid_settingsD [OF assms(1) k] valid_defaultD [of is_url key, OF assms(2) k]
    by (auto intro: valid_reread split: option.split)
  then show ?thesis by (simp add: valid_settings_def list_all_iff)
qed

lemma valid_settings_simps [simp]:
  "valid_settings is_url (d\<lparr>d_index := x\<rparr>) = valid_settings is_url d"
  "valid_settings is_url (d\<lparr>d_seeds := y\<rparr>) = valid_settings is_url d"
  "valid_settings is_url (d\<lparr>d_legacy := z\<rparr>) = valid_settings is_url d"
  by (simp_all add: valid_settings_def setting_def loadSettings_def)

lemma valid_after_rewrite:
  assumes "valid_settings is_url d" and "is_url ''https://rpc.sentinel.co:443''"
    and "d_settings d = Holds (JObj fs)" and "distinct (map fst fs)" and "distinct (map fst fs')"
    and "\<And>key. key \<in> set allowed_settings \<Longrightarrow> map_of fs' key = map_of fs key \<or>
      (\<exists>x. map_of fs' key = Some x \<and> valid_setting is_url key x)"
  shows "valid_settings is_url (d\<lparr>d_settings := Holds (reread (JObj fs'))\<rparr>)"
proof -
  have same: "d\<lparr>d_settings := Holds (JObj fs)\<rparr> = d" using assms(3) by simp
  have "valid_setting is_url key (setting key (d\<lparr>d_settings := Holds (reread (JObj fs'))\<rparr>))"
    if k: "key \<in> set allowed_settings" for key
  proof (cases "map_of fs' key")
    case None
    then show ?thesis
      using valid_defaultD [of is_url key, OF assms(2) k] by (simp add: setting_of_fields(2) [OF assms(5)] del: reread.simps)
  next
    case (Some x)
    have "valid_setting is_url key x"
      using assms(6) [OF k] Some valid_settingsD [OF assms(1) k] setting_of_fields(1) [OF assms(4), of key d] same
      by (cases "map_of fs key") auto
    then show ?thesis
      using Some valid_not_undefined by (auto simp: setting_of_fields(2) [OF assms(5)] valid_reread simp del: reread.simps)
  qed
  then show ?thesis by (simp add: valid_settings_def list_all_iff del: reread.simps)
qed

lemma no_ids_allowed: "''activeWalletId'' \<notin> set allowed_settings" "''retainedSeedId'' \<notin> set allowed_settings"
  "''providerMode'' \<notin> set allowed_settings"
  by (simp_all add: allowed_settings_def)

lemma permitted_valid:
  assumes "permitted k is_url d d'" and "sound_disk d" and "is_url ''https://rpc.sentinel.co:443''"
    and "valid_settings is_url d"
  shows "valid_settings is_url d'"
  using assms(1)
proof cases
  case (activate i)
  show ?thesis unfolding activate using no_ids_allowed
    by (intro valid_after_save assms) (auto split: if_splits)
next
  case (retain i)
  show ?thesis unfolding retain(1) using no_ids_allowed
    by (intro valid_after_save assms) (auto split: if_splits)
next
  case release
  show ?thesis unfolding release using no_ids_allowed
    by (intro valid_after_save assms) (auto split: if_splits)
next
  case (configure s)
  show ?thesis unfolding configure(1)
  proof (intro valid_after_save assms(3,4))
    fix key x assume "key \<in> set allowed_settings" "map_of (rev s) key = Some x" "x \<noteq> JUndef"
    then show "valid_setting is_url key x"
      using checked_setting [OF configure(4), of key] configure(3) by (simp add: map_of_rev_distinct)
  qed
next
  case (unprovide fs)
  have fs: "distinct (map fst fs)" using assms(2) unprovide(2) by (simp add: sound_disk_def)
  show ?thesis unfolding unprovide(1)
    using fs no_ids_allowed(3) by (intro valid_after_rewrite [OF assms(4,3) unprovide(2)])
      (auto simp: distinct_map_filter map_of_filter_key)
next
  case (pin_endpoint fs)
  have fs: "distinct (map fst fs)" using assms(2) pin_endpoint(2) by (simp add: sound_disk_def)
  show ?thesis unfolding pin_endpoint(1)
    using fs by (intro valid_after_rewrite [OF assms(4,3) pin_endpoint(2)]) (auto simp: put_keys valid_setting_def)
qed (use assms(4) in simp_all)

text \<open>
  The settings the app loads, on any disk it goes through (writes of any handler, repairs, crashes), have
  the types and ranges the rest of the program relies on: flags are booleans, the resolver is one of the
  allowed ones, there are at most 64 split-tunnel routes and each passes the route guard, the endpoint is a URL.
\<close>

theorem settings_stay_valid:
  assumes "vault_reachable k dv is_url old d0 v" and "d \<in> disks v" and "sound_disk d0" and "settled_profile old d0"
    and "is_url ''https://rpc.sentinel.co:443''" and "valid_settings is_url d0"
  shows "valid_settings is_url d"
  using reachable_invariant [of k dv is_url old d0 v "valid_settings is_url" d] permitted_valid assms by blast

section \<open>What deleting leaves\<close>

lemma delete_effect:
  assumes "deleteWalletEntry i False v = (r, v')"
  shows "r = Inr ()" and "listWallets (v_disk v') = filter (\<lambda>w. we_id w \<noteq> i) (listWallets (v_disk v))"
    and "d_seeds (v_disk v') = (d_seeds (v_disk v))(i := None)" and "retained_id (v_disk v') = retained_id (v_disk v)"
    and "v_loaded v' = v_loaded v" and "v_book v' = v_book v"
  using assms
  by (auto simp: deleteWalletEntry_def Let_def saveWalletIndex_def vault_run then_act_def unlink_seed_def saveSettings_eq
      id_setting_saved fun_eq_iff simp del: reread.simps split: if_splits)

lemma deletes_effect:
  assumes "for_each (\<lambda>w. if P w then deleteWalletEntry (we_id w) False else give ()) ms v = (r, v')"
  shows "r = Inr () \<and> listWallets (v_disk v') = filter (\<lambda>w. we_id w \<notin> we_id ` {m \<in> set ms. P m}) (listWallets (v_disk v)) \<and>
    d_seeds (v_disk v') = (\<lambda>j. if j \<in> we_id ` {m \<in> set ms. P m} then None else d_seeds (v_disk v) j) \<and>
    retained_id (v_disk v') = retained_id (v_disk v) \<and> v_loaded v' = v_loaded v \<and> v_book v' = v_book v"
  using assms
proof (induction ms arbitrary: v)
  case Nil
  then show ?case by (auto simp: vault_run)
next
  case (Cons m ms)
  show ?case
  proof (cases "P m")
    case True
    obtain r1 v1 where s: "deleteWalletEntry (we_id m) False v = (r1, v1)" by fastforce
    note e = delete_effect [OF s]
    have "for_each (\<lambda>w. if P w then deleteWalletEntry (we_id w) False else give ()) ms v1 = (r, v')"
      using Cons.prems True s e(1) by (simp add: then_act_def)
    note ih = Cons.IH [OF this]
    have "{x \<in> set (m # ms). P x} = insert m {x \<in> set ms. P x}" using True by auto
    then show ?thesis using ih e by (auto simp: fun_eq_iff filter_filter intro!: filter_cong)
  next
    case False
    then have "for_each (\<lambda>w. if P w then deleteWalletEntry (we_id w) False else give ()) ms v = (r, v')"
      using Cons.prems by (simp add: vault_run)
    note ih = Cons.IH [OF this]
    have "{x \<in> set (m # ms). P x} = {x \<in> set ms. P x}" using False by auto
    with ih show ?thesis by simp
  qed
qed

lemma retain_effect:
  assumes "deleteWalletEntry i True v = (r, v')" and "filter (\<lambda>w. we_id w \<noteq> i) (listWallets (v_disk v)) = []" and "i \<noteq> []"
  shows "r = Inr ()" and "listWallets (v_disk v') = []" and "d_seeds (v_disk v') = d_seeds (v_disk v)"
    and "retained_id (v_disk v') = Some i" and "v_loaded v' = v_loaded v" and "v_book v' = v_book v"
  using assms
  by (auto simp: deleteWalletEntry_def Let_def saveWalletIndex_def vault_run then_act_def unlink_seed_def saveSettings_eq
      id_setting_saved_from simp del: reread.simps split: if_splits)

definition same_store :: "disk \<Rightarrow> disk \<Rightarrow> bool" where
  "same_store d d' \<longleftrightarrow> listWallets d' = listWallets d \<and> d_seeds d' = d_seeds d \<and> retained_id d' = retained_id d"

lemma same_store_save: "map_of (rev s) ''retainedSeedId'' = None \<Longrightarrow> same_store d (saved s d)"
  by (simp add: same_store_def id_setting_saved del: reread.simps)

lemma same_store_switch: "same_store (v_disk v) (v_disk (snd (switchWallet k dv i v)))"
  by (auto simp: switchWallet_def vault_run then_act_def or_else_def saveSettings_eq load_def Let_def case_prod_beta
      same_store_save simp del: reread.simps split: option.split sum.split) (auto simp: same_store_def)

lemma same_store_logout: "same_store (v_disk v) (v_disk (snd (logout v)))"
  by (auto simp: logout_def vault_run then_act_def saveSettings_eq same_store_save simp del: reread.simps)

lemma same_store_forget: "v_disk (snd (forget_answers v)) = v_disk v"
  by (simp add: forget_answers_def vault_run)

definition phrase_of :: "keyring \<Rightarrow> disk \<Rightarrow> string \<Rightarrow> string option" where
  "phrase_of k d = normalizedPhrase (read_phrase k d)"

lemma group_is_phrase:
  assumes "w \<in> set (listWallets d)" and "group_name (read_phrase k d) we_id (listWallets d) w = Some g"
  shows "\<exists>p. phrase_of k d (we_id w) = Some p \<and> (\<forall>e \<in> set (listWallets d).
    group_name (read_phrase k d) we_id (listWallets d) e = Some g \<longleftrightarrow> phrase_of k d (we_id e) = Some p)"
proof -
  have "g \<in> set (firsts (grouped k d))"
    using assms by (force simp: firsts_def grouped_def assign_named split: option.splits)
  then obtain p where p: "\<forall>e \<in> set (listWallets d).
      group_name (read_phrase k d) we_id (listWallets d) e = Some g \<longleftrightarrow> phrase_of k d (we_id e) = Some p"
    using group_names_phrase [of g "read_phrase k d" we_id "listWallets d"] by (auto simp: phrase_of_def grouped_def)
  with assms show ?thesis by blast
qed

text \<open>After \<open>delete_members\<close>.\<close>

lemma delete_members_effect:
  assumes "delete_members (filter P (listWallets (v_disk v))) r v = (x, v')" and "sound_disk (v_disk v)"
    and "\<And>i. r = Some i \<Longrightarrow> i \<in> we_id ` set (filter P (listWallets (v_disk v))) \<and> list_all P (listWallets (v_disk v))"
  shows "listWallets (v_disk v') = filter (\<lambda>w. \<not> P w) (listWallets (v_disk v)) \<and>
    (\<forall>j. d_seeds (v_disk v') j =
      (if j \<in> we_id ` set (filter P (listWallets (v_disk v))) \<and> r \<noteq> Some j then None else d_seeds (v_disk v) j)) \<and>
    retained_id (v_disk v') = (case r of None \<Rightarrow> retained_id (v_disk v) | Some i \<Rightarrow> Some i)"
proof -
  let ?ws = "listWallets (v_disk v)"
  have dist: "inj_on we_id (set ?ws)" and ne: "[] \<notin> ids (v_disk v)"
    using assms(2) by (simp_all add: sound_disk_def distinct_map)
  let ?gone = "we_id ` {m \<in> set (filter P ?ws). Some (we_id m) \<noteq> r}"
  obtain x1 v1 where s: "for_each (\<lambda>w. if Some (we_id w) \<noteq> r then deleteWalletEntry (we_id w) False else give ())
      (filter P ?ws) v = (x1, v1)" by fastforce
  note e = deletes_effect [OF s]
  have mem: "we_id w \<in> ?gone \<longleftrightarrow> P w \<and> Some (we_id w) \<noteq> r" if "w \<in> set ?ws" for w
    using that dist by (auto simp: inj_on_def)
  then have "filter (\<lambda>w. we_id w \<notin> ?gone) ?ws = filter (\<lambda>w. \<not> (P w \<and> Some (we_id w) \<noteq> r)) ?ws"
    by (intro filter_cong) simp_all
  with e have left: "listWallets (v_disk v1) = filter (\<lambda>w. \<not> (P w \<and> Some (we_id w) \<noteq> r)) ?ws" by simp
  have seeds: "d_seeds (v_disk v1) j = (if j \<in> we_id ` set (filter P ?ws) \<and> r \<noteq> Some j then None else d_seeds (v_disk v) j)" for j
    using e by auto
  show ?thesis
  proof (cases r)
    case None
    with assms(1) s e have "v' = v1" by (auto simp: delete_members_def then_act_def vault_run)
    with None left seeds e show ?thesis by simp
  next
    case (Some i)
    have "deleteWalletEntry i True v1 = (x, v')" using assms(1) s e Some by (simp add: delete_members_def then_act_def)
    moreover have "filter (\<lambda>w. we_id w \<noteq> i) (listWallets (v_disk v1)) = []"
      using assms(3) [OF Some] left Some by (auto simp: list_all_iff filter_empty_conv)
    moreover have "i \<noteq> []" using assms(3) [OF Some] ne by (force simp: ids_def)
    ultimately have f: "listWallets (v_disk v') = []" "d_seeds (v_disk v') = d_seeds (v_disk v1)" "retained_id (v_disk v') = Some i"
      using retain_effect by blast+
    moreover have "filter (\<lambda>w. \<not> P w) ?ws = []" using assms(3) [OF Some] by (simp add: list_all_iff filter_empty_conv)
    ultimately show ?thesis using Some seeds by simp
  qed
qed

lemma delete_seed_runs:
  assumes "WALLET_DELETE_SEED k dv i keep v = (Inr b, v')"
  shows "\<exists>w g x v1. w \<in> set (listWallets (v_disk v)) \<and> we_id w = the_string i \<and>
    group_name (read_phrase k (v_disk v)) we_id (listWallets (v_disk v)) w = Some g \<and>
    (let P = (\<lambda>e. group_name (read_phrase k (v_disk v)) we_id (listWallets (v_disk v)) e = Some g);
         mates = filter P (listWallets (v_disk v))
     in (keep = JBool True \<longrightarrow> list_all P (listWallets (v_disk v))) \<and>
        delete_members mates (seed_to_retain keep (setting ''activeWalletId'' (v_disk v)) mates) v = (x, v1)) \<and>
    same_store (v_disk v1) (v_disk v')"
proof -
  let ?d = "v_disk v" and ?ws = "listWallets (v_disk v)"
  let ?gn = "group_name (read_phrase k ?d) we_id ?ws"
  have grp: "grouped k ?d = map (\<lambda>e. (e, ?gn e)) ?ws" by (simp add: grouped_def assign_named)
  from assms obtain w g where f: "find (\<lambda>(w, g). we_id w = the_string i) (grouped k ?d) = Some (w, Some g)"
    by (auto simp: WALLET_DELETE_SEED_def not_connected_def then_act_ok vault_ok Let_def split: option.splits)
  then have w: "w \<in> set ?ws" "we_id w = the_string i" "?gn w = Some g"
    by (auto simp: grp find_Some_iff)
  let ?P = "\<lambda>e. ?gn e = Some g"
  let ?mates = "filter ?P ?ws" and ?active = "setting ''activeWalletId'' ?d"
  have mates: "map fst (filter (\<lambda>(w, g'). g' = Some g) (grouped k ?d)) = ?mates"
    by (simp add: grp filter_map comp_def)
  have rest: "filter (\<lambda>(w, g'). g' \<noteq> Some g) (grouped k ?d) = [] \<longleftrightarrow> list_all ?P ?ws"
    by (auto simp: grp filter_empty_conv list_all_iff)
  let ?r = "seed_to_retain keep ?active ?mates" and ?in = "list_ex (\<lambda>w. JStr (we_id w) = ?active) ?mates"
  let ?after = "if \<not> ?in then give () else case find (\<lambda>(w, g'). g' \<noteq> None) (filter (\<lambda>(w, g'). g' \<noteq> Some g) (grouped k ?d)) of
      Some (w, _) \<Rightarrow> then_act (switchWallet k dv (we_id w)) (\<lambda>_. forget_answers) | None \<Rightarrow> logout"
  have run: "\<not> (keep = JBool True \<and> \<not> list_all ?P ?ws)"
    "then_act (delete_members ?mates ?r) (\<lambda>_. then_act ?after (\<lambda>_. give ?in)) v = (Inr b, v')"
    using assms f
    by (auto simp: WALLET_DELETE_SEED_def not_connected_def then_act_ok [of "from_result _"] then_act_ok [of "not_connected _"]
        vault_ok Let_def mates rest split: if_splits)
  from run(2) obtain x v1 u v2 where x: "delete_members ?mates ?r v = (Inr x, v1)" and a: "?after v1 = (Inr u, v2)" and "v2 = v'"
    by (auto simp: then_act_ok vault_ok)
  have forget: "same_store (v_disk u) (v_disk (snd (then_act (switchWallet k dv j) (\<lambda>_. forget_answers) u)))" for j u
    using same_store_switch [of u k dv j] same_store_forget
    by (auto simp: then_act_def split: prod.split sum.split)
  have "same_store (v_disk v1) (v_disk (snd (?after v1)))"
    using forget [of v1] same_store_logout [of v1] by (auto simp: vault_run same_store_def split: option.split)
  then have "same_store (v_disk v1) (v_disk v')" using a \<open>v2 = v'\<close> by simp
  with run(1) have "(keep = JBool True \<longrightarrow> list_all ?P ?ws) \<and> same_store (v_disk v1) (v_disk v')" by blast
  with w x show ?thesis by (auto simp: Let_def)
qed

lemma seed_to_retain_cases:
  "seed_to_retain keep a ms = None \<longleftrightarrow> keep \<noteq> JBool True"
  "seed_to_retain keep a ms = Some r \<Longrightarrow> ms \<noteq> [] \<Longrightarrow> r \<in> we_id ` set ms"
proof -
  have found: "find P ms = Some w \<Longrightarrow> w \<in> set ms" for P w by (auto simp: find_Some_iff)
  show "seed_to_retain keep a ms = None \<longleftrightarrow> keep \<noteq> JBool True" by (simp add: seed_to_retain_def)
  show "seed_to_retain keep a ms = Some r \<Longrightarrow> ms \<noteq> [] \<Longrightarrow> r \<in> we_id ` set ms"
    by (auto simp: seed_to_retain_def dest: found split: if_splits option.splits)
qed

lemma removal_effect:
  assumes p: "\<forall>e \<in> set (listWallets (v_disk v)). P e \<longleftrightarrow> phrase_of k (v_disk v) (we_id e) = Some p"
    and w: "w \<in> set (listWallets (v_disk v))" "P w"
    and all: "keep = JBool True \<Longrightarrow> list_all P (listWallets (v_disk v))"
    and del: "delete_members (filter P (listWallets (v_disk v)))
      (seed_to_retain keep a (filter P (listWallets (v_disk v)))) v = (x, v1)"
    and same: "same_store (v_disk v1) (v_disk v')" and sound: "sound_disk (v_disk v)"
  shows "\<exists>r. (r = None \<longleftrightarrow> keep \<noteq> JBool True) \<and>
    listWallets (v_disk v') = filter (\<lambda>w. phrase_of k (v_disk v) (we_id w) \<noteq> Some p) (listWallets (v_disk v)) \<and>
    d_seeds (v_disk v') = (\<lambda>j. if j \<in> ids (v_disk v) \<and> phrase_of k (v_disk v) j = Some p \<and> r \<noteq> Some j then None
      else d_seeds (v_disk v) j) \<and>
    (case r of None \<Rightarrow> retained_id (v_disk v') = retained_id (v_disk v)
     | Some s \<Rightarrow> phrase_of k (v_disk v) s = Some p \<and> retained_id (v_disk v') = Some s \<and> listWallets (v_disk v') = [])"
proof -
  let ?d = "v_disk v" and ?ws = "listWallets (v_disk v)"
  let ?r = "seed_to_retain keep a (filter P ?ws)"
  have ne: "filter P ?ws \<noteq> []" using w by (auto simp: filter_empty_conv)
  have r: "s \<in> we_id ` set (filter P ?ws) \<and> list_all P ?ws" if "?r = Some s" for s
    using that seed_to_retain_cases(2) [OF that ne] seed_to_retain_cases(1) all by (metis option.distinct(1))
  have eff: "listWallets (v_disk v1) = filter (\<lambda>e. \<not> P e) ?ws \<and>
      (\<forall>j. d_seeds (v_disk v1) j = (if j \<in> we_id ` set (filter P ?ws) \<and> ?r \<noteq> Some j then None else d_seeds ?d j)) \<and>
      retained_id (v_disk v1) = (case ?r of None \<Rightarrow> retained_id ?d | Some s \<Rightarrow> Some s)"
    using delete_members_effect [OF del sound] r by blast
  have left: "filter (\<lambda>e. \<not> P e) ?ws = filter (\<lambda>e. phrase_of k ?d (we_id e) \<noteq> Some p) ?ws"
    using p by (intro filter_cong) auto
  have gone: "j \<in> we_id ` set (filter P ?ws) \<longleftrightarrow> j \<in> ids ?d \<and> phrase_of k ?d j = Some p" for j
    using p by (auto simp: ids_def)
  have kept: "case ?r of None \<Rightarrow> retained_id (v_disk v') = retained_id ?d
     | Some s \<Rightarrow> phrase_of k ?d s = Some p \<and> retained_id (v_disk v') = Some s \<and> listWallets (v_disk v') = []"
  proof (cases ?r)
    case None
    with eff same show ?thesis by (simp add: same_store_def)
  next
    case (Some s)
    then have "phrase_of k ?d s = Some p" using r gone by blast
    moreover have "retained_id (v_disk v') = Some s" using eff same Some by (simp add: same_store_def)
    moreover have "listWallets (v_disk v') = []"
      using r [OF Some] eff same by (simp add: same_store_def list_all_iff filter_empty_conv)
    ultimately show ?thesis using Some by simp
  qed
  have n: "?r = None \<longleftrightarrow> keep \<noteq> JBool True" by (rule seed_to_retain_cases(1))
  have l: "listWallets (v_disk v') = filter (\<lambda>e. phrase_of k ?d (we_id e) \<noteq> Some p) ?ws"
    using eff same left by (simp add: same_store_def)
  have s: "d_seeds (v_disk v') = (\<lambda>j. if j \<in> ids ?d \<and> phrase_of k ?d j = Some p \<and> ?r \<noteq> Some j then None else d_seeds ?d j)"
  proof (rule ext)
    fix j
    have "d_seeds (v_disk v') j = (if j \<in> we_id ` set (filter P ?ws) \<and> ?r \<noteq> Some j then None else d_seeds ?d j)"
      using eff same by (simp only: same_store_def)
    then show "d_seeds (v_disk v') j = (if j \<in> ids ?d \<and> phrase_of k ?d j = Some p \<and> ?r \<noteq> Some j then None else d_seeds ?d j)"
      by (simp only: gone conj_assoc)
  qed
  from n l s kept show ?thesis by (intro exI [of _ ?r] conjI)
qed

text \<open>
  C30. Removing a seed (\<open>WALLET_DELETE_SEED\<close>) removes exactly its wallets: when the handler succeeds, the wallets
  left are those that do not hold the phrase of the chosen one (the undecryptable ones among them), in their
  order; the encrypted files gone are exactly those of the removed wallets, but for the one a kept seed
  lives on in, which is then the retained seed with no wallet left listed.
\<close>

theorem seed_removed_exactly:
  assumes "WALLET_DELETE_SEED k dv i keep v = (Inr b, v')" and "sound_disk (v_disk v)"
  shows "\<exists>p r. phrase_of k (v_disk v) (the_string i) = Some p \<and> (r = None \<longleftrightarrow> keep \<noteq> JBool True) \<and>
    listWallets (v_disk v') = filter (\<lambda>w. phrase_of k (v_disk v) (we_id w) \<noteq> Some p) (listWallets (v_disk v)) \<and>
    d_seeds (v_disk v') = (\<lambda>j. if j \<in> ids (v_disk v) \<and> phrase_of k (v_disk v) j = Some p \<and> r \<noteq> Some j then None
      else d_seeds (v_disk v) j) \<and>
    (case r of None \<Rightarrow> retained_id (v_disk v') = retained_id (v_disk v)
     | Some s \<Rightarrow> phrase_of k (v_disk v) s = Some p \<and> retained_id (v_disk v') = Some s \<and> listWallets (v_disk v') = [])"
proof -
  let ?d = "v_disk v" and ?ws = "listWallets (v_disk v)"
  let ?gn = "group_name (read_phrase k ?d) we_id ?ws"
  from delete_seed_runs [OF assms(1)] obtain w g x v1 where
    w: "w \<in> set ?ws" "we_id w = the_string i" "?gn w = Some g" and
    all: "keep = JBool True \<Longrightarrow> list_all (\<lambda>e. ?gn e = Some g) ?ws" and
    del: "delete_members (filter (\<lambda>e. ?gn e = Some g) ?ws)
      (seed_to_retain keep (setting ''activeWalletId'' ?d) (filter (\<lambda>e. ?gn e = Some g) ?ws)) v = (x, v1)" and
    same: "same_store (v_disk v1) (v_disk v')"
    by (auto simp: Let_def)
  obtain p where p: "phrase_of k ?d (we_id w) = Some p" "\<forall>e \<in> set ?ws. ?gn e = Some g \<longleftrightarrow> phrase_of k ?d (we_id e) = Some p"
    using group_is_phrase [OF w(1,3)] by blast
  show ?thesis
    using removal_effect [OF p(2) w(1,3) all del same assms(2)] p(1) w(2) by auto
qed

section \<open>Starting fresh\<close>

lemma clear_effect:
  assumes "clearRetainedSeed v = (r, v')"
  shows "r = Inr () \<and> listWallets (v_disk v') = listWallets (v_disk v) \<and> retained_id (v_disk v') = None \<and>
    d_seeds (v_disk v') = (\<lambda>j. if retained_id (v_disk v) = Some j then None else d_seeds (v_disk v) j)"
  using assms
  by (auto simp: clearRetainedSeed_def vault_run then_act_def unlink_seed_def saveSettings_eq id_setting_saved_from fun_eq_iff
      simp del: reread.simps split: option.splits if_splits)

lemma logout_effect:
  assumes "logout v = (r, v')"
  shows "r = Inr () \<and> same_store (v_disk v) (v_disk v') \<and> v_loaded v' = None \<and> active_id (v_disk v') = None"
  using assms
  by (auto simp: logout_def vault_run then_act_def saveSettings_eq same_store_save id_setting_saved simp del: reread.simps)

text \<open>
  ``Delete all wallets and start fresh'' (\<open>WALLET_DELETE_ALL\<close>): when it succeeds no wallet is stored, active
  or loaded, no seed is retained, and the seed files gone are exactly those of the wallets that were listed
  and of the seed that was retained.
\<close>

theorem start_fresh_wipes:
  assumes "WALLET_DELETE_ALL v = (Inr u, v')"
  shows "listWallets (v_disk v') = [] \<and> active_id (v_disk v') = None \<and> retained_id (v_disk v') = None \<and> v_loaded v' = None \<and>
    d_seeds (v_disk v') = (\<lambda>j. if j \<in> ids (v_disk v) \<or> retained_id (v_disk v) = Some j then None else d_seeds (v_disk v) j)"
proof -
  let ?ws = "listWallets (v_disk v)"
  obtain r1 v1 where d: "for_each (\<lambda>w. deleteWalletEntry (we_id w) False) ?ws v = (r1, v1)" by fastforce
  obtain r2 v2 where c: "clearRetainedSeed v1 = (r2, v2)" by fastforce
  obtain r3 v3 where l: "logout v2 = (r3, v3)" by fastforce
  have e: "r1 = Inr () \<and> listWallets (v_disk v1) = [] \<and>
      d_seeds (v_disk v1) = (\<lambda>j. if j \<in> ids (v_disk v) then None else d_seeds (v_disk v) j) \<and>
      retained_id (v_disk v1) = retained_id (v_disk v)"
    using deletes_effect [where P = "\<lambda>_. True", simplified, OF d] by (auto simp: ids_def filter_empty_conv)
  note f = clear_effect [OF c] and g = logout_effect [OF l]
  have "v' = v3"
    using assms d c l e f g by (auto simp: WALLET_DELETE_ALL_def then_act_ok vault_ok not_connected_def)
  with e f g show ?thesis by (auto simp: same_store_def fun_eq_iff)
qed

section \<open>Import and restore\<close>

text \<open>The address of a phrase does not depend on its spacing: reading back the normalised phrase gives the
  same wallet.\<close>

definition normalises :: "derivation \<Rightarrow> bool" where
  "normalises dv \<longleftrightarrow> (\<forall>m p phrase a. fromMnemonic dv m p = Inr (phrase, a) \<longrightarrow> fromMnemonic dv phrase p = Inr (phrase, a))"

lemma add_effect:
  assumes "addWalletEntry k u name address mnemonic a i v = (Inr e, v')"
  shows "we_id e = u \<and> we_address e = address \<and> we_account e = Some a \<and> we_addressIndex e = Some i \<and>
    listWallets (v_disk v') = listWallets (v_disk v) @ [e] \<and>
    d_seeds (v_disk v') = (d_seeds (v_disk v))(u \<mapsto> k_encrypt k mnemonic) \<and> v_loaded v' = v_loaded v"
  using assms
  by (auto simp: addWalletEntry_def Let_def write_seed_def saveWalletIndex_def vault_run then_act_def saveSettings_eq
      simp del: reread.simps split: if_splits option.splits)

lemma find_new: "we_id e = u \<Longrightarrow> u \<notin> we_id ` set ws \<Longrightarrow> find (\<lambda>w. we_id w = u) (ws @ [e]) = Some e"
  by (induction ws) auto

lemma import_effect:
  assumes "importWallet k dv u m n a v = (Inr address, v')" and "fresh_id u (v_disk v)"
  shows "\<exists>phrase key e. fromMnemonic dv m (formatHdPath a 0) = Inr (phrase, address) \<and>
    derivePrivKey dv phrase (formatHdPath a 0) = Inr key \<and> entry_of u (v_disk v') = Some e \<and>
    entry_path (Some e) = formatHdPath a 0 \<and> we_address e = address \<and> listWallets (v_disk v') \<noteq> [] \<and>
    d_seeds (v_disk v') u = Some (k_encrypt k phrase) \<and> active_id (v_disk v') = Some u \<and>
    v_loaded v' = Some \<lparr>l_phrase = phrase, l_path = formatHdPath a 0, l_address = address, l_key = key, l_wallet = u\<rparr>"
proof -
  let ?path = "formatHdPath a 0"
  from assms(1) obtain phrase key e v1 where f: "fromMnemonic dv m ?path = Inr (phrase, address)" "derivePrivKey dv phrase ?path = Inr key"
    and add: "addWalletEntry k u (if n \<noteq> [] then n else default_name (v_disk v)) address phrase a 0 v = (Inr e, v1)"
    and v': "v' = v1\<lparr>v_disk := saved [(''activeWalletId'', JStr (we_id e))] (v_disk v1), v_past := v_past v1 @ [v_disk v1],
      v_loaded := Some \<lparr>l_phrase = phrase, l_path = ?path, l_address = address, l_key = key, l_wallet = we_id e\<rparr>\<rparr>"
    by (auto simp: importWallet_def Let_def then_act_ok vault_ok saveSettings_eq load_def in_memory_def simp del: reread.simps)
  note e = add_effect [OF add]
  have "entry_of u (v_disk v1) = Some e"
    using e assms(2) by (auto simp: entry_of_def fresh_id_def ids_def intro: find_new)
  moreover have "u \<noteq> []" using assms(2) by (simp add: fresh_id_def)
  ultimately show ?thesis
    using f e v' by (auto simp: entry_of_def entry_path_def id_setting_saved simp del: reread.simps)
qed

text \<open>
  C28. A wallet that was imported comes back after a restart: the next process, starting from the disk the import
  left, restores exactly the wallet the import loaded (phrase, path, address, key and entry).
\<close>

theorem imported_wallet_restores:
  assumes "WALLET_IMPORT k dv u m n v = (Inr address, v')" and "fresh_id u (v_disk v)"
    and "keyring_opens k" and "normalises dv"
  shows "\<exists>v''. restoreWallet k dv u' (boot (v_disk v')) = (Inr (Some address), v'') \<and> v_loaded v'' = v_loaded v' \<and>
    map_option l_address (v_loaded v') = Some address"
proof -
  from assms(1) obtain nm where "importWallet k dv u (the_string m) nm 0 v = (Inr address, v')"
    by (auto simp: WALLET_IMPORT_def Let_def then_act_ok vault_ok not_connected_def split: if_splits)
  from import_effect [OF this assms(2)] obtain phrase key e where
    f: "fromMnemonic dv (the_string m) (formatHdPath 0 0) = Inr (phrase, address)" "derivePrivKey dv phrase (formatHdPath 0 0) = Inr key"
    and e: "entry_of u (v_disk v') = Some e" "entry_path (Some e) = formatHdPath 0 0" "we_address e = address"
    and d: "listWallets (v_disk v') \<noteq> []" "d_seeds (v_disk v') u = Some (k_encrypt k phrase)" "active_id (v_disk v') = Some u"
    and l: "v_loaded v' = Some \<lparr>l_phrase = phrase, l_path = formatHdPath 0 0, l_address = address, l_key = key, l_wallet = u\<rparr>"
    by blast
  have again: "fromMnemonic dv phrase (formatHdPath 0 0) = Inr (phrase, address)"
    using assms(4) f(1) by (auto simp: normalises_def)
  have legacy: "\<exists>w. migrateOldWallet k u' (boot (v_disk v')) = (Inr (), w) \<and>
      (v_disk w = v_disk v' \<or> v_disk w = (v_disk v')\<lparr>d_legacy := None\<rparr>)"
    using d(1) by (auto simp: migrateOldWallet_def vault_run boot_def split: option.split)
  then obtain w where w: "migrateOldWallet k u' (boot (v_disk v')) = (Inr (), w)"
    and wd: "active_id (v_disk w) = Some u" "entry_of u (v_disk w) = Some e" "d_seeds (v_disk w) u = Some (k_encrypt k phrase)"
    using d e by (auto simp: entry_of_def)
  have seed: "getWalletMnemonic k (v_disk w) u = Inr phrase"
    using wd(3) assms(3) by (simp add: getWalletMnemonic_def keyring_opens_def)
  show ?thesis
  proof (cases "we_address e = []")
    case True
    then show ?thesis
      using w wd seed again f(2) e l
      by (auto simp: restoreWallet_def vault_run then_act_def or_else_def Let_def load_def updateWalletAddress_def saveWalletIndex_def
          split: option.split)
  next
    case False
    then show ?thesis
      using w wd seed again f(2) e l
      by (auto simp: restoreWallet_def vault_run then_act_def or_else_def Let_def load_def)
  qed
qed

section \<open>Merging duplicates\<close>

lemma survivor_in:
  assumes "x \<in> set ws"
  shows "\<exists>w \<in> set ws. we_address w = we_address x \<and> we_id w = survivorId k d ws (we_address x) \<and>
    (canUnlockWallet k d (we_id x) \<longrightarrow> canUnlockWallet k d (we_id w))"
proof (cases "find (\<lambda>w. canUnlockWallet k d (we_id w)) (of_address (we_address x) ws)")
  case None
  have ne: "of_address (we_address x) ws \<noteq> []" using assms by (auto simp: of_address_def filter_empty_conv)
  then have "hd (of_address (we_address x) ws) \<in> set (of_address (we_address x) ws)" by simp
  moreover have "\<not> canUnlockWallet k d (we_id x)"
    using None assms by (auto simp: find_None_iff of_address_def)
  ultimately show ?thesis using None by (auto simp: survivorId_def of_address_def)
next
  case (Some w)
  then have "w \<in> set (of_address (we_address x) ws) \<and> canUnlockWallet k d (we_id w)" by (auto simp: find_Some_iff)
  with Some show ?thesis by (auto simp: survivorId_def of_address_def)
qed

lemma single_kept:
  assumes "\<not> list_ex (\<lambda>w. we_address w \<noteq> [] \<and> 1 < length (of_address (we_address w) ws)) ws" and "x \<in> set ws"
  shows "kept_entry k d ws x"
proof (cases "we_address x = []")
  case False
  have m: "x \<in> set (of_address (we_address x) ws)" using assms(2) by (simp add: of_address_def)
  moreover have "length (of_address (we_address x) ws) \<le> 1"
    using assms False by (auto simp: list_ex_iff not_less)
  ultimately have "of_address (we_address x) ws = [x]"
    by (cases "of_address (we_address x) ws") auto
  then show ?thesis by (simp add: kept_entry_def survivorId_def)
qed (simp add: kept_entry_def)

lemma shred_effect:
  assumes "for_each (\<lambda>w. unlink_seed (we_id w)) ms v = (r, v')"
  shows "r = Inr () \<and> v_disk v' = (v_disk v)\<lparr>d_seeds := (\<lambda>j. if j \<in> we_id ` set ms then None else d_seeds (v_disk v) j)\<rparr>"
  using assms
proof (induction ms arbitrary: v)
  case Nil
  then show ?case by (auto simp: vault_run)
next
  case (Cons m ms)
  obtain v1 where u: "unlink_seed (we_id m) v = (Inr (), v1)"
    by (cases "d_seeds (v_disk v) (we_id m) = None") (simp_all add: unlink_seed_def vault_run)
  then have v1: "v_disk v1 = (v_disk v)\<lparr>d_seeds := (d_seeds (v_disk v))(we_id m := None)\<rparr>"
    using unlink_disk [of "we_id m" v] by simp
  have "for_each (\<lambda>w. unlink_seed (we_id w)) ms v1 = (r, v')" using Cons.prems u by (simp add: then_act_def)
  from Cons.IH [OF this] v1 show ?case by (auto simp: fun_eq_iff)
qed

lemma map_of_dropped:
  "map_of (map (\<lambda>w. (we_id w, f w)) (filter (\<lambda>w. \<not> P w) xs)) i = map_option f (find (\<lambda>w. we_id w = i \<and> \<not> P w) xs)"
  by (induction xs) auto

lemma dedupe_effect:
  fixes v :: vault and k :: keyring
  defines "d \<equiv> v_disk v" and "ws \<equiv> listWallets (v_disk v)" and "d' \<equiv> v_disk (snd (dedupeWalletEntries k v))"
  assumes "distinct (map we_id ws)"
  shows "listWallets d' = filter (kept_entry k d ws) ws \<and>
    d_seeds d' = (\<lambda>j. if j \<in> we_id ` {w \<in> set ws. \<not> kept_entry k d ws w} then None else d_seeds d j) \<and>
    active_id d' = (case Option.bind (active_id d) (\<lambda>i. find (\<lambda>w. we_id w = i \<and> \<not> kept_entry k d ws w) ws) of
      Some w \<Rightarrow> (if survivorId k d ws (we_address w) \<noteq> [] then Some (survivorId k d ws (we_address w)) else None)
    | None \<Rightarrow> active_id d)"
proof (cases "filter (\<lambda>w. \<not> kept_entry k d ws w) ws = [] \<or>
    \<not> list_ex (\<lambda>w. we_address w \<noteq> [] \<and> 1 < length (of_address (we_address w) ws)) ws")
  case True
  then have all: "\<forall>w \<in> set ws. kept_entry k d ws w" using single_kept by (auto simp: filter_empty_conv)
  then have none: "we_id ` {w \<in> set ws. \<not> kept_entry k d ws w} = {}" by auto
  have keep: "filter (kept_entry k d ws) ws = ws" using all by (simp add: filter_id_conv)
  have no: "find (\<lambda>w. we_id w = i \<and> \<not> kept_entry k d ws w) ws = None" for i
    using all by (auto simp: find_None_iff)
  have "d' = d" using True by (auto simp: d'_def d_def ws_def dedupeWalletEntries_def Let_def vault_run)
  then show ?thesis unfolding none keep no
    by (cases "active_id d") (simp_all add: ws_def d_def)
next
  case False
  let ?kept = "filter (kept_entry k d ws) ws" and ?dropped = "filter (\<lambda>w. \<not> kept_entry k d ws w) ws"
  let ?pairs = "map (\<lambda>w. (we_id w, survivorId k d ws (we_address w))) ?dropped"
  define v1 where "v1 = snd (saveWalletIndex ?kept v)"
  have v1: "v_disk v1 = d\<lparr>d_index := Holds ?kept\<rparr>" by (simp add: v1_def saveWalletIndex_def vault_run d_def)
  obtain r v2 where s: "for_each (\<lambda>w. unlink_seed (we_id w)) ?dropped v1 = (r, v2)" by fastforce
  note e = shred_effect [OF s]
  have dist: "distinct (map fst ?pairs)" using assms(4) by (simp add: comp_def distinct_map_filter)
  have m: "map_of (rev ?pairs) i = map_option (\<lambda>w. survivorId k d ws (we_address w)) (find (\<lambda>w. we_id w = i \<and> \<not> kept_entry k d ws w) ws)" for i
    using map_of_rev_distinct [OF dist] map_of_dropped [of _ "kept_entry k d ws" ws] by simp
  let ?set = "case Option.bind (active_id (v_disk v2)) (map_of (rev ?pairs)) of
      Some i \<Rightarrow> then_act (saveSettings [(''activeWalletId'', JStr i)]) (\<lambda>_. give ()) | None \<Rightarrow> give ()"
  have "snd (dedupeWalletEntries k v) = snd (?set v2)"
    using False s e v1
    by (auto simp: dedupeWalletEntries_def Let_def vault_run then_act_def d_def ws_def v1_def saveWalletIndex_def
        split: prod.splits sum.splits)
  then have d': "d' = v_disk (snd (?set v2))" by (simp add: d'_def)
  have act: "active_id (v_disk v2) = active_id d" using e v1 by simp
  let ?found = "Option.bind (active_id d) (\<lambda>i. find (\<lambda>w. we_id w = i \<and> \<not> kept_entry k d ws w) ws)"
  have bound: "Option.bind (active_id d) (map_of (rev ?pairs)) = map_option (\<lambda>w. survivorId k d ws (we_address w)) ?found"
    by (cases "active_id d") (simp_all add: m del: rev_map)
  have store: "listWallets (v_disk v2) = ?kept" "d_seeds (v_disk v2) = (\<lambda>j. if j \<in> we_id ` set ?dropped then None else d_seeds d j)"
    using e v1 by (simp_all add: fun_eq_iff)
  show ?thesis
  proof (cases ?found)
    case None
    then have "d' = v_disk v2" unfolding d' act bound by (simp add: vault_run)
    with None store act show ?thesis by (simp add: set_filter)
  next
    case (Some w)
    then have "d' = saved [(''activeWalletId'', JStr (survivorId k d ws (we_address w)))] (v_disk v2)"
      unfolding d' act bound by (simp add: vault_run then_act_def saveSettings_eq del: reread.simps)
    with Some store show ?thesis by (simp add: set_filter id_setting_saved del: reread.simps)
  qed
qed

definition active_entry_address :: "disk \<Rightarrow> string option" where
  "active_entry_address d = map_option we_address (Option.bind (active_id d) (\<lambda>i. entry_of i d))"

lemma find_id:
  assumes "distinct (map we_id ws)" and "w \<in> set ws"
  shows "find (\<lambda>x. we_id x = we_id w) ws = Some w"
  using assms by (induction ws) (auto split: if_splits)

lemma find_restricted:
  assumes "distinct (map we_id ws)" and "w \<in> set ws"
  shows "find (\<lambda>x. we_id x = we_id w \<and> P x) ws = (if P w then Some w else None)"
  using assms by (induction ws) (auto simp: find_None_iff inj_on_def image_iff)

lemma dedupe_active:
  fixes v :: vault and k :: keyring
  defines "d \<equiv> v_disk v" and "d' \<equiv> v_disk (snd (dedupeWalletEntries k v))"
  assumes "sound_disk d"
  shows "active_entry_address d' = active_entry_address d"
proof -
  let ?ws = "listWallets d" and ?keep = "kept_entry k d (listWallets d)"
  have dist: "distinct (map we_id ?ws)" and ne: "[] \<notin> we_id ` set ?ws"
    using assms(3) by (simp_all add: sound_disk_def ids_def)
  note e = dedupe_effect [of v k, folded d_def d'_def, OF dist]
  have dist': "distinct (map we_id (filter ?keep ?ws))" using dist by (simp add: distinct_map_filter)
  consider "active_id d = None" | i where "active_id d = Some i" "i \<notin> we_id ` set ?ws"
    | w where "active_id d = Some (we_id w)" "w \<in> set ?ws"
    by (cases "active_id d") auto
  then show ?thesis
  proof cases
    case 1
    with e show ?thesis by (simp add: active_entry_address_def)
  next
    case 2
    then have "find (\<lambda>w. we_id w = i \<and> Q w) xs = None" if "set xs \<subseteq> set ?ws" for Q xs
      using that by (auto simp: find_None_iff)
    from this [of ?ws "\<lambda>w. \<not> ?keep w"] this [of ?ws "\<lambda>_. True"] this [of "filter ?keep ?ws" "\<lambda>_. True"] e 2
    show ?thesis by (simp add: active_entry_address_def entry_of_def)
  next
    case (3 w)
    have old: "active_entry_address d = Some (we_address w)"
      using 3 find_id [OF dist 3(2)] by (simp add: active_entry_address_def entry_of_def)
    show ?thesis
    proof (cases "?keep w")
      case True
      then have "active_id d' = Some (we_id w)" using e 3 find_restricted [OF dist 3(2)] by simp
      moreover have "entry_of (we_id w) d' = Some w"
        using e True 3 find_id [OF dist', of w] by (simp add: entry_of_def)
      ultimately have "active_entry_address d' = Some (we_address w)" by (simp add: active_entry_address_def)
      with old show ?thesis by simp
    next
      case False
      obtain s where s: "s \<in> set ?ws" "we_address s = we_address w" "we_id s = survivorId k d ?ws (we_address w)"
        using survivor_in [OF 3(2)] by metis
      then have "we_id s \<noteq> []" using ne by (metis image_eqI)
      then have "active_id d' = Some (we_id s)" using e 3 find_restricted [OF dist 3(2)] False s(3) by simp
      moreover have "?keep s" using s by (simp add: kept_entry_def)
      then have "entry_of (we_id s) d' = Some s"
        using e s(1) find_id [OF dist', of s] by (simp add: entry_of_def)
      ultimately have "active_entry_address d' = Some (we_address s)" by (simp add: active_entry_address_def)
      with old s(2) show ?thesis by simp
    qed
  qed
qed

text \<open>
  C29. The repair of duplicate wallets (\<open>dedupeWalletEntries\<close>) leaves one entry per address and loses none: the
  addresses listed are the same, an address with an entry that could be unlocked keeps one that can, the
  seed files of the entries left are untouched, and the active wallet is still one of its address.
\<close>

theorem duplicates_merged:
  assumes "sound_disk (v_disk v)"
  shows "distinct (filter (\<lambda>a. a \<noteq> []) (map we_address (listWallets (v_disk (snd (dedupeWalletEntries k v)))))) \<and>
    we_address ` set (listWallets (v_disk (snd (dedupeWalletEntries k v)))) = we_address ` set (listWallets (v_disk v)) \<and>
    (\<forall>w \<in> set (listWallets (v_disk (snd (dedupeWalletEntries k v)))).
       d_seeds (v_disk (snd (dedupeWalletEntries k v))) (we_id w) = d_seeds (v_disk v) (we_id w)) \<and>
    (\<forall>w \<in> {w \<in> set (listWallets (v_disk v)). canUnlockWallet k (v_disk v) (we_id w)}.
       \<exists>w' \<in> set (listWallets (v_disk (snd (dedupeWalletEntries k v)))).
         we_address w' = we_address w \<and> canUnlockWallet k (v_disk (snd (dedupeWalletEntries k v))) (we_id w')) \<and>
    active_entry_address (v_disk (snd (dedupeWalletEntries k v))) = active_entry_address (v_disk v)"
proof -
  let ?d = "v_disk v" and ?d' = "v_disk (snd (dedupeWalletEntries k v))"
  let ?ws = "listWallets ?d" and ?keep = "kept_entry k ?d (listWallets ?d)"
  have dist: "distinct (map we_id ?ws)" using assms by (simp add: sound_disk_def)
  note e = dedupe_effect [of v k, OF dist]
  have one: "w = w'" if "?keep w" "?keep w'" "we_address w = we_address w'" "we_address w \<noteq> []" "w \<in> set ?ws" "w' \<in> set ?ws" for w w'
    using that dist by (auto simp: kept_entry_def distinct_map inj_on_def)
  have "distinct (filter (\<lambda>a. a \<noteq> []) (map we_address (filter ?keep ?ws)))"
    using dist one by (auto simp: filter_map distinct_map distinct_filter comp_def inj_on_def)
  then have "distinct (filter (\<lambda>a. a \<noteq> []) (map we_address (listWallets ?d')))" using e by simp
  moreover have kept: "\<exists>w' \<in> set ?ws. ?keep w' \<and> we_address w' = we_address w \<and>
      (canUnlockWallet k ?d (we_id w) \<longrightarrow> canUnlockWallet k ?d (we_id w'))" if "w \<in> set ?ws" for w
  proof -
    from survivor_in [OF that, of k ?d] obtain s where "s \<in> set ?ws" "we_address s = we_address w"
      "we_id s = survivorId k ?d ?ws (we_address w)" "canUnlockWallet k ?d (we_id w) \<longrightarrow> canUnlockWallet k ?d (we_id s)" by blast
    then show ?thesis by (intro bexI [of _ s]) (simp_all add: kept_entry_def)
  qed
  then have "we_address ` set (listWallets ?d') = we_address ` set ?ws" using e by (force simp: image_iff)
  moreover have same: "d_seeds ?d' (we_id w) = d_seeds ?d (we_id w)" if "w \<in> set (listWallets ?d')" for w
    using that e dist by (auto simp: distinct_map inj_on_def)
  moreover have "\<exists>w' \<in> set (listWallets ?d'). we_address w' = we_address w \<and> canUnlockWallet k ?d' (we_id w')"
    if w: "w \<in> set ?ws" "canUnlockWallet k ?d (we_id w)" for w
  proof -
    from kept [OF w(1)] w(2) obtain s where s: "s \<in> set ?ws" "?keep s" "we_address s = we_address w" "canUnlockWallet k ?d (we_id s)"
      by blast
    then have m: "s \<in> set (listWallets ?d')" using e by simp
    then have "canUnlockWallet k ?d' (we_id s)"
      using unlock_cong [OF same [OF m]] s(4) by simp
    with m s(3) show ?thesis by blast
  qed
  moreover have "active_entry_address ?d' = active_entry_address ?d" by (rule dedupe_active [OF assms])
  ultimately show ?thesis by blast
qed

end
