(* ===== verification/WalletSamples.thy ===== *)
theory WalletSamples
  imports WalletSafety
begin

text \<open>
  Concrete runs of the wallet store: the witnesses of its properties, and the runs that show where the code
  leaves a seed, a loaded wallet or a cached figure behind.
\<close>

section \<open>A profile\<close>

definition sample_keyring :: keyring where
  "sample_keyring = \<lparr>k_available = True, k_backend = Some ''gnome_libsecret'',
     k_encrypt = (\<lambda>m. CHR ''!'' # m), k_decrypt = (\<lambda>t. case t of [] \<Rightarrow> None | c # m \<Rightarrow> if c = CHR ''!'' then Some m else None)\<rparr>"

text \<open>An address that depends on the phrase and the path; a phrase of one word repeated is refused.\<close>

definition sample_derivation :: derivation where
  "sample_derivation = \<lparr>fromMnemonic = (\<lambda>m p. if take 3 m = ''bad'' then Inl ''Invalid mnemonic'' else Inr (m, ''sent1'' @ take 1 m @ p)),
     derivePrivKey = (\<lambda>m p. Inr (''key'' @ take 1 m @ p))\<rparr>"

definition empty_disk :: disk where
  "empty_disk = \<lparr>d_index = Missing, d_seeds = Map.empty, d_settings = Missing, d_legacy = None\<rparr>"

text \<open>The profile of the app's previous name had no wallets.\<close>

definition old_disk :: disk where
  "old_disk = \<lparr>d_index = Missing, d_seeds = Map.empty, d_settings = Holds (JObj []), d_legacy = None\<rparr>"

abbreviation sample_url :: "string \<Rightarrow> bool" where
  "sample_url \<equiv> (\<lambda>s. take 8 s = ''https://'')"

definition phrase_a :: string where "phrase_a = ''a b c d e f g h i j k l''"
definition phrase_b :: string where "phrase_b = ''m b c d e f g h i j k l''"

definition import_a :: vault where
  "import_a = snd (WALLET_IMPORT sample_keyring sample_derivation ''1'' (JStr phrase_a) JUndef (boot empty_disk))"

lemma import_a_result:
  "fst (WALLET_IMPORT sample_keyring sample_derivation ''1'' (JStr phrase_a) JUndef (boot empty_disk)) =
     Inr (''sent1a'' @ formatHdPath 0 0)"
  by code_simp

lemma import_a_disk:
  "listWallets (v_disk import_a) = [\<lparr>we_id = ''1'', we_name = ''Wallet 1'', we_address = ''sent1a'' @ formatHdPath 0 0,
     we_account = Some 0, we_addressIndex = Some 0, we_provider = None\<rparr>]"
  "d_seeds (v_disk import_a) ''1'' = Some (CHR ''!'' # phrase_a)"
  by code_simp+

section \<open>Witnesses\<close>

lemma sample_keyring_opens: "keyring_opens sample_keyring"
  by (simp add: keyring_opens_def sample_keyring_def)

lemma sample_normalises: "normalises sample_derivation"
  by (auto simp: normalises_def sample_derivation_def split: if_splits)

lemma empty_sound: "sound_disk empty_disk"
  by (simp add: sound_disk_def empty_disk_def listWallets_def ids_def)

lemma empty_settled: "settled_profile old_disk empty_disk"
  by (simp add: settled_profile_def old_disk_def)

lemma empty_readable: "readable k empty_disk"
  by (simp add: readable_def empty_disk_def)

lemma empty_valid: "valid_settings sample_url empty_disk"
proof -
  have "setting key empty_disk = default_setting key" for key
    by (simp add: setting_def default_setting_def loadSettings_def empty_disk_def)
  moreover have "sample_url ''https://rpc.sentinel.co:443''" by simp
  ultimately show ?thesis using valid_default [of sample_url] by (simp add: valid_settings_def)
qed

lemma import_a_reachable: "vault_reachable sample_keyring sample_derivation sample_url old_disk empty_disk import_a"
proof -
  have "fresh_id ''1'' (v_disk (boot empty_disk))" by code_simp
  then show ?thesis
    unfolding import_a_def by (intro stepped [OF started] vault_step.import_wallet)
qed

lemma here: "v_disk v \<in> disks v"
  by (simp add: disks_def)

theorem listed_wallets_unlock_witness:
  "list_all (\<lambda>w. canUnlockWallet sample_keyring (v_disk import_a) (we_id w)) (listWallets (v_disk import_a)) \<and>
   length (listWallets (v_disk import_a)) = 1"
  using listed_wallets_unlock [OF import_a_reachable here empty_sound sample_keyring_opens empty_readable empty_settled]
  by (simp add: import_a_disk(1))

theorem seeds_sealed_witness:
  "(\<exists>m. CHR ''!'' # phrase_a = k_encrypt sample_keyring m) \<and> k_backend sample_keyring \<noteq> Some ''basic_text''"
  using seeds_sealed [OF import_a_reachable here import_a_disk(2)] by (simp add: empty_disk_def old_disk_def)

theorem settings_stay_valid_witness: "valid_settings sample_url (v_disk import_a)"
  by (rule settings_stay_valid [OF import_a_reachable here empty_sound empty_settled _ empty_valid]) simp

theorem imported_wallet_restores_witness:
  "\<exists>v''. restoreWallet sample_keyring sample_derivation ''9'' (boot (v_disk import_a)) =
     (Inr (Some (''sent1a'' @ formatHdPath 0 0)), v'') \<and> v_loaded v'' = v_loaded import_a"
proof -
  have f: "fresh_id ''1'' (v_disk (boot empty_disk))" by code_simp
  have "WALLET_IMPORT sample_keyring sample_derivation ''1'' (JStr phrase_a) JUndef (boot empty_disk) =
      (Inr (''sent1a'' @ formatHdPath 0 0), import_a)"
    using import_a_result by (simp add: import_a_def prod_eq_iff)
  from imported_wallet_restores [OF this f sample_keyring_opens sample_normalises, of "''9''"] show ?thesis by blast
qed

section \<open>A seed that outlives ``start fresh''\<close>

text \<open>One seed is removed but kept, another wallet is imported, its seed is removed and kept too.\<close>

definition kept_a :: vault where
  "kept_a = snd (WALLET_DELETE_SEED sample_keyring sample_derivation (JStr ''1'') (JBool True) import_a)"

definition import_b :: vault where
  "import_b = snd (WALLET_IMPORT sample_keyring sample_derivation ''2'' (JStr phrase_b) JUndef kept_a)"

definition kept_b :: vault where
  "kept_b = snd (WALLET_DELETE_SEED sample_keyring sample_derivation (JStr ''2'') (JBool True) import_b)"

definition wiped :: vault where
  "wiped = snd (WALLET_DELETE_ALL kept_b)"

lemma kept_a_facts:
  "fresh_id ''2'' (v_disk kept_a)" "retained_id (v_disk kept_a) = Some ''1''"
  "fst (WALLET_DELETE_SEED sample_keyring sample_derivation (JStr ''1'') (JBool True) import_a) = Inr True"
  by code_simp+

lemma import_b_facts:
  "retained_id (v_disk import_b) = Some ''1''" "map we_id (listWallets (v_disk import_b)) = [''2'']"
  by code_simp+

lemma wiped_facts:
  "fst (WALLET_DELETE_ALL kept_b) = Inr ()" "d_seeds (v_disk wiped) ''1'' = Some (CHR ''!'' # phrase_a)"
  by code_simp+

lemma wiped_reachable:
  "vault_reachable sample_keyring sample_derivation sample_url old_disk empty_disk import_b"
  "vault_reachable sample_keyring sample_derivation sample_url old_disk empty_disk kept_b"
proof -
  have a: "vault_reachable sample_keyring sample_derivation sample_url old_disk empty_disk kept_a"
    unfolding kept_a_def by (intro stepped [OF import_a_reachable] vault_step.delete_seed)
  show b: "vault_reachable sample_keyring sample_derivation sample_url old_disk empty_disk import_b"
    unfolding import_b_def by (intro stepped [OF a] vault_step.import_wallet kept_a_facts)
  show "vault_reachable sample_keyring sample_derivation sample_url old_disk empty_disk kept_b"
    unfolding kept_b_def by (intro stepped [OF b] vault_step.delete_seed)
qed

text \<open>
  A retained seed is not always the only kept file: importing a wallet while a seed is retained leaves
  \<open>retainedSeedId\<close> set beside a stored wallet, a second kept seed overwrites it, and ``delete all wallets and
  start fresh'' then succeeds with the first phrase still on the disk and readable.
\<close>

theorem start_fresh_leaves_seed:
  "\<exists>v v'. vault_reachable sample_keyring sample_derivation sample_url old_disk empty_disk v \<and> WALLET_DELETE_ALL v = (Inr (), v') \<and>
     getWalletMnemonic sample_keyring (v_disk v') ''1'' = Inr phrase_a"
proof (intro exI conjI)
  show "vault_reachable sample_keyring sample_derivation sample_url old_disk empty_disk kept_b" by (rule wiped_reachable(2))
  show "WALLET_DELETE_ALL kept_b = (Inr (), wiped)" using wiped_facts(1) by (simp add: wiped_def prod_eq_iff)
  show "getWalletMnemonic sample_keyring (v_disk wiped) ''1'' = Inr phrase_a"
    using wiped_facts(2) by (simp add: getWalletMnemonic_def sample_keyring_def)
qed

theorem start_fresh_wipes_witness: "listWallets (v_disk wiped) = [] \<and> v_loaded wiped = None"
  using start_fresh_wipes [of kept_b "()" wiped] wiped_facts(1) by (simp add: wiped_def prod_eq_iff)

theorem seed_removed_exactly_witness:
  "\<exists>p. phrase_of sample_keyring (v_disk import_a) ''1'' = Some p \<and> listWallets (v_disk kept_a) =
     filter (\<lambda>w. phrase_of sample_keyring (v_disk import_a) (we_id w) \<noteq> Some p) (listWallets (v_disk import_a))"
proof -
  have "WALLET_DELETE_SEED sample_keyring sample_derivation (JStr ''1'') (JBool True) import_a = (Inr True, kept_a)"
    using kept_a_facts(3) by (simp add: kept_a_def prod_eq_iff)
  moreover have "sound_disk (v_disk import_a)"
    using reachable_invariant [of _ _ _ _ _ _ "\<lambda>_. True", OF import_a_reachable empty_sound empty_settled _ _ here] by simp
  ultimately show ?thesis
    using seed_removed_exactly [of sample_keyring sample_derivation "JStr ''1''" "JBool True" import_a True kept_a]
    by (simp add: the_string_def) blast
qed

section \<open>Duplicates\<close>

definition dup_entry :: "string \<Rightarrow> wallet_entry" where
  "dup_entry i = \<lparr>we_id = i, we_name = ''W'' @ i, we_address = ''sent1x'', we_account = None, we_addressIndex = None,
     we_provider = None\<rparr>"

text \<open>The older of two entries for one address does not open, and it is the active one.\<close>

definition dup_disk :: disk where
  "dup_disk = \<lparr>d_index = Holds [dup_entry ''1'', dup_entry ''2''], d_seeds = [''1'' \<mapsto> ''?'', ''2'' \<mapsto> ''!m''],
     d_settings = Holds (JObj [(''activeWalletId'', JStr ''1'')]), d_legacy = None\<rparr>"

lemma dup_sound: "sound_disk (v_disk (boot dup_disk))"
proof -
  have "distinct (map we_id (listWallets dup_disk))" "ids dup_disk = {''1'', ''2''}" "retained_id dup_disk = None"
    by (simp_all add: dup_disk_def dup_entry_def listWallets_def ids_def, code_simp)
  then show ?thesis by (simp add: sound_disk_def boot_def) (simp add: dup_disk_def)
qed

theorem duplicates_merged_witness:
  "active_entry_address (v_disk (snd (dedupeWalletEntries sample_keyring (boot dup_disk)))) = Some ''sent1x'' \<and>
   (\<exists>w \<in> set (listWallets (v_disk (snd (dedupeWalletEntries sample_keyring (boot dup_disk))))).
      canUnlockWallet sample_keyring (v_disk (snd (dedupeWalletEntries sample_keyring (boot dup_disk)))) (we_id w))"
proof -
  have "active_entry_address dup_disk = Some ''sent1x''" by code_simp
  moreover have "dup_entry ''2'' \<in> {w \<in> set (listWallets (v_disk (boot dup_disk))). canUnlockWallet sample_keyring (v_disk (boot dup_disk)) (we_id w)}"
    by (simp add: boot_def dup_disk_def listWallets_def) code_simp
  ultimately show ?thesis
    using duplicates_merged [OF dup_sound, of sample_keyring] by (simp add: boot_def) blast
qed

section \<open>What a switch and an import leave in memory\<close>

text \<open>A switch to a wallet that cannot be unlocked makes it the active one on disk and keeps the keys of the
  previous one loaded.\<close>

definition locked_disk :: disk where
  "locked_disk = (v_disk import_a)\<lparr>d_index := Holds (listWallets (v_disk import_a) @ [dup_entry ''7'']),
     d_seeds := (d_seeds (v_disk import_a))(''7'' \<mapsto> ''?'')\<rparr>"

lemma failed_switch_desyncs:
  "\<exists>v v'. v_disk v = locked_disk \<and> v_loaded v = v_loaded import_a \<and>
     WALLET_SWITCH sample_keyring sample_derivation (JStr ''7'') v = (Inr None, v') \<and>
     active_id (v_disk v') = Some ''7'' \<and> map_option l_wallet (v_loaded v') = Some ''1''"
proof -
  let ?v = "import_a\<lparr>v_disk := locked_disk\<rparr>"
  have "fst (WALLET_SWITCH sample_keyring sample_derivation (JStr ''7'') ?v) = Inr None"
    "active_id (v_disk (snd (WALLET_SWITCH sample_keyring sample_derivation (JStr ''7'') ?v))) = Some ''7''"
    "map_option l_wallet (v_loaded (snd (WALLET_SWITCH sample_keyring sample_derivation (JStr ''7'') ?v))) = Some ''1''"
    by code_simp+
  then show ?thesis by (intro exI [of _ ?v] exI [of _ "snd (WALLET_SWITCH sample_keyring sample_derivation (JStr ''7'') ?v)"])
      (simp add: prod_eq_iff)
qed

text \<open>An import makes another wallet the active one and keeps the balance read for the previous one, which a
  failed read then returns.\<close>

lemma import_keeps_figures:
  assumes "WALLET_IMPORT k dv u m n v = (Inr a, v')"
  shows "v_balance v' = v_balance v"
proof -
  have keeps: "v_balance (snd (addWalletEntry k u nm ad ph x y w)) = v_balance w" for nm ad ph x y w
    by (auto simp: addWalletEntry_def Let_def write_seed_def saveWalletIndex_def vault_run then_act_def saveSettings_eq
        simp del: reread.simps split: option.split)
  from assms obtain nm where "importWallet k dv u (the_string m) nm 0 v = (Inr a, v')"
    by (auto simp: WALLET_IMPORT_def Let_def then_act_ok vault_ok not_connected_def split: if_splits)
  then obtain ad ph e w where "addWalletEntry k u ad a ph 0 0 v = (Inr e, w)" "v_balance v' = v_balance w"
    by (auto simp: importWallet_def Let_def then_act_ok vault_ok saveSettings_eq load_def in_memory_def simp del: reread.simps)
  then show ?thesis using keeps [of ad a ph 0 0 v] by simp
qed

end
