(* ===== verification/Incremental.thy ===== *)
theory Incremental
  imports Prelude
begin

text \<open>
  Readers of a byte or character stream that arrives in chunks of any size: the handler of a socket's
  \<open>data\<close> event appends the chunk to a buffer and looks whether the buffer now settles the matter. The
  locale states what makes that sound, that more input never changes a verdict once there is one; its
  lemmas say that the verdict is then that of the whole stream read at once.
\<close>

text \<open>The buffer after each chunk, up to the first that gives a verdict; the second component is what had been read.\<close>

fun feed :: "('b list \<Rightarrow> 'a option) \<Rightarrow> 'b list \<Rightarrow> 'b list list \<Rightarrow> 'a option \<times> 'b list" where
  "feed verdict buf [] = (None, buf)"
| "feed verdict buf (c # cs) =
     (case verdict (buf @ c) of None \<Rightarrow> feed verdict (buf @ c) cs | Some r \<Rightarrow> (Some r, buf @ c))"

locale incremental =
  fixes verdict :: "'b list \<Rightarrow> 'a option"
  assumes stable: "verdict b = Some r \<Longrightarrow> verdict (b @ c) = Some r"
begin

lemma undecided_prefix: "verdict (b @ c) = None \<Longrightarrow> verdict b = None"
  using stable by (cases "verdict b") force+

lemma feed_verdict: "verdict buf = None \<Longrightarrow> fst (feed verdict buf cs) = verdict (buf @ concat cs)"
proof (induction cs arbitrary: buf)
  case (Cons c cs)
  show ?case
  proof (cases "verdict (buf @ c)")
    case None
    with Cons.IH [of "buf @ c"] show ?thesis by simp
  next
    case (Some r)
    with stable [of "buf @ c" r "concat cs"] show ?thesis by simp
  qed
qed simp

lemma same_stream_same_verdict:
  assumes "verdict [] = None" and "concat cs = concat ds"
  shows "fst (feed verdict [] cs) = fst (feed verdict [] ds)"
  using assms by (simp add: feed_verdict)

lemma feed_read_prefix: "\<exists>rest. buf @ concat cs = snd (feed verdict buf cs) @ rest"
proof (induction cs arbitrary: buf)
  case (Cons c cs)
  from Cons.IH [of "buf @ c"] show ?case by (auto split: option.splits)
qed simp

end

end
