(* ===== verification/SocksAgent.thy ===== *)
theory SocksAgent
  imports Incremental NetGuard JsonText
begin

text \<open>
  The SOCKS5 client of \<open>src/main/socks-agent.ts\<close>, through which the exit hop of a chain is reached before any
  tunnel exists. Buffers are lists of bytes. The negotiation is the state the closure of \<open>socks5Connect\<close>
  keeps and its three listeners; a settled negotiation has removed them, so what arrives after is read by
  whoever owns the socket next. Bytes that follow the reply in the same chunk are pushed back while the
  data listener is still there, and a flowing socket gives them to it again, from within the push. The TLS session opened on the socket and the timeouts are left out.
\<close>

type_synonym bytes = "8 word list"

section \<open>The messages\<close>

definition byte_text :: "8 word \<Rightarrow> string" where
  "byte_text b = show_nat (unat b)"

definition REPLY_REASON :: "8 word \<rightharpoonup> string" where
  "REPLY_REASON = map_of
     [(1, ''general SOCKS server failure''), (2, ''connection not allowed by ruleset''),
      (3, ''network unreachable''), (4, ''host unreachable''), (5, ''connection refused''),
      (6, ''TTL expired''), (7, ''command not supported''), (8, ''address type not supported'')]"

definition encodeGreeting :: bytes where
  "encodeGreeting = [5, 1, 0]"

definition wrong_version :: "8 word \<Rightarrow> string" where
  "wrong_version b = ''SOCKS5 proxy replied with version '' @ byte_text b @ '', expected 5''"

definition parseGreetingReply :: "bytes \<Rightarrow> unit result" where
  "parseGreetingReply reply =
     (if length reply < 2 then throw ''SOCKS5 proxy sent a truncated greeting reply''
      else if reply ! 0 \<noteq> 5 then throw (wrong_version (reply ! 0))
      else if reply ! 1 = 255 then throw ''SOCKS5 proxy requires authentication, which this client does not offer''
      else if reply ! 1 \<noteq> 0
        then throw (''SOCKS5 proxy selected auth method '' @ byte_text (reply ! 1) @ '', expected none'')
      else ok ())"

definition port_bytes :: "int \<Rightarrow> bytes" where
  "port_bytes p = [word_of_int (p div 256), word_of_int (p mod 256)]"

definition encodeConnect :: "string \<Rightarrow> jnum \<Rightarrow> bytes result" where
  "encodeConnect host port =
     (case port of
        NOther s \<Rightarrow> throw (''SOCKS5 CONNECT: invalid port '' @ s)
      | NInt p \<Rightarrow>
          if p \<le> 0 \<or> p > 65535 then throw (''SOCKS5 CONNECT: invalid port '' @ show_int p)
          else
            let head = [5, 1, 0]; tail = port_bytes p; name = utf8 host in
            if isIPv4 host then ok (head @ [1] @ map (\<lambda>g. word_of_nat (read_nat g)) (the (octet_groups host)) @ tail)
            else if name = [] \<or> length name > 255
              then throw (''SOCKS5 CONNECT: host name must be 1-255 bytes, got '' @ show_nat (length name))
            else ok (head @ [3, word_of_nat (length name)] @ name @ tail))"

text \<open>How many bytes the reply takes, \<open>None\<close> while it has not all arrived.\<close>

definition parseConnectReply :: "bytes \<Rightarrow> nat option result" where
  "parseConnectReply reply =
     (if length reply < 4 then ok None
      else if reply ! 0 \<noteq> 5 then throw (wrong_version (reply ! 0))
      else if reply ! 1 \<noteq> 0 then
        throw (''SOCKS5 proxy refused the connection: '' @
          (case REPLY_REASON (reply ! 1) of Some why \<Rightarrow> why | None \<Rightarrow> ''reply code '' @ byte_text (reply ! 1)))
      else
        let whole = (\<lambda>addrLen. ok (if length reply < 4 + addrLen + 2 then None else Some (4 + addrLen + 2)));
            atyp = reply ! 3
        in if atyp = 1 then whole 4
           else if atyp = 4 then whole 16
           else if atyp = 3 then (if length reply < 5 then ok None else whole (1 + unat (reply ! 4)))
           else throw (''SOCKS5 proxy replied with unknown address type '' @ byte_text atyp))"

section \<open>The negotiation\<close>

datatype stage = Greeting | Connecting

datatype socket_event = Data bytes | SocketError string | SocketClosed

record dial =
  k_stage :: stage
  k_buffered :: bytes
  k_written :: bytes
  k_outcome :: "unit result option"
  k_stream :: bytes

text \<open>A promise settles once.\<close>

definition k_finish :: "unit result \<Rightarrow> dial \<Rightarrow> dial" where
  "k_finish r k = (if k_outcome k = None then k\<lparr>k_outcome := Some r\<rparr> else k)"

text \<open>The connect stage; \<open>emitted\<close> is what \<open>onData\<close> does with bytes pushed back, now in the buffer once more.\<close>

definition read_reply :: "(dial \<Rightarrow> dial) \<Rightarrow> dial \<Rightarrow> dial" where
  "read_reply emitted k =
     (case parseConnectReply (k_buffered k) of
        Inl e \<Rightarrow> k_finish (Inl e) k
      | Inr None \<Rightarrow> k
      | Inr (Some consumed) \<Rightarrow>
          let rest = drop consumed (k_buffered k) in
          k_finish (ok ()) (if rest = [] then k else emitted (k\<lparr>k_buffered := k_buffered k @ rest\<rparr>)))"

text \<open>\<open>depth\<close> is how many of these calls nest before the runtime throws.\<close>

primrec await_reply :: "nat \<Rightarrow> dial \<Rightarrow> dial" where
  "await_reply 0 k = read_reply (k_finish (throw ''Maximum call stack size exceeded'')) k"
| "await_reply (Suc depth) k = read_reply (await_reply depth) k"

definition onData :: "nat \<Rightarrow> string \<Rightarrow> jnum \<Rightarrow> bytes \<Rightarrow> dial \<Rightarrow> dial" where
  "onData depth host port chunk k0 =
     (let k = k0\<lparr>k_buffered := k_buffered k0 @ chunk\<rparr> in
      case k_stage k of
        Greeting \<Rightarrow>
          if length (k_buffered k) < 2 then k
          else (case parseGreetingReply (k_buffered k) of
              Inl e \<Rightarrow> k_finish (Inl e) k
            | Inr _ \<Rightarrow>
                let k' = k\<lparr>k_buffered := drop 2 (k_buffered k), k_stage := Connecting\<rparr> in
                (case encodeConnect host port of
                   Inl e \<Rightarrow> k_finish (Inl e) k'
                 | Inr request \<Rightarrow> await_reply depth (k'\<lparr>k_written := k_written k' @ request\<rparr>)))
      | Connecting \<Rightarrow> await_reply depth k)"

fun dial_event :: "nat \<Rightarrow> string \<Rightarrow> jnum \<Rightarrow> socket_event \<Rightarrow> dial \<Rightarrow> dial" where
  "dial_event depth host port (Data chunk) k =
     (if k_outcome k = None then onData depth host port chunk k else k\<lparr>k_stream := k_stream k @ chunk\<rparr>)"
| "dial_event depth host port (SocketError e) k = (if k_outcome k = None then k_finish (Inl e) k else k)"
| "dial_event depth host port SocketClosed k =
     (if k_outcome k = None
      then k_finish (throw ''SOCKS5 proxy closed the connection during the handshake'') k else k)"

definition dial_start :: dial where
  "dial_start = \<lparr>k_stage = Greeting, k_buffered = [], k_written = encodeGreeting, k_outcome = None, k_stream = []\<rparr>"

definition socks5Connect :: "nat \<Rightarrow> string \<Rightarrow> jnum \<Rightarrow> socket_event list \<Rightarrow> dial" where
  "socks5Connect depth host port evs = fold (dial_event depth host port) evs dial_start"

text \<open>
  The target \<open>createConnection\<close> dials: \<open>target.hostname ?? target.host ?? ''\<close>, and the port, which Node hands over
  as a number or as the string of a URL. \<open>number\<close> is JavaScript's \<open>Number\<close> on a string.
\<close>

definition nullish :: "js \<Rightarrow> bool" where
  "nullish v \<longleftrightarrow> v = JUndef \<or> v = JNull"

definition agent_host :: "js \<Rightarrow> js" where
  "agent_host options =
     (if \<not> nullish (jget ''hostname'' options) then jget ''hostname'' options
      else if \<not> nullish (jget ''host'' options) then jget ''host'' options else JStr [])"

definition agent_port :: "(string \<Rightarrow> jnum) \<Rightarrow> js \<Rightarrow> jnum" where
  "agent_port number options =
     (case jget ''port'' options of
        JUndef \<Rightarrow> NInt 443
      | JNum n \<Rightarrow> n
      | JStr s \<Rightarrow> if s = [] then NInt 443 else number s
      | JNull \<Rightarrow> NInt 0
      | JBool b \<Rightarrow> NInt (if b then 1 else 0)
      | v \<Rightarrow> number (to_string v))"

section \<open>Chunks\<close>

text \<open>The verdict on everything the proxy has sent so far, read at once: a refusal, or the length of the two replies.\<close>

definition dial_verdict :: "string \<Rightarrow> jnum \<Rightarrow> bytes \<Rightarrow> nat result option" where
  "dial_verdict host port b =
     (if length b < 2 then None
      else case parseGreetingReply b of
          Inl e \<Rightarrow> Some (Inl e)
        | Inr _ \<Rightarrow> (case encodeConnect host port of
            Inl e \<Rightarrow> Some (Inl e)
          | Inr _ \<Rightarrow> (case parseConnectReply (drop 2 b) of
              Inl e \<Rightarrow> Some (Inl e)
            | Inr None \<Rightarrow> None
            | Inr (Some n) \<Rightarrow> Some (ok (2 + n)))))"

lemma greeting_stable: "2 \<le> length b \<Longrightarrow> parseGreetingReply (b @ c) = parseGreetingReply b"
proof -
  assume "2 \<le> length b"
  then obtain x y zs where "b = x # y # zs" by (metis Suc_le_length_iff numeral_2_eq_2)
  then show ?thesis by (simp add: parseGreetingReply_def)
qed

lemma reply_stable: "parseConnectReply b \<noteq> ok None \<Longrightarrow> parseConnectReply (b @ c) = parseConnectReply b"
proof -
  assume more: "parseConnectReply b \<noteq> ok None"
  then have "4 \<le> length b" by (simp add: parseConnectReply_def split: if_splits)
  then obtain v rep rsv atyp rest where b: "b = v # rep # rsv # atyp # rest"
    by (auto simp: numeral_eq_Suc Suc_le_length_iff)
  show ?thesis
  proof (cases "v = 5 \<and> rep = 0 \<and> atyp = 3")
    case True
    with more b show ?thesis by (cases rest) (simp_all add: parseConnectReply_def Let_def split: if_splits)
  next
    case False
    with more b show ?thesis by (simp add: parseConnectReply_def Let_def split: if_splits option.split)
  qed
qed

lemma reply_fits: "parseConnectReply b = ok (Some n) \<Longrightarrow> n \<le> length b"
  by (auto simp: parseConnectReply_def Let_def split: if_splits)

interpretation proxy: incremental "dial_verdict host port" for host port
proof
  fix b c r assume v: "dial_verdict host port b = Some r"
  then have l: "2 \<le> length b" by (auto simp: dial_verdict_def split: if_splits)
  have "parseConnectReply (drop 2 b @ c) = parseConnectReply (drop 2 b)" if "parseConnectReply (drop 2 b) \<noteq> ok None"
    using that by (rule reply_stable)
  with v l show "dial_verdict host port (b @ c) = Some r"
    by (cases "parseConnectReply (drop 2 b)")
       (auto simp: dial_verdict_def greeting_stable split: sum.splits option.splits)
qed

text \<open>The state of the negotiation after the bytes \<open>b\<close>.\<close>

definition tracks :: "string \<Rightarrow> jnum \<Rightarrow> bytes \<Rightarrow> dial \<Rightarrow> bool" where
  "tracks host port b k \<longleftrightarrow>
     (case dial_verdict host port b of
        None \<Rightarrow> k_outcome k = None \<and> k_stream k = [] \<and>
          (if length b < 2 then k_stage k = Greeting \<and> k_buffered k = b \<and> k_written k = encodeGreeting
           else k_stage k = Connecting \<and> k_buffered k = drop 2 b \<and>
             (\<exists>request. encodeConnect host port = ok request \<and> k_written k = encodeGreeting @ request))
      | Some (Inl e) \<Rightarrow> k_outcome k = Some (Inl e)
      | Some (Inr n) \<Rightarrow> n = length b \<longrightarrow> k_outcome k = Some (ok ()) \<and> k_stream k = [] \<and>
          (\<exists>request. encodeConnect host port = ok request \<and> k_written k = encodeGreeting @ request))"

lemma await_reply_eq:
  "await_reply depth k = read_reply (case depth of 0 \<Rightarrow> k_finish (throw ''Maximum call stack size exceeded'')
     | Suc d \<Rightarrow> await_reply d) k"
  by (cases depth) simp_all

lemma await_tracks:
  assumes "encodeConnect host port = ok request" and "k_written k = encodeGreeting @ request"
    and "k_buffered k = drop 2 b" and "2 \<le> length b" and "parseGreetingReply b = ok ()"
    and "k_outcome k = None" and "k_stage k = Connecting" and "k_stream k = []"
  shows "tracks host port b (await_reply depth k)"
  using assms reply_fits [of "drop 2 b"]
  by (cases "parseConnectReply (drop 2 b)")
     (auto simp: tracks_def await_reply_eq read_reply_def dial_verdict_def k_finish_def Let_def split: option.splits)

lemma undecided_greeting:
  "dial_verdict host port b = None \<Longrightarrow> 2 \<le> length b \<Longrightarrow> parseGreetingReply b = ok ()"
  by (auto simp: dial_verdict_def split: sum.splits)

lemma onData_tracks:
  assumes t: "tracks host port b k" and none: "dial_verdict host port b = None"
  shows "tracks host port (b @ c) (onData depth host port c k)"
proof (cases "length b < 2")
  case False
  then have g: "parseGreetingReply (b @ c) = ok ()"
    using undecided_greeting [OF none] by (simp add: greeting_stable)
  from False t none obtain request where "encodeConnect host port = ok request"
    "k_written k = encodeGreeting @ request" "k_stage k = Connecting" "k_buffered k = drop 2 b" "k_outcome k = None" "k_stream k = []"
    by (auto simp: tracks_def)
  with False g show ?thesis
    by (simp add: onData_def await_tracks [where request = request])
next
  case True
  with t none have k: "k_stage k = Greeting" "k_buffered k = b" "k_written k = encodeGreeting" "k_outcome k = None" "k_stream k = []"
    by (auto simp: tracks_def)
  show ?thesis
  proof (cases "length (b @ c) < 2")
    case True
    with k show ?thesis by (simp add: onData_def tracks_def dial_verdict_def)
  next
    case long: False
    show ?thesis
    proof (cases "parseGreetingReply (b @ c)")
      case (Inl e)
      with k long show ?thesis by (simp add: onData_def tracks_def dial_verdict_def k_finish_def)
    next
      case g: (Inr u)
      show ?thesis
      proof (cases "encodeConnect host port")
        case (Inl e)
        with k long g show ?thesis by (simp add: onData_def tracks_def dial_verdict_def k_finish_def)
      next
        case (Inr request)
        with k long g show ?thesis by (simp add: onData_def await_tracks [where request = request])
      qed
    qed
  qed
qed

lemma verdict_fits: "dial_verdict host port b = Some (Inr n) \<Longrightarrow> n \<le> length b"
  using reply_fits [of "drop 2 b"] by (auto simp: dial_verdict_def split: if_splits sum.splits option.splits)

lemma dial_tracks: "tracks host port b k \<Longrightarrow> tracks host port (b @ c) (dial_event depth host port (Data c) k)"
proof (cases "dial_verdict host port b")
  case None
  moreover assume "tracks host port b k"
  ultimately show ?thesis using onData_tracks [of host port b k c] by (simp add: tracks_def)
next
  case (Some r)
  moreover assume "tracks host port b k"
  ultimately show ?thesis
    using proxy.stable [OF Some, of c] verdict_fits [of host port b] Some by (cases r) (auto simp: tracks_def)
qed

lemma dial_reads: "tracks host port b k \<Longrightarrow> tracks host port (b @ concat cs) (fold (dial_event depth host port) (map Data cs) k)"
proof (induction cs arbitrary: b k)
  case (Cons c cs)
  from Cons.IH [OF dial_tracks [OF Cons.prems, of c]] show ?case by simp
qed simp

lemma dial_start_tracks: "tracks host port [] dial_start"
  by (simp add: tracks_def dial_verdict_def dial_start_def)

lemma stream_passed_on:
  "k_outcome k \<noteq> None \<Longrightarrow> fold (dial_event depth host port) (map Data cs) k = k\<lparr>k_stream := k_stream k @ concat cs\<rparr>"
  by (induction cs arbitrary: k) auto

text \<open>
  C39. The SOCKS5 negotiation does not depend on how the proxy's bytes arrive, as long as the proxy sends nothing of the
  tunnelled stream before its reply has been read (it is spoken to only then): after any chunks the negotiation has
  settled exactly when the bytes read at once settle it and with that verdict, and once the tunnel is open the
  bytes left for the TLS session are those that arrive after the two replies, none lost and none read twice.
\<close>

theorem socks_chunks_irrelevant:
  assumes "\<And>n. dial_verdict host port (concat cs) = Some (Inr n) \<Longrightarrow> n = length (concat cs)"
  shows "case dial_verdict host port (concat cs) of
     None \<Rightarrow> k_outcome (socks5Connect depth host port (map Data cs)) = None
   | Some (Inl e) \<Rightarrow> k_outcome (socks5Connect depth host port (map Data cs)) = Some (Inl e)
   | Some (Inr n) \<Rightarrow> k_outcome (socks5Connect depth host port (map Data (cs @ stream))) = Some (ok ()) \<and>
       k_stream (socks5Connect depth host port (map Data (cs @ stream))) = concat stream"
  using dial_reads [OF dial_start_tracks, of host port cs depth] assms
  by (auto simp: tracks_def socks5Connect_def stream_passed_on split: option.splits sum.splits)

text \<open>The replies one byte at a time, then a chunk of the stream.\<close>

lemma socks_chunks_irrelevant_witness:
  "let k = socks5Connect 100 ''10.0.0.1'' (NInt 443) (map Data ([[5], [0], [5], [0], [0], [1], [0, 0], [0, 0], [1, 187]] @ [[22, 3], [1]]))
   in k_outcome k = Some (ok ()) \<and> k_stream k = [22, 3, 1]"
proof -
  let ?cs = "[[5], [0], [5], [0], [0], [1], [0, 0], [0, 0], [1, 187]] :: bytes list"
  have v: "dial_verdict ''10.0.0.1'' (NInt 443) (concat ?cs) = Some (ok 12)" by code_simp
  show ?thesis
    using socks_chunks_irrelevant [where host = "''10.0.0.1''" and port = "NInt 443" and cs = ?cs and depth = 100
        and stream = "[[22, 3], [1]]"] v
    by (simp add: Let_def)
qed

text \<open>
  The condition is needed. Bytes of the stream in the chunk that completes the reply are pushed back before the data
  listener is removed, so the listener gets them again, appended to a buffer that still holds the reply: it reads the same reply,
  pushes back more, and so on until the runtime throws. The negotiation fails although the proxy had opened the tunnel.
\<close>

lemma pushed_back_forever:
  assumes "parseConnectReply (k_buffered k) = ok (Some n)" and "n < length (k_buffered k)" and "k_outcome k = None"
  shows "k_outcome (await_reply depth k) = Some (throw ''Maximum call stack size exceeded'')"
  using assms
proof (induction depth arbitrary: k)
  case 0
  then show ?case by (simp add: read_reply_def k_finish_def Let_def)
next
  case (Suc depth)
  let ?k = "k\<lparr>k_buffered := k_buffered k @ drop n (k_buffered k)\<rparr>"
  have "parseConnectReply (k_buffered ?k) = ok (Some n)" using reply_stable Suc.prems(1) by simp
  then have "k_outcome (await_reply depth ?k) = Some (throw ''Maximum call stack size exceeded'')"
    using Suc.prems by (intro Suc.IH) simp_all
  with Suc.prems show ?case by (simp add: read_reply_def k_finish_def Let_def)
qed

lemma stream_with_the_reply_fails:
  assumes "dial_verdict host port b = Some (Inr n)" and "n < length b"
  shows "k_outcome (socks5Connect depth host port [Data b]) = Some (throw ''Maximum call stack size exceeded'')"
proof -
  from assms(1) have l: "2 \<le> length b" and g: "parseGreetingReply b = ok ()"
    by (auto simp: dial_verdict_def split: if_splits sum.splits)
  from assms(1) l g obtain request where e: "encodeConnect host port = ok request"
    by (auto simp: dial_verdict_def split: sum.splits)
  from assms(1) l g e obtain m where m: "parseConnectReply (drop 2 b) = ok (Some m)" "n = 2 + m"
    by (auto simp: dial_verdict_def split: sum.splits option.splits)
  show ?thesis
    using pushed_back_forever [where n = m] l g e m assms(2)
    by (simp add: socks5Connect_def dial_start_def onData_def Let_def)
qed

section \<open>The request\<close>

text \<open>
  What a SOCKS5 server reads from the request (RFC 1928, section 4): the address by its type, the port, and the rest of
  the stream.
\<close>

datatype socks_target = Address bytes | Domain bytes

definition read_request :: "bytes \<Rightarrow> (socks_target \<times> nat \<times> bytes) option" where
  "read_request b =
     (case b of
        v # cmd # rsv # atyp # rest \<Rightarrow>
          if v \<noteq> 5 \<or> cmd \<noteq> 1 \<or> rsv \<noteq> 0 then None
          else let with_port = (\<lambda>t n. case drop n rest of
                    hi # lo # after \<Rightarrow> Some (t, 256 * unat hi + unat lo, after) | _ \<Rightarrow> None)
            in if atyp = 1 then with_port (Address (take 4 rest)) 4
               else if atyp = 3
                 then (case rest of n # _ \<Rightarrow> with_port (Domain (take (unat n) (drop 1 rest))) (1 + unat n) | [] \<Rightarrow> None)
                 else None
      | _ \<Rightarrow> None)"

definition target_of :: "string \<Rightarrow> socks_target" where
  "target_of host =
     (if isIPv4 host then Address (map (\<lambda>g. word_of_nat (read_nat g)) (the (octet_groups host))) else Domain (utf8 host))"

lemma port_split: "0 \<le> p \<Longrightarrow> p \<le> 65535 \<Longrightarrow> 256 * unat (word_of_int (p div 256) :: 8 word) + unat (word_of_int (p mod 256) :: 8 word) = nat p"
proof -
  assume "0 \<le> p" "p \<le> 65535"
  then have "uint (word_of_int (p div 256) :: 8 word) = p div 256" "uint (word_of_int (p mod 256) :: 8 word) = p mod 256"
    by (simp_all add: uint_word_of_int)
  moreover have "256 * nat (p div 256) + nat (p mod 256) = nat (256 * (p div 256) + p mod 256)"
    using \<open>0 \<le> p\<close> by (subst nat_add_distrib) (simp_all add: nat_mult_distrib)
  ultimately show ?thesis by (simp only: unat_eq_nat_uint mult_div_mod_eq)
qed

lemma encodeConnect_cases:
  "encodeConnect host port = ok request \<longleftrightarrow>
     (\<exists>p. port = NInt p \<and> 0 < p \<and> p \<le> 65535 \<and>
        (if isIPv4 host then request = [5, 1, 0, 1] @ map (\<lambda>g. word_of_nat (read_nat g)) (the (octet_groups host)) @ port_bytes p
         else utf8 host \<noteq> [] \<and> length (utf8 host) \<le> 255 \<and>
           request = [5, 1, 0, 3, word_of_nat (length (utf8 host))] @ utf8 host @ port_bytes p))"
  by (cases port) (auto simp: encodeConnect_def Let_def)

text \<open>
  A CONNECT request that is sent says what was asked: reading it back the way a SOCKS5 server does gives the host
  (the four octets of an address, otherwise the name itself, which two different names never share) and the
  port, and leaves whatever follows it untouched.
\<close>

theorem connect_request_read_back:
  assumes "encodeConnect host (NInt p) = ok request"
  shows "read_request (request @ after) = Some (target_of host, nat p, after) \<and> 1 \<le> p \<and> p \<le> 65535 \<and>
    (\<not> isIPv4 host \<longrightarrow> (\<forall>host'. \<not> isIPv4 host' \<and> target_of host' = target_of host \<longrightarrow> host' = host))"
proof -
  from assms have p: "0 < p" "p \<le> 65535"
    and r: "if isIPv4 host then request = [5, 1, 0, 1] @ map (\<lambda>g. word_of_nat (read_nat g)) (the (octet_groups host)) @ port_bytes p
      else utf8 host \<noteq> [] \<and> length (utf8 host) \<le> 255 \<and>
        request = [5, 1, 0, 3, word_of_nat (length (utf8 host))] @ utf8 host @ port_bytes p"
    by (auto simp: encodeConnect_cases)
  have "read_request (request @ after) = Some (target_of host, nat p, after)"
  proof (cases "isIPv4 host")
    case True
    then obtain gs where "octet_groups host = Some gs" "length gs = 4"
      using octet_groups_Some by (auto simp: isIPv4_groups)
    with True r p show ?thesis
      by (simp add: read_request_def target_of_def port_bytes_def port_split)
  next
    case False
    with r p show ?thesis
      by (simp add: read_request_def target_of_def port_bytes_def port_split unat_of_nat)
  qed
  with p show ?thesis by (auto simp: target_of_def)
qed

theorem connect_request_read_back_witness:
  "\<exists>request. read_request (request @ [7]) = Some (Domain (utf8 ''node.example''), 8443, [7])"
proof -
  have h: "octet_groups ''node.example'' = None"
    by (simp add: octet_groups_def)
  then have t: "target_of ''node.example'' = Domain (utf8 ''node.example'')"
    by (simp add: target_of_def isIPv4_def)
  have "\<exists>request. encodeConnect ''node.example'' (NInt 8443) = ok request"
    by (simp add: encodeConnect_def isIPv4_def h utf8_def utf8_char_def Let_def)
  then obtain request where "encodeConnect ''node.example'' (NInt 8443) = ok request" ..
  from connect_request_read_back [OF this, of "[7]"] t show ?thesis by auto
qed

end
