(* ===== verification/Paging.thy ===== *)
theory Paging
  imports Prelude
begin

text \<open>
  The paged reads of the chain. Each loop of the code asks for the page at a cursor until it holds
  \<open>limit\<close> rows or a page names no next cursor; some also stop at an empty page. A server answers a round
  and a cursor (the empty key asks for the first page), or fails; it need not be consistent.

  A loop that does not stop at an empty page may not end: its reader is a partial function, whose
  value \<open>None\<close> is a read that never returns. One that does stop is total.
\<close>

record 'r page =
  pg_rows :: "'r list"
  pg_next :: string

type_synonym 'r server = "nat \<Rightarrow> string \<Rightarrow> 'r page result"

text \<open>\<open>if (!resp || !resp.rows) break\<close>: an answer without a list ends a read like a last page without rows.\<close>

definition or_break :: "(nat \<Rightarrow> string \<Rightarrow> 'r page option result) \<Rightarrow> 'r server" where
  "or_break srv k key =
     map_sum id (\<lambda>resp. case resp of None \<Rightarrow> \<lparr>pg_rows = [], pg_next = []\<rparr> | Some p \<Rightarrow> p) (srv k key)"

text \<open>\<open>for (row of page) { push; if (length >= limit) break }\<close> cuts the last page, a plain push does not.\<close>

definition keep_page :: "bool \<Rightarrow> nat \<Rightarrow> 'r list \<Rightarrow> 'r list \<Rightarrow> 'r list" where
  "keep_page trim_last limit acc rows = (if trim_last then acc @ take (limit - length acc) rows else acc @ rows)"

partial_function (option) read_pages ::
  "bool \<Rightarrow> nat \<Rightarrow> 'r server \<Rightarrow> nat \<Rightarrow> string \<Rightarrow> 'r list \<Rightarrow> ('r list \<times> bool) result option" where
  "read_pages trim_last limit srv k key acc =
     (if length acc \<ge> limit then Some (Inr (acc, False))
      else case srv k key of
          Inl e \<Rightarrow> Some (Inl e)
        | Inr p \<Rightarrow>
            if pg_next p = [] then Some (Inr (keep_page trim_last limit acc (pg_rows p), True))
            else read_pages trim_last limit srv (Suc k) (pg_next p) (keep_page trim_last limit acc (pg_rows p)))"

text \<open>The same loop with the check for an empty page; every further round adds a row.\<close>

function read_until_empty ::
  "nat \<Rightarrow> 'r server \<Rightarrow> nat \<Rightarrow> string \<Rightarrow> 'r list \<Rightarrow> ('r list) result" where
  "read_until_empty limit srv k key acc =
     (if length acc \<ge> limit then Inr acc
      else case srv k key of
          Inl e \<Rightarrow> Inl e
        | Inr p \<Rightarrow>
            if pg_rows p = [] \<or> pg_next p = [] then Inr (acc @ pg_rows p)
            else read_until_empty limit srv (Suc k) (pg_next p) (acc @ pg_rows p))"
  by pat_completeness auto
termination
  by (relation "measure (\<lambda>(limit, srv, k, key, acc). limit - length acc)") (auto simp: neq_Nil_conv)

declare read_until_empty.simps [simp del]

section \<open>What a read returns\<close>

text \<open>A server that holds the list \<open>rows\<close> and gives it out \<open>n\<close> at a time, under cursors of its own.\<close>

definition serves :: "'r list \<Rightarrow> nat \<Rightarrow> (nat \<Rightarrow> string) \<Rightarrow> 'r server \<Rightarrow> bool" where
  "serves rows n cursor srv \<longleftrightarrow>
     0 < n \<and> cursor 0 = [] \<and> (\<forall>i. 0 < i \<longrightarrow> cursor i \<noteq> []) \<and>
     (\<forall>k i. i \<le> length rows \<longrightarrow> srv k (cursor i) =
        Inr \<lparr>pg_rows = take n (drop i rows), pg_next = (if i + n < length rows then cursor (i + n) else [])\<rparr>)"

lemma servesD:
  assumes "serves rows n cursor srv"
  shows "0 < n" and "cursor 0 = []" and "0 < i \<Longrightarrow> cursor i \<noteq> []"
    and "i \<le> length rows \<Longrightarrow> srv k (cursor i) =
        Inr \<lparr>pg_rows = take n (drop i rows), pg_next = (if i + n < length rows then cursor (i + n) else [])\<rparr>"
  using assms unfolding serves_def by blast+

lemma take_take_drop: "take i rows @ take n (drop i rows) = take (i + n) rows"
  by (simp add: take_add)

lemma read_until_empty_from:
  assumes s: "serves rows n cursor srv" and "i \<le> length rows" and "length rows \<le> limit"
  shows "read_until_empty limit srv k (cursor i) (take i rows) = Inr rows"
  using assms(2)
proof (induction "length rows - i" arbitrary: i k rule: less_induct)
  case less
  have n: "0 < n" by (rule servesD(1) [OF s])
  show ?case
  proof (cases "length (take i rows) \<ge> limit")
    case True
    with less.prems assms(3) have "i = length rows" by auto
    with True show ?thesis by (simp add: read_until_empty.simps [of limit])
  next
    case False
    note ans = servesD(4) [OF s less.prems, of k]
    show ?thesis
    proof (cases "i + n < length rows")
      case True
      have "cursor (i + n) \<noteq> []" using servesD(3) [OF s] n by simp
      moreover have "take n (drop i rows) \<noteq> []" using True n by simp
      moreover have "read_until_empty limit srv (Suc k) (cursor (i + n)) (take (i + n) rows) = Inr rows"
        using less.hyps [of "i + n" "Suc k"] True n by simp
      ultimately show ?thesis
        using False True ans by (subst read_until_empty.simps) (simp add: take_take_drop)
    next
      case last: False
      then have "take i rows @ take n (drop i rows) = rows" by (simp add: take_take_drop)
      then have "read_until_empty limit srv k (cursor i) (take i rows) =
          (if limit \<le> length (take i rows) then Inr (take i rows) else Inr rows)"
        using last ans by (subst read_until_empty.simps) simp
      with False show ?thesis by (simp only: if_False)
    qed
  qed
qed

lemma read_until_empty_complete:
  assumes "serves rows n cursor srv" and "length rows \<le> limit"
  shows "read_until_empty limit srv k [] [] = Inr rows"
  using read_until_empty_from [OF assms(1), of 0] assms servesD(2) [OF assms(1)] by simp

lemma read_pages_from:
  assumes s: "serves rows n cursor srv" and "i \<le> length rows" and "i < limit" and all: "length rows \<le> limit"
  shows "read_pages trim_last limit srv k (cursor i) (take i rows) = Some (Inr (rows, True))"
  using assms(2,3)
proof (induction "length rows - i" arbitrary: i k rule: less_induct)
  case less
  have n: "0 < n" by (rule servesD(1) [OF s])
  note ans = servesD(4) [OF s less.prems(1), of k]
  have lim: "length (take i rows) < limit" using less.prems(2) by simp
  have keep: "keep_page trim_last limit (take i rows) (take n (drop i rows)) = take (i + n) rows"
  proof -
    have "length (take n (drop i rows)) \<le> limit - length (take i rows)"
      using less.prems all by simp
    then have "take (limit - length (take i rows)) (take n (drop i rows)) = take n (drop i rows)"
      by (rule take_all)
    then show ?thesis by (simp add: keep_page_def take_take_drop del: length_take take_take)
  qed
  show ?case
  proof (cases "i + n < length rows")
    case True
    have "cursor (i + n) \<noteq> []" using servesD(3) [OF s] n by simp
    moreover have "read_pages trim_last limit srv (Suc k) (cursor (i + n)) (take (i + n) rows) = Some (Inr (rows, True))"
      using less.hyps [of "i + n" "Suc k"] True n all by simp
    ultimately show ?thesis
      using lim True ans keep by (subst read_pages.simps) simp
  next
    case last: False
    then have "take (i + n) rows = rows" by simp
    with lim last ans keep show ?thesis by (subst read_pages.simps) (auto simp: min_def split: if_splits)
  qed
qed

lemma read_pages_complete:
  assumes "serves rows n cursor srv" and "length rows \<le> limit" and "0 < limit"
  shows "read_pages trim_last limit srv k [] [] = Some (Inr (rows, True))"
  using read_pages_from [OF assms(1), of 0] assms servesD(2) [OF assms(1)] by simp

text \<open>One such server, whose cursors are the offsets in decimal.\<close>

definition cursor_at :: "nat \<Rightarrow> string" where
  "cursor_at i = (if i = 0 then [] else show_nat i)"

definition page_server :: "'r list \<Rightarrow> nat \<Rightarrow> 'r server" where
  "page_server rows n k key =
     (let i = (if key = [] then 0 else read_nat key)
      in Inr \<lparr>pg_rows = take n (drop i rows), pg_next = (if i + n < length rows then cursor_at (i + n) else [])\<rparr>)"

lemma page_server_serves: "0 < n \<Longrightarrow> serves rows n cursor_at (page_server rows n)"
  by (auto simp: serves_def cursor_at_def page_server_def Let_def)

end
