(* ===== verification/ProviderConsole.thy ===== *)
theory ProviderConsole
  imports Paging Shop
begin

text \<open>
  The provider's side of the chain: \<open>src/main/provider/provider-console.ts\<close> and \<open>src/main/chain/lease-query.ts\<close>.
  Reads are functions of the history; one that follows cursors without a check for an empty page may
  not return, and its value is then \<open>None\<close>. Each write is one transaction. The queries of the chain's
  modules, the bech32 and 64-bit codecs and the text of an amount are fields of \<open>prov_io\<close>. Of queries
  started together the first of the list that fails names the error.
\<close>

section \<open>The chain as the console sees it\<close>

record raw_lease =
  rl_id :: "64 word"
  rl_nodeAddress :: string
  rl_quote :: "string option"
  rl_hours :: int
  rl_maxHours :: int
  rl_policy :: int
  rl_startAt :: "string option"

record lease_info = lease_cost +
  li_id :: string
  li_nodeAddress :: string
  li_policy :: int
  li_startAt :: "string option"

record lease_params =
  lp_minHours :: int
  lp_maxHours :: int
  lp_stakingShare :: string

record raw_node =
  rn_hourlyPrices :: "price list"
  rn_status :: "int option"

record node_quote =
  nq_address :: string
  nq_hourlyPrice :: string
  nq_status :: int

record raw_provider =
  rp_details :: provider_details
  rp_status :: "int option"
  rp_statusAt :: "string option"

record my_provider =
  mp_address :: string
  mp_registered :: bool
  mp_details :: provider_details
  mp_status :: int
  mp_statusAt :: "string option"

record raw_plan =
  rw_id :: "64 word"
  rw_bytes :: string
  rw_duration :: "(int \<times> int) option"
  rw_prices :: "price list"
  rw_private :: bool
  rw_status :: int

record my_plan =
  my_id :: string
  my_bytes :: string
  my_durationSeconds :: "rat option"
  my_prices :: "price list"
  my_private :: bool
  my_status :: int

record prov_io =
  pv_chain :: chain_io
  pv_fromBech32 :: "string \<Rightarrow> (string \<times> byte list) result"
  pv_toBech32 :: "string \<Rightarrow> byte list \<Rightarrow> string"
  pv_long :: "string \<Rightarrow> 64 word"
  pv_isUrl :: "string \<Rightarrow> bool"
  pv_p2p :: "string \<Rightarrow> string"
  pv_leases :: "history \<Rightarrow> string \<Rightarrow> raw_lease server"
  pv_leaseParams :: "history \<Rightarrow> (int option \<times> int option \<times> string option) result"
  pv_node :: "history \<Rightarrow> string \<Rightarrow> raw_node option result"
  pv_provider :: "history \<Rightarrow> string \<Rightarrow> raw_provider option result"
  pv_deposit :: "history \<Rightarrow> (string \<times> string) option result"
  pv_share :: "history \<Rightarrow> string option result"
  pv_plans :: "history \<Rightarrow> string \<Rightarrow> raw_plan server"
  pv_subs :: "history \<Rightarrow> 64 word \<Rightarrow> int server"
  pv_subsTotal :: "history \<Rightarrow> 64 word \<Rightarrow> nat option result"

definition show_long :: "64 word \<Rightarrow> string" where
  "show_long w = show_nat (unat w)"

definition or_zero :: "int option \<Rightarrow> int" where
  "or_zero x = (case x of None \<Rightarrow> 0 | Some i \<Rightarrow> i)"

definition or_empty :: "string option \<Rightarrow> string" where
  "or_empty x = (case x of None \<Rightarrow> '''' | Some s \<Rightarrow> s)"

definition prov_address :: "prov_io \<Rightarrow> string \<Rightarrow> string result" where
  "prov_address v = toProviderAddress (pv_fromBech32 v) (pv_toBech32 v)"

text \<open>A read that opens its own connection.\<close>

definition withReadClient :: "prov_io \<Rightarrow> (history \<Rightarrow> 'a result) \<Rightarrow> history \<Rightarrow> 'a result" where
  "withReadClient v f h = and_then (c_connect (pv_chain v) h) (\<lambda>_. f h)"

definition asking :: "(history \<Rightarrow> 'a result) \<Rightarrow> 'a run" where
  "asking f = seq (look f) lift"

section \<open>Leases\<close>

definition toLeaseInfo :: "raw_lease \<Rightarrow> lease_info" where
  "toLeaseInfo l =
     \<lparr>lc_hourlyPrice = (case rl_quote l of None \<Rightarrow> ''0'' | Some q \<Rightarrow> q), lc_hours = rl_hours l,
      lc_maxHours = rl_maxHours l, li_id = show_long (rl_id l), li_nodeAddress = rl_nodeAddress l,
      li_policy = rl_policy l, li_startAt = rl_startAt l\<rparr>"

definition MAX_LEASES :: nat where "MAX_LEASES = 1000"

definition listLeasesForProvider :: "prov_io \<Rightarrow> history \<Rightarrow> string \<Rightarrow> lease_info list result" where
  "listLeasesForProvider v h provAddress =
     and_then (read_until_empty MAX_LEASES (pv_leases v h provAddress) 0 '''' [])
       (\<lambda>rows. ok (map toLeaseInfo rows))"

definition getLeaseParams :: "prov_io \<Rightarrow> history \<Rightarrow> lease_params result" where
  "getLeaseParams v h =
     and_then (pv_leaseParams v h) (\<lambda>(lo, hi, share).
     ok \<lparr>lp_minHours = (case lo of None \<Rightarrow> 1 | Some n \<Rightarrow> n), lp_maxHours = (case hi of None \<Rightarrow> 720 | Some n \<Rightarrow> n),
         lp_stakingShare = or_empty share\<rparr>)"

section \<open>Reads\<close>

definition no_details :: provider_details where
  "no_details = \<lparr>pd_name = '''', pd_identity = '''', pd_website = '''', pd_description = ''''\<rparr>"

definition unregistered :: "string \<Rightarrow> my_provider" where
  "unregistered address = \<lparr>mp_address = address, mp_registered = False, mp_details = no_details, mp_status = 0,
     mp_statusAt = None\<rparr>"

text \<open>The chain reports a missing row by throwing; every other error stays an error.\<close>

definition not_found_as_none :: "'a option result \<Rightarrow> 'a option result" where
  "not_found_as_none r = (case r of Inl m \<Rightarrow> if isChainNotFound m then Inr None else Inl m | Inr x \<Rightarrow> Inr x)"

definition getMyProvider :: "prov_io \<Rightarrow> history \<Rightarrow> string \<Rightarrow> my_provider result" where
  "getMyProvider v h accountAddress =
     and_then (prov_address v accountAddress) (\<lambda>address.
     and_then (not_found_as_none (pv_provider v h address)) (\<lambda>found.
     ok (case found of
          None \<Rightarrow> unregistered address
        | Some p \<Rightarrow> \<lparr>mp_address = address, mp_registered = True, mp_details = rp_details p,
            mp_status = or_zero (rp_status p), mp_statusAt = rp_statusAt p\<rparr>)))"

definition getProviderDeposit :: "prov_io \<Rightarrow> history \<Rightarrow> coin result" where
  "getProviderDeposit v h =
     and_then (pv_deposit v h) (\<lambda>deposit.
     case deposit of
       None \<Rightarrow> throw ''The chain did not report the provider deposit''
     | Some (denom, amount) \<Rightarrow>
         if denom = '''' then throw ''The chain did not report the provider deposit''
         else ok \<lparr>co_denom = denom, co_amount = (if amount = '''' then ''0'' else amount)\<rparr>)"

definition getSubscriptionStakingShare :: "prov_io \<Rightarrow> history \<Rightarrow> string result" where
  "getSubscriptionStakingShare v h =
     and_then (pv_share v h) (\<lambda>share.
     if or_empty share = '''' then throw ''The chain did not report the subscription staking share''
     else ok (or_empty share))"

definition MAX_PLANS :: nat where "MAX_PLANS = 1000"

definition durationToSeconds :: "(int \<times> int) option \<Rightarrow> rat option" where
  "durationToSeconds d = map_option (\<lambda>(seconds, nanos). of_int seconds + of_int nanos / 10 ^ 9) d"

definition toMyPlan :: "raw_plan \<Rightarrow> my_plan" where
  "toMyPlan p = \<lparr>my_id = show_long (rw_id p), my_bytes = rw_bytes p, my_durationSeconds = durationToSeconds (rw_duration p),
     my_prices = rw_prices p, my_private = rw_private p, my_status = rw_status p\<rparr>"

definition listMyPlans :: "prov_io \<Rightarrow> history \<Rightarrow> string \<Rightarrow> my_plan list result option" where
  "listMyPlans v h accountAddress =
     (case prov_address v accountAddress of
        Inl e \<Rightarrow> Some (Inl e)
      | Inr provAddress \<Rightarrow>
          map_option (\<lambda>r. and_then r (\<lambda>(rows, _). ok (map toMyPlan rows)))
            (read_pages False MAX_PLANS (pv_plans v h provAddress) 0 '''' []))"

definition SUBS_MAX_SCAN :: nat where "SUBS_MAX_SCAN = 2000"

record subscriber_stats =
  ss_subscriptions :: nat
  ss_active :: nat
  ss_truncated :: bool

text \<open>The total is read off the first page.\<close>

definition getPlanSubscriberStats :: "prov_io \<Rightarrow> history \<Rightarrow> string \<Rightarrow> subscriber_stats result option" where
  "getPlanSubscriberStats v h planId =
     (let i = pv_long v planId; srv = pv_subs v h i in
      case (pv_subsTotal v h i, srv 0 '''') of
        (Inl e, _) \<Rightarrow> Some (Inl e)
      | (_, Inl e) \<Rightarrow> Some (Inl e)
      | (Inr tot, Inr first) \<Rightarrow>
          map_option (\<lambda>r. and_then r (\<lambda>(rows, exhausted).
              ok \<lparr>ss_subscriptions = (case tot of None \<Rightarrow> length (pg_rows first) | Some n \<Rightarrow> n),
                  ss_active = length (filter (\<lambda>s. s = 1) rows), ss_truncated = \<not> exhausted\<rparr>))
            (read_pages False SUBS_MAX_SCAN srv 0 '''' []))"

definition countPlanSubscriptions :: "prov_io \<Rightarrow> history \<Rightarrow> string \<Rightarrow> nat result" where
  "countPlanSubscriptions v h planId =
     and_then (pv_subsTotal v h (pv_long v planId)) (\<lambda>tot. ok (case tot of None \<Rightarrow> 0 | Some n \<Rightarrow> n))"

section \<open>Economics\<close>

record economics =
  ec_burnHourly :: string
  ec_burnDaily :: string
  ec_activeLeases :: nat
  ec_committed :: string
  ec_revenue :: string
  ec_subscriptions :: nat
  ec_subscriptionShare :: string
  ec_leaseShare :: string

definition udvpn_quote :: "my_plan \<Rightarrow> string" where
  "udvpn_quote plan =
     (case find (\<lambda>p. pc_denom p = ''udvpn'') (my_prices plan) of None \<Rightarrow> '''' | Some p \<Rightarrow> pc_quoteValue p)"

definition plan_revenue :: "nat \<Rightarrow> nat \<Rightarrow> my_plan \<Rightarrow> nat result" where
  "plan_revenue share count plan =
     (if udvpn_quote plan = '''' then ok 0
      else and_then (netOfStakingShare (udvpn_quote plan) share) (\<lambda>net.
           and_then (computeEstimatedRevenue (Some (of_nat count)) net) (\<lambda>r. ok (read_nat r))))"

fun plan_totals :: "prov_io \<Rightarrow> history \<Rightarrow> nat \<Rightarrow> my_plan list \<Rightarrow> (nat \<times> nat) result" where
  "plan_totals v h share [] = ok (0, 0)"
| "plan_totals v h share (plan # plans) =
     and_then (countPlanSubscriptions v h (my_id plan)) (\<lambda>count.
     and_then (plan_revenue share count plan) (\<lambda>r.
     and_then (plan_totals v h share plans) (\<lambda>(revenue, subscriptions). ok (r + revenue, count + subscriptions))))"

definition economics_of ::
  "prov_io \<Rightarrow> history \<Rightarrow> lease_info list \<Rightarrow> lease_params \<Rightarrow> string \<Rightarrow> my_plan list \<Rightarrow> economics result" where
  "economics_of v h leases params share plans =
     and_then (parseDecShare share) (\<lambda>parsedShare.
     and_then (computeBurn leases) (\<lambda>burn.
     and_then (plan_totals v h parsedShare plans) (\<lambda>(revenue, subscriptions).
     and_then (computeCommitted leases) (\<lambda>committed.
     ok \<lparr>ec_burnHourly = bn_hourly burn, ec_burnDaily = bn_daily burn, ec_activeLeases = bn_active burn,
         ec_committed = committed, ec_revenue = show_nat revenue, ec_subscriptions = subscriptions,
         ec_subscriptionShare = share, ec_leaseShare = lp_stakingShare params\<rparr>))))"

definition readEconomics :: "prov_io \<Rightarrow> history \<Rightarrow> string \<Rightarrow> string \<Rightarrow> economics result option" where
  "readEconomics v h accountAddress provAddress =
     map_option (\<lambda>plans.
       and_then (listLeasesForProvider v h provAddress) (\<lambda>leases.
       and_then (getLeaseParams v h) (\<lambda>params.
       and_then (getSubscriptionStakingShare v h) (\<lambda>share.
       and_then plans (\<lambda>ps. economics_of v h leases params share ps)))))
       (listMyPlans v h accountAddress)"

text \<open>The whole aggregation has a time limit, so it returns even when the plans never end.\<close>

definition getProviderEconomics :: "prov_io \<Rightarrow> history \<Rightarrow> string \<Rightarrow> economics result" where
  "getProviderEconomics v h accountAddress =
     and_then (prov_address v accountAddress) (\<lambda>provAddress.
     case readEconomics v h accountAddress provAddress of
       None \<Rightarrow> throw ''provider economics timed out after 30000ms''
     | Some r \<Rightarrow> r)"

record overview =
  ov_provider :: my_provider
  ov_plans :: "my_plan list"
  ov_leases :: "lease_info list"
  ov_economics :: "economics option"

definition registered_overview :: "prov_io \<Rightarrow> history \<Rightarrow> string \<Rightarrow> my_provider \<Rightarrow> overview result option" where
  "registered_overview v h accountAddress provider =
     map_option (\<lambda>plans.
       and_then plans (\<lambda>ps.
       and_then (listLeasesForProvider v h (mp_address provider)) (\<lambda>leases.
       ok \<lparr>ov_provider = provider, ov_plans = ps, ov_leases = leases,
           ov_economics = (case getProviderEconomics v h accountAddress of Inl _ \<Rightarrow> None | Inr e \<Rightarrow> Some e)\<rparr>)))
       (listMyPlans v h accountAddress)"

definition getProviderOverview :: "prov_io \<Rightarrow> history \<Rightarrow> string \<Rightarrow> overview result option" where
  "getProviderOverview v h accountAddress =
     (case and_then (c_connect (pv_chain v) h) (\<lambda>_. getMyProvider v h accountAddress) of
        Inl e \<Rightarrow> Some (Inl e)
      | Inr provider \<Rightarrow>
          if \<not> mp_registered provider
          then Some (ok \<lparr>ov_provider = provider, ov_plans = [], ov_leases = [], ov_economics = None\<rparr>)
          else registered_overview v h accountAddress provider)"

definition getNodeHourlyPrice :: "prov_io \<Rightarrow> history \<Rightarrow> string \<Rightarrow> node_quote result" where
  "getNodeHourlyPrice v h nodeAddress =
     withReadClient v (\<lambda>h.
       and_then (not_found_as_none (pv_node v h nodeAddress)) (\<lambda>found.
       case found of
         None \<Rightarrow> throw (''Node '' @ nodeAddress @ '' is not registered on chain'')
       | Some n \<Rightarrow>
           ok \<lparr>nq_address = nodeAddress,
               nq_hourlyPrice = (case find (\<lambda>p. pc_denom p = ''udvpn'') (rn_hourlyPrices n) of
                  None \<Rightarrow> '''' | Some p \<Rightarrow> pc_quoteValue p),
               nq_status = or_zero (rn_status n)\<rparr>)) h"

section \<open>Writes\<close>

definition CONSOLE_TX_TIMEOUT :: string where
  "CONSOLE_TX_TIMEOUT = ''The transaction timed out before confirmation. It may still be processing. Reopen the '' @
     ''Provider tab in a moment to see the current on-chain state before retrying.''"

definition broadcast_msg :: "prov_io \<Rightarrow> string \<Rightarrow> provider_msg \<Rightarrow> unit run" where
  "broadcast_msg v account msg =
     (let c = pv_chain v in
      seq (asking (c_connect c)) (\<lambda>_.
      seq (asking (c_height c)) (\<lambda>height.
      seq (send_tx c account (ProviderTx msg) (Some (height + TX_TIMEOUT_HEIGHT_OFFSET)) CONSOLE_TX_TIMEOUT ''Transaction'')
        (\<lambda>_. ret ()))))"

text \<open>The message of the provider address; it is built before the connection is opened.\<close>

definition as_provider :: "prov_io \<Rightarrow> string \<Rightarrow> (string \<Rightarrow> provider_msg) \<Rightarrow> unit run" where
  "as_provider v account build = seq (lift (prov_address v account)) (\<lambda>p. broadcast_msg v account (build p))"

definition registerProvider :: "prov_io \<Rightarrow> string \<Rightarrow> provider_details \<Rightarrow> unit run" where
  "registerProvider v account details = broadcast_msg v account (buildRegisterProviderMsg account details)"

definition updateProviderDetails :: "prov_io \<Rightarrow> string \<Rightarrow> provider_details \<Rightarrow> unit run" where
  "updateProviderDetails v account details = as_provider v account (\<lambda>p. buildProviderDetailsMsg p details)"

definition setProviderStatus :: "prov_io \<Rightarrow> string \<Rightarrow> bool \<Rightarrow> unit run" where
  "setProviderStatus v account active = as_provider v account (\<lambda>p. buildProviderStatusMsg p active)"

definition createPlan :: "prov_io \<Rightarrow> string \<Rightarrow> plan_input \<Rightarrow> unit run" where
  "createPlan v account inp =
     seq (lift (prov_address v account)) (\<lambda>p.
     seq (lift (buildCreatePlanMsg p inp)) (\<lambda>msg. broadcast_msg v account msg))"

definition setPlanStatus :: "prov_io \<Rightarrow> string \<Rightarrow> string \<Rightarrow> bool \<Rightarrow> unit run" where
  "setPlanStatus v account planId active = as_provider v account (\<lambda>p. buildPlanStatusMsg (pv_long v) p planId active)"

definition updatePlanDetails :: "prov_io \<Rightarrow> string \<Rightarrow> string \<Rightarrow> bool \<Rightarrow> unit run" where
  "updatePlanDetails v account planId isPrivate =
     as_provider v account (\<lambda>p. buildUpdatePlanDetailsMsg (pv_long v) p planId isPrivate)"

definition updateLease :: "prov_io \<Rightarrow> string \<Rightarrow> string \<Rightarrow> int \<Rightarrow> unit run" where
  "updateLease v account leaseId policy =
     as_provider v account (\<lambda>p. buildUpdateLeaseMsg (pv_long v) p leaseId policy)"

definition renewLease :: "prov_io \<Rightarrow> string \<Rightarrow> string \<Rightarrow> int \<Rightarrow> string \<Rightarrow> unit run" where
  "renewLease v account leaseId hours hourlyQuoteValue =
     as_provider v account (\<lambda>p. buildRenewLeaseMsg (pv_long v) p leaseId hours hourlyQuoteValue)"

definition startLease :: "prov_io \<Rightarrow> string \<Rightarrow> string \<Rightarrow> int \<Rightarrow> string \<Rightarrow> int \<Rightarrow> unit run" where
  "startLease v account nodeAddress hours hourlyQuoteValue policy =
     as_provider v account (\<lambda>p. buildStartLeaseMsg p nodeAddress hours hourlyQuoteValue policy)"

definition endLease :: "prov_io \<Rightarrow> string \<Rightarrow> string \<Rightarrow> unit run" where
  "endLease v account leaseId = as_provider v account (\<lambda>p. buildEndLeaseMsg (pv_long v) p leaseId)"

definition linkNode :: "prov_io \<Rightarrow> string \<Rightarrow> string \<Rightarrow> string \<Rightarrow> unit run" where
  "linkNode v account planId nodeAddress =
     as_provider v account (\<lambda>p. buildLinkNodeMsg (pv_long v) p planId nodeAddress)"

definition unlinkNode :: "prov_io \<Rightarrow> string \<Rightarrow> string \<Rightarrow> string \<Rightarrow> unit run" where
  "unlinkNode v account planId nodeAddress =
     as_provider v account (\<lambda>p. buildUnlinkNodeMsg (pv_long v) p planId nodeAddress)"

end
