(* ===== verification/ProviderHandlers.thy ===== *)
theory ProviderHandlers
  imports ProviderConsole
begin

text \<open>
  The provider console's handlers, \<open>src/main/ipc/provider.ts\<close>, from the parameters the renderer sends to
  the transaction: every write, the lease quote, and the overview with the answer it remembers.
  Parameters are JavaScript values. Reports of a failed query to the health monitor are left out.
\<close>

section \<open>What the handlers share\<close>

record prov_ctx =
  pc_account :: "string option"  \<comment> \<open>the address of the loaded wallet\<close>
  pc_vpn :: bool

definition requireProviderContext :: "prov_ctx \<Rightarrow> string result" where
  "requireProviderContext ctx =
     (case pc_account ctx of
        None \<Rightarrow> throw ''Wallet not loaded''
      | Some address \<Rightarrow>
          if pc_vpn ctx
          then throw ''Provider actions need the blockchain, which is unreachable through the VPN tunnel. Disconnect first.''
          else ok address)"

text \<open>The value of a number that passed \<open>assertIntRange\<close>.\<close>

definition int_at :: "string \<Rightarrow> js \<Rightarrow> int" where
  "int_at k params = (case whole (as_number (jget k params)) of None \<Rightarrow> 0 | Some i \<Rightarrow> i)"

definition bool_at :: "string \<Rightarrow> js \<Rightarrow> bool result" where
  "bool_at k params =
     (case jget k params of JBool b \<Rightarrow> ok b | _ \<Rightarrow> throw (''Invalid '' @ k @ '': expected boolean''))"

definition finally_tell :: "event list \<Rightarrow> 'a run \<Rightarrow> 'a run" where
  "finally_tell after m h = (case m h of (r, h') \<Rightarrow> (r, h' @ after))"

definition assertOwnLease :: "prov_io \<Rightarrow> string \<Rightarrow> string \<Rightarrow> lease_info run" where
  "assertOwnLease v account leaseId =
     seq (lift (prov_address v account)) (\<lambda>p.
     seq (noting (pv_chain v) (asking (withReadClient v (\<lambda>h. listLeasesForProvider v h p)))) (\<lambda>leases.
     case find (\<lambda>l. li_id l = leaseId) leases of
       None \<Rightarrow> raise (failed ''That lease is no longer on chain. Reopen the Provider tab to see the current state.'')
     | Some l \<Rightarrow> ret l))"

text \<open>The price of a node and the bounds of a lease, asked together.\<close>

definition price_and_params :: "prov_io \<Rightarrow> bool \<Rightarrow> string \<Rightarrow> (node_quote \<times> lease_params) run" where
  "price_and_params v second nodeAddress =
     together second
       (noting (pv_chain v) (asking (\<lambda>h. getNodeHourlyPrice v h nodeAddress)))
       (noting (pv_chain v) (asking (withReadClient v (getLeaseParams v))))"

section \<open>Registration\<close>

definition details_of :: "js \<Rightarrow> provider_details" where
  "details_of params = \<lparr>pd_name = str_of ''name'' params, pd_identity = str_of ''identity'' params,
     pd_website = str_of ''website'' params, pd_description = str_of ''description'' params\<rparr>"

definition check_details :: "prov_io \<Rightarrow> js \<Rightarrow> unit result" where
  "check_details v params =
     and_then (assertString (jget ''name'' params) ''name'') (\<lambda>_.
     and_then (assertOptionalString (jget ''identity'' params) ''identity'') (\<lambda>_.
     and_then (assertOptionalString (jget ''website'' params) ''website'') (\<lambda>_.
     and_then (assertOptionalString (jget ''description'' params) ''description'') (\<lambda>_.
     assertValidProviderDetails (pv_isUrl v) (details_of params) True))))"

definition PROVIDER_REGISTER :: "prov_io \<Rightarrow> prov_ctx \<Rightarrow> js \<Rightarrow> unit run" where
  "PROVIDER_REGISTER v ctx params =
     seq (lift (requireProviderContext ctx)) (\<lambda>address.
     seq (lift (check_details v params)) (\<lambda>_.
     seq (noting (pv_chain v) (asking (withReadClient v (getProviderDeposit v)))) (\<lambda>deposit.
     seq (lift (registrationDepositCost deposit)) (\<lambda>cost.
     seq (assertSufficientFunds (pv_chain v) address cost) (\<lambda>_.
     noting (pv_chain v) (registerProvider v address (details_of params)))))))"

definition PROVIDER_UPDATE_DETAILS :: "prov_io \<Rightarrow> prov_ctx \<Rightarrow> js \<Rightarrow> unit run" where
  "PROVIDER_UPDATE_DETAILS v ctx params =
     seq (lift (requireProviderContext ctx)) (\<lambda>address.
     seq (lift (check_details v params)) (\<lambda>_.
     seq (assertSufficientFunds (pv_chain v) address 0) (\<lambda>_.
     noting (pv_chain v) (updateProviderDetails v address (details_of params)))))"

definition PROVIDER_SET_STATUS :: "prov_io \<Rightarrow> prov_ctx \<Rightarrow> js \<Rightarrow> unit run" where
  "PROVIDER_SET_STATUS v ctx params =
     seq (lift (requireProviderContext ctx)) (\<lambda>address.
     seq (lift (bool_at ''active'' params)) (\<lambda>active.
     seq (assertSufficientFunds (pv_chain v) address 0) (\<lambda>_.
     finally_tell (if active then [] else [Forgot None])
       (noting (pv_chain v) (setProviderStatus v address active)))))"

section \<open>Plans\<close>

definition plan_input_of :: "js \<Rightarrow> bool \<Rightarrow> plan_input" where
  "plan_input_of params isPrivate =
     \<lparr>pi_gigabytes = as_number (jget ''gigabytes'' params), pi_days = as_number (jget ''days'' params),
      pi_priceUdvpn = as_number (jget ''priceUdvpn'' params), pi_private = isPrivate\<rparr>"

definition PROVIDER_PLAN_CREATE :: "prov_io \<Rightarrow> prov_ctx \<Rightarrow> js \<Rightarrow> unit run" where
  "PROVIDER_PLAN_CREATE v ctx params =
     seq (lift (requireProviderContext ctx)) (\<lambda>address.
     seq (lift (assertIntRange (jget ''gigabytes'' params) ''gigabytes'' 1 1000000)) (\<lambda>_.
     seq (lift (assertIntRange (jget ''days'' params) ''days'' 1 3650)) (\<lambda>_.
     seq (lift (assertIntRange (jget ''priceUdvpn'' params) ''priceUdvpn'' 0 1000000000000)) (\<lambda>_.
     seq (lift (bool_at ''private'' params)) (\<lambda>isPrivate.
     seq (assertSufficientFunds (pv_chain v) address 0) (\<lambda>_.
     noting (pv_chain v) (createPlan v address (plan_input_of params isPrivate))))))))"

definition PROVIDER_PLAN_SET_STATUS :: "prov_io \<Rightarrow> prov_ctx \<Rightarrow> js \<Rightarrow> unit run" where
  "PROVIDER_PLAN_SET_STATUS v ctx params =
     seq (lift (requireProviderContext ctx)) (\<lambda>address.
     seq (lift (check_decimal ''planId'' params)) (\<lambda>_.
     seq (lift (bool_at ''active'' params)) (\<lambda>active.
     seq (assertSufficientFunds (pv_chain v) address 0) (\<lambda>_.
     noting (pv_chain v) (setPlanStatus v address (str_of ''planId'' params) active)))))"

definition PROVIDER_PLAN_SET_PRIVATE :: "prov_io \<Rightarrow> prov_ctx \<Rightarrow> js \<Rightarrow> unit run" where
  "PROVIDER_PLAN_SET_PRIVATE v ctx params =
     seq (lift (requireProviderContext ctx)) (\<lambda>address.
     seq (lift (check_decimal ''planId'' params)) (\<lambda>_.
     seq (lift (bool_at ''private'' params)) (\<lambda>isPrivate.
     seq (assertSufficientFunds (pv_chain v) address 0) (\<lambda>_.
     noting (pv_chain v) (updatePlanDetails v address (str_of ''planId'' params) isPrivate)))))"

text \<open>Linking and unlinking differ in the message alone; a failed broadcast may still land, so the
  plan's remembered nodes are dropped either way.\<close>

definition link_handler ::
  "(prov_io \<Rightarrow> string \<Rightarrow> string \<Rightarrow> string \<Rightarrow> unit run) \<Rightarrow> prov_io \<Rightarrow> prov_ctx \<Rightarrow> js \<Rightarrow> unit run" where
  "link_handler send v ctx params =
     seq (lift (requireProviderContext ctx)) (\<lambda>address.
     seq (lift (check_decimal ''planId'' params)) (\<lambda>_.
     seq (lift (assertSentAddress (jget ''nodeAddress'' params) ''nodeAddress'')) (\<lambda>_.
     seq (assertSufficientFunds (pv_chain v) address 0) (\<lambda>_.
     finally_tell [Forgot (Some (str_of ''planId'' params))]
       (noting (pv_chain v) (send v address (str_of ''planId'' params) (str_of ''nodeAddress'' params)))))))"

definition PROVIDER_PLAN_LINK :: "prov_io \<Rightarrow> prov_ctx \<Rightarrow> js \<Rightarrow> unit run" where
  "PROVIDER_PLAN_LINK = link_handler linkNode"

definition PROVIDER_PLAN_UNLINK :: "prov_io \<Rightarrow> prov_ctx \<Rightarrow> js \<Rightarrow> unit run" where
  "PROVIDER_PLAN_UNLINK = link_handler unlinkNode"

section \<open>Leases\<close>

record lease_quote =
  lq_hourlyPrice :: string
  lq_totalUdvpn :: string
  lq_nodeStatus :: int
  lq_minHours :: int
  lq_maxHours :: int

definition NOT_LEASABLE :: string where
  "NOT_LEASABLE = ''That node does not publish an hourly price in P2P, so it cannot be leased.''"

definition check_hours :: "js \<Rightarrow> unit result" where
  "check_hours params = assertIntRange (jget ''hours'' params) ''hours'' 1 720"

definition check_renewal :: "js \<Rightarrow> unit result" where
  "check_renewal params = assertIntRange (jget ''renewalPolicy'' params) ''renewalPolicy'' 0 7"

definition LEASE_QUOTE :: "prov_io \<Rightarrow> prov_ctx \<Rightarrow> bool \<Rightarrow> js \<Rightarrow> lease_quote run" where
  "LEASE_QUOTE v ctx second params =
     seq (lift (requireProviderContext ctx)) (\<lambda>_.
     seq (lift (assertSentAddress (jget ''nodeAddress'' params) ''nodeAddress'')) (\<lambda>_.
     seq (lift (check_hours params)) (\<lambda>_.
     seq (price_and_params v second (str_of ''nodeAddress'' params)) (\<lambda>(price, lp).
       if nq_hourlyPrice price = '''' then raise (failed NOT_LEASABLE)
       else seq (lift (leaseDepositUdvpn (nq_hourlyPrice price) (nat (int_at ''hours'' params)))) (\<lambda>totalUdvpn.
         ret \<lparr>lq_hourlyPrice = nq_hourlyPrice price, lq_totalUdvpn = totalUdvpn, lq_nodeStatus = nq_status price,
              lq_minHours = lp_minHours lp, lq_maxHours = lp_maxHours lp\<rparr>)))))"

text \<open>The bounds of the chain and the escrow of the whole term, the last checks before the broadcast.\<close>

definition check_escrow :: "prov_io \<Rightarrow> string \<Rightarrow> js \<Rightarrow> string \<Rightarrow> lease_params \<Rightarrow> unit run" where
  "check_escrow v address params hourlyPrice lp =
     seq (lift (assertValidLeaseHours (as_number (jget ''hours'' params)) (lp_minHours lp) (lp_maxHours lp))) (\<lambda>_.
     seq (lift (leaseDepositNumber hourlyPrice (nat (int_at ''hours'' params)))) (\<lambda>cost.
     assertSufficientFunds (pv_chain v) address cost))"

definition LEASE_START :: "prov_io \<Rightarrow> prov_ctx \<Rightarrow> bool \<Rightarrow> js \<Rightarrow> unit run" where
  "LEASE_START v ctx second params =
     seq (lift (requireProviderContext ctx)) (\<lambda>address.
     seq (lift (assertSentAddress (jget ''nodeAddress'' params) ''nodeAddress'')) (\<lambda>_.
     seq (lift (check_hours params)) (\<lambda>_.
     seq (lift (check_renewal params)) (\<lambda>_.
     seq (price_and_params v second (str_of ''nodeAddress'' params)) (\<lambda>(price, lp).
       if nq_hourlyPrice price = '''' then raise (failed NOT_LEASABLE)
       else if nq_status price \<noteq> 1 then
         raise (failed ''That node is not active on chain right now, so a lease on it would end immediately. Nothing was escrowed.'')
       else seq (check_escrow v address params (nq_hourlyPrice price) lp) (\<lambda>_.
         noting (pv_chain v) (startLease v address (str_of ''nodeAddress'' params) (int_at ''hours'' params)
           (nq_hourlyPrice price) (int_at ''renewalPolicy'' params))))))))"

definition LEASE_RENEW :: "prov_io \<Rightarrow> prov_ctx \<Rightarrow> bool \<Rightarrow> js \<Rightarrow> unit run" where
  "LEASE_RENEW v ctx second params =
     seq (lift (requireProviderContext ctx)) (\<lambda>address.
     seq (lift (check_decimal ''leaseId'' params)) (\<lambda>_.
     seq (lift (check_hours params)) (\<lambda>_.
     seq (assertOwnLease v address (str_of ''leaseId'' params)) (\<lambda>lease.
     seq (price_and_params v second (li_nodeAddress lease)) (\<lambda>(price, lp).
       if nq_hourlyPrice price = '''' then
         raise (failed ''That node no longer publishes an hourly price in P2P, so its lease cannot be renewed.'')
       else case renewalPolicyRefusal (pv_p2p v) (li_policy lease) (nq_hourlyPrice price) (lc_hourlyPrice lease) of
           Some refusal \<Rightarrow> raise (failed refusal)
         | None \<Rightarrow> seq (check_escrow v address params (nq_hourlyPrice price) lp) (\<lambda>_.
             noting (pv_chain v) (renewLease v address (str_of ''leaseId'' params) (int_at ''hours'' params)
               (nq_hourlyPrice price))))))))"

definition LEASE_UPDATE_POLICY :: "prov_io \<Rightarrow> prov_ctx \<Rightarrow> js \<Rightarrow> unit run" where
  "LEASE_UPDATE_POLICY v ctx params =
     seq (lift (requireProviderContext ctx)) (\<lambda>address.
     seq (lift (check_decimal ''leaseId'' params)) (\<lambda>_.
     seq (lift (check_renewal params)) (\<lambda>_.
     seq (assertOwnLease v address (str_of ''leaseId'' params)) (\<lambda>_.
     seq (assertSufficientFunds (pv_chain v) address 0) (\<lambda>_.
     noting (pv_chain v) (updateLease v address (str_of ''leaseId'' params) (int_at ''renewalPolicy'' params)))))))"

definition LEASE_END :: "prov_io \<Rightarrow> prov_ctx \<Rightarrow> js \<Rightarrow> unit run" where
  "LEASE_END v ctx params =
     seq (lift (requireProviderContext ctx)) (\<lambda>address.
     seq (lift (check_decimal ''leaseId'' params)) (\<lambda>_.
     seq (assertOwnLease v address (str_of ''leaseId'' params)) (\<lambda>_.
     seq (assertSufficientFunds (pv_chain v) address 0) (\<lambda>_.
     finally_tell [Forgot None]
       (noting (pv_chain v) (endLease v address (str_of ''leaseId'' params)))))))"

section \<open>The overview and the plain reads\<close>

text \<open>The last good overview, with the address it was read for and when. \<open>None\<close> as the value of a read
  is one that never returns.\<close>

type_synonym overview_cache = "(string \<times> overview \<times> int) option"

record overview_answer =
  oa_data :: overview
  oa_fetchedAt :: int
  oa_stale :: bool

definition getCachedProviderOverview :: "overview_cache \<Rightarrow> string \<Rightarrow> (overview \<times> int) option" where
  "getCachedProviderOverview cache address =
     (case cache of None \<Rightarrow> None | Some (a, data, fetchedAt) \<Rightarrow> if a \<noteq> address then None else Some (data, fetchedAt))"

definition cached_answer :: "overview_cache \<Rightarrow> string \<Rightarrow> overview_answer option" where
  "cached_answer cache address =
     map_option (\<lambda>(data, fetchedAt). \<lparr>oa_data = data, oa_fetchedAt = fetchedAt, oa_stale = True\<rparr>)
       (getCachedProviderOverview cache address)"

definition PROVIDER_OVERVIEW ::
  "prov_io \<Rightarrow> prov_ctx \<Rightarrow> int \<Rightarrow> overview_cache \<Rightarrow> history \<Rightarrow>
     ((failure + overview_answer option) \<times> overview_cache) option" where
  "PROVIDER_OVERVIEW v ctx now cache h =
     (case pc_account ctx of
        None \<Rightarrow> Some (Inl (failed ''Wallet not loaded''), cache)
      | Some address \<Rightarrow>
          if pc_vpn ctx then Some (Inr (cached_answer cache address), cache)
          else map_option (\<lambda>r. case r of
              Inr data \<Rightarrow> (Inr (Some \<lparr>oa_data = data, oa_fetchedAt = now, oa_stale = False\<rparr>), Some (address, data, now))
            | Inl e \<Rightarrow> (case cached_answer cache address of
                  None \<Rightarrow> (Inl (noteChainError (pv_chain v) h (failed e)), cache)
                | Some a \<Rightarrow> (Inr (Some a), cache)))
            (getProviderOverview v h address))"

definition PROVIDER_DEPOSIT :: "prov_io \<Rightarrow> prov_ctx \<Rightarrow> coin option run" where
  "PROVIDER_DEPOSIT v ctx =
     (if pc_vpn ctx then ret None
      else seq (noting (pv_chain v) (asking (withReadClient v (getProviderDeposit v)))) (\<lambda>d. ret (Some d)))"

definition LEASE_PARAMS :: "prov_io \<Rightarrow> prov_ctx \<Rightarrow> lease_params option run" where
  "LEASE_PARAMS v ctx =
     (if pc_vpn ctx then ret None
      else seq (noting (pv_chain v) (asking (withReadClient v (getLeaseParams v)))) (\<lambda>p. ret (Some p)))"

section \<open>Every write\<close>

datatype prov_call =
    CallRegister | CallUpdateDetails | CallSetStatus | CallCreatePlan | CallPlanStatus | CallPlanPrivate
  | CallLink | CallUnlink | CallLeaseStart | CallLeaseRenew | CallLeasePolicy | CallLeaseEnd

fun provider_call :: "prov_io \<Rightarrow> prov_ctx \<Rightarrow> bool \<Rightarrow> prov_call \<Rightarrow> js \<Rightarrow> unit run" where
  "provider_call v ctx second CallRegister = PROVIDER_REGISTER v ctx"
| "provider_call v ctx second CallUpdateDetails = PROVIDER_UPDATE_DETAILS v ctx"
| "provider_call v ctx second CallSetStatus = PROVIDER_SET_STATUS v ctx"
| "provider_call v ctx second CallCreatePlan = PROVIDER_PLAN_CREATE v ctx"
| "provider_call v ctx second CallPlanStatus = PROVIDER_PLAN_SET_STATUS v ctx"
| "provider_call v ctx second CallPlanPrivate = PROVIDER_PLAN_SET_PRIVATE v ctx"
| "provider_call v ctx second CallLink = PROVIDER_PLAN_LINK v ctx"
| "provider_call v ctx second CallUnlink = PROVIDER_PLAN_UNLINK v ctx"
| "provider_call v ctx second CallLeaseStart = LEASE_START v ctx second"
| "provider_call v ctx second CallLeaseRenew = LEASE_RENEW v ctx second"
| "provider_call v ctx second CallLeasePolicy = LEASE_UPDATE_POLICY v ctx"
| "provider_call v ctx second CallLeaseEnd = LEASE_END v ctx"

end
