(* ===== verification/Plans.thy ===== *)
theory Plans
  imports ProviderHandlers
begin

text \<open>
  Plans and subscriptions as the app reads them (\<open>src/main/plans/plan-service.ts\<close>, \<open>plan-cache.ts\<close>,
  \<open>src/shared/test-plan.ts\<close>) and the handlers over them in \<open>src/main/ipc-handlers.ts\<close> and \<open>src/main/ipc/provider.ts\<close>:
  the catalog and its rescan, the remembered node list of each plan, the overview of the Plans tab, and
  the three transactions on a subscription. A read that follows cursors may not return (\<open>None\<close>). The
  parallel workers of a scan take the plans one after the other here; the plans of a scan have
  different ids, so their order does not show.
\<close>

section \<open>Test plans\<close>

definition is_word :: "char \<Rightarrow> bool" where
  "is_word c \<longleftrightarrow> is_alnum c \<or> c = CHR ''_''"

text \<open>\<open>match\<close> is tried at every position; it sees whether a word character comes before.\<close>

fun somewhere :: "(bool \<Rightarrow> string \<Rightarrow> bool) \<Rightarrow> bool \<Rightarrow> string \<Rightarrow> bool" where
  "somewhere match before [] \<longleftrightarrow> match before []"
| "somewhere match before (c # cs) \<longleftrightarrow> match before (c # cs) \<or> somewhere match (is_word c) cs"

definition word_from :: "string \<Rightarrow> bool \<Rightarrow> string \<Rightarrow> bool" where
  "word_from p before s \<longleftrightarrow> \<not> before \<and> starts_with p s"

definition whole_word :: "string \<Rightarrow> bool \<Rightarrow> string \<Rightarrow> bool" where
  "whole_word p before s \<longleftrightarrow> word_from p before s \<and>
     (case drop (length p) s of [] \<Rightarrow> True | c # _ \<Rightarrow> \<not> is_word c)"

definition do_not_use :: "bool \<Rightarrow> string \<Rightarrow> bool" where
  "do_not_use before s \<longleftrightarrow> starts_with ''do'' s \<and>
     (let t = dropWhile is_ws (drop 2 s) in starts_with ''not'' t \<and> starts_with ''use'' (dropWhile is_ws (drop 3 t)))"

definition isTestPlan :: "string option \<Rightarrow> bool" where
  "isTestPlan providerName =
     (case providerName of
        None \<Rightarrow> False
      | Some name \<Rightarrow> name \<noteq> '''' \<and>
          list_ex (\<lambda>m. somewhere m False (lower_ascii name))
            [word_from ''test'', whole_word ''staging'', do_not_use, whole_word ''demo''])"

section \<open>The catalog\<close>

record chain_plan = raw_plan +
  rw_provAddress :: string

record listed_plan =
  pn_id :: string
  pn_provAddress :: string
  pn_bytes :: string
  pn_durationSeconds :: "rat option"
  pn_prices :: "price list"
  pn_private :: bool
  pn_status :: int
  pn_nodeCount :: "nat option"

definition toCachedPlan :: "chain_plan \<Rightarrow> listed_plan" where
  "toCachedPlan p = \<lparr>pn_id = show_long (rw_id p), pn_provAddress = rw_provAddress p, pn_bytes = rw_bytes p,
     pn_durationSeconds = durationToSeconds (rw_duration p), pn_prices = rw_prices p, pn_private = rw_private p,
     pn_status = rw_status p, pn_nodeCount = None\<rparr>"

text \<open>The providers are address and name; of two with one address the later counts.\<close>

definition enrichPlans :: "listed_plan list \<Rightarrow> (string \<times> string) list \<Rightarrow> (listed_plan \<times> bool) list" where
  "enrichPlans plans providers = map (\<lambda>p. (p, isTestPlan (map_of (rev providers) (pn_provAddress p)))) plans"

type_synonym plan_nodes = "string \<rightharpoonup> string list \<times> int"

record subscription_row =
  su_id :: "64 word"
  su_planId :: "64 word option"
  su_status :: int
  su_policy :: "int option"
  su_startAt :: "string option"
  su_inactiveAt :: "string option"

record subscription_info =
  si_id :: string
  si_planId :: string
  si_status :: int
  si_policy :: int
  si_startAt :: "string option"
  si_inactiveAt :: "string option"

record allocation =
  al_subscriptionId :: string
  al_planId :: string
  al_provAddress :: string
  al_bytes :: string
  al_durationSeconds :: "rat option"
  al_startAt :: "string option"
  al_inactiveAt :: "string option"
  al_status :: int

record plan_io =
  pe_chain :: chain_io
  pe_long :: "string \<Rightarrow> 64 word"
  pe_int32 :: "rat \<Rightarrow> int"
  pe_plans :: "history \<Rightarrow> nat \<Rightarrow> string \<Rightarrow> chain_plan page option result"
  pe_plan :: "history \<Rightarrow> 64 word \<Rightarrow> chain_plan option result"
  pe_nodes :: "history \<Rightarrow> 64 word \<Rightarrow> nat \<Rightarrow> string \<Rightarrow> string page option result"
  pe_subs :: "history \<Rightarrow> string \<Rightarrow> subscription_row server"

text \<open>What the plan service remembers: the catalog with the time of its scan, the node list of each plan,
  and the chain half of the last overview.\<close>

record plan_state =
  ps_catalog :: "(listed_plan list \<times> int) option"
  ps_nodes :: plan_nodes
  ps_overview :: "(subscription_info list \<times> allocation list) option"

definition getCachedPlans :: "plan_state \<Rightarrow> listed_plan list \<times> int option" where
  "getCachedPlans s = (case ps_catalog s of None \<Rightarrow> ([], None) | Some (plans, t) \<Rightarrow> (plans, Some t))"

definition setCachedPlans :: "int \<Rightarrow> listed_plan list \<Rightarrow> plan_state \<Rightarrow> plan_state" where
  "setCachedPlans now plans s = s\<lparr>ps_catalog := Some (plans, now)\<rparr>"

definition listCachedPlans :: "(string \<times> string) list \<Rightarrow> plan_state \<Rightarrow> (listed_plan \<times> bool) list \<times> int option" where
  "listCachedPlans providers s = (enrichPlans (fst (getCachedPlans s)) providers, snd (getCachedPlans s))"

section \<open>The nodes of a plan\<close>

definition PLAN_NODES_TTL_MS :: int where "PLAN_NODES_TTL_MS = 600000"

definition invalidatePlanNodes :: "string \<Rightarrow> plan_state \<Rightarrow> plan_state" where
  "invalidatePlanNodes planId s = s\<lparr>ps_nodes := (ps_nodes s)(planId := None)\<rparr>"

definition invalidateAllPlanNodes :: "plan_state \<Rightarrow> plan_state" where
  "invalidateAllPlanNodes s = s\<lparr>ps_nodes := (\<lambda>_. None)\<rparr>"

text \<open>A row without an address is not kept.\<close>

definition addressed :: "string server \<Rightarrow> string server" where
  "addressed srv k key = map_sum id (\<lambda>p. p\<lparr>pg_rows := filter (\<lambda>a. a \<noteq> []) (pg_rows p)\<rparr>) (srv k key)"

definition MAX_NODES :: nat where "MAX_NODES = 500"

definition read_plan_nodes :: "plan_io \<Rightarrow> history \<Rightarrow> string \<Rightarrow> string list result option" where
  "read_plan_nodes e h planId =
     map_option (map_sum id fst)
       (read_pages True MAX_NODES (addressed (or_break (pe_nodes e h (pe_long e planId)))) 0 '''' [])"

definition listNodesForPlan ::
  "plan_io \<Rightarrow> history \<Rightarrow> int \<Rightarrow> string \<Rightarrow> plan_state \<Rightarrow> (string list result \<times> plan_state) option" where
  "listNodesForPlan e h now planId s =
     (if \<not> decimal_id planId then Some (ok [], s)
      else case ps_nodes s planId of
          Some (addresses, fetchedAt) \<Rightarrow>
            if now - fetchedAt < PLAN_NODES_TTL_MS then Some (ok addresses, s)
            else map_option (\<lambda>r. (r, case r of Inl _ \<Rightarrow> s | Inr a \<Rightarrow> s\<lparr>ps_nodes := (ps_nodes s)(planId \<mapsto> (a, now))\<rparr>))
                   (read_plan_nodes e h planId)
        | None \<Rightarrow>
            map_option (\<lambda>r. (r, case r of Inl _ \<Rightarrow> s | Inr a \<Rightarrow> s\<lparr>ps_nodes := (ps_nodes s)(planId \<mapsto> (a, now))\<rparr>))
              (read_plan_nodes e h planId))"

definition getCachedPlanNodes :: "string \<Rightarrow> plan_state \<Rightarrow> string list option" where
  "getCachedPlanNodes planId s = map_option fst (ps_nodes s planId)"

section \<open>The rescan\<close>

text \<open>A plan whose nodes cannot be counted stays unknown.\<close>

fun scanPlanNodeCounts ::
  "plan_io \<Rightarrow> history \<Rightarrow> int \<Rightarrow> listed_plan list \<Rightarrow> plan_state \<Rightarrow> (listed_plan list \<times> plan_state) option" where
  "scanPlanNodeCounts e h now [] s = Some ([], s)"
| "scanPlanNodeCounts e h now (p # ps) s =
     Option.bind (listNodesForPlan e h now (pn_id p) s) (\<lambda>(r, s1).
     map_option (\<lambda>(qs, s2). ((case r of Inl _ \<Rightarrow> p | Inr a \<Rightarrow> p\<lparr>pn_nodeCount := Some (length a)\<rparr>) # qs, s2))
       (scanPlanNodeCounts e h now ps s1))"

definition discoverPlans ::
  "plan_io \<Rightarrow> history \<Rightarrow> int \<Rightarrow> (string \<times> string) list \<Rightarrow> nat \<Rightarrow> plan_state \<Rightarrow>
     ((listed_plan \<times> bool) list result \<times> plan_state) option" where
  "discoverPlans e h now providers maxCount s =
     (case c_connect (pe_chain e) h of
        Inl m \<Rightarrow> Some (Inl m, s)
      | Inr _ \<Rightarrow>
          Option.bind (read_pages True maxCount (or_break (pe_plans e h)) 0 '''' []) (\<lambda>r.
          case r of
            Inl m \<Rightarrow> Some (Inl m, s)
          | Inr (rows, _) \<Rightarrow>
              map_option (\<lambda>(plans, s1). (ok (enrichPlans plans providers), setCachedPlans now plans s1))
                (scanPlanNodeCounts e h now (map toCachedPlan rows) s)))"

fun compatible_ids ::
  "plan_io \<Rightarrow> history \<Rightarrow> int \<Rightarrow> string \<Rightarrow> string list \<Rightarrow> plan_state \<Rightarrow> (string list \<times> plan_state) option" where
  "compatible_ids e h now nodeAddress [] s = Some ([], s)"
| "compatible_ids e h now nodeAddress (i # is) s =
     Option.bind (listNodesForPlan e h now i s) (\<lambda>(r, s1).
     map_option (\<lambda>(found, s2). ((case r of Inl _ \<Rightarrow> found | Inr a \<Rightarrow> if nodeAddress \<in> set a then i # found else found), s2))
       (compatible_ids e h now nodeAddress is s1))"

definition listPlansForNode ::
  "plan_io \<Rightarrow> history \<Rightarrow> int \<Rightarrow> (string \<times> string) list \<Rightarrow> string \<Rightarrow> plan_state \<Rightarrow>
     ((listed_plan \<times> bool) list result \<times> plan_state) option" where
  "listPlansForNode e h now providers nodeAddress s =
     (let plans = fst (getCachedPlans s) in
      if plans = [] then Some (ok [], s)
      else case c_connect (pe_chain e) h of
          Inl m \<Rightarrow> Some (Inl m, s)
        | Inr _ \<Rightarrow>
            map_option (\<lambda>(ids, s1). (ok (enrichPlans (filter (\<lambda>p. pn_id p \<in> set ids) plans) providers), s1))
              (compatible_ids e h now nodeAddress (map pn_id plans) s))"

section \<open>Subscriptions\<close>

definition SUBS_MAX :: nat where "SUBS_MAX = 400"

definition fetchSubscriptionsForAccount :: "plan_io \<Rightarrow> history \<Rightarrow> string \<Rightarrow> subscription_row list result" where
  "fetchSubscriptionsForAccount e h walletAddress = read_until_empty SUBS_MAX (pe_subs e h walletAddress) 0 '''' []"

definition plan_id_of :: "subscription_row \<Rightarrow> string" where
  "plan_id_of s = (case su_planId s of None \<Rightarrow> ''0'' | Some w \<Rightarrow> show_long w)"

definition toSubscriptionInfo :: "subscription_row \<Rightarrow> subscription_info" where
  "toSubscriptionInfo s = \<lparr>si_id = show_long (su_id s), si_planId = plan_id_of s, si_status = su_status s,
     si_policy = or_zero (su_policy s), si_startAt = su_startAt s, si_inactiveAt = su_inactiveAt s\<rparr>"

definition onlyPlanSubs :: "subscription_row list \<Rightarrow> subscription_row list" where
  "onlyPlanSubs subs = filter (\<lambda>s. case su_planId s of None \<Rightarrow> False | Some w \<Rightarrow> w \<noteq> 0) subs"

text \<open>The catalog first, then the chain for what it does not know; a failed lookup leaves the plan out.\<close>

definition resolvePlanDetails :: "plan_io \<Rightarrow> history \<Rightarrow> plan_state \<Rightarrow> string \<Rightarrow> listed_plan option" where
  "resolvePlanDetails e h s planId =
     (case map_of (rev (map (\<lambda>p. (pn_id p, p)) (fst (getCachedPlans s)))) planId of
        Some hit \<Rightarrow> Some hit
      | None \<Rightarrow> (case pe_plan e h (pe_long e planId) of Inr (Some p) \<Rightarrow> Some (toCachedPlan p) | _ \<Rightarrow> None))"

definition or_else_text :: "string \<Rightarrow> string \<Rightarrow> string" where
  "or_else_text d x = (if x = '''' then d else x)"

definition joinAllocations :: "subscription_row list \<Rightarrow> (string \<Rightarrow> listed_plan option) \<Rightarrow> allocation list" where
  "joinAllocations planSubs details =
     map (\<lambda>s. let pid = plan_id_of s; plan = details pid in
       \<lparr>al_subscriptionId = show_long (su_id s), al_planId = pid,
        al_provAddress = (case plan of None \<Rightarrow> '''' | Some p \<Rightarrow> pn_provAddress p),
        al_bytes = (case plan of None \<Rightarrow> ''0'' | Some p \<Rightarrow> or_else_text ''0'' (pn_bytes p)),
        al_durationSeconds = Option.bind plan pn_durationSeconds,
        al_startAt = su_startAt s, al_inactiveAt = su_inactiveAt s, al_status = su_status s\<rparr>) planSubs"

definition getPlanOverview ::
  "plan_io \<Rightarrow> history \<Rightarrow> plan_state \<Rightarrow> string \<Rightarrow> (subscription_info list \<times> allocation list) result" where
  "getPlanOverview e h s walletAddress =
     and_then (c_connect (pe_chain e) h) (\<lambda>_.
     and_then (fetchSubscriptionsForAccount e h walletAddress) (\<lambda>subs.
     ok (map toSubscriptionInfo subs, joinAllocations (onlyPlanSubs subs) (resolvePlanDetails e h s))))"

end
