(* ===== verification/ProviderProps.thy ===== *)
theory ProviderProps
  imports ProviderHandlers
begin

text \<open>
  What the provider console promises about money and about what it signs. Everything a handler asks
  before its transaction leaves no trace, so the facts the transaction rests on hold of the chain as
  it was when the handler was called; \<open>one_tx\<close> says that a run ends there with at most one transaction.
\<close>

section \<open>Runs that only ask\<close>

definition quiet :: "'a run \<Rightarrow> bool" where
  "quiet m \<longleftrightarrow> (\<forall>h. snd (m h) = h)"

named_theorems quiet_intro \<open>runs that leave no trace\<close>

lemma quietD: "quiet m \<Longrightarrow> m h = (fst (m h), h)"
  by (metis prod.collapse quiet_def)

lemma quiet_basic [quiet_intro]:
  "quiet (ret x)" "quiet (raise e)" "quiet (look f)" "quiet (lift r)"
  by (auto simp: quiet_def run lift_def split: sum.splits)

lemma quiet_seq [quiet_intro]:
  assumes "quiet m" and "\<And>x. quiet (k x)"
  shows "quiet (seq m k)"
  unfolding quiet_def
proof
  fix h
  show "snd (seq m k h) = h"
    using quietD [OF assms(1), of h] assms(2) by (cases "fst (m h)") (auto simp: seq_def quiet_def)
qed

lemma quiet_asking [quiet_intro]: "quiet (asking f)"
  by (simp add: asking_def quiet_intro)

lemma quiet_noting [quiet_intro]: "quiet m \<Longrightarrow> quiet (noting c m)"
  unfolding quiet_def noting_def catching_def by (auto split: prod.splits sum.splits) (metis snd_conv)+

lemma quiet_outcome [quiet_intro]: "quiet m \<Longrightarrow> quiet (outcome m)"
  unfolding quiet_def outcome_def by (auto split: prod.splits) (metis snd_conv)

lemma quiet_together [quiet_intro]: "quiet m \<Longrightarrow> quiet n \<Longrightarrow> quiet (together second m n)"
  unfolding together_def by (intro quiet_intro; assumption?) (auto intro: quiet_intro split: sum.splits prod.splits)

lemma quiet_funds [quiet_intro]: "quiet (assertSufficientFunds c a cost)"
  unfolding assertSufficientFunds_def
  by (intro quiet_intro) (auto simp: Let_def intro: quiet_intro split: option.splits)

lemma quiet_reads [quiet_intro]:
  "quiet (price_and_params v second node)" "quiet (assertOwnLease v a i)" "quiet (check_escrow v a params q lp)"
  unfolding price_and_params_def assertOwnLease_def check_escrow_def
  by (intro quiet_intro; (auto intro: quiet_intro split: option.splits)?)+

section \<open>What an answered question means\<close>

definition funded :: "chain_io \<Rightarrow> history \<Rightarrow> string \<Rightarrow> int \<Rightarrow> bool" where
  "funded c h a cost \<longleftrightarrow>
     (case c_balances c h a of None \<Rightarrow> True | Some bs \<Rightarrow> udvpnOf bs \<ge> cost + FEE_RESERVE_UDVPN)"

named_theorems answered \<open>what a question that did not throw has established\<close>

lemma answered_seq: "fst (seq m k h) = Inr w \<Longrightarrow> quiet m \<Longrightarrow> \<exists>x. fst (m h) = Inr x \<and> fst (k x h) = Inr w"
  using quietD [of m h] by (cases "fst (m h)") (auto simp: seq_def)

lemma answered_basic [answered]:
  "fst (lift r h) = Inr x \<longleftrightarrow> r = Inr x"
  "fst (asking f h) = Inr x \<longleftrightarrow> f h = Inr x"
  "fst (ret y h) = Inr x \<longleftrightarrow> x = y"
  "fst (raise e h) \<noteq> Inr x"
  by (auto simp: asking_def seq_def run lift_def split: sum.splits)

lemma answered_noting [answered]: "fst (noting c m h) = Inr x \<longleftrightarrow> fst (m h) = Inr x"
  by (auto simp: noting_def catching_def split: prod.splits sum.splits)

lemma answered_funds [answered]: "fst (assertSufficientFunds c a cost h) = Inr u \<longleftrightarrow> funded c h a cost"
  by (auto simp: assertSufficientFunds_def funded_def seq_def run checkFunds_def Let_def split: option.splits)

lemma answered_price:
  assumes "fst (price_and_params v second node h) = Inr (q, lp)"
  shows "getNodeHourlyPrice v h node = Inr q" and "withReadClient v (getLeaseParams v) h = Inr lp"
proof -
  let ?m = "noting (pv_chain v) (asking (\<lambda>h. getNodeHourlyPrice v h node))"
  let ?n = "noting (pv_chain v) (asking (withReadClient v (getLeaseParams v)))"
  have q: "quiet ?m" "quiet ?n" by (intro quiet_intro)+
  have "fst (?m h) = Inr q \<and> fst (?n h) = Inr lp"
    using assms quietD [OF q(1), of h] quietD [OF q(2), of h]
    unfolding price_and_params_def together_def
    by (cases "fst (?m h)"; cases "fst (?n h)") (auto simp: seq_def outcome_def run)
  then show "getNodeHourlyPrice v h node = Inr q" "withReadClient v (getLeaseParams v) h = Inr lp"
    by (simp_all add: answered)
qed

text \<open>The leases the chain lists for the account's own provider address.\<close>

definition own_leases :: "prov_io \<Rightarrow> history \<Rightarrow> string \<Rightarrow> lease_info list" where
  "own_leases v h a =
     (case and_then (prov_address v a) (listLeasesForProvider v h) of Inl _ \<Rightarrow> [] | Inr ls \<Rightarrow> ls)"

lemma answered_lease:
  assumes "fst (assertOwnLease v a i h) = Inr l"
  shows "l \<in> set (own_leases v h a) \<and> li_id l = i"
proof -
  from assms obtain p ls where p: "prov_address v a = Inr p"
    and ls: "withReadClient v (\<lambda>h. listLeasesForProvider v h p) h = Inr ls"
    and l: "find (\<lambda>l. li_id l = i) ls = Some l"
    unfolding assertOwnLease_def
    by (auto simp: answered split: option.splits dest!: answered_seq intro!: quiet_intro)
  from ls have "listLeasesForProvider v h p = Inr ls"
    by (auto simp: withReadClient_def and_then_eq_ok)
  with p have "own_leases v h a = ls" by (simp add: own_leases_def)
  with l show ?thesis by (metis (mono_tags, lifting) find_Some_iff nth_mem)
qed

lemma answered_escrow:
  assumes "fst (check_escrow v a params q lp h) = Inr u"
  shows "\<exists>hours. whole (as_number (jget ''hours'' params)) = Some hours \<and> int_at ''hours'' params = hours \<and>
     lp_minHours lp \<le> hours \<and> hours \<le> lp_maxHours lp \<and> decimal_id q \<and>
     int (read_nat q * nat hours) \<le> MAX_SAFE_INTEGER \<and> funded (pv_chain v) h a (int (read_nat q * nat hours))"
  using assms unfolding check_escrow_def
  by (auto simp: answered lease_hours_ok lease_deposit_ok int_at_def dest!: answered_seq intro!: quiet_intro)

section \<open>At most one transaction\<close>

definition one_tx ::
  "string \<Rightarrow> (chain_msg \<Rightarrow> bool) \<Rightarrow> event list \<Rightarrow> history \<Rightarrow> (failure + unit) \<times> history \<Rightarrow> bool" where
  "one_tx a P after h out \<longleftrightarrow>
     (\<exists>e. out = (Inl e, h)) \<or> (\<exists>e. out = (Inl e, h @ after)) \<or>
     (\<exists>msg. P msg \<and> (out = (Inr (), h @ Landed a msg # after) \<or>
        (\<exists>e. out = (Inl e, h @ Unconfirmed a msg # after))))"

definition of_provider :: "(provider_msg \<Rightarrow> bool) \<Rightarrow> chain_msg \<Rightarrow> bool" where
  "of_provider P m \<longleftrightarrow> (\<exists>msg. m = ProviderTx msg \<and> P msg)"

lemma of_provider_simp [simp]: "of_provider P (ProviderTx msg) \<longleftrightarrow> P msg"
  by (simp add: of_provider_def)

lemma one_tx_seq:
  assumes "quiet m" and "\<And>x. fst (m h) = Inr x \<Longrightarrow> one_tx a P after h (k x h)"
  shows "one_tx a P after h (seq m k h)"
  using quietD [OF assms(1), of h] assms(2) by (cases "fst (m h)") (auto simp: seq_def one_tx_def)

lemma one_tx_raise: "one_tx a P after h (raise e h)"
  by (simp add: one_tx_def run)

lemma one_tx_noting: "one_tx a P after h (m h) \<Longrightarrow> one_tx a P after h (noting c m h)"
  unfolding one_tx_def noting_def catching_def by auto

lemma one_tx_finally: "one_tx a P [] h (m h) \<Longrightarrow> one_tx a P after h (finally_tell after m h)"
  unfolding one_tx_def finally_tell_def by auto

lemma one_tx_send: "P msg \<Longrightarrow> one_tx a P [] h (seq (send_tx c a msg t tm label) (\<lambda>_. ret ()) h)"
  unfolding one_tx_def seq_def send_tx_def Let_def seen_def broadcastOrTimeout_def assertTxSucceeded_def
  by (auto simp: run split: broadcast.splits option.splits)

lemma one_tx_broadcast: "P msg \<Longrightarrow> one_tx a (of_provider P) [] h (broadcast_msg v a msg h)"
  unfolding broadcast_msg_def Let_def
  by (intro one_tx_seq quiet_intro one_tx_send) simp

lemma one_tx_provider:
  "(\<And>p. prov_address v a = Inr p \<Longrightarrow> P (build p)) \<Longrightarrow> one_tx a (of_provider P) [] h (as_provider v a build h)"
  unfolding as_provider_def by (intro one_tx_seq quiet_intro one_tx_broadcast) (auto simp: answered)

section \<open>The message of each handler\<close>

definition sender :: "prov_io \<Rightarrow> string \<Rightarrow> provider_msg \<Rightarrow> bool" where
  "sender v a msg \<longleftrightarrow>
     (case msg of
        RegisterProvider f _ \<Rightarrow> f = a
      | UpdateProviderDetails f _ \<Rightarrow> prov_address v a = Inr f
      | UpdateProviderStatus f _ \<Rightarrow> prov_address v a = Inr f
      | CreatePlan f _ _ _ _ \<Rightarrow> prov_address v a = Inr f
      | UpdatePlanStatus f _ _ \<Rightarrow> prov_address v a = Inr f
      | UpdatePlanDetails f _ _ \<Rightarrow> prov_address v a = Inr f
      | LinkNode f _ _ \<Rightarrow> prov_address v a = Inr f
      | UnlinkNode f _ _ \<Rightarrow> prov_address v a = Inr f
      | StartLease f _ _ _ _ \<Rightarrow> prov_address v a = Inr f
      | UpdateLease f _ _ \<Rightarrow> prov_address v a = Inr f
      | RenewLease f _ _ _ \<Rightarrow> prov_address v a = Inr f
      | EndLease f _ \<Rightarrow> prov_address v a = Inr f)"

text \<open>The escrow of a lease: what the chain says of the node and of lease terms at that moment.\<close>

definition escrow_ok :: "prov_io \<Rightarrow> history \<Rightarrow> string \<Rightarrow> node_quote \<Rightarrow> int \<Rightarrow> bool" where
  "escrow_ok v h a q hours \<longleftrightarrow>
     getNodeHourlyPrice v h (nq_address q) = Inr q \<and> decimal_id (nq_hourlyPrice q) \<and>
     (\<exists>lp. getLeaseParams v h = Inr lp \<and> lp_minHours lp \<le> hours \<and> hours \<le> lp_maxHours lp) \<and>
     1 \<le> hours \<and> hours \<le> 720 \<and>
     funded (pv_chain v) h a (int (read_nat (nq_hourlyPrice q)) * hours)"

definition own_lease :: "prov_io \<Rightarrow> history \<Rightarrow> string \<Rightarrow> 64 word \<Rightarrow> lease_info \<Rightarrow> bool" where
  "own_lease v h a i l \<longleftrightarrow> l \<in> set (own_leases v h a) \<and> i = pv_long v (li_id l)"

text \<open>What a handler may sign.\<close>

definition allowed_msg :: "prov_io \<Rightarrow> history \<Rightarrow> string \<Rightarrow> prov_call \<Rightarrow> js \<Rightarrow> provider_msg \<Rightarrow> bool" where
  "allowed_msg v h a call params msg \<longleftrightarrow> sender v a msg \<and>
     (case call of
        CallRegister \<Rightarrow> (\<exists>d cost. msg = RegisterProvider a d \<and> assertValidProviderDetails (pv_isUrl v) d True = Inr () \<and>
           (\<exists>c. getProviderDeposit v h = Inr c \<and> registrationDepositCost c = Inr cost) \<and> funded (pv_chain v) h a cost)
      | CallUpdateDetails \<Rightarrow> (\<exists>f d. msg = UpdateProviderDetails f d \<and> assertValidProviderDetails (pv_isUrl v) d True = Inr ())
      | CallSetStatus \<Rightarrow> (\<exists>f active. msg = UpdateProviderStatus f (status_number active) \<and> jget ''active'' params = JBool active)
      | CallCreatePlan \<Rightarrow> (\<exists>f g d u private. msg = CreatePlan f (show_nat (g * 10 ^ 9)) (int d * 86400)
             [(''udvpn'', ''0'', show_nat u)] private \<and> 1 \<le> g \<and> g \<le> 1000000 \<and> 1 \<le> d \<and> d \<le> 3650 \<and> u \<le> 10 ^ 12)
      | CallPlanStatus \<Rightarrow> (\<exists>f active. msg = UpdatePlanStatus f (pv_long v (str_of ''planId'' params)) (status_number active))
      | CallPlanPrivate \<Rightarrow> (\<exists>f private. msg = UpdatePlanDetails f (pv_long v (str_of ''planId'' params)) private)
      | CallLink \<Rightarrow> (\<exists>f. msg = LinkNode f (pv_long v (str_of ''planId'' params)) (str_of ''nodeAddress'' params))
      | CallUnlink \<Rightarrow> (\<exists>f. msg = UnlinkNode f (pv_long v (str_of ''planId'' params)) (str_of ''nodeAddress'' params))
      | CallLeaseStart \<Rightarrow> (\<exists>f hours q pol. escrow_ok v h a q hours \<and> nq_status q = 1 \<and> 0 \<le> pol \<and> pol \<le> 7 \<and>
             msg = StartLease f (nq_address q) hours (''udvpn'', ''0'', nq_hourlyPrice q) pol)
      | CallLeaseRenew \<Rightarrow> (\<exists>f hours q i l. escrow_ok v h a q hours \<and> own_lease v h a i l \<and> li_nodeAddress l = nq_address q \<and>
             renewalPolicyAllows (li_policy l) (nq_hourlyPrice q) (lc_hourlyPrice l) \<and>
             msg = RenewLease f i hours (''udvpn'', ''0'', nq_hourlyPrice q))
      | CallLeasePolicy \<Rightarrow> (\<exists>f i l pol. own_lease v h a i l \<and> 0 \<le> pol \<and> pol \<le> 7 \<and> msg = UpdateLease f i pol)
      | CallLeaseEnd \<Rightarrow> (\<exists>f i l. own_lease v h a i l \<and> msg = EndLease f i))"

text \<open>What the app drops of its remembered plan nodes after the call's transaction.\<close>

definition forgets :: "prov_call \<Rightarrow> js \<Rightarrow> event list" where
  "forgets call params =
     (case call of
        CallSetStatus \<Rightarrow> if jget ''active'' params = JBool False then [Forgot None] else []
      | CallLink \<Rightarrow> [Forgot (Some (str_of ''planId'' params))]
      | CallUnlink \<Rightarrow> [Forgot (Some (str_of ''planId'' params))]
      | CallLeaseEnd \<Rightarrow> [Forgot None]
      | _ \<Rightarrow> [])"

lemma bool_at_ok: "bool_at k params = Inr b \<longleftrightarrow> jget k params = JBool b"
  by (auto simp: bool_at_def split: js.splits)

lemma quoted_address:
  assumes "getNodeHourlyPrice v h node = Inr q"
  shows "nq_address q = node"
proof -
  from assms obtain x where "not_found_as_none (pv_node v h node) = Inr (Some x)"
    by (auto simp: getNodeHourlyPrice_def withReadClient_def and_then_eq_ok split: option.split_asm sum.splits)
  with assms show ?thesis by (auto simp: getNodeHourlyPrice_def withReadClient_def and_then_eq_ok)
qed

lemma int_at_range:
  assumes "assertIntRange (jget k params) k lo hi = Inr ()"
  shows "lo \<le> int_at k params \<and> int_at k params \<le> hi"
  using assms by (auto simp: assertIntRange_ok int_at_def)

lemma quoted_escrow:
  assumes "fst (price_and_params v second node h) = Inr (q, lp)"
    and "fst (check_escrow v a params (nq_hourlyPrice q) lp h) = Inr u" and "check_hours params = Inr ()"
  shows "escrow_ok v h a q (int_at ''hours'' params) \<and> nq_address q = node"
proof -
  note q = answered_price [OF assms(1)]
  from q(2) have "getLeaseParams v h = Inr lp" by (auto simp: withReadClient_def and_then_eq_ok)
  with q(1) answered_escrow [OF assms(2)] quoted_address [OF q(1)] int_at_range [OF assms(3) [unfolded check_hours_def]]
  show ?thesis by (auto simp: escrow_ok_def)
qed

lemmas handler_defs = PROVIDER_REGISTER_def PROVIDER_UPDATE_DETAILS_def PROVIDER_SET_STATUS_def PROVIDER_PLAN_CREATE_def
  PROVIDER_PLAN_SET_STATUS_def PROVIDER_PLAN_SET_PRIVATE_def PROVIDER_PLAN_LINK_def PROVIDER_PLAN_UNLINK_def
  link_handler_def LEASE_START_def LEASE_RENEW_def LEASE_UPDATE_POLICY_def LEASE_END_def

lemmas message_defs = updateProviderDetails_def setProviderStatus_def setPlanStatus_def updatePlanDetails_def
  updateLease_def renewLease_def startLease_def endLease_def linkNode_def unlinkNode_def
  buildProviderDetailsMsg_def buildProviderStatusMsg_def buildPlanStatusMsg_def buildUpdatePlanDetailsMsg_def
  buildUpdateLeaseMsg_def buildRenewLeaseMsg_def buildStartLeaseMsg_def buildEndLeaseMsg_def buildLinkNodeMsg_def
  buildUnlinkNodeMsg_def max_price_def PLAN_DENOM_def

lemma refused_call:
  assumes "requireProviderContext ctx = Inl e"
  shows "provider_call v ctx second call params h = (Inl (failed e), h)"
  using assms by (cases call) (simp_all add: handler_defs run)

lemmas allowed_defs = allowed_msg_def sender_def forgets_def

text \<open>Each handler, for an account that is loaded and with the tunnel down.\<close>

lemma allowed_register:
  assumes "requireProviderContext ctx = Inr a"
  shows "one_tx a (of_provider (allowed_msg v h a CallRegister params)) [] h (PROVIDER_REGISTER v ctx params h)"
  unfolding PROVIDER_REGISTER_def assms lift_simps seq_ret registerProvider_def buildRegisterProviderMsg_def
  by (intro one_tx_seq one_tx_noting quiet_intro one_tx_broadcast)
    (auto simp: answered allowed_defs check_details_def and_then_eq_ok withReadClient_def)

lemma allowed_simple:
  assumes "requireProviderContext ctx = Inr a"
  shows "one_tx a (of_provider (allowed_msg v h a CallUpdateDetails params)) [] h (PROVIDER_UPDATE_DETAILS v ctx params h)"
    and "one_tx a (of_provider (allowed_msg v h a CallSetStatus params)) (forgets CallSetStatus params) h (PROVIDER_SET_STATUS v ctx params h)"
    and "one_tx a (of_provider (allowed_msg v h a CallPlanStatus params)) [] h (PROVIDER_PLAN_SET_STATUS v ctx params h)"
    and "one_tx a (of_provider (allowed_msg v h a CallPlanPrivate params)) [] h (PROVIDER_PLAN_SET_PRIVATE v ctx params h)"
  unfolding handler_defs assms lift_simps seq_ret message_defs
  by (intro one_tx_seq one_tx_noting quiet_intro one_tx_provider one_tx_finally;
      auto simp: answered allowed_defs check_details_def and_then_eq_ok bool_at_ok
        intro!: one_tx_noting one_tx_provider one_tx_finally split: if_splits)+

lemma allowed_link:
  assumes "requireProviderContext ctx = Inr a"
  shows "one_tx a (of_provider (allowed_msg v h a CallLink params)) (forgets CallLink params) h (PROVIDER_PLAN_LINK v ctx params h)"
    and "one_tx a (of_provider (allowed_msg v h a CallUnlink params)) (forgets CallUnlink params) h (PROVIDER_PLAN_UNLINK v ctx params h)"
  unfolding handler_defs assms lift_simps seq_ret message_defs forgets_def prov_call.case
  by (intro one_tx_seq one_tx_noting quiet_intro one_tx_provider one_tx_finally; auto simp: allowed_defs)+

lemma allowed_create:
  assumes "requireProviderContext ctx = Inr a"
  shows "one_tx a (of_provider (allowed_msg v h a CallCreatePlan params)) [] h (PROVIDER_PLAN_CREATE v ctx params h)"
  unfolding PROVIDER_PLAN_CREATE_def assms lift_simps seq_ret createPlan_def buildCreatePlanMsg_def
  apply (intro one_tx_seq one_tx_noting quiet_intro one_tx_broadcast)
  apply (auto simp: answered and_then_eq_ok plan_input_ok assertIntRange_ok plan_input_of_def allowed_defs
      gigabytesToBytes_def daysToDuration_def buildPrices_def BYTES_PER_GB_def SECONDS_PER_DAY_def PLAN_DENOM_def)
  apply (rule_tac x = "nat i" in exI, intro conjI refl, rule_tac x = "nat ib" in exI, auto)
  done

lemma allowed_lease_start:
  assumes "requireProviderContext ctx = Inr a"
  shows "one_tx a (of_provider (allowed_msg v h a CallLeaseStart params)) [] h (LEASE_START v ctx second params h)"
  unfolding LEASE_START_def assms lift_simps seq_ret
  apply (intro one_tx_seq quiet_intro)
  apply (clarsimp simp: answered one_tx_raise)
  apply (intro one_tx_seq one_tx_noting quiet_intro)
  apply (unfold message_defs)
  apply (rule one_tx_provider)
  apply (drule (2) quoted_escrow)
  apply (unfold check_renewal_def)
  apply (drule int_at_range)
  apply (auto simp: allowed_defs)
  done

lemma own_lease_of:
  assumes "fst (assertOwnLease v a i h) = Inr l"
  shows "own_lease v h a (pv_long v i) l"
  using answered_lease [OF assms] by (auto simp: own_lease_def)

lemma allowed_lease_renew:
  assumes "requireProviderContext ctx = Inr a"
  shows "one_tx a (of_provider (allowed_msg v h a CallLeaseRenew params)) [] h (LEASE_RENEW v ctx second params h)"
  unfolding LEASE_RENEW_def assms lift_simps seq_ret
  apply (intro one_tx_seq quiet_intro)
  apply (clarsimp simp: answered one_tx_raise split: option.split)
  apply (intro one_tx_seq one_tx_noting quiet_intro)
  apply (unfold message_defs)
  apply (rule one_tx_provider)
  apply (drule (2) quoted_escrow)
  apply (drule own_lease_of)
  apply (clarsimp simp: allowed_defs refusal_iff)
  apply (rule exI, rule exI, rule exI, rule conjI, assumption, rule exI, rule conjI, assumption, simp)
  done

lemma allowed_lease_gas:
  assumes "requireProviderContext ctx = Inr a"
  shows "one_tx a (of_provider (allowed_msg v h a CallLeasePolicy params)) [] h (LEASE_UPDATE_POLICY v ctx params h)"
    and "one_tx a (of_provider (allowed_msg v h a CallLeaseEnd params)) (forgets CallLeaseEnd params) h (LEASE_END v ctx params h)"
  unfolding handler_defs assms lift_simps seq_ret message_defs check_renewal_def forgets_def prov_call.case
  by (intro one_tx_seq one_tx_noting quiet_intro one_tx_provider one_tx_finally;
      auto simp: answered allowed_defs dest: own_lease_of int_at_range)+

lemma forgets_none:
  "forgets CallRegister params = []" "forgets CallUpdateDetails params = []" "forgets CallCreatePlan params = []"
  "forgets CallPlanStatus params = []" "forgets CallPlanPrivate params = []" "forgets CallLeaseStart params = []"
  "forgets CallLeaseRenew params = []" "forgets CallLeasePolicy params = []"
  by (simp_all add: forgets_def)

lemma calls_allowed:
  assumes "requireProviderContext ctx = Inr a"
  shows "one_tx a (of_provider (allowed_msg v h a call params)) (forgets call params) h (provider_call v ctx second call params h)"
  using assms
  by (cases call)
    (simp_all add: allowed_register allowed_simple allowed_link allowed_create allowed_lease_start allowed_lease_renew
      allowed_lease_gas forgets_none)

section \<open>What is promised\<close>

text \<open>What a call signed: a message that landed, or one the app stopped waiting for.\<close>

definition signed_msg :: "string \<Rightarrow> provider_msg \<Rightarrow> history \<Rightarrow> history \<Rightarrow> bool" where
  "signed_msg a msg h h' \<longleftrightarrow>
     Landed a (ProviderTx msg) \<in> set (drop (length h) h') \<or> Unconfirmed a (ProviderTx msg) \<in> set (drop (length h) h')"

lemma forgets_only: "x \<in> set (forgets call params) \<Longrightarrow> \<exists>p. x = Forgot p"
  by (auto simp: forgets_def split: prov_call.splits if_splits)

lemma signed_allowed:
  assumes "signed_msg a msg h (snd (provider_call v ctx second call params h))"
  shows "requireProviderContext ctx = Inr a \<and> allowed_msg v h a call params msg"
proof (cases "requireProviderContext ctx")
  case (Inl e)
  with assms show ?thesis by (simp add: refused_call [of ctx e] signed_msg_def)
next
  case (Inr b)
  from calls_allowed [OF Inr, of v h call params second] assms
  have "a = b \<and> allowed_msg v h b call params msg"
    by (auto simp: one_tx_def of_provider_def signed_msg_def dest!: forgets_only)
  with Inr show ?thesis by simp
qed

lemma context_ok: "requireProviderContext ctx = Inr a \<longleftrightarrow> pc_account ctx = Some a \<and> \<not> pc_vpn ctx"
  by (auto simp: requireProviderContext_def split: option.splits)

text \<open>C12. One call of the provider console is one transaction at most (every writing handler of
  ipc/provider.ts): while the tunnel is up or no wallet is loaded it refuses and the outside world has
  seen nothing; otherwise it signs at most one message, as the loaded account and for that account's own
  provider address, it succeeds exactly when that message landed, and when the message unlinks nodes the
  remembered node lists it may have changed are dropped, also when its fate is not known.\<close>

theorem provider_call_settles:
  "let out = provider_call v ctx second call params h in
     case requireProviderContext ctx of
       Inl e \<Rightarrow> out = (Inl (failed e), h)
     | Inr a \<Rightarrow> pc_account ctx = Some a \<and> \<not> pc_vpn ctx \<and>
         ((\<exists>e. out = (Inl e, h)) \<or> (\<exists>e. out = (Inl e, h @ forgets call params)) \<or>
          (\<exists>msg. sender v a msg \<and>
             (out = (Inr (), h @ Landed a (ProviderTx msg) # forgets call params) \<or>
              (\<exists>e. out = (Inl e, h @ Unconfirmed a (ProviderTx msg) # forgets call params)))))"
proof (cases "requireProviderContext ctx")
  case (Inl e)
  then show ?thesis by (simp add: refused_call)
next
  case (Inr a)
  from calls_allowed [OF this, of v h call params second] Inr context_ok [of ctx a] show ?thesis
    unfolding one_tx_def of_provider_def allowed_msg_def Let_def by auto
qed

text \<open>C13. Escrow for a lease is signed only on terms the chain stated at that moment (LEASE_START,
  LEASE_RENEW): the price in the message is the node's own hourly price, as the chain gave it, never the
  renderer's, so the transaction fails if the price moves; the hours are within the chain's bounds; the
  wallet's balance, when it can be read, covers the whole term and the fee; a new lease is taken only on an
  active node, and a renewal only where the lease's policy allows that price.\<close>

theorem lease_escrow_guarded:
  assumes "call = CallLeaseStart \<or> call = CallLeaseRenew"
    and "signed_msg a msg h (snd (provider_call v ctx second call params h))"
  shows "\<exists>f q hours price. escrow_ok v h a q hours \<and> price = (''udvpn'', ''0'', nq_hourlyPrice q) \<and>
     (nq_status q = 1 \<and> (\<exists>pol. msg = StartLease f (nq_address q) hours price pol) \<or>
      (\<exists>i l. own_lease v h a i l \<and> li_nodeAddress l = nq_address q \<and> msg = RenewLease f i hours price \<and>
         renewalPolicyAllows (li_policy l) (nq_hourlyPrice q) (lc_hourlyPrice l)))"
  using assms(1) signed_allowed [OF assms(2)] by (auto simp: allowed_msg_def) blast+

definition lease_of :: "provider_msg \<Rightarrow> 64 word option" where
  "lease_of msg = (case msg of RenewLease _ i _ _ \<Rightarrow> Some i | UpdateLease _ i _ \<Rightarrow> Some i | EndLease _ i \<Rightarrow> Some i | _ \<Rightarrow> None)"

lemma own_lease_id:
  assumes "own_lease v h a i l" and "\<And>w. pv_long v (show_long w) = w"
  shows "li_id l = show_long i"
proof -
  from assms(1) have l: "l \<in> set (own_leases v h a)" and i: "i = pv_long v (li_id l)" by (simp_all add: own_lease_def)
  from l obtain rows where "l \<in> toLeaseInfo ` set rows"
    by (cases "and_then (prov_address v a) (listLeasesForProvider v h)")
      (auto simp: own_leases_def listLeasesForProvider_def and_then_eq_ok)
  then obtain r where "l = toLeaseInfo r" by blast
  then have "li_id l = show_long (rl_id r)" by (simp add: toLeaseInfo_def)
  with i assms(2) show ?thesis by simp
qed

text \<open>C14. A lease that is renewed, amended or ended is one of the wallet's own (assertOwnLease), whatever
  id the renderer sends: the 64-bit id in the signed message is the id of a lease the chain listed, at that
  moment, for the account's provider address, although the id arrives as a string of any length. Assumed of
  the 64-bit codec: it reads back what the app prints.\<close>

theorem only_own_leases_touched:
  assumes "\<And>w. pv_long v (show_long w) = w"
    and "signed_msg a msg h (snd (provider_call v ctx second call params h))" and "lease_of msg = Some i"
  shows "\<exists>l \<in> set (own_leases v h a). li_id l = show_long i"
proof -
  have "\<exists>l. own_lease v h a i l"
    using signed_allowed [OF assms(2)] assms(3)
    by (cases call) (auto simp: allowed_msg_def lease_of_def)
  then obtain l where "own_lease v h a i l" by blast
  with own_lease_id [OF this assms(1)] show ?thesis by (auto simp: own_lease_def)
qed

end
