(* ===== verification/ProviderReads.thy ===== *)
theory ProviderReads
  imports ProviderProps
begin

text \<open>
  What the provider console's reads promise, and concrete runs: the witnesses of its properties and a
  server that keeps the overview waiting for ever.
\<close>

section \<open>Paged reads\<close>

text \<open>C17. The provider's leases and plans are read whole (listLeasesForProvider, listMyPlans): when the
  chain gives them out page by page under cursors of its own, the console has every row, in order and
  none twice, as long as there are at most a thousand of each, the loops' limit.\<close>

theorem provider_rows_complete:
  assumes "prov_address v a = Inr p"
    and "serves ls n cursor (pv_leases v h p)" and "length ls \<le> 1000"
    and "serves ps m cursor' (pv_plans v h p)" and "length ps \<le> 1000"
  shows "listLeasesForProvider v h p = Inr (map toLeaseInfo ls) \<and> listMyPlans v h a = Some (Inr (map toMyPlan ps))"
  using assms read_until_empty_complete [OF assms(2), of MAX_LEASES 0] read_pages_complete [OF assms(4), of MAX_PLANS False 0]
  by (simp_all add: listLeasesForProvider_def listMyPlans_def MAX_LEASES_def MAX_PLANS_def)

text \<open>A server whose pages are empty and always name a next one.\<close>

lemma empty_pages_hold:
  "read_pages b limit srv k key acc = Some r \<Longrightarrow>
     0 < limit \<longrightarrow> (\<forall>k key. srv k key = Inr \<lparr>pg_rows = [], pg_next = [c]\<rparr>) \<longrightarrow> acc \<noteq> []"
  by (rule read_pages.raw_induct [rotated], assumption) (auto simp: keep_page_def split: if_splits, blast+)

lemma empty_pages_never_end:
  assumes "\<And>k key. srv k key = Inr \<lparr>pg_rows = [], pg_next = [c]\<rparr>" and "0 < limit"
  shows "read_pages b limit srv k key [] = None"
  using empty_pages_hold [of b limit srv k key "[]" _ c] assms by (cases "read_pages b limit srv k key []") auto

lemma overview_may_not_return:
  assumes "\<And>k key. pv_plans v h p k key = Inr \<lparr>pg_rows = [], pg_next = [c]\<rparr>"
    and "prov_address v a = Inr p" and "c_connect (pv_chain v) h = Inr ()" and "pv_provider v h p = Inr (Some row)"
    and "pc_account ctx = Some a" and "\<not> pc_vpn ctx"
  shows "PROVIDER_OVERVIEW v ctx now cache h = None"
proof -
  have "listMyPlans v h a = None"
    using assms empty_pages_never_end [of "pv_plans v h p" c MAX_PLANS False 0 "[]"]
    by (simp add: listMyPlans_def MAX_PLANS_def)
  with assms show ?thesis
    by (simp add: PROVIDER_OVERVIEW_def getProviderOverview_def getMyProvider_def not_found_as_none_def registered_overview_def)
qed

section \<open>The overview\<close>

text \<open>The caches a process can hold: filled by its overview calls, cleared on a wallet switch.\<close>

inductive cache_reached :: "prov_io \<Rightarrow> overview_cache \<Rightarrow> bool" for v where
  at_launch: "cache_reached v None"
| answered_call: "cache_reached v c \<Longrightarrow> PROVIDER_OVERVIEW v ctx now c h = Some (r, c') \<Longrightarrow> cache_reached v c'"
| cleared: "cache_reached v c \<Longrightarrow> cache_reached v None"

lemma overview_address:
  assumes "getProviderOverview v h a = Some (Inr d)"
  shows "prov_address v a = Inr (mp_address (ov_provider d))"
proof -
  from assms obtain p where p: "getMyProvider v h a = Inr p" and d: "ov_provider d = p"
    by (auto simp: getProviderOverview_def registered_overview_def and_then_eq_ok split: sum.split_asm if_splits)
  from p have "prov_address v a = Inr (mp_address p)"
    by (auto simp: getMyProvider_def and_then_eq_ok unregistered_def split: option.splits)
  with d show ?thesis by simp
qed

lemma overview_cases:
  assumes "PROVIDER_OVERVIEW v ctx now c h = Some (r, c')" and "pc_account ctx = Some a"
  shows "(r = Inr (cached_answer c a) \<and> c' = c) \<or> (\<exists>e. r = Inl e \<and> c' = c) \<or>
    (\<not> pc_vpn ctx \<and> (\<exists>d. getProviderOverview v h a = Some (Inr d) \<and> c' = Some (a, d, now) \<and>
       r = Inr (Some \<lparr>oa_data = d, oa_fetchedAt = now, oa_stale = False\<rparr>)))"
proof (cases "pc_vpn ctx")
  case True
  with assms show ?thesis by (auto simp: PROVIDER_OVERVIEW_def)
next
  case False
  with assms obtain x where x: "getProviderOverview v h a = Some x" by (auto simp: PROVIDER_OVERVIEW_def)
  show ?thesis
  proof (cases x)
    case (Inl e)
    with assms x False show ?thesis by (cases "cached_answer c a") (auto simp: PROVIDER_OVERVIEW_def)
  next
    case (Inr d)
    with assms x False show ?thesis by (auto simp: PROVIDER_OVERVIEW_def)
  qed
qed

lemma cache_reached_own: "cache_reached v c \<Longrightarrow> c = Some (a, d, t) \<Longrightarrow> \<exists>h. getProviderOverview v h a = Some (Inr d)"
proof (induction rule: cache_reached.induct)
  case (answered_call c ctx now h r c')
  show ?case
  proof (cases "pc_account ctx")
    case None
    with answered_call show ?thesis by (auto simp: PROVIDER_OVERVIEW_def)
  next
    case (Some b)
    from overview_cases [OF answered_call(2) Some] answered_call(3,4) show ?thesis by auto
  qed
qed simp_all

text \<open>The Provider tab shows the loaded wallet's own record or nothing (PROVIDER_OVERVIEW), whatever
  wallets were loaded before and whatever reads failed: what it is given was read from the chain for this
  account, under its own provider address; it is called stale exactly when it was not read by this very call,
  and while the tunnel is up it is never called fresh.\<close>

theorem overview_is_own:
  assumes "cache_reached v c" and "PROVIDER_OVERVIEW v ctx now c h = Some (Inr (Some ans), c')"
  shows "\<exists>a. pc_account ctx = Some a \<and> prov_address v a = Inr (mp_address (ov_provider (oa_data ans))) \<and>
     (if oa_stale ans then \<exists>t h0. c = Some (a, oa_data ans, t) \<and> t = oa_fetchedAt ans \<and>
          getProviderOverview v h0 a = Some (Inr (oa_data ans))
      else \<not> pc_vpn ctx \<and> getProviderOverview v h a = Some (Inr (oa_data ans)) \<and> oa_fetchedAt ans = now)"
proof -
  obtain a where a: "pc_account ctx = Some a" using assms(2) by (cases "pc_account ctx") (auto simp: PROVIDER_OVERVIEW_def)
  consider (cached) "cached_answer c a = Some ans" | (fresh) d where "\<not> pc_vpn ctx" "getProviderOverview v h a = Some (Inr d)"
      "ans = \<lparr>oa_data = d, oa_fetchedAt = now, oa_stale = False\<rparr>"
    using overview_cases [OF assms(2) a] by auto
  then show ?thesis
  proof cases
    case cached
    then obtain d t where c: "c = Some (a, d, t)" and ans: "ans = \<lparr>oa_data = d, oa_fetchedAt = t, oa_stale = True\<rparr>"
      by (auto simp: cached_answer_def getCachedProviderOverview_def split: option.splits if_splits)
    obtain h0 where "getProviderOverview v h0 a = Some (Inr d)" using cache_reached_own [OF assms(1) c] by blast
    with a c ans overview_address [OF this] show ?thesis by auto
  next
    case fresh
    with a overview_address [OF fresh(2)] show ?thesis by auto
  qed
qed

section \<open>A console at work\<close>

definition sample_console :: prov_io where
  "sample_console =
     \<lparr>pv_chain = \<lparr>c_env = sample_env, c_balances = (\<lambda>_ _. Some [\<lparr>co_denom = ''udvpn'', co_amount = ''60000''\<rparr>]),
        c_p2p = show_int, c_p2pCeil = show_int, c_rpcEndpoint = (\<lambda>_. []), c_connect = (\<lambda>_. ok ()), c_height = (\<lambda>_. ok 100),
        c_node = (\<lambda>_ _. throw ''down''), c_send = (\<lambda>_ _ _ _. Included \<lparr>tx_code = 0, tx_rawLog = None, tx_events = []\<rparr>),
        c_nodeSessionType = [], c_nodeSession = (\<lambda>_. None), c_subSessionType = [], c_subSession = (\<lambda>_. (None, None)),
        c_subCreateType = [], c_subCreate = (\<lambda>_. None)\<rparr>,
      pv_fromBech32 = (\<lambda>s. ok (''sent'', [])), pv_toBech32 = (\<lambda>p b. p), pv_long = (\<lambda>s. word_of_nat (read_nat s)),
      pv_isUrl = (\<lambda>_. False), pv_p2p = id,
      pv_leases = (\<lambda>_ _ _ _. ok \<lparr>pg_rows = [\<lparr>rl_id = 7, rl_nodeAddress = ''n'', rl_quote = Some ''50'', rl_hours = 5, rl_maxHours = 24,
         rl_policy = 7, rl_startAt = None\<rparr>], pg_next = []\<rparr>),
      pv_leaseParams = (\<lambda>_. ok (None, None, None)),
      pv_node = (\<lambda>_ _. ok (Some \<lparr>rn_hourlyPrices = [\<lparr>pc_denom = ''udvpn'', pc_baseValue = ''0'', pc_quoteValue = ''40''\<rparr>], rn_status = Some 1\<rparr>)),
      pv_provider = (\<lambda>_ _. throw ''code = NotFound''), pv_deposit = (\<lambda>_. ok None), pv_share = (\<lambda>_. ok None),
      pv_plans = (\<lambda>_ _ _ _. ok \<lparr>pg_rows = [], pg_next = []\<rparr>), pv_subs = (\<lambda>_ _ _ _. ok \<lparr>pg_rows = [], pg_next = []\<rparr>),
      pv_subsTotal = (\<lambda>_ _. ok None)\<rparr>"

definition sample_ctx :: prov_ctx where
  "sample_ctx = \<lparr>pc_account = Some ''me'', pc_vpn = False\<rparr>"

definition renew_params :: js where
  "renew_params = JObj [(''leaseId'', JStr ''7''), (''hours'', JNum (NInt 24))]"

lemma sample_renewal:
  "signed_msg ''me'' (RenewLease ''sentprov'' 7 24 (''udvpn'', ''0'', ''40'')) []
     (snd (provider_call sample_console sample_ctx False CallLeaseRenew renew_params []))"
proof -
  note ev = decimal_id_def read_nat_def digit_val_def class_defs char_le_iff show_nat.simps digit_chars digit_chars [unfolded One_nat_def]
  have own: "assertOwnLease sample_console ''me'' ''7'' [] = (Inr (toLeaseInfo \<lparr>rl_id = 7, rl_nodeAddress = ''n'', rl_quote = Some ''50'',
      rl_hours = 5, rl_maxHours = 24, rl_policy = 7, rl_startAt = None\<rparr>), [])"
    by (simp add: assertOwnLease_def prov_address_def toProviderAddress_def sample_console_def noting_def catching_def asking_def
        withReadClient_def listLeasesForProvider_def read_until_empty.simps MAX_LEASES_def toLeaseInfo_def show_long_def run seq_def ev)
  have params: "check_decimal ''leaseId'' renew_params = Inr ()" "str_of ''leaseId'' renew_params = ''7''"
      "check_hours renew_params = Inr ()" "int_at ''hours'' renew_params = 24" "as_number (jget ''hours'' renew_params) = Some 24"
    by (simp_all add: check_decimal_def str_of_def renew_params_def assertString_def check_hours_def assertIntRange_def as_number_def
        num_value_def int_at_def whole_def ev)
  have price: "price_and_params sample_console False ''n'' [] =
      (Inr (\<lparr>nq_address = ''n'', nq_hourlyPrice = ''40'', nq_status = 1\<rparr>,
        \<lparr>lp_minHours = 1, lp_maxHours = 720, lp_stakingShare = ''''\<rparr>), [])"
    by (simp add: price_and_params_def together_def outcome_def noting_def catching_def asking_def getNodeHourlyPrice_def
        withReadClient_def sample_console_def not_found_as_none_def or_zero_def getLeaseParams_def or_empty_def run seq_def)
  have escrow: "check_escrow sample_console ''me'' renew_params ''40'' \<lparr>lp_minHours = 1, lp_maxHours = 720, lp_stakingShare = ''''\<rparr> []
      = (Inr (), [])"
    by (simp add: check_escrow_def params assertValidLeaseHours_def whole_def leaseDepositNumber_def leaseDepositUdvpn_def
        MAX_SAFE_INTEGER_def assertSufficientFunds_def sample_console_def checkFunds_def udvpnOf_def parse_int_def trim_start_def
        FEE_RESERVE_UDVPN_def run seq_def ev)
  have sent: "noting (pv_chain sample_console) (renewLease sample_console ''me'' ''7'' 24 ''40'') [] =
      (Inr (), [Landed ''me'' (ProviderTx (RenewLease ''sentprov'' 7 24 (''udvpn'', ''0'', ''40'')))])"
    by (simp add: noting_def catching_def renewLease_def buildRenewLeaseMsg_def max_price_def PLAN_DENOM_def as_provider_def
        prov_address_def toProviderAddress_def sample_console_def broadcast_msg_def asking_def send_tx_def seen_def
        broadcastOrTimeout_def assertTxSucceeded_def run seq_def ev)
  have "provider_call sample_console sample_ctx False CallLeaseRenew renew_params [] =
      (Inr (), [Landed ''me'' (ProviderTx (RenewLease ''sentprov'' 7 24 (''udvpn'', ''0'', ''40'')))])"
    by (simp add: LEASE_RENEW_def requireProviderContext_def sample_ctx_def params own price toLeaseInfo_def escrow
        seq_def renewalPolicyRefusal_def renewalPolicyAllows_def sent ev)
  then show ?thesis by (simp add: signed_msg_def)
qed

theorem lease_escrow_guarded_witness:
  "\<exists>f q hours price. escrow_ok sample_console [] ''me'' q hours \<and> price = (''udvpn'', ''0'', nq_hourlyPrice q) \<and>
     (nq_status q = 1 \<and>
        (\<exists>pol. RenewLease ''sentprov'' 7 24 (''udvpn'', ''0'', ''40'') = StartLease f (nq_address q) hours price pol) \<or>
      (\<exists>i l. own_lease sample_console [] ''me'' i l \<and> li_nodeAddress l = nq_address q \<and>
         RenewLease ''sentprov'' 7 24 (''udvpn'', ''0'', ''40'') = RenewLease f i hours price \<and>
         renewalPolicyAllows (li_policy l) (nq_hourlyPrice q) (lc_hourlyPrice l)))"
  by (rule lease_escrow_guarded [OF _ sample_renewal]) simp

lemma sample_long: "pv_long sample_console (show_long w) = w"
  by (simp add: sample_console_def show_long_def)

theorem only_own_leases_touched_witness: "\<exists>l \<in> set (own_leases sample_console [] ''me''). li_id l = show_long 7"
  by (rule only_own_leases_touched [OF sample_long sample_renewal]) (simp add: lease_of_def)

definition three_leases :: "raw_lease list" where
  "three_leases = map (\<lambda>i. \<lparr>rl_id = i, rl_nodeAddress = ''n'', rl_quote = None, rl_hours = 0, rl_maxHours = 1, rl_policy = 0,
     rl_startAt = None\<rparr>) [1, 2, 3]"

theorem provider_rows_complete_witness:
  "let v = sample_console\<lparr>pv_leases := \<lambda>_ _. page_server three_leases 2, pv_plans := \<lambda>_ _. page_server [] 200\<rparr> in
     listLeasesForProvider v [] ''sentprov'' = Inr (map toLeaseInfo three_leases) \<and> listMyPlans v [] ''me'' = Some (Inr [])"
proof -
  let ?v = "sample_console\<lparr>pv_leases := \<lambda>_ _. page_server three_leases 2, pv_plans := \<lambda>_ _. page_server [] 200\<rparr>"
  have "prov_address ?v ''me'' = Inr ''sentprov''"
    by (simp add: prov_address_def toProviderAddress_def sample_console_def)
  from provider_rows_complete [OF this, of three_leases 2 cursor_at "[]" "[]" 200 cursor_at] show ?thesis
    by (simp add: page_server_serves three_leases_def)
qed

theorem overview_is_own_witness:
  "\<exists>ans c'. PROVIDER_OVERVIEW sample_console sample_ctx 5 None [] = Some (Inr (Some ans), c') \<and>
     \<not> oa_stale ans \<and> mp_address (ov_provider (oa_data ans)) = ''sentprov''"
proof -
  let ?d = "\<lparr>ov_provider = unregistered ''sentprov'', ov_plans = [], ov_leases = [], ov_economics = None\<rparr>"
  have d: "getProviderOverview sample_console [] ''me'' = Some (Inr ?d)"
    by (simp add: getProviderOverview_def getMyProvider_def prov_address_def toProviderAddress_def sample_console_def
        not_found_as_none_def isChainNotFound_def starts_with_def unregistered_def)
  then have o: "PROVIDER_OVERVIEW sample_console sample_ctx 5 None [] =
      Some (Inr (Some \<lparr>oa_data = ?d, oa_fetchedAt = 5, oa_stale = False\<rparr>), Some (''me'', ?d, 5))"
    by (simp add: PROVIDER_OVERVIEW_def sample_ctx_def)
  from overview_is_own [OF at_launch o] o show ?thesis
    by (auto simp: sample_ctx_def prov_address_def toProviderAddress_def sample_console_def)
qed

end
