(* ===== verification/PlanHandlers.thy ===== *)
theory PlanHandlers
  imports Plans ProviderReads SmartProps
begin

text \<open>
  The handlers over plans and subscriptions (\<open>src/main/ipc-handlers.ts\<close>, and the plan counters of
  \<open>src/main/ipc/provider.ts\<close>), and what they promise. The overview is two steps, before and after its
  chain read, because a wallet switch may come between them.
\<close>

section \<open>Reads\<close>

definition PLAN_DISCOVER ::
  "plan_io \<Rightarrow> prov_ctx \<Rightarrow> history \<Rightarrow> int \<Rightarrow> (string \<times> string) list \<Rightarrow> js \<Rightarrow> plan_state \<Rightarrow>
     ((listed_plan \<times> bool) list result \<times> plan_state) option" where
  "PLAN_DISCOVER e ctx h now providers maxCount s =
     (case assertIntRange maxCount ''maxCount'' 100 1000 of
        Inl m \<Rightarrow> Some (Inl m, s)
      | Inr _ \<Rightarrow>
          if pc_vpn ctx then Some (ok (fst (listCachedPlans providers s)), s)
          else discoverPlans e h now providers (nat (case whole (as_number maxCount) of None \<Rightarrow> 0 | Some n \<Rightarrow> n)) s)"

record plan_view =
  vw_plans :: "(listed_plan \<times> bool) list"
  vw_fetchedAt :: "int option"
  vw_subscriptions :: "subscription_info list"
  vw_allocations :: "allocation list"
  vw_stale :: bool

definition cachedHalf :: "(string \<times> string) list \<Rightarrow> plan_state \<Rightarrow> plan_view" where
  "cachedHalf providers s =
     \<lparr>vw_plans = fst (listCachedPlans providers s), vw_fetchedAt = snd (listCachedPlans providers s),
      vw_subscriptions = (case ps_overview s of None \<Rightarrow> [] | Some (subs, _) \<Rightarrow> subs),
      vw_allocations = (case ps_overview s of None \<Rightarrow> [] | Some (_, allocs) \<Rightarrow> allocs), vw_stale = True\<rparr>"

text \<open>The handler up to its read: an answer at once, or a read for the address loaded now.\<close>

definition PLAN_OVERVIEW_start :: "prov_ctx \<Rightarrow> (string \<times> string) list \<Rightarrow> plan_state \<Rightarrow> plan_view + string" where
  "PLAN_OVERVIEW_start ctx providers s =
     (case pc_account ctx of
        None \<Rightarrow> Inl ((cachedHalf providers s)\<lparr>vw_stale := False\<rparr>)
      | Some address \<Rightarrow> if pc_vpn ctx then Inl (cachedHalf providers s) else Inr address)"

definition PLAN_OVERVIEW_done ::
  "plan_io \<Rightarrow> history \<Rightarrow> (string \<times> string) list \<Rightarrow> string \<Rightarrow> plan_state \<Rightarrow> plan_view \<times> plan_state" where
  "PLAN_OVERVIEW_done e h providers address s =
     (case getPlanOverview e h s address of
        Inr (subs, allocs) \<Rightarrow>
          let s' = s\<lparr>ps_overview := Some (subs, allocs)\<rparr> in ((cachedHalf providers s')\<lparr>vw_stale := False\<rparr>, s')
      | Inl _ \<Rightarrow> (cachedHalf providers s, s))"

text \<open>\<open>None\<close> in the answer is ``unknown'', an empty list is ``no nodes''.\<close>

definition PLAN_NODES ::
  "plan_io \<Rightarrow> prov_ctx \<Rightarrow> history \<Rightarrow> int \<Rightarrow> js \<Rightarrow> plan_state \<Rightarrow> (string list option result \<times> plan_state) option" where
  "PLAN_NODES e ctx h now params s =
     (case check_decimal ''planId'' params of
        Inl m \<Rightarrow> Some (Inl m, s)
      | Inr _ \<Rightarrow>
          let planId = str_of ''planId'' params in
          if pc_vpn ctx then Some (ok (getCachedPlanNodes planId s), s)
          else case c_connect (pe_chain e) h of
              Inl _ \<Rightarrow> Some (ok (getCachedPlanNodes planId s), s)
            | Inr _ \<Rightarrow>
                map_option (\<lambda>(r, s'). (ok (case r of Inr a \<Rightarrow> Some a | Inl _ \<Rightarrow> getCachedPlanNodes planId s'), s'))
                  (listNodesForPlan e h now planId s))"

definition PLAN_LIST_FOR_NODE ::
  "plan_io \<Rightarrow> prov_ctx \<Rightarrow> history \<Rightarrow> int \<Rightarrow> (string \<times> string) list \<Rightarrow> js \<Rightarrow> plan_state \<Rightarrow>
     ((listed_plan \<times> bool) list result \<times> plan_state) option" where
  "PLAN_LIST_FOR_NODE e ctx h now providers params s =
     (case assertString (jget ''nodeAddress'' params) ''nodeAddress'' of
        Inl m \<Rightarrow> Some (Inl m, s)
      | Inr _ \<Rightarrow>
          if pc_vpn ctx then Some (ok [], s)
          else map_option (\<lambda>(r, s'). (ok (case r of Inr plans \<Rightarrow> plans | Inl _ \<Rightarrow> []), s'))
                 (listPlansForNode e h now providers (str_of ''nodeAddress'' params) s))"

record plan_stats =
  st_nodes :: nat
  st_subs :: subscriber_stats

fun plan_stats_rows ::
  "plan_io \<Rightarrow> prov_io \<Rightarrow> history \<Rightarrow> int \<Rightarrow> string list \<Rightarrow> plan_state \<Rightarrow>
     ((string \<times> plan_stats option) list \<times> plan_state) option" where
  "plan_stats_rows e v h now [] s = Some ([], s)"
| "plan_stats_rows e v h now (i # is) s =
     Option.bind (listNodesForPlan e h now i s) (\<lambda>(nodes, s1).
     Option.bind (getPlanSubscriberStats v h i) (\<lambda>subs.
     map_option (\<lambda>(rows, s2).
         ((i, case (nodes, subs) of (Inr a, Inr n) \<Rightarrow> Some \<lparr>st_nodes = length a, st_subs = n\<rparr> | _ \<Rightarrow> None) # rows, s2))
       (plan_stats_rows e v h now is s1)))"

definition check_planIds :: "js \<Rightarrow> unit result" where
  "check_planIds planIds =
     (if \<not> is_array planIds then throw ''Invalid planIds''
      else if length (elems planIds) > 50 then throw ''Too many planIds''
      else each (\<lambda>i. and_then (assertString i ''planId'') (\<lambda>_.
             if decimal_id (case as_string i of Some t \<Rightarrow> t | None \<Rightarrow> []) then ok () else throw ''Invalid planId''))
           (elems planIds))"

definition null_stats :: "string list \<Rightarrow> (string \<times> plan_stats option) list" where
  "null_stats planIds = map (\<lambda>i. (i, None)) planIds"

definition PROVIDER_PLAN_STATS ::
  "plan_io \<Rightarrow> prov_io \<Rightarrow> prov_ctx \<Rightarrow> history \<Rightarrow> int \<Rightarrow> js \<Rightarrow> plan_state \<Rightarrow>
     ((string \<times> plan_stats option) list result \<times> plan_state) option" where
  "PROVIDER_PLAN_STATS e v ctx h now params s =
     (let planIds = jget ''planIds'' params; ids = map (\<lambda>i. case as_string i of Some t \<Rightarrow> t | None \<Rightarrow> []) (elems planIds) in
      case check_planIds planIds of
        Inl m \<Rightarrow> Some (Inl m, s)
      | Inr _ \<Rightarrow>
          if pc_vpn ctx then Some (ok (null_stats ids), s)
          else case c_connect (pe_chain e) h of
              Inl _ \<Rightarrow> Some (ok (null_stats ids), s)
            | Inr _ \<Rightarrow> map_option (\<lambda>(rows, s'). (ok rows, s')) (plan_stats_rows e v h now ids s))"

section \<open>Transactions on a subscription\<close>

definition subscription_context :: "prov_ctx \<Rightarrow> string result" where
  "subscription_context ctx =
     (case pc_account ctx of
        None \<Rightarrow> throw ''Wallet not loaded''
      | Some address \<Rightarrow>
          if pc_vpn ctx
          then throw ''Disconnect the VPN before managing subscriptions. The chain is unreachable through the tunnel.''
          else ok address)"

text \<open>\<open>known\<close> stands for \<open>lastKnownSessions\<close>, the sessions the last read listed, each with its
  subscription. Only a read of the sessions fills it and a wallet switch empties it (\<open>assertNotConnected\<close> is
  passed first), so it may not list a session the app has just opened: the handlers take it as it is.\<close>

definition backing_live :: "(string \<times> string option) list \<Rightarrow> string \<Rightarrow> book \<Rightarrow> bool" where
  "backing_live known subscriptionId b \<longleftrightarrow>
     (\<exists>(i, sub) \<in> set known. (b_session b = Some i \<or> b_exitSession b = Some i) \<and> sub = Some subscriptionId)"

definition SUBSCRIPTION_CANCEL ::
  "plan_io \<Rightarrow> prov_ctx \<Rightarrow> (string \<times> string option) list \<Rightarrow> book \<Rightarrow> js \<Rightarrow> unit run" where
  "SUBSCRIPTION_CANCEL e ctx known b params =
     (let c = pe_chain e; i = str_of ''subscriptionId'' params in
      seq (lift (check_decimal ''subscriptionId'' params)) (\<lambda>_.
      seq (lift (subscription_context ctx)) (\<lambda>address.
      if backing_live known i b \<and> connectionIsLive b
      then raise (failed ''This subscription is backing your current session. Disconnect first to cancel it.'')
      else with_flow c (seq (assertSufficientFunds c address 0) (\<lambda>_. noting c (cancelSubscription c True address i))))))"

definition check_renewable :: "js \<Rightarrow> unit result" where
  "check_renewable params =
     and_then (check_decimal ''subscriptionId'' params) (\<lambda>_.
     and_then (check_decimal ''planId'' params) (\<lambda>_.
     and_then (if str_of ''planId'' params = ''0'' then throw ''Invalid planId'' else ok ()) (\<lambda>_.
     assertString (jget ''denom'' params) ''denom'')))"

definition catalog_prices :: "plan_state \<Rightarrow> (string \<times> plan_price list) list" where
  "catalog_prices s = map (\<lambda>p. (pn_id p, map (\<lambda>q. \<lparr>pp_denom = pc_denom q, pp_quoteValue = pc_quoteValue q\<rparr>) (pn_prices p)))
     (fst (getCachedPlans s))"

definition SUBSCRIPTION_RENEW :: "plan_io \<Rightarrow> prov_ctx \<Rightarrow> plan_state \<Rightarrow> js \<Rightarrow> unit run" where
  "SUBSCRIPTION_RENEW e ctx s params =
     (let c = pe_chain e in
      seq (lift (check_renewable params)) (\<lambda>_.
      seq (lift (subscription_context ctx)) (\<lambda>address.
      with_flow c (seq (assertSufficientFunds c address
              (cachedPlanCost (catalog_prices s) (str_of ''planId'' params) (str_of ''denom'' params))) (\<lambda>_.
        noting c (renewSubscription c True address (str_of ''subscriptionId'' params) (str_of ''denom'' params)))))))"

text \<open>The policy is a number between 0 and 7, written to the wire as a 32-bit integer (\<open>pe_int32\<close>).\<close>

definition policy_number :: "js \<Rightarrow> rat" where
  "policy_number params = (case as_number (jget ''policy'' params) of None \<Rightarrow> 0 | Some x \<Rightarrow> x)"

definition SUBSCRIPTION_UPDATE_POLICY :: "plan_io \<Rightarrow> prov_ctx \<Rightarrow> js \<Rightarrow> unit run" where
  "SUBSCRIPTION_UPDATE_POLICY e ctx params =
     (let c = pe_chain e in
      seq (lift (check_decimal ''subscriptionId'' params)) (\<lambda>_.
      seq (lift (assertNumber (jget ''policy'' params) ''policy'' (Some 0) (Some 7))) (\<lambda>_.
      seq (lift (subscription_context ctx)) (\<lambda>address.
      with_flow c (seq (assertSufficientFunds c address 0) (\<lambda>_.
        noting c (updateSubscriptionPolicy c True address (str_of ''subscriptionId'' params)
          (pe_int32 e (policy_number params)))))))))"

section \<open>Node lists\<close>

text \<open>What the node lists go through: reads of any kind, and the invalidations after the app's own
  transactions.\<close>

inductive nodes_reached :: "plan_io \<Rightarrow> plan_state \<Rightarrow> bool" for e where
  launched: "ps_nodes s = (\<lambda>_. None) \<Longrightarrow> nodes_reached e s"
| listed: "nodes_reached e s \<Longrightarrow> listNodesForPlan e h now i s = Some (r, s') \<Longrightarrow> nodes_reached e s'"
| forgot_one: "nodes_reached e s \<Longrightarrow> nodes_reached e (invalidatePlanNodes i s)"
| forgot_all: "nodes_reached e s \<Longrightarrow> nodes_reached e (invalidateAllPlanNodes s)"
| other: "nodes_reached e s \<Longrightarrow> ps_nodes s' = ps_nodes s \<Longrightarrow> nodes_reached e s'"

definition nodes_honest :: "plan_io \<Rightarrow> plan_state \<Rightarrow> bool" where
  "nodes_honest e s \<longleftrightarrow> (\<forall>i a t. ps_nodes s i = Some (a, t) \<longrightarrow> (\<exists>h. read_plan_nodes e h i = Some (Inr a)))"

lemma list_nodes_cases:
  assumes "listNodesForPlan e h now i s = Some (r, s')" and "decimal_id i"
  shows "(\<exists>a t. ps_nodes s i = Some (a, t) \<and> r = Inr a \<and> s' = s) \<or> (\<exists>m. r = Inl m \<and> s' = s) \<or>
    (\<exists>a. r = Inr a \<and> read_plan_nodes e h i = Some (Inr a) \<and> s' = s\<lparr>ps_nodes := (ps_nodes s)(i \<mapsto> (a, now))\<rparr>)"
  using assms by (auto simp: listNodesForPlan_def split: option.splits if_splits sum.splits)

lemma list_nodes_other: "listNodesForPlan e h now i s = Some (r, s') \<Longrightarrow> \<not> decimal_id i \<Longrightarrow> s' = s"
  by (simp add: listNodesForPlan_def)

lemma nodes_reached_honest: "nodes_reached e s \<Longrightarrow> nodes_honest e s"
proof (induction rule: nodes_reached.induct)
  case (listed s h now i r s')
  show ?case
  proof (cases "decimal_id i")
    case True
    from list_nodes_cases [OF listed(2) True] listed(3) show ?thesis by (auto simp: nodes_honest_def split: if_splits)
  next
    case False
    with listed list_nodes_other [OF listed(2) False] show ?thesis by simp
  qed
qed (auto simp: nodes_honest_def invalidatePlanNodes_def invalidateAllPlanNodes_def)

text \<open>C16. A plan is shown as having no nodes only when the chain said so (PLAN_NODES): every list the
  handler answers with, fresh or remembered, while the tunnel is up, after a failed read, and after any
  number of links, unlinks, ended leases and rescans, is the whole list of some read of that plan from the
  chain (a read that an answer without a list breaks off counts with the rows it had); when there is none to
  give, the answer is ``unknown'', never an empty list.\<close>

theorem plan_nodes_honest:
  assumes "nodes_reached e s" and "PLAN_NODES e ctx h now params s = Some (Inr (Some a), s')"
  shows "\<exists>h'. read_plan_nodes e h' (str_of ''planId'' params) = Some (Inr a)"
proof -
  let ?i = "str_of ''planId'' params"
  have check: "check_decimal ''planId'' params = Inr ()"
    using assms(2) by (cases "check_decimal ''planId'' params") (simp_all add: PLAN_NODES_def)
  then have dec: "decimal_id ?i" by (cases "decimal_id ?i") (auto simp: check_decimal_def and_then_eq_ok)
  have kept: "nodes_honest e s" by (rule nodes_reached_honest, rule assms(1))
  have cached: "\<exists>h'. read_plan_nodes e h' ?i = Some (Inr a)" if "getCachedPlanNodes ?i s = Some a"
    using that kept by (auto simp: getCachedPlanNodes_def nodes_honest_def)
  consider (old) "getCachedPlanNodes ?i s = Some a"
    | (asked) r s1 where "listNodesForPlan e h now ?i s = Some (r, s1)"
        "Some a = (case r of Inr a \<Rightarrow> Some a | Inl _ \<Rightarrow> getCachedPlanNodes ?i s1)"
  proof (cases "pc_vpn ctx \<or> (\<exists>m. c_connect (pe_chain e) h = Inl m)")
    case True
    with assms(2) check have "getCachedPlanNodes ?i s = Some a"
      by (cases "c_connect (pe_chain e) h") (auto simp: PLAN_NODES_def Let_def split: if_splits)
    then show ?thesis by (rule old)
  next
    case False
    then obtain u where "c_connect (pe_chain e) h = Inr u" "\<not> pc_vpn ctx" by (cases "c_connect (pe_chain e) h") auto
    with assms(2) check obtain x where x: "listNodesForPlan e h now ?i s = Some x"
        "(case x of (r, s1) \<Rightarrow> (ok (case r of Inr a \<Rightarrow> Some a | Inl _ \<Rightarrow> getCachedPlanNodes ?i s1) :: string list option result, s1))
           = (Inr (Some a), s')"
      by (auto simp: PLAN_NODES_def Let_def)
    then show ?thesis by (cases x) (simp add: asked)
  qed
  then show ?thesis
  proof cases
    case asked
    from list_nodes_cases [OF asked(1) dec] show ?thesis
    proof (elim disjE exE conjE)
      fix b t assume "ps_nodes s ?i = Some (b, t)" "r = Inr b"
      with asked(2) show ?thesis using cached by (simp add: getCachedPlanNodes_def)
    next
      fix m assume "r = Inl m" "s1 = s"
      with asked(2) show ?thesis using cached by simp
    next
      fix b assume "r = Inr b" "read_plan_nodes e h ?i = Some (Inr b)"
      with asked(2) show ?thesis by auto
    qed
  qed (rule cached)
qed

text \<open>A fresh read: one page, of which the row without an address is dropped.\<close>

definition sample_plans :: plan_io where
  "sample_plans = \<lparr>pe_chain = sample_chain, pe_long = (\<lambda>_. 9), pe_int32 = (\<lambda>_. 0),
     pe_plans = (\<lambda>_ _ _. Inl ''down''), pe_plan = (\<lambda>_ _. Inl ''down''),
     pe_nodes = (\<lambda>_ _ _ _. Inr (Some \<lparr>pg_rows = [''n1'', []], pg_next = []\<rparr>)),
     pe_subs = (\<lambda>_ _ _ _. Inl ''down'')\<rparr>"

lemma sample_nodes_read: "read_plan_nodes sample_plans h i = Some (Inr [''n1''])"
proof -
  have "addressed (or_break (pe_nodes sample_plans h w)) 0 [] = Inr \<lparr>pg_rows = [''n1''], pg_next = []\<rparr>" for w
    by (simp add: addressed_def or_break_def sample_plans_def)
  then show ?thesis unfolding read_plan_nodes_def by (subst read_pages.simps) (simp add: MAX_NODES_def keep_page_def)
qed

lemma sample_nodes_listed:
  "listNodesForPlan sample_plans h 5 ''9'' \<lparr>ps_catalog = None, ps_nodes = (\<lambda>_. None), ps_overview = None\<rparr> =
     Some (Inr [''n1''], \<lparr>ps_catalog = None, ps_nodes = [''9'' \<mapsto> ([''n1''], 5)], ps_overview = None\<rparr>)"
  by (simp add: listNodesForPlan_def decimal_id_def class_defs char_le_iff sample_nodes_read)

theorem plan_nodes_honest_witness:
  "\<exists>h'. read_plan_nodes sample_plans h' (str_of ''planId'' (JObj [(''planId'', JStr ''9'')])) = Some (Inr [''n1''])"
proof (rule plan_nodes_honest [OF nodes_reached.launched])
  let ?s = "\<lparr>ps_catalog = None, ps_nodes = (\<lambda>_. None), ps_overview = None\<rparr>"
  have up: "c_connect (pe_chain sample_plans) h = Inr ()" for h by (simp add: sample_plans_def sample_chain_def)
  show "ps_nodes ?s = (\<lambda>_. None)" by simp
  show "PLAN_NODES sample_plans \<lparr>pc_account = None, pc_vpn = False\<rparr> [] 5 (JObj [(''planId'', JStr ''9'')]) ?s =
      Some (Inr (Some [''n1'']), \<lparr>ps_catalog = None, ps_nodes = [''9'' \<mapsto> ([''n1''], 5)], ps_overview = None\<rparr>)"
    by (simp add: PLAN_NODES_def check_decimal_def assertString_def str_of_def decimal_id_def class_defs
        char_le_iff Let_def up sample_nodes_listed)
qed

section \<open>Subscriptions\<close>

datatype sub_call = SubCancel | SubRenew | SubPolicy

fun subscription_call ::
  "plan_io \<Rightarrow> prov_ctx \<Rightarrow> (string \<times> string option) list \<Rightarrow> book \<Rightarrow> plan_state \<Rightarrow> sub_call \<Rightarrow> js \<Rightarrow> unit run" where
  "subscription_call e ctx known b s SubCancel = SUBSCRIPTION_CANCEL e ctx known b"
| "subscription_call e ctx known b s SubRenew = SUBSCRIPTION_RENEW e ctx s"
| "subscription_call e ctx known b s SubPolicy = SUBSCRIPTION_UPDATE_POLICY e ctx"

definition allowed_sub ::
  "plan_io \<Rightarrow> history \<Rightarrow> (string \<times> string option) list \<Rightarrow> book \<Rightarrow> plan_state \<Rightarrow> string \<Rightarrow> sub_call \<Rightarrow> js \<Rightarrow> chain_msg \<Rightarrow> bool" where
  "allowed_sub e h known b s a call params m \<longleftrightarrow>
     (let i = str_of ''subscriptionId'' params; denom = str_of ''denom'' params in
      case call of
        SubCancel \<Rightarrow> m = CancelSubscription i \<and> funded (pe_chain e) h a 0 \<and>
          (\<not> connectionIsLive b \<or>
            (\<forall>(j, sub) \<in> set known. b_session b = Some j \<or> b_exitSession b = Some j \<longrightarrow> sub \<noteq> Some i))
      | SubRenew \<Rightarrow> m = RenewSubscription i denom \<and>
          funded (pe_chain e) h a (cachedPlanCost (catalog_prices s) (str_of ''planId'' params) denom)
      | SubPolicy \<Rightarrow> (\<exists>x. m = UpdateSubscription i (pe_int32 e x) \<and> 0 \<le> x \<and> x \<le> 7) \<and> funded (pe_chain e) h a 0)"

lemma quiet_flow [quiet_intro]: "quiet (seq (look (c_connect c)) lift)"
  by (intro quiet_intro)

lemma quiet_signing [quiet_intro]: "quiet (signing_height c shared)"
  unfolding signing_height_def by (intro quiet_intro) (auto intro: quiet_intro)

lemma one_tx_plan: "P msg \<Longrightarrow> one_tx a P [] h (seq (plan_tx c shared a msg) (\<lambda>_. ret ()) h)"
proof -
  assume p: "P msg"
  have "seq (plan_tx c shared a msg) (\<lambda>_. ret ()) =
      seq (signing_height c shared) (\<lambda>height. seq (send_tx c a msg (Some (height + TX_TIMEOUT_HEIGHT_OFFSET))
        TX_TIMEOUT_MESSAGE ''Transaction'') (\<lambda>_. ret ()))"
    by (auto simp: plan_tx_def seq_def fun_eq_iff split: prod.splits sum.splits)
  then show ?thesis by (simp add: one_tx_seq one_tx_send quiet_intro p)
qed

lemma policy_range:
  assumes "assertNumber (jget ''policy'' params) ''policy'' (Some 0) (Some 7) = Inr ()"
  shows "0 \<le> policy_number params \<and> policy_number params \<le> 7"
  using assms by (auto simp: assertNumber_ok policy_number_def)

lemma sub_calls_allowed:
  assumes "subscription_context ctx = Inr a"
  shows "one_tx a (allowed_sub e h known b s a call params) [] h (subscription_call e ctx known b s call params h)"
proof (cases call)
  case SubCancel
  show ?thesis
    unfolding SubCancel subscription_call.simps SUBSCRIPTION_CANCEL_def Let_def assms lift_simps seq_ret with_flow_def
      cancelSubscription_def
    by (cases "backing_live known (str_of ''subscriptionId'' params) b \<and> connectionIsLive b")
      (auto intro!: one_tx_seq one_tx_noting quiet_intro one_tx_plan
        simp: answered allowed_sub_def one_tx_raise backing_live_def Let_def)
next
  case SubRenew
  show ?thesis
    unfolding SubRenew subscription_call.simps SUBSCRIPTION_RENEW_def Let_def assms lift_simps seq_ret with_flow_def
      renewSubscription_def
    by (intro one_tx_seq one_tx_noting quiet_intro one_tx_plan) (simp add: answered allowed_sub_def)
next
  case SubPolicy
  show ?thesis
    unfolding SubPolicy subscription_call.simps SUBSCRIPTION_UPDATE_POLICY_def Let_def assms lift_simps seq_ret with_flow_def
      updateSubscriptionPolicy_def
    by (intro one_tx_seq one_tx_noting quiet_intro one_tx_plan)
      (auto simp: answered allowed_sub_def dest!: policy_range)
qed

lemma sub_call_refused:
  assumes "subscription_context ctx = Inl m"
  shows "\<exists>e'. subscription_call e ctx known b s call params h = (Inl e', h)"
  by (cases call; cases "check_decimal ''subscriptionId'' params"; cases "check_renewable params";
      cases "assertNumber (jget ''policy'' params) ''policy'' (Some 0) (Some 7)")
    (auto simp: SUBSCRIPTION_CANCEL_def SUBSCRIPTION_RENEW_def SUBSCRIPTION_UPDATE_POLICY_def assms run)

text \<open>C15. A subscription is touched by one transaction of the loaded wallet or not at all
  (SUBSCRIPTION_CANCEL, SUBSCRIPTION_RENEW, SUBSCRIPTION_UPDATE_POLICY): never while the tunnel is up; the
  call succeeds exactly when the message landed; the message is for the subscription asked for; while the
  connection is live, in local-proxy mode or during a reconnect included, a cancel is never signed for a
  subscription that the session cache (\<open>known\<close>, the rows of the last read) gives as the one behind a session of
  the connection, entry or exit; and a renewal is signed only when the balance, if it can be read, covers the
  plan's price as the catalog has it. A session that the cache does not list yet protects nothing
  (\<open>unread_session_unprotected\<close>).\<close>

theorem subscription_call_settles:
  "let out = subscription_call e ctx known b s call params h in
     case subscription_context ctx of
       Inl _ \<Rightarrow> (\<exists>e'. out = (Inl e', h))
     | Inr a \<Rightarrow> pc_account ctx = Some a \<and> \<not> pc_vpn ctx \<and>
         ((\<exists>e'. out = (Inl e', h)) \<or>
          (\<exists>m. allowed_sub e h known b s a call params m \<and>
             (out = (Inr (), h @ [Landed a m]) \<or> (\<exists>e'. out = (Inl e', h @ [Unconfirmed a m])))))"
proof (cases "subscription_context ctx")
  case (Inl m)
  with sub_call_refused [OF this] show ?thesis by simp
next
  case (Inr a)
  then have "pc_account ctx = Some a \<and> \<not> pc_vpn ctx"
    by (auto simp: subscription_context_def split: option.splits if_splits)
  with Inr sub_calls_allowed [OF Inr, of e h known b s call params] show ?thesis
    unfolding one_tx_def Let_def by auto
qed

section \<open>Where the handlers fall short\<close>

text \<open>The subscription behind the live connection is looked up in the sessions of the last read. A session the
  cache does not list (it was opened after that read, or no read has succeeded yet) leaves its subscription
  unprotected: the cancel is signed as if nothing were connected, and it ends the session in use.\<close>

lemma unread_session_unprotected:
  assumes "\<forall>(j, sub) \<in> set known. b_session b \<noteq> Some j \<and> b_exitSession b \<noteq> Some j"
  shows "SUBSCRIPTION_CANCEL e ctx known b params =
     SUBSCRIPTION_CANCEL e ctx [] (b\<lparr>b_session := None, b_exitSession := None\<rparr>) params"
proof -
  have "\<not> backing_live known i b" and "\<not> backing_live [] i c" for i c
    using assms by (auto simp: backing_live_def)
  then show ?thesis by (simp add: SUBSCRIPTION_CANCEL_def)
qed

lemma live_subscription_cancelled:
  assumes "subscription_context ctx = Inr a" and "pe_chain e = sample_chain"
  shows "snd (SUBSCRIPTION_CANCEL e ctx [] b (JObj [(''subscriptionId'', JStr ''9'')]) h) =
     h @ [Landed a (CancelSubscription ''9'')]"
  using assms
  by (simp add: SUBSCRIPTION_CANCEL_def backing_live_def check_decimal_def assertString_def str_of_def decimal_id_def
      class_defs char_le_iff with_flow_def noting_def catching_def cancelSubscription_def plan_tx_def
      signing_height_def send_tx_def seen_def broadcastOrTimeout_def assertTxSucceeded_def assertSufficientFunds_def
      sample_chain_def seq_def run)

text \<open>A renewal policy that is no whole number passes the check and is signed as whatever the wire
  makes of it; the lease handlers refuse one.\<close>

lemma fractional_policy_signed:
  fixes e ctx h
  assumes "subscription_context ctx = Inr a" and "pe_chain e = sample_chain"
  shows "snd (SUBSCRIPTION_UPDATE_POLICY e ctx (JObj [(''subscriptionId'', JStr ''9''), (''policy'', JNum (NOther ''0.5''))]) h) =
     h @ [Landed a (UpdateSubscription ''9'' (pe_int32 e (1 / 2)))]"
  using assms
  by (simp add: SUBSCRIPTION_UPDATE_POLICY_def check_decimal_def assertString_def str_of_def decimal_id_def class_defs char_le_iff
      assertNumber_def as_number_def num_value_def unsigned_value_def parse_int_def trim_start_def pow10_def read_nat_def
      digit_val_def policy_number_def with_flow_def noting_def catching_def updateSubscriptionPolicy_def plan_tx_def
      signing_height_def send_tx_def seen_def broadcastOrTimeout_def assertTxSucceeded_def assertSufficientFunds_def
      sample_chain_def seq_def run)

text \<open>A wallet switch clears the overview, but a read that was in flight then stores the rows of the wallet
  it was started for, and they are served, as remembered, to the wallet loaded since.\<close>

lemma overview_of_other_wallet:
  assumes "PLAN_OVERVIEW_start ctx providers s = Inr a"
    and "getPlanOverview e h (s\<lparr>ps_overview := None\<rparr>) a = Inr (subs, allocs)"
    and "pc_account ctx' = Some b" and "pc_vpn ctx'"
  shows "\<exists>view. PLAN_OVERVIEW_start ctx' providers (snd (PLAN_OVERVIEW_done e h providers a (s\<lparr>ps_overview := None\<rparr>))) = Inl view \<and>
     vw_subscriptions view = subs \<and> vw_allocations view = allocs"
  using assms by (simp add: PLAN_OVERVIEW_start_def PLAN_OVERVIEW_done_def cachedHalf_def Let_def)

end
