(* ===== verification/ChainShop.thy ===== *)
theory ChainShop
  imports PlanHandlers WalletHandlers
begin

text \<open>
  Buying a two-hop chain: the handler \<open>CONNECTION_SUBSCRIBE_CHAIN\<close> of \<open>src/main/ipc-handlers.ts\<close>, from its
  parameters to the session book, and what it promises about the money of the one or two wallets that
  pay. The purchase itself is \<open>establishChainOrRefund\<close>; each hop is bought by \<open>subscribeToNode\<close>, whose answer
  at that moment is the answer of the purchase. Amounts are whole numbers.
\<close>

section \<open>The handler\<close>

text \<open>What the main process knows besides the chain: the loaded wallet with its id, the keys of the other
  stored wallets, and the versions in the node directory.\<close>

record chain_ctx =
  cx_wallet :: "wallet_keys option"
  cx_walletId :: "string option"
  cx_keys :: "string \<Rightarrow> wallet_keys result"
  cx_version :: "string \<Rightarrow> string option"

text \<open>The keys of a stored wallet; \<open>keyBytes\<close> is the platform's form of a private key.\<close>

definition stored_keys :: "keyring \<Rightarrow> derivation \<Rightarrow> (string \<Rightarrow> byte list) \<Rightarrow> disk \<Rightarrow> string \<Rightarrow> wallet_keys result" where
  "stored_keys k dv keyBytes d walletId =
     and_then (loadWalletCredentials k dv walletId d) (\<lambda>c.
       ok \<lparr>wk_account = cr_address c, wk_privKey = keyBytes (cr_key c)\<rparr>)"

definition chainable :: "js \<Rightarrow> bool" where
  "chainable v \<longleftrightarrow> v = JNum (NInt 2) \<or> v = JNum (NInt 4)"

definition check_hop :: "string \<Rightarrow> js \<Rightarrow> unit result" where
  "check_hop role hop =
     and_then (if is_object hop then ok () else throw (''Missing '' @ role @ '' hop'')) (\<lambda>_.
     and_then (assertSentAddress (jget ''nodeAddress'' hop) (role @ ''.nodeAddress'')) (\<lambda>_.
     and_then (assertString (jget ''nodeMoniker'' hop) (role @ ''.nodeMoniker'')) (\<lambda>_.
     and_then (assertString (jget ''nodeCountry'' hop) (role @ ''.nodeCountry'')) (\<lambda>_.
     and_then (assertString (jget ''apiField'' hop) (role @ ''.apiField'')) (\<lambda>_.
     and_then (assertString (jget ''quoteValue'' hop) (role @ ''.quoteValue'')) (\<lambda>_.
     and_then (if decimal_id (str_of ''quoteValue'' hop) then ok () else throw (''Invalid '' @ role @ ''.quoteValue'')) (\<lambda>_.
     if chainable (jget ''nodeType'' hop) then ok ()
     else throw (''Multihop '' @ role @ '' must be a V2Ray (2) or XRAY (4) node. No other protocol can be chained.''))))))))"

definition check_chain :: "js \<Rightarrow> unit result" where
  "check_chain params =
     and_then (if jget ''type'' params = JStr ''gigabytes'' \<or> jget ''type'' params = JStr ''hours'' then ok () else throw ''Invalid type'') (\<lambda>_.
     and_then (if jget ''exitWalletId'' params = JUndef then ok () else assertString (jget ''exitWalletId'' params) ''exitWalletId'') (\<lambda>_.
     and_then (assertNumber (jget ''amount'' params) ''amount'' (Some 1) (Some 1000)) (\<lambda>_.
     and_then (assertString (jget ''denom'' params) ''denom'') (\<lambda>_.
     and_then (check_hop ''entry'' (jget ''entry'' params)) (\<lambda>_.
     and_then (check_hop ''exit'' (jget ''exit'' params)) (\<lambda>_.
     if str_of ''nodeAddress'' (jget ''entry'' params) = str_of ''nodeAddress'' (jget ''exit'' params)
     then throw ''Multihop entry and exit must be different nodes'' else ok ()))))))"

definition UNSIGNED_EXIT :: string where
  "UNSIGNED_EXIT = ''The exit node does not sign its handshake replies, not charged. '' @ [CHR 0x22] @ ''Signed nodes only'' @
     [CHR 0x22] @ '' is on in Settings: pick an exit that signs (dvpnd 9.4 or later), or turn the setting off.''"

text \<open>The one answer about the exit that needs no contact with it: the version in the directory.\<close>

definition exit_signs :: "env \<Rightarrow> chain_ctx \<Rightarrow> hop_input \<Rightarrow> unit run" where
  "exit_signs env ctx exit =
     seq (look (e_signedOnly env)) (\<lambda>signedOnly.
       if signedOnly \<and> \<not> versionSignsReplies (case cx_version ctx (hp_nodeAddress exit) of None \<Rightarrow> '''' | Some v \<Rightarrow> v)
       then raise (failed UNSIGNED_EXIT) else ret ())"

definition hop_cost :: "js \<Rightarrow> js \<Rightarrow> int" where
  "hop_cost params hop =
     (if str_of ''denom'' params = ''udvpn'' then int (read_nat (str_of ''quoteValue'' hop)) * int_of ''amount'' params else 0)"

definition signer_of :: "wallet_keys \<Rightarrow> string option \<Rightarrow> chain_signer" where
  "signer_of w walletId = \<lparr>cg_account = wk_account w, cg_privKey = wk_privKey w, cg_walletId = walletId\<rparr>"

text \<open>The wallet of the exit, when it is not the loaded one.\<close>

definition exit_wallet :: "chain_ctx \<Rightarrow> js \<Rightarrow> string option" where
  "exit_wallet ctx params =
     (case as_string (jget ''exitWalletId'' params) of
        None \<Rightarrow> None
      | Some i \<Rightarrow> if i = '''' \<or> cx_walletId ctx = Some i then None else Some i)"

definition exit_signer :: "chain_ctx \<Rightarrow> wallet_keys \<Rightarrow> js \<Rightarrow> chain_signer result" where
  "exit_signer ctx w params =
     (case exit_wallet ctx params of
        None \<Rightarrow> ok (signer_of w (cx_walletId ctx))
      | Some i \<Rightarrow> and_then (cx_keys ctx i) (\<lambda>creds. ok (signer_of creds (Some i))))"

text \<open>Each account pays for its own hop, so two accounts are checked apart.\<close>

definition check_chain_funds :: "chain_io \<Rightarrow> chain_ctx \<Rightarrow> wallet_keys \<Rightarrow> chain_signer \<Rightarrow> js \<Rightarrow> unit run" where
  "check_chain_funds c ctx w exitSigner params =
     (let entryCost = hop_cost params (jget ''entry'' params); exitCost = hop_cost params (jget ''exit'' params) in
      if exit_wallet ctx params \<noteq> None then
        seq (assertSufficientFunds c (wk_account w) entryCost) (\<lambda>_. assertSufficientFundsFor c (cg_account exitSigner) exitCost)
      else assertSufficientFunds c (wk_account w) (entryCost + exitCost))"

definition chain_checks :: "chain_io \<Rightarrow> chain_ctx \<Rightarrow> wallet_keys \<Rightarrow> js \<Rightarrow> chain_signer run" where
  "chain_checks c ctx w params =
     (let env = c_env c; entry = node_of (jget ''entry'' params) in
      seq (preflightConnect env (hp_nodeType entry) (hp_apiField entry) (full_tunnel params) Direct) (\<lambda>_.
      seq (assertChainEligible env entry Entry Direct) (\<lambda>_.
      seq (exit_signs env ctx (node_of (jget ''exit'' params))) (\<lambda>_.
      seq (lift (exit_signer ctx w params)) (\<lambda>exitSigner.
      seq (check_chain_funds c ctx w exitSigner params) (\<lambda>_. ret exitSigner))))))"

text \<open>What a purchase that throws has left at the chain.\<close>

definition left_by :: "history \<Rightarrow> left_over" where
  "left_by es =
     (if list_ex (\<lambda>e. case e of Landed _ _ \<Rightarrow> True | _ \<Rightarrow> False) es then TxLanded
      else if list_ex (\<lambda>e. case e of Unconfirmed _ _ \<Rightarrow> True | _ \<Rightarrow> False) es then TxPending else NoTx)"

text \<open>The purchase of a hop by \<open>subscribeToNode\<close>, which opens its own connection.\<close>

definition chain_env :: "chain_io \<Rightarrow> js \<Rightarrow> env" where
  "chain_env c params =
     (c_env c)\<lparr>e_buy := \<lambda>h node account.
        (let entry = node_of (jget ''entry'' params);
             api = (if node = hp_nodeAddress entry then hp_apiField entry else hp_apiField (node_of (jget ''exit'' params)))
         in case noting c (subscribeToNode c False account node api
              (kind_of params = Gigabytes) (int_of ''amount'' params) (str_of ''denom'' params)) h of
           (Inr (sessionId, _), _) \<Rightarrow> Inr sessionId
         | (Inl e, h') \<Rightarrow> Inl (e, left_by (drop (length h) h')))\<rparr>"

definition buy_chain :: "chain_io \<Rightarrow> chain_ctx \<Rightarrow> wallet_keys \<Rightarrow> js \<Rightarrow> chain_result run" where
  "buy_chain c ctx w params =
     seq (chain_checks c ctx w params) (\<lambda>exitSigner.
       establishChainOrRefund (chain_env c params) (node_of (jget ''entry'' params)) (node_of (jget ''exit'' params))
         (signer_of w (cx_walletId ctx)) exitSigner)"

definition connection_subscribe_chain ::
  "chain_io \<Rightarrow> chain_ctx \<Rightarrow> (history \<Rightarrow> session_row list option) \<Rightarrow> js \<Rightarrow> book \<Rightarrow> history \<Rightarrow>
     (failure + string \<times> string \<times> string) \<times> book \<times> history" where
  "connection_subscribe_chain c ctx rows params b h =
     (case check_chain params of Inl e \<Rightarrow> (Inl (failed e), b, h) | Inr _ \<Rightarrow>
      case cx_wallet ctx of None \<Rightarrow> (Inl (failed ''Wallet not loaded. Please re-import your mnemonic.''), b, h) | Some w \<Rightarrow>
      case assertNotConnected ''starting a new connection'' b of Inl e \<Rightarrow> (Inl (failed e), b, h) | Inr _ \<Rightarrow>
      case buy_chain c ctx w params h of
        (Inl e, h') \<Rightarrow> (Inl e, recorded h h' b, h')
      | (Inr r, h') \<Rightarrow>
          (Inr (cr_entrySessionId r, cr_exitSessionId r, cr_configString r),
           finish_subscribe_chain (node_of (jget ''entry'' params)) (node_of (jget ''exit'' params)) (kind_of params)
             (int_of ''amount'' params) r (rows h') (recorded h h' b), h'))"

section \<open>What it promises\<close>

definition chain_terms :: "chain_io \<Rightarrow> chain_ctx \<Rightarrow> js \<Rightarrow> book \<Rightarrow> history \<Rightarrow> wallet_keys \<Rightarrow> chain_signer \<Rightarrow> bool" where
  "chain_terms c ctx params b h w s2 \<longleftrightarrow>
     (let entry = node_of (jget ''entry'' params); exit = node_of (jget ''exit'' params);
          entryCost = hop_cost params (jget ''entry'' params); exitCost = hop_cost params (jget ''exit'' params) in
      cx_wallet ctx = Some w \<and> \<not> connectionIsLive b \<and>
      hp_nodeAddress entry \<noteq> hp_nodeAddress exit \<and> hp_nodeType entry \<in> {2, 4} \<and> hp_nodeType exit \<in> {2, 4} \<and>
      (e_signedOnly (c_env c) h \<longrightarrow> (\<exists>v. cx_version ctx (hp_nodeAddress exit) = Some v \<and> versionSignsReplies v)) \<and>
      (case exit_wallet ctx params of
         None \<Rightarrow> s2 = signer_of w (cx_walletId ctx) \<and> funded c h (wk_account w) (entryCost + exitCost)
       | Some i \<Rightarrow> (\<exists>creds. cx_keys ctx i = Inr creds \<and> s2 = signer_of creds (Some i)) \<and>
           funded c h (wk_account w) entryCost \<and> funded c h (cg_account s2) exitCost))"

text \<open>The handler's answer against what the purchase added to the history.\<close>

definition chain_outcome ::
  "env \<Rightarrow> history \<Rightarrow> failure + string \<times> string \<times> string \<Rightarrow> string \<Rightarrow> string \<Rightarrow> book \<Rightarrow> history \<Rightarrow> bool" where
  "chain_outcome env before out a1 a2 b' bought \<longleftrightarrow>
     (case out of
        Inr (i, x, config) \<Rightarrow> evs buys bought = [(a1, i), (a2, x)] \<and> evs cancels bought = [] \<and> evs misses bought = [] \<and>
          b_session b' = Some i \<and> b_exitSession b' = Some x \<and> b_xray b' = Some config \<and>
          b_quota b' \<noteq> None \<and> b_exitQuota b' \<noteq> None
      | Inl e \<Rightarrow> evs cancels bought = evs buys bought \<and> one_miss env before (error_message (f_value e)) bought \<and>
          (\<forall>a i. NotCancelled a i \<in> set bought \<longrightarrow> contains (''#'' @ i) (error_message (f_value e))))"

lemma check_hop_ok: "check_hop role hop = Inr u \<Longrightarrow> hp_nodeType (node_of hop) \<in> {2, 4}"
  by (auto simp: check_hop_def and_then_eq_ok node_of_def int_of_def chainable_def split: if_splits)

lemma check_chain_ok:
  assumes "check_chain params = Inr u"
  shows "hp_nodeAddress (node_of (jget ''entry'' params)) \<noteq> hp_nodeAddress (node_of (jget ''exit'' params))"
    and "hp_nodeType (node_of (jget ''entry'' params)) \<in> {2, 4}" and "hp_nodeType (node_of (jget ''exit'' params)) \<in> {2, 4}"
  using assms check_hop_ok [of "''entry''"] check_hop_ok [of "''exit''"]
  by (auto simp: check_chain_def and_then_eq_ok node_of_def split: if_splits)

lemma adds_funds [adds_intro]: "adds F (assertSufficientFunds c a cost)" "adds F (assertSufficientFundsFor c a cost)"
  unfolding assertSufficientFunds_def assertSufficientFundsFor_def Let_def
  by (intro adds_intro; auto intro!: adds_intro split: option.split)+

lemma adds_checks: "adds (\<lambda>e. e = Asked Direct (hp_apiField (node_of (jget ''entry'' params)))) (chain_checks c ctx w params)"
  unfolding chain_checks_def exit_signs_def check_chain_funds_def Let_def
  by (intro adds_intro) (auto intro!: adds_intro)

lemma funds_ok:
  "assertSufficientFunds c a cost h = (Inr u, h') \<Longrightarrow> funded c h a cost \<and> h' = h"
  "assertSufficientFundsFor c a cost h = (Inr u, h') \<Longrightarrow> funded c h a cost \<and> h' = h"
  by (auto simp: assertSufficientFunds_def assertSufficientFundsFor_def funded_def seq_ok run Let_def checkFunds_def
      split: option.splits if_splits)

lemma empty_version: "\<not> versionSignsReplies ''''"
  by (simp add: versionSignsReplies_def version_numbers_def trim_def trim_start_def trim_end_def Let_def)

lemma chain_checks_ok:
  assumes "chain_checks c ctx w params h = (Inr s2, h')"
    and "check_chain params = Inr u" "cx_wallet ctx = Some w" "\<not> connectionIsLive b"
  shows "chain_terms c ctx params b h' w s2"
proof -
  let ?exit = "node_of (jget ''exit'' params)"
  obtain h1 h2 where signs: "exit_signs (c_env c) ctx ?exit h1 = (Inr (), h2)"
    and signer: "exit_signer ctx w params = Inr s2"
    and funds: "check_chain_funds c ctx w s2 params h2 = (Inr (), h')"
    using assms(1) by (auto simp: chain_checks_def seq_ok run lift_ok Let_def)
  have h2: "h2 = h1" and sig: "e_signedOnly (c_env c) h1 \<longrightarrow> (\<exists>v. cx_version ctx (hp_nodeAddress ?exit) = Some v \<and> versionSignsReplies v)"
    using signs empty_version
    by (cases "cx_version ctx (hp_nodeAddress ?exit)"; auto simp: exit_signs_def seq_def run split: if_splits)+
  have h': "h' = h1" and paid: "case exit_wallet ctx params of
       None \<Rightarrow> funded c h1 (wk_account w) (hop_cost params (jget ''entry'' params) + hop_cost params (jget ''exit'' params))
     | Some i \<Rightarrow> funded c h1 (wk_account w) (hop_cost params (jget ''entry'' params)) \<and>
         funded c h1 (cg_account s2) (hop_cost params (jget ''exit'' params))"
    using funds unfolding h2
    by (cases "exit_wallet ctx params"; auto simp: check_chain_funds_def Let_def seq_ok dest!: funds_ok)+
  have "case exit_wallet ctx params of None \<Rightarrow> s2 = signer_of w (cx_walletId ctx)
      | Some i \<Rightarrow> \<exists>creds. cx_keys ctx i = Inr creds \<and> s2 = signer_of creds (Some i)"
    using signer by (auto simp: exit_signer_def and_then_eq_ok split: option.splits)
  with sig paid show ?thesis
    using check_chain_ok [OF assms(2)] assms(3,4)
    unfolding chain_terms_def Let_def h' by (auto split: option.splits)
qed

lemma signer_account [simp]: "cg_account (signer_of w i) = wk_account w"
  by (simp add: signer_of_def)

lemma finish_chain_book:
  "b_session (finish_subscribe_chain entry exit kind amount r rows b) = Some (cr_entrySessionId r)"
  "b_exitSession (finish_subscribe_chain entry exit kind amount r rows b) = Some (cr_exitSessionId r)"
  "b_xray (finish_subscribe_chain entry exit kind amount r rows b) = Some (cr_configString r)"
  "b_quota (finish_subscribe_chain entry exit kind amount r rows b) \<noteq> None"
  "b_exitQuota (finish_subscribe_chain entry exit kind amount r rows b) \<noteq> None"
  by (simp_all add: finish_subscribe_chain_def Let_def applyChainSession_def setQuota_def split: option.splits)

text \<open>C2. Buying a chain (CONNECTION_SUBSCRIBE_CHAIN) spends nothing before its terms hold: two different
  V2Ray or Xray nodes, no live connection, an exit whose version in the directory signs its replies when
  only signed nodes are wanted, and a balance, wherever it can be read, that covers each hop in the account that
  pays for it, both hops in one account when one pays for both. Until then the entry alone has been asked
  anything. From then on the exit hears only from the entry (unless its directory address is a plain http
  one, when the checks of it go there directly), the entry's handshake is posted to an address that follows from
  what the chain answered about the entry in this very purchase, and the handler either returns both sessions,
  bought in order by their two accounts and entered in the session book with a quota each, or fails. When it fails,
  every session it was sold has been cancelled by the account that paid, or is named in the error; at most one hop
  was asked for and not sold, nothing is bought after it, and the error says why (the transaction of such a sale may be
  pending or even have landed: the event records which, and no cancel follows). The chain hands out fresh session ids.\<close>

theorem chain_purchase_guarded:
  assumes fresh: "fresh_sessions (chain_env c params)"
    and run: "connection_subscribe_chain c ctx rows params b h = (out, b', h')"
  shows "\<exists>asked bought. h' = h @ asked @ bought \<and>
     (\<forall>e \<in> set asked. e = Asked Direct (hp_apiField (node_of (jget ''entry'' params)))) \<and>
     (bought = [] \<and> (\<exists>e. out = Inl e) \<or>
      (\<exists>w s2. chain_terms c ctx params b (h @ asked) w s2 \<and>
         proxy_use bought = (False, True) \<and> contacts_ok (chain_env c params) (node_of (jget ''entry'' params)) bought \<and>
         chain_outcome (chain_env c params) (h @ asked) out (wk_account w) (cg_account s2) b' bought))"
proof (cases "check_chain params = Inr () \<and> (\<exists>w. cx_wallet ctx = Some w) \<and> \<not> connectionIsLive b")
  case False
  then have "h' = h \<and> (\<exists>e. out = Inl e)"
    using run by (cases "check_chain params")
      (auto simp: connection_subscribe_chain_def assertNotConnected_def Let_def split: option.splits)
  then show ?thesis by (intro exI [of _ "[]"]) simp
next
  case True
  then obtain w where ok: "check_chain params = Inr ()" "cx_wallet ctx = Some w" "\<not> connectionIsLive b" by blast
  let ?s1 = "signer_of w (cx_walletId ctx)"
  let ?buy = "establishChainOrRefund (chain_env c params) (node_of (jget ''entry'' params)) (node_of (jget ''exit'' params)) ?s1"
  obtain r h1 where checks: "chain_checks c ctx w params h = (r, h1)" by fastforce
  from addsD [OF adds_checks checks] obtain asked where h1: "h1 = h @ asked"
    and asked: "\<forall>e \<in> set asked. e = Asked Direct (hp_apiField (node_of (jget ''entry'' params)))"
    by (auto simp: list_all_iff)
  show ?thesis
  proof (cases r)
    case (Inl e)
    then have "h' = h1 \<and> (\<exists>e. out = Inl e)"
      using run checks by (auto simp: connection_subscribe_chain_def ok assertNotConnected_def buy_chain_def seq_def)
    with h1 asked show ?thesis by (intro exI [of _ asked] exI [of _ "[]"]) simp
  next
    case (Inr s2)
    note checks = checks [unfolded Inr]
    obtain res h2 where buy: "?buy s2 h1 = (res, h2)" by fastforce
    obtain bought where bought: "h2 = h1 @ bought" "proxy_use bought = (False, True)"
        "contacts_ok (chain_env c params) (node_of (jget ''entry'' params)) bought" "settled (chain_env c params) h1 res ?s1 s2 bought"
      using chain_over [OF buy] fresh by blast
    have "chain_terms c ctx params b h1 w s2" by (rule chain_checks_ok [OF checks ok])
    moreover have "h' = h2 \<and> chain_outcome (chain_env c params) h1 out (wk_account w) (cg_account s2) b' bought"
      using run bought(4) unfolding connection_subscribe_chain_def buy_chain_def
      by (cases res) (auto simp: ok assertNotConnected_def seq_def checks buy settled_def chain_outcome_def
          finish_chain_book)
    ultimately show ?thesis using bought asked unfolding h1 by (intro exI [of _ asked] exI [of _ bought]) auto
  qed
qed

section \<open>A purchase to evaluate it on\<close>

text \<open>Two wallets; the entry is bought, then its address turns out unusable and its cancel does not land.\<close>

definition chain_sample_env :: env where
  "chain_sample_env = sample_env\<lparr>e_safeUrl := \<lambda>_. False, e_signedOnly := \<lambda>_. False, e_serviceType := \<lambda>_ _ _. ok (JNum (NInt 4)),
     e_inbounds := \<lambda>_ _ _. ok (JArr [JObj [(''proxy_protocol'', JNum (NInt 1)), (''transport_protocol'', JNum (NInt 1)),
       (''transport_security'', JNum (NInt 3))]])\<rparr>"

definition chain_sample :: chain_io where
  "chain_sample = sample_chain\<lparr>c_env := chain_sample_env,
     c_node := \<lambda>_ _. ok \<lparr>cn_gigabytePrices = [\<lparr>pc_denom = ''udvpn'', pc_baseValue = ''0'', pc_quoteValue = ''5''\<rparr>],
       cn_hourlyPrices = [], cn_remoteAddrs = [''https://n'']\<rparr>,
     c_send := \<lambda>h _ _ _. Included \<lparr>tx_code = 0, tx_rawLog = None,
       tx_events = [\<lparr>ce_type = ''node'', ce_attributes = [(''id'', concat (map snd (evs buys h)) @ ''1'')]\<rparr>]\<rparr>,
     c_nodeSession := \<lambda>e. map_of (ce_attributes e) ''id''\<rparr>"

definition chain_sample_hop :: "char \<Rightarrow> js" where
  "chain_sample_hop c = JObj [(''nodeAddress'', JStr (''sentnode1'' @ replicate 38 c)), (''nodeMoniker'', JStr ''m''),
     (''nodeCountry'', JStr ''c''), (''nodeType'', JNum (NInt 4)), (''apiField'', JStr ''u''), (''quoteValue'', JStr ''5'')]"

definition chain_sample_params :: js where
  "chain_sample_params = JObj [(''type'', JStr ''gigabytes''), (''amount'', JNum (NInt 2)), (''denom'', JStr ''udvpn''),
     (''exitWalletId'', JStr ''w2''), (''entry'', chain_sample_hop CHR ''a''), (''exit'', chain_sample_hop CHR ''b'')]"

definition chain_sample_ctx :: chain_ctx where
  "chain_sample_ctx = \<lparr>cx_wallet = Some \<lparr>wk_account = ''me'', wk_privKey = []\<rparr>, cx_walletId = Some ''w1'',
     cx_keys = (\<lambda>_. ok \<lparr>wk_account = ''other'', wk_privKey = []\<rparr>), cx_version = (\<lambda>_. None)\<rparr>"

lemma chain_sample_checked: "check_chain chain_sample_params = Inr ()"
  by code_simp

lemma chain_sample_fresh: "fresh_sessions (chain_env chain_sample chain_sample_params)"
  unfolding fresh_sessions_def
proof (intro allI impI)
  fix h node account i assume "e_buy (chain_env chain_sample chain_sample_params) h node account = Inr i"
  then have "i = concat (map snd (evs buys h)) @ ''1''"
    by (auto simp: chain_env_def Let_def noting_def catching_def subscribeToNode_def seq_def run lift_def queryNodeOnChain_def
        signing_height_def send_tx_def chain_sample_def sample_chain_def opened_session_def seen_def broadcastOrTimeout_def
        assertTxSucceeded_def remoteUrlFromNode_def node_price_def buys_def split: prod.splits sum.splits if_splits)
  then show "i \<notin> snd ` set (evs buys h)"
    using length_concat_ge [of i "map snd (evs buys h)"] by auto
qed

lemma chain_sample_fields:
  "node_of (jget ''entry'' chain_sample_params) = \<lparr>hp_nodeAddress = ''sentnode1'' @ replicate 38 CHR ''a'', hp_nodeType = 4,
     hp_apiField = ''u'', hp_nodeMoniker = ''m'', hp_nodeCountry = ''c''\<rparr>"
  "node_of (jget ''exit'' chain_sample_params) = \<lparr>hp_nodeAddress = ''sentnode1'' @ replicate 38 CHR ''b'', hp_nodeType = 4,
     hp_apiField = ''u'', hp_nodeMoniker = ''m'', hp_nodeCountry = ''c''\<rparr>"
  "exit_wallet chain_sample_ctx chain_sample_params = Some ''w2''" "full_tunnel chain_sample_params"
  by (simp_all add: node_of_def chain_sample_params_def chain_sample_hop_def str_of_def int_of_def exit_wallet_def
      chain_sample_ctx_def full_tunnel_def)

lemma chain_sample_keys: "cx_keys chain_sample_ctx i = Inr \<lparr>wk_account = ''other'', wk_privKey = []\<rparr>"
  by (simp add: chain_sample_ctx_def)

lemma chain_sample_allowed:
  "chain_checks chain_sample chain_sample_ctx \<lparr>wk_account = ''me'', wk_privKey = []\<rparr> chain_sample_params [] =
     (Inr (signer_of \<lparr>wk_account = ''other'', wk_privKey = []\<rparr> (Some ''w2'')), [Asked Direct ''u'', Asked Direct ''u''])"
proof -
  have e: "c_env chain_sample = chain_sample_env" by (simp add: chain_sample_def)
  have "preflightConnect chain_sample_env 4 ''u'' True Direct [] = (Inr (), [Asked Direct ''u''])"
    by (simp add: preflightConnect_def NODE_TYPE_TO_PROTOCOL_def check_runtime_def root_label_def node_reports_def catching_def
        askNode_def seq_def run chain_sample_env_def sample_env_def serviceTypeToNodeType_def)
  moreover have "assertChainEligible chain_sample_env (node_of (jget ''entry'' chain_sample_params)) Entry Direct [Asked Direct ''u''] =
      (Inr (), [Asked Direct ''u'', Asked Direct ''u''])"
    by (simp add: assertChainEligible_def catching_def askNode_def seq_def run chain_sample_env_def Let_def chain_sample_fields
        classifyHopEligibility_def hop_kind_def transportName_def XRAY_TRANSPORT_def NETWORK_BY_TRANSPORT_def isChainGradeSecurity_def
        hop_of_js_def num_def SECURITY_REALITY_def SECURITY_TLS_def)
  ultimately show ?thesis
    by (simp add: chain_checks_def Let_def e chain_sample_fields seq_def exit_signs_def run exit_signer_def check_chain_funds_def
        assertSufficientFunds_def assertSufficientFundsFor_def)
      (simp add: chain_sample_env_def chain_sample_ctx_def chain_sample_def sample_chain_def run)
qed

lemma chain_sample_bought:
  "e_buy (chain_env chain_sample chain_sample_params) [Asked Direct ''u'', Asked Direct ''u''] node ''me'' = Inr ''1''"
  by (auto simp: chain_env_def Let_def noting_def catching_def subscribeToNode_def seq_def run lift_def queryNodeOnChain_def
      signing_height_def send_tx_def chain_sample_def sample_chain_def opened_session_def seen_def broadcastOrTimeout_def
      assertTxSucceeded_def remoteUrlFromNode_def node_price_def buys_def chain_sample_params_def kind_of_def str_of_def
      split: prod.splits sum.splits if_splits)

lemma chain_sample_run:
  "\<exists>e b'. connection_subscribe_chain chain_sample chain_sample_ctx (\<lambda>_. None) chain_sample_params empty_book [] =
     (Inl e, b', [Asked Direct ''u'', Asked Direct ''u'', Bought (''sentnode1'' @ replicate 38 CHR ''a'') ''me'' ''1'',
        ReadRow (''sentnode1'' @ replicate 38 CHR ''a'') None, NotCancelled ''me'' ''1''])"
proof -
  have env: "e_nodeRow (chain_env chain_sample chain_sample_params) = (\<lambda>_ _. None)"
    "e_safeUrl (chain_env chain_sample chain_sample_params) = (\<lambda>_. False)"
    "e_cancel (chain_env chain_sample chain_sample_params) = (\<lambda>_ _ _. False)"
    by (simp_all add: chain_env_def chain_sample_def chain_sample_env_def sample_env_def)
  have wallet: "cx_wallet chain_sample_ctx = Some \<lparr>wk_account = ''me'', wk_privKey = []\<rparr>" by (simp add: chain_sample_ctx_def)
  show ?thesis
    by (simp add: connection_subscribe_chain_def chain_sample_checked wallet assertNotConnected_def connectionIsLive_def empty_book_def
        buy_chain_def seq_def chain_sample_allowed chain_sample_fields establishChainOrRefund_def chain_body_def chain_entry_def
        next_act_def assign_def doing_def startSession_def run chain_sample_bought resolveNodeRemoteUrl_def remoteUrlFromNode_def env
        refundSessions_def cancelSession_def stop_proxy_def Let_def)
qed

theorem chain_purchase_guarded_witness:
  "\<exists>asked bought w s2. asked @ bought = [Asked Direct ''u'', Asked Direct ''u'', Bought (''sentnode1'' @ replicate 38 CHR ''a'') ''me'' ''1'',
       ReadRow (''sentnode1'' @ replicate 38 CHR ''a'') None, NotCancelled ''me'' ''1''] \<and>
     chain_terms chain_sample chain_sample_ctx chain_sample_params empty_book asked w s2 \<and> cg_account s2 = ''other'' \<and>
     evs cancels bought = [(''me'', ''1'')]"
proof -
  obtain e b' where run: "connection_subscribe_chain chain_sample chain_sample_ctx (\<lambda>_. None) chain_sample_params empty_book [] =
     (Inl e, b', [Asked Direct ''u'', Asked Direct ''u'', Bought (''sentnode1'' @ replicate 38 CHR ''a'') ''me'' ''1'',
        ReadRow (''sentnode1'' @ replicate 38 CHR ''a'') None, NotCancelled ''me'' ''1''])"
    using chain_sample_run by blast
  from chain_purchase_guarded [OF chain_sample_fresh run] obtain asked bought where
    h: "[Asked Direct ''u'', Asked Direct ''u'', Bought (''sentnode1'' @ replicate 38 CHR ''a'') ''me'' ''1'',
       ReadRow (''sentnode1'' @ replicate 38 CHR ''a'') None, NotCancelled ''me'' ''1''] = asked @ bought"
    and only: "\<forall>e \<in> set asked. e = Asked Direct (hp_apiField (node_of (jget ''entry'' chain_sample_params)))"
    and out: "bought = [] \<or> (\<exists>w s2. chain_terms chain_sample chain_sample_ctx chain_sample_params empty_book asked w s2 \<and>
       chain_outcome (chain_env chain_sample chain_sample_params) asked (Inl e) (wk_account w) (cg_account s2) b' bought)"
    by auto
  have "bought \<noteq> []"
  proof
    assume "bought = []"
    with h have "NotCancelled ''me'' ''1'' \<in> set asked" by (metis append_Nil2 list.set_intros)
    with only show False by blast
  qed
  then obtain w s2 where t: "chain_terms chain_sample chain_sample_ctx chain_sample_params empty_book asked w s2"
    and o: "chain_outcome (chain_env chain_sample chain_sample_params) asked (Inl e) (wk_account w) (cg_account s2) b' bought" using out by blast
  have "evs cancels (asked @ bought) = [(''me'', ''1'')]" unfolding h [symmetric] by (simp add: cancels_def)
  then have "evs cancels bought = [(''me'', ''1'')]"
  proof -
    have "cancels e = []" if "e \<in> set asked" for e
      using only [rule_format, OF that] by (simp add: cancels_def)
    then have "evs cancels asked = []" by (intro evs_quiet) (simp add: list_all_iff)
    with \<open>evs cancels (asked @ bought) = _\<close> show ?thesis by simp
  qed
  moreover have "cg_account s2 = ''other''"
    using t by (auto simp: chain_terms_def Let_def chain_sample_fields chain_sample_keys)
  ultimately show ?thesis using t h [symmetric] by blast
qed

end
