(* ===== verification/Nodes.thy ===== *)
theory Nodes
  imports Purchase Validate "HOL-Library.AList" "HOL-Library.Multiset"
begin

text \<open>
  What the app knows about nodes: the directory of the aggregator (\<open>src/main/nodes/node-normalize.ts\<close>,
  \<open>nodes-cache.ts\<close>, \<open>src/main/disk-cache.ts\<close> and the feed of \<open>src/main/ipc-handlers.ts\<close>) and what a node says
  about itself (\<open>src/main/nodes/node-tester.ts\<close>, the grading of \<open>src/main/ipc/diagnostics.ts\<close>): probes, the
  short memory of root reads keyed by route, and the batch of probes. Pages, answers and clock readings are
  arguments.
\<close>

section \<open>The feed\<close>

definition TEXT_FIELDS :: "string list" where
  "TEXT_FIELDS = [''moniker'', ''version'', ''api'', ''asn'', ''country'', ''city'']"

definition normalize_node :: "js \<Rightarrow> js" where
  "normalize_node entry =
     fold (\<lambda>field node. if jget field node = JNull \<or> jget field node = JUndef then jset field (JStr '''') node else node)
       TEXT_FIELDS (spread entry)"

definition normalizeNodes :: "js list \<Rightarrow> js list" where
  "normalizeNodes raw = map normalize_node raw"

record nodes_page =
  np_nodes :: "js list"
  np_lastPage :: int

definition parseNodesPage :: "js \<Rightarrow> nodes_page result" where
  "parseNodesPage body =
     (if \<not> is_object body \<or> jget ''success'' body \<noteq> JBool True then throw ''Invalid response from node API''
      else let data = jget ''data'' body in
        if is_array data then ok \<lparr>np_nodes = elems data, np_lastPage = 1\<rparr>
        else if \<not> is_object data \<or> \<not> is_array (jget ''nodes'' data) then throw ''Invalid response from node API''
        else ok \<lparr>np_nodes = elems (jget ''nodes'' data),
               np_lastPage = (case jget ''lastPage'' (jget ''pagination'' data) of
                   JNum (NInt n) \<Rightarrow> if n > 0 then n else 1
                 | _ \<Rightarrow> 1)\<rparr>)"

definition MAX_NODE_PAGES :: int where "MAX_NODE_PAGES = 50"

text \<open>\<open>Promise.all\<close>: every page, or the first error.\<close>

fun all_pages :: "(int \<Rightarrow> nodes_page result) \<Rightarrow> int list \<Rightarrow> nodes_page list result" where
  "all_pages fetch [] = ok []"
| "all_pages fetch (p # ps) = and_then (fetch p) (\<lambda>x. and_then (all_pages fetch ps) (\<lambda>xs. ok (x # xs)))"

definition fetchNodesPage :: "(int \<Rightarrow> js result) \<Rightarrow> int \<Rightarrow> nodes_page result" where
  "fetchNodesPage ask page = and_then (ask page) parseNodesPage"

text \<open>What a session row and a smart connect take from the directory. A field of another type than the
  feed declares reads as absent.\<close>

record node_entry =
  ne_address :: string
  ne_moniker :: string
  ne_country :: string
  ne_type :: int
  ne_api :: string
  ne_isActive :: bool
  ne_isHealthy :: bool
  ne_version :: string

definition text_at :: "string \<Rightarrow> js \<Rightarrow> string" where
  "text_at k n = (case as_string (jget k n) of None \<Rightarrow> '''' | Some s \<Rightarrow> s)"

definition toCachedNodeMeta :: "js list \<Rightarrow> node_entry list" where
  "toCachedNodeMeta nodes =
     map (\<lambda>n. \<lparr>ne_address = text_at ''address'' n, ne_moniker = text_at ''moniker'' n, ne_country = text_at ''country'' n,
         ne_type = (case as_int (jget ''type'' n) of None \<Rightarrow> 0 | Some t \<Rightarrow> t), ne_api = text_at ''api'' n,
         ne_isActive = (jget ''isActive'' n = JBool True), ne_isHealthy = (jget ''isHealthy'' n = JBool True),
         ne_version = text_at ''version'' n\<rparr>)
       (filter (\<lambda>n. text_at ''address'' n \<noteq> '''') nodes)"

text \<open>The directory in memory, its projection, and the file.\<close>

record directory =
  dr_nodes :: "(js list \<times> int) option"
  dr_entries :: "node_entry list"
  dr_file :: "js option"

definition disk_load :: "string \<Rightarrow> js option \<Rightarrow> (js list \<times> int) option" where
  "disk_load field file =
     (case file of
        None \<Rightarrow> None
      | Some parsed \<Rightarrow>
          (case (jget field parsed, jget ''fetchedAt'' parsed) of
             (JArr items, JNum (NInt t)) \<Rightarrow> Some (items, t)
           | _ \<Rightarrow> None))"

definition disk_save :: "string \<Rightarrow> js list \<Rightarrow> int \<Rightarrow> js option \<Rightarrow> js option" where
  "disk_save field items fetchedAt file = Some (JObj [(field, JArr items), (''fetchedAt'', JNum (NInt fetchedAt))])"

definition fetchNodes :: "(int \<Rightarrow> js result) \<Rightarrow> int \<Rightarrow> directory \<Rightarrow> js list result \<times> directory" where
  "fetchNodes ask now d =
     (case and_then (fetchNodesPage ask 1) (\<lambda>first.
            and_then (all_pages (fetchNodesPage ask) [2..min (np_lastPage first) MAX_NODE_PAGES]) (\<lambda>rest.
            ok (normalizeNodes (concat (map np_nodes (first # rest)))))) of
        Inl e \<Rightarrow> (Inl e, d)
      | Inr nodes \<Rightarrow>
          (Inr nodes, \<lparr>dr_nodes = Some (nodes, now), dr_entries = toCachedNodeMeta nodes,
             dr_file = disk_save ''nodes'' nodes now (dr_file d)\<rparr>))"

definition bootstrapNodesCache :: "directory \<Rightarrow> directory" where
  "bootstrapNodesCache d =
     (case disk_load ''nodes'' (dr_file d) of
        None \<Rightarrow> d
      | Some (nodes, t) \<Rightarrow>
          d\<lparr>dr_nodes := Some (normalizeNodes nodes, t), dr_entries := toCachedNodeMeta (normalizeNodes nodes)\<rparr>)"

definition getNodeMeta :: "directory \<Rightarrow> string \<Rightarrow> string \<times> string \<times> int" where
  "getNodeMeta d nodeAddress =
     (case find (\<lambda>n. ne_address n = nodeAddress) (dr_entries d) of
        None \<Rightarrow> ('''', '''', 0)
      | Some n \<Rightarrow> (ne_moniker n, ne_country n, ne_type n))"

section \<open>Asking a node\<close>

text \<open>One request: what the node answered, with its status, its body as JSON (or the parser's error)
  and the header that announces signed replies, or the error it ended with.\<close>

record node_answer =
  na_status :: int
  na_json :: "js result"
  na_signing :: "string option"

datatype route = Straight | Through nat

definition trim_slashes :: "string \<Rightarrow> string" where
  "trim_slashes s = rev (dropWhile (\<lambda>c. c = CHR ''/'') (rev s))"

definition root_url :: "string \<Rightarrow> string" where
  "root_url remoteUrl =
     trim_slashes (if starts_with ''http'' remoteUrl then remoteUrl else ''https://'' @ remoteUrl) @ ''/''"

record probe_result =
  pb_nodeAddress :: string
  pb_timestamp :: int
  pb_reachable :: bool
  pb_latencyMs :: "int option"
  pb_error :: "string option"

type_synonym probe_cache = "string \<rightharpoonup> probe_result"

definition CACHE_TTL :: int where "CACHE_TTL = 600000"

definition getAllCachedResults :: "int \<Rightarrow> probe_cache \<Rightarrow> probe_cache" where
  "getAllCachedResults now cache = (\<lambda>a. case cache a of
       Some r \<Rightarrow> if now - pb_timestamp r \<le> CACHE_TTL then Some r else None
     | None \<Rightarrow> None)"

definition ok_status :: "int \<Rightarrow> bool" where
  "ok_status s \<longleftrightarrow> 200 \<le> s \<and> s < 300"

text \<open>\<open>latency\<close> is the rounded time the request took. The error of a timeout already reads so.\<close>

definition probe_verdict :: "string \<Rightarrow> int \<Rightarrow> int \<Rightarrow> node_answer result \<Rightarrow> probe_result" where
  "probe_verdict nodeAddress timestamp latency answer =
     (let failed = (\<lambda>m. \<lparr>pb_nodeAddress = nodeAddress, pb_timestamp = timestamp, pb_reachable = False, pb_latencyMs = None,
            pb_error = Some m\<rparr>) in
      case answer of
        Inl m \<Rightarrow> failed (if contains ''abort'' m \<or> contains ''timeout'' m \<or> contains ''TimeoutError'' m then ''Timeout'' else m)
      | Inr a \<Rightarrow>
          if \<not> ok_status (na_status a) then failed (''HTTP '' @ show_int (na_status a))
          else if (case na_json a of Inr j \<Rightarrow> jget ''success'' j = JBool False | Inl _ \<Rightarrow> False)
          then (failed ''Node reports unhealthy'')\<lparr>pb_latencyMs := Some latency\<rparr>
          else \<lparr>pb_nodeAddress = nodeAddress, pb_timestamp = timestamp, pb_reachable = True, pb_latencyMs = Some latency,
             pb_error = None\<rparr>)"

definition probeNode ::
  "(string \<Rightarrow> node_answer result) \<Rightarrow> int \<Rightarrow> int \<Rightarrow> js \<Rightarrow> string \<Rightarrow> probe_cache \<Rightarrow> probe_result \<times> probe_cache" where
  "probeNode ask now latency remoteUrl nodeAddress cache =
     (let r = (case as_string remoteUrl of
            Some u \<Rightarrow>
              if trim u = '''' then \<lparr>pb_nodeAddress = nodeAddress, pb_timestamp = now, pb_reachable = False,
                pb_latencyMs = None, pb_error = Some ''No API endpoint''\<rparr>
              else probe_verdict nodeAddress now latency (ask (root_url u))
          | None \<Rightarrow> \<lparr>pb_nodeAddress = nodeAddress, pb_timestamp = now, pb_reachable = False, pb_latencyMs = None,
              pb_error = Some ''No API endpoint''\<rparr>)
      in (r, cache(nodeAddress \<mapsto> r)))"

section \<open>What a node says of itself\<close>

record root_info =
  ri_serviceType :: js
  ri_metadata :: js
  ri_signs :: bool

text \<open>The short memory of root reads: the key is the route and the address, the value when the read was
  started and what it returned. An agent is the number \<open>agentIds\<close> gives it at its first use.\<close>

type_synonym root_memo = "(string \<times> int \<times> root_info) list"

definition ROOT_MEMO_MS :: int where "ROOT_MEMO_MS = 5000"

fun routeKey :: "route \<Rightarrow> string" where
  "routeKey Straight = ''direct''"
| "routeKey (Through i) = ''via'' @ show_nat i"

definition memo_key :: "route \<Rightarrow> string \<Rightarrow> string" where
  "memo_key r url = routeKey r @ CHR '' '' # url"

definition root_info_of :: "node_answer \<Rightarrow> root_info result" where
  "root_info_of a =
     (if \<not> ok_status (na_status a) then throw (''Node returned HTTP '' @ show_int (na_status a))
      else and_then (na_json a) (\<lambda>json.
        if json = JNull then throw ''Cannot read properties of null''
        else let result = jget ''result'' json in
          ok \<lparr>ri_serviceType = jget ''service_type'' result, ri_metadata = jget ''service_metadata'' result,
              ri_signs = (na_signing a = Some REPLY_SIGNING_SCHEME)\<rparr>))"

text \<open>\<open>nodeFetch\<close> hands the agent on for an \<open>https\<close> address only; a plain one is asked without it.\<close>

definition asked_by :: "route \<Rightarrow> string \<Rightarrow> route" where
  "asked_by r url = (if starts_with ''https'' url then r else Straight)"

definition fetchNodeRoot ::
  "(route \<Rightarrow> string \<Rightarrow> node_answer result) \<Rightarrow> int \<Rightarrow> route \<Rightarrow> js \<Rightarrow> root_memo \<Rightarrow> root_info result \<times> root_memo" where
  "fetchNodeRoot ask now r remoteUrl memo =
     (case as_string remoteUrl of
        None \<Rightarrow> (throw ''Node has no API endpoint'', memo)
      | Some u \<Rightarrow>
          if trim u = '''' then (throw ''Node has no API endpoint'', memo)
          else let key = memo_key r (root_url u) in
            case (case map_of memo key of
                Some (t, info) \<Rightarrow> if now - t < ROOT_MEMO_MS then Some info else None | None \<Rightarrow> None) of
              Some info \<Rightarrow> (ok info, memo)
            | None \<Rightarrow>
                (case and_then (ask (asked_by r (root_url u)) (root_url u)) root_info_of of
                   Inl e \<Rightarrow> (Inl e, memo)
                 | Inr info \<Rightarrow> (ok info, AList.update key (now, info) (if length memo > 200 then [] else memo))))"

definition fetchNodeServiceType where
  "fetchNodeServiceType ask now r remoteUrl memo =
     (case fetchNodeRoot ask now r remoteUrl memo of (res, memo') \<Rightarrow>
        (and_then res (\<lambda>info. if ri_serviceType info = JUndef then throw ''Node did not report a service type''
           else ok (ri_serviceType info)), memo'))"

definition fetchNodeServiceMetadata where
  "fetchNodeServiceMetadata ask now r remoteUrl memo =
     (case fetchNodeRoot ask now r remoteUrl memo of (res, memo') \<Rightarrow>
        (and_then res (\<lambda>info. if is_array (ri_metadata info) then ok (elems (ri_metadata info))
           else throw ''this node runs a version older than 9.0.0, which publishes no inbound list''), memo'))"

definition fetchNodeSignsReplies where
  "fetchNodeSignsReplies ask now r remoteUrl memo =
     (case fetchNodeRoot ask now r remoteUrl memo of (res, memo') \<Rightarrow> (and_then res (\<lambda>info. ok (ri_signs info)), memo'))"

section \<open>Grading nodes for a chain\<close>

record grade =
  gr_checkedAt :: int
  gr_reachable :: bool
  gr_graded :: hop_eligibility
  gr_error :: "string option"

definition CHAIN_ELIGIBILITY_TTL_MS :: int where "CHAIN_ELIGIBILITY_TTL_MS = 600000"
definition CHAIN_ELIGIBILITY_MAX_BATCH :: nat where "CHAIN_ELIGIBILITY_MAX_BATCH = 60"

definition no_grade :: hop_eligibility where
  "no_grade = \<lparr>he_transports = [], he_entry = False, he_exit = False, he_entrySecurity = None, he_exitSecurity = None\<rparr>"

text \<open>A node to grade: its address, where it is asked, and its protocol.\<close>

type_synonym asked_node = "string \<times> js \<times> int"

record grading =
  gd_memo :: root_memo
  gd_grades :: "string \<rightharpoonup> grade"

definition grade_node ::
  "(route \<Rightarrow> string \<Rightarrow> node_answer result) \<Rightarrow> int \<Rightarrow> int \<Rightarrow> int option \<Rightarrow> asked_node \<Rightarrow> grading \<Rightarrow> grade \<times> grading" where
  "grade_node ask now clock proxy n g =
     (case n of (nodeAddress, remoteUrl, nodeType) \<Rightarrow>
        case (case gd_grades g nodeAddress of
            Some c \<Rightarrow> if now - gr_checkedAt c < CHAIN_ELIGIBILITY_TTL_MS then Some c else None | None \<Rightarrow> None) of
          Some c \<Rightarrow> (c, g)
        | None \<Rightarrow>
            (case fetchNodeServiceMetadata ask clock (case proxy of None \<Rightarrow> Straight | Some agent \<Rightarrow> Through (nat agent)) remoteUrl (gd_memo g) of
               (res, memo) \<Rightarrow>
                 let c = (case res of
                     Inr listed \<Rightarrow> \<lparr>gr_checkedAt = clock, gr_reachable = True,
                       gr_graded = classifyHopEligibility (if nodeType = 4 then HopXray else HopV2Ray) (map hop_of_js listed),
                       gr_error = None\<rparr>
                   | Inl e \<Rightarrow> \<lparr>gr_checkedAt = clock, gr_reachable = False, gr_graded = no_grade, gr_error = Some e\<rparr>)
                 in (c, \<lparr>gd_memo = memo, gd_grades = (gd_grades g)(nodeAddress \<mapsto> c)\<rparr>)))"

fun grade_nodes ::
  "(route \<Rightarrow> string \<Rightarrow> node_answer result) \<Rightarrow> int \<Rightarrow> int \<Rightarrow> int option \<Rightarrow> asked_node list \<Rightarrow> grading \<Rightarrow> grade list \<times> grading" where
  "grade_nodes ask now clock proxy [] g = ([], g)"
| "grade_nodes ask now clock proxy (n # ns) g =
     (case grade_node ask now clock proxy n g of (c, g') \<Rightarrow>
        case grade_nodes ask now clock proxy ns g' of (cs, g'') \<Rightarrow> (c # cs, g''))"

definition asked_of :: "js \<Rightarrow> asked_node" where
  "asked_of n = (text_at ''nodeAddress'' n, jget ''remoteUrl'' n,
     case as_int (jget ''nodeType'' n) of None \<Rightarrow> 0 | Some t \<Rightarrow> t)"

definition check_probe_url :: "(string \<Rightarrow> url option) \<Rightarrow> js \<Rightarrow> unit result" where
  "check_probe_url parse_url remoteUrl =
     (case as_string remoteUrl of
        None \<Rightarrow> ok ()
      | Some u \<Rightarrow> if u \<noteq> '''' \<and> \<not> isSafeNodeApiUrl parse_url remoteUrl then throw ''Invalid node probe URL'' else ok ())"

definition check_graded :: "(string \<Rightarrow> url option) \<Rightarrow> js \<Rightarrow> unit result" where
  "check_graded parse_url n =
     and_then (assertString (jget ''nodeAddress'' n) ''nodeAddress'') (\<lambda>_.
     and_then (check_probe_url parse_url (jget ''remoteUrl'' n)) (\<lambda>_.
     if jget ''nodeType'' n = JNum (NInt 2) \<or> jget ''nodeType'' n = JNum (NInt 4) then ok ()
     else throw ''Only V2Ray (2) and XRAY (4) nodes can be chained''))"

definition NODE_CHAIN_ELIGIBILITY ::
  "(string \<Rightarrow> url option) \<Rightarrow> (route \<Rightarrow> string \<Rightarrow> node_answer result) \<Rightarrow> int \<Rightarrow> int \<Rightarrow> int option \<Rightarrow> js \<Rightarrow> grading \<Rightarrow>
     grade list result \<times> grading" where
  "NODE_CHAIN_ELIGIBILITY parse_url ask now clock proxy nodes g =
     (if \<not> is_array nodes \<or> elems nodes = [] then (throw ''Invalid nodes array'', g)
      else if length (elems nodes) > CHAIN_ELIGIBILITY_MAX_BATCH
      then (throw (''Too many nodes in one batch (max '' @ show_nat CHAIN_ELIGIBILITY_MAX_BATCH @ '')''), g)
      else case each (check_graded parse_url) (elems nodes) of
          Inl e \<Rightarrow> (Inl e, g)
        | Inr _ \<Rightarrow> (case grade_nodes ask now clock proxy (map asked_of (elems nodes)) g of (cs, g') \<Rightarrow> (ok cs, g')))"

section \<open>The batch of probes\<close>

text \<open>At most three workers, each taking the next node when its probe is over and stopping when the batch is
  cancelled or has no node left. \<open>bt_reported\<close> are the nodes whose progress was sent, in order.\<close>

record 'n batch =
  bt_left :: "'n list"
  bt_flying :: "'n list"
  bt_reported :: "'n list"
  bt_aborted :: bool

definition CONCURRENCY :: nat where "CONCURRENCY = 3"

definition startBatch :: "'n list \<Rightarrow> 'n batch" where
  "startBatch nodes = \<lparr>bt_left = drop CONCURRENCY nodes, bt_flying = take CONCURRENCY nodes, bt_reported = [], bt_aborted = False\<rparr>"

definition cancelBatch :: "'n batch \<Rightarrow> 'n batch" where
  "cancelBatch b = b\<lparr>bt_aborted := True\<rparr>"

text \<open>The probe of worker \<open>k\<close> is over.\<close>

definition probed :: "nat \<Rightarrow> 'n batch \<Rightarrow> 'n batch" where
  "probed k b =
     (let b1 = b\<lparr>bt_reported := bt_reported b @ [bt_flying b ! k]\<rparr>;
          others = take k (bt_flying b) @ drop (Suc k) (bt_flying b) in
      case bt_left b of
        [] \<Rightarrow> b1\<lparr>bt_flying := others\<rparr>
      | n # ns \<Rightarrow>
          if bt_aborted b then b1\<lparr>bt_flying := others\<rparr>
          else b1\<lparr>bt_flying := (bt_flying b)[k := n], bt_left := ns\<rparr>)"

definition check_test :: "(string \<Rightarrow> url option) \<Rightarrow> js \<Rightarrow> unit result" where
  "check_test parse_url n =
     and_then (assertString (jget ''nodeAddress'' n) ''nodeAddress'') (\<lambda>_. check_probe_url parse_url (jget ''remoteUrl'' n))"

definition NODE_TEST_PROBE ::
  "(string \<Rightarrow> url option) \<Rightarrow> (string \<Rightarrow> node_answer result) \<Rightarrow> int \<Rightarrow> int \<Rightarrow> js \<Rightarrow> probe_cache \<Rightarrow>
     probe_result result \<times> probe_cache" where
  "NODE_TEST_PROBE parse_url ask now latency params cache =
     (case check_test parse_url params of
        Inl e \<Rightarrow> (Inl e, cache)
      | Inr _ \<Rightarrow>
          (case probeNode ask now latency (jget ''remoteUrl'' params) (text_at ''nodeAddress'' params) cache of
             (r, cache') \<Rightarrow> (ok r, cache')))"

text \<open>A batch that replaces another leaves it cancelled: its workers go on in their own state.\<close>

definition NODE_TEST_BATCH :: "(string \<Rightarrow> url option) \<Rightarrow> js \<Rightarrow> js batch option \<Rightarrow> unit result \<times> js batch option \<times> js batch option" where
  "NODE_TEST_BATCH parse_url nodes current =
     (if \<not> is_array nodes \<or> elems nodes = [] then (throw ''Invalid nodes array'', current, None)
      else case each (check_test parse_url) (elems nodes) of
          Inl e \<Rightarrow> (Inl e, current, None)
        | Inr _ \<Rightarrow> (ok (), Some (startBatch (elems nodes)), map_option cancelBatch current))"

inductive batch_run :: "'n batch \<Rightarrow> nat \<Rightarrow> 'n batch \<Rightarrow> bool" for b where
  begun: "batch_run b 0 b"
| over: "batch_run b i c \<Longrightarrow> k < length (bt_flying c) \<Longrightarrow> batch_run b (Suc i) (probed k c)"
| stopped: "batch_run b i c \<Longrightarrow> batch_run b i (cancelBatch c)"

section \<open>An answer belongs to its route\<close>

text \<open>Whether a string key could stand for two routes: the route holds no space.\<close>

lemma show_nat_no_space: "CHR '' '' \<notin> set (show_nat n)"
proof
  assume "CHR '' '' \<in> set (show_nat n)"
  then have "is_digit (CHR '' '')" using show_nat_digits [of n] by (simp add: list_all_iff)
  then show False by (simp add: is_digit_code)
qed

lemma routeKey_no_space: "CHR '' '' \<notin> set (routeKey r)"
  using show_nat_no_space by (cases r) auto

lemma append_char_inj:
  assumes "c \<notin> set xs" "c \<notin> set ys" and "xs @ c # as = ys @ c # bs"
  shows "xs = ys \<and> as = bs"
  using assms
proof (induction xs arbitrary: ys)
  case Nil
  then show ?case by (cases ys) auto
next
  case (Cons x xs)
  then show ?case by (cases ys) auto
qed

lemma routeKey_inj: "routeKey r = routeKey r' \<Longrightarrow> r = r'"
proof -
  assume a: "routeKey r = routeKey r'"
  have "i = j" if "show_nat i = show_nat j" for i j using arg_cong [OF that, of read_nat] by simp
  with a show ?thesis by (cases r; cases r') auto
qed

lemma memo_key_inj: "memo_key r u = memo_key r' u' \<longleftrightarrow> r = r' \<and> u = u'"
  using append_char_inj [OF routeKey_no_space routeKey_no_space] routeKey_inj unfolding memo_key_def by blast

text \<open>Reads of any nodes by any routes, one after the other, with any answers and clock readings. \<open>answers\<close> holds
  the requests that were answered: the route they took, address, when the read started, and what it returned.\<close>

inductive reads :: "(route \<times> string \<times> int \<times> root_info) set \<Rightarrow> root_memo \<Rightarrow> bool" where
  launched: "reads {} []"
| answered_now: "reads answers memo \<Longrightarrow> fetchNodeRoot ask now r (JStr u) memo = (Inr info, memo') \<Longrightarrow> memo' \<noteq> memo \<Longrightarrow>
    reads (insert (asked_by r (root_url u), root_url u, now, info) answers) memo'"
| remembered: "reads answers memo \<Longrightarrow> fetchNodeRoot ask now r remoteUrl memo = (res, memo) \<Longrightarrow> reads answers memo"

definition routed :: "(route \<times> string \<times> int \<times> root_info) set \<Rightarrow> root_memo \<Rightarrow> bool" where
  "routed answers memo \<longleftrightarrow>
     (\<forall>key t info. (key, t, info) \<in> set memo \<longrightarrow> (\<exists>r url. key = memo_key r url \<and> (asked_by r url, url, t, info) \<in> answers))"

lemma update_entries: "(k, v) \<in> set (AList.update k' v' xs) \<Longrightarrow> (k, v) = (k', v') \<or> (k, v) \<in> set xs"
  by (induction xs) (auto split: if_splits)

lemma root_cases:
  assumes "fetchNodeRoot ask now r remoteUrl memo = (res, memo')"
  shows "memo' = memo \<and> (\<exists>e. res = Inl e) \<or>
    (\<exists>u. remoteUrl = JStr u \<and>
       ((\<exists>t info. res = Inr info \<and> memo' = memo \<and> now - t < ROOT_MEMO_MS \<and> (memo_key r (root_url u), t, info) \<in> set memo) \<or>
        (\<exists>a info. ask (asked_by r (root_url u)) (root_url u) = Inr a \<and> root_info_of a = Inr info \<and> res = Inr info \<and>
           memo' = AList.update (memo_key r (root_url u)) (now, info) (if length memo > 200 then [] else memo))))"
proof (cases "\<exists>u. remoteUrl = JStr u \<and> trim u \<noteq> []")
  case False
  with assms show ?thesis by (cases remoteUrl) (auto simp: fetchNodeRoot_def)
next
  case True
  then obtain u where u: "remoteUrl = JStr u" "trim u \<noteq> []" by blast
  let ?k = "memo_key r (root_url u)"
  let ?hit = "case map_of memo ?k of Some (t, info) \<Rightarrow> if now - t < ROOT_MEMO_MS then Some info else None | None \<Rightarrow> None"
  show ?thesis
  proof (cases ?hit)
    case (Some info)
    then obtain t where "map_of memo ?k = Some (t, info)" "now - t < ROOT_MEMO_MS" by (auto split: option.splits if_splits)
    moreover have "res = Inr info \<and> memo' = memo" using assms u Some by (auto simp: fetchNodeRoot_def Let_def)
    ultimately show ?thesis using u by (blast dest: map_of_SomeD)
  next
    case None
    show ?thesis
    proof (cases "and_then (ask (asked_by r (root_url u)) (root_url u)) root_info_of")
      case (Inl e)
      have "Inl e = res \<and> memo = memo'" using assms unfolding u fetchNodeRoot_def by (simp add: u Let_def None Inl)
      then show ?thesis by blast
    next
      case (Inr info)
      then obtain a where "ask (asked_by r (root_url u)) (root_url u) = Inr a" "root_info_of a = Inr info" by (auto simp: and_then_eq_ok)
      moreover have "res = Inr info \<and> memo' = AList.update ?k (now, info) (if length memo > 200 then [] else memo)"
        using assms u None Inr by (auto simp: fetchNodeRoot_def Let_def)
      ultimately show ?thesis using u by blast
    qed
  qed
qed

lemma reads_routed: "reads answers memo \<Longrightarrow> routed answers memo"
proof (induction rule: reads.induct)
  case (answered_now answers memo ask now r u info memo')
  then obtain a i where m: "memo' = AList.update (memo_key r (root_url u)) (now, i) (if length memo > 200 then [] else memo)"
      and i: "Inr info = (Inr i :: root_info result)"
    using root_cases [OF answered_now(2)] by auto
  show ?case
    unfolding routed_def
  proof (intro allI impI)
    fix key t j assume "(key, t, j) \<in> set memo'"
    then consider "(key, t, j) = (memo_key r (root_url u), now, info)" | "(key, t, j) \<in> set memo"
      using update_entries [of key "(t, j)"] i unfolding m by (auto split: if_splits)
    then show "\<exists>r' url. key = memo_key r' url \<and> (asked_by r' url, url, t, j) \<in> insert (asked_by r (root_url u), root_url u, now, info) answers"
    proof cases
      case 2
      with answered_now(4) show ?thesis unfolding routed_def by blast
    qed auto
  qed
qed (auto simp: routed_def)

text \<open>C19. For a node with an \<open>https\<close> address, its word is never heard through one route and used for another
  (\<open>fetchNodeRoot\<close>, its memo keyed by \<open>routeKey\<close>): after any reads of any nodes by any routes, a read that must go
  through the entry hop returns what the node answers to a request made through that very agent now, or less than
  five seconds ago and for the same address; an answer heard directly, or through another agent, never stands in
  for it. A read that fails is remembered by nothing.\<close>

theorem answers_keep_their_route:
  assumes "reads answers memo" and "fetchNodeRoot ask now r (JStr u) memo = (res, memo')"
    and "starts_with ''https'' (root_url u)"
  shows "case res of
     Inl _ \<Rightarrow> memo' = memo
   | Inr info \<Rightarrow> (\<exists>t. now - t < ROOT_MEMO_MS \<and> (r, root_url u, t, info) \<in> answers) \<or>
       (\<exists>a. ask r (root_url u) = Inr a \<and> root_info_of a = Inr info)"
proof -
  have https: "asked_by r (root_url u) = r" using assms(3) by (simp add: asked_by_def)
  have own: "(r, root_url u, t, info) \<in> answers" if "(memo_key r (root_url u), t, info) \<in> set memo" for t info
    using reads_routed [OF assms(1)] that unfolding routed_def by (metis memo_key_inj https)
  show ?thesis using root_cases [OF assms(2)] by (auto simp: https, blast dest: own)
qed

text \<open>A plain \<open>http\<close> address, which \<open>isSafeNodeApiUrl\<close> lets pass, is asked directly whatever the route: the read that should
  go through the entry hop goes from the user's own address.\<close>

lemma plain_http_asked_directly:
  assumes "\<not> starts_with ''https'' (root_url u)" and "trim u \<noteq> []"
  shows "fst (fetchNodeRoot ask now r (JStr u) []) = and_then (ask Straight (root_url u)) root_info_of"
  using assms by (cases "and_then (ask Straight (root_url u)) root_info_of") (simp_all add: fetchNodeRoot_def asked_by_def Let_def)

lemma answers_keep_their_route_witness:
  "\<exists>a. root_info_of a = Inr \<lparr>ri_serviceType = JStr ''xray'', ri_metadata = JUndef, ri_signs = False\<rparr>"
proof -
  let ?ask = "\<lambda>r url. if r = Through 1 then ok \<lparr>na_status = 200,
     na_json = ok (JObj [(''result'', JObj [(''service_type'', JStr ''xray'')])]), na_signing = None\<rparr> else throw ''down''"
  let ?info = "\<lparr>ri_serviceType = JStr ''xray'', ri_metadata = JUndef, ri_signs = False\<rparr>"
  let ?direct = "\<lparr>ri_serviceType = JStr ''v2ray'', ri_metadata = JUndef, ri_signs = False\<rparr>"
  let ?memo = "[(memo_key Straight ''https://n/'', 0, ?direct)]"
  have url: "root_url ''n'' = ''https://n/''" by (simp add: root_url_def trim_slashes_def starts_with_def)
  have "fetchNodeRoot (\<lambda>_ _. ok \<lparr>na_status = 200, na_json = ok (JObj [(''result'', JObj [(''service_type'', JStr ''v2ray'')])]),
      na_signing = None\<rparr>) 0 Straight (JStr ''n'') [] = (Inr ?direct, ?memo)"
    by (simp add: fetchNodeRoot_def asked_by_def starts_with_def url Let_def root_info_of_def ok_status_def trim_def trim_start_def trim_end_def is_ws_def and_then_def)
  from reads.answered_now [OF reads.launched this] have r: "reads {(Straight, ''https://n/'', 0, ?direct)} ?memo" by (simp add: url asked_by_def starts_with_def)
  have "fetchNodeRoot ?ask 1 (Through 1) (JStr ''n'') ?memo = (Inr ?info, ?memo @ [(memo_key (Through 1) ''https://n/'', 1, ?info)])"
    by (simp add: fetchNodeRoot_def asked_by_def starts_with_def url Let_def root_info_of_def ok_status_def trim_def trim_start_def trim_end_def is_ws_def and_then_def
        memo_key_inj)
  from answers_keep_their_route [OF r this] show ?thesis by (auto simp: url starts_with_def split: if_splits)
qed

section \<open>A batch probes every node once\<close>

definition batch_inv :: "'n list \<Rightarrow> nat \<Rightarrow> 'n batch \<Rightarrow> bool" where
  "batch_inv nodes i b \<longleftrightarrow>
     length (bt_flying b) \<le> CONCURRENCY \<and> length (bt_reported b) = i \<and>
     mset (bt_reported b) + mset (bt_flying b) + mset (bt_left b) = mset nodes \<and>
     (\<not> bt_aborted b \<longrightarrow> bt_left b \<noteq> [] \<longrightarrow> length (bt_flying b) = CONCURRENCY)"

lemma batch_inv_start: "batch_inv nodes 0 (startBatch nodes)"
  unfolding batch_inv_def startBatch_def
  by (simp add: union_code [symmetric] mset_append [symmetric] del: mset_append)

lemma mset_without: "k < length xs \<Longrightarrow> mset (take k xs) + mset (drop (Suc k) xs) + {#xs ! k#} = mset xs"
  using arg_cong [OF id_take_nth_drop [of k xs], of mset] by simp

lemma probed_idle:
  "bt_left b = [] \<or> bt_aborted b \<Longrightarrow> probed k b = b\<lparr>bt_reported := bt_reported b @ [bt_flying b ! k],
     bt_flying := take k (bt_flying b) @ drop (Suc k) (bt_flying b)\<rparr>"
  by (cases "bt_left b") (auto simp: probed_def Let_def)

lemma batch_inv_probed:
  assumes "batch_inv nodes i b" and "k < length (bt_flying b)"
  shows "batch_inv nodes (Suc i) (probed k b)"
proof (cases "bt_left b = [] \<or> bt_aborted b")
  case True
  have "mset (bt_reported b @ [bt_flying b ! k]) + mset (take k (bt_flying b) @ drop (Suc k) (bt_flying b)) + mset (bt_left b) =
      mset (bt_reported b) + (mset (take k (bt_flying b)) + mset (drop (Suc k) (bt_flying b)) + {#bt_flying b ! k#}) + mset (bt_left b)"
    by (simp add: ac_simps)
  also have "\<dots> = mset nodes" unfolding mset_without [OF assms(2)] using assms(1) by (simp add: batch_inv_def)
  finally show ?thesis using assms True unfolding batch_inv_def probed_idle [OF True] by auto
next
  case False
  then obtain n ns where l: "bt_left b = n # ns" by (cases "bt_left b") auto
  then have p: "probed k b = b\<lparr>bt_reported := bt_reported b @ [bt_flying b ! k], bt_flying := (bt_flying b)[k := n], bt_left := ns\<rparr>"
    using False by (simp add: probed_def Let_def)
  have u: "mset ((bt_flying b)[k := n]) + {#bt_flying b ! k#} = mset (bt_flying b) + {#n#}"
    using mset_without [OF assms(2)] assms(2) by (simp add: upd_conv_take_nth_drop ac_simps)
  have "mset (bt_reported b @ [bt_flying b ! k]) + mset ((bt_flying b)[k := n]) + mset ns =
      mset (bt_reported b) + (mset ((bt_flying b)[k := n]) + {#bt_flying b ! k#}) + mset ns"
    by (simp add: ac_simps)
  also have "\<dots> = mset nodes" unfolding u using assms(1) by (simp add: batch_inv_def l ac_simps)
  finally show ?thesis using assms False unfolding batch_inv_def p l by auto
qed

lemma batch_inv_run: "batch_run (startBatch nodes) i b \<Longrightarrow> batch_inv nodes i b"
proof (induction rule: batch_run.induct)
  case (over i c k)
  then show ?case by (intro batch_inv_probed)
qed (simp_all add: batch_inv_start, simp add: batch_inv_def cancelBatch_def)

text \<open>C20. A batch of probes (\<open>startBatch\<close>, \<open>cancelBatch\<close>) runs at most three at a time and reports each node at
  most once; while it is not cancelled there is a probe in flight until every node has been reported, so it
  ends, having reported every node exactly once, after as many probes as there are nodes; a cancelled batch
  starts no further probe and reports at most those in flight.\<close>

theorem batch_probes_each_once:
  assumes "batch_run (startBatch nodes) i b"
  shows "length (bt_flying b) \<le> 3 \<and> mset (bt_reported b) \<subseteq># mset nodes \<and> length (bt_reported b) = i \<and> i \<le> length nodes \<and>
    (\<not> bt_aborted b \<longrightarrow> (if i < length nodes then bt_flying b \<noteq> [] else mset (bt_reported b) = mset nodes)) \<and>
    (bt_aborted b \<longrightarrow> (\<forall>j c. batch_run b j c \<longrightarrow> bt_left c = bt_left b \<and> j \<le> length (bt_flying b)))"
proof -
  have inv: "batch_inv nodes i b" by (rule batch_inv_run, rule assms)
  then have m: "mset (bt_reported b) + mset (bt_flying b) + mset (bt_left b) = mset nodes" and len: "length (bt_reported b) = i"
    by (auto simp: batch_inv_def)
  have n: "i + length (bt_flying b) + length (bt_left b) = length nodes"
    using arg_cong [OF m, of size] len by simp
  have sub: "mset (bt_reported b) \<subseteq># mset nodes" unfolding m [symmetric] by simp
  have "if i < length nodes then bt_flying b \<noteq> [] else mset (bt_reported b) = mset nodes" if "\<not> bt_aborted b"
    using inv n m that by (cases "bt_flying b"; cases "bt_left b") (auto simp: batch_inv_def CONCURRENCY_def)
  moreover have "bt_left c = bt_left b \<and> bt_aborted c \<and> j + length (bt_flying c) = length (bt_flying b)"
    if "bt_aborted b" "batch_run b j c" for j c
    using that(2)
  proof (induction rule: batch_run.induct)
    case (over j c k)
    then show ?case by (auto simp: probed_idle)
  qed (auto simp: that(1) cancelBatch_def)
  ultimately show ?thesis
    using inv len n sub by (fastforce simp: batch_inv_def CONCURRENCY_def)
qed

lemma batch_probes_each_once_witness:
  "length (bt_reported (probed 1 (probed 0 (startBatch [1, 2, 3, 4::int])))) = 2 \<and>
   mset (bt_reported (probed 1 (probed 0 (startBatch [1, 2, 3, 4::int])))) \<subseteq># mset [1, 2, 3, 4]"
proof -
  have "batch_run (startBatch [1, 2, 3, 4::int]) (Suc (Suc 0)) (probed 1 (probed 0 (startBatch [1, 2, 3, 4])))"
    by (intro batch_run.over batch_run.begun) (simp_all add: startBatch_def CONCURRENCY_def probed_def Let_def)
  from batch_probes_each_once [OF this] show ?thesis by simp
qed

section \<open>The directory is replaced as a whole\<close>

definition texts_present :: "js \<Rightarrow> bool" where
  "texts_present node \<longleftrightarrow> (\<forall>k \<in> set TEXT_FIELDS. jget k node \<noteq> JNull \<and> jget k node \<noteq> JUndef)"

definition filled :: "string \<Rightarrow> js \<Rightarrow> js" where
  "filled field node = (if jget field node = JNull \<or> jget field node = JUndef then jset field (JStr '''') node else node)"

lemma filled_obj: "\<exists>fs. node = JObj fs \<Longrightarrow> \<exists>fs. filled field node = JObj fs"
  by (auto simp: filled_def)

lemma filled_jget:
  "\<exists>fs. node = JObj fs \<Longrightarrow> jget k (filled field node) =
     (if k = field \<and> (jget k node = JNull \<or> jget k node = JUndef) then JStr '''' else jget k node)"
  by (auto simp: filled_def split: option.splits)

lemma fill_all:
  assumes "\<exists>fs. node = JObj fs"
  shows "jget k (fold filled ks node) = (if k \<in> set ks \<and> (jget k node = JNull \<or> jget k node = JUndef) then JStr '''' else jget k node)"
    and "\<exists>fs. fold filled ks node = JObj fs"
proof -
  have "(\<exists>fs. fold filled ks node = JObj fs) \<and> jget k (fold filled ks node) =
      (if k \<in> set ks \<and> (jget k node = JNull \<or> jget k node = JUndef) then JStr [] else jget k node)"
    using assms
  proof (induction ks arbitrary: node)
    case (Cons f ks)
    have o: "\<exists>fs. filled f node = JObj fs" by (rule filled_obj, rule Cons.prems)
    show ?case unfolding fold_simps using Cons.IH [OF o] unfolding filled_jget [OF Cons.prems] by auto
  qed simp
  then show "jget k (fold filled ks node) =
      (if k \<in> set ks \<and> (jget k node = JNull \<or> jget k node = JUndef) then JStr [] else jget k node)"
    "\<exists>fs. fold filled ks node = JObj fs" by blast+
qed

lemma normalize_fold: "normalize_node entry = fold filled TEXT_FIELDS (spread entry)"
  by (simp add: normalize_node_def filled_def [abs_def])

lemma normalize_texts: "texts_present (normalize_node entry)"
proof -
  have "\<exists>fs. spread entry = JObj fs" by (simp add: spread_def)
  from fill_all(1) [OF this] show ?thesis by (auto simp: texts_present_def normalize_fold)
qed

lemma filled_done: "jget field node \<noteq> JNull \<Longrightarrow> jget field node \<noteq> JUndef \<Longrightarrow> filled field node = node"
  by (simp add: filled_def)

lemma fold_done: "\<forall>k \<in> set ks. jget k node \<noteq> JNull \<and> jget k node \<noteq> JUndef \<Longrightarrow> fold filled ks node = node"
  by (induction ks) (auto simp: filled_done)

lemma normalize_again: "normalize_node (normalize_node entry) = normalize_node entry"
proof -
  obtain fs where fs: "normalize_node entry = JObj fs"
    using fill_all(2) [of "spread entry"] by (auto simp: normalize_fold spread_def)
  have "fold filled TEXT_FIELDS (JObj fs) = JObj fs"
    by (rule fold_done) (use normalize_texts [of entry] in \<open>simp add: fs texts_present_def\<close>)
  then show ?thesis by (simp add: fs normalize_fold [of "JObj fs"] spread_def)
qed

lemma all_pages_ok: "all_pages fetch ps = Inr xs \<longleftrightarrow> map fetch ps = map Inr xs"
  by (induction ps arbitrary: xs) (auto simp: and_then_eq_ok Cons_eq_map_conv)

text \<open>C21. The node directory is replaced as a whole or not at all (\<open>fetchNodes\<close>): when any page cannot be read
  or is not of the feed's shape, memory, projection and file keep the last good list; otherwise the list is
  that of the first page and of every further page it announces (fifty at most), in order, and every text field
  of every entry is there, so that a search or a sort never meets a null. A restart on the saved file
  (\<open>bootstrapNodesCache\<close>) finds the same list.\<close>

theorem directory_whole_or_kept:
  "case fetchNodes ask now d of
     (Inl _, d') \<Rightarrow> d' = d
   | (Inr nodes, d') \<Rightarrow>
       (\<exists>first rest. fetchNodesPage ask 1 = Inr first \<and>
          map (fetchNodesPage ask) [2..min (np_lastPage first) MAX_NODE_PAGES] = map Inr rest \<and>
          nodes = normalizeNodes (concat (map np_nodes (first # rest)))) \<and>
       list_all texts_present nodes \<and>
       bootstrapNodesCache \<lparr>dr_nodes = None, dr_entries = [], dr_file = dr_file d'\<rparr> = d'"
proof (cases "fetchNodes ask now d")
  case (Pair res d')
  show ?thesis
  proof (cases res)
    case (Inl e)
    with Pair show ?thesis by (auto simp: fetchNodes_def split: sum.splits)
  next
    case (Inr nodes)
    then obtain first rest where pages: "fetchNodesPage ask 1 = Inr first"
        "all_pages (fetchNodesPage ask) [2..min (np_lastPage first) MAX_NODE_PAGES] = Inr rest"
        "nodes = normalizeNodes (concat (map np_nodes (first # rest)))"
      using Pair by (auto simp: fetchNodes_def and_then_eq_ok split: sum.splits)
    then have d': "d' = \<lparr>dr_nodes = Some (nodes, now), dr_entries = toCachedNodeMeta nodes,
        dr_file = disk_save ''nodes'' nodes now (dr_file d)\<rparr>"
      using Pair Inr by (auto simp: fetchNodes_def and_then_def split: sum.splits)
    have "normalizeNodes nodes = nodes" unfolding pages(3) by (simp add: normalizeNodes_def normalize_again)
    then have "bootstrapNodesCache \<lparr>dr_nodes = None, dr_entries = [], dr_file = dr_file d'\<rparr> = d'"
      unfolding d' by (simp add: bootstrapNodesCache_def disk_load_def disk_save_def)
    moreover have "list_all texts_present nodes" unfolding pages(3) by (auto simp: list_all_iff normalizeNodes_def normalize_texts)
    ultimately show ?thesis using Pair Inr pages by (auto simp: all_pages_ok)
  qed
qed

end
