(* ===== verification/SessionRows.thy ===== *)
theory SessionRows
  imports ChainShop Nodes
begin

text \<open>
  The list of sessions and the end of one: the session queries of \<open>src/main/chain/wallet.ts\<close> and the handlers
  \<open>WALLET_SESSIONS\<close> and \<open>WALLET_END_SESSION\<close> of \<open>src/main/ipc-handlers.ts\<close>, with the rows they decorate, the
  usage that is remembered per session, and the wallet that signs a cancel. The chain's answer to a query is
  an argument, \<open>None\<close> where it throws; the text form of the usage file is left out.
\<close>

section \<open>The rows the chain gives\<close>

text \<open>What the SDK's decoder makes of one entry; times are their ISO texts, durations seconds and nanoseconds.\<close>

record base_session =
  bs_id :: nat
  bs_nodeAddress :: string
  bs_status :: int
  bs_downloadBytes :: string
  bs_uploadBytes :: string
  bs_maxBytes :: string
  bs_inactiveAt :: "string option"
  bs_startAt :: "string option"
  bs_duration :: "(int \<times> int) option"
  bs_maxDuration :: "(int \<times> int) option"

datatype session_any =
    NodeSession "base_session option" "(string \<times> string) option"  \<comment> \<open>the price: denomination and quote value\<close>
  | PlanSession "base_session option" nat
  | OtherType
  | Undecodable

record session_info = session_row +
  sn_nodeAddress :: string
  sn_status :: string
  sn_inactiveAt :: "string option"
  sn_startAt :: "string option"
  sn_subscriptionId :: "string option"
  sn_priceDenom :: "string option"
  sn_priceValue :: "string option"

definition session_seconds :: "(int \<times> int) option \<Rightarrow> rat option" where
  "session_seconds d = map_option (\<lambda>(seconds, nanos). of_int seconds + of_int nanos / 1000000000) d"

definition sessionStatusLabel :: "int \<Rightarrow> string" where
  "sessionStatusLabel status =
     (if status = 1 then ''active'' else if status = 2 then ''inactive_pending'' else if status = 3 then ''inactive''
      else ''unknown'')"

definition present :: "string option \<Rightarrow> string option" where
  "present x = (if x = Some '''' then None else x)"

definition session_of :: "base_session \<Rightarrow> string option \<Rightarrow> (string \<times> string) option \<Rightarrow> session_info" where
  "session_of base subscriptionId price =
     \<lparr>sr_id = show_nat (bs_id base), sr_downloadBytes = bs_downloadBytes base, sr_uploadBytes = bs_uploadBytes base,
      sr_maxBytes = bs_maxBytes base, sr_durationSeconds = session_seconds (bs_duration base),
      sr_maxDurationSeconds = session_seconds (bs_maxDuration base), sn_nodeAddress = bs_nodeAddress base,
      sn_status = sessionStatusLabel (bs_status base), sn_inactiveAt = bs_inactiveAt base, sn_startAt = bs_startAt base,
      sn_subscriptionId = subscriptionId, sn_priceDenom = present (map_option fst price),
      sn_priceValue = present (map_option snd price)\<rparr>"

fun decodeSession :: "session_any \<Rightarrow> session_info option" where
  "decodeSession (NodeSession base price) = map_option (\<lambda>b. session_of b None price) base"
| "decodeSession (PlanSession base subscription) = map_option (\<lambda>b. session_of b (Some (show_nat subscription)) None) base"
| "decodeSession OtherType = None"
| "decodeSession Undecodable = None"

text \<open>\<open>chain\<close> is the first page (twenty entries) of the sessions of an account.\<close>

type_synonym sessions_query = "string \<Rightarrow> session_any list option"

definition listed_status :: "session_info \<Rightarrow> bool" where
  "listed_status s \<longleftrightarrow> sn_status s = ''active'' \<or> sn_status s = ''inactive_pending''"

definition getSessionsForAddress :: "sessions_query \<Rightarrow> string \<Rightarrow> session_info list" where
  "getSessionsForAddress chain address =
     (if address = '''' then []
      else case chain address of
          None \<Rightarrow> []
        | Some sessions \<Rightarrow> filter listed_status (List.map_filter decodeSession sessions))"

definition getActiveSessions :: "sessions_query \<Rightarrow> loaded option \<Rightarrow> session_info list" where
  "getActiveSessions chain wallet =
     (case wallet of None \<Rightarrow> [] | Some l \<Rightarrow> getSessionsForAddress chain (l_address l))"

definition getOtherWalletSessions ::
  "sessions_query \<Rightarrow> (string \<times> saved_config) list \<Rightarrow> disk \<Rightarrow> loaded option \<Rightarrow> session_info list" where
  "getOtherWalletSessions chain files d wallet =
     (let owned = filter (\<lambda>(_, w). map_option l_wallet wallet \<noteq> Some w) (listSessionsOwnedByOtherWallets files);
          addresses = filter (\<lambda>a. a \<noteq> '''') (List.map_filter (\<lambda>(_, w). map_option we_address (entry_of w d)) owned)
      in filter (\<lambda>s. sr_id s \<in> set (map fst owned))
           (concat (map (getSessionsForAddress chain) (unique addresses))))"

definition readAllSessions ::
  "sessions_query \<Rightarrow> (string \<times> saved_config) list \<Rightarrow> disk \<Rightarrow> loaded option \<Rightarrow> session_info list" where
  "readAllSessions chain files d wallet = getActiveSessions chain wallet @ getOtherWalletSessions chain files d wallet"

section \<open>What the app adds to a row\<close>

record shown_row = session_info +
  sh_moniker :: string
  sh_country :: string
  sh_chainPeer :: "string option"
  sh_chainRole :: "hop_role option"

definition named_or :: "string option \<Rightarrow> string \<Rightarrow> string" where
  "named_or x d = (case x of None \<Rightarrow> d | Some t \<Rightarrow> if t = [] then d else t)"

definition decorateSessionRow :: "(string \<times> saved_config) list \<Rightarrow> directory \<Rightarrow> session_info \<Rightarrow> shown_row" where
  "decorateSessionRow files dir s =
     (let saved = loadSessionConfig files (sr_id s);
          nodeMeta = getNodeMeta dir (sn_nodeAddress s)
      in \<lparr>sr_id = sr_id s, sr_downloadBytes = sr_downloadBytes s, sr_uploadBytes = sr_uploadBytes s,
          sr_maxBytes = sr_maxBytes s, sr_durationSeconds = sr_durationSeconds s,
          sr_maxDurationSeconds = sr_maxDurationSeconds s, sn_nodeAddress = sn_nodeAddress s, sn_status = sn_status s,
          sn_inactiveAt = sn_inactiveAt s, sn_startAt = sn_startAt s, sn_subscriptionId = sn_subscriptionId s,
          sn_priceDenom = sn_priceDenom s, sn_priceValue = sn_priceValue s,
          sh_moniker = named_or (Option.bind saved sc_nodeMoniker) (fst nodeMeta),
          sh_country = named_or (Option.bind saved sc_nodeCountry) (fst (snd nodeMeta)),
          sh_chainPeer = Option.bind saved sc_chainPeer, sh_chainRole = Option.bind saved sc_chainRole\<rparr>)"

definition shown_rows ::
  "(string \<rightharpoonup> remembered_usage) \<Rightarrow> (string \<times> saved_config) list \<Rightarrow> directory \<Rightarrow> session_info list \<Rightarrow> shown_row list" where
  "shown_rows usage files dir sessions = primeSessionsCache usage (map (decorateSessionRow files dir) sessions)"

definition prune_usage ::
  "string list \<Rightarrow> string option \<Rightarrow> (string \<rightharpoonup> remembered_usage) \<Rightarrow> (string \<rightharpoonup> remembered_usage)" where
  "prune_usage liveSessionIds activeSessionId usage =
     (\<lambda>i. if i \<in> set (prunableUsageIds [i] liveSessionIds activeSessionId) then None else usage i)"

section \<open>The handlers\<close>

text \<open>The rows as they were shown last (\<open>b_rows\<close> holds their meters) and the node directory.\<close>

record listing =
  ls_rows :: "shown_row list"
  ls_dir :: directory

definition row_meters :: "shown_row \<Rightarrow> session_row" where
  "row_meters r = session_row.truncate r"

definition answer_sessions :: "(int \<Rightarrow> js result) \<Rightarrow> int \<Rightarrow> sessions_query \<Rightarrow> listing \<Rightarrow> (shown_row list \<times> listing) act" where
  "answer_sessions ask now chain st v =
     (let dir = (if dr_entries (ls_dir st) = [] then snd (fetchNodes ask now (ls_dir st)) else ls_dir st);
          b = v_book v;
          sessions = readAllSessions chain (b_files b) (v_disk v) (v_loaded v);
          rows = shown_rows (b_usage b) (b_files b) dir sessions
      in (Inr (rows, \<lparr>ls_rows = rows, ls_dir = dir\<rparr>),
          v\<lparr>v_book := b\<lparr>b_rows := map row_meters rows,
            b_usage := prune_usage (map sr_id sessions) (b_session b) (b_usage b)\<rparr>\<rparr>))"

definition WALLET_SESSIONS ::
  "keyring \<Rightarrow> derivation \<Rightarrow> string \<Rightarrow> bool \<Rightarrow> (int \<Rightarrow> js result) \<Rightarrow> int \<Rightarrow> sessions_query \<Rightarrow> listing \<Rightarrow>
     (shown_row list \<times> listing) act" where
  "WALLET_SESSIONS k dv uuid vpnActive ask now chain st =
     (if vpnActive \<and> ls_rows st \<noteq> [] then give (ls_rows st, st)
      else then_act (hasStoredWallet k uuid) (\<lambda>stored v.
        then_act (if stored \<and> v_loaded v = None then then_act (restoreWallet k dv uuid) (\<lambda>_. give ()) else give ())
          (\<lambda>_. answer_sessions ask now chain st) v))"

text \<open>The end of a session. The key bytes a foreign wallet was opened with are zeroed afterwards.\<close>

definition end_session_run :: "chain_io \<Rightarrow> chain_ctx \<Rightarrow> wallet_keys \<Rightarrow> string option \<Rightarrow> string \<Rightarrow> unit run" where
  "end_session_run c ctx w foreign sessionId =
     seq (lift (case foreign of None \<Rightarrow> ok (wk_account w)
         | Some i \<Rightarrow> and_then (cx_keys ctx i) (\<lambda>creds. ok (wk_account creds)))) (\<lambda>account.
     finally_tell [SessionsChanged]
       (seq (if foreign = None then assertSufficientFunds c account 0 else assertSufficientFundsFor c account 0) (\<lambda>_.
        noting c (endSession c account sessionId))))"

definition WALLET_END_SESSION ::
  "chain_io \<Rightarrow> chain_ctx \<Rightarrow> bool \<Rightarrow> bool \<Rightarrow> js \<Rightarrow> book \<Rightarrow> history \<Rightarrow> (failure + unit) \<times> book \<times> history" where
  "WALLET_END_SESSION c ctx vpnActive secureStorage sessionId b h =
     (case assertString sessionId ''sessionId'' of Inl e \<Rightarrow> (Inl (failed e), b, h) | Inr _ \<Rightarrow>
      let i = (case as_string sessionId of None \<Rightarrow> [] | Some i \<Rightarrow> i) in
      case end_session_owner (cx_wallet ctx \<noteq> None) vpnActive (cx_walletId ctx) i b of
        Inl e \<Rightarrow> (Inl (failed e), b, h)
      | Inr foreign \<Rightarrow>
          (case end_session_run c ctx (the (cx_wallet ctx)) foreign i h of
             (Inl e, h') \<Rightarrow> (Inl e, b, h')
           | (Inr _, h') \<Rightarrow> (Inr (), session_ended secureStorage i b, h')))"

section \<open>Whose sessions are listed, and what their meters show\<close>

lemma int_or_zero_show: "int_or_zero (show_int i) = i"
proof (cases "i < 0")
  case True
  have d: "takeWhile is_digit (show_nat (nat (- i))) = show_nat (nat (- i))"
    using show_nat_digits [of "nat (- i)"] by (simp add: takeWhile_eq_all_conv list_all_iff)
  have "show_nat (nat (- i)) \<noteq> []" by (metis append_is_Nil_conv not_Cons_self2 show_nat.simps)
  then show ?thesis using True by (simp add: d int_or_zero_def show_int_def parse_int_def trim_start_def is_ws_def Let_def)
qed (simp add: int_or_zero_def show_int_def)

lemma maxUsage_floor: "int_or_zero (maxUsageBytes a b) = max (int_or_zero a) (int_or_zero b)"
  by (simp add: maxUsageBytes_def int_or_zero_show)

lemma address_sessions:
  "s \<in> set (getSessionsForAddress chain a) \<Longrightarrow>
     \<exists>ss any. chain a = Some ss \<and> any \<in> set ss \<and> decodeSession any = Some s \<and> listed_status s"
  by (cases "chain a") (auto simp: getSessionsForAddress_def map_filter_def split: if_splits)

definition session_origin ::
  "sessions_query \<Rightarrow> (string \<times> saved_config) list \<Rightarrow> disk \<Rightarrow> loaded option \<Rightarrow> session_info \<Rightarrow> bool" where
  "session_origin chain files d wallet s \<longleftrightarrow>
     (\<exists>a ss any. chain a = Some ss \<and> any \<in> set ss \<and> decodeSession any = Some s \<and> listed_status s \<and>
        ((\<exists>l. wallet = Some l \<and> l_address l = a) \<or>
         (\<exists>saved w. loadSessionConfig files (sr_id s) = Some saved \<and> sc_walletId saved = Some w \<and>
            map_option l_wallet wallet \<noteq> Some w \<and> a \<in> we_address ` set (listWallets d))))"

lemma owned_ids:
  "(i, w) \<in> set (listSessionsOwnedByOtherWallets files) \<Longrightarrow>
     \<exists>saved. loadSessionConfig files i = Some saved \<and> sc_walletId saved = Some w"
  by (cases "map_of files i"; force simp: listSessionsOwnedByOtherWallets_def loadSessionConfig_def split: option.splits if_splits)

lemma unique_set: "set (unique xs) = set xs"
  by (simp add: unique_def)

lemma map_filter_mem: "x \<in> set (List.map_filter f xs) \<Longrightarrow> \<exists>y \<in> set xs. f y = Some x"
  by (auto simp: map_filter_def)

lemma find_mem: "find P xs = Some x \<Longrightarrow> x \<in> set xs"
  by (auto simp: find_Some_iff)

lemma other_sessions:
  assumes "s \<in> set (getOtherWalletSessions chain files d wallet)"
  shows "session_origin chain files d wallet s"
proof -
  let ?owned = "filter (\<lambda>(_, w). map_option l_wallet wallet \<noteq> Some w) (listSessionsOwnedByOtherWallets files)"
  let ?addresses = "filter (\<lambda>a. a \<noteq> []) (List.map_filter (\<lambda>(_, w). map_option we_address (entry_of w d)) ?owned)"
  have "sr_id s \<in> set (map fst ?owned)" and "s \<in> set (concat (map (getSessionsForAddress chain) (unique ?addresses)))"
    using assms unfolding getOtherWalletSessions_def Let_def by simp_all
  then obtain a where s: "s \<in> set (getSessionsForAddress chain a)" and aa: "a \<in> set ?addresses"
    unfolding set_concat set_map unique_set by blast
  obtain w where i: "(sr_id s, w) \<in> set (listSessionsOwnedByOtherWallets files)" "map_option l_wallet wallet \<noteq> Some w"
    using \<open>sr_id s \<in> set (map fst ?owned)\<close> by fastforce
  from aa obtain w' e where "entry_of w' d = Some e" "we_address e = a"
    by (auto dest!: map_filter_mem)
  then have a: "a \<in> we_address ` set (listWallets d)"
    by (auto simp: entry_of_def dest: find_mem)
  from address_sessions [OF s] owned_ids [OF i(1)] i(2) a show ?thesis
    unfolding session_origin_def by blast
qed

lemma read_origin:
  "s \<in> set (readAllSessions chain files d wallet) \<Longrightarrow> session_origin chain files d wallet s"
  using address_sessions other_sessions
  by (auto simp: readAllSessions_def getActiveSessions_def session_origin_def split: option.splits) blast+

definition meters_floored :: "(string \<rightharpoonup> remembered_usage) \<Rightarrow> session_info \<Rightarrow> shown_row \<Rightarrow> bool" where
  "meters_floored usage s r \<longleftrightarrow>
     (case usage (sr_id s) of
        None \<Rightarrow> sr_downloadBytes r = sr_downloadBytes s \<and> sr_uploadBytes r = sr_uploadBytes s \<and>
          sr_durationSeconds r = sr_durationSeconds s
      | Some u \<Rightarrow>
          int_or_zero (sr_downloadBytes r) = max (int_or_zero (sr_downloadBytes s)) (int_or_zero (ru_downloadBytes u)) \<and>
          int_or_zero (sr_uploadBytes r) = max (int_or_zero (sr_uploadBytes s)) (int_or_zero (ru_uploadBytes u)) \<and>
          sr_durationSeconds r = Some (max (case sr_durationSeconds s of None \<Rightarrow> 0 | Some t \<Rightarrow> t) (ru_durationSeconds u)))"

definition row_faithful ::
  "(string \<rightharpoonup> remembered_usage) \<Rightarrow> (string \<times> saved_config) list \<Rightarrow> directory \<Rightarrow> session_info \<Rightarrow> shown_row \<Rightarrow> bool" where
  "row_faithful usage files dir s r \<longleftrightarrow>
     sr_id r = sr_id s \<and> sn_nodeAddress r = sn_nodeAddress s \<and> sn_status r = sn_status s \<and>
     sr_maxBytes r = sr_maxBytes s \<and> sr_maxDurationSeconds r = sr_maxDurationSeconds s \<and>
     sn_inactiveAt r = sn_inactiveAt s \<and> sn_startAt r = sn_startAt s \<and> sn_subscriptionId r = sn_subscriptionId s \<and>
     sn_priceDenom r = sn_priceDenom s \<and> sn_priceValue r = sn_priceValue s \<and>
     sh_moniker r = named_or (Option.bind (loadSessionConfig files (sr_id s)) sc_nodeMoniker)
       (fst (getNodeMeta dir (sn_nodeAddress s))) \<and>
     sh_country r = named_or (Option.bind (loadSessionConfig files (sr_id s)) sc_nodeCountry)
       (fst (snd (getNodeMeta dir (sn_nodeAddress s)))) \<and>
     sh_chainPeer r = Option.bind (loadSessionConfig files (sr_id s)) sc_chainPeer \<and>
     sh_chainRole r = Option.bind (loadSessionConfig files (sr_id s)) sc_chainRole \<and> meters_floored usage s r"

lemma shown_faithful:
  "list_all2 (row_faithful usage files dir) sessions (shown_rows usage files dir sessions)"
proof -
  have "row_faithful usage files dir s (floored_row usage (decorateSessionRow files dir s))" for s
    by (cases "usage (sr_id s)"; cases "sr_durationSeconds s")
      (simp_all add: row_faithful_def meters_floored_def floored_row_def decorateSessionRow_def Let_def maxUsage_floor
         Decisions.or_else_def)
  then show ?thesis
    by (simp add: shown_rows_def primeSessionsCache_def list_all2_map2 list_all2_same)
qed

lemma pruned_only:
  "prune_usage live active usage i = (if live \<noteq> [] \<and> i \<notin> set live \<and> Some i \<noteq> active then None else usage i)"
  by (auto simp: prune_usage_def prunableUsageIds_def)

text \<open>Looking for a stored wallet and restoring it leave the session book alone.\<close>

definition keeps_book :: "'a act \<Rightarrow> bool" where
  "keeps_book m \<longleftrightarrow> (\<forall>v. v_book (snd (m v)) = v_book v)"

lemma keeps_book_basic:
  "keeps_book (give x)" "keeps_book (from_result r)" "keeps_book (write_disk f)" "keeps_book (load p q a c i)"
  by (simp_all add: keeps_book_def vault_run load_def)

lemma keeps_book_then: "keeps_book m \<Longrightarrow> (\<And>x. keeps_book (f x)) \<Longrightarrow> keeps_book (then_act m f)"
  by (auto simp: keeps_book_def then_act_def split: prod.splits sum.splits) (metis snd_conv)+

lemma keeps_book_nested:
  "(\<And>d. keeps_book (h d)) \<Longrightarrow> keeps_book (read_disk h)"
  "keeps_book m \<Longrightarrow> keeps_book (or_else m x)"
  "(b \<Longrightarrow> keeps_book m) \<Longrightarrow> (\<not> b \<Longrightarrow> keeps_book n) \<Longrightarrow> keeps_book (if b then m else n)"
  by (auto simp: keeps_book_def vault_run or_else_def split: prod.splits sum.splits) (metis snd_conv)+

lemmas keeps_book_rules = keeps_book_basic keeps_book_then keeps_book_nested

lemma keeps_book_wallet: "keeps_book (hasStoredWallet k uuid)" "keeps_book (restoreWallet k dv uuid)"
  by (auto simp: hasStoredWallet_def restoreWallet_def migrateOldWallet_def updateWalletAddress_def write_seed_def
      saveWalletIndex_def saveSettings_def Let_def case_prod_beta intro!: keeps_book_rules split: option.splits)

text \<open>What an answered \<open>WALLET_SESSIONS\<close> that was not served from memory has read, after the wallet was restored.\<close>

lemma sessions_cases:
  assumes "WALLET_SESSIONS k dv uuid vpnActive ask now chain st v = (Inr (rows, st'), v')"
    and "\<not> (vpnActive \<and> ls_rows st \<noteq> [])"
  shows "\<exists>v1. answer_sessions ask now chain st v1 = (Inr (rows, st'), v') \<and> v_book v1 = v_book v"
proof -
  obtain stored v0 where h: "hasStoredWallet k uuid v = (Inr stored, v0)"
    and r: "then_act (if stored \<and> v_loaded v0 = None then then_act (restoreWallet k dv uuid) (\<lambda>_. give ()) else give ())
        (\<lambda>_. answer_sessions ask now chain st) v0 = (Inr (rows, st'), v')"
    using assms by (auto simp: WALLET_SESSIONS_def then_act_def [of "hasStoredWallet k uuid"] split: prod.splits sum.splits)
  let ?restore = "if stored \<and> v_loaded v0 = None then then_act (restoreWallet k dv uuid) (\<lambda>_. give ()) else give ()"
  from r obtain u v1 where v1: "?restore v0 = (Inr u, v1)" and a: "answer_sessions ask now chain st v1 = (Inr (rows, st'), v')"
    by (cases "?restore v0") (auto simp: then_act_def [of ?restore] split: sum.splits)
  have "keeps_book ?restore" by (intro keeps_book_rules keeps_book_wallet)
  then have "v_book v1 = v_book v0" using v1 unfolding keeps_book_def by (metis snd_conv)
  also have "\<dots> = v_book v" using h keeps_book_wallet(1) [of k uuid] unfolding keeps_book_def by (metis snd_conv)
  finally show ?thesis using a by blast
qed

text \<open>C18. The session list (WALLET_SESSIONS): while the tunnel is up and rows are known, it answers with these and
  changes nothing. Otherwise the rows are, in order and none left out, the sessions that were read for the loaded
  wallet and the other stored ones, and each is, field for field, an active or expiring session the chain lists
  for the loaded wallet, or one a record on disk says another stored wallet bought, read from the address of a
  stored wallet: its name and country are those of its record, else of the node directory, its peer and role
  those of its record, and its meters are the chain's or what was measured here before the call, whichever is
  more. The remembered measure of a session is kept as it was, unless the chain answered with other sessions, it
  is not among them and it is not the active one; and the rows the watchdog takes its baselines from are
  these.\<close>

theorem sessions_listed_faithfully:
  assumes "WALLET_SESSIONS k dv uuid vpnActive ask now chain st v = (Inr (rows, st'), v')"
  shows "if vpnActive \<and> ls_rows st \<noteq> [] then rows = ls_rows st \<and> st' = st \<and> v' = v
    else let files = b_files (v_book v); sessions = readAllSessions chain files (v_disk v') (v_loaded v') in
      list_all2 (row_faithful (b_usage (v_book v)) files (ls_dir st')) sessions rows \<and>
      (\<forall>s \<in> set sessions. session_origin chain files (v_disk v') (v_loaded v') s) \<and>
      (\<forall>i. b_usage (v_book v') i =
        (if sessions \<noteq> [] \<and> i \<notin> sr_id ` set sessions \<and> Some i \<noteq> b_session (v_book v) then None
         else b_usage (v_book v) i)) \<and>
      b_files (v_book v') = files \<and> b_session (v_book v') = b_session (v_book v) \<and>
      ls_rows st' = rows \<and> b_rows (v_book v') = map row_meters rows"
proof (cases "vpnActive \<and> ls_rows st \<noteq> []")
  case True
  with assms have "rows = ls_rows st" "st' = st" "v' = v" by (auto simp: WALLET_SESSIONS_def give_def)
  then show ?thesis unfolding if_P [OF True] by blast
next
  case False
  obtain v1 where a: "answer_sessions ask now chain st v1 = (Inr (rows, st'), v')" and b: "v_book v1 = v_book v"
    using sessions_cases [OF assms False] by blast
  let ?files = "b_files (v_book v)"
  let ?sessions = "readAllSessions chain ?files (v_disk v1) (v_loaded v1)"
  have v': "v_disk v' = v_disk v1" "v_loaded v' = v_loaded v1" "b_files (v_book v') = ?files"
      "b_session (v_book v') = b_session (v_book v)" "ls_rows st' = rows" "b_rows (v_book v') = map row_meters rows"
      "b_usage (v_book v') = prune_usage (map sr_id ?sessions) (b_session (v_book v)) (b_usage (v_book v))"
      "rows = shown_rows (b_usage (v_book v)) ?files (ls_dir st') ?sessions"
    using a by (auto simp: answer_sessions_def Let_def b)
  have "list_all2 (row_faithful (b_usage (v_book v)) ?files (ls_dir st')) ?sessions rows"
    using shown_faithful [of "b_usage (v_book v)" ?files "ls_dir st'" ?sessions] unfolding v'(8) [symmetric] .
  moreover have "\<forall>s \<in> set ?sessions. session_origin chain ?files (v_disk v1) (v_loaded v1) s"
    by (auto dest: read_origin)
  ultimately show ?thesis
    unfolding if_not_P [OF False] Let_def v'(1-7) pruned_only by simp
qed

section \<open>Who may end a session\<close>

definition cancel_account :: "chain_ctx \<Rightarrow> (string \<times> saved_config) list \<Rightarrow> string \<Rightarrow> string \<Rightarrow> bool" where
  "cancel_account ctx files i account \<longleftrightarrow>
     (case Option.bind (loadSessionConfig files i) sc_walletId of
        Some walletId \<Rightarrow>
          if cx_walletId ctx = Some walletId then \<exists>w. cx_wallet ctx = Some w \<and> account = wk_account w
          else \<exists>creds. cx_keys ctx walletId = Inr creds \<and> account = wk_account creds
      | None \<Rightarrow> \<exists>w. cx_wallet ctx = Some w \<and> account = wk_account w)"

text \<open>A cancel that only timed out is never taken for one the chain refused as too late.\<close>

lemma timeout_not_over: "\<not> isSessionNotActive END_SESSION_TX_TIMEOUT_MESSAGE"
  by code_simp

lemma end_session_cases:
  assumes "noting c (endSession c account i) h = (r, h')"
  shows "h' = h \<or> h' = h @ [Landed account (CancelSession i)] \<and> r = Inr () \<or>
    h' = h @ [Unconfirmed account (CancelSession i)] \<and> (\<exists>e. r = Inl e)"
proof (cases "c_connect c h")
  case (Inl e)
  then show ?thesis using assms by (auto simp: noting_def catching_def endSession_def seq_def run)
next
  case connected: (Inr u)
  let ?send = "send_tx c account (CancelSession i) None END_SESSION_TX_TIMEOUT_MESSAGE ''End session''"
  obtain t h1 where t: "?send h = (t, h1)" by fastforce
  have "h1 = h \<or> h1 = h @ [Landed account (CancelSession i)] \<and> (\<exists>tx. t = Inr tx) \<or>
      h1 = h @ [Unconfirmed account (CancelSession i)] \<and> t = Inl (failed END_SESSION_TX_TIMEOUT_MESSAGE)"
    using t by (cases "c_send c h account (CancelSession i) None")
      (auto simp: send_tx_def Let_def seen_def broadcastOrTimeout_def assertTxSucceeded_def split: sum.splits if_splits)
  moreover have "message_of (failed END_SESSION_TX_TIMEOUT_MESSAGE) = Some END_SESSION_TX_TIMEOUT_MESSAGE"
    by (simp add: message_of_def failed_def)
  ultimately show ?thesis
    using assms t connected timeout_not_over
    by (cases t) (auto simp: noting_def catching_def endSession_def seq_def run split: option.splits if_splits)
qed

lemma end_run:
  assumes "end_session_run c ctx w foreign i h = (r, h')"
  shows "(\<exists>e. r = Inl e \<and> h' = h) \<or>
    (\<exists>account tx. h' = h @ tx @ [SessionsChanged] \<and>
       (case foreign of None \<Rightarrow> account = wk_account w | Some j \<Rightarrow> \<exists>creds. cx_keys ctx j = Inr creds \<and> account = wk_account creds) \<and>
       (tx = [] \<or> funded c h account 0 \<and>
          (tx = [Landed account (CancelSession i)] \<and> r = Inr () \<or> tx = [Unconfirmed account (CancelSession i)] \<and> (\<exists>e. r = Inl e))))"
proof -
  let ?signer = "case foreign of None \<Rightarrow> ok (wk_account w) | Some j \<Rightarrow> and_then (cx_keys ctx j) (\<lambda>creds. ok (wk_account creds))"
  show ?thesis
  proof (cases ?signer)
    case (Inl e)
    then show ?thesis using assms by (auto simp: end_session_run_def run)
  next
    case (Inr account)
    have who: "case foreign of None \<Rightarrow> account = wk_account w | Some j \<Rightarrow> \<exists>creds. cx_keys ctx j = Inr creds \<and> account = wk_account creds"
      using Inr by (auto simp: and_then_eq_ok split: option.splits)
    let ?funds = "if foreign = None then assertSufficientFunds c account 0 else assertSufficientFundsFor c account 0"
    let ?cancel = "noting c (endSession c account i)"
    have fin: "finally_tell [SessionsChanged] (seq ?funds (\<lambda>_. ?cancel)) h = (r, h')"
      using assms unfolding end_session_run_def Inr lift_simps seq_ret by (simp split: if_splits)
    obtain f h1 where f: "?funds h = (f, h1)" by fastforce
    have h1: "h1 = h"
      using f by (cases "foreign = None"; cases "c_balances c h account")
        (auto simp: assertSufficientFunds_def assertSufficientFundsFor_def seq_def run Let_def split: if_splits)
    have paid: "f = Inr u \<Longrightarrow> funded c h account 0" for u
      using f funds_ok by (auto split: if_splits)
    show ?thesis
    proof (cases f)
      case (Inl e)
      with fin f h1 who show ?thesis by (auto simp: finally_tell_def run intro!: exI [of _ account])
    next
      case (Inr u)
      obtain r2 h2 where e: "?cancel h = (r2, h2)" by fastforce
      note ended = end_session_cases [OF e]
      have "r = r2 \<and> h' = h2 @ [SessionsChanged]"
        using fin f e Inr unfolding h1 by (simp add: finally_tell_def seq_def)
      with who paid [OF Inr] ended show ?thesis
        by (auto simp: finally_tell_def run intro!: exI [of _ account])
    qed
  qed
qed

text \<open>C4. Ending a session (WALLET_END_SESSION) signs at most one message, a cancel of that session, and never
  while the tunnel is up, nor for a session that carries the connection (either hop, in local-proxy mode or
  during a reconnect). It is signed by the wallet the session's record names, by the loaded one when it names
  none, and only when that account's balance, if it can be read, pays the gas. A cancel that landed is an
  answer without error; one that is still pending is an error. Once a signer was there the rows are asked to be
  read again, whatever came out; and the record on disk is retired exactly when the call succeeds, no other
  record being touched, records being kept under their own id.\<close>

theorem end_session_guarded:
  assumes "WALLET_END_SESSION c ctx vpnActive secure (JStr i) b h = (out, b', h')"
    and keyed: "\<forall>saved. loadSessionConfig (b_files b) i = Some saved \<longrightarrow> sc_sessionId saved = i"
  shows "h' = h \<and> b' = b \<and> (\<exists>e. out = Inl e) \<or>
    (\<exists>account tx. h' = h @ tx @ [SessionsChanged] \<and> \<not> vpnActive \<and>
       (connectionIsLive b \<longrightarrow> b_session b \<noteq> Some i \<and> b_exitSession b \<noteq> Some i) \<and>
       cancel_account ctx (b_files b) i account \<and>
       (tx = [] \<or> funded c h account 0 \<and>
          (tx = [Landed account (CancelSession i)] \<and> out = Inr () \<or> tx = [Unconfirmed account (CancelSession i)] \<and> (\<exists>e. out = Inl e))) \<and>
       b' = (if out = Inr () then session_ended secure i b else b) \<and>
       (\<forall>j. j \<noteq> i \<longrightarrow> loadSessionConfig (b_files b') j = loadSessionConfig (b_files b) j))"
proof (cases "end_session_owner (cx_wallet ctx \<noteq> None) vpnActive (cx_walletId ctx) i b")
  case (Inl e)
  then show ?thesis using assms by (auto simp: WALLET_END_SESSION_def Let_def split: sum.splits)
next
  case (Inr foreign)
  then have gates: "\<not> vpnActive" "connectionIsLive b \<longrightarrow> b_session b \<noteq> Some i \<and> b_exitSession b \<noteq> Some i"
      "\<exists>w. cx_wallet ctx = Some w"
    by (auto simp: end_session_owner_def split: if_splits)
  have "\<not> decimal_id []" by code_simp
  with Inr have "assertString (JStr i) ''sessionId'' = Inr ()"
    by (cases i) (auto simp: end_session_owner_def assertString_def)
  then obtain r where r: "end_session_run c ctx (the (cx_wallet ctx)) foreign i h = (r, h')"
    and out: "out = r" "b' = (if r = Inr () then session_ended secure i b else b)"
    using assms(1) Inr
    by (cases "end_session_run c ctx (the (cx_wallet ctx)) foreign i h")
      (auto simp: WALLET_END_SESSION_def Let_def split: sum.splits if_splits)
  have who: "cancel_account ctx (b_files b) i account"
    if "case foreign of None \<Rightarrow> account = wk_account (the (cx_wallet ctx))
        | Some j \<Rightarrow> \<exists>creds. cx_keys ctx j = Inr creds \<and> account = wk_account creds" for account
    using that Inr gates(3)
    by (auto simp: cancel_account_def end_session_owner_def split: if_splits option.splits)
  have others: "loadSessionConfig (b_files b') j = loadSessionConfig (b_files b) j" if "j \<noteq> i" for j
    using that keyed
    by (auto simp: out session_ended_def retireSessionConfig_def loadSessionConfig_def store_record_def update_conv' delete_conv'
        split: option.splits)
  from end_run [OF r] show ?thesis
  proof
    assume "\<exists>e. r = Inl e \<and> h' = h"
    then show ?thesis using out by auto
  next
    assume "\<exists>account tx. h' = h @ tx @ [SessionsChanged] \<and>
       (case foreign of None \<Rightarrow> account = wk_account (the (cx_wallet ctx))
        | Some j \<Rightarrow> \<exists>creds. cx_keys ctx j = Inr creds \<and> account = wk_account creds) \<and>
       (tx = [] \<or> funded c h account 0 \<and>
          (tx = [Landed account (CancelSession i)] \<and> r = Inr () \<or> tx = [Unconfirmed account (CancelSession i)] \<and> (\<exists>e. r = Inl e)))"
    with who others gates out show ?thesis by blast
  qed
qed

section \<open>Two wallets, three sessions\<close>

text \<open>Session 5 is the loaded wallet's, 7 the exit of a chain another stored wallet paid for, 8 that wallet's own.\<close>

definition sample_session :: "nat \<Rightarrow> session_any" where
  "sample_session i = NodeSession (Some \<lparr>bs_id = i, bs_nodeAddress = ''n'', bs_status = 1, bs_downloadBytes = ''100'',
     bs_uploadBytes = ''10'', bs_maxBytes = ''1000'', bs_inactiveAt = None, bs_startAt = None, bs_duration = None,
     bs_maxDuration = None\<rparr>) None"

definition sample_sessions :: sessions_query where
  "sample_sessions a = (if a = ''me'' then Some [sample_session 5] else if a = ''other'' then Some [sample_session 7, sample_session 8]
     else None)"

definition sample_record :: saved_config where
  "sample_record = \<lparr>sc_sessionId = ''7'', sc_protocol = ''xray'', sc_configString = ''C'', sc_nodeAddress = ''n'', sc_nodeMoniker = Some ''m'',
     sc_nodeCountry = None, sc_chainPeer = Some ''5'', sc_chainRole = Some Exit, sc_walletId = Some ''w2'', sc_nodeType = Some 4\<rparr>"

definition sample_book :: book where
  "sample_book = empty_book\<lparr>b_files := [(''7'', sample_record)],
     b_usage := (\<lambda>i. if i = ''5'' then Some \<lparr>ru_downloadBytes = ''900'', ru_uploadBytes = ''1'', ru_durationSeconds = 0\<rparr> else None)\<rparr>"

definition sample_wallet :: "string \<Rightarrow> string \<Rightarrow> wallet_entry" where
  "sample_wallet i a = \<lparr>we_id = i, we_name = i, we_address = a, we_account = Some 0, we_addressIndex = Some 0, we_provider = None\<rparr>"

definition sample_profile :: vault where
  "sample_profile = \<lparr>v_disk = \<lparr>d_index = Holds [sample_wallet ''w1'' ''me'', sample_wallet ''w2'' ''other''], d_seeds = Map.empty,
       d_settings = Missing, d_legacy = None\<rparr>, v_past = [],
     v_loaded = Some \<lparr>l_phrase = ''p'', l_path = ''m'', l_address = ''me'', l_key = ''k'', l_wallet = ''w1''\<rparr>, v_book = sample_book,
     v_balance = JNull, v_planOverview = JNull, v_providerOverview = JNull\<rparr>"

definition no_listing :: listing where
  "no_listing = \<lparr>ls_rows = [], ls_dir = \<lparr>dr_nodes = None, dr_entries = [], dr_file = None\<rparr>\<rparr>"

definition no_keyring :: keyring where
  "no_keyring = \<lparr>k_available = False, k_backend = None, k_encrypt = (\<lambda>m. m), k_decrypt = (\<lambda>_. None)\<rparr>"

definition no_derivation :: derivation where
  "no_derivation = \<lparr>fromMnemonic = (\<lambda>_ _. Inl []), derivePrivKey = (\<lambda>_ _. Inl [])\<rparr>"

abbreviation sample_listing :: "sessions_query \<Rightarrow> (shown_row list \<times> listing) result \<times> vault" where
  "sample_listing chain \<equiv> WALLET_SESSIONS no_keyring no_derivation ''id'' False (\<lambda>_. throw ''down'') 0 chain no_listing sample_profile"

lemma sample_rows:
  "map_sum id (\<lambda>(rows, _). map (\<lambda>r. (sr_id r, sr_downloadBytes r, sh_chainPeer r)) rows) (fst (sample_listing sample_sessions)) =
     Inr [(''5'', ''900'', None), (''7'', ''100'', Some ''5'')]"
  by code_simp

lemma sessions_listed_faithfully_witness:
  "\<exists>rows st' v'. sample_listing sample_sessions = (Inr (rows, st'), v') \<and> map sr_id rows = [''5'', ''7''] \<and>
     b_rows (v_book v') = map row_meters rows"
proof -
  obtain rows st' v' where run: "sample_listing sample_sessions = (Inr (rows, st'), v')"
    using sample_rows by (cases "sample_listing sample_sessions"; cases "fst (sample_listing sample_sessions)") auto
  have "map sr_id rows = [''5'', ''7'']" using sample_rows unfolding run by (auto simp: comp_def)
  moreover have "b_rows (v_book v') = map row_meters rows"
    using sessions_listed_faithfully [OF run] by (auto simp: Let_def)
  ultimately show ?thesis using run by (intro exI conjI)
qed

text \<open>A query that failed for one of two accounts looks like an account without sessions: the measure of its
  sessions is dropped although the chain never said they were over.\<close>

lemma partial_read_prunes:
  "b_usage (v_book sample_profile) ''5'' \<noteq> None"
  "b_usage (v_book (snd (sample_listing (sample_sessions(''me'' := None))))) ''5'' = None"
  by code_simp+

lemma sample_end_run:
  "WALLET_END_SESSION chain_sample chain_sample_ctx False True (JStr ''7'') sample_book [] =
     (Inr (), session_ended True ''7'' sample_book, [Landed ''other'' (CancelSession ''7''), SessionsChanged])"
proof -
  have "end_session_owner True False (Some ''w1'') ''7'' sample_book = ok (Some ''w2'')" by code_simp
  then show ?thesis
    by (simp add: WALLET_END_SESSION_def assertString_def chain_sample_ctx_def end_session_run_def finally_tell_def
        assertSufficientFundsFor_def endSession_def noting_def catching_def seq_def run chain_sample_def sample_chain_def
        send_tx_def Let_def seen_def broadcastOrTimeout_def assertTxSucceeded_def and_then_def)
qed

lemma end_session_guarded_witness:
  "cancel_account chain_sample_ctx (b_files sample_book) ''7'' ''other'' \<and> funded chain_sample [] ''other'' 0"
proof -
  have "\<forall>saved. loadSessionConfig (b_files sample_book) ''7'' = Some saved \<longrightarrow> sc_sessionId saved = ''7''"
    by (simp add: sample_book_def loadSessionConfig_def sample_record_def)
  from end_session_guarded [OF sample_end_run this] show ?thesis by auto
qed

end
