(* ===== verification/ProxyChildren.thy ===== *)
theory ProxyChildren
  imports JsonText Validate
begin

text \<open>
  The record of running proxy cores, \<open>src/main/vpn/proxy-children.ts\<close>: what a spawn writes, what the core's exit
  removes, and how the next launch stops a core that outlived a crash. The state file is its text (\<open>None\<close> when
  it does not exist), a record the JavaScript value in it; \<open>parse\<close> is \<open>JSON.parse\<close>. \<open>procfs\<close> is what
  \<open>/proc\<close> shows at that moment. Writes of the state file are taken to succeed.
\<close>

section \<open>Records\<close>

definition is_integer :: "jnum \<Rightarrow> bool" where
  "is_integer n = (case num_value n of Some x \<Rightarrow> snd (quotient_of x) = 1 | None \<Rightarrow> False)"

definition above_one :: "jnum \<Rightarrow> bool" where
  "above_one n = (case num_value n of Some x \<Rightarrow> 1 < x | None \<Rightarrow> False)"

definition filled_string :: "js \<Rightarrow> bool" where
  "filled_string v = (case v of JStr (c # cs) \<Rightarrow> True | _ \<Rightarrow> False)"

definition valid_record :: "js \<Rightarrow> bool" where
  "valid_record r \<longleftrightarrow> is_object r \<and>
     (case jget ''pid'' r of JNum n \<Rightarrow> is_integer n \<and> above_one n | _ \<Rightarrow> False) \<and>
     filled_string (jget ''exe'' r) \<and> filled_string (jget ''configFile'' r)"

definition parseProxyChildRecords :: "(string \<Rightarrow> js option) \<Rightarrow> string \<Rightarrow> js list" where
  "parseProxyChildRecords parse raw =
     (case parse raw of Some (JArr rs) \<Rightarrow> filter valid_record rs | _ \<Rightarrow> [])"

definition readProxyChildRecords :: "(string \<Rightarrow> js option) \<Rightarrow> string option \<Rightarrow> js list" where
  "readProxyChildRecords parse state = (case state of None \<Rightarrow> [] | Some raw \<Rightarrow> parseProxyChildRecords parse raw)"

definition writeProxyChildRecords :: "js list \<Rightarrow> string option" where
  "writeProxyChildRecords records = (if records = [] then None else Some (stringify 0 (JArr records)))"

section \<open>Processes\<close>

record procfs =
  p_link :: "string \<Rightarrow> string option"
  p_file :: "string \<Rightarrow> string option"

definition proc_path :: "jnum \<Rightarrow> string \<Rightarrow> string" where
  "proc_path pid name = ''/proc/'' @ show_num pid @ ''/'' @ name"

definition pid_of :: "js \<Rightarrow> jnum" where
  "pid_of r = (case jget ''pid'' r of JNum n \<Rightarrow> n | _ \<Rightarrow> NOther ''NaN'')"

definition isRecordedProxyChild :: "procfs \<Rightarrow> js \<Rightarrow> bool" where
  "isRecordedProxyChild pf r =
     (case p_link pf (proc_path (pid_of r) ''exe'') of
        None \<Rightarrow> False
      | Some exe \<Rightarrow>
          if JStr exe \<noteq> jget ''exe'' r then False
          else (case p_file pf (proc_path (pid_of r) ''cmdline'') of
              None \<Rightarrow> False
            | Some cmdline \<Rightarrow> jget ''configFile'' r \<in> JStr ` set (split_on CHR 0x00 cmdline)))"

definition core_record :: "int \<Rightarrow> string \<Rightarrow> string \<Rightarrow> js" where
  "core_record pid exe configFile =
     JObj [(''pid'', JNum (NInt pid)), (''exe'', JStr exe), (''configFile'', JStr configFile)]"

definition others_than :: "(string \<Rightarrow> js option) \<Rightarrow> int \<Rightarrow> string option \<Rightarrow> js list" where
  "others_than parse pid state = filter (\<lambda>r. pid_of r \<noteq> NInt pid) (readProxyChildRecords parse state)"

text \<open>At the spawn; \<open>pid\<close> is \<open>None\<close> when the spawn failed. The second definition is the child's own exit.\<close>

definition trackProxyChildIn ::
  "(string \<Rightarrow> js option) \<Rightarrow> procfs \<Rightarrow> int option \<Rightarrow> string \<Rightarrow> string option \<Rightarrow> string option" where
  "trackProxyChildIn parse pf pid configFile state =
     (case pid of
        None \<Rightarrow> state
      | Some p \<Rightarrow>
          if p = 0 then state
          else (case p_link pf (proc_path (NInt p) ''exe'') of
              None \<Rightarrow> state
            | Some exe \<Rightarrow> writeProxyChildRecords (others_than parse p state @ [core_record p exe configFile])))"

definition untrackProxyChild :: "(string \<Rightarrow> js option) \<Rightarrow> int \<Rightarrow> string option \<Rightarrow> string option" where
  "untrackProxyChild parse pid state = writeProxyChildRecords (others_than parse pid state)"

section \<open>Reaping\<close>

datatype sig = SIGTERM | SIGKILL

text \<open>
  The cores still alive when the loop ends: \<open>polls\<close> are the answers of \<open>isPidAlive\<close> at each turn the deadline
  allows.
\<close>

fun await_exit :: "(jnum \<Rightarrow> bool) list \<Rightarrow> js list \<Rightarrow> js list" where
  "await_exit [] pending = pending"
| "await_exit (alive # polls) pending =
     (if pending = [] then [] else await_exit polls (filter (\<lambda>r. alive (pid_of r)) pending))"

text \<open>The result, the signals sent in order, and the state file afterwards.\<close>

definition reapOrphanedProxyChildrenIn ::
  "(string \<Rightarrow> js option) \<Rightarrow> procfs \<Rightarrow> (jnum \<Rightarrow> bool) \<Rightarrow> (jnum \<Rightarrow> bool) list \<Rightarrow> string option \<Rightarrow>
     bool \<times> (sig \<times> jnum) list \<times> string option" where
  "reapOrphanedProxyChildrenIn parse pf alive polls state =
     (let records = readProxyChildRecords parse state;
          ours = filter (isRecordedProxyChild pf) records
      in if records = [] then (False, [], state)
         else if ours = [] then (False, [], writeProxyChildRecords [])
         else
           let pending = await_exit polls (filter (\<lambda>r. alive (pid_of r)) ours)
           in (True, map (\<lambda>r. (SIGTERM, pid_of r)) ours @ map (\<lambda>r. (SIGKILL, pid_of r)) pending,
               writeProxyChildRecords []))"

section \<open>Properties\<close>

lemma await_exit_subset: "set (await_exit polls rs) \<subseteq> set rs"
proof (induction polls rs rule: await_exit.induct)
  case (2 alive polls pending)
  then show ?case by auto
qed simp

lemma await_exit_alive: "r \<in> set (await_exit polls rs) \<Longrightarrow> \<forall>alive \<in> set polls. alive (pid_of r)"
proof (induction polls rs rule: await_exit.induct)
  case (2 alive polls pending)
  then show ?case using await_exit_subset [of polls "filter (\<lambda>r. alive (pid_of r)) pending"]
    by (auto split: if_splits)
qed simp

lemma read_valid: "r \<in> set (readProxyChildRecords parse state) \<Longrightarrow> valid_record r"
  by (auto simp: readProxyChildRecords_def parseProxyChildRecords_def split: option.splits js.splits)

lemma valid_pid: "valid_record r \<Longrightarrow> \<exists>n. jget ''pid'' r = JNum n \<and> pid_of r = n \<and> is_integer n \<and> above_one n"
  by (auto simp: valid_record_def pid_of_def split: js.splits)

text \<open>
  C11. At launch only a core this app started can be signalled: a process that gets a signal is one the state file
  records under that process id, whose program file is the recorded one and whose argument list holds the
  recorded config path; no signal goes to a process group or to process 1, and SIGKILL goes only to a process
  that got SIGTERM and was alive at every look since.
\<close>

theorem only_our_cores_signalled:
  assumes "reapOrphanedProxyChildrenIn parse pf alive polls state = (killed, sent, state')" and "(s, pid) \<in> set sent"
  shows "above_one pid \<and>
    (\<exists>r \<in> set (readProxyChildRecords parse state). jget ''pid'' r = JNum pid \<and>
       (\<exists>exe. p_link pf (proc_path pid ''exe'') = Some exe \<and> jget ''exe'' r = JStr exe) \<and>
       (\<exists>cmdline config. p_file pf (proc_path pid ''cmdline'') = Some cmdline \<and> jget ''configFile'' r = JStr config \<and>
          config \<in> set (split_on CHR 0x00 cmdline))) \<and>
    (s = SIGKILL \<longrightarrow> (SIGTERM, pid) \<in> set sent \<and> alive pid \<and> (\<forall>a \<in> set polls. a pid))"
proof -
  let ?rs = "readProxyChildRecords parse state"
  let ?ours = "filter (isRecordedProxyChild pf) ?rs" and ?left = "await_exit polls (filter (\<lambda>r. alive (pid_of r))
    (filter (isRecordedProxyChild pf) ?rs))"
  have sent: "sent = map (\<lambda>r. (SIGTERM, pid_of r)) ?ours @ map (\<lambda>r. (SIGKILL, pid_of r)) ?left"
    using assms by (auto simp: reapOrphanedProxyChildrenIn_def Let_def split: if_splits)
  have left: "set ?left \<subseteq> set ?ours"
    using await_exit_subset [of polls "filter (\<lambda>r. alive (pid_of r)) ?ours"] by auto
  have "\<exists>r \<in> set ?ours. pid_of r = pid" using assms(2) sent left by auto
  then obtain r where r: "r \<in> set ?rs" "isRecordedProxyChild pf r" "pid_of r = pid" by auto
  with valid_pid [OF read_valid] obtain n where n: "jget ''pid'' r = JNum n" "n = pid" "above_one pid" by metis
  have "(\<exists>exe. p_link pf (proc_path pid ''exe'') = Some exe \<and> jget ''exe'' r = JStr exe) \<and>
     (\<exists>cmdline config. p_file pf (proc_path pid ''cmdline'') = Some cmdline \<and> jget ''configFile'' r = JStr config \<and>
          config \<in> set (split_on CHR 0x00 cmdline))"
    using r(2,3) by (auto simp: isRecordedProxyChild_def split: option.splits if_splits)
  moreover have "(SIGTERM, pid) \<in> set sent \<and> alive pid \<and> (\<forall>a \<in> set polls. a pid)" if "s = SIGKILL"
  proof -
    from that assms(2) sent obtain q where q: "q \<in> set ?left" "pid_of q = pid" by auto
    with left await_exit_subset [of polls "filter (\<lambda>r. alive (pid_of r)) ?ours"] await_exit_alive [OF q(1)]
    show ?thesis unfolding sent by auto
  qed
  ultimately show ?thesis using r(1) n by auto
qed

lemma core_record_valid: "1 < pid \<Longrightarrow> exe \<noteq> [] \<Longrightarrow> configFile \<noteq> [] \<Longrightarrow> valid_record (core_record pid exe configFile)"
  by (cases exe; cases configFile)
     (auto simp: valid_record_def core_record_def is_integer_def above_one_def num_value_def filled_string_def)

lemma core_record_pid [simp]: "pid_of (core_record pid exe configFile) = NInt pid"
  by (simp add: pid_of_def core_record_def)

text \<open>
  A core that outlives the app is stopped at the next launch: when the process recorded at its spawn still runs the
  same program with the same config path, the launch sends it SIGTERM, reports that it closed a tunnel, and
  the record is spent; and a core that exited while the app was alive is in no record any more.
\<close>

theorem core_left_behind_is_stopped:
  assumes "1 < pid" and "exe \<noteq> []" and "configFile \<noteq> []"
    and "p_link pf (proc_path (NInt pid) ''exe'') = Some exe"
    and "parse (stringify 0 (JArr (others_than parse pid state @ [core_record pid exe configFile]))) =
      Some (JArr (others_than parse pid state @ [core_record pid exe configFile]))"
    and "p_link pf' (proc_path (NInt pid) ''exe'') = Some exe"
    and "p_file pf' (proc_path (NInt pid) ''cmdline'') = Some cmdline" and "configFile \<in> set (split_on CHR 0x00 cmdline)"
    and "reapOrphanedProxyChildrenIn parse pf' alive polls (trackProxyChildIn parse pf (Some pid) configFile state) =
      (killed, sent, state')"
  shows "killed \<and> (SIGTERM, NInt pid) \<in> set sent \<and> state' = None \<and>
    (\<forall>r \<in> set (others_than parse pid state). pid_of r \<noteq> NInt pid)"
proof -
  let ?rec = "core_record pid exe configFile"
  let ?t = "trackProxyChildIn parse pf (Some pid) configFile state"
  have "?t = Some (stringify 0 (JArr (others_than parse pid state @ [?rec])))"
    using assms(1,4) by (simp add: trackProxyChildIn_def writeProxyChildRecords_def)
  then have "?rec \<in> set (readProxyChildRecords parse ?t)"
    using assms(5) core_record_valid [OF assms(1-3)]
    by (simp add: readProxyChildRecords_def parseProxyChildRecords_def)
  moreover have "isRecordedProxyChild pf' ?rec"
    using assms(6-8) unfolding isRecordedProxyChild_def core_record_pid by (simp add: core_record_def image_iff)
  ultimately have "?rec \<in> set (filter (isRecordedProxyChild pf') (readProxyChildRecords parse ?t))" by simp
  then have ours: "filter (isRecordedProxyChild pf') (readProxyChildRecords parse ?t) \<noteq> []"
    "readProxyChildRecords parse ?t \<noteq> []" "(SIGTERM, NInt pid) \<in> (\<lambda>r. (SIGTERM, pid_of r)) `
      set (filter (isRecordedProxyChild pf') (readProxyChildRecords parse ?t))"
    by (auto simp del: set_filter intro!: image_eqI [of _ _ ?rec])
  with assms(9) show ?thesis
    by (auto simp: reapOrphanedProxyChildrenIn_def Let_def writeProxyChildRecords_def others_than_def)
qed

section \<open>Witnesses\<close>

definition some_procfs :: procfs where
  "some_procfs = \<lparr>p_link = (\<lambda>f. if f = ''/proc/4242/exe'' then Some ''/opt/app/bin/xray'' else None),
     p_file = (\<lambda>f. if f = ''/proc/4242/cmdline'' then Some (''xray'' @ [CHR 0x00] @ ''/tmp/k/v2ray.json'') else None)\<rparr>"

definition stored_record :: "string \<Rightarrow> js option" where
  "stored_record raw = Some (JArr [core_record 4242 ''/opt/app/bin/xray'' ''/tmp/k/v2ray.json''])"

lemma proc_4242: "proc_path (NInt 4242) name = ''/proc/4242/'' @ name"
proof -
  have "show_nat 4242 = ''4242''" by (simp add: show_nat.simps digit_char_def char_of_def bit_iff_odd)
  then show ?thesis by (simp add: proc_path_def show_int_def)
qed

theorem core_left_behind_is_stopped_witness:
  "(SIGTERM, NInt 4242) \<in> set (fst (snd (reapOrphanedProxyChildrenIn stored_record some_procfs (\<lambda>_. False) []
     (trackProxyChildIn stored_record some_procfs (Some 4242) ''/tmp/k/v2ray.json'' None))))"
proof -
  have "p_link some_procfs (proc_path (NInt 4242) ''exe'') = Some ''/opt/app/bin/xray''"
    and "p_file some_procfs (proc_path (NInt 4242) ''cmdline'') = Some (''xray'' @ [CHR 0x00] @ ''/tmp/k/v2ray.json'')"
    by (simp_all add: some_procfs_def proc_4242)
  moreover have "others_than stored_record 4242 None = []" by (simp add: others_than_def readProxyChildRecords_def)
  ultimately show ?thesis
    using core_left_behind_is_stopped [of 4242 "''/opt/app/bin/xray''" "''/tmp/k/v2ray.json''" some_procfs
        stored_record None some_procfs "''xray'' @ [CHR 0x00] @ ''/tmp/k/v2ray.json''" "\<lambda>_. False" "[]"]
    by (cases "reapOrphanedProxyChildrenIn stored_record some_procfs (\<lambda>_. False) []
        (trackProxyChildIn stored_record some_procfs (Some 4242) ''/tmp/k/v2ray.json'' None)")
       (simp add: stored_record_def)
qed

theorem only_our_cores_signalled_witness:
  "\<exists>r \<in> set (readProxyChildRecords stored_record (Some [])). jget ''pid'' r = JNum (NInt 4242) \<and>
     reapOrphanedProxyChildrenIn stored_record some_procfs (\<lambda>_. True) [\<lambda>_. True] (Some []) =
       (True, [(SIGTERM, NInt 4242), (SIGKILL, NInt 4242)], None)"
proof -
  let ?rec = "core_record 4242 ''/opt/app/bin/xray'' ''/tmp/k/v2ray.json''"
  have rs: "readProxyChildRecords stored_record (Some []) = [?rec]"
    by (simp add: readProxyChildRecords_def parseProxyChildRecords_def stored_record_def core_record_valid)
  have "isRecordedProxyChild some_procfs ?rec"
    unfolding isRecordedProxyChild_def core_record_pid by (simp add: some_procfs_def proc_4242 core_record_def)
  then have run: "reapOrphanedProxyChildrenIn stored_record some_procfs (\<lambda>_. True) [\<lambda>_. True] (Some []) =
      (True, [(SIGTERM, NInt 4242), (SIGKILL, NInt 4242)], None)"
    by (simp add: reapOrphanedProxyChildrenIn_def rs writeProxyChildRecords_def)
  then show ?thesis
    using only_our_cores_signalled [OF run, of SIGKILL "NInt 4242"] by auto
qed

end
