(* ===== verification/VpnManager.thy ===== *)
theory VpnManager
  imports Firewall V2RayGuard OvpnConfig ProxyChildren
begin

text \<open>
  The tunnel itself, \<open>src/main/vpn/vpn-manager.ts\<close>: the module's variables, the files it writes, the proxy cores it
  has spawned and what it asks the privileged helper to do, from a config to a running tunnel and back.

  A core is the index of its entry in \<open>t_cores\<close>; \<open>t_links\<close> is what the \<open>ip\<close> commands show. An \<open>await\<close> of the helper
  is where other things happen: the events of \<open>y_meanwhile\<close> (a core writes or exits, the status is polled,
  the interfaces change) run there, so every operation below is interleaved with them. The helper's answer and
  its effect on the interfaces are arguments (\<open>Privileged\<close> says how a call reaches root), as are the
  resolver, the hash of a file, \<open>JSON.parse\<close> and the process ids. Two simplifications: the \<open>tun-down\<close> a
  dying core starts without awaiting it is over before its handler ends, and writing a file succeeds.
\<close>

section \<open>State\<close>

definition WG_IFACE :: string where "WG_IFACE = ''sntl0''"
definition TUN_IFACE :: string where "TUN_IFACE = ''sntl-tun''"
definition OVPN_CONFIG_NAME :: string where "OVPN_CONFIG_NAME = ''openvpn.conf''"
definition SOCKS_ADDR :: string where "SOCKS_ADDR = ''127.0.0.1:'' @ show_int SOCKS_PORT"
definition DNS_PROVISION_FAILED :: string where "DNS_PROVISION_FAILED = ''DNS_PROVISION_FAILED''"

text \<open>
  What \<open>ip link show NAME\<close>, \<open>ip -o link show type KIND\<close> and \<open>ip route show default\<close> answer; \<open>None\<close> when the
  command fails.
\<close>

record links =
  ip_up :: "string \<Rightarrow> bool"
  ip_type :: "string \<Rightarrow> string option"
  ip_default :: "string option"

text \<open>Of a core, \<open>c_sha\<close> and \<open>c_there\<close> record what its program's file hashed to and which files existed when it was
  spawned; no code reads them.\<close>

record core =
  c_bin :: string
  c_args :: "string list"
  c_config :: string
  c_log :: "string option"
  c_pid :: "int option"
  c_exit :: "int option"
  c_term :: bool
  c_sha :: "string option"
  c_there :: "string \<Rightarrow> bool"

text \<open>
  \<open>t_calls\<close> lists the helper calls made, each with the content of the config file it was given; \<open>t_notified\<close> the
  exits reported to the reconnect handler.
\<close>

record vm =
  activeChild :: "nat option"
  activeProtocol :: "protocol option"
  activeMode :: tunnel_mode
  activeConfigFile :: "string option"
  activeLogPath :: "string option"
  v2rayStderr :: string
  tunActive :: bool
  tunRoute :: "(string \<times> string) option"
  lastResolved :: "string \<rightharpoonup> string"
  versionCache :: "string \<rightharpoonup> nat"
  exitCallback :: bool
  t_links :: links
  t_files :: "string \<rightharpoonup> string"
  t_cores :: "core list"
  t_calls :: "(string list \<times> string option) list"
  t_notified :: "nat list"

datatype vm_event = CoreOutput nat string | CoreExit nat int | StatusAsked | LinksChanged links

record sys =
  y_tmp :: string
  y_bin :: string
  y_data :: string
  y_path :: string
  y_exists :: "string \<Rightarrow> bool"
  y_sha256 :: "string \<Rightarrow> string option"
  y_runnable :: "string \<Rightarrow> bool"
  y_version :: "string \<Rightarrow> string \<Rightarrow> string option"
  y_getent :: "string \<Rightarrow> string option"
  y_parse :: "string \<Rightarrow> js option"
  y_pid :: "nat \<Rightarrow> int option"
  y_procfs :: "nat \<Rightarrow> procfs"
  y_routes :: js
  y_started :: string
  y_call :: "nat \<Rightarrow> links \<Rightarrow> string list \<Rightarrow> string option \<times> links"
  y_meanwhile :: "nat \<Rightarrow> vm_event list"

definition in_dir :: "string \<Rightarrow> string \<Rightarrow> string" where
  "in_dir dir name = dir @ ''/'' @ name"

definition WG_CONFIG :: "sys \<Rightarrow> string" where "WG_CONFIG y = in_dir (y_tmp y) (WG_IFACE @ ''.conf'')"
definition OVPN_CONFIG :: "sys \<Rightarrow> string" where "OVPN_CONFIG y = in_dir (y_tmp y) OVPN_CONFIG_NAME"
definition V2RAY_CONFIG :: "sys \<Rightarrow> string" where "V2RAY_CONFIG y = in_dir (y_tmp y) ''v2ray.json''"
definition PROXY_CHILDREN_STATE :: "sys \<Rightarrow> string" where
  "PROXY_CHILDREN_STATE y = in_dir (y_data y) ''proxy-children.json''"

definition isChildProxy :: "protocol option \<Rightarrow> bool" where
  "isChildProxy p \<longleftrightarrow> p = Some V2Ray \<or> p = Some XRay \<or> p = Some Hysteria2"

definition write_file :: "string \<Rightarrow> string \<Rightarrow> vm \<Rightarrow> vm" where
  "write_file f content s = s\<lparr>t_files := (t_files s)(f \<mapsto> content)\<rparr>"

definition unlink_file :: "string \<Rightarrow> vm \<Rightarrow> vm" where
  "unlink_file f s = s\<lparr>t_files := (t_files s)(f := None)\<rparr>"

section \<open>Binaries\<close>

definition BUNDLED_HASHES :: "string \<rightharpoonup> string" where
  "BUNDLED_HASHES = map_of
     [(''v2ray'', ''751f52a3d9324c993953b7ebb6aab79e77115542a8ca1ef83078cb215c03dea8''),
      (''xray'', ''8255dd939c34cf966cc91517b6324dd3c8d0bcf49ffac8beca049a38c46845ed''),
      (''hysteria'', ''04f7804159ef1d798de12a817d73aab4b9040ebe45fc62e223000c5c59e987fe'')]"

definition verifyBinaryIntegrity :: "sys \<Rightarrow> string \<Rightarrow> string \<Rightarrow> bool" where
  "verifyBinaryIntegrity y path name =
     (case BUNDLED_HASHES name of None \<Rightarrow> True | Some expected \<Rightarrow> y_sha256 y path = Some expected)"

definition resolveBundled :: "sys \<Rightarrow> string \<Rightarrow> string result" where
  "resolveBundled y name =
     (let bundled = in_dir (y_bin y) name in
      if y_exists y bundled then
        (if verifyBinaryIntegrity y bundled name then ok bundled
         else throw (''Bundled binary '' @ name @ '' failed SHA-256 integrity check. '' @
           ''Refusing to run. Reinstall the app to restore the verified binary.''))
      else ok name)"

definition isOnPath :: "sys \<Rightarrow> string \<Rightarrow> bool" where
  "isOnPath y name \<longleftrightarrow> list_ex (\<lambda>dir. dir \<noteq> [] \<and> y_runnable y (in_dir dir name)) (split_on CHR '':'' (y_path y))"

definition binaryExists :: "sys \<Rightarrow> string \<Rightarrow> bool" where
  "binaryExists y name \<longleftrightarrow>
     name \<noteq> [] \<and> list_all (\<lambda>c. is_alnum c \<or> c = CHR ''.'' \<or> c = CHR ''_'' \<or> c = CHR ''-'') name \<and> isOnPath y name"

definition resolveOpenVpnBinary :: "sys \<Rightarrow> string result" where
  "resolveOpenVpnBinary y =
     (case find (y_exists y) [''/usr/sbin/openvpn'', ''/sbin/openvpn'', ''/usr/bin/openvpn''] of
        Some candidate \<Rightarrow> ok candidate
      | None \<Rightarrow> throw ''openvpn is not installed. Install the openvpn package.'')"

definition isBinaryAvailable :: "sys \<Rightarrow> string \<Rightarrow> bool result" where
  "isBinaryAvailable y name =
     and_then (resolveBundled y name) (\<lambda>resolved. ok (if resolved \<noteq> name then True else binaryExists y name))"

definition core_name :: "protocol \<Rightarrow> string" where
  "core_name p = (if p = V2Ray then ''v2ray'' else if p = XRay then ''xray'' else ''hysteria'')"

text \<open>\<open>None\<close> when the runtime is fine.\<close>

definition protocolRuntimeError :: "sys \<Rightarrow> protocol \<Rightarrow> string option" where
  "protocolRuntimeError y p =
     (let answer =
        (case p of
           WireGuard \<Rightarrow> ok (if binaryExists y ''wg-quick'' then None
             else Some ''wg-quick is not installed. Install the wireguard-tools package.'')
         | AmneziaWg \<Rightarrow> ok None
         | OpenVpn \<Rightarrow> and_then (resolveOpenVpnBinary y) (\<lambda>_. ok None)
         | _ \<Rightarrow> and_then (isBinaryAvailable y (core_name p)) (\<lambda>found.
             ok (if found then None
                 else Some (''The '' @ core_name p @ '' binary is missing from this build. Reinstall the app.''))))
      in case answer of Inl message \<Rightarrow> Some message | Inr r \<Rightarrow> r)"

text \<open>\<open>/V2Ray (\d+)\./\<close>, searched for.\<close>

fun version_in :: "string \<Rightarrow> nat option" where
  "version_in [] = None"
| "version_in (c # cs) =
     (let rest = drop 6 (c # cs); ds = takeWhile is_digit rest in
      if starts_with ''V2Ray '' (c # cs) \<and> ds \<noteq> [] \<and> starts_with ''.'' (drop (length ds) rest)
      then Some (read_nat ds) else version_in cs)"

definition probeV2RayVersion :: "sys \<Rightarrow> string \<Rightarrow> nat" where
  "probeV2RayVersion y bin =
     (case Option.bind (y_version y bin ''version'') version_in of
        Some n \<Rightarrow> n
      | None \<Rightarrow> (case Option.bind (y_version y bin ''-version'') version_in of Some n \<Rightarrow> n | None \<Rightarrow> 0))"

definition v2rayArgs :: "sys \<Rightarrow> string \<Rightarrow> string \<Rightarrow> vm \<Rightarrow> string list \<times> vm" where
  "v2rayArgs y bin configFile s =
     (case versionCache s bin of
        Some major \<Rightarrow> (v2rayRunArgs major configFile, s)
      | None \<Rightarrow>
          let major = (if bin \<noteq> ''v2ray'' then 5 else probeV2RayVersion y bin)
          in (v2rayRunArgs major configFile, s\<lparr>versionCache := (versionCache s)(bin \<mapsto> major)\<rparr>))"

section \<open>Interfaces\<close>

definition isWireGuardUp :: "vm \<Rightarrow> bool" where "isWireGuardUp s = ip_up (t_links s) WG_IFACE"
definition isTunUp :: "vm \<Rightarrow> bool" where "isTunUp s = ip_up (t_links s) TUN_IFACE"
definition isOpenVpnUp :: "vm \<Rightarrow> bool" where "isOpenVpnUp s = ip_up (t_links s) OVPN_IFACE"

text \<open>The capture of \<open>/^\d+:\s+(\S+):/\<close> in a line of \<open>ip -o link\<close>.\<close>

definition link_name :: "string \<Rightarrow> string option" where
  "link_name line =
     (let ds = takeWhile is_digit line in
      case drop (length ds) line of
        [] \<Rightarrow> None
      | c # cs \<Rightarrow>
          if ds = [] \<or> c \<noteq> CHR '':'' then None
          else
            let word = takeWhile (\<lambda>x. \<not> is_ws x) (dropWhile is_ws cs) in
            if takeWhile is_ws cs = [] then None
            else (case last_index_of CHR '':'' word of
                Some i \<Rightarrow> if i > 0 then Some (take i word) else None
              | None \<Rightarrow> None))"

definition typed_lines :: "string \<Rightarrow> links \<Rightarrow> string list" where
  "typed_lines kind l =
     (case ip_type l kind of
        None \<Rightarrow> []
      | Some out \<Rightarrow> (case trim out of [] \<Rightarrow> [] | output \<Rightarrow> split_on CHR 0x0A output))"

definition isAnyWireGuardUp :: "vm \<Rightarrow> bool" where
  "isAnyWireGuardUp s \<longleftrightarrow> typed_lines ''wireguard'' (t_links s) \<noteq> []"

definition kernel_sntl0 :: "links \<Rightarrow> bool" where
  "kernel_sntl0 l = list_ex (\<lambda>line. link_name line = Some WG_IFACE) (typed_lines ''wireguard'' l)"

definition sntl0IsKernelWireGuard :: "vm \<Rightarrow> bool" where
  "sntl0IsKernelWireGuard s = kernel_sntl0 (t_links s)"

text \<open>Type, name and interface of each.\<close>

definition detectOtherVpn :: "vm \<Rightarrow> (string \<times> string \<times> string) list" where
  "detectOtherVpn s =
     map (\<lambda>n. (''wireguard'', ''WireGuard ('' @ n @ '')'', n))
       (filter (\<lambda>n. n \<noteq> WG_IFACE) (List.map_filter link_name (typed_lines ''wireguard'' (t_links s)))) @
     map (\<lambda>n. (''tun'', ''Tunnel ('' @ n @ '')'', n))
       (filter (\<lambda>n. n \<noteq> TUN_IFACE \<and> n \<noteq> WG_IFACE \<and> n \<noteq> OVPN_IFACE) (List.map_filter link_name (typed_lines ''tun'' (t_links s))))"

definition getDefaultRoute :: "vm \<Rightarrow> (string \<times> string) option" where
  "getDefaultRoute s = (case ip_default (t_links s) of None \<Rightarrow> None | Some out \<Rightarrow> parseDefaultRoute (trim out))"

definition hasDefaultRouteChanged :: "vm \<Rightarrow> bool" where
  "hasDefaultRouteChanged s =
     (case (tunActive s, tunRoute s, getDefaultRoute s) of
        (True, Some built, Some now) \<Rightarrow> now \<noteq> built
      | _ \<Rightarrow> False)"

section \<open>Cores\<close>

definition core_running :: "nat \<Rightarrow> vm \<Rightarrow> bool" where
  "core_running n s \<longleftrightarrow> n < length (t_cores s) \<and> c_exit (t_cores s ! n) = None"

definition update_core :: "nat \<Rightarrow> (core \<Rightarrow> core) \<Rightarrow> vm \<Rightarrow> vm" where
  "update_core n f s = (if n < length (t_cores s) then s\<lparr>t_cores := (t_cores s)[n := f (t_cores s ! n)]\<rparr> else s)"

definition kill_core :: "nat \<Rightarrow> vm \<Rightarrow> vm" where
  "kill_core n = update_core n (\<lambda>c. c\<lparr>c_term := True\<rparr>)"

definition childAlive :: "vm \<Rightarrow> bool" where
  "childAlive s = (case activeChild s of None \<Rightarrow> False | Some n \<Rightarrow> core_running n s)"

text \<open>\<open>v2rayStderr.slice(-4096)\<close> once it is longer.\<close>

definition last_4096 :: "string \<Rightarrow> string" where
  "last_4096 s = drop (length s - 4096) s"

definition collectOutput :: "string \<Rightarrow> string \<Rightarrow> vm \<Rightarrow> vm" where
  "collectOutput logPath output s =
     s\<lparr>v2rayStderr := last_4096 (v2rayStderr s @ output),
       t_files := (t_files s)(logPath \<mapsto> (case t_files s logPath of None \<Rightarrow> [] | Some old \<Rightarrow> old) @ output)\<rparr>"

definition spawn ::
  "sys \<Rightarrow> string \<Rightarrow> string list \<Rightarrow> string \<Rightarrow> string option \<Rightarrow> vm \<Rightarrow> nat \<times> vm" where
  "spawn y bin args configFile logPath s =
     (let n = length (t_cores s);
          c = \<lparr>c_bin = bin, c_args = args, c_config = (case t_files s configFile of None \<Rightarrow> [] | Some t \<Rightarrow> t),
               c_log = logPath, c_pid = y_pid y n, c_exit = None, c_term = False,
               c_sha = y_sha256 y bin, c_there = y_exists y\<rparr>;
          records = trackProxyChildIn (y_parse y) (y_procfs y n) (y_pid y n) configFile
            (t_files s (PROXY_CHILDREN_STATE y))
      in (n, s\<lparr>t_cores := t_cores s @ [c], t_files := (t_files s)(PROXY_CHILDREN_STATE y := records)\<rparr>))"

definition spawnV2Ray :: "sys \<Rightarrow> string \<Rightarrow> string list \<Rightarrow> string \<Rightarrow> string \<Rightarrow> vm \<Rightarrow> nat \<times> vm" where
  "spawnV2Ray y bin args configFile logName s =
     (let logPath = in_dir (y_data y) logName;
          (n, s1) = spawn y bin args configFile (Some logPath) s;
          s2 = s1\<lparr>activeLogPath := Some logPath\<rparr>;
          s3 = write_file logPath (''# '' @ logName @ '' session started '' @ y_started y @ [CHR 0x0A]) s2
      in (n, s3\<lparr>v2rayStderr := []\<rparr>))"

section \<open>The privileged helper\<close>

definition config_verb :: "string \<Rightarrow> bool" where
  "config_verb v \<longleftrightarrow> v = ''up'' \<or> v = ''awg-up'' \<or> v = ''ovpn-up''"

definition given_config :: "string list \<Rightarrow> vm \<Rightarrow> string option" where
  "given_config args s = (case args of v # f # _ \<Rightarrow> if config_verb v then t_files s f else None | _ \<Rightarrow> None)"

text \<open>One call and its answer.\<close>

definition helper_answers :: "sys \<Rightarrow> string list \<Rightarrow> vm \<Rightarrow> unit result \<times> vm" where
  "helper_answers y args s =
     (case y_call y (length (t_calls s)) (t_links s) args of
        (answer, after) \<Rightarrow>
          (case answer of None \<Rightarrow> ok () | Some message \<Rightarrow> throw message,
           s\<lparr>t_calls := t_calls s @ [(args, given_config args s)], t_links := after\<rparr>))"

definition tun_down_with :: "(string list \<Rightarrow> vm \<Rightarrow> unit result \<times> vm) \<Rightarrow> vm \<Rightarrow> vm" where
  "tun_down_with call s =
     (if \<not> tunActive s \<and> \<not> isTunUp s then s
      else (snd (call [''tun-down''] s))\<lparr>tunActive := False, tunRoute := None\<rparr>)"

section \<open>Status\<close>

record status =
  st_connected :: bool
  st_protocol :: "protocol option"
  st_proxyMode :: bool
  st_socksAddr :: "string option"

definition not_connected_status :: status where
  "not_connected_status = \<lparr>st_connected = False, st_protocol = None, st_proxyMode = False, st_socksAddr = None\<rparr>"

definition interface_status :: "vm \<Rightarrow> status \<times> vm" where
  "interface_status s =
     (if isWireGuardUp s then
           (let s1 = (if activeProtocol s = None
                then s\<lparr>activeProtocol := Some (if sntl0IsKernelWireGuard s then WireGuard else AmneziaWg)\<rparr> else s)
            in (\<lparr>st_connected = True, st_protocol = activeProtocol s1, st_proxyMode = False, st_socksAddr = None\<rparr>, s1))
         else if isOpenVpnUp s then
           (let s1 = (if activeProtocol s = None then s\<lparr>activeProtocol := Some OpenVpn\<rparr> else s)
            in (\<lparr>st_connected = True, st_protocol = activeProtocol s1, st_proxyMode = False, st_socksAddr = None\<rparr>, s1))
         else if activeProtocol s \<in> {Some WireGuard, Some AmneziaWg, Some OpenVpn}
           then (not_connected_status, s\<lparr>activeProtocol := None, activeConfigFile := None\<rparr>)
         else (not_connected_status, s))"

definition getConnectionStatus :: "vm \<Rightarrow> status \<times> vm" where
  "getConnectionStatus s =
     (if isChildProxy (activeProtocol s) then
        (if childAlive s then
           (let proxyMode = (activeMode s = Proxy) in
            if \<not> isChildProxyCarryingTraffic True proxyMode (isTunUp s) then (not_connected_status, s)
            else (\<lparr>st_connected = True, st_protocol = activeProtocol s, st_proxyMode = proxyMode,
                   st_socksAddr = (if proxyMode then Some SOCKS_ADDR else None)\<rparr>, s))
         else interface_status (s\<lparr>activeProtocol := None, activeMode := Tunnel, activeConfigFile := None, activeChild := None\<rparr>))
      else interface_status s)"

definition isVpnActive :: "vm \<Rightarrow> bool" where
  "isVpnActive s \<longleftrightarrow> isWireGuardUp s \<or> isTunUp s \<or> isOpenVpnUp s"

definition isProxyChildAlive :: "vm \<Rightarrow> bool" where
  "isProxyChildAlive s \<longleftrightarrow> isChildProxy (activeProtocol s) \<and> childAlive s"

definition getActiveProxyPort :: "vm \<Rightarrow> int option" where
  "getActiveProxyPort s =
     (if activeMode s \<noteq> Proxy \<or> \<not> isChildProxy (activeProtocol s) \<or> \<not> childAlive s then None else Some SOCKS_PORT)"

section \<open>What happens meanwhile\<close>

text \<open>The exit handlers of a core: the record of proxy-children first, then the module's own.\<close>

definition core_exits :: "sys \<Rightarrow> nat \<Rightarrow> int \<Rightarrow> vm \<Rightarrow> vm" where
  "core_exits y n code s0 =
     (if \<not> core_running n s0 then s0
      else
        let s1 = update_core n (\<lambda>c. c\<lparr>c_exit := Some code\<rparr>) s0;
            s2 = (case c_pid (t_cores s1 ! n) of
                None \<Rightarrow> s1
              | Some pid \<Rightarrow> s1\<lparr>t_files := (t_files s1)(PROXY_CHILDREN_STATE y :=
                  untrackProxyChild (y_parse y) pid (t_files s1 (PROXY_CHILDREN_STATE y)))\<rparr>)
        in if c_log (t_cores s2 ! n) = None \<or> activeChild s2 \<noteq> Some n then s2
           else
             let s3 = (if tunActive s2 \<or> isTunUp s2 then tun_down_with (helper_answers y) s2 else s2);
                 s4 = s3\<lparr>activeChild := None, activeProtocol := None, activeMode := Tunnel, activeConfigFile := None\<rparr>
             in if exitCallback s4 then s4\<lparr>t_notified := t_notified s4 @ [n]\<rparr> else s4)"

fun happens :: "sys \<Rightarrow> vm_event \<Rightarrow> vm \<Rightarrow> vm" where
  "happens y (CoreOutput n output) s =
     (case (if n < length (t_cores s) then c_log (t_cores s ! n) else None) of
        None \<Rightarrow> s
      | Some logPath \<Rightarrow> collectOutput logPath output s)"
| "happens y (CoreExit n code) s = core_exits y n code s"
| "happens y StatusAsked s = snd (getConnectionStatus s)"
| "happens y (LinksChanged l) s = s\<lparr>t_links := l\<rparr>"

text \<open>\<open>await runPrivileged(args)\<close>: the call, then whatever happens before the caller resumes.\<close>

definition run_helper :: "sys \<Rightarrow> string list \<Rightarrow> vm \<Rightarrow> unit result \<times> vm" where
  "run_helper y args s =
     (case helper_answers y args s of
        (answer, s1) \<Rightarrow> (answer, fold (happens y) (y_meanwhile y (length (t_calls s))) s1))"

section \<open>Up and down\<close>

definition bringDownTun :: "sys \<Rightarrow> vm \<Rightarrow> vm" where
  "bringDownTun y = tun_down_with (run_helper y)"

definition bringDownAllWireGuard :: "sys \<Rightarrow> vm \<Rightarrow> vm" where
  "bringDownAllWireGuard y s =
     (if \<not> isAnyWireGuardUp s then s else unlink_file (WG_CONFIG y) (snd (run_helper y [''down''] s)))"

definition bringDownAmneziaWg :: "sys \<Rightarrow> vm \<Rightarrow> vm" where
  "bringDownAmneziaWg y s = unlink_file (WG_CONFIG y) (snd (run_helper y [''awg-down''] s))"

definition bringDownOpenVpn :: "sys \<Rightarrow> vm \<Rightarrow> vm" where
  "bringDownOpenVpn y s = unlink_file (OVPN_CONFIG y) (snd (run_helper y [''ovpn-down''] s))"

definition ensureSntl0Down :: "sys \<Rightarrow> vm \<Rightarrow> vm" where
  "ensureSntl0Down y s =
     (if \<not> isWireGuardUp s then s
      else if sntl0IsKernelWireGuard s then bringDownAllWireGuard y s else bringDownAmneziaWg y s)"

definition ensureOpenVpnDown :: "sys \<Rightarrow> vm \<Rightarrow> vm" where
  "ensureOpenVpnDown y s = (if isOpenVpnUp s then bringDownOpenVpn y s else s)"

section \<open>Names\<close>

definition resolver :: "sys \<Rightarrow> vm \<Rightarrow> string \<Rightarrow> string option" where
  "resolver y s host = fst (resolveHostToIPv4 (y_getent y) host (lastResolved s))"

text \<open>The answers of the lookups made for \<open>hosts\<close> are kept.\<close>

definition remember :: "sys \<Rightarrow> string list \<Rightarrow> vm \<Rightarrow> vm" where
  "remember y hosts s =
     s\<lparr>lastResolved := fold (\<lambda>h cache. snd (resolveHostToIPv4 (y_getent y) h cache)) hosts (lastResolved s)\<rparr>"

text \<open>The names \<open>pinWireguardEndpoint\<close>, \<open>pinV2RayNodeAddresses\<close> and the Hysteria pin look up.\<close>

definition endpoint_lookup :: "string \<Rightarrow> string list" where
  "endpoint_lookup raw =
     (case index_of CHR ''='' raw of
        None \<Rightarrow> []
      | Some eq \<Rightarrow>
          if to_lower (trim (take eq raw)) \<noteq> ''endpoint'' then []
          else let v = trim (drop (Suc eq) raw) in
            if starts_with [CHR 0x5B] v then []
            else (case last_index_of CHR '':'' v of
                None \<Rightarrow> []
              | Some colon \<Rightarrow> if colon = 0 \<or> isIPv4 (take colon v) then [] else [take colon v]))"

definition wg_lookups :: "string \<Rightarrow> string list" where
  "wg_lookups config = concat (map endpoint_lookup (split_on CHR 0x0A config))"

definition vnext_lookup :: "js \<Rightarrow> string list" where
  "vnext_lookup v =
     (if \<not> is_object v then []
      else case jget ''address'' v of JStr addr \<Rightarrow> if isIPv4 addr then [] else [addr] | _ \<Rightarrow> [])"

definition outbound_lookups :: "js \<Rightarrow> string list" where
  "outbound_lookups ob =
     (if \<not> is_object ob \<or> \<not> is_object (jget ''settings'' ob) then []
      else concat (map vnext_lookup (elems (jget ''vnext'' (jget ''settings'' ob)))))"

definition v2_lookups :: "js \<Rightarrow> string list" where
  "v2_lookups config =
     (if \<not> is_object config then []
      else concat (map outbound_lookups (elems (jget ''outbounds'' (spread config)))))"

definition hysteria_lookups :: "js \<Rightarrow> string list" where
  "hysteria_lookups parsed =
     (case jget ''server'' parsed of
        JStr server \<Rightarrow>
          (case last_index_of CHR '':'' server of
             Some colon \<Rightarrow> if colon > 0 then [take colon server] else []
           | None \<Rightarrow> [])
      | _ \<Rightarrow> [])"

section \<open>Bringing an interface up\<close>

definition auth_cancelled :: "string \<Rightarrow> bool" where
  "auth_cancelled msg \<longleftrightarrow> contains ''dismissed'' msg \<or> contains ''cancelled'' msg \<or> contains ''Not authorized'' msg"

definition STALE_SERVICE :: string where
  "STALE_SERVICE = ''The Katacomb privileged service is out of date. '' @
     ''Restart it (sudo systemctl restart katacomb-vpn-daemon) or reboot, then reconnect.''"

definition bringUpWireGuard :: "sys \<Rightarrow> string \<Rightarrow> vm \<Rightarrow> unit result \<times> vm" where
  "bringUpWireGuard y configFile s =
     (case run_helper y [''up'', configFile] s of
        (Inr _, s1) \<Rightarrow> (ok (), s1)
      | (Inl msg, s1) \<Rightarrow>
          (throw (if auth_cancelled msg then ''Admin authentication was cancelled. WireGuard requires root privileges.''
                  else if isDnsProvisionError msg
                    then DNS_PROVISION_FAILED @ '': Failed to bring up WireGuard interface: '' @ msg
                  else ''Failed to bring up WireGuard interface: '' @ msg), s1))"

definition bringUpAmneziaWg :: "sys \<Rightarrow> string \<Rightarrow> vm \<Rightarrow> unit result \<times> vm" where
  "bringUpAmneziaWg y configFile s =
     (case run_helper y [''awg-up'', configFile, ''-''] s of
        (Inr _, s1) \<Rightarrow> (ok (), s1)
      | (Inl msg, s1) \<Rightarrow>
          (throw (if auth_cancelled msg then ''Admin authentication was cancelled. AmneziaWG requires root privileges.''
                  else if contains ''unknown op'' msg then STALE_SERVICE
                  else if isDnsProvisionError msg
                    then DNS_PROVISION_FAILED @ '': Failed to bring up AmneziaWG interface: '' @ msg
                  else ''Failed to bring up AmneziaWG interface: '' @ msg), s1))"

definition bringUpOpenVpn :: "sys \<Rightarrow> string \<Rightarrow> vm \<Rightarrow> unit result \<times> vm" where
  "bringUpOpenVpn y configFile s =
     (case run_helper y [''ovpn-up'', configFile] s of
        (Inr _, s1) \<Rightarrow> (ok (), s1)
      | (Inl msg, s1) \<Rightarrow>
          (throw (if auth_cancelled msg then ''Admin authentication was cancelled. OpenVPN requires root privileges.''
                  else if contains ''unknown op'' msg then STALE_SERVICE
                  else ''Failed to bring up OpenVPN interface: '' @ msg), s1))"

definition came_up :: "protocol \<Rightarrow> string \<Rightarrow> vm \<Rightarrow> vm" where
  "came_up p configFile s = s\<lparr>activeProtocol := Some p, activeMode := Tunnel, activeConfigFile := Some configFile\<rparr>"

text \<open>Write the config, bring the interface up, and remove the config if that fails.\<close>

definition write_and_bring_up ::
  "(string \<Rightarrow> vm \<Rightarrow> unit result \<times> vm) \<Rightarrow> protocol \<Rightarrow> string \<Rightarrow> string \<Rightarrow> vm \<Rightarrow> unit result \<times> vm" where
  "write_and_bring_up bringUp p configFile config s =
     (case bringUp configFile (write_file configFile config s) of
        (Inr _, s1) \<Rightarrow> (ok (), came_up p configFile s1)
      | (Inl e, s1) \<Rightarrow> (throw e, unlink_file configFile s1))"

definition connectWireGuardFromConfig :: "sys \<Rightarrow> string \<Rightarrow> vm \<Rightarrow> unit result \<times> vm" where
  "connectWireGuardFromConfig y raw s =
     (if \<not> binaryExists y ''wg-quick''
      then (throw ''wg-quick not found in PATH. Install wireguard-tools: sudo apt install wireguard-tools'', s)
      else
        let s1 = ensureSntl0Down y s;
            config = pinWireguardEndpoint raw (resolver y s1);
            s2 = remember y (wg_lookups raw) s1
        in case assertSafeWireguardConfig config of
             Inl e \<Rightarrow> (throw e, s2)
           | Inr _ \<Rightarrow> write_and_bring_up (bringUpWireGuard y) WireGuard (WG_CONFIG y) config s2)"

definition connectAmneziaWgFromConfig :: "sys \<Rightarrow> string \<Rightarrow> vm \<Rightarrow> unit result \<times> vm" where
  "connectAmneziaWgFromConfig y raw s =
     (let s1 = ensureSntl0Down y s;
          config = pinWireguardEndpoint raw (resolver y s1);
          s2 = remember y (wg_lookups raw) s1
      in case assertSafeAmneziaWgConfig config of
           Inl e \<Rightarrow> (throw e, s2)
         | Inr _ \<Rightarrow> write_and_bring_up (bringUpAmneziaWg y) AmneziaWg (WG_CONFIG y) config s2)"

definition connectOpenVpnFromConfig :: "sys \<Rightarrow> string \<Rightarrow> vm \<Rightarrow> unit result \<times> vm" where
  "connectOpenVpnFromConfig y config s =
     (case resolveOpenVpnBinary y of
        Inl e \<Rightarrow> (throw e, s)
      | Inr _ \<Rightarrow>
          let s1 = ensureOpenVpnDown y s in
          case assertSafeOpenVpnConfig config of
            Inl e \<Rightarrow> (throw e, s1)
          | Inr _ \<Rightarrow> write_and_bring_up (bringUpOpenVpn y) OpenVpn (OVPN_CONFIG y) config s1)"

section \<open>Starting a core\<close>

definition core_binary :: "sys \<Rightarrow> string \<Rightarrow> string result" where
  "core_binary y name =
     and_then (resolveBundled y name) (\<lambda>bin.
       if bin = name \<and> \<not> binaryExists y name
       then throw (name @ '' binary not found. The bundled binary is missing and no system '' @ name @ '' is installed.'')
       else ok bin)"

definition stale_config :: "string \<Rightarrow> string" where
  "stale_config label =
     ''Invalid '' @ label @ '' config. This session was saved with an older version. '' @
     ''Please end this session and create a new subscription.''"

definition core_started :: "protocol \<Rightarrow> bool \<Rightarrow> string \<Rightarrow> nat \<times> vm \<Rightarrow> unit result \<times> vm" where
  "core_started p proxyOnly configFile started =
     (case started of (n, s) \<Rightarrow>
        (ok (), s\<lparr>activeChild := Some n, activeProtocol := Some p,
                  activeMode := (if proxyOnly then Proxy else Tunnel), activeConfigFile := Some configFile\<rparr>))"

definition connectV2RayFromConfig :: "sys \<Rightarrow> string \<Rightarrow> string option \<Rightarrow> bool \<Rightarrow> vm \<Rightarrow> unit result \<times> vm" where
  "connectV2RayFromConfig y configString dohResolverIp proxyOnly s =
     (case core_binary y ''v2ray'' of
        Inl e \<Rightarrow> (throw e, s)
      | Inr bin \<Rightarrow>
          (case y_parse y configString of
             None \<Rightarrow> (throw (stale_config ''V2Ray''), s)
           | Some parsed \<Rightarrow>
               let s1 = remember y (v2_lookups (withV2RayDiagnosticLog parsed)) s in
               (case prepareV2Ray (resolver y s) dohResolverIp parsed of
                  Inl e \<Rightarrow> (throw e, s1)
                | Inr finalCfg \<Rightarrow>
                    let s2 = write_file (V2RAY_CONFIG y) (stringify 2 finalCfg) s1;
                        (args, s3) = v2rayArgs y bin (V2RAY_CONFIG y) s2
                    in core_started V2Ray proxyOnly (V2RAY_CONFIG y) (spawnV2Ray y bin args (V2RAY_CONFIG y) ''v2ray.log'' s3))))"

definition connectXRayFromConfig :: "sys \<Rightarrow> string \<Rightarrow> string option \<Rightarrow> bool \<Rightarrow> vm \<Rightarrow> unit result \<times> vm" where
  "connectXRayFromConfig y configString dohResolverIp proxyOnly s =
     (case core_binary y ''xray'' of
        Inl e \<Rightarrow> (throw e, s)
      | Inr bin \<Rightarrow>
          (case y_parse y configString of
             None \<Rightarrow> (throw (stale_config ''Xray''), s)
           | Some parsed \<Rightarrow>
               let s1 = remember y (v2_lookups (withV2RayDiagnosticLog parsed)) s in
               (case prepareV2Ray (resolver y s) dohResolverIp parsed of
                  Inl e \<Rightarrow> (throw e, s1)
                | Inr finalCfg \<Rightarrow>
                    core_started XRay proxyOnly (V2RAY_CONFIG y)
                      (spawnV2Ray y bin [''run'', ''-c'', V2RAY_CONFIG y] (V2RAY_CONFIG y) ''xray.log''
                        (write_file (V2RAY_CONFIG y) (stringify 2 finalCfg) s1)))))"

definition connectHysteria2FromConfig :: "sys \<Rightarrow> string \<Rightarrow> bool \<Rightarrow> vm \<Rightarrow> unit result \<times> vm" where
  "connectHysteria2FromConfig y configString proxyOnly s =
     (case core_binary y ''hysteria'' of
        Inl e \<Rightarrow> (throw e, s)
      | Inr bin \<Rightarrow>
          (case y_parse y configString of
             None \<Rightarrow> (throw (stale_config ''Hysteria2''), s)
           | Some parsed \<Rightarrow>
               let s1 = remember y (hysteria_lookups parsed) s in
               (case prepareHysteria2 (resolver y s) parsed of
                  Inl e \<Rightarrow> (throw e, s1)
                | Inr cfg \<Rightarrow>
                    core_started Hysteria2 proxyOnly (V2RAY_CONFIG y)
                      (spawnV2Ray y bin [''client'', ''-c'', V2RAY_CONFIG y] (V2RAY_CONFIG y) ''hysteria.log''
                        (write_file (V2RAY_CONFIG y) (stringify 2 cfg) s1)))))"

section \<open>Routing through the core\<close>

definition activeConfig :: "sys \<Rightarrow> vm \<Rightarrow> js option" where
  "activeConfig y s =
     Option.bind (t_files s (case activeConfigFile s of Some f \<Rightarrow> f | None \<Rightarrow> V2RAY_CONFIG y)) (y_parse y)"

definition getV2RayRemoteHost :: "sys \<Rightarrow> vm \<Rightarrow> string option" where
  "getV2RayRemoteHost y s = Option.bind (activeConfig y s) (extractV2RayRemoteHost (resolver y s))"

definition getOpenVpnRemoteHost :: "sys \<Rightarrow> vm \<Rightarrow> string option" where
  "getOpenVpnRemoteHost y s =
     (case t_files s (case activeConfigFile s of Some f \<Rightarrow> f | None \<Rightarrow> OVPN_CONFIG y) of
        None \<Rightarrow> None
      | Some config \<Rightarrow>
          (case extractOpenVpnRemoteHost config of
             Some host \<Rightarrow> if host \<noteq> [] \<and> dotted_digits host then Some host else None
           | None \<Rightarrow> None))"

definition bypass_arg :: "js \<Rightarrow> string list" where
  "bypass_arg splitTunnelRoutes =
     (let bypassRoutes = join '','' (sanitizeBypassRoutes splitTunnelRoutes)
      in if bypassRoutes = [] then [] else [bypassRoutes])"

definition tun_up_args :: "js \<Rightarrow> string \<Rightarrow> string \<times> string \<Rightarrow> string list" where
  "tun_up_args splitTunnelRoutes remoteHost defaultRoute =
     [''tun-up'', ''-'', SOCKS_ADDR, remoteHost, fst defaultRoute, snd defaultRoute] @ bypass_arg splitTunnelRoutes"

definition bringUpTun :: "sys \<Rightarrow> vm \<Rightarrow> unit result \<times> vm" where
  "bringUpTun y s =
     (case getDefaultRoute s of
        None \<Rightarrow> (throw ''Cannot determine default gateway. Is your network connected?'', s)
      | Some defaultRoute \<Rightarrow>
          let s1 = (case Option.bind (activeConfig y s) (extractV2RayRemoteHost Some) of
                None \<Rightarrow> s | Some host \<Rightarrow> remember y [host] s)
          in case getV2RayRemoteHost y s of
               None \<Rightarrow>
                 (throw (''Cannot determine V2Ray remote server address from config. Config file: '' @
                    (case activeConfigFile s of Some f \<Rightarrow> f | None \<Rightarrow> V2RAY_CONFIG y)), s1)
             | Some remoteHost \<Rightarrow>
                 (case run_helper y (tun_up_args (y_routes y) remoteHost defaultRoute) s1 of
                    (Inl msg, s2) \<Rightarrow>
                      (throw (if auth_cancelled msg
                         then ''Admin authentication was cancelled. VPN tunnel requires root privileges.''
                         else ''Failed to set up VPN tunnel: '' @ msg), s2)
                  | (Inr _, s2) \<Rightarrow>
                      if \<not> isTunUp s2
                      then (throw ''TUN interface did not appear. tun2socks may have failed to start.'', s2)
                      else (ok (), s2\<lparr>tunActive := True, tunRoute := Some defaultRoute\<rparr>)))"

section \<open>Disconnecting\<close>

definition kill_proxy :: "vm \<Rightarrow> vm" where
  "kill_proxy s =
     (case activeChild s of
        Some n \<Rightarrow> if isChildProxy (activeProtocol s) then (kill_core n s)\<lparr>activeChild := None\<rparr> else s
      | None \<Rightarrow> s)"

definition forget_log :: "vm \<Rightarrow> vm" where
  "forget_log s = (case activeLogPath s of Some f \<Rightarrow> unlink_file f s | None \<Rightarrow> s)\<lparr>activeLogPath := None\<rparr>"

definition tun_down_if_up :: "sys \<Rightarrow> vm \<Rightarrow> vm" where
  "tun_down_if_up y s = (if tunActive s \<or> isTunUp s then bringDownTun y s else s)"

definition awg_down_if_up :: "sys \<Rightarrow> vm \<Rightarrow> vm" where
  "awg_down_if_up y s =
     (if activeProtocol s = Some AmneziaWg \<or> (isWireGuardUp s \<and> \<not> sntl0IsKernelWireGuard s)
      then bringDownAmneziaWg y s else s)"

definition wg_down_if_up :: "sys \<Rightarrow> vm \<Rightarrow> vm" where
  "wg_down_if_up y s =
     (if activeProtocol s = Some WireGuard \<or> isWireGuardUp s then bringDownAllWireGuard y s else s)"

definition ovpn_down_if_up :: "sys \<Rightarrow> vm \<Rightarrow> vm" where
  "ovpn_down_if_up y s =
     (if activeProtocol s = Some OpenVpn \<or> isOpenVpnUp s then bringDownOpenVpn y s else s)"

definition disconnect :: "sys \<Rightarrow> vm \<Rightarrow> vm" where
  "disconnect y s0 =
     (let s1 = ovpn_down_if_up y (wg_down_if_up y (awg_down_if_up y (kill_proxy (tun_down_if_up y s0))))
      in (forget_log (unlink_file (V2RAY_CONFIG y) s1))
           \<lparr>activeProtocol := None, activeMode := Tunnel, activeConfigFile := None, activeChild := None\<rparr>)"

text \<open>\<open>activeChild && !activeChild.killed\<close>: a second SIGTERM is not sent.\<close>

definition killAllTunnels :: "sys \<Rightarrow> vm \<Rightarrow> vm" where
  "killAllTunnels y s0 =
     (let s1 = tun_down_if_up y s0;
          s2 = (case activeChild s1 of None \<Rightarrow> s1 | Some n \<Rightarrow> kill_core n s1);
          s3 = ensureOpenVpnDown y (ensureSntl0Down y s2)
      in (unlink_file (V2RAY_CONFIG y) s3)\<lparr>activeChild := None, activeProtocol := None, activeConfigFile := None\<rparr>)"

text \<open>At launch. The teardown of a stale TUN is not awaited.\<close>

definition detectExistingConnection :: "sys \<Rightarrow> vm \<Rightarrow> vm" where
  "detectExistingConnection y s =
     (let s1 = (if isWireGuardUp s
           then s\<lparr>activeProtocol := Some (if sntl0IsKernelWireGuard s then WireGuard else AmneziaWg),
                  activeConfigFile := Some (WG_CONFIG y)\<rparr>
           else if isOpenVpnUp s
           then s\<lparr>activeProtocol := Some OpenVpn, activeConfigFile := Some (OVPN_CONFIG y)\<rparr>
           else s)
      in if isTunUp s1 \<and> activeChild s1 = None then bringDownTun y s1 else s1)"

section \<open>The provisioning proxy\<close>

definition PROVISION_CONFIG :: "sys \<Rightarrow> string" where "PROVISION_CONFIG y = in_dir (y_tmp y) ''provision.json''"

text \<open>
  \<open>startProvisioningProxy\<close> up to the spawn, its \<open>stop\<close>, and the whole of it: \<open>wait\<close> is what happens until the
  listener is probed, \<open>failed\<close> why it was given up. The core's output, which the error quotes, is left out.
\<close>

definition provisioning_spawn :: "sys \<Rightarrow> string \<Rightarrow> vm \<Rightarrow> nat result \<times> vm" where
  "provisioning_spawn y configString s =
     (case core_binary y ''xray'' of
        Inl e \<Rightarrow> (throw e, s)
      | Inr bin \<Rightarrow>
          (case y_parse y configString of
             None \<Rightarrow> (throw ''Unexpected token in JSON'', s)
           | Some parsed \<Rightarrow>
               let s1 = remember y (v2_lookups (withV2RayDiagnosticLog parsed)) s in
               (case prepareV2Ray (resolver y s) None parsed of
                  Inl e \<Rightarrow> (throw e, s1)
                | Inr cfg \<Rightarrow>
                    (case spawn y bin [''run'', ''-c'', PROVISION_CONFIG y] (PROVISION_CONFIG y) None
                        (write_file (PROVISION_CONFIG y) (stringify 2 cfg) s1) of
                       (n, s2) \<Rightarrow> (ok n, s2)))))"

definition provisioning_stop :: "sys \<Rightarrow> nat \<Rightarrow> vm \<Rightarrow> vm" where
  "provisioning_stop y n s = unlink_file (PROVISION_CONFIG y) (kill_core n s)"

definition provisioning_proxy ::
  "sys \<Rightarrow> string \<Rightarrow> vm_event list \<Rightarrow> string option \<Rightarrow> vm \<Rightarrow> nat result \<times> vm" where
  "provisioning_proxy y configString wait failed s =
     (case provisioning_spawn y configString s of
        (Inl e, s1) \<Rightarrow> (throw e, s1)
      | (Inr n, s1) \<Rightarrow>
          let s2 = fold (happens y) wait s1 in
          (case (case c_exit (t_cores s2 ! n) of
                   Some code \<Rightarrow> Some (''xray exited with code '' @ show_int code @ '' before it began listening'')
                 | None \<Rightarrow> failed) of
             None \<Rightarrow> (ok n, s2)
           | Some why \<Rightarrow>
               (throw (''Could not start the entry hop for provisioning: '' @ why), provisioning_stop y n s2)))"

section \<open>A bring-up from start to finish\<close>

text \<open>\<open>assertProxyChildStarted\<close>: \<open>wait\<close> is what happens until the listener answers or the time is up.\<close>

definition SAVED_CONFIG_HINT :: string where
  "SAVED_CONFIG_HINT = [CHR 0x0A, CHR 0x0A] @
     ''This node may have changed its configuration or gone offline since you last connected. '' @
     ''Remove this session and subscribe again to pick a working node.''"

definition assertProxyChildStarted :: "sys \<Rightarrow> string \<Rightarrow> bool \<Rightarrow> vm_event list \<Rightarrow> vm \<Rightarrow> unit result \<times> vm" where
  "assertProxyChildStarted y label fromSavedConfig wait s =
     (let s1 = fold (happens y) wait s in
      if isProxyChildAlive s1 then (ok (), s1)
      else (throw (label @ '' process exited immediately after starting.'' @
          (if fromSavedConfig then SAVED_CONFIG_HINT else []) @ [CHR 0x0A, CHR 0x0A] @
          (if v2rayStderr s1 \<noteq> [] then label @ '' error:'' @ [CHR 0x0A] @ take 500 (v2rayStderr s1)
           else ''No error output captured.'')), s1))"

text \<open>\<open>finishChildProxyConnect\<close> up to the point where the system settings are applied.\<close>

definition finish_core :: "sys \<Rightarrow> string \<Rightarrow> bool \<Rightarrow> bool \<Rightarrow> vm_event list \<Rightarrow> vm \<Rightarrow> unit result \<times> vm" where
  "finish_core y label proxyOnly fromSavedConfig wait s =
     (case assertProxyChildStarted y label fromSavedConfig wait s of
        (Inl e, s1) \<Rightarrow> (throw e, s1)
      | (Inr _, s1) \<Rightarrow>
          if proxyOnly then (ok (), s1)
          else (case bringUpTun y s1 of
              (Inr _, s2) \<Rightarrow> (ok (), s2)
            | (Inl e, s2) \<Rightarrow> (throw e, disconnect y s2)))"

end
