(* ===== verification/VpnSafety.thy ===== *)
theory VpnSafety
  imports VpnManager
begin

text \<open>
  What the tunnel manager may ever do, whatever is called in whatever order: \<open>perform\<close> is one call into the module
  (or one event outside its awaits), \<open>vm_reachable\<close> any sequence of them in one run of the app, with the
  machine, the resolver and the helper free to answer differently each time. The invariants are about the
  calls that reach the helper, the cores that are spawned and the addresses kept by the resolver.
\<close>

section \<open>Runs\<close>

datatype vm_action =
    ConnectWireGuard string
  | ConnectAmneziaWg string
  | ConnectOpenVpn string
  | ConnectV2Ray string "string option" bool
  | ConnectXRay string "string option" bool
  | ConnectHysteria2 string bool
  | FinishCore string bool bool "vm_event list"
  | BringUpTun
  | Disconnect
  | KillAll
  | DetectExisting
  | StartProvisioning string "vm_event list" "string option"
  | StopProvisioning nat
  | RegisterExitCallback
  | Happens vm_event

fun perform :: "sys \<Rightarrow> vm_action \<Rightarrow> vm \<Rightarrow> vm" where
  "perform y (ConnectWireGuard c) s = snd (connectWireGuardFromConfig y c s)"
| "perform y (ConnectAmneziaWg c) s = snd (connectAmneziaWgFromConfig y c s)"
| "perform y (ConnectOpenVpn c) s = snd (connectOpenVpnFromConfig y c s)"
| "perform y (ConnectV2Ray c d p) s = snd (connectV2RayFromConfig y c d p s)"
| "perform y (ConnectXRay c d p) s = snd (connectXRayFromConfig y c d p s)"
| "perform y (ConnectHysteria2 c p) s = snd (connectHysteria2FromConfig y c p s)"
| "perform y (FinishCore l p f w) s = snd (finish_core y l p f w s)"
| "perform y BringUpTun s = snd (bringUpTun y s)"
| "perform y Disconnect s = disconnect y s"
| "perform y KillAll s = killAllTunnels y s"
| "perform y DetectExisting s = detectExistingConnection y s"
| "perform y (StartProvisioning c w f) s = snd (provisioning_proxy y c w f s)"
| "perform y (StopProvisioning n) s = provisioning_stop y n s"
| "perform y RegisterExitCallback s = s\<lparr>exitCallback := True\<rparr>"
| "perform y (Happens e) s = happens y e s"

definition fresh_vm :: "links \<Rightarrow> (string \<rightharpoonup> string) \<Rightarrow> vm" where
  "fresh_vm l files =
     \<lparr>activeChild = None, activeProtocol = None, activeMode = Tunnel, activeConfigFile = None, activeLogPath = None,
      v2rayStderr = [], tunActive = False, tunRoute = None, lastResolved = Map.empty, versionCache = Map.empty,
      exitCallback = False, t_links = l, t_files = files, t_cores = [], t_calls = [], t_notified = []\<rparr>"

inductive vm_reachable :: "string \<Rightarrow> vm \<Rightarrow> bool" for bin where
  launch: "vm_reachable bin (fresh_vm l files)"
| act: "vm_reachable bin s \<Longrightarrow> y_bin y = bin \<Longrightarrow> vm_reachable bin (perform y a s)"

section \<open>What is allowed\<close>

text \<open>A helper call, with the config it was given.\<close>

definition guarded_by :: "(string \<Rightarrow> unit result) \<Rightarrow> string option \<Rightarrow> bool" where
  "guarded_by guard content = (case content of Some c \<Rightarrow> guard c = ok () | None \<Rightarrow> False)"

definition call_allowed :: "string list \<times> string option \<Rightarrow> bool" where
  "call_allowed call = (case call of (args, content) \<Rightarrow>
     args \<in> {[''down''], [''awg-down''], [''ovpn-down''], [''tun-down'']} \<or>
     (\<exists>f. args = [''up'', f] \<and> guarded_by assertSafeWireguardConfig content) \<or>
     (\<exists>f. args = [''awg-up'', f, ''-''] \<and> guarded_by assertSafeAmneziaWgConfig content) \<or>
     (\<exists>f. args = [''ovpn-up'', f] \<and> guarded_by assertSafeOpenVpnConfig content) \<or>
     (\<exists>routes host gateway. args = tun_up_args routes host gateway \<and> dotted_digits host))"

text \<open>A core: its program is the bundled file, which hashed to the pin of that name when the core was spawned, or the
  one the system's path finds by that name when no file was bundled then; its config has passed the guard of
  its kind.\<close>

definition bin_allowed :: "string \<Rightarrow> string \<Rightarrow> string option \<Rightarrow> (string \<Rightarrow> bool) \<Rightarrow> bool" where
  "bin_allowed bin b sha there \<longleftrightarrow> (\<exists>name \<in> {''v2ray'', ''xray'', ''hysteria''}.
     b = name \<and> \<not> there (in_dir bin name) \<or>
     b = in_dir bin name \<and> (\<exists>pin. BUNDLED_HASHES name = Some pin \<and> sha = Some pin))"

definition config_allowed :: "string \<Rightarrow> bool" where
  "config_allowed t \<longleftrightarrow>
     (\<exists>cfg. t = stringify 2 cfg \<and> (assertSafeV2RayConfig cfg = ok () \<or> assertSafeHysteria2Config cfg = ok ()))"

definition core_allowed :: "string \<Rightarrow> core \<Rightarrow> bool" where
  "core_allowed bin c \<longleftrightarrow> bin_allowed bin (c_bin c) (c_sha c) (c_there c) \<and> config_allowed (c_config c)"

definition vm_inv :: "string \<Rightarrow> vm \<Rightarrow> bool" where
  "vm_inv bin s \<longleftrightarrow> list_all call_allowed (t_calls s) \<and> list_all (core_allowed bin) (t_cores s) \<and> cache_ok (lastResolved s)"

text \<open>Only these three fields matter to it.\<close>

lemma vm_inv_other [simp]:
  "vm_inv bin (s\<lparr>activeChild := a\<rparr>) = vm_inv bin s"
  "vm_inv bin (s\<lparr>activeProtocol := p\<rparr>) = vm_inv bin s"
  "vm_inv bin (s\<lparr>activeMode := m\<rparr>) = vm_inv bin s"
  "vm_inv bin (s\<lparr>activeConfigFile := f\<rparr>) = vm_inv bin s"
  "vm_inv bin (s\<lparr>activeLogPath := f\<rparr>) = vm_inv bin s"
  "vm_inv bin (s\<lparr>v2rayStderr := e\<rparr>) = vm_inv bin s"
  "vm_inv bin (s\<lparr>tunActive := b\<rparr>) = vm_inv bin s"
  "vm_inv bin (s\<lparr>tunRoute := r\<rparr>) = vm_inv bin s"
  "vm_inv bin (s\<lparr>versionCache := c\<rparr>) = vm_inv bin s"
  "vm_inv bin (s\<lparr>exitCallback := b\<rparr>) = vm_inv bin s"
  "vm_inv bin (s\<lparr>t_links := l\<rparr>) = vm_inv bin s"
  "vm_inv bin (s\<lparr>t_files := fs\<rparr>) = vm_inv bin s"
  "vm_inv bin (s\<lparr>t_notified := ns\<rparr>) = vm_inv bin s"
  by (simp_all add: vm_inv_def)

lemma vm_inv_files [simp]:
  "vm_inv bin (write_file f c s) = vm_inv bin s"
  "vm_inv bin (unlink_file f s) = vm_inv bin s"
  "vm_inv bin (collectOutput f out s) = vm_inv bin s"
  by (simp_all add: write_file_def unlink_file_def collectOutput_def vm_inv_def)

lemma list_all_update: "list_all P xs \<Longrightarrow> P v \<Longrightarrow> list_all P (xs[n := v])"
  by (auto simp: list_all_iff dest!: set_update_subset_insert [THEN subsetD])

lemma list_all_nth: "list_all P xs \<Longrightarrow> n < length xs \<Longrightarrow> P (xs ! n)"
  by (simp add: list_all_length)

lemma vm_inv_update_core:
  assumes "vm_inv bin s" and "\<And>c. core_allowed bin c \<Longrightarrow> core_allowed bin (f c)"
  shows "vm_inv bin (update_core n f s)"
  using assms by (simp add: update_core_def vm_inv_def list_all_update list_all_nth)

lemma vm_inv_kill: "vm_inv bin s \<Longrightarrow> vm_inv bin (kill_core n s)"
  unfolding kill_core_def by (rule vm_inv_update_core) (simp_all add: core_allowed_def)

section \<open>Events and calls keep the invariant\<close>

lemma status_inv [simp]: "vm_inv bin (snd (getConnectionStatus s)) = vm_inv bin s"
  by (simp add: getConnectionStatus_def interface_status_def Let_def)

lemma answers_inv:
  "vm_inv bin s \<Longrightarrow> call_allowed (args, given_config args s) \<Longrightarrow> vm_inv bin (snd (helper_answers y args s))"
  by (simp add: helper_answers_def vm_inv_def split: prod.splits)

lemma down_allowed [simp]:
  "call_allowed ([''tun-down''], c)" "call_allowed ([''down''], c)"
  "call_allowed ([''awg-down''], c)" "call_allowed ([''ovpn-down''], c)"
  by (simp_all add: call_allowed_def)

lemma tun_down_inv:
  assumes "vm_inv bin s" and "\<And>s. vm_inv bin s \<Longrightarrow> vm_inv bin (snd (call [''tun-down''] s))"
  shows "vm_inv bin (tun_down_with call s)"
  using assms by (simp add: tun_down_with_def)

lemma core_exits_inv: "vm_inv bin s \<Longrightarrow> vm_inv bin (core_exits y n code s)"
proof -
  assume s: "vm_inv bin s"
  have u: "vm_inv bin (update_core n (\<lambda>c. c\<lparr>c_exit := Some code\<rparr>) s)"
    using s by (rule vm_inv_update_core) (simp add: core_allowed_def)
  have t: "vm_inv bin s' \<Longrightarrow> vm_inv bin (tun_down_with (helper_answers y) s')" for s'
    by (rule tun_down_inv) (simp_all add: answers_inv)
  show ?thesis
    using s u by (simp add: core_exits_def Let_def t split: option.split)
qed

lemma happens_inv: "vm_inv bin s \<Longrightarrow> vm_inv bin (happens y e s)"
  by (cases e) (simp_all add: core_exits_inv split: option.splits)

lemma all_happen_inv: "vm_inv bin s \<Longrightarrow> vm_inv bin (fold (happens y) es s)"
  by (induction es arbitrary: s) (simp_all add: happens_inv)

lemma run_inv:
  "vm_inv bin s \<Longrightarrow> call_allowed (args, given_config args s) \<Longrightarrow> vm_inv bin (snd (run_helper y args s))"
  using answers_inv [of bin s args y]
  by (cases "helper_answers y args s") (simp add: run_helper_def all_happen_inv)

lemma downs_inv:
  assumes "vm_inv bin s"
  shows "vm_inv bin (bringDownTun y s)" and "vm_inv bin (bringDownAllWireGuard y s)"
    and "vm_inv bin (bringDownAmneziaWg y s)" and "vm_inv bin (bringDownOpenVpn y s)"
  using assms
  by (simp_all add: bringDownTun_def tun_down_inv bringDownAllWireGuard_def bringDownAmneziaWg_def
      bringDownOpenVpn_def run_inv)

lemma ensure_down_inv:
  "vm_inv bin s \<Longrightarrow> vm_inv bin (ensureSntl0Down y s)"
  "vm_inv bin s \<Longrightarrow> vm_inv bin (ensureOpenVpnDown y s)"
  by (simp_all add: ensureSntl0Down_def ensureOpenVpnDown_def downs_inv)

lemma remember_inv: "vm_inv bin s \<Longrightarrow> vm_inv bin (remember y hosts s)"
proof (induction hosts arbitrary: s)
  case (Cons h hosts)
  let ?s = "s\<lparr>lastResolved := snd (resolveHostToIPv4 (y_getent y) h (lastResolved s))\<rparr>"
  have "vm_inv bin ?s" using Cons.prems cache_ok_step by (simp add: vm_inv_def)
  from Cons.IH [OF this] show ?case by (simp add: remember_def)
qed (simp add: remember_def)

lemma resolver_inv: "vm_inv bin s \<Longrightarrow> resolver_ok (resolver y s)"
  using cache_ok_step by (auto simp: resolver_def resolver_ok_def vm_inv_def)

section \<open>The operations keep the invariant\<close>

lemma given_written [simp]:
  "given_config [''up'', f] (write_file f c s) = Some c"
  "given_config [''awg-up'', f, x] (write_file f c s) = Some c"
  "given_config [''ovpn-up'', f] (write_file f c s) = Some c"
  by (simp_all add: given_config_def config_verb_def write_file_def)

lemma bring_up_inv:
  assumes "vm_inv bin s"
  shows "assertSafeWireguardConfig c = ok () \<Longrightarrow> vm_inv bin (snd (bringUpWireGuard y f (write_file f c s)))"
    and "assertSafeAmneziaWgConfig c = ok () \<Longrightarrow> vm_inv bin (snd (bringUpAmneziaWg y f (write_file f c s)))"
    and "assertSafeOpenVpnConfig c = ok () \<Longrightarrow> vm_inv bin (snd (bringUpOpenVpn y f (write_file f c s)))"
proof -
  have w: "vm_inv bin (write_file f c s)" using assms by simp
  show "vm_inv bin (snd (bringUpWireGuard y f (write_file f c s)))" if "assertSafeWireguardConfig c = ok ()"
    using run_inv [OF w, of "[''up'', f]" y] that
    by (cases "run_helper y [''up'', f] (write_file f c s)")
       (simp add: bringUpWireGuard_def call_allowed_def guarded_by_def split: sum.split)
  show "vm_inv bin (snd (bringUpAmneziaWg y f (write_file f c s)))" if "assertSafeAmneziaWgConfig c = ok ()"
    using run_inv [OF w, of "[''awg-up'', f, ''-'']" y] that
    by (cases "run_helper y [''awg-up'', f, ''-''] (write_file f c s)")
       (simp add: bringUpAmneziaWg_def call_allowed_def guarded_by_def split: sum.split)
  show "vm_inv bin (snd (bringUpOpenVpn y f (write_file f c s)))" if "assertSafeOpenVpnConfig c = ok ()"
    using run_inv [OF w, of "[''ovpn-up'', f]" y] that
    by (cases "run_helper y [''ovpn-up'', f] (write_file f c s)")
       (simp add: bringUpOpenVpn_def call_allowed_def guarded_by_def split: sum.split)
qed

lemma write_and_bring_up_inv:
  "vm_inv bin (snd (bringUp f (write_file f c s))) \<Longrightarrow> vm_inv bin (snd (write_and_bring_up bringUp p f c s))"
  by (cases "bringUp f (write_file f c s)") (simp add: write_and_bring_up_def came_up_def split: sum.split)

lemma connect_interface_inv:
  assumes "vm_inv bin s"
  shows "vm_inv bin (snd (connectWireGuardFromConfig y c s))"
    and "vm_inv bin (snd (connectAmneziaWgFromConfig y c s))"
    and "vm_inv bin (snd (connectOpenVpnFromConfig y c s))"
  using assms
  by (simp_all add: connectWireGuardFromConfig_def connectAmneziaWgFromConfig_def connectOpenVpnFromConfig_def Let_def
      ensure_down_inv remember_inv write_and_bring_up_inv bring_up_inv split: sum.split)

lemma core_binary_allowed:
  assumes "core_binary y name = ok b" and "name \<in> {''v2ray'', ''xray'', ''hysteria''}"
  shows "bin_allowed (y_bin y) b (y_sha256 y b) (y_exists y)"
proof -
  from assms(1) have b: "resolveBundled y name = ok b"
    by (auto simp: core_binary_def and_then_eq_ok split: if_splits)
  obtain pin where pin: "BUNDLED_HASHES name = Some pin"
    using assms(2) by (auto simp: BUNDLED_HASHES_def)
  show ?thesis
  proof (cases "b = name")
    case True
    moreover have "in_dir (y_bin y) name \<noteq> name" by (simp add: in_dir_def)
    ultimately have "\<not> y_exists y (in_dir (y_bin y) name)" using b by (auto simp: resolveBundled_def Let_def split: if_splits)
    with assms(2) True show ?thesis unfolding bin_allowed_def by blast
  next
    case False
    with b have "b = in_dir (y_bin y) name" "verifyBinaryIntegrity y b name"
      by (auto simp: resolveBundled_def Let_def split: if_splits)
    moreover from this(2) pin have "y_sha256 y b = Some pin" by (simp add: verifyBinaryIntegrity_def)
    ultimately show ?thesis using pin assms(2) unfolding bin_allowed_def by blast
  qed
qed

lemma spawn_inv:
  assumes "vm_inv bin s" and "bin_allowed bin b (y_sha256 y b) (y_exists y)" and "t_files s f = Some t" and "config_allowed t"
  shows "vm_inv bin (snd (spawn y b args f l s))"
  using assms by (simp add: spawn_def vm_inv_def core_allowed_def Let_def)

lemma spawnV2Ray_inv:
  assumes "vm_inv bin s" and "bin_allowed bin b (y_sha256 y b) (y_exists y)" and "t_files s f = Some t" and "config_allowed t"
  shows "vm_inv bin (snd (core_started p proxyOnly f (spawnV2Ray y b args f n s)))"
  using spawn_inv [OF assms, of args "Some (in_dir (y_data y) n)"]
  by (cases "spawn y b args f (Some (in_dir (y_data y) n)) s")
     (simp add: spawnV2Ray_def core_started_def Let_def)

lemma v2_config_allowed:
  assumes "prepareV2Ray (resolver y s) doh parsed = ok cfg" and "vm_inv bin s"
  shows "config_allowed (stringify 2 cfg)"
proof -
  have "assertSafeV2RayConfig cfg = ok ()"
    using spawned_config_parts [OF assms(1) resolver_inv [OF assms(2)]] by blast
  then show ?thesis by (auto simp: config_allowed_def)
qed

lemma hysteria_config_allowed: "prepareHysteria2 resolve parsed = ok cfg \<Longrightarrow> config_allowed (stringify 2 cfg)"
  by (auto simp: prepareHysteria2_def Let_def and_then_eq_ok config_allowed_def)

lemma v2rayArgs_other:
  "vm_inv bin (snd (v2rayArgs y b f s)) = vm_inv bin s" "t_files (snd (v2rayArgs y b f s)) = t_files s"
  by (simp_all add: v2rayArgs_def Let_def split: option.split)

lemma remember_files [simp]: "t_files (remember y hosts s) = t_files s"
  by (simp add: remember_def)

lemma write_file_files [simp]: "t_files (write_file f c s) = (t_files s)(f \<mapsto> c)"
  by (simp add: write_file_def)

lemma connect_core_inv:
  assumes "vm_inv bin s" and "y_bin y = bin"
  shows "vm_inv bin (snd (connectV2RayFromConfig y c d p s))"
    and "vm_inv bin (snd (connectXRayFromConfig y c d p s))"
    and "vm_inv bin (snd (connectHysteria2FromConfig y c p s))"
proof -
  show "vm_inv bin (snd (connectV2RayFromConfig y c d p s))"
  proof (cases "\<exists>b parsed cfg. core_binary y ''v2ray'' = ok b \<and> y_parse y c = Some parsed \<and>
      prepareV2Ray (resolver y s) d parsed = ok cfg")
    case True
    then obtain b parsed cfg where r: "core_binary y ''v2ray'' = ok b" "y_parse y c = Some parsed"
      "prepareV2Ray (resolver y s) d parsed = ok cfg" by blast
    let ?s = "snd (v2rayArgs y b (V2RAY_CONFIG y) (write_file (V2RAY_CONFIG y) (stringify 2 cfg)
      (remember y (v2_lookups (withV2RayDiagnosticLog parsed)) s)))"
    have "vm_inv bin ?s" "t_files ?s (V2RAY_CONFIG y) = Some (stringify 2 cfg)"
      using assms by (simp_all add: v2rayArgs_other remember_inv)
    from spawnV2Ray_inv [OF this(1) _ this(2) v2_config_allowed [OF r(3) assms(1)]] core_binary_allowed [OF r(1)] assms r
    show ?thesis by (simp add: connectV2RayFromConfig_def Let_def case_prod_beta)
  qed (use assms in \<open>auto simp: connectV2RayFromConfig_def Let_def remember_inv split: sum.split option.split\<close>)
  show "vm_inv bin (snd (connectXRayFromConfig y c d p s))"
    using assms core_binary_allowed [of y "''xray''"]
    by (auto simp: connectXRayFromConfig_def Let_def remember_inv
        intro!: spawnV2Ray_inv v2_config_allowed split: sum.split option.split)
  show "vm_inv bin (snd (connectHysteria2FromConfig y c p s))"
    using assms core_binary_allowed [of y "''hysteria''"]
    by (auto simp: connectHysteria2FromConfig_def Let_def remember_inv
        intro!: spawnV2Ray_inv hysteria_config_allowed split: sum.split option.split)
qed

lemma remote_host_dotted:
  assumes "vm_inv bin s" and "getV2RayRemoteHost y s = Some host"
  shows "dotted_digits host"
proof -
  from assms(2) obtain config where "extractV2RayRemoteHost (resolver y s) config = Some host"
    by (auto simp: getV2RayRemoteHost_def bind_eq_Some_conv)
  then have "\<exists>h. resolver y s h = Some host"
    by (auto simp: extractV2RayRemoteHost_def Let_def bind_eq_Some_conv split: js.splits if_splits)
  with resolver_inv [OF assms(1), of y] show ?thesis by (auto simp: resolver_ok_def)
qed

lemma bringUpTun_inv:
  assumes "vm_inv bin s"
  shows "vm_inv bin (snd (bringUpTun y s))"
proof -
  have r: "vm_inv bin (snd (run_helper y (tun_up_args routes host gateway) s'))"
    if "vm_inv bin s'" and "dotted_digits host" for routes host gateway s'
  proof -
    have "call_allowed (tun_up_args routes host gateway, c)" for c
      unfolding call_allowed_def prod.case using that(2) by blast
    then show ?thesis by (rule run_inv [OF that(1)])
  qed
  have "vm_inv bin s2" if "run_helper y (tun_up_args routes host gateway) s' = (a, s2)" "vm_inv bin s'" "dotted_digits host"
    for a s2 routes host gateway s'
    using r [OF that(2,3)] that(1) by (metis snd_conv)
  with assms remote_host_dotted [OF assms, of y] show ?thesis
    by (auto simp: bringUpTun_def Let_def remember_inv split: option.split sum.split prod.split)
qed

lemma disconnect_inv:
  assumes "vm_inv bin s"
  shows "vm_inv bin (disconnect y s)" and "vm_inv bin (killAllTunnels y s)" and "vm_inv bin (detectExistingConnection y s)"
proof -
  have t: "vm_inv bin s' \<Longrightarrow> vm_inv bin (tun_down_if_up y s')" for s' by (simp add: tun_down_if_up_def downs_inv)
  have k: "vm_inv bin s' \<Longrightarrow> vm_inv bin (kill_proxy s')" for s'
    by (simp add: kill_proxy_def vm_inv_kill split: option.split)
  have d: "vm_inv bin s' \<Longrightarrow> vm_inv bin (awg_down_if_up y s')" "vm_inv bin s' \<Longrightarrow> vm_inv bin (wg_down_if_up y s')"
    "vm_inv bin s' \<Longrightarrow> vm_inv bin (ovpn_down_if_up y s')" for s'
    by (simp_all add: awg_down_if_up_def wg_down_if_up_def ovpn_down_if_up_def downs_inv)
  show "vm_inv bin (disconnect y s)"
    using assms by (simp add: disconnect_def Let_def forget_log_def t k d split: option.split)
  show "vm_inv bin (killAllTunnels y s)"
    using assms by (simp add: killAllTunnels_def Let_def t ensure_down_inv vm_inv_kill split: option.split)
  show "vm_inv bin (detectExistingConnection y s)"
    using assms by (simp add: detectExistingConnection_def Let_def downs_inv)
qed

lemma finish_core_inv:
  assumes "vm_inv bin s"
  shows "vm_inv bin (snd (finish_core y l p f w s))"
proof -
  have a: "vm_inv bin (snd (assertProxyChildStarted y l f w s))"
    using assms by (simp add: assertProxyChildStarted_def Let_def all_happen_inv)
  obtain r s1 where s1: "assertProxyChildStarted y l f w s = (r, s1)" by fastforce
  obtain r2 s2 where s2: "bringUpTun y s1 = (r2, s2)" by fastforce
  have "vm_inv bin s1" using a s1 by simp
  moreover from bringUpTun_inv [OF this, of y] s2 have "vm_inv bin s2" by simp
  ultimately show ?thesis
    by (cases r; cases r2) (simp_all add: finish_core_def s1 s2 disconnect_inv)
qed

lemma provisioning_inv:
  assumes "vm_inv bin s" and "y_bin y = bin"
  shows "vm_inv bin (snd (provisioning_proxy y c w f s))" and "vm_inv bin (provisioning_stop y n s)"
proof -
  show stop: "vm_inv bin (provisioning_stop y n s)" using assms by (simp add: provisioning_stop_def vm_inv_kill)
  obtain r s1 where sp: "provisioning_spawn y c s = (r, s1)" by fastforce
  have "vm_inv bin (snd (provisioning_spawn y c s))"
    using assms core_binary_allowed [of y "''xray''"]
    by (auto simp: provisioning_spawn_def Let_def remember_inv case_prod_beta
        intro!: spawn_inv v2_config_allowed split: sum.split option.split)
  with sp have s1: "vm_inv bin s1" by simp
  have "vm_inv bin (provisioning_stop y n s')" if "vm_inv bin s'" for n s'
    using that by (simp add: provisioning_stop_def vm_inv_kill)
  with s1 show "vm_inv bin (snd (provisioning_proxy y c w f s))"
    by (simp add: provisioning_proxy_def sp Let_def all_happen_inv split: sum.split option.split)
qed

lemma perform_inv: "vm_inv bin s \<Longrightarrow> y_bin y = bin \<Longrightarrow> vm_inv bin (perform y a s)"
  by (cases a)
     (simp_all add: connect_interface_inv connect_core_inv finish_core_inv bringUpTun_inv disconnect_inv
        provisioning_inv happens_inv)

lemma reachable_inv: "vm_reachable bin s \<Longrightarrow> vm_inv bin s"
proof (induction rule: vm_reachable.induct)
  case (launch l files)
  show ?case by (simp add: fresh_vm_def vm_inv_def cache_ok_def)
qed (rule perform_inv)


end
