(* ===== verification/VpnTeardown.thy ===== *)
theory VpnTeardown
  imports VpnSafety
begin

text \<open>
  Taking a tunnel down: what \<open>disconnect\<close> leaves behind, whether a core can run on without anything that will
  stop it, and what the status says meanwhile.
\<close>

section \<open>The status\<close>

text \<open>
  The status is true: the app says connected exactly when traffic is carried, by a live core whose TUN is up or that
  was asked to be a local proxy only, or, with no live core, by an interface of its own; a second poll gives
  the same answer; and the local proxy's port is offered exactly when the status names local-proxy mode.
\<close>

theorem status_truthful:
  "(st_connected (fst (getConnectionStatus s)) \<longleftrightarrow>
      (if isProxyChildAlive s then activeMode s = Proxy \<or> isTunUp s else isWireGuardUp s \<or> isOpenVpnUp s)) \<and>
   fst (getConnectionStatus (snd (getConnectionStatus s))) = fst (getConnectionStatus s) \<and>
   (getActiveProxyPort s \<noteq> None \<longleftrightarrow> st_proxyMode (fst (getConnectionStatus s))) \<and>
   (st_socksAddr (fst (getConnectionStatus s)) \<noteq> None \<longleftrightarrow> st_proxyMode (fst (getConnectionStatus s)))"
proof (cases "isChildProxy (activeProtocol s) \<and> childAlive s")
  case True
  then show ?thesis
    by (auto simp: getConnectionStatus_def isProxyChildAlive_def getActiveProxyPort_def isChildProxyCarryingTraffic_def
        not_connected_status_def isTunUp_def)
next
  case False
  then show ?thesis
    by (auto simp: getConnectionStatus_def isProxyChildAlive_def getActiveProxyPort_def interface_status_def Let_def
        not_connected_status_def isWireGuardUp_def isOpenVpnUp_def sntl0IsKernelWireGuard_def typed_lines_def
        isChildProxy_def childAlive_def split: if_splits)
qed

section \<open>Cores\<close>

definition gone :: "nat \<Rightarrow> vm \<Rightarrow> bool" where
  "gone n s \<longleftrightarrow> n < length (t_cores s) \<and> (c_term (t_cores s ! n) \<or> c_exit (t_cores s ! n) \<noteq> None)"

text \<open>A core of a connection that runs and has not been told to stop. The core a chain purchase starts for itself, the
  provisioning proxy, is told apart by having no log; \<open>astray\<close> holds of any core.\<close>

definition at_large :: "nat \<Rightarrow> vm \<Rightarrow> bool" where
  "at_large n s \<longleftrightarrow> core_running n s \<and> \<not> c_term (t_cores s ! n) \<and> c_log (t_cores s ! n) \<noteq> None"

definition astray :: "nat \<Rightarrow> vm \<Rightarrow> bool" where
  "astray n s \<longleftrightarrow> core_running n s \<and> \<not> c_term (t_cores s ! n)"

definition held :: "nat \<Rightarrow> vm \<Rightarrow> bool" where
  "held n s \<longleftrightarrow> activeChild s = Some n \<and> isChildProxy (activeProtocol s)"

text \<open>Every core at large is the one the app holds.\<close>

definition supervised :: "vm \<Rightarrow> bool" where
  "supervised s \<longleftrightarrow> (\<forall>n. at_large n s \<longrightarrow> held n s)"

definition quiet :: "vm \<Rightarrow> bool" where
  "quiet s \<longleftrightarrow> (\<forall>n. \<not> at_large n s)"

lemma quiet_supervised: "quiet s \<Longrightarrow> supervised s"
  by (simp add: quiet_def supervised_def)

lemma supervised_quiet: "supervised s \<Longrightarrow> \<not> isProxyChildAlive s \<Longrightarrow> quiet s"
  by (auto simp: supervised_def quiet_def held_def isProxyChildAlive_def childAlive_def at_large_def)

lemma at_large_cores: "t_cores s' = t_cores s \<Longrightarrow> at_large n s' = at_large n s"
  by (simp add: at_large_def core_running_def)

lemma supervised_same:
  "t_cores s' = t_cores s \<Longrightarrow> activeChild s' = activeChild s \<Longrightarrow> activeProtocol s' = activeProtocol s \<Longrightarrow>
     supervised s' = supervised s"
  unfolding supervised_def held_def at_large_def core_running_def by simp

lemma quiet_cores: "t_cores s' = t_cores s \<Longrightarrow> quiet s' = quiet s"
  unfolding quiet_def at_large_def core_running_def by simp

text \<open>Operations that change neither the cores nor which one is held.\<close>

lemma answers_fields [simp]:
  "t_cores (snd (helper_answers y args s)) = t_cores s"
  "activeChild (snd (helper_answers y args s)) = activeChild s"
  "activeProtocol (snd (helper_answers y args s)) = activeProtocol s"
  by (simp_all add: helper_answers_def split: prod.split)

lemma tun_down_answers_fields [simp]:
  "t_cores (tun_down_with (helper_answers y) s) = t_cores s"
  "activeChild (tun_down_with (helper_answers y) s) = activeChild s"
  "activeProtocol (tun_down_with (helper_answers y) s) = activeProtocol s"
  by (simp_all add: tun_down_with_def)

lemma at_large_update:
  "(\<And>c. c_exit (f c) = None \<Longrightarrow> \<not> c_term (f c) \<Longrightarrow> c_exit c = None \<and> \<not> c_term c) \<Longrightarrow> (\<And>c. c_log (f c) = c_log c) \<Longrightarrow>
     at_large m (update_core n f s) \<Longrightarrow> at_large m s"
  by (auto simp: at_large_def core_running_def update_core_def nth_list_update split: if_splits)

lemma exits_cores:
  "t_cores (core_exits y n code s) = (if core_running n s then t_cores (update_core n (\<lambda>c. c\<lparr>c_exit := Some code\<rparr>) s) else t_cores s)"
  by (auto simp: core_exits_def Let_def split: option.split)

lemma exits_held: "held m (core_exits y n code s) \<longleftrightarrow> held m s \<and> \<not> (m = n \<and> core_running n s \<and> c_log (t_cores s ! n) \<noteq> None)"
proof (cases "core_running n s")
  case True
  then have "n < length (t_cores s)" by (simp add: core_running_def)
  with True show ?thesis
    by (auto simp: core_exits_def Let_def held_def update_core_def split: option.splits)
next
  case False
  then show ?thesis by (simp add: core_exits_def)
qed

lemma at_large_exit: "at_large m (core_exits y n code s) \<Longrightarrow> at_large m s \<and> m \<noteq> n"
proof -
  assume a: "at_large m (core_exits y n code s)"
  show ?thesis
  proof (cases "core_running n s")
    case True
    with a have "at_large m (update_core n (\<lambda>c. c\<lparr>c_exit := Some code\<rparr>) s)"
      by (simp add: at_large_def core_running_def exits_cores)
    with True show ?thesis
      by (auto simp: at_large_def core_running_def update_core_def nth_list_update split: if_splits)
  next
    case False
    with a show ?thesis by (auto simp: at_large_def core_running_def core_exits_def)
  qed
qed

lemma status_cores [simp]: "t_cores (snd (getConnectionStatus s)) = t_cores s"
  by (simp add: getConnectionStatus_def interface_status_def Let_def)

lemma status_held: "at_large n s \<Longrightarrow> held n s \<Longrightarrow> held n (snd (getConnectionStatus s))"
  by (auto simp: getConnectionStatus_def held_def childAlive_def at_large_def Let_def)

lemma happens_at_large: "at_large n (happens y e s) \<Longrightarrow> at_large n s"
proof (cases e)
  case (CoreExit m code)
  moreover assume "at_large n (happens y e s)"
  ultimately show ?thesis using at_large_exit [of n y m code s] by simp
qed (auto simp: collectOutput_def at_large_def core_running_def split: option.splits)

lemma happens_held: "at_large n (happens y e s) \<Longrightarrow> held n s \<Longrightarrow> held n (happens y e s)"
proof (cases e)
  case (CoreExit m code)
  moreover assume "at_large n (happens y e s)" "held n s"
  ultimately show ?thesis using at_large_exit [of n y m code s] by (simp add: exits_held)
next
  case StatusAsked
  moreover assume "at_large n (happens y e s)" "held n s"
  ultimately show ?thesis using status_held [of n s] by (simp add: at_large_def core_running_def)
qed (auto simp: held_def collectOutput_def split: option.split)

lemma happens_supervised: "supervised s \<Longrightarrow> supervised (happens y e s)"
  by (auto simp: supervised_def intro: happens_held dest: happens_at_large)

lemma happens_quiet: "quiet s \<Longrightarrow> quiet (happens y e s)"
  by (auto simp: quiet_def dest: happens_at_large)

section \<open>Predicates that only a core's start or a disconnect can break\<close>

locale steady =
  fixes P :: "vm \<Rightarrow> bool"
  assumes other_fields: "t_cores s' = t_cores s \<Longrightarrow> activeChild s' = activeChild s \<Longrightarrow> activeProtocol s' = activeProtocol s \<Longrightarrow>
      lastResolved s' = lastResolved s \<Longrightarrow> P s \<Longrightarrow> P s'"
    and event: "P s \<Longrightarrow> P (happens y e s)"
begin

lemma events: "P s \<Longrightarrow> P (fold (happens y) es s)"
  by (induction es arbitrary: s) (simp_all add: event)

lemma files: "P s \<Longrightarrow> P (write_file f c s)" "P s \<Longrightarrow> P (unlink_file f s)"
  by (erule other_fields [rotated -1]; simp add: write_file_def unlink_file_def)+

lemma answers: "P s \<Longrightarrow> P (snd (helper_answers y args s))"
  by (erule other_fields [rotated -1]) (simp_all add: helper_answers_def split: prod.split)

lemma run: "P s \<Longrightarrow> P (snd (run_helper y args s))"
  using answers [of s y args] by (cases "helper_answers y args s") (simp add: run_helper_def events)

lemma run_result: "run_helper y args s = (r, s') \<Longrightarrow> P s \<Longrightarrow> P s'"
  using run [of s y args] by simp

lemma tun_down: "P s \<Longrightarrow> P (bringDownTun y s)"
proof -
  assume "P s"
  then have "P (snd (run_helper y [''tun-down''] s))" by (rule run)
  then have "P ((snd (run_helper y [''tun-down''] s))\<lparr>tunActive := False, tunRoute := None\<rparr>)"
    by (rule other_fields [rotated -1]) simp_all
  with \<open>P s\<close> show ?thesis by (simp add: bringDownTun_def tun_down_with_def)
qed

lemma downs:
  assumes "P s"
  shows "P (bringDownAllWireGuard y s)" and "P (bringDownAmneziaWg y s)" and "P (bringDownOpenVpn y s)"
    and "P (ensureSntl0Down y s)" and "P (ensureOpenVpnDown y s)" and "P (tun_down_if_up y s)"
    and "P (awg_down_if_up y s)" and "P (wg_down_if_up y s)" and "P (ovpn_down_if_up y s)"
  using assms
  by (simp_all add: bringDownAllWireGuard_def bringDownAmneziaWg_def bringDownOpenVpn_def ensureSntl0Down_def
      ensureOpenVpnDown_def tun_down_if_up_def awg_down_if_up_def wg_down_if_up_def ovpn_down_if_up_def files run tun_down)

lemma brings_up:
  assumes "P s"
  shows "P (snd (bringUpWireGuard y f s))" and "P (snd (bringUpAmneziaWg y f s))" and "P (snd (bringUpOpenVpn y f s))"
  using assms by (auto simp: bringUpWireGuard_def bringUpAmneziaWg_def bringUpOpenVpn_def
      split: prod.split sum.split dest: run_result)

end

interpretation supervision: steady supervised
proof
  fix s s' :: vm assume "t_cores s' = t_cores s" "activeChild s' = activeChild s" "activeProtocol s' = activeProtocol s" "supervised s"
  then show "supervised s'" using supervised_same [of s' s] by simp
qed (rule happens_supervised)

interpretation silence: steady quiet
proof
  fix s s' :: vm assume "t_cores s' = t_cores s" "quiet s"
  then show "quiet s'" using quiet_cores [of s' s] by simp
qed (rule happens_quiet)

text \<open>A core the app holds stays held until it exits.\<close>

definition held_or_gone :: "nat \<Rightarrow> vm \<Rightarrow> bool" where
  "held_or_gone n s \<longleftrightarrow> n < length (t_cores s) \<and> (held n s \<or> gone n s)"

lemma gone_event: "gone n s \<Longrightarrow> gone n (happens y e s)"
proof (cases e)
  case (CoreExit m code)
  moreover assume "gone n s"
  ultimately show ?thesis
    by (auto simp: gone_def exits_cores update_core_def nth_list_update)
qed (auto simp: gone_def collectOutput_def split: option.split)

lemma held_event: "n < length (t_cores s) \<Longrightarrow> held n s \<Longrightarrow> held n (happens y e s) \<or> gone n (happens y e s)"
proof (cases e)
  case (CoreExit m code)
  moreover assume "n < length (t_cores s)" "held n s"
  ultimately show ?thesis
    by (auto simp: exits_held gone_def exits_cores update_core_def)
next
  case StatusAsked
  moreover assume "n < length (t_cores s)" "held n s"
  ultimately show ?thesis
    by (auto simp: getConnectionStatus_def held_def gone_def childAlive_def core_running_def interface_status_def Let_def)
qed (auto simp: held_def collectOutput_def split: option.split)

lemma happens_length [simp]: "length (t_cores (happens y e s)) = length (t_cores s)"
  by (cases e) (auto simp: collectOutput_def exits_cores update_core_def split: option.split)

interpretation holding: steady "held_or_gone n" for n
proof
  fix s s' :: vm assume "t_cores s' = t_cores s" "activeChild s' = activeChild s" "activeProtocol s' = activeProtocol s" "held_or_gone n s"
  then show "held_or_gone n s'" by (auto simp: held_or_gone_def held_def gone_def)
next
  fix s :: vm and y e assume "held_or_gone n s"
  then show "held_or_gone n (happens y e s)"
    using gone_event [of n s y e] held_event [of n s y e] by (auto simp: held_or_gone_def)
qed

section \<open>The resolver's memory\<close>

definition knows :: "string \<Rightarrow> vm \<Rightarrow> bool" where
  "knows h s \<longleftrightarrow> lastResolved s h \<noteq> None"

lemma events_resolved [simp]: "lastResolved (happens y e s) = lastResolved s"
  by (cases e) (auto simp: collectOutput_def core_exits_def tun_down_with_def helper_answers_def update_core_def Let_def
      getConnectionStatus_def interface_status_def split: option.split prod.split)

interpretation memory: steady "knows h" for h
  by unfold_locales (simp_all add: knows_def)

lemma remember_resolved: "knows h s \<Longrightarrow> knows h (remember y hosts s)"
proof (induction hosts arbitrary: s)
  case (Cons x hosts)
  let ?s = "s\<lparr>lastResolved := snd (resolveHostToIPv4 (y_getent y) x (lastResolved s))\<rparr>"
  have "knows h ?s"
    using Cons.prems by (auto simp: knows_def resolveHostToIPv4_def split: option.split)
  from Cons.IH [OF this] show ?case by (simp add: remember_def)
qed (simp add: remember_def)

lemma remember_fields [simp]:
  "t_cores (remember y hosts s) = t_cores s" "activeChild (remember y hosts s) = activeChild s"
  "activeProtocol (remember y hosts s) = activeProtocol s"
  by (simp_all add: remember_def)

section \<open>Bringing up an interface\<close>

lemma quiet_up: "quiet s \<Longrightarrow> quiet (came_up p f s)"
  using quiet_cores [of "came_up p f s" s] by (simp add: came_up_def)

lemma quiet_remember: "quiet s \<Longrightarrow> quiet (remember y hosts s)"
  using quiet_cores [of "remember y hosts s" s] by simp

lemma quiet_bring_up:
  assumes "quiet s" and "\<And>f s. quiet s \<Longrightarrow> quiet (snd (bringUp f s))"
  shows "quiet (snd (write_and_bring_up bringUp p f c s))"
  using assms(2) [OF silence.files(1) [OF assms(1), of f c], of f]
  by (cases "bringUp f (write_file f c s)") (auto simp: write_and_bring_up_def quiet_up silence.files split: sum.split)

lemma quiet_interfaces:
  assumes "quiet s"
  shows "quiet (snd (connectWireGuardFromConfig y c s))" and "quiet (snd (connectAmneziaWgFromConfig y c s))"
    and "quiet (snd (connectOpenVpnFromConfig y c s))"
  using assms
  by (simp_all add: connectWireGuardFromConfig_def connectAmneziaWgFromConfig_def connectOpenVpnFromConfig_def Let_def
      silence.downs quiet_remember quiet_bring_up silence.brings_up split: sum.split)

section \<open>Starting a core\<close>

lemma spawn_at_large:
  "at_large m (snd (spawn y b args f l s)) \<longleftrightarrow> m = length (t_cores s) \<and> l \<noteq> None \<or> at_large m s"
  by (auto simp: spawn_def at_large_def core_running_def Let_def nth_append less_Suc_eq)

lemma core_start_supervised:
  assumes "quiet s" and "isChildProxy (Some p)"
  shows "supervised (snd (core_started p proxyOnly f (spawnV2Ray y b args f l s)))"
proof -
  obtain n s1 where sp: "spawn y b args f (Some (in_dir (y_data y) l)) s = (n, s1)" by fastforce
  then have n: "n = length (t_cores s)" by (simp add: spawn_def Let_def)
  have "at_large m s1 \<longleftrightarrow> m = n" for m
    using spawn_at_large [of m y b args f "Some (in_dir (y_data y) l)" s] sp n assms(1) by (simp add: quiet_def)
  then show ?thesis
    using assms(2) by (simp add: spawnV2Ray_def sp core_started_def supervised_def held_def at_large_def core_running_def
        write_file_def Let_def)
qed

lemma quiet_v2rayArgs: "quiet (snd (v2rayArgs y b f s)) = quiet s"
  using quiet_cores [of "snd (v2rayArgs y b f s)" s] by (simp add: v2rayArgs_def Let_def split: option.split)

lemma connect_core_supervised:
  assumes "quiet s"
  shows "supervised (snd (connectV2RayFromConfig y c d p s))" and "supervised (snd (connectXRayFromConfig y c d p s))"
    and "supervised (snd (connectHysteria2FromConfig y c p s))"
proof -
  have "supervised s" using assms by (rule quiet_supervised)
  moreover have "supervised (remember y hosts s)" for hosts using assms by (intro quiet_supervised quiet_remember)
  moreover have "isChildProxy (Some V2Ray)" "isChildProxy (Some XRay)" "isChildProxy (Some Hysteria2)"
    by (simp_all add: isChildProxy_def)
  ultimately show "supervised (snd (connectV2RayFromConfig y c d p s))"
    and "supervised (snd (connectXRayFromConfig y c d p s))" and "supervised (snd (connectHysteria2FromConfig y c p s))"
    using assms
    by (auto simp: connectV2RayFromConfig_def connectXRayFromConfig_def connectHysteria2FromConfig_def Let_def case_prod_beta
        quiet_v2rayArgs intro!: core_start_supervised silence.files quiet_remember split: sum.split option.split)
qed

section \<open>Taking it down\<close>

lemma kill_at_large: "at_large m (kill_core n s) \<longleftrightarrow> at_large m s \<and> m \<noteq> n"
  by (auto simp: kill_core_def update_core_def at_large_def core_running_def nth_list_update)

lemma kill_fields [simp]:
  "activeChild (kill_core n s) = activeChild s" "activeProtocol (kill_core n s) = activeProtocol s"
  by (simp_all add: kill_core_def update_core_def)

lemma kill_proxy_quiet: "supervised s \<Longrightarrow> quiet (kill_proxy s)"
proof -
  assume s: "supervised s"
  have drop: "quiet (s'\<lparr>activeChild := None\<rparr>) = quiet s'" for s' :: vm by (rule quiet_cores) simp
  show ?thesis
  proof (cases "\<exists>n. held n s")
    case True
    then obtain n where n: "activeChild s = Some n" "isChildProxy (activeProtocol s)" by (auto simp: held_def)
    with s have "quiet (kill_core n s)" by (auto simp: quiet_def kill_at_large supervised_def held_def)
    with n show ?thesis by (simp add: kill_proxy_def drop)
  next
    case False
    with s have q: "quiet s" by (auto simp: quiet_def supervised_def)
    from False have "kill_proxy s = s" by (auto simp: kill_proxy_def held_def split: option.split)
    with q show ?thesis by simp
  qed
qed

lemma disconnect_quiet: "supervised s \<Longrightarrow> quiet (disconnect y s)"
proof -
  assume s: "supervised s"
  let ?s = "ovpn_down_if_up y (wg_down_if_up y (awg_down_if_up y (kill_proxy (tun_down_if_up y s))))"
  have "quiet ?s" using s by (intro silence.downs kill_proxy_quiet supervision.downs)
  moreover have "t_cores (disconnect y s) = t_cores ?s"
    by (simp add: disconnect_def Let_def forget_log_def unlink_file_def split: option.split)
  ultimately show ?thesis using quiet_cores [of "disconnect y s" ?s] by simp
qed

lemma killAll_quiet: "supervised s \<Longrightarrow> quiet (killAllTunnels y s)"
proof -
  assume s: "supervised s"
  let ?s1 = "tun_down_if_up y s"
  let ?s2 = "case activeChild ?s1 of None \<Rightarrow> ?s1 | Some n \<Rightarrow> kill_core n ?s1"
  have "supervised ?s1" using s by (rule supervision.downs)
  then have "quiet ?s2" by (auto simp: quiet_def kill_at_large supervised_def held_def split: option.split)
  then have "quiet (ensureOpenVpnDown y (ensureSntl0Down y ?s2))" by (intro silence.downs)
  moreover have "t_cores (killAllTunnels y s) = t_cores (ensureOpenVpnDown y (ensureSntl0Down y ?s2))"
    by (simp add: killAllTunnels_def Let_def unlink_file_def)
  ultimately show ?thesis
    using quiet_cores [of "killAllTunnels y s" "ensureOpenVpnDown y (ensureSntl0Down y ?s2)"] by simp
qed

section \<open>Nothing runs on unattended\<close>

lemma bringUpTun_steady:
  assumes "supervised s"
  shows "supervised (snd (bringUpTun y s))"
proof -
  have r: "supervised (remember y hosts s)" for hosts
    using assms supervised_same [of "remember y hosts s" s] by simp
  have t: "supervised (s'\<lparr>tunActive := True, tunRoute := g\<rparr>)" if "supervised s'" for s' g
    using that supervised_same [of "s'\<lparr>tunActive := True, tunRoute := g\<rparr>" s'] by simp
  show ?thesis
    using assms r
    by (auto simp: bringUpTun_def Let_def t dest: supervision.run_result
        split: option.split sum.split prod.split)
qed

lemma finish_core_steady:
  assumes "supervised s"
  shows "supervised (snd (finish_core y l p f w s))"
proof -
  have a: "supervised (snd (assertProxyChildStarted y l f w s))"
    using assms by (simp add: assertProxyChildStarted_def Let_def supervision.events)
  obtain r s1 where s1: "assertProxyChildStarted y l f w s = (r, s1)" by fastforce
  obtain r2 s2 where s2: "bringUpTun y s1 = (r2, s2)" by fastforce
  have "supervised s1" using a s1 by simp
  moreover from bringUpTun_steady [OF this, of y] s2 have "supervised s2" by simp
  ultimately show ?thesis
    by (cases r; cases r2) (simp_all add: finish_core_def s1 s2 quiet_supervised disconnect_quiet)
qed

lemma supervised_by_cores:
  "(\<And>n. at_large n s' \<Longrightarrow> at_large n s) \<Longrightarrow> activeChild s' = activeChild s \<Longrightarrow> activeProtocol s' = activeProtocol s \<Longrightarrow>
     supervised s \<Longrightarrow> supervised s'"
  by (auto simp: supervised_def held_def)

lemma provisioning_stop_steady: "supervised s \<Longrightarrow> supervised (provisioning_stop y n s)"
proof (rule supervised_by_cores)
  fix m assume "at_large m (provisioning_stop y n s)"
  then have "at_large m (kill_core n s)"
    by (simp add: provisioning_stop_def unlink_file_def at_large_def core_running_def)
  then show "at_large m s" by (simp add: kill_at_large)
qed (simp_all add: provisioning_stop_def unlink_file_def)

lemma provisioning_spawn_steady:
  assumes "supervised s"
  shows "supervised (snd (provisioning_spawn y c s))"
proof -
  have "supervised (snd (spawn y b args f None s'))" if "supervised s'" for b args f s'
    using that by (rule supervised_by_cores [rotated -1]) (simp_all add: spawn_at_large, simp_all add: spawn_def Let_def)
  moreover have "supervised (remember y hosts s)" for hosts
    using assms supervised_same [of "remember y hosts s" s] by simp
  ultimately show ?thesis
    using assms by (auto simp: provisioning_spawn_def Let_def case_prod_beta supervision.files split: sum.split option.split)
qed

lemma provisioning_steady:
  assumes "supervised s"
  shows "supervised (snd (provisioning_proxy y c w f s))"
proof -
  obtain r s1 where sp: "provisioning_spawn y c s = (r, s1)" by fastforce
  with provisioning_spawn_steady [OF assms, of y c] have "supervised s1" by simp
  then show ?thesis
    by (auto simp: provisioning_proxy_def sp Let_def supervision.events provisioning_stop_steady
        split: sum.split option.split)
qed

lemma detect_quiet: "quiet s \<Longrightarrow> quiet (detectExistingConnection y s)"
proof -
  assume q: "quiet s"
  have "quiet s'" if "t_cores s' = t_cores s" for s' using that q quiet_cores [of s' s] by simp
  then show ?thesis by (simp add: detectExistingConnection_def Let_def silence.tun_down)
qed

text \<open>The actions that bring a tunnel up (or adopt one, at launch).\<close>

fun starts_tunnel :: "vm_action \<Rightarrow> bool" where
  "starts_tunnel (ConnectWireGuard c) \<longleftrightarrow> True"
| "starts_tunnel (ConnectAmneziaWg c) \<longleftrightarrow> True"
| "starts_tunnel (ConnectOpenVpn c) \<longleftrightarrow> True"
| "starts_tunnel (ConnectV2Ray c d p) \<longleftrightarrow> True"
| "starts_tunnel (ConnectXRay c d p) \<longleftrightarrow> True"
| "starts_tunnel (ConnectHysteria2 c p) \<longleftrightarrow> True"
| "starts_tunnel DetectExisting \<longleftrightarrow> True"
| "starts_tunnel _ \<longleftrightarrow> False"

text \<open>Runs in which none of them starts while a core of the app is alive.\<close>

inductive orderly :: "vm \<Rightarrow> bool" where
  launch: "orderly (fresh_vm l files)"
| act: "orderly s \<Longrightarrow> (starts_tunnel a \<Longrightarrow> \<not> isProxyChildAlive s) \<Longrightarrow> orderly (perform y a s)"

lemma perform_supervised:
  assumes "supervised s" and "starts_tunnel a \<Longrightarrow> \<not> isProxyChildAlive s"
  shows "supervised (perform y a s)"
proof (cases "starts_tunnel a")
  case True
  then have "quiet s" using assms by (intro supervised_quiet) auto
  with True show ?thesis
    by (cases a) (simp_all add: connect_core_supervised quiet_supervised quiet_interfaces detect_quiet)
next
  case False
  have "supervised (s\<lparr>exitCallback := True\<rparr>)"
    using assms(1) supervised_same [of "s\<lparr>exitCallback := True\<rparr>" s] by simp
  with False assms(1) show ?thesis
    by (cases a) (simp_all add: finish_core_steady bringUpTun_steady quiet_supervised disconnect_quiet killAll_quiet
        provisioning_steady provisioning_stop_steady happens_supervised)
qed

lemma orderly_supervised: "orderly s \<Longrightarrow> supervised s"
proof (induction rule: orderly.induct)
  case (launch l files)
  show ?case by (simp add: supervised_def at_large_def core_running_def fresh_vm_def)
qed (rule perform_supervised)

lemma all_happen_length: "length (t_cores (fold (happens y) es s)) = length (t_cores s)"
  by (induction es arbitrary: s) simp_all

lemma stop_told: "\<not> astray n (provisioning_stop y n s)"
  by (simp add: provisioning_stop_def unlink_file_def kill_core_def update_core_def astray_def core_running_def)

text \<open>Starting the provisioning proxy leaves no core of it running unless it hands the core out.\<close>

lemma provisioning_settles:
  assumes "provisioning_proxy y c w f s = (r, s')" and "length (t_cores s) \<le> n" and "astray n s'"
  shows "r = ok n"
proof -
  obtain r1 s1 where sp: "provisioning_spawn y c s = (r1, s1)" by fastforce
  have n: "n < length (t_cores s')" using assms(3) by (simp add: astray_def core_running_def)
  show ?thesis
  proof (cases r1)
    case (Inl e)
    then have "t_cores s1 = t_cores s" using sp
      by (auto simp: provisioning_spawn_def Let_def remember_def split: sum.splits option.splits prod.splits)
    with Inl sp assms(1,2) n show ?thesis by (simp add: provisioning_proxy_def)
  next
    case (Inr m)
    then have m: "m = length (t_cores s)" "length (t_cores s1) = Suc m" using sp
      by (auto simp: provisioning_spawn_def spawn_def write_file_def Let_def remember_def split: sum.splits option.splits prod.splits)
    have stopped: "length (t_cores (provisioning_stop y k s2)) = length (t_cores s2)" for k s2
      by (simp add: provisioning_stop_def unlink_file_def kill_core_def update_core_def)
    have "length (t_cores s') = Suc m"
      using Inr sp assms(1) m by (auto simp: provisioning_proxy_def Let_def all_happen_length stopped split: option.splits)
    with n m assms(2) have "n = m" by simp
    with Inr sp assms(1) have "r = ok n \<or> (\<exists>s2. s' = provisioning_stop y n s2)"
      by (auto simp: provisioning_proxy_def Let_def split: option.splits)
    with assms(3) show ?thesis using stop_told by blast
  qed
qed

text \<open>
  C9. No core of a connection runs on unattended: as long as no bring-up starts while a core of the app is alive, then at
  every moment each running core of a connection that has not been told to stop is the one the app holds, and a
  disconnect (or the teardown at quit), whatever the helper answers and whatever happens during it, leaves none:
  every such core has exited or has its SIGTERM. The core a chain purchase starts for its provisioning is not
  held by the app and no disconnect stops it; starting it leaves a core running only if that core is handed to
  the purchase, and the stop the purchase then calls sends it its SIGTERM.
\<close>

theorem no_core_left_running:
  assumes "orderly s"
  shows "(\<forall>n. at_large n s \<longrightarrow> held n s) \<and> (\<forall>n. \<not> at_large n (disconnect y s)) \<and> (\<forall>n. \<not> at_large n (killAllTunnels y s)) \<and>
    (\<forall>c w f r s' n. provisioning_proxy y c w f s = (r, s') \<and> length (t_cores s) \<le> n \<and> astray n s' \<longrightarrow> r = ok n) \<and>
    (\<forall>n s'. \<not> astray n (provisioning_stop y n s'))"
  using orderly_supervised [OF assms] disconnect_quiet [of s y] killAll_quiet [of s y] provisioning_settles [of y _ _ _ s] stop_told
  by (simp add: supervised_def quiet_def) blast

text \<open>
  The premise is the callers': a bring-up that starts while a core is alive leaves that core running for good,
  because the app then holds the new one only. \<open>assertNotConnected\<close> does not exclude it: when the TUN of a
  live core is gone the status says not connected (\<open>status_truthful\<close>).
\<close>

lemma second_core_strands_first:
  assumes "connectXRayFromConfig y c d p s = (ok (), s')" and "at_large n s"
  shows "at_large n s' \<and> \<not> held n s' \<and> (\<forall>m. held m s' \<longrightarrow> m = length (t_cores s))"
proof -
  from assms(2) have n: "n < length (t_cores s)" by (simp add: at_large_def core_running_def)
  have same: "t_cores (write_file f t (remember y hosts s)) = t_cores s" for f t hosts by (simp add: write_file_def)
  have large: "at_large n (write_file f t (remember y hosts s))" for f t hosts
    using assms(2) at_large_cores [OF same] by blast
  from assms(1) obtain b parsed cfg where "core_started XRay p (V2RAY_CONFIG y)
      (spawnV2Ray y b [''run'', ''-c'', V2RAY_CONFIG y] (V2RAY_CONFIG y) ''xray.log''
        (write_file (V2RAY_CONFIG y) (stringify 2 cfg) (remember y (v2_lookups (withV2RayDiagnosticLog parsed)) s))) =
      (ok (), s')"
    by (auto simp: connectXRayFromConfig_def Let_def split: sum.splits option.splits)
  then have a: "activeChild s' = Some (length (t_cores s))"
    and c: "\<exists>e. t_cores s' = t_cores s @ [e]"
    by (auto simp: core_started_def spawnV2Ray_def spawn_def Let_def write_file_def)
  from c n have "t_cores s' ! n = t_cores s ! n" "n < length (t_cores s')" by (auto simp: nth_append)
  with assms(2) have "at_large n s'" by (simp add: at_large_def core_running_def)
  with a n show ?thesis by (auto simp: held_def)
qed

end
