(* ===== verification/Privileged.thy ===== *)
theory Privileged
  imports Incremental JsonText Firewall
begin

text \<open>
  How a privileged operation reaches root: the client of the root daemon (\<open>src/main/helper/daemon-client.ts\<close>,
  \<open>daemon-protocol.ts\<close>) and the choice between the daemon and the \<open>pkexec\<close> helper
  (\<open>src/main/helper/privileged.ts\<close>). One daemon request is the state of its closure and the events of its
  socket; its timer is the last event. The daemon and the helper are programs outside the app: what they
  answer is an argument. \<open>parse\<close> is \<open>JSON.parse\<close>, \<open>None\<close> when it throws.
\<close>

section \<open>One request to the daemon\<close>

definition DAEMON_OPS :: "string list" where
  "DAEMON_OPS =
     [''protocol_version'', ''status'', ''xfrm_policies'', ''wireguard_handshake'', ''wireguard_up'',
      ''wireguard_down'', ''amneziawg_up'', ''amneziawg_down'', ''openvpn_up'', ''openvpn_down'', ''tun_up'',
      ''tun_down'', ''killswitch_on'', ''killswitch_off'', ''dns_set'', ''dns_restore'']"

text \<open>\<open>DaemonUnreachableError\<close>, and every other error.\<close>

datatype failure = Unreachable string | Failed string

fun failure_text :: "failure \<Rightarrow> string" where
  "failure_text (Unreachable m) = m"
| "failure_text (Failed m) = m"

datatype link_event = LinkOpen | Chunk string | LinkError string | TimerFired

record request =
  q_connected :: bool
  q_buf :: string
  q_sent :: string
  q_settled :: "(failure + js) option"

definition newline :: char where
  "newline = CHR 0x0A"

definition request_line :: "int \<Rightarrow> string \<Rightarrow> js \<Rightarrow> string" where
  "request_line i op args =
     stringify 0 (JObj [(''id'', JNum (NInt i)), (''op'', JStr op), (''args'', args)]) @ [newline]"

text \<open>
  What a complete line settles. A line that is the JSON value \<open>null\<close> makes the listener itself throw, which
  settles nothing.
\<close>

definition daemon_answer :: "(string \<Rightarrow> js option) \<Rightarrow> string \<Rightarrow> string \<Rightarrow> (failure + js) option" where
  "daemon_answer parse op line =
     (case parse line of
        None \<Rightarrow> Some (Inl (Failed (''daemon '' @ op @ '': malformed response'')))
      | Some JNull \<Rightarrow> None
      | Some res \<Rightarrow>
          Some (if truthy (jget ''ok'' res) then Inr (jget ''result'' res)
                else Inl (Failed (if truthy (jget ''error'' res) then to_string (jget ''error'' res)
                                  else ''daemon '' @ op @ '' failed''))))"

definition daemon_event ::
  "(string \<Rightarrow> js option) \<Rightarrow> int \<Rightarrow> string \<Rightarrow> js \<Rightarrow> link_event \<Rightarrow> request \<Rightarrow> request" where
  "daemon_event parse i op args ev q =
     (if q_settled q \<noteq> None then q
      else case ev of
          LinkOpen \<Rightarrow> q\<lparr>q_connected := True, q_sent := q_sent q @ request_line i op args\<rparr>
        | Chunk c \<Rightarrow>
            (let q' = q\<lparr>q_buf := q_buf q @ c\<rparr> in
             case index_of newline (q_buf q') of
               None \<Rightarrow> q'
             | Some idx \<Rightarrow> q'\<lparr>q_settled := daemon_answer parse op (take idx (q_buf q'))\<rparr>)
        | LinkError m \<Rightarrow>
            q\<lparr>q_settled := Some (Inl (if q_connected q then Failed m
                else Unreachable (''daemon '' @ op @ '': '' @ m)))\<rparr>
        | TimerFired \<Rightarrow>
            q\<lparr>q_settled := Some (Inl (if q_connected q then Failed (''daemon '' @ op @ '' timed out'')
                else Unreachable (''daemon '' @ op @ '': connect timed out'')))\<rparr>)"

definition request_start :: request where
  "request_start = \<lparr>q_connected = False, q_buf = [], q_sent = [], q_settled = None\<rparr>"

definition daemonRequest ::
  "(string \<Rightarrow> js option) \<Rightarrow> int \<Rightarrow> string \<Rightarrow> js \<Rightarrow> link_event list \<Rightarrow> request" where
  "daemonRequest parse i op args evs = fold (daemon_event parse i op args) (evs @ [TimerFired]) request_start"

section \<open>Verbs and operations\<close>

definition slot :: "nat \<Rightarrow> string list \<Rightarrow> js" where
  "slot n rest = (if n < length rest then JStr (rest ! n) else JUndef)"

definition read_slot :: "(string \<Rightarrow> string result) \<Rightarrow> string list \<Rightarrow> (string \<Rightarrow> js) \<Rightarrow> js result" where
  "read_slot read rest k =
     (case rest of
        [] \<Rightarrow> throw ''The \"path\" argument must be of type string or an instance of Buffer or URL. Received undefined''
      | f # _ \<Rightarrow> and_then (read f) (\<lambda>content. ok (k content)))"

definition config_content :: "string \<Rightarrow> js" where
  "config_content content = JObj [(''configString'', JStr content)]"

definition killswitch_op :: "string list \<Rightarrow> js" where
  "killswitch_op rest =
     (let lanSharing = rest \<noteq> [] \<and> last rest = LAN_SHARING_ARG;
          plain = (if lanSharing then butlast rest else rest)
      in JObj [(''iface'', slot 0 plain), (''remoteHost'', slot 1 plain), (''dnsIp'', slot 2 plain),
               (''lanSharing'', JBool lanSharing)])"

definition tun_up_op :: "string list \<Rightarrow> js" where
  "tun_up_op rest =
     JObj [(''socksAddr'', slot 1 rest), (''remoteHost'', slot 2 rest), (''gateway'', slot 3 rest),
           (''iface'', slot 4 rest),
           (''bypassRoutes'', JArr (if 5 < length rest \<and> rest ! 5 \<noteq> [] then map JStr (split_on CHR '','' (rest ! 5)) else []))]"

text \<open>The request \<open>runViaDaemon\<close> makes of a verb and its arguments.\<close>

definition daemon_op :: "(string \<Rightarrow> string result) \<Rightarrow> string list \<Rightarrow> (string \<times> js) result" where
  "daemon_op read args =
     (case args of
        [] \<Rightarrow> throw ''unknown privileged verb: undefined''
      | verb # rest \<Rightarrow>
          if verb = ''up'' then and_then (read_slot read rest config_content) (\<lambda>a. ok (''wireguard_up'', a))
          else if verb = ''down'' then ok (''wireguard_down'', JUndef)
          else if verb = ''awg-up'' then and_then (read_slot read rest config_content) (\<lambda>a. ok (''amneziawg_up'', a))
          else if verb = ''awg-down'' then ok (''amneziawg_down'', JUndef)
          else if verb = ''ovpn-up'' then and_then (read_slot read rest config_content) (\<lambda>a. ok (''openvpn_up'', a))
          else if verb = ''ovpn-down'' then ok (''openvpn_down'', JUndef)
          else if verb = ''tun-up'' then ok (''tun_up'', tun_up_op rest)
          else if verb = ''tun-down'' then ok (''tun_down'', JUndef)
          else if verb = ''killswitch-on'' then ok (''killswitch_on'', killswitch_op rest)
          else if verb = ''killswitch-off'' then ok (''killswitch_off'', JUndef)
          else if verb = ''dns-set'' then ok (''dns_set'', JObj [(''dnsIp'', slot 0 rest)])
          else if verb = ''dns-restore'' then ok (''dns_restore'', JUndef)
          else throw (''unknown privileged verb: '' @ verb))"

section \<open>The door to root\<close>

text \<open>
  What one call finds: whether the daemon's socket exists, the events on the connection to it, what reading a
  file gives, whether the helper is installed and what \<open>pkexec\<close> answers.
\<close>

record door =
  d_socket :: bool
  d_parse :: "string \<Rightarrow> js option"
  d_id :: int
  d_events :: "link_event list"
  d_read :: "string \<Rightarrow> string result"
  d_helper :: bool
  d_pkexec :: "string list \<Rightarrow> unit result"

definition HELPER_PATH :: string where
  "HELPER_PATH = ''/usr/local/bin/katacomb-vpn-helper''"

definition canEscalatePrivileges :: "door \<Rightarrow> bool" where
  "canEscalatePrivileges d \<longleftrightarrow> d_socket d \<or> d_helper d"

text \<open>What reached root: a line written to the daemon, or a helper run through \<open>pkexec\<close>.\<close>

datatype reached = SentToDaemon string | RanByPkexec "string list"

definition runViaDaemon :: "door \<Rightarrow> string list \<Rightarrow> (failure + js) \<times> reached list" where
  "runViaDaemon d args =
     (case daemon_op (d_read d) args of
        Inl e \<Rightarrow> (Inl (Failed e), [])
      | Inr (op, a) \<Rightarrow>
          let q = daemonRequest (d_parse d) (d_id d) op a (d_events d)
          in (the (q_settled q), if q_sent q = [] then [] else [SentToDaemon (q_sent q)]))"

definition via_pkexec :: "door \<Rightarrow> string list \<Rightarrow> unit result \<times> reached list" where
  "via_pkexec d args =
     (if \<not> d_helper d then (throw ''VPN helper not installed. Install it from Settings, System.'', [])
      else (d_pkexec d (HELPER_PATH # args), [RanByPkexec (HELPER_PATH # args)]))"

definition runPrivileged :: "door \<Rightarrow> string list \<Rightarrow> unit result \<times> reached list" where
  "runPrivileged d args =
     (if d_socket d
      then (case runViaDaemon d args of
              (Inr _, tr) \<Rightarrow> (ok (), tr)
            | (Inl (Failed e), tr) \<Rightarrow> (throw e, tr)
            | (Inl (Unreachable e), tr) \<Rightarrow> (case via_pkexec d args of (r, tr') \<Rightarrow> (r, tr @ tr')))
      else via_pkexec d args)"

section \<open>Questions put to the daemon\<close>

text \<open>The answer of a probe: \<open>None\<close> when there is no socket, the request fails or it takes over three seconds.\<close>

definition daemonCapabilities :: "js option \<Rightarrow> (jnum \<times> string list option) option" where
  "daemonCapabilities result =
     (case result of
        None \<Rightarrow> None
      | Some r \<Rightarrow>
          (case jget ''version'' r of
             JNum version \<Rightarrow>
               Some (version, case jget ''ops'' r of
                   JArr os \<Rightarrow> if list_all (\<lambda>x. as_string x \<noteq> None) os then Some (map (the \<circ> as_string) os) else None
                 | _ \<Rightarrow> None)
           | _ \<Rightarrow> None))"

definition daemonMissingOp :: "js option \<Rightarrow> string \<Rightarrow> bool" where
  "daemonMissingOp result op =
     (case daemonCapabilities result of
        Some (_, Some ops) \<Rightarrow> op \<notin> set ops
      | _ \<Rightarrow> False)"

definition daemonXfrmPolicyCount :: "js option \<Rightarrow> jnum option" where
  "daemonXfrmPolicyCount result =
     (case result of
        None \<Rightarrow> None
      | Some r \<Rightarrow> (case jget ''count'' r of JNum n \<Rightarrow> Some n | _ \<Rightarrow> None))"

definition below_zero :: "jnum \<Rightarrow> bool" where
  "below_zero n = (case n of NInt i \<Rightarrow> i < 0 | NOther s \<Rightarrow> starts_with ''-'' s)"

definition daemonWireguardHandshakeAge :: "js option \<Rightarrow> jnum option" where
  "daemonWireguardHandshakeAge result =
     (case result of
        None \<Rightarrow> None
      | Some r \<Rightarrow>
          if jget ''kernel'' r \<noteq> JBool True then None
          else (case jget ''ageSeconds'' r of JNum n \<Rightarrow> if below_zero n then None else Some n | _ \<Rightarrow> None))"

section \<open>The conversation\<close>

text \<open>The first line of what has arrived.\<close>

definition first_line :: "string \<Rightarrow> string option" where
  "first_line b = map_option (\<lambda>i. take i b) (index_of newline b)"

lemma index_of_more: "index_of x b = Some i \<Longrightarrow> index_of x (b @ c) = Some i"
  by (induction b arbitrary: i) (auto split: if_splits)

interpretation reply_line: incremental first_line
proof
  fix b c r assume "first_line b = Some r"
  then obtain i where "index_of newline b = Some i" "r = take i b" by (auto simp: first_line_def)
  with index_of_more [of newline b i c] index_of_Some [of newline b i] show "first_line (b @ c) = Some r"
    by (simp add: first_line_def)
qed

lemma settled_stays: "q_settled q \<noteq> None \<Longrightarrow> daemon_event parse i op args ev q = q"
  by (simp add: daemon_event_def)

lemma fold_settled: "q_settled q \<noteq> None \<Longrightarrow> fold (daemon_event parse i op args) evs q = q"
  by (induction evs) (simp_all add: settled_stays)

lemma daemonRequest_settles: "q_settled (daemonRequest parse i op args evs) \<noteq> None"
proof -
  have "q_settled (daemon_event parse i op args TimerFired q) \<noteq> None" for q
    by (simp add: daemon_event_def)
  then show ?thesis by (simp add: daemonRequest_def)
qed

text \<open>An unreachable daemon is one whose connection never opened, so nothing was sent to it.\<close>

lemma unreachable_sent_nothing:
  assumes "q_settled (fold (daemon_event parse i op args) evs q) = Some (Inl (Unreachable m))"
    and "\<And>m. q_settled q = Some (Inl (Unreachable m)) \<Longrightarrow> q_sent q = []" and "\<not> q_connected q \<Longrightarrow> q_sent q = []"
  shows "q_sent (fold (daemon_event parse i op args) evs q) = []"
  using assms
proof (induction evs arbitrary: q)
  case (Cons ev evs)
  show ?case
  proof (cases "q_settled q")
    case None
    let ?q = "daemon_event parse i op args ev q"
    have "q_sent ?q = []" if "q_settled ?q = Some (Inl (Unreachable m'))" for m'
      using that None Cons.prems(3)
      by (cases ev) (auto simp: daemon_event_def daemon_answer_def Let_def split: option.splits if_splits js.splits)
    moreover have "q_sent ?q = []" if "\<not> q_connected ?q"
      using that None Cons.prems(3) by (cases ev) (auto simp: daemon_event_def Let_def split: option.splits)
    ultimately show ?thesis using Cons.IH [of ?q] Cons.prems(1) by simp
  next
    case (Some r)
    with Cons.prems show ?thesis by (simp add: settled_stays fold_settled)
  qed
qed simp

lemma sent_once:
  assumes "length (filter ((=) LinkOpen) evs) \<le> (if q_sent q = [] then 1 else 0)"
    and "q_sent q \<in> {[], request_line i op args}"
  shows "q_sent (fold (daemon_event parse i op args) evs q) \<in> {[], request_line i op args}"
  using assms
proof (induction evs arbitrary: q)
  case (Cons ev evs)
  let ?q = "daemon_event parse i op args ev q"
  have "q_sent ?q = (if ev = LinkOpen \<and> q_settled q = None then q_sent q @ request_line i op args else q_sent q)"
    by (cases ev) (auto simp: daemon_event_def Let_def split: option.splits)
  with Cons.prems Cons.IH [of ?q] show ?case by (auto split: if_splits)
qed simp

text \<open>
  C10. A privileged operation takes one way to root: a call sends at most one line to the daemon, the request of the verb
  it was given, or runs the helper once through \<open>pkexec\<close> with exactly its arguments, and never both: the
  helper runs only when there is no daemon socket or the connection to it never opened, so an operation the
  daemon received, and may have refused or still be executing, is not repeated as root.
\<close>

theorem one_way_to_root:
  assumes "length (filter ((=) LinkOpen) (d_events d)) \<le> 1"
  shows "snd (runPrivileged d args) = [] \<or> snd (runPrivileged d args) = [RanByPkexec (HELPER_PATH # args)] \<or>
    (\<exists>op a. daemon_op (d_read d) args = ok (op, a) \<and>
       snd (runPrivileged d args) = [SentToDaemon (request_line (d_id d) op a)])"
proof (cases "d_socket d")
  case False
  then show ?thesis by (simp add: runPrivileged_def via_pkexec_def)
next
  case True
  show ?thesis
  proof (cases "daemon_op (d_read d) args")
    case (Inl e)
    with True show ?thesis by (simp add: runPrivileged_def runViaDaemon_def)
  next
    case (Inr oa)
    obtain op a where oa: "oa = (op, a)" by (cases oa)
    let ?q = "daemonRequest (d_parse d) (d_id d) op a (d_events d)"
    have s: "q_sent ?q = [] \<or> q_sent ?q = request_line (d_id d) op a"
      using sent_once [of "d_events d @ [TimerFired]" request_start "d_id d" op a] assms
      by (auto simp: daemonRequest_def request_start_def)
    obtain r where r: "q_settled ?q = Some r" using daemonRequest_settles by fastforce
    have u: "q_sent ?q = []" if "r = Inl (Unreachable m)" for m
      using that r unreachable_sent_nothing [of "d_parse d" "d_id d" op a "d_events d @ [TimerFired]" request_start m]
      by (simp add: daemonRequest_def request_start_def)
    show ?thesis
    proof (cases r)
      case (Inr v)
      with True s r Inr oa \<open>daemon_op (d_read d) args = Inr oa\<close> show ?thesis
        by (auto simp: runPrivileged_def runViaDaemon_def Let_def)
    next
      case (Inl f)
      with True s r u oa \<open>daemon_op (d_read d) args = Inr oa\<close> show ?thesis
        by (cases f) (auto simp: runPrivileged_def runViaDaemon_def via_pkexec_def Let_def)
    qed
  qed
qed

lemma reply_settles:
  assumes "q_settled q = None" and "first_line (q_buf q) = None"
    and "first_line (q_buf q @ concat cs) = Some line" and "daemon_answer parse op line = Some r"
  shows "q_settled (fold (daemon_event parse i op args) (map Chunk cs) q) = Some r \<and>
    q_sent (fold (daemon_event parse i op args) (map Chunk cs) q) = q_sent q"
  using assms(1-3)
proof (induction cs arbitrary: q)
  case (Cons c cs)
  let ?q = "daemon_event parse i op args (Chunk c) q"
  show ?case
  proof (cases "first_line (q_buf q @ c)")
    case None
    with Cons.prems have "q_settled ?q = None" "q_buf ?q = q_buf q @ c" "q_sent ?q = q_sent q"
      by (auto simp: daemon_event_def first_line_def Let_def)
    with Cons.IH [of ?q] Cons.prems None show ?thesis by simp
  next
    case (Some l)
    with Cons.prems have "l = line"
      using reply_line.stable [OF Some, of "concat cs"] by simp
    with Some Cons.prems assms(4) have "q_settled ?q = Some r" "q_sent ?q = q_sent q"
      by (auto simp: daemon_event_def first_line_def Let_def)
    then show ?thesis by (simp add: fold_settled)
  qed
qed simp

definition refusal :: "string \<Rightarrow> js \<Rightarrow> string" where
  "refusal op res =
     (if truthy (jget ''error'' res) then to_string (jget ''error'' res) else ''daemon '' @ op @ '' failed'')"

text \<open>
  The daemon's word is final: once its reply line has arrived, in whatever pieces, the call returns what the line
  says (the error the daemon gives is thrown as it is), and \<open>pkexec\<close> is not run.
\<close>

theorem daemon_word_is_final:
  assumes "d_socket d" and "daemon_op (d_read d) args = ok (op, a)"
    and "d_events d = LinkOpen # map Chunk cs @ later" and "concat cs = line @ newline # after"
    and "newline \<notin> set line" and "d_parse d line = Some res" and "res \<noteq> JNull"
  shows "runPrivileged d args =
    (if truthy (jget ''ok'' res) then ok () else throw (refusal op res), [SentToDaemon (request_line (d_id d) op a)])"
proof -
  let ?ev = "daemon_event (d_parse d) (d_id d) op a"
  define r where "r = (if truthy (jget ''ok'' res) then Inr (jget ''result'' res) else Inl (Failed (refusal op res)))"
  have ans: "daemon_answer (d_parse d) op line = Some r"
    using assms(6,7) by (cases res) (simp_all add: daemon_answer_def r_def refusal_def)
  let ?q = "?ev LinkOpen request_start"
  have q: "q_settled ?q = None" "q_buf ?q = []" "q_sent ?q = request_line (d_id d) op a"
    by (simp_all add: daemon_event_def request_start_def)
  have "first_line (concat cs) = Some line"
    using assms(4,5) by (simp add: first_line_def index_of_append)
  then have "q_settled (fold ?ev (map Chunk cs) ?q) = Some r \<and> q_sent (fold ?ev (map Chunk cs) ?q) = q_sent ?q"
    using reply_settles [of ?q cs line "d_parse d" op r "d_id d" a] q ans by (simp add: first_line_def)
  then have "q_settled (daemonRequest (d_parse d) (d_id d) op a (d_events d)) = Some r"
    "q_sent (daemonRequest (d_parse d) (d_id d) op a (d_events d)) = request_line (d_id d) op a"
    using q by (simp_all add: daemonRequest_def assms(3) fold_settled settled_stays)
  then show ?thesis
    using assms(1,2) by (simp add: runPrivileged_def runViaDaemon_def Let_def r_def request_line_def)
qed

section \<open>The argv contract\<close>

text \<open>
  The daemon is asked for the kill switch the helper would have been run for: the request read off the positional
  argument list of \<open>enableKillSwitch\<close> has the interface, the endpoint, the resolver (absent for the system
  one) and the LAN flag it was called with.
\<close>

theorem killswitch_request_read_back:
  assumes "remoteHost \<noteq> LAN_SHARING_ARG" and "dnsIp \<noteq> Some LAN_SHARING_ARG"
  shows "daemon_op read (killswitch_args vpnInterface remoteHost dnsIp lan) =
    ok (''killswitch_on'', JObj
      [(''iface'', JStr vpnInterface), (''remoteHost'', JStr remoteHost),
       (''dnsIp'', case dnsIp of None \<Rightarrow> JUndef | Some ip \<Rightarrow> if ip = [] \<or> ip = ''system'' then JUndef else JStr ip),
       (''lanSharing'', JBool lan)])"
  using assms
  by (cases dnsIp; cases lan)
     (simp_all add: daemon_op_def killswitch_args_def killswitch_op_def slot_def butlast_append Let_def nth_Cons')

section \<open>Witnesses\<close>

text \<open>A daemon that refuses the request, its reply in two chunks; and a socket left behind by a dead daemon.\<close>

definition refusing_door :: door where
  "refusing_door = \<lparr>d_socket = True, d_parse = (\<lambda>_. Some (JObj [(''ok'', JBool False), (''error'', JStr ''bad config'')])),
     d_id = 1, d_events = [LinkOpen, Chunk ''{...'', Chunk (''}'' @ [newline])],
     d_read = (\<lambda>_. throw ''ENOENT''), d_helper = True, d_pkexec = (\<lambda>_. ok ())\<rparr>"

definition dead_door :: door where
  "dead_door = refusing_door\<lparr>d_events := [LinkError ''connect ECONNREFUSED'']\<rparr>"

theorem one_way_to_root_witness:
  "snd (runPrivileged dead_door [''tun-down'']) = [RanByPkexec [HELPER_PATH, ''tun-down'']]"
proof -
  have "length (filter ((=) LinkOpen) (d_events dead_door)) \<le> 1" by (simp add: dead_door_def)
  from one_way_to_root [OF this, of "[''tun-down'']"] show ?thesis
    by (auto simp: runPrivileged_def runViaDaemon_def daemon_op_def daemonRequest_def daemon_event_def
        request_start_def dead_door_def refusing_door_def via_pkexec_def)
qed

theorem daemon_word_is_final_witness:
  "fst (runPrivileged refusing_door [''tun-down'']) = throw ''bad config''"
proof -
  have "d_socket refusing_door" and "daemon_op (d_read refusing_door) [''tun-down''] = ok (''tun_down'', JUndef)"
    and "d_events refusing_door = LinkOpen # map Chunk [''{...'', ''}'' @ [newline]] @ []"
    and "concat [''{...'', ''}'' @ [newline]] = ''{...}'' @ newline # []"
    and "newline \<notin> set ''{...}''"
    and "d_parse refusing_door ''{...}'' = Some (JObj [(''ok'', JBool False), (''error'', JStr ''bad config'')])"
    and "JObj [(''ok'', JBool False), (''error'', JStr ''bad config'')] \<noteq> JNull"
    by (simp_all add: refusing_door_def daemon_op_def newline_def)
  from daemon_word_is_final [OF this] show ?thesis by (simp add: refusal_def)
qed

theorem killswitch_request_read_back_witness:
  "daemon_op (\<lambda>_. throw []) (killswitch_args ''sntl0'' ''203.0.113.7'' (Some ''9.9.9.9'') True) =
    ok (''killswitch_on'', JObj
      [(''iface'', JStr ''sntl0''), (''remoteHost'', JStr ''203.0.113.7''), (''dnsIp'', JStr ''9.9.9.9''),
       (''lanSharing'', JBool True)])"
  using killswitch_request_read_back [of "''203.0.113.7''" "Some ''9.9.9.9''" "\<lambda>_. throw []" "''sntl0''" True]
  by (simp add: LAN_SHARING_ARG_def)

end
