(* ===== verification/VpnProps.thy ===== *)
theory VpnProps
  imports VpnTeardown Privileged
begin

text \<open>
  What a disconnect leaves when the helper does its work, how a name resolved once outlives the loss of DNS, and the
  TUN bring-up as the daemon reads it.
\<close>

section \<open>A helper that does its work\<close>

definition own_ifaces :: "string set" where
  "own_ifaces = {WG_IFACE, TUN_IFACE, OVPN_IFACE}"

text \<open>
  A teardown verb raises none of the app's interfaces and removes its own (\<open>down\<close> a kernel WireGuard one), and
  nobody else touches the interfaces while it runs.
\<close>

definition honest_teardown :: "sys \<Rightarrow> bool" where
  "honest_teardown y \<longleftrightarrow>
     (\<forall>n l verb. \<forall>i \<in> own_ifaces. verb \<in> {''tun-down'', ''down'', ''awg-down'', ''ovpn-down''} \<longrightarrow>
        ip_up (snd (y_call y n l [verb])) i \<longrightarrow> ip_up l i) \<and>
     (\<forall>n l. \<not> ip_up (snd (y_call y n l [''tun-down''])) TUN_IFACE) \<and>
     (\<forall>n l. \<not> ip_up (snd (y_call y n l [''awg-down''])) WG_IFACE) \<and>
     (\<forall>n l. \<not> ip_up (snd (y_call y n l [''ovpn-down''])) OVPN_IFACE) \<and>
     (\<forall>n l. kernel_sntl0 l \<longrightarrow> \<not> ip_up (snd (y_call y n l [''down''])) WG_IFACE) \<and>
     (\<forall>n l. LinksChanged l \<notin> set (y_meanwhile y n))"

text \<open>None of the app's interfaces is up that was not.\<close>

definition no_higher :: "links \<Rightarrow> links \<Rightarrow> bool" where
  "no_higher l l' \<longleftrightarrow> (\<forall>i \<in> own_ifaces. ip_up l' i \<longrightarrow> ip_up l i)"

lemma no_higher_refl [simp]: "no_higher l l"
  by (simp add: no_higher_def)

lemma no_higher_trans: "no_higher l l' \<Longrightarrow> no_higher l' l'' \<Longrightarrow> no_higher l l''"
  by (simp add: no_higher_def)

lemma no_higher_down: "no_higher l l' \<Longrightarrow> i \<in> own_ifaces \<Longrightarrow> \<not> ip_up l i \<Longrightarrow> \<not> ip_up l' i"
  by (auto simp: no_higher_def)

lemma answers_links: "t_links (snd (helper_answers y args s)) = snd (y_call y (length (t_calls s)) (t_links s) args)"
  by (simp add: helper_answers_def split: prod.split)

lemma honestD:
  assumes "honest_teardown y"
  shows "no_higher l (snd (y_call y n l [''tun-down'']))" and "no_higher l (snd (y_call y n l [''down'']))"
    and "no_higher l (snd (y_call y n l [''awg-down'']))" and "no_higher l (snd (y_call y n l [''ovpn-down'']))"
    and "\<not> ip_up (snd (y_call y n l [''tun-down''])) TUN_IFACE"
    and "\<not> ip_up (snd (y_call y n l [''awg-down''])) WG_IFACE"
    and "\<not> ip_up (snd (y_call y n l [''ovpn-down''])) OVPN_IFACE"
    and "kernel_sntl0 l \<Longrightarrow> \<not> ip_up (snd (y_call y n l [''down''])) WG_IFACE"
    and "LinksChanged l \<notin> set (y_meanwhile y n)"
  using assms unfolding honest_teardown_def no_higher_def by blast+

lemma own [simp]: "WG_IFACE \<in> own_ifaces" "TUN_IFACE \<in> own_ifaces" "OVPN_IFACE \<in> own_ifaces"
  by (simp_all add: own_ifaces_def)

lemma tun_down_links: "t_links (tun_down_with call s) = (if tunActive s \<or> isTunUp s then t_links (snd (call [''tun-down''] s)) else t_links s)"
  by (simp add: tun_down_with_def)

lemma exit_links: "honest_teardown y \<Longrightarrow> no_higher (t_links s) (t_links (core_exits y n code s))"
  by (simp add: core_exits_def Let_def tun_down_links answers_links honestD(1) update_core_def split: option.split)

lemma event_links: "honest_teardown y \<Longrightarrow> (\<And>l. e \<noteq> LinksChanged l) \<Longrightarrow> no_higher (t_links s) (t_links (happens y e s))"
  by (cases e) (auto simp: exit_links collectOutput_def getConnectionStatus_def interface_status_def Let_def split: option.split)

lemma events_links:
  "honest_teardown y \<Longrightarrow> (\<And>l. LinksChanged l \<notin> set es) \<Longrightarrow> no_higher (t_links s) (t_links (fold (happens y) es s))"
proof (induction es arbitrary: s)
  case (Cons e es)
  have "no_higher (t_links s) (t_links (happens y e s))"
    using Cons.prems by (intro event_links) auto
  moreover have "no_higher (t_links (happens y e s)) (t_links (fold (happens y) es (happens y e s)))"
    using Cons.prems by (intro Cons.IH) auto
  ultimately show ?case by (auto intro: no_higher_trans)
qed simp

lemma run_links:
  assumes "honest_teardown y"
  shows "no_higher (snd (y_call y (length (t_calls s)) (t_links s) args)) (t_links (snd (run_helper y args s)))"
proof -
  have "no_higher (t_links s') (t_links (fold (happens y) (y_meanwhile y n) s'))" for s' n
    by (intro events_links assms honestD(9))
  then show ?thesis
    by (simp add: run_helper_def flip: answers_links split: prod.split)
qed

lemma honest_run:
  assumes "honest_teardown y"
  shows "no_higher (t_links s) (t_links (snd (run_helper y [''tun-down''] s)))"
    and "no_higher (t_links s) (t_links (snd (run_helper y [''down''] s)))"
    and "no_higher (t_links s) (t_links (snd (run_helper y [''awg-down''] s)))"
    and "no_higher (t_links s) (t_links (snd (run_helper y [''ovpn-down''] s)))"
  by (rule no_higher_trans [OF _ run_links [OF assms]], rule honestD [OF assms])+

lemma run_removes:
  assumes "honest_teardown y"
  shows "\<not> ip_up (t_links (snd (run_helper y [''tun-down''] s))) TUN_IFACE"
    and "\<not> ip_up (t_links (snd (run_helper y [''awg-down''] s))) WG_IFACE"
    and "\<not> ip_up (t_links (snd (run_helper y [''ovpn-down''] s))) OVPN_IFACE"
    and "kernel_sntl0 (t_links s) \<Longrightarrow> \<not> ip_up (t_links (snd (run_helper y [''down''] s))) WG_IFACE"
  by (rule no_higher_down [OF run_links [OF assms]], simp, rule honestD [OF assms])+ assumption

section \<open>The steps of a disconnect\<close>

lemma unlink_links [simp]: "t_links (unlink_file f s) = t_links s"
  by (simp add: unlink_file_def)

lemma tun_step:
  assumes "honest_teardown y"
  shows "\<not> isTunUp (tun_down_if_up y s)"
proof (cases "tunActive s \<or> isTunUp s")
  case True
  with run_removes(1) [OF assms, of s] show ?thesis by (simp add: tun_down_if_up_def bringDownTun_def isTunUp_def tun_down_links)
qed (simp add: tun_down_if_up_def)

lemma awg_step:
  assumes "honest_teardown y"
  shows "no_higher (t_links s) (t_links (awg_down_if_up y s))"
    and "isWireGuardUp (awg_down_if_up y s) \<Longrightarrow> kernel_sntl0 (t_links (awg_down_if_up y s))"
proof -
  from honest_run(3) [OF assms, of s] show "no_higher (t_links s) (t_links (awg_down_if_up y s))" by (simp add: awg_down_if_up_def bringDownAmneziaWg_def)
  from run_removes(2) [OF assms, of s] show "isWireGuardUp (awg_down_if_up y s) \<Longrightarrow> kernel_sntl0 (t_links (awg_down_if_up y s))"
    by (auto simp: awg_down_if_up_def bringDownAmneziaWg_def isWireGuardUp_def sntl0IsKernelWireGuard_def split: if_splits)
qed

lemma wg_step:
  assumes "honest_teardown y"
  shows "no_higher (t_links s) (t_links (wg_down_if_up y s))"
    and "(isWireGuardUp s \<Longrightarrow> kernel_sntl0 (t_links s)) \<Longrightarrow> \<not> isWireGuardUp (wg_down_if_up y s)"
proof -
  from honest_run(2) [OF assms, of s] show h: "no_higher (t_links s) (t_links (wg_down_if_up y s))" by (simp add: wg_down_if_up_def bringDownAllWireGuard_def)
  assume k: "isWireGuardUp s \<Longrightarrow> kernel_sntl0 (t_links s)"
  show "\<not> isWireGuardUp (wg_down_if_up y s)"
  proof (cases "isWireGuardUp s")
    case True
    with k have "kernel_sntl0 (t_links s)" by simp
    moreover from this have "isAnyWireGuardUp s" by (auto simp: kernel_sntl0_def isAnyWireGuardUp_def)
    moreover note run_removes(4) [OF assms \<open>kernel_sntl0 (t_links s)\<close>]
    ultimately show ?thesis using True by (simp add: wg_down_if_up_def bringDownAllWireGuard_def isWireGuardUp_def)
  next
    case False
    with no_higher_down [OF h] show ?thesis by (simp add: isWireGuardUp_def)
  qed
qed

lemma ovpn_step:
  assumes "honest_teardown y"
  shows "no_higher (t_links s) (t_links (ovpn_down_if_up y s))" and "\<not> isOpenVpnUp (ovpn_down_if_up y s)"
proof -
  from honest_run(4) [OF assms, of s] show "no_higher (t_links s) (t_links (ovpn_down_if_up y s))" by (simp add: ovpn_down_if_up_def bringDownOpenVpn_def)
  from run_removes(3) [OF assms, of s] show "\<not> isOpenVpnUp (ovpn_down_if_up y s)" by (simp add: ovpn_down_if_up_def bringDownOpenVpn_def isOpenVpnUp_def)
qed

lemma disconnect_fields [simp]:
  "activeProtocol (disconnect y s) = None" "activeMode (disconnect y s) = Tunnel" "activeConfigFile (disconnect y s) = None"
  "activeChild (disconnect y s) = None" "activeLogPath (disconnect y s) = None"
  "t_files (disconnect y s) (V2RAY_CONFIG y) = None"
  by (auto simp: disconnect_def Let_def forget_log_def unlink_file_def split: option.split)

lemma gone_cores: "t_cores s' = t_cores s \<Longrightarrow> gone n s' = gone n s"
  by (simp add: gone_def)

text \<open>A core that is gone stays gone.\<close>

interpretation departure: steady "gone n" for n
proof
  fix s s' :: vm assume "t_cores s' = t_cores s" "gone n s"
  then show "gone n s'" by (simp add: gone_def)
qed (rule gone_event)

lemma kill_proxy_gone: "held_or_gone n s \<Longrightarrow> gone n (kill_proxy s)"
  by (auto simp: held_or_gone_def held_def gone_def kill_proxy_def kill_core_def update_core_def nth_list_update
      split: option.split)

text \<open>
  A disconnect takes everything down: when the helper's teardown verbs do their work, none of the app's interfaces is
  up afterwards, the core that was held has exited or has its SIGTERM, the core's config is off the disk and
  nothing is recorded as active, so the status says not connected; whichever protocol was up, and whether
  the app brought it up or found it.
\<close>

theorem disconnect_takes_everything_down:
  assumes "honest_teardown y"
  shows "\<not> isVpnActive (disconnect y s) \<and> \<not> st_connected (fst (getConnectionStatus (disconnect y s))) \<and>
    t_files (disconnect y s) (V2RAY_CONFIG y) = None \<and>
    (\<forall>n < length (t_cores s). held n s \<longrightarrow> gone n (disconnect y s))"
proof -
  let ?s1 = "tun_down_if_up y s" and ?k = "kill_proxy (tun_down_if_up y s)"
  let ?a = "awg_down_if_up y ?k" and ?w = "wg_down_if_up y (awg_down_if_up y ?k)"
  let ?o = "ovpn_down_if_up y ?w" and ?d = "disconnect y s"
  have links: "t_links ?d = t_links ?o"
    by (simp add: disconnect_def Let_def forget_log_def split: option.split)
  have k: "t_links ?k = t_links ?s1"
    by (simp add: kill_proxy_def kill_core_def update_core_def split: option.split)
  have "\<not> ip_up (t_links ?k) TUN_IFACE" using tun_step [OF assms, of s] k by (simp add: isTunUp_def)
  moreover have ko: "no_higher (t_links ?k) (t_links ?o)"
    using awg_step(1) [OF assms, of ?k] wg_step(1) [OF assms, of ?a] ovpn_step(1) [OF assms, of ?w]
    by (blast intro: no_higher_trans)
  ultimately have tun: "\<not> isTunUp ?d" using no_higher_down [OF ko] links by (simp add: isTunUp_def)
  have "\<not> isWireGuardUp ?w" using awg_step(2) [OF assms, of ?k] by (rule wg_step(2) [OF assms])
  then have wg: "\<not> isWireGuardUp ?d"
    using no_higher_down [OF ovpn_step(1) [OF assms, of ?w]] links by (simp add: isWireGuardUp_def)
  have ov: "\<not> isOpenVpnUp ?d" using ovpn_step(2) [OF assms, of ?w] links by (simp add: isOpenVpnUp_def)
  have "gone n ?d" if "n < length (t_cores s)" and "held n s" for n
  proof -
    from that have "held_or_gone n s" by (simp add: held_or_gone_def)
    then have "gone n ?o" by (intro departure.downs kill_proxy_gone holding.downs)
    moreover have "t_cores ?d = t_cores ?o"
      by (simp add: disconnect_def Let_def forget_log_def unlink_file_def split: option.split)
    ultimately show ?thesis using gone_cores [of ?d ?o n] by blast
  qed
  with tun wg ov show ?thesis
    by (simp add: isVpnActive_def getConnectionStatus_def isChildProxy_def interface_status_def not_connected_status_def)
qed

section \<open>Without DNS\<close>

lemma knows_fields [simp]:
  "knows h (s\<lparr>activeChild := a\<rparr>) = knows h s" "knows h (s\<lparr>activeProtocol := p\<rparr>) = knows h s"
  "knows h (s\<lparr>activeMode := m\<rparr>) = knows h s" "knows h (s\<lparr>activeConfigFile := cf\<rparr>) = knows h s"
  "knows h (s\<lparr>activeLogPath := lf\<rparr>) = knows h s" "knows h (s\<lparr>v2rayStderr := e\<rparr>) = knows h s"
  "knows h (s\<lparr>tunActive := b\<rparr>) = knows h s" "knows h (s\<lparr>tunRoute := r\<rparr>) = knows h s"
  "knows h (s\<lparr>exitCallback := b\<rparr>) = knows h s" "knows h (s\<lparr>t_cores := cs\<rparr>) = knows h s"
  "knows h (s\<lparr>versionCache := vc\<rparr>) = knows h s" "knows h (s\<lparr>t_files := fs\<rparr>) = knows h s"
  "knows h (unlink_file f s) = knows h s" "knows h (write_file f c s) = knows h s" "knows h (kill_core n s) = knows h s"
  by (simp_all add: knows_def unlink_file_def write_file_def kill_core_def update_core_def)

lemma knows_interface:
  assumes "knows h s" and "\<And>f s. knows h s \<Longrightarrow> knows h (snd (bringUp f s))"
  shows "knows h (snd (write_and_bring_up bringUp p f c s))"
  using assms(2) [of "write_file f c s" f] assms(1)
  by (cases "bringUp f (write_file f c s)") (auto simp: write_and_bring_up_def came_up_def split: sum.split)

lemma knows_spawn:
  assumes "knows h s"
  shows "knows h (snd (spawn y b args f l s))" and "knows h (snd (core_started p q f (spawnV2Ray y b args f n s)))"
    and "knows h (snd (v2rayArgs y b f s))"
  using assms
  by (auto simp: spawn_def spawnV2Ray_def core_started_def v2rayArgs_def Let_def split: option.split)

lemma knows_connect:
  assumes "knows h s"
  shows "knows h (snd (connectWireGuardFromConfig y c s))" and "knows h (snd (connectAmneziaWgFromConfig y c s))"
    and "knows h (snd (connectOpenVpnFromConfig y c s))" and "knows h (snd (connectV2RayFromConfig y c d p s))"
    and "knows h (snd (connectXRayFromConfig y c d p s))" and "knows h (snd (connectHysteria2FromConfig y c p s))"
  using assms
  by (simp_all add: connectWireGuardFromConfig_def connectAmneziaWgFromConfig_def connectOpenVpnFromConfig_def
      connectV2RayFromConfig_def connectXRayFromConfig_def connectHysteria2FromConfig_def Let_def case_prod_beta
      memory.downs memory.brings_up remember_resolved knows_interface knows_spawn split: sum.split option.split)

lemma knows_tun: "knows h s \<Longrightarrow> knows h (snd (bringUpTun y s))"
  by (auto simp: bringUpTun_def Let_def remember_resolved intro: memory.run_result remember_resolved
      split: option.split sum.split prod.split)

lemma knows_disconnect:
  assumes "knows h s"
  shows "knows h (disconnect y s)" and "knows h (killAllTunnels y s)" and "knows h (detectExistingConnection y s)"
proof -
  have "knows h s' \<Longrightarrow> knows h (kill_proxy s')" for s' by (simp add: kill_proxy_def split: option.split)
  with assms show "knows h (disconnect y s)" "knows h (killAllTunnels y s)" "knows h (detectExistingConnection y s)"
    by (simp_all add: disconnect_def killAllTunnels_def detectExistingConnection_def forget_log_def Let_def
        memory.downs memory.tun_down split: option.split)
qed

lemma knows_finish: "knows h s \<Longrightarrow> knows h (snd (finish_core y l p f w s))"
proof -
  assume k: "knows h s"
  obtain r s1 where s1: "assertProxyChildStarted y l f w s = (r, s1)" by fastforce
  have "knows h (snd (assertProxyChildStarted y l f w s))"
    using k by (simp add: assertProxyChildStarted_def Let_def memory.events)
  with s1 have k1: "knows h s1" by simp
  obtain r2 s2 where s2: "bringUpTun y s1 = (r2, s2)" by fastforce
  with knows_tun [OF k1, of y] have "knows h s2" by simp
  with k1 show ?thesis by (cases r; cases r2) (simp_all add: finish_core_def s1 s2 knows_disconnect)
qed

lemma knows_provisioning: "knows h s \<Longrightarrow> knows h (snd (provisioning_proxy y c w f s))"
proof -
  assume k: "knows h s"
  obtain r s1 where sp: "provisioning_spawn y c s = (r, s1)" by fastforce
  have "knows h (snd (provisioning_spawn y c s))"
    using k by (auto simp: provisioning_spawn_def Let_def case_prod_beta remember_resolved knows_spawn
        split: sum.split option.split)
  with sp have "knows h s1" by simp
  then show ?thesis
    by (auto simp: provisioning_proxy_def sp Let_def provisioning_stop_def memory.events split: sum.split option.split)
qed

lemma knows_perform: "knows h s \<Longrightarrow> knows h (perform y a s)"
  by (cases a)
     (simp_all add: knows_connect knows_tun knows_disconnect knows_finish knows_provisioning provisioning_stop_def memory.event)

text \<open>
  A reconnect needs no DNS: a server name the app has resolved once, which it keeps with its address, still resolves
  later in the run when every lookup fails (the kill switch is armed and no tunnel is up), whatever was done
  in between, and to a literal IPv4 address; so the endpoint the config names can be pinned and whitelisted.
\<close>

theorem resolved_name_survives_outage:
  assumes "vm_reachable bin s" and "\<not> dotted_digits host" and "resolver y s host = Some ip"
    and "list_all (\<lambda>(y', a). y_bin y' = bin) acts" and "s' = fold (\<lambda>(y', a). perform y' a) acts (remember y [host] s)"
    and "\<And>h. y_getent y'' h = None"
  shows "\<exists>ip'. resolver y'' s' host = Some ip' \<and> dotted_digits ip'"
proof -
  have "rx_test host_name_rx host"
    using assms(2,3) by (auto simp: resolver_def resolveHostToIPv4_def split: if_splits)
  then have r: "resolver y'' s' host = lastResolved s' host"
    using assms(2,6) by (simp add: resolver_def resolveHostToIPv4_def)
  have "vm_inv bin (remember y [host] s)" by (intro remember_inv reachable_inv assms(1))
  then have inv: "vm_inv bin (fold (\<lambda>(y', a). perform y' a) acts (remember y [host] s))"
    using assms(4) by (induction acts arbitrary: s rule: rev_induct) (auto simp: perform_inv)
  have "knows host (remember y [host] s)"
    using assms(2,3) by (auto simp: knows_def remember_def resolver_def resolveHostToIPv4_def split: option.splits if_splits)
  then have "knows host (fold (\<lambda>(y', a). perform y' a) acts (remember y [host] s))"
    by (induction acts rule: rev_induct) (auto simp: knows_perform)
  with inv r assms(5) show ?thesis by (auto simp: knows_def vm_inv_def cache_ok_def)
qed

section \<open>The routes as the daemon reads them\<close>

lemma bypass_route_chars:
  assumes "isAllowedBypassCidr r" and "trim r = r"
  shows "r \<noteq> [] \<and> CHR '','' \<notin> set r"
proof -
  from assms obtain gs pfx where g: "cidr_groups r = Some (gs, pfx)"
    by (auto simp: isAllowedBypassCidr_def simp del: split_paired_Ex split: option.splits)
  then obtain a where "split_on CHR ''/'' r = [a, pfx]" "octet_groups a = Some gs" "list_all is_digit pfx"
    by (auto simp: cidr_groups_def rx_test_between octet_rx_def split: list.splits option.splits if_splits)
  moreover from this have "r = join ''/'' [a, pfx]" by (metis join_split_on)
  ultimately show ?thesis
    using set_octets [of a gs "CHR '',''"] by (auto simp: list_all_iff is_digit_def char_le_iff)
qed

lemma sanitized_routes: "r \<in> set (sanitizeBypassRoutes routes) \<Longrightarrow> isAllowedBypassCidr r \<and> trim r = r"
  using trim_no_ws [of "[]"]
  by (cases routes) (auto simp: sanitizeBypassRoutes_def dest!: in_set_takeD split: option.splits)

text \<open>
  The TUN the daemon is asked for is the one the helper would have been run for: the proxy's address, the host, the
  gateway and its interface, and the very list of split-tunnel routes that passed the route guard.
\<close>

theorem tun_request_read_back:
  "daemon_op read (tun_up_args routes host (gateway, iface)) =
     ok (''tun_up'', JObj
       [(''socksAddr'', JStr SOCKS_ADDR), (''remoteHost'', JStr host), (''gateway'', JStr gateway),
        (''iface'', JStr iface), (''bypassRoutes'', JArr (map JStr (sanitizeBypassRoutes routes)))])"
proof (cases "sanitizeBypassRoutes routes = []")
  case True
  then show ?thesis
    by (simp add: daemon_op_def tun_up_args_def tun_up_op_def slot_def bypass_arg_def nth_Cons' Let_def)
next
  case False
  let ?rs = "sanitizeBypassRoutes routes"
  have ok: "r \<noteq> [] \<and> CHR '','' \<notin> set r" if "r \<in> set ?rs" for r
    using bypass_route_chars sanitized_routes [OF that] by blast
  have csv: "split_on CHR '','' (join '','' ?rs) = ?rs"
    using False ok by (intro split_on_join) auto
  moreover have "join '','' ?rs \<noteq> []"
  proof
    assume "join '','' ?rs = []"
    with csv have "?rs = [[]]" by simp
    with ok [of "[]"] show False by simp
  qed
  ultimately show ?thesis
    by (simp add: daemon_op_def tun_up_args_def tun_up_op_def slot_def bypass_arg_def nth_Cons' Let_def)
qed

section \<open>What a disconnect can leave on the disk\<close>

text \<open>
  The WireGuard config, which holds the client's private key, is removed only where an interface of that kind is
  found: when sntl0 has gone by itself, the disconnect leaves the file.
\<close>

lemma key_left_when_interface_gone:
  assumes "activeProtocol s = Some WireGuard" and "activeLogPath s = None" and "\<not> isVpnActive s" and "\<not> tunActive s"
    and "ip_type (t_links s) ''wireguard'' = Some []" and "WG_CONFIG y \<noteq> V2RAY_CONFIG y"
  shows "t_files (disconnect y s) (WG_CONFIG y) = t_files s (WG_CONFIG y)"
proof -
  have "\<not> isAnyWireGuardUp s" using assms(5) by (simp add: isAnyWireGuardUp_def typed_lines_def trim_def trim_end_def trim_start_def)
  moreover have "kill_proxy s = s" using assms(1) by (simp add: kill_proxy_def isChildProxy_def split: option.split)
  ultimately show ?thesis
    using assms by (simp add: disconnect_def tun_down_if_up_def awg_down_if_up_def wg_down_if_up_def ovpn_down_if_up_def
        bringDownAllWireGuard_def isVpnActive_def forget_log_def unlink_file_def)
qed

text \<open>A core that is still shutting down when its log has been removed writes it anew.\<close>

lemma log_written_after_disconnect:
  assumes "n < length (t_cores (disconnect y s))" and "c_log (t_cores (disconnect y s) ! n) = Some f"
    and "t_files (disconnect y s) f = None"
  shows "t_files (happens y (CoreOutput n output) (disconnect y s)) f = Some output"
  using assms by (simp add: collectOutput_def)

end
