(* ===== verification/VpnSamples.thy ===== *)
theory VpnSamples
  imports VpnProps
begin

text \<open>
  A machine and a run on which the theorems about the tunnel manager are applied: an Xray connect on a config whose
  server is a name, with the bundled binary in place and a helper that works.
\<close>

definition quiet_links :: links where
  "quiet_links = \<lparr>ip_up = (\<lambda>_. False), ip_type = (\<lambda>_. Some []), ip_default = Some ''default via 192.0.2.1 dev eth0''\<rparr>"

definition sample_sys :: sys where
  "sample_sys =
     \<lparr>y_tmp = ''/tmp/k'', y_bin = ''/opt/k/bin'', y_data = ''/home/u/k'', y_path = ''/usr/bin'',
      y_exists = (\<lambda>_. True),
      y_sha256 = (\<lambda>_. Some ''8255dd939c34cf966cc91517b6324dd3c8d0bcf49ffac8beca049a38c46845ed''),
      y_runnable = (\<lambda>_. True), y_version = (\<lambda>_ _. None),
      y_getent = (\<lambda>h. if h = ''node.example'' then Some ''5.6.7.8'' else None),
      y_parse = (\<lambda>_. Some sample_v2ray), y_pid = (\<lambda>_. None), y_procfs = (\<lambda>_. \<lparr>p_link = (\<lambda>_. None), p_file = (\<lambda>_. None)\<rparr>),
      y_routes = JArr [], y_started = ''2026-01-01T00:00:00.000Z'',
      y_call = (\<lambda>_ l _. (None, l\<lparr>ip_up := \<lambda>_. False\<rparr>)), y_meanwhile = (\<lambda>_. [])\<rparr>"

definition idle :: vm where
  "idle = fresh_vm quiet_links Map.empty"

lemma sample_lookup: "resolver sample_sys idle ''node.example'' = Some ''5.6.7.8''"
  by code_simp

lemma sample_config: "\<exists>cfg. prepareV2Ray (resolver sample_sys idle) None sample_v2ray = ok cfg"
proof -
  have "accepts (prepareV2Ray (resolver sample_sys idle) None sample_v2ray)" by code_simp
  then show ?thesis by (simp add: accepts_iff)
qed

lemma sample_binary: "core_binary sample_sys ''xray'' = ok ''/opt/k/bin/xray''"
  by code_simp

definition sample_core :: "string \<Rightarrow> vm" where
  "sample_core config = snd (connectXRayFromConfig sample_sys config None False idle)"

lemma sample_core_runs:
  "held 0 (sample_core config)" "at_large 0 (sample_core config)" "length (t_cores (sample_core config)) = 1"
proof -
  obtain cfg where cfg: "prepareV2Ray (resolver sample_sys idle) None sample_v2ray = ok cfg"
    using sample_config by blast
  have p: "y_parse sample_sys config = Some sample_v2ray" "y_pid sample_sys n = None" for n
    by (simp_all add: sample_sys_def)
  note run = sample_core_def connectXRayFromConfig_def sample_binary p cfg Let_def spawnV2Ray_def spawn_def
    core_started_def write_file_def remember_def idle_def fresh_vm_def
  show "held 0 (sample_core config)" "at_large 0 (sample_core config)" "length (t_cores (sample_core config)) = 1"
    using cfg by (simp_all add: run held_def at_large_def core_running_def isChildProxy_def)
qed

lemma sample_reachable: "vm_reachable ''/opt/k/bin'' (sample_core config)"
proof -
  have "vm_reachable ''/opt/k/bin'' (perform sample_sys (ConnectXRay config None False) (fresh_vm quiet_links Map.empty))"
    by (intro vm_reachable.intros) (simp add: sample_sys_def)
  then show ?thesis by (simp add: sample_core_def idle_def)
qed


theorem no_core_left_running_witness:
  "at_large 0 (sample_core ''{}'') \<and> \<not> at_large 0 (disconnect sample_sys (sample_core ''{}''))"
proof -
  have "orderly (perform sample_sys (ConnectXRay ''{}'' None False) (fresh_vm quiet_links Map.empty))"
    by (intro orderly.intros) (simp add: isProxyChildAlive_def isChildProxy_def fresh_vm_def)
  then have "orderly (sample_core ''{}'')" by (simp add: sample_core_def idle_def)
  from no_core_left_running [OF this, of sample_sys] sample_core_runs show ?thesis by blast
qed

lemma sample_honest: "honest_teardown sample_sys"
  by (simp add: honest_teardown_def sample_sys_def)

theorem disconnect_takes_everything_down_witness:
  "\<not> isVpnActive (disconnect sample_sys (fresh_vm (quiet_links\<lparr>ip_up := \<lambda>i. i = WG_IFACE\<rparr>) Map.empty)) \<and>
   gone 0 (disconnect sample_sys (sample_core ''{}''))"
  using disconnect_takes_everything_down [OF sample_honest] sample_core_runs [of "''{}''"] by simp

theorem resolved_name_survives_outage_witness:
  "\<exists>ip. resolver (sample_sys\<lparr>y_getent := \<lambda>_. None\<rparr>)
     (disconnect sample_sys (remember sample_sys [''node.example''] idle)) ''node.example'' = Some ip"
proof -
  have "vm_reachable ''/opt/k/bin'' idle" unfolding idle_def by (rule vm_reachable.intros)
  moreover have "\<not> dotted_digits ''node.example''" by code_simp
  ultimately show ?thesis
    using resolved_name_survives_outage [of "''/opt/k/bin''" idle "''node.example''" sample_sys "''5.6.7.8''"
        "[(sample_sys, Disconnect)]" "disconnect sample_sys (remember sample_sys [''node.example''] idle)"
        "sample_sys\<lparr>y_getent := \<lambda>_. None\<rparr>"] sample_lookup
    by (auto simp: sample_sys_def)
qed

end
