(* ===== verification/Supervision.thy ===== *)
theory Supervision
  imports VpnSamples Watchdog
begin

text \<open>
  What watches a connection from outside the tunnel manager (\<open>src/main/ipc-handlers.ts\<close>): the check that a tunnel
  just built carries traffic, the liveness monitor, one tick of the quota watchdog, the notice of a session
  that was ended for the user, and what a launch does about a tunnel or a kill switch that an earlier run left.
  The answers of the probes, the counters of the interface and the clock are arguments.
\<close>

section \<open>Does the tunnel carry traffic\<close>

definition TUNNEL_PROBE_URL :: string where "TUNNEL_PROBE_URL = ''https://icanhazip.com''"
definition TUNNEL_PROBE_IP_URL :: string where "TUNNEL_PROBE_IP_URL = ''https://1.1.1.1''"
definition TUNNEL_PROBE_MIN_RX_BYTES :: int where "TUNNEL_PROBE_MIN_RX_BYTES = 16 * 1024"
definition TUNNEL_PROBE_ATTEMPTS :: nat where "TUNNEL_PROBE_ATTEMPTS = 3"

text \<open>The status each target answers with at an attempt (\<open>None\<close> for no answer in time), and the bytes received
  and sent before the first attempt and after each.\<close>

type_synonym probes = "nat \<Rightarrow> string \<Rightarrow> int option"
type_synonym counters = "nat \<Rightarrow> (int \<times> int) option"

definition probe_passes :: "probes \<Rightarrow> nat \<Rightarrow> bool" where
  "probe_passes fetch attempt \<longleftrightarrow>
     list_ex (\<lambda>url. case fetch attempt url of None \<Rightarrow> False | Some status \<Rightarrow> 200 \<le> status \<and> status < 300)
       [TUNNEL_PROBE_URL, TUNNEL_PROBE_IP_URL]"

definition bytes_came_back :: "(int \<times> int) option \<Rightarrow> (int \<times> int) option \<Rightarrow> bool" where
  "bytes_came_back before now \<longleftrightarrow>
     (case (before, now) of (Some (rx0, _), Some (rx, _)) \<Rightarrow> rx - rx0 \<ge> TUNNEL_PROBE_MIN_RX_BYTES | _ \<Rightarrow> False)"

fun probing :: "probes \<Rightarrow> counters \<Rightarrow> nat list \<Rightarrow> bool" where
  "probing fetch bytes [] = False"
| "probing fetch bytes (attempt # attempts) =
     (if probe_passes fetch attempt then True
      else if bytes_came_back (bytes 0) (bytes (Suc attempt)) then True
      else probing fetch bytes attempts)"

definition tunnelCarriesTraffic :: "probes \<Rightarrow> counters \<Rightarrow> bool" where
  "tunnelCarriesTraffic fetch bytes = probing fetch bytes [0..<TUNNEL_PROBE_ATTEMPTS]"

definition assertTunnelCarriesTraffic ::
  "fw_env \<Rightarrow> sys \<Rightarrow> probes \<Rightarrow> counters \<Rightarrow> bool \<Rightarrow> bool \<Rightarrow> fw \<Rightarrow> vm \<Rightarrow> unit result \<times> fw \<times> vm" where
  "assertTunnelCarriesTraffic e y fetch bytes nodeIssuedFreshPeer isChain f s =
     (if tunnelCarriesTraffic fetch bytes then (ok (), f, s)
      else (throw (deadTunnelMessage nodeIssuedFreshPeer isChain), revertPostConnectSettings e f, disconnect y s))"

section \<open>The monitor\<close>

definition isRootTunnelProtocol :: "protocol option \<Rightarrow> bool" where
  "isRootTunnelProtocol p \<longleftrightarrow> p \<in> {Some WireGuard, Some AmneziaWg, Some OpenVpn}"

text \<open>Whether a tick starts a reconnect. \<open>desired\<close> is the protocol the session is meant to run on.\<close>

definition monitor_tick :: "bool \<Rightarrow> nat \<Rightarrow> string option \<Rightarrow> protocol option \<Rightarrow> tunnel_mode \<Rightarrow> vm \<Rightarrow> bool" where
  "monitor_tick isIntentionalDisconnect reconnectAttempt activeSessionId desired desiredMode s =
     (if isIntentionalDisconnect \<or> reconnectAttempt > 0 then False
      else if activeSessionId = None then False
      else if isRootTunnelProtocol desired then \<not> (if desired = Some OpenVpn then isOpenVpnUp s else isWireGuardUp s)
      else desired \<noteq> None \<and> desiredMode = Tunnel \<and> hasDefaultRouteChanged s)"

section \<open>The tick of the watchdog\<close>

text \<open>\<open>liveRx\<close> is what \<open>getTrafficStats\<close> counts; the handshake check that each tick also starts runs on its own.\<close>

datatype tick = Idle | TrafficGone stall | QuotaOver quota_reason string | QuotaLow quota_reason rat

definition quota_tick ::
  "int \<Rightarrow> (int \<times> int) option \<Rightarrow> int \<Rightarrow> tunnel_mode \<Rightarrow> bool \<Rightarrow> active_quota option \<Rightarrow> active_quota option \<Rightarrow> watch \<times> bool \<Rightarrow>
     tick \<times> watch \<times> bool" where
  "quota_tick now bytes liveRx mode resting activeQuota activeExitQuota st =
     (case st of (w, quotaWarned) \<Rightarrow>
      if resting then (Idle, w, quotaWarned)
      else case checkTunnelStalled now bytes mode w of
        (w1, Some failure) \<Rightarrow> (TrafficGone failure, w1, quotaWarned)
      | (w1, None) \<Rightarrow>
          (case currentQuotaVerdict activeQuota activeExitQuota (connectedSecondsAlive now w1) liveRx of
             None \<Rightarrow> (Idle, w1, quotaWarned)
           | Some (verdict, sessionId) \<Rightarrow>
               (case verdict of
                  QuotaExpired reason \<Rightarrow> (QuotaOver reason sessionId, w1, quotaWarned)
                | QuotaWarn _ reason remaining \<Rightarrow>
                    if \<not> quotaWarned then (QuotaLow reason remaining, w1, True) else (Idle, w1, quotaWarned)
                | QuotaOk _ \<Rightarrow> (Idle, w1, quotaWarned))))"

definition stand_down_notice :: "stall option \<Rightarrow> bool \<Rightarrow> string" where
  "stand_down_notice failure blocked =
     (let why = (case failure of
          Some Stalled \<Rightarrow> ''The tunnel stopped carrying traffic, so it was disconnected.''
        | Some Dropped \<Rightarrow> ''The VPN tunnel closed unexpectedly, so it was disconnected.''
        | None \<Rightarrow> ''Session ended, VPN disconnected.'')
      in if blocked then why @ '' The kill switch is still blocking all traffic.'' else why)"

section \<open>At launch\<close>

text \<open>The tunnel that outlived its run, then the chain that did.\<close>

record launch =
  la_reaped :: "(sig \<times> jnum) list"
  la_file :: "string option"
  la_closed :: bool
  la_fw :: fw
  la_vm :: vm

definition healOrphanedTunnel ::
  "fw_env \<Rightarrow> sys \<Rightarrow> (jnum \<Rightarrow> bool) \<Rightarrow> (jnum \<Rightarrow> bool) list \<Rightarrow> string option \<Rightarrow> string option \<Rightarrow> fw \<Rightarrow> vm \<Rightarrow> launch" where
  "healOrphanedTunnel e y alive polls file activeSessionId f s =
     (case reapOrphanedProxyChildrenIn (y_parse y) (y_procfs y 0) alive polls file of
        (reaped, signals, file') \<Rightarrow>
          (case getConnectionStatus s of (st, s1) \<Rightarrow>
             if st_connected st \<and> activeSessionId = None
             then \<lparr>la_reaped = signals, la_file = file', la_closed = True, la_fw = revertPostConnectSettings e f,
               la_vm = disconnect y s1\<rparr>
             else \<lparr>la_reaped = signals, la_file = file', la_closed = reaped, la_fw = f, la_vm = s1\<rparr>))"

definition heal_at_launch ::
  "fw_env \<Rightarrow> sys \<Rightarrow> (jnum \<Rightarrow> bool) \<Rightarrow> (jnum \<Rightarrow> bool) list \<Rightarrow> string option \<Rightarrow> fw \<Rightarrow> vm \<Rightarrow> launch" where
  "heal_at_launch e y alive polls file f s =
     (let l = healOrphanedTunnel e y alive polls file None f (detectExistingConnection y s);
          (st, s') = getConnectionStatus (la_vm l)
      in l\<lparr>la_fw := healStrandedKillSwitch e (st_connected st) (la_fw l), la_vm := s'\<rparr>)"

section \<open>Other VPNs, and who may call\<close>

text \<open>\<open>policies\<close> is the daemon's count of IPsec policies, \<open>None\<close> where it cannot say.\<close>

definition CONNECTION_CHECK_VPN :: "int option \<Rightarrow> vm \<Rightarrow> (string \<times> string \<times> string option) list" where
  "CONNECTION_CHECK_VPN policies s =
     map (\<lambda>(kind, name, iface). (kind, name, Some iface)) (detectOtherVpn s) @
     (case policies of None \<Rightarrow> [] | Some n \<Rightarrow> if n > 0 then [(''ipsec'', ''IPsec VPN'', None)] else [])"

text \<open>\<open>dev\<close> is the address of the development server, when the app runs from one.\<close>

definition isTrustedSender :: "string option \<Rightarrow> string \<Rightarrow> bool" where
  "isTrustedSender dev url =
     (case dev of Some server \<Rightarrow> if server \<noteq> '''' then starts_with server url else starts_with ''file://'' url
      | None \<Rightarrow> starts_with ''file://'' url)"

definition handle :: "string option \<Rightarrow> string \<Rightarrow> string \<Rightarrow> 'a result \<Rightarrow> 'a result" where
  "handle dev url channel listener =
     (if \<not> isTrustedSender dev url then throw (''Rejected IPC '' @ channel @ '' from untrusted sender'') else listener)"

section \<open>A connect that succeeds has a working tunnel\<close>

lemma probing_iff:
  "probing fetch bytes attempts \<longleftrightarrow>
     (\<exists>i \<in> set attempts. probe_passes fetch i \<or> bytes_came_back (bytes 0) (bytes (Suc i)))"
  by (induction attempts) auto

lemma probe_passes_iff:
  "probe_passes fetch i \<longleftrightarrow>
     (\<exists>url \<in> {TUNNEL_PROBE_URL, TUNNEL_PROBE_IP_URL}. \<exists>status. fetch i url = Some status \<and> 200 \<le> status \<and> status < 300)"
  by (auto simp: probe_passes_def split: option.splits)

lemma bytes_came_back_iff:
  "bytes_came_back before now \<longleftrightarrow>
     (\<exists>rx0 tx0 rx tx. before = Some (rx0, tx0) \<and> now = Some (rx, tx) \<and> rx0 + 16384 \<le> rx)"
  by (auto simp: bytes_came_back_def TUNNEL_PROBE_MIN_RX_BYTES_def split: option.splits)

lemma lifted:
  assumes "fw_step\<^sup>*\<^sup>* fw_init f" and "failedWrites f = []"
  shows "chain (revertPostConnectSettings e f) \<Longrightarrow> \<not> fe_run e [''killswitch-off'']"
    and "resolv (revertPostConnectSettings e f) \<Longrightarrow> \<not> fe_run e [''dns-restore'']"
  using reverted(2,3) [of e f] marked_reachable [OF assms(1)] assms(2) by (auto simp: marked_def instant_of_def)

text \<open>C3. A bring-up is reported as working (assertTunnelCarriesTraffic) only on evidence: within three attempts a
  probe was answered with success, by name or by address, or at least 16 KiB came back through the interface.
  Otherwise nothing of it stays: the call fails, no connection is left, every core that was held is gone, the helper
  was called to take an armed kill switch down, and no DROP-all chain and no resolver override stays installed unless
  the helper refused to remove it. Teardown answers are assumed honest, and the firewall is in a state its handlers
  reach with no marker write failed.\<close>

theorem dead_tunnel_taken_down:
  assumes "honest_teardown y" and "fw_step\<^sup>*\<^sup>* fw_init f" and "failedWrites f = []"
    and "assertTunnelCarriesTraffic e y fetch bytes fresh isChain f s = (out, f', s')"
  shows "(\<exists>i < 3. (\<exists>url \<in> {TUNNEL_PROBE_URL, TUNNEL_PROBE_IP_URL}. \<exists>status. fetch i url = Some status \<and> 200 \<le> status \<and> status < 300) \<or>
        (\<exists>rx0 tx0 rx tx. bytes 0 = Some (rx0, tx0) \<and> bytes (Suc i) = Some (rx, tx) \<and> rx0 + 16384 \<le> rx)) \<and>
      out = Inr () \<and> f' = f \<and> s' = s \<or>
    (\<forall>i < 3. \<forall>url \<in> {TUNNEL_PROBE_URL, TUNNEL_PROBE_IP_URL}. \<forall>status. fetch i url = Some status \<longrightarrow> \<not> (200 \<le> status \<and> status < 300)) \<and>
      out = Inl (deadTunnelMessage fresh isChain) \<and>
      \<not> isVpnActive s' \<and> \<not> st_connected (fst (getConnectionStatus s')) \<and>
      (\<forall>n < length (t_cores s). held n s \<longrightarrow> gone n s') \<and>
      (armedMarker f \<longrightarrow> ([''killswitch-off''], fe_run e [''killswitch-off'']) \<in> set (drop (length (calls f)) (calls f'))) \<and>
      (chain f' \<longrightarrow> \<not> fe_run e [''killswitch-off'']) \<and> (resolv f' \<longrightarrow> \<not> fe_run e [''dns-restore''])"
proof (cases "tunnelCarriesTraffic fetch bytes")
  case True
  then obtain i where "i < 3" "probe_passes fetch i \<or> bytes_came_back (bytes 0) (bytes (Suc i))"
    by (auto simp: tunnelCarriesTraffic_def TUNNEL_PROBE_ATTEMPTS_def probing_iff)
  then show ?thesis
    using assms(4) True unfolding probe_passes_iff bytes_came_back_iff assertTunnelCarriesTraffic_def by auto
next
  case False
  then have "\<not> probe_passes fetch i" if "i < 3" for i
    using that by (auto simp: tunnelCarriesTraffic_def TUNNEL_PROBE_ATTEMPTS_def probing_iff)
  moreover have "s' = disconnect y s" "f' = revertPostConnectSettings e f" "out = Inl (deadTunnelMessage fresh isChain)"
    using assms(4) False by (auto simp: assertTunnelCarriesTraffic_def)
  ultimately show ?thesis
    using disconnect_takes_everything_down [OF assms(1), of s] lifted [OF assms(2,3), of e] reverted(1) [of f e] unfolding probe_passes_iff by blast
qed

section \<open>A launch leaves nothing running\<close>

lemma status_settles: "\<not> st_connected (fst (getConnectionStatus s)) \<Longrightarrow> \<not> st_connected (fst (getConnectionStatus (snd (getConnectionStatus s))))"
  by (auto simp: getConnectionStatus_def interface_status_def not_connected_status_def Let_def isChildProxy_def childAlive_def
      isWireGuardUp_def isOpenVpnUp_def isTunUp_def isChildProxyCarryingTraffic_def split: if_splits option.splits)

lemma reverted_calls: "\<exists>more. calls (revertPostConnectSettings e f) = calls f @ more"
  by (auto simp: revertPostConnectSettings_def restoreDnsOverride_def disableKillSwitch_def Let_def privileged_def passed_def
      clearKillSwitchArmed_def clearDnsOverridden_def)

text \<open>The stranded kill switch, whether or not a tunnel was closed before.\<close>

lemma healed:
  assumes "fw_step\<^sup>*\<^sup>* fw_init f" and "failedWrites f = []" and "g = f \<or> g = revertPostConnectSettings e f"
  shows "armedMarker f \<Longrightarrow> ([''killswitch-off''], fe_run e [''killswitch-off'']) \<in>
      set (drop (length (calls f)) (calls (healStrandedKillSwitch e False g)))"
    and "chain (healStrandedKillSwitch e False g) \<Longrightarrow> \<not> fe_run e [''killswitch-off'']"
proof -
  assume armed: "armedMarker f"
  obtain m1 where m1: "calls (revertPostConnectSettings e f) = calls f @ m1" using reverted_calls by blast
  obtain m2 where m2: "calls (revertPostConnectSettings e (revertPostConnectSettings e f)) = calls (revertPostConnectSettings e f) @ m2"
    using reverted_calls by blast
  show "([''killswitch-off''], fe_run e [''killswitch-off'']) \<in> set (drop (length (calls f)) (calls (healStrandedKillSwitch e False g)))"
    using assms(3) armed reverted(1) [OF armed, of e] m1 m2 by (auto simp: healStrandedKillSwitch_def)
next
  have "chain f \<Longrightarrow> armedMarker f"
    using marked_reachable [OF assms(1)] assms(2) by (simp add: marked_def instant_of_def)
  then show "chain (healStrandedKillSwitch e False g) \<Longrightarrow> \<not> fe_run e [''killswitch-off'']"
    using assms(3) lifted(1) [OF assms(1,2), of e] reverted(2) [of e] by (auto simp: healStrandedKillSwitch_def split: if_splits)
qed

text \<open>C7. After a launch (detectExistingConnection, healOrphanedTunnel, healStrandedKillSwitch) no connection is up,
  since a tunnel found up belongs to no session and nothing would watch its quota; the helper was called to take an
  armed kill switch down, and no DROP-all chain stays installed unless it refused to; the user is
  told that a tunnel was closed exactly when one was found up or a recorded core was stopped; and only processes that still are the recorded cores were signalled. Teardown answers
  are assumed honest, and the firewall was left in a state its handlers reach (the process may have died inside one)
  with no marker write failed.\<close>

theorem launch_leaves_nothing:
  assumes "honest_teardown y" and "fw_step\<^sup>*\<^sup>* fw_init f" and "failedWrites f = []"
    and "heal_at_launch e y alive polls file f s = l"
  shows "\<not> st_connected (fst (getConnectionStatus (la_vm l))) \<and>
    (armedMarker f \<longrightarrow> ([''killswitch-off''], fe_run e [''killswitch-off'']) \<in> set (drop (length (calls f)) (calls (la_fw l)))) \<and>
    (chain (la_fw l) \<longrightarrow> \<not> fe_run e [''killswitch-off'']) \<and>
    (la_closed l \<longleftrightarrow> st_connected (fst (getConnectionStatus (detectExistingConnection y s))) \<or>
       (\<exists>r \<in> set (readProxyChildRecords (y_parse y) file). isRecordedProxyChild (y_procfs y 0) r)) \<and>
    (\<forall>(sig, pid) \<in> set (la_reaped l). \<exists>r \<in> set (readProxyChildRecords (y_parse y) file).
       pid = pid_of r \<and> isRecordedProxyChild (y_procfs y 0) r)"
proof -
  let ?s0 = "detectExistingConnection y s"
  let ?l0 = "healOrphanedTunnel e y alive polls file None f ?s0"
  obtain st s1 where st: "getConnectionStatus ?s0 = (st, s1)" by fastforce
  obtain reaped signals file' where reap: "reapOrphanedProxyChildrenIn (y_parse y) (y_procfs y 0) alive polls file = (reaped, signals, file')"
    by (metis prod.exhaust)
  have off: "\<not> st_connected (fst (getConnectionStatus (la_vm ?l0)))"
    using disconnect_takes_everything_down [OF assms(1), of s1] status_settles [of ?s0]
    by (auto simp: healOrphanedTunnel_def reap st)
  obtain st' s' where st': "getConnectionStatus (la_vm ?l0) = (st', s')" by fastforce
  with off have off': "\<not> st_connected st'" by simp
  have l: "l = ?l0\<lparr>la_fw := healStrandedKillSwitch e False (la_fw ?l0), la_vm := s'\<rparr>"
    using assms(4) st' off' by (simp add: heal_at_launch_def Let_def)
  have "\<not> st_connected (fst (getConnectionStatus s'))" using status_settles [OF off] st' by simp
  moreover have "(armedMarker f \<longrightarrow> ([''killswitch-off''], fe_run e [''killswitch-off'']) \<in> set (drop (length (calls f)) (calls (la_fw l)))) \<and>
      (chain (la_fw l) \<longrightarrow> \<not> fe_run e [''killswitch-off''])"
    using healed [OF assms(2,3), of _ e] by (auto simp: l healOrphanedTunnel_def reap st)
  moreover have "reaped \<longleftrightarrow> (\<exists>r \<in> set (readProxyChildRecords (y_parse y) file). isRecordedProxyChild (y_procfs y 0) r)"
    using reap by (auto simp: reapOrphanedProxyChildrenIn_def Let_def filter_empty_conv split: if_splits)
  moreover have "\<forall>(sig, pid) \<in> set signals. \<exists>r \<in> set (readProxyChildRecords (y_parse y) file).
      pid = pid_of r \<and> isRecordedProxyChild (y_procfs y 0) r"
  proof -
    let ?ours = "filter (isRecordedProxyChild (y_procfs y 0)) (readProxyChildRecords (y_parse y) file)"
    have "signals = [] \<or> (\<exists>pending. set pending \<subseteq> set ?ours \<and>
        signals = map (\<lambda>r. (SIGTERM, pid_of r)) ?ours @ map (\<lambda>r. (SIGKILL, pid_of r)) pending)"
      using reap await_exit_subset [of polls "filter (\<lambda>r. alive (pid_of r)) ?ours"]
      by (auto simp: reapOrphanedProxyChildrenIn_def Let_def split: if_splits)
    then show ?thesis
    proof
      assume "\<exists>pending. set pending \<subseteq> set ?ours \<and>
          signals = map (\<lambda>r. (SIGTERM, pid_of r)) ?ours @ map (\<lambda>r. (SIGKILL, pid_of r)) pending"
      then have "\<forall>(sig, pid) \<in> set signals. pid \<in> pid_of ` set ?ours" by fastforce
      then show ?thesis by (simp add: image_iff) blast
    qed simp
  qed
  ultimately show ?thesis
    by (auto simp: l healOrphanedTunnel_def reap st)
qed

section \<open>One warning per session\<close>

text \<open>The ticks of one connection: when each ran, what it saw, and what it did.\<close>

fun quota_ticks ::
  "tunnel_mode \<Rightarrow> active_quota option \<Rightarrow> active_quota option \<Rightarrow> (int \<times> (int \<times> int) option \<times> int \<times> bool) list \<Rightarrow>
     watch \<times> bool \<Rightarrow> tick list" where
  "quota_ticks mode q exitQ [] st = []"
| "quota_ticks mode q exitQ ((now, bytes, liveRx, resting) # looks) st =
     (case quota_tick now bytes liveRx mode resting q exitQ st of
        (t, st') \<Rightarrow> t # (case t of Idle \<Rightarrow> quota_ticks mode q exitQ looks st' | QuotaLow _ _ \<Rightarrow> quota_ticks mode q exitQ looks st'
          | _ \<Rightarrow> []))"

fun is_warning :: "tick \<Rightarrow> bool" where
  "is_warning (QuotaLow _ _) = True"
| "is_warning _ = False"

lemma warned_once:
  "length (filter is_warning (quota_ticks mode q exitQ looks (w, warned))) \<le> (if warned then 0 else 1)"
proof (induction looks arbitrary: w warned)
  case (Cons look looks)
  obtain now bytes liveRx resting where look: "look = (now, bytes, liveRx, resting)" by (cases look) auto
  obtain t w' warned' where t: "quota_tick now bytes liveRx mode resting q exitQ (w, warned) = (t, w', warned')"
    by (metis prod.exhaust)
  have "(case t of QuotaLow _ _ \<Rightarrow> \<not> warned \<and> warned' | _ \<Rightarrow> warned' = warned)"
    using t by (auto simp: quota_tick_def split: if_splits prod.splits option.splits quota_verdict.splits)
  then show ?case using Cons.IH [of w' warned'] t by (cases t; cases warned) (auto simp: look)
qed simp

section \<open>Witnesses\<close>

text \<open>A core that was started but whose tunnel answers nothing, and a machine found with a tunnel up.\<close>

definition armed_fw :: fw where
  "armed_fw = applyPostConnectSettings fw_fine (\<lambda>_. Some ''1.2.3.4'') wg_settings V2Ray fw_init"

lemma armed_fw:
  "fw_step\<^sup>*\<^sup>* fw_init armed_fw" "failedWrites armed_fw = []" "armedMarker armed_fw" "chain armed_fw"
  unfolding armed_fw_def by (intro r_into_rtranclp handled fw_handler.connect) code_simp+

lemma dead_tunnel_taken_down_witness:
  "\<not> st_connected (fst (getConnectionStatus (disconnect sample_sys (sample_core ''{}'')))) \<and>
   \<not> chain (revertPostConnectSettings fw_fine armed_fw)"
proof -
  have "assertTunnelCarriesTraffic fw_fine sample_sys (\<lambda>_ _. None) (\<lambda>_. Some (0, 0)) True False armed_fw (sample_core ''{}'') =
      (Inl (deadTunnelMessage True False), revertPostConnectSettings fw_fine armed_fw, disconnect sample_sys (sample_core ''{}''))"
    by (simp add: assertTunnelCarriesTraffic_def tunnelCarriesTraffic_def probing_iff probe_passes_iff bytes_came_back_iff)
  from dead_tunnel_taken_down [OF sample_honest armed_fw(1,2) this] show ?thesis by (auto simp: fw_fine_def)
qed

definition tunnel_found :: vm where
  "tunnel_found = fresh_vm (quiet_links\<lparr>ip_up := (\<lambda>i. i = WG_IFACE)\<rparr>) Map.empty"

lemma tunnel_found_up: "st_connected (fst (getConnectionStatus (detectExistingConnection sample_sys tunnel_found)))"
  by code_simp

lemma launch_leaves_nothing_witness:
  "\<exists>l. heal_at_launch fw_fine sample_sys (\<lambda>_. False) [] None armed_fw tunnel_found = l \<and> la_closed l \<and>
     \<not> st_connected (fst (getConnectionStatus (la_vm l))) \<and> \<not> chain (la_fw l)"
  using launch_leaves_nothing [OF sample_honest armed_fw(1,2) refl, of fw_fine "\<lambda>_. False" "[]" None tunnel_found] tunnel_found_up
  by (auto simp: fw_fine_def)

end
