(* ===== verification/Spec2Isabelle.thy ===== *)
theory Spec2Isabelle
  imports WgProps Firewall Lifecycle SessionBookProps RpcMonitor SmartProps WalletSamples SocksAgent SessionRows Supervision
begin

text \<open>
  Verification of the Katacomb VPN desktop client: an Electron app whose main process
  (\<open>src/main\<close>, with the rules both processes share in \<open>src/shared\<close>) buys sessions from Sentinel dVPN
  nodes on a Cosmos chain, shakes hands with the nodes, turns their answers into tunnel
  configs, runs the tunnels through a privileged helper, and puts everything back when the
  tunnel goes. Paths below are relative to \<open>src/src\<close>.

  PARTS AND HOW THEY INTERACT

  The renderer calls the main process over IPC. A handler checks the shape of what it was
  given (\<open>main/ipc/validate.ts\<close>), asks the chain what the operation costs and whether the wallet
  can pay (\<open>main/chain/chain-guards.ts\<close>), signs and broadcasts one transaction
  (\<open>main/chain/chain-service.ts\<close>, \<open>main/plans/plan-service.ts\<close>, \<open>main/provider/provider-console.ts\<close>), posts a signed
  handshake to the node (\<open>main/protocols/node-handshake.ts\<close>), checks the node's signature over its
  reply (\<open>main/protocols/reply-signature.ts\<close>), builds a config (\<open>main/protocols/*-config.ts\<close>), saves it, and
  records the session (\<open>main/ipc-handlers.ts\<close>). A connect passes the config through the guards
  (\<open>main/config-guard.ts\<close>), resolves and pins the endpoint, brings the tunnel up
  (\<open>main/vpn/vpn-manager.ts\<close>) through the root daemon or \<open>pkexec\<close> (\<open>main/helper\<close>), arms the kill switch
  and the resolver override (\<open>main/vpn/kill-switch.ts\<close>), and starts the quota watchdog. Wallet phrases
  and settings are files of the profile (\<open>main/settings.ts\<close>, \<open>main/chain/wallet.ts\<close>).

  THEORIES

  Foundations. \<open>Prelude\<close>: strings, results (\<open>throw\<close> is \<open>Inl\<close>), decimals, the collections \<open>js_str\<close> and
  \<open>res\<close>. \<open>Json\<close>, \<open>JsonText\<close>: JavaScript values and \<open>JSON.stringify\<close>. \<open>Regex\<close>: anchored regular expressions,
  matched by derivatives, with the matcher proved correct. \<open>Base64\<close>: bytes and their text forms.
  \<open>Incremental\<close>: a locale for readers of a stream that arrives in chunks. \<open>Services\<close>: runs over a history
  of outside effects, with the rules \<open>adds\<close>; \<open>Validate\<close>: the shape checks of the IPC channels; \<open>SessionProps\<close> adds the logic \<open>delta\<close> of what a run appends.

  Guards and builders. \<open>NetGuard\<close>, \<open>WgGuard\<close>, \<open>WgConfig\<close>, \<open>OvpnGuard\<close>, \<open>V2RayGuard\<close> model
  \<open>main/config-guard.ts\<close>; \<open>WgBuild\<close>, \<open>TlsPin\<close>, \<open>XrayConfig\<close>, \<open>MultihopConfig\<close>, \<open>HysteriaConfig\<close>, \<open>V2RayConfig\<close>,
  \<open>OvpnConfig\<close> the builders of \<open>main/protocols\<close>. \<open>WgAccept\<close> and \<open>WgProps\<close> prove that what is built is
  accepted; both line guards interpret one locale of line scanners.

  Handshake and purchase. \<open>ReplySignature\<close> models \<open>node-handshake.ts\<close>, \<open>reply-signature.ts\<close>,
  \<open>shared/node-signing.ts\<close>; \<open>Handshake\<close> the protocol branches of \<open>chain-service.ts\<close>; \<open>Purchase\<close> the pre-purchase
  checks, refunds and the provisioning proxy of \<open>ipc-handlers.ts\<close>; \<open>ChainTx\<close> the transactions, balance
  checks and outcomes of broadcasts; \<open>PlanConnect\<close>, \<open>Shop\<close>, \<open>SmartConnect\<close> the purchase handlers and the
  ladder of a smart connect, \<open>ChainShop\<close> the purchase of a two-hop chain by one or two wallets.
  \<open>PurchaseProps\<close>, \<open>SessionProps\<close>, \<open>SmartProps\<close> prove where money goes.

  Plans, subscriptions and the provider console. \<open>Paging\<close>: reads of a paged query. \<open>Plans\<close> and \<open>PlanHandlers\<close>
  (\<open>plans/plan-service.ts\<close>, the PLAN and SUBSCRIPTION handlers): the catalog, the nodes each plan is remembered
  to have, what a subscription costs. \<open>Economics\<close> (\<open>shared/provider-economics.ts\<close> and the renewal policies),
  \<open>ProviderMsgs\<close>, \<open>ProviderConsole\<close> (\<open>main/provider\<close>), \<open>ProviderHandlers\<close> (\<open>ipc/provider.ts\<close>): registration, plans and
  leases of a provider. \<open>ProviderProps\<close> proves that each call signs at most one message, for what was asked;
  \<open>ProviderReads\<close> that the reads are complete and the overview is the wallet's own.

  Nodes and sessions as they are listed. \<open>Nodes\<close> (\<open>main/nodes\<close>, \<open>disk-cache.ts\<close>, \<open>ipc/diagnostics.ts\<close>): the directory,
  probes and their batch, the memory of what a node says of itself, the grading for chains. \<open>SessionRows\<close>
  (\<open>chain/wallet.ts\<close>, WALLET_SESSIONS, WALLET_END_SESSION): the session list of all wallets and the end of one.

  Session, tunnel and system state. \<open>Decisions\<close> (\<open>connect-decisions.ts\<close>, \<open>vpn-parse.ts\<close>); \<open>Lifecycle\<close> (the lock,
  epochs, reconnect timer as a step relation); \<open>Firewall\<close> (kill switch and resolver with their marker
  files); \<open>Watchdog\<close> (\<open>traffic-stats.ts\<close> and the quota checks); \<open>SessionBook\<close> and \<open>SessionBookProps\<close> (what the
  app remembers about the connection); \<open>ProxyChildren\<close> (\<open>proxy-children.ts\<close>); \<open>Privileged\<close> (\<open>main/helper\<close>);
  \<open>VpnManager\<close> (\<open>vpn-manager.ts\<close>), with what it may ever do in \<open>VpnSafety\<close>, how it ends in
  \<open>VpnTeardown\<close> (a locale of steady predicates, interpreted four times) and \<open>VpnProps\<close>, and a worked
  run in \<open>VpnSamples\<close>; \<open>Supervision\<close> (the traffic check of a bring-up, the liveness monitor, the ticks of the
  watchdog, the heals of a launch); \<open>SocksAgent\<close> (\<open>socks-agent.ts\<close>); \<open>RpcHealth\<close> and \<open>RpcMonitor\<close> (\<open>shared/rpc-health.ts\<close>,
  \<open>main/chain/rpc-monitor.ts\<close>).

  Wallets. \<open>SeedGroups\<close> (\<open>shared/seed-groups.ts\<close>), \<open>Vault\<close> (\<open>settings.ts\<close>, the keys of \<open>wallet.ts\<close>),
  \<open>WalletHandlers\<close> (the WALLET and SETTINGS handlers), \<open>VaultProps\<close>, \<open>WalletSafety\<close>, \<open>WalletSamples\<close>.

  HOW THE WORLD OUTSIDE APPEARS

  Each answer of the outside is a function held in a record and a theorem holds for every such
  record: \<open>env\<close> (nodes, directory, resolvers, local set-up, random draws), \<open>chain_io\<close> (the chain and the
  event parsers of its SDK), \<open>market\<close> (a plan's nodes and their probes), \<open>keyring\<close> and \<open>derivation\<close> (sealing
  and key derivation), \<open>sys\<close> (the \<open>ip\<close> commands, the helper, the resolver, file hashes, and what happens
  while the code awaits), \<open>procfs\<close>, \<open>crypto\<close>. They are functions of the history, so a service may answer
  differently each time. \<open>JSON.parse\<close>, the URL parser, X.509 and key parsing, hashes and signatures
  are arguments. Where a property needs something of them (no forged signature, no colliding
  hash, a keyring that opens what it sealed, a helper whose teardown works), it is a named premise
  and the witness instantiates it with a concrete function.

  State that survives crashes is kept with its past: a \<open>vault\<close> holds every version of the disk it has
  gone through, so that a crash between two writes is an element of the list; \<open>Firewall\<close> keeps every call it
  made to the helper with its answer, the marker writes that failed (\<open>markKillSwitchArmed\<close> and
  \<open>markDnsOverridden\<close> swallow them) and the states between two effects of a handler, where a crash may leave it.

  BOUNDS

  No model uses fuel. The reads of a paged query may not return, when the endpoint keeps naming a next page:
  \<open>Paging\<close> makes them \<open>partial_function (option)\<close>, with \<open>None\<close> for a read that hangs, and its lemmas say when
  they return; the other loops are structural or have a measure: the handshake loop counts its retries
  down from \<open>HANDSHAKE_RETRY_MAX_RETRIES\<close> (2), the smart-connect ladder its transactions up to
  \<open>MAX_TX_ATTEMPTS\<close> (3) along a finite list of nodes; the waits at launch poll a given list of looks.

  WHAT IS SIMPLIFIED

  Strings have code units below 256. Doubles are integers where the code only ever holds whole
  numbers (amounts, bytes, milliseconds) and exact rationals where it divides; sums beyond \<open>2^53\<close> are
  exact here and rounded there. Parts of one \<open>Promise.all\<close> run in sequence, any of them allowed to fail
  first; the workers of a grading or of a rescan take their nodes or plans one after the other, while those of
  a batch of probes are interleaved. A timeout is a failed answer of the call it guards. Session records on disk are encrypted
  transparently; writes of the proxy and config files succeed, while those of the firewall's markers may fail.
  A broadcast that throws anything but a timeout is taken to have reached no node (\<open>ChainTx\<close>); the code makes no
  difference between that and a connection lost after a node took the transaction. In the wallet theories handlers run
  one at a time, while \<open>Lifecycle\<close>, \<open>RpcMonitor\<close> and \<open>VpnManager\<close> interleave. Log lines, progress messages and
  broadcasts to windows are left out.

  NOT MODELLED

  The renderer's components, hooks and contexts (views over the answers of the handlers), the
  preload bridge, window, tray and menu set-up, the set-up handlers and the package installs (they run shell
  commands and show what comes back), the speed test and the lookup of the public address, the list of other
  providers and the price service (fetches shown as they come), the connection of the chain clients, the build
  scripts, and the Go daemon, which is a program of its own in another language: the app's side of its protocol
  is \<open>Privileged\<close>.
\<close>

end
